(* ===== verification/Prelude.thy ===== *)
theory Prelude
  imports Complex_Main
begin

text \<open>
  Shared vocabulary of the development: the part of JavaScript and of lodash that the modelled
  TypeScript uses, with the generic lemmas about it.

  \<^item> A JavaScript number is an exact rational (\<open>num\<close>): the code only adds, subtracts, scales and
    compares positions and times, and rounding of doubles, NaN and infinities are left out.
  \<^item> \<open>undefined\<close> and \<open>null\<close> are \<open>None\<close>.
  \<^item> A thrown exception is \<open>Inl\<close> of an error; \<open>bind_result\<close> propagates it.
  \<^item> The array methods \<open>findIndex\<close>, \<open>splice\<close>, \<open>slice\<close>, \<open>at\<close> follow the ECMAScript rules for negative
    and out-of-range arguments.
  \<^item> A JavaScript object used as a dictionary is an association list; \<open>obj_spread\<close> is the object
    spread \<open>{...a, ...b}\<close>.
  \<^item> The locale \<open>reducer\<close> is the contract between a Redux slice and the store.
\<close>

named_theorems js_simps \<open>evaluation of the JavaScript primitives\<close>
named_theorems inv_intros \<open>preservation of the invariants of the slices\<close>

type_synonym num = rat

section \<open>Errors\<close>

text \<open>The exceptions that the modelled code throws; \<open>TypeError\<close> is raised by the language itself
  when a property of \<open>undefined\<close> is read. \<open>OutOfModel\<close> is not an exception of the program: it marks the
  inputs on which the program computes a value that the types of the model do not hold, such as NaN.\<close>

datatype js_error = JSError string | TypeError | OutOfModel

type_synonym 'a result = "js_error + 'a"

fun bind_result :: "'a result \<Rightarrow> ('a \<Rightarrow> 'b result) \<Rightarrow> 'b result" where
  "bind_result (Inl e) f = Inl e"
| "bind_result (Inr x) f = f x"

lemma bind_result_Inr [simp]:
  "bind_result r f = Inr y \<longleftrightarrow> (\<exists>x. r = Inr x \<and> f x = Inr y)"
  by (cases r) auto

fun map_result :: "('a \<Rightarrow> 'b result) \<Rightarrow> 'a list \<Rightarrow> 'b list result" where
  "map_result f [] = Inr []"
| "map_result f (x # xs) =
     bind_result (f x) (\<lambda>y. bind_result (map_result f xs) (\<lambda>ys. Inr (y # ys)))"

lemma bind_result_assoc: "bind_result (bind_result r f) g = bind_result r (\<lambda>x. bind_result (f x) g)"
  by (cases r) auto

lemma bind_result_return [simp]: "bind_result r Inr = r"
  by (cases r) auto

text \<open>A loop over a list that may throw.\<close>

fun fold_result :: "('s \<Rightarrow> 'a \<Rightarrow> 's result) \<Rightarrow> 's \<Rightarrow> 'a list \<Rightarrow> 's result" where
  "fold_result f s [] = Inr s"
| "fold_result f s (x # xs) = bind_result (f s x) (\<lambda>s'. fold_result f s' xs)"

lemma fold_result_inv:
  assumes "\<And>s x. P s \<Longrightarrow> x \<in> set xs \<Longrightarrow> \<exists>s'. f s x = Inr s' \<and> P s'" "P s"
  shows "\<exists>s'. fold_result f s xs = Inr s' \<and> P s'"
  using assms by (induction xs arbitrary: s) (simp, fastforce)

lemma fold_result_append: "fold_result f s (xs @ ys) = bind_result (fold_result f s xs) (\<lambda>s'. fold_result f s' ys)"
  by (induction xs arbitrary: s) (simp_all add: bind_result_assoc)

lemma map_result_append:
  "map_result f (xs @ ys) = bind_result (map_result f xs) (\<lambda>a. bind_result (map_result f ys) (\<lambda>b. Inr (a @ b)))"
  by (induction xs) (simp_all add: bind_result_assoc)

lemma map_result_length: "map_result f xs = Inr ys \<Longrightarrow> length ys = length xs"
  by (induction xs arbitrary: ys) auto

lemma map_result_total: "(\<And>x. x \<in> set xs \<Longrightarrow> f x = Inr (g x)) \<Longrightarrow> map_result f xs = Inr (map g xs)"
  by (induction xs) auto

lemma map_result_nth: "map_result f xs = Inr ys \<Longrightarrow> i < length xs \<Longrightarrow> f (xs ! i) = Inr (ys ! i)"
  by (induction xs arbitrary: ys i) (auto simp: less_Suc_eq_0_disj)

lemma map_result_pointwise:
  "length xs = length ys \<Longrightarrow> (\<And>i. i < length xs \<Longrightarrow> f (xs ! i) = Inr (ys ! i)) \<Longrightarrow> map_result f xs = Inr ys"
proof (induction xs ys rule: list_induct2)
  case (Cons x xs y ys)
  from Cons.prems [of 0] have "f x = Inr y" by simp
  moreover have "map_result f xs = Inr ys" using Cons.prems [of "Suc i" for i] by (intro Cons.IH) auto
  ultimately show ?case by simp
qed simp

fun filter_result :: "('a \<Rightarrow> bool result) \<Rightarrow> 'a list \<Rightarrow> 'a list result" where
  "filter_result p [] = Inr []"
| "filter_result p (x # xs) =
     bind_result (p x) (\<lambda>b. bind_result (filter_result p xs) (\<lambda>ys. Inr (if b then x # ys else ys)))"

lemma filter_result_subset: "filter_result p xs = Inr ys \<Longrightarrow> set ys \<subseteq> set xs"
  by (induction xs arbitrary: ys) (auto split: if_splits)

lemma filter_result_total:
  "(\<And>x. x \<in> set xs \<Longrightarrow> p x = Inr (q x)) \<Longrightarrow> filter_result p xs = Inr (filter q xs)"
  by (induction xs) auto

lemma filter_result_error:
  "x \<in> set xs \<Longrightarrow> p x = Inl e \<Longrightarrow> (\<And>y. y \<in> set xs \<Longrightarrow> p y = Inl e \<or> (\<exists>b. p y = Inr b)) \<Longrightarrow>
   filter_result p xs = Inl e"
proof (induction xs)
  case (Cons y ys)
  then show ?case
  proof (cases "p y = Inl e")
    case False
    with Cons.prems obtain b where "p y = Inr b" "x \<in> set ys" by auto
    with Cons show ?thesis by simp
  qed simp
qed simp

section \<open>Arrays\<close>

lemma filter_key_fresh: "k \<notin> f ` set xs \<Longrightarrow> filter (\<lambda>x. f x \<noteq> k) xs = xs"
  by (rule filter_True) (metis imageI)

text \<open>\<open>xs.findIndex(p)\<close>: the least index whose element satisfies \<open>p\<close>, and \<open>-1\<close> when there is none.\<close>

fun find_index :: "('a \<Rightarrow> bool) \<Rightarrow> 'a list \<Rightarrow> int" where
  "find_index p [] = -1"
| "find_index p (x # xs) =
     (if p x then 0 else (let i = find_index p xs in if i = -1 then -1 else i + 1))"

lemma find_index_ge: "-1 \<le> find_index p xs"
  by (induction xs) (auto simp: Let_def)

lemma find_index_lt: "find_index p xs < int (length xs)"
  by (induction xs) (auto simp: Let_def)

lemma find_index_None: "find_index p xs = -1 \<longleftrightarrow> (\<forall>x\<in>set xs. \<not> p x)"
proof (induction xs)
  case (Cons x xs)
  then show ?case using find_index_ge [of p xs] by (auto simp: Let_def)
qed simp

lemma find_index_SomeD:
  "find_index p xs = int i \<Longrightarrow> i < length xs \<and> p (xs ! i) \<and> (\<forall>j<i. \<not> p (xs ! j))"
proof (induction xs arbitrary: i)
  case (Cons x xs)
  show ?case
  proof (cases "p x")
    case True
    with Cons.prems show ?thesis by simp
  next
    case False
    with Cons.prems obtain k where i: "i = Suc k" and k: "find_index p xs = int k"
      by (cases i) (auto simp: Let_def split: if_splits)
    from Cons.IH [OF k] False show ?thesis
      unfolding i by (auto simp: less_Suc_eq_0_disj)
  qed
qed simp

lemma find_index_cases:
  obtains (none) "find_index p xs = -1" "\<forall>x\<in>set xs. \<not> p x"
  | (some) i where "find_index p xs = int i" "i < length xs" "p (xs ! i)" "\<forall>j<i. \<not> p (xs ! j)"
proof (cases "find_index p xs = -1")
  case True
  then show ?thesis using none find_index_None by metis
next
  case False
  then have "0 \<le> find_index p xs" using find_index_ge [of p xs] by linarith
  then obtain i where "find_index p xs = int i" using nonneg_int_cases by blast
  then show ?thesis using some find_index_SomeD by blast
qed

lemma find_index_nonneg:
  "\<not> find_index p xs < 0 \<Longrightarrow> \<exists>j. find_index p xs = int j \<and> j < length xs \<and> p (xs ! j)"
  by (cases rule: find_index_cases [of p xs]) auto

lemma find_index_append:
  "find_index p (xs @ ys) =
     (if find_index p xs \<noteq> -1 then find_index p xs
      else if find_index p ys = -1 then -1 else find_index p ys + int (length xs))"
proof (induction xs)
  case (Cons x xs)
  then show ?case using find_index_ge [of p xs] find_index_ge [of p ys] by (simp add: Let_def)
qed simp

text \<open>The start index that \<open>splice\<close>, \<open>slice\<close> and \<open>at\<close> derive from their argument.\<close>

definition rel_index :: "int \<Rightarrow> nat \<Rightarrow> nat" where
  "rel_index i n = (if i < 0 then nat (int n + i) else min (nat i) n)"

lemma rel_index_le: "rel_index i n \<le> n"
  by (auto simp: rel_index_def)

lemma rel_index_of_nat [simp]: "rel_index (int i) n = min i n"
  by (simp add: rel_index_def)

text \<open>\<open>xs.splice(i, 0, x)\<close>, \<open>xs.splice(i, 1)\<close>, \<open>xs.splice(i, 1, x)\<close> on a copy, and
  \<open>xs.slice(i, j)\<close>.\<close>

definition splice_insert :: "'a list \<Rightarrow> int \<Rightarrow> 'a \<Rightarrow> 'a list" where
  "splice_insert xs i x = (let k = rel_index i (length xs) in take k xs @ [x] @ drop k xs)"

definition splice_remove :: "'a list \<Rightarrow> int \<Rightarrow> 'a list" where
  "splice_remove xs i = (let k = rel_index i (length xs) in take k xs @ drop (Suc k) xs)"

definition splice_replace :: "'a list \<Rightarrow> int \<Rightarrow> 'a \<Rightarrow> 'a list" where
  "splice_replace xs i x = (let k = rel_index i (length xs) in take k xs @ [x] @ drop (Suc k) xs)"

definition js_slice :: "'a list \<Rightarrow> int \<Rightarrow> int \<Rightarrow> 'a list" where
  "js_slice xs i j =
     (let a = rel_index i (length xs); b = rel_index j (length xs) in take (b - a) (drop a xs))"

definition js_at :: "'a list \<Rightarrow> int \<Rightarrow> 'a option" where
  "js_at xs i =
     (let j = (if i < 0 then int (length xs) + i else i)
      in if 0 \<le> j \<and> j < int (length xs) then Some (xs ! nat j) else None)"

lemma length_splice_insert [simp]: "length (splice_insert xs i x) = Suc (length xs)"
  using rel_index_le [of i "length xs"] by (simp add: splice_insert_def Let_def)

lemma set_splice_insert [simp]: "set (splice_insert xs i x) = insert x (set xs)"
proof -
  let ?k = "rel_index i (length xs)"
  have "set (take ?k xs) \<union> set (drop ?k xs) = set xs"
    using set_append [of "take ?k xs" "drop ?k xs"] by simp
  then show ?thesis by (auto simp: splice_insert_def Let_def)
qed

lemma filter_splice_insert_neg:
  "\<not> p x \<Longrightarrow> filter p (splice_insert xs i x) = filter p xs"
proof -
  assume "\<not> p x"
  let ?k = "rel_index i (length xs)"
  have "filter p xs = filter p (take ?k xs) @ filter p (drop ?k xs)"
    using filter_append [of p "take ?k xs" "drop ?k xs"] by simp
  with \<open>\<not> p x\<close> show ?thesis by (simp add: splice_insert_def Let_def)
qed

text \<open>Inserting before the first greater element, or at the end, keeps a list in order.\<close>

lemma sorted_splice_insert:
  fixes f :: "'a \<Rightarrow> 'b :: linorder"
  assumes "sorted_wrt (<) (map f xs)" and "f x \<notin> f ` set xs"
    and "i = find_index (\<lambda>y. f x < f y) xs"
  shows "sorted_wrt (<) (map f (splice_insert xs (if i = -1 then int (length xs) else i) x))"
proof (cases "i = -1")
  case True
  then have "\<forall>y\<in>set xs. \<not> f x < f y" using assms(3) by (simp add: find_index_None)
  then have "\<forall>y\<in>set xs. f y < f x" using assms(2) by (metis image_eqI linorder_neqE)
  with True assms(1) show ?thesis by (simp add: splice_insert_def sorted_wrt_append)
next
  case False
  then obtain k where k: "i = int k" "k < length xs" "f x < f (xs ! k)" "\<forall>j<k. \<not> f x < f (xs ! j)"
    unfolding assms(3) by (cases rule: find_index_cases [of "\<lambda>y. f x < f y" xs]) auto
  have "sorted_wrt (<) (map f (take k xs) @ map f (drop k xs))"
    using assms(1) by (metis append_take_drop_id map_append)
  then have so: "sorted_wrt (<) (map f (take k xs))" "sorted_wrt (<) (map f (drop k xs))"
    "\<forall>a\<in>set (take k xs). \<forall>b\<in>set (drop k xs). f a < f b"
    by (auto simp: sorted_wrt_append)
  have low: "f a < f x" if a: "a \<in> set (take k xs)" for a
  proof -
    obtain j where "j < k" "a = xs ! j" using a k(2) by (auto simp: in_set_conv_nth)
    with k assms(2) have "\<not> f x < f a" "a \<in> set xs" by (auto intro: nth_mem)
    with assms(2) show ?thesis by (metis image_eqI linorder_neqE)
  qed
  have "drop k xs = xs ! k # drop (Suc k) xs" using k(2) by (simp add: Cons_nth_drop_Suc)
  then have high: "f x < f b" if "b \<in> set (drop k xs)" for b
    using that so(2) k(3) by (auto intro: less_trans)
  show ?thesis
    using so low high k by (auto simp: splice_insert_def sorted_wrt_append)
qed

lemma sorted_splice_remove: "sorted_wrt P xs \<Longrightarrow> sorted_wrt P (splice_remove xs i)"
proof (cases "rel_index i (length xs) < length xs")
  case True
  let ?k = "rel_index i (length xs)"
  assume "sorted_wrt P xs"
  then have "sorted_wrt P (take ?k xs @ xs ! ?k # drop (Suc ?k) xs)"
    using id_take_nth_drop [OF True] by simp
  then show ?thesis by (simp add: splice_remove_def Let_def sorted_wrt_append)
qed (simp add: splice_remove_def Let_def)

lemma set_splice_remove: "set (splice_remove xs i) \<subseteq> set xs"
  by (auto simp: splice_remove_def Let_def dest: in_set_takeD in_set_dropD)

lemma set_js_slice: "set (js_slice xs i j) \<subseteq> set xs"
  by (auto simp: js_slice_def Let_def dest: in_set_takeD in_set_dropD)

lemma js_at_Some: "js_at xs i = Some x \<Longrightarrow> x \<in> set xs"
  by (auto simp: js_at_def Let_def split: if_splits)

lemma js_at_0: "xs \<noteq> [] \<Longrightarrow> js_at xs 0 = Some (hd xs)"
  by (simp add: js_at_def hd_conv_nth)

lemma js_at_last: "xs \<noteq> [] \<Longrightarrow> js_at xs (-1) = Some (last xs)"
  by (simp add: js_at_def last_conv_nth nat_diff_distrib' Let_def Suc_leI)

text \<open>\<open>js_compact\<close> of lodash on an array whose only falsy element is \<open>null\<close>.\<close>

definition js_compact :: "'a option list \<Rightarrow> 'a list" where
  "js_compact xs = List.map_filter (\<lambda>x. x) xs"

lemma js_compact_simps [simp]:
  "js_compact [] = []" "js_compact (None # xs) = js_compact xs" "js_compact (Some x # xs) = x # js_compact xs"
  by (simp_all add: js_compact_def List.map_filter_simps)

lemma js_compact_map_Some [simp]: "js_compact (map Some xs) = xs"
  by (induction xs) auto

lemma js_compact_append [simp]: "js_compact (xs @ ys) = js_compact xs @ js_compact ys"
  by (simp add: js_compact_def List.map_filter_def)

lemma js_compact_map_None: "(\<And>x. x \<in> set xs \<Longrightarrow> f x = None) \<Longrightarrow> js_compact (map f xs) = []"
  by (induction xs) auto

lemma js_compact_map_id: "(\<And>x. x \<in> set xs \<Longrightarrow> f x = Some x) \<Longrightarrow> js_compact (map f xs) = xs"
  by (induction xs) auto

lemma js_compact_Some: "None \<notin> set xs \<Longrightarrow> map Some (js_compact xs) = xs"
proof (induction xs)
  case (Cons x xs)
  then show ?case by (cases x) auto
qed simp

lemma set_js_compact: "x \<in> set (js_compact xs) \<longleftrightarrow> Some x \<in> set xs"
proof (induction xs)
  case (Cons y xs)
  then show ?case by (cases y) auto
qed simp

section \<open>Objects as dictionaries\<close>

type_synonym 'v obj = "(string \<times> 'v) list"

definition obj_get :: "'v obj \<Rightarrow> string \<Rightarrow> 'v option" where
  "obj_get o1 k = map_of o1 k"

fun obj_set :: "'v obj \<Rightarrow> string \<Rightarrow> 'v \<Rightarrow> 'v obj" where
  "obj_set [] k v = [(k, v)]"
| "obj_set ((k', v') # o1) k v = (if k' = k then (k, v) # o1 else (k', v') # obj_set o1 k v)"

definition obj_spread :: "'v obj \<Rightarrow> 'v obj \<Rightarrow> 'v obj" where
  "obj_spread a b = fold (\<lambda>(k, v) acc. obj_set acc k v) b a"

lemma obj_get_set [js_simps]: "obj_get (obj_set o1 k v) k' = (if k' = k then Some v else obj_get o1 k')"
  by (induction o1 k v rule: obj_set.induct) (auto simp: obj_get_def)

lemma obj_set_not_Nil [simp]: "obj_set o1 k v \<noteq> []"
  by (cases "(o1, k, v)" rule: obj_set.cases) auto

lemma obj_spread_Nil [simp]: "obj_spread a [] = a"
  by (simp add: obj_spread_def)

lemma obj_spread_Cons: "obj_spread a ((k, v) # b) = obj_spread (obj_set a k v) b"
  by (simp add: obj_spread_def)

lemma obj_spread_base_not_Nil: "a \<noteq> [] \<Longrightarrow> obj_spread a b \<noteq> []"
proof (induction b arbitrary: a)
  case (Cons kv b)
  then show ?case by (cases kv) (simp add: obj_spread_Cons)
qed simp

lemma obj_spread_eq_Nil [simp]: "obj_spread a b = [] \<longleftrightarrow> a = [] \<and> b = []"
proof (cases b)
  case (Cons kv b')
  then show ?thesis
    by (cases kv) (simp add: obj_spread_Cons obj_spread_base_not_Nil)
qed simp

lemma obj_get_spread [js_simps]:
  "distinct (map fst b) \<Longrightarrow>
   obj_get (obj_spread a b) k = (case obj_get b k of None \<Rightarrow> obj_get a k | Some v \<Rightarrow> Some v)"
proof (induction b arbitrary: a)
  case Nil
  then show ?case by (simp add: obj_get_def)
next
  case (Cons kv b)
  obtain k' v where kv: "kv = (k', v)" by (cases kv)
  from Cons.prems have d: "distinct (map fst b)" and n: "k' \<notin> set (map fst b)"
    by (auto simp: kv)
  have "obj_spread a (kv # b) = obj_spread (obj_set a k' v) b"
    by (simp add: obj_spread_Cons kv)
  then have "obj_get (obj_spread a (kv # b)) k =
      (case obj_get b k of None \<Rightarrow> obj_get (obj_set a k' v) k | Some v \<Rightarrow> Some v)"
    using Cons.IH [OF d] by simp
  moreover have "obj_get b k' = None"
    using n by (simp add: obj_get_def map_of_eq_None_iff)
  moreover have "obj_get (kv # b) k = (if k = k' then Some v else obj_get b k)"
    by (simp add: kv obj_get_def)
  ultimately show ?case
    by (simp add: obj_get_set split: option.split)
qed

section \<open>Strings\<close>

text \<open>An optional string is truthy when it is defined and not empty.\<close>

definition truthy :: "string option \<Rightarrow> bool" where
  "truthy s = (case s of None \<Rightarrow> False | Some t \<Rightarrow> t \<noteq> [])"

text \<open>The decimal digits of a natural number, as \<open>toString\<close> and template literals print it.\<close>

definition digit_char :: "nat \<Rightarrow> char" where
  "digit_char d = char_of (48 + d)"

fun string_of_nat :: "nat \<Rightarrow> string" where
  "string_of_nat n = (if n < 10 then [digit_char n] else string_of_nat (n div 10) @ [digit_char (n mod 10)])"

declare string_of_nat.simps [simp del]

definition is_digit :: "char \<Rightarrow> bool" where
  "is_digit c = (48 \<le> (of_char c :: nat) \<and> (of_char c :: nat) \<le> 57)"

definition nat_of_string :: "string \<Rightarrow> nat" where
  "nat_of_string s = foldl (\<lambda>acc c. 10 * acc + (of_char c - 48)) 0 s"

lemma of_char_digit: "d < 10 \<Longrightarrow> (of_char (digit_char d) :: nat) = 48 + d"
  by (simp add: digit_char_def of_char_of)

lemma is_digit_digit_char: "d < 10 \<Longrightarrow> is_digit (digit_char d)"
  by (simp add: is_digit_def of_char_digit)

lemma string_of_nat_digits: "list_all is_digit (string_of_nat n) \<and> string_of_nat n \<noteq> []"
proof (induction n rule: string_of_nat.induct)
  case (1 n)
  then show ?case
    by (subst (1 2) string_of_nat.simps) (auto simp: is_digit_digit_char)
qed

lemma nat_of_string_of_nat [simp]: "nat_of_string (string_of_nat n) = n"
proof (induction n rule: string_of_nat.induct)
  case (1 n)
  show ?case
  proof (cases "n < 10")
    case True
    then show ?thesis by (subst string_of_nat.simps) (simp add: nat_of_string_def of_char_digit)
  next
    case False
    then have "nat_of_string (string_of_nat (n div 10)) = n div 10" using 1 by simp
    then show ?thesis using False
      by (subst string_of_nat.simps) (simp add: nat_of_string_def of_char_digit)
  qed
qed

section \<open>Sorting\<close>

text \<open>\<open>sortBy\<close> of lodash with a key that may be undefined: a stable sort with the undefined keys last.\<close>

definition sort_by :: "('a \<Rightarrow> 'k::linorder option) \<Rightarrow> 'a list \<Rightarrow> 'a list" where
  "sort_by key xs = sort_key (\<lambda>x. the (key x)) (filter (\<lambda>x. key x \<noteq> None) xs) @ filter (\<lambda>x. key x = None) xs"

lemma set_sort_by [simp]: "set (sort_by key xs) = set xs"
  by (auto simp: sort_by_def)

section \<open>Redux slices\<close>

text \<open>
  A slice is a reducer: the state and an action give the next state, or the reducer throws and the
  store keeps the state it had. \<open>dispatch\<close> is what the store does with one action and \<open>run\<close> what it
  does with a sequence of them. A slice that keeps an invariant on every action keeps it along
  every history of the store.
\<close>

definition dispatch :: "('s \<Rightarrow> 'a \<Rightarrow> 's result) \<Rightarrow> 's \<Rightarrow> 'a \<Rightarrow> 's" where
  "dispatch step s a = (case step s a of Inl e \<Rightarrow> s | Inr s' \<Rightarrow> s')"

definition run :: "('s \<Rightarrow> 'a \<Rightarrow> 's result) \<Rightarrow> 's \<Rightarrow> 'a list \<Rightarrow> 's" where
  "run step s as = foldl (dispatch step) s as"

locale reducer =
  fixes step :: "'s \<Rightarrow> 'a \<Rightarrow> 's result"
    and invar :: "'s \<Rightarrow> bool"
    and allowed :: "'a \<Rightarrow> bool"
  assumes step_invar: "invar s \<Longrightarrow> allowed a \<Longrightarrow> step s a = Inr s' \<Longrightarrow> invar s'"
begin

lemma dispatch_invar: "invar s \<Longrightarrow> allowed a \<Longrightarrow> invar (dispatch step s a)"
  by (auto simp: dispatch_def split: sum.split intro: step_invar)

lemma run_invar: "invar s \<Longrightarrow> list_all allowed as \<Longrightarrow> invar (run step s as)"
proof (induction as arbitrary: s)
  case Nil
  then show ?case by (simp add: run_def)
next
  case (Cons a as)
  then have "invar (run step (dispatch step s a) as)"
    by (simp add: dispatch_invar)
  then show ?case by (simp add: run_def)
qed

end

text \<open>A reducer whose callers have obligations on the state they dispatch in.\<close>

fun allowed_run :: "('s \<Rightarrow> 'a \<Rightarrow> 's result) \<Rightarrow> ('s \<Rightarrow> 'a \<Rightarrow> bool) \<Rightarrow> 's \<Rightarrow> 'a list \<Rightarrow> bool" where
  "allowed_run step allowed s [] = True"
| "allowed_run step allowed s (a # as) = (allowed s a \<and> allowed_run step allowed (dispatch step s a) as)"

locale guarded_reducer =
  fixes step :: "'s \<Rightarrow> 'a \<Rightarrow> 's result"
    and invar :: "'s \<Rightarrow> bool"
    and allowed :: "'s \<Rightarrow> 'a \<Rightarrow> bool"
  assumes guarded_step: "invar s \<Longrightarrow> allowed s a \<Longrightarrow> step s a = Inr s' \<Longrightarrow> invar s'"
begin

lemma guarded_run: "invar s \<Longrightarrow> allowed_run step allowed s as \<Longrightarrow> invar (run step s as)"
proof (induction as arbitrary: s)
  case Nil
  then show ?case by (simp add: run_def)
next
  case (Cons a as)
  then have "invar (dispatch step s a)" by (auto simp: dispatch_def split: sum.split intro: guarded_step)
  with Cons have "invar (run step (dispatch step s a) as)" by simp
  then show ?case by (simp add: run_def)
qed

end

sublocale reducer \<subseteq> guarded: guarded_reducer step invar "\<lambda>_. allowed"
  by unfold_locales (rule step_invar)

end
