(* ===== verification/LinearMetadata.thy ===== *)
theory LinearMetadata
  imports Prelude
begin

text \<open>
  The interval model of \<open>front/src/common/IntervalsDataViz/data.ts\<close>: an array of segments
  \<open>[begin, end]\<close> with further fields, edited by resizing, merging, splitting and creating segments,
  and repaired by \<open>fixLinearMetadataItems\<close>; and the view box the data is displayed through.
  The invariant is \<open>tiles a b\<close>: the segments are non-empty and cover \<open>[a, b]\<close> without gap or overlap.
\<close>

section \<open>Data\<close>

text \<open>\<open>LinearMetadataItem\<close>: \<open>begin\<close>, \<open>end\<close> and the other keys of the object.\<close>

record 'v lm_item =
  lm_begin :: num
  lm_end :: num
  lm_fields :: "'v obj"

type_synonym 'v lm = "'v lm_item list"

text \<open>The JSON values that the editors write into those keys.\<close>

datatype field_value = VNum num | VStr string | VBool bool

datatype side = Begin | End

datatype merge_policy = MergeLeft | MergeRight

type_synonym index_mapping = "nat option list"

definition SEGMENT_MIN_SIZE :: num where "SEGMENT_MIN_SIZE = 1"
definition ZOOM_RATIO :: num where "ZOOM_RATIO = 3 / 4"
definition MIN_SIZE_TO_DISPLAY :: num where "MIN_SIZE_TO_DISPLAY = 10"

definition lm_width :: "'v lm_item \<Rightarrow> num" where
  "lm_width x = lm_end x - lm_begin x"

section \<open>Operations\<close>

definition getHoveredItem :: "'v lm \<Rightarrow> num \<Rightarrow> ('v lm_item \<times> nat) option" where
  "getHoveredItem lm p =
     (let i = find_index (\<lambda>item. lm_begin item \<le> p \<and> p \<le> lm_end item) lm
      in if i \<noteq> -1 then Some (lm ! nat i, nat i) else None)"

subsection \<open>Resizing\<close>

text \<open>The bound of one segment moves by \<open>gap\<close>, then is clamped to the bounds of the whole.\<close>

definition move_bound :: "num \<Rightarrow> num \<Rightarrow> num \<Rightarrow> side \<Rightarrow> 'v lm_item \<Rightarrow> 'v lm_item" where
  "move_bound mn mx gap be item =
     (let item1 = (case be of Begin \<Rightarrow> item\<lparr>lm_begin := lm_begin item + gap\<rparr>
                            | End \<Rightarrow> item\<lparr>lm_end := lm_end item + gap\<rparr>);
          item2 = (if lm_begin item1 < mn then item1\<lparr>lm_begin := 0\<rparr> else item1)
      in if lm_end item2 > mx then item2\<lparr>lm_end := mx\<rparr> else item2)"

text \<open>The siblings of a segment that shrank are stretched to meet it.\<close>

definition stretch_siblings :: "'v lm \<Rightarrow> nat \<Rightarrow> 'v lm" where
  "stretch_siblings lm i =
     (let r1 = (if 0 < i then lm[i - 1 := (lm ! (i - 1))\<lparr>lm_end := lm_begin (lm ! i)\<rparr>] else lm)
      in if i < length lm - 1 then r1[i + 1 := (r1 ! (i + 1))\<lparr>lm_begin := lm_end (lm ! i)\<rparr>] else r1)"

text \<open>What the \<open>flatMap\<close> callback makes of the item at \<open>index\<close> when the segment at \<open>i\<close> grew to
  \<open>changed\<close>: \<open>None\<close> when the item is dropped.\<close>

definition fix_overlap :: "'v lm_item \<Rightarrow> 'v lm_item \<Rightarrow> 'v lm_item option" where
  "fix_overlap changed item =
     (if lm_begin item \<ge> lm_begin changed \<and> lm_end item \<le> lm_end changed then None
      else if lm_begin item \<le> lm_begin changed \<and> lm_end item \<ge> lm_begin changed
        then Some (item\<lparr>lm_end := lm_begin changed\<rparr>)
      else if lm_begin item \<le> lm_end changed \<and> lm_end item \<ge> lm_end changed
        then Some (item\<lparr>lm_begin := lm_end changed\<rparr>)
      else Some item)"

definition fix_entry :: "nat \<Rightarrow> 'v lm_item \<Rightarrow> num \<Rightarrow> nat \<Rightarrow> 'v lm_item \<Rightarrow> 'v lm_item option" where
  "fix_entry i changed newWidth index item =
     (if index = i then (if newWidth > 0 then Some item else None) else fix_overlap changed item)"

text \<open>The index mapping: the identity, \<open>null\<close> for the dropped items, then for the \<open>n\<close>-th kept item,
  of old index \<open>o\<close>, \<open>newIndexMapping[o] = n\<close>.\<close>

definition remap :: "'v lm_item option list \<Rightarrow> index_mapping" where
  "remap es =
     (let mapping = map (\<lambda>i. if es ! i = None then None else Some i) [0..<length es];
          newIndex = filter (\<lambda>i. es ! i \<noteq> None) [0..<length es]
      in fold (\<lambda>n m. m[newIndex ! n := Some n]) [0..<length newIndex] mapping)"

function resizeSegment ::
  "'v lm \<Rightarrow> nat \<Rightarrow> num \<Rightarrow> side \<Rightarrow> bool \<Rightarrow> ('v lm \<times> index_mapping) result" where
  "resizeSegment lm i gap be preventBoundsChanges =
     (if i \<ge> length lm then Inl (JSError ''Given index doesn't exist'')
      else let mapping = map Some [0..<length lm] in
      if preventBoundsChanges \<and> i = 0 \<and> be = Begin then Inr (lm, mapping)
      else if preventBoundsChanges \<and> i = length lm - 1 \<and> be = End then Inr (lm, mapping)
      else let mn = lm_begin (lm ! 0); mx = lm_end (last lm);
               result = lm[i := move_bound mn mx gap be (lm ! i)];
               newWidth = lm_width (result ! i);
               oldWidth = lm_width (lm ! i) in
      if newWidth > 0 then
        (if newWidth < oldWidth then Inr (stretch_siblings result i, mapping)
         else let es = map (\<lambda>k. fix_entry i (result ! i) newWidth k (result ! k)) [0..<length result]
              in Inr (js_compact es, remap es))
      else resizeSegment result (i + 1) (newWidth - oldWidth) Begin True)"
  by pat_completeness auto
termination
  by (relation "measure (\<lambda>(lm, i, gap, be, p). length lm - i)") auto

declare resizeSegment.simps [simp del]

subsection \<open>Merging and splitting\<close>

definition mergeIn :: "'v lm \<Rightarrow> int \<Rightarrow> merge_policy \<Rightarrow> 'v lm result" where
  "mergeIn lm index policy =
     (if \<not> (0 \<le> index \<and> index < int (length lm)) then Inl (JSError ''Bad merge index'')
      else if policy = MergeLeft \<and> index = 0
        then Inl (JSError ''Target segment is outside the linear metadata'')
      else if policy = MergeRight \<and> index = int (length lm) - 1
        then Inl (JSError ''Target segment is outside the linear metadata'')
      else let i = nat index in
        if policy = MergeLeft
        then Inr (take (i - 1) lm @ [(lm ! i)\<lparr>lm_begin := lm_begin (lm ! (i - 1))\<rparr>] @ drop (i + 1) lm)
        else Inr (take i lm @ [(lm ! i)\<lparr>lm_end := lm_end (lm ! (i + 1))\<rparr>] @ drop (i + 2) lm))"

definition split_item :: "num \<Rightarrow> 'v lm_item \<Rightarrow> 'v lm" where
  "split_item distance item =
     (if lm_begin item \<le> distance \<and> distance \<le> lm_end item
      then [item\<lparr>lm_end := distance\<rparr>, item\<lparr>lm_begin := distance\<rparr>]
      else [item])"

definition splitAt :: "'v lm \<Rightarrow> num \<Rightarrow> 'v lm result" where
  "splitAt lm distance =
     (if length lm < 1 then Inl (JSError ''linear metadata is empty'')
      else if distance \<ge> lm_end (last lm) \<or> distance \<le> 0
        then Inl (JSError ''split point is outside the geometry'')
      else Inr (concat (map (split_item distance) lm)))"

subsection \<open>Repairing\<close>

text \<open>\<open>removeInvalidRanges\<close> of \<open>trackEdition/utils.ts\<close>; the type of an item makes \<open>begin\<close> a number, so
  the branch for an undefined \<open>begin\<close> does not arise.\<close>

definition removeInvalidRanges :: "'v lm \<Rightarrow> num \<Rightarrow> 'v lm" where
  "removeInvalidRanges values newLength =
     map (\<lambda>item. if lm_end item \<ge> newLength then item\<lparr>lm_end := newLength\<rparr> else item)
       (filter (\<lambda>item. lm_begin item < newLength) values)"

type_synonym 'v fix_opts = "(string \<times> 'v) option"

definition opts_fields :: "'v fix_opts \<Rightarrow> 'v obj" where
  "opts_fields opts = (case opts of None \<Rightarrow> [] | Some (fieldName, defaultValue) \<Rightarrow> [(fieldName, defaultValue)])"

definition filler :: "'v fix_opts \<Rightarrow> num \<Rightarrow> num \<Rightarrow> 'v lm_item" where
  "filler opts b e = \<lparr>lm_begin = b, lm_end = e, lm_fields = opts_fields opts\<rparr>"

definition with_defaults :: "'v fix_opts \<Rightarrow> 'v lm_item \<Rightarrow> 'v lm_item" where
  "with_defaults opts item = item\<lparr>lm_fields := obj_spread (opts_fields opts) (lm_fields item)\<rparr>"

definition haveAdditionalKeys :: "'v lm_item \<Rightarrow> 'v lm_item \<Rightarrow> bool" where
  "haveAdditionalKeys item itemToCompare =
     (list_ex (\<lambda>(key, _). key \<noteq> ''begin'' \<and> key \<noteq> ''end'') (lm_fields item) \<or>
      list_ex (\<lambda>(key, _). key \<noteq> ''begin'' \<and> key \<noteq> ''end'') (lm_fields itemToCompare))"

text \<open>The \<open>flatMap\<close> callback that fills the gaps around the item at \<open>index\<close>.\<close>

definition fill_gaps_at :: "'v fix_opts \<Rightarrow> num \<Rightarrow> 'v lm \<Rightarrow> nat \<Rightarrow> 'v lm" where
  "fill_gaps_at opts lineLength array index =
     (let item = array ! index in
      if lm_begin item \<ge> lineLength then []
      else
        (if index = 0
         then (if lm_begin item \<noteq> 0 then [filler opts 0 (lm_begin item)] else []) @ [item]
         else (let prev = array ! (index - 1) in
               (if lm_end prev = lm_begin item then [with_defaults opts item] else []) @
               (if lm_end prev < lm_begin item
                then [filler opts (lm_end prev) (lm_begin item), with_defaults opts item] else []))) @
        (if index = length array - 1 \<and> lm_end item < lineLength
         then [filler opts (lm_end item) lineLength] else []))"

definition fill_gaps :: "'v fix_opts \<Rightarrow> num \<Rightarrow> 'v lm \<Rightarrow> 'v lm" where
  "fill_gaps opts lineLength array =
     concat (map (fill_gaps_at opts lineLength array) [0..<length array])"

text \<open>The \<open>while\<close> loop: each turn merges the first pair of adjacent items without further keys.\<close>

definition first_empty_pair :: "'v lm \<Rightarrow> int" where
  "first_empty_pair lm =
     find_index (\<lambda>i. 1 \<le> i \<and> lm_begin (lm ! i) = lm_end (lm ! (i - 1)) \<and>
                     \<not> haveAdditionalKeys (lm ! i) (lm ! (i - 1))) [0..<length lm]"

lemma mergeIn_length: "mergeIn lm i p = Inr lm' \<Longrightarrow> length lm' = length lm - 1 \<and> length lm' < length lm"
  by (cases p) (auto simp: mergeIn_def Let_def split: if_splits)

function merge_empty_adjacent :: "'v lm \<Rightarrow> 'v lm result" where
  "merge_empty_adjacent lm =
     (let i = first_empty_pair lm in
      if i = -1 then Inr lm
      else case mergeIn lm i MergeLeft of Inl e \<Rightarrow> Inl e | Inr lm' \<Rightarrow> merge_empty_adjacent lm')"
  by pat_completeness auto
termination
  by (relation "measure length") (auto dest: mergeIn_length)

declare merge_empty_adjacent.simps [simp del]

text \<open>The second \<open>while\<close> loop: \<open>k\<close> is \<open>index + 1\<close>, so that the loop ends at \<open>index = -1\<close>.\<close>

fun trim_tail :: "'v lm \<Rightarrow> num \<Rightarrow> nat \<Rightarrow> 'v lm result" where
  "trim_tail lm reduceLeft 0 = Inr lm"
| "trim_tail lm reduceLeft (Suc index) =
     (if \<not> reduceLeft > 0 then Inr lm
      else if index \<ge> length lm then Inl TypeError
      else let itemLength = lm_width (lm ! index) in
        if itemLength > SEGMENT_MIN_SIZE then
          let gap = (if itemLength - SEGMENT_MIN_SIZE < reduceLeft
                     then itemLength - SEGMENT_MIN_SIZE else reduceLeft)
          in bind_result (resizeSegment lm index (-1 * gap) End True)
               (\<lambda>(lm', _). trim_tail lm' (reduceLeft - gap) index)
        else trim_tail lm reduceLeft index)"

definition fixLinearMetadataItems :: "'v lm option \<Rightarrow> num \<Rightarrow> 'v fix_opts \<Rightarrow> 'v lm result" where
  "fixLinearMetadataItems items lineLength opts =
     (case items of
        None \<Rightarrow> Inr [filler opts 0 lineLength]
      | Some items \<Rightarrow>
          if items = [] then Inr [filler opts 0 lineLength]
          else
            let filteredItems = removeInvalidRanges items lineLength;
                sorted_items = sort_key lm_begin filteredItems
            in bind_result (merge_empty_adjacent (fill_gaps opts lineLength sorted_items))
                 (\<lambda>lm. if lm \<noteq> [] \<and> lm_end (last lm) > lineLength
                       then trim_tail lm (lm_end (last lm) - lineLength) (length lm)
                       else Inr lm))"

text \<open>\<open>createSegmentAt\<close>: the new segment is appended, tagged \<open>new: true\<close> on demand, and the whole is
  repaired.\<close>

definition createSegmentAt ::
  "field_value lm \<Rightarrow> num \<Rightarrow> num \<Rightarrow> num \<Rightarrow> (string \<times> field_value \<times> bool) option \<Rightarrow> field_value lm result" where
  "createSegmentAt lm distanceFrom distanceTo lineLength opts =
     (let fields = (case opts of None \<Rightarrow> []
                    | Some (fieldName, defaultValue, tagNew) \<Rightarrow>
                        obj_spread [(fieldName, defaultValue)] (if tagNew then [(''new'', VBool True)] else []));
          new = \<lparr>lm_begin = distanceFrom, lm_end = distanceTo, lm_fields = fields\<rparr>
      in fixLinearMetadataItems (Some (lm @ [new])) lineLength None)"

section \<open>View box\<close>

type_synonym viewbox = "num \<times> num"

datatype zoom = IN | OUT

definition getZoomedViewBox :: "'v lm \<Rightarrow> viewbox option \<Rightarrow> zoom \<Rightarrow> num option \<Rightarrow> viewbox option" where
  "getZoomedViewBox data currentViewBox z onPoint =
     (if length data = 0 then None
      else let mn = lm_begin (data ! 0); mx = lm_end (last data);
               fullDistance = mx - mn;
               viewBox = (case currentViewBox of None \<Rightarrow> (mn, mx) | Some vb \<Rightarrow> vb);
               distanceToDisplay = (snd viewBox - fst viewBox) * (if z = IN then ZOOM_RATIO else 1 - ZOOM_RATIO + 1)
      in if distanceToDisplay \<ge> fullDistance then None
      else let distanceToDisplay =
                 (if distanceToDisplay < MIN_SIZE_TO_DISPLAY then MIN_SIZE_TO_DISPLAY else distanceToDisplay);
               middle = fst viewBox + (snd viewBox - fst viewBox) / 2;
               point = (case onPoint of None \<Rightarrow> middle | Some p \<Rightarrow> if p = 0 then middle else p);
               b = point - distanceToDisplay / 2;
               e = point + distanceToDisplay / 2
      in if mn \<le> b \<and> e \<le> mx then Some (b, e)
      else if b < mn then Some (mn, e + (mn - b))
      else Some (b - (e - mx), mx))"

definition transalteViewBox :: "'v lm \<Rightarrow> viewbox option \<Rightarrow> num \<Rightarrow> viewbox option" where
  "transalteViewBox data currentViewBox translation =
     (if length data = 0 then None
      else case currentViewBox of
        None \<Rightarrow> None
      | Some vb \<Rightarrow>
          let mx = lm_end (last data); distanceToDisplay = snd vb - fst vb in
          if translation < 0 then
            let newMin = (if fst vb + translation > 0 then fst vb + translation else 0)
            in Some (newMin, newMin + distanceToDisplay)
          else
            let newMax = (if snd vb + translation < mx then snd vb + translation else mx)
            in Some (newMax - distanceToDisplay, newMax))"

definition crosses_viewbox :: "viewbox option \<Rightarrow> 'v lm_item \<Rightarrow> bool" where
  "crosses_viewbox currentViewBox e =
     (case currentViewBox of
        None \<Rightarrow> True
      | Some (v0, v1) \<Rightarrow>
          if v0 \<le> lm_begin e \<and> lm_begin e \<le> v1 then True
          else if v0 \<le> lm_end e \<and> lm_end e \<le> v1 then True
          else lm_begin e \<le> v0 \<and> v1 \<le> lm_end e)"

definition crop_item :: "viewbox option \<Rightarrow> 'v lm_item \<Rightarrow> 'v lm_item" where
  "crop_item currentViewBox e =
     (case currentViewBox of
        None \<Rightarrow> e
      | Some (v0, v1) \<Rightarrow>
          e\<lparr>lm_begin := (if lm_begin e < v0 then v0 else lm_begin e),
            lm_end := (if lm_end e > v1 then v1 else lm_end e)\<rparr>)"

definition cropForDatavizViewbox :: "'v lm \<Rightarrow> viewbox option \<Rightarrow> ('v lm_item \<times> nat) list" where
  "cropForDatavizViewbox data currentViewBox =
     map (\<lambda>(e, i). (crop_item currentViewBox e, i))
       (filter (\<lambda>(e, i). crosses_viewbox currentViewBox e) (zip data [0..<length data]))"

text \<open>Operational points on the line; \<open>wrapperWidth\<close> is the width of the DOM element, \<open>None\<close> while it is
  not mounted.\<close>

record op_point =
  op_id :: "string option"
  op_position :: num
  op_name :: "string option"

definition cropOperationPointsForDatavizViewbox ::
  "op_point list \<Rightarrow> viewbox option \<Rightarrow> num option \<Rightarrow> num \<Rightarrow> (op_point \<times> num) list" where
  "cropOperationPointsForDatavizViewbox ops currentViewBox wrapperWidth fullLength =
     (case wrapperWidth of
        None \<Rightarrow> []
      | Some w \<Rightarrow>
          if fullLength > 0 then
            map (\<lambda>op1.
                let lengthToDisplay = (case currentViewBox of None \<Rightarrow> op_position op1
                                       | Some (v0, v1) \<Rightarrow> op_position op1 - v0)
                in (op1, (lengthToDisplay * w) / fullLength - 2))
              (filter (\<lambda>op1. case currentViewBox of None \<Rightarrow> True
                             | Some (v0, v1) \<Rightarrow> \<not> (op_position op1 < v0 \<or> v1 < op_position op1)) ops)
          else [])"

definition getClosestOperationalPoint :: "num \<Rightarrow> (op_point \<times> num) list \<Rightarrow> (op_point \<times> num) option" where
  "getClosestOperationalPoint position ops =
     (if ops = [] then None
      else let closestPoint = hd (sort_key (\<lambda>op1. \<bar>position - snd op1\<bar>) ops)
           in if \<bar>position - snd closestPoint\<bar> \<le> 10 then Some closestPoint else None)"

definition viewboxForSelection :: "'v lm \<Rightarrow> viewbox option \<Rightarrow> nat \<Rightarrow> viewbox option result" where
  "viewboxForSelection data vb selected =
     (case vb of
        None \<Rightarrow> Inr None
      | Some (v0, v1) \<Rightarrow>
          if selected \<ge> length data then Inl TypeError
          else if lm_end (data ! selected) \<le> v0
            then Inr (transalteViewBox data vb (lm_begin (data ! selected) - v0))
          else if v1 \<le> lm_begin (data ! selected)
            then Inr (transalteViewBox data vb (lm_end (data ! selected) - v1))
          else Inr vb)"

end
