(* ===== verification/Tiling.thy ===== *)
theory Tiling
  imports LinearMetadata
begin

text \<open>
  The invariant of linear metadata and its preservation by the editing operations of
  \<open>LinearMetadata\<close>.
\<close>

section \<open>Tilings\<close>

fun tiles :: "num \<Rightarrow> num \<Rightarrow> 'v lm \<Rightarrow> bool" where
  "tiles a b [] = (a = b)"
| "tiles a b (x # xs) = (lm_begin x = a \<and> a < lm_end x \<and> tiles (lm_end x) b xs)"

lemma tiles_append [simp]: "tiles a b (xs @ ys) \<longleftrightarrow> (\<exists>m. tiles a m xs \<and> tiles m b ys)"
  by (induction xs arbitrary: a) auto

lemma tiles_le: "tiles a b xs \<Longrightarrow> a \<le> b"
  by (induction xs arbitrary: a) fastforce+

lemma tiles_bounds: "tiles a b xs \<Longrightarrow> x \<in> set xs \<Longrightarrow> a \<le> lm_begin x \<and> lm_begin x < lm_end x \<and> lm_end x \<le> b"
  by (induction xs arbitrary: a) (fastforce dest: tiles_le)+

lemma tiles_last: "tiles a b xs \<Longrightarrow> xs \<noteq> [] \<Longrightarrow> lm_end (last xs) = b"
  by (induction xs arbitrary: a) (auto split: if_splits)

lemma tiles_first: "tiles a b xs \<Longrightarrow> xs \<noteq> [] \<Longrightarrow> lm_begin (xs ! 0) = a"
  by (cases xs) auto

lemma tiles_empty: "tiles a a xs \<Longrightarrow> xs = []"
  by (cases xs) (auto dest: tiles_le)

lemma tiles_split_at:
  "i < length lm \<Longrightarrow> tiles a b lm \<Longrightarrow>
   \<exists>xs x ys m. lm = xs @ x # ys \<and> length xs = i \<and> lm ! i = x \<and> tiles a m xs \<and>
     lm_begin x = m \<and> m < lm_end x \<and> tiles (lm_end x) b ys"
proof -
  assume i: "i < length lm" and t: "tiles a b lm"
  have lm: "lm = take i lm @ lm ! i # drop (Suc i) lm"
    using i by (simp add: id_take_nth_drop)
  with t obtain m where "tiles a m (take i lm)" "tiles m b (lm ! i # drop (Suc i) lm)"
    by (metis tiles_append)
  with i lm show ?thesis by (metis length_take min.absorb4 tiles.simps(2))
qed

section \<open>Growing a segment\<close>

abbreviation fix_overlaps :: "'v lm_item \<Rightarrow> 'v lm \<Rightarrow> 'v lm" where
  "fix_overlaps changed xs \<equiv> js_compact (map (fix_overlap changed) xs)"

text \<open>Items to the left of a segment that keeps its beginning, and to the right of one that keeps its
  end, are left alone; those that it grows over are cut at its new bound.\<close>

lemma fix_overlaps_left_same:
  assumes "tiles a (lm_begin c) xs" and "lm_begin c < lm_end c"
  shows "fix_overlaps c xs = xs"
proof -
  have "fix_overlap c x = Some x" if "x \<in> set xs" for x
    using tiles_bounds [OF assms(1) that] assms(2)
    by (auto simp: fix_overlap_def)
  then show ?thesis by (rule js_compact_map_id)
qed

lemma fix_overlaps_right_same:
  assumes "tiles (lm_end c) b xs" and "lm_begin c < lm_end c"
  shows "fix_overlaps c xs = xs"
proof -
  have "fix_overlap c x = Some x" if "x \<in> set xs" for x
    using tiles_bounds [OF assms(1) that] assms(2)
    by (auto simp: fix_overlap_def)
  then show ?thesis by (rule js_compact_map_id)
qed

lemma fix_overlaps_right:
  "tiles m b xs \<Longrightarrow> lm_begin c < m \<Longrightarrow> m \<le> lm_end c \<Longrightarrow> lm_end c \<le> b \<Longrightarrow>
   tiles (lm_end c) b (fix_overlaps c xs)"
proof (induction xs arbitrary: m)
  case (Cons x xs)
  show ?case
  proof (cases "lm_end x \<le> lm_end c")
    case True
    with Cons show ?thesis by (auto simp: fix_overlap_def)
  next
    case False
    with Cons.prems have "fix_overlap c x = Some (x\<lparr>lm_begin := lm_end c\<rparr>)"
      by (auto simp: fix_overlap_def)
    moreover have "fix_overlaps c xs = xs"
    proof -
      have "fix_overlap c y = Some y" if "y \<in> set xs" for y
        using tiles_bounds [of "lm_end x" b xs y] that Cons.prems False
        by (auto simp: fix_overlap_def)
      then show ?thesis by (rule js_compact_map_id)
    qed
    ultimately show ?thesis using False Cons.prems by simp
  qed
qed auto

lemma fix_overlaps_left:
  "tiles a m xs \<Longrightarrow> a \<le> lm_begin c \<Longrightarrow> lm_begin c \<le> m \<Longrightarrow> m \<le> lm_end c \<Longrightarrow> lm_begin c < lm_end c \<Longrightarrow>
   tiles a (lm_begin c) (fix_overlaps c xs)"
proof (induction xs arbitrary: a)
  case (Cons x xs)
  show ?case
  proof (cases "lm_begin x < lm_begin c")
    case True
    show ?thesis
    proof (cases "lm_end x \<le> lm_begin c")
      case le: True
      with Cons.prems True have "fix_overlap c x = Some x"
        by (auto simp: fix_overlap_def)
      with Cons le show ?thesis by auto
    next
      case False
      have "fix_overlap c y = None" if "y \<in> set xs" for y
        using tiles_bounds [of "lm_end x" m xs y] that Cons.prems False
        by (auto simp: fix_overlap_def)
      then have "fix_overlaps c xs = []"
        by (rule js_compact_map_None)
      moreover have "fix_overlap c x = Some (x\<lparr>lm_end := lm_begin c\<rparr>)"
        using True False by (auto simp: fix_overlap_def)
      ultimately show ?thesis using True Cons.prems by simp
    qed
  next
    case False
    have "fix_overlap c y = None" if "y \<in> set (x # xs)" for y
      using tiles_bounds [OF Cons.prems(1) that] Cons.prems False
      by (auto simp: fix_overlap_def)
    then have "fix_overlaps c (x # xs) = []"
      by (rule js_compact_map_None)
    with False Cons.prems show ?thesis by simp
  qed
qed auto


section \<open>Resizing keeps the tiling\<close>

text \<open>The branches of \<open>resizeSegment\<close> on a list split at the segment that changes.\<close>

lemma fix_entries:
  "map (\<lambda>k. fix_entry (length xs) c w k ((xs @ c # ys) ! k)) [0..<length (xs @ c # ys)] =
   map (fix_overlap c) xs @ (if w > 0 then Some c else None) # map (fix_overlap c) ys"
  by (rule nth_equalityI) (auto simp: fix_entry_def nth_append nth_Cons simp del: upt_Suc split: nat.splits)

definition prevented :: "'v lm \<Rightarrow> nat \<Rightarrow> side \<Rightarrow> bool" where
  "prevented lm i be \<longleftrightarrow> (i = 0 \<and> be = Begin) \<or> (i = length lm - 1 \<and> be = End)"

definition moved :: "'v lm \<Rightarrow> num \<Rightarrow> side \<Rightarrow> 'v lm_item \<Rightarrow> 'v lm_item" where
  "moved lm gap be x = move_bound (lm_begin (lm ! 0)) (lm_end (last lm)) gap be x"

lemma resize_prevented:
  "i < length lm \<Longrightarrow> prevented lm i be \<Longrightarrow>
   resizeSegment lm i gap be True = Inr (lm, map Some [0..<length lm])"
  by (auto simp: resizeSegment.simps [of lm i] prevented_def Let_def)

lemma resize_unfold:
  assumes "i < length lm" and "\<not> (p \<and> prevented lm i be)" and "c = moved lm gap be (lm ! i)"
    and "result = lm[i := c]"
    and "es = map (\<lambda>k. fix_entry i c (lm_width c) k (result ! k)) [0..<length result]"
  shows "resizeSegment lm i gap be p =
     (if 0 < lm_width c then
        if lm_width c < lm_width (lm ! i)
        then Inr (stretch_siblings result i, map Some [0..<length lm])
        else Inr (js_compact es, remap es)
      else resizeSegment result (Suc i) (lm_width c - lm_width (lm ! i)) Begin True)"
proof -
  have "lm[i := move_bound (lm_begin (lm ! 0)) (lm_end (last lm)) gap be (lm ! i)] ! i = c"
    using assms by (simp add: moved_def)
  with assms show ?thesis
    by (subst resizeSegment.simps) (auto simp: Let_def prevented_def moved_def)
qed

lemma resize_grow:
  assumes "lm = xs @ x # ys" and "\<not> (p \<and> prevented lm (length xs) be)"
    and "c = moved lm gap be x" and "0 < lm_width c" and "lm_width x \<le> lm_width c"
  shows "resizeSegment lm (length xs) gap be p =
     Inr (fix_overlaps c xs @ c # fix_overlaps c ys,
          remap (map (fix_overlap c) xs @ Some c # map (fix_overlap c) ys))"
proof -
  have "lm[length xs := c] = xs @ c # ys" "lm ! length xs = x" "length xs < length lm"
    using assms(1) by auto
  then show ?thesis
    using assms resize_unfold [of "length xs" lm p be c gap "xs @ c # ys", OF _ assms(2) _ _ refl]
    by (simp add: fix_entries del: upt_Suc length_append list.size)
qed

lemma resize_shrink:
  assumes "lm = xs @ x # ys" and "\<not> (p \<and> prevented lm (length xs) be)"
    and "c = moved lm gap be x" and "0 < lm_width c" and "lm_width c < lm_width x"
  shows "resizeSegment lm (length xs) gap be p =
     Inr (stretch_siblings (xs @ c # ys) (length xs), map Some [0..<length lm])"
proof -
  have "lm[length xs := c] = xs @ c # ys" "lm ! length xs = x" "length xs < length lm"
    using assms(1) by auto
  then show ?thesis
    using assms resize_unfold [of "length xs" lm p be c gap "xs @ c # ys", OF _ assms(2) _ _ refl]
    by simp
qed

lemma resize_collapse:
  assumes "lm = xs @ x # ys" and "\<not> (p \<and> prevented lm (length xs) be)"
    and "c = moved lm gap be x" and "\<not> 0 < lm_width c"
  shows "resizeSegment lm (length xs) gap be p =
     resizeSegment (xs @ c # ys) (length (xs @ [c])) (lm_width c - lm_width x) Begin True"
proof -
  have "lm[length xs := c] = xs @ c # ys" "lm ! length xs = x" "length xs < length lm"
    using assms(1) by auto
  then show ?thesis
    using assms resize_unfold [of "length xs" lm p be c gap "xs @ c # ys", OF _ assms(2) _ _ refl]
    by simp
qed

lemma stretch_siblings_split:
  "stretch_siblings (xs @ c # ys) (length xs) =
   (if xs = [] then [] else butlast xs @ [(last xs)\<lparr>lm_end := lm_begin c\<rparr>]) @ c #
   (case ys of [] \<Rightarrow> [] | y # ys' \<Rightarrow> y\<lparr>lm_begin := lm_end c\<rparr> # ys')"
proof (cases xs rule: rev_cases)
  case Nil
  then show ?thesis by (cases ys) (auto simp: stretch_siblings_def Let_def)
next
  case (snoc xs' x)
  then show ?thesis
    by (cases ys) (auto simp: stretch_siblings_def Let_def nth_append list_update_append)
qed

lemma tiles_stretch_left:
  "tiles a m xs \<Longrightarrow> xs \<noteq> [] \<Longrightarrow> m \<le> m' \<Longrightarrow>
   tiles a m' (butlast xs @ [(last xs)\<lparr>lm_end := m'\<rparr>])"
  by (cases xs rule: rev_cases) auto

lemma tiles_stretch_right:
  "tiles m b (y # ys) \<Longrightarrow> m' \<le> m \<Longrightarrow> tiles m' b (y\<lparr>lm_begin := m'\<rparr> # ys)"
  by auto


lemma stretch_tiles:
  assumes "tiles a m xs" and "m \<le> lm_begin c" and "xs = [] \<Longrightarrow> lm_begin c = a"
    and "lm_begin c < lm_end c" and "lm_end c \<le> m'" and "tiles m' b ys" and "ys = [] \<Longrightarrow> lm_end c = b"
  shows "tiles a b (stretch_siblings (xs @ c # ys) (length xs))"
proof -
  have "tiles a (lm_begin c) (if xs = [] then [] else butlast xs @ [(last xs)\<lparr>lm_end := lm_begin c\<rparr>])"
    using assms(1-3) tiles_stretch_left [of a m xs "lm_begin c"] by simp
  moreover have "tiles (lm_end c) b (case ys of [] \<Rightarrow> [] | y # ys' \<Rightarrow> y\<lparr>lm_begin := lm_end c\<rparr> # ys')"
    using assms(5-7) by (cases ys) auto
  ultimately show ?thesis
    unfolding stretch_siblings_split tiles_append tiles.simps using assms(4) by blast
qed

lemma grow_begin_tiles:
  assumes "tiles a m xs" and "\<And>z. z \<in> set zs \<Longrightarrow> fix_overlap c z = None"
    and "a \<le> lm_begin c" and "lm_begin c \<le> m" and "m \<le> lm_end c" and "lm_begin c < lm_end c"
    and "tiles (lm_end c) b ys"
  shows "tiles a b (fix_overlaps c (xs @ zs) @ c # fix_overlaps c ys)"
  using fix_overlaps_left [OF assms(1,3,4,5,6)] assms
  by (auto simp: js_compact_map_None fix_overlaps_right_same)

lemma grow_end_tiles:
  assumes "tiles a (lm_begin c) xs" and "tiles m b ys"
    and "lm_begin c < m" and "m \<le> lm_end c" and "lm_end c \<le> b"
  shows "tiles a b (fix_overlaps c xs @ c # fix_overlaps c ys)"
  using fix_overlaps_right [OF assms(2-5)] assms
  by (auto simp: fix_overlaps_left_same)

lemma moved_End:
  assumes "lm_begin (lm ! 0) \<le> lm_begin x" and "lm_end (last lm) = b"
  shows "moved lm gap End x = x\<lparr>lm_end := min (lm_end x + gap) b\<rparr>"
  using assms by (auto simp: moved_def move_bound_def Let_def min_def)

lemma moved_Begin:
  assumes "lm_begin (lm ! 0) = 0" and "lm_end x \<le> lm_end (last lm)"
  shows "moved lm gap Begin x = x\<lparr>lm_begin := max (lm_begin x + gap) 0\<rparr>"
  using assms by (auto simp: moved_def move_bound_def Let_def max_def)

text \<open>A segment that collapses hands the move over to its right neighbour, which then covers it.\<close>

lemma collapse_tiles:
  assumes "tiles 0 m xs" and "m \<le> lm_end y" and "0 \<le> lm_begin y" "lm_begin y < lm_end y"
    and "tiles (lm_end y) b ys" and lm: "lm = xs @ c # y # ys" and "lm_begin (lm ! 0) = 0"
    and "g < 0" and "lm_begin y + g \<le> m" and "0 \<le> lm_begin c" and "lm_begin y + g \<le> lm_begin c"
    and "lm_end c \<le> lm_end y"
  shows "\<exists>lm' mp. resizeSegment lm (length (xs @ [c])) g Begin True = Inr (lm', mp) \<and> tiles 0 b lm'"
proof -
  define y' where "y' = y\<lparr>lm_begin := max (lm_begin y + g) 0\<rparr>"
  have "lm_end (last lm) = b"
    using assms(5) lm by (cases ys) (auto simp: tiles_last)
  moreover have "lm_end y \<le> b" using assms(5) by (rule tiles_le)
  ultimately have y': "y' = moved lm g Begin y"
    using assms(7) by (simp add: moved_Begin y'_def)
  have "0 \<le> m" using assms(1) by (rule tiles_le)
  have pos: "0 < lm_width y'" "lm_width y \<le> lm_width y'"
    using assms(3,4,8) by (auto simp: y'_def lm_width_def)
  have "resizeSegment lm (length (xs @ [c])) g Begin True =
     Inr (fix_overlaps y' (xs @ [c]) @ y' # fix_overlaps y' ys,
          remap (map (fix_overlap y') (xs @ [c]) @ Some y' # map (fix_overlap y') ys))"
    by (rule resize_grow [OF _ _ y' pos]) (auto simp: lm prevented_def)
  moreover have "tiles 0 b (fix_overlaps y' (xs @ [c]) @ y' # fix_overlaps y' ys)"
  proof (rule grow_begin_tiles [OF assms(1)])
    show "\<And>z. z \<in> set [c] \<Longrightarrow> fix_overlap y' z = None"
      using assms(10-12) by (auto simp: fix_overlap_def y'_def)
  qed (use assms \<open>0 \<le> m\<close> in \<open>auto simp: y'_def\<close>)
  ultimately show ?thesis by blast
qed

text \<open>Moving the end of a segment that has a right neighbour.\<close>

lemma resize_End_tiles:
  assumes t: "tiles 0 m xs" "lm_begin x = m" "m < lm_end x" "tiles (lm_end x) L ys"
    and lm: "lm = xs @ x # ys" and ys: "ys \<noteq> []"
  shows "\<exists>lm' mp. resizeSegment lm (length xs) gap End True = Inr (lm', mp) \<and> tiles 0 L lm'"
proof -
  obtain y ys' where y: "ys = y # ys'" using ys by (cases ys) auto
  have T: "tiles 0 L lm" using t lm by auto
  have "lm_begin (lm ! 0) = 0" "lm_end (last lm) = L"
    using T lm by (auto intro: tiles_first tiles_last)
  have "0 \<le> m" using t(1) by (rule tiles_le)
  define c where "c = x\<lparr>lm_end := min (lm_end x + gap) L\<rparr>"
  have c: "c = moved lm gap End x"
    using \<open>0 \<le> m\<close> t(2) \<open>lm_begin (lm ! 0) = 0\<close> \<open>lm_end (last lm) = L\<close>
    by (simp add: moved_End c_def)
  have np: "\<not> (True \<and> prevented lm (length xs) End)" using lm ys by (simp add: prevented_def)
  consider (shrink) "0 < lm_width c" "lm_width c < lm_width x"
    | (grow) "0 < lm_width c" "lm_width x \<le> lm_width c" | (collapse) "\<not> 0 < lm_width c" by linarith
  then show ?thesis
  proof cases
    case shrink
    have "tiles 0 L (stretch_siblings (xs @ c # ys) (length xs))"
      by (rule stretch_tiles [OF t(1) _ _ _ _ t(4)])
        (use t shrink ys in \<open>auto simp: c_def lm_width_def\<close>)
    then show ?thesis using resize_shrink [OF lm np c shrink] by blast
  next
    case grow
    have "tiles 0 L (fix_overlaps c xs @ c # fix_overlaps c ys)"
      by (rule grow_end_tiles [where m = "lm_end x"])
        (use t grow in \<open>auto simp: c_def lm_width_def\<close>)
    then show ?thesis using resize_grow [OF lm np c grow] by blast
  next
    case collapse
    have "lm_end x \<le> L" using t(4) by (rule tiles_le)
    have "\<exists>lm' mp. resizeSegment (xs @ c # ys) (length (xs @ [c])) (lm_width c - lm_width x) Begin True =
        Inr (lm', mp) \<and> tiles 0 L lm'"
      by (rule collapse_tiles [OF t(1), where y = y and ys = ys'])
        (use t y collapse \<open>0 \<le> m\<close> \<open>lm_begin (lm ! 0) = 0\<close> lm \<open>lm_end x \<le> L\<close> in
          \<open>auto simp: c_def lm_width_def min_def nth_append split: if_splits\<close>)
    then show ?thesis using resize_collapse [OF lm np c collapse] by simp
  qed
qed


text \<open>Moving the beginning of a segment that has a left neighbour. A last segment that collapses has
  no right neighbour to hand the move over to, and the code throws.\<close>

lemma resize_Begin_tiles:
  assumes t: "tiles 0 m xs" "lm_begin x = m" "m < lm_end x" "tiles (lm_end x) L ys"
    and lm: "lm = xs @ x # ys" and xs: "xs \<noteq> []" and ok: "ys \<noteq> [] \<or> gap < lm_width x"
  shows "\<exists>lm' mp. resizeSegment lm (length xs) gap Begin True = Inr (lm', mp) \<and> tiles 0 L lm'"
proof -
  have T: "tiles 0 L lm" using t lm by auto
  have fl: "lm_begin (lm ! 0) = 0" "lm_end (last lm) = L"
    using T lm by (auto intro: tiles_first tiles_last)
  have "0 \<le> m" using t(1) by (rule tiles_le)
  have "lm_end x \<le> L" using t(4) by (rule tiles_le)
  define c where "c = x\<lparr>lm_begin := max (lm_begin x + gap) 0\<rparr>"
  have c: "c = moved lm gap Begin x"
    using fl \<open>lm_end x \<le> L\<close> by (simp add: moved_Begin c_def)
  have np: "\<not> (True \<and> prevented lm (length xs) Begin)" using lm xs by (simp add: prevented_def)
  consider (shrink) "0 < lm_width c" "lm_width c < lm_width x"
    | (grow) "0 < lm_width c" "lm_width x \<le> lm_width c" | (collapse) "\<not> 0 < lm_width c" by linarith
  then show ?thesis
  proof cases
    case shrink
    have "tiles 0 L (stretch_siblings (xs @ c # ys) (length xs))"
      by (rule stretch_tiles [OF t(1) _ _ _ _ t(4)])
        (use t shrink xs in \<open>auto simp: c_def lm_width_def\<close>)
    then show ?thesis using resize_shrink [OF lm np c shrink] by blast
  next
    case grow
    have "tiles 0 L (fix_overlaps c (xs @ []) @ c # fix_overlaps c ys)"
      by (rule grow_begin_tiles [OF t(1)])
        (use t grow \<open>0 \<le> m\<close> in \<open>auto simp: c_def lm_width_def\<close>)
    then show ?thesis using resize_grow [OF lm np c grow] by auto
  next
    case collapse
    then have "ys \<noteq> []" using ok t \<open>0 \<le> m\<close> by (auto simp: c_def lm_width_def)
    then obtain y ys' where y: "ys = y # ys'" by (cases ys) auto
    have "(xs @ c # ys) ! 0 = lm ! 0" using lm xs by (simp add: nth_append)
    have "\<exists>lm' mp. resizeSegment (xs @ c # ys) (length (xs @ [c])) (lm_width c - lm_width x) Begin True =
        Inr (lm', mp) \<and> tiles 0 L lm'"
      by (rule collapse_tiles [OF t(1), where y = y and ys = ys'])
        (use t y collapse \<open>0 \<le> m\<close> fl \<open>(xs @ c # ys) ! 0 = lm ! 0\<close> in
          \<open>auto simp: c_def lm_width_def max_def split: if_splits\<close>)
    then show ?thesis using resize_collapse [OF lm np c collapse] by simp
  qed
qed

lemma resize_Begin_last_throws:
  assumes t: "tiles 0 m xs" "lm_begin x = m" "m < lm_end x" "lm_end x = L"
    and lm: "lm = xs @ [x]" and xs: "xs \<noteq> []" and "lm_width x \<le> gap"
  shows "resizeSegment lm (length xs) gap Begin True = Inl (JSError ''Given index doesn't exist'')"
proof -
  have "0 \<le> m" using t(1) by (rule tiles_le)
  have "lm_begin (lm ! 0) = 0" using tiles_first [OF t(1) xs] lm xs by (simp add: nth_append)
  define c where "c = x\<lparr>lm_begin := max (lm_begin x + gap) 0\<rparr>"
  have c: "c = moved lm gap Begin x"
    using \<open>lm_begin (lm ! 0) = 0\<close> lm by (simp add: moved_Begin c_def)
  have np: "\<not> (True \<and> prevented lm (length xs) Begin)" using lm xs by (simp add: prevented_def)
  have "\<not> 0 < lm_width c" using assms(7) by (auto simp: c_def lm_width_def)
  from resize_collapse [OF lm np c this]
  show ?thesis by (simp add: resizeSegment.simps [of _ "Suc (length xs)"])
qed

lemma resizeSegment_outcome:
  assumes T: "tiles 0 L lm" and i: "i < length lm"
  shows "if be = Begin \<and> 0 < i \<and> i = length lm - 1 \<and> lm_width (lm ! i) \<le> gap
         then resizeSegment lm i gap be True = Inl (JSError ''Given index doesn't exist'')
         else \<exists>lm' mp. resizeSegment lm i gap be True = Inr (lm', mp) \<and> tiles 0 L lm'"
proof (cases "prevented lm i be")
  case True
  then show ?thesis using resize_prevented [OF i True] T by (auto simp: prevented_def)
next
  case False
  obtain xs x ys m where s: "lm = xs @ x # ys" "length xs = i" "lm ! i = x"
    and t: "tiles 0 m xs" "lm_begin x = m" "m < lm_end x" "tiles (lm_end x) L ys"
    using tiles_split_at [OF i T] by blast
  show ?thesis
  proof (cases be)
    case End
    then have "ys \<noteq> []" using False s by (auto simp: prevented_def)
    from resize_End_tiles [OF t s(1) this, of gap] show ?thesis using End s by simp
  next
    case Begin
    then have xs: "xs \<noteq> []" using False s by (auto simp: prevented_def)
    show ?thesis
    proof (cases "ys = [] \<and> lm_width x \<le> gap")
      case True
      then have "lm_end x = L" using t by simp
      from resize_Begin_last_throws [OF t(1-3) this _ xs] True s show ?thesis using Begin xs by auto
    next
      case False
      then have "ys \<noteq> [] \<or> gap < lm_width x" by auto
      from resize_Begin_tiles [OF t s(1) xs this] show ?thesis using Begin s False by auto
    qed
  qed
qed


text \<open>Without \<open>preventBoundsChanges\<close> the two outer bounds of the line can move. Elsewhere the flag is
  not read.\<close>

lemma resize_inner_bound:
  assumes "i < length lm" and "\<not> prevented lm i be"
  shows "resizeSegment lm i gap be False = resizeSegment lm i gap be True"
  using resize_unfold [of i lm False be, OF assms(1) _ refl refl refl, of gap]
    resize_unfold [of i lm True be, OF assms(1) _ refl refl refl, of gap] assms(2) by simp

lemma fix_overlaps_unchanged:
  assumes "tiles a (lm_begin c) xs" and "lm_begin c < lm_end c" and "tiles (lm_end c) b ys"
  shows "tiles a b (fix_overlaps c xs @ c # fix_overlaps c ys)"
  using assms by (simp add: fix_overlaps_left_same [OF assms(1,2)] fix_overlaps_right_same [OF assms(3,2)])

text \<open>The end of the last segment: it is drawn back with the segment, and never passes the end of the
  line.\<close>

lemma resize_outer_end:
  assumes t: "tiles 0 m xs" "lm_begin x = m" "m < lm_end x" "lm_end x = L" and lm: "lm = xs @ [x]"
  shows "if gap \<le> - lm_width x
         then resizeSegment lm (length xs) gap End False = Inl (JSError ''Given index doesn't exist'')
         else \<exists>lm' mp. resizeSegment lm (length xs) gap End False = Inr (lm', mp) \<and>
           tiles 0 (if gap < 0 then L + gap else L) lm'"
proof -
  have T: "tiles 0 L lm" using t lm by auto
  have "0 \<le> m" using t(1) by (rule tiles_le)
  have fl: "lm_begin (lm ! 0) = 0" "lm_end (last lm) = L"
    using T lm by (auto intro: tiles_first tiles_last)
  define c where "c = x\<lparr>lm_end := min (lm_end x + gap) L\<rparr>"
  have c: "c = moved lm gap End x" using fl t(2) \<open>0 \<le> m\<close> by (simp add: moved_End c_def)
  have np: "\<not> (False \<and> prevented lm (length xs) End)" by simp
  consider (shrink) "0 < lm_width c" "lm_width c < lm_width x"
    | (grow) "0 < lm_width c" "lm_width x \<le> lm_width c" | (collapse) "\<not> 0 < lm_width c" by linarith
  then show ?thesis
  proof cases
    case shrink
    have "tiles 0 (L + gap) (stretch_siblings (xs @ c # []) (length xs))"
      by (rule stretch_tiles [OF t(1), where m' = "L + gap"])
        (use t shrink in \<open>auto simp: c_def lm_width_def\<close>)
    then show ?thesis
      using resize_shrink [OF lm np c shrink] shrink t by (auto simp: c_def lm_width_def)
  next
    case grow
    have "tiles 0 L (fix_overlaps c xs @ c # fix_overlaps c [])"
      by (rule fix_overlaps_unchanged) (use t grow in \<open>auto simp: c_def lm_width_def\<close>)
    then show ?thesis using resize_grow [OF lm np c grow] grow t by (auto simp: c_def lm_width_def)
  next
    case collapse
    from resize_collapse [OF lm np c this] collapse t show ?thesis
      by (auto simp: c_def lm_width_def resizeSegment.simps [of _ "Suc (length xs)"])
  qed
qed

text \<open>The beginning of the first segment: pushed past its end it makes room for the second segment,
  which then starts the line again at 0.\<close>

lemma collapse_first_tiles:
  assumes "tiles w b (y # ys)" and "0 < w" and "w \<le> gap" and "lm_begin c = gap" and "lm_end c = w"
  shows "\<exists>lm' mp. resizeSegment (c # y # ys) (Suc 0) (- gap) Begin True = Inr (lm', mp) \<and> tiles 0 b lm'"
proof -
  define y' where "y' = y\<lparr>lm_begin := 0\<rparr>"
  have "lm_end (last (c # y # ys)) = b" using assms(1) by (auto simp: tiles_last)
  moreover have "lm_end y \<le> b" using assms(1) by (auto dest: tiles_le)
  ultimately have y': "y' = moved (c # y # ys) (- gap) Begin y"
    using assms by (auto simp: y'_def moved_def move_bound_def Let_def)
  have lm: "c # y # ys = [c] @ y # ys" by simp
  have np: "\<not> (True \<and> prevented (c # y # ys) (length [c]) Begin)" by (simp add: prevented_def)
  have pos: "0 < lm_width y'" "lm_width y \<le> lm_width y'" using assms by (auto simp: y'_def lm_width_def)
  have "fix_overlap y' c = None" using assms by (auto simp: fix_overlap_def y'_def)
  moreover have "fix_overlaps y' ys = ys"
    by (rule fix_overlaps_right_same) (use assms in \<open>auto simp: y'_def\<close>)
  ultimately show ?thesis
    using resize_grow [OF lm np y' pos] assms by (auto simp: y'_def)
qed

lemma resize_outer_begin:
  assumes t: "lm_begin x = 0" "0 < lm_end x" "tiles (lm_end x) L ys" and lm: "lm = x # ys"
  shows "if ys = [] \<and> lm_width x \<le> gap
         then resizeSegment lm 0 gap Begin False = Inl (JSError ''Given index doesn't exist'')
         else \<exists>lm' mp. resizeSegment lm 0 gap Begin False = Inr (lm', mp) \<and>
           tiles (if 0 < gap \<and> gap < lm_width x then gap else 0) L lm'"
proof -
  have "lm_end x \<le> L" using t(3) by (rule tiles_le)
  moreover have "lm_end (last lm) = L" using t(3) lm by (auto simp: tiles_last)
  moreover define c where "c = x\<lparr>lm_begin := max gap 0\<rparr>"
  ultimately have c: "c = moved lm gap Begin x" using t lm by (simp add: moved_Begin)
  have split: "lm = [] @ x # ys" using lm by simp
  have np: "\<not> (False \<and> prevented lm (length ([] :: 'a lm)) Begin)" by simp
  consider (shrink) "0 < lm_width c" "lm_width c < lm_width x"
    | (grow) "0 < lm_width c" "lm_width x \<le> lm_width c" | (collapse) "\<not> 0 < lm_width c" by linarith
  then show ?thesis
  proof cases
    case shrink
    have "tiles gap L (stretch_siblings ([] @ c # ys) (length ([] :: 'a lm)))"
      by (rule stretch_tiles [OF _ _ _ _ _ t(3), where m = gap])
        (use t shrink in \<open>auto simp: c_def lm_width_def\<close>)
    then show ?thesis using resize_shrink [OF split np c shrink] shrink t by (auto simp: c_def lm_width_def)
  next
    case grow
    have "tiles 0 L (fix_overlaps c [] @ c # fix_overlaps c ys)"
      by (rule fix_overlaps_unchanged) (use t grow in \<open>auto simp: c_def lm_width_def\<close>)
    then show ?thesis using resize_grow [OF split np c grow] grow t by (auto simp: c_def lm_width_def)
  next
    case collapse
    then have gap: "lm_end x \<le> gap" using t by (auto simp: c_def lm_width_def)
    with resize_collapse [OF split np c collapse] t
    have *: "resizeSegment lm 0 gap Begin False = resizeSegment (c # ys) (Suc 0) (- gap) Begin True"
      by (simp add: c_def lm_width_def)
    show ?thesis
    proof (cases ys)
      case Nil
      with * gap t show ?thesis by (simp add: lm_width_def resizeSegment.simps [of _ "Suc 0"])
    next
      case (Cons y ys')
      with collapse_first_tiles [of "lm_end x" L y ys' gap c] * gap t show ?thesis
        by (auto simp: c_def lm_width_def)
    qed
  qed
qed

text \<open>Every outcome of \<open>resizeSegment\<close> on a tiled line: when it throws, and what the result tiles.\<close>

definition resize_throws :: "'v lm \<Rightarrow> nat \<Rightarrow> num \<Rightarrow> side \<Rightarrow> bool \<Rightarrow> bool" where
  "resize_throws lm i gap be p \<longleftrightarrow> i = length lm - 1 \<and>
     (case be of Begin \<Rightarrow> lm_width (lm ! i) \<le> gap \<and> (0 < i \<or> \<not> p) | End \<Rightarrow> gap \<le> - lm_width (lm ! i) \<and> \<not> p)"

definition resized_start :: "'v lm \<Rightarrow> nat \<Rightarrow> num \<Rightarrow> side \<Rightarrow> bool \<Rightarrow> num" where
  "resized_start lm i gap be p =
     (if \<not> p \<and> i = 0 \<and> be = Begin \<and> 0 < gap \<and> gap < lm_width (lm ! i) then gap else 0)"

definition resized_length :: "num \<Rightarrow> 'v lm \<Rightarrow> nat \<Rightarrow> num \<Rightarrow> side \<Rightarrow> bool \<Rightarrow> num" where
  "resized_length L lm i gap be p =
     (if \<not> p \<and> i = length lm - 1 \<and> be = End \<and> gap < 0 then L + gap else L)"

lemmas resize_spec_defs = resize_throws_def resized_start_def resized_length_def

lemma resizeSegment_outcomes:
  assumes T: "tiles 0 L lm" and i: "i < length lm"
  shows "if resize_throws lm i gap be p
         then resizeSegment lm i gap be p = Inl (JSError ''Given index doesn't exist'')
         else \<exists>lm' mp. resizeSegment lm i gap be p = Inr (lm', mp) \<and>
           tiles (resized_start lm i gap be p) (resized_length L lm i gap be p) lm'"
proof (cases "p \<or> \<not> prevented lm i be")
  case True
  then have "resizeSegment lm i gap be p = resizeSegment lm i gap be True"
    using resize_inner_bound [OF i, of be gap] by (cases p) auto
  with resizeSegment_outcome [OF T i, of be gap] True show ?thesis
    by (cases be) (auto simp: resize_spec_defs prevented_def split: if_splits)
next
  case False
  obtain xs x ys m where s: "lm = xs @ x # ys" "length xs = i" "lm ! i = x"
    and t: "tiles 0 m xs" "lm_begin x = m" "m < lm_end x" "tiles (lm_end x) L ys"
    using tiles_split_at [OF i T] by blast
  show ?thesis
  proof (cases be)
    case End
    then have "ys = []" using False s by (auto simp: prevented_def)
    with resize_outer_end [OF t(1-3), of L lm gap] t(4) s False End show ?thesis
      by (auto simp: resize_spec_defs)
  next
    case Begin
    then have "xs = []" using False s by (auto simp: prevented_def)
    with resize_outer_begin [of x L ys lm gap] t s False Begin show ?thesis
      by (auto simp: resize_spec_defs)
  qed
qed


section \<open>The index mapping\<close>

lemma length_fold_update: "length (fold (\<lambda>n m. m[f n := g n]) ns m) = length m"
  by (induction ns arbitrary: m) auto

lemma fold_update_nth:
  assumes "distinct ix" and "k \<le> length ix" and "\<And>x. x \<in> set ix \<Longrightarrow> x < length m"
  shows "fold (\<lambda>n m. m[ix ! n := Some n]) [0..<k] m ! o1 =
     (case find (\<lambda>n. ix ! n = o1) [0..<k] of None \<Rightarrow> m ! o1 | Some n \<Rightarrow> Some n)"
  using assms(2)
proof (induction k)
  case (Suc k)
  have len: "ix ! k < length (fold (\<lambda>n m. m[ix ! n := Some n]) [0..<k] m)"
    using Suc.prems assms(3) by (simp add: length_fold_update)
  have find_snoc: "find P (xs @ [x]) = (case find P xs of None \<Rightarrow> if P x then Some x else None | Some y \<Rightarrow> Some y)"
    for P and xs :: "nat list" and x by (induction xs) auto
  show ?case
  proof (cases "ix ! k = o1")
    case True
    then have "find (\<lambda>n. ix ! n = o1) [0..<k] = None"
      using assms(1) Suc.prems by (auto simp: find_None_iff nth_eq_iff_index_eq)
    then show ?thesis using True len by (simp add: find_snoc)
  next
    case False
    then show ?thesis using Suc by (simp add: find_snoc split: option.split)
  qed
qed simp

lemma js_compact_kept:
  "js_compact es = map (\<lambda>o1. the (es ! o1)) (filter (\<lambda>i. es ! i \<noteq> None) [0..<length es])"
proof (induction es rule: rev_induct)
  case (snoc e es)
  have "filter (\<lambda>i. (es @ [e]) ! i \<noteq> None) [0..<length es] = filter (\<lambda>i. es ! i \<noteq> None) [0..<length es]"
    by (rule filter_cong) (auto simp: nth_append)
  with snoc show ?case by (cases e) (auto simp: nth_append)
qed simp

lemma length_remap [simp]: "length (remap es) = length es"
  by (simp add: remap_def Let_def length_fold_update)

text \<open>\<open>newIndexMapping\<close> names, for every old item, where it is in the result, and \<open>null\<close> exactly for the
  dropped ones.\<close>

lemma remap_correct:
  assumes "o1 < length es"
  shows "case es ! o1 of None \<Rightarrow> remap es ! o1 = None
     | Some y \<Rightarrow> \<exists>n. remap es ! o1 = Some n \<and> n < length (js_compact es) \<and> js_compact es ! n = y"
proof -
  define ix where "ix = filter (\<lambda>i. es ! i \<noteq> None) [0..<length es]"
  define m0 where "m0 = map (\<lambda>i. if es ! i = None then None else Some i) [0..<length es]"
  have nth: "remap es ! o1 = (case find (\<lambda>n. ix ! n = o1) [0..<length ix] of None \<Rightarrow> m0 ! o1 | Some n \<Rightarrow> Some n)"
    unfolding remap_def Let_def ix_def [symmetric] m0_def [symmetric]
    by (rule fold_update_nth) (auto simp: ix_def m0_def)
  show ?thesis
  proof (cases "es ! o1")
    case None
    then have "find (\<lambda>n. ix ! n = o1) [0..<length ix] = None"
      by (auto simp: find_None_iff ix_def dest: nth_mem)
    then show ?thesis using None assms nth by (simp add: m0_def)
  next
    case (Some y)
    then have "o1 \<in> set ix" using assms by (simp add: ix_def)
    then obtain n where "n < length ix" "ix ! n = o1" by (auto simp: in_set_conv_nth)
    then obtain k where k: "find (\<lambda>n. ix ! n = o1) [0..<length ix] = Some k"
      by (cases "find (\<lambda>n. ix ! n = o1) [0..<length ix]") (auto simp: find_None_iff)
    then have "k < length ix" "ix ! k = o1" by (auto simp: find_Some_iff)
    moreover have "js_compact es = map (\<lambda>o1. the (es ! o1)) ix"
      unfolding ix_def by (rule js_compact_kept)
    ultimately show ?thesis using Some nth k by simp
  qed
qed

definition mapping_sound :: "'v lm \<Rightarrow> 'v lm \<Rightarrow> index_mapping \<Rightarrow> bool" where
  "mapping_sound lm lm' mp \<longleftrightarrow> length mp = length lm \<and>
     (\<forall>o1<length lm. \<forall>n. mp ! o1 = Some n \<longrightarrow> n < length lm' \<and> lm_fields (lm' ! n) = lm_fields (lm ! o1))"

lemma lm_fields_move_bound [simp]: "lm_fields (move_bound mn mx g be x) = lm_fields x"
  by (auto simp: move_bound_def Let_def split: side.split)

lemma lm_fields_fix_overlap: "fix_overlap c x = Some y \<Longrightarrow> lm_fields y = lm_fields x"
  by (auto simp: fix_overlap_def split: if_splits)

lemma length_stretch_siblings [simp]: "length (stretch_siblings lm i) = length lm"
  by (simp add: stretch_siblings_def Let_def)

lemma lm_fields_stretch_siblings:
  "k < length lm \<Longrightarrow> lm_fields (stretch_siblings lm i ! k) = lm_fields (lm ! k)"
  by (auto simp: stretch_siblings_def Let_def nth_list_update)

lemma mapping_sound_same:
  "length lm' = length lm \<Longrightarrow> (\<And>k. k < length lm \<Longrightarrow> lm_fields (lm' ! k) = lm_fields (lm ! k)) \<Longrightarrow>
   mapping_sound lm lm' (map Some [0..<length lm])"
  by (auto simp: mapping_sound_def)

lemma resizeSegment_mapping:
  "resizeSegment lm i gap be p = Inr (lm', mp) \<Longrightarrow> mapping_sound lm lm' mp"
proof (induction lm i gap be p rule: resizeSegment.induct)
  case (1 lm i gap be p)
  define result where "result = lm[i := move_bound (lm_begin (lm ! 0)) (lm_end (last lm)) gap be (lm ! i)]"
  define es where "es = map (\<lambda>k. fix_entry i (result ! i) (lm_width (result ! i)) k (result ! k)) [0..<length result]"
  have len [simp]: "length result = length lm" "length es = length lm" by (simp_all add: result_def es_def)
  have same: "lm_fields (result ! k) = lm_fields (lm ! k)" if "k < length lm" for k
    using that by (cases "k = i") (simp_all add: result_def)
  have step: "resizeSegment lm i gap be p =
      (if i \<ge> length lm then Inl (JSError ''Given index doesn't exist'')
       else if p \<and> prevented lm i be then Inr (lm, map Some [0..<length lm])
       else if lm_width (result ! i) > 0 then
         if lm_width (result ! i) < lm_width (lm ! i)
         then Inr (stretch_siblings result i, map Some [0..<length lm])
         else Inr (js_compact es, remap es)
       else resizeSegment result (i + 1) (lm_width (result ! i) - lm_width (lm ! i)) Begin True)"
    unfolding es_def result_def
    by (subst resizeSegment.simps) (auto simp: Let_def prevented_def)
  have entry: "lm_fields y = lm_fields (lm ! k)" if "k < length lm" "es ! k = Some y" for k y
    using that same [OF that(1)]
    by (auto simp: es_def fix_entry_def dest!: lm_fields_fix_overlap split: if_splits)
  consider (prev) "lm' = lm" "mp = map Some [0..<length lm]"
    | (shrink) "lm' = stretch_siblings result i" "mp = map Some [0..<length lm]"
    | (grow) "lm' = js_compact es" "mp = remap es"
    | (rec) "i < length lm" "\<not> (p \<and> prevented lm i be)" "\<not> lm_width (result ! i) > 0"
        "resizeSegment result (i + 1) (lm_width (result ! i) - lm_width (lm ! i)) Begin True = Inr (lm', mp)"
  proof -
    have *: "Inr (lm', mp) = resizeSegment lm i gap be p" using "1.prems" by (rule sym)
    note ** = *[unfolded step]
    show ?thesis
    proof (cases "i < length lm \<and> \<not> (p \<and> prevented lm i be) \<and> \<not> lm_width (result ! i) > 0")
      case True
      with ** show ?thesis by (intro rec) simp_all
    next
      case False
      with ** show ?thesis by (auto split: if_splits intro: prev shrink grow)
    qed
  qed
  then show ?case
  proof cases
    case prev
    then show ?thesis by (simp add: mapping_sound_same)
  next
    case shrink
    then show ?thesis by (simp add: mapping_sound_same lm_fields_stretch_siblings same)
  next
    case grow
    show ?thesis unfolding mapping_sound_def grow
    proof (intro conjI allI impI)
      fix o1 n assume "o1 < length lm" "remap es ! o1 = Some n"
      then show "n < length (js_compact es)" "lm_fields (js_compact es ! n) = lm_fields (lm ! o1)"
        using remap_correct [of o1 es] entry [of o1] by (auto split: option.splits)
    qed simp
  next
    case rec
    have "mapping_sound result lm' mp"
      using "1.IH" [OF _ refl _ _ refl refl _ refl refl] rec unfolding result_def prevented_def
      by fastforce
    then show ?thesis using same by (auto simp: mapping_sound_def)
  qed
qed

end
