(* ===== verification/Repair.thy ===== *)
theory Repair
  imports Tiling
begin

text \<open>
  Merging and splitting keep the tiling, and \<open>fixLinearMetadataItems\<close> establishes it: from disjoint
  segments it builds a tiling of the whole line.
\<close>

section \<open>Merging\<close>

lemma mergeIn_left_split:
  "mergeIn (xs @ x # y # ys) (int (Suc (length xs))) MergeLeft =
   Inr (xs @ y\<lparr>lm_begin := lm_begin x\<rparr> # ys)"
  by (simp add: mergeIn_def nth_append nat_add_distrib)

lemma mergeIn_right_split:
  "mergeIn (xs @ x # y # ys) (int (length xs)) MergeRight =
   Inr (xs @ x\<lparr>lm_end := lm_end y\<rparr> # ys)"
  by (simp add: mergeIn_def nth_append nat_add_distrib)

lemma split_at_pair:
  "Suc i < length lm \<Longrightarrow> \<exists>xs x y ys. lm = xs @ x # y # ys \<and> length xs = i \<and> lm ! i = x \<and> lm ! Suc i = y"
proof -
  assume i: "Suc i < length lm"
  then have "lm = take i lm @ lm ! i # lm ! Suc i # drop (Suc (Suc i)) lm"
    using id_take_nth_drop [of i lm] id_take_nth_drop [of 0 "drop (Suc i) lm"]
    by (simp add: Cons_nth_drop_Suc)
  with i show ?thesis by (metis Suc_lessD length_take min.absorb4)
qed

lemma mergeIn_cases:
  assumes "mergeIn lm i p = Inr lm'"
  obtains (Left) xs x y ys where "p = MergeLeft" "lm = xs @ x # y # ys" "i = int (Suc (length xs))"
      "lm' = xs @ y\<lparr>lm_begin := lm_begin x\<rparr> # ys"
  | (Right) xs x y ys where "p = MergeRight" "lm = xs @ x # y # ys" "i = int (length xs)"
      "lm' = xs @ x\<lparr>lm_end := lm_end y\<rparr> # ys"
proof (cases p)
  case MergeLeft
  from assms have i: "0 < i" "i < int (length lm)"
    by (auto simp: mergeIn_def MergeLeft split: if_splits)
  then have "Suc (nat i - 1) < length lm" by linarith
  then obtain xs x y ys where s: "lm = xs @ x # y # ys" "length xs = nat i - 1"
    using split_at_pair [of "nat i - 1" lm] by blast
  then have "i = int (Suc (length xs))" using i by auto
  with s Left MergeLeft assms mergeIn_left_split [of xs x y ys] show thesis by auto
next
  case MergeRight
  from assms have i: "0 \<le> i" "i < int (length lm) - 1"
    by (auto simp: mergeIn_def MergeRight split: if_splits)
  then have "Suc (nat i) < length lm" by linarith
  then obtain xs x y ys where s: "lm = xs @ x # y # ys" "length xs = nat i"
    using split_at_pair [of "nat i" lm] by blast
  then have "i = int (length xs)" using i by auto
  with s Right MergeRight assms mergeIn_right_split [of xs x y ys] show thesis by auto
qed

lemma mergeIn_tiles: "tiles a b lm \<Longrightarrow> mergeIn lm i p = Inr lm' \<Longrightarrow> tiles a b lm'"
  by (erule mergeIn_cases) (fastforce dest: less_trans)+

lemma mergeIn_defined:
  "(\<exists>lm'. mergeIn lm i p = Inr lm') \<longleftrightarrow>
   (case p of MergeLeft \<Rightarrow> 0 < i \<and> i < int (length lm) | MergeRight \<Rightarrow> 0 \<le> i \<and> i < int (length lm) - 1)"
  by (cases p) (auto simp: mergeIn_def Let_def)

section \<open>Splitting\<close>

lemma split_outside: "tiles a b xs \<Longrightarrow> d < a \<or> b < d \<Longrightarrow> concat (map (split_item d) xs) = xs"
proof (induction xs arbitrary: a)
  case (Cons x xs)
  then have "d < lm_begin x \<or> lm_end x < d" by (auto dest: tiles_le)
  then have "split_item d x = [x]" by (auto simp: split_item_def)
  moreover have "d < lm_end x \<or> b < d" using Cons.prems by auto
  ultimately show ?case using Cons by auto
qed simp

lemma splitAt_inside:
  assumes "tiles a m xs" "lm_begin x = m" "tiles (lm_end x) b ys" "m < d" "d < lm_end x"
  shows "concat (map (split_item d) (xs @ x # ys)) = xs @ x\<lparr>lm_end := d\<rparr> # x\<lparr>lm_begin := d\<rparr> # ys"
proof -
  have "split_item d x = [x\<lparr>lm_end := d\<rparr>, x\<lparr>lm_begin := d\<rparr>]"
    using assms by (simp add: split_item_def)
  then show ?thesis
    using split_outside [OF assms(1), of d] split_outside [OF assms(3), of d] assms by simp
qed

lemma splitAt_boundary:
  assumes "tiles a m xs" "lm_begin x = m" "m < lm_end x" "lm_end x = d" "lm_begin y = d"
    "d < lm_end y" "tiles (lm_end y) b ys"
  shows "concat (map (split_item d) (xs @ x # y # ys)) =
    xs @ x # x\<lparr>lm_begin := d\<rparr> # y\<lparr>lm_end := d\<rparr> # y # ys"
proof -
  have "split_item d x = [x, x\<lparr>lm_begin := d\<rparr>]" "split_item d y = [y\<lparr>lm_end := d\<rparr>, y]"
    using assms by (simp_all add: split_item_def)
  then show ?thesis
    using split_outside [OF assms(1), of d] split_outside [OF assms(7), of d] assms by simp
qed

text \<open>A position strictly inside the line is inside a segment or at the meeting point of two.\<close>

lemma tiles_locate:
  assumes "tiles a b lm" "a < d" "d < b"
  shows "(\<exists>xs x ys m. lm = xs @ x # ys \<and> tiles a m xs \<and> lm_begin x = m \<and> tiles (lm_end x) b ys \<and> m < d \<and> d < lm_end x) \<or>
    (\<exists>xs x y ys m. lm = xs @ x # y # ys \<and> tiles a m xs \<and> lm_begin x = m \<and> m < lm_end x \<and> lm_end x = d \<and>
       lm_begin y = d \<and> d < lm_end y \<and> tiles (lm_end y) b ys)"
  using assms
proof (induction lm arbitrary: a)
  case (Cons z zs)
  consider "d < lm_end z" | "d = lm_end z" | "lm_end z < d" by linarith
  then show ?case
  proof cases
    case 1
    with Cons.prems have "z # zs = [] @ z # zs \<and> tiles a a [] \<and> lm_begin z = a \<and> tiles (lm_end z) b zs \<and> a < d \<and> d < lm_end z"
      by simp
    then show ?thesis by blast
  next
    case 2
    with Cons.prems obtain y ys where "zs = y # ys" by (cases zs) auto
    with Cons.prems 2 have "z # zs = [] @ z # y # ys \<and> tiles a a [] \<and> lm_begin z = a \<and> a < lm_end z \<and> lm_end z = d \<and>
       lm_begin y = d \<and> d < lm_end y \<and> tiles (lm_end y) b ys"
      by auto
    then show ?thesis by blast
  next
    case 3
    from Cons.IH [of "lm_end z"] 3 Cons.prems have
      IH: "(\<exists>xs x ys m. zs = xs @ x # ys \<and> tiles (lm_end z) m xs \<and> lm_begin x = m \<and> tiles (lm_end x) b ys \<and> m < d \<and> d < lm_end x) \<or>
    (\<exists>xs x y ys m. zs = xs @ x # y # ys \<and> tiles (lm_end z) m xs \<and> lm_begin x = m \<and> m < lm_end x \<and> lm_end x = d \<and>
       lm_begin y = d \<and> d < lm_end y \<and> tiles (lm_end y) b ys)" by simp
    have z: "lm_begin z = a" "a < lm_end z" using Cons.prems by auto
    from IH z show ?thesis
      by (metis append_Cons tiles.simps(2))
  qed
qed simp


section \<open>Repairing disjoint segments\<close>

definition valid_item :: "'v lm_item \<Rightarrow> bool" where
  "valid_item x \<longleftrightarrow> 0 \<le> lm_begin x \<and> lm_begin x < lm_end x"

definition disjoint_items :: "'v lm \<Rightarrow> bool" where
  "disjoint_items lm \<longleftrightarrow> sorted_wrt (\<lambda>x y. lm_end x \<le> lm_begin y \<or> lm_end y \<le> lm_begin x) lm"

abbreviation separated :: "'v lm \<Rightarrow> bool" where
  "separated lm \<equiv> sorted_wrt (\<lambda>x y. lm_end x \<le> lm_begin y) lm"

lemma sorted_wrt_insort_sym:
  "(\<And>a b. R a b \<Longrightarrow> R b a) \<Longrightarrow> sorted_wrt R xs \<Longrightarrow> (\<And>y. y \<in> set xs \<Longrightarrow> R x y) \<Longrightarrow>
   sorted_wrt R (insort_key f x xs)"
  by (induction xs) (auto simp: set_insort_key)

lemma sorted_wrt_sort_sym:
  "(\<And>a b. R a b \<Longrightarrow> R b a) \<Longrightarrow> sorted_wrt R xs \<Longrightarrow> sorted_wrt R (sort_key f xs)"
  by (induction xs) (auto intro: sorted_wrt_insort_sym)

lemma disjoint_sort:
  assumes "disjoint_items lm" and "\<forall>x\<in>set lm. lm_begin x < lm_end x"
  shows "separated (sort_key lm_begin lm)"
proof -
  let ?ys = "sort_key lm_begin lm"
  have d: "sorted_wrt (\<lambda>x y. lm_end x \<le> lm_begin y \<or> lm_end y \<le> lm_begin x) ?ys"
    using assms(1) unfolding disjoint_items_def by (rule sorted_wrt_sort_sym [rotated]) auto
  have s: "sorted_wrt (\<lambda>x y. lm_begin x \<le> lm_begin y) ?ys"
    using sorted_sort_key [of lm_begin lm] by (simp add: sorted_map)
  have w: "\<forall>x\<in>set ?ys. lm_begin x < lm_end x" using assms(2) by simp
  show ?thesis unfolding sorted_wrt_iff_nth_less
  proof (intro allI impI)
    fix i j assume ij: "i < j" "j < length ?ys"
    have "lm_end (?ys ! i) \<le> lm_begin (?ys ! j) \<or> lm_end (?ys ! j) \<le> lm_begin (?ys ! i)"
      using d ij by (simp add: sorted_wrt_iff_nth_less)
    moreover have "lm_begin (?ys ! i) \<le> lm_begin (?ys ! j)"
      using s ij by (simp add: sorted_wrt_iff_nth_less)
    moreover have "lm_begin (?ys ! j) < lm_end (?ys ! j)"
      using w nth_mem [OF ij(2)] by blast
    ultimately show "lm_end (?ys ! i) \<le> lm_begin (?ys ! j)" by linarith
  qed
qed

lemma removeInvalidRanges_valid:
  assumes "\<forall>x\<in>set lm. valid_item x" and "x \<in> set (removeInvalidRanges lm L)"
  shows "valid_item x" and "lm_begin x < L" and "lm_end x \<le> L"
  using assms by (auto simp: removeInvalidRanges_def valid_item_def)

lemma removeInvalidRanges_disjoint:
  assumes "disjoint_items lm"
  shows "disjoint_items (removeInvalidRanges lm L)"
proof -
  let ?R = "\<lambda>x y :: 'a lm_item. lm_end x \<le> lm_begin y \<or> lm_end y \<le> lm_begin x"
  have "sorted_wrt ?R (filter (\<lambda>i. lm_begin i < L) lm)"
    using assms unfolding disjoint_items_def by (rule sorted_wrt_filter)
  then show ?thesis
    unfolding disjoint_items_def removeInvalidRanges_def sorted_wrt_map
    by (rule sorted_wrt_mono_rel [rotated]) auto
qed

lemma removeInvalidRanges_empty: "removeInvalidRanges lm L = [] \<longleftrightarrow> (\<forall>x\<in>set lm. L \<le> lm_begin x)"
  by (auto simp: removeInvalidRanges_def filter_empty_conv not_less)

subsection \<open>Filling the gaps\<close>

lemma tiles_fillers [simp]:
  "lm_begin (filler opts b e) = b" "lm_end (filler opts b e) = e"
  "lm_begin (with_defaults opts x) = lm_begin x" "lm_end (with_defaults opts x) = lm_end x"
  by (simp_all add: filler_def with_defaults_def)

lemma fill_gaps_rest:
  assumes "arr = xs @ ys" and "xs \<noteq> []" and "separated arr" and
    "\<forall>x\<in>set arr. lm_begin x < lm_end x \<and> lm_begin x < L \<and> lm_end x \<le> L"
  shows "tiles (lm_end (last xs)) (if ys = [] then lm_end (last xs) else L)
     (concat (map (fill_gaps_at opts L arr) [length xs..<length arr]))"
  using assms(1,2)
proof (induction ys arbitrary: xs)
  case (Cons y ys)
  have nth: "arr ! length xs = y" "arr ! (length xs - 1) = last xs"
    using Cons.prems by (auto simp: nth_append last_conv_nth)
  have y: "lm_begin y < lm_end y" "lm_begin y < L" "lm_end y \<le> L"
    using assms(4) Cons.prems by auto
  have sep: "lm_end (last xs) \<le> lm_begin y"
    using assms(3) Cons.prems by (auto simp: sorted_wrt_append)
  define R where "R = concat (map (fill_gaps_at opts L arr) [Suc (length xs)..<length arr])"
  have arr: "arr = (xs @ [y]) @ ys" using Cons.prems(1) by simp
  have IH: "tiles (lm_end y) (if ys = [] then lm_end y else L) R"
    using Cons.IH [OF arr] by (cases "ys = []") (simp_all add: R_def)
  have R_Nil: "ys = [] \<Longrightarrow> R = []" using arr by (simp add: R_def)
  have "fill_gaps_at opts L arr (length xs) =
     (if lm_end (last xs) = lm_begin y then [with_defaults opts y]
      else [filler opts (lm_end (last xs)) (lm_begin y), with_defaults opts y]) @
     (if ys = [] \<and> lm_end y < L then [filler opts (lm_end y) L] else [])"
    using Cons.prems nth y sep by (auto simp: fill_gaps_at_def Let_def)
  moreover have "concat (map (fill_gaps_at opts L arr) [length xs..<length arr]) =
      fill_gaps_at opts L arr (length xs) @ R"
  proof -
    have "length xs < length arr" using arr by simp
    then show ?thesis by (simp add: R_def upt_conv_Cons)
  qed
  ultimately show ?case using IH R_Nil y sep by auto
qed simp

lemma fill_gaps_tiles:
  assumes "arr \<noteq> []" and "separated arr" and
    "\<forall>x\<in>set arr. valid_item x \<and> lm_begin x < L \<and> lm_end x \<le> L"
  shows "tiles 0 L (fill_gaps opts L arr)"
proof -
  obtain z zs where arr: "arr = z # zs" using assms(1) by (cases arr) auto
  have z: "0 \<le> lm_begin z" "lm_begin z < lm_end z" "lm_begin z < L" "lm_end z \<le> L"
    using assms(3) arr by (auto simp: valid_item_def)
  define R where "R = concat (map (fill_gaps_at opts L arr) [Suc 0..<length arr])"
  have rest: "tiles (lm_end z) (if zs = [] then lm_end z else L) R"
  proof -
    have "arr = [z] @ zs" using arr by simp
    moreover have "\<forall>x\<in>set arr. lm_begin x < lm_end x \<and> lm_begin x < L \<and> lm_end x \<le> L"
      using assms(3) by (auto simp: valid_item_def)
    ultimately have "tiles (lm_end (last [z])) (if zs = [] then lm_end (last [z]) else L)
        (concat (map (fill_gaps_at opts L arr) [length [z]..<length arr]))"
      by (intro fill_gaps_rest assms(2)) simp_all
    then show ?thesis by (cases "zs = []") (simp_all add: R_def)
  qed
  have R_Nil: "zs = [] \<Longrightarrow> R = []" using arr by (simp add: R_def)
  have "fill_gaps_at opts L arr 0 =
      (if lm_begin z \<noteq> 0 then [filler opts 0 (lm_begin z), z] else [z]) @
      (if zs = [] \<and> lm_end z < L then [filler opts (lm_end z) L] else [])"
    using z arr by (auto simp: fill_gaps_at_def Let_def)
  moreover have "fill_gaps opts L arr = fill_gaps_at opts L arr 0 @ R"
    using arr by (simp add: R_def fill_gaps_def upt_conv_Cons del: upt_Suc)
  ultimately show ?thesis using rest R_Nil z by auto
qed

subsection \<open>Merging the empty segments, and the whole repair\<close>

lemma first_empty_pair_range:
  assumes "first_empty_pair lm \<noteq> -1"
  shows "0 < first_empty_pair lm \<and> first_empty_pair lm < int (length lm)"
proof -
  define P where "P = (\<lambda>i. 1 \<le> i \<and> lm_begin (lm ! i) = lm_end (lm ! (i - 1)) \<and>
     \<not> haveAdditionalKeys (lm ! i) (lm ! (i - 1)))"
  have eq: "first_empty_pair lm = find_index P [0..<length lm]"
    by (simp add: first_empty_pair_def P_def)
  with assms obtain i where "find_index P [0..<length lm] = int i" "i < length [0..<length lm]"
      "P ([0..<length lm] ! i)"
    by (cases rule: find_index_cases [of P "[0..<length lm]"]) auto
  then show ?thesis by (auto simp: eq P_def)
qed

lemma merge_empty_adjacent_ok:
  "\<exists>lm'. merge_empty_adjacent lm = Inr lm' \<and> first_empty_pair lm' = -1 \<and>
     (\<forall>a b. tiles a b lm \<longrightarrow> tiles a b lm') \<and> lm_end ` set lm' \<subseteq> lm_end ` set lm \<and> (lm = [] \<longleftrightarrow> lm' = [])"
proof (induction lm rule: merge_empty_adjacent.induct)
  case (1 lm)
  show ?case
  proof (cases "first_empty_pair lm = -1")
    case True
    then show ?thesis by (simp add: merge_empty_adjacent.simps [of lm])
  next
    case False
    then obtain lm1 where m: "mergeIn lm (first_empty_pair lm) MergeLeft = Inr lm1"
      using first_empty_pair_range [OF False] mergeIn_defined [of lm "first_empty_pair lm" MergeLeft] by auto
    from "1.IH" [OF refl False m] obtain lm' where IH: "merge_empty_adjacent lm1 = Inr lm'"
      "first_empty_pair lm' = -1" "\<forall>a b. tiles a b lm1 \<longrightarrow> tiles a b lm'"
      "lm_end ` set lm' \<subseteq> lm_end ` set lm1" "lm1 = [] \<longleftrightarrow> lm' = []" by blast
    have "lm_end ` set lm1 \<subseteq> lm_end ` set lm" "lm1 \<noteq> []" "lm \<noteq> []"
      using m by (auto elim!: mergeIn_cases)
    then show ?thesis using IH m False mergeIn_tiles [OF _ m]
      by (auto simp: merge_empty_adjacent.simps [of lm])
  qed
qed

lemma fill_gaps_ends:
  assumes "\<forall>x\<in>set arr. lm_begin x < L \<and> lm_end x \<le> L" and "x \<in> set (fill_gaps opts L arr)"
  shows "lm_end x \<le> L"
proof -
  obtain i where "i < length arr" "x \<in> set (fill_gaps_at opts L arr i)"
    using assms(2) by (auto simp: fill_gaps_def)
  moreover have "lm_begin (arr ! i) < L \<and> lm_end (arr ! i) \<le> L"
    using assms(1) nth_mem [OF \<open>i < length arr\<close>] by blast
  ultimately show ?thesis by (auto simp: fill_gaps_at_def Let_def split: if_splits)
qed

lemma fix_no_trim:
  assumes "items \<noteq> []"
  shows "fixLinearMetadataItems (Some items) L opts =
     merge_empty_adjacent (fill_gaps opts L (sort_key lm_begin (removeInvalidRanges items L)))"
proof -
  let ?f = "fill_gaps opts L (sort_key lm_begin (removeInvalidRanges items L))"
  obtain lm where lm: "merge_empty_adjacent ?f = Inr lm" "lm_end ` set lm \<subseteq> lm_end ` set ?f"
    using merge_empty_adjacent_ok [of ?f] by blast
  have "\<forall>x\<in>set (sort_key lm_begin (removeInvalidRanges items L)). lm_begin x < L \<and> lm_end x \<le> L"
    by (auto simp: removeInvalidRanges_def)
  then have "\<forall>x\<in>set ?f. lm_end x \<le> L" using fill_gaps_ends by blast
  with lm(2) have "lm \<noteq> [] \<Longrightarrow> lm_end (last lm) \<le> L" using last_in_set [of lm] by fastforce
  then show ?thesis using assms lm by (auto simp: fixLinearMetadataItems_def Let_def)
qed

lemma fix_tiles:
  assumes "items \<noteq> []" and "\<forall>x\<in>set items. valid_item x" and "disjoint_items items"
    and "\<exists>x\<in>set items. lm_begin x < L"
  shows "\<exists>lm. fixLinearMetadataItems (Some items) L opts = Inr lm \<and> tiles 0 L lm \<and> first_empty_pair lm = -1"
proof -
  let ?arr = "sort_key lm_begin (removeInvalidRanges items L)"
  have "set ?arr = set (removeInvalidRanges items L)" by simp
  moreover have "separated ?arr"
    using removeInvalidRanges_valid [OF assms(2)]
    by (intro disjoint_sort removeInvalidRanges_disjoint assms(3)) (auto simp: valid_item_def)
  moreover have "removeInvalidRanges items L \<noteq> []"
    using assms(4) by (auto simp: removeInvalidRanges_empty not_le)
  ultimately have "tiles 0 L (fill_gaps opts L ?arr)"
    using removeInvalidRanges_valid [OF assms(2)]
    by (intro fill_gaps_tiles) (auto simp flip: set_empty)
  then show ?thesis
    using fix_no_trim [OF assms(1)] merge_empty_adjacent_ok [of "fill_gaps opts L ?arr"] by metis
qed

end
