(* ===== verification/IntervalsEditor.thy ===== *)
theory IntervalsEditor
  imports Repair
begin

text \<open>
  The segment commands of the intervals editor, \<open>front/src/common/IntervalsEditor/utils.ts\<close>: creating
  an empty segment and removing one. Both work on the linear metadata of \<open>LinearMetadata\<close>, whose
  \<open>value\<close> key tells the empty segments.
\<close>

section \<open>Operations\<close>

definition set_value :: "field_value \<Rightarrow> string option \<Rightarrow> field_value lm_item \<Rightarrow> field_value lm_item" where
  "set_value v defaultUnit item =
     item\<lparr>lm_fields := obj_spread (lm_fields item)
       ((''value'', v) # (case defaultUnit of None \<Rightarrow> [] | Some u \<Rightarrow> if u = [] then [] else [(''unit'', VStr u)]))\<rparr>"

definition create_empty_item ::
  "num \<Rightarrow> field_value \<Rightarrow> string option \<Rightarrow> field_value lm_item \<Rightarrow> field_value lm" where
  "create_empty_item distance defaultValue defaultUnit item =
     (if lm_begin item \<le> distance \<and> distance \<le> lm_end item
      then [item\<lparr>lm_end := distance\<rparr>,
            (set_value defaultValue defaultUnit item)\<lparr>lm_begin := distance, lm_end := distance + 1\<rparr>,
            item\<lparr>lm_begin := distance + 1\<rparr>]
      else [item])"

definition createEmptySegmentAt ::
  "field_value lm \<Rightarrow> num \<Rightarrow> field_value \<Rightarrow> string option \<Rightarrow> field_value lm result" where
  "createEmptySegmentAt lm distance defaultValue defaultUnit =
     (if length lm < 1 then Inl (JSError ''linear metadata is empty'')
      else if distance \<ge> lm_end (last lm) \<or> distance \<le> 0
        then Inl (JSError ''split point is outside the geometry'')
      else Inr (concat (map (create_empty_item distance defaultValue defaultUnit) lm)))"

definition is_empty_segment :: "field_value \<Rightarrow> field_value lm_item \<Rightarrow> bool" where
  "is_empty_segment emptyValue item = (obj_get (lm_fields item) ''value'' = Some emptyValue)"

text \<open>\<open>removeSegment\<close>: reading a property of an item that does not exist raises a \<open>TypeError\<close>.\<close>

definition remove_item ::
  "field_value lm \<Rightarrow> nat \<Rightarrow> field_value \<Rightarrow> string option \<Rightarrow> bool \<Rightarrow> bool \<Rightarrow> nat \<Rightarrow> field_value lm result" where
  "remove_item lm indexToRemove emptyValue defaultUnit intoPrevious intoNext index =
     (let item = lm ! index in
      if indexToRemove > 0 \<and> index = indexToRemove - 1 \<and> intoPrevious then
        (if intoNext then
           (if indexToRemove + 1 < length lm then Inr [item\<lparr>lm_end := lm_end (lm ! (indexToRemove + 1))\<rparr>]
            else Inl TypeError)
         else if indexToRemove < length lm then Inr [item\<lparr>lm_end := lm_end (lm ! indexToRemove)\<rparr>]
         else Inl TypeError)
      else if index = indexToRemove then
        (if intoPrevious \<or> intoNext then Inr [] else Inr [set_value emptyValue defaultUnit item])
      else if index = indexToRemove + 1 \<and> intoNext then
        (if intoPrevious then Inr [] else Inr [item\<lparr>lm_begin := lm_begin (lm ! indexToRemove)\<rparr>])
      else Inr [item])"

definition removeSegment ::
  "field_value lm \<Rightarrow> nat \<Rightarrow> field_value \<Rightarrow> string option \<Rightarrow> field_value lm result" where
  "removeSegment lm indexToRemove emptyValue defaultUnit =
     (if indexToRemove > length lm then Inl TypeError
      else let intoPrevious = (indexToRemove > 0 \<and> is_empty_segment emptyValue (lm ! (indexToRemove - 1)));
               intoNext = (int indexToRemove < int (length lm) - 1 \<and>
                           is_empty_segment emptyValue (lm ! (indexToRemove + 1)))
      in bind_result (map_result (remove_item lm indexToRemove emptyValue defaultUnit intoPrevious intoNext)
                        [0..<length lm])
           (\<lambda>xss. Inr (concat xss)))"

section \<open>Creating an empty segment\<close>

lemma set_value_bounds [simp]:
  "lm_begin (set_value v u x) = lm_begin x" "lm_end (set_value v u x) = lm_end x"
  by (simp_all add: set_value_def)

lemma create_outside:
  "tiles a b xs \<Longrightarrow> d < a \<or> b < d \<Longrightarrow> concat (map (create_empty_item d v u) xs) = xs"
proof (induction xs arbitrary: a)
  case (Cons x xs)
  then have "d < lm_begin x \<or> lm_end x < d" by (auto dest: tiles_le)
  then have "create_empty_item d v u x = [x]" by (auto simp: create_empty_item_def)
  moreover have "d < lm_end x \<or> b < d" using Cons.prems by auto
  ultimately show ?case using Cons by auto
qed simp

lemma create_inside:
  assumes "tiles 0 L lm" and "i < length lm" and "lm_begin (lm ! i) < d" and "d + 1 < lm_end (lm ! i)"
  shows "\<exists>lm'. createEmptySegmentAt lm d v u = Inr lm' \<and> tiles 0 L lm' \<and> length lm' = length lm + 2"
proof -
  obtain xs x ys m where s: "lm = xs @ x # ys" "length xs = i" "lm ! i = x"
    and t: "tiles 0 m xs" "lm_begin x = m" "m < lm_end x" "tiles (lm_end x) L ys"
    using tiles_split_at [OF assms(2,1)] by blast
  have "0 \<le> m" "lm_end x \<le> L" using t by (auto dest: tiles_le)
  moreover have "lm_end (last lm) = L" using assms(1,2) by (intro tiles_last) auto
  ultimately have "createEmptySegmentAt lm d v u = Inr (concat (map (create_empty_item d v u) lm))"
    using assms s t by (auto simp: createEmptySegmentAt_def)
  moreover have "concat (map (create_empty_item d v u) lm) = xs @ create_empty_item d v u x @ ys"
    using create_outside [OF t(1), of d v u] create_outside [OF t(4), of d v u] assms s t by auto
  moreover have "tiles 0 L (xs @ create_empty_item d v u x @ ys)"
    using t s assms by (auto simp: create_empty_item_def)
  ultimately show ?thesis using s t assms by (auto simp: create_empty_item_def)
qed

section \<open>Removing a segment\<close>

text \<open>A map over the indices of an array that changes only the items of a middle part.\<close>

lemma map_result_middle:
  assumes "lm = ps @ mid @ qs"
    and "\<And>i. i < length ps \<Longrightarrow> f i = Inr [lm ! i]"
    and "\<And>i. length ps + length mid \<le> i \<Longrightarrow> i < length lm \<Longrightarrow> f i = Inr [lm ! i]"
    and "map_result f [length ps..<length ps + length mid] = Inr yss"
  shows "\<exists>xss. map_result f [0..<length lm] = Inr xss \<and> concat xss = ps @ concat yss @ qs"
proof -
  let ?l = "length ps" and ?m = "length ps + length mid"
  have idx: "[0..<length lm] = [0..<?l] @ [?l..<?m] @ [?m..<length lm]"
  proof -
    have "[0..<?m + length qs] = [0..<?m] @ [?m..<?m + length qs]" by (rule upt_add_eq_append) simp
    moreover have "[0..<?l + length mid] = [0..<?l] @ [?l..<?l + length mid]"
      by (rule upt_add_eq_append) simp
    ultimately show ?thesis using assms(1) by (simp add: add.assoc)
  qed
  have one: "concat (map (\<lambda>i. [lm ! i]) is) = map ((!) lm) is" for "is" by (induction "is") auto
  have "map_result f [0..<?l] = Inr (map (\<lambda>i. [lm ! i]) [0..<?l])"
    by (rule map_result_total) (auto simp: assms(2))
  moreover have "map_result f [?m..<length lm] = Inr (map (\<lambda>i. [lm ! i]) [?m..<length lm])"
    by (rule map_result_total) (auto simp: assms(3))
  moreover have "map ((!) lm) [0..<?l] = ps"
    by (rule nth_equalityI) (auto simp: assms(1) nth_append)
  moreover have "map ((!) lm) [?m..<length lm] = qs"
    by (rule nth_equalityI) (auto simp: assms(1) nth_append)
  ultimately show ?thesis
    using assms(4) unfolding idx map_result_append by (simp add: one)
qed


text \<open>The four shapes of the result.\<close>

lemma remove_far:
  "Suc index < r \<or> r + 1 < index \<Longrightarrow> remove_item lm r e u p n index = Inr [lm ! index]"
  by (auto simp: remove_item_def Let_def)

lemma removeSegment_shape:
  fixes e u
  assumes lm: "lm = xs @ x # ys"
  defines "intoPrevious \<equiv> xs \<noteq> [] \<and> is_empty_segment e (last xs)"
    and "intoNext \<equiv> ys \<noteq> [] \<and> is_empty_segment e (hd ys)"
  shows "removeSegment lm (length xs) e u = Inr
    (if intoPrevious \<and> intoNext then butlast xs @ (last xs)\<lparr>lm_end := lm_end (hd ys)\<rparr> # tl ys
     else if intoPrevious then butlast xs @ (last xs)\<lparr>lm_end := lm_end x\<rparr> # ys
     else if intoNext then xs @ (hd ys)\<lparr>lm_begin := lm_begin x\<rparr> # tl ys
     else xs @ set_value e u x # ys)"
proof -
  let ?r = "length xs"
  define f where "f = remove_item lm ?r e u intoPrevious intoNext"
  have prev: "(?r > 0 \<and> is_empty_segment e (lm ! (?r - 1))) = intoPrevious"
    by (cases xs rule: rev_cases) (auto simp: lm intoPrevious_def nth_append)
  have nxt: "(int ?r < int (length lm) - 1 \<and> is_empty_segment e (lm ! (?r + 1))) = intoNext"
    by (cases ys) (auto simp: lm intoNext_def nth_append)
  have eq: "removeSegment lm ?r e u = bind_result (map_result f [0..<length lm]) (\<lambda>xss. Inr (concat xss))"
    unfolding removeSegment_def Let_def prev nxt f_def by (simp add: lm)
  define ps where "ps = (if intoPrevious then butlast xs else xs)"
  define qs where "qs = (if intoNext then tl ys else ys)"
  define mid where "mid = (if intoPrevious then [last xs] else []) @ x # (if intoNext then [hd ys] else [])"
  define out where "out = (if intoPrevious \<and> intoNext then [[(last xs)\<lparr>lm_end := lm_end (hd ys)\<rparr>], [], []]
     else if intoPrevious then [[(last xs)\<lparr>lm_end := lm_end x\<rparr>], []]
     else if intoNext then [[], [(hd ys)\<lparr>lm_begin := lm_begin x\<rparr>]]
     else [[set_value e u x]])"
  have split: "lm = ps @ mid @ qs" 
    using lm by (auto simp: ps_def mid_def qs_def intoPrevious_def intoNext_def)
  have r: "?r = length ps + (if intoPrevious then 1 else 0)"
    by (auto simp: ps_def intoPrevious_def)
  have "\<exists>xss. map_result f [0..<length lm] = Inr xss \<and> concat xss = ps @ concat out @ qs"
  proof (rule map_result_middle [OF split])
    show "f i = Inr [lm ! i]" if "i < length ps" for i
      using that r by (auto simp: f_def remove_item_def Let_def split: if_splits)
    show "f i = Inr [lm ! i]" if "length ps + length mid \<le> i" "i < length lm" for i
      using that r by (auto simp: f_def remove_item_def Let_def mid_def split: if_splits)
    show "map_result f [length ps..<length ps + length mid] = Inr out"
      using split r
      by (auto simp: f_def remove_item_def Let_def mid_def out_def nth_append upt_conv_Cons split: if_splits)
  qed
  then show ?thesis
    by (auto simp: eq ps_def qs_def out_def)
qed

lemma removeSegment_tiles:
  assumes "tiles 0 L lm" and "i < length lm"
  shows "\<exists>lm'. removeSegment lm i e u = Inr lm' \<and> tiles 0 L lm'"
proof -
  obtain xs x ys m where s: "lm = xs @ x # ys" "length xs = i"
    and t: "tiles 0 m xs" "lm_begin x = m" "m < lm_end x" "tiles (lm_end x) L ys"
    using tiles_split_at [OF assms(2,1)] by blast
  have left: "tiles 0 b (butlast xs @ [(last xs)\<lparr>lm_end := b\<rparr>])" if "xs \<noteq> []" "m \<le> b" for b
    using t(1) that by (rule tiles_stretch_left)
  have right: "lm_end x < lm_end (hd ys)" "tiles (lm_end (hd ys)) L (tl ys)" if "ys \<noteq> []"
    using t(4) that by (cases ys; simp)+
  have "tiles 0 L (butlast xs @ (last xs)\<lparr>lm_end := lm_end (hd ys)\<rparr> # tl ys)" if "xs \<noteq> []" "ys \<noteq> []"
    using left [of "lm_end (hd ys)"] right that t by auto
  moreover have "tiles 0 L (butlast xs @ (last xs)\<lparr>lm_end := lm_end x\<rparr> # ys)" if "xs \<noteq> []"
    using left [of "lm_end x"] that t by auto
  moreover have "tiles 0 L (xs @ (hd ys)\<lparr>lm_begin := lm_begin x\<rparr> # tl ys)" if "ys \<noteq> []"
    using right that t by auto
  moreover have "tiles 0 L (xs @ set_value e u x # ys)" using t by auto
  ultimately show ?thesis
    unfolding s(2) [symmetric] removeSegment_shape [OF s(1), of e u] by auto
qed

end
