(* ===== verification/IntervalProperties.thy ===== *)
theory IntervalProperties
  imports IntervalsEditor
begin

text \<open>
  The properties of linear metadata and of its view box, over the definitions of \<open>LinearMetadata\<close> and
  \<open>IntervalsEditor\<close>, each with a witness on the line \<open>[0, 30]\<close> cut in three.
\<close>

definition line3 :: "field_value lm" where
  "line3 = [\<lparr>lm_begin = 0, lm_end = 10, lm_fields = [(''value'', VNum 1)]\<rparr>,
            \<lparr>lm_begin = 10, lm_end = 20, lm_fields = [(''value'', VNum 2)]\<rparr>,
            \<lparr>lm_begin = 20, lm_end = 30, lm_fields = [(''value'', VNum 3)]\<rparr>]"

lemma line3_tiles: "tiles 0 30 line3"
  by (simp add: line3_def)

lemma line3_resized:
  "resizeSegment line3 1 12 End True =
   Inr ([\<lparr>lm_begin = 0, lm_end = 10, lm_fields = [(''value'', VNum 1)]\<rparr>,
         \<lparr>lm_begin = 10, lm_end = 30, lm_fields = [(''value'', VNum 2)]\<rparr>], [Some 0, Some 1, None])"
  by code_simp

lemma line3_shortened:
  "resizeSegment line3 2 (- 5) End False =
   Inr ([line3 ! 0, line3 ! 1, (line3 ! 2)\<lparr>lm_end := 25\<rparr>], [Some 0, Some 1, Some 2])"
  by code_simp

section \<open>Editing\<close>

text \<open>C1: resizing a segment of a line keeps the tiling: whichever bound moves, however far and in both
  modes, the segments of the result follow each other without gap or overlap from its first to its last
  bound, and none is empty. With \<open>preventBoundsChanges\<close> they still cover the line from 0 to its length
  \<open>L\<close>. Without it, and only when the beginning of the first or the end of the last segment is drawn
  into the line by less than the segment's width, that bound of the line moves with it; every other
  resize covers the line from 0 to \<open>L\<close> as well.\<close>

theorem resizeSegment_keeps_tiling:
  assumes "tiles 0 L lm" and "resizeSegment lm i gap be p = Inr (lm', mapping)"
  shows "tiles (if \<not> p \<and> i = 0 \<and> be = Begin \<and> 0 < gap \<and> gap < lm_width (lm ! i) then gap else 0)
      (if \<not> p \<and> i = length lm - 1 \<and> be = End \<and> gap < 0 then L + gap else L) lm'"
proof -
  have "i < length lm" using assms(2) by (auto simp: resizeSegment.simps [of lm i] split: if_splits)
  from resizeSegment_outcomes [OF assms(1) this, of gap be p] assms(2) show ?thesis
    unfolding resized_start_def resized_length_def by (auto split: if_splits)
qed

theorem resizeSegment_keeps_tiling_witness:
  "tiles 0 30 [\<lparr>lm_begin = 0, lm_end = 10, lm_fields = [(''value'', VNum 1)]\<rparr>,
               \<lparr>lm_begin = 10, lm_end = 30, lm_fields = [(''value'', VNum 2)]\<rparr>] \<and>
   tiles 0 25 [line3 ! 0, line3 ! 1, (line3 ! 2)\<lparr>lm_end := 25\<rparr>]"
  using resizeSegment_keeps_tiling [OF line3_tiles line3_resized]
    resizeSegment_keeps_tiling [OF line3_tiles line3_shortened] by (simp add: line3_def)



text \<open>The two resizes of which \<open>data.spec.ts\<close> says that they should fail: neither throws. The tests pass
  because the \<open>assert.fail()\<close> after the call stands inside the \<open>try\<close> block and is caught as the expected
  error. Shortening the end of the last segment returns the line as it is, and lengthening a segment by
  the width of its right neighbour removes the neighbour.\<close>

definition spec_wrapper :: "field_value lm" where
  "spec_wrapper = map (\<lambda>k. \<lparr>lm_begin = of_nat (10 * k), lm_end = of_nat (10 * k + 10),
     lm_fields = [(''degree'', VNum 0)]\<rparr>) [0..<4]"

lemma spec_resizes_return:
  "resizeSegment spec_wrapper 3 (- 10) End True = Inr (spec_wrapper, map Some [0..<4]) \<and>
   resizeSegment spec_wrapper 1 10 End True =
     Inr ([spec_wrapper ! 0, (spec_wrapper ! 1)\<lparr>lm_end := 30\<rparr>, spec_wrapper ! 3], [Some 0, Some 1, None, Some 2])"
  by code_simp

text \<open>The index mapping returned by \<open>resizeSegment\<close> is sound for any input: it has one entry per old
  item, and an entry \<open>n\<close> for the old index \<open>o\<close> points to an item of the result with the same fields.\<close>

lemma resizeSegment_mapping_sound:
  assumes "resizeSegment lm i gap be p = Inr (lm', mapping)"
  shows "length mapping = length lm \<and>
    (\<forall>o1<length lm. \<forall>n. mapping ! o1 = Some n \<longrightarrow> n < length lm' \<and> lm_fields (lm' ! n) = lm_fields (lm ! o1))"
  using resizeSegment_mapping [OF assms] unfolding mapping_sound_def .

text \<open>Merging a segment with a neighbour keeps the tiling, removes exactly one segment, and is
  defined exactly when the segment and that neighbour exist.\<close>

lemma mergeIn_correct:
  assumes "tiles a b lm"
  shows "case mergeIn lm i p of
      Inr lm' \<Rightarrow> tiles a b lm' \<and> length lm' = length lm - 1
    | Inl e \<Rightarrow> i < 0 \<or> int (length lm) \<le> i \<or> (p = MergeLeft \<and> i = 0) \<or> (p = MergeRight \<and> i = int (length lm) - 1)"
proof (cases "mergeIn lm i p")
  case (Inl e)
  then show ?thesis using mergeIn_defined [of lm i p] by (auto split: merge_policy.splits)
next
  case (Inr lm')
  then show ?thesis using mergeIn_tiles [OF assms Inr] mergeIn_length [OF Inr] by simp
qed

text \<open>\<open>splitAt\<close> strictly inside the line succeeds; inside a segment it cuts that segment in two and
  keeps the tiling, and at the meeting point of two segments it adds two empty segments instead.\<close>

lemma splitAt_correct:
  assumes "tiles 0 L lm" and "0 < d" and "d < L"
  shows "\<exists>lm'. splitAt lm d = Inr lm' \<and>
    (if \<exists>x\<in>set lm. lm_begin x < d \<and> d < lm_end x
     then tiles 0 L lm' \<and> length lm' = length lm + 1
     else \<not> tiles 0 L lm' \<and> length lm' = length lm + 2)"
proof -
  have ne: "lm \<noteq> []" using assms by auto
  then have eq: "splitAt lm d = Inr (concat (map (split_item d) lm))"
    using assms tiles_last [OF assms(1) ne] by (simp add: splitAt_def Suc_le_eq)
  from tiles_locate [OF assms] show ?thesis
  proof (elim disjE exE conjE)
    fix xs x ys m assume lm: "lm = xs @ x # ys" and t: "tiles 0 m xs" "lm_begin x = m" "tiles (lm_end x) L ys" "m < d" "d < lm_end x"
    have "concat (map (split_item d) lm) = xs @ x\<lparr>lm_end := d\<rparr> # x\<lparr>lm_begin := d\<rparr> # ys"
      unfolding lm by (rule splitAt_inside [OF t])
    then show ?thesis using eq lm t by auto
  next
    fix xs x y ys m assume lm: "lm = xs @ x # y # ys" and t: "tiles 0 m xs" "lm_begin x = m" "m < lm_end x" "lm_end x = d" "lm_begin y = d"
      "d < lm_end y" "tiles (lm_end y) L ys"
    have "concat (map (split_item d) lm) = xs @ x # x\<lparr>lm_begin := d\<rparr> # y\<lparr>lm_end := d\<rparr> # y # ys"
      unfolding lm by (rule splitAt_boundary [OF t])
    moreover have "\<not> (\<exists>z\<in>set lm. lm_begin z < d \<and> d < lm_end z)"
      using tiles_bounds [OF t(1)] tiles_bounds [OF t(7)] t unfolding lm by fastforce
    ultimately show ?thesis using eq lm t by auto
  qed
qed

text \<open>C6: from disjoint segments of which one starts before the end of the line,
  \<open>fixLinearMetadataItems\<close> builds a tiling of the whole line, in which no two adjacent segments are
  without a field of their own.\<close>

theorem fixLinearMetadataItems_tiles:
  assumes "items \<noteq> []" and "\<forall>x\<in>set items. 0 \<le> lm_begin x \<and> lm_begin x < lm_end x"
    and "disjoint_items items" and "\<exists>x\<in>set items. lm_begin x < lineLength"
  shows "\<exists>lm. fixLinearMetadataItems (Some items) lineLength opts = Inr lm \<and> tiles 0 lineLength lm \<and>
    first_empty_pair lm = -1"
  using fix_tiles [OF assms(1) _ assms(3,4)] assms(2) unfolding valid_item_def by blast

theorem fixLinearMetadataItems_tiles_witness:
  "\<exists>lm. fixLinearMetadataItems (Some [line3 ! 2, line3 ! 0]) 25 None = Inr lm \<and> tiles 0 25 lm \<and>
    first_empty_pair lm = -1"
  by (rule fixLinearMetadataItems_tiles) (simp_all add: line3_def disjoint_items_def)


text \<open>The second loop of \<open>fixLinearMetadataItems\<close>, which shortens segments that pass the end of the
  line, never runs: on every input the result is the gap filling followed by the merging of empty
  segments. In particular, when every segment starts at or after the end of the line the result is
  empty rather than one segment for the line.\<close>

lemma fixLinearMetadataItems_never_trims:
  assumes "items \<noteq> []"
  shows "fixLinearMetadataItems (Some items) lineLength opts =
      merge_empty_adjacent (fill_gaps opts lineLength (sort_key lm_begin (removeInvalidRanges items lineLength))) \<and>
    ((\<forall>x\<in>set items. lineLength \<le> lm_begin x) \<longrightarrow> fixLinearMetadataItems (Some items) lineLength opts = Inr [])"
proof (intro conjI impI)
  show 1: "fixLinearMetadataItems (Some items) lineLength opts =
      merge_empty_adjacent (fill_gaps opts lineLength (sort_key lm_begin (removeInvalidRanges items lineLength)))"
    by (rule fix_no_trim [OF assms])
  assume "\<forall>x\<in>set items. lineLength \<le> lm_begin x"
  then have "removeInvalidRanges items lineLength = []" by (simp add: removeInvalidRanges_empty)
  with 1 merge_empty_adjacent_ok [of "[]"] show "fixLinearMetadataItems (Some items) lineLength opts = Inr []"
    by (auto simp: fill_gaps_def)
qed

text \<open>Removing any segment of a line, merged into its empty neighbours when there are some, succeeds
  and keeps the tiling.\<close>

lemma removeSegment_keeps_tiling:
  assumes "tiles 0 L lm" and "i < length lm"
  shows "\<exists>lm'. removeSegment lm i emptyValue defaultUnit = Inr lm' \<and> tiles 0 L lm'"
  by (rule removeSegment_tiles [OF assms])

text \<open>The commands of an editing session, as the editor components issue them one at a time.\<close>

datatype lm_edit = Resize nat num side | Merge int merge_policy | Remove nat field_value "string option"

definition lm_edit_step :: "field_value lm \<Rightarrow> lm_edit \<Rightarrow> field_value lm result" where
  "lm_edit_step lm e =
     (case e of
        Resize i gap be \<Rightarrow> bind_result (resizeSegment lm i gap be True) (\<lambda>(lm', _). Inr lm')
      | Merge i p \<Rightarrow> mergeIn lm i p
      | Remove i v u \<Rightarrow> if i < length lm then removeSegment lm i v u else Inr lm)"

lemma lm_edit_step_tiles:
  assumes "tiles 0 L lm" and "lm_edit_step lm e = Inr lm'"
  shows "tiles 0 L lm'"
proof (cases e)
  case (Resize i gap be)
  with assms(2) obtain mp where r: "resizeSegment lm i gap be True = Inr (lm', mp)"
    by (auto simp: lm_edit_step_def)
  then have "i < length lm" by (auto simp: resizeSegment.simps [of lm i] split: if_splits)
  from resizeSegment_outcome [OF assms(1) this, of be gap] r show ?thesis by (auto split: if_splits)
next
  case (Merge i p)
  with assms show ?thesis by (auto simp: lm_edit_step_def intro: mergeIn_tiles)
next
  case (Remove i v u)
  with assms show ?thesis
    using removeSegment_tiles [OF assms(1), of i v u] by (auto simp: lm_edit_step_def split: if_splits)
qed

interpretation line_editor: reducer lm_edit_step "tiles 0 L" "\<lambda>_. True" for L
  by unfold_locales (rule lm_edit_step_tiles)

text \<open>Along any editing session, with the commands that throw leaving the line as it is, the line
  stays tiled.\<close>

lemma editing_session_keeps_tiling:
  assumes "tiles 0 L lm"
  shows "tiles 0 L (run lm_edit_step lm es)"
  using line_editor.run_invar [OF assms] by (simp add: list_all_def)

section \<open>View box\<close>

text \<open>Zooming never leaves the displayed line: for a line of at least the minimal display size, the
  new view box lies between the bounds of the line, whatever the point zoomed on, and shows at least
  the minimal size.\<close>

lemma getZoomedViewBox_in_line:
  assumes "MIN_SIZE_TO_DISPLAY \<le> lm_end (last data) - lm_begin (data ! 0)"
    and "getZoomedViewBox data vb z onPoint = Some (b, e)"
  shows "lm_begin (data ! 0) \<le> b \<and> e \<le> lm_end (last data) \<and> MIN_SIZE_TO_DISPLAY \<le> e - b"
  using assms
  by (auto simp: getZoomedViewBox_def Let_def MIN_SIZE_TO_DISPLAY_def field_simps split: if_splits option.splits)

text \<open>Translating a view box keeps its size, and a view box inside the line stays inside.\<close>

lemma transalteViewBox_in_line:
  assumes "data \<noteq> []" and "0 \<le> v0" and "v0 \<le> v1" and "v1 \<le> lm_end (last data)"
  shows "\<exists>b e. transalteViewBox data (Some (v0, v1)) t = Some (b, e) \<and> e - b = v1 - v0 \<and> 0 \<le> b \<and> e \<le> lm_end (last data)"
  using assms by (auto simp: transalteViewBox_def Let_def)

lemma in_cropForDatavizViewbox:
  "(x, i) \<in> set (cropForDatavizViewbox data vb) \<longleftrightarrow>
   i < length data \<and> crosses_viewbox vb (data ! i) \<and> x = crop_item vb (data ! i)"
  by (force simp: cropForDatavizViewbox_def set_zip image_iff)

text \<open>Cropping to a view box gives segments inside the view box, each the part of the segment of
  the data at the index it carries, and leaves out only segments that do not meet it.\<close>

lemma cropForDatavizViewbox_correct:
  assumes "tiles a b data" and "v0 \<le> v1" and "i < length data"
  shows "if v0 \<le> lm_end (data ! i) \<and> lm_begin (data ! i) \<le> v1
    then (\<exists>x. (x, i) \<in> set (cropForDatavizViewbox data (Some (v0, v1))) \<and>
      lm_fields x = lm_fields (data ! i) \<and> lm_begin x = max v0 (lm_begin (data ! i)) \<and>
      lm_end x = min v1 (lm_end (data ! i)) \<and> lm_begin x \<le> lm_end x)
    else i \<notin> snd ` set (cropForDatavizViewbox data (Some (v0, v1)))"
proof -
  let ?x = "data ! i"
  have pos: "lm_begin ?x < lm_end ?x" using tiles_bounds [OF assms(1)] nth_mem [OF assms(3)] by blast
  have crosses: "crosses_viewbox (Some (v0, v1)) ?x \<longleftrightarrow> v0 \<le> lm_end ?x \<and> lm_begin ?x \<le> v1"
    using pos assms(2) by (auto simp: crosses_viewbox_def)
  show ?thesis
  proof (cases "v0 \<le> lm_end ?x \<and> lm_begin ?x \<le> v1")
    case True
    let ?y = "crop_item (Some (v0, v1)) ?x"
    have "(?y, i) \<in> set (cropForDatavizViewbox data (Some (v0, v1)))"
      using True assms(3) crosses by (simp add: in_cropForDatavizViewbox)
    moreover have "lm_fields ?y = lm_fields ?x \<and> lm_begin ?y = max v0 (lm_begin ?x) \<and>
        lm_end ?y = min v1 (lm_end ?x) \<and> lm_begin ?y \<le> lm_end ?y"
      using True pos assms(2) by (auto simp: crop_item_def max_def min_def)
    ultimately show ?thesis using True by auto
  next
    case False
    then show ?thesis using crosses by (auto simp: in_cropForDatavizViewbox)
  qed
qed

end
