(* ===== verification/Duration.thy ===== *)
theory Duration
  imports Prelude
begin

text \<open>
  \<open>front/src/utils/duration.ts\<close>: durations and dates in whole milliseconds. The ISO 8601 parser and
  printer are those of the dayjs package and stay parameters where they are used.
\<close>

type_synonym date = int

datatype duration = Duration (dur_ms: int)

definition SECOND_IN_MS :: int where "SECOND_IN_MS = 1000"
definition MINUTE_IN_MS :: int where "MINUTE_IN_MS = 60 * SECOND_IN_MS"
definition HOUR_IN_MS :: int where "HOUR_IN_MS = 60 * MINUTE_IN_MS"

datatype time_unit = Second | Minute | Hour

fun UNIT_IN_MS :: "time_unit \<Rightarrow> int" where
  "UNIT_IN_MS Second = SECOND_IN_MS"
| "UNIT_IN_MS Minute = MINUTE_IN_MS"
| "UNIT_IN_MS Hour = HOUR_IN_MS"

definition new_duration :: "int \<Rightarrow> int \<Rightarrow> int \<Rightarrow> int \<Rightarrow> duration" where
  "new_duration hours minutes seconds milliseconds =
     Duration (hours * HOUR_IN_MS + minutes * MINUTE_IN_MS + seconds * SECOND_IN_MS + milliseconds)"

definition duration_zero :: duration where
  "duration_zero = new_duration 0 0 0 0"

definition subtractDate :: "date \<Rightarrow> date \<Rightarrow> duration" where
  "subtractDate a b = new_duration 0 0 0 (a - b)"

definition duration_add :: "duration \<Rightarrow> duration \<Rightarrow> duration" where
  "duration_add a b = new_duration 0 0 0 (dur_ms a + dur_ms b)"

definition duration_sub :: "duration \<Rightarrow> duration \<Rightarrow> duration" where
  "duration_sub a b = new_duration 0 0 0 (dur_ms a - dur_ms b)"

definition duration_abs :: "duration \<Rightarrow> duration" where
  "duration_abs a = new_duration 0 0 0 \<bar>dur_ms a\<bar>"

definition duration_total :: "duration \<Rightarrow> time_unit \<Rightarrow> num" where
  "duration_total a unit = of_int (dur_ms a) / of_int (UNIT_IN_MS unit)"

definition addDurationToDate :: "date \<Rightarrow> duration \<Rightarrow> date" where
  "addDurationToDate d dur = d + dur_ms dur"

definition subtractDurationFromDate :: "date \<Rightarrow> duration \<Rightarrow> date" where
  "subtractDurationFromDate d dur = d - dur_ms dur"

lemmas duration_defs = new_duration_def subtractDate_def duration_add_def duration_sub_def
  duration_abs_def addDurationToDate_def subtractDurationFromDate_def
  SECOND_IN_MS_def MINUTE_IN_MS_def HOUR_IN_MS_def

text \<open>\<open>valueOf\<close> makes the comparison operators compare the milliseconds.\<close>

instantiation duration :: linorder
begin

definition less_eq_duration :: "duration \<Rightarrow> duration \<Rightarrow> bool" where
  "less_eq_duration a b \<longleftrightarrow> dur_ms a \<le> dur_ms b"

definition less_duration :: "duration \<Rightarrow> duration \<Rightarrow> bool" where
  "less_duration a b \<longleftrightarrow> dur_ms a < dur_ms b"

instance
  by standard (auto simp: less_eq_duration_def less_duration_def duration.expand)

end

lemma add_sub_date: "subtractDurationFromDate (addDurationToDate d x) x = d"
  by (simp add: duration_defs)

lemma subtractDate_add: "addDurationToDate b (subtractDate a b) = a"
  by (simp add: duration_defs)

lemma duration_add_sub: "duration_sub (duration_add a b) b = a"
  by (cases a) (simp add: duration_defs)

end
