(* ===== verification/JsStrings.thy ===== *)
theory JsStrings
  imports Prelude
begin

text \<open>
  The string operations of JavaScript that the identifiers, names and text fields of the front end
  rely on: \<open>split\<close>, \<open>join\<close>, \<open>startsWith\<close>, \<open>trim\<close>, the conversion of a string to a number and of a
  number to a string. Strings are lists of 8 bit characters.
\<close>

section \<open>Splitting and joining\<close>

fun js_split :: "char \<Rightarrow> string \<Rightarrow> string list" where
  "js_split sep [] = [[]]"
| "js_split sep (c # s) =
     (if c = sep then [] # js_split sep s
      else (case js_split sep s of [] \<Rightarrow> [[c]] | w # ws \<Rightarrow> (c # w) # ws))"

fun js_join :: "string \<Rightarrow> string list \<Rightarrow> string" where
  "js_join sep [] = []"
| "js_join sep [w] = w"
| "js_join sep (w # ws) = w @ sep @ js_join sep ws"

definition starts_with :: "string \<Rightarrow> string \<Rightarrow> bool" where
  "starts_with pre s = (take (length pre) s = pre)"

lemma js_split_not_Nil [simp]: "js_split sep s \<noteq> []"
  by (induction s) (auto split: list.split)

lemma js_split_no_sep: "sep \<notin> set s \<Longrightarrow> js_split sep s = [s]"
  by (induction s) auto

lemma js_split_append: "sep \<notin> set a \<Longrightarrow> js_split sep (a @ sep # b) = a # js_split sep b"
  by (induction a) auto

lemma js_join_Cons: "ws \<noteq> [] \<Longrightarrow> js_join sep (w # ws) = w @ sep @ js_join sep ws"
  by (cases ws) auto

lemma join_split: "js_join [sep] (js_split sep s) = s"
proof (induction s)
  case (Cons c s)
  obtain w ws where ws: "js_split sep s = w # ws" by (cases "js_split sep s") auto
  with Cons show ?case by (cases ws) auto
qed simp

lemma starts_with_append [simp]: "starts_with pre (pre @ s)"
  by (simp add: starts_with_def)

section \<open>Numbers\<close>

definition is_space :: "char \<Rightarrow> bool" where
  "is_space c = (let n = (of_char c :: nat) in (9 \<le> n \<and> n \<le> 13) \<or> n = 32 \<or> n = 160)"

definition js_trim :: "string \<Rightarrow> string" where
  "js_trim s = rev (dropWhile is_space (rev (dropWhile is_space s)))"

definition digit_value :: "char \<Rightarrow> nat" where
  "digit_value c =
     (let n = (of_char c :: nat) in
      if is_digit c then n - 48 else if 97 \<le> n \<and> n \<le> 122 then n - 87 else if 65 \<le> n \<and> n \<le> 90 then n - 55 else 99)"

definition radix_value :: "nat \<Rightarrow> string \<Rightarrow> num option" where
  "radix_value b s =
     (if s \<noteq> [] \<and> list_all (\<lambda>c. digit_value c < b) s
      then Some (of_nat (foldl (\<lambda>acc c. b * acc + digit_value c) 0 s)) else None)"

text \<open>An optional sign, digits with an optional fraction, an optional exponent.\<close>

definition exponent_value :: "string \<Rightarrow> num option" where
  "exponent_value s =
     (case s of
        [] \<Rightarrow> Some 1
      | c # r \<Rightarrow>
          if c = CHR ''e'' \<or> c = CHR ''E'' then
            (case r of
               [] \<Rightarrow> None
             | c' # r' \<Rightarrow>
                 let ds = (if c' = CHR ''-'' \<or> c' = CHR ''+'' then r' else r) in
                 if ds = [] \<or> \<not> list_all is_digit ds then None
                 else if c' = CHR ''-'' then Some (1 / 10 ^ nat_of_string ds) else Some (10 ^ nat_of_string ds))
          else None)"

definition unsigned_value :: "string \<Rightarrow> num option" where
  "unsigned_value s =
     (let ip = takeWhile is_digit s; r = dropWhile is_digit s;
          fp = (case r of c # r' \<Rightarrow> if c = CHR ''.'' then takeWhile is_digit r' else [] | [] \<Rightarrow> []);
          r2 = (case r of c # r' \<Rightarrow> if c = CHR ''.'' then dropWhile is_digit r' else r | [] \<Rightarrow> [])
      in if ip = [] \<and> fp = [] then None
         else Option.bind (exponent_value r2)
                (\<lambda>m. Some (of_nat (nat_of_string (ip @ fp)) / 10 ^ length fp * m)))"

text \<open>\<open>Number(s)\<close>, None for \<open>NaN\<close>. The literals \<open>Infinity\<close> are not numbers here.\<close>

definition js_number :: "string \<Rightarrow> num option" where
  "js_number s0 =
     (let s = js_trim s0 in
      case s of
        [] \<Rightarrow> Some 0
      | c # r \<Rightarrow>
          if c = CHR ''-'' then map_option (\<lambda>v. - v) (unsigned_value r)
          else if c = CHR ''+'' then unsigned_value r
          else if take 2 s = ''0x'' \<or> take 2 s = ''0X'' then radix_value 16 (drop 2 s)
          else if take 2 s = ''0o'' \<or> take 2 s = ''0O'' then radix_value 8 (drop 2 s)
          else if take 2 s = ''0b'' \<or> take 2 s = ''0B'' then radix_value 2 (drop 2 s)
          else unsigned_value s)"

text \<open>A number in a template literal: the integer part and at most twenty digits of the fraction.\<close>

fun fraction_digits :: "nat \<Rightarrow> num \<Rightarrow> string" where
  "fraction_digits 0 f = []"
| "fraction_digits (Suc n) f =
     (if f = 0 then [] else digit_char (nat \<lfloor>10 * f\<rfloor>) # fraction_digits n (10 * f - of_int \<lfloor>10 * f\<rfloor>))"

definition js_num_string :: "num \<Rightarrow> string" where
  "js_num_string x =
     (let a = \<bar>x\<bar>; n = nat \<lfloor>a\<rfloor>; f = a - of_int \<lfloor>a\<rfloor>
      in (if x < 0 then ''-'' else []) @ string_of_nat n @
         (if f = 0 then [] else CHR ''.'' # fraction_digits 20 f))"

abbreviation string_of_int :: "int \<Rightarrow> string" where
  "string_of_int n \<equiv> js_num_string (of_int n)"

lemma string_of_int_def:
  "string_of_int n = (if n < 0 then ''-'' else []) @ string_of_nat (nat \<bar>n\<bar>)"
  by (simp add: js_num_string_def Let_def flip: of_int_abs)

lemma digit_props:
  "is_digit c \<Longrightarrow> \<not> is_space c" "is_digit c \<Longrightarrow> c \<noteq> CHR ''-''" "is_digit c \<Longrightarrow> c \<noteq> CHR ''+''"
  "is_digit c \<Longrightarrow> c \<noteq> CHR ''_''" "is_digit c \<Longrightarrow> c \<noteq> CHR ''x''" "is_digit c \<Longrightarrow> c \<noteq> CHR ''X''"
  "is_digit c \<Longrightarrow> c \<noteq> CHR ''o''" "is_digit c \<Longrightarrow> c \<noteq> CHR ''O''" "is_digit c \<Longrightarrow> c \<noteq> CHR ''b''"
  "is_digit c \<Longrightarrow> c \<noteq> CHR ''B''"
  by (auto simp: is_digit_def is_space_def Let_def)

lemma dropWhile_none: "\<forall>c\<in>set s. \<not> p c \<Longrightarrow> dropWhile p s = s"
  by (cases s) auto

lemma unsigned_value_digits:
  assumes "list_all is_digit s" and "s \<noteq> []"
  shows "unsigned_value s = Some (of_nat (nat_of_string s))"
proof -
  have "takeWhile is_digit s = s" "dropWhile is_digit s = []"
    using assms(1) by (auto simp: list_all_iff)
  then show ?thesis using assms(2) by (simp only: unsigned_value_def Let_def) (simp add: exponent_value_def)
qed

lemma js_trim_none: "\<forall>c\<in>set s. \<not> is_space c \<Longrightarrow> js_trim s = s"
  by (simp add: js_trim_def dropWhile_none)

lemma not_radix:
  assumes "list_all is_digit s" and "\<not> is_digit c"
  shows "take 2 s \<noteq> [CHR ''0'', c]"
proof
  assume "take 2 s = [CHR ''0'', c]"
  then have "c \<in> set s" by (metis in_set_takeD list.set_intros(1,2))
  with assms show False by (auto simp: list_all_iff)
qed

text \<open>Printing an integer and reading it back gives the integer.\<close>

lemma js_number_digits:
  assumes "list_all is_digit s" and "s \<noteq> []"
  shows "js_number s = Some (of_nat (nat_of_string s))"
proof -
  have trim: "js_trim s = s" using assms(1) by (intro js_trim_none) (auto simp: list_all_iff digit_props)
  obtain c r where s: "s = c # r" using assms(2) by (cases s) auto
  then have c: "c \<noteq> CHR ''-''" "c \<noteq> CHR ''+''" using assms(1) by (auto dest: digit_props)
  have radix: "take 2 s \<noteq> ''0x'' \<and> take 2 s \<noteq> ''0X'' \<and> take 2 s \<noteq> ''0o'' \<and> take 2 s \<noteq> ''0O'' \<and>
      take 2 s \<noteq> ''0b'' \<and> take 2 s \<noteq> ''0B''"
    using not_radix [OF assms(1)] by (simp add: is_digit_def)
  have "js_number s = unsigned_value s"
    unfolding js_number_def trim Let_def using c radix by (simp only: s list.case if_False simp_thms)
  then show ?thesis using unsigned_value_digits [OF assms] by simp
qed

lemma js_number_string_of_int: "js_number (string_of_int n) = Some (of_int n)"
proof (cases "n < 0")
  case True
  let ?d = "string_of_nat (nat \<bar>n\<bar>)"
  have d: "list_all is_digit ?d" "?d \<noteq> []" using string_of_nat_digits by auto
  have "js_trim (CHR ''-'' # ?d) = CHR ''-'' # ?d"
  proof (rule js_trim_none)
    have "\<not> is_space (CHR ''-'')" by (simp add: is_space_def)
    with d(1) show "\<forall>c\<in>set (CHR ''-'' # ?d). \<not> is_space c" by (auto simp: list_all_iff digit_props)
  qed
  then have "js_number (CHR ''-'' # ?d) = map_option uminus (unsigned_value ?d)"
    by (simp add: js_number_def)
  then show ?thesis using True unsigned_value_digits [OF d] by (simp add: string_of_int_def)
next
  case False
  then show ?thesis
    using js_number_digits string_of_nat_digits by (simp add: string_of_int_def)
qed

lemma string_of_int_no_sep: "CHR ''_'' \<notin> set (string_of_int n)"
  using string_of_nat_digits [of "nat \<bar>n\<bar>"] by (auto simp: string_of_int_def list_all_iff dest: digit_props)

lemma string_of_int_inject: "string_of_int a = string_of_int b \<longleftrightarrow> a = b"
  by (metis js_number_string_of_int of_int_eq_iff option.inject)

end
