(* ===== verification/PathSteps.thy ===== *)
theory PathSteps
  imports Duration JsStrings
begin

text \<open>
  The itinerary of a train: path steps and operational points. Models the types of
  \<open>front/src/reducers/osrdconf/types.ts\<close> and \<open>modules/timetableItem/types.ts\<close>, the array helpers of
  \<open>utils/array.ts\<close>, the path step helpers of
  \<open>reducers/osrdconf/operationalStudiesConf/utils.ts\<close> and \<open>reducers/osrdconf/helpers.ts\<close>, the matching of
  steps with operational points of \<open>modules/pathfinding/utils.ts\<close> and
  \<open>modules/timetableItem/helpers/computeBasePathStep.ts\<close>. Positions are whole millimetres. A position is
  optional throughout, also where the types promise it and the code asserts it with \<open>!\<close>.
\<close>

section \<open>Arrays (utils/array.ts)\<close>

definition removeElementAtIndex :: "'a list \<Rightarrow> int \<Rightarrow> 'a list" where
  "removeElementAtIndex xs indexToRemove = splice_remove xs indexToRemove"

definition replaceElementAtIndex :: "'a list \<Rightarrow> int \<Rightarrow> 'a \<Rightarrow> 'a list" where
  "replaceElementAtIndex xs indexToReplace newElement = splice_replace xs indexToReplace newElement"

definition addElementAtIndex :: "'a list \<Rightarrow> int \<Rightarrow> 'a \<Rightarrow> 'a list" where
  "addElementAtIndex xs indexToAdd newElement = splice_insert xs indexToAdd newElement"

definition toggleElement :: "'a list \<Rightarrow> 'a \<Rightarrow> 'a list" where
  "toggleElement xs element =
     (if element \<in> set xs then removeElementAtIndex xs (find_index (\<lambda>x. x = element) xs) else xs @ [element])"

section \<open>Data\<close>

datatype op_reference =
    OpId string
  | OpTrigram string "string option"
  | OpUic int "string option"

text \<open>\<open>PathItemLocation\<close>: a track offset, or a reference to (a part of) an operational point. The key
  \<open>local_track_name\<close> belongs to the second kind, but \<open>upsertPathStep\<close> writes it on both.\<close>

datatype location =
    TrackOffset (loc_track: string) (loc_offset: int) (loc_track_name: "string option")
  | OpPart (loc_op: op_reference) (loc_track_name: "string option")

datatype reception_signal = OPEN | STOP | SHORT_SLIP_STOP

record path_step =
  ps_id :: string
  ps_location :: location
  ps_arrival :: "duration option"
  ps_stopFor :: "duration option"
  ps_theoreticalMargin :: "string option"
  ps_receptionSignal :: "reception_signal option"
  ps_kp :: "string option"
  ps_positionOnPath :: "int option"
  ps_coordinates :: "(num \<times> num) option"
  ps_name :: "string option"
  ps_isInvalid :: bool
  ps_isFromPowerRestriction :: bool

record suggested_op =
  so_pathStepId :: "string option"
  so_opId :: "string option"
  so_name :: "string option"
  so_uic :: "int option"
  so_ch :: "string option"
  so_kp :: "string option"
  so_trigram :: "string option"
  so_offsetOnTrack :: int
  so_track :: string
  so_positionOnPath :: "int option"
  so_coordinates :: "(num \<times> num) option"
  so_arrival :: "duration option"
  so_stopFor :: "duration option"
  so_theoreticalMargin :: "string option"
  so_receptionSignal :: "reception_signal option"

record power_restriction =
  pr_from :: string
  pr_to :: string
  pr_value :: string

definition NO_POWER_RESTRICTION :: string where
  "NO_POWER_RESTRICTION = ''NO_POWER_RESTRICTION''"

text \<open>Categories, comfort, distribution and options of a train (\<open>TrainSchedule\<close> of the editoast API).\<close>

datatype main_category =
    HIGH_SPEED_TRAIN | INTERCITY_TRAIN | REGIONAL_TRAIN | NIGHT_TRAIN | COMMUTER_TRAIN | FREIGHT_TRAIN
  | FAST_FREIGHT_TRAIN | TRAM_TRAIN | TOURISTIC_TRAIN | WORK_TRAIN

datatype train_category = MainCategory main_category | SubCategory string

datatype comfort = ComfortStandard | AirConditioning | Heating

datatype distribution = STANDARD | MARECO

record train_options =
  to_use_electrical_profiles :: "bool option"
  to_use_speed_limits_for_simulation :: "bool option"
  to_stops_at_end_of_block :: "bool option"

section \<open>Path steps and power restrictions (operationalStudiesConf/utils.ts)\<close>

definition canRemovePathStep :: "path_step \<Rightarrow> power_restriction list \<Rightarrow> bool" where
  "canRemovePathStep pathStep ranges =
     (let pathStepIsUsed = list_ex (\<lambda>r. pr_from r = ps_id pathStep \<or> pr_to r = ps_id pathStep) ranges
      in \<not> pathStepIsUsed \<and> ps_arrival pathStep = None \<and> ps_stopFor pathStep = None \<and>
         \<not> truthy (ps_theoreticalMargin pathStep))"

definition update_restriction ::
  "power_restriction option \<Rightarrow> power_restriction option \<Rightarrow> string option \<Rightarrow> power_restriction \<Rightarrow> power_restriction" where
  "update_restriction firstRestriction secondRestriction newPathStepId r =
     (if truthy newPathStepId then
        if map_option pr_to firstRestriction = Some (pr_to r) then r\<lparr>pr_to := the newPathStepId\<rparr>
        else if map_option pr_from secondRestriction = Some (pr_from r) then r\<lparr>pr_from := the newPathStepId\<rparr>
        else r
      else r)"

definition updateRestrictions ::
  "power_restriction list \<Rightarrow> power_restriction list \<Rightarrow> power_restriction option \<Rightarrow> power_restriction option \<Rightarrow>
   string option \<Rightarrow> power_restriction list" where
  "updateRestrictions restrictions restrictionsToRemove firstRestriction secondRestriction newPathStepId =
     map (update_restriction firstRestriction secondRestriction newPathStepId)
       (filter (\<lambda>r. \<not> list_ex (\<lambda>rm. pr_from r = pr_from rm \<and> pr_to r = pr_to rm) restrictionsToRemove)
         restrictions)"

definition isRangeCovered :: "path_step list \<Rightarrow> power_restriction \<Rightarrow> int \<Rightarrow> int \<Rightarrow> bool result" where
  "isRangeCovered pathSteps prange positionMin positionMax =
     (let pathStepFrom = find (\<lambda>s. ps_id s = pr_from prange) pathSteps;
          pathStepTo = find (\<lambda>s. ps_id s = pr_to prange) pathSteps
      in case (Option.bind pathStepFrom ps_positionOnPath, Option.bind pathStepTo ps_positionOnPath) of
           (Some f, Some t) \<Rightarrow> Inr (positionMin < f \<and> t < positionMax)
         | _ \<Rightarrow> Inl (JSError ''Path step has no position on path''))"

text \<open>\<open>step.positionOnPath && step.positionOnPath > p\<close>: 0 and undefined are falsy, and a comparison with
  undefined is false.\<close>

definition position_after :: "int option \<Rightarrow> int option \<Rightarrow> bool" where
  "position_after sp p =
     (case (sp, p) of (Some a, Some b) \<Rightarrow> a \<noteq> 0 \<and> a > b | _ \<Rightarrow> False)"

text \<open>\<open>a >= b\<close> on positions that may be undefined.\<close>

definition at_or_after :: "int option \<Rightarrow> int option \<Rightarrow> bool" where
  "at_or_after a b = (case (a, b) of (Some x, Some y) \<Rightarrow> x \<ge> y | _ \<Rightarrow> False)"

definition addPathStep :: "path_step list \<Rightarrow> path_step \<Rightarrow> path_step list" where
  "addPathStep pathSteps newPathStep =
     (if list_ex (\<lambda>s. ps_id s = ps_id newPathStep) pathSteps then pathSteps
      else addElementAtIndex pathSteps
             (find_index (\<lambda>s. position_after (ps_positionOnPath s) (ps_positionOnPath newPathStep)) pathSteps)
             newPathStep)"

text \<open>\<open>cleanPathSteps\<close>. The callers pass the steps of the state, in which \<open>null\<close> stands for an undefined
  origin or destination: reading a flag of \<open>null\<close> raises a \<open>TypeError\<close>.\<close>

fun clean_path_steps_from ::
  "nat \<Rightarrow> nat \<Rightarrow> power_restriction list \<Rightarrow> path_step option list \<Rightarrow> path_step option list result" where
  "clean_path_steps_from index n prs [] = Inr []"
| "clean_path_steps_from index n prs (step # steps) =
     (let keep = (\<lambda>_ :: unit. bind_result (clean_path_steps_from (Suc index) n prs steps) (\<lambda>r. Inr (step # r))) in
      if index = 0 \<or> index = n - 1 then keep ()
      else case step of
        None \<Rightarrow> Inl TypeError
      | Some s \<Rightarrow>
          if \<not> ps_isFromPowerRestriction s then keep ()
          else if canRemovePathStep s prs then clean_path_steps_from (Suc index) n prs steps
          else keep ())"

definition cleanPathSteps ::
  "path_step option list \<Rightarrow> power_restriction list \<Rightarrow> path_step option list result" where
  "cleanPathSteps pathSteps prs = clean_path_steps_from 0 (length pathSteps) prs pathSteps"

section \<open>Path steps and operational points (modules/pathfinding/utils.ts)\<close>

definition matchPathStepAndOp :: "location \<Rightarrow> suggested_op \<Rightarrow> bool" where
  "matchPathStepAndOp step op1 =
     (case step of
        TrackOffset track offset _ \<Rightarrow> track = so_track op1 \<and> offset = so_offsetOnTrack op1
      | OpPart (OpId i) _ \<Rightarrow> Some i = so_opId op1
      | OpPart (OpUic uic secondary_code) _ \<Rightarrow> Some uic = so_uic op1 \<and> secondary_code = so_ch op1
      | OpPart (OpTrigram trigram secondary_code) _ \<Rightarrow> Some trigram = so_trigram op1 \<and> secondary_code = so_ch op1)"

definition pathStepMatchesOp :: "path_step \<Rightarrow> suggested_op \<Rightarrow> bool \<Rightarrow> bool" where
  "pathStepMatchesOp pathStep op1 withKP =
     (if \<not> matchPathStepAndOp (ps_location pathStep) op1 then Some (ps_id pathStep) = so_pathStepId op1
      else case ps_location pathStep of
        OpPart (OpUic _ _) _ \<Rightarrow>
          if withKP then ps_kp pathStep = so_kp op1 else ps_name pathStep = so_name op1
      | _ \<Rightarrow> True)"

definition isVia :: "path_step list \<Rightarrow> suggested_op \<Rightarrow> bool \<Rightarrow> bool" where
  "isVia vias op1 withKP = list_ex (\<lambda>via. pathStepMatchesOp via op1 withKP) vias"

definition isPathStepInvalid :: "path_step option \<Rightarrow> bool" where
  "isPathStepInvalid step = (case step of None \<Rightarrow> False | Some s \<Rightarrow> ps_isInvalid s)"

definition isStation :: "string \<Rightarrow> bool" where
  "isStation chCode = (chCode = ''BV'' \<or> chCode = ''00'' \<or> chCode = [])"

text \<open>\<open>upsertPathStepsInOPs\<close>; \<open>tr\<close> is the translation function of i18next, applied to a key and, for the
  requested points, to the index of the step.\<close>

type_synonym translate = "string \<Rightarrow> nat option \<Rightarrow> string"

definition step_name :: "translate \<Rightarrow> nat \<Rightarrow> nat \<Rightarrow> string" where
  "step_name tr stepIndex n =
     (if stepIndex = 0 then tr ''main.requestedOrigin'' None
      else if stepIndex = n - 1 then tr ''main.requestedDestination'' None
      else tr ''main.requestedPoint'' (Some stepIndex))"

definition format_step :: "string \<Rightarrow> string \<Rightarrow> int \<Rightarrow> path_step \<Rightarrow> suggested_op" where
  "format_step stepName track offset step =
     \<lparr>so_pathStepId = Some (ps_id step), so_opId = None, so_name = Some stepName, so_uic = None, so_ch = None,
      so_kp = None, so_trigram = None, so_offsetOnTrack = offset, so_track = track,
      so_positionOnPath = ps_positionOnPath step, so_coordinates = ps_coordinates step, so_arrival = ps_arrival step,
      so_stopFor = ps_stopFor step, so_theoreticalMargin = ps_theoreticalMargin step,
      so_receptionSignal = ps_receptionSignal step\<rparr>"

definition upsert_step_in_ops ::
  "translate \<Rightarrow> nat \<Rightarrow> nat \<Rightarrow> path_step \<Rightarrow> suggested_op list \<Rightarrow> suggested_op list result" where
  "upsert_step_in_ops tr n stepIndex step ops =
     (if ps_isInvalid step then Inr ops
      else case ps_location step of
        TrackOffset track offset _ \<Rightarrow>
          let formattedStep = format_step (step_name tr stepIndex n) track offset step;
              index = find_index (\<lambda>op1. at_or_after (so_positionOnPath op1) (ps_positionOnPath step)) ops
          in if index \<noteq> -1 then Inr (addElementAtIndex ops index formattedStep)
             else Inr (ops @ [formattedStep])
      | OpPart _ _ \<Rightarrow>
          let index = find_index (\<lambda>op1. matchPathStepAndOp (ps_location step) op1 \<and> so_kp op1 = ps_kp step \<and>
                                        ps_positionOnPath step = so_positionOnPath op1) ops
          in if index < 0 then Inl (JSError ''Could not find path step in OP list'')
             else Inr (ops[nat index := (ops ! nat index)\<lparr>so_pathStepId := Some (ps_id step),
                   so_stopFor := ps_stopFor step, so_arrival := ps_arrival step,
                   so_receptionSignal := ps_receptionSignal step,
                   so_theoreticalMargin := ps_theoreticalMargin step\<rparr>]))"

fun upsert_steps_from ::
  "translate \<Rightarrow> nat \<Rightarrow> nat \<Rightarrow> path_step list \<Rightarrow> suggested_op list \<Rightarrow> suggested_op list result" where
  "upsert_steps_from tr n i [] ops = Inr ops"
| "upsert_steps_from tr n i (step # steps) ops =
     bind_result (upsert_step_in_ops tr n i step ops) (upsert_steps_from tr n (Suc i) steps)"

definition upsertPathStepsInOPs ::
  "suggested_op list \<Rightarrow> path_step list \<Rightarrow> translate \<Rightarrow> suggested_op list result" where
  "upsertPathStepsInOPs ops pathSteps tr = upsert_steps_from tr (length pathSteps) 0 pathSteps ops"


section \<open>Inserting steps (reducers/osrdconf/helpers.ts)\<close>

text \<open>\<open>insertViaFromMap\<close>; \<open>positionOf\<close> stands for \<open>calculateDistanceAlongTrack\<close> on the geometry of the path,
  which projects a map point with turf.\<close>

definition via_location :: "location \<Rightarrow> location" where
  "via_location l = (case l of TrackOffset track offset _ \<Rightarrow> TrackOffset track offset None | OpPart r n \<Rightarrow> OpPart r n)"

definition empty_step :: "string \<Rightarrow> location \<Rightarrow> path_step" where
  "empty_step i l =
     \<lparr>ps_id = i, ps_location = l, ps_arrival = None, ps_stopFor = None, ps_theoreticalMargin = None,
      ps_receptionSignal = None, ps_kp = None, ps_positionOnPath = None, ps_coordinates = None, ps_name = None,
      ps_isInvalid = False, ps_isFromPowerRestriction = False\<rparr>"

definition insertViaFromMap ::
  "(num \<times> num \<Rightarrow> int) \<Rightarrow> path_step option list \<Rightarrow> path_step \<Rightarrow> path_step option list" where
  "insertViaFromMap positionOf pathSteps newVia =
     (case ps_coordinates newVia of
        None \<Rightarrow> pathSteps
      | Some coordinates \<Rightarrow>
          let newStep = (empty_step (ps_id newVia) (via_location (ps_location newVia)))\<lparr>ps_coordinates := Some coordinates\<rparr>;
              defined = (pathSteps \<noteq> [] \<and> hd pathSteps \<noteq> None \<and> last pathSteps \<noteq> None);
              newViaIndex =
                (if defined \<and> length pathSteps > 2 then
                   find_index (\<lambda>s. case Option.bind s ps_positionOnPath of
                                     None \<Rightarrow> False
                                   | Some p \<Rightarrow> p \<noteq> 0 \<and> p \<ge> positionOf coordinates) pathSteps
                 else -1)
          in addElementAtIndex pathSteps newViaIndex (Some newStep))"

definition via_of_op :: "string \<Rightarrow> suggested_op \<Rightarrow> path_step" where
  "via_of_op uuid op1 =
     (empty_step uuid
        (case so_uic op1 of
           Some uic \<Rightarrow> if uic \<noteq> 0 then OpPart (OpUic uic (so_ch op1)) None
                       else TrackOffset (so_track op1) (so_offsetOnTrack op1) None
         | None \<Rightarrow> TrackOffset (so_track op1) (so_offsetOnTrack op1) None))
     \<lparr>ps_coordinates := so_coordinates op1, ps_positionOnPath := so_positionOnPath op1, ps_name := so_name op1,
      ps_kp := so_kp op1, ps_arrival := so_arrival op1, ps_receptionSignal := so_receptionSignal op1,
      ps_theoreticalMargin := so_theoreticalMargin op1, ps_stopFor := so_stopFor op1\<rparr>"

fun set_track_name :: "string option \<Rightarrow> location \<Rightarrow> location" where
  "set_track_name n (TrackOffset t off _) = TrackOffset t off n"
| "set_track_name n (OpPart r _) = OpPart r n"

text \<open>\<open>upsertPathStep\<close>; \<open>uuid\<close> is the identifier drawn by the uuid package. Both indices are computed on
  the compacted steps and used on the steps of the state.\<close>

definition upsertPathStep :: "string \<Rightarrow> path_step option list \<Rightarrow> suggested_op \<Rightarrow> path_step option list" where
  "upsertPathStep uuid statePathSteps op1 =
     (let cleanSteps = js_compact statePathSteps;
          newVia = via_of_op uuid op1;
          stepIndex = find_index (\<lambda>step. pathStepMatchesOp step op1 False) cleanSteps
      in if stepIndex \<ge> 0 then
           let matched = cleanSteps ! nat stepIndex;
               newVia' = newVia\<lparr>ps_id := ps_id matched,
                 ps_location := set_track_name (loc_track_name (ps_location matched)) (ps_location newVia)\<rparr>
           in statePathSteps[nat stepIndex := Some newVia']
         else
           let index = find_index (\<lambda>step. at_or_after (ps_positionOnPath step) (so_positionOnPath op1)) cleanSteps
           in splice_insert statePathSteps (if index = 0 then 1 else index) (Some newVia))"

section \<open>Path steps of a saved train (computeBasePathStep.ts)\<close>

record path_item =
  pi_id :: string
  pi_location :: location

record schedule_item =
  si_at :: string
  si_arrival :: "string option"
  si_stop_for :: "string option"
  si_reception_signal :: "reception_signal option"

record margins =
  mg_boundaries :: "string list"
  mg_values :: "string list"

definition findCorrespondingMargin :: "string \<Rightarrow> nat \<Rightarrow> margins \<Rightarrow> string option" where
  "findCorrespondingMargin stepId stepIndex m =
     (if stepIndex = 0
      then (case js_at (mg_values m) 0 of None \<Rightarrow> None | Some v \<Rightarrow> if v = ''none'' then None else Some v)
      else let marginIndex = find_index (\<lambda>b. b = stepId) (mg_boundaries m)
           in if marginIndex \<noteq> -1 then js_at (mg_values m) (marginIndex + 1) else None)"

definition location_name :: "location \<Rightarrow> string option" where
  "location_name l =
     (case l of
        TrackOffset _ _ _ \<Rightarrow> None
      | OpPart (OpTrigram trigram sc) _ \<Rightarrow>
          Some (trigram @ (if truthy sc then ''/'' @ the sc else []))
      | OpPart (OpUic uic _) _ \<Rightarrow> Some (string_of_int uic)
      | OpPart (OpId i) _ \<Rightarrow> Some i)"

text \<open>\<open>parse\<close> is \<open>Duration.parse\<close>, which reads an ISO 8601 duration with dayjs. An index outside the path
  raises a \<open>TypeError\<close>.\<close>

definition parse_duration :: "(string \<Rightarrow> duration) \<Rightarrow> string option \<Rightarrow> duration option" where
  "parse_duration parse s = (if truthy s then Some (parse (the s)) else None)"

definition computeBasePathStep ::
  "(string \<Rightarrow> duration) \<Rightarrow> path_item list \<Rightarrow> schedule_item list option \<Rightarrow> margins option \<Rightarrow> nat \<Rightarrow> path_step result" where
  "computeBasePathStep parse path schedule margins pathItemIndex =
     (if pathItemIndex \<ge> length path then Inl TypeError
      else let item = path ! pathItemIndex;
               corresponding = Option.bind schedule (find (\<lambda>s. si_at s = pi_id item));
               theoreticalMargin =
                 (case margins of
                    None \<Rightarrow> None
                  | Some m \<Rightarrow> if pathItemIndex \<noteq> length path - 1
                             then findCorrespondingMargin (pi_id item) pathItemIndex m else None)
           in Inr ((empty_step (pi_id item) (pi_location item))
                \<lparr>ps_name := location_name (pi_location item),
                 ps_arrival := parse_duration parse (Option.bind corresponding si_arrival),
                 ps_stopFor := parse_duration parse (Option.bind corresponding si_stop_for),
                 ps_receptionSignal :=
                   (case Option.bind corresponding si_reception_signal of None \<Rightarrow> Some OPEN | Some r \<Rightarrow> Some r),
                 ps_theoreticalMargin := theoreticalMargin\<rparr>))"

section \<open>Lemmas\<close>

abbreviation step_ids :: "path_step option list \<Rightarrow> string set" where
  "step_ids steps \<equiv> ps_id ` set (js_compact steps)"

definition restriction_ids :: "power_restriction list \<Rightarrow> string set" where
  "restriction_ids prs = pr_from ` set prs \<union> pr_to ` set prs"

lemma step_ids_iff: "i \<in> step_ids steps \<longleftrightarrow> (\<exists>s. Some s \<in> set steps \<and> ps_id s = i)"
  by (auto simp: set_js_compact)

lemma addPathStep_ids: "ps_id ` set (addPathStep steps s) = insert (ps_id s) (ps_id ` set steps)"
  by (auto simp: addPathStep_def addElementAtIndex_def list_ex_iff image_iff; metis)

lemma addPathStep_set: "set (addPathStep steps s) \<subseteq> insert s (set steps)"
  by (auto simp: addPathStep_def addElementAtIndex_def)

text \<open>\<open>cleanPathSteps\<close> removes only steps that no restriction uses.\<close>

lemma clean_from_ids:
  "clean_path_steps_from i n prs steps = Inr steps' \<Longrightarrow>
   step_ids steps \<inter> restriction_ids prs \<subseteq> step_ids steps' \<and> set steps' \<subseteq> set steps"
proof (induction steps arbitrary: i steps')
  case (Cons step steps)
  show ?case
  proof (cases "\<exists>r. clean_path_steps_from (Suc i) n prs steps = Inr r \<and> steps' = step # r")
    case True
    then obtain r where r: "clean_path_steps_from (Suc i) n prs steps = Inr r" "steps' = step # r" by blast
    from Cons.IH [OF r(1)] show ?thesis using r(2) by (cases step) auto
  next
    case False
    with Cons.prems obtain s where s: "step = Some s" "canRemovePathStep s prs"
      "clean_path_steps_from (Suc i) n prs steps = Inr steps'"
      by (auto simp: Let_def split: if_splits option.splits)
    have "ps_id s \<notin> restriction_ids prs"
      using s(2) by (auto simp: canRemovePathStep_def restriction_ids_def list_ex_iff)
    with Cons.IH [OF s(3)] s(1) show ?thesis by auto
  qed
qed simp

lemma cleanPathSteps_ids:
  "cleanPathSteps steps prs = Inr steps' \<Longrightarrow>
   step_ids steps \<inter> restriction_ids prs \<subseteq> step_ids steps' \<and> set steps' \<subseteq> set steps"
  unfolding cleanPathSteps_def by (rule clean_from_ids)

end
