(* ===== verification/CommonConf.thy ===== *)
theory CommonConf
  imports PathSteps
begin

text \<open>
  The part of the configuration state that the operational studies and the short term path requests
  (stdcm) share: \<open>front/src/reducers/infra/index.ts\<close>, \<open>reducers/commonMap/index.ts\<close> and
  \<open>reducers/osrdconf/osrdConfCommon/index.ts\<close>. The reducers work on every extension of the common
  record, as the generic functions of the source do. The map settings are JSON objects, since their
  reducers spread partial objects over them.
\<close>

section \<open>Values\<close>

datatype js_val =
    Undefined
  | Null
  | Bool bool
  | Num num
  | Str string
  | Obj "(string \<times> js_val) list"
  | Arr "js_val list"

type_synonym js_obj = "js_val obj"

text \<open>The members that a spread of a value copies; spreading undefined or null copies nothing.\<close>

fun members :: "js_val \<Rightarrow> js_obj" where
  "members (Obj o1) = o1"
| "members _ = []"

text \<open>Reading a member: an absent one is undefined.\<close>

definition js_member :: "js_obj \<Rightarrow> string \<Rightarrow> js_val" where
  "js_member o1 k = (case obj_get o1 k of None \<Rightarrow> Undefined | Some v \<Rightarrow> v)"

section \<open>State\<close>

type_synonym rowid = nat

record infra =
  inf_id :: rowid
  inf_locked :: bool

record osrd_conf =
  infraID :: "rowid option"
  infraIsLocked :: bool
  projectID :: "rowid option"
  studyID :: "rowid option"
  scenarioID :: "rowid option"
  timetableID :: "rowid option"
  electricalProfileSetId :: "rowid option"
  rollingStockID :: "rowid option"
  speedLimitByTag :: "string option"
  mapSettings :: js_obj

definition defaultMapSettings :: js_obj where
  "defaultMapSettings =
     [(''mapStyle'', Str ''normal''),
      (''showIGNBDORTHO'', Bool False),
      (''showIGNSCAN25'', Bool False),
      (''showIGNCadastre'', Bool False),
      (''showOSM'', Bool True),
      (''showOSM3dBuildings'', Bool False),
      (''showOSMtracksections'', Bool False),
      (''terrain3DExaggeration'', Num 0),
      (''layersSettings'', Obj
        [(''buffer_stops'', Bool False),
         (''electrifications'', Bool False),
         (''neutral_sections'', Bool False),
         (''detectors'', Bool False),
         (''level_crossings'', Bool False),
         (''operational_points'', Bool True),
         (''routes'', Bool False),
         (''signals'', Bool False),
         (''sncf_psl'', Bool False),
         (''speed_limits'', Bool False),
         (''speedlimittag'', Null),
         (''switches'', Bool False),
         (''track_sections'', Bool True),
         (''platforms'', Bool False),
         (''errors'', Bool False)]),
      (''viewport'', Obj
        [(''latitude'', Num (4832 / 100)),
         (''longitude'', Num (244 / 100)),
         (''zoom'', Num (62 / 10)),
         (''bearing'', Num 0),
         (''pitch'', Num 0),
         (''padding'', Obj [(''top'', Num 0), (''left'', Num 0), (''bottom'', Num 0), (''right'', Num 0)]),
         (''width'', Num 0),
         (''height'', Num 0)]),
      (''mapSearchMarker'', Undefined),
      (''lineSearchCode'', Undefined)]"

definition defaultCommonConf :: osrd_conf where
  "defaultCommonConf =
     \<lparr>infraID = None, infraIsLocked = False, projectID = None, studyID = None, scenarioID = None,
      timetableID = None, electricalProfileSetId = None, rollingStockID = None, speedLimitByTag = None,
      mapSettings = defaultMapSettings\<rparr>"

section \<open>Reducers of the infrastructure (infra/index.ts)\<close>

definition updateInfraID :: "'a osrd_conf_scheme \<Rightarrow> rowid option \<Rightarrow> 'a osrd_conf_scheme" where
  "updateInfraID state payload = state\<lparr>infraID := payload\<rparr>"

definition updateInfra :: "'a osrd_conf_scheme \<Rightarrow> infra \<Rightarrow> 'a osrd_conf_scheme" where
  "updateInfra state payload = state\<lparr>infraID := Some (inf_id payload), infraIsLocked := inf_locked payload\<rparr>"

section \<open>Reducers of the map settings (commonMap/index.ts)\<close>

definition updateMapSettings :: "'a osrd_conf_scheme \<Rightarrow> js_obj \<Rightarrow> 'a osrd_conf_scheme" where
  "updateMapSettings state payload = state\<lparr>mapSettings := obj_spread (mapSettings state) payload\<rparr>"

text \<open>\<open>{...settings, [k]: {...settings[k], ...payload}}\<close>\<close>

definition spread_member :: "js_obj \<Rightarrow> string \<Rightarrow> js_obj \<Rightarrow> js_obj" where
  "spread_member settings k payload =
     obj_set settings k (Obj (obj_spread (members (js_member settings k)) payload))"

definition updateLayersSettings :: "'a osrd_conf_scheme \<Rightarrow> js_obj \<Rightarrow> 'a osrd_conf_scheme" where
  "updateLayersSettings state payload =
     state\<lparr>mapSettings := spread_member (mapSettings state) ''layersSettings'' payload\<rparr>"

definition updateViewport :: "'a osrd_conf_scheme \<Rightarrow> js_obj \<Rightarrow> 'a osrd_conf_scheme" where
  "updateViewport state payload =
     state\<lparr>mapSettings := spread_member (mapSettings state) ''viewport'' payload\<rparr>"

definition selectSearchResult :: "'a osrd_conf_scheme \<Rightarrow> string \<Rightarrow> num list \<Rightarrow> 'a osrd_conf_scheme" where
  "selectSearchResult state label coordinates =
     (let coordinate = (\<lambda>i. case js_at coordinates i of None \<Rightarrow> Undefined | Some c \<Rightarrow> Num c);
          viewport = [(''longitude'', coordinate 0), (''latitude'', coordinate 1), (''zoom'', Num 16)];
          marker = Obj [(''title'', Str label), (''lonlat'', Arr (map Num coordinates))]
      in state\<lparr>mapSettings :=
           obj_set (spread_member (mapSettings state) ''viewport'' viewport) ''mapSearchMarker'' marker\<rparr>)"

definition removeMapSearchMarker :: "'a osrd_conf_scheme \<Rightarrow> 'a osrd_conf_scheme" where
  "removeMapSearchMarker state =
     state\<lparr>mapSettings := obj_spread (mapSettings state)
             [(''mapSearchMarker'', Undefined), (''lineSearchCode'', Undefined)]\<rparr>"

section \<open>Common reducers (osrdConfCommon/index.ts)\<close>

definition updateTimetableID :: "'a osrd_conf_scheme \<Rightarrow> rowid option \<Rightarrow> 'a osrd_conf_scheme" where
  "updateTimetableID state payload = state\<lparr>timetableID := payload\<rparr>"

definition updateRollingStockID :: "'a osrd_conf_scheme \<Rightarrow> rowid option \<Rightarrow> 'a osrd_conf_scheme" where
  "updateRollingStockID state payload = state\<lparr>rollingStockID := payload\<rparr>"

text \<open>The payload may be undefined or null; both become undefined.\<close>

definition updateSpeedLimitByTag :: "'a osrd_conf_scheme \<Rightarrow> string option \<Rightarrow> 'a osrd_conf_scheme" where
  "updateSpeedLimitByTag state payload = state\<lparr>speedLimitByTag := payload\<rparr>"

datatype common_action =
    UpdateInfraID "rowid option"
  | UpdateInfra infra
  | UpdateMapSettings js_obj
  | UpdateLayersSettings js_obj
  | UpdateViewport js_obj
  | SelectSearchResult string "num list"
  | RemoveMapSearchMarker
  | UpdateTimetableID "rowid option"
  | UpdateRollingStockID "rowid option"
  | UpdateSpeedLimitByTag "string option"

fun commonConfReducers :: "'a osrd_conf_scheme \<Rightarrow> common_action \<Rightarrow> 'a osrd_conf_scheme" where
  "commonConfReducers state (UpdateInfraID p) = updateInfraID state p"
| "commonConfReducers state (UpdateInfra p) = updateInfra state p"
| "commonConfReducers state (UpdateMapSettings p) = updateMapSettings state p"
| "commonConfReducers state (UpdateLayersSettings p) = updateLayersSettings state p"
| "commonConfReducers state (UpdateViewport p) = updateViewport state p"
| "commonConfReducers state (SelectSearchResult l c) = selectSearchResult state l c"
| "commonConfReducers state RemoveMapSearchMarker = removeMapSearchMarker state"
| "commonConfReducers state (UpdateTimetableID p) = updateTimetableID state p"
| "commonConfReducers state (UpdateRollingStockID p) = updateRollingStockID state p"
| "commonConfReducers state (UpdateSpeedLimitByTag p) = updateSpeedLimitByTag state p"

lemmas common_reducer_defs = updateInfraID_def updateInfra_def updateMapSettings_def updateLayersSettings_def
  updateViewport_def selectSearchResult_def removeMapSearchMarker_def updateTimetableID_def
  updateRollingStockID_def updateSpeedLimitByTag_def

section \<open>Lemmas\<close>

lemma more_commonConfReducers [simp]: "osrd_conf.more (commonConfReducers state a) = osrd_conf.more state"
  by (cases a) (simp_all add: common_reducer_defs Let_def)

lemma js_member_set [js_simps]: "js_member (obj_set o1 k v) k' = (if k' = k then v else js_member o1 k')"
  by (simp add: js_member_def obj_get_set)

lemma js_member_spread [js_simps]:
  "distinct (map fst b) \<Longrightarrow>
   js_member (obj_spread a b) k = (if k \<in> fst ` set b then js_member b k else js_member a k)"
proof -
  assume d: "distinct (map fst b)"
  have "k \<in> fst ` set b \<longleftrightarrow> obj_get b k \<noteq> None"
    by (auto simp: obj_get_def map_of_eq_None_iff)
  then show ?thesis
    by (cases "obj_get b k") (simp_all add: js_member_def obj_get_spread [OF d])
qed

lemma js_member_spread_member [js_simps]:
  "js_member (spread_member o1 k payload) k' =
     (if k' = k then Obj (obj_spread (members (js_member o1 k)) payload) else js_member o1 k')"
  by (simp add: spread_member_def js_member_set)

end
