(* ===== verification/Physics.thy ===== *)
theory Physics
  imports Prelude
begin

text \<open>
  \<open>front/src/utils/physics.ts\<close>: conversions between units, on rational numbers.
\<close>

text \<open>\<open>Math.round\<close>: the nearest integer, halves up.\<close>

definition js_round :: "num \<Rightarrow> int" where
  "js_round x = \<lfloor>x + 1 / 2\<rfloor>"

definition jouleToKwh :: "num \<Rightarrow> bool \<Rightarrow> num" where
  "jouleToKwh jouleEnergy roundedUp =
     (let v = jouleEnergy / (36 / 10 * 10 ^ 6) in if roundedUp then of_int \<lceil>v\<rceil> else v)"

definition mToKm :: "num \<Rightarrow> num" where "mToKm l = l / 1000"
definition kmToM :: "num \<Rightarrow> num" where "kmToM l = l * 1000"
definition mmToM :: "num \<Rightarrow> num" where "mmToM l = l / 1000"
definition mToMm :: "num \<Rightarrow> num" where "mToMm l = l * 1000"
definition mmToKm :: "num \<Rightarrow> num" where "mmToKm l = l / 1000000"
definition sToMs :: "num \<Rightarrow> num" where "sToMs v = v * 1000"
definition msToS :: "num \<Rightarrow> num" where "msToS v = v * (1 / 1000)"
definition kmhToMs :: "num \<Rightarrow> num" where "kmhToMs v = \<bar>v / (36 / 10)\<bar>"
definition msToKmh :: "num \<Rightarrow> num" where "msToKmh v = v * (36 / 10)"
definition msToKmhRounded :: "num \<Rightarrow> int" where "msToKmhRounded v = js_round (msToKmh v)"

text \<open>A distance of 0 gives an infinite margin (None), or \<open>NaN || 0\<close> when no time is lost.\<close>

definition minutePer100km :: "num \<Rightarrow> num \<Rightarrow> num option" where
  "minutePer100km timeLost distance =
     (if distance = 0 then (if timeLost = 0 then Some 0 else None)
      else Some ((100 * 1000 * timeLost) / (distance * 60)))"

definition timeLostFromMin100KmMargin :: "num \<Rightarrow> num \<Rightarrow> num" where
  "timeLostFromMin100KmMargin margin distance = (60 * margin * distance) / (100 * 1000)"

definition percentageToDecimal :: "num \<Rightarrow> num" where "percentageToDecimal v = v * (1 / 100)"
definition decimalToPercentage :: "num \<Rightarrow> num" where "decimalToPercentage v = v * 100"
definition tToKg :: "num \<Rightarrow> num" where "tToKg v = v * 1000"
definition kgToT :: "num \<Rightarrow> num" where "kgToT v = v / 1000"

lemmas unit_defs = mToKm_def kmToM_def mmToM_def mToMm_def mmToKm_def sToMs_def msToS_def kmhToMs_def
  msToKmh_def percentageToDecimal_def decimalToPercentage_def tToKg_def kgToT_def

lemma js_round_of_int [simp]: "js_round (of_int n) = n"
  unfolding js_round_def by linarith

lemma js_round_bounds: "x - 1 / 2 < of_int (js_round x) \<and> of_int (js_round x) \<le> x + 1 / 2"
  unfolding js_round_def by linarith

lemma kmh_roundtrip: "0 \<le> v \<Longrightarrow> kmhToMs (msToKmh v) = v"
  by (simp add: unit_defs)

text \<open>A margin in minutes per 100 km and the time it costs determine each other.\<close>

lemma margin_roundtrip:
  "distance \<noteq> 0 \<Longrightarrow> minutePer100km (timeLostFromMin100KmMargin margin distance) distance = Some margin"
  by (simp add: minutePer100km_def timeLostFromMin100KmMargin_def)

end
