(* ===== verification/OpStudiesConf.thy ===== *)
theory OpStudiesConf
  imports CommonConf Physics
begin

text \<open>
  The configuration slice of the operational studies: the train being edited, its path steps and its
  power restrictions. Models \<open>front/src/reducers/osrdconf/operationalStudiesConf\<close>
  (\<open>index.ts\<close>, \<open>powerRestrictionReducer.ts\<close>, \<open>trainSettingsReducer.ts\<close>, \<open>itineraryReducer.ts\<close>). Every
  reducer takes the state and its payload; the ones that can throw return a result. Identifiers drawn
  by the uuid package are part of the payload.
\<close>

section \<open>State\<close>

datatype editing_item_type = UniqueTrain | PacedTrain | OccurrenceItem

record added_exception =
  ae_key :: string
  ae_startTime :: date

record op_conf = osrd_conf +
  name :: string
  category :: "train_category option"
  startTime :: date
  initialSpeed :: "num option"
  labels :: "string list"
  rollingStockName :: string
  rollingStockComfort :: comfort
  pathSteps :: "path_step option list"
  constraintDistribution :: distribution
  usingElectricalProfiles :: bool
  usingSpeedLimits :: bool
  stopsAtEndOfBlock :: bool
  powerRestriction :: "power_restriction list"
  timeWindow :: duration
  interval :: duration
  addedExceptions :: "added_exception list"
  editingItemType :: editing_item_type

text \<open>\<open>now\<close> is the time at which the module is loaded.\<close>

definition operationalStudiesInitialConf :: "date \<Rightarrow> op_conf" where
  "operationalStudiesInitialConf now =
     osrd_conf.extend defaultCommonConf
       (op_conf.fields [] None now (Some 0) [] [] ComfortStandard [None, None] MARECO True True False []
          (new_duration 0 120 0 0) (new_duration 0 60 0 0) [] UniqueTrain)"

section \<open>Power restrictions (powerRestrictionReducer.ts)\<close>

definition updatePowerRestrictionRanges :: "op_conf \<Rightarrow> power_restriction list \<Rightarrow> op_conf" where
  "updatePowerRestrictionRanges state payload = state\<lparr>powerRestriction := payload\<rparr>"

text \<open>\<open>keyBy(pathSteps, 'id')[i]?.positionOnPath\<close>: the last step with the identifier wins.\<close>

definition position_by_id :: "path_step list \<Rightarrow> string \<Rightarrow> int option" where
  "position_by_id steps i = Option.bind (find (\<lambda>s. ps_id s = i) (rev steps)) ps_positionOnPath"

definition upsertPowerRestrictionRanges :: "op_conf \<Rightarrow> path_step \<Rightarrow> path_step \<Rightarrow> string \<Rightarrow> op_conf" where
  "upsertPowerRestrictionRanges state from to code =
     (let kept = filter (\<lambda>r. pr_from r \<noteq> ps_id from \<and> pr_to r \<noteq> ps_id to) (powerRestriction state);
          newPathSteps = addPathStep (addPathStep (js_compact (pathSteps state)) from) to;
          newRanges =
            (if code \<noteq> NO_POWER_RESTRICTION then
               sort_by (\<lambda>r. position_by_id newPathSteps (pr_from r))
                 (kept @ [\<lparr>pr_from = ps_id from, pr_to = ps_id to, pr_value = code\<rparr>])
             else kept)
      in state\<lparr>pathSteps := map Some newPathSteps, powerRestriction := newRanges\<rparr>)"

text \<open>\<open>xs[i]\<close> on an array of steps: undefined outside the array.\<close>

definition step_at :: "path_step option list \<Rightarrow> int \<Rightarrow> path_step option" where
  "step_at steps i = (if 0 \<le> i \<and> i < int (length steps) then steps ! nat i else None)"

definition cut_restriction ::
  "string \<Rightarrow> string \<Rightarrow> string \<Rightarrow> power_restriction \<Rightarrow> power_restriction list" where
  "cut_restriction prevId cutId nextId r =
     (if pr_from r = prevId then [r\<lparr>pr_to := cutId\<rparr>, r\<lparr>pr_from := cutId, pr_to := nextId\<rparr>] else [r])"

definition cutPowerRestrictionRanges :: "op_conf \<Rightarrow> path_step \<Rightarrow> op_conf" where
  "cutPowerRestrictionRanges state cutAt =
     (let pathIds = map ps_id (js_compact (pathSteps state)) in
      if ps_id cutAt \<in> set pathIds then state
      else
        let cutAtIndex = find_index
              (\<lambda>step. position_after (Option.bind step ps_positionOnPath) (ps_positionOnPath cutAt)) (pathSteps state)
        in if cutAtIndex = -1 then state
           else
             let newPathSteps = addElementAtIndex (pathSteps state) cutAtIndex (Some cutAt) in
             case (step_at newPathSteps (cutAtIndex - 1), step_at newPathSteps (cutAtIndex + 1)) of
               (Some prevStep, Some nextStep) \<Rightarrow>
                 state\<lparr>pathSteps := newPathSteps,
                       powerRestriction :=
                         concat (map (cut_restriction (ps_id prevStep) (ps_id cutAt) (ps_id nextStep))
                                  (powerRestriction state))\<rparr>
             | _ \<Rightarrow> state)"

definition merge_restriction ::
  "string \<Rightarrow> string \<Rightarrow> string \<Rightarrow> power_restriction \<Rightarrow> power_restriction option" where
  "merge_restriction fromId prevToId newToId r =
     (if pr_from r = fromId \<and> pr_to r = prevToId then Some (r\<lparr>pr_to := newToId\<rparr>)
      else if pr_from r \<noteq> prevToId \<and> pr_to r \<noteq> newToId then Some r
      else None)"

definition set_cleaned :: "op_conf \<Rightarrow> path_step option list \<Rightarrow> power_restriction list \<Rightarrow> op_conf result" where
  "set_cleaned state newPathSteps newRanges =
     bind_result (cleanPathSteps newPathSteps newRanges)
       (\<lambda>steps. Inr (state\<lparr>pathSteps := steps, powerRestriction := newRanges\<rparr>))"

definition mergePowerRestrictionRanges :: "op_conf \<Rightarrow> path_step \<Rightarrow> path_step \<Rightarrow> path_step \<Rightarrow> op_conf result" where
  "mergePowerRestrictionRanges state from prevTo newTo =
     (if None \<in> set (pathSteps state) then Inl (JSError ''PathSteps should not have null values at this point'')
      else case find (\<lambda>r. pr_from r = ps_id from) (powerRestriction state) of
        None \<Rightarrow>
          set_cleaned state (pathSteps state)
            (filter (\<lambda>r. pr_from r \<noteq> ps_id prevTo \<and> pr_to r \<noteq> ps_id newTo) (powerRestriction state))
      | Some _ \<Rightarrow>
          let newRanges = js_compact (map (merge_restriction (ps_id from) (ps_id prevTo) (ps_id newTo))
                                        (powerRestriction state));
              pathIds = map ps_id (js_compact (pathSteps state))
          in if ps_id newTo \<in> set pathIds then set_cleaned state (pathSteps state) newRanges
             else
               let newToIndex = find_index
                     (\<lambda>step. position_after (Option.bind step ps_positionOnPath) (ps_positionOnPath newTo))
                     (pathSteps state)
               in if newToIndex = -1
                  then Inl (JSError ''Can not insert the new pathStep in the pathSteps array'')
                  else set_cleaned state (addElementAtIndex (pathSteps state) newToIndex (Some newTo)) newRanges)"

definition deletePowerRestrictionRanges :: "op_conf \<Rightarrow> path_step \<Rightarrow> path_step \<Rightarrow> op_conf result" where
  "deletePowerRestrictionRanges state from to =
     set_cleaned state (pathSteps state)
       (filter (\<lambda>r. pr_from r \<noteq> ps_id from \<and> pr_to r \<noteq> ps_id to) (powerRestriction state))"

text \<open>The position of the new step is asserted with \<open>!\<close>; an undefined one makes the comparisons false.\<close>

definition isRangeCovered_opt ::
  "path_step list \<Rightarrow> int option \<Rightarrow> int option \<Rightarrow> power_restriction \<Rightarrow> bool result" where
  "isRangeCovered_opt steps pmin pmax r =
     (case (pmin, pmax) of
        (Some a, Some b) \<Rightarrow> isRangeCovered steps r a b
      | _ \<Rightarrow> bind_result (isRangeCovered steps r 0 0) (\<lambda>_. Inr False))"

definition resize_with ::
  "op_conf \<Rightarrow> power_restriction option \<Rightarrow> power_restriction option \<Rightarrow> int option \<Rightarrow> int option \<Rightarrow> path_step \<Rightarrow>
   op_conf result" where
  "resize_with state firstRestriction secondRestriction pmin pmax newStep =
     (if None \<in> set (pathSteps state) then Inr state
      else let steps = js_compact (pathSteps state) in
        bind_result (filter_result (isRangeCovered_opt steps pmin pmax) (powerRestriction state))
          (\<lambda>coveredRanges.
             set_cleaned state (map Some (addPathStep steps newStep))
               (updateRestrictions (powerRestriction state) coveredRanges firstRestriction secondRestriction
                  (Some (ps_id newStep)))))"

definition resizeSegmentBeginInput ::
  "op_conf \<Rightarrow> power_restriction option \<Rightarrow> power_restriction option \<Rightarrow> int \<Rightarrow> path_step \<Rightarrow> op_conf result" where
  "resizeSegmentBeginInput state firstRestriction secondRestriction endPosition newFromPathStep =
     resize_with state firstRestriction secondRestriction (ps_positionOnPath newFromPathStep) (Some endPosition)
       newFromPathStep"

definition resizeSegmentEndInput ::
  "op_conf \<Rightarrow> power_restriction option \<Rightarrow> power_restriction option \<Rightarrow> int \<Rightarrow> path_step \<Rightarrow> op_conf result" where
  "resizeSegmentEndInput state firstRestriction secondRestriction beginPosition newEndPathStep =
     resize_with state firstRestriction secondRestriction (Some beginPosition) (ps_positionOnPath newEndPathStep)
       newEndPathStep"

definition cleanPowerRestrictionsCoveredByANewRange :: "op_conf \<Rightarrow> int \<Rightarrow> int \<Rightarrow> op_conf result" where
  "cleanPowerRestrictionsCoveredByANewRange state beginPosition endPosition =
     (if None \<in> set (pathSteps state) then Inr state
      else let steps = js_compact (pathSteps state) in
        bind_result (filter_result (isRangeCovered_opt steps (Some beginPosition) (Some endPosition))
                       (powerRestriction state))
          (\<lambda>coveredRanges.
             set_cleaned state (pathSteps state)
               (updateRestrictions (powerRestriction state) coveredRanges None None None)))"

section \<open>Train settings (trainSettingsReducer.ts)\<close>

definition updateConstraintDistribution :: "op_conf \<Rightarrow> distribution \<Rightarrow> op_conf" where
  "updateConstraintDistribution state payload = state\<lparr>constraintDistribution := payload\<rparr>"

definition updateName :: "op_conf \<Rightarrow> string \<Rightarrow> op_conf" where
  "updateName state payload = state\<lparr>name := payload\<rparr>"

definition updateCategory :: "op_conf \<Rightarrow> train_category option \<Rightarrow> op_conf" where
  "updateCategory state payload = state\<lparr>category := payload\<rparr>"

definition toggleUsingElectricalProfiles :: "op_conf \<Rightarrow> op_conf" where
  "toggleUsingElectricalProfiles state = state\<lparr>usingElectricalProfiles := \<not> usingElectricalProfiles state\<rparr>"

definition updateLabels :: "op_conf \<Rightarrow> string list \<Rightarrow> op_conf" where
  "updateLabels state payload = state\<lparr>labels := payload\<rparr>"

definition updateInitialSpeed :: "op_conf \<Rightarrow> num option \<Rightarrow> op_conf" where
  "updateInitialSpeed state payload = state\<lparr>initialSpeed := payload\<rparr>"

definition updateStartTime :: "op_conf \<Rightarrow> date \<Rightarrow> op_conf" where
  "updateStartTime state payload = state\<lparr>startTime := payload\<rparr>"

definition updateRollingStockComfort :: "op_conf \<Rightarrow> comfort \<Rightarrow> op_conf" where
  "updateRollingStockComfort state payload = state\<lparr>rollingStockComfort := payload\<rparr>"

definition updateTimeWindow :: "op_conf \<Rightarrow> duration \<Rightarrow> op_conf" where
  "updateTimeWindow state payload = state\<lparr>timeWindow := payload\<rparr>"

definition updateInterval :: "op_conf \<Rightarrow> duration \<Rightarrow> op_conf" where
  "updateInterval state payload = state\<lparr>interval := payload\<rparr>"

definition toggleEditingItemType :: "op_conf \<Rightarrow> op_conf" where
  "toggleEditingItemType state =
     state\<lparr>editingItemType := (if editingItemType state = PacedTrain then UniqueTrain else PacedTrain)\<rparr>"

section \<open>Itinerary (itineraryReducer.ts)\<close>

definition updatePathSteps :: "op_conf \<Rightarrow> path_step option list \<Rightarrow> op_conf" where
  "updatePathSteps state payload = state\<lparr>pathSteps := payload\<rparr>"

definition deleteItinerary :: "op_conf \<Rightarrow> op_conf" where
  "deleteItinerary state = state\<lparr>pathSteps := [None, None], powerRestriction := []\<rparr>"

definition replaceItinerary :: "op_conf \<Rightarrow> path_step option list \<Rightarrow> op_conf" where
  "replaceItinerary state payload = state\<lparr>pathSteps := payload, powerRestriction := []\<rparr>"

section \<open>The slice (index.ts)\<close>

text \<open>The fields of \<open>TimetableItemWithDetails\<close> that the slice reads.\<close>

record timetable_item =
  ti_rollingStock :: "rowid option"
  ti_rollingStockName :: string
  ti_name :: string
  ti_initial_speed :: "num option"
  ti_startTime :: date
  ti_options :: "train_options option"
  ti_speedLimitTag :: "string option"
  ti_labels :: "string list"
  ti_power_restrictions :: "power_restriction list option"
  ti_path :: "path_item list"
  ti_schedule :: "schedule_item list option"
  ti_margins :: "margins option"
  ti_constraint_distribution :: "distribution option"
  ti_category :: "train_category option"
  ti_paced :: "(duration \<times> duration) option"

definition initial_speed_kmh :: "num option \<Rightarrow> num" where
  "initial_speed_kmh v =
     (case v of None \<Rightarrow> 0 | Some x \<Rightarrow> if x = 0 then 0 else of_int \<lfloor>msToKmh x * 10\<rfloor> / 10)"

definition or_default :: "'a option \<Rightarrow> 'a \<Rightarrow> 'a" where
  "or_default v d = (case v of None \<Rightarrow> d | Some x \<Rightarrow> x)"

definition set_train_settings :: "op_conf \<Rightarrow> timetable_item \<Rightarrow> path_step list \<Rightarrow> op_conf" where
  "set_train_settings state item steps = state
     \<lparr>rollingStockName := ti_rollingStockName item,
      rollingStockID := ti_rollingStock item,
      pathSteps := map Some steps,
      startTime := ti_startTime item,
      name := ti_name item,
      category := ti_category item,
      initialSpeed := Some (initial_speed_kmh (ti_initial_speed item)),
      usingElectricalProfiles := or_default (Option.bind (ti_options item) to_use_electrical_profiles) True,
      usingSpeedLimits := or_default (Option.bind (ti_options item) to_use_speed_limits_for_simulation) True,
      stopsAtEndOfBlock := or_default (Option.bind (ti_options item) to_stops_at_end_of_block) False,
      labels := ti_labels item,
      speedLimitByTag := (if truthy (ti_speedLimitTag item) then ti_speedLimitTag item else None),
      powerRestriction := or_default (ti_power_restrictions item) [],
      constraintDistribution := or_default (ti_constraint_distribution item) STANDARD\<rparr>"

definition set_paced :: "op_conf \<Rightarrow> (duration \<times> duration) option \<Rightarrow> bool \<Rightarrow> op_conf" where
  "set_paced state paced isOccurrence =
     (case paced of
        Some (w, i) \<Rightarrow>
          state\<lparr>editingItemType := (if isOccurrence then OccurrenceItem else PacedTrain), timeWindow := w, interval := i\<rparr>
      | None \<Rightarrow>
          state\<lparr>editingItemType := UniqueTrain, timeWindow := new_duration 0 120 0 0,
                interval := new_duration 0 60 0 0\<rparr>)"

definition selectTrainToEdit ::
  "(string \<Rightarrow> duration) \<Rightarrow> op_conf \<Rightarrow> timetable_item \<Rightarrow> bool \<Rightarrow> op_conf result" where
  "selectTrainToEdit parse state item isOccurrence =
     bind_result
       (map_result (computeBasePathStep parse (ti_path item) (ti_schedule item) (ti_margins item))
          [0..<length (ti_path item)])
       (\<lambda>steps. Inr (set_paced (set_train_settings state item steps) (ti_paced item) isOccurrence))"

definition upsertViaFromSuggestedOP :: "op_conf \<Rightarrow> string \<Rightarrow> suggested_op \<Rightarrow> op_conf" where
  "upsertViaFromSuggestedOP state uuid op1 = state\<lparr>pathSteps := upsertPathStep uuid (pathSteps state) op1\<rparr>"

definition upsertSeveralViasFromSuggestedOP :: "op_conf \<Rightarrow> (string \<times> suggested_op) list \<Rightarrow> op_conf" where
  "upsertSeveralViasFromSuggestedOP state payload =
     state\<lparr>pathSteps := foldl (\<lambda>steps (uuid, op1). upsertPathStep uuid steps op1) (pathSteps state) payload\<rparr>"

definition resetUsingSpeedLimits :: "op_conf \<Rightarrow> op_conf" where
  "resetUsingSpeedLimits state = state\<lparr>usingSpeedLimits := True\<rparr>"

definition addAddedException :: "op_conf \<Rightarrow> string \<Rightarrow> date \<Rightarrow> op_conf" where
  "addAddedException state uuid payload =
     state\<lparr>addedExceptions := addedExceptions state @ [\<lparr>ae_key = uuid, ae_startTime = payload\<rparr>]\<rparr>"

definition deleteAddedException :: "op_conf \<Rightarrow> string \<Rightarrow> op_conf" where
  "deleteAddedException state payload =
     state\<lparr>addedExceptions := splice_remove (addedExceptions state)
             (find_index (\<lambda>e. ae_key e = payload) (addedExceptions state))\<rparr>"

definition clearAddedExceptionsList :: "op_conf \<Rightarrow> op_conf" where
  "clearAddedExceptionsList state = state\<lparr>addedExceptions := []\<rparr>"

datatype op_action =
    Common common_action
  | UpdatePowerRestrictionRanges "power_restriction list"
  | UpsertPowerRestrictionRanges path_step path_step string
  | CutPowerRestrictionRanges path_step
  | MergePowerRestrictionRanges path_step path_step path_step
  | DeletePowerRestrictionRanges path_step path_step
  | ResizeSegmentBeginInput "power_restriction option" "power_restriction option" int path_step
  | ResizeSegmentEndInput "power_restriction option" "power_restriction option" int path_step
  | CleanPowerRestrictionsCoveredByANewRange int int
  | UpdateConstraintDistribution distribution
  | UpdateName string
  | UpdateCategory "train_category option"
  | ToggleUsingElectricalProfiles
  | UpdateLabels "string list"
  | UpdateInitialSpeed "num option"
  | UpdateStartTime date
  | UpdateRollingStockComfort comfort
  | UpdateTimeWindow duration
  | UpdateInterval duration
  | ToggleEditingItemType
  | UpdatePathSteps "path_step option list"
  | DeleteItinerary
  | ReplaceItinerary "path_step option list"
  | SelectTrainToEdit timetable_item bool
  | UpsertViaFromSuggestedOP string suggested_op
  | UpsertSeveralViasFromSuggestedOP "(string \<times> suggested_op) list"
  | ResetUsingSpeedLimits
  | AddAddedException string date
  | DeleteAddedException string
  | ClearAddedExceptionsList

fun operationalStudiesConfSlice :: "(string \<Rightarrow> duration) \<Rightarrow> op_conf \<Rightarrow> op_action \<Rightarrow> op_conf result" where
  "operationalStudiesConfSlice parse s (Common a) = Inr (commonConfReducers s a)"
| "operationalStudiesConfSlice parse s (UpdatePowerRestrictionRanges p) = Inr (updatePowerRestrictionRanges s p)"
| "operationalStudiesConfSlice parse s (UpsertPowerRestrictionRanges f t c) =
     Inr (upsertPowerRestrictionRanges s f t c)"
| "operationalStudiesConfSlice parse s (CutPowerRestrictionRanges c) = Inr (cutPowerRestrictionRanges s c)"
| "operationalStudiesConfSlice parse s (MergePowerRestrictionRanges f p n) = mergePowerRestrictionRanges s f p n"
| "operationalStudiesConfSlice parse s (DeletePowerRestrictionRanges f t) = deletePowerRestrictionRanges s f t"
| "operationalStudiesConfSlice parse s (ResizeSegmentBeginInput a b e n) = resizeSegmentBeginInput s a b e n"
| "operationalStudiesConfSlice parse s (ResizeSegmentEndInput a b e n) = resizeSegmentEndInput s a b e n"
| "operationalStudiesConfSlice parse s (CleanPowerRestrictionsCoveredByANewRange b e) =
     cleanPowerRestrictionsCoveredByANewRange s b e"
| "operationalStudiesConfSlice parse s (UpdateConstraintDistribution p) = Inr (updateConstraintDistribution s p)"
| "operationalStudiesConfSlice parse s (UpdateName p) = Inr (updateName s p)"
| "operationalStudiesConfSlice parse s (UpdateCategory p) = Inr (updateCategory s p)"
| "operationalStudiesConfSlice parse s ToggleUsingElectricalProfiles = Inr (toggleUsingElectricalProfiles s)"
| "operationalStudiesConfSlice parse s (UpdateLabels p) = Inr (updateLabels s p)"
| "operationalStudiesConfSlice parse s (UpdateInitialSpeed p) = Inr (updateInitialSpeed s p)"
| "operationalStudiesConfSlice parse s (UpdateStartTime p) = Inr (updateStartTime s p)"
| "operationalStudiesConfSlice parse s (UpdateRollingStockComfort p) = Inr (updateRollingStockComfort s p)"
| "operationalStudiesConfSlice parse s (UpdateTimeWindow p) = Inr (updateTimeWindow s p)"
| "operationalStudiesConfSlice parse s (UpdateInterval p) = Inr (updateInterval s p)"
| "operationalStudiesConfSlice parse s ToggleEditingItemType = Inr (toggleEditingItemType s)"
| "operationalStudiesConfSlice parse s (UpdatePathSteps p) = Inr (updatePathSteps s p)"
| "operationalStudiesConfSlice parse s DeleteItinerary = Inr (deleteItinerary s)"
| "operationalStudiesConfSlice parse s (ReplaceItinerary p) = Inr (replaceItinerary s p)"
| "operationalStudiesConfSlice parse s (SelectTrainToEdit i o1) = selectTrainToEdit parse s i o1"
| "operationalStudiesConfSlice parse s (UpsertViaFromSuggestedOP u o1) = Inr (upsertViaFromSuggestedOP s u o1)"
| "operationalStudiesConfSlice parse s (UpsertSeveralViasFromSuggestedOP p) =
     Inr (upsertSeveralViasFromSuggestedOP s p)"
| "operationalStudiesConfSlice parse s ResetUsingSpeedLimits = Inr (resetUsingSpeedLimits s)"
| "operationalStudiesConfSlice parse s (AddAddedException u d) = Inr (addAddedException s u d)"
| "operationalStudiesConfSlice parse s (DeleteAddedException k) = Inr (deleteAddedException s k)"
| "operationalStudiesConfSlice parse s ClearAddedExceptionsList = Inr (clearAddedExceptionsList s)"

lemmas settings_defs = updateConstraintDistribution_def updateName_def updateCategory_def
  toggleUsingElectricalProfiles_def updateLabels_def updateInitialSpeed_def updateStartTime_def
  updateRollingStockComfort_def updateTimeWindow_def updateInterval_def toggleEditingItemType_def
  resetUsingSpeedLimits_def addAddedException_def deleteAddedException_def clearAddedExceptionsList_def

end
