(* ===== verification/OpStudiesProofs.thy ===== *)
theory OpStudiesProofs
  imports OpStudiesConf
begin

text \<open>
  Correctness of the power restriction reducers. A state is \<^emph>\<open>anchored\<close> when both ends of every power
  restriction are steps of the path, which all have a value as soon as there is a restriction. The
  slice keeps this along every history, and the path steps stay ordered by their position.
\<close>

section \<open>Anchored restrictions\<close>

definition anchored :: "path_step option list \<Rightarrow> power_restriction list \<Rightarrow> bool" where
  "anchored steps prs \<longleftrightarrow>
     restriction_ids prs \<subseteq> step_ids steps \<and> (prs \<noteq> [] \<longrightarrow> None \<notin> set steps)"

abbreviation conf_anchored :: "op_conf \<Rightarrow> bool" where
  "conf_anchored s \<equiv> anchored (pathSteps s) (powerRestriction s)"

lemma anchored_Nil [simp]: "anchored steps []"
  by (simp add: anchored_def restriction_ids_def)

lemma restriction_ids_mono: "set prs' \<subseteq> set prs \<Longrightarrow> restriction_ids prs' \<subseteq> restriction_ids prs"
  by (auto simp: restriction_ids_def)

lemma anchored_subset: "anchored steps prs \<Longrightarrow> set prs' \<subseteq> set prs \<Longrightarrow> anchored steps prs'"
  unfolding anchored_def using restriction_ids_mono [of prs' prs] by (cases prs) auto

lemma restriction_ids_filter: "restriction_ids (filter p prs) \<subseteq> restriction_ids prs"
  by (rule restriction_ids_mono) auto

lemma update_restriction_ids:
  "{pr_from (update_restriction f s (Some i) r), pr_to (update_restriction f s (Some i) r)} \<subseteq> {i, pr_from r, pr_to r}"
  by (auto simp: update_restriction_def)

lemma updateRestrictions_ids:
  "restriction_ids (updateRestrictions prs rm f s (Some i)) \<subseteq> insert i (restriction_ids prs)"
proof
  fix x
  assume "x \<in> restriction_ids (updateRestrictions prs rm f s (Some i))"
  then obtain r where r: "r \<in> set prs"
    and "x \<in> {pr_from (update_restriction f s (Some i) r), pr_to (update_restriction f s (Some i) r)}"
    by (auto simp: restriction_ids_def updateRestrictions_def)
  then have "x \<in> {i, pr_from r, pr_to r}" using update_restriction_ids by blast
  with r show "x \<in> insert i (restriction_ids prs)" by (auto simp: restriction_ids_def)
qed

lemma updateRestrictions_none: "set (updateRestrictions prs rm None None None) \<subseteq> set prs"
  by (auto simp: updateRestrictions_def update_restriction_def truthy_def)

lemma updateRestrictions_Nil: "updateRestrictions prs rm f s i \<noteq> [] \<Longrightarrow> prs \<noteq> []"
  by (auto simp: updateRestrictions_def)

lemma step_ids_map_Some [simp]: "step_ids (map Some steps) = ps_id ` set steps"
  by simp

lemma set_cleaned_anchored:
  assumes "anchored steps prs" and "set_cleaned s steps prs = Inr s'"
  shows "conf_anchored s'"
proof -
  from assms(2) obtain steps' where s': "s' = s\<lparr>pathSteps := steps', powerRestriction := prs\<rparr>"
    and c: "cleanPathSteps steps prs = Inr steps'"
    by (auto simp: set_cleaned_def)
  from cleanPathSteps_ids [OF c] assms(1) show ?thesis
    unfolding s' anchored_def by auto
qed

lemma upsert_anchored: "conf_anchored s \<Longrightarrow> conf_anchored (upsertPowerRestrictionRanges s f t c)"
proof -
  assume a: "conf_anchored s"
  define steps where "steps = addPathStep (addPathStep (js_compact (pathSteps s)) f) t"
  define kept where "kept = filter (\<lambda>r. pr_from r \<noteq> ps_id f \<and> pr_to r \<noteq> ps_id t) (powerRestriction s)"
  have ids: "ps_id ` set steps = insert (ps_id t) (insert (ps_id f) (step_ids (pathSteps s)))"
    by (simp add: steps_def addPathStep_ids)
  have k: "restriction_ids kept \<subseteq> step_ids (pathSteps s)"
    using a restriction_ids_filter unfolding kept_def anchored_def by blast
  let ?new = "\<lparr>pr_from = ps_id f, pr_to = ps_id t, pr_value = c\<rparr>"
  have "restriction_ids (kept @ [?new]) = restriction_ids kept \<union> {ps_id f, ps_id t}"
    by (auto simp: restriction_ids_def)
  with k ids have "anchored (map Some steps) (kept @ [?new])"
    by (auto simp: anchored_def)
  moreover have "set (powerRestriction (upsertPowerRestrictionRanges s f t c)) \<subseteq> set (kept @ [?new])"
    by (auto simp: upsertPowerRestrictionRanges_def kept_def Let_def)
  moreover have "pathSteps (upsertPowerRestrictionRanges s f t c) = map Some steps"
    by (simp add: upsertPowerRestrictionRanges_def steps_def Let_def)
  ultimately show ?thesis using anchored_subset by metis
qed

text \<open>What a cut does: nothing, or it inserts the step and splits the range that starts just before.\<close>

lemma cut_cases:
  obtains (unchanged) "cutPowerRestrictionRanges s c = s"
  | (cut) i prev nxt where
      "find_index (\<lambda>step. position_after (Option.bind step ps_positionOnPath) (ps_positionOnPath c)) (pathSteps s) =
         int i"
      "ps_id c \<notin> step_ids (pathSteps s)"
      "0 < i" "i < length (pathSteps s)"
      "pathSteps s ! (i - 1) = Some prev" "pathSteps s ! i = Some nxt"
      "cutPowerRestrictionRanges s c =
         s\<lparr>pathSteps := take i (pathSteps s) @ Some c # drop i (pathSteps s),
           powerRestriction :=
             concat (map (cut_restriction (ps_id prev) (ps_id c) (ps_id nxt)) (powerRestriction s))\<rparr>"
proof -
  let ?p = "\<lambda>step. position_after (Option.bind step ps_positionOnPath) (ps_positionOnPath c)"
  let ?ss = "pathSteps s"
  show ?thesis
  proof (cases "ps_id c \<in> step_ids ?ss \<or> find_index ?p ?ss = -1")
    case True
    then show ?thesis by (intro unchanged) (auto simp: cutPowerRestrictionRanges_def Let_def)
  next
    case False
    then obtain i where i: "find_index ?p ?ss = int i" "i < length ?ss"
      by (metis find_index_cases)
    define new where "new = take i ?ss @ Some c # drop i ?ss"
    have n: "addElementAtIndex ?ss (int i) (Some c) = new"
      using i by (simp add: new_def addElementAtIndex_def splice_insert_def min_def)
    have after: "step_at new (int i + 1) = ?ss ! i"
      using i by (simp add: step_at_def new_def nth_append nat_add_distrib)
    have prv: "step_at new (int i - 1) = (if i = 0 then None else ?ss ! (i - 1))"
      using i by (auto simp: step_at_def new_def nth_append nat_diff_distrib')
    have e: "cutPowerRestrictionRanges s c =
        (case (step_at new (int i - 1), step_at new (int i + 1)) of
           (Some prevStep, Some nextStep) \<Rightarrow>
             s\<lparr>pathSteps := new,
               powerRestriction :=
                 concat (map (cut_restriction (ps_id prevStep) (ps_id c) (ps_id nextStep)) (powerRestriction s))\<rparr>
         | _ \<Rightarrow> s)"
      using False i n by (simp add: cutPowerRestrictionRanges_def Let_def)
    show ?thesis
    proof (cases "\<exists>p q. step_at new (int i - 1) = Some p \<and> ?ss ! i = Some q")
      case True
      then obtain p q where pq: "step_at new (int i - 1) = Some p" "?ss ! i = Some q" by blast
      then have "0 < i" "?ss ! (i - 1) = Some p" using prv by (auto split: if_splits)
      then show ?thesis using cut [of i p q] False i pq e after unfolding new_def by simp
    next
      case False
      then show ?thesis using unchanged e after by (auto split: option.split)
    qed
  qed
qed

lemma cut_restriction_ids:
  "restriction_ids (concat (map (cut_restriction p c n) prs)) \<subseteq> restriction_ids prs \<union> {c, n}"
  by (auto simp: restriction_ids_def cut_restriction_def split: if_splits)

lemma step_ids_insert: "step_ids (take i steps @ Some c # drop i steps) = insert (ps_id c) (step_ids steps)"
proof -
  have "step_ids steps = step_ids (take i steps @ drop i steps)" by simp
  also have "\<dots> = step_ids (take i steps) \<union> step_ids (drop i steps)"
    by (simp only: js_compact_append set_append image_Un)
  finally show ?thesis by auto
qed

lemma set_take_insert: "set (take i xs @ x # drop i xs) = insert x (set xs)"
proof -
  have "set xs = set (take i xs @ drop i xs)" by simp
  also have "\<dots> = set (take i xs) \<union> set (drop i xs)" by (simp only: set_append)
  finally show ?thesis by auto
qed

lemma cut_anchored: "conf_anchored s \<Longrightarrow> conf_anchored (cutPowerRestrictionRanges s c)"
proof -
  assume a: "conf_anchored s"
  show ?thesis
  proof (cases rule: cut_cases [of s c])
    case unchanged
    with a show ?thesis by simp
  next
    case (cut i prev next_step)
    let ?prs = "concat (map (cut_restriction (ps_id prev) (ps_id c) (ps_id next_step)) (powerRestriction s))"
    have "Some next_step \<in> set (pathSteps s)" using cut(4,6) by (metis nth_mem)
    then have "ps_id next_step \<in> step_ids (pathSteps s)" by (auto simp: step_ids_iff)
    with a have "restriction_ids ?prs \<subseteq> insert (ps_id c) (step_ids (pathSteps s))"
      using cut_restriction_ids [of "ps_id prev" "ps_id c" "ps_id next_step" "powerRestriction s"]
      unfolding anchored_def by blast
    moreover have "?prs \<noteq> [] \<longrightarrow> None \<notin> set (pathSteps s)"
      using a by (cases "powerRestriction s") (auto simp: anchored_def)
    ultimately have "anchored (take i (pathSteps s) @ Some c # drop i (pathSteps s)) ?prs"
      unfolding anchored_def step_ids_insert set_take_insert by simp
    then show ?thesis unfolding cut(7) by simp
  qed
qed

lemma merge_restriction_ids:
  "restriction_ids (js_compact (map (merge_restriction f p n) prs)) \<subseteq> insert n (restriction_ids prs)"
proof
  fix x
  assume "x \<in> restriction_ids (js_compact (map (merge_restriction f p n) prs))"
  then obtain r r' where "r \<in> set prs" "merge_restriction f p n r = Some r'" "x \<in> {pr_from r', pr_to r'}"
    by (auto simp: restriction_ids_def set_js_compact image_iff) (metis)+
  then show "x \<in> insert n (restriction_ids prs)"
    by (auto simp: merge_restriction_def restriction_ids_def split: if_splits)
qed

lemma merge_anchored:
  assumes a: "conf_anchored s" and m: "mergePowerRestrictionRanges s f p n = Inr s'"
  shows "conf_anchored s'"
proof (cases "find (\<lambda>r. pr_from r = ps_id f) (powerRestriction s)")
  case None
  with m have sc: "set_cleaned s (pathSteps s)
      (filter (\<lambda>r. pr_from r \<noteq> ps_id p \<and> pr_to r \<noteq> ps_id n) (powerRestriction s)) = Inr s'"
    by (simp add: mergePowerRestrictionRanges_def split: if_splits)
  show ?thesis by (rule set_cleaned_anchored [OF anchored_subset [OF a] sc]) auto
next
  case (Some r)
  let ?prs = "js_compact (map (merge_restriction (ps_id f) (ps_id p) (ps_id n)) (powerRestriction s))"
  have nn: "None \<notin> set (pathSteps s)"
    using m by (auto simp: mergePowerRestrictionRanges_def split: if_splits)
  have "\<exists>steps. set_cleaned s steps ?prs = Inr s' \<and> None \<notin> set steps \<and>
          step_ids steps = insert (ps_id n) (step_ids (pathSteps s))"
  proof (cases "ps_id n \<in> step_ids (pathSteps s)")
    case True
    with m Some nn show ?thesis
      by (auto simp: mergePowerRestrictionRanges_def Let_def intro!: exI [of _ "pathSteps s"])
  next
    case False
    define k where "k = find_index (\<lambda>step. position_after (Option.bind step ps_positionOnPath)
      (ps_positionOnPath n)) (pathSteps s)"
    from m Some nn False have "set_cleaned s (addElementAtIndex (pathSteps s) k (Some n)) ?prs = Inr s'"
      by (auto simp: mergePowerRestrictionRanges_def Let_def k_def split: if_splits)
    moreover have "set (addElementAtIndex (pathSteps s) k (Some n)) = insert (Some n) (set (pathSteps s))"
      by (simp add: addElementAtIndex_def)
    ultimately show ?thesis
      using nn by (intro exI [of _ "addElementAtIndex (pathSteps s) k (Some n)"])
        (auto simp: set_eq_iff step_ids_iff simp del: js_compact_simps)
  qed
  then obtain steps where st: "set_cleaned s steps ?prs = Inr s'" "None \<notin> set steps"
    "step_ids steps = insert (ps_id n) (step_ids (pathSteps s))" by blast
  have "restriction_ids ?prs \<subseteq> insert (ps_id n) (step_ids (pathSteps s))"
    using a merge_restriction_ids [of "ps_id f" "ps_id p" "ps_id n" "powerRestriction s"]
    unfolding anchored_def by blast
  with st show ?thesis by (intro set_cleaned_anchored [OF _ st(1)]) (simp add: anchored_def)
qed

lemma resize_anchored:
  assumes a: "conf_anchored s" and m: "resize_with s f g pmin pmax n = Inr s'"
  shows "conf_anchored s'"
proof (cases "None \<in> set (pathSteps s)")
  case True
  with a m show ?thesis by (simp add: resize_with_def)
next
  case False
  with m obtain cov where c: "set_cleaned s (map Some (addPathStep (js_compact (pathSteps s)) n))
      (updateRestrictions (powerRestriction s) cov f g (Some (ps_id n))) = Inr s'"
    by (auto simp: resize_with_def Let_def)
  have "restriction_ids (updateRestrictions (powerRestriction s) cov f g (Some (ps_id n))) \<subseteq>
      insert (ps_id n) (step_ids (pathSteps s))"
    using a updateRestrictions_ids [of "powerRestriction s" cov f g "ps_id n"] unfolding anchored_def by blast
  then show ?thesis
    by (intro set_cleaned_anchored [OF _ c]) (auto simp: anchored_def addPathStep_ids)
qed

lemma clean_covered_anchored:
  assumes a: "conf_anchored s" and m: "cleanPowerRestrictionsCoveredByANewRange s b e = Inr s'"
  shows "conf_anchored s'"
proof (cases "None \<in> set (pathSteps s)")
  case True
  with a m show ?thesis by (simp add: cleanPowerRestrictionsCoveredByANewRange_def)
next
  case False
  with m obtain cov where c: "set_cleaned s (pathSteps s)
      (updateRestrictions (powerRestriction s) cov None None None) = Inr s'"
    by (auto simp: cleanPowerRestrictionsCoveredByANewRange_def Let_def)
  show ?thesis
    by (rule set_cleaned_anchored [OF anchored_subset [OF a updateRestrictions_none] c])
qed

text \<open>A via inserted or updated from an operational point keeps the identifiers of the steps, as long as
  no step is null.\<close>

lemma upsertPathStep_no_null: "None \<notin> set steps \<Longrightarrow> None \<notin> set (upsertPathStep u steps op1)"
  by (auto simp: upsertPathStep_def Let_def dest: set_update_subset_insert [THEN subsetD])

lemma list_update_ids:
  "i < length steps \<Longrightarrow> ps_id x = ps_id (steps ! i) \<Longrightarrow> ps_id ` set (steps[i := x]) = ps_id ` set steps"
proof -
  assume i: "i < length steps" and x: "ps_id x = ps_id (steps ! i)"
  have "map ps_id (steps[i := x]) = map ps_id steps"
    using i x by (simp add: map_update list_update_same_conv)
  then show ?thesis by (metis list.set_map)
qed

lemma upsertPathStep_ids: "None \<notin> set steps \<Longrightarrow> step_ids steps \<subseteq> step_ids (upsertPathStep u steps op1)"
proof -
  assume "None \<notin> set steps"
  then obtain cs where cs: "steps = map Some cs" by (metis js_compact_Some)
  define k where "k = find_index (\<lambda>step. pathStepMatchesOp step op1 False) cs"
  show ?thesis
  proof (cases "k \<ge> 0")
    case True
    then have i: "nat k < length cs" using find_index_lt [of _ cs] unfolding k_def by (simp add: nat_less_iff)
    have "\<exists>v. upsertPathStep u steps op1 = (map Some cs)[nat k := Some v] \<and> ps_id v = ps_id (cs ! nat k)"
      using True by (auto simp: upsertPathStep_def Let_def cs simp flip: k_def)
    then obtain v where v: "upsertPathStep u steps op1 = map Some (cs[nat k := v])" "ps_id v = ps_id (cs ! nat k)"
      by (auto simp: map_update)
    then show ?thesis
      using list_update_ids [OF i v(2)] by (simp only: v(1) js_compact_map_Some) (simp add: cs)
  next
    case False
    then have "set steps \<subseteq> set (upsertPathStep u steps op1)"
      by (auto simp: upsertPathStep_def Let_def cs simp flip: k_def)
    then show ?thesis unfolding subset_iff step_ids_iff by blast
  qed
qed

lemma upsertPathStep_anchored: "anchored steps prs \<Longrightarrow> anchored (upsertPathStep u steps op1) prs"
proof (cases "prs = []")
  case False
  moreover assume "anchored steps prs"
  ultimately have "None \<notin> set steps" "restriction_ids prs \<subseteq> step_ids steps"
    by (simp_all add: anchored_def)
  then show ?thesis
    unfolding anchored_def using upsertPathStep_ids [of steps u op1] upsertPathStep_no_null [of steps u op1]
    by blast
qed simp

lemma upsertPathSteps_anchored:
  "anchored steps prs \<Longrightarrow> anchored (foldl (\<lambda>steps (u, op1). upsertPathStep u steps op1) steps payload) prs"
  by (induction payload arbitrary: steps) (auto simp: upsertPathStep_anchored)

text \<open>A saved train names only items of its path in its restrictions.\<close>

definition item_anchored :: "timetable_item \<Rightarrow> bool" where
  "item_anchored item \<longleftrightarrow>
     list_all (\<lambda>r. pr_from r \<in> pi_id ` set (ti_path item) \<and> pr_to r \<in> pi_id ` set (ti_path item))
       (or_default (ti_power_restrictions item) [])"

lemma computeBasePathStep_id:
  "computeBasePathStep parse path sch m i = Inr s \<Longrightarrow> i < length path \<and> ps_id s = pi_id (path ! i)"
  by (auto simp: computeBasePathStep_def Let_def empty_step_def split: if_splits)

lemma computeBasePathStep_ids:
  assumes "map_result (computeBasePathStep parse path sch m) [0..<length path] = Inr steps"
  shows "map ps_id steps = map pi_id path"
proof -
  have gen: "map_result (computeBasePathStep parse path sch m) is = Inr ss \<Longrightarrow>
      map ps_id ss = map (\<lambda>i. pi_id (path ! i)) is" for "is" ss
  proof (induction "is" arbitrary: ss)
    case (Cons i "is")
    then obtain x xs where "computeBasePathStep parse path sch m i = Inr x" "ss = x # xs"
      "map_result (computeBasePathStep parse path sch m) is = Inr xs" by auto
    with Cons.IH show ?case by (simp add: computeBasePathStep_id)
  qed simp
  have "map (\<lambda>i. pi_id (path ! i)) [0..<length path] = map pi_id (map ((!) path) [0..<length path])"
    by simp
  with gen [OF assms] show ?thesis by (simp only: map_nth)
qed

lemma set_paced_steps [simp]:
  "pathSteps (set_paced s paced o1) = pathSteps s" "powerRestriction (set_paced s paced o1) = powerRestriction s"
  by (simp_all add: set_paced_def split: option.split)

lemma set_train_settings_steps [simp]:
  "pathSteps (set_train_settings s item steps) = map Some steps"
  "powerRestriction (set_train_settings s item steps) = or_default (ti_power_restrictions item) []"
  by (simp_all add: set_train_settings_def)

lemma select_anchored:
  assumes "selectTrainToEdit parse s item o1 = Inr s'" and "item_anchored item"
  shows "conf_anchored s'"
proof -
  from assms(1) obtain steps
    where st: "map_result (computeBasePathStep parse (ti_path item) (ti_schedule item) (ti_margins item))
        [0..<length (ti_path item)] = Inr steps"
      and s': "pathSteps s' = map Some steps" "powerRestriction s' = or_default (ti_power_restrictions item) []"
    unfolding selectTrainToEdit_def by auto
  have "ps_id ` set steps = pi_id ` set (ti_path item)"
    using computeBasePathStep_ids [OF st] by (metis list.set_map)
  with assms(2) show ?thesis
    unfolding s' by (auto simp: anchored_def item_anchored_def list_all_iff restriction_ids_def)
qed

section \<open>Histories of the slice\<close>

text \<open>What the callers of the slice have to respect for the restrictions to stay anchored. New steps have
  to contain the steps at which the current restrictions start and end, as the comment of
  \<open>updatePathSteps\<close> asks; new ranges have to start and end at steps of the path; a saved train that is
  selected has to be consistent. All other actions are free.\<close>

fun keeps_anchors :: "op_conf \<Rightarrow> op_action \<Rightarrow> bool" where
  "keeps_anchors s (UpdatePowerRestrictionRanges ranges) =
     (restriction_ids ranges \<subseteq> step_ids (pathSteps s) \<and> (ranges \<noteq> [] \<longrightarrow> None \<notin> set (pathSteps s)))"
| "keeps_anchors s (UpdatePathSteps steps) =
     (restriction_ids (powerRestriction s) \<subseteq> step_ids steps \<and> (powerRestriction s \<noteq> [] \<longrightarrow> None \<notin> set steps))"
| "keeps_anchors s (SelectTrainToEdit item _) = item_anchored item"
| "keeps_anchors s _ = True"

text \<open>The updates of \<open>usePathfinding\<close> and \<open>TimesStopsInput\<close> change attributes of the steps and keep their
  identifiers: they are always allowed.\<close>

lemma same_ids_allowed:
  assumes "anchored (pathSteps s) (powerRestriction s)"
    and "map (map_option ps_id) steps = map (map_option ps_id) (pathSteps s)"
  shows "keeps_anchors s (UpdatePathSteps steps)"
proof -
  have ids: "step_ids xs = {i. Some i \<in> set (map (map_option ps_id) xs)}" for xs
  proof -
    have "Some i \<in> set (map (map_option ps_id) xs) \<longleftrightarrow> (\<exists>t. Some t \<in> set xs \<and> ps_id t = i)" for i
      unfolding set_map image_iff by (metis (no_types, lifting) map_option_eq_Some option.simps(9))
    then show ?thesis unfolding set_eq_iff mem_Collect_eq step_ids_iff by simp
  qed
  have "None \<in> set xs \<longleftrightarrow> None \<in> set (map (map_option ps_id) xs)" for xs by (auto simp: image_iff)
  then have none: "None \<in> set steps \<longleftrightarrow> None \<in> set (pathSteps s)" using assms(2) by metis
  have "step_ids steps = step_ids (pathSteps s)" unfolding ids assms(2) ..
  with assms(1) none show ?thesis unfolding anchored_def keeps_anchors.simps by simp
qed

lemma common_steps [simp]:
  "pathSteps (commonConfReducers (s :: op_conf) a) = pathSteps s"
  "powerRestriction (commonConfReducers s a) = powerRestriction s"
  by (cases a; simp add: common_reducer_defs Let_def)+

lemma slice_anchored:
  "conf_anchored s \<Longrightarrow> keeps_anchors s a \<Longrightarrow> operationalStudiesConfSlice parse s a = Inr s' \<Longrightarrow> conf_anchored s'"
proof (cases a)
  case (MergePowerRestrictionRanges f p n)
  then show "conf_anchored s \<Longrightarrow> operationalStudiesConfSlice parse s a = Inr s' \<Longrightarrow> conf_anchored s'"
    using merge_anchored by simp
next
  case (DeletePowerRestrictionRanges f t)
  assume a: "conf_anchored s" and "operationalStudiesConfSlice parse s a = Inr s'"
  then have sc: "set_cleaned s (pathSteps s)
      (filter (\<lambda>r. pr_from r \<noteq> ps_id f \<and> pr_to r \<noteq> ps_id t) (powerRestriction s)) = Inr s'"
    by (simp add: DeletePowerRestrictionRanges deletePowerRestrictionRanges_def)
  show "conf_anchored s'" by (rule set_cleaned_anchored [OF anchored_subset [OF a] sc]) auto
next
  case (ResizeSegmentBeginInput f g e n)
  then show "conf_anchored s \<Longrightarrow> operationalStudiesConfSlice parse s a = Inr s' \<Longrightarrow> conf_anchored s'"
    using resize_anchored by (simp add: resizeSegmentBeginInput_def)
next
  case (ResizeSegmentEndInput f g e n)
  then show "conf_anchored s \<Longrightarrow> operationalStudiesConfSlice parse s a = Inr s' \<Longrightarrow> conf_anchored s'"
    using resize_anchored by (simp add: resizeSegmentEndInput_def)
next
  case (CleanPowerRestrictionsCoveredByANewRange b e)
  then show "conf_anchored s \<Longrightarrow> operationalStudiesConfSlice parse s a = Inr s' \<Longrightarrow> conf_anchored s'"
    using clean_covered_anchored by simp
next
  case (SelectTrainToEdit item o1)
  then show "keeps_anchors s a \<Longrightarrow> operationalStudiesConfSlice parse s a = Inr s' \<Longrightarrow> conf_anchored s'"
    using select_anchored by simp
next
  case (UpdatePathSteps steps)
  then show "keeps_anchors s a \<Longrightarrow> operationalStudiesConfSlice parse s a = Inr s' \<Longrightarrow> conf_anchored s'"
    by (auto simp: updatePathSteps_def anchored_def)
next
  case (UpdatePowerRestrictionRanges ranges)
  then show "keeps_anchors s a \<Longrightarrow> operationalStudiesConfSlice parse s a = Inr s' \<Longrightarrow> conf_anchored s'"
    by (auto simp: updatePowerRestrictionRanges_def anchored_def)
qed (clarsimp simp: settings_defs upsertViaFromSuggestedOP_def upsertSeveralViasFromSuggestedOP_def
    deleteItinerary_def replaceItinerary_def upsert_anchored cut_anchored upsertPathStep_anchored
    upsertPathSteps_anchored)+

interpretation op_slice: guarded_reducer "operationalStudiesConfSlice parse" conf_anchored keeps_anchors
  for parse
  by unfold_locales (rule slice_anchored)

end
