(* ===== verification/OpStudiesProperties.thy ===== *)
theory OpStudiesProperties
  imports OpStudiesProofs
begin

text \<open>
  The properties of the operational studies slice: histories keep the power restrictions anchored to
  the path, the helpers on path steps keep their order, and cutting a range does not change the code
  that applies anywhere on the path.
\<close>

section \<open>The code that applies at a position\<close>

definition position_of :: "path_step option list \<Rightarrow> string \<Rightarrow> int option" where
  "position_of steps i = Option.bind (find (\<lambda>s. ps_id s = i) (js_compact steps)) ps_positionOnPath"

definition range_covers :: "path_step option list \<Rightarrow> int \<Rightarrow> power_restriction \<Rightarrow> bool" where
  "range_covers steps x r =
     (case (position_of steps (pr_from r), position_of steps (pr_to r)) of
        (Some a, Some b) \<Rightarrow> a \<le> x \<and> x < b
      | _ \<Rightarrow> False)"

definition codes_at :: "path_step option list \<Rightarrow> power_restriction list \<Rightarrow> int \<Rightarrow> string list" where
  "codes_at steps prs x = map pr_value (filter (range_covers steps x) prs)"

text \<open>Every range goes from a step to the next one.\<close>

definition adjacent_ranges :: "path_step option list \<Rightarrow> power_restriction list \<Rightarrow> bool" where
  "adjacent_ranges steps prs \<longleftrightarrow>
     list_all (\<lambda>r. list_all (\<lambda>i. map_option ps_id (steps ! i) = Some (pr_from r) \<longrightarrow>
                                 map_option ps_id (steps ! Suc i) = Some (pr_to r)) [0..<length steps - 1]) prs"

lemma codes_at_concat: "codes_at steps (concat (map f prs)) x = concat (map (\<lambda>r. codes_at steps (f r) x) prs)"
  by (induction prs) (simp_all add: codes_at_def)

lemma codes_at_conv: "codes_at steps prs x = concat (map (\<lambda>r. codes_at steps [r] x) prs)"
  using codes_at_concat [of steps "\<lambda>r. [r]" prs x] by simp

lemma find_append: "find p (xs @ ys) = (case find p xs of None \<Rightarrow> find p ys | Some x \<Rightarrow> Some x)"
  by (induction xs) auto

lemma find_None_ids: "i \<notin> ps_id ` set xs \<Longrightarrow> find (\<lambda>s. ps_id s = i) xs = None"
  by (auto simp: find_None_iff)

lemma position_of_insert:
  assumes "ps_id c \<notin> step_ids steps"
  shows "position_of (take k steps @ Some c # drop k steps) i =
    (if i = ps_id c then ps_positionOnPath c else position_of steps i)"
proof -
  have app: "js_compact steps = js_compact (take k steps) @ js_compact (drop k steps)"
    using js_compact_append [of "take k steps" "drop k steps"] by simp
  with assms have "ps_id c \<notin> ps_id ` set (js_compact (take k steps))" by auto
  then show ?thesis
    unfolding position_of_def app by (auto simp: find_append find_None_ids split: option.split)
qed

text \<open>The step at an index is the one found by its identifier, when the identifiers are distinct.\<close>

lemma position_of_nth:
  assumes "distinct (map ps_id (js_compact steps))" and "None \<notin> set steps"
    and "k < length steps" and "steps ! k = Some s"
  shows "position_of steps (ps_id s) = ps_positionOnPath s"
proof -
  obtain cs where cs: "steps = map Some cs" using assms(2) by (metis js_compact_Some)
  with assms have s: "s \<in> set cs" by auto
  have d: "distinct (map ps_id cs)" using assms(1) cs by simp
  from s d have "find (\<lambda>x. ps_id x = ps_id s) cs = Some s"
    by (induction cs) auto
  then show ?thesis by (simp add: position_of_def cs)
qed

lemma cut_codes_one:
  assumes pos: "position_of steps (ps_id prev) = Some a" "position_of steps (ps_id nxt) = Some b"
    and c: "ps_positionOnPath c = Some p" "a \<le> p" "p \<le> b"
    and fresh: "ps_id c \<notin> step_ids steps"
    and ids: "pr_from r \<in> step_ids steps" "pr_to r \<in> step_ids steps"
    and adj: "pr_from r = ps_id prev \<Longrightarrow> pr_to r = ps_id nxt"
    and nxt: "ps_id nxt \<noteq> ps_id c"
  shows "codes_at (take k steps @ Some c # drop k steps) (cut_restriction (ps_id prev) (ps_id c) (ps_id nxt) r) x =
    codes_at steps [r] x"
proof -
  have ne: "pr_from r \<noteq> ps_id c" "pr_to r \<noteq> ps_id c" using fresh ids by auto
  show ?thesis
  proof (cases "pr_from r = ps_id prev")
    case False
    then show ?thesis
      using ne by (simp add: codes_at_def cut_restriction_def range_covers_def position_of_insert [OF fresh])
  next
    case True
    with adj have "pr_to r = ps_id nxt" by simp
    with True c pos ne nxt show ?thesis
      by (auto simp: codes_at_def cut_restriction_def range_covers_def position_of_insert [OF fresh])
  qed
qed

text \<open>C21: cutting a power restriction range at a step does not change the codes that apply at any
  position of the path, when every range spans two consecutive steps.\<close>

theorem cut_keeps_codes:
  assumes anch: "anchored (pathSteps s) (powerRestriction s)"
    and full: "None \<notin> set (pathSteps s)"
    and dist: "distinct (map ps_id (js_compact (pathSteps s)))"
    and pos: "list_all (\<lambda>t. ps_positionOnPath t \<noteq> None) (js_compact (pathSteps s))"
    and adj: "adjacent_ranges (pathSteps s) (powerRestriction s)"
    and p: "ps_positionOnPath c = Some p" "0 \<le> p"
  shows "codes_at (pathSteps (cutPowerRestrictionRanges s c)) (powerRestriction (cutPowerRestrictionRanges s c)) x =
    codes_at (pathSteps s) (powerRestriction s) x"
proof (cases rule: cut_cases [of s c])
  case unchanged
  then show ?thesis by simp
next
  case (cut i prev nxt)
  have mem: "Some prev \<in> set (pathSteps s)" "Some nxt \<in> set (pathSteps s)"
    using cut(3-6) by (metis nth_mem less_imp_diff_less)+
  then have "prev \<in> set (js_compact (pathSteps s))" "nxt \<in> set (js_compact (pathSteps s))"
    by (simp_all add: set_js_compact)
  then obtain a b where ab: "ps_positionOnPath prev = Some a" "ps_positionOnPath nxt = Some b"
    using pos unfolding list_all_iff by blast
  from find_index_SomeD [OF cut(1)] have ge: "position_after (ps_positionOnPath nxt) (Some p)"
    and "\<forall>j<i. \<not> position_after (Option.bind (pathSteps s ! j) ps_positionOnPath) (Some p)"
    using cut(6) p by simp_all
  then have lt: "\<not> position_after (ps_positionOnPath prev) (Some p)"
    using cut(3,5) by (auto dest!: spec [of _ "i - 1"])
  with ge have le: "a \<le> p" "p \<le> b" using ab p(2) by (auto simp: position_after_def)
  have positions: "position_of (pathSteps s) (ps_id prev) = Some a" "position_of (pathSteps s) (ps_id nxt) = Some b"
    using position_of_nth [OF dist full _ cut(5)] position_of_nth [OF dist full cut(4) cut(6)] ab cut(3,4) by auto
  have "codes_at (take i (pathSteps s) @ Some c # drop i (pathSteps s))
      (cut_restriction (ps_id prev) (ps_id c) (ps_id nxt) r) x = codes_at (pathSteps s) [r] x"
    if r: "r \<in> set (powerRestriction s)" for r
  proof (rule cut_codes_one [OF positions p(1) le cut(2)])
    show "pr_from r \<in> step_ids (pathSteps s)" "pr_to r \<in> step_ids (pathSteps s)"
      using anch r by (auto simp: anchored_def restriction_ids_def)
    show "ps_id nxt \<noteq> ps_id c" using cut(2) mem(2) by (auto simp: step_ids_iff)
    show "pr_to r = ps_id nxt" if "pr_from r = ps_id prev"
      using adj r that cut(3-6)
      by (auto simp: adjacent_ranges_def list_all_iff dest!: bspec [of _ _ r] bspec [of _ _ "i - 1"])
  qed
  then have "codes_at (take i (pathSteps s) @ Some c # drop i (pathSteps s))
      (concat (map (cut_restriction (ps_id prev) (ps_id c) (ps_id nxt)) (powerRestriction s))) x =
    codes_at (pathSteps s) (powerRestriction s) x"
    by (subst codes_at_conv [of "pathSteps s"]) (simp add: codes_at_concat cong: map_cong)
  then show ?thesis unfolding cut(7) by simp
qed

section \<open>An example\<close>

definition ex_step :: "string \<Rightarrow> int \<Rightarrow> path_step" where
  "ex_step i p = (empty_step i (TrackOffset ''T'' p None))\<lparr>ps_positionOnPath := Some p\<rparr>"

definition ex_steps :: "path_step list" where
  "ex_steps = [ex_step ''a'' 0, ex_step ''b'' 50, (ex_step ''c'' 80)\<lparr>ps_isFromPowerRestriction := True\<rparr>, ex_step ''d'' 100]"

definition ex_ranges :: "power_restriction list" where
  "ex_ranges = [\<lparr>pr_from = ''a'', pr_to = ''b'', pr_value = ''C1''\<rparr>, \<lparr>pr_from = ''b'', pr_to = ''c'', pr_value = ''C2''\<rparr>]"

definition ex_conf :: op_conf where
  "ex_conf = (operationalStudiesInitialConf 0)\<lparr>pathSteps := map Some ex_steps, powerRestriction := ex_ranges\<rparr>"

lemma ex_conf_simps [simp]:
  "pathSteps ex_conf = map Some ex_steps" "powerRestriction ex_conf = ex_ranges"
  by (simp_all add: ex_conf_def)

lemma ex_anchored: "anchored (map Some ex_steps) ex_ranges"
  unfolding anchored_def restriction_ids_def by code_simp

theorem cut_keeps_codes_witness:
  "codes_at (pathSteps (cutPowerRestrictionRanges ex_conf (ex_step ''n'' 60)))
     (powerRestriction (cutPowerRestrictionRanges ex_conf (ex_step ''n'' 60))) 70 = [''C2'']"
proof -
  have "codes_at (pathSteps (cutPowerRestrictionRanges ex_conf (ex_step ''n'' 60)))
      (powerRestriction (cutPowerRestrictionRanges ex_conf (ex_step ''n'' 60))) 70 =
    codes_at (pathSteps ex_conf) (powerRestriction ex_conf) 70"
  proof (rule cut_keeps_codes)
    show "anchored (pathSteps ex_conf) (powerRestriction ex_conf)" by (simp add: ex_anchored)
    show "distinct (map ps_id (js_compact (pathSteps ex_conf)))" unfolding ex_conf_simps by code_simp
    show "list_all (\<lambda>t. ps_positionOnPath t \<noteq> None) (js_compact (pathSteps ex_conf))"
      unfolding ex_conf_simps by code_simp
    show "adjacent_ranges (pathSteps ex_conf) (powerRestriction ex_conf)" unfolding ex_conf_simps by code_simp
    show "ps_positionOnPath (ex_step ''n'' 60) = Some 60" by (simp add: ex_step_def)
  qed (auto simp: ex_conf_simps)
  also have "\<dots> = [''C2'']" unfolding ex_conf_simps by code_simp
  finally show ?thesis .
qed

section \<open>Histories\<close>

text \<open>C15: after any sequence of actions of the slice on the initial state, both ends of every power
  restriction are steps of the path, provided that the callers respect \<open>keeps_anchors\<close> at every step: new steps
  given to \<open>updatePathSteps\<close> contain the steps at which the current restrictions start and end, ranges given
  to \<open>updatePowerRestrictionRanges\<close> start and end at steps of the path, and a train selected for edition is
  consistent itself. No other action has a condition.\<close>

theorem op_history_anchored:
  assumes "allowed_run (operationalStudiesConfSlice parse) keeps_anchors (operationalStudiesInitialConf now) as"
    and "s = run (operationalStudiesConfSlice parse) (operationalStudiesInitialConf now) as"
    and "r \<in> set (powerRestriction s)"
  shows "pr_from r \<in> ps_id ` set (js_compact (pathSteps s)) \<and> pr_to r \<in> ps_id ` set (js_compact (pathSteps s))"
proof -
  have "conf_anchored (operationalStudiesInitialConf now)"
    by (simp add: operationalStudiesInitialConf_def osrd_conf.extend_def op_conf.fields_def defaultCommonConf_def)
  then have "conf_anchored s"
    unfolding assms(2) using op_slice.guarded_run assms(1) by blast
  with assms(3) show ?thesis by (auto simp: anchored_def restriction_ids_def)
qed

definition ex_actions :: "op_action list" where
  "ex_actions =
     [ReplaceItinerary (map Some ex_steps),
      UpsertPowerRestrictionRanges (ex_step ''a'' 0) (ex_step ''n'' 30) ''C1'',
      UpdatePathSteps (map Some [ex_step ''a'' 0, ex_step ''n'' 35, ex_step ''d'' 100]),
      CutPowerRestrictionRanges (ex_step ''m'' 20)]"

theorem op_history_anchored_witness:
  "''n'' \<in> ps_id ` set (js_compact (pathSteps
     (run (operationalStudiesConfSlice (\<lambda>_. duration_zero)) (operationalStudiesInitialConf 0) ex_actions)))"
proof -
  let ?s = "run (operationalStudiesConfSlice (\<lambda>_. duration_zero)) (operationalStudiesInitialConf 0) ex_actions"
  have "\<lparr>pr_from = ''m'', pr_to = ''n'', pr_value = ''C1''\<rparr> \<in> set (powerRestriction ?s)"
    by code_simp
  moreover have "allowed_run (operationalStudiesConfSlice (\<lambda>_. duration_zero)) keeps_anchors (operationalStudiesInitialConf 0) ex_actions"
    by code_simp
  ultimately show ?thesis using op_history_anchored by fastforce
qed

text \<open>The itinerary modal submits its steps with \<open>updatePathSteps\<close> and without resetting the restrictions: when
  the step at which a restriction ends was removed there, the restriction stays and refers to no step.\<close>

lemma removed_step_dangles:
  "let s = run (operationalStudiesConfSlice (\<lambda>_. duration_zero)) (operationalStudiesInitialConf 0)
     [ReplaceItinerary (map Some ex_steps), UpsertPowerRestrictionRanges (ex_step ''a'' 0) (ex_step ''b'' 50) ''C1'',
      UpdatePathSteps (map Some [ex_step ''a'' 0, ex_step ''d'' 100])]
   in powerRestriction s = [\<lparr>pr_from = ''a'', pr_to = ''b'', pr_value = ''C1''\<rparr>] \<and>
      map ps_id (js_compact (pathSteps s)) = [''a'', ''d'']"
  by code_simp

section \<open>Order of the path steps\<close>

definition positions :: "path_step list \<Rightarrow> int list" where
  "positions steps = map (\<lambda>s. the (ps_positionOnPath s)) steps"

text \<open>A new step is inserted in order: if the positions of the steps are ordered and the new step
  lies before the last one, the positions stay ordered, the other steps and their order are unchanged
  and the destination stays last.\<close>

lemma addPathStep_ordered:
  assumes "list_all (\<lambda>s. ps_positionOnPath s \<noteq> None) steps" and "sorted (positions steps)"
    and "steps \<noteq> []" and p: "ps_positionOnPath new = Some p" "0 \<le> p" "p < last (positions steps)"
    and "ps_id new \<notin> ps_id ` set steps"
  shows "sorted (positions (addPathStep steps new)) \<and>
    filter (\<lambda>s. ps_id s \<noteq> ps_id new) (addPathStep steps new) = steps \<and>
    last (addPathStep steps new) = last steps"
proof -
  let ?after = "\<lambda>s. position_after (ps_positionOnPath s) (ps_positionOnPath new)"
  let ?pos = "\<lambda>s. the (ps_positionOnPath s)"
  have ex: "\<not> list_ex (\<lambda>s. ps_id s = ps_id new) steps" using assms(7) image_eqI unfolding list_ex_iff by metis
  have after: "?after s \<longleftrightarrow> p < ?pos s" if "s \<in> set steps" for s
    using assms(1) p(1,2) that by (auto simp: list_all_iff position_after_def)
  have "?after (last steps)" using after [of "last steps"] p(3) assms(3) by (simp add: positions_def last_map)
  then have "find_index ?after steps \<noteq> -1" using assms(3) by (auto simp: find_index_None)
  then obtain k where k: "find_index ?after steps = int k" "k < length steps" "?after (steps ! k)"
    "\<forall>j<k. \<not> ?after (steps ! j)"
    by (cases rule: find_index_cases [of ?after steps]) auto
  have res: "addPathStep steps new = take k steps @ new # drop k steps"
    using ex k by (simp add: addPathStep_def addElementAtIndex_def splice_insert_def)
  have low: "?pos s \<le> p" if "s \<in> set (take k steps)" for s
  proof -
    obtain j where "j < k" "s = steps ! j" using \<open>s \<in> set (take k steps)\<close> k(2) by (auto simp: in_set_conv_nth)
    with k(2,4) after [of s] show ?thesis by (auto simp: not_less)
  qed
  have so: "sorted (map ?pos (take k steps) @ map ?pos (drop k steps))"
    using assms(2) unfolding positions_def by (metis append_take_drop_id map_append)
  have kth: "p < ?pos (steps ! k)" using after [of "steps ! k"] k(2,3) by simp
  have drop: "drop k steps = steps ! k # drop (Suc k) steps" using k(2) by (simp add: Cons_nth_drop_Suc)
  have high: "p \<le> ?pos s" if "s \<in> set (drop k steps)" for s
    using so kth that unfolding drop by (auto simp: sorted_append)
  have "sorted (positions (addPathStep steps new))"
    unfolding res positions_def using so low high p(1) by (auto simp: sorted_append)
  moreover have "filter (\<lambda>s. ps_id s \<noteq> ps_id new) (addPathStep steps new) = steps"
  proof -
    have "filter (\<lambda>s. ps_id s \<noteq> ps_id new) (addPathStep steps new) = filter (\<lambda>s. ps_id s \<noteq> ps_id new) steps"
      unfolding res by (subst (3) append_take_drop_id [of k, symmetric]) (simp only: filter_append, simp)
    also have "\<dots> = steps" using assms(7) by (rule filter_key_fresh)
    finally show ?thesis .
  qed
  moreover have "last (addPathStep steps new) = last steps"
    unfolding res using k(2) by (simp add: last_append)
  ultimately show ?thesis by blast
qed

section \<open>Cleaning the steps\<close>

text \<open>The steps that cleaning keeps, as a reference definition.\<close>

definition kept_steps :: "power_restriction list \<Rightarrow> path_step list \<Rightarrow> path_step list" where
  "kept_steps prs steps =
     (if length steps \<le> 2 then steps
      else hd steps # filter (\<lambda>s. ps_isFromPowerRestriction s \<longrightarrow> \<not> canRemovePathStep s prs) (butlast (tl steps)) @
           [last steps])"

lemma clean_tail:
  "0 < i \<Longrightarrow> n = i + length xs \<Longrightarrow> xs \<noteq> [] \<Longrightarrow>
   clean_path_steps_from i n prs (map Some xs) =
     Inr (map Some (filter (\<lambda>s. ps_isFromPowerRestriction s \<longrightarrow> \<not> canRemovePathStep s prs) (butlast xs) @ [last xs]))"
proof (induction xs arbitrary: i)
  case (Cons x xs)
  show ?case
  proof (cases "xs = []")
    case True
    with Cons.prems show ?thesis by (simp add: Let_def)
  next
    case False
    have "clean_path_steps_from (Suc i) n prs (map Some xs) =
        Inr (map Some (filter (\<lambda>s. ps_isFromPowerRestriction s \<longrightarrow> \<not> canRemovePathStep s prs) (butlast xs) @ [last xs]))"
      using Cons.IH [of "Suc i"] Cons.prems False by simp
    moreover have "i \<noteq> n - 1" "i \<noteq> 0" using Cons.prems False by (cases xs; simp)+
    ultimately show ?thesis using False by (simp add: Let_def)
  qed
qed simp

lemma clean_path_ref: "cleanPathSteps (map Some steps) prs = Inr (map Some (kept_steps prs steps))"
proof (cases steps)
  case Nil
  then show ?thesis by (simp add: cleanPathSteps_def kept_steps_def)
next
  case (Cons x xs)
  show ?thesis
  proof (cases "xs = []")
    case True
    with Cons show ?thesis by (simp add: cleanPathSteps_def kept_steps_def Let_def)
  next
    case False
    have "cleanPathSteps (map Some steps) prs =
        bind_result (clean_path_steps_from 1 (length steps) prs (map Some xs)) (\<lambda>r. Inr (Some x # r))"
      using Cons by (simp add: cleanPathSteps_def Let_def)
    also have "clean_path_steps_from 1 (length steps) prs (map Some xs) =
        Inr (map Some (filter (\<lambda>s. ps_isFromPowerRestriction s \<longrightarrow> \<not> canRemovePathStep s prs) (butlast xs) @ [last xs]))"
      using Cons False by (intro clean_tail) auto
    finally show ?thesis
      using Cons False by (cases xs) (auto simp: kept_steps_def)
  qed
qed

text \<open>On a path without null steps, cleaning keeps the origin, the destination and, in their order,
  the steps that were not created by the power restriction editor or that a restriction, a schedule or
  a margin uses; nothing else, it never throws, and a second cleaning changes nothing.\<close>

lemma cleanPathSteps_correct:
  "cleanPathSteps (map Some steps) prs = Inr (map Some (kept_steps prs steps)) \<and>
   cleanPathSteps (map Some (kept_steps prs steps)) prs = Inr (map Some (kept_steps prs steps))"
  by (simp add: clean_path_ref kept_steps_def)

section \<open>Vias and added exceptions\<close>

text \<open>Inserting an operational point that matches no step adds one step and never moves the origin
  or the destination, whatever its position.\<close>

lemma upsertPathStep_keeps_ends:
  assumes "2 \<le> length steps" and "list_all (\<lambda>s. \<not> pathStepMatchesOp s op1 False) (js_compact steps)"
  shows "length (upsertPathStep uuid steps op1) = Suc (length steps) \<and>
    hd (upsertPathStep uuid steps op1) = hd steps \<and> last (upsertPathStep uuid steps op1) = last steps"
proof -
  let ?k = "find_index (\<lambda>step. at_or_after (ps_positionOnPath step) (so_positionOnPath op1)) (js_compact steps)"
  define j where "j = rel_index (if ?k = 0 then 1 else ?k) (length steps)"
  have "find_index (\<lambda>step. pathStepMatchesOp step op1 False) (js_compact steps) = -1"
    using assms(2) by (auto simp: find_index_None list_all_iff)
  then have e: "upsertPathStep uuid steps op1 = take j steps @ Some (via_of_op uuid op1) # drop j steps"
    by (simp add: upsertPathStep_def splice_insert_def Let_def j_def)
  have "length (js_compact steps) \<le> length steps"
    by (simp add: js_compact_def List.map_filter_def)
  then have hi: "?k < int (length steps)"
    using find_index_lt [of "\<lambda>step. at_or_after (ps_positionOnPath step) (so_positionOnPath op1)" "js_compact steps"]
    by linarith
  have lo: "-1 \<le> ?k" by (rule find_index_ge)
  have "0 < j" "j < length steps"
    using assms(1) hi lo unfolding j_def rel_index_def by (auto simp: nat_less_iff split: if_splits)
  then show ?thesis unfolding e by (auto simp: hd_append hd_take last_append)
qed

definition ex_op :: suggested_op where
  "ex_op =
     \<lparr>so_pathStepId = None, so_opId = Some ''op'', so_name = Some ''Nantes'', so_uic = Some 87, so_ch = Some ''BV'',
      so_kp = None, so_trigram = Some ''NTS'', so_offsetOnTrack = 5, so_track = ''U'', so_positionOnPath = Some 0,
      so_coordinates = None, so_arrival = None, so_stopFor = None, so_theoreticalMargin = None,
      so_receptionSignal = None\<rparr>"

text \<open>Deleting an added exception by its key removes exactly that exception when the key is present;
  when it is absent the last exception of the list is removed instead.\<close>

lemma deleteAddedException_removes:
  assumes "distinct (map ae_key (addedExceptions s))"
  shows "addedExceptions (deleteAddedException s key) =
    (if key \<in> ae_key ` set (addedExceptions s) then filter (\<lambda>e. ae_key e \<noteq> key) (addedExceptions s)
     else butlast (addedExceptions s))"
proof -
  define es where "es = addedExceptions s"
  have main: "splice_remove es (find_index (\<lambda>e. ae_key e = key) es) =
      (if key \<in> ae_key ` set es then filter (\<lambda>e. ae_key e \<noteq> key) es else butlast es)"
  proof (cases "\<exists>e\<in>set es. ae_key e = key")
    case False
    then have "find_index (\<lambda>e. ae_key e = key) es = -1" by (simp add: find_index_None)
    with False show ?thesis
      by (auto simp: splice_remove_def rel_index_def butlast_conv_take nat_diff_distrib')
  next
    case True
    obtain k where k: "find_index (\<lambda>e. ae_key e = key) es = int k" "k < length es" "ae_key (es ! k) = key"
      by (cases rule: find_index_cases [of "\<lambda>e. ae_key e = key" es]) (use True in auto)
    have "distinct (map ae_key (take k es @ es ! k # drop (Suc k) es))"
      using assms id_take_nth_drop [OF k(2)] by (simp add: es_def)
    then have "filter (\<lambda>e. ae_key e \<noteq> key) (take k es @ es ! k # drop (Suc k) es) = take k es @ drop (Suc k) es"
      using k(3) by (simp add: filter_key_fresh)
    then have "filter (\<lambda>e. ae_key e \<noteq> key) es = take k es @ drop (Suc k) es"
      by (simp only: id_take_nth_drop [OF k(2), symmetric])
    moreover have "splice_remove es (int k) = take k es @ drop (Suc k) es"
      using k(2) by (simp add: splice_remove_def)
    moreover have "key \<in> ae_key ` set es" using True by blast
    ultimately show ?thesis using k(1) by simp
  qed
  show ?thesis unfolding es_def [symmetric] using main by (simp add: deleteAddedException_def es_def)
qed

definition ex_exceptions :: op_conf where
  "ex_exceptions = addAddedException (addAddedException (operationalStudiesInitialConf 0) ''k1'' 10) ''k2'' 20"

section \<open>Ranges covered by a new range\<close>

definition has_positions :: "path_step option list \<Rightarrow> power_restriction \<Rightarrow> bool" where
  "has_positions steps r \<longleftrightarrow> position_of steps (pr_from r) \<noteq> None \<and> position_of steps (pr_to r) \<noteq> None"

definition strictly_inside :: "path_step option list \<Rightarrow> int \<Rightarrow> int \<Rightarrow> power_restriction \<Rightarrow> bool" where
  "strictly_inside steps b e r \<longleftrightarrow> b < the (position_of steps (pr_from r)) \<and> the (position_of steps (pr_to r)) < e"

lemma isRangeCovered_position:
  "isRangeCovered (js_compact steps) r b e =
     (if has_positions steps r then Inr (strictly_inside steps b e r)
      else Inl (JSError ''Path step has no position on path''))"
  unfolding isRangeCovered_def has_positions_def strictly_inside_def Let_def position_of_def [symmetric]
  by (cases "position_of steps (pr_from r)"; cases "position_of steps (pr_to r)") simp_all

lemma updateRestrictions_filter:
  assumes "\<And>r r'. pr_from r = pr_from r' \<Longrightarrow> pr_to r = pr_to r' \<Longrightarrow> P r = P r'"
  shows "updateRestrictions prs (filter P prs) None None None = filter (\<lambda>r. \<not> P r) prs"
proof -
  have "list_ex (\<lambda>rm. pr_from r = pr_from rm \<and> pr_to r = pr_to rm) (filter P prs) \<longleftrightarrow> P r"
    if "r \<in> set prs" for r
    unfolding list_ex_iff set_filter using that assms by blast
  then have "filter (\<lambda>r. \<not> list_ex (\<lambda>rm. pr_from r = pr_from rm \<and> pr_to r = pr_to rm) (filter P prs)) prs =
      filter (\<lambda>r. \<not> P r) prs"
    by (intro filter_cong) auto
  moreover have "map (update_restriction None None None) rs = rs" for rs
    by (induction rs) (simp_all add: update_restriction_def truthy_def)
  ultimately show ?thesis by (simp only: updateRestrictions_def)
qed

text \<open>On a path without null steps, making room for a new range removes exactly the ranges that lie
  strictly inside it and then the steps that no longer serve; it throws exactly when the end of some
  range has no position.\<close>

lemma clean_covered_correct:
  assumes full: "None \<notin> set (pathSteps s)"
    and prs': "prs' = filter (\<lambda>r. \<not> strictly_inside (pathSteps s) b e r) (powerRestriction s)"
  shows "cleanPowerRestrictionsCoveredByANewRange s b e =
    (if list_all (has_positions (pathSteps s)) (powerRestriction s)
     then Inr (s\<lparr>pathSteps := map Some (kept_steps prs' (js_compact (pathSteps s))), powerRestriction := prs'\<rparr>)
     else Inl (JSError ''Path step has no position on path''))"
proof -
  let ?steps = "pathSteps s" and ?prs = "powerRestriction s"
  let ?cov = "isRangeCovered_opt (js_compact ?steps) (Some b) (Some e)"
  have cov: "?cov r = (if has_positions ?steps r then Inr (strictly_inside ?steps b e r)
      else Inl (JSError ''Path step has no position on path''))" for r
    by (simp add: isRangeCovered_opt_def isRangeCovered_position)
  have unf: "cleanPowerRestrictionsCoveredByANewRange s b e =
      bind_result (filter_result ?cov ?prs)
        (\<lambda>cov. set_cleaned s ?steps (updateRestrictions ?prs cov None None None))"
    using full by (simp add: cleanPowerRestrictionsCoveredByANewRange_def Let_def)
  show ?thesis
  proof (cases "list_all (has_positions ?steps) ?prs")
    case True
    then have "filter_result ?cov ?prs = Inr (filter (strictly_inside ?steps b e) ?prs)"
      by (intro filter_result_total) (simp add: cov list_all_iff)
    moreover have "updateRestrictions ?prs (filter (strictly_inside ?steps b e) ?prs) None None None = prs'"
      unfolding prs' by (rule updateRestrictions_filter) (simp add: strictly_inside_def)
    moreover have "cleanPathSteps ?steps prs' = Inr (map Some (kept_steps prs' (js_compact ?steps)))"
      using clean_path_ref [of "js_compact ?steps" prs'] js_compact_Some [OF full] by simp
    ultimately show ?thesis using True by (simp add: unf set_cleaned_def)
  next
    case False
    then obtain r where "r \<in> set ?prs" "\<not> has_positions ?steps r" by (auto simp: list_all_iff)
    then have "filter_result ?cov ?prs = Inl (JSError ''Path step has no position on path'')"
      by (intro filter_result_error [of r]) (auto simp: cov)
    with False show ?thesis by (simp add: unf)
  qed
qed

text \<open>A range that spans several steps loses its end when it is cut.\<close>

lemma cut_drops_tail:
  "let s = ex_conf\<lparr>powerRestriction := [\<lparr>pr_from = ''a'', pr_to = ''c'', pr_value = ''C1''\<rparr>]\<rparr>;
       s' = cutPowerRestrictionRanges s (ex_step ''n'' 20)
   in codes_at (pathSteps s) (powerRestriction s) 60 = [''C1''] \<and>
      codes_at (pathSteps s') (powerRestriction s') 60 = []"
  by code_simp

end
