(* ===== verification/StdcmConf.thy ===== *)
theory StdcmConf
  imports CommonConf
begin

text \<open>
  The configuration slice of the short term path requests: \<open>front/src/reducers/osrdconf/stdcmConf/index.ts\<close>
  on the types of \<open>reducers/osrdconf/types.ts\<close> and \<open>applications/stdcm/types.ts\<close>. The two kinds of path
  steps (vias and extremities) are one record whose members are optional, because the reducers spread
  partial objects over the steps. Identifiers of the uuid package and the current time are part of the
  payload.
\<close>

section \<open>State\<close>

datatype stdcm_stop_type = PASSAGE_TIME | DRIVER_SWITCH | SERVICE_STOP | OVERTAKE

datatype arrival_time_type = PRECISE_TIME | ASAP | RESPECT_DESTINATION_SCHEDULE

datatype margin_type = PERCENTAGE | TIME_PER_DISTANCE

datatype loading_gauge = G1 | G2 | GA | GB | GB1 | GC | FR3_3 | FR3_3_GB_G2 | GLOTT

record stdcm_op =
  sop_id :: string
  sop_trigram :: string
  sop_uic :: nat
  sop_secondaryCode :: string
  sop_name :: string
  sop_coordinates :: "num \<times> num"

record consist_data =
  cd_rollingStockID :: "rowid option"
  cd_towedRollingStockID :: "rowid option"
  cd_totalMass :: "num option"
  cd_totalLength :: "num option"
  cd_maxSpeed :: "num option"
  cd_loadingGauge :: "loading_gauge option"
  cd_speedLimitByTag :: "string option"

record stdcm_step =
  sp_id :: string
  sp_operationalPoint :: "stdcm_op option"
  sp_isVia :: bool
  sp_stopType :: "stdcm_stop_type option"
  sp_stopFor :: "duration option"
  sp_consistChange :: "consist_data option"
  sp_arrivalType :: "arrival_time_type option"
  sp_arrival :: "date option"
  sp_tolerances :: "(duration \<times> duration) option"

record linked_train =
  lt_date :: string
  lt_time :: string
  lt_trainName :: string

record linked_trains =
  anteriorTrain :: "linked_train option"
  posteriorTrain :: "linked_train option"

record stdcm_margins =
  standardAllowance :: "(margin_type \<times> num option) option"
  gridMarginBefore :: "duration option"
  gridMarginAfter :: "duration option"

text \<open>The rolling stocks of a simulation are read only for their identifiers.\<close>

record simulation_consist =
  sc_tractionEngine :: "rowid option"
  sc_towedRollingStock :: "rowid option"
  sc_totalMass :: "num option"
  sc_totalLength :: "num option"
  sc_maxSpeed :: "num option"
  sc_loadingGauge :: "loading_gauge option"
  sc_speedLimitByTag :: "string option"

record simulation_inputs =
  in_departureDate :: "string option"
  in_departureTime :: "string option"
  in_pathSteps :: "stdcm_step list"
  in_consist :: "simulation_consist option"
  in_linkedTrains :: linked_trains

datatype alternative_path = Upstream | Downstream

record new_simulation =
  sim_inputs :: simulation_inputs
  sim_outputs :: js_val
  sim_alternativePath :: "alternative_path option"

record stdcm_simulation = new_simulation +
  sim_index :: nat
  sim_creationDate :: date

record stdcm_conf = osrd_conf +
  stdcmPathSteps :: "stdcm_step list"
  stdcmMargins :: stdcm_margins
  totalMass :: "num option"
  totalLength :: "num option"
  maxSpeed :: "num option"
  loadingGauge :: "loading_gauge option"
  lightRollingStockID :: "rowid option"
  towedRollingStockID :: "rowid option"
  linkedTrains :: linked_trains
  simulations :: "stdcm_simulation list"
  selectedSimulationIndex :: "nat option"
  retainedSimulationIndex :: "nat option"
  workScheduleGroupId :: "rowid option"
  temporarySpeedLimitGroupId :: "rowid option"
  searchDatetimeWindow :: "(date \<times> date) option"
  operationalPoints :: "nat list option"
  speedLimitsByTag :: "num obj"
  trackSectionIdsByLoadingGauge :: "(string list) obj option"
  operationalPointsIdFiltered :: "string list option"

definition DEFAULT_TOLERANCE :: duration where
  "DEFAULT_TOLERANCE = new_duration 0 30 0 0"

definition extremity :: "string \<Rightarrow> arrival_time_type \<Rightarrow> stdcm_step" where
  "extremity i arrivalType =
     \<lparr>sp_id = i, sp_operationalPoint = None, sp_isVia = False, sp_stopType = None, sp_stopFor = None,
      sp_consistChange = None, sp_arrivalType = Some arrivalType, sp_arrival = None,
      sp_tolerances = Some (DEFAULT_TOLERANCE, DEFAULT_TOLERANCE)\<rparr>"

definition initial_margins :: stdcm_margins where
  "initial_margins =
     \<lparr>standardAllowance = Some (TIME_PER_DISTANCE, Some (45 / 10)),
      gridMarginBefore = Some (new_duration 0 0 0 0), gridMarginAfter = Some (new_duration 0 0 0 0)\<rparr>"

text \<open>\<open>u1\<close> and \<open>u2\<close> are the identifiers drawn when the module is loaded.\<close>

definition stdcmConfInitialState :: "string \<Rightarrow> string \<Rightarrow> stdcm_conf" where
  "stdcmConfInitialState u1 u2 =
     osrd_conf.extend defaultCommonConf
       (stdcm_conf.fields [extremity u1 PRECISE_TIME, extremity u2 ASAP] initial_margins None None None (Some GA)
          None None \<lparr>anteriorTrain = None, posteriorTrain = None\<rparr> [] None None None None None None [] None None)"

section \<open>Reducers\<close>

definition updateSimulationState :: "stdcm_conf \<Rightarrow> stdcm_simulation \<Rightarrow> stdcm_conf" where
  "updateSimulationState state simulation =
     (let consist = in_consist (sim_inputs simulation) in
      state\<lparr>rollingStockID := Option.bind consist sc_tractionEngine,
            towedRollingStockID := Option.bind consist sc_towedRollingStock,
            totalLength := Option.bind consist sc_totalLength,
            totalMass := Option.bind consist sc_totalMass,
            maxSpeed := Option.bind consist sc_maxSpeed,
            loadingGauge := (case Option.bind consist sc_loadingGauge of None \<Rightarrow> Some GA | Some g \<Rightarrow> Some g),
            speedLimitByTag := Option.bind consist sc_speedLimitByTag,
            stdcmPathSteps := in_pathSteps (sim_inputs simulation)\<rparr>)"

definition resetStdcmConfig :: "stdcm_conf \<Rightarrow> stdcm_conf \<Rightarrow> stdcm_conf" where
  "resetStdcmConfig init state =
     state\<lparr>rollingStockID := rollingStockID init,
           stdcmPathSteps := stdcmPathSteps init,
           towedRollingStockID := towedRollingStockID init,
           totalLength := totalLength init,
           totalMass := totalMass init,
           maxSpeed := maxSpeed init,
           speedLimitByTag := speedLimitByTag init,
           linkedTrains := linkedTrains init,
           retainedSimulationIndex := retainedSimulationIndex init,
           selectedSimulationIndex := selectedSimulationIndex init,
           simulations := simulations init\<rparr>"

definition restoreStdcmConfig :: "stdcm_conf \<Rightarrow> stdcm_conf \<Rightarrow> stdcm_conf" where
  "restoreStdcmConfig state payload = payload"

definition updateTotalMass :: "stdcm_conf \<Rightarrow> num option \<Rightarrow> stdcm_conf" where
  "updateTotalMass state payload = state\<lparr>totalMass := payload\<rparr>"

definition updateTotalLength :: "stdcm_conf \<Rightarrow> num option \<Rightarrow> stdcm_conf" where
  "updateTotalLength state payload = state\<lparr>totalLength := payload\<rparr>"

definition updateMaxSpeed :: "stdcm_conf \<Rightarrow> num option \<Rightarrow> stdcm_conf" where
  "updateMaxSpeed state payload = state\<lparr>maxSpeed := payload\<rparr>"

definition updateLoadingGauge :: "stdcm_conf \<Rightarrow> loading_gauge option \<Rightarrow> stdcm_conf" where
  "updateLoadingGauge state payload = state\<lparr>loadingGauge := payload\<rparr>"

definition updateTowedRollingStockID :: "stdcm_conf \<Rightarrow> rowid option \<Rightarrow> stdcm_conf" where
  "updateTowedRollingStockID state payload = state\<lparr>towedRollingStockID := payload\<rparr>"

definition updateInitialConsist :: "stdcm_conf \<Rightarrow> consist_data \<Rightarrow> stdcm_conf" where
  "updateInitialConsist state payload =
     state\<lparr>rollingStockID := cd_rollingStockID payload,
           towedRollingStockID := cd_towedRollingStockID payload,
           totalMass := cd_totalMass payload,
           totalLength := cd_totalLength payload,
           maxSpeed := cd_maxSpeed payload,
           loadingGauge := cd_loadingGauge payload,
           speedLimitByTag := cd_speedLimitByTag payload\<rparr>"

definition resetMargins :: "stdcm_conf \<Rightarrow> stdcm_conf" where
  "resetMargins state = state\<lparr>stdcmMargins := initial_margins\<rparr>"

definition updateStandardAllowance :: "stdcm_conf \<Rightarrow> (margin_type \<times> num option) option \<Rightarrow> stdcm_conf" where
  "updateStandardAllowance state payload =
     state\<lparr>stdcmMargins := (stdcmMargins state)\<lparr>standardAllowance := payload\<rparr>\<rparr>"

definition updateGridMarginBefore :: "stdcm_conf \<Rightarrow> duration option \<Rightarrow> stdcm_conf" where
  "updateGridMarginBefore state payload =
     state\<lparr>stdcmMargins := (stdcmMargins state)\<lparr>gridMarginBefore := payload\<rparr>\<rparr>"

definition updateGridMarginAfter :: "stdcm_conf \<Rightarrow> duration option \<Rightarrow> stdcm_conf" where
  "updateGridMarginAfter state payload =
     state\<lparr>stdcmMargins := (stdcmMargins state)\<lparr>gridMarginAfter := payload\<rparr>\<rparr>"

text \<open>\<open>isArrivalDateInSearchTimeWindow\<close> of \<open>utils/date.ts\<close>.\<close>

definition isArrivalDateInSearchTimeWindow :: "date \<Rightarrow> (date \<times> date) option \<Rightarrow> bool" where
  "isArrivalDateInSearchTimeWindow arrivalDate window =
     (case window of None \<Rightarrow> True | Some (b, e) \<Rightarrow> arrivalDate \<ge> b \<and> arrivalDate \<le> e)"

record stdcm_environment =
  env_infraID :: rowid
  env_timetableID :: rowid
  env_electricalProfileSetId :: "rowid option"
  env_workScheduleGroupId :: "rowid option"
  env_temporarySpeedLimitGroupId :: "rowid option"
  env_searchDatetimeWindow :: "(date \<times> date) option"
  env_operationalPointsIdFiltered :: "string list option"
  env_projectID :: "rowid option"
  env_studyID :: "rowid option"
  env_scenarioID :: "rowid option"
  env_operationalPoints :: "nat list option"
  env_trackSectionIdsByLoadingGauge :: "(string list) obj option"
  env_speedLimitsByTag :: "num obj"
  env_defaultSpeedLimitTag :: "string option"

text \<open>The tags keep the order in which they were added, as the keys of an object do unless they look like
  array indices.\<close>

definition choose_tag :: "string option \<Rightarrow> string list \<Rightarrow> string option \<Rightarrow> string option" where
  "choose_tag current tags defaultTag =
     (if \<not> truthy current \<or> the current \<notin> set tags
      then (if truthy defaultTag \<and> the defaultTag \<in> set tags then defaultTag else js_at tags 0)
      else current)"

definition into_window :: "(date \<times> date) option \<Rightarrow> stdcm_step \<Rightarrow> stdcm_step" where
  "into_window window step =
     (case window of
        None \<Rightarrow> step
      | Some (b, _) \<Rightarrow>
          (case sp_arrival step of
             None \<Rightarrow> step\<lparr>sp_arrival := Some b\<rparr>
           | Some a \<Rightarrow> if isArrivalDateInSearchTimeWindow a window then step else step\<lparr>sp_arrival := Some b\<rparr>))"

definition set_environment :: "stdcm_conf \<Rightarrow> stdcm_environment \<Rightarrow> stdcm_conf" where
  "set_environment state payload =
     state\<lparr>infraID := Some (env_infraID payload),
           timetableID := Some (env_timetableID payload),
           electricalProfileSetId := env_electricalProfileSetId payload,
           searchDatetimeWindow := env_searchDatetimeWindow payload,
           workScheduleGroupId := env_workScheduleGroupId payload,
           temporarySpeedLimitGroupId := env_temporarySpeedLimitGroupId payload,
           projectID := env_projectID payload,
           studyID := env_studyID payload,
           scenarioID := env_scenarioID payload,
           operationalPoints := env_operationalPoints payload,
           trackSectionIdsByLoadingGauge := env_trackSectionIdsByLoadingGauge payload,
           speedLimitsByTag := env_speedLimitsByTag payload,
           operationalPointsIdFiltered := env_operationalPointsIdFiltered payload\<rparr>"

text \<open>On an empty list of steps \<open>at(0)\<close> is undefined and the source reads its arrival; without a window it
  would store undefined steps, which is an error here too.\<close>

definition updateStdcmEnvironment :: "stdcm_conf \<Rightarrow> stdcm_environment \<Rightarrow> stdcm_conf result" where
  "updateStdcmEnvironment state payload =
     (let steps = stdcmPathSteps state; window = env_searchDatetimeWindow payload in
      case (js_at steps 0, js_at steps (-1)) of
        (Some origin, Some destination) \<Rightarrow>
          Inr ((set_environment state payload)
            \<lparr>speedLimitByTag := choose_tag (speedLimitByTag state) (map fst (env_speedLimitsByTag payload))
                                  (env_defaultSpeedLimitTag payload),
             stdcmPathSteps := [into_window window origin] @ js_slice steps 1 (-1) @ [into_window window destination]\<rparr>)
      | _ \<Rightarrow> Inl TypeError)"

definition updateStdcmPathSteps :: "stdcm_conf \<Rightarrow> stdcm_step list \<Rightarrow> stdcm_conf" where
  "updateStdcmPathSteps state payload = state\<lparr>stdcmPathSteps := payload\<rparr>"

text \<open>The members of a partial step, in the order in which the payload gives them.\<close>

datatype step_update =
    SetId string
  | SetOperationalPoint "stdcm_op option"
  | SetIsVia bool
  | SetStopType "stdcm_stop_type option"
  | SetStopFor "duration option"
  | SetConsistChange "consist_data option"
  | SetArrivalType "arrival_time_type option"
  | SetArrival "date option"
  | SetTolerances "(duration \<times> duration) option"

fun apply_update :: "step_update \<Rightarrow> stdcm_step \<Rightarrow> stdcm_step" where
  "apply_update (SetId v) step = step\<lparr>sp_id := v\<rparr>"
| "apply_update (SetOperationalPoint v) step = step\<lparr>sp_operationalPoint := v\<rparr>"
| "apply_update (SetIsVia v) step = step\<lparr>sp_isVia := v\<rparr>"
| "apply_update (SetStopType v) step = step\<lparr>sp_stopType := v\<rparr>"
| "apply_update (SetStopFor v) step = step\<lparr>sp_stopFor := v\<rparr>"
| "apply_update (SetConsistChange v) step = step\<lparr>sp_consistChange := v\<rparr>"
| "apply_update (SetArrivalType v) step = step\<lparr>sp_arrivalType := v\<rparr>"
| "apply_update (SetArrival v) step = step\<lparr>sp_arrival := v\<rparr>"
| "apply_update (SetTolerances v) step = step\<lparr>sp_tolerances := v\<rparr>"

definition update_step :: "string \<Rightarrow> step_update list \<Rightarrow> stdcm_step \<Rightarrow> stdcm_step" where
  "update_step i updates pathStep = (if sp_id pathStep = i then fold apply_update updates pathStep else pathStep)"

definition updateStdcmPathStep :: "stdcm_conf \<Rightarrow> string \<Rightarrow> step_update list \<Rightarrow> stdcm_conf" where
  "updateStdcmPathStep state i updates =
     state\<lparr>stdcmPathSteps := map (update_step i updates) (stdcmPathSteps state)\<rparr>"

definition new_via :: "string \<Rightarrow> stdcm_step" where
  "new_via uuid =
     \<lparr>sp_id = uuid, sp_operationalPoint = None, sp_isVia = True, sp_stopType = Some PASSAGE_TIME, sp_stopFor = None,
      sp_consistChange = None, sp_arrivalType = None, sp_arrival = None, sp_tolerances = None\<rparr>"

definition addStdcmVia :: "stdcm_conf \<Rightarrow> string \<Rightarrow> int \<Rightarrow> stdcm_conf" where
  "addStdcmVia state uuid payload =
     state\<lparr>stdcmPathSteps := addElementAtIndex (stdcmPathSteps state) payload (new_via uuid)\<rparr>"

definition deleteStdcmVia :: "stdcm_conf \<Rightarrow> string \<Rightarrow> stdcm_conf" where
  "deleteStdcmVia state payload =
     state\<lparr>stdcmPathSteps := filter (\<lambda>pathStep. sp_id pathStep \<noteq> payload) (stdcmPathSteps state)\<rparr>"

record linked_extremity =
  le_ch :: string
  le_date :: string
  le_coordinates :: "num \<times> num"
  le_arrivalDate :: date
  le_name :: string
  le_obj_id :: string
  le_time :: string
  le_trigram :: string
  le_uic :: nat

datatype extremity_type = Origin | Destination

definition linked_step_updates :: "extremity_type \<Rightarrow> linked_extremity \<Rightarrow> string \<Rightarrow> step_update list" where
  "linked_step_updates which step pathStepId =
     [SetOperationalPoint (Some \<lparr>sop_id = le_obj_id step, sop_trigram = le_trigram step, sop_uic = le_uic step,
        sop_secondaryCode = le_ch step, sop_name = le_name step, sop_coordinates = le_coordinates step\<rparr>),
      SetId pathStepId, SetArrival (Some (le_arrivalDate step))] @
     (if which = Origin then [SetArrivalType (Some PRECISE_TIME)] else [])"

definition updateLinkedTrainExtremity ::
  "stdcm_conf \<Rightarrow> extremity_type \<Rightarrow> string \<Rightarrow> linked_extremity \<Rightarrow> string \<Rightarrow> stdcm_conf" where
  "updateLinkedTrainExtremity state which trainName step pathStepId =
     (let newLinkedTrain = Some \<lparr>lt_date = le_date step, lt_time = le_time step, lt_trainName = trainName\<rparr> in
      state\<lparr>linkedTrains :=
              (if which = Destination then (linkedTrains state)\<lparr>anteriorTrain := newLinkedTrain\<rparr>
               else (linkedTrains state)\<lparr>posteriorTrain := newLinkedTrain\<rparr>),
            stdcmPathSteps :=
              map (update_step pathStepId (linked_step_updates which step pathStepId)) (stdcmPathSteps state)\<rparr>)"

definition push_simulation :: "date \<Rightarrow> new_simulation \<Rightarrow> stdcm_simulation list \<Rightarrow> stdcm_simulation list" where
  "push_simulation now simulation sims =
     sims @ [new_simulation.extend simulation (stdcm_simulation.fields (length sims) now)]"

definition addStdcmSimulations :: "stdcm_conf \<Rightarrow> date \<Rightarrow> new_simulation list \<Rightarrow> stdcm_conf" where
  "addStdcmSimulations state now payload =
     (let sims = fold (push_simulation now) payload (simulations state) in
      state\<lparr>simulations := sims, selectedSimulationIndex := Some (length sims - length payload)\<rparr>)"

definition selectSimulation :: "stdcm_conf \<Rightarrow> nat \<Rightarrow> stdcm_conf result" where
  "selectSimulation state payload =
     (if payload < length (simulations state)
      then Inr (updateSimulationState (state\<lparr>selectedSimulationIndex := Some payload\<rparr>) (simulations state ! payload))
      else Inl TypeError)"

definition retainSimulation :: "stdcm_conf \<Rightarrow> nat \<Rightarrow> stdcm_conf" where
  "retainSimulation state payload = state\<lparr>retainedSimulationIndex := Some payload\<rparr>"

definition resetStdcmSimulations :: "stdcm_conf \<Rightarrow> stdcm_conf \<Rightarrow> stdcm_conf" where
  "resetStdcmSimulations init state =
     state\<lparr>retainedSimulationIndex := retainedSimulationIndex init,
           selectedSimulationIndex := selectedSimulationIndex init, simulations := simulations init\<rparr>"

datatype stdcm_action =
    StdcmCommon common_action
  | ResetStdcmConfig
  | RestoreStdcmConfig stdcm_conf
  | UpdateTotalMass "num option"
  | UpdateTotalLength "num option"
  | UpdateMaxSpeed "num option"
  | UpdateLoadingGauge "loading_gauge option"
  | UpdateTowedRollingStockID "rowid option"
  | UpdateInitialConsist consist_data
  | ResetMargins
  | UpdateStandardAllowance "(margin_type \<times> num option) option"
  | UpdateGridMarginBefore "duration option"
  | UpdateGridMarginAfter "duration option"
  | UpdateStdcmEnvironment stdcm_environment
  | UpdateStdcmPathSteps "stdcm_step list"
  | UpdateStdcmPathStep string "step_update list"
  | AddStdcmVia string int
  | DeleteStdcmVia string
  | UpdateLinkedTrainExtremity extremity_type string linked_extremity string
  | AddStdcmSimulations date "new_simulation list"
  | SelectSimulation nat
  | RetainSimulation nat
  | ResetStdcmSimulations

fun stdcmConfSlice :: "stdcm_conf \<Rightarrow> stdcm_conf \<Rightarrow> stdcm_action \<Rightarrow> stdcm_conf result" where
  "stdcmConfSlice init s (StdcmCommon a) = Inr (commonConfReducers s a)"
| "stdcmConfSlice init s ResetStdcmConfig = Inr (resetStdcmConfig init s)"
| "stdcmConfSlice init s (RestoreStdcmConfig p) = Inr (restoreStdcmConfig s p)"
| "stdcmConfSlice init s (UpdateTotalMass p) = Inr (updateTotalMass s p)"
| "stdcmConfSlice init s (UpdateTotalLength p) = Inr (updateTotalLength s p)"
| "stdcmConfSlice init s (UpdateMaxSpeed p) = Inr (updateMaxSpeed s p)"
| "stdcmConfSlice init s (UpdateLoadingGauge p) = Inr (updateLoadingGauge s p)"
| "stdcmConfSlice init s (UpdateTowedRollingStockID p) = Inr (updateTowedRollingStockID s p)"
| "stdcmConfSlice init s (UpdateInitialConsist p) = Inr (updateInitialConsist s p)"
| "stdcmConfSlice init s ResetMargins = Inr (resetMargins s)"
| "stdcmConfSlice init s (UpdateStandardAllowance p) = Inr (updateStandardAllowance s p)"
| "stdcmConfSlice init s (UpdateGridMarginBefore p) = Inr (updateGridMarginBefore s p)"
| "stdcmConfSlice init s (UpdateGridMarginAfter p) = Inr (updateGridMarginAfter s p)"
| "stdcmConfSlice init s (UpdateStdcmEnvironment p) = updateStdcmEnvironment s p"
| "stdcmConfSlice init s (UpdateStdcmPathSteps p) = Inr (updateStdcmPathSteps s p)"
| "stdcmConfSlice init s (UpdateStdcmPathStep i u) = Inr (updateStdcmPathStep s i u)"
| "stdcmConfSlice init s (AddStdcmVia u k) = Inr (addStdcmVia s u k)"
| "stdcmConfSlice init s (DeleteStdcmVia i) = Inr (deleteStdcmVia s i)"
| "stdcmConfSlice init s (UpdateLinkedTrainExtremity w n e i) = Inr (updateLinkedTrainExtremity s w n e i)"
| "stdcmConfSlice init s (AddStdcmSimulations now p) = Inr (addStdcmSimulations s now p)"
| "stdcmConfSlice init s (SelectSimulation k) = selectSimulation s k"
| "stdcmConfSlice init s (RetainSimulation k) = Inr (retainSimulation s k)"
| "stdcmConfSlice init s ResetStdcmSimulations = Inr (resetStdcmSimulations init s)"

lemmas stdcm_reducer_defs = updateTotalMass_def updateTotalLength_def updateMaxSpeed_def updateLoadingGauge_def
  updateTowedRollingStockID_def updateInitialConsist_def resetMargins_def updateStandardAllowance_def
  updateGridMarginBefore_def updateGridMarginAfter_def updateStdcmPathSteps_def updateStdcmPathStep_def
  addStdcmVia_def deleteStdcmVia_def updateLinkedTrainExtremity_def retainSimulation_def

end
