(* ===== verification/StdcmProperties.thy ===== *)
theory StdcmProperties
  imports StdcmConf
begin

text \<open>
  Properties of the stdcm slice: the simulations carry their positions and the selection points to one
  of them along every history, setting the environment brings the arrivals into the search window and
  leaves a known speed limit tag, and adding then deleting a via is the identity.
\<close>

section \<open>Simulations\<close>

definition simulations_ok :: "stdcm_conf \<Rightarrow> bool" where
  "simulations_ok s \<longleftrightarrow>
     map sim_index (simulations s) = [0..<length (simulations s)] \<and>
     (case selectedSimulationIndex s of None \<Rightarrow> True | Some k \<Rightarrow> k < length (simulations s))"

lemma length_push [simp]: "length (push_simulation now x sims) = Suc (length sims)"
  by (simp add: push_simulation_def)

lemma length_push_all: "length (fold (push_simulation now) payload sims) = length sims + length payload"
  by (induction payload arbitrary: sims) auto

lemma push_nth: "i < length sims \<Longrightarrow> push_simulation now x sims ! i = sims ! i"
  by (simp add: push_simulation_def nth_append)

lemma push_index: "map sim_index (push_simulation now x sims) = map sim_index sims @ [length sims]"
  by (simp add: push_simulation_def new_simulation.extend_def stdcm_simulation.fields_def)

lemma push_all_index:
  "map sim_index sims = [0..<length sims] \<Longrightarrow>
   map sim_index (fold (push_simulation now) payload sims) = [0..<length sims + length payload]"
proof (induction payload arbitrary: sims)
  case (Cons x payload)
  then have "map sim_index (push_simulation now x sims) = [0..<length (push_simulation now x sims)]"
    by (simp add: push_index)
  from Cons.IH [OF this] show ?case by simp
qed simp

lemma push_all_nth:
  "k < length payload \<Longrightarrow>
   sim_inputs (fold (push_simulation now) payload sims ! (length sims + k)) = sim_inputs (payload ! k)"
proof (induction payload arbitrary: sims k)
  case (Cons x payload)
  have keep: "i < length ss \<Longrightarrow> fold (push_simulation now) ps ss ! i = ss ! i" for ps ss i
  proof (induction ps arbitrary: ss)
    case (Cons p ps)
    have "fold (push_simulation now) ps (push_simulation now p ss) ! i = push_simulation now p ss ! i"
      using Cons.prems by (intro Cons.IH) simp
    with Cons.prems show ?case by (simp add: push_nth)
  qed simp
  show ?case
  proof (cases k)
    case 0
    then show ?thesis
      by (simp add: keep) (simp add: push_simulation_def new_simulation.extend_def)
  next
    case (Suc j)
    with Cons.prems Cons.IH [of j "push_simulation now x sims"] show ?thesis by simp
  qed
qed simp

fun keeps_simulations :: "stdcm_action \<Rightarrow> bool" where
  "keeps_simulations (RestoreStdcmConfig p) = simulations_ok p"
| "keeps_simulations (AddStdcmSimulations _ payload) = (payload \<noteq> [])"
| "keeps_simulations _ = True"

lemma simulations_okI:
  "simulations s' = simulations s \<Longrightarrow> selectedSimulationIndex s' = selectedSimulationIndex s \<Longrightarrow>
   simulations_ok s \<Longrightarrow> simulations_ok s'"
  unfolding simulations_ok_def by (auto split: option.splits)

lemma common_simulations [simp]:
  "simulations (commonConfReducers (s :: stdcm_conf) a) = simulations s"
  "selectedSimulationIndex (commonConfReducers s a) = selectedSimulationIndex s"
  by (cases a; simp add: common_reducer_defs Let_def)+

lemma set_environment_simulations [simp]:
  "simulations (set_environment s p) = simulations s"
  "selectedSimulationIndex (set_environment s p) = selectedSimulationIndex s"
  by (simp_all add: set_environment_def)

lemma updateSimulationState_simulations [simp]:
  "simulations (updateSimulationState s x) = simulations s"
  "selectedSimulationIndex (updateSimulationState s x) = selectedSimulationIndex s"
  by (simp_all add: updateSimulationState_def Let_def)

lemma initial_simulations [simp]:
  "simulations (stdcmConfInitialState u1 u2) = []"
  "selectedSimulationIndex (stdcmConfInitialState u1 u2) = None"
  by (simp_all add: stdcmConfInitialState_def osrd_conf.extend_def stdcm_conf.fields_def defaultCommonConf_def)

lemma addStdcmSimulations_ok:
  "simulations_ok s \<Longrightarrow> payload \<noteq> [] \<Longrightarrow> simulations_ok (addStdcmSimulations s now payload)"
  by (simp add: simulations_ok_def addStdcmSimulations_def Let_def length_push_all push_all_index)

lemma slice_simulations:
  assumes "simulations_ok s" and "keeps_simulations a"
    and step: "stdcmConfSlice (stdcmConfInitialState u1 u2) s a = Inr s'"
  shows "simulations_ok s'"
proof (cases a)
  case (AddStdcmSimulations now payload)
  with assms show ?thesis by (auto simp: addStdcmSimulations_ok)
next
  case (SelectSimulation k)
  with assms show ?thesis by (auto simp: selectSimulation_def simulations_ok_def split: if_splits)
next
  case (UpdateStdcmEnvironment p)
  with step have "simulations s' = simulations s \<and> selectedSimulationIndex s' = selectedSimulationIndex s"
    by (auto simp: updateStdcmEnvironment_def Let_def split: option.splits)
  with assms(1) show ?thesis using simulations_okI by blast
next
  case (RestoreStdcmConfig p)
  with assms show ?thesis by (simp add: restoreStdcmConfig_def)
next
  case ResetStdcmConfig
  with step show ?thesis by (auto simp: resetStdcmConfig_def simulations_ok_def)
next
  case ResetStdcmSimulations
  with step show ?thesis by (auto simp: resetStdcmSimulations_def simulations_ok_def)
qed (rule simulations_okI [OF _ _ assms(1)]; use step in \<open>auto simp: stdcm_reducer_defs Let_def\<close>)+

interpretation stdcm_slice: reducer "stdcmConfSlice (stdcmConfInitialState u1 u2)" simulations_ok keeps_simulations
  for u1 u2
  by unfold_locales (rule slice_simulations)

text \<open>C36: along every history of the slice, each simulation carries the position it has in the list and
  the selected index is one of the list; excluded are empty batches of simulations and restored
  configurations that do not have the property themselves.\<close>

theorem stdcm_history_simulations:
  assumes "list_all keeps_simulations as"
    and "s = run (stdcmConfSlice (stdcmConfInitialState u1 u2)) (stdcmConfInitialState u1 u2) as"
  shows "(\<forall>k < length (simulations s). sim_index (simulations s ! k) = k) \<and>
    (\<forall>k. selectedSimulationIndex s = Some k \<longrightarrow> k < length (simulations s))"
proof -
  have "simulations_ok (stdcmConfInitialState u1 u2)" by (simp add: simulations_ok_def)
  then have ok: "simulations_ok s" unfolding assms(2) using stdcm_slice.run_invar assms(1) by blast
  then have "map sim_index (simulations s) ! k = [0..<length (simulations s)] ! k" for k
    by (simp add: simulations_ok_def)
  then have "sim_index (simulations s ! k) = k" if "k < length (simulations s)" for k
    using that by (metis add_0 length_map length_upt nth_map nth_upt minus_nat.diff_0)
  with ok show ?thesis by (auto simp: simulations_ok_def)
qed

definition ex_inputs :: simulation_inputs where
  "ex_inputs =
     \<lparr>in_departureDate = None, in_departureTime = None,
      in_pathSteps = [extremity ''o'' PRECISE_TIME, new_via ''v'', extremity ''d'' ASAP], in_consist = None,
      in_linkedTrains = \<lparr>anteriorTrain = None, posteriorTrain = None\<rparr>\<rparr>"

definition ex_sim :: new_simulation where
  "ex_sim = \<lparr>sim_inputs = ex_inputs, sim_outputs = Undefined, sim_alternativePath = None\<rparr>"

definition ex_stdcm_actions :: "stdcm_action list" where
  "ex_stdcm_actions =
     [AddStdcmSimulations 5 [ex_sim, ex_sim\<lparr>sim_alternativePath := Some Upstream\<rparr>], SelectSimulation 1,
      SelectSimulation 7, AddStdcmSimulations 9 [ex_sim]]"

theorem stdcm_history_simulations_witness:
  "sim_index (simulations (run (stdcmConfSlice (stdcmConfInitialState ''o'' ''d''))
     (stdcmConfInitialState ''o'' ''d'') ex_stdcm_actions) ! 2) = 2"
proof -
  let ?s = "run (stdcmConfSlice (stdcmConfInitialState ''o'' ''d'')) (stdcmConfInitialState ''o'' ''d'') ex_stdcm_actions"
  have "list_all keeps_simulations ex_stdcm_actions" by code_simp
  moreover have "2 < length (simulations ?s)" by code_simp
  ultimately show ?thesis using stdcm_history_simulations [of ex_stdcm_actions ?s "''o''" "''d''"] by blast
qed

text \<open>Adding a batch of simulations appends them in order and selects the first of the batch; an
  empty batch selects an index that is not in the list, and selecting that index then throws.\<close>

lemma addStdcmSimulations_selects:
  "let s' = addStdcmSimulations s now payload in
   length (simulations s') = length (simulations s) + length payload \<and>
   selectedSimulationIndex s' = Some (length (simulations s)) \<and>
   (case payload of
      [] \<Rightarrow> selectSimulation s' (length (simulations s)) = Inl TypeError
    | p # _ \<Rightarrow> sim_inputs (simulations s' ! length (simulations s)) = sim_inputs p \<and>
        map_sum id stdcmPathSteps (selectSimulation s' (length (simulations s))) = Inr (in_pathSteps (sim_inputs p)))"
proof -
  define s' where "s' = addStdcmSimulations s now payload"
  have len: "length (simulations s') = length (simulations s) + length payload"
    and sel: "selectedSimulationIndex s' = Some (length (simulations s))"
    by (simp_all add: s'_def addStdcmSimulations_def Let_def length_push_all)
  have "case payload of
      [] \<Rightarrow> selectSimulation s' (length (simulations s)) = Inl TypeError
    | p # _ \<Rightarrow> sim_inputs (simulations s' ! length (simulations s)) = sim_inputs p \<and>
        map_sum id stdcmPathSteps (selectSimulation s' (length (simulations s))) = Inr (in_pathSteps (sim_inputs p))"
  proof (cases payload)
    case Nil
    then show ?thesis using len by (simp add: selectSimulation_def)
  next
    case (Cons p ps)
    have "sim_inputs (simulations s' ! length (simulations s)) = sim_inputs p"
      using push_all_nth [of 0 payload now "simulations s"] Cons
      by (simp add: s'_def addStdcmSimulations_def Let_def)
    then show ?thesis
      using Cons len by (simp add: selectSimulation_def updateSimulationState_def Let_def)
  qed
  then show ?thesis unfolding Let_def s'_def [symmetric] using len sel by blast
qed

section \<open>Environment\<close>

lemma choose_tag_known:
  "choose_tag current tags defaultTag \<in> (if tags = [] then {None} else Some ` set tags)"
  by (cases tags) (auto simp: choose_tag_def truthy_def js_at_def split: option.splits)

lemma into_window_arrival:
  "b \<le> e \<Longrightarrow> \<exists>a. sp_arrival (into_window (Some (b, e)) step) = Some a \<and> b \<le> a \<and> a \<le> e"
  by (auto simp: into_window_def isArrivalDateInSearchTimeWindow_def split: option.splits)

lemma into_window_id [simp]: "sp_id (into_window w step) = sp_id step"
  by (auto simp: into_window_def split: option.splits)

lemma slice_inner: "2 \<le> length xs \<Longrightarrow> js_slice xs 1 (-1) = butlast (tl xs)"
  by (cases xs) (auto simp: js_slice_def rel_index_def butlast_conv_take nat_diff_distrib' drop_Suc Let_def)

text \<open>Setting the environment on an itinerary with an origin and a destination succeeds, puts both
  arrivals into the search window, keeps the steps and their identifiers, leaves the vias alone and
  leaves a speed limit tag that the environment knows (none only when it knows none).\<close>

lemma updateStdcmEnvironment_correct:
  assumes "2 \<le> length (stdcmPathSteps s)" and w: "env_searchDatetimeWindow p = Some (b, e)" and "b \<le> e"
  shows "\<exists>s' origin destination. updateStdcmEnvironment s p = Inr s' \<and>
    stdcmPathSteps s' = [origin] @ butlast (tl (stdcmPathSteps s)) @ [destination] \<and>
    map sp_id (stdcmPathSteps s') = map sp_id (stdcmPathSteps s) \<and>
    (\<forall>step \<in> {origin, destination}. \<exists>a. sp_arrival step = Some a \<and> b \<le> a \<and> a \<le> e) \<and>
    speedLimitByTag s' \<in> (if env_speedLimitsByTag p = [] then {None} else Some ` set (map fst (env_speedLimitsByTag p)))"
proof -
  define steps where "steps = stdcmPathSteps s"
  have len: "2 \<le> length steps" and ne: "steps \<noteq> []" and tl: "tl steps \<noteq> []"
    using assms(1) by (auto simp: steps_def) (cases "stdcmPathSteps s"; auto)
  let ?o = "into_window (Some (b, e)) (hd steps)" and ?d = "into_window (Some (b, e)) (last steps)"
  let ?tag = "choose_tag (speedLimitByTag s) (map fst (env_speedLimitsByTag p)) (env_defaultSpeedLimitTag p)"
  let ?s = "(set_environment s p)\<lparr>speedLimitByTag := ?tag, stdcmPathSteps := [?o] @ butlast (tl steps) @ [?d]\<rparr>"
  have e: "updateStdcmEnvironment s p = Inr ?s"
    using w js_at_0 [OF ne] js_at_last [OF ne] slice_inner [OF len]
    by (simp add: updateStdcmEnvironment_def Let_def flip: steps_def)
  have "steps = hd steps # butlast (tl steps) @ [last steps]"
    using ne tl by (metis append_butlast_last_id hd_Cons_tl last_tl)
  then have ids: "map sp_id ([?o] @ butlast (tl steps) @ [?d]) = map sp_id steps"
    by (metis append_Cons append_Nil into_window_id list.simps(9) map_append)
  have tag: "?tag \<in> (if env_speedLimitsByTag p = [] then {None} else Some ` set (map fst (env_speedLimitsByTag p)))"
    using choose_tag_known [of "speedLimitByTag s" "map fst (env_speedLimitsByTag p)"] by (auto split: if_splits)
  have "stdcmPathSteps ?s = [?o] @ butlast (tl steps) @ [?d]" "speedLimitByTag ?s = ?tag" by simp_all
  with e ids tag into_window_arrival [OF assms(3)] show ?thesis
    unfolding steps_def [symmetric]
    by (intro exI [of _ ?s] exI [of _ ?o] exI [of _ ?d]) (simp only:, blast)
qed

definition ex_env :: stdcm_environment where
  "ex_env =
     \<lparr>env_infraID = 1, env_timetableID = 2, env_electricalProfileSetId = None, env_workScheduleGroupId = None,
      env_temporarySpeedLimitGroupId = None, env_searchDatetimeWindow = Some (1000, 2000),
      env_operationalPointsIdFiltered = None, env_projectID = None, env_studyID = None, env_scenarioID = None,
      env_operationalPoints = None, env_trackSectionIdsByLoadingGauge = None,
      env_speedLimitsByTag = [(''MA100'', 100), (''HLP'', 100)], env_defaultSpeedLimitTag = Some ''HLP''\<rparr>"

section \<open>Vias\<close>

text \<open>Deleting a via that was just added, whatever its position, gives back the configuration.\<close>

lemma add_delete_via:
  assumes "uuid \<notin> sp_id ` set (stdcmPathSteps s)"
  shows "deleteStdcmVia (addStdcmVia s uuid k) uuid = s"
proof -
  have "filter (\<lambda>st. sp_id st \<noteq> uuid) (splice_insert (stdcmPathSteps s) k (new_via uuid)) = stdcmPathSteps s"
    using filter_splice_insert_neg [of "\<lambda>st. sp_id st \<noteq> uuid" "new_via uuid"] assms
    by (simp add: new_via_def filter_key_fresh)
  then show ?thesis by (simp add: deleteStdcmVia_def addStdcmVia_def addElementAtIndex_def)
qed

end
