(* ===== verification/PathTracks.thy ===== *)
theory PathTracks
  imports PathSteps Physics
begin

text \<open>
  Positions on a path: the helpers of \<open>front/src/modules/pathfinding/helpers\<close>. A path is a list of ranges
  of track sections; the helpers translate a position on the path (in mm) into an offset on a track
  section, group the voltages met along the path and reverse a list of path steps.
\<close>

section \<open>Track ranges\<close>

datatype direction = START_TO_STOP | STOP_TO_START

record track_range =
  tr_track_section :: string
  tr_begin :: int
  tr_end :: int
  tr_direction :: direction

fun cumulative_from :: "int list \<Rightarrow> track_range list \<Rightarrow> int list" where
  "cumulative_from results [] = results"
| "cumulative_from results (r # ranges) =
     (let rangeLength = \<bar>tr_end r - tr_begin r\<bar> in
      cumulative_from
        (results @ [if results = [] then rangeLength else last results + rangeLength]) ranges)"

definition getTrackLengthCumulativeSums :: "track_range list \<Rightarrow> int list" where
  "getTrackLengthCumulativeSums trackRanges = cumulative_from [] trackRanges"

definition findTrackSectionOffset :: "int \<Rightarrow> int list \<Rightarrow> track_range list \<Rightarrow> (string \<times> int) result" where
  "findTrackSectionOffset positionOnPath cumSums trackRangesOnPath =
     (let index = find_index (\<lambda>cumulativeSum. positionOnPath \<le> cumulativeSum) cumSums in
      if index < 0 \<or> index \<ge> int (length trackRangesOnPath)
      then Inl (JSError ''No track range found for the given position on path'')
      else
        let trackRange = trackRangesOnPath ! nat index;
            inferiorSum = (if index > 0 then cumSums ! nat (index - 1) else 0);
            offsetOnTrackRange = positionOnPath - inferiorSum;
            offsetOnTrackSection =
              (if tr_direction trackRange = START_TO_STOP then tr_begin trackRange + offsetOnTrackRange
               else tr_end trackRange - offsetOnTrackRange)
        in Inr (tr_track_section trackRange, offsetOnTrackSection))"

text \<open>\<open>getPointOnPathCoordinates\<close>; \<open>pointOnTrack\<close> stands for the geometry of a known track, measured with
  turf, and gives None for an unknown track.\<close>

definition getPointOnPathCoordinates ::
  "(string \<Rightarrow> (int \<Rightarrow> num \<times> num) option) \<Rightarrow> track_range list \<Rightarrow> int list \<Rightarrow> int \<Rightarrow> (num \<times> num) result" where
  "getPointOnPathCoordinates pointOnTrack trackRanges cumSums positionOnPath =
     bind_result (findTrackSectionOffset positionOnPath cumSums trackRanges)
       (\<lambda>(track, offset). case pointOnTrack track of None \<Rightarrow> Inl TypeError | Some p \<Rightarrow> Inr (p offset))"

section \<open>Locations and reversal\<close>

definition getStepLocation :: "location \<Rightarrow> location result" where
  "getStepLocation step =
     (case step of
        TrackOffset track offset _ \<Rightarrow> Inr (TrackOffset track offset None)
      | OpPart (OpId i) n \<Rightarrow> Inr (OpPart (OpId i) n)
      | OpPart (OpTrigram t s) n \<Rightarrow> Inr (OpPart (OpTrigram t s) n)
      | OpPart (OpUic u s) n \<Rightarrow> if u = -1 then Inl (JSError ''Invalid UIC'') else Inr (OpPart (OpUic u s) n))"

fun reverse_margins :: "string option \<Rightarrow> path_step list \<Rightarrow> string option list" where
  "reverse_margins prevMargin [] = []"
| "reverse_margins prevMargin (pathStep # pathSteps) =
     (if truthy (ps_theoreticalMargin pathStep) \<or> pathSteps = []
      then prevMargin # reverse_margins (ps_theoreticalMargin pathStep) pathSteps
      else None # reverse_margins prevMargin pathSteps)"

definition reverse_step :: "bool \<Rightarrow> path_step \<Rightarrow> string option \<Rightarrow> path_step" where
  "reverse_step isLast pathStep newMargin =
     (let isLastStepZeroStop = (isLast \<and> map_option dur_ms (ps_stopFor pathStep) = Some 0) in
      pathStep\<lparr>ps_arrival := None,
               ps_stopFor := (if isLastStepZeroStop then None else ps_stopFor pathStep),
               ps_theoreticalMargin := newMargin\<rparr>)"

definition reversePathSteps :: "path_step list \<Rightarrow> path_step list" where
  "reversePathSteps pathSteps =
     rev (map (\<lambda>(index, pathStep, newMargin). reverse_step (index = length pathSteps - 1) pathStep newMargin)
            (zip [0..<length pathSteps] (zip pathSteps (reverse_margins None pathSteps))))"

section \<open>Voltages\<close>

datatype electrification = Electrification string | NeutralSection bool | NonElectrified

record ranged_value =
  rv_begin :: num
  rv_end :: num
  rv_value :: string

text \<open>The boundaries with the end of the path; an index outside the array is undefined and the source
  replaces it by 0 where it can occur.\<close>

definition boundary :: "num list \<Rightarrow> int \<Rightarrow> num" where
  "boundary bs i = (case js_at bs i of None \<Rightarrow> 0 | Some b \<Rightarrow> if i < 0 then 0 else b)"

record voltage_state =
  vs_ranges :: "ranged_value list"
  vs_start :: num
  vs_voltage :: string

definition push_range :: "voltage_state \<Rightarrow> num \<Rightarrow> voltage_state" where
  "push_range st e =
     st\<lparr>vs_ranges := vs_ranges st @ [\<lparr>rv_begin = vs_start st, rv_end = e, rv_value = vs_voltage st\<rparr>]\<rparr>"

definition voltage_step ::
  "num list \<Rightarrow> electrification list \<Rightarrow> int \<Rightarrow> voltage_state \<Rightarrow> voltage_state" where
  "voltage_step bs vals index st =
     (case vals ! nat index of
        NonElectrified \<Rightarrow>
          if vs_voltage st \<noteq> []
          then (push_range st (boundary bs (index - 1)))\<lparr>vs_voltage := [], vs_start := boundary bs (index - 1)\<rparr>
          else st
      | Electrification voltage \<Rightarrow>
          (if vs_voltage st = [] then
             (if index > 0 then push_range st (boundary bs (index - 1)) else st)\<lparr>vs_start := boundary bs (index - 1)\<rparr>
           else if voltage \<noteq> vs_voltage st then (push_range st (boundary bs index))\<lparr>vs_start := boundary bs index\<rparr>
           else st)\<lparr>vs_voltage := voltage\<rparr>
      | NeutralSection _ \<Rightarrow>
          let differs = (case js_at vals (index + 1) of
                           Some (Electrification v) \<Rightarrow> v \<noteq> vs_voltage st
                         | _ \<Rightarrow> True)
          in if vs_voltage st \<noteq> [] \<and> differs
             then (push_range st (boundary bs (index - 1)))\<lparr>vs_voltage := [], vs_start := boundary bs (index - 1)\<rparr>
             else st)"

text \<open>A path length that is undefined or 0 is None.\<close>

definition getPathVoltages :: "(num list \<times> electrification list) option \<Rightarrow> num option \<Rightarrow> ranged_value list" where
  "getPathVoltages electrifications pathLength =
     (case (electrifications, pathLength) of
        (Some (bounds, vals), Some len) \<Rightarrow>
          if len = 0 then []
          else
            let bs = bounds @ [len];
                st = foldl (\<lambda>st index. voltage_step bs vals (int index) st)
                       \<lparr>vs_ranges = [], vs_start = 0, vs_voltage = []\<rparr> [0..<length vals]
            in if vals = [] then [] else vs_ranges (push_range st len)
      | _ \<Rightarrow> [])"

section \<open>Lemmas\<close>

lemma cumulative_length: "length (cumulative_from acc rs) = length acc + length rs"
  by (induction acc rs rule: cumulative_from.induct) (simp_all add: Let_def)

lemma cumulative_prefix: "i < length acc \<Longrightarrow> cumulative_from acc rs ! i = acc ! i"
  by (induction acc rs rule: cumulative_from.induct) (auto simp: Let_def nth_append)

abbreviation range_length :: "track_range \<Rightarrow> int" where
  "range_length r \<equiv> \<bar>tr_end r - tr_begin r\<bar>"

lemma cumulative_nth:
  "i < length rs \<Longrightarrow>
   cumulative_from acc rs ! (length acc + i) =
     (if acc = [] then 0 else last acc) + sum_list (map range_length (take (Suc i) rs))"
proof (induction acc rs arbitrary: i rule: cumulative_from.induct)
  case (2 acc r rs)
  let ?acc = "acc @ [if acc = [] then range_length r else last acc + range_length r]"
  show ?case
  proof (cases i)
    case 0
    have "cumulative_from ?acc rs ! length acc = ?acc ! length acc" by (rule cumulative_prefix) simp
    with 0 show ?thesis by (simp add: Let_def)
  next
    case (Suc j)
    with 2 have "cumulative_from ?acc rs ! (length ?acc + j) =
        (if ?acc = [] then 0 else last ?acc) + sum_list (map range_length (take (Suc j) rs))"
      by (simp add: Let_def)
    with Suc show ?thesis by (simp add: Let_def)
  qed
qed simp

lemma cumulative_sums:
  "i < length rs \<Longrightarrow> getTrackLengthCumulativeSums rs ! i = sum_list (map range_length (take (Suc i) rs))"
  using cumulative_nth [of i rs "[]"] by (simp add: getTrackLengthCumulativeSums_def)

text \<open>For a position on a path, the track offset that is found lies on one of the ranges of the path,
  inside that range, and at that position: the lengths of the ranges before it plus the distance from
  the point where the path enters the range give the position again.\<close>

lemma findTrackSectionOffset_correct:
  assumes "0 \<le> p" and "p \<le> sum_list (map range_length ranges)" and "ranges \<noteq> []"
    and dir: "list_all (\<lambda>r. tr_begin r \<le> tr_end r) ranges"
  shows "\<exists>i track offset. findTrackSectionOffset p (getTrackLengthCumulativeSums ranges) ranges = Inr (track, offset) \<and>
    i < length ranges \<and> track = tr_track_section (ranges ! i) \<and>
    tr_begin (ranges ! i) \<le> offset \<and> offset \<le> tr_end (ranges ! i) \<and>
    p = sum_list (map range_length (take i ranges)) +
        (if tr_direction (ranges ! i) = START_TO_STOP then offset - tr_begin (ranges ! i)
         else tr_end (ranges ! i) - offset)"
proof -
  let ?cumSums = "getTrackLengthCumulativeSums ranges"
  let ?S = "\<lambda>k. sum_list (map range_length (take k ranges))"
  have len: "length ?cumSums = length ranges" by (simp add: getTrackLengthCumulativeSums_def cumulative_length)
  have "?cumSums ! (length ranges - 1) = sum_list (map range_length ranges)"
    using cumulative_sums [of "length ranges - 1" ranges] assms(3) by simp
  then have "p \<le> ?cumSums ! (length ranges - 1)" using assms(2) by simp
  moreover have "?cumSums ! (length ranges - 1) \<in> set ?cumSums" using assms(3) len by (intro nth_mem) simp
  ultimately obtain i where i: "find_index (\<lambda>c. p \<le> c) ?cumSums = int i" "i < length ?cumSums" "p \<le> ?cumSums ! i"
    "\<forall>j<i. \<not> p \<le> ?cumSums ! j"
    by (cases rule: find_index_cases [of "\<lambda>c. p \<le> c" ?cumSums]) auto
  have il: "i < length ranges" using i len by simp
  define lo where "lo = (if i = 0 then 0 else ?cumSums ! (i - 1))"
  have lo: "lo = ?S i"
    using cumulative_sums [of "i - 1" ranges] il by (cases i) (simp_all add: lo_def)
  have low: "lo \<le> p" using assms(1) i(4) by (cases i) (auto simp: lo_def not_le)
  have "?cumSums ! i = lo + range_length (ranges ! i)"
    unfolding lo cumulative_sums [OF il] using il by (simp add: take_Suc_conv_app_nth)
  moreover have "range_length (ranges ! i) = tr_end (ranges ! i) - tr_begin (ranges ! i)"
    using dir il by (simp add: list_all_length)
  ultimately have high: "p - lo \<le> tr_end (ranges ! i) - tr_begin (ranges ! i)" using i(3) by simp
  have prev: "?cumSums ! nat (int i - 1) = lo" if "0 < i" using that by (simp add: lo_def nat_diff_distrib')
  have "findTrackSectionOffset p ?cumSums ranges =
      Inr (tr_track_section (ranges ! i),
           if tr_direction (ranges ! i) = START_TO_STOP then tr_begin (ranges ! i) + (p - lo)
           else tr_end (ranges ! i) - (p - lo))"
    using i(1) il prev by (cases "i = 0") (simp_all add: findTrackSectionOffset_def Let_def lo_def)
  with il low high show ?thesis unfolding lo by (intro exI [of _ i]) auto
qed

definition ex_ranges_on_path :: "track_range list" where
  "ex_ranges_on_path =
     [\<lparr>tr_track_section = ''A'', tr_begin = 100, tr_end = 400, tr_direction = START_TO_STOP\<rparr>,
      \<lparr>tr_track_section = ''B'', tr_begin = 0, tr_end = 200, tr_direction = STOP_TO_START\<rparr>]"

section \<open>Margins of a reversed path\<close>

text \<open>The margin that applies between each step and the next one: the last one given so far.\<close>

definition effective :: "string option \<Rightarrow> string option \<Rightarrow> string option" where
  "effective m x = (if truthy x then x else m)"

fun scan_margins :: "string option \<Rightarrow> string option list \<Rightarrow> string option list" where
  "scan_margins m [] = []"
| "scan_margins m (x # xs) = effective m x # scan_margins (effective m x) xs"

definition zone_margins :: "path_step list \<Rightarrow> string option list" where
  "zone_margins steps = scan_margins None (map ps_theoreticalMargin (butlast steps))"

lemma scan_append:
  "scan_margins m (xs @ [x]) = scan_margins m xs @ [effective (last (m # scan_margins m xs)) x]"
  by (induction xs arbitrary: m) auto

lemma reverse_margins_length [simp]: "length (reverse_margins m steps) = length steps"
  by (induction m steps rule: reverse_margins.induct) auto

lemma reverse_margins_scan:
  "xs \<noteq> [] \<Longrightarrow> truthy q \<Longrightarrow>
   scan_margins None (rev (reverse_margins q xs)) = rev (q # scan_margins q (map ps_theoreticalMargin (butlast xs)))"
proof (induction xs arbitrary: q)
  case (Cons y zs)
  show ?case
  proof (cases "zs = []")
    case True
    with Cons.prems show ?thesis by (simp add: effective_def)
  next
    case False
    define q' where "q' = effective q (ps_theoreticalMargin y)"
    have q': "truthy q'" using Cons.prems by (simp add: q'_def effective_def)
    have rm: "reverse_margins q (y # zs) =
        (if truthy (ps_theoreticalMargin y) then q else None) # reverse_margins q' zs"
      using False by (simp add: q'_def effective_def)
    have IH: "scan_margins None (rev (reverse_margins q' zs)) =
        rev (q' # scan_margins q' (map ps_theoreticalMargin (butlast zs)))"
      by (rule Cons.IH [OF False q'])
    have "effective q' (if truthy (ps_theoreticalMargin y) then q else None) = q"
      using Cons.prems by (simp add: q'_def effective_def truthy_def)
    moreover have "last (None # rev (q' # scan_margins q' (map ps_theoreticalMargin (butlast zs)))) = q'" by simp
    ultimately have "scan_margins None (rev (reverse_margins q (y # zs))) =
        rev (q' # scan_margins q' (map ps_theoreticalMargin (butlast zs))) @ [q]"
      unfolding rm rev.simps(2) scan_append IH by (simp only:)
    then show ?thesis using False by (simp flip: q'_def del: reverse_margins.simps)
  qed
qed simp

lemma reverse_step_margin [simp]: "ps_theoreticalMargin (reverse_step b s m) = m"
  by (simp add: reverse_step_def Let_def)

lemma reversed_margins: "map ps_theoreticalMargin (reversePathSteps steps) = rev (reverse_margins None steps)"
proof -
  have "map (\<lambda>(i, s, m). m) (zip [0..<length steps] (zip steps (reverse_margins None steps))) = reverse_margins None steps"
    by (rule nth_equalityI) auto
  moreover have "map ps_theoreticalMargin (map (\<lambda>(i, s, m). reverse_step (i = length steps - 1) s m) xs) =
      map (\<lambda>(i, s, m). m) xs" for xs
    by (induction xs) auto
  ultimately show ?thesis unfolding reversePathSteps_def rev_map [symmetric] by (simp only:)
qed

text \<open>Reversing a path keeps the margin of every part of it: the margins that apply between consecutive
  steps of the reversed path are those of the path, in the reverse order, when the origin has a margin.\<close>

lemma reversePathSteps_margins:
  assumes "2 \<le> length steps" and "truthy (ps_theoreticalMargin (hd steps))"
  shows "zone_margins (reversePathSteps steps) = rev (zone_margins steps)"
proof -
  obtain x xs where steps: "steps = x # xs" using assms(1) by (cases steps) auto
  then have xs: "xs \<noteq> []" using assms(1) by auto
  define q where "q = ps_theoreticalMargin x"
  have q: "truthy q" using assms(2) by (simp add: steps q_def)
  have "map ps_theoreticalMargin (butlast (reversePathSteps steps)) = butlast (rev (reverse_margins None steps))"
    by (simp only: map_butlast reversed_margins)
  also have "\<dots> = rev (reverse_margins q xs)" using q xs by (simp add: steps q_def butlast_append)
  finally have "zone_margins (reversePathSteps steps) = scan_margins None (rev (reverse_margins q xs))"
    by (simp only: zone_margins_def)
  also have "\<dots> = rev (q # scan_margins q (map ps_theoreticalMargin (butlast xs)))"
    by (rule reverse_margins_scan [OF xs q])
  finally show ?thesis using q xs by (simp add: steps zone_margins_def effective_def flip: q_def)
qed

definition ex_margin_step :: "string \<Rightarrow> string option \<Rightarrow> path_step" where
  "ex_margin_step i m = (empty_step i (TrackOffset ''T'' 0 None))\<lparr>ps_theoreticalMargin := m\<rparr>"

section \<open>Voltages cover the path\<close>

fun contiguous :: "num \<Rightarrow> ranged_value list \<Rightarrow> num \<Rightarrow> bool" where
  "contiguous a [] b = (a = b)"
| "contiguous a (r # rs) b = (rv_begin r = a \<and> contiguous (rv_end r) rs b)"

lemma contiguous_append: "contiguous a (xs @ ys) c \<longleftrightarrow> (\<exists>b. contiguous a xs b \<and> contiguous b ys c)"
  by (induction xs arbitrary: a) auto

lemma contiguous_push: "contiguous a (vs_ranges st) (vs_start st) \<Longrightarrow> contiguous a (vs_ranges (push_range st e)) e"
  by (auto simp: push_range_def contiguous_append)

definition voltage_inv :: "voltage_state \<Rightarrow> bool" where
  "voltage_inv st \<longleftrightarrow> contiguous 0 (vs_ranges st) (vs_start st)"

lemma voltage_step_inv:
  assumes "voltage_inv st" and "0 < index \<or> st = \<lparr>vs_ranges = [], vs_start = 0, vs_voltage = []\<rparr>" and "0 \<le> index"
  shows "voltage_inv (voltage_step bs vals index st)"
proof -
  have pushed: "voltage_inv ((push_range st e)\<lparr>vs_start := e\<rparr>)" for e
    using contiguous_push [OF assms(1) [unfolded voltage_inv_def]] by (simp add: voltage_inv_def)
  have volt: "voltage_inv (t\<lparr>vs_voltage := v\<rparr>) = voltage_inv t" for t v
    by (simp add: voltage_inv_def)
  show ?thesis
  proof (cases "vals ! nat index")
    case (Electrification v)
    have "voltage_inv ((if index > 0 then push_range st (boundary bs (index - 1)) else st)
        \<lparr>vs_start := boundary bs (index - 1)\<rparr>)"
      using assms pushed by (auto simp: voltage_inv_def boundary_def js_at_def split: option.split)
    with Electrification assms(1) pushed volt show ?thesis by (simp add: voltage_step_def)
  qed (use assms(1) pushed volt in \<open>auto simp: voltage_step_def Let_def voltage_inv_def\<close>)
qed

text \<open>The ranges of voltages of a path cover it: the first one begins at 0, each one begins where the
  previous one ends, and the last one ends at the end of the path.\<close>

lemma getPathVoltages_contiguous:
  assumes "vals \<noteq> []" and "len \<noteq> 0"
  shows "contiguous 0 (getPathVoltages (Some (bounds, vals)) (Some len)) len"
proof -
  define bs where "bs = bounds @ [len]"
  let ?init = "\<lparr>vs_ranges = [], vs_start = 0, vs_voltage = []\<rparr>"
  let ?f = "\<lambda>st index. voltage_step bs vals (int index) st"
  have inv: "voltage_inv (foldl ?f ?init [0..<n])" for n
  proof (induction n)
    case (Suc n)
    have "0 < int n \<or> foldl ?f ?init [0..<n] = ?init" by (cases n) auto
    then show ?case using voltage_step_inv [OF Suc] by simp
  qed (simp add: voltage_inv_def)
  then show ?thesis
    using assms contiguous_push [of 0 "foldl ?f ?init [0..<length vals]" len]
    by (simp add: getPathVoltages_def Let_def bs_def voltage_inv_def)
qed

text \<open>Where the voltage changes without a neutral section, the previous voltage is kept for the range of
  the new one, which is left empty.\<close>

lemma voltage_change_misplaced:
  "getPathVoltages (Some ([10], [Electrification ''1500V'', Electrification ''25kV''])) (Some 30) =
     [\<lparr>rv_begin = 0, rv_end = 30, rv_value = ''1500V''\<rparr>, \<lparr>rv_begin = 30, rv_end = 30, rv_value = ''25kV''\<rparr>]"
  by code_simp

end
