(* ===== verification/PowerRanges.thy ===== *)
theory PowerRanges
  imports PathTracks
begin

text \<open>
  The intervals shown by the power restriction selector:
  \<open>front/src/applications/operationalStudies/views/Scenario/components/ManageTimetableItem/PowerRestrictionsSelector/helpers\<close>
  (\<open>formatPowerRestrictions.ts\<close>, \<open>getRestrictionsToResize.ts\<close>, \<open>createPathStep.ts\<close>, \<open>utils.ts\<close>). Positions of the
  intervals are in metres, positions of the path steps in millimetres. Functions that push on an array
  given as argument return the new array.
\<close>

record interval_item =
  iv_begin :: num
  iv_end :: num
  iv_value :: string

abbreviation empty_range :: "num \<Rightarrow> num \<Rightarrow> interval_item" where
  "empty_range b e \<equiv> \<lparr>iv_begin = b, iv_end = e, iv_value = NO_POWER_RESTRICTION\<rparr>"

section \<open>formatPowerRestrictions.ts\<close>

definition addEmptyRangesUsingElectrificationChangePoints ::
  "interval_item list \<Rightarrow> num \<Rightarrow> num \<Rightarrow> num list \<Rightarrow> interval_item list" where
  "addEmptyRangesUsingElectrificationChangePoints ranges from to changePoints =
     (let relevant = filter (\<lambda>cp. from < cp \<and> cp < to) changePoints in
      if relevant = [] then ranges @ [empty_range from to]
      else
        let n = length relevant;
            ranges' = ranges @ [empty_range from (relevant ! 0)] @
              map (\<lambda>idx. empty_range (relevant ! idx) (if idx = n - 1 then to else relevant ! (idx + 1))) [0..<n];
            lastEnd = iv_end (last ranges')
        in if lastEnd < to then ranges' @ [empty_range lastEnd to] else ranges')"

text \<open>The loop over the custom ranges, with the end of the previous range.\<close>

definition fill_custom ::
  "num list \<Rightarrow> interval_item \<Rightarrow> interval_item list \<times> num \<Rightarrow> interval_item list \<times> num" where
  "fill_custom changePoints customRange = (\<lambda>(ranges, prevEnd).
     ((if prevEnd < iv_begin customRange
       then addEmptyRangesUsingElectrificationChangePoints ranges prevEnd (iv_begin customRange) changePoints
       else ranges) @ [customRange], iv_end customRange))"

definition fillWithNoPowerRestrictions ::
  "interval_item list \<Rightarrow> interval_item list \<Rightarrow> num list \<Rightarrow> num \<Rightarrow> num \<Rightarrow> interval_item list" where
  "fillWithNoPowerRestrictions ranges customRanges changePoints initialPrevEnd nextBegin =
     (let relevantCustom = filter (\<lambda>r. initialPrevEnd \<le> iv_begin r \<and> iv_end r \<le> nextBegin) customRanges in
      if relevantCustom = []
      then addEmptyRangesUsingElectrificationChangePoints ranges initialPrevEnd nextBegin changePoints
      else
        let relevantChangePoints = filter (\<lambda>cp. initialPrevEnd < cp \<and> cp < nextBegin) changePoints;
            (ranges', prevEnd) = fold (fill_custom relevantChangePoints) relevantCustom (ranges, initialPrevEnd)
        in if prevEnd < nextBegin
           then addEmptyRangesUsingElectrificationChangePoints ranges' prevEnd nextBegin relevantChangePoints
           else ranges')"

definition last_end :: "interval_item list \<Rightarrow> num" where
  "last_end acc = (if acc = [] then 0 else iv_end (last acc))"

definition locate_error :: "string \<Rightarrow> js_error" where
  "locate_error i =
     JSError (''Impossible to locate the path step '' @ i @ '' while formatting the power restrictions'')"

text \<open>\<open>keyBy(pathSteps, 'id')[i]\<close>: the last step with the identifier.\<close>

definition step_by_id :: "path_step list \<Rightarrow> string \<Rightarrow> path_step option" where
  "step_by_id steps i = find (\<lambda>s. ps_id s = i) (rev steps)"

definition restriction_positions :: "path_step list \<Rightarrow> power_restriction \<Rightarrow> (num \<times> num) result" where
  "restriction_positions pathSteps r =
     (case step_by_id pathSteps (pr_from r) of
        None \<Rightarrow> Inl (locate_error (pr_from r))
      | Some fromStep \<Rightarrow>
          (case step_by_id pathSteps (pr_to r) of
             None \<Rightarrow> Inl (locate_error (pr_to r))
           | Some toStep \<Rightarrow>
               (case (ps_positionOnPath fromStep, ps_positionOnPath toStep) of
                  (Some f, Some t) \<Rightarrow> Inr (mmToM (of_int f), mmToM (of_int t))
                | _ \<Rightarrow> Inl (JSError ''Impossible to locate a path step while formatting the power restrictions''))))"

definition add_restriction ::
  "interval_item list \<Rightarrow> num list \<Rightarrow> num \<times> num \<Rightarrow> string \<Rightarrow> interval_item list \<Rightarrow> interval_item list" where
  "add_restriction customRanges changePoints pos code acc =
     (let (from, to) = pos; prevEnd = last_end acc in
      (if prevEnd < from then fillWithNoPowerRestrictions acc customRanges changePoints prevEnd from else acc) @
      [\<lparr>iv_begin = from, iv_end = to, iv_value = code\<rparr>])"

fun format_from ::
  "path_step list \<Rightarrow> interval_item list \<Rightarrow> num list \<Rightarrow> interval_item list \<Rightarrow> power_restriction list \<Rightarrow>
   interval_item list result" where
  "format_from pathSteps customRanges changePoints acc [] = Inr acc"
| "format_from pathSteps customRanges changePoints acc (r # rs) =
     bind_result (restriction_positions pathSteps r)
       (\<lambda>pos. format_from pathSteps customRanges changePoints
                (add_restriction customRanges changePoints pos (pr_value r) acc) rs)"

definition formatPowerRestrictions ::
  "power_restriction list \<Rightarrow> path_step list \<Rightarrow> interval_item list \<Rightarrow> num list \<Rightarrow> num \<Rightarrow> interval_item list result" where
  "formatPowerRestrictions powerRestrictionRanges pathSteps customRanges changePoints pathLength =
     (let electrificationChangePoints = sort changePoints in
      bind_result (format_from pathSteps customRanges electrificationChangePoints [] powerRestrictionRanges)
        (\<lambda>results.
           let lastEnd = last_end results in
           Inr (if results = [] \<or> lastEnd < pathLength
                then fillWithNoPowerRestrictions results customRanges electrificationChangePoints lastEnd pathLength
                else results)))"

section \<open>utils.ts and getRestrictionsToResize.ts\<close>

definition getPathStep :: "path_step list \<Rightarrow> num \<Rightarrow> path_step option" where
  "getPathStep pathSteps positionInM =
     find (\<lambda>step. map_option of_int (ps_positionOnPath step) = Some (mToMm positionInM)) pathSteps"

definition getPowerRestrictionFromRange ::
  "path_step list \<Rightarrow> power_restriction list \<Rightarrow> interval_item option \<Rightarrow> power_restriction option" where
  "getPowerRestrictionFromRange pathSteps powerRestrictionRanges rangeData =
     (case rangeData of
        None \<Rightarrow> None
      | Some r \<Rightarrow>
          (case (getPathStep pathSteps (iv_begin r), getPathStep pathSteps (iv_end r)) of
             (Some f, Some t) \<Rightarrow> find (\<lambda>pr. pr_from pr = ps_id f \<and> pr_to pr = ps_id t) powerRestrictionRanges
           | _ \<Rightarrow> None))"

definition getRestrictionsToResize ::
  "interval_item option \<Rightarrow> interval_item option \<Rightarrow> path_step list \<Rightarrow> power_restriction list \<Rightarrow>
   power_restriction option \<times> power_restriction option" where
  "getRestrictionsToResize firstRange secondRange pathSteps powerRestrictionRanges =
     (getPowerRestrictionFromRange pathSteps powerRestrictionRanges firstRange,
      getPowerRestrictionFromRange pathSteps powerRestrictionRanges secondRange)"

definition resize_custom ::
  "interval_item \<Rightarrow> interval_item \<Rightarrow> num \<Rightarrow> interval_item \<Rightarrow> interval_item list" where
  "resize_custom firstRange secondRange newPosition r =
     (if r = firstRange then [r\<lparr>iv_end := newPosition\<rparr>]
      else if r = secondRange then [r\<lparr>iv_begin := newPosition\<rparr>]
      else if iv_end secondRange \<le> iv_begin r \<and> iv_end r \<le> iv_begin firstRange then [r]
      else [])"

definition cleanCustomRanges ::
  "interval_item list \<Rightarrow> interval_item option \<Rightarrow> interval_item option \<Rightarrow> num \<Rightarrow> num \<Rightarrow> interval_item list" where
  "cleanCustomRanges customRanges firstRange secondRange newPosition pathLength =
     (case (firstRange, secondRange) of
        (Some f, Some s) \<Rightarrow>
          let newCustomRanges = concat (map (resize_custom f s newPosition) customRanges) in
          if iv_value f \<noteq> NO_POWER_RESTRICTION \<or> iv_value s \<noteq> NO_POWER_RESTRICTION then newCustomRanges
          else
            sort_key iv_begin
              (newCustomRanges @
               (if f \<notin> set customRanges then [empty_range (iv_begin f) newPosition] else []) @
               (if s \<notin> set customRanges then [empty_range newPosition (iv_end s)] else []))
      | _ \<Rightarrow>
          if customRanges = [] then [empty_range 0 newPosition, empty_range newPosition pathLength]
          else if map_option iv_end firstRange = Some pathLength
          then customRanges @ [empty_range newPosition pathLength]
          else [empty_range 0 newPosition] @ customRanges)"

datatype resize_context = ResizeBegin | ResizeEnd

definition getRangesToResize ::
  "interval_item list \<Rightarrow> nat \<Rightarrow> num \<Rightarrow> resize_context \<Rightarrow> (interval_item option \<times> interval_item option) result" where
  "getRangesToResize ranges selectedRangeIndex newPosition ctx =
     (if selectedRangeIndex \<ge> length ranges then Inl TypeError
      else
        let selected = ranges ! selectedRangeIndex;
            shortened = (iv_begin selected \<le> newPosition \<and> newPosition \<le> iv_end selected);
            there = find (\<lambda>r. iv_begin r \<le> newPosition \<and> newPosition \<le> iv_end r) ranges
        in Inr
          (case ctx of
             ResizeBegin \<Rightarrow>
               (if shortened then (if selectedRangeIndex \<noteq> 0 then Some (ranges ! (selectedRangeIndex - 1)) else None)
                else there, Some selected)
           | ResizeEnd \<Rightarrow>
               (Some selected,
                if shortened then
                  (if selectedRangeIndex \<noteq> length ranges - 1 then Some (ranges ! (selectedRangeIndex + 1)) else None)
                else there)))"

section \<open>createPathStep.ts\<close>

definition cut_error :: js_error where
  "cut_error = JSError ''Invalid cut position: can not properly insert the new range''"

definition cutRange :: "interval_item list \<Rightarrow> interval_item list \<Rightarrow> num \<Rightarrow> num \<Rightarrow> interval_item list result" where
  "cutRange allRanges customRanges pathLength newCutPosition =
     (if newCutPosition \<ge> pathLength then Inl cut_error
      else case allRanges of
        [r] \<Rightarrow>
          Inr [\<lparr>iv_begin = 0, iv_end = newCutPosition, iv_value = iv_value r\<rparr>,
               \<lparr>iv_begin = newCutPosition, iv_end = pathLength, iv_value = iv_value r\<rparr>]
      | _ \<Rightarrow>
          (case find (\<lambda>r. iv_begin r < newCutPosition \<and> newCutPosition < iv_end r) allRanges of
             None \<Rightarrow> Inl cut_error
           | Some a \<Rightarrow>
               Inr (sort_key iv_begin
                 (filter (\<lambda>r. iv_begin r \<noteq> iv_begin a \<or> iv_end r \<noteq> iv_end a) customRanges @
                  [empty_range (iv_begin a) newCutPosition, empty_range newCutPosition (iv_end a)]))))"

text \<open>The path: the ranges of its tracks and the geometry of the tracks. The position is given in whole
  millimetres, as \<open>mToMm\<close> gives it from the argument in metres; the identifier of a new step is an argument.\<close>

definition createPathStep ::
  "string \<Rightarrow> (string \<Rightarrow> (int \<Rightarrow> num \<times> num) option) \<Rightarrow> track_range list \<Rightarrow> int list \<Rightarrow> int \<Rightarrow> path_step list \<Rightarrow>
   path_step result" where
  "createPathStep uuid pointOnTrack trackRanges cumSums positionOnPath pathSteps =
     (if positionOnPath = 0 \<or> Some positionOnPath \<in> set (map ps_positionOnPath pathSteps)
      then Inl (JSError ''Invalid position on path: a path step already exists at this position'')
      else
        bind_result (findTrackSectionOffset positionOnPath cumSums trackRanges) (\<lambda>(track, offset).
        bind_result (getPointOnPathCoordinates pointOnTrack trackRanges cumSums offset) (\<lambda>coordinates.
          Inr ((empty_step uuid (TrackOffset track offset None))
                 \<lparr>ps_positionOnPath := Some positionOnPath, ps_coordinates := Some coordinates,
                  ps_isFromPowerRestriction := True\<rparr>))))"

text \<open>\<open>createCutAtPathStep\<close> either sets the custom ranges of the component (left) or makes a step (right).\<close>

definition createCutAtPathStep ::
  "string \<Rightarrow> (string \<Rightarrow> (int \<Rightarrow> num \<times> num) option) \<Rightarrow> track_range list \<Rightarrow> int list \<Rightarrow> num \<Rightarrow> int \<Rightarrow>
   interval_item list \<Rightarrow> interval_item list \<Rightarrow> (interval_item list + path_step) result" where
  "createCutAtPathStep uuid pointOnTrack trackRanges cumSums pathLength cutAtPosition rangesData customRanges =
     (let cutAtPositionInM = mmToM (of_int cutAtPosition);
          intervalCut = find (\<lambda>i. iv_begin i \<le> cutAtPositionInM \<and> iv_end i \<ge> cutAtPositionInM) rangesData
      in if intervalCut = None \<or> map_option iv_value intervalCut = Some NO_POWER_RESTRICTION
         then bind_result (cutRange rangesData customRanges (mmToM pathLength) cutAtPositionInM) (\<lambda>c. Inr (Inl c))
         else
           bind_result (findTrackSectionOffset cutAtPosition cumSums trackRanges) (\<lambda>(track, offset).
           bind_result (getPointOnPathCoordinates pointOnTrack trackRanges cumSums cutAtPosition) (\<lambda>coordinates.
             Inr (Inr ((empty_step uuid (TrackOffset track offset None))
                   \<lparr>ps_positionOnPath := Some cutAtPosition, ps_coordinates := Some coordinates,
                    ps_isFromPowerRestriction := True\<rparr>)))))"

definition getOrCreatePathStepAtPosition ::
  "string \<Rightarrow> (string \<Rightarrow> (int \<Rightarrow> num \<times> num) option) \<Rightarrow> track_range list \<Rightarrow> int list \<Rightarrow> int \<Rightarrow> path_step list \<Rightarrow>
   path_step result" where
  "getOrCreatePathStepAtPosition uuid pointOnTrack trackRanges cumSums positionOnPath pathSteps =
     (case getPathStep pathSteps (mmToM (of_int positionOnPath)) of
        Some s \<Rightarrow> Inr s
      | None \<Rightarrow> createPathStep uuid pointOnTrack trackRanges cumSums positionOnPath pathSteps)"

definition extractPathStepsFromRange ::
  "string \<Rightarrow> string \<Rightarrow> (string \<Rightarrow> (int \<Rightarrow> num \<times> num) option) \<Rightarrow> track_range list \<Rightarrow> int list \<Rightarrow> int \<times> int \<Rightarrow>
   path_step list \<Rightarrow> (path_step \<times> path_step) result" where
  "extractPathStepsFromRange u1 u2 pointOnTrack trackRanges cumSums range_mm pathSteps =
     bind_result (getOrCreatePathStepAtPosition u1 pointOnTrack trackRanges cumSums (fst range_mm) pathSteps) (\<lambda>from.
     bind_result (getOrCreatePathStepAtPosition u2 pointOnTrack trackRanges cumSums (snd range_mm) pathSteps) (\<lambda>to.
       Inr (from, to)))"

section \<open>The intervals cover the path\<close>

fun covers :: "num \<Rightarrow> interval_item list \<Rightarrow> num \<Rightarrow> bool" where
  "covers a [] b = (a = b)"
| "covers a (r # rs) b = (iv_begin r = a \<and> a < iv_end r \<and> covers (iv_end r) rs b)"

lemma covers_append: "covers a (xs @ ys) c \<longleftrightarrow> (\<exists>b. covers a xs b \<and> covers b ys c)"
  by (induction xs arbitrary: a) auto

lemma covers_last: "covers a xs b \<Longrightarrow> xs \<noteq> [] \<Longrightarrow> iv_end (last xs) = b"
  by (induction xs arbitrary: a) (auto split: if_splits)

fun chain :: "num \<Rightarrow> num list \<Rightarrow> num \<Rightarrow> interval_item list" where
  "chain a [] b = [empty_range a b]"
| "chain a (c # cs) b = empty_range a c # chain c cs b"

lemma chain_length [simp]: "length (chain a cs b) = Suc (length cs)"
  by (induction cs arbitrary: a) auto

lemma chain_not_Nil [simp]: "chain a cs b \<noteq> []"
  by (cases cs) auto

lemma chain_nth:
  "i \<le> length cs \<Longrightarrow>
   chain a cs b ! i = empty_range (if i = 0 then a else cs ! (i - 1)) (if i = length cs then b else cs ! i)"
  by (induction cs arbitrary: a i) (auto simp: nth_Cons' less_Suc_eq_0_disj)

lemma chain_covers: "sorted_wrt (<) (a # cs @ [b]) \<Longrightarrow> covers a (chain a cs b) b"
  by (induction cs arbitrary: a) auto

lemma chain_last: "iv_end (last (chain a cs b)) = b"
  by (induction cs arbitrary: a) auto

lemma add_empty_chain:
  "addEmptyRangesUsingElectrificationChangePoints ranges from to cps =
     ranges @ chain from (filter (\<lambda>cp. from < cp \<and> cp < to) cps) to"
proof -
  define rel where "rel = filter (\<lambda>cp. from < cp \<and> cp < to) cps"
  show ?thesis
  proof (cases "rel = []")
    case True
    then show ?thesis by (simp add: addEmptyRangesUsingElectrificationChangePoints_def flip: rel_def)
  next
    case False
    let ?m = "map (\<lambda>idx. empty_range (rel ! idx) (if idx = length rel - 1 then to else rel ! (idx + 1))) [0..<length rel]"
    have ch: "empty_range from (rel ! 0) # ?m = chain from rel to"
    proof (rule nth_equalityI)
      fix i
      assume "i < length (empty_range from (rel ! 0) # ?m)"
      then have "i \<le> length rel" by simp
      with False show "(empty_range from (rel ! 0) # ?m) ! i = chain from rel to ! i"
        by (cases i) (auto simp: chain_nth)
    qed simp
    then have app: "ranges @ [empty_range from (rel ! 0)] @ ?m = ranges @ chain from rel to" by simp
    have "iv_end (last (ranges @ chain from rel to)) = to"
      using chain_last [of "from" rel to] by (simp add: last_append)
    with False show ?thesis
      unfolding addEmptyRangesUsingElectrificationChangePoints_def Let_def rel_def [symmetric] app by simp
  qed
qed

lemma add_empty_covers:
  assumes "covers 0 ranges from" and "from < to" and "sorted_wrt (<) cps"
  shows "covers 0 (addEmptyRangesUsingElectrificationChangePoints ranges from to cps) to"
proof -
  have "sorted_wrt (<) (filter (\<lambda>cp. from < cp \<and> cp < to) cps)" using assms(3) by (rule sorted_wrt_filter)
  then have "sorted_wrt (<) (from # filter (\<lambda>cp. from < cp \<and> cp < to) cps @ [to])"
    using assms(2) by (auto simp: sorted_wrt_append)
  from chain_covers [OF this] assms(1) show ?thesis by (auto simp: add_empty_chain covers_append)
qed

text \<open>The custom ranges are disjoint and ordered.\<close>

abbreviation custom_ok :: "interval_item list \<Rightarrow> bool" where
  "custom_ok rs \<equiv> list_all (\<lambda>r. iv_begin r < iv_end r) rs \<and> sorted_wrt (\<lambda>r s. iv_end r \<le> iv_begin s) rs"

lemma fill_custom_covers:
  assumes "covers 0 ranges prev" and "custom_ok customs" and "sorted_wrt (<) cps"
    and "list_all (\<lambda>r. prev \<le> iv_begin r \<and> iv_end r \<le> nxt) customs" and "prev \<le> nxt"
  shows "covers 0 (fst (fold (fill_custom cps) customs (ranges, prev))) (snd (fold (fill_custom cps) customs (ranges, prev)))
    \<and> snd (fold (fill_custom cps) customs (ranges, prev)) \<le> nxt"
  using assms
proof (induction customs arbitrary: ranges prev)
  case (Cons c customs)
  define filled where "filled = (if prev < iv_begin c
    then addEmptyRangesUsingElectrificationChangePoints ranges prev (iv_begin c) cps else ranges)"
  have "covers 0 filled (iv_begin c)"
    using Cons.prems add_empty_covers [of ranges prev "iv_begin c" cps] by (auto simp: filled_def)
  then have new: "covers 0 (filled @ [c]) (iv_end c)" using Cons.prems(2) by (simp add: covers_append)
  have step: "fold (fill_custom cps) (c # customs) (ranges, prev) = fold (fill_custom cps) customs (filled @ [c], iv_end c)"
    by (simp add: fill_custom_def filled_def)
  show ?case unfolding step
    by (rule Cons.IH [OF new]) (use Cons.prems in \<open>auto simp: list_all_iff\<close>)
qed simp

lemma fill_covers:
  assumes "covers 0 ranges prev" and "custom_ok customs" and "sorted_wrt (<) cps" and "prev < nxt"
  shows "covers 0 (fillWithNoPowerRestrictions ranges customs cps prev nxt) nxt"
proof -
  define rc where "rc = filter (\<lambda>r. prev \<le> iv_begin r \<and> iv_end r \<le> nxt) customs"
  define rp where "rp = filter (\<lambda>cp. prev < cp \<and> cp < nxt) cps"
  have rp: "sorted_wrt (<) rp" unfolding rp_def using assms(3) by (rule sorted_wrt_filter)
  have ok: "custom_ok rc" using assms(2) unfolding rc_def by (auto simp: list_all_iff intro: sorted_wrt_filter)
  have inside: "list_all (\<lambda>r. prev \<le> iv_begin r \<and> iv_end r \<le> nxt) rc" by (simp add: rc_def list_all_iff)
  obtain ranges' e where f: "fold (fill_custom rp) rc (ranges, prev) = (ranges', e)" by fastforce
  have "covers 0 ranges' e" "e \<le> nxt"
    using fill_custom_covers [OF assms(1) ok rp inside] assms(4) f by auto
  then show ?thesis
    using assms f add_empty_covers [of ranges' e nxt rp] add_empty_covers [of ranges prev nxt cps] rp
    by (auto simp: fillWithNoPowerRestrictions_def Let_def simp flip: rc_def rp_def)
qed

text \<open>The positions of the restrictions are increasing from a given point.\<close>

fun increasing :: "num \<Rightarrow> (num \<times> num) list \<Rightarrow> num \<Rightarrow> bool" where
  "increasing a [] b = (a \<le> b)"
| "increasing a ((f, t) # ps) b = (a \<le> f \<and> f < t \<and> increasing t ps b)"

lemma format_from_covers:
  assumes "covers 0 acc (last_end acc)" and "custom_ok customs" and "sorted_wrt (<) cps"
    and "map_result (restriction_positions steps) rs = Inr ps" and "increasing (last_end acc) ps b"
  shows "\<exists>res. format_from steps customs cps acc rs = Inr res \<and> covers 0 res (last_end res) \<and> last_end res \<le> b"
  using assms
proof (induction rs arbitrary: acc ps)
  case (Cons r rs)
  from Cons.prems(4) obtain f t ps' where r: "restriction_positions steps r = Inr (f, t)" "ps = (f, t) # ps'"
    "map_result (restriction_positions steps) rs = Inr ps'" by auto
  define acc' where "acc' = add_restriction customs cps (f, t) (pr_value r) acc"
  have inc: "last_end acc \<le> f" "f < t" "increasing t ps' b" using Cons.prems(5) r by auto
  have "covers 0 (if last_end acc < f then fillWithNoPowerRestrictions acc customs cps (last_end acc) f else acc) f"
    using fill_covers [OF Cons.prems(1-3)] Cons.prems(1) inc by auto
  then have "covers 0 acc' t" using inc by (simp add: acc'_def add_restriction_def Let_def covers_append)
  moreover have end': "last_end acc' = t" by (simp add: acc'_def add_restriction_def last_end_def Let_def)
  ultimately have "\<exists>res. format_from steps customs cps acc' rs = Inr res \<and> covers 0 res (last_end res) \<and> last_end res \<le> b"
    using Cons.IH [of acc' ps'] Cons.prems(2,3) r(3) inc by simp
  with r(1) show ?case by (simp add: acc'_def)
qed auto

text \<open>The intervals shown for the power restrictions cover the whole path without gap or overlap, when
  the restrictions lie one after the other on the path, the custom ranges are disjoint and ordered and
  no change point is repeated; nothing is thrown then.\<close>

lemma formatPowerRestrictions_covers:
  assumes "map_result (restriction_positions steps) rs = Inr ps" and "increasing 0 ps pathLength"
    and "custom_ok customs" and "distinct changePoints" and "0 < pathLength"
  shows "\<exists>res. formatPowerRestrictions rs steps customs changePoints pathLength = Inr res \<and> covers 0 res pathLength"
proof -
  let ?cps = "sort changePoints"
  have cps: "sorted_wrt (<) ?cps" using assms(4) by (simp add: strict_sorted_iff)
  obtain res where res: "format_from steps customs ?cps [] rs = Inr res" "covers 0 res (last_end res)"
    "last_end res \<le> pathLength"
    using format_from_covers [of "[]" customs ?cps steps rs ps pathLength] assms cps by (auto simp: last_end_def)
  show ?thesis
  proof (cases "res = [] \<or> last_end res < pathLength")
    case True
    then have "last_end res < pathLength" using assms(5) by (auto simp: last_end_def)
    with res True fill_covers [OF res(2) assms(3) cps] show ?thesis
      by (simp add: formatPowerRestrictions_def Let_def)
  next
    case False
    with res show ?thesis by (simp add: formatPowerRestrictions_def Let_def)
  qed
qed

definition ex_pr_steps :: "path_step list" where
  "ex_pr_steps =
     [(empty_step ''a'' (TrackOffset ''T'' 0 None))\<lparr>ps_positionOnPath := Some 2000\<rparr>,
      (empty_step ''b'' (TrackOffset ''T'' 0 None))\<lparr>ps_positionOnPath := Some 5000\<rparr>]"

text \<open>When an inner range is resized, every other custom range is dropped, also those that do not meet the
  resized ones.\<close>

lemma cleanCustomRanges_drops_others:
  "cleanCustomRanges [empty_range 0 2, empty_range 2 4, empty_range 4 6, empty_range 6 9]
     (Some (empty_range 2 4)) (Some (empty_range 4 6)) 5 9 = [empty_range 2 5, empty_range 5 6]"
  by code_simp

end
