(* ===== verification/TrainId.thy ===== *)
theory TrainId
  imports JsStrings
begin

text \<open>
  \<open>front/src/utils/trainId.ts\<close>: the textual identifiers of paced trains, of their indexed occurrences and
  of their added exceptions, and the functions that build them and take them apart.
\<close>

section \<open>Kinds of identifiers\<close>

definition isPacedTrainId :: "string \<Rightarrow> bool" where
  "isPacedTrainId i = starts_with ''paced_'' i"

definition isIndexedOccurrenceId :: "string \<Rightarrow> bool" where
  "isIndexedOccurrenceId i = starts_with ''indexedoccurrence_'' i"

definition isAddedExceptionId :: "string \<Rightarrow> bool" where
  "isAddedExceptionId i = starts_with ''exception_'' i"

definition isOccurrenceId :: "string \<Rightarrow> bool" where
  "isOccurrenceId i = (isIndexedOccurrenceId i \<or> isAddedExceptionId i)"

definition isTrainId :: "string \<Rightarrow> bool" where
  "isTrainId i = (isOccurrenceId i \<or> isPacedTrainId i)"

section \<open>Building identifiers\<close>

definition formatEditoastIdToPacedTrainId :: "num \<Rightarrow> string" where
  "formatEditoastIdToPacedTrainId trainId = ''paced_'' @ js_num_string trainId"

definition formatEditoastIdToIndexedOccurrenceId :: "num \<Rightarrow> num \<Rightarrow> string" where
  "formatEditoastIdToIndexedOccurrenceId pacedTrainId occurrenceIndex =
     ''indexedoccurrence_'' @ js_num_string pacedTrainId @ ''_'' @ js_num_string occurrenceIndex"

definition formatEditoastIdToExceptionId :: "num \<Rightarrow> string \<Rightarrow> string" where
  "formatEditoastIdToExceptionId pacedTrainId exceptionId =
     ''exception_'' @ js_num_string pacedTrainId @ ''_'' @ exceptionId"

section \<open>Taking identifiers apart\<close>

text \<open>\<open>Number(s.split('_')[k])\<close>: a missing part is undefined and gives \<open>NaN\<close>.\<close>

definition number_part :: "string \<Rightarrow> nat \<Rightarrow> num option" where
  "number_part s k = Option.bind (js_at (js_split (CHR ''_'') s) (int k)) js_number"

definition extractEditoastIdFromPacedTrainId :: "string \<Rightarrow> num result" where
  "extractEditoastIdFromPacedTrainId pacedTrainId =
     (if \<not> isPacedTrainId pacedTrainId then Inl (JSError ''The paced train id should start with \"paced_\"'')
      else case number_part pacedTrainId 1 of
        None \<Rightarrow> Inl (JSError (''Invalid paced train ID: '' @ pacedTrainId))
      | Some n \<Rightarrow> Inr n)"

definition formatPacedTrainIdToIndexedOccurrenceId :: "string \<Rightarrow> num \<Rightarrow> string result" where
  "formatPacedTrainIdToIndexedOccurrenceId pacedTrainId occurrenceIndex =
     bind_result (extractEditoastIdFromPacedTrainId pacedTrainId)
       (\<lambda>n. Inr (formatEditoastIdToIndexedOccurrenceId n occurrenceIndex))"

definition formatPacedTrainIdToExceptionId :: "string \<Rightarrow> string \<Rightarrow> string result" where
  "formatPacedTrainIdToExceptionId pacedTrainId exceptionId =
     bind_result (extractEditoastIdFromPacedTrainId pacedTrainId)
       (\<lambda>n. Inr (formatEditoastIdToExceptionId n exceptionId))"

text \<open>The exception is given by its index, which is falsy when undefined or 0, and its key.\<close>

definition formatPacedTrainIdToOccurrenceId :: "string \<Rightarrow> nat option \<Rightarrow> string \<Rightarrow> string result" where
  "formatPacedTrainIdToOccurrenceId pacedTrainId occurrence_index key =
     (case occurrence_index of
        Some i \<Rightarrow> if i \<noteq> 0 then formatPacedTrainIdToIndexedOccurrenceId pacedTrainId (of_nat i)
                  else formatPacedTrainIdToExceptionId pacedTrainId key
      | None \<Rightarrow> formatPacedTrainIdToExceptionId pacedTrainId key)"

definition format_error :: "string \<Rightarrow> js_error" where
  "format_error formats = JSError (''The occurrence id should match the format '' @ formats)"

definition indexed_format :: string where
  "indexed_format = ''\"indexedoccurrence_{pacedTrainId}_{occurrenceIndex}\"''"

definition exception_format :: string where
  "exception_format = ''\"exception_{pacedTrainId}_{exceptionId}\"''"

definition extractPacedTrainIdFromOccurrenceId :: "string \<Rightarrow> string result" where
  "extractPacedTrainIdFromOccurrenceId occurrenceId =
     (if \<not> isOccurrenceId occurrenceId then
        Inl (format_error (indexed_format @ '' or '' @ exception_format))
      else case number_part occurrenceId 1 of
        None \<Rightarrow> Inl (JSError (''Invalid paced train ID : '' @ occurrenceId))
      | Some n \<Rightarrow> Inr (formatEditoastIdToPacedTrainId n))"

definition extractOccurrenceIndexFromOccurrenceId :: "string \<Rightarrow> num result" where
  "extractOccurrenceIndexFromOccurrenceId occurrenceId =
     (if \<not> isIndexedOccurrenceId occurrenceId then
        Inl (format_error indexed_format)
      else case number_part occurrenceId 2 of
        None \<Rightarrow> Inl (JSError (''Invalid occurrence index: '' @ occurrenceId))
      | Some n \<Rightarrow> Inr n)"

definition extractExceptionIdFromOccurrenceId :: "string \<Rightarrow> string result" where
  "extractExceptionIdFromOccurrenceId occurrenceId =
     (if \<not> isAddedExceptionId occurrenceId then
        Inl (format_error exception_format)
      else Inr (js_join ''_'' (drop 2 (js_split (CHR ''_'') occurrenceId))))"

section \<open>Lemmas\<close>

lemma split_paced: "js_split (CHR ''_'') (''paced_'' @ s) = ''paced'' # js_split (CHR ''_'') s"
  using js_split_append [of "CHR ''_''" "''paced''" s] by simp

lemma split_indexed: "js_split (CHR ''_'') (''indexedoccurrence_'' @ s) = ''indexedoccurrence'' # js_split (CHR ''_'') s"
  using js_split_append [of "CHR ''_''" "''indexedoccurrence''" s] by simp

lemma split_exception: "js_split (CHR ''_'') (''exception_'' @ s) = ''exception'' # js_split (CHR ''_'') s"
  using js_split_append [of "CHR ''_''" "''exception''" s] by simp

lemma split_int: "js_split (CHR ''_'') (string_of_int n @ ''_'' @ s) = string_of_int n # js_split (CHR ''_'') s"
  using js_split_append [OF string_of_int_no_sep, of n s] by simp

lemma split_int_end: "js_split (CHR ''_'') (string_of_int n) = [string_of_int n]"
  by (rule js_split_no_sep [OF string_of_int_no_sep])

lemmas split_ids = split_paced split_indexed split_exception split_int split_int_end

lemma kinds:
  "isPacedTrainId (''paced_'' @ s)" "isIndexedOccurrenceId (''indexedoccurrence_'' @ s)"
  "isAddedExceptionId (''exception_'' @ s)" "\<not> isIndexedOccurrenceId (''exception_'' @ s)"
  by (simp_all add: isPacedTrainId_def isIndexedOccurrenceId_def isAddedExceptionId_def starts_with_def)

text \<open>The kinds of identifiers are disjoint: no string is of two kinds.\<close>

lemma id_kinds_disjoint:
  "\<not> (isPacedTrainId i \<and> isOccurrenceId i) \<and> \<not> (isIndexedOccurrenceId i \<and> isAddedExceptionId i)"
proof -
  have first: "starts_with (c # p) i \<Longrightarrow> take 1 i = [c]" for c p
    by (cases i) (simp_all add: starts_with_def)
  have "isPacedTrainId i \<Longrightarrow> take 1 i = ''p''" "isIndexedOccurrenceId i \<Longrightarrow> take 1 i = ''i''"
    "isAddedExceptionId i \<Longrightarrow> take 1 i = ''e''"
    unfolding isPacedTrainId_def isIndexedOccurrenceId_def isAddedExceptionId_def by (rule first, assumption)+
  then show ?thesis unfolding isOccurrenceId_def by fastforce
qed

lemma extract_paced: "extractEditoastIdFromPacedTrainId (formatEditoastIdToPacedTrainId (of_int n)) = Inr (of_int n)"
  by (simp add: extractEditoastIdFromPacedTrainId_def formatEditoastIdToPacedTrainId_def number_part_def kinds split_ids
      js_at_def js_number_string_of_int del: append_Cons)

lemma extract_indexed:
  "extractPacedTrainIdFromOccurrenceId (formatEditoastIdToIndexedOccurrenceId (of_int n) (of_int i)) =
     Inr (formatEditoastIdToPacedTrainId (of_int n))"
  "extractOccurrenceIndexFromOccurrenceId (formatEditoastIdToIndexedOccurrenceId (of_int n) (of_int i)) = Inr (of_int i)"
  by (simp_all add: extractPacedTrainIdFromOccurrenceId_def extractOccurrenceIndexFromOccurrenceId_def
      formatEditoastIdToIndexedOccurrenceId_def isOccurrenceId_def kinds number_part_def split_ids js_at_def js_number_string_of_int
      del: append_Cons)

lemma extract_exception:
  "extractPacedTrainIdFromOccurrenceId (formatEditoastIdToExceptionId (of_int n) key) = Inr (formatEditoastIdToPacedTrainId (of_int n))"
  "extractExceptionIdFromOccurrenceId (formatEditoastIdToExceptionId (of_int n) key) = Inr key"
  by (simp_all add: extractPacedTrainIdFromOccurrenceId_def extractExceptionIdFromOccurrenceId_def formatEditoastIdToExceptionId_def
      isOccurrenceId_def kinds number_part_def split_ids js_at_def js_number_string_of_int numeral_2_eq_2 join_split del: append_Cons)

lemma format_kinds:
  "isPacedTrainId (formatEditoastIdToPacedTrainId x)" "\<not> isOccurrenceId (formatEditoastIdToPacedTrainId x)"
  "isIndexedOccurrenceId (formatEditoastIdToIndexedOccurrenceId x y)" "isAddedExceptionId (formatEditoastIdToExceptionId x key)"
  using id_kinds_disjoint kinds
  unfolding formatEditoastIdToPacedTrainId_def formatEditoastIdToIndexedOccurrenceId_def formatEditoastIdToExceptionId_def by blast+

text \<open>The identifiers can be taken apart again: from the identifier of a paced train, of an indexed
  occurrence or of an added exception the number of the train, the index and the key are recovered,
  whatever the key contains.\<close>

lemma train_ids_roundtrip:
  "extractEditoastIdFromPacedTrainId (formatEditoastIdToPacedTrainId (of_int n)) = Inr (of_int n) \<and>
   extractPacedTrainIdFromOccurrenceId (formatEditoastIdToIndexedOccurrenceId (of_int n) (of_int i)) =
     Inr (formatEditoastIdToPacedTrainId (of_int n)) \<and>
   extractOccurrenceIndexFromOccurrenceId (formatEditoastIdToIndexedOccurrenceId (of_int n) (of_int i)) =
     Inr (of_int i) \<and>
   extractPacedTrainIdFromOccurrenceId (formatEditoastIdToExceptionId (of_int n) key) =
     Inr (formatEditoastIdToPacedTrainId (of_int n)) \<and>
   extractExceptionIdFromOccurrenceId (formatEditoastIdToExceptionId (of_int n) key) = Inr key"
  by (simp add: extract_paced extract_indexed extract_exception)

text \<open>The occurrence with index 0 that has an exception gets the identifier of an added exception.\<close>

lemma occurrence_zero_id:
  "formatPacedTrainIdToOccurrenceId ''paced_7'' (Some 0) ''k'' = Inr ''exception_7_k'' \<and>
   formatPacedTrainIdToOccurrenceId ''paced_7'' (Some 1) ''k'' = Inr ''indexedoccurrence_7_1''"
  by code_simp

end
