(* ===== verification/PacedTrain.thy ===== *)
theory PacedTrain
  imports PathSteps TrainId
begin

text \<open>
  Paced trains: a train that repeats at an interval during a time window, with exceptions that change
  some of its occurrences. Models \<open>front/src/modules/timetableItem/helpers/pacedTrain.ts\<close>,
  \<open>computeOccurrenceName.ts\<close> and
  \<open>applications/operationalStudies/views/Scenario/components/ManageTimetableItem/helpers/buildPacedTrainException.ts\<close>.
  The parsers of ISO 8601 durations (dayjs) and of dates are parameters. An exception change group is
  an option, whose value is itself optional where the type of the group says so.
\<close>

section \<open>Data\<close>

record path_and_schedule =
  pas_margins :: margins
  pas_path :: "path_item list"
  pas_power_restrictions :: "power_restriction list"
  pas_schedule :: "schedule_item list"

record change_groups =
  cg_constraint_distribution :: "distribution option"
  cg_initial_speed :: "num option"
  cg_labels :: "(string list) option"
  cg_options :: "train_options option"
  cg_path_and_schedule :: "path_and_schedule option"
  cg_rolling_stock :: "(string \<times> comfort) option"
  cg_rolling_stock_category :: "train_category option option"
  cg_speed_limit_tag :: "string option option"
  cg_start_time :: "string option"
  cg_train_name :: "string option"

record paced_exception = change_groups +
  ex_key :: string
  ex_occurrence_index :: "nat option"
  ex_disabled :: "bool option"

record train_schedule =
  ts_train_name :: string
  ts_start_time :: string
  ts_rolling_stock_name :: string
  ts_comfort :: "comfort option"
  ts_constraint_distribution :: distribution
  ts_initial_speed :: "num option"
  ts_labels :: "(string list) option"
  ts_margins :: "margins option"
  ts_options :: "train_options option"
  ts_path :: "path_item list"
  ts_power_restrictions :: "(power_restriction list) option"
  ts_schedule :: "(schedule_item list) option"
  ts_speed_limit_tag :: "string option"
  ts_category :: "train_category option"

record paced =
  pc_time_window :: string
  pc_interval :: string
  pc_exceptions :: "paced_exception list"

record paced_train = train_schedule +
  pt_paced :: paced

section \<open>Names (computeOccurrenceName.ts)\<close>

definition is_word :: "char \<Rightarrow> bool" where
  "is_word c =
     (let n = (of_char c :: nat) in is_digit c \<or> (65 \<le> n \<and> n \<le> 90) \<or> (97 \<le> n \<and> n \<le> 122) \<or> n = 95)"

text \<open>The regular expression \<open>\b\w+\s\d+$\<close>: the digits at the end follow one white space that follows a
  word character; and the string without the white space and the digits.\<close>

definition end_by_number :: "string \<Rightarrow> bool" where
  "end_by_number s =
     (takeWhile is_digit (rev s) \<noteq> [] \<and>
      (case dropWhile is_digit (rev s) of c # d # _ \<Rightarrow> is_space c \<and> is_word d | _ \<Rightarrow> False))"

definition strip_number :: "string \<Rightarrow> string" where
  "strip_number s = rev (drop 1 (dropWhile is_digit (rev s)))"

definition print_number :: "num option \<Rightarrow> string" where
  "print_number v = (case v of None \<Rightarrow> ''NaN'' | Some x \<Rightarrow> js_num_string x)"

definition computeOccurrenceName :: "string \<Rightarrow> num \<Rightarrow> string" where
  "computeOccurrenceName pacedTrainName index =
     (if end_by_number pacedTrainName then
        let endOfName = js_number (last (js_split (CHR '' '') pacedTrainName))
        in strip_number pacedTrainName @ '' '' @ print_number (map_option (\<lambda>n. n + 2 * index) endOfName)
      else case js_number pacedTrainName of
        Some n \<Rightarrow> js_num_string (n + 2 * index)
      | None \<Rightarrow> pacedTrainName @ '' '' @ js_num_string (2 * index + 1))"

section \<open>Occurrences (pacedTrain.ts)\<close>

definition getOccurrencesNb :: "duration \<Rightarrow> duration \<Rightarrow> int result" where
  "getOccurrencesNb timeWindow interval =
     (if dur_ms interval = 0 then Inl (JSError ''Interval cannot be 0'')
      else Inr \<lceil>(of_int (dur_ms timeWindow) / of_int (dur_ms interval) :: num)\<rceil>)"

definition computeIndexedOccurrenceStartTime :: "date \<Rightarrow> duration \<Rightarrow> int \<Rightarrow> date" where
  "computeIndexedOccurrenceStartTime pacedTrainStartTime interval index =
     addDurationToDate pacedTrainStartTime (new_duration 0 0 0 (index * dur_ms interval))"

text \<open>The test that selects the exception of an occurrence.\<close>

definition exception_of :: "string \<Rightarrow> (paced_exception \<Rightarrow> bool) result" where
  "exception_of occurrenceId =
     (if isIndexedOccurrenceId occurrenceId then
        bind_result (extractOccurrenceIndexFromOccurrenceId occurrenceId)
          (\<lambda>n. Inr (\<lambda>e. map_option of_nat (ex_occurrence_index e) = Some n))
      else bind_result (extractExceptionIdFromOccurrenceId occurrenceId) (\<lambda>k. Inr (\<lambda>e. k = ex_key e)))"

definition findExceptionWithOccurrenceId :: "paced_exception list \<Rightarrow> string \<Rightarrow> paced_exception option result" where
  "findExceptionWithOccurrenceId exceptions occurrenceId =
     bind_result (exception_of occurrenceId) (\<lambda>p. Inr (find p exceptions))"

text \<open>The details of an occurrence. The copy \<open>{ ...pacedTrain }\<close> shares the options object with the paced
  train, and the assignments to its members change both: the function gives the occurrence and the
  paced train after the call.\<close>

definition apply_change_groups :: "change_groups \<Rightarrow> 'a train_schedule_scheme \<Rightarrow> 'a train_schedule_scheme" where
  "apply_change_groups g t =
     t\<lparr>ts_train_name := (case cg_train_name g of None \<Rightarrow> ts_train_name t | Some v \<Rightarrow> v),
       ts_start_time := (case cg_start_time g of None \<Rightarrow> ts_start_time t | Some v \<Rightarrow> v),
       ts_speed_limit_tag := (case cg_speed_limit_tag g of None \<Rightarrow> ts_speed_limit_tag t | Some v \<Rightarrow> v),
       ts_labels := (case cg_labels g of None \<Rightarrow> ts_labels t | Some v \<Rightarrow> Some v),
       ts_initial_speed := (case cg_initial_speed g of None \<Rightarrow> ts_initial_speed t | Some v \<Rightarrow> Some v),
       ts_constraint_distribution :=
         (case cg_constraint_distribution g of None \<Rightarrow> ts_constraint_distribution t | Some v \<Rightarrow> v),
       ts_category := (case cg_rolling_stock_category g of None \<Rightarrow> ts_category t | Some v \<Rightarrow> v),
       ts_rolling_stock_name := (case cg_rolling_stock g of None \<Rightarrow> ts_rolling_stock_name t | Some (n, _) \<Rightarrow> n),
       ts_comfort := (case cg_rolling_stock g of None \<Rightarrow> ts_comfort t | Some (_, c) \<Rightarrow> Some c),
       ts_margins := (case cg_path_and_schedule g of None \<Rightarrow> ts_margins t | Some p \<Rightarrow> Some (pas_margins p)),
       ts_path := (case cg_path_and_schedule g of None \<Rightarrow> ts_path t | Some p \<Rightarrow> pas_path p),
       ts_power_restrictions :=
         (case cg_path_and_schedule g of None \<Rightarrow> ts_power_restrictions t | Some p \<Rightarrow> Some (pas_power_restrictions p)),
       ts_schedule := (case cg_path_and_schedule g of None \<Rightarrow> ts_schedule t | Some p \<Rightarrow> Some (pas_schedule p))\<rparr>"

definition extractOccurrenceDetailsFromPacedTrain ::
  "'a train_schedule_scheme \<Rightarrow> change_groups option \<Rightarrow> ('a train_schedule_scheme \<times> 'a train_schedule_scheme) result" where
  "extractOccurrenceDetailsFromPacedTrain pacedTrain groups =
     (case groups of
        None \<Rightarrow> Inr (pacedTrain, pacedTrain)
      | Some g \<Rightarrow>
          let occurrence = apply_change_groups g pacedTrain in
          (case cg_options g of
             None \<Rightarrow> Inr (occurrence, pacedTrain)
           | Some v \<Rightarrow>
               (case ts_options pacedTrain of
                  None \<Rightarrow> Inl TypeError
                | Some _ \<Rightarrow> Inr (occurrence\<lparr>ts_options := Some v\<rparr>, pacedTrain\<lparr>ts_options := Some v\<rparr>))))"

datatype not_honored = ScheduleNotHonored | TrainTooFast

datatype summary = InvalidSummary | ValidSummary "not_honored option"

datatype train_status = NoIssue | TooFast | NotHonored | Invalid

fun status_of :: "not_honored \<Rightarrow> train_status" where
  "status_of ScheduleNotHonored = NotHonored"
| "status_of TrainTooFast = TooFast"

fun worst_status_from :: "train_status \<Rightarrow> (summary option \<times> bool) list \<Rightarrow> train_status" where
  "worst_status_from className [] = className"
| "worst_status_from className ((s, disabled) # exceptions) =
     (case (s, disabled) of
        (Some InvalidSummary, False) \<Rightarrow> Invalid
      | (Some (ValidSummary (Some r)), False) \<Rightarrow>
          worst_status_from (if className \<noteq> NotHonored then status_of r else className) exceptions
      | _ \<Rightarrow> worst_status_from className exceptions)"

text \<open>An exception is given by its summary and its flag \<open>disabled\<close>.\<close>

definition getOccurrencesWorstStatus :: "summary option \<Rightarrow> (summary option \<times> bool) list \<Rightarrow> train_status" where
  "getOccurrencesWorstStatus s exceptions =
     (case s of
        Some InvalidSummary \<Rightarrow> Invalid
      | Some (ValidSummary (Some r)) \<Rightarrow> worst_status_from (status_of r) exceptions
      | _ \<Rightarrow> worst_status_from NoIssue exceptions)"

text \<open>\<open>getExceptionFromOccurrenceId\<close>; the map gives for a number the paced part of the train, if any.\<close>

definition getExceptionFromOccurrenceId ::
  "(num \<Rightarrow> paced option option) \<Rightarrow> string \<Rightarrow> paced_exception option result" where
  "getExceptionFromOccurrenceId timetableItemsById occurrenceId =
     bind_result (bind_result (extractPacedTrainIdFromOccurrenceId occurrenceId) extractEditoastIdFromPacedTrainId)
       (\<lambda>pacedTrainId.
          case Option.bind (timetableItemsById pacedTrainId) (\<lambda>p. p) of
            None \<Rightarrow> Inl (JSError (''No paced train found for id '' @ js_num_string pacedTrainId))
          | Some p \<Rightarrow> bind_result (exception_of occurrenceId) (\<lambda>q. Inr (find q (pc_exceptions p))))"

definition getOccurrenceTrainName :: "string \<Rightarrow> paced_exception list \<Rightarrow> string \<Rightarrow> string result" where
  "getOccurrenceTrainName train_name exceptions occurrenceId =
     bind_result (findExceptionWithOccurrenceId exceptions occurrenceId)
       (\<lambda>existing.
          let override = Option.bind existing cg_train_name in
          if truthy override then Inr (the override)
          else if isIndexedOccurrenceId occurrenceId then
            bind_result (extractOccurrenceIndexFromOccurrenceId occurrenceId)
              (\<lambda>i. Inr (computeOccurrenceName train_name i))
          else Inr (train_name @ ''/+''))"

definition getOcurrencesIds ::
  "(string \<Rightarrow> duration) \<Rightarrow> 'a paced_train_scheme \<Rightarrow> string \<Rightarrow> string list result" where
  "getOcurrencesIds parse pacedTrain pacedTrainId =
     bind_result (map_result (\<lambda>e. formatPacedTrainIdToExceptionId pacedTrainId (ex_key e))
                    (filter (\<lambda>e. ex_occurrence_index e = None) (pc_exceptions (pt_paced pacedTrain))))
       (\<lambda>added.
          bind_result (getOccurrencesNb (parse (pc_time_window (pt_paced pacedTrain)))
                         (parse (pc_interval (pt_paced pacedTrain))))
            (\<lambda>n. bind_result (map_result (\<lambda>i. formatPacedTrainIdToIndexedOccurrenceId pacedTrainId (of_nat i))
                                [0..<nat n])
                   (\<lambda>indexed. Inr (added @ indexed))))"

section \<open>Exceptions (buildPacedTrainException.ts)\<close>

text \<open>\<open>setMilliseconds(0)\<close>\<close>

definition drop_milliseconds :: "date \<Rightarrow> date" where
  "drop_milliseconds d = d - d mod 1000"

definition base_steps ::
  "(string \<Rightarrow> duration) \<Rightarrow> path_item list \<Rightarrow> schedule_item list option \<Rightarrow> margins option \<Rightarrow> path_step list result" where
  "base_steps parse path schedule margins = map_result (computeBasePathStep parse path schedule margins) [0..<length path]"

text \<open>Equality of the steps of two paths without their identifiers.\<close>

definition same_steps :: "path_step list \<Rightarrow> path_step list \<Rightarrow> bool" where
  "same_steps a b = (map (\<lambda>s. s\<lparr>ps_id := []\<rparr>) a = map (\<lambda>s. s\<lparr>ps_id := []\<rparr>) b)"

definition no_groups :: change_groups where
  "no_groups =
     \<lparr>cg_constraint_distribution = None, cg_initial_speed = None, cg_labels = None, cg_options = None,
      cg_path_and_schedule = None, cg_rolling_stock = None, cg_rolling_stock_category = None,
      cg_speed_limit_tag = None, cg_start_time = None, cg_train_name = None\<rparr>"

definition empty_options :: train_options where
  "empty_options =
     \<lparr>to_use_electrical_profiles = None, to_use_speed_limits_for_simulation = None, to_stops_at_end_of_block = None\<rparr>"

definition or_else :: "'a option \<Rightarrow> 'a \<Rightarrow> 'a" where
  "or_else v d = (case v of None \<Rightarrow> d | Some x \<Rightarrow> x)"

definition path_group :: "'a train_schedule_scheme \<Rightarrow> path_and_schedule" where
  "path_group t =
     \<lparr>pas_margins = or_else (ts_margins t) \<lparr>mg_boundaries = [], mg_values = [''0%'']\<rparr>, pas_path = ts_path t,
      pas_power_restrictions = or_else (ts_power_restrictions t) [], pas_schedule = or_else (ts_schedule t) []\<rparr>"

definition expected_start ::
  "(string \<Rightarrow> duration) \<Rightarrow> (string \<Rightarrow> date) \<Rightarrow> string \<Rightarrow> string \<Rightarrow> int option \<Rightarrow> date" where
  "expected_start parse parseDate start_time interval occurrenceIndex =
     drop_milliseconds
       (case occurrenceIndex of
          None \<Rightarrow> parseDate start_time
        | Some i \<Rightarrow> computeIndexedOccurrenceStartTime (parseDate start_time) (parse interval) i)"

definition expected_name :: "string \<Rightarrow> int option \<Rightarrow> string" where
  "expected_name train_name occurrenceIndex =
     (case occurrenceIndex of
        None \<Rightarrow> train_name @ ''/+''
      | Some i \<Rightarrow> computeOccurrenceName train_name (of_int i))"

definition generatePacedTrainException ::
  "(string \<Rightarrow> duration) \<Rightarrow> (string \<Rightarrow> date) \<Rightarrow> 'a train_schedule_scheme \<Rightarrow> 'b paced_train_scheme \<Rightarrow> int option \<Rightarrow>
   change_groups result" where
  "generatePacedTrainException parse parseDate updated original occurrenceIndex =
     bind_result (base_steps parse (ts_path original) (ts_schedule original) (ts_margins original)) (\<lambda>originalSteps.
     bind_result (base_steps parse (ts_path updated) (ts_schedule updated) (ts_margins updated)) (\<lambda>updatedSteps.
       Inr \<lparr>cg_constraint_distribution =
              (if ts_constraint_distribution original \<noteq> ts_constraint_distribution updated
               then Some (ts_constraint_distribution updated) else None),
            cg_initial_speed =
              (if ts_initial_speed original \<noteq> ts_initial_speed updated
               then Some (or_else (ts_initial_speed updated) 0) else None),
            cg_labels =
              (if ts_labels original \<noteq> ts_labels updated then Some (or_else (ts_labels updated) []) else None),
            cg_options =
              (if ts_options original \<noteq> ts_options updated then Some (or_else (ts_options updated) empty_options)
               else None),
            cg_path_and_schedule =
              (if \<not> same_steps originalSteps updatedSteps then Some (path_group updated) else None),
            cg_rolling_stock =
              (if ts_rolling_stock_name original \<noteq> ts_rolling_stock_name updated \<or> ts_comfort original \<noteq> ts_comfort updated
               then Some (ts_rolling_stock_name updated,
                          or_else (ts_comfort updated) (or_else (ts_comfort original) ComfortStandard))
               else None),
            cg_rolling_stock_category =
              (if ts_category original \<noteq> ts_category updated then Some (ts_category updated) else None),
            cg_speed_limit_tag =
              (if ts_speed_limit_tag original \<noteq> ts_speed_limit_tag updated then Some (ts_speed_limit_tag updated)
               else None),
            cg_start_time =
              (if occurrenceIndex = None \<or>
                  expected_start parse parseDate (ts_start_time original) (pc_interval (pt_paced original)) occurrenceIndex \<noteq>
                  drop_milliseconds (parseDate (ts_start_time updated))
               then Some (ts_start_time updated) else None),
            cg_train_name =
              (if expected_name (ts_train_name original) occurrenceIndex \<noteq> ts_train_name updated
               then Some (ts_train_name updated) else None)\<rparr>))"

definition groups_of :: "paced_exception \<Rightarrow> change_groups" where
  "groups_of e = change_groups.truncate e"

definition updatePacedTrainExceptionsList ::
  "paced_exception list \<Rightarrow> paced_exception \<Rightarrow> string \<Rightarrow> paced_exception list result" where
  "updatePacedTrainExceptionsList currentExceptions newException occurrenceId =
     (let hasExceptions = (groups_of newException \<noteq> no_groups \<or> ex_disabled newException = Some True) in
      bind_result (exception_of occurrenceId) (\<lambda>p.
        case find p currentExceptions of
          None \<Rightarrow> Inr (if hasExceptions then currentExceptions @ [newException] else currentExceptions)
        | Some _ \<Rightarrow>
            let exceptionIndex = find_index p currentExceptions in
            Inr (if hasExceptions then replaceElementAtIndex currentExceptions exceptionIndex newException
                 else removeElementAtIndex currentExceptions exceptionIndex)))"

text \<open>The index of an indexed occurrence is a number; as the index of an exception it is a natural number.\<close>

definition buildPacedTrainWithUpdatedException ::
  "(string \<Rightarrow> duration) \<Rightarrow> (string \<Rightarrow> date) \<Rightarrow> string \<Rightarrow> paced_train \<Rightarrow> 'a train_schedule_scheme \<Rightarrow> string \<Rightarrow>
   paced_train result" where
  "buildPacedTrainWithUpdatedException parse parseDate uuid original updated occurrenceId =
     bind_result (if isIndexedOccurrenceId occurrenceId
                  then bind_result (extractOccurrenceIndexFromOccurrenceId occurrenceId) (\<lambda>n. Inr (Some \<lfloor>n\<rfloor>))
                  else Inr None) (\<lambda>occurrenceIndex.
     bind_result (generatePacedTrainException parse parseDate updated original occurrenceIndex) (\<lambda>base.
     bind_result (findExceptionWithOccurrenceId (pc_exceptions (pt_paced original)) occurrenceId) (\<lambda>existing.
     bind_result (updatePacedTrainExceptionsList (pc_exceptions (pt_paced original))
                    (change_groups.extend base
                       (paced_exception.fields (case existing of None \<Rightarrow> uuid | Some e \<Rightarrow> ex_key e)
                          (map_option nat occurrenceIndex) None))
                    occurrenceId) (\<lambda>exceptions.
       Inr (original\<lparr>pt_paced := (pt_paced original)\<lparr>pc_exceptions := exceptions\<rparr>\<rparr>)))))"

text \<open>\<open>checkChangeGroups\<close>. The options of the train are compared with the change group itself, an object
  with the member \<open>value\<close>: they are never equal and the group stays.\<close>

definition keep_unless :: "'a option \<Rightarrow> ('a \<Rightarrow> bool) \<Rightarrow> 'a option" where
  "keep_unless g p = (case g of None \<Rightarrow> None | Some v \<Rightarrow> if p v then None else Some v)"

definition check_exception ::
  "(string \<Rightarrow> duration) \<Rightarrow> (string \<Rightarrow> date) \<Rightarrow> 'a train_schedule_scheme \<Rightarrow> string \<Rightarrow> paced_exception \<Rightarrow>
   paced_exception result" where
  "check_exception parse parseDate updatedTrain interval e =
     bind_result
       (case cg_path_and_schedule e of
          None \<Rightarrow> Inr None
        | Some p \<Rightarrow>
            bind_result (base_steps parse (ts_path updatedTrain) (ts_schedule updatedTrain) (ts_margins updatedTrain)) (\<lambda>a.
            bind_result (base_steps parse (pas_path p) (Some (pas_schedule p)) (Some (pas_margins p))) (\<lambda>b.
              Inr (if same_steps a b then None else Some p))))
       (\<lambda>path.
          Inr (e\<lparr>cg_constraint_distribution :=
                   keep_unless (cg_constraint_distribution e) (\<lambda>v. v = ts_constraint_distribution updatedTrain),
                 cg_initial_speed := keep_unless (cg_initial_speed e) (\<lambda>v. Some v = ts_initial_speed updatedTrain),
                 cg_labels := keep_unless (cg_labels e) (\<lambda>v. Some v = ts_labels updatedTrain),
                 cg_path_and_schedule := path,
                 cg_rolling_stock :=
                   keep_unless (cg_rolling_stock e)
                     (\<lambda>(n, c). Some c = ts_comfort updatedTrain \<and> n = ts_rolling_stock_name updatedTrain),
                 cg_rolling_stock_category :=
                   keep_unless (cg_rolling_stock_category e) (\<lambda>v. v = ts_category updatedTrain),
                 cg_speed_limit_tag := keep_unless (cg_speed_limit_tag e) (\<lambda>v. v = ts_speed_limit_tag updatedTrain),
                 cg_start_time :=
                   (case ex_occurrence_index e of
                      None \<Rightarrow> cg_start_time e
                    | Some i \<Rightarrow>
                        keep_unless (cg_start_time e)
                          (\<lambda>v. expected_start parse parseDate (ts_start_time updatedTrain) interval (Some (int i)) =
                               drop_milliseconds (parseDate v))),
                 cg_train_name :=
                   (case ex_occurrence_index e of
                      None \<Rightarrow> cg_train_name e
                    | Some i \<Rightarrow>
                        keep_unless (cg_train_name e)
                          (\<lambda>v. v = computeOccurrenceName (ts_train_name updatedTrain) (of_nat i)))\<rparr>))"

definition checkChangeGroups ::
  "(string \<Rightarrow> duration) \<Rightarrow> (string \<Rightarrow> date) \<Rightarrow> 'a train_schedule_scheme \<Rightarrow> string \<Rightarrow> paced_exception list \<Rightarrow>
   paced_exception list result" where
  "checkChangeGroups parse parseDate updatedTrain interval originalExceptions =
     bind_result (map_result (check_exception parse parseDate updatedTrain interval) originalExceptions)
       (\<lambda>es. Inr (filter (\<lambda>e. groups_of e \<noteq> no_groups \<or> ex_disabled e \<noteq> None) es))"

end
