(* ===== verification/TimesStops.thy ===== *)
theory TimesStops
  imports PacedTrain Physics
begin

text \<open>
  The table of times and stops: editing a cell of the table changes the path and the schedule of the
  train. Models \<open>front/src/modules/timesStops/helpers\<close> (\<open>cellUpdate.ts\<close>, \<open>scheduleData.ts\<close>,
  \<open>computeMargins.ts\<close> and the conversions and the day counter of \<open>utils.ts\<close>), the callback
  \<open>computeUpdatedPathAndSchedule\<close> of \<open>hooks/useUpdateTimesStopsTable.ts\<close> and the time strings of
  \<open>utils/timeManipulation.ts\<close>. Printing and parsing ISO 8601 durations and dates are parameters.
\<close>

section \<open>Time strings (utils/timeManipulation.ts)\<close>

definition SECONDS_IN_A_DAY :: num where "SECONDS_IN_A_DAY = 86400"

definition ms2sec :: "num \<Rightarrow> num" where "ms2sec ms = ms / 1000"

text \<open>None is \<open>NaN\<close>; a part that is missing or empty counts as 0 only for the seconds.\<close>

definition time2sec :: "string \<Rightarrow> num option" where
  "time2sec timeString =
     (let timeArray = js_split (CHR '':'') timeString;
          part = (\<lambda>k. Option.bind (js_at timeArray k) js_number);
          seconds = (if truthy (js_at timeArray 2) then part 2 else Some 0)
      in case (part 0, part 1, seconds) of
           (Some h, Some m, Some s) \<Rightarrow> Some (h * 3600 + m * 60 + s)
         | _ \<Rightarrow> None)"

definition durationInSeconds :: "num \<Rightarrow> num \<Rightarrow> num" where
  "durationInSeconds start e = (if e > start then e - start else e + SECONDS_IN_A_DAY - start)"

definition pad2 :: "nat \<Rightarrow> string" where
  "pad2 n = (if n < 10 then ''0'' else []) @ string_of_nat n"

text \<open>The time of day of a number of seconds, in UTC.\<close>

definition secToHoursString :: "num \<Rightarrow> string" where
  "secToHoursString sec =
     (let s = nat (\<lfloor>sec\<rfloor> mod 86400) in pad2 (s div 3600) @ '':'' @ pad2 (s div 60 mod 60) @ '':'' @ pad2 (s mod 60))"

section \<open>Reception signals (utils.ts)\<close>

definition onStopSignalToReceptionSignal :: "bool option \<Rightarrow> bool option \<Rightarrow> reception_signal option" where
  "onStopSignalToReceptionSignal onStopSignal shortSlipDistance =
     (case onStopSignal of
        None \<Rightarrow> None
      | Some True \<Rightarrow> Some (if shortSlipDistance = Some True then SHORT_SLIP_STOP else STOP)
      | Some False \<Rightarrow> Some OPEN)"

text \<open>The pair of \<open>shortSlipDistance\<close> and \<open>onStopSignal\<close>.\<close>

definition receptionSignalToSignalBooleans :: "reception_signal option \<Rightarrow> bool option \<times> bool option" where
  "receptionSignalToSignalBooleans receptionSignal =
     (case receptionSignal of
        None \<Rightarrow> (None, None)
      | Some STOP \<Rightarrow> (Some False, Some True)
      | Some SHORT_SLIP_STOP \<Rightarrow> (Some True, Some True)
      | Some OPEN \<Rightarrow> (Some False, Some False))"

section \<open>Schedule of a stop (scheduleData.ts)\<close>

record formatted_schedule =
  fs_stopFor :: "duration option"
  fs_calculatedDeparture :: "date option"
  fs_shortSlipDistance :: "bool option"
  fs_onStopSignal :: "bool option"

definition formatSchedule :: "(string \<Rightarrow> duration) \<Rightarrow> date option \<Rightarrow> schedule_item option \<Rightarrow> formatted_schedule" where
  "formatSchedule parse arrivalTime schedule =
     (case schedule of
        None \<Rightarrow>
          \<lparr>fs_stopFor = None, fs_calculatedDeparture = None, fs_shortSlipDistance = Some False,
           fs_onStopSignal = Some False\<rparr>
      | Some sc \<Rightarrow>
          let (shortSlip, onStop) = receptionSignalToSignalBooleans (si_reception_signal sc);
              stopFor = parse_duration parse (si_stop_for sc)
          in \<lparr>fs_stopFor = stopFor,
              fs_calculatedDeparture =
                (case (stopFor, arrivalTime) of (Some d, Some a) \<Rightarrow> Some (addDurationToDate a d) | _ \<Rightarrow> None),
              fs_shortSlipDistance = shortSlip, fs_onStopSignal = onStop\<rparr>)"

section \<open>Editing a cell (cellUpdate.ts)\<close>

text \<open>The members of a row that the edits read; the others are for display.\<close>

record row =
  row_id :: string
  row_opOnPathIndex :: int
  row_isPathStep :: bool
  row_location :: location
  row_requestedArrival :: "date option"
  row_stopDuration :: "duration option"
  row_closedSignal :: "bool option"
  row_shortSlipDistance :: "bool option"

datatype optimistic_edit =
    EditArrival "date option"
  | EditStop "duration option"
  | EditDeparture "date option"
  | EditSignal "reception_signal option"

text \<open>The map keeps the last row of an identifier.\<close>

definition computeInsertIndex :: "int \<Rightarrow> row list \<Rightarrow> path_item list \<Rightarrow> nat" where
  "computeInsertIndex editedOpIndex allRows currentPath =
     (let opIndices = map_of (rev (map (\<lambda>r. (row_id r, row_opOnPathIndex r)) (filter row_isPathStep allRows)));
          foundIndex = find_index (\<lambda>step. case opIndices (pi_id step) of None \<Rightarrow> False | Some i \<Rightarrow> i > editedOpIndex)
                         currentPath
      in if foundIndex = -1 then length currentPath else nat foundIndex)"

definition cell_upsertPathStep ::
  "string \<Rightarrow> row \<Rightarrow> path_item list \<Rightarrow> row list \<Rightarrow> string \<times> path_item list" where
  "cell_upsertPathStep uuid editedRow currentPath allRows =
     (if row_isPathStep editedRow then (row_id editedRow, currentPath)
      else (uuid, addElementAtIndex currentPath
                    (int (computeInsertIndex (row_opOnPathIndex editedRow) allRows currentPath))
                    \<lparr>pi_id = uuid, pi_location = row_location editedRow\<rparr>))"

definition computeDeparture :: "date option \<Rightarrow> duration option \<Rightarrow> date option" where
  "computeDeparture arrival stop =
     (case (arrival, stop) of (Some a, Some s) \<Rightarrow> Some (a + dur_ms s) | _ \<Rightarrow> None)"

definition diffSeconds :: "date \<Rightarrow> date \<Rightarrow> int" where
  "diffSeconds a b = \<lfloor>(of_int a / 1000 :: num)\<rfloor> - \<lfloor>(of_int b / 1000 :: num)\<rfloor>"

record schedule_state =
  st_arrival :: "date option"
  st_stop :: "duration option"

text \<open>The new state and the departure.\<close>

fun applyScheduleEdit :: "schedule_state \<Rightarrow> optimistic_edit \<Rightarrow> schedule_state \<times> date option" where
  "applyScheduleEdit current (EditArrival newArrival) =
     (current\<lparr>st_arrival := newArrival\<rparr>, computeDeparture newArrival (st_stop current))"
| "applyScheduleEdit current (EditStop newStop) =
     (current\<lparr>st_stop := newStop\<rparr>, computeDeparture (st_arrival current) newStop)"
| "applyScheduleEdit current (EditDeparture None) = (current\<lparr>st_arrival := None\<rparr>, None)"
| "applyScheduleEdit current (EditDeparture (Some newDeparture)) =
     (case st_arrival current of
        Some a \<Rightarrow> (current\<lparr>st_stop := Some (new_duration 0 0 0 (newDeparture - a))\<rparr>, Some newDeparture)
      | None \<Rightarrow>
          (current\<lparr>st_arrival :=
             Some (newDeparture - (case st_stop current of None \<Rightarrow> 0 | Some s \<Rightarrow> dur_ms s))\<rparr>, Some newDeparture))"
| "applyScheduleEdit current (EditSignal _) = (current, computeDeparture (st_arrival current) (st_stop current))"

definition scheduleStateToApiFields ::
  "(duration \<Rightarrow> string) \<Rightarrow> schedule_state \<Rightarrow> date \<Rightarrow> string option \<times> string option" where
  "scheduleStateToApiFields toISO state startTime =
     (map_option (\<lambda>a. toISO (new_duration 0 0 (diffSeconds a startTime) 0)) (st_arrival state),
      map_option toISO (st_stop state))"

definition getPathIndex :: "string \<Rightarrow> path_item list \<Rightarrow> int" where
  "getPathIndex pathStepId path = find_index (\<lambda>step. pi_id step = pathStepId) path"

definition insertScheduleItemInOrder :: "schedule_item list \<Rightarrow> schedule_item \<Rightarrow> path_item list \<Rightarrow> schedule_item list" where
  "insertScheduleItemInOrder schedule newItem path =
     (let newItemPathIndex = getPathIndex (si_at newItem) path;
          foundIndex = find_index (\<lambda>item. getPathIndex (si_at item) path > newItemPathIndex) schedule;
          insertIndex = (if foundIndex = -1 then int (length schedule) else foundIndex)
      in addElementAtIndex schedule insertIndex newItem)"

record optimistic_schedule =
  os_requestedArrival :: "date option"
  os_stopDuration :: "duration option"
  os_requestedDeparture :: "date option"
  os_closedSignal :: "bool option"
  os_shortSlipDistance :: "bool option"
  os_onStopSignal :: "bool option"

text \<open>An edit of the reception signal spreads \<open>shortSlipDistance\<close> and \<open>onStopSignal\<close>; \<open>closedSignal\<close> is then
  absent.\<close>

definition computeOptimisticSchedule :: "row \<Rightarrow> optimistic_edit \<Rightarrow> optimistic_schedule" where
  "computeOptimisticSchedule r edit =
     (let (state, departure) =
            applyScheduleEdit \<lparr>st_arrival = row_requestedArrival r, st_stop = row_stopDuration r\<rparr> edit;
          (closed, shortSlip, onStop) =
            (case edit of
               EditSignal v \<Rightarrow> (let (shortSlip, onStop) = receptionSignalToSignalBooleans v in (None, shortSlip, onStop))
             | _ \<Rightarrow> (row_closedSignal r, row_shortSlipDistance r, None))
      in \<lparr>os_requestedArrival = st_arrival state, os_stopDuration = st_stop state, os_requestedDeparture = departure,
          os_closedSignal = closed, os_shortSlipDistance = shortSlip, os_onStopSignal = onStop\<rparr>)"

definition buildUpdatedOccurrence ::
  "'a train_schedule_scheme \<Rightarrow> path_item list \<Rightarrow> schedule_item list \<Rightarrow> string \<Rightarrow> train_schedule" where
  "buildUpdatedOccurrence selectedTrain updatedPath updatedSchedule trainName =
     (train_schedule.truncate selectedTrain)
       \<lparr>ts_path := updatedPath, ts_schedule := Some updatedSchedule, ts_train_name := trainName\<rparr>"

section \<open>Updating the schedule of the train (useUpdateTimesStopsTable.ts)\<close>

datatype cell_update =
    ArrivalUpdate "date option"
  | StopDurationUpdate "int option"
  | DepartureUpdate "date option"
  | ReceptionSignalUpdate "reception_signal option"

definition edit_of :: "cell_update \<Rightarrow> optimistic_edit" where
  "edit_of update =
     (case update of
        ArrivalUpdate v \<Rightarrow> EditArrival v
      | StopDurationUpdate v \<Rightarrow> EditStop (map_option (\<lambda>s. new_duration 0 0 s 0) v)
      | DepartureUpdate v \<Rightarrow> EditDeparture v
      | ReceptionSignalUpdate v \<Rightarrow> EditSignal v)"

definition update_item ::
  "schedule_item list \<Rightarrow> path_item list \<Rightarrow> string \<Rightarrow> string option \<Rightarrow> string option \<Rightarrow> schedule_item list option" where
  "update_item currentSchedule updatedPath pathStepId newArrival newStopFor =
     (let existingItemIndex = find_index (\<lambda>item. si_at item = pathStepId) currentSchedule;
          isOrigin = (map_option pi_id (js_at updatedPath 0) = Some pathStepId)
      in if newArrival = None \<and> newStopFor = None then
           (if existingItemIndex < 0 then None else Some (removeElementAtIndex currentSchedule existingItemIndex))
         else if existingItemIndex \<ge> 0 then
           Some (replaceElementAtIndex currentSchedule existingItemIndex
             ((currentSchedule ! nat existingItemIndex)
                \<lparr>si_arrival := (if isOrigin then None else newArrival), si_stop_for := newStopFor\<rparr>))
         else
           Some (insertScheduleItemInOrder currentSchedule
             \<lparr>si_at = pathStepId, si_arrival = (if isOrigin then None else newArrival), si_stop_for = newStopFor,
              si_reception_signal = None\<rparr> updatedPath))"

text \<open>\<open>computeUpdatedPathAndSchedule\<close>; None is the early return. A path without steps raises a \<open>TypeError\<close>.\<close>

definition computeUpdatedPathAndSchedule ::
  "(duration \<Rightarrow> string) \<Rightarrow> (string \<Rightarrow> date) \<Rightarrow> string \<Rightarrow> 'a train_schedule_scheme \<Rightarrow> row list \<Rightarrow> row \<Rightarrow> cell_update \<Rightarrow>
   (path_item list \<times> schedule_item list) option result" where
  "computeUpdatedPathAndSchedule toISO parseDate uuid selectedTrain allRows editedRow update =
     (let (pathStepId, updatedPath) = cell_upsertPathStep uuid editedRow (ts_path selectedTrain) allRows;
          currentSchedule = (case ts_schedule selectedTrain of None \<Rightarrow> [] | Some s \<Rightarrow> s)
      in if updatedPath = [] then Inl TypeError
         else case update of
           ReceptionSignalUpdate v \<Rightarrow>
             let existingItemIndex = find_index (\<lambda>item. si_at item = pathStepId) currentSchedule in
             if existingItemIndex < 0 then Inr None
             else Inr (Some (updatedPath,
               replaceElementAtIndex currentSchedule existingItemIndex
                 ((currentSchedule ! nat existingItemIndex)\<lparr>si_reception_signal := v\<rparr>)))
         | _ \<Rightarrow>
             let newState = fst (applyScheduleEdit
                   \<lparr>st_arrival = row_requestedArrival editedRow, st_stop = row_stopDuration editedRow\<rparr> (edit_of update));
                 (newArrival, newStopFor) = scheduleStateToApiFields toISO newState (parseDate (ts_start_time selectedTrain))
             in Inr (map_option (\<lambda>s. (updatedPath, s))
                       (update_item currentSchedule updatedPath pathStepId newArrival newStopFor)))"

section \<open>Day counter (updateDaySinceDeparture)\<close>

record time_extra_days =
  ted_time :: string
  ted_daySinceDeparture :: "int option"
  ted_dayDisplayed :: bool

record waypoint =
  wp_arrival :: "time_extra_days option"
  wp_departure :: "time_extra_days option"
  wp_stopFor :: "duration option"

text \<open>The previous time is None when no comparison with it holds: at the beginning, where it is minus
  infinity, and after an invalid time.\<close>

definition before_previous :: "num \<Rightarrow> num option \<Rightarrow> bool" where
  "before_previous t previousTime = (case previousTime of None \<Rightarrow> False | Some p \<Rightarrow> t < p)"

definition arrival_step :: "nat \<Rightarrow> string \<Rightarrow> num option \<Rightarrow> int \<Rightarrow> num option \<Rightarrow> time_extra_days \<times> int \<times> num option" where
  "arrival_step index time arrivalInSeconds day previousTime =
     (let isMidnight = (time = ''00:00:00'');
          earlier = (case arrivalInSeconds of None \<Rightarrow> False | Some a \<Rightarrow> before_previous a previousTime);
          newDay = ((earlier \<or> isMidnight) \<and> \<not> (isMidnight \<and> index = 0));
          day' = (if newDay then day + 1 else day)
      in (\<lparr>ted_time = time, ted_daySinceDeparture = Some day', ted_dayDisplayed = newDay\<rparr>, day',
          if isMidnight then Some 0 else arrivalInSeconds))"

text \<open>\<open>x % SECONDS_IN_A_DAY\<close> has the sign of \<open>x\<close>.\<close>

definition rem_day :: "num \<Rightarrow> num" where
  "rem_day x =
     (if x \<ge> 0 then x - SECONDS_IN_A_DAY * of_int \<lfloor>x / SECONDS_IN_A_DAY\<rfloor>
      else x - SECONDS_IN_A_DAY * of_int \<lceil>x / SECONDS_IN_A_DAY\<rceil>)"

definition departure_step :: "num \<Rightarrow> duration \<Rightarrow> int \<Rightarrow> num option \<Rightarrow> time_extra_days \<times> int \<times> num option" where
  "departure_step arrivalInSeconds stopFor day previousTime =
     (let departureInSeconds = rem_day (arrivalInSeconds + duration_total stopFor Second);
          newDay = (before_previous departureInSeconds previousTime \<or> departureInSeconds = 0);
          day' = (if newDay then day + 1 else day)
      in (\<lparr>ted_time = secToHoursString departureInSeconds, ted_daySinceDeparture = Some day', ted_dayDisplayed = newDay\<rparr>,
          day', Some departureInSeconds))"

text \<open>A time that cannot be read gives an invalid departure.\<close>

definition waypoint_step ::
  "bool \<Rightarrow> nat \<Rightarrow> waypoint \<Rightarrow> int \<Rightarrow> num option \<Rightarrow> waypoint \<times> int \<times> num option" where
  "waypoint_step keepFirstIndexArrival index w day previousTime =
     (case map_option ted_time (wp_arrival w) of
        None \<Rightarrow> (w\<lparr>wp_arrival := None, wp_departure := None\<rparr>, day, previousTime)
      | Some time \<Rightarrow>
          if time = [] then (w\<lparr>wp_arrival := None, wp_departure := None\<rparr>, day, previousTime)
          else
            let (arrival, day1, prev1) = arrival_step index time (time2sec time) day previousTime;
                (departure, day2, prev2) =
                  (case (wp_stopFor w, time2sec time) of
                     (Some s, Some a) \<Rightarrow> (let (d, x, y) = departure_step a s day1 prev1 in (Some d, x, y))
                   | (Some s, None) \<Rightarrow>
                       (Some \<lparr>ted_time = ''Invalid Date'', ted_daySinceDeparture = Some day1, ted_dayDisplayed = False\<rparr>,
                        day1, None)
                   | (None, _) \<Rightarrow> (None, day1, prev1))
            in (w\<lparr>wp_arrival := (if keepFirstIndexArrival \<or> index > 0 then Some arrival else None),
                  wp_departure := departure\<rparr>, day2, prev2))"

fun day_since_from :: "bool \<Rightarrow> nat \<Rightarrow> int \<Rightarrow> num option \<Rightarrow> waypoint list \<Rightarrow> waypoint list" where
  "day_since_from keep index day previousTime [] = []"
| "day_since_from keep index day previousTime (w # ws) =
     (let (w', day', previousTime') = waypoint_step keep index w day previousTime
      in w' # day_since_from keep (Suc index) day' previousTime' ws)"

definition updateDaySinceDeparture :: "waypoint list \<Rightarrow> bool \<Rightarrow> waypoint list" where
  "updateDaySinceDeparture pathWaypointRows keepFirstIndexArrival =
     day_since_from keepFirstIndexArrival 0 0 None pathWaypointRows"

section \<open>Margins (computeMargins.ts)\<close>

fun theoretical_margins_from ::
  "margins \<Rightarrow> nat \<Rightarrow> nat \<Rightarrow> path_item list \<Rightarrow> (string option \<times> bool) obj \<Rightarrow> (string option \<times> bool) obj" where
  "theoretical_margins_from m marginIndex index [] acc = acc"
| "theoretical_margins_from m marginIndex index (step # path) acc =
     (let atBoundary = (js_at (mg_boundaries m) (int marginIndex) = Some (pi_id step));
          marginIndex' = (if atBoundary then marginIndex + 1 else marginIndex)
      in theoretical_margins_from m marginIndex' (Suc index) path
           (obj_set acc (pi_id step) (js_at (mg_values m) (int marginIndex'), index = 0 \<or> atBoundary)))"

definition getTheoreticalMargins :: "margins option \<Rightarrow> path_item list \<Rightarrow> (string option \<times> bool) obj option" where
  "getTheoreticalMargins m path =
     (case m of None \<Rightarrow> None | Some mg \<Rightarrow> Some (theoretical_margins_from mg 0 0 path []))"

end
