(* ===== verification/TimesStopsProperties.thy ===== *)
theory TimesStopsProperties
  imports TimesStops
begin

text \<open>
  Properties of the table of times and stops: editing any cell keeps the schedule in the order of the
  path, arrival, stop and departure stay consistent, and the day counter never goes back in time.
\<close>

section \<open>The schedule stays in the order of the path\<close>

definition schedule_ok :: "path_item list \<Rightarrow> schedule_item list \<Rightarrow> bool" where
  "schedule_ok path schedule \<longleftrightarrow>
     sorted_wrt (<) (map (\<lambda>s. getPathIndex (si_at s) path) schedule) \<and>
     list_all (\<lambda>s. si_at s \<in> pi_id ` set path) schedule"

lemma getPathIndex_known: "i \<in> pi_id ` set path \<Longrightarrow> 0 \<le> getPathIndex i path"
  using find_index_ge [of "\<lambda>s. pi_id s = i" path] find_index_None [of "\<lambda>s. pi_id s = i" path]
  unfolding getPathIndex_def by force

lemma getPathIndex_inject:
  assumes "i \<in> pi_id ` set path" and "getPathIndex i path = getPathIndex j path"
  shows "i = j"
proof -
  obtain k where k: "getPathIndex i path = int k" using getPathIndex_known [OF assms(1)] nonneg_int_cases by blast
  have "pi_id (path ! k) = i" using k find_index_SomeD unfolding getPathIndex_def by fast
  moreover have "pi_id (path ! k) = j" using k assms(2) find_index_SomeD unfolding getPathIndex_def by fastforce
  ultimately show ?thesis by simp
qed

lemma getPathIndex_insert:
  assumes "i \<in> pi_id ` set path" and "pi_id n \<noteq> i"
  shows "getPathIndex i (take k path @ n # drop k path) =
    (if getPathIndex i path < int k then getPathIndex i path else getPathIndex i path + 1)"
proof -
  let ?p = "\<lambda>s. pi_id s = i"
  let ?a = "find_index ?p (take k path)" and ?b = "find_index ?p (drop k path)"
  have split: "find_index ?p path = (if ?a \<noteq> -1 then ?a else if ?b = -1 then -1 else ?b + int (length (take k path)))"
    using find_index_append [of ?p "take k path" "drop k path"] by simp
  have ins: "find_index ?p (take k path @ n # drop k path) =
      (if ?a \<noteq> -1 then ?a else if ?b = -1 then -1 else ?b + 1 + int (length (take k path)))"
    using assms(2) find_index_ge [of ?p "drop k path"] by (simp add: find_index_append Let_def)
  have ge: "0 \<le> find_index ?p path" using getPathIndex_known [OF assms(1)] by (simp add: getPathIndex_def)
  show ?thesis
  proof (cases "?a = -1")
    case True
    then have b: "?b \<noteq> -1" using ge split by auto
    then have "drop k path \<noteq> []" by auto
    then have "length (take k path) = k" by simp
    with True b show ?thesis using split ins find_index_ge [of ?p "drop k path"] unfolding getPathIndex_def by simp
  next
    case False
    moreover have "?a < int k" using find_index_lt [of ?p "take k path"] by simp
    ultimately show ?thesis using split ins unfolding getPathIndex_def by simp
  qed
qed

lemma schedule_ok_insert_step:
  assumes "schedule_ok path schedule" and "pi_id n \<notin> pi_id ` set path"
  shows "schedule_ok (take k path @ n # drop k path) schedule"
proof -
  let ?path = "take k path @ n # drop k path"
  have known: "si_at s \<in> pi_id ` set path" if "s \<in> set schedule" for s
    using assms(1) that by (simp add: schedule_ok_def list_all_iff)
  have idx: "getPathIndex (si_at s) ?path =
      (if getPathIndex (si_at s) path < int k then getPathIndex (si_at s) path else getPathIndex (si_at s) path + 1)"
    if "s \<in> set schedule" for s
    using getPathIndex_insert [OF known [OF that]] assms(2) known [OF that] by metis
  have "sorted_wrt (\<lambda>a b. getPathIndex (si_at a) ?path < getPathIndex (si_at b) ?path) schedule"
    using assms(1) unfolding schedule_ok_def sorted_wrt_map
    by (auto elim!: sorted_wrt_mono_rel [rotated] simp: idx)
  moreover have "set path \<subseteq> set ?path"
    using set_append [of "take k path" "drop k path"] by auto
  ultimately show ?thesis using known unfolding schedule_ok_def sorted_wrt_map list_all_iff by blast
qed

lemma schedule_ok_remove:
  assumes "schedule_ok path schedule"
  shows "schedule_ok path (splice_remove schedule k)"
proof -
  have "sorted_wrt (\<lambda>a b. getPathIndex (si_at a) path < getPathIndex (si_at b) path) (splice_remove schedule k)"
    using assms by (intro sorted_splice_remove) (simp add: schedule_ok_def sorted_wrt_map)
  moreover have "list_all (\<lambda>s. si_at s \<in> pi_id ` set path) (splice_remove schedule k)"
    using assms set_splice_remove [of schedule k] unfolding schedule_ok_def list_all_iff by blast
  ultimately show ?thesis by (simp add: schedule_ok_def sorted_wrt_map)
qed

lemma schedule_ok_ats:
  "schedule_ok path schedule \<longleftrightarrow>
     sorted_wrt (<) (map (\<lambda>i. getPathIndex i path) (map si_at schedule)) \<and>
     list_all (\<lambda>i. i \<in> pi_id ` set path) (map si_at schedule)"
  by (simp add: schedule_ok_def comp_def list_all_iff)

lemma schedule_ok_replace:
  assumes "schedule_ok path schedule" and "k < length schedule" and "si_at new = si_at (schedule ! k)"
  shows "schedule_ok path (splice_replace schedule (int k) new)"
proof -
  have "splice_replace schedule (int k) new = schedule[k := new]"
    using assms(2) by (simp add: splice_replace_def upd_conv_take_nth_drop)
  moreover have "map si_at (schedule[k := new]) = map si_at schedule"
    using assms(2,3) by (simp add: map_update list_update_same_conv)
  ultimately show ?thesis using assms(1) by (simp only: schedule_ok_ats)
qed

lemma schedule_ok_insert:
  assumes "schedule_ok path schedule" and "si_at new \<in> pi_id ` set path"
    and "find_index (\<lambda>s. si_at s = si_at new) schedule < 0"
  shows "schedule_ok path (insertScheduleItemInOrder schedule new path)"
proof -
  let ?f = "\<lambda>s. getPathIndex (si_at s) path"
  have "find_index (\<lambda>s. si_at s = si_at new) schedule = -1"
    using assms(3) find_index_ge [of "\<lambda>s. si_at s = si_at new" schedule] by linarith
  then have other: "\<forall>s\<in>set schedule. si_at s \<noteq> si_at new" by (simp add: find_index_None)
  have "?f new \<notin> ?f ` set schedule"
  proof
    assume "?f new \<in> ?f ` set schedule"
    then obtain s where "s \<in> set schedule" "getPathIndex (si_at new) path = getPathIndex (si_at s) path" by auto
    with getPathIndex_inject [OF assms(2)] other show False by force
  qed
  then have "sorted_wrt (<) (map ?f (insertScheduleItemInOrder schedule new path))"
    using assms(1) sorted_splice_insert [of ?f schedule new, OF _ _ refl]
    by (simp add: insertScheduleItemInOrder_def addElementAtIndex_def Let_def schedule_ok_def)
  moreover have "set (insertScheduleItemInOrder schedule new path) = insert new (set schedule)"
    by (simp add: insertScheduleItemInOrder_def addElementAtIndex_def Let_def)
  ultimately show ?thesis using assms(1,2) by (simp add: schedule_ok_def list_all_iff)
qed

lemma update_item_ok:
  assumes "schedule_ok path schedule" and "i \<in> pi_id ` set path"
    and "update_item schedule path i a s = Some schedule'"
  shows "schedule_ok path schedule'"
proof -
  define k where "k = find_index (\<lambda>item. si_at item = i) schedule"
  define org where "org = (map_option pi_id (js_at path 0) = Some i)"
  define new where "new = \<lparr>si_at = i, si_arrival = (if org then None else a), si_stop_for = s, si_reception_signal = None\<rparr>"
  define upd where "upd = (schedule ! nat k)\<lparr>si_arrival := (if org then None else a), si_stop_for := s\<rparr>"
  have unf: "update_item schedule path i a s =
      (if a = None \<and> s = None then (if k < 0 then None else Some (splice_remove schedule k))
       else if k \<ge> 0 then Some (splice_replace schedule k upd)
       else Some (insertScheduleItemInOrder schedule new path))"
    unfolding update_item_def Let_def k_def [symmetric] org_def [symmetric] new_def [symmetric] upd_def [symmetric]
      removeElementAtIndex_def replaceElementAtIndex_def ..
  show ?thesis
  proof (cases "k < 0")
    case True
    then have "schedule' = insertScheduleItemInOrder schedule new path"
      using assms(3) unfolding unf by (simp split: if_splits)
    with assms(1,2) True schedule_ok_insert [of path schedule new] show ?thesis by (simp add: k_def new_def)
  next
    case False
    then obtain j where j: "k = int j" "j < length schedule" "si_at (schedule ! j) = i"
      unfolding k_def using find_index_nonneg by blast
    have "schedule_ok path (splice_replace schedule k upd)"
      unfolding j(1) using j by (intro schedule_ok_replace [OF assms(1)]) (simp_all add: upd_def)
    with False schedule_ok_remove [OF assms(1)] show ?thesis
      using assms(3) unfolding unf by (auto split: if_splits)
  qed
qed

lemma upsert_step_ok:
  assumes "schedule_ok path schedule" and "uuid \<notin> pi_id ` set path"
    and "row_isPathStep r \<Longrightarrow> row_id r \<in> pi_id ` set path"
    and "cell_upsertPathStep uuid r path rows = (i, path')"
  shows "schedule_ok path' schedule \<and> i \<in> pi_id ` set path'"
proof (cases "row_isPathStep r")
  case True
  with assms show ?thesis by (simp add: cell_upsertPathStep_def)
next
  case False
  define n where "n = \<lparr>pi_id = uuid, pi_location = row_location r\<rparr>"
  define k where "k = rel_index (int (computeInsertIndex (row_opOnPathIndex r) rows path)) (length path)"
  have "path' = take k path @ n # drop k path" "i = uuid"
    using assms(4) False by (auto simp: cell_upsertPathStep_def addElementAtIndex_def splice_insert_def Let_def n_def k_def)
  moreover have "pi_id n = uuid" by (simp add: n_def)
  ultimately show ?thesis using schedule_ok_insert_step [OF assms(1), of n k] assms(2) by auto
qed

lemma cell_update_ok:
  assumes ok: "schedule_ok (ts_path t) (case ts_schedule t of None \<Rightarrow> [] | Some s \<Rightarrow> s)"
    and fresh: "uuid \<notin> pi_id ` set (ts_path t)" and ne: "ts_path t \<noteq> []"
    and known: "row_isPathStep r \<longrightarrow> row_id r \<in> pi_id ` set (ts_path t)"
  shows "\<exists>res. computeUpdatedPathAndSchedule toISO parseDate uuid t rows r u = Inr res \<and>
    (\<forall>path' schedule'. res = Some (path', schedule') \<longrightarrow> schedule_ok path' schedule')"
proof -
  define schedule where "schedule = (case ts_schedule t of None \<Rightarrow> [] | Some s \<Rightarrow> s)"
  obtain i path where up: "cell_upsertPathStep uuid r (ts_path t) rows = (i, path)" by fastforce
  have sok: "schedule_ok path schedule" and i: "i \<in> pi_id ` set path"
    using upsert_step_ok [OF ok fresh _ up] known by (auto simp: schedule_def)
  then have ne': "path \<noteq> []" by auto
  define k where "k = find_index (\<lambda>item. si_at item = i) schedule"
  show ?thesis
  proof (cases "\<exists>v. u = ReceptionSignalUpdate v")
    case True
    then obtain v where u: "u = ReceptionSignalUpdate v" by blast
    show ?thesis
    proof (cases "k < 0")
      case True
      with u up ne' show ?thesis
        by (auto simp: computeUpdatedPathAndSchedule_def Let_def k_def simp flip: schedule_def)
    next
      case False
      then obtain j where j: "k = int j" "j < length schedule"
        unfolding k_def using find_index_nonneg by blast
      then have "schedule_ok path (splice_replace schedule (int j) ((schedule ! j)\<lparr>si_reception_signal := v\<rparr>))"
        by (intro schedule_ok_replace [OF sok]) simp_all
      with False u up ne' j show ?thesis
        by (simp add: computeUpdatedPathAndSchedule_def Let_def replaceElementAtIndex_def flip: schedule_def k_def)
    qed
  next
    case False
    let ?st = "fst (applyScheduleEdit \<lparr>st_arrival = row_requestedArrival r, st_stop = row_stopDuration r\<rparr> (edit_of u))"
    obtain a s where api: "scheduleStateToApiFields toISO ?st (parseDate (ts_start_time t)) = (a, s)" by fastforce
    have "computeUpdatedPathAndSchedule toISO parseDate uuid t rows r u =
        Inr (map_option (\<lambda>s. (path, s)) (update_item schedule path i a s))"
      using False up ne' api
      by (cases u) (simp_all add: computeUpdatedPathAndSchedule_def Let_def flip: schedule_def)
    then show ?thesis using update_item_ok [OF sok i] by auto
  qed
qed

text \<open>C37: editing a cell keeps the schedule of the train in the order of its path, with at most one item per
  step and only for steps of the path, also when the edit adds a step to the path; on such a train
  nothing is thrown.\<close>

theorem cell_update_keeps_order:
  assumes ok: "schedule_ok (ts_path t) (case ts_schedule t of None \<Rightarrow> [] | Some s \<Rightarrow> s)"
    and fresh: "uuid \<notin> pi_id ` set (ts_path t)" and ne: "ts_path t \<noteq> []"
    and known: "row_isPathStep r \<longrightarrow> row_id r \<in> pi_id ` set (ts_path t)"
  shows "\<exists>res. computeUpdatedPathAndSchedule toISO parseDate uuid t rows r u = Inr res \<and>
    (\<forall>path' schedule'. res = Some (path', schedule') \<longrightarrow> schedule_ok path' schedule')"
  using cell_update_ok [OF assms] .

definition ex_row :: row where
  "ex_row =
     \<lparr>row_id = ''w'', row_opOnPathIndex = 1, row_isPathStep = False, row_location = OpPart (OpUic 90 None) None,
      row_requestedArrival = None, row_stopDuration = None, row_closedSignal = None, row_shortSlipDistance = None\<rparr>"

definition ex_path_train :: train_schedule where
  "ex_path_train =
     \<lparr>ts_train_name = ''T'', ts_start_time = ''s'', ts_rolling_stock_name = ''rs'', ts_comfort = None,
      ts_constraint_distribution = MARECO, ts_initial_speed = None, ts_labels = None, ts_margins = None, ts_options = None,
      ts_path = [\<lparr>pi_id = ''a'', pi_location = OpPart (OpUic 87 None) None\<rparr>,
                 \<lparr>pi_id = ''b'', pi_location = OpPart (OpUic 88 None) None\<rparr>],
      ts_power_restrictions = None,
      ts_schedule = Some [\<lparr>si_at = ''b'', si_arrival = Some ''x'', si_stop_for = None, si_reception_signal = None\<rparr>],
      ts_speed_limit_tag = None, ts_category = None\<rparr>"

theorem cell_update_keeps_order_witness:
  "\<exists>res. computeUpdatedPathAndSchedule (\<lambda>_. ''P'') (\<lambda>_. 0) ''n'' ex_path_train [ex_row] ex_row (ArrivalUpdate (Some 9000)) =
     Inr res \<and> (\<forall>path' schedule'. res = Some (path', schedule') \<longrightarrow> schedule_ok path' schedule')"
proof (rule cell_update_keeps_order)
  show "schedule_ok (ts_path ex_path_train) (case ts_schedule ex_path_train of None \<Rightarrow> [] | Some s \<Rightarrow> s)" by code_simp
  show "''n'' \<notin> pi_id ` set (ts_path ex_path_train)" by code_simp
  show "ts_path ex_path_train \<noteq> []" by code_simp
  show "row_isPathStep ex_row \<longrightarrow> row_id ex_row \<in> pi_id ` set (ts_path ex_path_train)" by (simp add: ex_row_def)
qed

section \<open>Arrival, stop and departure\<close>

text \<open>After any edit the departure is the arrival plus the stop, and undefined when one of them is; the
  only exception is a departure given for a step that has neither: the arrival is then the departure.\<close>

lemma applyScheduleEdit_consistent:
  "let (st, departure) = applyScheduleEdit current edit in
   departure = computeDeparture (st_arrival st) (st_stop st) \<or>
   (\<exists>d. edit = EditDeparture (Some d) \<and> st_arrival current = None \<and> st_stop current = None \<and>
        departure = Some d \<and> st_arrival st = Some d \<and> st_stop st = None)"
proof (cases "(current, edit)" rule: applyScheduleEdit.cases)
  case (4 c d)
  then show ?thesis
    by (cases "st_arrival c"; cases "st_stop c") (auto simp: computeDeparture_def new_duration_def)
qed (auto simp: computeDeparture_def split: option.split)

text \<open>The reception signal of a stop is recovered from the two check boxes that represent it.\<close>

lemma reception_signal_roundtrip:
  "onStopSignalToReceptionSignal (snd (receptionSignalToSignalBooleans signal))
     (fst (receptionSignalToSignalBooleans signal)) = signal"
proof (cases signal)
  case (Some r)
  then show ?thesis
    by (cases r) (simp_all add: receptionSignalToSignalBooleans_def onStopSignalToReceptionSignal_def)
qed (simp add: receptionSignalToSignalBooleans_def onStopSignalToReceptionSignal_def)

section \<open>Time strings\<close>

lemma nat_of_string_zero: "nat_of_string (CHR ''0'' # s) = nat_of_string s"
  by (simp add: nat_of_string_def)

lemma pad2_digits: "list_all is_digit (pad2 n)" "pad2 n \<noteq> []" "nat_of_string (pad2 n) = n" "CHR '':'' \<notin> set (pad2 n)"
proof -
  have z: "is_digit (CHR ''0'')" by (simp add: is_digit_def)
  then show d: "list_all is_digit (pad2 n)" using string_of_nat_digits [of n] by (simp add: pad2_def)
  show "pad2 n \<noteq> []" using string_of_nat_digits [of n] by (simp add: pad2_def)
  show "nat_of_string (pad2 n) = n" by (simp add: pad2_def nat_of_string_zero)
  have "\<not> is_digit (CHR '':'')" by (simp add: is_digit_def)
  with d show "CHR '':'' \<notin> set (pad2 n)" by (auto simp: list_all_iff)
qed

lemma js_number_pad2: "js_number (pad2 n) = Some (of_nat n)"
  using js_number_digits [OF pad2_digits(1,2)] by (simp add: pad2_digits)

lemma time2sec_hms:
  "time2sec (pad2 h @ '':'' @ pad2 m @ '':'' @ pad2 s) = Some (of_nat (h * 3600 + m * 60 + s))"
proof -
  have "js_split (CHR '':'') (pad2 h @ '':'' @ pad2 m @ '':'' @ pad2 s) = [pad2 h, pad2 m, pad2 s]"
    using js_split_append [OF pad2_digits(4), of h "pad2 m @ '':'' @ pad2 s"]
      js_split_append [OF pad2_digits(4), of m "pad2 s"] js_split_no_sep [OF pad2_digits(4), of s] by simp
  then show ?thesis
    by (simp add: time2sec_def Let_def js_at_def js_number_pad2 truthy_def pad2_digits(2))
qed

lemma time2sec_secToHoursString: "time2sec (secToHoursString (of_int n)) = Some (of_int (n mod 86400))"
proof -
  define s where "s = nat (n mod 86400)"
  have "s div 3600 = s div 60 div 60" by (simp flip: div_mult2_eq)
  then have "s div 3600 * 3600 + s div 60 mod 60 * 60 + s mod 60 = s"
    using div_mult_mod_eq [of "s div 60" 60] div_mult_mod_eq [of s 60] by linarith
  moreover have "(of_nat s :: num) = of_int (n mod 86400)" by (simp add: s_def)
  ultimately show ?thesis
    using time2sec_hms [of "s div 3600" "s div 60 mod 60" "s mod 60"]
    by (simp add: secToHoursString_def Let_def flip: s_def)
qed

text \<open>The time of day printed for a number of seconds is read back as these seconds modulo one day, for
  every whole number of seconds, negative ones and several days included; what is read is a time of the day.\<close>

lemma time_string_roundtrip:
  "time2sec (secToHoursString (of_int n)) = Some (of_int (n mod 86400)) \<and> n mod 86400 \<in> {0..<86400}"
  by (simp add: time2sec_secToHoursString)

section \<open>The day counter\<close>

text \<open>The seconds since the midnight before the departure.\<close>

definition event_time :: "time_extra_days \<Rightarrow> num" where
  "event_time t = of_int (the (ted_daySinceDeparture t)) * 86400 + the (time2sec (ted_time t))"

definition event_times :: "waypoint \<Rightarrow> num list" where
  "event_times w =
     (case wp_arrival w of None \<Rightarrow> [] | Some t \<Rightarrow> [event_time t]) @
     (case wp_departure w of None \<Rightarrow> [] | Some t \<Rightarrow> [event_time t])"

text \<open>A row whose time can be read as whole seconds of a day and whose stop lasts whole seconds.\<close>

definition waypoint_ok :: "waypoint \<Rightarrow> bool" where
  "waypoint_ok w \<longleftrightarrow>
     (case wp_arrival w of
        None \<Rightarrow> True
      | Some t \<Rightarrow>
          (case time2sec (ted_time t) of
             None \<Rightarrow> ted_time t = []
           | Some x \<Rightarrow> 0 \<le> x \<and> x < 86400 \<and> x = of_int \<lfloor>x\<rfloor>)) \<and>
     (case wp_stopFor w of None \<Rightarrow> True | Some d \<Rightarrow> 0 \<le> dur_ms d \<and> dur_ms d mod 1000 = 0)"

text \<open>A lower bound of the next event.\<close>

definition clock :: "int \<Rightarrow> num option \<Rightarrow> num" where
  "clock day previousTime = of_int day * 86400 + (case previousTime of None \<Rightarrow> 0 | Some p \<Rightarrow> p)"

definition time_in_day :: "num option \<Rightarrow> bool" where
  "time_in_day previousTime = (case previousTime of None \<Rightarrow> True | Some p \<Rightarrow> 0 \<le> p \<and> p < 86400)"

lemma arrival_step_clock:
  assumes "time2sec time = Some x" "0 \<le> x" "x < 86400" "time_in_day p" "index = 0 \<longrightarrow> p = None"
    and "arrival_step index time (time2sec time) day p = (t, day', p')"
  shows "p' = Some x \<and> clock day p \<le> clock day' p' \<and> event_time t = clock day' p'"
proof -
  have "time2sec ''00:00:00'' = Some 0" by code_simp
  then have mid: "time = ''00:00:00'' \<Longrightarrow> x = 0" using assms(1) by simp
  define nd where "nd = ((before_previous x p \<or> time = ''00:00:00'') \<and> \<not> (time = ''00:00:00'' \<and> index = 0))"
  have r: "t = \<lparr>ted_time = time, ted_daySinceDeparture = Some day', ted_dayDisplayed = nd\<rparr>"
    "day' = (if nd then day + 1 else day)" "p' = (if time = ''00:00:00'' then Some 0 else Some x)"
    using assms(1,6) by (auto simp: arrival_step_def Let_def nd_def)
  have p': "p' = Some x" using r(3) mid by auto
  moreover have "clock day p \<le> clock day' p'"
  proof (cases nd)
    case True
    with assms(2-4) show ?thesis unfolding r(2) p' clock_def time_in_day_def by (cases p) (auto simp: algebra_simps)
  next
    case False
    then have "\<not> before_previous x p \<or> p = None" using assms(5) by (auto simp: nd_def)
    with False assms(2-4) show ?thesis
      unfolding r(2) p' clock_def before_previous_def by (cases p) auto
  qed
  moreover have "event_time t = clock day' p'"
    unfolding r(1) p' clock_def event_time_def using assms(1) by simp
  ultimately show ?thesis by blast
qed

lemma rem_day_of_int: "0 \<le> n \<Longrightarrow> rem_day (of_int n) = of_int (n mod 86400)"
proof -
  assume "0 \<le> n"
  moreover have "\<lfloor>(of_int n :: num) / 86400\<rfloor> = n div 86400"
    using floor_divide_of_int_eq [of n 86400, where ?'a = num] by simp
  ultimately show ?thesis
    by (simp add: rem_day_def SECONDS_IN_A_DAY_def minus_mult_div_eq_mod [symmetric])
qed

lemma departure_step_clock:
  assumes "x = of_int \<lfloor>x\<rfloor>" "0 \<le> x" "0 \<le> dur_ms s" "dur_ms s mod 1000 = 0" "time_in_day p" "p \<noteq> None"
    and "departure_step x s day p = (t, day', p')"
  shows "clock day p \<le> clock day' p' \<and> event_time t = clock day' p' \<and> time_in_day p' \<and> p' \<noteq> None"
proof -
  define n where "n = \<lfloor>x\<rfloor> + dur_ms s div 1000"
  have "(of_int (dur_ms s) :: num) = of_int (1000 * (dur_ms s div 1000))"
    using assms(4) mult_div_mod_eq [of 1000 "dur_ms s"] by simp
  then have "duration_total s Second = of_int (dur_ms s div 1000)"
    by (simp add: duration_total_def SECOND_IN_MS_def)
  then have sum: "x + duration_total s Second = of_int n" using assms(1) by (simp add: n_def)
  have n: "0 \<le> n" using assms(2,3) by (simp add: n_def)
  define d :: num where "d = of_int (n mod 86400)"
  have rem: "rem_day (x + duration_total s Second) = d" unfolding sum d_def by (rule rem_day_of_int [OF n])
  have "(of_int (n mod 86400) :: num) < of_int 86400" unfolding of_int_less_iff by simp
  then have d: "0 \<le> d" "d < 86400" unfolding d_def by simp_all
  define nd where "nd = (before_previous d p \<or> d = 0)"
  have r: "t = \<lparr>ted_time = secToHoursString d, ted_daySinceDeparture = Some day', ted_dayDisplayed = nd\<rparr>"
    "day' = (if nd then day + 1 else day)" "p' = Some d"
    using assms(7) unfolding departure_step_def rem Let_def nd_def [symmetric] prod.inject by auto
  obtain q where q: "p = Some q" "0 \<le> q" "q < 86400" using assms(5,6) by (auto simp: time_in_day_def)
  have "clock day p \<le> clock day' p'"
  proof (cases nd)
    case True
    then have "clock day' p' = of_int day * 86400 + 86400 + d" by (simp add: r clock_def algebra_simps)
    with d q show ?thesis by (simp add: clock_def)
  next
    case False
    with q d show ?thesis by (simp add: r clock_def nd_def before_previous_def)
  qed
  moreover have "event_time t = clock day' p'"
    using time2sec_secToHoursString [of "n mod 86400"] unfolding r clock_def event_time_def d_def by simp
  ultimately show ?thesis using d unfolding r(3) time_in_day_def by simp
qed

lemma waypoint_step_clock:
  assumes "waypoint_ok w" "time_in_day p" "index = 0 \<longrightarrow> p = None"
    and step: "waypoint_step keep index w day p = (w', day', p')"
  shows "sorted (event_times w') \<and> (\<forall>e\<in>set (event_times w'). clock day p \<le> e \<and> e \<le> clock day' p') \<and>
    clock day p \<le> clock day' p' \<and> time_in_day p'"
proof (cases "map_option ted_time (wp_arrival w) \<in> {None, Some []}")
  case True
  then have "w' = w\<lparr>wp_arrival := None, wp_departure := None\<rparr>" "day' = day" "p' = p"
    using step by (auto simp: waypoint_step_def)
  with assms(2) show ?thesis by (simp add: event_times_def)
next
  case False
  then obtain a where a: "wp_arrival w = Some a" "ted_time a \<noteq> []" by auto
  then obtain x where x: "time2sec (ted_time a) = Some x" "0 \<le> x" "x < 86400" "x = of_int \<lfloor>x\<rfloor>"
    using assms(1) by (auto simp: waypoint_ok_def split: option.splits)
  obtain t1 day1 p1 where st1: "arrival_step index (ted_time a) (time2sec (ted_time a)) day p = (t1, day1, p1)"
    using prod_cases3 by blast
  note c1 = arrival_step_clock [OF x(1-3) assms(2,3) st1]
  then have p1: "time_in_day p1" "p1 \<noteq> None" using x by (auto simp: time_in_day_def)
  show ?thesis
  proof (cases "wp_stopFor w")
    case None
    then have "wp_departure w' = None" "wp_arrival w' \<in> {None, Some t1}" "day' = day1" "p' = p1"
      using step a st1 by (auto simp: waypoint_step_def split: if_splits)
    with c1 p1 show ?thesis by (auto simp: event_times_def)
  next
    case (Some s)
    obtain t2 day2 p2 where st2: "departure_step x s day1 p1 = (t2, day2, p2)" using prod_cases3 by blast
    have "0 \<le> dur_ms s" "dur_ms s mod 1000 = 0" using assms(1) Some by (auto simp: waypoint_ok_def)
    note c2 = departure_step_clock [OF x(4,2) this p1 st2]
    have "wp_departure w' = Some t2" "wp_arrival w' \<in> {None, Some t1}" "day' = day2" "p' = p2"
      using step a st1 st2 Some x(1) by (auto simp: waypoint_step_def split: if_splits)
    with c1 c2 show ?thesis by (auto simp: event_times_def)
  qed
qed

lemma day_since_from_sorted:
  assumes "list_all waypoint_ok ws" "time_in_day p" "index = 0 \<longrightarrow> p = None"
  shows "sorted (concat (map event_times (day_since_from keep index day p ws))) \<and>
    (\<forall>e\<in>set (concat (map event_times (day_since_from keep index day p ws))). clock day p \<le> e)"
  using assms
proof (induction ws arbitrary: index day p)
  case (Cons w ws)
  obtain w' day' p' where st: "waypoint_step keep index w day p = (w', day', p')" using prod_cases3 by blast
  have ok: "waypoint_ok w" "list_all waypoint_ok ws" using Cons.prems(1) by simp_all
  note c = waypoint_step_clock [OF ok(1) Cons.prems(2,3) st]
  then have tail: "sorted (concat (map event_times (day_since_from keep (Suc index) day' p' ws))) \<and>
    (\<forall>e\<in>set (concat (map event_times (day_since_from keep (Suc index) day' p' ws))). clock day' p' \<le> e)"
    using Cons.IH [OF ok(2), of p' "Suc index" day'] by simp
  have "day_since_from keep index day p (w # ws) = w' # day_since_from keep (Suc index) day' p' ws"
    using st by simp
  with c tail show ?case
    by (simp only: list.map concat.simps sorted_append set_append) (blast intro: order_trans)
qed simp

text \<open>The day counter shown beside the times of a train never goes back: with the day each row is given, the
  arrivals and departures of the whole table, read in order, are in chronological order, as soon as every
  time can be read as a time of the day and every stop lasts a whole number of seconds.\<close>

lemma days_chronological:
  assumes "list_all waypoint_ok rows"
  shows "sorted (concat (map event_times (updateDaySinceDeparture rows keepFirstIndexArrival)))"
  using day_since_from_sorted [OF assms, of None 0] by (simp add: updateDaySinceDeparture_def time_in_day_def)

definition ex_waypoints :: "waypoint list" where
  "ex_waypoints =
     [\<lparr>wp_arrival = Some \<lparr>ted_time = ''23:50:00'', ted_daySinceDeparture = None, ted_dayDisplayed = False\<rparr>,
       wp_departure = None, wp_stopFor = Some (Duration 2000)\<rparr>,
      \<lparr>wp_arrival = Some \<lparr>ted_time = ''01:00:00'', ted_daySinceDeparture = None, ted_dayDisplayed = False\<rparr>,
       wp_departure = None, wp_stopFor = None\<rparr>]"

text \<open>The counter can run ahead, though: a stop of no time at midnight counts the new day twice, once at
  the arrival and once at the departure.\<close>

lemma midnight_counted_twice:
  "map (\<lambda>w. (map_option ted_daySinceDeparture (wp_arrival w), map_option ted_daySinceDeparture (wp_departure w)))
     (updateDaySinceDeparture
       [\<lparr>wp_arrival = Some \<lparr>ted_time = ''23:50:00'', ted_daySinceDeparture = None, ted_dayDisplayed = False\<rparr>,
         wp_departure = None, wp_stopFor = None\<rparr>,
        \<lparr>wp_arrival = Some \<lparr>ted_time = ''00:00:00'', ted_daySinceDeparture = None, ted_dayDisplayed = False\<rparr>,
         wp_departure = None, wp_stopFor = Some (Duration 0)\<rparr>] True) =
   [(Some (Some 0), None), (Some (Some 1), Some (Some 2))]"
  by code_simp

end
