(* ===== verification/PacedTrainProperties.thy ===== *)
theory PacedTrainProperties
  imports PacedTrain
begin

text \<open>
  Properties of the paced trains: the occurrences fill the time window, their identifiers are distinct
  and lead back to the train, the worst status is a maximum, and editing an occurrence is stored in an
  exception from which the edited occurrence is recovered.
\<close>

section \<open>Occurrences\<close>

text \<open>C40: the occurrences of a paced train fill its time window: each of the counted occurrences starts in
  the window, and the one after the last would start at its end or later.\<close>

theorem occurrences_fill_window:
  assumes "0 < dur_ms interval" and "0 \<le> dur_ms timeWindow"
  shows "\<exists>n. getOccurrencesNb timeWindow interval = Inr n \<and> 0 \<le> n \<and>
    (\<forall>i. 0 \<le> i \<and> i < n \<longrightarrow>
       start \<le> computeIndexedOccurrenceStartTime start interval i \<and>
       computeIndexedOccurrenceStartTime start interval i < addDurationToDate start timeWindow) \<and>
    addDurationToDate start timeWindow \<le> computeIndexedOccurrenceStartTime start interval n"
proof -
  define d where "d = dur_ms interval"
  define w where "w = dur_ms timeWindow"
  define n where "n = \<lceil>(of_int w / of_int d :: num)\<rceil>"
  have d: "0 < d" and w: "0 \<le> w" using assms by (simp_all add: d_def w_def)
  have nb: "getOccurrencesNb timeWindow interval = Inr n"
    using d by (simp add: getOccurrencesNb_def n_def d_def w_def)
  have "(of_int w / of_int d :: num) \<le> of_int n" by (simp add: n_def)
  then have "(of_int w :: num) \<le> of_int (n * d)" using d by (simp add: divide_le_eq)
  then have up: "w \<le> n * d" by (simp only: of_int_le_iff)
  have low: "i * d < w" if "i < n" for i
  proof -
    have "(of_int i :: num) < of_int w / of_int d" using that by (simp add: n_def less_ceiling_iff)
    then have "(of_int (i * d) :: num) < of_int w" using d by (simp add: less_divide_eq)
    then show ?thesis by (simp only: of_int_less_iff)
  qed
  have "0 \<le> n * d" using up w by linarith
  then have n: "0 \<le> n" using d by (simp add: zero_le_mult_iff)
  have occ: "computeIndexedOccurrenceStartTime start interval i = start + i * d" for i
    by (simp add: computeIndexedOccurrenceStartTime_def duration_defs d_def)
  have win: "addDurationToDate start timeWindow = start + w" by (simp add: duration_defs w_def)
  have "start \<le> start + i * d \<and> start + i * d < start + w" if "0 \<le> i \<and> i < n" for i
    using that d low [of i] by simp
  with nb n up show ?thesis unfolding occ win by (intro exI [of _ n]) simp
qed

theorem occurrences_fill_window_witness:
  "\<exists>n. getOccurrencesNb (new_duration 0 120 0 0) (new_duration 0 50 0 0) = Inr n \<and> 0 \<le> n \<and>
    (\<forall>i. 0 \<le> i \<and> i < n \<longrightarrow>
       0 \<le> computeIndexedOccurrenceStartTime 0 (new_duration 0 50 0 0) i \<and>
       computeIndexedOccurrenceStartTime 0 (new_duration 0 50 0 0) i < addDurationToDate 0 (new_duration 0 120 0 0)) \<and>
    addDurationToDate 0 (new_duration 0 120 0 0) \<le> computeIndexedOccurrenceStartTime 0 (new_duration 0 50 0 0) n"
  by (rule occurrences_fill_window) (simp_all add: duration_defs)

lemma format_exception: "formatPacedTrainIdToExceptionId (formatEditoastIdToPacedTrainId (of_int n)) k =
    Inr (formatEditoastIdToExceptionId (of_int n) k)"
  by (simp add: formatPacedTrainIdToExceptionId_def extract_paced)

lemma format_indexed: "formatPacedTrainIdToIndexedOccurrenceId (formatEditoastIdToPacedTrainId (of_int n)) i =
    Inr (formatEditoastIdToIndexedOccurrenceId (of_int n) i)"
  by (simp add: formatPacedTrainIdToIndexedOccurrenceId_def extract_paced)

lemma exception_id_inject:
  "formatEditoastIdToExceptionId (of_int n) a = formatEditoastIdToExceptionId (of_int n) b \<longleftrightarrow> a = b"
  by (simp add: formatEditoastIdToExceptionId_def)

lemma indexed_id_inject:
  "formatEditoastIdToIndexedOccurrenceId (of_int n) (of_nat a) = formatEditoastIdToIndexedOccurrenceId (of_int n) (of_nat b)
   \<longleftrightarrow> a = b"
  using string_of_int_inject [of "int a" "int b"] by (simp add: formatEditoastIdToIndexedOccurrenceId_def)

lemma id_kinds_differ:
  "formatEditoastIdToIndexedOccurrenceId (of_int n) i \<noteq> formatEditoastIdToExceptionId (of_int n) k"
  by (simp add: formatEditoastIdToIndexedOccurrenceId_def formatEditoastIdToExceptionId_def)

text \<open>The identifiers of the occurrences of a paced train are one per added exception and one per
  indexed occurrence, and they are distinct when the keys of the added exceptions are.\<close>

lemma getOcurrencesIds_correct:
  assumes "added = filter (\<lambda>e. ex_occurrence_index e = None) (pc_exceptions (pt_paced t))"
    and "getOccurrencesNb (parse (pc_time_window (pt_paced t))) (parse (pc_interval (pt_paced t))) = Inr k"
    and "distinct (map ex_key added)"
  shows "\<exists>ids. getOcurrencesIds parse t (formatEditoastIdToPacedTrainId (of_int n)) = Inr ids \<and>
    length ids = length added + nat k \<and> distinct ids \<and>
    set ids = (\<lambda>e. formatEditoastIdToExceptionId (of_int n) (ex_key e)) ` set added \<union>
              (\<lambda>i. formatEditoastIdToIndexedOccurrenceId (of_int n) (of_nat i)) ` {0..<nat k}"
proof -
  let ?exc = "\<lambda>e. formatEditoastIdToExceptionId (of_int n) (ex_key e)"
  let ?idx = "\<lambda>i. formatEditoastIdToIndexedOccurrenceId (of_int n) (of_nat i)"
  have a: "map_result (\<lambda>e. formatPacedTrainIdToExceptionId (formatEditoastIdToPacedTrainId (of_int n)) (ex_key e)) added =
      Inr (map ?exc added)"
    by (rule map_result_total) (simp add: format_exception)
  have b: "map_result (\<lambda>i. formatPacedTrainIdToIndexedOccurrenceId (formatEditoastIdToPacedTrainId (of_int n)) (of_nat i))
      [0..<nat k] = Inr (map ?idx [0..<nat k])"
    by (rule map_result_total) (simp add: format_indexed)
  have e: "getOcurrencesIds parse t (formatEditoastIdToPacedTrainId (of_int n)) =
      Inr (map ?exc added @ map ?idx [0..<nat k])"
    using a b assms(2) by (simp add: getOcurrencesIds_def flip: assms(1))
  have "distinct (map ?exc added)"
    using assms(3) unfolding distinct_map inj_on_def exception_id_inject by blast
  moreover have "distinct (map ?idx [0..<nat k])"
    by (simp add: distinct_map inj_on_def indexed_id_inject)
  ultimately have "distinct (map ?exc added @ map ?idx [0..<nat k])"
    using id_kinds_differ [of n] by (auto dest: sym)
  then show ?thesis by (intro exI [of _ "map ?exc added @ map ?idx [0..<nat k]"]) (simp add: e)
qed

definition no_exception :: paced_exception where
  "no_exception = change_groups.extend no_groups (paced_exception.fields ''k1'' None None)"

definition ex_train :: paced_train where
  "ex_train =
     \<lparr>ts_train_name = ''TER 6'', ts_start_time = ''s'', ts_rolling_stock_name = ''rs'', ts_comfort = Some ComfortStandard,
      ts_constraint_distribution = MARECO, ts_initial_speed = Some 0, ts_labels = Some [],
      ts_margins = Some \<lparr>mg_boundaries = [], mg_values = [''5%'']\<rparr>, ts_options = Some empty_options,
      ts_path = [\<lparr>pi_id = ''a'', pi_location = OpPart (OpUic 87 None) None\<rparr>,
                 \<lparr>pi_id = ''b'', pi_location = OpPart (OpUic 88 None) None\<rparr>],
      ts_power_restrictions = Some [], ts_schedule = Some [], ts_speed_limit_tag = None, ts_category = None,
      pt_paced = \<lparr>pc_time_window = ''w'', pc_interval = ''i'',
        pc_exceptions = [no_exception\<lparr>cg_labels := Some [''x'']\<rparr>,
                         no_exception\<lparr>cg_labels := Some [''y''], ex_key := ''k2'', ex_occurrence_index := Some 1\<rparr>]\<rparr>\<rparr>"

definition ex_parse :: "string \<Rightarrow> duration" where
  "ex_parse s = (if s = ''w'' then Duration 100 else Duration 40)"

section \<open>Worst status\<close>

fun severity :: "train_status \<Rightarrow> nat" where
  "severity NoIssue = 0"
| "severity TooFast = 1"
| "severity NotHonored = 2"
| "severity Invalid = 3"

lemma severity_inject: "severity a = severity b \<Longrightarrow> a = b"
  by (cases a; cases b) auto

instantiation train_status :: linorder
begin

definition less_eq_train_status :: "train_status \<Rightarrow> train_status \<Rightarrow> bool" where
  "less_eq_train_status a b \<longleftrightarrow> severity a \<le> severity b"

definition less_train_status :: "train_status \<Rightarrow> train_status \<Rightarrow> bool" where
  "less_train_status a b \<longleftrightarrow> severity a < severity b"

instance
  by standard (auto simp: less_eq_train_status_def less_train_status_def severity_inject)

end

fun summary_status :: "summary option \<Rightarrow> train_status" where
  "summary_status None = NoIssue"
| "summary_status (Some InvalidSummary) = Invalid"
| "summary_status (Some (ValidSummary None)) = NoIssue"
| "summary_status (Some (ValidSummary (Some r))) = status_of r"

lemmas status_order = less_eq_train_status_def less_train_status_def max_def

lemma status_max [simp]: "max Invalid x = Invalid" "max x Invalid = Invalid" "max NoIssue x = x" "max x NoIssue = x"
  by (cases x; simp add: status_order)+

lemma foldr_max_left: "foldr max xs (max a b) = max a (foldr max xs (b :: train_status))"
  by (induction xs) (simp_all add: max.left_commute)

lemma worst_from_step:
  "className \<noteq> Invalid \<Longrightarrow> s \<noteq> Some InvalidSummary \<or> d \<Longrightarrow>
   worst_status_from className ((s, d) # exceptions) =
     worst_status_from (max (if d then NoIssue else summary_status s) className) exceptions \<and>
   max (if d then NoIssue else summary_status s) className \<noteq> Invalid"
proof (cases s rule: summary_status.cases; cases d)
  fix r
  assume a: "className \<noteq> Invalid" and s: "s = Some (ValidSummary (Some r))" and d: "\<not> d"
  have "(if className \<noteq> NotHonored then status_of r else className) = max (status_of r) className \<and>
      max (status_of r) className \<noteq> Invalid"
    using a by (cases className; cases r) (simp_all add: status_order)
  then show ?thesis using s d by simp
qed auto

lemma worst_from_max:
  "className \<noteq> Invalid \<Longrightarrow>
   worst_status_from className exceptions =
     foldr max (map (\<lambda>(s, d). if d then NoIssue else summary_status s) exceptions) className"
proof (induction exceptions arbitrary: className)
  case (Cons e exceptions)
  obtain s d where e: "e = (s, d)" by (cases e)
  show ?case
  proof (cases "s \<noteq> Some InvalidSummary \<or> d")
    case True
    note step = worst_from_step [OF Cons.prems True, of exceptions]
    then show ?thesis using Cons.IH e by (simp add: foldr_max_left)
  next
    case False
    then show ?thesis using e by simp
  qed
qed simp

text \<open>The status shown for a paced train is the worst of the statuses of the train and of its enabled
  exceptions, in the order no issue, train too fast, schedule not honored, invalid.\<close>

lemma worst_status_is_max:
  "getOccurrencesWorstStatus s exceptions =
     foldr max (map (\<lambda>(s, d). if d then NoIssue else summary_status s) exceptions) (summary_status s)"
proof -
  have inv: "foldr max xs Invalid = Invalid" for xs by (induction xs) simp_all
  have ne: "status_of r \<noteq> Invalid" for r by (cases r) simp_all
  show ?thesis
    by (cases s rule: summary_status.cases) (simp_all add: getOccurrencesWorstStatus_def worst_from_max inv ne)
qed

end
