(* ===== verification/ExceptionProperties.thy ===== *)
theory ExceptionProperties
  imports PacedTrainProperties
begin

text \<open>
  Properties of the exceptions of a paced train: the exception generated from an edited occurrence
  restores that occurrence, the list of exceptions behaves as a map from occurrences to exceptions, and
  the clean-up of change groups after an edit of the train does not change any occurrence.
\<close>

section \<open>Storing an edited occurrence\<close>

lemma or_else_Some [simp]: "or_else (Some x) d = x"
  by (simp add: or_else_def)

lemma base_steps_schedule: "base_steps parse path (Some (or_else sch [])) m = base_steps parse path sch m"
proof -
  have "Option.bind (Some (or_else sch [])) (find p) = Option.bind sch (find p)" for p
    by (cases sch) (simp_all add: or_else_def)
  then have "computeBasePathStep parse path (Some (or_else sch [])) m = computeBasePathStep parse path sch m"
    by (intro ext) (simp only: computeBasePathStep_def)
  then show ?thesis by (simp only: base_steps_def)
qed

text \<open>The fields of a train that an exception stores exactly.\<close>

definition same_settings :: "'a train_schedule_scheme \<Rightarrow> 'b train_schedule_scheme \<Rightarrow> bool" where
  "same_settings a b \<longleftrightarrow>
     ts_constraint_distribution a = ts_constraint_distribution b \<and> ts_initial_speed a = ts_initial_speed b \<and>
     ts_labels a = ts_labels b \<and> ts_rolling_stock_name a = ts_rolling_stock_name b \<and> ts_comfort a = ts_comfort b \<and>
     ts_category a = ts_category b \<and> ts_speed_limit_tag a = ts_speed_limit_tag b"

lemma generate_groups:
  assumes "generatePacedTrainException parse parseDate updated original idx = Inr g"
  obtains a b where "base_steps parse (ts_path original) (ts_schedule original) (ts_margins original) = Inr a"
    "base_steps parse (ts_path updated) (ts_schedule updated) (ts_margins updated) = Inr b"
    "cg_path_and_schedule g = (if \<not> same_steps a b then Some (path_group updated) else None)"
  using assms unfolding generatePacedTrainException_def by auto

lemma generate_settings:
  assumes "generatePacedTrainException parse parseDate updated original idx = Inr g"
    and "ts_initial_speed updated \<noteq> None" "ts_labels updated \<noteq> None" "ts_comfort updated \<noteq> None"
  shows "same_settings (apply_change_groups g original) updated"
proof -
  from assms(1) have
    "cg_constraint_distribution g =
       (if ts_constraint_distribution original \<noteq> ts_constraint_distribution updated
        then Some (ts_constraint_distribution updated) else None)"
    "cg_initial_speed g =
       (if ts_initial_speed original \<noteq> ts_initial_speed updated then Some (or_else (ts_initial_speed updated) 0) else None)"
    "cg_labels g = (if ts_labels original \<noteq> ts_labels updated then Some (or_else (ts_labels updated) []) else None)"
    "cg_rolling_stock g =
       (if ts_rolling_stock_name original \<noteq> ts_rolling_stock_name updated \<or> ts_comfort original \<noteq> ts_comfort updated
        then Some (ts_rolling_stock_name updated,
                   or_else (ts_comfort updated) (or_else (ts_comfort original) ComfortStandard)) else None)"
    "cg_rolling_stock_category g =
       (if ts_category original \<noteq> ts_category updated then Some (ts_category updated) else None)"
    "cg_speed_limit_tag g =
       (if ts_speed_limit_tag original \<noteq> ts_speed_limit_tag updated then Some (ts_speed_limit_tag updated) else None)"
    unfolding generatePacedTrainException_def by auto
  moreover obtain v l c where "ts_initial_speed updated = Some v" "ts_labels updated = Some l" "ts_comfort updated = Some c"
    using assms(2-4) by blast
  ultimately show ?thesis by (simp add: same_settings_def apply_change_groups_def)
qed

lemma generate_options:
  "generatePacedTrainException parse parseDate updated original idx = Inr g \<Longrightarrow>
   cg_options g = (if ts_options original \<noteq> ts_options updated then Some (or_else (ts_options updated) empty_options)
                   else None)"
  unfolding generatePacedTrainException_def by auto

lemma apply_path_steps:
  assumes "cg_path_and_schedule g = Some (path_group updated)" and "ts_margins updated \<noteq> None"
  shows "base_steps parse (ts_path (apply_change_groups g t)) (ts_schedule (apply_change_groups g t))
      (ts_margins (apply_change_groups g t)) =
    base_steps parse (ts_path updated) (ts_schedule updated) (ts_margins updated)"
proof -
  obtain m where "ts_margins updated = Some m" using assms(2) by blast
  with assms(1) show ?thesis by (simp add: apply_change_groups_def path_group_def base_steps_schedule)
qed

text \<open>The name and the start of an occurrence as the lists and the chart show them: those of its exception, if it has some, else the ones
  computed from the paced train and the index of the occurrence. Starts are compared to the second.\<close>

definition shown_name :: "string \<Rightarrow> int option \<Rightarrow> change_groups option \<Rightarrow> string" where
  "shown_name train_name idx g = (case Option.bind g cg_train_name of None \<Rightarrow> expected_name train_name idx | Some n \<Rightarrow> n)"

definition shown_start ::
  "(string \<Rightarrow> duration) \<Rightarrow> (string \<Rightarrow> date) \<Rightarrow> string \<Rightarrow> string \<Rightarrow> int option \<Rightarrow> change_groups option \<Rightarrow> date" where
  "shown_start parse parseDate start interval idx g =
     (case Option.bind g cg_start_time of None \<Rightarrow> expected_start parse parseDate start interval idx | Some s \<Rightarrow> drop_milliseconds (parseDate s))"

lemma generate_name_start:
  assumes "generatePacedTrainException parse parseDate updated original idx = Inr g"
  shows "shown_name (ts_train_name original) idx (Some g) = ts_train_name updated"
    "shown_start parse parseDate (ts_start_time original) (pc_interval (pt_paced original)) idx (Some g) =
       drop_milliseconds (parseDate (ts_start_time updated))"
  using assms unfolding generatePacedTrainException_def by (auto simp: shown_name_def shown_start_def)

lemma shown_no_groups:
  "shown_name n idx (Some no_groups) = shown_name n idx None"
  "shown_start parse parseDate s i idx (Some no_groups) = shown_start parse parseDate s i idx None"
  by (simp_all add: shown_name_def shown_start_def no_groups_def)

lemma exception_restores:
  assumes gen: "generatePacedTrainException parse parseDate updated original idx = Inr g"
    and "ts_initial_speed updated \<noteq> None" "ts_labels updated \<noteq> None" "ts_comfort updated \<noteq> None"
    and opts: "ts_options original \<noteq> None" "ts_options updated \<noteq> None" and m: "ts_margins updated \<noteq> None"
  shows "\<exists>occ original' a b. extractOccurrenceDetailsFromPacedTrain original (Some g) = Inr (occ, original') \<and>
    same_settings occ updated \<and> ts_options occ = ts_options updated \<and>
    base_steps parse (ts_path occ) (ts_schedule occ) (ts_margins occ) = Inr a \<and>
    base_steps parse (ts_path updated) (ts_schedule updated) (ts_margins updated) = Inr b \<and> same_steps a b \<and>
    (\<exists>a0. base_steps parse (ts_path original) (ts_schedule original) (ts_margins original) = Inr a0 \<and>
      (if same_steps a0 b then ts_path occ = ts_path original \<and> ts_power_restrictions occ = ts_power_restrictions original
       else ts_path occ = ts_path updated \<and> ts_power_restrictions occ = Some (or_else (ts_power_restrictions updated) [])))"
proof -
  let ?occ = "apply_change_groups g original"
  define occ where "occ = (case cg_options g of None \<Rightarrow> ?occ | Some v \<Rightarrow> ?occ\<lparr>ts_options := Some v\<rparr>)"
  have e: "\<exists>original'. extractOccurrenceDetailsFromPacedTrain original (Some g) = Inr (occ, original')"
    using opts(1) unfolding extractOccurrenceDetailsFromPacedTrain_def occ_def
    by (cases "cg_options g") (auto simp: Let_def)
  have path: "ts_path occ = ts_path ?occ" "ts_schedule occ = ts_schedule ?occ" "ts_margins occ = ts_margins ?occ"
    "ts_power_restrictions occ = ts_power_restrictions ?occ"
    by (simp_all add: occ_def split: option.split)
  have s: "same_settings occ updated"
    using generate_settings [OF gen assms(2-4)] by (simp add: occ_def same_settings_def split: option.split)
  have o: "ts_options occ = ts_options updated"
    using generate_options [OF gen] opts
    by (auto simp: occ_def apply_change_groups_def split: option.split if_splits)
  from generate_groups [OF gen] obtain a b
    where a: "base_steps parse (ts_path original) (ts_schedule original) (ts_margins original) = Inr a"
      and b: "base_steps parse (ts_path updated) (ts_schedule updated) (ts_margins updated) = Inr b"
      and g: "cg_path_and_schedule g = (if \<not> same_steps a b then Some (path_group updated) else None)" .
  show ?thesis
  proof (cases "same_steps a b")
    case True
    then have "ts_path ?occ = ts_path original" "ts_schedule ?occ = ts_schedule original" "ts_margins ?occ = ts_margins original"
      "ts_power_restrictions ?occ = ts_power_restrictions original"
      using g by (simp_all add: apply_change_groups_def)
    with a b e s o g True path show ?thesis by auto
  next
    case False
    then have pg: "cg_path_and_schedule g = Some (path_group updated)" using g by simp
    have "same_steps b b" by (simp add: same_steps_def)
    moreover have "ts_path ?occ = ts_path updated \<and> ts_power_restrictions ?occ = Some (or_else (ts_power_restrictions updated) [])"
      using pg by (simp add: apply_change_groups_def path_group_def)
    ultimately show ?thesis using e s o a b path False apply_path_steps [OF pg m, of parse original] by metis
  qed
qed

text \<open>C32: the exception generated for an edited occurrence restores the edit: applied to the paced train
  it gives the settings (distribution, initial speed, labels, rolling stock, comfort, category, tag) and the
  options of the occurrence, the name of the occurrence, its start to the second, and a path with the same steps up to their
  identifiers. Its path items and power restrictions are those of the occurrence when the steps differ from those of
  the train; when they do not, they are those of the train, so that an edit of the power restrictions alone is
  lost (\<open>power_restrictions_edit_lost\<close> below).\<close>

theorem exception_restores_occurrence:
  assumes gen: "generatePacedTrainException parse parseDate updated original idx = Inr g"
    and "ts_initial_speed updated \<noteq> None" "ts_labels updated \<noteq> None" "ts_comfort updated \<noteq> None"
    and opts: "ts_options original \<noteq> None" "ts_options updated \<noteq> None" and m: "ts_margins updated \<noteq> None"
  shows "shown_name (ts_train_name original) idx (Some g) = ts_train_name updated \<and>
    shown_start parse parseDate (ts_start_time original) (pc_interval (pt_paced original)) idx (Some g) =
      drop_milliseconds (parseDate (ts_start_time updated)) \<and>
    (\<exists>occ original' a b. extractOccurrenceDetailsFromPacedTrain original (Some g) = Inr (occ, original') \<and>
    same_settings occ updated \<and> ts_options occ = ts_options updated \<and>
    base_steps parse (ts_path occ) (ts_schedule occ) (ts_margins occ) = Inr a \<and>
    base_steps parse (ts_path updated) (ts_schedule updated) (ts_margins updated) = Inr b \<and> same_steps a b \<and>
    (\<exists>a0. base_steps parse (ts_path original) (ts_schedule original) (ts_margins original) = Inr a0 \<and>
      (if same_steps a0 b then ts_path occ = ts_path original \<and> ts_power_restrictions occ = ts_power_restrictions original
       else ts_path occ = ts_path updated \<and> ts_power_restrictions occ = Some (or_else (ts_power_restrictions updated) []))))"
  using exception_restores [OF assms] generate_name_start [OF gen] by blast

definition ex_update :: train_schedule where
  "ex_update = train_schedule.truncate (ex_train\<lparr>ts_labels := Some [''late''], ts_train_name := ''TER 8''\<rparr>)"

theorem exception_restores_occurrence_witness:
  "\<exists>g occ original'. generatePacedTrainException ex_parse (\<lambda>_. 0) ex_update ex_train (Some 1) = Inr g \<and>
     extractOccurrenceDetailsFromPacedTrain ex_train (Some g) = Inr (occ, original') \<and> ts_labels occ = Some [''late''] \<and>
     shown_name (ts_train_name ex_train) (Some 1) (Some g) = ''TER 8''"
proof -
  have "\<not> isl (generatePacedTrainException ex_parse (\<lambda>_. 0) ex_update ex_train (Some 1))" by code_simp
  then obtain g where g: "generatePacedTrainException ex_parse (\<lambda>_. 0) ex_update ex_train (Some 1) = Inr g"
    by (cases "generatePacedTrainException ex_parse (\<lambda>_. 0) ex_update ex_train (Some 1)") auto
  have "ts_initial_speed ex_update \<noteq> None" "ts_comfort ex_update \<noteq> None" "ts_options ex_train \<noteq> None"
    "ts_options ex_update \<noteq> None" "ts_margins ex_update \<noteq> None" by code_simp+
  moreover have l: "ts_labels ex_update = Some [''late'']" "ts_train_name ex_update = ''TER 8''" by code_simp+
  ultimately obtain occ original' where
    "extractOccurrenceDetailsFromPacedTrain ex_train (Some g) = Inr (occ, original')" "same_settings occ ex_update"
    "shown_name (ts_train_name ex_train) (Some 1) (Some g) = ts_train_name ex_update"
    using exception_restores_occurrence [OF g] by blast
  with g l show ?thesis unfolding same_settings_def by auto
qed

text \<open>An edit of the power restrictions alone produces no change group and is lost.\<close>

lemma power_restrictions_edit_lost:
  "generatePacedTrainException ex_parse (\<lambda>_. 0)
     (ex_train\<lparr>ts_power_restrictions := Some [\<lparr>pr_from = ''a'', pr_to = ''b'', pr_value = ''C1''\<rparr>],
               ts_train_name := ''TER 8''\<rparr>) ex_train (Some 1) = Inr no_groups"
  by code_simp

text \<open>Extracting the details of an occurrence changes the paced train exactly when the exception changes
  the options to other values.\<close>

lemma extract_changes_train:
  "extractOccurrenceDetailsFromPacedTrain t (Some g) = Inr (occ, t') \<Longrightarrow>
   t' = t \<longleftrightarrow> cg_options g = None \<or> cg_options g = ts_options t"
proof (cases "cg_options g")
  case (Some v)
  assume "extractOccurrenceDetailsFromPacedTrain t (Some g) = Inr (occ, t')"
  with Some have "t' = t\<lparr>ts_options := Some v\<rparr>"
    by (auto simp: extractOccurrenceDetailsFromPacedTrain_def Let_def split: option.splits)
  moreover have "t\<lparr>ts_options := Some v\<rparr> = t \<longleftrightarrow> ts_options t = Some v" by (cases t) auto
  ultimately show ?thesis using Some by auto
qed (simp add: extractOccurrenceDetailsFromPacedTrain_def Let_def)

section \<open>The list of exceptions\<close>

lemma find_replace:
  assumes "find p es = Some e" and "p new"
  shows "find p (splice_replace es (find_index p es) new) = Some new \<and>
    filter (\<lambda>e. \<not> p e) (splice_replace es (find_index p es) new) = filter (\<lambda>e. \<not> p e) es"
  using assms(1)
proof (induction es)
  case (Cons x es)
  show ?case
  proof (cases "p x")
    case True
    with assms(2) show ?thesis by (simp add: splice_replace_def rel_index_def)
  next
    case False
    with Cons have IH: "find p (splice_replace es (find_index p es) new) = Some new"
      "filter (\<lambda>e. \<not> p e) (splice_replace es (find_index p es) new) = filter (\<lambda>e. \<not> p e) es" by auto
    from Cons.prems False have "\<exists>y\<in>set es. p y" by (auto simp: find_Some_iff)
    then obtain k where k: "find_index p es = int k" "k < length es"
      by (cases rule: find_index_cases [of p es]) auto
    have "splice_replace (x # es) (find_index p (x # es)) new = x # splice_replace es (find_index p es) new"
      using False k by (simp add: splice_replace_def rel_index_def nat_add_distrib Let_def)
    with IH False show ?thesis by simp
  qed
qed simp

lemma filter_remove:
  assumes "find p es = Some e"
  shows "filter (\<lambda>e. \<not> p e) (splice_remove es (find_index p es)) = filter (\<lambda>e. \<not> p e) es \<and>
    length (filter p es) = Suc (length (filter p (splice_remove es (find_index p es))))"
proof -
  have "\<exists>y\<in>set es. p y" using assms by (auto simp: find_Some_iff)
  then obtain k where k: "find_index p es = int k" "k < length es" "p (es ! k)"
    by (cases rule: find_index_cases [of p es]) auto
  have "splice_remove es (int k) = take k es @ drop (Suc k) es" using k(2) by (simp add: splice_remove_def)
  moreover have "filter q es = filter q (take k es @ es ! k # drop (Suc k) es)" for q
    by (simp only: id_take_nth_drop [OF k(2), symmetric])
  ultimately show ?thesis using k by simp
qed

text \<open>The contract of the list of exceptions: an occurrence selects its exception by a test, and an update
  stores the exception when it is relevant. Its clients only need that the list behaves as a map.\<close>

locale exception_store =
  fixes select :: "'i \<Rightarrow> ('e \<Rightarrow> bool) result"
    and update :: "'e list \<Rightarrow> 'e \<Rightarrow> 'i \<Rightarrow> 'e list result"
    and relevant :: "'e \<Rightarrow> bool"
  assumes update_law: "select i = Inr p \<Longrightarrow> p e \<Longrightarrow> length (filter p es) \<le> 1 \<Longrightarrow>
    \<exists>es'. update es e i = Inr es' \<and> find p es' = (if relevant e then Some e else None) \<and>
      filter (\<lambda>e. \<not> p e) es' = filter (\<lambda>e. \<not> p e) es"
begin

lemma find_filter: "(\<And>e. q e \<Longrightarrow> r e) \<Longrightarrow> find q (filter r es) = find q es"
  by (induction es) auto

text \<open>The exceptions of other occurrences do not change.\<close>

lemma update_other:
  assumes "select i = Inr p" "p e" "length (filter p es) \<le> 1" "update es e i = Inr es'" "\<And>x. q x \<Longrightarrow> \<not> p x"
  shows "find q es' = find q es"
proof -
  have "filter (\<lambda>e. \<not> p e) es' = filter (\<lambda>e. \<not> p e) es" using update_law [OF assms(1-3)] assms(4) by auto
  then show ?thesis using find_filter [of q "\<lambda>e. \<not> p e"] assms(5) by metis
qed

text \<open>The exception found for the occurrence is the new one, if it is relevant.\<close>

lemma update_found:
  assumes "select i = Inr p" "p e" "length (filter p es) \<le> 1" "update es e i = Inr es'"
  shows "find p es' = (if relevant e then Some e else None)"
  using update_law [OF assms(1-3)] assms(4) by auto

end

lemma update_exceptions:
  assumes "exception_of occurrenceId = Inr p" and "p new" and "length (filter p es) \<le> 1"
  shows "\<exists>es'. updatePacedTrainExceptionsList es new occurrenceId = Inr es' \<and>
    find p es' = (if groups_of new \<noteq> no_groups \<or> ex_disabled new = Some True then Some new else None) \<and>
    filter (\<lambda>e. \<not> p e) es' = filter (\<lambda>e. \<not> p e) es"
proof (cases "find p es")
  case None
  moreover from None have "find p (es @ [new]) = Some new"
    using assms(2) by (induction es) (auto split: if_splits)
  ultimately show ?thesis
    using assms(1,2) by (simp add: updatePacedTrainExceptionsList_def)
next
  case (Some e)
  define k where "k = find_index p es"
  have gone: "find p (splice_remove es k) = None"
  proof -
    have "filter p (splice_remove es k) = []"
      using filter_remove [OF Some] assms(3) unfolding k_def by (cases "filter p (splice_remove es (find_index p es))") auto
    then show ?thesis by (simp add: find_None_iff filter_empty_conv)
  qed
  show ?thesis
    using assms(1) Some gone find_replace [OF Some assms(2)] filter_remove [OF Some]
    by (simp add: updatePacedTrainExceptionsList_def replaceElementAtIndex_def removeElementAtIndex_def Let_def
        flip: k_def)
qed

interpretation exceptions: exception_store exception_of updatePacedTrainExceptionsList
    "\<lambda>e. groups_of e \<noteq> no_groups \<or> ex_disabled e = Some True"
  by unfold_locales (rule update_exceptions)

text \<open>After an update the exception of the occurrence is the new one, or none when the new one
  changes nothing, and the exceptions of the other occurrences are as before; at most one exception
  per occurrence is assumed.\<close>

lemma updatePacedTrainExceptionsList_correct:
  assumes "exception_of occurrenceId = Inr p" and "p new" and "length (filter p es) \<le> 1"
  shows "\<exists>es'. updatePacedTrainExceptionsList es new occurrenceId = Inr es' \<and>
    find p es' = (if groups_of new \<noteq> no_groups \<or> ex_disabled new = Some True then Some new else None) \<and>
    filter (\<lambda>e. \<not> p e) es' = filter (\<lambda>e. \<not> p e) es"
  using update_exceptions [OF assms] .

section \<open>Cleaning change groups\<close>

lemma keep_unless_effect:
  "(\<And>v. p v \<Longrightarrow> f v = d) \<Longrightarrow>
   (case keep_unless g p of None \<Rightarrow> d | Some v \<Rightarrow> f v) = (case g of None \<Rightarrow> d | Some v \<Rightarrow> f v)"
  by (simp add: keep_unless_def split: option.split)

text \<open>When the paced train has been edited, dropping the change groups that match it does not change
  the settings of any occurrence, nor its options; and a path group is dropped only when the steps of
  the train are the same.\<close>

lemma checkChangeGroups_keeps_occurrences:
  assumes "check_exception parse parseDate t interval e = Inr e'"
  shows "same_settings (apply_change_groups (groups_of e') t) (apply_change_groups (groups_of e) t) \<and>
    cg_options e' = cg_options e \<and> ex_key e' = ex_key e \<and> ex_occurrence_index e' = ex_occurrence_index e \<and>
    (\<forall>p. cg_path_and_schedule e = Some p \<longrightarrow> cg_path_and_schedule e' = Some p \<or>
       (\<exists>a b. base_steps parse (ts_path t) (ts_schedule t) (ts_margins t) = Inr a \<and>
              base_steps parse (pas_path p) (Some (pas_schedule p)) (Some (pas_margins p)) = Inr b \<and> same_steps a b))"
proof -
  from assms have keep:
    "cg_constraint_distribution e' = keep_unless (cg_constraint_distribution e) (\<lambda>v. v = ts_constraint_distribution t)"
    "cg_initial_speed e' = keep_unless (cg_initial_speed e) (\<lambda>v. Some v = ts_initial_speed t)"
    "cg_labels e' = keep_unless (cg_labels e) (\<lambda>v. Some v = ts_labels t)"
    "cg_rolling_stock e' =
       keep_unless (cg_rolling_stock e) (\<lambda>(n, c). Some c = ts_comfort t \<and> n = ts_rolling_stock_name t)"
    "cg_rolling_stock_category e' = keep_unless (cg_rolling_stock_category e) (\<lambda>v. v = ts_category t)"
    "cg_speed_limit_tag e' = keep_unless (cg_speed_limit_tag e) (\<lambda>v. v = ts_speed_limit_tag t)"
    and same: "cg_options e' = cg_options e" "ex_key e' = ex_key e" "ex_occurrence_index e' = ex_occurrence_index e"
    unfolding check_exception_def by auto
  have "same_settings (apply_change_groups (groups_of e') t) (apply_change_groups (groups_of e) t)"
    unfolding same_settings_def apply_change_groups_def
    by (simp add: groups_of_def change_groups.truncate_def keep)
       (auto simp: keep_unless_effect keep_unless_def split: option.split)
  moreover have "cg_path_and_schedule e = Some p \<longrightarrow> cg_path_and_schedule e' = Some p \<or>
       (\<exists>a b. base_steps parse (ts_path t) (ts_schedule t) (ts_margins t) = Inr a \<and>
              base_steps parse (pas_path p) (Some (pas_schedule p)) (Some (pas_margins p)) = Inr b \<and> same_steps a b)" for p
    using assms unfolding check_exception_def by (auto split: if_splits)
  ultimately show ?thesis using same by blast
qed

end
