(* ===== verification/TimetablePayload.thy ===== *)
theory TimetablePayload
  imports OpStudiesConf PathTracks ExceptionProperties
begin

text \<open>
  Saving the edited train: the payload sent to the server is built from the operational studies slice.
  Models \<open>formatTimetableItemPayload.ts\<close>, \<open>formatMargin.ts\<close> and \<open>formatSchedule.ts\<close> of
  \<open>front/src/applications/operationalStudies/views/Scenario/components/ManageTimetableItem/helpers\<close>.
  The ISO 8601 printers of durations (\<open>toISO\<close>, dayjs) and dates (\<open>dateISO\<close>) are parameters, as the parsers.
\<close>

section \<open>Margins and schedule\<close>

definition push_margin :: "margins \<Rightarrow> string \<Rightarrow> string \<Rightarrow> margins" where
  "push_margin m i v = m\<lparr>mg_boundaries := mg_boundaries m @ [i], mg_values := mg_values m @ [v]\<rparr>"

fun format_margin_from :: "nat \<Rightarrow> nat \<Rightarrow> margins \<Rightarrow> path_step list \<Rightarrow> margins" where
  "format_margin_from n index m [] = m"
| "format_margin_from n index m (s # steps) =
     format_margin_from n (Suc index)
       (if index = 0 then
          m\<lparr>mg_values := mg_values m @ [if truthy (ps_theoreticalMargin s) then the (ps_theoreticalMargin s) else ''0%'']\<rparr>
        else if index = n - 1 then
          (if length (mg_values m) = 1 \<and> mg_values m ! 0 \<noteq> ''0%'' \<and> mg_values m ! 0 \<noteq> ''0min/100km''
           then push_margin m (ps_id s) ''0%'' else m)
        else if truthy (ps_theoreticalMargin s) then push_margin m (ps_id s) (the (ps_theoreticalMargin s))
        else m) steps"

definition formatMargin :: "path_step list \<Rightarrow> margins" where
  "formatMargin steps = format_margin_from (length steps) 0 \<lparr>mg_boundaries = [], mg_values = []\<rparr> steps"

text \<open>\<open>formatSchedule\<close> of the helper directory; a duration is an object and counts as true.\<close>

definition step_schedule :: "(duration \<Rightarrow> string) \<Rightarrow> path_step \<Rightarrow> schedule_item option" where
  "step_schedule toISO step =
     (if ps_arrival step \<noteq> None \<or> ps_stopFor step \<noteq> None
      then Some \<lparr>si_at = ps_id step, si_arrival = map_option toISO (ps_arrival step),
                 si_stop_for = map_option toISO (ps_stopFor step), si_reception_signal = ps_receptionSignal step\<rparr>
      else None)"

definition payload_formatSchedule :: "(duration \<Rightarrow> string) \<Rightarrow> path_step list \<Rightarrow> schedule_item list" where
  "payload_formatSchedule toISO steps = js_compact (map (step_schedule toISO) steps)"

section \<open>The payload\<close>

definition format_path_item :: "path_step \<Rightarrow> path_item result" where
  "format_path_item step =
     bind_result (getStepLocation (ps_location step)) (\<lambda>l. Inr \<lparr>pi_id = ps_id step, pi_location = l\<rparr>)"

definition formatTimetableItemPayload ::
  "(duration \<Rightarrow> string) \<Rightarrow> (date \<Rightarrow> string) \<Rightarrow> op_conf \<Rightarrow> string \<Rightarrow> train_schedule result" where
  "formatTimetableItemPayload toISO dateISO osrdconf rsName =
     (let steps = js_compact (pathSteps osrdconf) in
      bind_result (map_result format_path_item steps) (\<lambda>path.
        Inr \<lparr>ts_train_name = name osrdconf,
             ts_start_time = dateISO (startTime osrdconf),
             ts_rolling_stock_name = rsName,
             ts_comfort = Some (rollingStockComfort osrdconf),
             ts_constraint_distribution = constraintDistribution osrdconf,
             ts_initial_speed =
               Some (case initialSpeed osrdconf of None \<Rightarrow> 0 | Some v \<Rightarrow> if v = 0 then 0 else kmhToMs v),
             ts_labels = Some (labels osrdconf),
             ts_margins = Some (formatMargin steps),
             ts_options = Some \<lparr>to_use_electrical_profiles = Some (usingElectricalProfiles osrdconf),
                                to_use_speed_limits_for_simulation = Some (usingSpeedLimits osrdconf),
                                to_stops_at_end_of_block = Some False\<rparr>,
             ts_path = path,
             ts_power_restrictions = Some (powerRestriction osrdconf),
             ts_schedule = Some (payload_formatSchedule toISO steps),
             ts_speed_limit_tag = speedLimitByTag osrdconf,
             ts_category = category osrdconf\<rparr>))"

text \<open>A timetable item with its details, as the store keeps it. \<open>td_rollingStock\<close> is the name of its
  rolling stock, if it is known.\<close>

record paced_details =
  pd_timeWindow :: duration
  pd_interval :: duration
  pd_exceptions :: "paced_exception list"

record train_details =
  td_id :: num
  td_name :: string
  td_startTime :: date
  td_rollingStock :: "string option"
  td_comfort :: "comfort option"
  td_constraint_distribution :: distribution
  td_initial_speed :: "num option"
  td_labels :: "string list"
  td_margins :: "margins option"
  td_options :: "train_options option"
  td_path :: "path_item list"
  td_power_restrictions :: "(power_restriction list) option"
  td_schedule :: "(schedule_item list) option"
  td_speed_limit_tag :: "string option"
  td_category :: "train_category option"
  td_paced :: "paced_details option"

text \<open>A \<open>TrainSchedule\<close> with its optional member \<open>paced\<close> is a pair.\<close>

definition formatPacedTrainWithDetailsToPacedTrainPayload ::
  "(duration \<Rightarrow> string) \<Rightarrow> (date \<Rightarrow> string) \<Rightarrow> train_details \<Rightarrow> train_schedule \<times> paced option" where
  "formatPacedTrainWithDetailsToPacedTrainPayload toISO dateISO d =
     (\<lparr>ts_train_name = td_name d, ts_start_time = dateISO (td_startTime d),
       ts_rolling_stock_name = (case td_rollingStock d of None \<Rightarrow> [] | Some n \<Rightarrow> n),
       ts_comfort = td_comfort d, ts_constraint_distribution = td_constraint_distribution d,
       ts_initial_speed = td_initial_speed d, ts_labels = Some (td_labels d), ts_margins = td_margins d,
       ts_options = td_options d, ts_path = td_path d, ts_power_restrictions = td_power_restrictions d,
       ts_schedule = td_schedule d, ts_speed_limit_tag = td_speed_limit_tag d, ts_category = td_category d\<rparr>,
      map_option (\<lambda>p. \<lparr>pc_time_window = toISO (pd_timeWindow p), pc_interval = toISO (pd_interval p),
                       pc_exceptions = pd_exceptions p\<rparr>) (td_paced d))"

definition with_paced :: "train_schedule \<Rightarrow> paced \<Rightarrow> paced_train" where
  "with_paced t p = train_schedule.extend t (paced_train.fields p)"

text \<open>The exceptions that the form has added, with their start times.\<close>

definition added_to_exception :: "(date \<Rightarrow> string) \<Rightarrow> added_exception \<Rightarrow> paced_exception" where
  "added_to_exception dateISO a =
     change_groups.extend (no_groups\<lparr>cg_start_time := Some (dateISO (ae_startTime a))\<rparr>)
       (paced_exception.fields (ae_key a) None None)"

text \<open>The branch where the user has modified an occurrence: the exceptions of the original train.\<close>

definition occurrence_exceptions ::
  "(string \<Rightarrow> duration) \<Rightarrow> (string \<Rightarrow> date) \<Rightarrow> string \<Rightarrow> paced_train \<Rightarrow> 'a train_schedule_scheme \<Rightarrow> string \<Rightarrow>
   paced_exception list result" where
  "occurrence_exceptions parse parseDate uuid original newPacedTrain occurrenceId =
     bind_result (if isIndexedOccurrenceId occurrenceId
                  then bind_result (extractOccurrenceIndexFromOccurrenceId occurrenceId) (\<lambda>n. Inr (Some \<lfloor>n\<rfloor>))
                  else Inr None) (\<lambda>occurrenceIndex.
     bind_result (generatePacedTrainException parse parseDate newPacedTrain original occurrenceIndex) (\<lambda>base.
     bind_result (findExceptionWithOccurrenceId (pc_exceptions (pt_paced original)) occurrenceId) (\<lambda>existing.
       updatePacedTrainExceptionsList (pc_exceptions (pt_paced original))
         (change_groups.extend base
            (paced_exception.fields (case existing of None \<Rightarrow> uuid | Some e \<Rightarrow> ex_key e)
               (map_option nat occurrenceIndex) None))
         occurrenceId)))"

text \<open>The branch where the user has modified the whole paced train.\<close>

definition train_exceptions ::
  "(duration \<Rightarrow> string) \<Rightarrow> (string \<Rightarrow> duration) \<Rightarrow> (string \<Rightarrow> date) \<Rightarrow> op_conf \<Rightarrow> paced_details \<Rightarrow>
   paced_exception list \<Rightarrow> paced_train \<Rightarrow> paced_exception list result" where
  "train_exceptions toISO parse parseDate osrdconf details originalExceptions newPacedTrain =
     (if toISO (timeWindow osrdconf) \<noteq> toISO (pd_timeWindow details) \<or>
         toISO (interval osrdconf) \<noteq> toISO (pd_interval details)
      then Inr []
      else
        bind_result (checkChangeGroups parse parseDate newPacedTrain (pc_interval (pt_paced newPacedTrain))
                       originalExceptions) (\<lambda>es.
          Inr (es @ pc_exceptions (pt_paced newPacedTrain))))"

definition formatPacedTrainPayload ::
  "(duration \<Rightarrow> string) \<Rightarrow> (date \<Rightarrow> string) \<Rightarrow> (string \<Rightarrow> duration) \<Rightarrow> (string \<Rightarrow> date) \<Rightarrow> string \<Rightarrow> op_conf \<Rightarrow> string \<Rightarrow>
   (train_details \<times> string option) option \<Rightarrow> (train_schedule \<times> paced option) result" where
  "formatPacedTrainPayload toISO dateISO parse parseDate uuid osrdconf rsName timetableItemToEditData =
     bind_result (formatTimetableItemPayload toISO dateISO osrdconf rsName) (\<lambda>baseTrain.
       if editingItemType osrdconf = UniqueTrain then Inr (baseTrain, None)
       else
         let newPaced = \<lparr>pc_time_window = toISO (timeWindow osrdconf), pc_interval = toISO (interval osrdconf),
                         pc_exceptions = map (added_to_exception dateISO) (addedExceptions osrdconf)\<rparr>
         in case timetableItemToEditData of
              None \<Rightarrow> Inr (baseTrain, Some newPaced)
            | Some (originalDetails, occurrenceId) \<Rightarrow>
                (case td_paced originalDetails of
                   None \<Rightarrow> Inr (baseTrain, Some newPaced)
                 | Some details \<Rightarrow>
                     (case formatPacedTrainWithDetailsToPacedTrainPayload toISO dateISO originalDetails of
                        (_, None) \<Rightarrow> Inl (JSError (''PacedTrain payload (built from train '' @ js_num_string (td_id originalDetails) @
                                         '') should have a paced field.''))
                      | (original, Some paced) \<Rightarrow>
                          if truthy occurrenceId then
                            bind_result
                              (occurrence_exceptions parse parseDate uuid (with_paced original paced)
                                 (with_paced baseTrain newPaced) (the occurrenceId))
                              (\<lambda>es. Inr (original, Some (paced\<lparr>pc_exceptions := es\<rparr>)))
                          else
                            bind_result
                              (train_exceptions toISO parse parseDate osrdconf details (pc_exceptions paced)
                                 (with_paced baseTrain newPaced))
                              (\<lambda>es. Inr (baseTrain, Some (newPaced\<lparr>pc_exceptions := es\<rparr>))))))"

end
