(* ===== verification/PayloadProperties.thy ===== *)
theory PayloadProperties
  imports TimetablePayload
begin

text \<open>
  Properties of saving a train: the saved payload is read back as the edited path steps, and an edited
  occurrence is restored from the saved train while the other occurrences stay as they were.
\<close>

section \<open>Reading back the margins\<close>

abbreviation margin_pairs :: "margins \<Rightarrow> (string \<times> string) list" where
  "margin_pairs m \<equiv> zip (mg_boundaries m) (tl (mg_values m))"

definition margins_ok :: "margins \<Rightarrow> bool" where
  "margins_ok m \<longleftrightarrow> length (mg_values m) = Suc (length (mg_boundaries m))"

lemma push_margin_ok:
  "margins_ok m \<Longrightarrow> margins_ok (push_margin m i v) \<and> margin_pairs (push_margin m i v) = margin_pairs m @ [(i, v)] \<and>
   hd (mg_values (push_margin m i v)) = hd (mg_values m)"
  by (cases "mg_values m") (simp_all add: push_margin_def margins_ok_def)

definition step_pairs :: "path_step \<Rightarrow> (string \<times> string) list" where
  "step_pairs s = (if truthy (ps_theoreticalMargin s) then [(ps_id s, the (ps_theoreticalMargin s))] else [])"

lemma format_margin_pairs:
  assumes "0 < index" "margins_ok m" "index + length steps = n" "steps \<noteq> []"
  shows "\<exists>e. set (map fst e) \<subseteq> {ps_id (last steps)} \<and> margins_ok (format_margin_from n index m steps) \<and>
    margin_pairs (format_margin_from n index m steps) = margin_pairs m @ concat (map step_pairs (butlast steps)) @ e \<and>
    hd (mg_values (format_margin_from n index m steps)) = hd (mg_values m)"
  using assms
proof (induction steps arbitrary: index m)
  case (Cons s steps)
  show ?case
  proof (cases "steps = []")
    case True
    then have "index = n - 1" using Cons.prems(3) by simp
    moreover have "\<exists>e. set (map fst e) \<subseteq> {ps_id s} \<and> margins_ok m' \<and> margin_pairs m' = margin_pairs m @ e \<and>
        hd (mg_values m') = hd (mg_values m)" if "m' \<in> {m, push_margin m (ps_id s) ''0%''}" for m'
      using that push_margin_ok [OF Cons.prems(2), of "ps_id s" "''0%''"] Cons.prems(2)
      by (auto intro: exI [of _ "[]"] exI [of _ "[(ps_id s, ''0%'')]"])
    ultimately show ?thesis using True Cons.prems(1) by simp
  next
    case False
    then have i: "index \<noteq> n - 1" "index \<noteq> 0" "Suc index + length steps = n" using Cons.prems(1,3) by auto
    define m' where "m' = (if truthy (ps_theoreticalMargin s) then push_margin m (ps_id s) (the (ps_theoreticalMargin s)) else m)"
    have m': "margins_ok m'" "margin_pairs m' = margin_pairs m @ step_pairs s" "hd (mg_values m') = hd (mg_values m)"
      using push_margin_ok [OF Cons.prems(2)] Cons.prems(2) by (simp_all add: m'_def step_pairs_def)
    have "format_margin_from n index m (s # steps) = format_margin_from n (Suc index) m' steps"
      using i by (simp add: m'_def)
    then show ?thesis using Cons.IH [OF _ m'(1) i(3) False] False m' by auto
  qed
qed simp

lemma find_margin:
  "margins_ok m \<Longrightarrow> i \<noteq> 0 \<Longrightarrow> findCorrespondingMargin s i m = map_of (margin_pairs m) s"
proof -
  have lookup: "(let k = find_index (\<lambda>b. b = s) bs in if k \<noteq> -1 then js_at (v # vs) (k + 1) else None) = map_of (zip bs vs) s"
    if "length vs = length bs" for bs v vs
    using that
  proof (induction bs arbitrary: v vs)
    case (Cons b bs)
    then obtain w ws where w: "vs = w # ws" "length ws = length bs" by (cases vs) auto
    show ?case
      using Cons.IH [OF w(2), of w] find_index_ge [of "\<lambda>b. b = s" bs] w(1)
      by (auto simp: Let_def js_at_def nat_add_distrib split: if_splits)
  qed simp
  assume m: "margins_ok m" "i \<noteq> 0"
  then obtain v vs where "mg_values m = v # vs" by (cases "mg_values m") (auto simp: margins_ok_def)
  with m lookup [of vs "mg_boundaries m" v] show ?thesis by (simp add: findCorrespondingMargin_def margins_ok_def Let_def split: if_splits)
qed

lemma map_of_step_pairs:
  assumes "distinct (map ps_id xs)" "s \<in> set xs"
  shows "map_of (concat (map step_pairs xs)) (ps_id s) =
    (if truthy (ps_theoreticalMargin s) then ps_theoreticalMargin s else None)"
  using assms
proof (induction xs)
  case (Cons x xs)
  have none: "map_of (concat (map step_pairs xs)) (ps_id x) = None" if "ps_id x \<notin> ps_id ` set xs" for x
    using that by (auto simp: map_of_eq_None_iff step_pairs_def split: if_splits)
  show ?case
  proof (cases "s = x")
    case True
    with Cons.prems none [of x] show ?thesis
      by (cases "ps_theoreticalMargin x") (auto simp: step_pairs_def [of x] truthy_def)
  next
    case False
    then have "ps_id s \<noteq> ps_id x" "s \<in> set xs"
      using Cons.prems inj_onD [of ps_id "set (x # xs)" s x] by (auto simp: distinct_map)
    with Cons show ?thesis by (simp add: step_pairs_def [of x])
  qed
qed simp

definition saved_margin :: "nat \<Rightarrow> nat \<Rightarrow> path_step \<Rightarrow> string option" where
  "saved_margin n i s =
     (if i = n - 1 then None
      else if i = 0 then
        (if ps_theoreticalMargin s = Some ''none'' then None
         else if truthy (ps_theoreticalMargin s) then ps_theoreticalMargin s else Some ''0%'')
      else if truthy (ps_theoreticalMargin s) then ps_theoreticalMargin s else None)"

lemma formatMargin_read:
  assumes "distinct (map ps_id steps)" "i < length steps" "i \<noteq> length steps - 1"
  shows "findCorrespondingMargin (ps_id (steps ! i)) i (formatMargin steps) = saved_margin (length steps) i (steps ! i)"
proof -
  obtain s rest where steps: "steps = s # rest" "rest \<noteq> []" using assms(2,3) by (cases steps; cases "tl steps") auto
  define v where "v = (if truthy (ps_theoreticalMargin s) then the (ps_theoreticalMargin s) else ''0%'')"
  define m where "m = \<lparr>mg_boundaries = [], mg_values = [v]\<rparr>"
  have m: "margins_ok m" "margin_pairs m = []" "hd (mg_values m) = v" by (simp_all add: m_def margins_ok_def)
  have fm: "formatMargin steps = format_margin_from (length steps) 1 m rest"
    by (simp add: formatMargin_def steps(1) m_def v_def)
  obtain e where e: "set (map fst e) \<subseteq> {ps_id (last rest)}" "margins_ok (formatMargin steps)"
    "margin_pairs (formatMargin steps) = concat (map step_pairs (butlast rest)) @ e" "hd (mg_values (formatMargin steps)) = v"
    using format_margin_pairs [of 1 m rest "length steps"] m steps unfolding fm by auto
  show ?thesis
  proof (cases i)
    case 0
    from e(2) have "mg_values (formatMargin steps) \<noteq> []" by (auto simp: margins_ok_def)
    with 0 e(4) assms(3) steps show ?thesis
      by (cases "ps_theoreticalMargin s")
         (auto simp: findCorrespondingMargin_def js_at_0 saved_margin_def v_def truthy_def)
  next
    case (Suc j)
    have j: "j < length (butlast rest)" using assms(2,3) Suc steps by auto
    then have x: "steps ! i = butlast rest ! j" using Suc steps by (simp add: nth_butlast)
    have x: "steps ! i = butlast rest ! j" "butlast rest ! j \<in> set (butlast rest)" using x nth_mem [OF j] by simp_all
    have d: "distinct (map ps_id (butlast rest))" "ps_id (last rest) \<notin> ps_id ` set (butlast rest)"
    proof -
      have "distinct (map ps_id (butlast rest @ [last rest]))" using assms(1) steps by simp
      then show "distinct (map ps_id (butlast rest))" "ps_id (last rest) \<notin> ps_id ` set (butlast rest)" by auto
    qed
    have "ps_id (steps ! i) \<in> ps_id ` set (butlast rest)" using x by simp
    with d(2) have "ps_id (steps ! i) \<noteq> ps_id (last rest)" by metis
    then have "ps_id (steps ! i) \<notin> set (map fst e)" using e(1) by blast
    then have "map_of e (ps_id (steps ! i)) = None" by (simp add: map_of_eq_None_iff)
    then have "map_of (margin_pairs (formatMargin steps)) (ps_id (steps ! i)) =
        (if truthy (ps_theoreticalMargin (steps ! i)) then ps_theoreticalMargin (steps ! i) else None)"
      using map_of_step_pairs [OF d(1) x(2)] x(1) e(3) by (simp add: map_add_def split: option.split)
    then show ?thesis using find_margin [OF e(2), of i] Suc assms(3) by (simp add: saved_margin_def)
  qed
qed

section \<open>Reading back the steps\<close>

lemma schedule_ids: "y \<in> set (payload_formatSchedule toISO steps) \<Longrightarrow> si_at y \<in> ps_id ` set steps"
  by (auto simp: payload_formatSchedule_def set_js_compact step_schedule_def split: if_splits)

lemma find_schedule:
  assumes "distinct (map ps_id steps)" "s \<in> set steps"
  shows "find (\<lambda>x. si_at x = ps_id s) (payload_formatSchedule toISO steps) = step_schedule toISO s"
  using assms
proof (induction steps)
  case (Cons x steps)
  have other: "find (\<lambda>y. si_at y = ps_id x) (payload_formatSchedule toISO steps) = None" if "ps_id x \<notin> ps_id ` set steps" for x
    using that schedule_ids [of _ toISO steps] unfolding find_None_iff by metis
  show ?case
  proof (cases "s = x")
    case True
    with Cons.prems other [of x] show ?thesis
      by (cases "step_schedule toISO x") (auto simp: payload_formatSchedule_def step_schedule_def split: if_splits)
  next
    case False
    then have "ps_id x \<noteq> ps_id s" "s \<in> set steps"
      using Cons.prems inj_onD [of ps_id "set (x # steps)" s x] by (auto simp: distinct_map)
    moreover from this have "si_at y \<noteq> ps_id s" if "step_schedule toISO x = Some y" for y
      using that by (auto simp: step_schedule_def split: if_splits)
    ultimately show ?thesis using Cons by (cases "step_schedule toISO x") (auto simp: payload_formatSchedule_def)
  qed
qed simp

text \<open>The step that is read from the payload for the step \<open>s\<close> at the index \<open>i\<close> of \<open>n\<close>.\<close>

definition saved_location :: "location \<Rightarrow> location" where
  "saved_location l = (case l of TrackOffset t o1 _ \<Rightarrow> TrackOffset t o1 None | _ \<Rightarrow> l)"

definition saved_step :: "nat \<Rightarrow> nat \<Rightarrow> path_step \<Rightarrow> path_step" where
  "saved_step n i s =
     (empty_step (ps_id s) (saved_location (ps_location s)))
       \<lparr>ps_name := location_name (ps_location s), ps_arrival := ps_arrival s, ps_stopFor := ps_stopFor s,
        ps_receptionSignal :=
          Some (if ps_arrival s \<noteq> None \<or> ps_stopFor s \<noteq> None then or_else (ps_receptionSignal s) OPEN else OPEN),
        ps_theoreticalMargin := saved_margin n i s\<rparr>"

lemma format_path_item_Inr:
  "format_path_item s = Inr p \<Longrightarrow> p = \<lparr>pi_id = ps_id s, pi_location = saved_location (ps_location s)\<rparr>"
  by (auto simp: format_path_item_def getStepLocation_def saved_location_def
      split: location.splits op_reference.splits if_splits)

definition iso_ok :: "(duration \<Rightarrow> string) \<Rightarrow> (string \<Rightarrow> duration) \<Rightarrow> path_step \<Rightarrow> bool" where
  "iso_ok toISO parse s \<longleftrightarrow>
     (\<forall>d\<in>set_option (ps_arrival s) \<union> set_option (ps_stopFor s). toISO d \<noteq> [] \<and> parse (toISO d) = d)"

lemma read_step:
  assumes "distinct (map ps_id steps)" "i < length steps" "iso_ok toISO parse (steps ! i)"
    and "length path = length steps"
    and "path ! i = \<lparr>pi_id = ps_id (steps ! i), pi_location = saved_location (ps_location (steps ! i))\<rparr>"
  shows "computeBasePathStep parse path (Some (payload_formatSchedule toISO steps)) (Some (formatMargin steps)) i =
    Inr (saved_step (length steps) i (steps ! i))"
proof -
  let ?s = "steps ! i"
  have "?s \<in> set steps" using assms(2) by simp
  note sch = find_schedule [OF assms(1) this, of toISO]
  have dur: "parse_duration parse (map_option toISO a) = a" if "a \<in> {ps_arrival ?s, ps_stopFor ?s}" for a
    using that assms(3) by (cases a) (auto simp: parse_duration_def truthy_def iso_ok_def)
  have none: "parse_duration parse None = None" by (simp add: parse_duration_def truthy_def)
  have nm: "location_name (saved_location l) = location_name l" for l
    by (cases l) (simp_all add: saved_location_def location_name_def)
  have mg: "(if i \<noteq> length path - 1 then findCorrespondingMargin (ps_id ?s) i (formatMargin steps) else None) =
      saved_margin (length steps) i ?s"
    using formatMargin_read [OF assms(1,2)] assms(4) by (simp add: saved_margin_def)
  have "\<not> length path \<le> i" using assms(2,4) by simp
  then have "computeBasePathStep parse path (Some (payload_formatSchedule toISO steps)) (Some (formatMargin steps)) i =
      Inr ((empty_step (ps_id ?s) (saved_location (ps_location ?s)))
        \<lparr>ps_name := location_name (ps_location ?s),
         ps_arrival := parse_duration parse (Option.bind (step_schedule toISO ?s) si_arrival),
         ps_stopFor := parse_duration parse (Option.bind (step_schedule toISO ?s) si_stop_for),
         ps_receptionSignal :=
           (case Option.bind (step_schedule toISO ?s) si_reception_signal of None \<Rightarrow> Some OPEN | Some r \<Rightarrow> Some r),
         ps_theoreticalMargin := saved_margin (length steps) i ?s\<rparr>)"
    by (simp only: computeBasePathStep_def Let_def if_False option.case assms(5) path_item.simps
        Option.bind.bind_lunit sch mg nm)
  then show ?thesis
    using dur none by (cases "ps_arrival ?s \<noteq> None \<or> ps_stopFor ?s \<noteq> None")
      (simp_all add: saved_step_def step_schedule_def or_else_def split: option.split)
qed

lemma payload_fields:
  assumes "formatTimetableItemPayload toISO dateISO osrdconf rsName = Inr t"
  shows "\<exists>path. map_result format_path_item (js_compact (pathSteps osrdconf)) = Inr path \<and> ts_path t = path \<and>
    ts_schedule t = Some (payload_formatSchedule toISO (js_compact (pathSteps osrdconf))) \<and>
    ts_margins t = Some (formatMargin (js_compact (pathSteps osrdconf))) \<and>
    ts_initial_speed t \<noteq> None \<and> ts_labels t \<noteq> None \<and> ts_comfort t \<noteq> None \<and> ts_options t \<noteq> None"
  using assms by (auto simp: formatTimetableItemPayload_def Let_def)

lemma payload_steps:
  assumes "formatTimetableItemPayload toISO dateISO osrdconf rsName = Inr t"
    and "distinct (map ps_id (js_compact (pathSteps osrdconf)))"
    and "list_all (iso_ok toISO parse) (js_compact (pathSteps osrdconf))"
  shows "base_steps parse (ts_path t) (ts_schedule t) (ts_margins t) =
    Inr (map (\<lambda>i. saved_step (length (js_compact (pathSteps osrdconf))) i (js_compact (pathSteps osrdconf) ! i))
          [0..<length (js_compact (pathSteps osrdconf))])"
proof -
  define steps where "steps = js_compact (pathSteps osrdconf)"
  obtain path where path: "map_result format_path_item steps = Inr path" "ts_path t = path"
    "ts_schedule t = Some (payload_formatSchedule toISO steps)" "ts_margins t = Some (formatMargin steps)"
    using payload_fields [OF assms(1)] unfolding steps_def by blast
  have len: "length path = length steps" using map_result_length [OF path(1)] .
  have "computeBasePathStep parse path (ts_schedule t) (ts_margins t) i = Inr (saved_step (length steps) i (steps ! i))"
    if i: "i \<in> set [0..<length path]" for i
  proof -
    have "i < length steps" using i len by simp
    moreover from this have "iso_ok toISO parse (steps ! i)" using assms(3) by (simp add: list_all_length steps_def)
    moreover have "path ! i = \<lparr>pi_id = ps_id (steps ! i), pi_location = saved_location (ps_location (steps ! i))\<rparr>"
      using map_result_nth [OF path(1)] format_path_item_Inr i len by simp
    ultimately show ?thesis
      using read_step [of steps i toISO parse path] assms(2) len unfolding steps_def path(3,4) by simp
  qed
  then show ?thesis
    unfolding base_steps_def path(2) steps_def [symmetric] len [symmetric] by (rule map_result_total)
qed

section \<open>Saving an occurrence\<close>

lemma build_occurrence_exceptions:
  "buildPacedTrainWithUpdatedException parse parseDate uuid original updated occurrenceId =
   bind_result (occurrence_exceptions parse parseDate uuid original updated occurrenceId)
     (\<lambda>es. Inr (original\<lparr>pt_paced := (pt_paced original)\<lparr>pc_exceptions := es\<rparr>\<rparr>))"
  by (simp add: buildPacedTrainWithUpdatedException_def occurrence_exceptions_def bind_result_assoc)

text \<open>An occurrence that exists in the train: an indexed one, or an added exception of its list.\<close>

definition known_occurrence :: "paced_exception list \<Rightarrow> string \<Rightarrow> (paced_exception \<Rightarrow> bool) \<Rightarrow> bool" where
  "known_occurrence es occurrenceId p \<longleftrightarrow>
     exception_of occurrenceId = Inr p \<and> length (filter p es) \<le> 1 \<and>
     (if isIndexedOccurrenceId occurrenceId
      then \<exists>i. extractOccurrenceIndexFromOccurrenceId occurrenceId = Inr (of_nat i) else \<exists>e\<in>set es. p e)"

lemma groups_of_extend [simp]: "groups_of (change_groups.extend g (paced_exception.fields k i d)) = g"
  by (simp add: groups_of_def change_groups.defs paced_exception.defs)

lemma extend_disabled: "ex_disabled (change_groups.extend g (paced_exception.fields k i d)) = d"
  by (simp add: change_groups.defs paced_exception.defs)

lemma new_exception_selected:
  assumes "known_occurrence es occurrenceId p"
    and "(if isIndexedOccurrenceId occurrenceId
          then bind_result (extractOccurrenceIndexFromOccurrenceId occurrenceId) (\<lambda>n. Inr (Some \<lfloor>n\<rfloor>)) else Inr None) = Inr idx"
    and "findExceptionWithOccurrenceId es occurrenceId = Inr existing"
  shows "p (change_groups.extend base
    (paced_exception.fields (case existing of None \<Rightarrow> uuid | Some e \<Rightarrow> ex_key e) (map_option nat idx) None))"
proof (cases "isIndexedOccurrenceId occurrenceId")
  case True
  then obtain i where i: "extractOccurrenceIndexFromOccurrenceId occurrenceId = Inr (of_nat i)"
    using assms(1) by (auto simp: known_occurrence_def)
  then have "idx = Some (int i)" using True assms(2) by simp
  moreover have "p = (\<lambda>e. map_option of_nat (ex_occurrence_index e) = Some (of_nat i :: num))"
    using assms(1) True i by (auto simp: known_occurrence_def exception_of_def)
  ultimately show ?thesis by (simp add: change_groups.defs paced_exception.defs)
next
  case False
  then obtain e where e: "e \<in> set es" "p e" using assms(1) by (auto simp: known_occurrence_def)
  have p: "exception_of occurrenceId = Inr p" using assms(1) by (simp add: known_occurrence_def)
  then obtain e' where e': "find p es = Some e'" "existing = Some e'"
    using assms(3) e by (cases "find p es") (auto simp: findExceptionWithOccurrenceId_def find_None_iff)
  then have "p e'" by (auto simp: find_Some_iff)
  moreover obtain k where "p = (\<lambda>e. k = ex_key e)" using p False by (auto simp: exception_of_def)
  ultimately show ?thesis using e'(2) by (simp add: change_groups.defs paced_exception.defs)
qed

lemma extract_no_groups:
  "extractOccurrenceDetailsFromPacedTrain t (Some no_groups) = extractOccurrenceDetailsFromPacedTrain t None"
  by (simp add: extractOccurrenceDetailsFromPacedTrain_def apply_change_groups_def no_groups_def)

text \<open>The index that an identifier of an occurrence carries, none for an added exception.\<close>

definition index_of_occurrence :: "string \<Rightarrow> int option" where
  "index_of_occurrence occurrenceId =
     (if isIndexedOccurrenceId occurrenceId
      then (case extractOccurrenceIndexFromOccurrenceId occurrenceId of Inl e \<Rightarrow> None | Inr n \<Rightarrow> Some \<lfloor>n\<rfloor>) else None)"

lemma occurrence_restored:
  assumes "occurrence_exceptions parse parseDate uuid original updated occurrenceId = Inr es'"
    and known: "known_occurrence (pc_exceptions (pt_paced original)) occurrenceId p"
    and upd: "ts_initial_speed updated \<noteq> None" "ts_labels updated \<noteq> None" "ts_comfort updated \<noteq> None"
      "ts_options original \<noteq> None" "ts_options updated \<noteq> None" "ts_margins updated \<noteq> None"
  shows "\<exists>occ original' a b.
    extractOccurrenceDetailsFromPacedTrain original (map_option groups_of (find p es')) = Inr (occ, original') \<and>
    same_settings occ updated \<and> ts_options occ = ts_options updated \<and>
    base_steps parse (ts_path occ) (ts_schedule occ) (ts_margins occ) = Inr a \<and>
    base_steps parse (ts_path updated) (ts_schedule updated) (ts_margins updated) = Inr b \<and> same_steps a b \<and>
    (\<exists>a0. base_steps parse (ts_path original) (ts_schedule original) (ts_margins original) = Inr a0 \<and>
      (if same_steps a0 b then ts_path occ = ts_path original \<and> ts_power_restrictions occ = ts_power_restrictions original
       else ts_path occ = ts_path updated \<and> ts_power_restrictions occ = Some (or_else (ts_power_restrictions updated) [])))"
    and "(\<And>e. q e \<Longrightarrow> \<not> p e) \<Longrightarrow> find q es' = find q (pc_exceptions (pt_paced original))"
    and "shown_name (ts_train_name original) (index_of_occurrence occurrenceId) (map_option groups_of (find p es')) = ts_train_name updated"
    and "shown_start parse parseDate (ts_start_time original) (pc_interval (pt_paced original)) (index_of_occurrence occurrenceId)
      (map_option groups_of (find p es')) = drop_milliseconds (parseDate (ts_start_time updated))"
proof -
  let ?es = "pc_exceptions (pt_paced original)"
  from assms(1) obtain idx base existing where
    idx: "(if isIndexedOccurrenceId occurrenceId
          then bind_result (extractOccurrenceIndexFromOccurrenceId occurrenceId) (\<lambda>n. Inr (Some \<lfloor>n\<rfloor>)) else Inr None) = Inr idx"
    and gen: "generatePacedTrainException parse parseDate updated original idx = Inr base"
    and ex: "findExceptionWithOccurrenceId ?es occurrenceId = Inr existing"
    and up: "updatePacedTrainExceptionsList ?es (change_groups.extend base
        (paced_exception.fields (case existing of None \<Rightarrow> uuid | Some e \<Rightarrow> ex_key e) (map_option nat idx) None)) occurrenceId = Inr es'"
    unfolding occurrence_exceptions_def by (simp only: bind_result_Inr) blast
  define new where "new = change_groups.extend base
        (paced_exception.fields (case existing of None \<Rightarrow> uuid | Some e \<Rightarrow> ex_key e) (map_option nat idx) None)"
  have new: "p new" "groups_of new = base" "ex_disabled new = None"
    using new_exception_selected [OF known idx ex] unfolding new_def
    by (simp_all add: extend_disabled)
  have sel: "exception_of occurrenceId = Inr p" "length (filter p ?es) \<le> 1" using known by (simp_all add: known_occurrence_def)
  have found: "find p es' = (if base \<noteq> no_groups then Some new else None)"
    using exceptions.update_found [OF sel(1) new(1) sel(2) up [folded new_def]] new by simp
  show "find q es' = find q ?es" if "\<And>e. q e \<Longrightarrow> \<not> p e"
    using exceptions.update_other [OF sel(1) new(1) sel(2) up [folded new_def] that] .
  have "extractOccurrenceDetailsFromPacedTrain original (map_option groups_of (find p es')) =
      extractOccurrenceDetailsFromPacedTrain original (Some base)"
    using found new(2) extract_no_groups [of original] by simp
  then show "\<exists>occ original' a b.
    extractOccurrenceDetailsFromPacedTrain original (map_option groups_of (find p es')) = Inr (occ, original') \<and>
    same_settings occ updated \<and> ts_options occ = ts_options updated \<and>
    base_steps parse (ts_path occ) (ts_schedule occ) (ts_margins occ) = Inr a \<and>
    base_steps parse (ts_path updated) (ts_schedule updated) (ts_margins updated) = Inr b \<and> same_steps a b \<and>
    (\<exists>a0. base_steps parse (ts_path original) (ts_schedule original) (ts_margins original) = Inr a0 \<and>
      (if same_steps a0 b then ts_path occ = ts_path original \<and> ts_power_restrictions occ = ts_power_restrictions original
       else ts_path occ = ts_path updated \<and> ts_power_restrictions occ = Some (or_else (ts_power_restrictions updated) [])))"
    using exception_restores [OF gen upd] by metis
  have i: "index_of_occurrence occurrenceId = idx" using idx by (auto simp: index_of_occurrence_def split: if_splits sum.splits)
  note ns = generate_name_start [OF gen]
  show "shown_name (ts_train_name original) (index_of_occurrence occurrenceId) (map_option groups_of (find p es')) = ts_train_name updated"
    "shown_start parse parseDate (ts_start_time original) (pc_interval (pt_paced original)) (index_of_occurrence occurrenceId)
      (map_option groups_of (find p es')) = drop_milliseconds (parseDate (ts_start_time updated))"
    using ns new(2) shown_no_groups(1) [of "ts_train_name original" idx]
      shown_no_groups(2) [of parse parseDate "ts_start_time original" "pc_interval (pt_paced original)" idx]
    unfolding i found by (cases "base = no_groups"; simp)+
qed

lemma extract_with_paced:
  assumes "extractOccurrenceDetailsFromPacedTrain (with_paced t p) g = Inr (occ, t')"
  shows "extractOccurrenceDetailsFromPacedTrain (with_paced t p2) g = Inr (occ\<lparr>pt_paced := p2\<rparr>, t'\<lparr>pt_paced := p2\<rparr>)"
proof -
  have upd: "with_paced t p2 = (with_paced t p)\<lparr>pt_paced := p2\<rparr>"
    by (simp add: with_paced_def train_schedule.defs paced_train.defs)
  have app: "apply_change_groups h (x\<lparr>pt_paced := p2\<rparr>) = (apply_change_groups h x)\<lparr>pt_paced := p2\<rparr>" for h and x :: paced_train
    by (cases x) (simp add: apply_change_groups_def cong: option.case_cong)
  show ?thesis
    using assms unfolding upd extractOccurrenceDetailsFromPacedTrain_def Let_def app
    by (auto split: option.splits)
qed

text \<open>C35: saving and reading a train: the path steps read from the saved payload are the steps of the slice, in
  the same order, with their identifiers, arrivals and stops; margins are kept where they start a zone,
  and a reception signal is kept on the steps that have an arrival or a stop. The printer and the
  parser of durations are assumed to agree on the durations of the steps.\<close>

theorem payload_roundtrip:
  assumes "formatTimetableItemPayload toISO dateISO osrdconf rsName = Inr t"
    and "distinct (map ps_id (js_compact (pathSteps osrdconf)))"
    and "list_all (iso_ok toISO parse) (js_compact (pathSteps osrdconf))"
  shows "base_steps parse (ts_path t) (ts_schedule t) (ts_margins t) =
    Inr (map (\<lambda>i. saved_step (length (js_compact (pathSteps osrdconf))) i (js_compact (pathSteps osrdconf) ! i))
          [0..<length (js_compact (pathSteps osrdconf))])"
  using payload_steps [OF assms] .

text \<open>A train with the fields of the details kept in the store.\<close>

definition train_kept :: "(date \<Rightarrow> string) \<Rightarrow> train_details \<Rightarrow> 'a train_schedule_scheme \<Rightarrow> bool" where
  "train_kept dateISO d t \<longleftrightarrow>
     ts_train_name t = td_name d \<and> ts_start_time t = dateISO (td_startTime d) \<and>
     ts_rolling_stock_name t = (case td_rollingStock d of None \<Rightarrow> [] | Some n \<Rightarrow> n) \<and> ts_comfort t = td_comfort d \<and>
     ts_constraint_distribution t = td_constraint_distribution d \<and> ts_initial_speed t = td_initial_speed d \<and>
     ts_labels t = Some (td_labels d) \<and> ts_margins t = td_margins d \<and> ts_options t = td_options d \<and> ts_path t = td_path d \<and>
     ts_power_restrictions t = td_power_restrictions d \<and> ts_schedule t = td_schedule d \<and>
     ts_speed_limit_tag t = td_speed_limit_tag d \<and> ts_category t = td_category d"

lemma details_payload:
  assumes "td_paced details = Some pd"
  obtains orig where
    "formatPacedTrainWithDetailsToPacedTrainPayload toISO dateISO details =
      (orig, Some \<lparr>pc_time_window = toISO (pd_timeWindow pd), pc_interval = toISO (pd_interval pd), pc_exceptions = pd_exceptions pd\<rparr>)"
    "train_kept dateISO details orig"
proof
  let ?orig = "fst (formatPacedTrainWithDetailsToPacedTrainPayload toISO dateISO details)"
  show "formatPacedTrainWithDetailsToPacedTrainPayload toISO dateISO details =
      (?orig, Some \<lparr>pc_time_window = toISO (pd_timeWindow pd), pc_interval = toISO (pd_interval pd), pc_exceptions = pd_exceptions pd\<rparr>)"
    using assms by (simp add: formatPacedTrainWithDetailsToPacedTrainPayload_def)
  show "train_kept dateISO details ?orig"
    by (simp add: formatPacedTrainWithDetailsToPacedTrainPayload_def train_kept_def)
qed

lemma kept_with_paced: "train_kept dateISO details t \<Longrightarrow> train_kept dateISO details (with_paced t p)"
  by (simp add: train_kept_def with_paced_def train_schedule.defs paced_train.defs)

text \<open>Saving an edited occurrence stores the exceptions computed from the train of the form.\<close>

lemma save_occurrence:
  assumes save: "formatPacedTrainPayload toISO dateISO parse parseDate uuid osrdconf rsName
      (Some (details, Some occurrenceId)) = Inr (t, paced')"
    and "editingItemType osrdconf \<noteq> UniqueTrain" "occurrenceId \<noteq> []" "td_paced details = Some pd"
  obtains base and np :: paced_train and es where
    "formatTimetableItemPayload toISO dateISO osrdconf rsName = Inr base" "train_schedule.truncate np = base"
    "train_kept dateISO details t"
    "occurrence_exceptions parse parseDate uuid (with_paced t \<lparr>pc_time_window = toISO (pd_timeWindow pd),
        pc_interval = toISO (pd_interval pd), pc_exceptions = pd_exceptions pd\<rparr>) np occurrenceId = Inr es"
    "paced' = Some \<lparr>pc_time_window = toISO (pd_timeWindow pd), pc_interval = toISO (pd_interval pd), pc_exceptions = es\<rparr>"
proof -
  define pc where "pc = \<lparr>pc_time_window = toISO (pd_timeWindow pd), pc_interval = toISO (pd_interval pd), pc_exceptions = pd_exceptions pd\<rparr>"
  obtain orig where orig: "formatPacedTrainWithDetailsToPacedTrainPayload toISO dateISO details = (orig, Some pc)"
    "train_kept dateISO details orig" unfolding pc_def by (rule details_payload [OF assms(4)])
  obtain base where base: "formatTimetableItemPayload toISO dateISO osrdconf rsName = Inr base"
    using save unfolding formatPacedTrainPayload_def by (simp only: bind_result_Inr) blast
  define np where "np = with_paced base \<lparr>pc_time_window = toISO (timeWindow osrdconf), pc_interval = toISO (interval osrdconf),
                         pc_exceptions = map (added_to_exception dateISO) (addedExceptions osrdconf)\<rparr>"
  have "formatPacedTrainPayload toISO dateISO parse parseDate uuid osrdconf rsName (Some (details, Some occurrenceId)) =
     bind_result (occurrence_exceptions parse parseDate uuid (with_paced orig pc) np occurrenceId)
       (\<lambda>es. Inr (orig, Some (pc\<lparr>pc_exceptions := es\<rparr>)))" (is "_ = ?r")
    unfolding formatPacedTrainPayload_def base np_def using assms(2-4) orig(1) by (simp add: truthy_def)
  with save have "?r = Inr (t, paced')" by simp
  then obtain es where "occurrence_exceptions parse parseDate uuid (with_paced orig pc) np occurrenceId = Inr es"
    "t = orig" "paced' = Some (pc\<lparr>pc_exceptions := es\<rparr>)"
    unfolding bind_result_Inr by auto
  moreover have "train_schedule.truncate np = base" by (simp add: np_def with_paced_def train_schedule.defs)
  ultimately show ?thesis using base orig(2) by (intro that [of base np es]) (simp_all add: pc_def)
qed

text \<open>What the payload of the form holds.\<close>

lemma form_payload:
  assumes "formatTimetableItemPayload toISO dateISO osrdconf rsName = Inr base" and "train_schedule.truncate np = base"
  shows "ts_train_name np = name osrdconf" "ts_start_time np = dateISO (startTime osrdconf)"
    "ts_rolling_stock_name np = rsName" "ts_comfort np = Some (rollingStockComfort osrdconf)"
    "ts_labels np = Some (labels osrdconf)" "ts_constraint_distribution np = constraintDistribution osrdconf"
    "ts_category np = category osrdconf" "ts_speed_limit_tag np = speedLimitByTag osrdconf"
    "ts_initial_speed np = Some (case initialSpeed osrdconf of None \<Rightarrow> 0 | Some v \<Rightarrow> if v = 0 then 0 else kmhToMs v)"
    "ts_options np = Some \<lparr>to_use_electrical_profiles = Some (usingElectricalProfiles osrdconf),
       to_use_speed_limits_for_simulation = Some (usingSpeedLimits osrdconf), to_stops_at_end_of_block = Some False\<rparr>"
    "ts_power_restrictions np = Some (powerRestriction osrdconf)" "ts_margins np = Some (formatMargin (js_compact (pathSteps osrdconf)))"
    "ts_path np = ts_path base" "ts_schedule np = ts_schedule base" "ts_margins np = ts_margins base"
  using assms(1) unfolding assms(2) [symmetric]
  by (auto simp: formatTimetableItemPayload_def Let_def train_schedule.defs)

text \<open>C11: an occurrence edited in the form and saved is shown as it was edited: the payload is the original
  train, every field of it, with only its exceptions changed; the occurrence extracted from it has the
  rolling stock, comfort, labels, distribution, category, tag, initial speed and options of the form and the same path
  steps up to their identifiers, its name is the name of the form and its start the start of the form to the second;
  and the exception of no other occurrence has changed. The power restrictions of the form are shown when the path steps
  differ from those of the train; otherwise those of the train are, and an edit of them is lost.\<close>

theorem saved_occurrence_shown:
  assumes save: "formatPacedTrainPayload toISO dateISO parse parseDate uuid osrdconf rsName
      (Some (details, Some occurrenceId)) = Inr (t, paced')"
    and "editingItemType osrdconf \<noteq> UniqueTrain" "occurrenceId \<noteq> []" "td_paced details = Some pd" "td_options details \<noteq> None"
    and known: "known_occurrence (pd_exceptions pd) occurrenceId p"
    and "distinct (map ps_id (js_compact (pathSteps osrdconf)))"
    and "list_all (iso_ok toISO parse) (js_compact (pathSteps osrdconf))"
  shows "train_kept dateISO details t \<and>
    (\<exists>es occ t' a a0. paced' = Some \<lparr>pc_time_window = toISO (pd_timeWindow pd), pc_interval = toISO (pd_interval pd), pc_exceptions = es\<rparr> \<and>
      extractOccurrenceDetailsFromPacedTrain (with_paced t (the paced')) (map_option groups_of (find p es)) = Inr (occ, t') \<and>
      ts_rolling_stock_name occ = rsName \<and> ts_comfort occ = Some (rollingStockComfort osrdconf) \<and>
      ts_labels occ = Some (labels osrdconf) \<and> ts_constraint_distribution occ = constraintDistribution osrdconf \<and>
      ts_category occ = category osrdconf \<and> ts_speed_limit_tag occ = speedLimitByTag osrdconf \<and>
      ts_initial_speed occ = Some (case initialSpeed osrdconf of None \<Rightarrow> 0 | Some v \<Rightarrow> if v = 0 then 0 else kmhToMs v) \<and>
      ts_options occ = Some \<lparr>to_use_electrical_profiles = Some (usingElectricalProfiles osrdconf),
        to_use_speed_limits_for_simulation = Some (usingSpeedLimits osrdconf), to_stops_at_end_of_block = Some False\<rparr> \<and>
      shown_name (td_name details) (index_of_occurrence occurrenceId) (map_option groups_of (find p es)) = name osrdconf \<and>
      shown_start parse parseDate (dateISO (td_startTime details)) (toISO (pd_interval pd)) (index_of_occurrence occurrenceId)
        (map_option groups_of (find p es)) = drop_milliseconds (parseDate (dateISO (startTime osrdconf))) \<and>
      base_steps parse (ts_path occ) (ts_schedule occ) (ts_margins occ) = Inr a \<and>
      same_steps a (map (\<lambda>i. saved_step (length (js_compact (pathSteps osrdconf))) i (js_compact (pathSteps osrdconf) ! i))
          [0..<length (js_compact (pathSteps osrdconf))]) \<and>
      base_steps parse (td_path details) (td_schedule details) (td_margins details) = Inr a0 \<and>
      ts_power_restrictions occ =
        (if same_steps a0 (map (\<lambda>i. saved_step (length (js_compact (pathSteps osrdconf))) i (js_compact (pathSteps osrdconf) ! i))
              [0..<length (js_compact (pathSteps osrdconf))])
         then td_power_restrictions details else Some (powerRestriction osrdconf)) \<and>
      (\<forall>q. (\<forall>e. q e \<longrightarrow> \<not> p e) \<longrightarrow> find q es = find q (pd_exceptions pd)))"
proof -
  define pc where "pc = \<lparr>pc_time_window = toISO (pd_timeWindow pd), pc_interval = toISO (pd_interval pd), pc_exceptions = pd_exceptions pd\<rparr>"
  define saved where "saved = map (\<lambda>i. saved_step (length (js_compact (pathSteps osrdconf))) i (js_compact (pathSteps osrdconf) ! i))
          [0..<length (js_compact (pathSteps osrdconf))]"
  obtain base and np :: paced_train and es where base: "formatTimetableItemPayload toISO dateISO osrdconf rsName = Inr base" "train_schedule.truncate np = base"
    and kept: "train_kept dateISO details t"
    and es: "occurrence_exceptions parse parseDate uuid (with_paced t pc) np occurrenceId = Inr es"
    and paced': "paced' = Some (pc\<lparr>pc_exceptions := es\<rparr>)"
    using save_occurrence [OF assms(1-4)] unfolding pc_def by auto
  note np = form_payload [OF base]
  have orig: "train_kept dateISO details (with_paced t pc)" "pt_paced (with_paced t pc) = pc"
    using kept_with_paced [OF kept] by (simp_all add: with_paced_def train_schedule.defs paced_train.defs)
  then have k: "known_occurrence (pc_exceptions (pt_paced (with_paced t pc))) occurrenceId p" "ts_options (with_paced t pc) \<noteq> None"
    using known assms(5) by (simp_all add: pc_def train_kept_def)
  have np_ok: "ts_initial_speed np \<noteq> None" "ts_labels np \<noteq> None" "ts_comfort np \<noteq> None" "ts_options np \<noteq> None" "ts_margins np \<noteq> None"
    unfolding np by simp_all
  note res = occurrence_restored [OF es k(1) np_ok(1-3) k(2) np_ok(4,5)]
  obtain occ t' a b a0 where occ:
    "extractOccurrenceDetailsFromPacedTrain (with_paced t pc) (map_option groups_of (find p es)) = Inr (occ, t')"
    "same_settings occ np" "ts_options occ = ts_options np" "base_steps parse (ts_path occ) (ts_schedule occ) (ts_margins occ) = Inr a"
    "base_steps parse (ts_path np) (ts_schedule np) (ts_margins np) = Inr b" "same_steps a b"
    "base_steps parse (td_path details) (td_schedule details) (td_margins details) = Inr a0"
    "ts_power_restrictions occ = (if same_steps a0 b then td_power_restrictions details else Some (powerRestriction osrdconf))"
    using res(1) orig(1) unfolding train_kept_def np(11) by (auto split: if_splits)
  have b: "b = saved" using occ(5) payload_steps [OF base(1) assms(7,8)] unfolding np(13-15) saved_def by simp
  note ex = extract_with_paced [OF occ(1), of "pc\<lparr>pc_exceptions := es\<rparr>"]
  have "shown_name (td_name details) (index_of_occurrence occurrenceId) (map_option groups_of (find p es)) = name osrdconf"
    "shown_start parse parseDate (dateISO (td_startTime details)) (toISO (pd_interval pd)) (index_of_occurrence occurrenceId)
        (map_option groups_of (find p es)) = drop_milliseconds (parseDate (dateISO (startTime osrdconf)))"
    using res(3,4) orig by (simp_all add: train_kept_def np pc_def)
  moreover have "\<forall>q. (\<forall>e. q e \<longrightarrow> \<not> p e) \<longrightarrow> find q es = find q (pd_exceptions pd)"
    using res(2) unfolding orig(2) by (simp add: pc_def)
  ultimately show ?thesis
    using ex occ(2-4,6-8) kept unfolding b same_settings_def saved_def [symmetric] paced' np(1-10)
    by (intro conjI exI [of _ es] exI [of _ "occ\<lparr>pt_paced := pc\<lparr>pc_exceptions := es\<rparr>\<rparr>"]
        exI [of _ "t'\<lparr>pt_paced := pc\<lparr>pc_exceptions := es\<rparr>\<rparr>"] exI [of _ a] exI [of _ a0]) (simp_all add: pc_def)
qed

definition ex_conf :: op_conf where
  "ex_conf = (operationalStudiesInitialConf 0)
     \<lparr>name := ''TER 8'', editingItemType := OccurrenceItem, labels := [''late''], rollingStockName := ''rs'',
      pathSteps := [Some ((empty_step ''a'' (OpPart (OpUic 87 None) None))\<lparr>ps_theoreticalMargin := Some ''5%''\<rparr>),
                    Some ((empty_step ''v'' (TrackOffset ''t'' 10 None))\<lparr>ps_stopFor := Some (Duration 40)\<rparr>),
                    Some (empty_step ''b'' (OpPart (OpUic 88 None) None))]\<rparr>"

definition ex_details :: train_details where
  "ex_details =
     \<lparr>td_id = 7, td_name = ''TER 6'', td_startTime = 0, td_rollingStock = Some ''rs'', td_comfort = Some ComfortStandard,
      td_constraint_distribution = MARECO, td_initial_speed = Some 0, td_labels = [], td_margins = None,
      td_options = Some empty_options,
      td_path = [\<lparr>pi_id = ''a'', pi_location = OpPart (OpUic 87 None) None\<rparr>,
                 \<lparr>pi_id = ''b'', pi_location = OpPart (OpUic 88 None) None\<rparr>],
      td_power_restrictions = None, td_schedule = None, td_speed_limit_tag = None, td_category = None,
      td_paced = Some \<lparr>pd_timeWindow = Duration 100, pd_interval = Duration 40,
        pd_exceptions = [no_exception\<lparr>cg_labels := Some [''x'']\<rparr>]\<rparr>\<rparr>"

definition ex_iso :: "duration \<Rightarrow> string" where
  "ex_iso d = (if d = Duration 100 then ''w'' else ''i'')"

lemma ex_conf_ok:
  "distinct (map ps_id (js_compact (pathSteps ex_conf)))" "list_all (iso_ok ex_iso ex_parse) (js_compact (pathSteps ex_conf))"
  by code_simp+

theorem payload_roundtrip_witness:
  "\<exists>t steps. formatTimetableItemPayload ex_iso (\<lambda>_. ''s'') ex_conf ''rs'' = Inr t \<and>
     base_steps ex_parse (ts_path t) (ts_schedule t) (ts_margins t) = Inr steps \<and> length steps = 3"
proof -
  have "\<not> isl (formatTimetableItemPayload ex_iso (\<lambda>_. ''s'') ex_conf ''rs'')" by code_simp
  then obtain t where "formatTimetableItemPayload ex_iso (\<lambda>_. ''s'') ex_conf ''rs'' = Inr t"
    by (cases "formatTimetableItemPayload ex_iso (\<lambda>_. ''s'') ex_conf ''rs''") auto
  moreover have "length (js_compact (pathSteps ex_conf)) = 3" by code_simp
  ultimately show ?thesis using payload_roundtrip [OF _ ex_conf_ok] by fastforce
qed

theorem saved_occurrence_shown_witness:
  "\<exists>t paced' occ t' p. formatPacedTrainPayload ex_iso (\<lambda>_. ''s'') ex_parse (\<lambda>_. 0) ''u'' ex_conf ''rs''
       (Some (ex_details, Some ''indexedoccurrence_7_1'')) = Inr (t, paced') \<and>
     extractOccurrenceDetailsFromPacedTrain (with_paced t (the paced'))
       (map_option groups_of (find p (pc_exceptions (the paced')))) = Inr (occ, t') \<and>
     ts_labels occ = Some [''late'']"
proof -
  let ?id = "''indexedoccurrence_7_1''"
  let ?r = "formatPacedTrainPayload ex_iso (\<lambda>_. ''s'') ex_parse (\<lambda>_. 0) ''u'' ex_conf ''rs'' (Some (ex_details, Some ?id))"
  define p where "p = (\<lambda>e :: paced_exception. map_option of_nat (ex_occurrence_index e) = Some (1 :: num))"
  have "\<not> isl ?r" by code_simp
  then obtain t paced' where r: "?r = Inr (t, paced')" by (cases ?r) auto
  have i: "extractOccurrenceIndexFromOccurrenceId ?id = Inr (of_nat 1)" "isIndexedOccurrenceId ?id" by code_simp+
  have pd: "td_paced ex_details = Some (the (td_paced ex_details))" "td_options ex_details \<noteq> None"
    "editingItemType ex_conf \<noteq> UniqueTrain" "labels ex_conf = [''late'']" by code_simp+
  have "length (filter p (pd_exceptions (the (td_paced ex_details)))) \<le> 1" unfolding p_def by code_simp
  then have "known_occurrence (pd_exceptions (the (td_paced ex_details))) ?id p"
    unfolding known_occurrence_def using i by (auto simp: exception_of_def p_def)
  then show ?thesis
    using saved_occurrence_shown [OF r pd(3) _ pd(1,2) _ ex_conf_ok] r pd(4) by fastforce
qed

end
