(* ===== verification/CellSaving.thy ===== *)
theory CellSaving
  imports TimesStopsProperties PayloadProperties
begin

text \<open>
  Saving an edited cell of the table of times and stops: the callbacks \<open>updateOccurrence\<close>,
  \<open>updateTimetableItem\<close> and \<open>updateCell\<close> of
  \<open>front/src/modules/timesStops/hooks/useUpdateTimesStopsTable.ts\<close>. The result is the request sent to the
  server and then given to the store: the identifier and the train. None is an early return.
\<close>

datatype 'a saved_item = SavedPaced num paced_train | SavedTrain num "'a train_schedule_scheme"

definition edits_start :: "row \<Rightarrow> cell_update \<Rightarrow> bool" where
  "edits_start r update = (case update of ArrivalUpdate v \<Rightarrow> row_opOnPathIndex r = 0 | _ \<Rightarrow> False)"

definition update_value :: "cell_update \<Rightarrow> date option" where
  "update_value update = (case update of ArrivalUpdate v \<Rightarrow> v | DepartureUpdate v \<Rightarrow> v | _ \<Rightarrow> None)"

text \<open>The occurrence after the edit, None for an early return.\<close>

definition updated_occurrence ::
  "(duration \<Rightarrow> string) \<Rightarrow> (date \<Rightarrow> string) \<Rightarrow> (string \<Rightarrow> date) \<Rightarrow> string \<Rightarrow> 'a train_schedule_scheme \<Rightarrow> row list \<Rightarrow>
   string \<Rightarrow> row \<Rightarrow> cell_update \<Rightarrow> train_schedule option result" where
  "updated_occurrence toISO dateISO parseDate stepUuid selectedTrain allRows trainName r update =
     (if edits_start r update then
        Inr (map_option
          (\<lambda>v. (buildUpdatedOccurrence selectedTrain (ts_path selectedTrain)
                 (case ts_schedule selectedTrain of None \<Rightarrow> [] | Some s \<Rightarrow> s) trainName)
                 \<lparr>ts_start_time := dateISO v\<rparr>) (update_value update))
      else
        bind_result (computeUpdatedPathAndSchedule toISO parseDate stepUuid selectedTrain allRows r update) (\<lambda>res.
          Inr (map_option (\<lambda>(path, schedule). buildUpdatedOccurrence selectedTrain path schedule trainName) res)))"

definition updateOccurrence ::
  "(duration \<Rightarrow> string) \<Rightarrow> (date \<Rightarrow> string) \<Rightarrow> (string \<Rightarrow> duration) \<Rightarrow> (string \<Rightarrow> date) \<Rightarrow> string \<Rightarrow> string \<Rightarrow>
   'a train_schedule_scheme \<Rightarrow> row list \<Rightarrow> train_details list \<Rightarrow> string \<Rightarrow> row \<Rightarrow> cell_update \<Rightarrow>
   (num \<times> paced_train) option result" where
  "updateOccurrence toISO dateISO parse parseDate stepUuid keyUuid selectedTrain allRows items occurrenceId r update =
     bind_result (bind_result (extractPacedTrainIdFromOccurrenceId occurrenceId) extractEditoastIdFromPacedTrainId)
       (\<lambda>pacedTrainId.
          case find (\<lambda>item. td_id item = pacedTrainId) items of
            None \<Rightarrow> Inl (JSError (''Parent PacedTrain not found for occurrence: '' @ occurrenceId))
          | Some details \<Rightarrow>
              if td_paced details = None
              then Inl (JSError (''Parent PacedTrain not found for occurrence: '' @ occurrenceId))
              else case formatPacedTrainWithDetailsToPacedTrainPayload toISO dateISO details of
                (_, None) \<Rightarrow> Inl (JSError ''Formatted PacedTrain is missing paced field'')
              | (original, Some paced) \<Rightarrow>
                  bind_result (getOccurrenceTrainName (ts_train_name original) (pc_exceptions paced) occurrenceId)
                    (\<lambda>occurrenceTrainName.
                       bind_result (updated_occurrence toISO dateISO parseDate stepUuid selectedTrain allRows
                                      occurrenceTrainName r update)
                         (\<lambda>updated.
                            case updated of
                              None \<Rightarrow> Inr None
                            | Some u \<Rightarrow>
                                bind_result (buildPacedTrainWithUpdatedException parse parseDate keyUuid
                                               (with_paced original paced) u occurrenceId)
                                  (\<lambda>pt. Inr (Some (pacedTrainId, pt))))))"

definition updateTimetableItem ::
  "(duration \<Rightarrow> string) \<Rightarrow> (date \<Rightarrow> string) \<Rightarrow> (string \<Rightarrow> date) \<Rightarrow> string \<Rightarrow> 'a train_schedule_scheme \<Rightarrow> row list \<Rightarrow>
   string \<Rightarrow> row \<Rightarrow> cell_update \<Rightarrow> (num \<times> 'a train_schedule_scheme) option result" where
  "updateTimetableItem toISO dateISO parseDate stepUuid selectedTrain allRows trainId r update =
     bind_result (extractEditoastIdFromPacedTrainId trainId) (\<lambda>editoastId.
       if edits_start r update then
         Inr (map_option (\<lambda>v. (editoastId, selectedTrain\<lparr>ts_start_time := dateISO v\<rparr>)) (update_value update))
       else
         bind_result (computeUpdatedPathAndSchedule toISO parseDate stepUuid selectedTrain allRows r update) (\<lambda>res.
           Inr (map_option (\<lambda>(path, schedule).
                  (editoastId, selectedTrain\<lparr>ts_path := path, ts_schedule := Some schedule\<rparr>)) res)))"

definition updateCell ::
  "(duration \<Rightarrow> string) \<Rightarrow> (date \<Rightarrow> string) \<Rightarrow> (string \<Rightarrow> duration) \<Rightarrow> (string \<Rightarrow> date) \<Rightarrow> string \<Rightarrow> string \<Rightarrow>
   'a train_schedule_scheme \<Rightarrow> row list \<Rightarrow> train_details list \<Rightarrow> string \<Rightarrow> row \<Rightarrow> cell_update \<Rightarrow>
   'a saved_item option result" where
  "updateCell toISO dateISO parse parseDate stepUuid keyUuid selectedTrain allRows items trainId r update =
     (if isOccurrenceId trainId then
        bind_result (updateOccurrence toISO dateISO parse parseDate stepUuid keyUuid selectedTrain allRows items trainId r update)
          (\<lambda>res. Inr (map_option (\<lambda>(i, pt). SavedPaced i pt) res))
      else if isPacedTrainId trainId then
        bind_result (updateTimetableItem toISO dateISO parseDate stepUuid selectedTrain allRows trainId r update)
          (\<lambda>res. Inr (map_option (\<lambda>(i, t). SavedTrain i t) res))
      else Inl (JSError ''TrainSchedules are not handled anymore.''))"

section \<open>The edited occurrence is shown\<close>

lemma buildUpdatedOccurrence_fields:
  "same_settings (buildUpdatedOccurrence t path schedule nm) t"
  "ts_initial_speed (buildUpdatedOccurrence t path schedule nm) = ts_initial_speed t"
  "ts_labels (buildUpdatedOccurrence t path schedule nm) = ts_labels t"
  "ts_comfort (buildUpdatedOccurrence t path schedule nm) = ts_comfort t"
  "ts_options (buildUpdatedOccurrence t path schedule nm) = ts_options t"
  "ts_margins (buildUpdatedOccurrence t path schedule nm) = ts_margins t"
  "ts_path (buildUpdatedOccurrence t path schedule nm) = path"
  "ts_schedule (buildUpdatedOccurrence t path schedule nm) = Some schedule"
  "ts_train_name (buildUpdatedOccurrence t path schedule nm) = nm"
  "ts_start_time (buildUpdatedOccurrence t path schedule nm) = ts_start_time t"
  by (simp_all add: buildUpdatedOccurrence_def same_settings_def train_schedule.defs)

definition paced_payload :: "(duration \<Rightarrow> string) \<Rightarrow> paced_details \<Rightarrow> paced" where
  "paced_payload toISO pd = \<lparr>pc_time_window = toISO (pd_timeWindow pd), pc_interval = toISO (pd_interval pd), pc_exceptions = pd_exceptions pd\<rparr>"

lemma updateOccurrence_build:
  assumes upd: "updateOccurrence toISO dateISO parse parseDate stepUuid keyUuid selected allRows items occurrenceId r u = Inr (Some (i, pt))"
    and "find (\<lambda>item. td_id item = i) items = Some details" "td_paced details = Some pd"
  obtains orig updated es nm where
    "formatPacedTrainWithDetailsToPacedTrainPayload toISO dateISO details =
       (orig, Some (paced_payload toISO pd))"
    "train_kept dateISO details orig"
    "getOccurrenceTrainName (td_name details) (pd_exceptions pd) occurrenceId = Inr nm"
    "updated_occurrence toISO dateISO parseDate stepUuid selected allRows nm r u = Inr (Some updated)"
    "occurrence_exceptions parse parseDate keyUuid
       (with_paced orig (paced_payload toISO pd))
       updated occurrenceId = Inr es"
    "pt = with_paced orig ((paced_payload toISO pd)\<lparr>pc_exceptions := es\<rparr>)"
proof -
  obtain orig where orig: "formatPacedTrainWithDetailsToPacedTrainPayload toISO dateISO details = (orig, Some (paced_payload toISO pd))"
    "train_kept dateISO details orig"
    unfolding paced_payload_def by (rule details_payload [OF assms(3)])
  from upd obtain x where rest: "(case find (\<lambda>item. td_id item = x) items of
            None \<Rightarrow> Inl (JSError (''Parent PacedTrain not found for occurrence: '' @ occurrenceId))
          | Some details \<Rightarrow>
              if td_paced details = None
              then Inl (JSError (''Parent PacedTrain not found for occurrence: '' @ occurrenceId))
              else case formatPacedTrainWithDetailsToPacedTrainPayload toISO dateISO details of
                (_, None) \<Rightarrow> Inl (JSError ''Formatted PacedTrain is missing paced field'')
              | (original, Some paced) \<Rightarrow>
                  bind_result (getOccurrenceTrainName (ts_train_name original) (pc_exceptions paced) occurrenceId)
                    (\<lambda>nm. bind_result (updated_occurrence toISO dateISO parseDate stepUuid selected allRows nm r u)
                         (\<lambda>updated. case updated of None \<Rightarrow> Inr None
                            | Some u \<Rightarrow> bind_result (buildPacedTrainWithUpdatedException parse parseDate keyUuid
                                               (with_paced original paced) u occurrenceId)
                                  (\<lambda>pt. Inr (Some (x, pt)))))) = Inr (Some (i, pt))"
    unfolding updateOccurrence_def bind_result_Inr by blast
  obtain d where d: "find (\<lambda>item. td_id item = x) items = Some d" "td_paced d \<noteq> None"
    using rest by (cases "find (\<lambda>item. td_id item = x) items"; cases "td_paced (the (find (\<lambda>item. td_id item = x) items))") simp_all
  obtain o2 p2 where o2: "formatPacedTrainWithDetailsToPacedTrainPayload toISO dateISO d = (o2, Some p2)"
    using d(2) by (auto simp: formatPacedTrainWithDetailsToPacedTrainPayload_def)
  obtain nm updated where nm: "getOccurrenceTrainName (ts_train_name o2) (pc_exceptions p2) occurrenceId = Inr nm"
      "updated_occurrence toISO dateISO parseDate stepUuid selected allRows nm r u = Inr (Some updated)"
      "buildPacedTrainWithUpdatedException parse parseDate keyUuid (with_paced o2 p2) updated occurrenceId = Inr pt" "x = i"
    using rest d o2 by (auto split: option.splits)
  then have "d = details" using d(1) assms(2) by simp
  then have same: "o2 = orig" "p2 = paced_payload toISO pd" using o2 orig(1) by simp_all
  have "getOccurrenceTrainName (td_name details) (pd_exceptions pd) occurrenceId = Inr nm"
    using nm(1) orig(2) unfolding same by (simp add: train_kept_def paced_payload_def)
  moreover have "updated_occurrence toISO dateISO parseDate stepUuid selected allRows nm r u = Inr (Some updated) \<and>
      buildPacedTrainWithUpdatedException parse parseDate keyUuid (with_paced orig (paced_payload toISO pd)) updated occurrenceId = Inr pt"
    using nm unfolding same by simp
  then obtain es where
    "updated_occurrence toISO dateISO parseDate stepUuid selected allRows nm r u = Inr (Some updated)"
    "occurrence_exceptions parse parseDate keyUuid (with_paced orig (paced_payload toISO pd)) updated occurrenceId = Inr es"
    "pt = (with_paced orig (paced_payload toISO pd))\<lparr>pt_paced := (pt_paced (with_paced orig (paced_payload toISO pd)))\<lparr>pc_exceptions := es\<rparr>\<rparr>"
    unfolding build_occurrence_exceptions by auto
  moreover have "(with_paced orig (paced_payload toISO pd))\<lparr>pt_paced := (pt_paced (with_paced orig (paced_payload toISO pd)))\<lparr>pc_exceptions := es\<rparr>\<rparr> =
      with_paced orig ((paced_payload toISO pd)\<lparr>pc_exceptions := es\<rparr>)"
    by (simp add: with_paced_def train_schedule.defs paced_train.defs)
  ultimately show ?thesis using that [of orig nm updated es] orig by simp
qed

text \<open>C28: editing a cell of the table other than the departure of the first row, for an occurrence, changes that
  occurrence and nothing else: the saved train has every field of the original (name, start, path, schedule and the
  others), its time window and interval, and the exceptions of the other occurrences; the edited occurrence keeps its
  name, its start is the one of the selected train to the second, and the details extracted for it have the settings and options of
  the selected train and the steps of the path and of the schedule computed for the edit, which are in order.\<close>

theorem cell_edit_shown:
  assumes upd: "updateOccurrence toISO dateISO parse parseDate stepUuid keyUuid selected allRows items occurrenceId r u = Inr (Some (i, pt))"
    and det: "find (\<lambda>item. td_id item = i) items = Some details" "td_paced details = Some pd" "td_options details \<noteq> None"
    and known: "known_occurrence (pd_exceptions pd) occurrenceId p"
    and sel: "ts_initial_speed selected \<noteq> None" "ts_labels selected \<noteq> None" "ts_comfort selected \<noteq> None"
      "ts_options selected \<noteq> None" "ts_margins selected \<noteq> None"
    and "\<not> edits_start r u" "schedule_ok (ts_path selected) (case ts_schedule selected of None \<Rightarrow> [] | Some s \<Rightarrow> s)"
      "stepUuid \<notin> pi_id ` set (ts_path selected)" "ts_path selected \<noteq> []"
      "row_isPathStep r \<longrightarrow> row_id r \<in> pi_id ` set (ts_path selected)"
  shows "train_kept dateISO details pt \<and>
    pc_time_window (pt_paced pt) = toISO (pd_timeWindow pd) \<and> pc_interval (pt_paced pt) = toISO (pd_interval pd) \<and>
    (\<forall>q. (\<forall>e. q e \<longrightarrow> \<not> p e) \<longrightarrow> find q (pc_exceptions (pt_paced pt)) = find q (pd_exceptions pd)) \<and>
    getOccurrenceTrainName (td_name details) (pd_exceptions pd) occurrenceId =
      Inr (shown_name (td_name details) (index_of_occurrence occurrenceId) (map_option groups_of (find p (pc_exceptions (pt_paced pt))))) \<and>
    shown_start parse parseDate (dateISO (td_startTime details)) (toISO (pd_interval pd)) (index_of_occurrence occurrenceId)
      (map_option groups_of (find p (pc_exceptions (pt_paced pt)))) = drop_milliseconds (parseDate (ts_start_time selected)) \<and>
    (\<exists>path schedule occ t' a b.
      computeUpdatedPathAndSchedule toISO parseDate stepUuid selected allRows r u = Inr (Some (path, schedule)) \<and>
      schedule_ok path schedule \<and>
      extractOccurrenceDetailsFromPacedTrain pt (map_option groups_of (find p (pc_exceptions (pt_paced pt)))) = Inr (occ, t') \<and>
      same_settings occ selected \<and> ts_options occ = ts_options selected \<and>
      base_steps parse (ts_path occ) (ts_schedule occ) (ts_margins occ) = Inr a \<and>
      base_steps parse path (Some schedule) (ts_margins selected) = Inr b \<and> same_steps a b)"
proof -
  define pc where "pc = paced_payload toISO pd"
  from updateOccurrence_build [OF upd det(1,2), folded pc_def] obtain orig updated es nm where
    "formatPacedTrainWithDetailsToPacedTrainPayload toISO dateISO details = (orig, Some pc)"
    and kept: "train_kept dateISO details orig"
    and nm: "getOccurrenceTrainName (td_name details) (pd_exceptions pd) occurrenceId = Inr nm"
    and up: "updated_occurrence toISO dateISO parseDate stepUuid selected allRows nm r u = Inr (Some updated)"
    and es: "occurrence_exceptions parse parseDate keyUuid (with_paced orig pc) updated occurrenceId = Inr es"
    and pt: "pt = with_paced orig (pc\<lparr>pc_exceptions := es\<rparr>)"
    .
  obtain path schedule where cu: "computeUpdatedPathAndSchedule toISO parseDate stepUuid selected allRows r u = Inr (Some (path, schedule))"
    and bu: "updated = buildUpdatedOccurrence selected path schedule nm"
    using up assms(11) by (auto simp: updated_occurrence_def)
  have ok: "schedule_ok path schedule"
    using cell_update_ok [OF assms(12-15), of toISO parseDate allRows u] cu by auto
  note f = buildUpdatedOccurrence_fields [of selected path schedule nm, folded bu]
  have orig: "train_kept dateISO details (with_paced orig pc)" "pt_paced (with_paced orig pc) = pc" "train_kept dateISO details pt"
    "pt_paced pt = pc\<lparr>pc_exceptions := es\<rparr>"
    using kept_with_paced [OF kept] by (simp_all add: pt with_paced_def train_schedule.defs paced_train.defs)
  then have k: "known_occurrence (pc_exceptions (pt_paced (with_paced orig pc))) occurrenceId p" "ts_options (with_paced orig pc) \<noteq> None"
    using known det(3) by (simp_all add: pc_def paced_payload_def train_kept_def)
  have upd_ok: "ts_initial_speed updated \<noteq> None" "ts_labels updated \<noteq> None" "ts_comfort updated \<noteq> None"
      "ts_options updated \<noteq> None" "ts_margins updated \<noteq> None" using sel f(2-6) by simp_all
  note res = occurrence_restored [OF es k(1) upd_ok(1-3) k(2) upd_ok(4,5)]
  obtain occ t' a b where occ: "extractOccurrenceDetailsFromPacedTrain (with_paced orig pc) (map_option groups_of (find p es)) = Inr (occ, t')"
    "same_settings occ updated" "ts_options occ = ts_options updated"
    "base_steps parse (ts_path occ) (ts_schedule occ) (ts_margins occ) = Inr a"
    "base_steps parse path (Some schedule) (ts_margins selected) = Inr b" "same_steps a b"
    using res(1) unfolding f(6-8) by blast
  note ex = extract_with_paced [OF occ(1), of "pc\<lparr>pc_exceptions := es\<rparr>", folded pt]
  have shown: "shown_name (td_name details) (index_of_occurrence occurrenceId) (map_option groups_of (find p es)) = nm"
    "shown_start parse parseDate (dateISO (td_startTime details)) (toISO (pd_interval pd)) (index_of_occurrence occurrenceId)
      (map_option groups_of (find p es)) = drop_milliseconds (parseDate (ts_start_time selected))"
    using res(3,4) orig(1,2) by (simp_all add: train_kept_def f pc_def paced_payload_def)
  have others: "\<forall>q. (\<forall>e. q e \<longrightarrow> \<not> p e) \<longrightarrow> find q es = find q (pd_exceptions pd)"
    using res(2) unfolding orig(2) by (simp add: pc_def paced_payload_def)
  have "\<exists>occ t' a b. extractOccurrenceDetailsFromPacedTrain pt (map_option groups_of (find p es)) = Inr (occ, t') \<and>
      same_settings occ selected \<and> ts_options occ = ts_options selected \<and>
      base_steps parse (ts_path occ) (ts_schedule occ) (ts_margins occ) = Inr a \<and>
      base_steps parse path (Some schedule) (ts_margins selected) = Inr b \<and> same_steps a b"
    using ex occ(2-6) f(1,5) unfolding same_settings_def
    by (intro exI [of _ "occ\<lparr>pt_paced := pc\<lparr>pc_exceptions := es\<rparr>\<rparr>"] exI [of _ "t'\<lparr>pt_paced := pc\<lparr>pc_exceptions := es\<rparr>\<rparr>"]
        exI [of _ a] exI [of _ b] conjI) simp_all
  with cu ok orig(3) nm others shown show ?thesis
    unfolding orig(4) by (simp add: pc_def paced_payload_def)
qed

definition ex_selected :: train_schedule where
  "ex_selected = train_schedule.truncate ex_train"

theorem cell_edit_shown_witness:
  "\<exists>i pt path schedule. updateOccurrence ex_iso (\<lambda>_. ''s'') ex_parse (\<lambda>_. 0) ''n'' ''u'' ex_selected [ex_row] [ex_details]
       ''indexedoccurrence_7_1'' ex_row (ArrivalUpdate (Some 9000)) = Inr (Some (i, pt)) \<and>
     computeUpdatedPathAndSchedule ex_iso (\<lambda>_. 0) ''n'' ex_selected [ex_row] ex_row (ArrivalUpdate (Some 9000)) =
       Inr (Some (path, schedule)) \<and> schedule_ok path schedule"
proof -
  let ?id = "''indexedoccurrence_7_1''" and ?u = "ArrivalUpdate (Some 9000)"
  let ?r = "updateOccurrence ex_iso (\<lambda>_. ''s'') ex_parse (\<lambda>_. 0) ''n'' ''u'' ex_selected [ex_row] [ex_details] ?id ex_row ?u"
  define p where "p = (\<lambda>e :: paced_exception. map_option of_nat (ex_occurrence_index e) = Some (1 :: num))"
  have "(case ?r of Inr (Some (i, pt)) \<Rightarrow> i = 7 | _ \<Rightarrow> False)" by code_simp
  then obtain pt where r: "?r = Inr (Some (7, pt))" by (auto split: sum.splits option.splits)
  have i: "extractOccurrenceIndexFromOccurrenceId ?id = Inr (of_nat 1)" "isIndexedOccurrenceId ?id" by code_simp+
  have f: "find (\<lambda>item. td_id item = 7) [ex_details] = Some ex_details" "td_paced ex_details = Some (the (td_paced ex_details))"
    "td_options ex_details \<noteq> None" by (simp_all add: ex_details_def)
  have "length (filter p (pd_exceptions (the (td_paced ex_details)))) \<le> 1" unfolding p_def by code_simp
  then have k: "known_occurrence (pd_exceptions (the (td_paced ex_details))) ?id p"
    unfolding known_occurrence_def using i by (auto simp: exception_of_def p_def)
  have sel: "ts_initial_speed ex_selected \<noteq> None" "ts_labels ex_selected \<noteq> None" "ts_comfort ex_selected \<noteq> None"
      "ts_options ex_selected \<noteq> None" "ts_margins ex_selected \<noteq> None" "\<not> edits_start ex_row ?u" by code_simp+
  have "schedule_ok (ts_path ex_selected) (case ts_schedule ex_selected of None \<Rightarrow> [] | Some s \<Rightarrow> s)"
    "''n'' \<notin> pi_id ` set (ts_path ex_selected)" "ts_path ex_selected \<noteq> []"
    "row_isPathStep ex_row \<longrightarrow> row_id ex_row \<in> pi_id ` set (ts_path ex_selected)" by code_simp+
  from cell_edit_shown [OF r f k sel this] r show ?thesis by blast
qed

end
