(* ===== verification/ScaleTree.thy ===== *)
theory ScaleTree
  imports Prelude
begin

text \<open>
  The space scales of the space time chart, \<open>front/ui/ui-charts/src/spaceTimeChart/utils/scales.ts\<close>. The
  chart translates positions (metres) to pixels by a sequence of linear scales, indexed by a binary
  tree for fast lookups. The sibling references of a scale are represented by its index in the
  sequence. Without scales the tree is one scale without bounds, on which the translations are NaN.
\<close>

section \<open>Scales and their tree\<close>

datatype space_scale = CoefficientScale (sc_to: num) num | SizeScale (sc_to: num) num

record nscale =
  ns_from :: num
  ns_to :: num
  ns_pixelFrom :: num
  ns_pixelTo :: num
  ns_coefficient :: num
  ns_index :: nat

datatype scale_tree =
    Unbounded
  | Leaf nscale
  | Node (nd_limit: num) (nd_pixelLimit: num) (nd_from: num) (nd_to: num) (nd_pixelFrom: num) (nd_pixelTo: num)
      scale_tree scale_tree

text \<open>The validation, with the end of the previous scale.\<close>

fun decreasing_to :: "num \<Rightarrow> space_scale list \<Rightarrow> bool" where
  "decreasing_to prev [] = False"
| "decreasing_to prev (scale # scales) = (sc_to scale < prev \<or> decreasing_to (sc_to scale) scales)"

fun scale_amount :: "space_scale \<Rightarrow> num" where
  "scale_amount (CoefficientScale _ c) = c"
| "scale_amount (SizeScale _ s) = s"

fun normalize_from :: "num \<Rightarrow> num \<Rightarrow> nat \<Rightarrow> space_scale list \<Rightarrow> nscale list" where
  "normalize_from prev offset i [] = []"
| "normalize_from prev offset i (scale # scales) =
     (let coefficient = (case scale of CoefficientScale to c \<Rightarrow> c | SizeScale to s \<Rightarrow> (to - prev) / s);
          size = (case scale of CoefficientScale to c \<Rightarrow> (to - prev) / c | SizeScale to s \<Rightarrow> s)
      in \<lparr>ns_from = prev, ns_to = sc_to scale, ns_pixelFrom = offset, ns_pixelTo = offset + size,
          ns_coefficient = coefficient, ns_index = i\<rparr> #
         normalize_from (sc_to scale) (offset + size) (Suc i) scales)"

function buildTree :: "nscale list \<Rightarrow> scale_tree" where
  "buildTree scales =
     (if scales = [] then Unbounded
      else if length scales = 1 then Leaf (hd scales)
      else
        let size = (length scales + 1) div 2;
            middle = scales ! (size - 1)
        in Node (ns_to middle) (ns_pixelTo middle) (ns_from (hd scales)) (ns_to (last scales))
             (ns_pixelFrom (hd scales)) (ns_pixelTo (last scales))
             (buildTree (take size scales)) (buildTree (drop size scales)))"
  by pat_completeness auto
termination
proof (relation "measure length")
  fix scales :: "nscale list" and size :: nat
  assume "scales \<noteq> []" "length scales \<noteq> 1" "size = (length scales + 1) div 2"
  moreover from this have "2 \<le> length scales" by (cases scales; cases "tl scales") auto
  ultimately show "(take size scales, scales) \<in> measure length" "(drop size scales, scales) \<in> measure length" by auto
qed simp

declare buildTree.simps [simp del]

definition spaceScalesToBinaryTree :: "num \<Rightarrow> space_scale list \<Rightarrow> scale_tree result" where
  "spaceScalesToBinaryTree spaceOrigin spaceScales =
     (if decreasing_to spaceOrigin spaceScales
      then Inl (JSError ''Invalid scale: 'to' must be greater than previous 'to'.'')
      else if list_ex (\<lambda>scale. scale_amount scale \<le> 0) spaceScales
      then Inl (JSError ''Invalid scale: 'to' must be greater than 'from'.'')
      else Inr (buildTree (normalize_from spaceOrigin 0 0 spaceScales)))"

text \<open>The set of the flat steps, as the list that is given to the constructor of the set.\<close>

definition getFlatSteps :: "space_scale list \<Rightarrow> num list" where
  "getFlatSteps spaceScales =
     map (\<lambda>i. sc_to (spaceScales ! i))
       (filter (\<lambda>i. sc_to (spaceScales ! (i - 1)) = sc_to (spaceScales ! i)) [1..<length spaceScales])"

section \<open>Lookups\<close>

definition js_clamp :: "num \<Rightarrow> num \<Rightarrow> num \<Rightarrow> num" where
  "js_clamp x lower upper = max (min x upper) lower"

fun descend_position :: "num \<Rightarrow> bool \<Rightarrow> scale_tree \<Rightarrow> nscale option" where
  "descend_position position pickLast Unbounded = None"
| "descend_position position pickLast (Leaf s) = Some s"
| "descend_position position pickLast (Node limit pixelLimit f t pf pt left right) =
     (if \<not> pickLast then
        if position \<le> limit then descend_position position pickLast left else descend_position position pickLast right
      else
        if position \<ge> limit then descend_position position pickLast right else descend_position position pickLast left)"

fun descend_pixel :: "num \<Rightarrow> scale_tree \<Rightarrow> nscale option" where
  "descend_pixel y Unbounded = None"
| "descend_pixel y (Leaf s) = Some s"
| "descend_pixel y (Node limit pixelLimit f t pf pt left right) =
     (if y \<le> pixelLimit then descend_pixel y left else descend_pixel y right)"

text \<open>The bounds of a tree, absent when they are infinite.\<close>

fun tree_bounds :: "scale_tree \<Rightarrow> (num \<times> num) option" where
  "tree_bounds Unbounded = None"
| "tree_bounds (Leaf s) = Some (ns_from s, ns_to s)"
| "tree_bounds (Node _ _ f t _ _ _ _) = Some (f, t)"

fun tree_pixel_bounds :: "scale_tree \<Rightarrow> (num \<times> num) option" where
  "tree_pixel_bounds Unbounded = None"
| "tree_pixel_bounds (Leaf s) = Some (ns_pixelFrom s, ns_pixelTo s)"
| "tree_pixel_bounds (Node _ _ _ _ f t _ _) = Some (f, t)"

definition getNormalizedScaleAtPosition :: "num \<Rightarrow> scale_tree \<Rightarrow> bool \<Rightarrow> nscale option" where
  "getNormalizedScaleAtPosition position tree pickLast =
     (case tree_bounds tree of
        None \<Rightarrow> None
      | Some (f, t) \<Rightarrow> descend_position (js_clamp position f t) pickLast tree)"

definition getNormalizedScaleAtPixel :: "num \<Rightarrow> scale_tree \<Rightarrow> nscale option" where
  "getNormalizedScaleAtPixel y tree =
     (case tree_pixel_bounds tree of
        None \<Rightarrow> None
      | Some (f, t) \<Rightarrow> descend_pixel (js_clamp y f t) tree)"

text \<open>None is NaN.\<close>

definition getSpaceToPixel :: "num \<Rightarrow> scale_tree \<Rightarrow> num \<Rightarrow> bool \<Rightarrow> num option" where
  "getSpaceToPixel pixelOffset tree position fromEnd =
     map_option (\<lambda>s. if ns_coefficient s = 0 then pixelOffset + (if fromEnd then ns_pixelTo s else ns_pixelFrom s)
                     else pixelOffset + ns_pixelFrom s + (position - ns_from s) / ns_coefficient s)
       (getNormalizedScaleAtPosition position tree fromEnd)"

definition getPixelToSpace :: "num \<Rightarrow> scale_tree \<Rightarrow> num \<Rightarrow> num option" where
  "getPixelToSpace pixelOffset tree spacePixel =
     map_option (\<lambda>s. ns_from s + (spacePixel - pixelOffset - ns_pixelFrom s) * ns_coefficient s)
       (getNormalizedScaleAtPixel (spacePixel - pixelOffset) tree)"

section \<open>Breakpoints\<close>

fun leaves :: "scale_tree \<Rightarrow> nscale list" where
  "leaves Unbounded = []"
| "leaves (Leaf s) = [s]"
| "leaves (Node _ _ _ _ _ _ left right) = leaves left @ leaves right"

text \<open>The \<open>while\<close> loop, on the index of the scale; following the reference of the last scale raises a
  \<open>TypeError\<close>.\<close>

function breakpoints_from :: "num \<Rightarrow> nscale list \<Rightarrow> nat \<Rightarrow> num list result" where
  "breakpoints_from to scales i =
     (if i \<ge> length scales then Inl TypeError
      else if ns_to (scales ! i) < to then
        bind_result (breakpoints_from to scales (Suc i)) (\<lambda>res. Inr (ns_to (scales ! i) # res))
      else Inr [])"
  by pat_completeness auto
termination
  by (relation "measure (\<lambda>(to, scales, i). length scales - i)") auto

declare breakpoints_from.simps [simp del]

definition getSpaceBreakpoints_le :: "num \<Rightarrow> num \<Rightarrow> scale_tree \<Rightarrow> num list result" where
  "getSpaceBreakpoints_le from to tree =
     (case tree_bounds tree of
        None \<Rightarrow> Inr []
      | Some (f, t) \<Rightarrow>
          (case getNormalizedScaleAtPosition (max from f) tree False of
             None \<Rightarrow> Inr []
           | Some s \<Rightarrow> breakpoints_from (min to t) (leaves tree) (ns_index s)))"

definition getSpaceBreakpoints :: "num \<Rightarrow> num \<Rightarrow> scale_tree \<Rightarrow> num list result" where
  "getSpaceBreakpoints from to tree =
     (if to < from then bind_result (getSpaceBreakpoints_le to from tree) (\<lambda>res. Inr (rev res))
      else getSpaceBreakpoints_le from to tree)"

section \<open>Positions of a train and rectangle zoom\<close>

record data_point =
  dp_time :: num
  dp_position :: num

text \<open>A point of the screen is the pair of \<open>x\<close> and \<open>y\<close>; the functions of the closures are parameters, and the
  axis of the time is \<open>x\<close> unless the axes are swapped.\<close>

definition getPointToData :: "(num \<Rightarrow> num) \<Rightarrow> (num \<Rightarrow> num) \<Rightarrow> bool \<Rightarrow> num \<times> num \<Rightarrow> data_point" where
  "getPointToData getTime getSpace swapAxes point =
     \<lparr>dp_time = getTime (if swapAxes then snd point else fst point),
      dp_position = getSpace (if swapAxes then fst point else snd point)\<rparr>"

definition getDataToPoint :: "(num \<Rightarrow> num) \<Rightarrow> (num \<Rightarrow> num) \<Rightarrow> bool \<Rightarrow> data_point \<Rightarrow> num \<times> num" where
  "getDataToPoint getTimePixel getSpacePixel swapAxes data =
     (if swapAxes then (getSpacePixel (dp_position data), getTimePixel (dp_time data))
      else (getTimePixel (dp_time data), getSpacePixel (dp_position data)))"

definition js_inRange :: "num \<Rightarrow> num \<Rightarrow> num \<Rightarrow> bool" where
  "js_inRange x a b = (min a b \<le> x \<and> x < max a b)"

fun segments_of :: "data_point list \<Rightarrow> (data_point \<times> data_point) list" where
  "segments_of (p # q # ps) = (p, q) # segments_of (q # ps)"
| "segments_of _ = []"

definition getSpaceAtTime :: "data_point list \<Rightarrow> num \<Rightarrow> num result" where
  "getSpaceAtTime points time =
     (case find (\<lambda>(p1, p2). js_inRange time (dp_time p1) (dp_time p2)) (segments_of points) of
        Some (p1, p2) \<Rightarrow>
          Inr (dp_position p1 +
               (time - dp_time p1) / (dp_time p2 - dp_time p1) * (dp_position p2 - dp_position p1))
      | None \<Rightarrow>
          (case points of
             [] \<Rightarrow> Inl TypeError
           | p # ps \<Rightarrow>
               let minPoint = foldl (\<lambda>m q. if dp_time q < dp_time m then q else m) p ps;
                   maxPoint = foldl (\<lambda>m q. if dp_time q > dp_time m then q else m) p ps
               in Inr (if dp_time minPoint > time then dp_position minPoint else dp_position maxPoint)))"

definition sideOffset :: "num \<Rightarrow> num \<Rightarrow> num \<Rightarrow> num \<Rightarrow> num \<Rightarrow> num \<Rightarrow> num" where
  "sideOffset origin newScale rectStart rectEnd chartSideSizePx axisPadding =
     (let rectCenter = (rectStart + rectEnd) / 2;
          newChartSize = chartSideSizePx * newScale;
          newChartBorder = rectCenter - newChartSize / 2
      in (origin - newChartBorder) / newScale - axisPadding * 2)"

text \<open>The pair of \<open>xOffset\<close> and \<open>yOffset\<close>; the rectangle is given by its times and its positions.\<close>

definition computeRectZoomOffsets ::
  "num \<times> num \<Rightarrow> num \<times> num \<Rightarrow> num \<Rightarrow> num \<Rightarrow> num \<Rightarrow> num \<Rightarrow> bool \<Rightarrow> num \<Rightarrow> num \<Rightarrow> num \<times> num" where
  "computeRectZoomOffsets rectTimes rectSpaces timeOrigin spaceOrigin newTimeScale newSpaceScale swapAxes chartWidth chartHeight =
     (let chartTimeSizePx = (if \<not> swapAxes then chartWidth else chartHeight);
          chartSpaceSizePx = (if \<not> swapAxes then chartHeight else chartWidth);
          timeOffset = sideOffset timeOrigin newTimeScale (fst rectTimes) (snd rectTimes) chartTimeSizePx 0;
          spaceOffset = sideOffset spaceOrigin newSpaceScale (fst rectSpaces) (snd rectSpaces) chartSpaceSizePx 0
      in if \<not> swapAxes then (timeOffset, spaceOffset) else (spaceOffset, timeOffset))"

end
