(* ===== verification/ScaleProperties.thy ===== *)
theory ScaleProperties
  imports ScaleTree
begin

text \<open>
  Properties of the scales of the space time chart: the binary tree finds the scale that a linear search
  finds, positions and pixels are translated back and forth without loss, and lines are broken at the
  ends of the scales.
\<close>

section \<open>Consecutive scales\<close>

fun chained :: "num \<Rightarrow> num \<Rightarrow> nscale list \<Rightarrow> bool" where
  "chained p y [] = True"
| "chained p y (s # ss) =
     (ns_from s = p \<and> ns_pixelFrom s = y \<and> p \<le> ns_to s \<and> y \<le> ns_pixelTo s \<and>
      ns_to s - ns_from s = ns_coefficient s * (ns_pixelTo s - ns_pixelFrom s) \<and> 0 \<le> ns_coefficient s \<and>
      (ns_pixelFrom s = ns_pixelTo s \<longrightarrow> ns_coefficient s \<noteq> 0) \<and>
      chained (ns_to s) (ns_pixelTo s) ss)"

lemma normalize_chained:
  "\<not> decreasing_to p scales \<Longrightarrow> \<not> list_ex (\<lambda>s. scale_amount s \<le> 0) scales \<Longrightarrow> chained p y (normalize_from p y i scales)"
proof (induction scales arbitrary: p y i)
  case (Cons s ss)
  then show ?case by (cases s) (auto simp: Let_def field_simps)
qed simp

lemma length_normalize [simp]: "length (normalize_from p y i scales) = length scales"
  by (induction scales arbitrary: p y i) (simp_all add: Let_def)

lemma normalize_index: "k < length scales \<Longrightarrow> ns_index (normalize_from p y i scales ! k) = i + k"
  by (induction scales arbitrary: p y i k) (auto simp: Let_def less_Suc_eq_0_disj)

lemma chained_bounds:
  "chained p y ss \<Longrightarrow> s \<in> set ss \<Longrightarrow> p \<le> ns_from s \<and> y \<le> ns_pixelFrom s \<and> ns_from s \<le> ns_to s \<and> ns_pixelFrom s \<le> ns_pixelTo s"
  by (induction ss arbitrary: p y) fastforce+

lemma chained_append:
  "chained p y (xs @ ys) \<longleftrightarrow> chained p y xs \<and>
   (if xs = [] then chained p y ys else chained (ns_to (last xs)) (ns_pixelTo (last xs)) ys)"
  by (induction xs arbitrary: p y) auto

text \<open>A scale that begins at the pixel where the sequence begins also begins at its position.\<close>

lemma chained_same_pixel:
  "chained p y ss \<Longrightarrow> s \<in> set ss \<Longrightarrow> ns_pixelFrom s = y \<Longrightarrow> ns_from s = p"
proof (induction ss arbitrary: p y)
  case (Cons x ss)
  show ?case
  proof (cases "s = x")
    case False
    with Cons.prems have s: "s \<in> set ss" "chained (ns_to x) (ns_pixelTo x) ss" by auto
    then have "ns_pixelTo x \<le> y" using chained_bounds [OF s(2,1)] Cons.prems(3) by simp
    then have "ns_pixelTo x = ns_pixelFrom x" using Cons.prems(1) by auto
    then have "ns_pixelFrom s = ns_pixelTo x" "ns_to x = p" using Cons.prems by auto
    with Cons.IH [OF s(2,1)] show ?thesis by simp
  qed (use Cons.prems in simp)
qed simp

section \<open>The tree finds the same scale as a linear search\<close>

definition first_or_last :: "('a \<Rightarrow> bool) \<Rightarrow> 'a list \<Rightarrow> 'a" where
  "first_or_last P xs = (case find P xs of Some x \<Rightarrow> x | None \<Rightarrow> last xs)"

lemma first_or_last_Cons: "first_or_last P (x # xs) = (if P x \<or> xs = [] then x else first_or_last P xs)"
  by (simp add: first_or_last_def split: option.split)

lemma first_or_last_append:
  assumes "xs \<noteq> []" "ys \<noteq> []" "\<And>x. x \<in> set xs \<Longrightarrow> P x \<Longrightarrow> P (last xs)"
  shows "first_or_last P (xs @ ys) = (if P (last xs) then first_or_last P xs else first_or_last P ys)"
proof -
  have f: "find P (xs @ ys) = (case find P xs of Some x \<Rightarrow> Some x | None \<Rightarrow> find P ys)" by (induction xs) auto
  show ?thesis
  proof (cases "find P xs")
    case None
    then have "\<not> P (last xs)" using assms(1) by (auto simp: find_None_iff)
    with None f assms(2) show ?thesis by (simp add: first_or_last_def split: option.split)
  next
    case (Some x)
    then have "x \<in> set xs" "P x" by (auto simp: find_Some_iff)
    then have "P (last xs)" by (rule assms(3))
    with Some f show ?thesis by (simp add: first_or_last_def)
  qed
qed

lemma buildTree_split:
  assumes "2 \<le> length scales"
  obtains xs ys where "scales = xs @ ys" "xs \<noteq> []" "ys \<noteq> []" "length xs < length scales" "length ys < length scales"
    "buildTree scales = Node (ns_to (last xs)) (ns_pixelTo (last xs)) (ns_from (hd scales)) (ns_to (last scales))
       (ns_pixelFrom (hd scales)) (ns_pixelTo (last scales)) (buildTree xs) (buildTree ys)"
proof -
  define size where "size = (length scales + 1) div 2"
  have size: "0 < size" "size < length scales" using assms by (auto simp: size_def)
  then have "last (take size scales) = scales ! (size - 1)"
    by (subst last_conv_nth) (auto simp: min_def)
  moreover have "scales \<noteq> []" "length scales \<noteq> 1" using assms by auto
  ultimately have "buildTree scales = Node (ns_to (last (take size scales))) (ns_pixelTo (last (take size scales)))
      (ns_from (hd scales)) (ns_to (last scales)) (ns_pixelFrom (hd scales)) (ns_pixelTo (last scales))
      (buildTree (take size scales)) (buildTree (drop size scales))"
    unfolding buildTree.simps [of scales] Let_def size_def [symmetric] by simp
  moreover have "scales \<noteq> []" using assms by auto
  ultimately show ?thesis using that [of "take size scales" "drop size scales"] size by simp
qed

lemma buildTree_single: "buildTree [s] = Leaf s"
  by (simp add: buildTree.simps)

lemma leaves_buildTree [simp]: "leaves (buildTree scales) = scales"
proof (induction scales rule: length_induct)
  case (1 scales)
  consider "scales = []" | s where "scales = [s]" | "2 \<le> length scales"
    by (cases scales; cases "tl scales") auto
  then show ?case
  proof cases
    case 3
    then obtain xs ys where "scales = xs @ ys" "length xs < length scales" "length ys < length scales"
      "leaves (buildTree scales) = leaves (buildTree xs) @ leaves (buildTree ys)"
      by (elim buildTree_split) simp
    with 1 show ?thesis by simp
  qed (simp_all add: buildTree_single, simp add: buildTree.simps)
qed

text \<open>The interface of a descent: at a node it goes to the left exactly when the last scale of the left part
  satisfies a test that, once true, stays true along the sequence.\<close>

locale descent =
  fixes descend :: "scale_tree \<Rightarrow> nscale option"
    and P :: "nscale \<Rightarrow> bool"
    and ok :: "nscale list \<Rightarrow> bool"
  assumes descend_leaf: "descend (Leaf s) = Some s"
    and descend_node: "xs \<noteq> [] \<Longrightarrow>
      descend (Node (ns_to (last xs)) (ns_pixelTo (last xs)) f t pf pt l r) = (if P (last xs) then descend l else descend r)"
    and ok_append: "ok (xs @ ys) \<Longrightarrow> ok xs \<and> ok ys"
    and ok_mono: "ok xs \<Longrightarrow> x \<in> set xs \<Longrightarrow> P x \<Longrightarrow> P (last xs)"
begin

lemma descend_first: "ok scales \<Longrightarrow> scales \<noteq> [] \<Longrightarrow> descend (buildTree scales) = Some (first_or_last P scales)"
proof (induction scales rule: length_induct)
  case (1 scales)
  consider s where "scales = [s]" | "2 \<le> length scales" using 1 by (cases scales; cases "tl scales") auto
  then show ?case
  proof cases
    case 1
    then show ?thesis by (simp add: buildTree_single descend_leaf first_or_last_def)
  next
    case 2
    then obtain xs ys where s: "scales = xs @ ys" "xs \<noteq> []" "ys \<noteq> []" "length xs < length scales" "length ys < length scales"
      "buildTree scales = Node (ns_to (last xs)) (ns_pixelTo (last xs)) (ns_from (hd scales)) (ns_to (last scales))
       (ns_pixelFrom (hd scales)) (ns_pixelTo (last scales)) (buildTree xs) (buildTree ys)"
      by (rule buildTree_split)
    have ok: "ok xs" "ok ys" using ok_append 1 s(1) by blast+
    show ?thesis
      using 1 ok s descend_node [OF s(2)] first_or_last_append [OF s(2,3), of P] ok_mono [OF ok(1)] by simp
  qed
qed

end

definition ordered_scales :: "nscale list \<Rightarrow> bool" where
  "ordered_scales ss \<longleftrightarrow> (\<exists>p y. chained p y ss)"

lemma ordered_scales_append: "ordered_scales (xs @ ys) \<Longrightarrow> ordered_scales xs \<and> ordered_scales ys"
  by (auto simp: ordered_scales_def chained_append split: if_splits)

lemma ordered_last:
  assumes "ordered_scales xs" "x \<in> set xs"
  shows "ns_to x \<le> ns_to (last xs) \<and> ns_pixelTo x \<le> ns_pixelTo (last xs)"
proof -
  obtain p y where c: "chained p y xs" using assms(1) by (auto simp: ordered_scales_def)
  obtain ys l where xs: "xs = ys @ [l]" using assms(2) by (cases xs rule: rev_cases) auto
  have "ns_to x \<le> ns_from l \<and> ns_pixelTo x \<le> ns_pixelFrom l" if m: "x \<in> set ys"
  proof -
    obtain us vs where ys: "ys = us @ x # vs" using split_list [OF m] by blast
    have "chained p y ((us @ [x]) @ vs @ [l])" using c unfolding xs ys by simp
    then have "chained (ns_to x) (ns_pixelTo x) (vs @ [l])" unfolding chained_append [of p y "us @ [x]"] by simp
    from chained_bounds [OF this, of l] show ?thesis by simp
  qed
  moreover have "ns_from l \<le> ns_to l" "ns_pixelFrom l \<le> ns_pixelTo l" using chained_bounds [OF c, of l] xs by simp_all
  moreover have "x \<in> set ys \<or> x = l" using assms(2) xs by auto
  moreover have "last xs = l" using xs by simp
  ultimately show ?thesis by force
qed

interpretation by_position: descent "descend_position x False" "\<lambda>s. x \<le> ns_to s" ordered_scales for x
proof unfold_locales
  show "ordered_scales (xs @ ys) \<Longrightarrow> ordered_scales xs \<and> ordered_scales ys" for xs ys by (rule ordered_scales_append)
  show "ordered_scales xs \<Longrightarrow> s \<in> set xs \<Longrightarrow> x \<le> ns_to s \<Longrightarrow> x \<le> ns_to (last xs)" for xs s
    using ordered_last [of xs s] by linarith
qed simp_all

interpretation by_last_position: descent "descend_position x True" "\<lambda>s. x < ns_to s" ordered_scales for x
proof unfold_locales
  show "ordered_scales (xs @ ys) \<Longrightarrow> ordered_scales xs \<and> ordered_scales ys" for xs ys by (rule ordered_scales_append)
  show "ordered_scales xs \<Longrightarrow> s \<in> set xs \<Longrightarrow> x < ns_to s \<Longrightarrow> x < ns_to (last xs)" for xs s
    using ordered_last [of xs s] by linarith
qed (simp_all add: not_le)

interpretation by_pixel: descent "descend_pixel x" "\<lambda>s. x \<le> ns_pixelTo s" ordered_scales for x
proof unfold_locales
  show "ordered_scales (xs @ ys) \<Longrightarrow> ordered_scales xs \<and> ordered_scales ys" for xs ys by (rule ordered_scales_append)
  show "ordered_scales xs \<Longrightarrow> s \<in> set xs \<Longrightarrow> x \<le> ns_pixelTo s \<Longrightarrow> x \<le> ns_pixelTo (last xs)" for xs s
    using ordered_last [of xs s] by linarith
qed simp_all

lemma tree_bounds_build:
  assumes "scales \<noteq> []"
  shows "tree_bounds (buildTree scales) = Some (ns_from (hd scales), ns_to (last scales))"
    and "tree_pixel_bounds (buildTree scales) = Some (ns_pixelFrom (hd scales), ns_pixelTo (last scales))"
proof -
  consider s where "scales = [s]" | "2 \<le> length scales" using assms by (cases scales; cases "tl scales") auto
  then have "tree_bounds (buildTree scales) = Some (ns_from (hd scales), ns_to (last scales)) \<and>
      tree_pixel_bounds (buildTree scales) = Some (ns_pixelFrom (hd scales), ns_pixelTo (last scales))"
  proof cases
    case 2
    then show ?thesis by (elim buildTree_split) simp
  qed (simp add: buildTree_single)
  then show "tree_bounds (buildTree scales) = Some (ns_from (hd scales), ns_to (last scales))"
    "tree_pixel_bounds (buildTree scales) = Some (ns_pixelFrom (hd scales), ns_pixelTo (last scales))" by simp_all
qed

text \<open>The normalized scales of a valid sequence, with their bounds.\<close>

lemma normalize_Nil [simp]: "normalize_from p y i scales = [] \<longleftrightarrow> scales = []"
  by (cases scales) (simp_all add: Let_def)

lemma normalize_last: "scales \<noteq> [] \<Longrightarrow> ns_to (last (normalize_from p y i scales)) = sc_to (last scales)"
  by (induction scales arbitrary: p y i) (auto simp: Let_def)

lemma normalize_hd: "scales \<noteq> [] \<Longrightarrow>
  ns_from (hd (normalize_from p y i scales)) = p \<and> ns_pixelFrom (hd (normalize_from p y i scales)) = y"
  by (cases scales) (simp_all add: Let_def)

lemma tree_of_scales:
  assumes "spaceScalesToBinaryTree spaceOrigin scales = Inr tree" "scales \<noteq> []"
  defines "ns \<equiv> normalize_from spaceOrigin 0 0 scales"
  shows "tree = buildTree ns" "chained spaceOrigin 0 ns" "ns \<noteq> []" "ordered_scales ns"
    "tree_bounds tree = Some (spaceOrigin, sc_to (last scales))" "tree_pixel_bounds tree = Some (0, ns_pixelTo (last ns))"
proof -
  show t: "tree = buildTree ns" and c: "chained spaceOrigin 0 ns"
    using assms(1) normalize_chained unfolding ns_def by (auto simp: spaceScalesToBinaryTree_def split: if_splits)
  show "ns \<noteq> []" "ordered_scales ns" using assms(2) c by (auto simp: ns_def ordered_scales_def)
  show "tree_bounds tree = Some (spaceOrigin, sc_to (last scales))" "tree_pixel_bounds tree = Some (0, ns_pixelTo (last ns))"
    using tree_bounds_build [of ns] assms(2) by (simp_all add: t ns_def normalize_last normalize_hd)
qed

lemma lookups:
  assumes "spaceScalesToBinaryTree spaceOrigin scales = Inr tree" "scales \<noteq> []"
  defines "ns \<equiv> normalize_from spaceOrigin 0 0 scales"
  shows "getNormalizedScaleAtPosition x tree False =
      Some (first_or_last (\<lambda>s. js_clamp x spaceOrigin (sc_to (last scales)) \<le> ns_to s) ns)"
    and "getNormalizedScaleAtPosition x tree True =
      Some (first_or_last (\<lambda>s. js_clamp x spaceOrigin (sc_to (last scales)) < ns_to s) ns)"
    and "getNormalizedScaleAtPixel y tree = Some (first_or_last (\<lambda>s. js_clamp y 0 (ns_pixelTo (last ns)) \<le> ns_pixelTo s) ns)"
  using tree_of_scales [OF assms(1,2)] by_position.descend_first by_last_position.descend_first by_pixel.descend_first
  unfolding ns_def by (simp_all add: getNormalizedScaleAtPosition_def getNormalizedScaleAtPixel_def)

section \<open>Positions and pixels\<close>

text \<open>The scale found for a position contains it.\<close>

lemma first_contains:
  assumes "chained a y ns" "ns \<noteq> []" "a \<le> x" "x \<le> ns_to (last ns)"
  shows "first_or_last (\<lambda>s. x \<le> ns_to s) ns \<in> set ns \<and> ns_from (first_or_last (\<lambda>s. x \<le> ns_to s) ns) \<le> x \<and>
    x \<le> ns_to (first_or_last (\<lambda>s. x \<le> ns_to s) ns)"
  using assms
proof (induction ns arbitrary: a y)
  case (Cons s ns)
  show ?case
  proof (cases "x \<le> ns_to s")
    case True
    with Cons.prems show ?thesis by (simp add: first_or_last_Cons)
  next
    case False
    then have "ns \<noteq> []" using Cons.prems(4) by auto
    moreover have "first_or_last (\<lambda>s. x \<le> ns_to s) (s # ns) = first_or_last (\<lambda>s. x \<le> ns_to s) ns"
      using False \<open>ns \<noteq> []\<close> by (simp add: first_or_last_Cons)
    ultimately show ?thesis using Cons.IH [of "ns_to s" "ns_pixelTo s"] Cons.prems False by auto
  qed
qed simp

lemma last_contains:
  assumes "chained a y ns" "ns \<noteq> []" "a \<le> x" "x \<le> ns_to (last ns)"
  shows "first_or_last (\<lambda>s. x < ns_to s) ns \<in> set ns \<and> ns_from (first_or_last (\<lambda>s. x < ns_to s) ns) \<le> x \<and>
    x \<le> ns_to (first_or_last (\<lambda>s. x < ns_to s) ns)"
  using assms
proof (induction ns arbitrary: a y)
  case (Cons s ns)
  show ?case
  proof (cases "x < ns_to s \<or> ns = []")
    case True
    with Cons.prems show ?thesis by (auto simp: first_or_last_Cons)
  next
    case False
    then have "first_or_last (\<lambda>s. x < ns_to s) (s # ns) = first_or_last (\<lambda>s. x < ns_to s) ns"
      by (simp add: first_or_last_Cons)
    then show ?thesis using Cons.IH [of "ns_to s" "ns_pixelTo s"] Cons.prems False by auto
  qed
qed simp

text \<open>Every scale that contains a pixel gives it the same position.\<close>

lemma pixel_position_unique:
  assumes "chained a y0 ns" "s \<in> set ns" "ns_pixelFrom s \<le> y" "y \<le> ns_pixelTo s"
  defines "r \<equiv> first_or_last (\<lambda>s. y \<le> ns_pixelTo s) ns"
  shows "ns_from r + (y - ns_pixelFrom r) * ns_coefficient r = ns_from s + (y - ns_pixelFrom s) * ns_coefficient s"
  using assms(1,2) unfolding r_def
proof (induction ns arbitrary: a y0)
  case (Cons x ns)
  show ?case
  proof (cases "y \<le> ns_pixelTo x")
    case True
    then have r: "first_or_last (\<lambda>s. y \<le> ns_pixelTo s) (x # ns) = x" by (simp add: first_or_last_def)
    show ?thesis
    proof (cases "s = x")
      case False
      then have s: "s \<in> set ns" "chained (ns_to x) (ns_pixelTo x) ns" using Cons.prems by auto
      then have "ns_pixelFrom s = ns_pixelTo x" "y = ns_pixelTo x"
        using chained_bounds [OF s(2,1)] assms(3) True by linarith+
      moreover from this have "ns_from s = ns_to x" using chained_same_pixel [OF s(2,1)] by simp
      moreover have "ns_to x - ns_from x = (ns_pixelTo x - ns_pixelFrom x) * ns_coefficient x"
        using Cons.prems(1) by (auto simp: mult.commute)
      ultimately show ?thesis using r by simp
    qed (simp add: r)
  next
    case False
    then have "s \<noteq> x" using assms(4) by auto
    then have s: "s \<in> set ns" "chained (ns_to x) (ns_pixelTo x) ns" using Cons.prems by auto
    then have "first_or_last (\<lambda>s. y \<le> ns_pixelTo s) (x # ns) = first_or_last (\<lambda>s. y \<le> ns_pixelTo s) ns"
      using False by (auto simp: first_or_last_Cons)
    then show ?thesis using Cons.IH [OF s(2,1)] by simp
  qed
qed simp

lemma chained_member:
  "chained a y ns \<Longrightarrow> s \<in> set ns \<Longrightarrow>
   ns_to s - ns_from s = ns_coefficient s * (ns_pixelTo s - ns_pixelFrom s) \<and> 0 \<le> ns_coefficient s"
  by (induction ns arbitrary: a y) auto

text \<open>The pixel computed with a scale that contains the position.\<close>

lemma scale_pixel:
  fixes e :: bool
  assumes "chained a y0 ns" "s \<in> set ns" "ns_from s \<le> x" "x \<le> ns_to s"
  defines "y \<equiv> (if ns_coefficient s = 0 then (if e then ns_pixelTo s else ns_pixelFrom s)
      else ns_pixelFrom s + (x - ns_from s) / ns_coefficient s)"
  shows "ns_pixelFrom s \<le> y \<and> y \<le> ns_pixelTo s \<and> ns_from s + (y - ns_pixelFrom s) * ns_coefficient s = x"
proof (cases "ns_coefficient s = 0")
  case True
  then have "x = ns_from s" using chained_member [OF assms(1,2)] assms(3,4) by simp
  with True show ?thesis using chained_bounds [OF assms(1,2)] by (simp add: y_def)
next
  case False
  then have c: "0 < ns_coefficient s" using chained_member [OF assms(1,2)] by simp
  have "(x - ns_from s) / ns_coefficient s \<le> ns_pixelTo s - ns_pixelFrom s"
    using c assms(4) chained_member [OF assms(1,2)] by (simp add: pos_divide_le_eq mult.commute)
  moreover have "0 \<le> (x - ns_from s) / ns_coefficient s" using c assms(3) by simp
  ultimately show ?thesis using False by (simp add: y_def)
qed

text \<open>C19: the lookups through the binary tree agree with a linear search in the sequence of scales: the first
  scale that ends at the position or after it, the first one that ends after it when the last scale is
  wanted, and the first one that ends at the pixel or after it, for the position or pixel brought into
  the bounds of the chart. Beyond the end of the chart this is the first scale that ends at the end, not always the last
  scale (\<open>beyond_flat_end\<close> below).\<close>

theorem tree_lookup_linear:
  assumes "spaceScalesToBinaryTree spaceOrigin scales = Inr tree" "scales \<noteq> []"
  defines "ns \<equiv> normalize_from spaceOrigin 0 0 scales"
  shows "getNormalizedScaleAtPosition x tree False =
      Some (first_or_last (\<lambda>s. js_clamp x spaceOrigin (sc_to (last scales)) \<le> ns_to s) ns) \<and>
    getNormalizedScaleAtPosition x tree True =
      Some (first_or_last (\<lambda>s. js_clamp x spaceOrigin (sc_to (last scales)) < ns_to s) ns) \<and>
    getNormalizedScaleAtPixel y tree = Some (first_or_last (\<lambda>s. js_clamp y 0 (ns_pixelTo (last ns)) \<le> ns_pixelTo s) ns)"
  using lookups [OF assms(1,2)] unfolding ns_def by blast

text \<open>A position of the chart is recovered from its pixel, from either end of a flat step.\<close>

lemma space_pixel_roundtrip:
  assumes "spaceScalesToBinaryTree spaceOrigin scales = Inr tree" "scales \<noteq> []"
    and "spaceOrigin \<le> x" "x \<le> sc_to (last scales)"
  shows "\<exists>y. getSpaceToPixel pixelOffset tree x fromEnd = Some y \<and> getPixelToSpace pixelOffset tree y = Some x"
proof -
  define ns where "ns = normalize_from spaceOrigin 0 0 scales"
  note t = tree_of_scales [OF assms(1,2), folded ns_def]
  have l: "ns_to (last ns) = sc_to (last scales)" using assms(2) by (simp add: ns_def normalize_last)
  have x: "js_clamp x spaceOrigin (sc_to (last scales)) = x" using assms(3,4) by (simp add: js_clamp_def)
  obtain s where s: "getNormalizedScaleAtPosition x tree fromEnd = Some s" "s \<in> set ns" "ns_from s \<le> x" "x \<le> ns_to s"
    using lookups(1,2) [OF assms(1,2), of x, folded ns_def] first_contains [OF t(2,3) assms(3)]
      last_contains [OF t(2,3) assms(3)] assms(4) unfolding x l by (cases fromEnd) auto
  define y where "y = (if ns_coefficient s = 0 then (if fromEnd then ns_pixelTo s else ns_pixelFrom s)
      else ns_pixelFrom s + (x - ns_from s) / ns_coefficient s)"
  note y = scale_pixel [OF t(2) s(2-4), of fromEnd, folded y_def]
  have "0 \<le> y" "y \<le> ns_pixelTo (last ns)"
    using y chained_bounds [OF t(2) s(2)] ordered_last [OF t(4) s(2)] by linarith+
  then have clamp: "js_clamp y 0 (ns_pixelTo (last ns)) = y" by (simp add: js_clamp_def)
  have "getSpaceToPixel pixelOffset tree x fromEnd = Some (pixelOffset + y)"
    using s(1) by (simp add: getSpaceToPixel_def y_def)
  moreover have "getPixelToSpace pixelOffset tree (pixelOffset + y) = Some x"
    using lookups(3) [OF assms(1,2), of y, folded ns_def] y pixel_position_unique [OF t(2) s(2), of y]
    unfolding clamp by (simp add: getPixelToSpace_def)
  ultimately show ?thesis by blast
qed

section \<open>Breakpoints\<close>

lemma breakpoints_from_takeWhile:
  "\<exists>j<length scales. i \<le> j \<and> \<not> ns_to (scales ! j) < to \<Longrightarrow>
   breakpoints_from to scales i = Inr (map ns_to (takeWhile (\<lambda>s. ns_to s < to) (drop i scales)))"
proof (induction to scales i rule: breakpoints_from.induct)
  case (1 to scales i)
  then obtain j where j: "j < length scales" "i \<le> j" "\<not> ns_to (scales ! j) < to" by blast
  then have i: "i < length scales" by simp
  then have d: "drop i scales = scales ! i # drop (Suc i) scales" by (simp add: Cons_nth_drop_Suc)
  show ?case
  proof (cases "ns_to (scales ! i) < to")
    case True
    with j have "Suc i \<le> j" by (metis Suc_leI le_neq_implies_less)
    with 1 True i j d show ?thesis by (subst breakpoints_from.simps) auto
  next
    case False
    with i d show ?thesis by (subst breakpoints_from.simps) simp
  qed
qed

lemma ordered_sorted: "ordered_scales ns \<Longrightarrow> sorted (map ns_to ns)"
proof (induction ns)
  case (Cons x ns)
  then obtain p y where "chained p y (x # ns)" by (auto simp: ordered_scales_def)
  then have c: "chained (ns_to x) (ns_pixelTo x) ns" by simp
  then have "ns_to x \<le> ns_to s" if "s \<in> set ns" for s using chained_bounds [OF c that] by linarith
  moreover have "ordered_scales ns" using c by (auto simp: ordered_scales_def)
  ultimately show ?case using Cons.IH by simp
qed simp

lemma sorted_takeWhile_filter:
  fixes f :: "'a \<Rightarrow> num"
  shows "sorted (map f xs) \<Longrightarrow> takeWhile (\<lambda>s. f s < t) xs = filter (\<lambda>s. f s < t) xs"
  by (induction xs) (auto simp: filter_empty_conv intro!: filter_False [symmetric])

lemma sorted_drop_filter:
  fixes f :: "'a \<Rightarrow> num"
  assumes "sorted (map f xs)" "k < length xs" "x \<le> f (xs ! k)" "\<And>i. i < k \<Longrightarrow> f (xs ! i) < x"
  shows "drop k xs = filter (\<lambda>s. x \<le> f s) xs"
proof -
  have "filter (\<lambda>s. x \<le> f s) (take k xs) = []" using assms(2,4) by (auto simp: filter_empty_conv in_set_conv_nth not_le)
  moreover have "filter (\<lambda>s. x \<le> f s) (drop k xs) = drop k xs"
  proof (rule filter_True, rule ballI)
    fix s assume "s \<in> set (drop k xs)"
    then obtain j where "j < length xs - k" "s = xs ! (k + j)" by (auto simp: in_set_conv_nth)
    moreover from this have "f (xs ! k) \<le> f (xs ! (k + j))" using sorted_nth_mono [OF assms(1), of k "k + j"] by simp
    ultimately show "x \<le> f s" using assms(3) by simp
  qed
  ultimately show ?thesis by (metis append_Nil append_take_drop_id filter_append)
qed

lemma first_or_last_nth:
  assumes "xs \<noteq> []"
  obtains k where "k < length xs" "first_or_last P xs = xs ! k" "\<And>i. i < k \<Longrightarrow> \<not> P (xs ! i)"
    "P (xs ! k) \<or> k = length xs - 1 \<and> (\<forall>x\<in>set xs. \<not> P x)"
proof (cases "find P xs")
  case None
  then have "\<forall>x\<in>set xs. \<not> P x" by (simp add: find_None_iff)
  with None assms show ?thesis using that [of "length xs - 1"] by (simp add: first_or_last_def last_conv_nth)
next
  case (Some x)
  then obtain k where "k < length xs" "P (xs ! k)" "x = xs ! k" "\<forall>i<k. \<not> P (xs ! i)" by (auto simp: find_Some_iff)
  with Some that [of k] show ?thesis by (simp add: first_or_last_def)
qed

text \<open>C39: the points where a line is broken are the ends of the scales between its two positions, in order, and
  the loop over the siblings never leaves the sequence of scales; a line drawn backwards is broken at the
  same points in reverse.\<close>

theorem breakpoints_correct:
  assumes "spaceScalesToBinaryTree spaceOrigin scales = Inr tree" "scales \<noteq> []" "from \<le> to"
  defines "points \<equiv> filter (\<lambda>x. max from spaceOrigin \<le> x \<and> x < min to (sc_to (last scales))) (map sc_to scales)"
  shows "getSpaceBreakpoints from to tree = Inr points \<and> (from < to \<longrightarrow> getSpaceBreakpoints to from tree = Inr (rev points))"
proof -
  define ns where "ns = normalize_from spaceOrigin 0 0 scales"
  note t = tree_of_scales [OF assms(1,2), folded ns_def]
  have map_to: "map ns_to (normalize_from p y i scales) = map sc_to scales" for p y i
    by (induction scales arbitrary: p y i) (simp_all add: Let_def)
  define T where "T = sc_to (last scales)"
  define x where "x = js_clamp (max from spaceOrigin) spaceOrigin T"
  have lT: "ns_to (last ns) = T" using assms(2) by (simp add: ns_def normalize_last T_def)
  have oT: "spaceOrigin \<le> T" using chained_bounds [OF t(2), of "hd ns"] ordered_last [OF t(4), of "hd ns"] t(3) lT by force
  have xT: "x \<le> T" using oT by (simp add: x_def js_clamp_def)
  obtain k where k: "k < length ns" "getNormalizedScaleAtPosition (max from spaceOrigin) tree False = Some (ns ! k)"
    "\<And>i. i < k \<Longrightarrow> ns_to (ns ! i) < x" "x \<le> ns_to (ns ! k)"
  proof (rule first_or_last_nth [OF t(3), of "\<lambda>s. x \<le> ns_to s"])
    fix k assume k: "k < length ns" "first_or_last (\<lambda>s. x \<le> ns_to s) ns = ns ! k" "\<And>i. i < k \<Longrightarrow> \<not> x \<le> ns_to (ns ! i)"
      "x \<le> ns_to (ns ! k) \<or> k = length ns - 1 \<and> (\<forall>s\<in>set ns. \<not> x \<le> ns_to s)"
    have "x \<le> ns_to (last ns)" using xT lT by simp
    then have "x \<le> ns_to (ns ! k)" using k(4) t(3) last_in_set by blast
    with k that [of k] lookups(1) [OF assms(1,2), of "max from spaceOrigin", folded ns_def T_def] show thesis
      by (simp add: not_le flip: x_def)
  qed
  have srt: "sorted (map ns_to ns)" using ordered_sorted [OF t(4)] .
  have idx: "ns_index (ns ! k) = k" using normalize_index [of k scales spaceOrigin 0 0] k(1) by (simp add: ns_def)
  have "\<not> ns_to (ns ! (length ns - 1)) < min to T" using lT t(3) by (simp add: last_conv_nth)
  then have "breakpoints_from (min to T) ns k = Inr (map ns_to (takeWhile (\<lambda>s. ns_to s < min to T) (drop k ns)))"
    using k(1) by (intro breakpoints_from_takeWhile exI [of _ "length ns - 1"]) auto
  also have "takeWhile (\<lambda>s. ns_to s < min to T) (drop k ns) = filter (\<lambda>s. ns_to s < min to T) (filter (\<lambda>s. x \<le> ns_to s) ns)"
    using sorted_takeWhile_filter [OF sorted_filter [OF srt], of "min to T" "\<lambda>s. x \<le> ns_to s"] sorted_drop_filter [OF srt k(1,4,3)]
    by simp
  also have "\<dots> = filter (\<lambda>s. max from spaceOrigin \<le> ns_to s \<and> ns_to s < min to T) ns"
    by (auto simp: x_def js_clamp_def intro!: filter_cong)
  also have "map ns_to \<dots> = filter (\<lambda>x. max from spaceOrigin \<le> x \<and> x < min to T) (map sc_to scales)"
    by (simp only: filter_map comp_def map_to [of spaceOrigin 0 0, folded ns_def, symmetric])
  finally have le: "getSpaceBreakpoints_le from to tree = Inr points"
    using k(2) idx t(1,5) by (simp add: getSpaceBreakpoints_le_def points_def T_def)
  then show ?thesis using assms(3) by (simp add: getSpaceBreakpoints_def)
qed

text \<open>After a rectangle zoom the centre of the rectangle is in the middle of the chart.\<close>

lemma sideOffset_centre:
  "newScale \<noteq> 0 \<Longrightarrow>
   ((rectStart + rectEnd) / 2 - origin) / newScale + sideOffset origin newScale rectStart rectEnd px 0 = px / 2"
  by (simp add: sideOffset_def Let_def field_simps)

definition ex_scales :: "space_scale list" where
  "ex_scales = [CoefficientScale 10 2, SizeScale 10 3, SizeScale 20 4]"

definition ex_tree :: scale_tree where
  "ex_tree = buildTree (normalize_from 0 0 0 ex_scales)"

lemma ex_tree: "spaceScalesToBinaryTree 0 ex_scales = Inr ex_tree" "ex_scales \<noteq> []" "sc_to (last ex_scales) = 20"
  by (simp_all add: spaceScalesToBinaryTree_def ex_scales_def ex_tree_def)

theorem tree_lookup_linear_witness:
  "getNormalizedScaleAtPosition 10 ex_tree False =
   Some (first_or_last (\<lambda>s. js_clamp 10 0 20 \<le> ns_to s) (normalize_from 0 0 0 ex_scales))"
  using tree_lookup_linear [OF ex_tree(1,2), of 10] by (simp add: ex_tree(3))

text \<open>The comment of \<open>getNormalizedScaleAtPosition\<close> promises the last leaf for a position beyond the end of the tree. When the chart
  ends with a flat step, a position beyond the end gives the scale before it.\<close>

lemma beyond_flat_end:
  "map_option (\<lambda>tree. map_option ns_index (getNormalizedScaleAtPosition 15 tree False))
     (case spaceScalesToBinaryTree 0 [CoefficientScale 10 2, SizeScale 10 3] of Inl e \<Rightarrow> None | Inr tree \<Rightarrow> Some tree) = Some (Some 0)"
  by code_simp

theorem breakpoints_correct_witness: "getSpaceBreakpoints 1 30 ex_tree = Inr [10, 10]"
  using breakpoints_correct [OF ex_tree(1,2), of 1 30] by (simp add: ex_tree(3) ex_scales_def)

end
