(* ===== verification/NgeTypes.thy ===== *)
theory NgeTypes
  imports PacedTrain
begin

text \<open>
  The data that the front end exchanges with the netzgrafik editor (NGE), the macroscopic view of a
  timetable: \<open>NGE/types.ts\<close> and \<open>MacroEditor/consts.ts\<close> of
  \<open>front/src/applications/operationalStudies/views/Scenario/components\<close>, and the lookups of frequencies and
  categories of \<open>MacroEditor/utils.ts\<close>. Fields that always hold the same constant and are never read by
  the front end are left out.
\<close>

section \<open>Documents of the editor (NGE/types.ts)\<close>

datatype port_alignment = PortTop | PortBottom | PortLeft | PortRight

record port_dto =
  po_id :: int
  po_positionIndex :: int
  po_positionAlignment :: port_alignment
  po_trainrunSectionId :: int

record transition_dto =
  tr_id :: int
  tr_port1Id :: int
  tr_port2Id :: int
  tr_isNonStopTransit :: bool

record node_dto =
  no_id :: int
  no_betriebspunktName :: string
  no_fullName :: string
  no_positionX :: num
  no_positionY :: num
  no_ports :: "port_dto list"
  no_transitions :: "transition_dto list"
  no_resourceId :: int
  no_connectionTime :: num
  no_labelIds :: "int list"

datatype trainrun_direction = OneWay | RoundTrip

record trainrun_dto =
  tn_id :: int
  tn_name :: string
  tn_categoryId :: int
  tn_frequencyId :: int
  tn_trainrunTimeCategoryId :: int
  tn_labelIds :: "int list"
  tn_direction :: trainrun_direction

record time_lock =
  tl_time :: "num option"
  tl_consecutiveTime :: "num option"
  tl_lock :: bool

record section_dto =
  se_id :: int
  se_sourceNodeId :: int
  se_sourcePortId :: int
  se_targetNodeId :: int
  se_targetPortId :: int
  se_sourceSymmetry :: bool
  se_targetSymmetry :: bool
  se_sourceDeparture :: time_lock
  se_sourceArrival :: time_lock
  se_targetDeparture :: time_lock
  se_targetArrival :: time_lock
  se_travelTime :: time_lock
  se_backwardTravelTime :: time_lock
  se_trainrunId :: int
  se_resourceId :: int

record nge_category =
  ca_id :: int
  ca_order :: int
  ca_name :: string
  ca_shortName :: string
  ca_colorRef :: string

record nge_frequency =
  fr_id :: int
  fr_order :: int
  fr_frequency :: num
  fr_offset :: num
  fr_name :: string
  fr_shortName :: string
  fr_linePatternRef :: string

record nge_time_category =
  tc_id :: int
  tc_order :: int
  tc_shortName :: string
  tc_name :: string
  tc_linePatternRef :: string

record label_dto =
  la_id :: int
  la_label :: string
  la_labelGroupId :: int
  la_labelRef :: string

record note_dto =
  nt_id :: int
  nt_x :: num
  nt_y :: num
  nt_title :: string
  nt_text :: string
  nt_labelIds :: "int list"

record netzgrafik_dto =
  nz_nodes :: "node_dto list"
  nz_trainrunSections :: "section_dto list"
  nz_trainruns :: "trainrun_dto list"
  nz_trainrunCategories :: "nge_category list"
  nz_trainrunFrequencies :: "nge_frequency list"
  nz_freeFloatingTexts :: "note_dto list"
  nz_labels :: "label_dto list"

text \<open>A train as it is sent to the server (\<open>TrainSchedule\<close>, whose member \<open>paced\<close> is optional), and as the server
  returns it (\<open>TimetableItem\<close>).\<close>

record train_payload = train_schedule +
  tp_paced :: "paced option"

record timetable_item = train_payload +
  tm_id :: int

section \<open>Constants (consts.ts)\<close>

datatype trainrun_way = FORWARD | BACKWARD

definition TRAINRUN_LABEL_GROUP :: int where "TRAINRUN_LABEL_GROUP = 1"
definition NODE_LABEL_GROUP :: int where "NODE_LABEL_GROUP = 2"
definition NOTE_LABEL_GROUP :: int where "NOTE_LABEL_GROUP = 3"

definition new_frequency :: "int \<Rightarrow> num \<Rightarrow> string \<Rightarrow> string \<Rightarrow> nge_frequency" where
  "new_frequency i f short pattern =
     \<lparr>fr_id = i, fr_order = i, fr_frequency = f, fr_offset = 0, fr_name = [], fr_shortName = short,
      fr_linePatternRef = pattern\<rparr>"

definition DEFAULT_TRAINRUN_FREQUENCIES :: "nge_frequency list" where
  "DEFAULT_TRAINRUN_FREQUENCIES =
     [new_frequency 1 1440 ''-'' ''120'', new_frequency 2 30 ''30'' ''30'',
      new_frequency 3 60 ''60'' ''60'', new_frequency 4 120 ''120'' ''120'']"

definition UNIQUE_TRAIN_FREQUENCY_ID :: int where "UNIQUE_TRAIN_FREQUENCY_ID = 1"

definition DEFAULT_PACED_TRAIN_FREQUENCY_IDS :: "int list" where
  "DEFAULT_PACED_TRAIN_FREQUENCY_IDS =
     map fr_id (filter (\<lambda>freq. fr_id freq \<noteq> UNIQUE_TRAIN_FREQUENCY_ID) DEFAULT_TRAINRUN_FREQUENCIES)"

definition DEFAULT_TRAINRUN_TIME_CATEGORY :: nge_time_category where
  "DEFAULT_TRAINRUN_TIME_CATEGORY =
     \<lparr>tc_id = 0, tc_order = 0, tc_shortName = ''____'', tc_name = ''Plain'', tc_linePatternRef = ''7/24''\<rparr>"

definition CUSTOM_TRAINRUN_TIME_CATEGORY :: nge_time_category where
  "CUSTOM_TRAINRUN_TIME_CATEGORY =
     \<lparr>tc_id = 1, tc_order = 1, tc_shortName = ''__.__'', tc_name = ''Dash (long)'', tc_linePatternRef = ''HVZ''\<rparr>"

definition UNIQUE_TRAIN_TIME_CATEGORY :: nge_time_category where
  "UNIQUE_TRAIN_TIME_CATEGORY =
     \<lparr>tc_id = 2, tc_order = 2, tc_shortName = ''_._._'', tc_name = ''Dash (short)'', tc_linePatternRef = ''ZEITWEISE''\<rparr>"

definition DEFAULT_TRAINRUN_TIME_CATEGORIES :: "nge_time_category list" where
  "DEFAULT_TRAINRUN_TIME_CATEGORIES =
     [DEFAULT_TRAINRUN_TIME_CATEGORY, CUSTOM_TRAINRUN_TIME_CATEGORY, UNIQUE_TRAIN_TIME_CATEGORY]"

definition DEFAULT_TIME_LOCK :: time_lock where
  "DEFAULT_TIME_LOCK = \<lparr>tl_time = None, tl_consecutiveTime = None, tl_lock = False\<rparr>"

definition DEFAULT_TRAIN_SCHEDULE_PAYLOAD :: train_payload where
  "DEFAULT_TRAIN_SCHEDULE_PAYLOAD =
     \<lparr>ts_train_name = [], ts_start_time = [], ts_rolling_stock_name = [], ts_comfort = None,
      ts_constraint_distribution = STANDARD, ts_initial_speed = None, ts_labels = None, ts_margins = None,
      ts_options = None, ts_path = [], ts_power_restrictions = None, ts_schedule = None, ts_speed_limit_tag = None,
      ts_category = None, tp_paced = None\<rparr>"

definition DEFAULT_TIME_WINDOW :: duration where
  "DEFAULT_TIME_WINDOW = new_duration 2 0 0 0"

text \<open>None is \<open>NO_CATEGORY\<close>.\<close>

definition TRAIN_MAIN_CATEGORY_TO_NGE :: "(main_category option \<times> string) list" where
  "TRAIN_MAIN_CATEGORY_TO_NGE =
     [(Some HIGH_SPEED_TRAIN, ''HST''), (Some INTERCITY_TRAIN, ''IC''), (Some REGIONAL_TRAIN, ''RE''),
      (Some COMMUTER_TRAIN, ''S''), (Some FREIGHT_TRAIN, ''F''), (Some FAST_FREIGHT_TRAIN, ''FF''),
      (Some TRAM_TRAIN, ''TT''), (Some WORK_TRAIN, ''W''), (Some NIGHT_TRAIN, ''NT''),
      (Some TOURISTIC_TRAIN, ''TO''), (None, ''NC'')]"

text \<open>The map from the categories to those of the editor, in the order of insertion; its names are replaced by
  \<open>getTrainrunCategories\<close>.\<close>

definition OSRD_TRAINRUN_MAIN_CATEGORY_CODE_MAPPING :: "(main_category option \<times> nge_category) list" where
  "OSRD_TRAINRUN_MAIN_CATEGORY_CODE_MAPPING =
     map (\<lambda>(i, trainCategory, colorRef).
            (trainCategory, \<lparr>ca_id = int i + 1, ca_order = int i + 1, ca_name = [], ca_shortName = [], ca_colorRef = colorRef\<rparr>))
       (zip [0..<length TRAIN_MAIN_CATEGORY_TO_NGE] TRAIN_MAIN_CATEGORY_TO_NGE)"

section \<open>Frequencies and categories (utils.ts)\<close>

text \<open>The names come from the translations: \<open>uniqueTrain\<close> and \<open>intervalXmin\<close> are parameters.\<close>

definition getDefaultTrainrunFrequencies :: "string \<Rightarrow> (num \<Rightarrow> string) \<Rightarrow> nge_frequency list" where
  "getDefaultTrainrunFrequencies uniqueTrain intervalXmin =
     map (\<lambda>freq. freq\<lparr>fr_name := if fr_id freq = UNIQUE_TRAIN_FREQUENCY_ID then uniqueTrain
                                else intervalXmin (fr_frequency freq)\<rparr>)
       DEFAULT_TRAINRUN_FREQUENCIES"

definition getTrainrunTimeCategoryFromFrequency :: "nge_frequency \<Rightarrow> nge_time_category" where
  "getTrainrunTimeCategoryFromFrequency trainrunFrequency =
     (if fr_id trainrunFrequency = UNIQUE_TRAIN_FREQUENCY_ID then UNIQUE_TRAIN_TIME_CATEGORY
      else if fr_id trainrunFrequency \<notin> set DEFAULT_PACED_TRAIN_FREQUENCY_IDS then CUSTOM_TRAINRUN_TIME_CATEGORY
      else DEFAULT_TRAINRUN_TIME_CATEGORY)"

definition getFrequencyFromFrequencyId :: "nge_frequency list \<Rightarrow> int \<Rightarrow> nge_frequency result" where
  "getFrequencyFromFrequencyId trainrunFrequencies frequencyId =
     (case find (\<lambda>f. fr_id f = frequencyId) trainrunFrequencies of
        None \<Rightarrow> Inl (JSError (''Frequency with ID '' @ string_of_int frequencyId @ '' not found.''))
      | Some f \<Rightarrow> Inr f)"

definition getTrainrunFrequencyFromTimetableItem ::
  "(string \<Rightarrow> duration) \<Rightarrow> timetable_item \<Rightarrow> nge_frequency list \<Rightarrow> nge_frequency result" where
  "getTrainrunFrequencyFromTimetableItem parse timetableItem trainrunFrequencies =
     (case tp_paced timetableItem of
        None \<Rightarrow> getFrequencyFromFrequencyId trainrunFrequencies UNIQUE_TRAIN_FREQUENCY_ID
      | Some p \<Rightarrow>
          let intervalInMinutes = duration_total (parse (pc_interval p)) Minute in
          (case find (\<lambda>f. fr_frequency f = intervalInMinutes) trainrunFrequencies of
             None \<Rightarrow> Inl (JSError (''Frequency with interval '' @ [CHR 0x27] @ js_num_string intervalInMinutes @
                              [CHR 0x27] @ '' not found.''))
           | Some f \<Rightarrow> Inr f))"

text \<open>The sub categories of the server, by code and name.\<close>

definition sub_prefix :: string where "sub_prefix = ''sub_''"

definition getTrainCategoryFromTrainrunCategoryId :: "nge_category list \<Rightarrow> int \<Rightarrow> train_category option result" where
  "getTrainCategoryFromTrainrunCategoryId trainrunCategories i =
     (case find (\<lambda>cat. ca_id cat = i) trainrunCategories of
        None \<Rightarrow> Inl (JSError (''Trainrun category with ID '' @ string_of_int i @ '' not found.''))
      | Some category \<Rightarrow>
          if starts_with sub_prefix (ca_colorRef category)
          then Inr (Some (SubCategory (drop (length sub_prefix) (ca_colorRef category))))
          else Inr (case find (\<lambda>(_, colorRef). colorRef = ca_colorRef category) TRAIN_MAIN_CATEGORY_TO_NGE of
                      None \<Rightarrow> None
                    | Some (trainCategory, _) \<Rightarrow> map_option MainCategory trainCategory))"

definition getTrainrunCategoryId :: "nge_category list \<Rightarrow> train_category option \<Rightarrow> int result" where
  "getTrainrunCategoryId trainrunCategories trainCategory =
     (case trainCategory of
        Some (MainCategory mainKey) \<Rightarrow>
          (case map_of OSRD_TRAINRUN_MAIN_CATEGORY_CODE_MAPPING (Some mainKey) of
             None \<Rightarrow> Inl TypeError | Some c \<Rightarrow> Inr (ca_id c))
      | None \<Rightarrow>
          (case map_of OSRD_TRAINRUN_MAIN_CATEGORY_CODE_MAPPING None of
             None \<Rightarrow> Inl TypeError | Some c \<Rightarrow> Inr (ca_id c))
      | Some (SubCategory code) \<Rightarrow>
          (case find (\<lambda>cat. ca_colorRef cat = sub_prefix @ code) trainrunCategories of
             None \<Rightarrow> Inl TypeError | Some c \<Rightarrow> Inr (ca_id c)))"

text \<open>The names of a main category come from the translations (\<open>name\<close>, \<open>shortName\<close>).\<close>

definition getTrainrunCategories ::
  "(main_category option \<Rightarrow> string) \<Rightarrow> (main_category option \<Rightarrow> string) \<Rightarrow> (string \<times> string) list \<Rightarrow> nge_category list" where
  "getTrainrunCategories name shortName subCategories =
     map (\<lambda>(key, category). category\<lparr>ca_name := name key, ca_shortName := shortName key\<rparr>)
       OSRD_TRAINRUN_MAIN_CATEGORY_CODE_MAPPING @
     map (\<lambda>(i, code, subName).
            let n = int (length OSRD_TRAINRUN_MAIN_CATEGORY_CODE_MAPPING) + int i + 1
            in \<lparr>ca_id = n, ca_order = n, ca_name = subName, ca_shortName = code, ca_colorRef = sub_prefix @ code\<rparr>)
       (zip [0..<length subCategories] subCategories)"

end
