(* ===== verification/MacroState.thy ===== *)
theory MacroState
  imports NgeTypes "HOL-Library.AList"
begin

text \<open>
  The state that the front end keeps for the macroscopic editor,
  \<open>MacroEditor/MacroEditorState.ts\<close>: the nodes in a storage with holes, indexed by path key and by the
  identifier the editor uses, with redirections from a key to the node that replaces it. The plain objects
  and maps are association lists, updated with \<open>AList\<close>; a set of labels is the list of its elements in the
  order of insertion. \<open>Partial<NodeIndexed>\<close> is the function that overwrites the given fields.
\<close>

section \<open>State\<close>

record macro_node =
  mn_ngeId :: int
  mn_dbId :: "int option"
  mn_geocoord :: "(num \<times> num) option"
  mn_path_item_key :: string
  mn_trigram :: "string option"
  mn_full_name :: "string option"
  mn_connection_time :: num
  mn_labels :: "string list"
  mn_position_x :: num
  mn_position_y :: num
  mn_is_collapsed :: bool

record macro_state =
  ms_infraId :: int
  ms_scenarioId :: int
  ms_nodes :: "macro_node option list"
  ms_indexByPathKey :: "(string \<times> nat) list"
  ms_indexByNgeId :: "(int \<times> nat) list"
  ms_trainrunFrequencies :: "nge_frequency list"
  ms_trainrunCategories :: "nge_category list"
  ms_nodeLabels :: "string list"
  ms_trainrunLabels :: "string list"
  ms_noteLabels :: "string list"
  ms_ngeNoteIdToDbId :: "(int \<times> int) list"
  ms_ngeResourceId :: int
  ms_timetableItemIdByNgeId :: "(int \<times> int \<times> int option) list"

definition newMacroEditorState :: "int \<Rightarrow> int \<Rightarrow> macro_state" where
  "newMacroEditorState infraId scenarioId =
     \<lparr>ms_infraId = infraId, ms_scenarioId = scenarioId, ms_nodes = [], ms_indexByPathKey = [], ms_indexByNgeId = [],
      ms_trainrunFrequencies = [], ms_trainrunCategories = [], ms_nodeLabels = [], ms_trainrunLabels = [],
      ms_noteLabels = [], ms_ngeNoteIdToDbId = [], ms_ngeResourceId = 1, ms_timetableItemIdByNgeId = []\<rparr>"

definition set_add :: "'a list \<Rightarrow> 'a \<Rightarrow> 'a list" where
  "set_add xs x = (if x \<in> set xs then xs else xs @ [x])"

text \<open>\<open>Math.round\<close>: halves are rounded up.\<close>

definition js_round :: "num \<Rightarrow> int" where
  "js_round x = \<lfloor>x + 1 / 2\<rfloor>"

section \<open>Nodes\<close>

definition storage_node :: "macro_state \<Rightarrow> nat \<Rightarrow> macro_node option" where
  "storage_node st i = (if i < length (ms_nodes st) then ms_nodes st ! i else None)"

definition getNodeByKey :: "macro_state \<Rightarrow> string \<Rightarrow> macro_node option" where
  "getNodeByKey st key = Option.bind (map_of (ms_indexByPathKey st) key) (storage_node st)"

definition getNodeByNgeId :: "macro_state \<Rightarrow> int \<Rightarrow> macro_node option" where
  "getNodeByNgeId st i = Option.bind (map_of (ms_indexByNgeId st) i) (storage_node st)"

definition deleteByIndexStorage :: "macro_state \<Rightarrow> nat \<Rightarrow> macro_state" where
  "deleteByIndexStorage st i =
     st\<lparr>ms_indexByPathKey := filter (\<lambda>(k, j). j \<noteq> i) (ms_indexByPathKey st),
        ms_indexByNgeId := filter (\<lambda>(k, j). j \<noteq> i) (ms_indexByNgeId st),
        ms_nodes := (ms_nodes st)[i := None]\<rparr>"

text \<open>The place of a new node: the one of the node indexed by the key, whose references are dropped, or the
  end of the storage.\<close>

definition place_node :: "macro_state \<Rightarrow> string \<Rightarrow> macro_node \<Rightarrow> (nat \<times> macro_state) result" where
  "place_node st key node =
     (case map_of (ms_indexByPathKey st) key of
        Some i \<Rightarrow>
          (case storage_node st i of
             None \<Rightarrow> Inl TypeError
           | Some prevNode \<Rightarrow>
               Inr (i, st\<lparr>ms_indexByNgeId := AList.delete (mn_ngeId prevNode) (ms_indexByNgeId st),
                         ms_indexByPathKey := AList.delete key (ms_indexByPathKey st),
                         ms_nodes := (ms_nodes st)[i := Some node]\<rparr>))
      | None \<Rightarrow> Inr (length (ms_nodes st), st\<lparr>ms_nodes := ms_nodes st @ [Some node]\<rparr>))"

definition indexNodeByKey :: "macro_state \<Rightarrow> string \<Rightarrow> macro_node \<Rightarrow> macro_state result" where
  "indexNodeByKey st key node =
     bind_result (place_node st key node) (\<lambda>(i, st').
       Inr (st'\<lparr>ms_indexByPathKey := AList.update (mn_path_item_key node) i (ms_indexByPathKey st'),
                ms_indexByNgeId := AList.update (mn_ngeId node) i (ms_indexByNgeId st'),
                ms_nodeLabels := foldl (\<lambda>ls l. if l \<noteq> [] then set_add ls l else ls) (ms_nodeLabels st') (mn_labels node)\<rparr>))"

definition updateNodeDataByKey :: "macro_state \<Rightarrow> string \<Rightarrow> (macro_node \<Rightarrow> macro_node) \<Rightarrow> macro_state result" where
  "updateNodeDataByKey st key data =
     (case getNodeByKey st key of None \<Rightarrow> Inr st | Some indexedNode \<Rightarrow> indexNodeByKey st key (data indexedNode))"

definition deleteNodeByNgeId :: "macro_state \<Rightarrow> int \<Rightarrow> macro_state" where
  "deleteNodeByNgeId st ngeId =
     (case map_of (ms_indexByNgeId st) ngeId of
        None \<Rightarrow> st
      | Some i \<Rightarrow> if storage_node st i = None then st else deleteByIndexStorage st i)"

section \<open>Duplicated nodes\<close>

text \<open>A missing or empty trigram, and a missing or zero identifier, are falsy.\<close>

definition indexed_trigrams :: "macro_state \<Rightarrow> (string \<times> string) list" where
  "indexed_trigrams st =
     List.map_filter (\<lambda>(_, i).
       (case storage_node st i of
          None \<Rightarrow> None
        | Some node \<Rightarrow> if truthy (mn_trigram node) then Some (the (mn_trigram node), mn_path_item_key node) else None))
       (ms_indexByPathKey st)"

definition add_to_group :: "(string \<times> string list) list \<Rightarrow> string \<times> string \<Rightarrow> (string \<times> string list) list" where
  "add_to_group acc entry =
     AList.update (fst entry) ((case map_of acc (fst entry) of None \<Rightarrow> [] | Some ks \<Rightarrow> ks) @ [snd entry]) acc"

definition key_priority :: "macro_state \<Rightarrow> string \<Rightarrow> nat" where
  "key_priority st key =
     (if (case Option.bind (getNodeByKey st key) mn_dbId of None \<Rightarrow> False | Some d \<Rightarrow> d \<noteq> 0) then 0
      else if starts_with ''op_id:'' key then 1
      else if starts_with ''trigram:'' key then 2
      else if starts_with ''uic:'' key then 3
      else 4)"

text \<open>The groups with their keys by priority. A group of one key is deleted and comes back empty, as
  \<open>sortBy(undefined)\<close> is the empty list.\<close>

definition merge_lists :: "macro_state \<Rightarrow> string list list" where
  "merge_lists st =
     map (\<lambda>(trig, keys). if length keys < 2 then [] else sort_key (key_priority st) keys)
       (foldl add_to_group [] (indexed_trigrams st))"

text \<open>Replacing the node of a key by the main node; a redirection to \<open>undefined\<close> is no entry.\<close>

definition redirect_key :: "nat option \<Rightarrow> macro_state \<Rightarrow> string \<Rightarrow> macro_state" where
  "redirect_key mainNodeIndex st key =
     (let st' = (case map_of (ms_indexByPathKey st) key of None \<Rightarrow> st | Some i \<Rightarrow> deleteByIndexStorage st i)
      in st'\<lparr>ms_indexByPathKey :=
               (case mainNodeIndex of
                  None \<Rightarrow> AList.delete key (ms_indexByPathKey st')
                | Some m \<Rightarrow> AList.update key m (ms_indexByPathKey st'))\<rparr>)"

definition merge_nodes :: "macro_state \<Rightarrow> string list \<Rightarrow> macro_state" where
  "merge_nodes st mergeList =
     (case mergeList of
        [] \<Rightarrow> st
      | mainNodeKey # keys \<Rightarrow> foldl (redirect_key (map_of (ms_indexByPathKey st) mainNodeKey)) st keys)"

definition dedupNodes :: "macro_state \<Rightarrow> macro_state" where
  "dedupNodes st = foldl merge_nodes st (merge_lists st)"

section \<open>Notes\<close>

definition getDbIdForNote :: "macro_state \<Rightarrow> int \<Rightarrow> int option" where
  "getDbIdForNote st ngeId = map_of (ms_ngeNoteIdToDbId st) ngeId"

definition setDbIdForNote :: "macro_state \<Rightarrow> int \<Rightarrow> int \<Rightarrow> macro_state" where
  "setDbIdForNote st ngeId dbId = st\<lparr>ms_ngeNoteIdToDbId := AList.update ngeId dbId (ms_ngeNoteIdToDbId st)\<rparr>"

definition removeNoteMapping :: "macro_state \<Rightarrow> int \<Rightarrow> macro_state" where
  "removeNoteMapping st ngeId = st\<lparr>ms_ngeNoteIdToDbId := AList.delete ngeId (ms_ngeNoteIdToDbId st)\<rparr>"

section \<open>Path keys\<close>

definition code_suffix :: "string option \<Rightarrow> string" where
  "code_suffix code = (if truthy code then ''/'' @ the code else [])"

fun getPathKey :: "location \<Rightarrow> string" where
  "getPathKey (TrackOffset track offset _) = ''track_offset:'' @ track @ ''+'' @ string_of_int offset"
| "getPathKey (OpPart (OpTrigram trigram code) _) = ''trigram:'' @ trigram @ code_suffix code"
| "getPathKey (OpPart (OpId operational_point) _) = ''op_id:'' @ operational_point"
| "getPathKey (OpPart (OpUic uic code) _) = ''uic:'' @ string_of_int uic @ code_suffix code"

record op_ref_data =
  od_id :: string
  od_identifier :: "(string \<times> int) option"
  od_sncf :: "(string \<times> string) option"
  od_parts :: "(string \<times> num) list"
  od_geo :: "(num \<times> num) option"

text \<open>The name and the UIC of the identifier extension, the trigram and the secondary code of the other one. The
  position of a part of an operational point is in metres, the offset of a path item in millimetres.\<close>

definition getPathKeys :: "op_ref_data \<Rightarrow> string list" where
  "getPathKeys op =
     (let uic = map_option snd (od_identifier op); trigram = map_option fst (od_sncf op);
          ch = map_option snd (od_sncf op)
      in [''op_id:'' @ od_id op] @
         (if truthy trigram then [''trigram:'' @ the trigram @ code_suffix ch] else []) @
         (if uic \<noteq> None \<and> uic \<noteq> Some 0 then [''uic:'' @ string_of_int (the uic) @ code_suffix ch] else []) @
         map (\<lambda>(track, position). ''track_offset:'' @ track @ ''+'' @ js_num_string position) (od_parts op))"

text \<open>\<open>Number\<close> of a part of a key; positions and UIC codes are whole.\<close>

definition whole_number :: "string option \<Rightarrow> int result" where
  "whole_number s =
     (case Option.bind s js_number of
        None \<Rightarrow> Inl OutOfModel
      | Some x \<Rightarrow> if x = of_int \<lfloor>x\<rfloor> then Inr \<lfloor>x\<rfloor> else Inl OutOfModel)"

definition parsePathKey :: "string \<Rightarrow> location result" where
  "parsePathKey key =
     (let parts = js_split (CHR '':'') key; kind = hd parts; value = js_at parts 1 in
      if \<not> truthy value then Inl (JSError ''Invalid path key'')
      else if kind = ''op_id'' then Inr (OpPart (OpId (the value)) None)
      else if kind = ''trigram'' then
        let vs = js_split (CHR ''/'') (the value) in Inr (OpPart (OpTrigram (hd vs) (js_at vs 1)) None)
      else if kind = ''uic'' then
        let vs = js_split (CHR ''/'') (the value) in
        bind_result (whole_number (Some (hd vs))) (\<lambda>uic. Inr (OpPart (OpUic uic (js_at vs 1)) None))
      else if kind = ''track_offset'' then
        let vs = js_split (CHR ''+'') (the value) in
        bind_result (whole_number (js_at vs 1)) (\<lambda>offset. Inr (TrackOffset (hd vs) offset None))
      else Inl (JSError (''Invalid path key type '' @ [CHR 0x22] @ kind @ [CHR 0x22])))"

end
