(* ===== verification/NgeExport.thy ===== *)
theory NgeExport
  imports MacroState
begin

text \<open>
  From the timetable to the netzgrafik editor: \<open>MacroEditor/osrdToNge.ts\<close>, the part of
  \<open>applications/operationalStudies/utils.ts\<close> that groups the round trips, and the loading of the nodes. The
  parsers of durations (dayjs) and of dates are parameters, as are the answers of the server: the saved nodes, the
  nodes created for the timetable. \<open>Math.hypot\<close>, which is not rational, is a parameter of the layout.
\<close>

section \<open>Frequencies and labels\<close>

definition add_frequency ::
  "(string \<Rightarrow> duration) \<Rightarrow> (num \<Rightarrow> string) \<Rightarrow> nge_frequency list \<Rightarrow> timetable_item \<Rightarrow> nge_frequency list" where
  "add_frequency parse intervalXmin frequencies item =
     (case tp_paced item of
        None \<Rightarrow> frequencies
      | Some p \<Rightarrow>
          let intervalInMinutes = duration_total (parse (pc_interval p)) Minute in
          if list_ex (\<lambda>f. fr_frequency f = intervalInMinutes) frequencies then frequencies
          else frequencies @ [\<lparr>fr_id = int (length frequencies) + 1, fr_order = 0, fr_frequency = intervalInMinutes,
                               fr_offset = 0, fr_name = intervalXmin intervalInMinutes,
                               fr_shortName = js_num_string intervalInMinutes, fr_linePatternRef = ''60''\<rparr>])"

definition getNgeTrainrunFrequencies ::
  "(string \<Rightarrow> duration) \<Rightarrow> string \<Rightarrow> (num \<Rightarrow> string) \<Rightarrow> timetable_item list \<Rightarrow> nge_frequency list" where
  "getNgeTrainrunFrequencies parse uniqueTrain intervalXmin timetableItems =
     (let frequencies = sort_key fr_frequency
            (foldl (add_frequency parse intervalXmin) (getDefaultTrainrunFrequencies uniqueTrain intervalXmin) timetableItems)
      in map (\<lambda>(i, f). f\<lparr>fr_order := int i + 1\<rparr>) (zip [0..<length frequencies] frequencies))"

definition getNgeLabels :: "macro_state \<Rightarrow> label_dto list" where
  "getNgeLabels st =
     (let labels =
        map (\<lambda>l. \<lparr>la_id = 0, la_label = l, la_labelGroupId = NODE_LABEL_GROUP, la_labelRef = ''Node''\<rparr>) (ms_nodeLabels st) @
        map (\<lambda>l. \<lparr>la_id = 0, la_label = l, la_labelGroupId = TRAINRUN_LABEL_GROUP, la_labelRef = ''Trainrun''\<rparr>) (ms_trainrunLabels st) @
        map (\<lambda>l. \<lparr>la_id = 0, la_label = l, la_labelGroupId = NOTE_LABEL_GROUP, la_labelRef = ''Note''\<rparr>) (ms_noteLabels st)
      in map (\<lambda>(i, l). l\<lparr>la_id := int i\<rparr>) (zip [0..<length labels] labels))"

definition label_index :: "label_dto list \<Rightarrow> int \<Rightarrow> string \<Rightarrow> int" where
  "label_index labels groupId l = find_index (\<lambda>e. la_label e = l \<and> la_labelGroupId e = groupId) labels"

definition getNoteLabelIds :: "string list \<Rightarrow> macro_state \<Rightarrow> int list" where
  "getNoteLabelIds labelTexts st =
     List.map_filter (\<lambda>t. map_option la_id (find (\<lambda>label. la_label label = t) (getNgeLabels st))) labelTexts"

section \<open>Loading the nodes\<close>

record note_response =
  nr_id :: int
  nr_x :: num
  nr_y :: num
  nr_title :: string
  nr_text :: string
  nr_labels :: "string list"

definition load_note :: "macro_state \<Rightarrow> note_response \<Rightarrow> macro_state" where
  "load_note st note =
     (let st' = setDbIdForNote st (nr_id note) (nr_id note)
      in st'\<lparr>ms_noteLabels := foldl set_add (ms_noteLabels st') (nr_labels note)\<rparr>)"

definition location_trigram :: "location \<Rightarrow> string option" where
  "location_trigram l = (case l of OpPart (OpTrigram trigram _) _ \<Rightarrow> Some trigram | _ \<Rightarrow> None)"

definition load_path_item :: "macro_state \<times> int \<Rightarrow> path_item \<Rightarrow> (macro_state \<times> int) result" where
  "load_path_item acc pathItem =
     (let key = getPathKey (pi_location pathItem); n = snd acc in
      if getNodeByKey (fst acc) key \<noteq> None then Inr acc
      else bind_result
             (indexNodeByKey (fst acc) key
                \<lparr>mn_ngeId = n, mn_dbId = None, mn_geocoord = None, mn_path_item_key = key,
                 mn_trigram = location_trigram (pi_location pathItem), mn_full_name = None, mn_connection_time = 0,
                 mn_labels = [], mn_position_x = of_int (n mod 8 * 200), mn_position_y = of_int (n div 8),
                 mn_is_collapsed = False\<rparr>)
             (\<lambda>st. Inr (st, n + 1)))"

definition op_data :: "op_ref_data \<Rightarrow> macro_node \<Rightarrow> macro_node" where
  "op_data op node =
     node\<lparr>mn_full_name := map_option fst (od_identifier op),
          mn_trigram := (case od_sncf op of
                           None \<Rightarrow> None
                         | Some (trigram, ch) \<Rightarrow> if trigram \<noteq> [] then Some (trigram @ code_suffix (Some ch)) else None),
          mn_geocoord := od_geo op\<rparr>"

definition load_op :: "macro_state \<Rightarrow> op_ref_data \<Rightarrow> macro_state result" where
  "load_op st op = fold_result (\<lambda>s pathKey. updateNodeDataByKey s pathKey (op_data op)) st (getPathKeys op)"

text \<open>A node saved by the server: its data without the identifier of the editor, which it does not know.\<close>

definition saved_data :: "macro_node \<Rightarrow> macro_node \<Rightarrow> macro_node" where
  "saved_data saved node = saved\<lparr>mn_ngeId := mn_ngeId node, mn_geocoord := mn_geocoord node\<rparr>"

definition load_saved_node :: "macro_state \<times> int \<Rightarrow> macro_node \<Rightarrow> (macro_state \<times> int) result" where
  "load_saved_node acc n =
     (if getNodeByKey (fst acc) (mn_path_item_key n) \<noteq> None
      then bind_result (updateNodeDataByKey (fst acc) (mn_path_item_key n) (saved_data n)) (\<lambda>st. Inr (st, snd acc))
      else bind_result (indexNodeByKey (fst acc) (mn_path_item_key n) (n\<lparr>mn_ngeId := snd acc\<rparr>)) (\<lambda>st. Inr (st, snd acc + 1)))"

definition not_saved :: "macro_node \<Rightarrow> bool" where
  "not_saved n = (mn_dbId n = None \<or> mn_dbId n = Some 0)"

text \<open>The layout. \<open>not_saved\<close> nodes are placed by their coordinates, on a grid when they have none, and pushed away from
  the centre when they are too close to one another.\<close>

record positioned_node =
  pn_nodeData :: macro_node
  pn_x :: num
  pn_y :: num

definition node_distance :: "(num \<Rightarrow> num \<Rightarrow> num) \<Rightarrow> num \<times> num \<Rightarrow> num \<times> num \<Rightarrow> num" where
  "node_distance hypot a b = hypot (fst a - fst b) (snd a - snd b)"

definition push_away ::
  "(num \<Rightarrow> num \<Rightarrow> num) \<Rightarrow> num \<Rightarrow> num \<Rightarrow> num \<times> num \<Rightarrow> positioned_node list \<Rightarrow> positioned_node \<Rightarrow> positioned_node list" where
  "push_away hypot minDistance pushFactor center placed node =
     (let norm = node_distance hypot center (pn_x node, pn_y node);
          nx = (if norm \<noteq> 0 then (pn_x node - fst center) / norm else 0);
          ny = (if norm \<noteq> 0 then (pn_y node - snd center) / norm else 0);
          new = foldl (\<lambda>p q. if node_distance hypot p (pn_x q, pn_y q) < minDistance
                              then (fst p + minDistance * pushFactor * nx, snd p + minDistance * pushFactor * ny) else p)
                  (pn_x node, pn_y node) placed
      in placed @ [\<lparr>pn_nodeData = pn_nodeData node, pn_x = of_int (js_round (fst new)), pn_y = of_int (js_round (snd new))\<rparr>])"

definition avoidNodesOverlaps ::
  "(num \<Rightarrow> num \<Rightarrow> num) \<Rightarrow> positioned_node list \<Rightarrow> num \<Rightarrow> num \<Rightarrow> positioned_node list" where
  "avoidNodesOverlaps hypot nodes minDistance pushFactor =
     (let xs = set (map pn_x nodes); ys = set (map pn_y nodes);
          center = ((Min xs + Max xs) / 2, (Min ys + Max ys) / 2)
      in foldl (push_away hypot minDistance pushFactor center) []
           (sort_key (\<lambda>n. node_distance hypot (pn_x n, pn_y n) center) nodes))"

definition place_by_coordinates :: "macro_node list \<Rightarrow> macro_node \<Rightarrow> positioned_node" where
  "place_by_coordinates geoNodes n =
     (case mn_geocoord n of
        None \<Rightarrow> \<lparr>pn_nodeData = n, pn_x = mn_position_x n, pn_y = mn_position_y n\<rparr>
      | Some (lng, lat) \<Rightarrow>
          let lngs = set (map (\<lambda>g. fst (the (mn_geocoord g))) geoNodes); lats = set (map (\<lambda>g. snd (the (mn_geocoord g))) geoNodes);
              width = Max lngs - Min lngs; height = Max lats - Min lats;
              normalizedX = (lng - Min lngs) / (if width = 0 then 1 else width);
              normalizedY = 1 - (lat - Min lats) / (if height = 0 then 1 else height);
              padding = 1 / 10;
              paddedX = normalizedX * (1 - 2 * padding) + padding;
              paddedY = normalizedY * (1 - 2 * padding) + padding
          in \<lparr>pn_nodeData = n, pn_x = of_int (js_round (800 * paddedX)), pn_y = of_int (js_round (500 * paddedY))\<rparr>)"

definition layout_nodes :: "(num \<Rightarrow> num \<Rightarrow> num) \<Rightarrow> macro_state \<Rightarrow> 'a train_schedule_scheme list \<Rightarrow> positioned_node list result" where
  "layout_nodes hypot st timetableItems =
     bind_result
       (map_result (\<lambda>key. case getNodeByKey st key of None \<Rightarrow> Inl TypeError | Some n \<Rightarrow> Inr n)
          (rev (remdups (rev (map (\<lambda>p. getPathKey (pi_location p)) (concat (map ts_path timetableItems)))))))
       (\<lambda>indexedNodes.
          let geoNodes = filter (\<lambda>n. mn_geocoord n \<noteq> None) indexedNodes
          in Inr (avoidNodesOverlaps hypot (map (place_by_coordinates geoNodes) (filter not_saved indexedNodes)) 100 2))"

definition applyLayout :: "(num \<Rightarrow> num \<Rightarrow> num) \<Rightarrow> macro_state \<Rightarrow> 'a train_schedule_scheme list \<Rightarrow> macro_state result" where
  "applyLayout hypot st timetableItems =
     bind_result (layout_nodes hypot st timetableItems) (\<lambda>nicerNodes.
       fold_result (\<lambda>s n. updateNodeDataByKey s (mn_path_item_key (pn_nodeData n))
                       (\<lambda>node. node\<lparr>mn_position_x := pn_x n, mn_position_y := pn_y n\<rparr>)) st nicerNodes)"

text \<open>The nodes that the server has to create, and the nodes it created: identifier and path key. A request that is
  rejected makes \<open>unwrap\<close> throw; the state built so far is then lost to the caller.\<close>

definition nodes_to_store :: "macro_state \<Rightarrow> macro_node list" where
  "nodes_to_store st = filter not_saved (js_compact (ms_nodes st))"

definition storeTrainPathNodes :: "macro_state \<Rightarrow> (macro_node list \<Rightarrow> (int \<times> string) list result) \<Rightarrow> macro_state result" where
  "storeTrainPathNodes st create =
     (if nodes_to_store st = [] then Inr st
      else bind_result (create (nodes_to_store st)) (\<lambda>created.
             fold_result (\<lambda>s (dbId, key). updateNodeDataByKey s key (\<lambda>n. n\<lparr>mn_dbId := Some dbId\<rparr>)) st created))"

record timetable_item_ops = timetable_item +
  to_pathOps :: "op_ref_data list list"

definition loadAndIndexNge ::
  "(string \<Rightarrow> duration) \<Rightarrow> string \<Rightarrow> (num \<Rightarrow> string) \<Rightarrow> nge_category list \<Rightarrow> macro_node list result \<Rightarrow>
   (num \<Rightarrow> num \<Rightarrow> num) \<Rightarrow> (macro_node list \<Rightarrow> (int \<times> string) list result) \<Rightarrow>
   macro_state \<Rightarrow> timetable_item_ops list \<Rightarrow> note_response list \<Rightarrow> macro_state result" where
  "loadAndIndexNge parse uniqueTrain intervalXmin categories getAllMacroNodes hypot create st timetableItems notes =
     (let st1 = foldl load_note st notes in
      bind_result (fold_result load_path_item (st1, 0) (concat (map ts_path timetableItems))) (\<lambda>acc.
      bind_result (fold_result load_op (fst acc) (concat (concat (map to_pathOps timetableItems)))) (\<lambda>st2.
      bind_result getAllMacroNodes (\<lambda>savedNodes.
      bind_result (fold_result load_saved_node (st2, snd acc) savedNodes) (\<lambda>acc3.
      let st4 = dedupNodes (fst acc3);
          st5 = st4\<lparr>ms_trainrunLabels :=
                      foldl set_add (ms_trainrunLabels st4)
                        (concat (map (\<lambda>item. case ts_labels item of None \<Rightarrow> [] | Some ls \<Rightarrow> ls) timetableItems)),
                    ms_trainrunFrequencies :=
                      getNgeTrainrunFrequencies parse uniqueTrain intervalXmin (map timetable_item.truncate timetableItems),
                    ms_trainrunCategories := categories\<rparr>
      in bind_result (applyLayout hypot st5 timetableItems) (\<lambda>st6. storeTrainPathNodes st6 create))))))"

section \<open>Round trips (applications/operationalStudies/utils.ts)\<close>

text \<open>The references of the path items that name an operational point, each once, in the order of first
  occurrence (the keys of the map are the printed references); and the operational points of each path item,
  none for an offset on a track.\<close>

definition item_refs :: "'a train_schedule_scheme list \<Rightarrow> op_reference list" where
  "item_refs items =
     List.map_filter (\<lambda>item. case pi_location item of OpPart ref _ \<Rightarrow> Some ref | TrackOffset _ _ _ \<Rightarrow> None)
       (concat (map ts_path items))"

definition getUniqueOpRefsFromTimetableItems :: "timetable_item list \<Rightarrow> op_reference list" where
  "getUniqueOpRefsFromTimetableItems items = rev (remdups (rev (item_refs items)))"

definition addPathOpsToTimetableItems ::
  "timetable_item list \<Rightarrow> op_reference list \<Rightarrow> op_ref_data list list \<Rightarrow> timetable_item_ops list result" where
  "addPathOpsToTimetableItems items opRefs operationalPoints =
     (if length opRefs \<noteq> length operationalPoints then Inl (JSError ''Expected as many OP match lists as OP refs'')
      else let opsByKey = foldl (\<lambda>m (k, v). AList.update k v m) [] (zip opRefs operationalPoints)
           in Inr (map (\<lambda>item. timetable_item.extend item (timetable_item_ops.fields
                     (map (\<lambda>pathItem. case pi_location pathItem of
                                        TrackOffset _ _ _ \<Rightarrow> []
                                      | OpPart ref _ \<Rightarrow> (case map_of opsByKey ref of None \<Rightarrow> [] | Some ops \<Rightarrow> ops))
                        (ts_path item)))) items))"

definition getStationFromOps :: "op_ref_data list \<Rightarrow> op_ref_data option" where
  "getStationFromOps ops =
     (case find (\<lambda>op. case od_sncf op of Some (_, ch) \<Rightarrow> ch = ''BV'' \<or> ch = ''00'' | None \<Rightarrow> False) ops of
        Some op \<Rightarrow> Some op
      | None \<Rightarrow> js_at ops 0)"

definition entry_at :: "schedule_item list option \<Rightarrow> string \<Rightarrow> schedule_item option" where
  "entry_at schedule i = Option.bind schedule (find (\<lambda>entry. si_at entry = i))"

definition is_stop :: "timetable_item_ops \<Rightarrow> nat \<Rightarrow> bool" where
  "is_stop item index =
     (index = 0 \<or> (case entry_at (ts_schedule item) (pi_id (ts_path item ! index)) of
                     None \<Rightarrow> False | Some e \<Rightarrow> truthy (si_stop_for e)))"

text \<open>The steps of two trains at the same place of the line; a train has as many lists of operational points as path
  items. The location is compared with its local track name:
  \<open>local_track_name\<close> is a member of the location, and the code clears one of the path item.\<close>

definition same_place_at :: "timetable_item_ops \<Rightarrow> timetable_item_ops \<Rightarrow> nat \<Rightarrow> bool result" where
  "same_place_at a b indexA =
     (let indexB = length (to_pathOps a) - indexA - 1; opsA = to_pathOps a ! indexA; opsB = to_pathOps b ! indexB in
      if indexA \<ge> length (ts_path a) \<or> indexB \<ge> length (ts_path b) then Inl TypeError
      else Inr
        ((opsA \<noteq> []) = (opsB \<noteq> []) \<and>
         (if opsA \<noteq> [] then map_option od_id (getStationFromOps opsA) = map_option od_id (getStationFromOps opsB)
          else pi_location (ts_path a ! indexA) = pi_location (ts_path b ! indexB)) \<and>
         is_stop a indexA = is_stop b indexB))"

fun all_result :: "('a \<Rightarrow> bool result) \<Rightarrow> 'a list \<Rightarrow> bool result" where
  "all_result p [] = Inr True"
| "all_result p (x # xs) = bind_result (p x) (\<lambda>b. if b then all_result p xs else Inr False)"

definition checkRoundTripCompatible ::
  "(string \<Rightarrow> duration) \<Rightarrow> timetable_item_ops \<Rightarrow> timetable_item_ops \<Rightarrow> bool result" where
  "checkRoundTripCompatible parse a b =
     (if (tp_paced a = None) \<noteq> (tp_paced b = None) then Inr False
      else if (case (tp_paced a, tp_paced b) of
                 (Some p, Some q) \<Rightarrow> parse (pc_interval p) \<noteq> parse (pc_interval q) | _ \<Rightarrow> False) then Inr False
      else if ts_category a \<noteq> ts_category b then Inr False
      else if length (to_pathOps a) \<noteq> length (to_pathOps b) then Inr False
      else all_result (same_place_at a b) [0..<length (to_pathOps a)])"

record round_trip_groups =
  rt_oneWays :: "timetable_item_ops list"
  rt_roundTrips :: "(timetable_item_ops \<times> timetable_item_ops) list"
  rt_others :: "timetable_item_ops list"

text \<open>A missing train is the value \<open>undefined\<close> of the list, which the callers read: a \<open>TypeError\<close>.\<close>

definition get_item :: "(int \<times> timetable_item_ops) list \<Rightarrow> int \<Rightarrow> timetable_item_ops result" where
  "get_item items i = (case map_of items i of None \<Rightarrow> Inl TypeError | Some item \<Rightarrow> Inr item)"

definition groupRoundTrips ::
  "(int \<times> timetable_item_ops) list \<Rightarrow> int list \<Rightarrow> (int \<times> int) list \<Rightarrow> round_trip_groups result" where
  "groupRoundTrips timetableItemsById oneWayIds roundTripIds =
     bind_result (map_result (get_item timetableItemsById) oneWayIds) (\<lambda>oneWays.
     bind_result (map_result (\<lambda>(l, r). bind_result (get_item timetableItemsById l) (\<lambda>a.
                    bind_result (get_item timetableItemsById r) (\<lambda>b. Inr (a, b)))) roundTripIds) (\<lambda>roundTrips.
       Inr \<lparr>rt_oneWays = oneWays, rt_roundTrips = roundTrips,
            rt_others = filter (\<lambda>item. tm_id item \<notin> set oneWayIds \<and>
                                 (\<forall>(l, r)\<in>set roundTripIds. tm_id item \<noteq> l \<and> tm_id item \<noteq> r))
                          (map snd timetableItemsById)\<rparr>))"

fun split_compatible ::
  "(string \<Rightarrow> duration) \<Rightarrow> (timetable_item_ops \<times> timetable_item_ops) list \<Rightarrow>
   ((timetable_item_ops \<times> timetable_item_ops) list \<times> timetable_item_ops list) result" where
  "split_compatible parse [] = Inr ([], [])"
| "split_compatible parse ((a, b) # pairs) =
     bind_result (checkRoundTripCompatible parse a b) (\<lambda>ok.
     bind_result (split_compatible parse pairs) (\<lambda>(compatible, incompatible).
       Inr (if ok then ((a, b) # compatible, incompatible) else (compatible, a # b # incompatible))))"

definition groupCompatibleRoundTrips ::
  "(string \<Rightarrow> duration) \<Rightarrow> round_trip_groups \<Rightarrow> (timetable_item_ops \<times> timetable_item_ops option) list result" where
  "groupCompatibleRoundTrips parse groups =
     bind_result (split_compatible parse (rt_roundTrips groups)) (\<lambda>(compatible, incompatible).
       Inr (map (\<lambda>item. (item, None)) (rt_oneWays groups @ rt_others groups @ incompatible) @
            map (\<lambda>(a, b). (a, Some b)) compatible))"

section \<open>Trainruns and their sections\<close>

definition getNgeTrainruns ::
  "(string \<Rightarrow> duration) \<Rightarrow> macro_state \<Rightarrow> (timetable_item \<times> timetable_item option) list \<Rightarrow> label_dto list \<Rightarrow>
   (trainrun_dto list \<times> macro_state) result" where
  "getNgeTrainruns parse st groupedTimetableItems labels =
     (let items = filter (\<lambda>(a, b). length (ts_path a) \<ge> 2) groupedTimetableItems in
      bind_result (map_result (\<lambda>(index, a, b).
          bind_result (getTrainrunFrequencyFromTimetableItem parse a (ms_trainrunFrequencies st)) (\<lambda>frequency.
          bind_result (getTrainrunCategoryId (ms_trainrunCategories st) (ts_category a)) (\<lambda>categoryId.
            Inr \<lparr>tn_id = int index + 1, tn_name = ts_train_name a, tn_categoryId = categoryId, tn_frequencyId = fr_id frequency,
                 tn_trainrunTimeCategoryId = tc_id (getTrainrunTimeCategoryFromFrequency frequency),
                 tn_labelIds = map (label_index labels TRAINRUN_LABEL_GROUP) (case ts_labels a of None \<Rightarrow> [] | Some ls \<Rightarrow> ls),
                 tn_direction = (if (case b of None \<Rightarrow> True | Some r \<Rightarrow> tm_id r = 0) then OneWay else RoundTrip)\<rparr>)))
          (zip [0..<length items] items)) (\<lambda>trainruns.
        Inr (trainruns,
             st\<lparr>ms_timetableItemIdByNgeId :=
                  foldl (\<lambda>m (index, a, b). AList.update (int index + 1) (tm_id a, map_option tm_id b) m)
                    (ms_timetableItemIdByNgeId st) (zip [0..<length items] items)\<rparr>)))"

text \<open>The minutes of a date in local time, with the offset \<open>tz\<close> of the time zone.\<close>

definition get_minutes :: "int \<Rightarrow> date \<Rightarrow> int" where
  "get_minutes tz d = (d + tz) div MINUTE_IN_MS mod 60"

definition createTimeLock :: "int \<Rightarrow> date \<Rightarrow> date \<Rightarrow> time_lock" where
  "createTimeLock tz time startTime =
     \<lparr>tl_time = Some (of_int (get_minutes tz time)),
      tl_consecutiveTime = Some (duration_total (subtractDate time startTime) Minute), tl_lock = False\<rparr>"

definition createArrivalTimeLock :: "(string \<Rightarrow> duration) \<Rightarrow> int \<Rightarrow> schedule_item option \<Rightarrow> date \<Rightarrow> time_lock" where
  "createArrivalTimeLock parse tz scheduleItem startTime =
     (case parse_duration parse (Option.bind scheduleItem si_arrival) of
        None \<Rightarrow> DEFAULT_TIME_LOCK
      | Some arrival \<Rightarrow> createTimeLock tz (addDurationToDate startTime arrival) startTime)"

definition createDepartureTimeLock :: "(string \<Rightarrow> duration) \<Rightarrow> int \<Rightarrow> schedule_item option \<Rightarrow> date \<Rightarrow> time_lock" where
  "createDepartureTimeLock parse tz scheduleItem startTime =
     (case parse_duration parse (Option.bind scheduleItem si_arrival) of
        None \<Rightarrow> DEFAULT_TIME_LOCK
      | Some arrival \<Rightarrow>
          let stopFor = (case parse_duration parse (Option.bind scheduleItem si_stop_for) of None \<Rightarrow> duration_zero | Some d \<Rightarrow> d)
          in createTimeLock tz (addDurationToDate (addDurationToDate startTime arrival) stopFor) startTime)"

definition castNodeToNge :: "macro_state \<Rightarrow> macro_node \<Rightarrow> label_dto list \<Rightarrow> node_dto" where
  "castNodeToNge st node labels =
     \<lparr>no_id = mn_ngeId node, no_betriebspunktName = (case mn_trigram node of None \<Rightarrow> [] | Some t \<Rightarrow> t),
      no_fullName = (case mn_full_name node of None \<Rightarrow> [] | Some t \<Rightarrow> t), no_positionX = mn_position_x node,
      no_positionY = mn_position_y node, no_ports = [], no_transitions = [], no_resourceId = ms_ngeResourceId st,
      no_connectionTime = mn_connection_time node, no_labelIds = map (label_index labels NODE_LABEL_GROUP) (mn_labels node)\<rparr>"

text \<open>What the export mutates: the counters and the nodes by path key.\<close>

record export_state =
  es_portId :: int
  es_transitionId :: int
  es_sectionId :: int
  es_nodes :: "(string \<times> node_dto) list"

definition update_dto :: "string \<Rightarrow> (node_dto \<Rightarrow> node_dto) \<Rightarrow> (string \<times> node_dto) list \<Rightarrow> (string \<times> node_dto) list" where
  "update_dto key f nodes = map (\<lambda>(k, n). if k = key then (k, f n) else (k, n)) nodes"

definition add_port :: "int \<Rightarrow> string \<Rightarrow> export_state \<Rightarrow> export_state" where
  "add_port trainrunSectionId key es =
     es\<lparr>es_portId := es_portId es + 1,
        es_nodes := update_dto key (\<lambda>n. n\<lparr>no_ports := no_ports n @
          [\<lparr>po_id = es_portId es, po_positionIndex = 0, po_positionAlignment = PortTop, po_trainrunSectionId = trainrunSectionId\<rparr>]\<rparr>)
          (es_nodes es)\<rparr>"

definition add_transition :: "int \<Rightarrow> int \<Rightarrow> bool \<Rightarrow> string \<Rightarrow> export_state \<Rightarrow> export_state" where
  "add_transition port1Id port2Id isNonStopTransit key es =
     es\<lparr>es_transitionId := es_transitionId es + 1,
        es_nodes := update_dto key (\<lambda>n. n\<lparr>no_transitions := no_transitions n @
          [\<lparr>tr_id = es_transitionId es, tr_port1Id = port1Id, tr_port2Id = port2Id, tr_isNonStopTransit = isNonStopTransit\<rparr>]\<rparr>)
          (es_nodes es)\<rparr>"

text \<open>The schedule entry of a path item of the return train; reading it outside the path is an error as soon as
  there is an entry to compare.\<close>

definition return_entry :: "timetable_item option \<Rightarrow> nat \<Rightarrow> schedule_item option result" where
  "return_entry returnItem index =
     (case returnItem of
        None \<Rightarrow> Inr None
      | Some item \<Rightarrow>
          (case ts_schedule item of
             None \<Rightarrow> Inr None
           | Some schedule \<Rightarrow>
               if schedule \<noteq> [] \<and> index \<ge> length (ts_path item) then Inl TypeError
               else if schedule = [] then Inr None
               else Inr (entry_at (Some schedule) (pi_id (ts_path item ! index)))))"

definition lock_difference :: "time_lock \<Rightarrow> time_lock \<Rightarrow> time_lock" where
  "lock_difference arrival departure =
     (case (tl_consecutiveTime arrival, tl_consecutiveTime departure) of
        (Some a, Some d) \<Rightarrow> DEFAULT_TIME_LOCK\<lparr>tl_time := Some (a - d), tl_consecutiveTime := Some (a - d)\<rparr>
      | _ \<Rightarrow> DEFAULT_TIME_LOCK)"

text \<open>\<open>null\<close> and 0 are falsy.\<close>

definition minute_symmetry :: "time_lock \<Rightarrow> time_lock \<Rightarrow> bool" where
  "minute_symmetry a b =
     (case (tl_time a, tl_time b) of
        (Some x, Some y) \<Rightarrow> x \<noteq> 0 \<and> y \<noteq> 0 \<and> (x + y) / 60 = of_int \<lfloor>(x + y) / 60\<rfloor>
      | _ \<Rightarrow> False)"

text \<open>The four times of the section from the path item \<open>i\<close>: departure and arrival at its source, departure and
  arrival at its target. The return train runs through the path backwards.\<close>

definition section_times ::
  "(string \<Rightarrow> duration) \<Rightarrow> int \<Rightarrow> timetable_item \<Rightarrow> schedule_item list \<Rightarrow> date \<Rightarrow> date option \<Rightarrow> schedule_item option \<Rightarrow>
   schedule_item option \<Rightarrow> nat \<Rightarrow> time_lock \<times> time_lock \<times> time_lock \<times> time_lock" where
  "section_times parse tz item schedule startTime returnStartTime returnSource returnTarget i =
     (let entry = (\<lambda>k. entry_at (Some schedule) (pi_id (ts_path item ! k)));
          returnIndex = length (ts_path item) - 1 - i
      in ((if i = 0 then createTimeLock tz startTime startTime else createDepartureTimeLock parse tz (entry i) startTime),
          (case returnStartTime of None \<Rightarrow> DEFAULT_TIME_LOCK | Some r \<Rightarrow> createArrivalTimeLock parse tz returnSource r),
          (case returnStartTime of
             Some r \<Rightarrow> if returnIndex = 1 then createTimeLock tz r r else createDepartureTimeLock parse tz returnTarget r
           | None \<Rightarrow> if returnIndex = 1 then createTimeLock tz startTime startTime else DEFAULT_TIME_LOCK),
          createArrivalTimeLock parse tz (entry (i + 1)) startTime))"

definition export_section ::
  "(string \<Rightarrow> duration) \<Rightarrow> (string \<Rightarrow> date) \<Rightarrow> int \<Rightarrow> int \<Rightarrow> int \<Rightarrow> timetable_item \<Rightarrow> timetable_item option \<Rightarrow> string list \<Rightarrow>
   export_state \<times> int option \<Rightarrow> nat \<Rightarrow> (section_dto \<times> export_state \<times> int option) result" where
  "export_section parse parseDate tz resourceId trainrunId item returnItem pathNodeKeys acc i =
     (let es = fst acc; returnIndex = length (ts_path item) - 1 - i;
          sourceKey = pathNodeKeys ! i; targetKey = pathNodeKeys ! (i + 1)
      in case (map_of (es_nodes es) sourceKey, map_of (es_nodes es) targetKey, ts_schedule item) of
        (Some sourceNode, Some targetNode, Some schedule) \<Rightarrow>
          let sourcePort = es_portId es; targetPort = sourcePort + 1;
              es1 = add_port (es_sectionId es) targetKey (add_port (es_sectionId es) sourceKey es);
              sourceEntry = entry_at (Some schedule) (pi_id (ts_path item ! i));
              es2 = (case snd acc of
                       None \<Rightarrow> es1
                     | Some prevPort \<Rightarrow>
                         add_transition prevPort sourcePort (\<not> truthy (Option.bind sourceEntry si_stop_for)) sourceKey es1)
          in bind_result (return_entry returnItem returnIndex) (\<lambda>returnSource.
             bind_result (return_entry returnItem (returnIndex - 1)) (\<lambda>returnTarget.
               let (sourceDeparture, sourceArrival, targetDeparture, targetArrival) =
                     section_times parse tz item schedule (parseDate (ts_start_time item))
                       (map_option (\<lambda>r. parseDate (ts_start_time r)) returnItem) returnSource returnTarget i
               in Inr (\<lparr>se_id = es_sectionId es, se_sourceNodeId = no_id sourceNode, se_sourcePortId = sourcePort,
                        se_targetNodeId = no_id targetNode, se_targetPortId = targetPort,
                        se_sourceSymmetry = minute_symmetry sourceDeparture sourceArrival,
                        se_targetSymmetry = minute_symmetry targetDeparture targetArrival,
                        se_sourceDeparture = sourceDeparture, se_sourceArrival = sourceArrival,
                        se_targetDeparture = targetDeparture, se_targetArrival = targetArrival,
                        se_travelTime = lock_difference targetArrival sourceDeparture,
                        se_backwardTravelTime = lock_difference sourceArrival targetDeparture,
                        se_trainrunId = trainrunId, se_resourceId = resourceId\<rparr>,
                       es2\<lparr>es_sectionId := es_sectionId es2 + 1\<rparr>, Some targetPort)))
      | _ \<Rightarrow> Inl TypeError)"

fun export_steps ::
  "('s \<Rightarrow> 'i \<Rightarrow> ('a \<times> 's) result) \<Rightarrow> 's \<Rightarrow> 'i list \<Rightarrow> ('a list \<times> 's) result" where
  "export_steps f s [] = Inr ([], s)"
| "export_steps f s (i # is) =
     bind_result (f s i) (\<lambda>(x, s'). bind_result (export_steps f s' is) (\<lambda>(xs, s''). Inr (x # xs, s'')))"

definition path_node_key :: "macro_state \<Rightarrow> path_item \<Rightarrow> string result" where
  "path_node_key st pathItem =
     (case getNodeByKey st (getPathKey (pi_location pathItem)) of
        None \<Rightarrow> Inl TypeError | Some node \<Rightarrow> Inr (mn_path_item_key node))"

definition export_item ::
  "(string \<Rightarrow> duration) \<Rightarrow> (string \<Rightarrow> date) \<Rightarrow> int \<Rightarrow> macro_state \<Rightarrow> export_state \<Rightarrow> nat \<times> timetable_item \<times> timetable_item option \<Rightarrow>
   (section_dto list \<times> export_state) result" where
  "export_item parse parseDate tz st es entry =
     (case entry of (index, item, returnItem) \<Rightarrow>
        bind_result (map_result (path_node_key st) (ts_path item)) (\<lambda>pathNodeKeys.
        bind_result
          (export_steps (export_section parse parseDate tz (ms_ngeResourceId st) (int index + 1) item returnItem pathNodeKeys)
             (es, None) [0..<length pathNodeKeys - 1])
          (\<lambda>(sections, acc). Inr (sections, fst acc))))"

definition cast_nodes :: "macro_state \<Rightarrow> label_dto list \<Rightarrow> (string \<times> node_dto) list" where
  "cast_nodes st labels =
     foldl (\<lambda>m node. AList.update (mn_path_item_key node) (castNodeToNge st node labels) m) [] (js_compact (ms_nodes st))"

definition getNgeTrainrunSectionsWithNodes ::
  "(string \<Rightarrow> duration) \<Rightarrow> (string \<Rightarrow> date) \<Rightarrow> int \<Rightarrow> macro_state \<Rightarrow> (timetable_item \<times> timetable_item option) list \<Rightarrow> label_dto list \<Rightarrow>
   (section_dto list \<times> node_dto list) result" where
  "getNgeTrainrunSectionsWithNodes parse parseDate tz st groupedTimetableItems labels =
     bind_result
       (export_steps (export_item parse parseDate tz st)
          \<lparr>es_portId = 1, es_transitionId = 1, es_sectionId = 0, es_nodes = cast_nodes st labels\<rparr>
          (zip [0..<length groupedTimetableItems] groupedTimetableItems))
       (\<lambda>(sections, es). Inr (concat sections, map snd (es_nodes es)))"

definition getNgeDto ::
  "(string \<Rightarrow> duration) \<Rightarrow> (string \<Rightarrow> date) \<Rightarrow> int \<Rightarrow> macro_state \<Rightarrow> (timetable_item \<times> timetable_item option) list \<Rightarrow>
   note_response list \<Rightarrow> (netzgrafik_dto \<times> macro_state) result" where
  "getNgeDto parse parseDate tz st groupedTimetableItems notes =
     (let labels = getNgeLabels st in
      bind_result (getNgeTrainrunSectionsWithNodes parse parseDate tz st groupedTimetableItems labels) (\<lambda>(sections, nodes).
      bind_result (getNgeTrainruns parse st groupedTimetableItems labels) (\<lambda>(trainruns, st').
        Inr (\<lparr>nz_nodes = nodes, nz_trainrunSections = sections, nz_trainruns = trainruns,
              nz_trainrunCategories = ms_trainrunCategories st, nz_trainrunFrequencies = ms_trainrunFrequencies st,
              nz_freeFloatingTexts =
                map (\<lambda>note. \<lparr>nt_id = nr_id note, nt_x = nr_x note, nt_y = nr_y note, nt_title = nr_title note,
                              nt_text = nr_text note, nt_labelIds = getNoteLabelIds (nr_labels note) st\<rparr>) notes,
              nz_labels = labels\<rparr>, st'))))"

end
