(* ===== verification/NgeImport.thy ===== *)
theory NgeImport
  imports MacroState
begin

text \<open>
  From the netzgrafik editor to the timetable: \<open>MacroEditor/ngeToOsrd/trainrun.ts\<close> up to the handlers of
  events, \<open>castNgeNode\<close> and \<open>castNgeNoteToOsrd\<close> of \<open>node.ts\<close> and \<open>note.ts\<close>, and the import of a whole
  document, \<open>ngeToOsrd.ts\<close>. The printers of durations (dayjs) and of dates and the current date are
  parameters. \<open>tz\<close> is the offset of the local time zone, in milliseconds; a change of the offset inside the
  hour of a departure is left out.
\<close>

section \<open>Ordering the sections of a trainrun\<close>

definition getNodeById :: "node_dto list \<Rightarrow> int \<Rightarrow> node_dto option" where
  "getNodeById nodes nodeId = find (\<lambda>node. no_id node = nodeId) nodes"

definition port_transition :: "node_dto \<Rightarrow> int \<Rightarrow> transition_dto option" where
  "port_transition node portId = find (\<lambda>tr. tr_port1Id tr = portId \<or> tr_port2Id tr = portId) (no_transitions node)"

definition findConnectedPortId :: "node_dto \<Rightarrow> int \<Rightarrow> int option" where
  "findConnectedPortId node portId =
     map_option (\<lambda>tr. if tr_port1Id tr = portId then tr_port2Id tr else tr_port1Id tr) (port_transition node portId)"

text \<open>The sections by the port that their source is connected to, and the leaf sections.\<close>

fun link_sections ::
  "node_dto list \<Rightarrow> (int \<times> section_dto) list \<Rightarrow> section_dto list \<Rightarrow> section_dto list \<Rightarrow>
   ((int \<times> section_dto) list \<times> section_dto list) result" where
  "link_sections nodes ports leafs [] = Inr (ports, leafs)"
| "link_sections nodes ports leafs (section # sections) =
     (case getNodeById nodes (se_sourceNodeId section) of
        None \<Rightarrow> Inl TypeError
      | Some sourceNode \<Rightarrow>
          (case findConnectedPortId sourceNode (se_sourcePortId section) of
             None \<Rightarrow> link_sections nodes ports (leafs @ [section]) sections
           | Some p \<Rightarrow> link_sections nodes (AList.update p section ports) leafs sections))"

definition cycle_error :: js_error where
  "cycle_error = JSError ''Cycle detected in trainrun''"

text \<open>The \<open>while\<close> loop, from a section that is defined, with the identifiers already seen.\<close>

function walk_sections ::
  "(int \<times> section_dto) list \<Rightarrow> int list \<Rightarrow> section_dto \<Rightarrow> (section_dto list \<times> int list) result" where
  "walk_sections ports seen section =
     (if se_id section \<in> set seen then Inl cycle_error
      else let seen' = seen @ [se_id section] in
        (case map_of ports (se_targetPortId section) of
           None \<Rightarrow> Inr ([section], seen')
         | Some following \<Rightarrow>
             bind_result (walk_sections ports seen' following) (\<lambda>(sections, seen''). Inr (section # sections, seen''))))"
  by pat_completeness auto
termination
proof (relation "measure (\<lambda>(ports, seen, section). card (se_id ` insert section (snd ` set ports) - set seen))")
  fix ports :: "(int \<times> section_dto) list" and seen seen' :: "int list" and sec following :: section_dto
  assume new: "se_id sec \<notin> set seen" and seen': "seen' = seen @ [se_id sec]"
    and "map_of ports (se_targetPortId sec) = Some following"
  then have "following \<in> snd ` set ports" by (force dest: map_of_SomeD)
  then have "se_id ` insert following (snd ` set ports) - set seen'
      \<subset> se_id ` insert sec (snd ` set ports) - set seen"
    using new seen' by auto
  then have "card (se_id ` insert following (snd ` set ports) - set seen')
      < card (se_id ` insert sec (snd ` set ports) - set seen)"
    by (intro psubset_card_mono) auto
  then show "((ports, seen', following), (ports, seen, sec))
      \<in> measure (\<lambda>(ports, seen, section). card (se_id ` insert section (snd ` set ports) - set seen))"
    by simp
qed simp

declare walk_sections.simps [simp del]

fun walk_leafs ::
  "(int \<times> section_dto) list \<Rightarrow> int list \<Rightarrow> section_dto list \<Rightarrow> (section_dto list list \<times> int list) result" where
  "walk_leafs ports seen [] = Inr ([], seen)"
| "walk_leafs ports seen (startSection # leafs) =
     (if se_id startSection \<in> set seen then walk_leafs ports seen leafs
      else bind_result (walk_sections ports seen startSection) (\<lambda>(orderedSections, seen').
           bind_result (walk_leafs ports seen' leafs) (\<lambda>(paths, seen''). Inr (orderedSections # paths, seen''))))"

definition getTrainrunSectionsByTrainrunId :: "netzgrafik_dto \<Rightarrow> int \<Rightarrow> section_dto list list result" where
  "getTrainrunSectionsByTrainrunId dto trainrunId =
     (let sections = filter (\<lambda>section. se_trainrunId section = trainrunId) (nz_trainrunSections dto) in
      bind_result (link_sections (nz_nodes dto) [] [] sections) (\<lambda>(ports, leafs).
      bind_result (walk_leafs ports [] leafs) (\<lambda>(orderedSectionPaths, seen).
        if length seen \<noteq> length sections
        then Inl (JSError ''Trainrun graph search failed to find all sections'')
        else if orderedSectionPaths = [] then Inl (JSError ''Trainrun has no path'')
        else Inr orderedSectionPaths)))"

definition getContinuousTrainrunSectionsByTrainrunId :: "netzgrafik_dto \<Rightarrow> int \<Rightarrow> section_dto list result" where
  "getContinuousTrainrunSectionsByTrainrunId dto trainrunId =
     bind_result (getTrainrunSectionsByTrainrunId dto trainrunId) (\<lambda>grouped.
       if length grouped > 1 then Inl (JSError ''Trainrun is not continuous'') else Inr (hd grouped))"

section \<open>Path and schedule\<close>

definition item_id :: "int \<Rightarrow> nat \<Rightarrow> string" where
  "item_id nodeId index = string_of_int nodeId @ ''-'' @ string_of_nat index"

definition createPathItemFromNode :: "node_dto \<Rightarrow> nat \<Rightarrow> macro_state option \<Rightarrow> path_item result" where
  "createPathItemFromNode node index state =
     bind_result
       (case state of
          Some st \<Rightarrow>
            (case getNodeByNgeId st (no_id node) of
               None \<Rightarrow> Inl TypeError
             | Some indexedNode \<Rightarrow> parsePathKey (mn_path_item_key indexedNode))
        | None \<Rightarrow>
            let parts = js_split (CHR ''/'') (no_betriebspunktName node)
            in Inr (OpPart (OpTrigram (hd parts) (js_at parts 1)) None))
       (\<lambda>location. Inr \<lparr>pi_id = item_id (no_id node) index, pi_location = location\<rparr>)"

text \<open>The conversion of a number to a whole one in a date truncates it; \<open>null\<close> counts as 0 in a subtraction.\<close>

definition js_trunc :: "num \<Rightarrow> int" where
  "js_trunc x = (if x < 0 then \<lceil>x\<rceil> else \<lfloor>x\<rfloor>)"

definition number_of :: "num option \<Rightarrow> num" where
  "number_of x = (case x of None \<Rightarrow> 0 | Some v \<Rightarrow> v)"

definition getTimeLockDate :: "time_lock \<Rightarrow> time_lock \<Rightarrow> date \<Rightarrow> date option" where
  "getTimeLockDate timeLock startTimeLock startDate =
     (if tl_time timeLock = None then None
      else let offset = number_of (tl_consecutiveTime timeLock) - number_of (tl_consecutiveTime startTimeLock)
           in Some (js_trunc (of_int startDate + offset * 60 * 1000)))"

definition formatDateDifferenceFrom :: "(duration \<Rightarrow> string) \<Rightarrow> date \<Rightarrow> date \<Rightarrow> string" where
  "formatDateDifferenceFrom print start stop = print (subtractDate stop start)"

definition section_from :: "trainrun_way \<Rightarrow> section_dto \<Rightarrow> int" where
  "section_from way section = (if way = FORWARD then se_sourceNodeId section else se_targetNodeId section)"

definition section_to :: "trainrun_way \<Rightarrow> section_dto \<Rightarrow> int" where
  "section_to way section = (if way = FORWARD then se_targetNodeId section else se_sourceNodeId section)"

definition path_of_section ::
  "nat \<Rightarrow> node_dto list \<Rightarrow> trainrun_way \<Rightarrow> macro_state option \<Rightarrow> nat \<times> section_dto \<Rightarrow> path_item list result" where
  "path_of_section n nodes way state entry =
     (case (getNodeById nodes (section_from way (snd entry)), getNodeById nodes (section_to way (snd entry))) of
        (Some fromNode, Some toNode) \<Rightarrow>
          bind_result (createPathItemFromNode fromNode (fst entry) state) (\<lambda>originPathItem.
            if fst entry + 1 = n then
              bind_result (createPathItemFromNode toNode (fst entry + 1) state) (\<lambda>destinationPathItem.
                Inr [originPathItem, destinationPathItem])
            else Inr [originPathItem])
      | _ \<Rightarrow> Inr [])"

definition generatePath ::
  "section_dto list \<Rightarrow> node_dto list \<Rightarrow> trainrun_way \<Rightarrow> macro_state option \<Rightarrow> path_item list result" where
  "generatePath trainrunSections nodes way state =
     bind_result
       (map_result (path_of_section (length trainrunSections) nodes way state)
          (zip [0..<length trainrunSections] trainrunSections))
       (\<lambda>path. Inr (concat path))"

definition departure_lock :: "trainrun_way \<Rightarrow> section_dto \<Rightarrow> time_lock" where
  "departure_lock way section = (if way = FORWARD then se_sourceDeparture section else se_targetDeparture section)"

text \<open>\<open>setMinutes(m, 0, 0)\<close> in local time.\<close>

definition set_minutes :: "int \<Rightarrow> date \<Rightarrow> int \<Rightarrow> date" where
  "set_minutes tz d m = (d + tz) div HOUR_IN_MS * HOUR_IN_MS + m * MINUTE_IN_MS - tz"

definition calculateStartDate :: "int \<Rightarrow> section_dto list \<Rightarrow> date \<Rightarrow> trainrun_way \<Rightarrow> date result" where
  "calculateStartDate tz trainrunSections baseDate way =
     (case trainrunSections of
        [] \<Rightarrow> Inl TypeError
      | first # _ \<Rightarrow> Inr (set_minutes tz baseDate (js_trunc (number_of (tl_time (departure_lock way first))))))"

definition schedule_of_section ::
  "(duration \<Rightarrow> string) \<Rightarrow> section_dto list \<Rightarrow> node_dto list \<Rightarrow> date \<Rightarrow> trainrun_way \<Rightarrow> nat \<times> section_dto \<Rightarrow>
   schedule_item list result" where
  "schedule_of_section print trainrunSections nodes startDate way entry =
     (let index = fst entry; section = snd entry;
          toNodeId = section_to way section;
          toPortId = (if way = FORWARD then se_targetPortId section else se_sourcePortId section)
      in case getNodeById nodes toNodeId of
        None \<Rightarrow> Inl TypeError
      | Some toNode \<Rightarrow>
          let isStopTransit = (case port_transition toNode toPortId of None \<Rightarrow> True | Some tr \<Rightarrow> \<not> tr_isNonStopTransit tr);
              arrivalTimeLock = (if way = FORWARD then se_targetArrival section else se_sourceArrival section);
              startTimeLock = departure_lock way (hd trainrunSections);
              arrival = getTimeLockDate arrivalTimeLock startTimeLock startDate;
              departure = (if index + 1 < length trainrunSections
                           then getTimeLockDate (departure_lock way (trainrunSections ! (index + 1))) startTimeLock startDate
                           else None);
              itemId = item_id toNodeId (index + 1)
          in if arrival = None \<and> departure = None then
               Inr (if index + 1 = length trainrunSections
                    then [\<lparr>si_at = itemId, si_arrival = None, si_stop_for = Some (print duration_zero),
                           si_reception_signal = Some OPEN\<rparr>]
                    else [])
             else
               let arrivalDate = (case arrival of Some a \<Rightarrow> a | None \<Rightarrow> the departure);
                   stop_for = (if isStopTransit
                               then Some (case departure of
                                            Some d \<Rightarrow> formatDateDifferenceFrom print arrivalDate d
                                          | None \<Rightarrow> print duration_zero)
                               else None)
               in Inr [\<lparr>si_at = itemId, si_arrival = Some (formatDateDifferenceFrom print startDate arrivalDate),
                        si_stop_for = stop_for, si_reception_signal = Some OPEN\<rparr>])"

definition generateSchedule ::
  "(duration \<Rightarrow> string) \<Rightarrow> section_dto list \<Rightarrow> node_dto list \<Rightarrow> date \<Rightarrow> trainrun_way \<Rightarrow> schedule_item list result" where
  "generateSchedule print trainrunSections nodes startDate way =
     bind_result
       (map_result (schedule_of_section print trainrunSections nodes startDate way)
          (zip [0..<length trainrunSections] trainrunSections))
       (\<lambda>items. Inr (concat items))"

record generated_path =
  gp_start_time :: string
  gp_path :: "path_item list"
  gp_schedule :: "schedule_item list"

definition generatePathAndSchedule ::
  "(duration \<Rightarrow> string) \<Rightarrow> (date \<Rightarrow> string) \<Rightarrow> int \<Rightarrow> section_dto list \<Rightarrow> node_dto list \<Rightarrow> date \<Rightarrow> trainrun_way \<Rightarrow>
   macro_state option \<Rightarrow> generated_path result" where
  "generatePathAndSchedule print printDate tz trainrunSections nodes baseDate way state =
     (let sections = (if way = BACKWARD then rev trainrunSections else trainrunSections) in
      bind_result (calculateStartDate tz sections baseDate way) (\<lambda>startDate.
      bind_result (generatePath sections nodes way state) (\<lambda>path.
      bind_result (generateSchedule print sections nodes startDate way) (\<lambda>schedule.
        Inr \<lparr>gp_start_time = printDate startDate, gp_path = path, gp_schedule = schedule\<rparr>))))"

section \<open>Attributes of a trainrun\<close>

definition label_text :: "label_dto list \<Rightarrow> int \<Rightarrow> string option" where
  "label_text labels labelId = map_option la_label (find (\<lambda>label. la_id label = labelId) labels)"

definition getTrainrunLabels :: "netzgrafik_dto \<Rightarrow> trainrun_dto \<Rightarrow> string list" where
  "getTrainrunLabels dto trainrun =
     filter (\<lambda>l. l \<noteq> []) (js_compact (rev (remdups (rev (map (label_text (nz_labels dto)) (tn_labelIds trainrun))))))"

definition createPacedAttributesFromTrainrun ::
  "(duration \<Rightarrow> string) \<Rightarrow> trainrun_dto \<Rightarrow> netzgrafik_dto \<Rightarrow> paced option result" where
  "createPacedAttributesFromTrainrun print trainrun dto =
     bind_result (getFrequencyFromFrequencyId (nz_trainrunFrequencies dto) (tn_frequencyId trainrun)) (\<lambda>freq.
       let ms = fr_frequency freq * of_int MINUTE_IN_MS in
       if ms \<noteq> of_int \<lfloor>ms\<rfloor> then Inl OutOfModel
       else let interval = Duration \<lfloor>ms\<rfloor> in
         Inr (if interval \<ge> new_duration 24 0 0 0 then None
              else Some \<lparr>pc_time_window = print DEFAULT_TIME_WINDOW, pc_interval = print interval, pc_exceptions = []\<rparr>))"

section \<open>Nodes and notes (node.ts, note.ts)\<close>

text \<open>A node without path key and database identifier: the fields are given to the node that is extended.\<close>

definition castNgeNode :: "node_dto \<Rightarrow> label_dto list \<Rightarrow> macro_node \<Rightarrow> macro_node" where
  "castNgeNode node labels base =
     base\<lparr>mn_ngeId := no_id node, mn_trigram := Some (no_betriebspunktName node), mn_full_name := Some (no_fullName node),
          mn_connection_time := no_connectionTime node, mn_position_x := of_int (js_round (no_positionX node)),
          mn_position_y := of_int (js_round (no_positionY node)), mn_is_collapsed := False,
          mn_labels := List.map_filter (label_text labels) (no_labelIds node)\<rparr>"

definition empty_node :: "string \<Rightarrow> macro_node" where
  "empty_node key =
     \<lparr>mn_ngeId = 0, mn_dbId = None, mn_geocoord = None, mn_path_item_key = key, mn_trigram = None, mn_full_name = None,
      mn_connection_time = 0, mn_labels = [], mn_position_x = 0, mn_position_y = 0, mn_is_collapsed = False\<rparr>"

record macro_note =
  mo_x :: int
  mo_y :: int
  mo_title :: string
  mo_text :: string
  mo_labels :: "string list"

definition castNgeNoteToOsrd :: "note_dto \<Rightarrow> netzgrafik_dto \<Rightarrow> macro_note" where
  "castNgeNoteToOsrd note dto =
     \<lparr>mo_x = js_round (nt_x note), mo_y = js_round (nt_y note), mo_title = nt_title note, mo_text = nt_text note,
      mo_labels = List.map_filter (label_text (nz_labels dto)) (nt_labelIds note)\<rparr>"

section \<open>Import of a document (ngeToOsrd.ts)\<close>

text \<open>The map from a trigram to the identifiers of its nodes.\<close>

fun trigram_ids :: "(string \<times> int list) list \<Rightarrow> node_dto list \<Rightarrow> (string \<times> int list) list" where
  "trigram_ids ids [] = ids"
| "trigram_ids ids (node # nodes) =
     trigram_ids (AList.update (no_betriebspunktName node)
        ((case map_of ids (no_betriebspunktName node) of None \<Rightarrow> [] | Some js \<Rightarrow> js) @ [no_id node]) ids) nodes"

definition relabel_node :: "(string \<times> int list) list \<Rightarrow> node_dto \<Rightarrow> node_dto" where
  "relabel_node ids node =
     (case map_of ids (no_betriebspunktName node) of
        None \<Rightarrow> node
      | Some trigramIds \<Rightarrow>
          if length trigramIds = 1 then node
          else node\<lparr>no_betriebspunktName := no_betriebspunktName node @ ''-'' @
                      string_of_int (find_index (\<lambda>i. i = no_id node) trigramIds + 1)\<rparr>)"

definition relabelDuplicateTrigrams :: "node_dto list \<Rightarrow> node_dto list" where
  "relabelDuplicateTrigrams nodes = map (relabel_node (trigram_ids [] nodes)) nodes"

text \<open>The category of an imported train is a category of the server, or the name the document gives.\<close>

datatype json_category = KnownCategory train_category | NamedCategory string

record imported_train = train_payload +
  im_category :: "json_category option"

record timetable_json =
  tj_macro_nodes :: "macro_node list"
  tj_macro_notes :: "macro_note list"
  tj_paced_trains :: "imported_train list"
  tj_round_trips :: "(nat \<times> nat option) list"

definition import_category :: "nge_category list \<Rightarrow> int \<Rightarrow> json_category option result" where
  "import_category categories categoryId =
     bind_result (getTrainCategoryFromTrainrunCategoryId categories categoryId) (\<lambda>categoryObj.
       Inr (case categoryObj of
              Some c \<Rightarrow> Some (KnownCategory c)
            | None \<Rightarrow> map_option (\<lambda>c. NamedCategory (ca_name c)) (find (\<lambda>c. ca_id c = categoryId) categories)))"

definition import_train ::
  "(duration \<Rightarrow> string) \<Rightarrow> (date \<Rightarrow> string) \<Rightarrow> int \<Rightarrow> date \<Rightarrow> netzgrafik_dto \<Rightarrow> node_dto list \<Rightarrow> trainrun_dto \<Rightarrow>
   string list \<Rightarrow> json_category option \<Rightarrow> string \<Rightarrow> section_dto list \<Rightarrow> trainrun_way \<Rightarrow> imported_train result" where
  "import_train print printDate tz now dto nodes trainrun labels category name sections way =
     bind_result (generatePathAndSchedule print printDate tz sections nodes now way None) (\<lambda>g.
     bind_result (createPacedAttributesFromTrainrun print trainrun dto) (\<lambda>paced.
       Inr (train_payload.extend
              (DEFAULT_TRAIN_SCHEDULE_PAYLOAD\<lparr>ts_train_name := name, ts_labels := Some labels, ts_start_time := gp_start_time g,
                 ts_path := gp_path g, ts_schedule := Some (gp_schedule g), tp_paced := paced\<rparr>)
              (imported_train.fields category))))"

definition train_directions :: "trainrun_dto \<Rightarrow> trainrun_way list" where
  "train_directions trainrun = (if tn_direction trainrun = OneWay then [FORWARD] else [FORWARD, BACKWARD])"

definition import_trainrun ::
  "(duration \<Rightarrow> string) \<Rightarrow> (date \<Rightarrow> string) \<Rightarrow> int \<Rightarrow> date \<Rightarrow> netzgrafik_dto \<Rightarrow> node_dto list \<Rightarrow> trainrun_dto \<Rightarrow>
   imported_train list list result" where
  "import_trainrun print printDate tz now dto nodes trainrun =
     bind_result (getTrainrunSectionsByTrainrunId dto (tn_id trainrun)) (\<lambda>grouped.
     bind_result (import_category (nz_trainrunCategories dto) (tn_categoryId trainrun)) (\<lambda>category.
       map_result (\<lambda>(index, sections).
         let name = (if length grouped > 1 then tn_name trainrun @ ''-'' @ string_of_nat (index + 1) else tn_name trainrun)
         in map_result (import_train print printDate tz now dto nodes trainrun (getTrainrunLabels dto trainrun) category name sections)
              (train_directions trainrun))
         (zip [0..<length grouped] grouped)))"

text \<open>The trains of a group, forward first, and the pair of their indices.\<close>

definition push_group ::
  "trainrun_dto \<Rightarrow> imported_train list \<times> (nat \<times> nat option) list \<Rightarrow> imported_train list \<Rightarrow>
   imported_train list \<times> (nat \<times> nat option) list" where
  "push_group trainrun acc trains =
     (fst acc @ trains,
      snd acc @ [(length (fst acc), if tn_direction trainrun = OneWay then None else Some (length (fst acc) + 1))])"

definition convertNgeDtoToOsrd ::
  "(duration \<Rightarrow> string) \<Rightarrow> (date \<Rightarrow> string) \<Rightarrow> int \<Rightarrow> date \<Rightarrow> netzgrafik_dto \<Rightarrow> timetable_json result" where
  "convertNgeDtoToOsrd print printDate tz now dto =
     (let nodes = relabelDuplicateTrigrams (nz_nodes dto) in
      bind_result (map_result (import_trainrun print printDate tz now dto nodes) (nz_trainruns dto)) (\<lambda>runs.
        let acc = foldl (\<lambda>acc (trainrun, groups). foldl (push_group trainrun) acc groups) ([], []) (zip (nz_trainruns dto) runs)
        in Inr \<lparr>tj_macro_nodes =
                  map (\<lambda>node. castNgeNode node (nz_labels dto) (empty_node (''trigram:'' @ no_betriebspunktName node))) nodes,
                tj_macro_notes = map (\<lambda>note. castNgeNoteToOsrd note dto) (nz_freeFloatingTexts dto),
                tj_paced_trains = fst acc, tj_round_trips = snd acc\<rparr>))"

end
