(* ===== verification/NgeOrder.thy ===== *)
theory NgeOrder
  imports NgeImport "HOL-Library.Multiset"
begin

text \<open>
  The ordering of the sections of a trainrun, \<open>getTrainrunSectionsByTrainrunId\<close>: what the walk over the ports
  returns, and that it finds the sections of a trainrun whose transitions link them in one chain.
\<close>

section \<open>The walk\<close>

text \<open>The port that the source of a section is connected to, if any.\<close>

definition source_port :: "node_dto list \<Rightarrow> section_dto \<Rightarrow> int option" where
  "source_port nodes s = Option.bind (getNodeById nodes (se_sourceNodeId s)) (\<lambda>n. findConnectedPortId n (se_sourcePortId s))"

definition linked :: "('a \<Rightarrow> 'a \<Rightarrow> bool) \<Rightarrow> 'a list \<Rightarrow> bool" where
  "linked R xs \<longleftrightarrow> (\<forall>i. Suc i < length xs \<longrightarrow> R (xs ! i) (xs ! Suc i))"

lemma linked_Cons: "linked R (x # xs) \<longleftrightarrow> (xs \<noteq> [] \<longrightarrow> R x (hd xs)) \<and> linked R xs"
  by (cases xs) (auto simp: linked_def nth_Cons' less_Suc_eq_0_disj split: if_splits)

lemma linked_mono: "linked R xs \<Longrightarrow> (\<And>x y. R x y \<Longrightarrow> S x y) \<Longrightarrow> linked S xs"
  by (simp add: linked_def)

lemma link_sections_result:
  assumes "link_sections nodes ports leafs sections = Inr (ports', leafs')"
  shows "(\<forall>p s. map_of ports' p = Some s \<longrightarrow> map_of ports p = Some s \<or> s \<in> set sections \<and> source_port nodes s = Some p) \<and>
    (\<forall>s\<in>set leafs'. s \<in> set leafs \<or> s \<in> set sections \<and> source_port nodes s = None)"
  using assms
proof (induction nodes ports leafs sections rule: link_sections.induct)
  case (2 nodes ports leafs s ss)
  obtain n where n: "getNodeById nodes (se_sourceNodeId s) = Some n" using 2(3) by (cases "getNodeById nodes (se_sourceNodeId s)") auto
  show ?case
  proof (cases "findConnectedPortId n (se_sourcePortId s)")
    case None
    then show ?thesis using 2(1) [OF n None] 2(3) n by (auto simp: source_port_def)
  next
    case (Some p)
    then show ?thesis using 2(2) [OF n Some] 2(3) n by (fastforce simp: source_port_def update_conv' split: if_splits)
  qed
qed simp

lemma walk_result:
  assumes "walk_sections ports seen s = Inr (path, seen')"
  shows "path \<noteq> [] \<and> hd path = s \<and> seen' = seen @ map se_id path \<and> (distinct seen \<longrightarrow> distinct seen') \<and>
    set path \<subseteq> insert s (ran (map_of ports)) \<and> linked (\<lambda>a b. map_of ports (se_targetPortId a) = Some b) path"
  using assms
proof (induction ports seen s arbitrary: path seen' rule: walk_sections.induct)
  case (1 ports seen s)
  have new: "se_id s \<notin> set seen" using 1(2) by (subst (asm) walk_sections.simps) (auto split: if_splits)
  show ?case
  proof (cases "map_of ports (se_targetPortId s)")
    case None
    then show ?thesis using 1(2) new by (subst (asm) walk_sections.simps) (auto simp: linked_def)
  next
    case (Some t)
    then obtain ss where w: "walk_sections ports (seen @ [se_id s]) t = Inr (ss, seen')" and p: "path = s # ss"
      using 1(2) new by (subst (asm) walk_sections.simps) auto
    have t: "t \<in> ran (map_of ports)" using Some by (rule ranI)
    note IH = 1(1) [OF new refl Some w]
    have "distinct seen \<longrightarrow> distinct (seen @ [se_id s])" using new by simp
    then have "distinct seen \<longrightarrow> distinct seen'" using IH by blast
    moreover have "set path \<subseteq> insert s (ran (map_of ports))" using IH t by (auto simp: p)
    ultimately show ?thesis using IH Some by (simp add: p linked_Cons)
  qed
qed

lemma walk_leafs_result:
  assumes "walk_leafs ports seen leafs = Inr (paths, seen')"
  shows "seen' = seen @ map se_id (concat paths) \<and> (distinct seen \<longrightarrow> distinct seen') \<and>
    (\<forall>path\<in>set paths. path \<noteq> [] \<and> hd path \<in> set leafs \<and> set path \<subseteq> set leafs \<union> ran (map_of ports) \<and>
       linked (\<lambda>a b. map_of ports (se_targetPortId a) = Some b) path)"
  using assms
proof (induction ports seen leafs arbitrary: paths seen' rule: walk_leafs.induct)
  case (2 ports seen s leafs)
  show ?case
  proof (cases "se_id s \<in> set seen")
    case True
    then have "walk_leafs ports seen leafs = Inr (paths, seen')" using 2(3) by simp
    from 2(1) [OF True this] show ?thesis by (meson in_mono list.set_intros(2) subset_trans sup_mono set_subset_Cons order_refl)
  next
    case False
    then obtain path seen1 rest where w: "walk_sections ports seen s = Inr (path, seen1)"
      and r: "walk_leafs ports seen1 leafs = Inr (rest, seen')" and p: "paths = path # rest"
      using 2(3) by auto
    have IH: "seen' = seen1 @ map se_id (concat rest) \<and> (distinct seen1 \<longrightarrow> distinct seen') \<and>
      (\<forall>path\<in>set rest. path \<noteq> [] \<and> hd path \<in> set leafs \<and> set path \<subseteq> set leafs \<union> ran (map_of ports) \<and>
         linked (\<lambda>a b. map_of ports (se_targetPortId a) = Some b) path)"
      using 2(2) [OF False] r by blast
    note W = walk_result [OF w]
    have "seen' = seen @ map se_id (concat paths)" using W IH by (simp add: p)
    moreover have "distinct seen \<longrightarrow> distinct seen'" using W IH by blast
    moreover have "path \<noteq> [] \<and> hd path \<in> set (s # leafs) \<and> set path \<subseteq> set (s # leafs) \<union> ran (map_of ports) \<and>
        linked (\<lambda>a b. map_of ports (se_targetPortId a) = Some b) path" using W by auto
    moreover have "\<forall>path\<in>set rest. path \<noteq> [] \<and> hd path \<in> set (s # leafs) \<and> set path \<subseteq> set (s # leafs) \<union> ran (map_of ports) \<and>
        linked (\<lambda>a b. map_of ports (se_targetPortId a) = Some b) path" using IH by auto
    ultimately show ?thesis unfolding p by (simp only: list.set(2) ball_simps simp_thms)
  qed
qed simp

lemma mset_eq_if_count:
  assumes "set xs \<subseteq> set ys" "distinct (map f xs)" "length xs = length ys"
  shows "mset xs = mset ys"
proof -
  have d: "distinct xs" using assms(2) by (simp add: distinct_map)
  have "length ys = card (set xs)" using d assms(3) by (simp add: distinct_card)
  also have "\<dots> \<le> card (set ys)" using assms(1) by (intro card_mono) auto
  finally have "card (set ys) = length ys" using card_length [of ys] by simp
  then have dy: "distinct ys" by (rule card_distinct)
  have "set xs = set ys"
    using assms(1,3) d dy by (intro card_subset_eq) (auto simp: distinct_card)
  then show ?thesis using d dy by (simp add: set_eq_iff_mset_eq_distinct)
qed

lemma walk_orders:
  assumes "getTrainrunSectionsByTrainrunId dto trainrunId = Inr paths"
  shows "mset (concat paths) = mset (filter (\<lambda>s. se_trainrunId s = trainrunId) (nz_trainrunSections dto)) \<and> paths \<noteq> [] \<and>
    distinct (map se_id (concat paths)) \<and>
    (\<forall>path\<in>set paths. path \<noteq> [] \<and> source_port (nz_nodes dto) (hd path) = None \<and>
       linked (\<lambda>a b. source_port (nz_nodes dto) b = Some (se_targetPortId a)) path)"
proof -
  let ?ss = "filter (\<lambda>s. se_trainrunId s = trainrunId) (nz_trainrunSections dto)"
  obtain ports leafs seen where l: "link_sections (nz_nodes dto) [] [] ?ss = Inr (ports, leafs)"
    and w: "walk_leafs ports [] leafs = Inr (paths, seen)" and n: "length seen = length ?ss" "paths \<noteq> []"
    using assms by (auto simp: getTrainrunSectionsByTrainrunId_def Let_def split: if_splits)
  note L = link_sections_result [OF l] and W = walk_leafs_result [OF w]
  have ports: "s \<in> set ?ss \<and> source_port (nz_nodes dto) s = Some p" if "map_of ports p = Some s" for p s
    using L that by force
  then have ran: "ran (map_of ports) \<subseteq> set ?ss" by (auto simp: ran_def)
  have leafs: "s \<in> set ?ss \<and> source_port (nz_nodes dto) s = None" if "s \<in> set leafs" for s using L that by force
  have sub: "set (concat paths) \<subseteq> set ?ss" using W ran leafs by fastforce
  have d: "distinct (map se_id (concat paths))" and "length (concat paths) = length ?ss" using W n(1) by (auto simp: length_concat)
  then have "mset (concat paths) = mset ?ss" using mset_eq_if_count [OF sub] by blast
  moreover have "path \<noteq> [] \<and> source_port (nz_nodes dto) (hd path) = None \<and>
       linked (\<lambda>a b. source_port (nz_nodes dto) b = Some (se_targetPortId a)) path" if "path \<in> set paths" for path
    using W that leafs ports by (auto intro: linked_mono)
  ultimately show ?thesis using d n(2) by blast
qed

section \<open>Chains\<close>

definition chain :: "node_dto list \<Rightarrow> section_dto list \<Rightarrow> bool" where
  "chain nodes ss \<longleftrightarrow> ss \<noteq> [] \<and> distinct (map se_id ss) \<and> distinct (map se_targetPortId ss) \<and>
     (\<forall>s\<in>set ss. getNodeById nodes (se_sourceNodeId s) \<noteq> None) \<and> source_port nodes (hd ss) = None \<and>
     linked (\<lambda>a b. source_port nodes b = Some (se_targetPortId a)) ss"

lemma link_sections_ports:
  assumes "\<forall>s\<in>set ss. getNodeById nodes (se_sourceNodeId s) \<noteq> None \<and> source_port nodes s \<noteq> None"
  shows "link_sections nodes ports leafs ss = Inr (foldl (\<lambda>m s. AList.update (the (source_port nodes s)) s m) ports ss, leafs)"
  using assms
proof (induction ss arbitrary: ports)
  case (Cons s ss)
  then obtain n p where "getNodeById nodes (se_sourceNodeId s) = Some n" "findConnectedPortId n (se_sourcePortId s) = Some p"
    by (auto simp: source_port_def)
  then show ?case using Cons by (simp add: source_port_def)
qed simp

lemma ports_lookup:
  assumes "distinct (map f ss)" "map_of ports p = None"
  shows "map_of (foldl (\<lambda>m s. AList.update (f s) s m) ports ss) p = find (\<lambda>s. f s = p) ss"
proof -
  have "map_of (foldl (\<lambda>m s. AList.update (f s) s m) ports ss) p =
      (case find (\<lambda>s. f s = p) ss of None \<Rightarrow> map_of ports p | Some s \<Rightarrow> Some s)"
    using assms(1)
  proof (induction ss arbitrary: ports)
    case (Cons s ss)
    have "find (\<lambda>s. f s = p) ss = None" if "f s = p" using Cons.prems that unfolding find_None_iff by (metis distinct.simps(2) image_eqI list.set_map list.simps(9))
    then show ?case using Cons by (auto simp: update_conv' split: option.split)
  qed simp
  then show ?thesis using assms(2) by (simp split: option.split)
qed

lemma find_nth_unique:
  "i < length xs \<Longrightarrow> P (xs ! i) \<Longrightarrow> (\<And>j. j < length xs \<Longrightarrow> P (xs ! j) \<Longrightarrow> j = i) \<Longrightarrow> find P xs = Some (xs ! i)"
  unfolding find_Some_iff by (metis less_trans nat_neq_iff)

lemma walk_chain:
  assumes d: "distinct (map se_id ss)" and i: "i < length ss"
    and step: "\<And>j. Suc j < length ss \<Longrightarrow> map_of ports (se_targetPortId (ss ! j)) = Some (ss ! Suc j)"
    and last: "map_of ports (se_targetPortId (last ss)) = None"
  shows "walk_sections ports (map se_id (take i ss)) (ss ! i) = Inr (drop i ss, map se_id ss)"
  using i
proof (induction "length ss - i" arbitrary: i)
  case (Suc n)
  have "ss ! i \<notin> set (take i ss)" and new: "se_id (ss ! i) \<notin> se_id ` set (take i ss)"
  proof -
    show "se_id (ss ! i) \<notin> se_id ` set (take i ss)"
      using d Suc.prems by (auto simp: in_set_conv_nth distinct_conv_nth)
    then show "ss ! i \<notin> set (take i ss)" by auto
  qed
  have seen: "map se_id (take i ss) @ [se_id (ss ! i)] = map se_id (take (Suc i) ss)"
    using Suc.prems by (simp add: take_Suc_conv_app_nth)
  have drop: "drop i ss = ss ! i # drop (Suc i) ss" using Suc.prems by (rule Cons_nth_drop_Suc [symmetric])
  show ?case
  proof (cases "Suc i < length ss")
    case True
    have "walk_sections ports (map se_id (take (Suc i) ss)) (ss ! Suc i) = Inr (drop (Suc i) ss, map se_id ss)"
      using Suc.hyps True by (intro Suc.hyps(1)) auto
    then show ?thesis
      by (subst walk_sections.simps) (use new step [OF True] in \<open>simp add: seen drop Let_def\<close>)
  next
    case False
    then have i: "i = length ss - 1" "ss \<noteq> []" using Suc.prems by auto
    then have "last ss = ss ! i" by (simp add: last_conv_nth)
    moreover have "take (Suc i) ss = ss" "drop (Suc i) ss = []" using False by auto
    ultimately show ?thesis
      by (subst walk_sections.simps) (use new last in \<open>simp add: seen drop Let_def\<close>)
  qed
qed simp

lemma chain_ordered:
  assumes c: "chain (nz_nodes dto) ss" and ss: "filter (\<lambda>s. se_trainrunId s = trainrunId) (nz_trainrunSections dto) = ss"
  shows "getContinuousTrainrunSectionsByTrainrunId dto trainrunId = Inr ss"
proof -
  let ?nodes = "nz_nodes dto"
  obtain s0 rest where s: "ss = s0 # rest" using c by (cases ss) (auto simp: chain_def)
  have port: "source_port ?nodes (rest ! j) = Some (se_targetPortId (ss ! j))" if "j < length rest" for j
    using c that by (auto simp: chain_def linked_def s)
  have rest: "source_port ?nodes s \<noteq> None" if "s \<in> set rest" for s using that port by (auto simp: in_set_conv_nth)
  define ports where "ports = foldl (\<lambda>m s. AList.update (the (source_port ?nodes s)) s m) [] rest"
  obtain n where n: "getNodeById ?nodes (se_sourceNodeId s0) = Some n" "findConnectedPortId n (se_sourcePortId s0) = None"
    using c by (auto simp: chain_def s source_port_def)
  have l: "link_sections ?nodes [] [] ss = Inr (ports, [s0])"
    using link_sections_ports [of rest ?nodes "[]" "[s0]"] rest c n by (auto simp: s ports_def chain_def)
  have tp: "ss ! i = ss ! j \<longleftrightarrow> i = j" "se_targetPortId (ss ! i) = se_targetPortId (ss ! j) \<longleftrightarrow> i = j"
    if "i < length ss" "j < length ss" for i j
    using c that by (auto simp: chain_def distinct_map nth_eq_iff_index_eq inj_on_eq_iff [where A = "set ss"])
  have "distinct (map (\<lambda>s. the (source_port ?nodes s)) rest)"
    using port tp by (auto simp: distinct_conv_nth s nth_Cons')
  then have lookup: "map_of ports p = find (\<lambda>s. the (source_port ?nodes s) = p) rest" for p
    unfolding ports_def by (rule ports_lookup) simp
  have step: "map_of ports (se_targetPortId (ss ! j)) = Some (ss ! Suc j)" if "Suc j < length ss" for j
    unfolding lookup using that port tp by (subst find_nth_unique [of j]) (auto simp: s)
  have last: "map_of ports (se_targetPortId (last ss)) = None"
  proof -
    have "last ss = ss ! (length ss - 1)" by (simp add: s last_conv_nth)
    then show ?thesis
      unfolding lookup using port tp by (auto simp: find_None_iff in_set_conv_nth s simp del: nth_Cons_Suc) 
  qed
  have "walk_sections ports [] s0 = Inr (ss, map se_id ss)"
    using walk_chain [of ss 0 ports] c step last by (simp add: chain_def s)
  then have "getTrainrunSectionsByTrainrunId dto trainrunId = Inr [ss]"
    by (simp add: getTrainrunSectionsByTrainrunId_def Let_def ss l)
  then show ?thesis by (simp add: getContinuousTrainrunSectionsByTrainrunId_def)
qed

section \<open>Properties\<close>

text \<open>C13: when the sections of a trainrun are ordered, the paths hold each section of the trainrun exactly once; a path
  starts at a section whose source is connected to nothing, and the source of every other section is
  connected to the target port of the section before it. Identifiers that occur twice are not accepted.\<close>

theorem sections_ordered:
  assumes "getTrainrunSectionsByTrainrunId dto trainrunId = Inr paths"
  shows "mset (concat paths) = mset (filter (\<lambda>s. se_trainrunId s = trainrunId) (nz_trainrunSections dto)) \<and> paths \<noteq> [] \<and>
    distinct (map se_id (concat paths)) \<and>
    (\<forall>path\<in>set paths. path \<noteq> [] \<and> source_port (nz_nodes dto) (hd path) = None \<and>
       linked (\<lambda>a b. source_port (nz_nodes dto) b = Some (se_targetPortId a)) path)"
  using walk_orders [OF assms] .

definition sample_section :: "int \<Rightarrow> int \<Rightarrow> int \<Rightarrow> section_dto" where
  "sample_section i source target =
     \<lparr>se_id = i, se_sourceNodeId = source, se_sourcePortId = 2 * i, se_targetNodeId = target, se_targetPortId = 2 * i + 1,
      se_sourceSymmetry = False, se_targetSymmetry = False, se_sourceDeparture = DEFAULT_TIME_LOCK,
      se_sourceArrival = DEFAULT_TIME_LOCK, se_targetDeparture = DEFAULT_TIME_LOCK, se_targetArrival = DEFAULT_TIME_LOCK,
      se_travelTime = DEFAULT_TIME_LOCK, se_backwardTravelTime = DEFAULT_TIME_LOCK, se_trainrunId = 1, se_resourceId = 1\<rparr>"

definition sample_node :: "int \<Rightarrow> (int \<times> int) list \<Rightarrow> node_dto" where
  "sample_node i ts =
     \<lparr>no_id = i, no_betriebspunktName = [], no_fullName = [], no_positionX = 0, no_positionY = 0, no_ports = [],
      no_transitions = map (\<lambda>(p, q). \<lparr>tr_id = 1, tr_port1Id = p, tr_port2Id = q, tr_isNonStopTransit = False\<rparr>) ts,
      no_resourceId = 1, no_connectionTime = 0, no_labelIds = []\<rparr>"

definition sample_dto :: netzgrafik_dto where
  "sample_dto =
     \<lparr>nz_nodes = [sample_node 10 [], sample_node 20 [(3, 0)], sample_node 30 []],
      nz_trainrunSections = [sample_section 0 20 30, sample_section 1 10 20], nz_trainruns = [],
      nz_trainrunCategories = [], nz_trainrunFrequencies = [], nz_freeFloatingTexts = [], nz_labels = []\<rparr>"

theorem sections_ordered_witness:
  "getTrainrunSectionsByTrainrunId sample_dto 1 = Inr [[sample_section 1 10 20, sample_section 0 20 30]] \<and>
   source_port (nz_nodes sample_dto) (sample_section 0 20 30) = Some (se_targetPortId (sample_section 1 10 20))"
proof -
  have g: "getTrainrunSectionsByTrainrunId sample_dto 1 = Inr [[sample_section 1 10 20, sample_section 0 20 30]]" by code_simp
  then show ?thesis using sections_ordered [OF g] by (simp add: linked_Cons)
qed

end
