(* ===== verification/MacroProperties.thy ===== *)
theory MacroProperties
  imports MacroState
begin

text \<open>
  Properties of the state of the macroscopic editor: the indices implement a map from path keys to nodes,
  removing the duplicated nodes keeps one node per trigram and redirects the other keys to it, and a
  location is recovered from its path key. The locale \<open>node_store\<close> is what the loading of a timetable relies
  on; it is interpreted on the operations of the state.
\<close>

section \<open>The invariant of the indices\<close>

text \<open>Every index entry leads to a node, every node is found under its own key and under its own identifier.
  Without redirection a key leads to the node that carries it. A node \<open>fits\<close> under a key when its own key and
  identifier are new or belong to the node that it replaces.\<close>


definition index_ok :: "macro_state \<Rightarrow> bool" where
  "index_ok st \<longleftrightarrow>
     distinct (map fst (ms_indexByPathKey st)) \<and> distinct (map fst (ms_indexByNgeId st)) \<and>
     (\<forall>k i. map_of (ms_indexByPathKey st) k = Some i \<longrightarrow> storage_node st i \<noteq> None) \<and>
     (\<forall>j i. map_of (ms_indexByNgeId st) j = Some i \<longrightarrow> (\<exists>n. storage_node st i = Some n \<and> mn_ngeId n = j)) \<and>
     (\<forall>i n. storage_node st i = Some n \<longrightarrow>
        map_of (ms_indexByPathKey st) (mn_path_item_key n) = Some i \<and> map_of (ms_indexByNgeId st) (mn_ngeId n) = Some i)"

definition no_redirection :: "macro_state \<Rightarrow> bool" where
  "no_redirection st \<longleftrightarrow> (\<forall>k n. getNodeByKey st k = Some n \<longrightarrow> mn_path_item_key n = k)"

definition fits :: "macro_state \<Rightarrow> string \<Rightarrow> macro_node \<Rightarrow> bool" where
  "fits st key node \<longleftrightarrow>
     map_of (ms_indexByPathKey st) (mn_path_item_key node) \<in> {None, map_of (ms_indexByPathKey st) key} \<and>
     map_of (ms_indexByNgeId st) (mn_ngeId node) \<in> {None, map_of (ms_indexByPathKey st) key}"

lemma index_okD:
  assumes "index_ok st"
  shows "distinct (map fst (ms_indexByPathKey st))" "distinct (map fst (ms_indexByNgeId st))"
    "map_of (ms_indexByPathKey st) k = Some i \<Longrightarrow> \<exists>n. storage_node st i = Some n"
    "map_of (ms_indexByNgeId st) j = Some i \<Longrightarrow> \<exists>n. storage_node st i = Some n \<and> mn_ngeId n = j"
    "storage_node st i = Some n \<Longrightarrow> map_of (ms_indexByPathKey st) (mn_path_item_key n) = Some i"
    "storage_node st i = Some n \<Longrightarrow> map_of (ms_indexByNgeId st) (mn_ngeId n) = Some i"
  using assms unfolding index_ok_def by auto

text \<open>The other fields of the state do not matter.\<close>

lemma state_cong:
  assumes "ms_nodes st' = ms_nodes st" "ms_indexByPathKey st' = ms_indexByPathKey st" "ms_indexByNgeId st' = ms_indexByNgeId st"
  shows "index_ok st' = index_ok st" "getNodeByKey st' = getNodeByKey st" "getNodeByNgeId st' = getNodeByNgeId st"
    "no_redirection st' = no_redirection st"
proof -
  have s: "storage_node st' = storage_node st" by (intro ext) (simp add: storage_node_def assms(1))
  show "index_ok st' = index_ok st" by (simp only: index_ok_def s assms(2,3))
  show k: "getNodeByKey st' = getNodeByKey st" by (intro ext) (simp only: getNodeByKey_def s assms(2))
  show "getNodeByNgeId st' = getNodeByNgeId st" by (intro ext) (simp only: getNodeByNgeId_def s assms(3))
  show "no_redirection st' = no_redirection st" by (simp only: no_redirection_def k)
qed

lemma map_of_without:
  "distinct (map fst xs) \<Longrightarrow> map_of (filter (\<lambda>(k, j). j \<noteq> i) xs) k = (if map_of xs k = Some i then None else map_of xs k)"
proof (induction xs)
  case (Cons x xs)
  have "map_of xs (fst x) = None" using Cons.prems by (auto simp: map_of_eq_None_iff)
  then show ?case using Cons by (cases x) auto
qed simp

lemma index_new: "index_ok (newMacroEditorState a b)" "no_redirection (newMacroEditorState a b)"
  by (simp_all add: index_ok_def no_redirection_def newMacroEditorState_def storage_node_def getNodeByKey_def)

text \<open>The state after a node took its place.\<close>

lemma indexNodeByKey_effect:
  assumes ok: "index_ok st" and fits: "fits st key node"
  obtains st' i where "indexNodeByKey st key node = Inr st'"
    "map_of (ms_indexByPathKey st) key = Some i \<or> map_of (ms_indexByPathKey st) key = None \<and> storage_node st i = None"
    "ms_indexByPathKey st' = AList.update (mn_path_item_key node) i (AList.delete key (ms_indexByPathKey st))"
    "\<forall>j. map_of (ms_indexByNgeId st') j =
       (if j = mn_ngeId node then Some i else if map_of (ms_indexByNgeId st) j = Some i then None else map_of (ms_indexByNgeId st) j)"
    "distinct (map fst (ms_indexByNgeId st'))"
    "\<forall>j. storage_node st' j = (if j = i then Some node else storage_node st j)"
proof (cases "map_of (ms_indexByPathKey st) key")
  case (Some i)
  obtain prev where prev: "storage_node st i = Some prev" using index_okD(3) [OF ok Some] by blast
  then have l: "i < length (ms_nodes st)" by (auto simp: storage_node_def split: if_splits)
  have n: "map_of (ms_indexByNgeId st) j = Some i \<longleftrightarrow> j = mn_ngeId prev" for j
    using index_okD(4) [OF ok, of j i] index_okD(6) [OF ok prev] prev by auto
  define st' where "st' = the (case indexNodeByKey st key node of Inr s \<Rightarrow> Some s | Inl _ \<Rightarrow> None)"
  have r: "indexNodeByKey st key node = Inr st'"
    and f: "ms_indexByPathKey st' = AList.update (mn_path_item_key node) i (AList.delete key (ms_indexByPathKey st))"
      "ms_indexByNgeId st' = AList.update (mn_ngeId node) i (AList.delete (mn_ngeId prev) (ms_indexByNgeId st))"
      "ms_nodes st' = (ms_nodes st)[i := Some node]"
    by (simp_all add: st'_def indexNodeByKey_def place_node_def Some prev)
  show ?thesis
  proof (rule that [OF r _ f(1)])
    show "map_of (ms_indexByPathKey st) key = Some i \<or> map_of (ms_indexByPathKey st) key = None \<and> storage_node st i = None"
      using Some by simp
    show "\<forall>j. map_of (ms_indexByNgeId st') j =
       (if j = mn_ngeId node then Some i else if map_of (ms_indexByNgeId st) j = Some i then None else map_of (ms_indexByNgeId st) j)"
      using n by (simp add: f(2) update_conv' delete_conv')
    show "distinct (map fst (ms_indexByNgeId st'))"
      unfolding f(2) by (intro distinct_update distinct_delete index_okD(2) ok)
    show "\<forall>j. storage_node st' j = (if j = i then Some node else storage_node st j)"
      using l by (simp add: storage_node_def f(3))
  qed
next
  case None
  let ?i = "length (ms_nodes st)"
  have k: "map_of (ms_indexByPathKey st) key = None" by (rule None)
  have n: "map_of (ms_indexByNgeId st) j \<noteq> Some ?i" for j
    using index_okD(4) [OF ok, of j ?i] by (auto simp: storage_node_def)
  define st' where "st' = the (case indexNodeByKey st key node of Inr s \<Rightarrow> Some s | Inl _ \<Rightarrow> None)"
  have r: "indexNodeByKey st key node = Inr st'"
    and f: "ms_indexByPathKey st' = AList.update (mn_path_item_key node) ?i (ms_indexByPathKey st)"
      "ms_indexByNgeId st' = AList.update (mn_ngeId node) ?i (ms_indexByNgeId st)"
      "ms_nodes st' = ms_nodes st @ [Some node]"
    by (simp_all add: st'_def indexNodeByKey_def place_node_def None)
  have d: "AList.delete key (ms_indexByPathKey st) = ms_indexByPathKey st"
    using None by (simp add: map_of_eq_None_iff)
  show ?thesis
  proof (rule that [OF r])
    show "map_of (ms_indexByPathKey st) key = Some ?i \<or> map_of (ms_indexByPathKey st) key = None \<and> storage_node st ?i = None"
      using None by (simp add: storage_node_def)
    show "ms_indexByPathKey st' = AList.update (mn_path_item_key node) ?i (AList.delete key (ms_indexByPathKey st))"
      by (simp add: d f(1))
    show "\<forall>j. map_of (ms_indexByNgeId st') j =
       (if j = mn_ngeId node then Some ?i else if map_of (ms_indexByNgeId st) j = Some ?i then None else map_of (ms_indexByNgeId st) j)"
      using n by (simp add: f(2) update_conv')
    show "distinct (map fst (ms_indexByNgeId st'))"
      unfolding f(2) by (intro distinct_update index_okD(2) ok)
    show "\<forall>j. storage_node st' j = (if j = ?i then Some node else storage_node st j)"
      by (auto simp: storage_node_def f(3) nth_append)
  qed
qed

lemma indexNodeByKey_ok:
  assumes ok: "index_ok st" and fits: "fits st key node"
  shows "\<exists>st'. indexNodeByKey st key node = Inr st' \<and> index_ok st' \<and>
    (\<forall>k. getNodeByKey st' k =
       (if k = mn_path_item_key node then Some node else if k = key then None
        else if map_of (ms_indexByPathKey st) k \<noteq> None \<and> map_of (ms_indexByPathKey st) k = map_of (ms_indexByPathKey st) key
        then Some node else getNodeByKey st k))"
proof -
  obtain st' i where st': "indexNodeByKey st key node = Inr st'"
    and i: "map_of (ms_indexByPathKey st) key = Some i \<or> map_of (ms_indexByPathKey st) key = None \<and> storage_node st i = None"
    and p: "ms_indexByPathKey st' = AList.update (mn_path_item_key node) i (AList.delete key (ms_indexByPathKey st))"
    and n: "\<forall>j. map_of (ms_indexByNgeId st') j =
       (if j = mn_ngeId node then Some i else if map_of (ms_indexByNgeId st) j = Some i then None else map_of (ms_indexByNgeId st) j)"
    and d: "distinct (map fst (ms_indexByNgeId st'))"
    and s: "\<forall>j. storage_node st' j = (if j = i then Some node else storage_node st j)"
    using indexNodeByKey_effect [OF ok fits] .
  note n = n [rule_format] and s = s [rule_format]
  have i2: "map_of (ms_indexByPathKey st) k = Some i \<Longrightarrow> map_of (ms_indexByPathKey st) key = Some i" for k
    using i index_okD(3) [OF ok, of k i] by auto
  have p2: "map_of (ms_indexByPathKey st') k =
      (if k = mn_path_item_key node then Some i else if k = key then None else map_of (ms_indexByPathKey st) k)" for k
    by (simp add: p update_conv' delete_conv')
  have other: "mn_path_item_key m \<noteq> mn_path_item_key node \<and> mn_path_item_key m \<noteq> key \<and> mn_ngeId m \<noteq> mn_ngeId node"
    if "storage_node st j = Some m" "j \<noteq> i" for j m
  proof -
    note m = index_okD(5,6) [OF ok that(1)]
    have "map_of (ms_indexByPathKey st) key \<noteq> Some j" using i that by auto
    then show ?thesis using m fits that(2) by (auto simp: fits_def)
  qed
  have "index_ok st'"
    unfolding index_ok_def
  proof (intro conjI allI impI)
    show "distinct (map fst (ms_indexByPathKey st'))"
      unfolding p by (intro distinct_update distinct_delete index_okD(1) ok)
    show "distinct (map fst (ms_indexByNgeId st'))" by (rule d)
    show "storage_node st' j \<noteq> None" if "map_of (ms_indexByPathKey st') k = Some j" for k j
      using that index_okD(3) [OF ok, of k j] by (auto simp: p2 s split: if_splits)
    show "\<exists>m. storage_node st' j = Some m \<and> mn_ngeId m = k" if "map_of (ms_indexByNgeId st') k = Some j" for k j
      using that index_okD(4) [OF ok, of k j] by (auto simp: n s split: if_splits)
    fix j m assume j: "storage_node st' j = Some m"
    show "map_of (ms_indexByPathKey st') (mn_path_item_key m) = Some j"
      using j other [of j m] index_okD(5) [OF ok, of j m] by (cases "j = i") (simp_all add: p2 s)
    show "map_of (ms_indexByNgeId st') (mn_ngeId m) = Some j"
      using j other [of j m] index_okD(6) [OF ok, of j m] by (cases "j = i") (simp_all add: n s)
  qed
  moreover have "getNodeByKey st' k =
       (if k = mn_path_item_key node then Some node else if k = key then None
        else if map_of (ms_indexByPathKey st) k \<noteq> None \<and> map_of (ms_indexByPathKey st) k = map_of (ms_indexByPathKey st) key
        then Some node else getNodeByKey st k)" for k
    using i i2 [of k] by (cases "map_of (ms_indexByPathKey st) k") (auto simp: getNodeByKey_def p2 s)
  ultimately show ?thesis using st' by auto
qed

lemma same_place:
  assumes "index_ok st" "no_redirection st"
    and "map_of (ms_indexByPathKey st) k = Some i" "map_of (ms_indexByPathKey st) key = Some i"
  shows "k = key"
proof -
  obtain n where "storage_node st i = Some n" using index_okD(3) [OF assms(1,3)] by blast
  then have "getNodeByKey st k = Some n" "getNodeByKey st key = Some n"
    by (simp_all add: getNodeByKey_def assms(3,4))
  then show ?thesis using assms(2) unfolding no_redirection_def by blast
qed

lemma getNodeByNgeId_iff:
  assumes "index_ok st"
  shows "getNodeByNgeId st j = Some n \<longleftrightarrow> getNodeByKey st (mn_path_item_key n) = Some n \<and> mn_ngeId n = j"
proof
  assume "getNodeByNgeId st j = Some n"
  then obtain i where "map_of (ms_indexByNgeId st) j = Some i" "storage_node st i = Some n"
    by (auto simp: getNodeByNgeId_def bind_eq_Some_conv)
  then show "getNodeByKey st (mn_path_item_key n) = Some n \<and> mn_ngeId n = j"
    using index_okD(4) [OF assms, of j i] index_okD(5) [OF assms, of i n] by (auto simp: getNodeByKey_def)
next
  assume r: "getNodeByKey st (mn_path_item_key n) = Some n \<and> mn_ngeId n = j"
  then obtain i where "storage_node st i = Some n" by (auto simp: getNodeByKey_def bind_eq_Some_conv)
  then show "getNodeByNgeId st j = Some n"
    using r index_okD(6) [OF assms, of i n] by (simp add: getNodeByNgeId_def)
qed

lemma indexNodeByKey_refines:
  assumes "index_ok st" "no_redirection st" "fits st key node"
  shows "\<exists>st'. indexNodeByKey st key node = Inr st' \<and> index_ok st' \<and> no_redirection st' \<and>
    getNodeByKey st' = (getNodeByKey st)(key := None, mn_path_item_key node \<mapsto> node)"
proof -
  obtain st' where st': "indexNodeByKey st key node = Inr st'" "index_ok st'"
    and g: "\<And>k. getNodeByKey st' k =
       (if k = mn_path_item_key node then Some node else if k = key then None
        else if map_of (ms_indexByPathKey st) k \<noteq> None \<and> map_of (ms_indexByPathKey st) k = map_of (ms_indexByPathKey st) key
        then Some node else getNodeByKey st k)"
    using indexNodeByKey_ok [OF assms(1,3)] by blast
  have "getNodeByKey st' = (getNodeByKey st)(key := None, mn_path_item_key node \<mapsto> node)"
  proof
    fix k show "getNodeByKey st' k = ((getNodeByKey st)(key := None, mn_path_item_key node \<mapsto> node)) k"
      using same_place [OF assms(1,2), of k _ key] by (cases "map_of (ms_indexByPathKey st) k") (auto simp: g)
  qed
  moreover from this have "no_redirection st'"
    using assms(2) unfolding no_redirection_def by (auto split: if_splits)
  ultimately show ?thesis using st' by blast
qed

lemma storage_delete:
  "storage_node (deleteByIndexStorage st i) j = (if j = i then None else storage_node st j)"
  by (auto simp: storage_node_def deleteByIndexStorage_def)

lemma index_delete:
  assumes "index_ok st"
  shows "map_of (ms_indexByPathKey (deleteByIndexStorage st i)) k =
      (if map_of (ms_indexByPathKey st) k = Some i then None else map_of (ms_indexByPathKey st) k)"
    "map_of (ms_indexByNgeId (deleteByIndexStorage st i)) j =
      (if map_of (ms_indexByNgeId st) j = Some i then None else map_of (ms_indexByNgeId st) j)"
  using index_okD(1,2) [OF assms] by (simp_all add: deleteByIndexStorage_def map_of_without)

lemma delete_ok:
  assumes "index_ok st"
  shows "index_ok (deleteByIndexStorage st i)"
  unfolding index_ok_def
proof (intro conjI allI impI)
  let ?d = "deleteByIndexStorage st i"
  show "distinct (map fst (ms_indexByPathKey ?d))" "distinct (map fst (ms_indexByNgeId ?d))"
    using index_okD(1,2) [OF assms] by (simp_all add: deleteByIndexStorage_def distinct_map_filter)
  show "storage_node ?d j \<noteq> None" if "map_of (ms_indexByPathKey ?d) k = Some j" for k j
    using that index_okD(3) [OF assms, of k j] by (auto simp: index_delete [OF assms] storage_delete split: if_splits)
  show "\<exists>m. storage_node ?d j = Some m \<and> mn_ngeId m = k" if "map_of (ms_indexByNgeId ?d) k = Some j" for k j
    using that index_okD(4) [OF assms, of k j] by (auto simp: index_delete [OF assms] storage_delete split: if_splits)
  fix j m assume j: "storage_node ?d j = Some m"
  show "map_of (ms_indexByPathKey ?d) (mn_path_item_key m) = Some j" "map_of (ms_indexByNgeId ?d) (mn_ngeId m) = Some j"
    using j index_okD(5,6) [OF assms, of j m] by (simp_all add: index_delete [OF assms] storage_delete split: if_splits)
qed

lemma getNodeByKey_delete:
  assumes "index_ok st"
  shows "getNodeByKey (deleteByIndexStorage st i) k =
    (if map_of (ms_indexByPathKey st) k = Some i then None else getNodeByKey st k)"
  by (cases "map_of (ms_indexByPathKey st) k")
    (auto simp: getNodeByKey_def index_delete [OF assms] storage_delete)

lemma deleteNodeByNgeId_refines:
  assumes "index_ok st" "no_redirection st"
  shows "index_ok (deleteNodeByNgeId st j) \<and> no_redirection (deleteNodeByNgeId st j) \<and>
    getNodeByKey (deleteNodeByNgeId st j) =
      (case getNodeByNgeId st j of None \<Rightarrow> getNodeByKey st | Some n \<Rightarrow> (getNodeByKey st)(mn_path_item_key n := None))"
proof (cases "map_of (ms_indexByNgeId st) j")
  case None
  then show ?thesis using assms by (simp add: deleteNodeByNgeId_def getNodeByNgeId_def)
next
  case (Some i)
  obtain n where n: "storage_node st i = Some n" using index_okD(4) [OF assms(1) Some] by blast
  have key: "map_of (ms_indexByPathKey st) k = Some i \<longleftrightarrow> k = mn_path_item_key n" for k
    using same_place [OF assms, of k i "mn_path_item_key n"] index_okD(5) [OF assms(1) n] by auto
  have "getNodeByKey (deleteNodeByNgeId st j) = (getNodeByKey st)(mn_path_item_key n := None)"
    by (simp add: deleteNodeByNgeId_def Some n fun_eq_iff getNodeByKey_delete [OF assms(1)] key)
  moreover from this have "no_redirection (deleteNodeByNgeId st j)"
    using assms(2) unfolding no_redirection_def by (auto split: if_splits)
  moreover have "index_ok (deleteNodeByNgeId st j)"
    using delete_ok [OF assms(1)] by (simp add: deleteNodeByNgeId_def Some n)
  ultimately show ?thesis by (simp add: getNodeByNgeId_def Some n)
qed

section \<open>Merging duplicated nodes\<close>

definition private_key :: "macro_state \<Rightarrow> string \<Rightarrow> bool" where
  "private_key st key \<longleftrightarrow> (\<forall>k. map_of (ms_indexByPathKey st) k = map_of (ms_indexByPathKey st) key \<longrightarrow> k = key)"

lemma redirect_effect:
  assumes ok: "index_ok st" and key: "map_of (ms_indexByPathKey st) key = Some i" and priv: "private_key st key"
    and m: "storage_node st m \<noteq> None" "m \<noteq> i"
  shows "index_ok (redirect_key (Some m) st key) \<and>
    map_of (ms_indexByPathKey (redirect_key (Some m) st key)) = (map_of (ms_indexByPathKey st))(key \<mapsto> m) \<and>
    storage_node (redirect_key (Some m) st key) = (storage_node st)(i := None)"
proof -
  let ?d = "deleteByIndexStorage st i" and ?r = "redirect_key (Some m) st key"
  have other: "map_of (ms_indexByPathKey st) k = Some i \<longleftrightarrow> k = key" for k
    using priv [unfolded private_key_def, rule_format, of k] key by metis
  have r: "ms_indexByPathKey ?r = AList.update key m (ms_indexByPathKey ?d)" "ms_indexByNgeId ?r = ms_indexByNgeId ?d"
    "storage_node ?r = storage_node ?d"
    by (simp_all add: redirect_key_def key storage_node_def fun_eq_iff Let_def)
  have p: "map_of (ms_indexByPathKey ?r) k = (if k = key then Some m else map_of (ms_indexByPathKey st) k)" for k
    by (simp add: r update_conv' index_delete [OF ok] other)
  have s: "storage_node ?r j = (if j = i then None else storage_node st j)" for j
    by (simp add: r storage_delete)
  have d: "index_ok ?d" by (rule delete_ok [OF ok])
  have "index_ok ?r"
    unfolding index_ok_def
  proof (intro conjI allI impI)
    show "distinct (map fst (ms_indexByPathKey ?r))" "distinct (map fst (ms_indexByNgeId ?r))"
      unfolding r by (auto intro: distinct_update index_okD [OF d])
    show "storage_node ?r j \<noteq> None" if "map_of (ms_indexByPathKey ?r) k = Some j" for k j
      using that index_okD(3) [OF ok, of k j] m other [of k] by (auto simp: p s split: if_splits)
    show "\<exists>x. storage_node ?r j = Some x \<and> mn_ngeId x = k" if "map_of (ms_indexByNgeId ?r) k = Some j" for k j
      using that index_okD(4) [OF d, of k j] by (simp add: r)
    fix j x assume j: "storage_node ?r j = Some x"
    show "map_of (ms_indexByNgeId ?r) (mn_ngeId x) = Some j"
      using j index_okD(6) [OF d, of j x] by (simp add: r)
    show "map_of (ms_indexByPathKey ?r) (mn_path_item_key x) = Some j"
      using j index_okD(5) [OF ok, of j x] other [of "mn_path_item_key x"] key by (auto simp: p s split: if_splits)
  qed
  then show ?thesis by (simp add: fun_eq_iff p s)
qed

lemma redirects_effect:
  assumes "index_ok st" "distinct keys" "\<forall>k\<in>set keys. private_key st k \<and> map_of (ms_indexByPathKey st) k \<noteq> None \<and>
      map_of (ms_indexByPathKey st) k \<noteq> Some m" "storage_node st m \<noteq> None"
  shows "index_ok (foldl (redirect_key (Some m)) st keys) \<and>
    map_of (ms_indexByPathKey (foldl (redirect_key (Some m)) st keys)) =
      (\<lambda>k. if k \<in> set keys then Some m else map_of (ms_indexByPathKey st) k) \<and>
    storage_node (foldl (redirect_key (Some m)) st keys) =
      (\<lambda>i. if \<exists>k\<in>set keys. map_of (ms_indexByPathKey st) k = Some i then None else storage_node st i)"
  using assms
proof (induction keys arbitrary: st)
  case (Cons key keys)
  let ?r = "redirect_key (Some m) st key"
  obtain i where i: "map_of (ms_indexByPathKey st) key = Some i" "m \<noteq> i" using Cons.prems(3) by fastforce
  have r: "index_ok ?r" and p: "map_of (ms_indexByPathKey ?r) = (map_of (ms_indexByPathKey st))(key \<mapsto> m)"
    and s: "storage_node ?r = (storage_node st)(i := None)"
    using redirect_effect [OF Cons.prems(1) i(1) _ Cons.prems(4) i(2)] Cons.prems(3) by auto
  have "private_key ?r k \<and> map_of (ms_indexByPathKey ?r) k \<noteq> None \<and> map_of (ms_indexByPathKey ?r) k \<noteq> Some m"
    if "k \<in> set keys" for k
  proof -
    have k: "k \<noteq> key" using Cons.prems(2) that by auto
    have "private_key st k" "map_of (ms_indexByPathKey st) k \<noteq> None" "map_of (ms_indexByPathKey st) k \<noteq> Some m"
      using Cons.prems(3) that by auto
    then show ?thesis using k by (auto simp: private_key_def p)
  qed
  then have IH: "index_ok (foldl (redirect_key (Some m)) ?r keys) \<and>
    map_of (ms_indexByPathKey (foldl (redirect_key (Some m)) ?r keys)) =
      (\<lambda>k. if k \<in> set keys then Some m else map_of (ms_indexByPathKey ?r) k) \<and>
    storage_node (foldl (redirect_key (Some m)) ?r keys) =
      (\<lambda>i. if \<exists>k\<in>set keys. map_of (ms_indexByPathKey ?r) k = Some i then None else storage_node ?r i)"
    using Cons.prems(2,4) i(2) by (intro Cons.IH r) (auto simp: s)
  have "key \<notin> set keys" using Cons.prems(2) by simp
  then show ?case
    unfolding foldl_Cons using IH i(1) by (auto simp: p s fun_eq_iff)
qed simp

text \<open>The key whose node stands for the node of a key after the merges.\<close>

primrec main_key :: "string list list \<Rightarrow> string \<Rightarrow> string" where
  "main_key [] k = k"
| "main_key (g # gs) k = (if k \<in> set (tl g) then hd g else main_key gs k)"

lemma in_set_tl: "x \<in> set (tl xs) \<Longrightarrow> x \<in> set xs"
  by (cases xs) auto

lemma main_key_outside: "k \<notin> set (concat gs) \<Longrightarrow> main_key gs k = k"
  by (induction gs) (auto dest: in_set_tl)

lemma main_key_cases: "main_key gs k = k \<or> (\<exists>g\<in>set gs. k \<in> set (tl g) \<and> main_key gs k = hd g \<and> hd g \<in> set g)"
proof (induction gs)
  case (Cons g gs)
  then show ?case by (cases g) auto
qed simp

lemma merge_effect:
  assumes "index_ok st" "distinct g" "\<forall>k\<in>set g. private_key st k \<and> map_of (ms_indexByPathKey st) k \<noteq> None"
  shows "index_ok (merge_nodes st g) \<and>
    map_of (ms_indexByPathKey (merge_nodes st g)) =
      (\<lambda>k. if k \<in> set (tl g) then map_of (ms_indexByPathKey st) (hd g) else map_of (ms_indexByPathKey st) k)"
proof (cases g)
  case Nil
  then show ?thesis using assms(1) by (simp add: merge_nodes_def)
next
  case (Cons main keys)
  obtain m where m: "map_of (ms_indexByPathKey st) main = Some m" using assms(3) Cons by fastforce
  have "storage_node st m \<noteq> None" using index_okD(3) [OF assms(1) m] by auto
  moreover have "map_of (ms_indexByPathKey st) k \<noteq> Some m" if "k \<in> set keys" for k
    using that assms(2,3) m Cons unfolding private_key_def by fastforce
  ultimately show ?thesis
    using redirects_effect [OF assms(1), of keys m] assms(2,3) m unfolding Cons by (simp add: merge_nodes_def fun_eq_iff)
qed

lemma merges_effect:
  assumes "index_ok st" "distinct (concat gs)" "\<forall>k\<in>set (concat gs). private_key st k \<and> map_of (ms_indexByPathKey st) k \<noteq> None"
  shows "index_ok (foldl merge_nodes st gs) \<and>
    map_of (ms_indexByPathKey (foldl merge_nodes st gs)) = (\<lambda>k. map_of (ms_indexByPathKey st) (main_key gs k))"
  using assms
proof (induction gs arbitrary: st)
  case (Cons g gs)
  let ?m = "merge_nodes st g"
  have m: "index_ok ?m" and p: "map_of (ms_indexByPathKey ?m) =
      (\<lambda>k. if k \<in> set (tl g) then map_of (ms_indexByPathKey st) (hd g) else map_of (ms_indexByPathKey st) k)"
    using merge_effect [OF Cons.prems(1), of g] Cons.prems(2,3) by auto
  have g: "set (tl g) \<subseteq> set g" by (cases g) auto
  have disj: "set g \<inter> set (concat gs) = {}" and d: "distinct g" "distinct (concat gs)" using Cons.prems(2) by auto
  have "private_key ?m k \<and> map_of (ms_indexByPathKey ?m) k \<noteq> None" if k: "k \<in> set (concat gs)" for k
  proof -
    have "k \<notin> set g" using disj k by blast
    moreover have "private_key st k" "map_of (ms_indexByPathKey st) k \<noteq> None" using Cons.prems(3) k by auto
    moreover have "tl g \<noteq> [] \<Longrightarrow> hd g \<in> set g" by (cases g) auto
    ultimately show ?thesis using g by (auto simp: private_key_def p dest: length_pos_if_in_set)
  qed
  then have IH: "index_ok (foldl merge_nodes ?m gs) \<and>
      map_of (ms_indexByPathKey (foldl merge_nodes ?m gs)) = (\<lambda>k. map_of (ms_indexByPathKey ?m) (main_key gs k))"
    by (intro Cons.IH m d) auto
  have "map_of (ms_indexByPathKey ?m) (main_key gs k) = map_of (ms_indexByPathKey st) (main_key (g # gs) k)" for k
  proof (cases "k \<in> set (tl g)")
    case True
    then have "main_key gs k = k" using g disj by (intro main_key_outside) blast
    then show ?thesis using True by (simp add: p)
  next
    case False
    have "main_key gs k \<notin> set (tl g)"
    proof (cases "main_key gs k = k")
      case False
      then obtain g' where "g' \<in> set gs" "main_key gs k = hd g'" "hd g' \<in> set g'" using main_key_cases [of gs k] by blast
      then have "main_key gs k \<in> set (concat gs)" by auto
      then show ?thesis using g disj by blast
    qed (use False in simp)
    then show ?thesis using False by (simp add: p)
  qed
  then show ?case using IH by (simp add: fun_eq_iff)
qed simp

definition group_keys :: "(string \<times> string) list \<Rightarrow> string \<Rightarrow> string list" where
  "group_keys es t = map snd (filter (\<lambda>e. fst e = t) es)"

lemma groups_lookup:
  "distinct (map fst (foldl add_to_group [] es)) \<and>
   map_of (foldl add_to_group [] es) t = (if group_keys es t = [] then None else Some (group_keys es t))"
proof (induction es arbitrary: t rule: rev_induct)
  case (snoc e es)
  have "(case map_of (foldl add_to_group [] es) (fst e) of None \<Rightarrow> [] | Some ks \<Rightarrow> ks) = group_keys es (fst e)"
    using snoc.IH [of "fst e"] by simp
  then show ?case
    using snoc.IH [of t] snoc.IH [of "fst e"]
    by (auto simp: add_to_group_def update_conv' group_keys_def distinct_update)
qed (simp add: group_keys_def)

lemma groups_member:
  assumes "(t, ks) \<in> set (foldl add_to_group [] es)"
  shows "ks = group_keys es t"
proof -
  have "map_of (foldl add_to_group [] es) t = Some ks"
    using groups_lookup [of es t] assms by (intro map_of_is_SomeI) auto
  then show ?thesis using groups_lookup [of es t] by (simp split: if_splits)
qed

lemma indexed_trigrams_iff:
  assumes "index_ok st" "no_redirection st"
  shows "(t, k) \<in> set (indexed_trigrams st) \<longleftrightarrow>
    (\<exists>n. getNodeByKey st k = Some n \<and> truthy (mn_trigram n) \<and> mn_trigram n = Some t)"
proof
  assume "(t, k) \<in> set (indexed_trigrams st)"
  then obtain k' i n where i: "(k', i) \<in> set (ms_indexByPathKey st)" "storage_node st i = Some n"
    and n: "truthy (mn_trigram n)" "t = the (mn_trigram n)" "k = mn_path_item_key n"
    by (auto simp: indexed_trigrams_def List.map_filter_def split: option.splits if_splits)
  have "map_of (ms_indexByPathKey st) k' = Some i"
    using map_of_is_SomeI [OF index_okD(1) [OF assms(1)] i(1)] .
  then have "getNodeByKey st k' = Some n" using i(2) by (simp add: getNodeByKey_def)
  moreover from this have "k' = k" using assms(2) n(3) by (auto simp: no_redirection_def)
  ultimately show "\<exists>n. getNodeByKey st k = Some n \<and> truthy (mn_trigram n) \<and> mn_trigram n = Some t"
    using n by (auto simp: truthy_def split: option.splits)
next
  assume "\<exists>n. getNodeByKey st k = Some n \<and> truthy (mn_trigram n) \<and> mn_trigram n = Some t"
  then obtain n i where n: "getNodeByKey st k = Some n" "truthy (mn_trigram n)" "mn_trigram n = Some t"
    and i: "map_of (ms_indexByPathKey st) k = Some i" "storage_node st i = Some n"
    by (auto simp: getNodeByKey_def bind_eq_Some_conv)
  have "mn_path_item_key n = k" using assms(2) n(1) by (simp add: no_redirection_def)
  then show "(t, k) \<in> set (indexed_trigrams st)"
    using map_of_SomeD [OF i(1)] i(2) n(2,3) by (force simp: indexed_trigrams_def List.map_filter_def)
qed

lemma map_filter_keys:
  assumes "\<And>x y. x \<in> set xs \<Longrightarrow> f x = Some y \<Longrightarrow> snd y = fst x"
  shows "map snd (List.map_filter f xs) = map fst (filter (\<lambda>x. f x \<noteq> None) xs)"
  using assms by (induction xs) (auto simp: List.map_filter_def)

lemma indexed_keys_distinct:
  assumes "index_ok st" "no_redirection st"
  shows "distinct (map snd (indexed_trigrams st))"
proof -
  have key: "mn_path_item_key n = k" if "(k, i) \<in> set (ms_indexByPathKey st)" "storage_node st i = Some n" for k i n
    using that assms map_of_is_SomeI [OF index_okD(1) [OF assms(1)] that(1)]
    by (simp add: no_redirection_def getNodeByKey_def)
  show ?thesis
    unfolding indexed_trigrams_def
    by (subst map_filter_keys)
      (auto split: option.splits if_splits intro: key distinct_map_filter index_okD(1) [OF assms(1)])
qed

lemma concat_distinct:
  assumes "distinct (map fst gs)" "\<And>t ks. (t, ks) \<in> set gs \<Longrightarrow> distinct ks \<and> (\<forall>k\<in>set ks. f k = t)"
    and "\<And>ks. distinct (p ks) = distinct ks \<or> p ks = []" "\<And>ks. set (p ks) \<subseteq> set ks"
  shows "distinct (concat (map (\<lambda>(t, ks). p ks) gs))"
  using assms(1,2)
proof (induction gs)
  case (Cons g gs)
  obtain t ks where g: "g = (t, ks)" by (cases g)
  have "distinct (p ks)" using Cons.prems(2) [of t ks] assms(3) [of ks] by (auto simp: g)
  moreover have "f k \<noteq> t" if "(t', ks') \<in> set gs" "k \<in> set (p ks')" for t' ks' k
  proof -
    have "f k = t'" using that assms(4) [of ks'] Cons.prems(2) [of t' ks'] by auto
    then show ?thesis using Cons.prems(1) that(1) by (force simp: g)
  qed
  moreover have "f k = t" if "k \<in> set (p ks)" for k
    using that assms(4) [of ks] Cons.prems(2) [of t ks] by (auto simp: g)
  ultimately show ?case using Cons by (fastforce simp: g)
qed simp

lemma group_keys_iff:
  assumes "index_ok st" "no_redirection st"
  shows "k \<in> set (group_keys (indexed_trigrams st) t) \<longleftrightarrow>
    (\<exists>n. getNodeByKey st k = Some n \<and> truthy (mn_trigram n) \<and> mn_trigram n = Some t)"
  using indexed_trigrams_iff [OF assms, of t k] by (force simp: group_keys_def)

lemma merge_lists_member:
  assumes "g \<in> set (merge_lists st)" "g \<noteq> []"
  obtains t where "set g = set (group_keys (indexed_trigrams st) t)" "sorted (map (key_priority st) g)"
proof -
  obtain t ks where g: "(t, ks) \<in> set (foldl add_to_group [] (indexed_trigrams st))" "g = sort_key (key_priority st) ks"
    using assms by (auto simp: merge_lists_def split: if_splits)
  have "ks = group_keys (indexed_trigrams st) t" by (rule groups_member [OF g(1)])
  then show ?thesis using that [of t] g(2) by simp
qed

lemma merge_lists_complete:
  assumes "a \<in> set (group_keys (indexed_trigrams st) t)" "b \<in> set (group_keys (indexed_trigrams st) t)" "a \<noteq> b"
  shows "\<exists>g\<in>set (merge_lists st). set g = set (group_keys (indexed_trigrams st) t)"
proof -
  let ?ks = "group_keys (indexed_trigrams st) t"
  have "?ks \<noteq> []" using assms(1) by auto
  then have "(t, ?ks) \<in> set (foldl add_to_group [] (indexed_trigrams st))"
    using groups_lookup [of "indexed_trigrams st" t] by (intro map_of_SomeD) simp
  moreover have "\<not> length ?ks < 2" using assms by (cases ?ks; cases "tl ?ks") auto
  ultimately have "sort_key (key_priority st) ?ks \<in> set (merge_lists st)" by (force simp: merge_lists_def)
  then show ?thesis by (intro bexI) auto
qed

lemma merge_lists_distinct:
  assumes "index_ok st" "no_redirection st"
  shows "distinct (concat (merge_lists st))"
  unfolding merge_lists_def
proof (rule concat_distinct [where f = "\<lambda>k. the (mn_trigram (the (getNodeByKey st k)))"])
  show "distinct (map fst (foldl add_to_group [] (indexed_trigrams st)))" using groups_lookup by blast
  fix t ks assume "(t, ks) \<in> set (foldl add_to_group [] (indexed_trigrams st))"
  then have ks: "ks = group_keys (indexed_trigrams st) t" by (rule groups_member)
  have "distinct ks" using indexed_keys_distinct [OF assms] by (simp add: ks group_keys_def distinct_map_filter)
  moreover have "the (mn_trigram (the (getNodeByKey st k))) = t" if "k \<in> set ks" for k
    using that group_keys_iff [OF assms, of k t] unfolding ks by auto
  ultimately show "distinct ks \<and> (\<forall>k\<in>set ks. the (mn_trigram (the (getNodeByKey st k))) = t)" by blast
qed auto


lemma getNodeByKey_Some_iff:
  assumes "index_ok st"
  shows "getNodeByKey st k \<noteq> None \<longleftrightarrow> map_of (ms_indexByPathKey st) k \<noteq> None"
  using index_okD(3) [OF assms, of k] by (cases "map_of (ms_indexByPathKey st) k") (auto simp: getNodeByKey_def)

lemma private_keys:
  assumes "index_ok st" "no_redirection st" "getNodeByKey st k \<noteq> None"
  shows "private_key st k"
proof -
  obtain i where "map_of (ms_indexByPathKey st) k = Some i"
    using assms(3) by (cases "map_of (ms_indexByPathKey st) k") (auto simp: getNodeByKey_def)
  then show ?thesis unfolding private_key_def using same_place [OF assms(1,2), of _ i k] by metis
qed

lemma foldl_keeps: "P s \<Longrightarrow> (\<And>s x. P s \<Longrightarrow> P (f s x)) \<Longrightarrow> P (foldl f s xs)"
  by (induction xs arbitrary: s) auto

lemma storage_merges: "storage_node (foldl merge_nodes st gs) i \<in> {None, storage_node st i}"
proof (rule foldl_keeps)
  have redirect: "storage_node (redirect_key m s k) i \<in> {None, x}" if "storage_node s i \<in> {None, x}" for m s k x
  proof -
    have "storage_node (redirect_key m s k) i =
        (case map_of (ms_indexByPathKey s) k of None \<Rightarrow> storage_node s i | Some a \<Rightarrow> storage_node (deleteByIndexStorage s a) i)"
      by (simp add: redirect_key_def Let_def storage_node_def split: option.split)
    then show ?thesis using that by (simp add: storage_delete split: option.split)
  qed
  fix s g assume "storage_node s i \<in> {None, storage_node st i}"
  then have "storage_node (foldl (redirect_key m) s ks) i \<in> {None, storage_node st i}" for m ks
    by (rule foldl_keeps) (rule redirect)
  then show "storage_node (merge_nodes s g) i \<in> {None, storage_node st i}"
    using \<open>storage_node s i \<in> _\<close> by (cases g) (simp_all add: merge_nodes_def)
qed simp

lemma dedup_lookup:
  assumes "index_ok st" "no_redirection st"
  shows "index_ok (dedupNodes st)"
    "getNodeByKey (dedupNodes st) k = getNodeByKey st (main_key (merge_lists st) k)"
proof -
  have keys: "getNodeByKey st k \<noteq> None" if k: "k \<in> set (concat (merge_lists st))" for k
  proof -
    obtain g where "g \<in> set (merge_lists st)" "k \<in> set g" using k by auto
    moreover from this obtain t where "set g = set (group_keys (indexed_trigrams st) t)"
      using merge_lists_member [of g st] by (metis empty_iff list.set(1))
    ultimately show ?thesis using group_keys_iff [OF assms, of k t] by auto
  qed
  then have m: "index_ok (dedupNodes st) \<and>
      map_of (ms_indexByPathKey (dedupNodes st)) = (\<lambda>k. map_of (ms_indexByPathKey st) (main_key (merge_lists st) k))"
    unfolding dedupNodes_def
    by (intro merges_effect assms merge_lists_distinct ballI conjI private_keys [OF assms])
      (simp_all only: getNodeByKey_Some_iff [OF assms(1)] simp_thms)
  then show ok: "index_ok (dedupNodes st)" by blast
  show "getNodeByKey (dedupNodes st) k = getNodeByKey st (main_key (merge_lists st) k)"
  proof (cases "map_of (ms_indexByPathKey (dedupNodes st)) k")
    case None
    then show ?thesis using m by (simp add: getNodeByKey_def)
  next
    case (Some i)
    then have "storage_node (dedupNodes st) i \<noteq> None" using index_okD(3) [OF ok] by fastforce
    then have "storage_node (dedupNodes st) i = storage_node st i"
      using storage_merges [of st "merge_lists st" i] by (auto simp: dedupNodes_def)
    then show ?thesis using m Some by (auto simp: getNodeByKey_def)
  qed
qed

lemma main_key_of:
  assumes "index_ok st" "no_redirection st" "g \<in> set (merge_lists st)" "k \<in> set g"
  shows "main_key (merge_lists st) k = hd g"
proof -
  note d = merge_lists_distinct [OF assms(1,2)]
  have unique: "g' = g" if "g' \<in> set (merge_lists st)" "x \<in> set g'" "x \<in> set g" for g' x
    using d that assms(3) by (auto simp: distinct_concat_iff)
  show ?thesis
  proof (cases "k \<in> set (tl g)")
    case True
    then have "main_key gs k = hd g" if "g \<in> set gs" "set gs \<subseteq> set (merge_lists st)" for gs
      using that by (induction gs) (auto dest: unique in_set_tl)
    then show ?thesis using assms(3) by blast
  next
    case False
    then have "hd g = k" using assms(4) by (cases g) auto
    moreover have "k \<notin> set (tl g')" if "g' \<in> set (merge_lists st)" for g'
      using unique [OF that in_set_tl assms(4)] False by auto
    ultimately show ?thesis using main_key_cases [of "merge_lists st" k] by auto
  qed
qed

lemma dedup_nodes:
  assumes ok: "index_ok st" "no_redirection st" and n: "getNodeByKey st k = Some n"
  shows "\<exists>m. getNodeByKey (dedupNodes st) k = Some m \<and> getNodeByKey st (mn_path_item_key m) = Some m \<and>
    (m = n \<or> truthy (mn_trigram n) \<and> mn_trigram m = mn_trigram n) \<and>
    key_priority st (mn_path_item_key m) \<le> key_priority st k"
proof (cases "\<exists>g\<in>set (merge_lists st). k \<in> set (tl g)")
  case True
  then obtain g where g: "g \<in> set (merge_lists st)" "k \<in> set (tl g)" by blast
  then have "g \<noteq> []" by auto
  then obtain t where t: "set g = set (group_keys (indexed_trigrams st) t)" "sorted (map (key_priority st) g)"
    using merge_lists_member [OF g(1)] by blast
  have k: "k \<in> set g" and h: "hd g \<in> set g" using g(2) \<open>g \<noteq> []\<close> by (auto dest: in_set_tl)
  obtain m where m: "getNodeByKey st (hd g) = Some m" "mn_trigram m = Some t"
    using h group_keys_iff [OF ok, of "hd g" t] unfolding t(1) by blast
  have "mn_trigram n = Some t" "truthy (mn_trigram n)"
    using k n group_keys_iff [OF ok, of k t] unfolding t(1) by auto
  moreover have "key_priority st (hd g) \<le> key_priority st k"
    using t(2) k by (cases g) auto
  moreover have "mn_path_item_key m = hd g" using ok(2) m(1) by (simp add: no_redirection_def)
  ultimately show ?thesis
    using m main_key_of [OF ok g(1) k] by (simp add: dedup_lookup(2) [OF ok])
next
  case False
  then have "main_key (merge_lists st) k = k" using main_key_cases [of "merge_lists st" k] by blast
  then show ?thesis using n ok(2) by (auto simp: dedup_lookup(2) [OF ok] no_redirection_def)
qed

lemma dedup_unique:
  assumes ok: "index_ok st" "no_redirection st"
    and "getNodeByKey (dedupNodes st) a = Some m" "getNodeByKey (dedupNodes st) b = Some n"
    and "mn_trigram m = Some t" "mn_trigram n = Some t" "t \<noteq> []"
  shows "m = n"
proof -
  let ?ks = "group_keys (indexed_trigrams st) t"
  have m: "getNodeByKey st (main_key (merge_lists st) a) = Some m" and n: "getNodeByKey st (main_key (merge_lists st) b) = Some n"
    using assms(3,4) by (simp_all add: dedup_lookup(2) [OF ok])
  then have ks: "main_key (merge_lists st) a \<in> set ?ks" "main_key (merge_lists st) b \<in> set ?ks"
    using group_keys_iff [OF ok] assms(5-7) by (auto simp: truthy_def)
  show ?thesis
  proof (rule ccontr)
    assume "m \<noteq> n"
    then have "main_key (merge_lists st) a \<noteq> main_key (merge_lists st) b" using m n by auto
    then obtain g where g: "g \<in> set (merge_lists st)" "set g = set ?ks" using merge_lists_complete [OF ks] by blast
    have "main_key (merge_lists st) x = hd g" if "main_key (merge_lists st) x \<in> set g" for x
    proof (cases "main_key (merge_lists st) x = x")
      case True
      then show ?thesis using main_key_of [OF ok g(1), of x] that by simp
    next
      case False
      then obtain g' where g': "g' \<in> set (merge_lists st)" "x \<in> set (tl g')" "main_key (merge_lists st) x = hd g'" "hd g' \<in> set g'"
        using main_key_cases by blast
      then have "g' = g" using merge_lists_distinct [OF ok] g(1) that by (auto simp: distinct_concat_iff)
      then show ?thesis using g'(3) by simp
    qed
    then show False using ks g(2) \<open>main_key (merge_lists st) a \<noteq> main_key (merge_lists st) b\<close> by metis
  qed
qed

section \<open>The store of nodes as an interface\<close>

text \<open>What the loading of a timetable relies on: replacing the data of a known node under its own key is seen
  through every key that leads to the node, and nothing else changes.\<close>

locale node_store =
  fixes invar :: "'s \<Rightarrow> bool"
    and lookup :: "'s \<Rightarrow> 'k \<Rightarrow> 'n option"
    and key_of :: "'n \<Rightarrow> 'k"
    and id_of :: "'n \<Rightarrow> 'i"
    and put :: "'s \<Rightarrow> 'k \<Rightarrow> 'n \<Rightarrow> 's result"
  assumes put_known: "invar s \<Longrightarrow> lookup s (key_of n) = Some n \<Longrightarrow> key_of n' = key_of n \<Longrightarrow> id_of n' = id_of n \<Longrightarrow>
      \<exists>s'. put s (key_of n) n' = Inr s' \<and> invar s' \<and> (\<forall>x. lookup s' x = (if lookup s x = Some n then Some n' else lookup s x))"
    and own_key: "invar s \<Longrightarrow> lookup s x = Some n \<Longrightarrow> lookup s (key_of n) = Some n"
begin

definition update_node :: "'s \<Rightarrow> 'k \<Rightarrow> ('n \<Rightarrow> 'n) \<Rightarrow> 's result" where
  "update_node s k f = (case lookup s k of None \<Rightarrow> Inr s | Some n \<Rightarrow> put s k (f n))"

definition keeps_key :: "'k \<Rightarrow> ('n \<Rightarrow> 'n) \<Rightarrow> bool" where
  "keeps_key k f \<longleftrightarrow> (\<forall>n. key_of n = k \<longrightarrow> key_of (f n) = k \<and> id_of (f n) = id_of n)"

definition apply_update :: "'n \<Rightarrow> 'k \<times> ('n \<Rightarrow> 'n) \<Rightarrow> 'n" where
  "apply_update n u = (if key_of n = fst u then snd u n else n)"

lemma update_node_ok:
  assumes "invar s" "keeps_key k f" "\<And>n. lookup s k = Some n \<Longrightarrow> key_of n = k"
  shows "\<exists>s'. update_node s k f = Inr s' \<and> invar s' \<and> (\<forall>x. lookup s' x = map_option (\<lambda>n. apply_update n (k, f)) (lookup s x))"
proof (cases "lookup s k")
  case None
  have "apply_update n (k, f) = n" if "lookup s x = Some n" for x n
    using own_key [OF assms(1) that] None by (auto simp: apply_update_def)
  then have "map_option (\<lambda>n. apply_update n (k, f)) (lookup s x) = lookup s x" for x by (cases "lookup s x") auto
  then show ?thesis using None assms(1) by (simp add: update_node_def)
next
  case (Some n)
  then have k: "key_of n = k" by (rule assms(3))
  have "lookup s (key_of n) = Some n" "key_of (f n) = key_of n" "id_of (f n) = id_of n"
    using Some k assms(2) by (simp_all add: keeps_key_def)
  then obtain s' where s': "put s k (f n) = Inr s'" "invar s'" "\<forall>x. lookup s' x = (if lookup s x = Some n then Some (f n) else lookup s x)"
    using put_known [OF assms(1), of n "f n"] k by auto
  have "lookup s' x = map_option (\<lambda>n. apply_update n (k, f)) (lookup s x)" for x
  proof (cases "lookup s x")
    case (Some m)
    have "key_of m = k \<longleftrightarrow> m = n"
      using own_key [OF assms(1) Some] \<open>lookup s k = Some n\<close> k by (metis option.inject)
    then show ?thesis using s'(3) Some by (simp add: apply_update_def)
  qed (use s'(3) in simp)
  then show ?thesis using s' Some by (simp add: update_node_def)
qed

fun update_nodes :: "'s \<Rightarrow> ('k \<times> ('n \<Rightarrow> 'n)) list \<Rightarrow> 's result" where
  "update_nodes s [] = Inr s"
| "update_nodes s (u # us) = bind_result (update_node s (fst u) (snd u)) (\<lambda>s'. update_nodes s' us)"

lemma update_nodes_ok:
  assumes "invar s" "\<forall>(k, f)\<in>set us. keeps_key k f \<and> (\<forall>n. lookup s k = Some n \<longrightarrow> key_of n = k)"
  shows "\<exists>s'. update_nodes s us = Inr s' \<and> invar s' \<and> (\<forall>x. lookup s' x = map_option (\<lambda>n. foldl apply_update n us) (lookup s x))"
  using assms
proof (induction us arbitrary: s)
  case (Cons u us)
  obtain k f where u: "u = (k, f)" by (cases u)
  obtain s1 where s1: "update_node s k f = Inr s1" "invar s1" "\<And>x. lookup s1 x = map_option (\<lambda>n. apply_update n (k, f)) (lookup s x)"
    using update_node_ok [OF Cons.prems(1), of k f] Cons.prems(2) u by auto
  have keep: "key_of (apply_update n (k, f)) = key_of n" for n
    using Cons.prems(2) u by (auto simp: apply_update_def keeps_key_def)
  have "\<forall>(k, f)\<in>set us. keeps_key k f \<and> (\<forall>n. lookup s1 k = Some n \<longrightarrow> key_of n = k)"
    using Cons.prems(2) s1(3) keep by fastforce
  from Cons.IH [OF s1(2) this] show ?case
    using s1(1,3) by (auto simp: u option.map_comp comp_def)
qed (simp add: option.map_ident)

end

interpretation macro_nodes: node_store index_ok getNodeByKey mn_path_item_key mn_ngeId indexNodeByKey
proof unfold_locales
  fix st :: macro_state and n n' :: macro_node
  assume ok: "index_ok st" and n: "getNodeByKey st (mn_path_item_key n) = Some n"
    and same: "mn_path_item_key n' = mn_path_item_key n" "mn_ngeId n' = mn_ngeId n"
  obtain i where i: "map_of (ms_indexByPathKey st) (mn_path_item_key n) = Some i" "storage_node st i = Some n"
    using n by (auto simp: getNodeByKey_def bind_eq_Some_conv)
  have place: "getNodeByKey st x = Some n \<longleftrightarrow> map_of (ms_indexByPathKey st) x = Some i" for x
  proof
    assume "getNodeByKey st x = Some n"
    then obtain j where "map_of (ms_indexByPathKey st) x = Some j" "storage_node st j = Some n"
      by (auto simp: getNodeByKey_def bind_eq_Some_conv)
    then show "map_of (ms_indexByPathKey st) x = Some i" using index_okD(5) [OF ok, of j n] i(1) by simp
  qed (use i(2) in \<open>simp add: getNodeByKey_def\<close>)
  have "fits st (mn_path_item_key n) n'"
    using i index_okD(6) [OF ok i(2)] by (simp add: fits_def same)
  from indexNodeByKey_ok [OF ok this] show "\<exists>s'. indexNodeByKey st (mn_path_item_key n) n' = Inr s' \<and> index_ok s' \<and>
      (\<forall>x. getNodeByKey s' x = (if getNodeByKey st x = Some n then Some n' else getNodeByKey st x))"
    by (auto simp: place same i(1))
next
  fix st x n assume "index_ok st" "getNodeByKey st x = Some n"
  then show "getNodeByKey st (mn_path_item_key n) = Some n"
    using index_okD(5) by (fastforce simp: getNodeByKey_def bind_eq_Some_conv)
qed

lemma updateNodeDataByKey_update: "updateNodeDataByKey = macro_nodes.update_node"
  by (simp add: fun_eq_iff updateNodeDataByKey_def macro_nodes.update_node_def)

section \<open>Path keys\<close>

definition plain :: "char set \<Rightarrow> string \<Rightarrow> bool" where
  "plain seps s \<longleftrightarrow> set s \<inter> seps = {}"

fun key_fields_ok :: "location \<Rightarrow> bool" where
  "key_fields_ok (TrackOffset track offset _) \<longleftrightarrow> plain {CHR '':'', CHR ''+''} track"
| "key_fields_ok (OpPart (OpId i) _) \<longleftrightarrow> i \<noteq> [] \<and> plain {CHR '':''} i"
| "key_fields_ok (OpPart (OpTrigram t code) _) \<longleftrightarrow> t \<noteq> [] \<and> plain {CHR '':'', CHR ''/''} t \<and>
     (case code of None \<Rightarrow> True | Some c \<Rightarrow> c \<noteq> [] \<and> plain {CHR '':'', CHR ''/''} c)"
| "key_fields_ok (OpPart (OpUic uic code) _) \<longleftrightarrow>
     (case code of None \<Rightarrow> True | Some c \<Rightarrow> c \<noteq> [] \<and> plain {CHR '':'', CHR ''/''} c)"

fun without_track_name :: "location \<Rightarrow> location" where
  "without_track_name (TrackOffset track offset _) = TrackOffset track offset None"
| "without_track_name (OpPart op _) = OpPart op None"

lemma string_of_int_plain: "plain {CHR '':'', CHR ''/'', CHR ''+''} (string_of_int n)" "string_of_int n \<noteq> []"
  using string_of_nat_digits [of "nat \<bar>n\<bar>"]
  by (auto simp: string_of_int_def list_all_iff plain_def is_digit_def)

lemma whole_number_int: "whole_number (Some (string_of_int n)) = Inr n"
  by (simp add: whole_number_def js_number_string_of_int)

lemma split_pair:
  assumes "sep \<notin> set a" "sep \<notin> set b"
  shows "js_split sep (a @ sep # b) = [a, b]"
  using assms by (simp add: js_split_append js_split_no_sep)

lemma js_at_pair: "js_at [a, b] 1 = Some b" "js_at [a] 1 = None"
  by (simp_all add: js_at_def)

lemma split_code:
  assumes "CHR ''/'' \<notin> set t" "\<forall>c. code = Some c \<longrightarrow> c \<noteq> [] \<and> CHR ''/'' \<notin> set c"
  shows "hd (js_split (CHR ''/'') (t @ code_suffix code)) = t" "js_at (js_split (CHR ''/'') (t @ code_suffix code)) 1 = code"
  using assms by (cases code; simp add: code_suffix_def truthy_def split_pair js_split_no_sep js_at_pair)+

lemma getPathKey_kind:
  "getPathKey (TrackOffset track offset l) = ''track_offset'' @ CHR '':'' # track @ CHR ''+'' # string_of_int offset"
  "getPathKey (OpPart (OpTrigram t code) l) = ''trigram'' @ CHR '':'' # t @ code_suffix code"
  "getPathKey (OpPart (OpId i) l) = ''op_id'' @ CHR '':'' # i"
  "getPathKey (OpPart (OpUic uic code) l) = ''uic'' @ CHR '':'' # string_of_int uic @ code_suffix code"
  by simp_all

lemma parse_kind:
  assumes "CHR '':'' \<notin> set v" "v \<noteq> []"
  shows "parsePathKey (''op_id'' @ CHR '':'' # v) = Inr (OpPart (OpId v) None)"
    "parsePathKey (''trigram'' @ CHR '':'' # v) =
       (let vs = js_split (CHR ''/'') v in Inr (OpPart (OpTrigram (hd vs) (js_at vs 1)) None))"
    "parsePathKey (''uic'' @ CHR '':'' # v) =
       (let vs = js_split (CHR ''/'') v in
        bind_result (whole_number (Some (hd vs))) (\<lambda>uic. Inr (OpPart (OpUic uic (js_at vs 1)) None)))"
    "parsePathKey (''track_offset'' @ CHR '':'' # v) =
       (let vs = js_split (CHR ''+'') v in
        bind_result (whole_number (js_at vs 1)) (\<lambda>offset. Inr (TrackOffset (hd vs) offset None)))"
proof -
  have split: "js_split (CHR '':'') (kind @ CHR '':'' # v) = [kind, v]" if "CHR '':'' \<notin> set kind" for kind
    using split_pair [OF that assms(1)] .
  have v: "truthy (Some v)" using assms(2) by (simp add: truthy_def)
  show "parsePathKey (''op_id'' @ CHR '':'' # v) = Inr (OpPart (OpId v) None)"
    unfolding parsePathKey_def by (subst split, simp)+ (simp add: js_at_pair v)
  show "parsePathKey (''trigram'' @ CHR '':'' # v) =
       (let vs = js_split (CHR ''/'') v in Inr (OpPart (OpTrigram (hd vs) (js_at vs 1)) None))"
    unfolding parsePathKey_def by (subst split, simp)+ (simp add: js_at_pair v)
  show "parsePathKey (''uic'' @ CHR '':'' # v) =
       (let vs = js_split (CHR ''/'') v in
        bind_result (whole_number (Some (hd vs))) (\<lambda>uic. Inr (OpPart (OpUic uic (js_at vs 1)) None)))"
    unfolding parsePathKey_def by (subst split, simp)+ (simp add: js_at_pair v)
  show "parsePathKey (''track_offset'' @ CHR '':'' # v) =
       (let vs = js_split (CHR ''+'') v in
        bind_result (whole_number (js_at vs 1)) (\<lambda>offset. Inr (TrackOffset (hd vs) offset None)))"
    unfolding parsePathKey_def by (subst split, simp)+ (simp add: js_at_pair v)
qed

lemma path_key_parsed:
  assumes "key_fields_ok loc"
  shows "parsePathKey (getPathKey loc) = Inr (without_track_name loc)"
proof (cases loc)
  case (TrackOffset track offset l)
  have sep: "CHR ''+'' \<notin> set track" "CHR ''+'' \<notin> set (string_of_int offset)"
    "CHR '':'' \<notin> set (track @ CHR ''+'' # string_of_int offset)"
    using assms string_of_int_plain [of offset] by (auto simp: TrackOffset plain_def)
  show ?thesis
    using parse_kind(4) [OF sep(3)] split_pair [OF sep(1,2)]
    by (simp add: TrackOffset getPathKey_kind whole_number_int js_at_pair del: getPathKey.simps)
next
  case (OpPart op l)
  show ?thesis
  proof (cases op)
    case (OpId i)
    then show ?thesis using assms parse_kind(1) [of i] by (simp add: OpPart getPathKey_kind plain_def del: getPathKey.simps)
  next
    case (OpTrigram t code)
    have sep: "CHR '':'' \<notin> set (t @ code_suffix code)" "t @ code_suffix code \<noteq> []" "CHR ''/'' \<notin> set t"
      "\<forall>c. code = Some c \<longrightarrow> c \<noteq> [] \<and> CHR ''/'' \<notin> set c"
      using assms by (auto simp: OpPart OpTrigram plain_def code_suffix_def truthy_def split: option.splits)
    show ?thesis
      using parse_kind(2) [OF sep(1,2)] split_code [OF sep(3,4)]
      by (simp add: OpPart OpTrigram getPathKey_kind Let_def del: getPathKey.simps)
  next
    case (OpUic uic code)
    have sep: "CHR '':'' \<notin> set (string_of_int uic @ code_suffix code)" "string_of_int uic @ code_suffix code \<noteq> []"
      "CHR ''/'' \<notin> set (string_of_int uic)" "\<forall>c. code = Some c \<longrightarrow> c \<noteq> [] \<and> CHR ''/'' \<notin> set c"
      using assms string_of_int_plain [of uic]
      by (auto simp: OpPart OpUic plain_def code_suffix_def truthy_def split: option.splits)
    show ?thesis
      using parse_kind(3) [OF sep(1,2)] split_code [OF sep(3,4)]
      by (simp add: OpPart OpUic getPathKey_kind Let_def whole_number_int del: getPathKey.simps)
  qed
qed

section \<open>Properties\<close>

definition node_of :: "int \<Rightarrow> int option \<Rightarrow> string \<Rightarrow> string option \<Rightarrow> macro_node" where
  "node_of i db key tri =
     \<lparr>mn_ngeId = i, mn_dbId = db, mn_geocoord = None, mn_path_item_key = key, mn_trigram = tri, mn_full_name = None,
      mn_connection_time = 0, mn_labels = [''l''], mn_position_x = 0, mn_position_y = 0, mn_is_collapsed = False\<rparr>"

definition sample_state :: macro_state where
  "sample_state = (newMacroEditorState 1 2)
     \<lparr>ms_nodes := [Some (node_of 0 None ''trigram:AB/BV'' (Some ''AB/BV'')), None, Some (node_of 2 None ''op_id:x'' (Some ''AB/BV''))],
      ms_indexByPathKey := [(''trigram:AB/BV'', 0), (''op_id:x'', 2)], ms_indexByNgeId := [(0, 0), (2, 2)]\<rparr>"

lemma sample_ok: "index_ok sample_state" "no_redirection sample_state"
proof -
  have s: "storage_node sample_state i =
      (if i = 0 then Some (node_of 0 None ''trigram:AB/BV'' (Some ''AB/BV''))
       else if i = 2 then Some (node_of 2 None ''op_id:x'' (Some ''AB/BV'')) else None)" for i
    by (auto simp: storage_node_def sample_state_def less_Suc_eq numeral_2_eq_2 nth_Cons')
  have p: "ms_indexByPathKey sample_state = [(''trigram:AB/BV'', 0), (''op_id:x'', 2)]"
    "ms_indexByNgeId sample_state = [(0, 0), (2, 2)]"
    by (simp_all add: sample_state_def)
  show "index_ok sample_state"
    unfolding index_ok_def p s by (auto simp: node_of_def)
  show "no_redirection sample_state"
    unfolding no_redirection_def getNodeByKey_def p s by (auto simp: node_of_def s split: if_splits)
qed

text \<open>C5: the storage with its two indices implements a map from path keys to nodes. Storing a node that fits never
  throws, and moves the key it is stored under to the key the node carries; deleting by identifier
  removes the key of that node; looking up by identifier inverts the map. Nothing else changes.\<close>

theorem macro_index_refines:
  assumes "index_ok st" "no_redirection st" "fits st key node"
  shows "(\<exists>st'. indexNodeByKey st key node = Inr st' \<and> index_ok st' \<and> no_redirection st' \<and>
      getNodeByKey st' = (getNodeByKey st)(key := None, mn_path_item_key node \<mapsto> node)) \<and>
    index_ok (deleteNodeByNgeId st j) \<and> no_redirection (deleteNodeByNgeId st j) \<and>
    getNodeByKey (deleteNodeByNgeId st j) =
      (case getNodeByNgeId st j of None \<Rightarrow> getNodeByKey st | Some n \<Rightarrow> (getNodeByKey st)(mn_path_item_key n := None)) \<and>
    (\<forall>n. getNodeByNgeId st j = Some n \<longleftrightarrow> getNodeByKey st (mn_path_item_key n) = Some n \<and> mn_ngeId n = j)"
  using indexNodeByKey_refines [OF assms] deleteNodeByNgeId_refines [OF assms(1,2), of j]
    getNodeByNgeId_iff [OF assms(1)] by blast

theorem macro_index_refines_witness:
  "\<exists>st'. indexNodeByKey sample_state ''op_id:x'' (node_of 7 (Some 1) ''op_id:y'' None) = Inr st' \<and>
     getNodeByKey st' ''op_id:x'' = None \<and> getNodeByKey st' ''op_id:y'' = Some (node_of 7 (Some 1) ''op_id:y'' None) \<and>
     getNodeByKey st' ''trigram:AB/BV'' = Some (node_of 0 None ''trigram:AB/BV'' (Some ''AB/BV''))"
proof -
  have "fits sample_state ''op_id:x'' (node_of 7 (Some 1) ''op_id:y'' None)" by code_simp
  moreover have "getNodeByKey sample_state ''trigram:AB/BV'' = Some (node_of 0 None ''trigram:AB/BV'' (Some ''AB/BV''))" by code_simp
  ultimately show ?thesis using macro_index_refines [OF sample_ok] by (fastforce simp: node_of_def)
qed

text \<open>C16: after the removal of the duplicates every key that led to a node still leads to one, which has the
  same trigram and at most the priority value of that key (saved nodes first, then the kinds of keys), and no two
  nodes share a trigram; a node without trigram stays as it is. The indices stay consistent.\<close>

theorem dedup_correct:
  assumes "index_ok st" "no_redirection st"
  shows "index_ok (dedupNodes st) \<and>
    (\<forall>k n. getNodeByKey st k = Some n \<longrightarrow>
      (\<exists>m. getNodeByKey (dedupNodes st) k = Some m \<and> getNodeByKey st (mn_path_item_key m) = Some m \<and>
        (m = n \<or> truthy (mn_trigram n) \<and> mn_trigram m = mn_trigram n) \<and>
        key_priority st (mn_path_item_key m) \<le> key_priority st k)) \<and>
    (\<forall>a b m n t. getNodeByKey (dedupNodes st) a = Some m \<and> getNodeByKey (dedupNodes st) b = Some n \<and>
      mn_trigram m = Some t \<and> mn_trigram n = Some t \<and> t \<noteq> [] \<longrightarrow> m = n)"
  using dedup_lookup(1) [OF assms] dedup_nodes [OF assms] dedup_unique [OF assms] by blast

theorem dedup_correct_witness:
  "getNodeByKey (dedupNodes sample_state) ''trigram:AB/BV'' = getNodeByKey sample_state ''op_id:x''"
proof -
  have "getNodeByKey sample_state ''trigram:AB/BV'' = Some (node_of 0 None ''trigram:AB/BV'' (Some ''AB/BV''))" by code_simp
  then obtain m where "getNodeByKey (dedupNodes sample_state) ''trigram:AB/BV'' = Some m" "getNodeByKey sample_state (mn_path_item_key m) = Some m"
    using dedup_correct [OF sample_ok] by blast
  moreover have "dedupNodes sample_state = sample_state
     \<lparr>ms_nodes := [None, None, Some (node_of 2 None ''op_id:x'' (Some ''AB/BV''))],
      ms_indexByPathKey := [(''op_id:x'', 2), (''trigram:AB/BV'', 2)], ms_indexByNgeId := [(2, 2)]\<rparr>"
    by code_simp
  ultimately show ?thesis by (simp add: getNodeByKey_def storage_node_def sample_state_def)
qed

text \<open>The location of a path item is recovered from its key, without its local track name.\<close>

lemma path_key_roundtrip:
  assumes "key_fields_ok loc"
  shows "parsePathKey (getPathKey loc) = Inr (without_track_name loc)"
  using path_key_parsed [OF assms] .

text \<open>An identifier that holds the separator is cut at it.\<close>

lemma colon_truncates: "parsePathKey (getPathKey (OpPart (OpId ''a:b'') None)) = Inr (OpPart (OpId ''a'') None)"
  by code_simp

text \<open>The key of a part of an operational point is built from metres, the one of a path item from millimetres: the
  two agree only at the beginning of the track.\<close>

lemma part_key_unit:
  assumes "od_parts op = [(track, of_int p)]" 
  shows "getPathKey (TrackOffset track (1000 * p) None) \<in> set (getPathKeys op) \<longleftrightarrow> p = 0"
proof -
  have "string_of_int (1000 * p) = string_of_int p \<longleftrightarrow> p = 0" by (simp only: string_of_int_inject) auto
  then show ?thesis by (simp add: getPathKeys_def assms Let_def)
qed

end
