(* ===== verification/NgeRoundTrip.thy ===== *)
theory NgeRoundTrip
  imports NgeExport NgeOrder MacroProperties
begin

text \<open>
  A train that is exported to the netzgrafik editor and read back. The export numbers the sections of all trains
  one after the other; the section number \<open>s\<close> owns the ports \<open>2s + 1\<close> and \<open>2s + 2\<close>, and the transition at its
  source links the ports \<open>2s\<close> and \<open>2s + 1\<close>. From this the sections of a train form a chain that the
  import finds again, with the times and the stops that the export wrote.
\<close>

section \<open>What the export builds\<close>

definition trans_of :: "node_dto \<Rightarrow> (int \<times> int \<times> bool) set" where
  "trans_of n = (\<lambda>tr. (tr_port1Id tr, tr_port2Id tr, tr_isNonStopTransit tr)) ` set (no_transitions n)"

definition node_ids :: "(string \<times> node_dto) list \<Rightarrow> (string \<times> int) list" where
  "node_ids nodes = map (\<lambda>(k, n). (k, no_id n)) nodes"

text \<open>The transitions made so far, by number of section: \<open>(s, key, nonStop)\<close> is the transition at the source of
  section \<open>s\<close>.\<close>

definition export_inv :: "export_state \<Rightarrow> (string \<times> int) list \<Rightarrow> (int \<times> string \<times> bool) set \<Rightarrow> bool" where
  "export_inv es ids TT \<longleftrightarrow>
     es_portId es = 2 * es_sectionId es + 1 \<and> node_ids (es_nodes es) = ids \<and>
     (\<forall>k n. map_of (es_nodes es) k = Some n \<longrightarrow> trans_of n = {(2 * s, 2 * s + 1, f) |s f. (s, k, f) \<in> TT}) \<and>
     (\<forall>(s, k, f)\<in>TT. s < es_sectionId es)"

definition passes :: "'a train_schedule_scheme \<Rightarrow> nat \<Rightarrow> bool" where
  "passes item i \<longleftrightarrow> \<not> truthy (Option.bind (entry_at (ts_schedule item) (pi_id (ts_path item ! i))) si_stop_for)"

definition section_spec ::
  "(string \<Rightarrow> duration) \<Rightarrow> (string \<Rightarrow> date) \<Rightarrow> int \<Rightarrow> int \<Rightarrow> timetable_item \<Rightarrow> string list \<Rightarrow> (string \<times> int) list \<Rightarrow> int \<Rightarrow> nat \<Rightarrow>
   section_dto \<Rightarrow> bool" where
  "section_spec parse parseDate tz trainrunId item keys ids b i s \<longleftrightarrow>
     se_id s = b + int i \<and> se_sourcePortId s = 2 * (b + int i) + 1 \<and> se_targetPortId s = 2 * (b + int i) + 2 \<and>
     map_of ids (keys ! i) = Some (se_sourceNodeId s) \<and> map_of ids (keys ! (i + 1)) = Some (se_targetNodeId s) \<and>
     se_trainrunId s = trainrunId \<and>
     se_sourceDeparture s =
       (if i = 0 then createTimeLock tz (parseDate (ts_start_time item)) (parseDate (ts_start_time item))
        else createDepartureTimeLock parse tz (entry_at (ts_schedule item) (pi_id (ts_path item ! i))) (parseDate (ts_start_time item))) \<and>
     se_targetArrival s =
       createArrivalTimeLock parse tz (entry_at (ts_schedule item) (pi_id (ts_path item ! (i + 1)))) (parseDate (ts_start_time item))"

lemma map_of_update_dto: "map_of (update_dto key f nodes) k = (if k = key then map_option f (map_of nodes k) else map_of nodes k)"
  by (induction nodes) (auto simp: update_dto_def)

lemma node_ids_update_dto: "(\<And>n. no_id (f n) = no_id n) \<Longrightarrow> node_ids (update_dto key f nodes) = node_ids nodes"
  by (induction nodes) (auto simp: update_dto_def node_ids_def)

lemma map_of_node_ids: "map_of (node_ids nodes) k = map_option no_id (map_of nodes k)"
  by (induction nodes) (auto simp: node_ids_def)

lemma add_port_effect:
  "es_portId (add_port i key es) = es_portId es + 1" "es_sectionId (add_port i key es) = es_sectionId es"
  "node_ids (es_nodes (add_port i key es)) = node_ids (es_nodes es)"
  "map_of (es_nodes (add_port i key es)) k = Some n \<Longrightarrow> \<exists>n'. map_of (es_nodes es) k = Some n' \<and> trans_of n = trans_of n'"
  by (auto simp: add_port_def node_ids_update_dto map_of_update_dto trans_of_def split: if_splits)

lemma add_transition_effect:
  "es_portId (add_transition p q f key es) = es_portId es" "es_sectionId (add_transition p q f key es) = es_sectionId es"
  "node_ids (es_nodes (add_transition p q f key es)) = node_ids (es_nodes es)"
  "map_of (es_nodes (add_transition p q f key es)) k = Some n \<Longrightarrow>
     \<exists>n'. map_of (es_nodes es) k = Some n' \<and> trans_of n = (if k = key then insert (p, q, f) (trans_of n') else trans_of n')"
  by (auto simp: add_transition_def node_ids_update_dto map_of_update_dto trans_of_def split: if_splits)

lemma export_section_step:
  assumes e: "export_section parse parseDate tz r trainrunId item ret keys (es, prev) i = Inr (s, es', prev')"
    and inv: "export_inv es ids TT" and prev: "prev = (if i = 0 then None else Some (2 * es_sectionId es))"
  shows "export_inv es' ids (TT \<union> (if i = 0 then {} else {(es_sectionId es, keys ! i, passes item i)}))"
    "es_sectionId es' = es_sectionId es + 1" "prev' = Some (2 * es_sectionId es')"
    "section_spec parse parseDate tz trainrunId item keys ids (es_sectionId es - int i) i s" "ts_schedule item \<noteq> None"
proof -
  obtain sn tn schedule where n: "map_of (es_nodes es) (keys ! i) = Some sn" "map_of (es_nodes es) (keys ! (i + 1)) = Some tn"
    "ts_schedule item = Some schedule"
    using e by (simp add: export_section_def Let_def split: option.splits)
  obtain rs where rs: "return_entry ret (length (ts_path item) - 1 - i) = Inr rs"
    using e n by (cases "return_entry ret (length (ts_path item) - 1 - i)") (simp_all add: export_section_def Let_def)
  obtain rt where rt: "return_entry ret (length (ts_path item) - 1 - i - 1) = Inr rt"
    using e n rs by (cases "return_entry ret (length (ts_path item) - 1 - i - 1)") (simp_all add: export_section_def Let_def)
  obtain sd sa td ta where times: "section_times parse tz item schedule (parseDate (ts_start_time item))
      (map_option (\<lambda>r. parseDate (ts_start_time r)) ret) rs rt i = (sd, sa, td, ta)" by (metis prod_cases4)
  let ?e1 = "add_port (es_sectionId es) (keys ! Suc i) (add_port (es_sectionId es) (keys ! i) es)"
  let ?f = "\<not> truthy (Option.bind (entry_at (Some schedule) (pi_id (ts_path item ! i))) si_stop_for)"
  define e2 where "e2 = (case prev of None \<Rightarrow> ?e1 | Some p \<Rightarrow> add_transition p (es_portId es) ?f (keys ! i) ?e1)"
  have res: "es' = e2\<lparr>es_sectionId := es_sectionId e2 + 1\<rparr>" "prev' = Some (es_portId es + 1)"
    and s: "se_id s = es_sectionId es" "se_sourceNodeId s = no_id sn" "se_targetNodeId s = no_id tn" "se_sourcePortId s = es_portId es"
      "se_targetPortId s = es_portId es + 1" "se_trainrunId s = trainrunId" "se_sourceDeparture s = sd" "se_targetArrival s = ta"
    using e n rs rt times by (auto simp: export_section_def Let_def e2_def)
  have p: "es_portId es = 2 * es_sectionId es + 1" and ids: "node_ids (es_nodes es) = ids"
    and t: "\<And>k n. map_of (es_nodes es) k = Some n \<Longrightarrow> trans_of n = {(2 * s, 2 * s + 1, f) |s f. (s, k, f) \<in> TT}"
    and b: "\<And>s k f. (s, k, f) \<in> TT \<Longrightarrow> s < es_sectionId es"
    using inv by (auto simp: export_inv_def)
  have e2: "es_portId e2 = es_portId es + 2" "es_sectionId e2 = es_sectionId es" "node_ids (es_nodes e2) = ids"
    by (auto simp: e2_def add_port_effect add_transition_effect ids split: option.split)
  have t2: "trans_of n = {(2 * s, 2 * s + 1, f) |s f. (s, k, f) \<in> TT \<union> (if i = 0 then {} else {(es_sectionId es, keys ! i, ?f)})}"
    if kn: "map_of (es_nodes e2) k = Some n" for k n
  proof (cases "i = 0")
    case True
    then obtain n' where "map_of (es_nodes es) k = Some n'" "trans_of n = trans_of n'"
      using kn prev by (auto simp: e2_def dest!: add_port_effect(4))
    then show ?thesis using True t by simp
  next
    case False
    then obtain n' where "map_of (es_nodes es) k = Some n'"
      "trans_of n = (if k = keys ! i then insert (2 * es_sectionId es, 2 * es_sectionId es + 1, ?f) (trans_of n') else trans_of n')"
      using kn prev p by (auto simp: e2_def dest!: add_port_effect(4) add_transition_effect(4))
    then show ?thesis using False t [of k n'] by auto
  qed
  have f: "passes item i \<longleftrightarrow> ?f" by (simp add: passes_def n)
  show "export_inv es' ids (TT \<union> (if i = 0 then {} else {(es_sectionId es, keys ! i, passes item i)}))"
    unfolding export_inv_def f using t2 e2 p b by (auto simp: res dest: b)
  show "es_sectionId es' = es_sectionId es + 1" "prev' = Some (2 * es_sectionId es')" using res e2 p by simp_all
  show "ts_schedule item \<noteq> None" by (simp add: n)
  have "map_of ids (keys ! i) = Some (no_id sn)" "map_of ids (keys ! (i + 1)) = Some (no_id tn)"
    using n ids by (auto simp: map_of_node_ids)
  moreover have "sd = (if i = 0 then createTimeLock tz (parseDate (ts_start_time item)) (parseDate (ts_start_time item))
        else createDepartureTimeLock parse tz (entry_at (Some schedule) (pi_id (ts_path item ! i))) (parseDate (ts_start_time item)))"
    "ta = createArrivalTimeLock parse tz (entry_at (Some schedule) (pi_id (ts_path item ! (i + 1)))) (parseDate (ts_start_time item))"
    using times by (auto simp: section_times_def Let_def)
  ultimately show "section_spec parse parseDate tz trainrunId item keys ids (es_sectionId es - int i) i s"
    using p by (simp add: section_spec_def s n(3))
qed

definition item_transitions :: "int \<Rightarrow> timetable_item \<Rightarrow> string list \<Rightarrow> nat \<Rightarrow> nat \<Rightarrow> (int \<times> string \<times> bool) set" where
  "item_transitions b item keys a m = {(b + int i, keys ! i, passes item i) |i. a \<le> i \<and> i < m \<and> 0 < i}"

lemma export_sections_result:
  assumes "export_steps (export_section parse parseDate tz r trainrunId item ret keys) (es, prev) [a..<m] = Inr (secs, es', prev')"
    and "export_inv es ids TT" "prev = (if a = 0 then None else Some (2 * es_sectionId es))" "a \<le> m"
  shows "export_inv es' ids (TT \<union> item_transitions (es_sectionId es - int a) item keys a m) \<and>
    es_sectionId es' = es_sectionId es + int (m - a) \<and> length secs = m - a \<and>
    (\<forall>j<m - a. section_spec parse parseDate tz trainrunId item keys ids (es_sectionId es - int a) (a + j) (secs ! j)) \<and>
    (a < m \<longrightarrow> ts_schedule item \<noteq> None)"
  using assms
proof (induction "m - a" arbitrary: a es prev secs TT)
  case 0
  moreover have "item_transitions b item keys a m = {}" for b using 0 by (auto simp: item_transitions_def)
  ultimately show ?case by auto
next
  case (Suc d)
  then have am: "a < m" by simp
  then have upt: "[a..<m] = a # [Suc a..<m]" by (rule upt_conv_Cons)
  obtain s es1 prev1 rest where s: "export_section parse parseDate tz r trainrunId item ret keys (es, prev) a = Inr (s, es1, prev1)"
    and r: "export_steps (export_section parse parseDate tz r trainrunId item ret keys) (es1, prev1) [Suc a..<m] = Inr (rest, es', prev')"
    and secs: "secs = s # rest"
    using Suc.prems(1) by (auto simp: upt)
  note S = export_section_step [OF s Suc.prems(2,3)]
  have IH: "export_inv es' ids (TT \<union> (if a = 0 then {} else {(es_sectionId es, keys ! a, passes item a)}) \<union>
      item_transitions (es_sectionId es1 - int (Suc a)) item keys (Suc a) m) \<and>
    es_sectionId es' = es_sectionId es1 + int (m - Suc a) \<and> length rest = m - Suc a \<and>
    (\<forall>j<m - Suc a. section_spec parse parseDate tz trainrunId item keys ids (es_sectionId es1 - int (Suc a)) (Suc a + j) (rest ! j)) \<and>
    (Suc a < m \<longrightarrow> ts_schedule item \<noteq> None)"
    by (rule Suc.hyps(1) [OF _ r S(1)]) (use Suc.hyps(2) am S(3) in auto)
  have base: "es_sectionId es1 - int (Suc a) = es_sectionId es - int a" using S(2) by simp
  have TT: "TT \<union> (if a = 0 then {} else {(es_sectionId es, keys ! a, passes item a)}) \<union>
      item_transitions (es_sectionId es1 - int (Suc a)) item keys (Suc a) m =
    TT \<union> item_transitions (es_sectionId es - int a) item keys a m"
  proof -
    have "item_transitions b item keys a m =
        (if a = 0 then {} else {(b + int a, keys ! a, passes item a)}) \<union> item_transitions b item keys (Suc a) m" for b
      using am by (auto simp: item_transitions_def less_eq_Suc_le order.order_iff_strict [of a])
    then show ?thesis unfolding base by (auto split: if_splits)
  qed
  have "section_spec parse parseDate tz trainrunId item keys ids (es_sectionId es - int a) (a + j) (secs ! j)" if "j < m - a" for j
    using IH S(4) that unfolding base secs by (cases j) auto
  then show ?case using IH S(2,5) am unfolding TT by (simp add: secs)
qed

lemma export_item_result:
  assumes "export_item parse parseDate tz st es (index, item, ret) = Inr (secs, es')" "export_inv es ids TT"
  shows "\<exists>keys. map_result (path_node_key st) (ts_path item) = Inr keys \<and>
    export_inv es' ids (TT \<union> item_transitions (es_sectionId es) item keys 0 (length keys - 1)) \<and>
    es_sectionId es' = es_sectionId es + int (length keys - 1) \<and> length secs = length keys - 1 \<and>
    (\<forall>j<length keys - 1. section_spec parse parseDate tz (int index + 1) item keys ids (es_sectionId es) j (secs ! j))"
proof -
  obtain keys acc where k: "map_result (path_node_key st) (ts_path item) = Inr keys"
    "export_steps (export_section parse parseDate tz (ms_ngeResourceId st) (int index + 1) item ret keys) (es, None) [0..<length keys - 1] = Inr (secs, acc)"
    "es' = fst acc"
    using assms(1) by (auto simp: export_item_def)
  then show ?thesis
    using export_sections_result [OF _ assms(2), of parse parseDate tz "ms_ngeResourceId st" "int index + 1" item ret keys None 0
        "length keys - 1" secs "fst acc" "snd acc"] by auto
qed

lemma export_items_grow:
  assumes "export_steps (export_item parse parseDate tz st) es entries = Inr (grps, es')" "export_inv es ids TT"
  shows "\<exists>TT'. export_inv es' ids TT' \<and> TT \<subseteq> TT' \<and> (\<forall>x\<in>TT' - TT. es_sectionId es < fst x) \<and> es_sectionId es \<le> es_sectionId es' \<and>
    length grps = length entries"
  using assms
proof (induction entries arbitrary: es grps TT)
  case (Cons e entries)
  obtain index item ret where e: "e = (index, item, ret)" by (cases e)
  obtain secs es1 rest where i: "export_item parse parseDate tz st es (index, item, ret) = Inr (secs, es1)"
    and r: "export_steps (export_item parse parseDate tz st) es1 entries = Inr (rest, es')" and l: "grps = secs # rest"
    using Cons.prems(1) by (auto simp: e)
  obtain keys where k: "export_inv es1 ids (TT \<union> item_transitions (es_sectionId es) item keys 0 (length keys - 1))"
    "es_sectionId es1 = es_sectionId es + int (length keys - 1)" using export_item_result [OF i Cons.prems(2)] by blast
  obtain TT' where T: "export_inv es' ids TT'" "TT \<union> item_transitions (es_sectionId es) item keys 0 (length keys - 1) \<subseteq> TT'"
    "\<forall>x\<in>TT' - (TT \<union> item_transitions (es_sectionId es) item keys 0 (length keys - 1)). es_sectionId es1 < fst x"
    "es_sectionId es1 \<le> es_sectionId es'" "length rest = length entries"
    using Cons.IH [OF r k(1)] by blast
  have new: "es_sectionId es < fst x" if "x \<in> item_transitions (es_sectionId es) item keys 0 (length keys - 1)" for x
    using that by (auto simp: item_transitions_def)
  have "es_sectionId es \<le> es_sectionId es1" using k(2) by simp
  then have "\<forall>x\<in>TT' - TT. es_sectionId es < fst x" using T(3) new by (meson DiffE DiffI UnE order_le_less_trans)
  then show ?case using T k(2) l by (intro exI [of _ TT']) simp
qed auto

lemma export_items_result:
  assumes "export_steps (export_item parse parseDate tz st) es entries = Inr (grps, es')" "export_inv es ids TT"
    and "t < length entries" "entries ! t = (index, item, ret)"
  shows "\<exists>b keys TT'. map_result (path_node_key st) (ts_path item) = Inr keys \<and> length (grps ! t) = length keys - 1 \<and>
    (\<forall>j<length keys - 1. section_spec parse parseDate tz (int index + 1) item keys ids b j (grps ! t ! j)) \<and>
    export_inv es' ids TT' \<and>
    (\<forall>s k f. b \<le> s \<and> s \<le> b + int (length keys - 1) \<longrightarrow>
      ((s, k, f) \<in> TT' \<longleftrightarrow> (s, k, f) \<in> item_transitions b item keys 0 (length keys - 1)))"
  using assms
proof (induction entries arbitrary: es grps TT t)
  case (Cons e entries)
  obtain index1 item1 ret1 where e: "e = (index1, item1, ret1)" by (cases e)
  obtain secs es1 rest where i: "export_item parse parseDate tz st es (index1, item1, ret1) = Inr (secs, es1)"
    and r: "export_steps (export_item parse parseDate tz st) es1 entries = Inr (rest, es')" and l: "grps = secs # rest"
    using Cons.prems(1) by (auto simp: e)
  obtain keys where k: "map_result (path_node_key st) (ts_path item1) = Inr keys"
    "export_inv es1 ids (TT \<union> item_transitions (es_sectionId es) item1 keys 0 (length keys - 1))"
    "es_sectionId es1 = es_sectionId es + int (length keys - 1)" "length secs = length keys - 1"
    "\<forall>j<length keys - 1. section_spec parse parseDate tz (int index1 + 1) item1 keys ids (es_sectionId es) j (secs ! j)"
    using export_item_result [OF i Cons.prems(2)] by blast
  show ?case
  proof (cases t)
    case 0
    obtain TT' where T: "export_inv es' ids TT'" "TT \<union> item_transitions (es_sectionId es) item1 keys 0 (length keys - 1) \<subseteq> TT'"
      "\<forall>x\<in>TT' - (TT \<union> item_transitions (es_sectionId es) item1 keys 0 (length keys - 1)). es_sectionId es1 < fst x"
      using export_items_grow [OF r k(2)] by blast
    have old: "(s, q, f) \<notin> TT" if "es_sectionId es \<le> s" for s q f
      using Cons.prems(2) that by (force simp: export_inv_def)
    have "(s, q, f) \<in> TT' \<longleftrightarrow> (s, q, f) \<in> item_transitions (es_sectionId es) item1 keys 0 (length keys - 1)"
      if "es_sectionId es \<le> s" "s \<le> es_sectionId es + int (length keys - 1)" for s q f
      using T(2,3) old [OF that(1)] that(2) k(3) by force
    moreover have "item1 = item" "index1 = index" using Cons.prems(4) 0 e by auto
    ultimately show ?thesis using k T(1) 0 l by (intro exI [of _ "es_sectionId es"] exI [of _ keys] exI [of _ TT']) auto
  next
    case (Suc t')
    then show ?thesis using Cons.IH [OF r k(2), of t'] Cons.prems(3,4) l by simp
  qed
qed simp

section \<open>The sections of one train\<close>

lemma update_fresh: "k \<notin> fst ` set m \<Longrightarrow> AList.update k v m = m @ [(k, v)]"
  by (induction m) auto

lemma foldl_update_distinct:
  assumes "distinct (map f xs)" "f ` set xs \<inter> fst ` set m = {}"
  shows "foldl (\<lambda>m x. AList.update (f x) (g x) m) m xs = m @ map (\<lambda>x. (f x, g x)) xs"
  using assms by (induction xs arbitrary: m) (auto simp: update_fresh)

lemma distinct_compact:
  assumes "\<And>i j a b. i < length xs \<Longrightarrow> j < length xs \<Longrightarrow> xs ! i = Some a \<Longrightarrow> xs ! j = Some b \<Longrightarrow> f a = f b \<Longrightarrow> i = j"
  shows "distinct (map f (js_compact xs))"
  using assms
proof (induction xs)
  case (Cons x xs)
  have IH: "distinct (map f (js_compact xs))"
    using Cons.prems [of "Suc _" "Suc _"] by (intro Cons.IH) auto
  show ?case
  proof (cases x)
    case (Some a)
    have "f b \<noteq> f a" if "Some b \<in> set xs" for b
      using that Cons.prems [of 0 "Suc _" a b] Some by (auto simp: in_set_conv_nth)
    then have "f a \<notin> f ` set (js_compact xs)" by (metis imageE set_js_compact)
    then show ?thesis using IH Some by simp
  qed (use IH in simp)
qed simp

lemma stored_distinct:
  assumes "index_ok st"
  shows "distinct (map mn_path_item_key (js_compact (ms_nodes st)))" "distinct (map mn_ngeId (js_compact (ms_nodes st)))"
proof -
  have n: "storage_node st i = Some a" if "i < length (ms_nodes st)" "ms_nodes st ! i = Some a" for i a
    using that by (simp add: storage_node_def)
  show "distinct (map mn_path_item_key (js_compact (ms_nodes st)))"
    by (rule distinct_compact) (metis n index_okD(5) [OF assms] option.inject)
  show "distinct (map mn_ngeId (js_compact (ms_nodes st)))"
    by (rule distinct_compact) (metis n index_okD(6) [OF assms] option.inject)
qed

definition stored_ids :: "macro_state \<Rightarrow> (string \<times> int) list" where
  "stored_ids st = map (\<lambda>n. (mn_path_item_key n, mn_ngeId n)) (js_compact (ms_nodes st))"

lemma export_start:
  assumes "index_ok st"
  shows "export_inv \<lparr>es_portId = 1, es_transitionId = 1, es_sectionId = 0, es_nodes = cast_nodes st labels\<rparr> (stored_ids st) {}"
proof -
  have c: "cast_nodes st labels = map (\<lambda>n. (mn_path_item_key n, castNodeToNge st n labels)) (js_compact (ms_nodes st))"
    using foldl_update_distinct [OF stored_distinct(1) [OF assms], of "[]" "\<lambda>n. castNodeToNge st n labels"] by (simp add: cast_nodes_def)
  have "trans_of n = {}" if "map_of (cast_nodes st labels) k = Some n" for k n
    using map_of_SomeD [OF that] by (auto simp: c trans_of_def castNodeToNge_def)
  then show ?thesis by (simp add: export_inv_def node_ids_def stored_ids_def c castNodeToNge_def)
qed

lemma node_by_id:
  assumes "distinct (map snd (node_ids nodes))" "map_of nodes k = Some n"
  shows "getNodeById (map snd nodes) (no_id n) = Some n"
proof -
  have "(k, n) \<in> set nodes" using assms(2) by (rule map_of_SomeD)
  then obtain i where i: "i < length nodes" "snd (nodes ! i) = n" by (auto simp: in_set_conv_nth)
  have d: "distinct (map (\<lambda>x. no_id (snd x)) nodes)"
    using assms(1) by (simp add: node_ids_def comp_def case_prod_unfold)
  have "j = i" if "j < length nodes" "no_id (snd (nodes ! j)) = no_id n" for j
  proof -
    have "map (\<lambda>x. no_id (snd x)) nodes ! i = map (\<lambda>x. no_id (snd x)) nodes ! j" using that i by simp
    then show ?thesis using d that(1) i(1) by (metis length_map nth_eq_iff_index_eq)
  qed
  then have "find (\<lambda>x. no_id x = no_id n) (map snd nodes) = Some (map snd nodes ! i)"
    by (intro find_nth_unique) (simp_all add: i)
  then show ?thesis using i by (simp add: getNodeById_def)
qed

text \<open>The transition that a port belongs to: the ports of the transition of section \<open>s\<close> are \<open>2s\<close> and \<open>2s + 1\<close>.\<close>

lemma port_transition_of:
  assumes t: "trans_of n = {(2 * s, 2 * s + 1, f) |s f. (s, k, f) \<in> TT}" and p: "p = 2 * x \<or> p = 2 * x + (1::int)"
    and fn: "\<And>f f'. (x, k, f) \<in> TT \<Longrightarrow> (x, k, f') \<in> TT \<Longrightarrow> f = f'"
  shows "(\<forall>f. (x, k, f) \<notin> TT) \<Longrightarrow> port_transition n p = None"
    "(x, k, f) \<in> TT \<Longrightarrow> \<exists>tr. port_transition n p = Some tr \<and> tr_port1Id tr = 2 * x \<and> tr_port2Id tr = 2 * x + 1 \<and> tr_isNonStopTransit tr = f"
proof -
  have tr: "\<exists>s f. tr_port1Id tr = 2 * s \<and> tr_port2Id tr = 2 * s + 1 \<and> tr_isNonStopTransit tr = f \<and> (s, k, f) \<in> TT"
    if "tr \<in> set (no_transitions n)" for tr
    using that t unfolding trans_of_def by blast
  have match: "tr_port1Id tr = 2 * x \<and> tr_port2Id tr = 2 * x + 1 \<and> (x, k, tr_isNonStopTransit tr) \<in> TT"
    if h: "tr \<in> set (no_transitions n)" "tr_port1Id tr = p \<or> tr_port2Id tr = p" for tr
  proof -
    obtain s f where s: "tr_port1Id tr = 2 * s" "tr_port2Id tr = 2 * s + 1" "tr_isNonStopTransit tr = f" "(s, k, f) \<in> TT"
      using tr [OF h(1)] by blast
    have "2 * s = p \<or> 2 * s + 1 = p" using h(2) s(1,2) by simp
    then have "s = x" using p by presburger
    then show ?thesis using s by simp
  qed
  show "port_transition n p = None" if "\<forall>f. (x, k, f) \<notin> TT"
    unfolding port_transition_def find_None_iff using match that by blast
  show "\<exists>tr. port_transition n p = Some tr \<and> tr_port1Id tr = 2 * x \<and> tr_port2Id tr = 2 * x + 1 \<and> tr_isNonStopTransit tr = f"
    if h: "(x, k, f) \<in> TT"
  proof -
    have "(2 * x, 2 * x + 1, f) \<in> trans_of n" using h t by blast
    then have "\<exists>tr\<in>set (no_transitions n). tr_port1Id tr = p \<or> tr_port2Id tr = p" using p by (auto simp: trans_of_def)
    then have "port_transition n p \<noteq> None" unfolding port_transition_def find_None_iff by blast
    then obtain tr where tr: "port_transition n p = Some tr" by blast
    then have "tr \<in> set (no_transitions n)" "tr_port1Id tr = p \<or> tr_port2Id tr = p"
      by (auto simp: port_transition_def find_Some_iff)
    from match [OF this] show ?thesis using tr fn [OF h] by auto
  qed
qed

lemma filter_concat_tag:
  assumes "\<And>u s. u < length g \<Longrightarrow> s \<in> set (g ! u) \<Longrightarrow> tag s = a + int u" "t < length g"
  shows "filter (\<lambda>s. tag s = a + int t) (concat g) = g ! t"
  using assms
proof (induction g arbitrary: a t)
  case (Cons x g)
  have x: "tag s = a" if "s \<in> set x" for s using Cons.prems(1) [of 0 s] that by simp
  have g: "tag s = (a + 1) + int u" if "u < length g" "s \<in> set (g ! u)" for u s
    using Cons.prems(1) [of "Suc u" s] that by simp
  show ?case
  proof (cases t)
    case 0
    have "tag s \<noteq> a" if s: "s \<in> set (concat g)" for s
    proof -
      obtain ys where "ys \<in> set g" "s \<in> set ys" using s by auto
      then obtain u where "u < length g" "s \<in> set (g ! u)" by (metis in_set_conv_nth)
      then have "tag s = (a + 1) + int u" by (rule g)
      then show ?thesis by simp
    qed
    then have "filter (\<lambda>s. tag s = a) (concat g) = []" by (auto simp: filter_empty_conv)
    moreover have "filter (\<lambda>s. tag s = a) x = x" using x by (simp add: filter_id_conv)
    ultimately show ?thesis using 0 by simp
  next
    case (Suc t')
    have "filter (\<lambda>s. tag s = (a + 1) + int t') (concat g) = g ! t'"
      using Cons.prems(2) Suc g by (intro Cons.IH) auto
    moreover have "filter (\<lambda>s. tag s = a + int (Suc t')) x = []" using x by (auto simp: filter_empty_conv)
    ultimately show ?thesis using Suc by (simp add: add.assoc)
  qed
qed simp

definition item_node :: "macro_state \<Rightarrow> 'a train_schedule_scheme \<Rightarrow> nat \<Rightarrow> macro_node" where
  "item_node st item i = the (getNodeByKey st (getPathKey (pi_location (ts_path item ! i))))"

lemma exported_item:
  assumes ok: "index_ok st" and e: "getNgeTrainrunSectionsWithNodes parse parseDate tz st items labels = Inr (sections, nodes)"
    and t: "t < length items" "items ! t = (item, ret)"
  shows "\<exists>b keys TT es. nodes = map snd (es_nodes es) \<and> map_result (path_node_key st) (ts_path item) = Inr keys \<and>
    length (filter (\<lambda>s. se_trainrunId s = int t + 1) sections) = length keys - 1 \<and>
    (\<forall>j<length keys - 1. section_spec parse parseDate tz (int t + 1) item keys (stored_ids st) b j
        (filter (\<lambda>s. se_trainrunId s = int t + 1) sections ! j)) \<and>
    export_inv es (stored_ids st) TT \<and>
    (\<forall>s k f. b \<le> s \<and> s \<le> b + int (length keys - 1) \<longrightarrow>
      ((s, k, f) \<in> TT \<longleftrightarrow> (s, k, f) \<in> item_transitions b item keys 0 (length keys - 1)))"
proof -
  let ?es0 = "\<lparr>es_portId = 1, es_transitionId = 1, es_sectionId = 0, es_nodes = cast_nodes st labels\<rparr>"
  let ?entries = "zip [0..<length items] items"
  obtain grps es where g: "export_steps (export_item parse parseDate tz st) ?es0 ?entries = Inr (grps, es)"
    and r: "sections = concat grps" "nodes = map snd (es_nodes es)"
    using e by (auto simp: getNgeTrainrunSectionsWithNodes_def)
  note inv = export_start [OF ok, of labels]
  have len: "length grps = length items" using export_items_grow [OF g inv] by auto
  have tag: "se_trainrunId s = 1 + int u" if u: "u < length grps" "s \<in> set (grps ! u)" for u s
  proof -
    obtain it rt where it: "items ! u = (it, rt)" by (cases "items ! u")
    then have "?entries ! u = (u, it, rt)" "u < length ?entries" using u len by simp_all
    then obtain b keys where "length (grps ! u) = length keys - 1"
      "\<forall>j<length keys - 1. section_spec parse parseDate tz (int u + 1) it keys (stored_ids st) b j (grps ! u ! j)"
      using export_items_result [OF g inv, of u u it rt] by blast
    then show ?thesis using u(2) by (auto simp: in_set_conv_nth section_spec_def)
  qed
  have f: "filter (\<lambda>s. se_trainrunId s = int t + 1) sections = grps ! t"
    using filter_concat_tag [of grps se_trainrunId 1 t] tag t(1) len by (simp add: r add.commute)
  have "?entries ! t = (t, item, ret)" "t < length ?entries" using t by simp_all
  from export_items_result [OF g inv this(2,1)] show ?thesis unfolding f r(2) by blast
qed

lemma stored_id:
  assumes "index_ok st" "getNodeByKey st k = Some n"
  shows "map_of (stored_ids st) (mn_path_item_key n) = Some (mn_ngeId n)"
proof -
  obtain i where "i < length (ms_nodes st)" "ms_nodes st ! i = Some n"
    using assms(2) by (auto simp: getNodeByKey_def bind_eq_Some_conv storage_node_def split: if_splits)
  then have "n \<in> set (js_compact (ms_nodes st))" by (metis nth_mem set_js_compact)
  then show ?thesis
    using stored_distinct(1) [OF assms(1)] by (intro map_of_is_SomeI) (auto simp: stored_ids_def comp_def)
qed

lemma item_node_key:
  assumes "map_result (path_node_key st) (ts_path item) = Inr keys" "i < length (ts_path item)"
  shows "getNodeByKey st (getPathKey (pi_location (ts_path item ! i))) = Some (item_node st item i)"
    "keys ! i = mn_path_item_key (item_node st item i)"
  using map_result_nth [OF assms] by (auto simp: path_node_key_def item_node_def split: option.splits)

definition exported_sections ::
  "(string \<Rightarrow> duration) \<Rightarrow> (string \<Rightarrow> date) \<Rightarrow> int \<Rightarrow> macro_state \<Rightarrow> timetable_item \<Rightarrow> node_dto list \<Rightarrow> section_dto list \<Rightarrow> bool" where
  "exported_sections parse parseDate tz st item nodes ss \<longleftrightarrow>
     (let m = length (ts_path item) - 1; node = item_node st item; start = parseDate (ts_start_time item);
          entry = (\<lambda>i. entry_at (ts_schedule item) (pi_id (ts_path item ! i)))
      in length ss = m \<and> chain nodes ss \<and>
        (\<forall>j<m. se_sourceNodeId (ss ! j) = mn_ngeId (node j) \<and> se_targetNodeId (ss ! j) = mn_ngeId (node (j + 1)) \<and>
           se_sourceDeparture (ss ! j) =
             (if j = 0 then createTimeLock tz start start else createDepartureTimeLock parse tz (entry j) start) \<and>
           se_targetArrival (ss ! j) = createArrivalTimeLock parse tz (entry (j + 1)) start \<and>
           (\<exists>n. getNodeById nodes (mn_ngeId (node j)) = Some n) \<and>
           (\<exists>n. getNodeById nodes (mn_ngeId (node (j + 1))) = Some n \<and>
              (if j + 1 < m then \<exists>tr. port_transition n (se_targetPortId (ss ! j)) = Some tr \<and> tr_isNonStopTransit tr = passes item (j + 1)
               else port_transition n (se_targetPortId (ss ! j)) = None))))"

lemma getNodeById_id: "getNodeById nodes i = Some n \<Longrightarrow> no_id n = i"
  by (auto simp: getNodeById_def find_Some_iff)

lemma item_sections:
  assumes ok: "index_ok st" and e: "getNgeTrainrunSectionsWithNodes parse parseDate tz st items labels = Inr (sections, nodes)"
    and t: "t < length items" "items ! t = (item, ret)" and two: "2 \<le> length (ts_path item)"
  shows "exported_sections parse parseDate tz st item nodes (filter (\<lambda>s. se_trainrunId s = int t + 1) sections)"
proof -
  define ss where "ss = filter (\<lambda>s. se_trainrunId s = int t + 1) sections"
  define m where "m = length (ts_path item) - 1"
  obtain b keys TT es where nodes: "nodes = map snd (es_nodes es)" and keys: "map_result (path_node_key st) (ts_path item) = Inr keys"
    and len: "length ss = length keys - 1"
    and spec: "\<And>j. j < length keys - 1 \<Longrightarrow> section_spec parse parseDate tz (int t + 1) item keys (stored_ids st) b j (ss ! j)"
    and inv: "export_inv es (stored_ids st) TT"
    and TT: "\<And>s k f. b \<le> s \<Longrightarrow> s \<le> b + int (length keys - 1) \<Longrightarrow>
      ((s, k, f) \<in> TT \<longleftrightarrow> (s, k, f) \<in> item_transitions b item keys 0 (length keys - 1))"
    using exported_item [OF ok e t] unfolding ss_def by blast
  have m: "length keys - 1 = m" "0 < m" using map_result_length [OF keys] two by (auto simp: m_def)
  note node = item_node_key [OF keys]
  have key: "map_of (stored_ids st) (keys ! i) = Some (mn_ngeId (item_node st item i))" if "i \<le> m" for i
    using stored_id [OF ok node(1), of i] node(2) [of i] that two by (simp add: m_def)
  have dto: "\<exists>n. map_of (es_nodes es) (keys ! i) = Some n \<and> getNodeById nodes (mn_ngeId (item_node st item i)) = Some n \<and>
      trans_of n = {(2 * s, 2 * s + 1, f) |s f. (s, keys ! i, f) \<in> TT}" if i: "i \<le> m" for i
  proof -
    have ids: "node_ids (es_nodes es) = stored_ids st" using inv by (simp add: export_inv_def)
    then obtain n where n: "map_of (es_nodes es) (keys ! i) = Some n" "no_id n = mn_ngeId (item_node st item i)"
      using key [OF i] map_of_node_ids [of "es_nodes es" "keys ! i"] by (cases "map_of (es_nodes es) (keys ! i)") auto
    have "distinct (map snd (node_ids (es_nodes es)))"
      unfolding ids using stored_distinct(2) [OF ok] by (simp add: stored_ids_def comp_def)
    then have "getNodeById nodes (no_id n) = Some n" unfolding nodes using n(1) by (rule node_by_id)
    then show ?thesis using n inv by (simp add: export_inv_def)
  qed
  have tr: "(b + int x, k, f) \<in> TT \<longleftrightarrow> 0 < x \<and> x < m \<and> k = keys ! x \<and> f = passes item x" if "x \<le> m" for x k f
    using TT [of "b + int x" k f] that m by (auto simp: item_transitions_def)
  have spec': "se_id (ss ! j) = b + int j" "se_sourcePortId (ss ! j) = 2 * (b + int j) + 1" "se_targetPortId (ss ! j) = 2 * (b + int j) + 2"
    "se_sourceNodeId (ss ! j) = mn_ngeId (item_node st item j)" "se_targetNodeId (ss ! j) = mn_ngeId (item_node st item (j + 1))"
    if "j < m" for j
    using spec [of j] key [of j] key [of "j + 1"] that m by (auto simp: section_spec_def)
  have src: "source_port nodes (ss ! j) = (if j = 0 then None else Some (2 * (b + int j)))" if j: "j < m" for j
  proof -
    obtain n where n: "getNodeById nodes (mn_ngeId (item_node st item j)) = Some n"
      "trans_of n = {(2 * s, 2 * s + 1, f) |s f. (s, keys ! j, f) \<in> TT}" using dto [of j] j by auto
    note T = port_transition_of [OF n(2), of "2 * (b + int j) + 1" "b + int j"]
    show ?thesis
    proof (cases "j = 0")
      case True
      then have "port_transition n (2 * (b + int j) + 1) = None" using T(1) tr [of j] j by auto
      then show ?thesis using True n(1) spec'(2,4) [OF j] by (simp add: source_port_def findConnectedPortId_def)
    next
      case False
      then obtain tt where "port_transition n (2 * (b + int j) + 1) = Some tt" "tr_port1Id tt = 2 * (b + int j)"
        using T(2) [of "passes item j"] tr [of j] j by auto
      then show ?thesis using False n(1) spec'(2,4) [OF j] by (simp add: source_port_def findConnectedPortId_def)
    qed
  qed
  have len': "length ss = m" using len m by simp
  have "chain nodes ss"
    unfolding chain_def
  proof (intro conjI)
    show "ss \<noteq> []" using len' m(2) by auto
    show "distinct (map se_id ss)" "distinct (map se_targetPortId ss)"
      using spec'(1,3) len' by (auto simp: distinct_conv_nth)
    show "\<forall>s\<in>set ss. getNodeById nodes (se_sourceNodeId s) \<noteq> None"
      using dto spec'(4) len' by (auto simp: in_set_conv_nth) (metis less_imp_le option.discI)
    show "source_port nodes (hd ss) = None" using src [of 0] len' m(2) by (simp add: hd_conv_nth [of ss] flip: length_greater_0_conv)
    show "linked (\<lambda>a b. source_port nodes b = Some (se_targetPortId a)) ss"
      using src spec'(3) len' by (auto simp: linked_def)
  qed
  moreover have "\<exists>n. getNodeById nodes (mn_ngeId (item_node st item (j + 1))) = Some n \<and>
      (if j + 1 < m then \<exists>tr. port_transition n (se_targetPortId (ss ! j)) = Some tr \<and> tr_isNonStopTransit tr = passes item (j + 1)
       else port_transition n (se_targetPortId (ss ! j)) = None)" if j: "j < m" for j
  proof -
    obtain n where n: "getNodeById nodes (mn_ngeId (item_node st item (j + 1))) = Some n"
      "trans_of n = {(2 * s, 2 * s + 1, f) |s f. (s, keys ! (j + 1), f) \<in> TT}" using dto [of "j + 1"] j by auto
    have p: "se_targetPortId (ss ! j) = 2 * (b + int (j + 1))" using spec'(3) [OF j] by simp
    note T = port_transition_of [OF n(2), of "2 * (b + int (j + 1))" "b + int (j + 1)"]
    show ?thesis
      using n(1) T(1) T(2) [of "passes item (j + 1)"] tr [of "j + 1"] j unfolding p by (cases "j + 1 < m") auto
  qed
  moreover have "se_sourceDeparture (ss ! j) = (if j = 0 then createTimeLock tz (parseDate (ts_start_time item)) (parseDate (ts_start_time item))
        else createDepartureTimeLock parse tz (entry_at (ts_schedule item) (pi_id (ts_path item ! j))) (parseDate (ts_start_time item)))"
    "se_targetArrival (ss ! j) = createArrivalTimeLock parse tz (entry_at (ts_schedule item) (pi_id (ts_path item ! (j + 1)))) (parseDate (ts_start_time item))"
    if "j < m" for j
    using spec [of j] that m by (simp_all add: section_spec_def)
  moreover have "\<exists>n. getNodeById nodes (mn_ngeId (item_node st item j)) = Some n" if "j < m" for j
    using dto [of j] that by auto
  ultimately show ?thesis
    unfolding exported_sections_def Let_def ss_def [symmetric] m_def [symmetric] using len' spec' by blast
qed

section \<open>Reading the train back\<close>

text \<open>The entry of the schedule that the import makes of the step \<open>i\<close> of a train that was exported.\<close>

definition reimported_entry ::
  "(string \<Rightarrow> duration) \<Rightarrow> (duration \<Rightarrow> string) \<Rightarrow> macro_state \<Rightarrow> timetable_item \<Rightarrow> nat \<Rightarrow> schedule_item list" where
  "reimported_entry parse print st item i =
     (let entry = entry_at (ts_schedule item) (pi_id (ts_path item ! i));
          arrival = parse_duration parse (Option.bind entry si_arrival);
          stop = parse_duration parse (Option.bind entry si_stop_for);
          final = (i + 1 = length (ts_path item));
          stop_for = (if final then Some (print duration_zero) else map_option print stop)
      in if arrival = None \<and> \<not> final then []
         else [\<lparr>si_at = item_id (mn_ngeId (item_node st item i)) i, si_arrival = map_option print arrival,
                si_stop_for = stop_for, si_reception_signal = Some OPEN\<rparr>])"

definition reimported_path :: "macro_state \<Rightarrow> timetable_item \<Rightarrow> (nat \<Rightarrow> location) \<Rightarrow> path_item list" where
  "reimported_path st item loc =
     map (\<lambda>i. \<lparr>pi_id = item_id (mn_ngeId (item_node st item i)) i, pi_location = loc i\<rparr>) [0..<length (ts_path item)]"

lemma minutes_exact: "js_trunc (of_int d + (of_int x / of_int MINUTE_IN_MS - 0) * 60 * 1000) = d + x"
proof -
  have "of_int d + (of_int x / of_int MINUTE_IN_MS - 0) * 60 * 1000 = (of_int (d + x) :: num)"
    by (simp add: duration_defs)
  then show ?thesis unfolding js_trunc_def by simp
qed

lemma time_lock_date:
  assumes "tl_consecutiveTime startLock = Some 0"
  shows "getTimeLockDate (createTimeLock tz (s + x) s) startLock d = Some (d + x)"
    "getTimeLockDate DEFAULT_TIME_LOCK startLock d = None"
  using assms minutes_exact [of d x]
  by (simp_all add: getTimeLockDate_def createTimeLock_def DEFAULT_TIME_LOCK_def number_of_def duration_total_def duration_defs)

lemma arrival_date:
  assumes "tl_consecutiveTime startLock = Some 0"
  shows "getTimeLockDate (createArrivalTimeLock parse tz e s) startLock d =
      map_option (\<lambda>a. d + dur_ms a) (parse_duration parse (Option.bind e si_arrival))"
  by (cases "parse_duration parse (Option.bind e si_arrival)")
    (simp_all add: createArrivalTimeLock_def time_lock_date [OF assms] addDurationToDate_def)

lemma departure_date:
  assumes "tl_consecutiveTime startLock = Some 0"
  shows "getTimeLockDate (createDepartureTimeLock parse tz e s) startLock d =
      map_option (\<lambda>a. d + (dur_ms a + (case parse_duration parse (Option.bind e si_stop_for) of None \<Rightarrow> 0 | Some x \<Rightarrow> dur_ms x)))
        (parse_duration parse (Option.bind e si_arrival))"
proof (cases "parse_duration parse (Option.bind e si_arrival)")
  case (Some a)
  have "dur_ms duration_zero = 0" by (simp add: duration_zero_def duration_defs)
  then have "createDepartureTimeLock parse tz e s =
      createTimeLock tz (s + (dur_ms a + (case parse_duration parse (Option.bind e si_stop_for) of None \<Rightarrow> 0 | Some x \<Rightarrow> dur_ms x))) s"
    using Some by (simp add: createDepartureTimeLock_def addDurationToDate_def Let_def add.assoc split: option.split)
  then show ?thesis using Some by (simp add: time_lock_date [OF assms])
qed (simp add: createDepartureTimeLock_def time_lock_date [OF assms])

lemma print_difference: "formatDateDifferenceFrom print (d + a) (d + b) = print (Duration (b - a))"
  "formatDateDifferenceFrom print d (d + b) = print (Duration b)"
  by (simp_all add: formatDateDifferenceFrom_def duration_defs)

lemma section_entry:
  assumes n: "getNodeById nodes (section_to FORWARD s) = Some n"
    and stop: "(case port_transition n (se_targetPortId s) of None \<Rightarrow> True | Some tr \<Rightarrow> \<not> tr_isNonStopTransit tr) = stopT"
    and a: "getTimeLockDate (se_targetArrival s) (departure_lock FORWARD (hd ss)) d = arr"
    and dep: "(if j + 1 < length ss then getTimeLockDate (departure_lock FORWARD (ss ! (j + 1))) (departure_lock FORWARD (hd ss)) d
       else None) = dep"
  shows "schedule_of_section print ss nodes d FORWARD (j, s) =
    Inr (if arr = None \<and> dep = None then
           (if j + 1 = length ss
            then [\<lparr>si_at = item_id (section_to FORWARD s) (j + 1), si_arrival = None, si_stop_for = Some (print duration_zero),
                   si_reception_signal = Some OPEN\<rparr>] else [])
         else [\<lparr>si_at = item_id (section_to FORWARD s) (j + 1),
                si_arrival = Some (formatDateDifferenceFrom print d (case arr of Some a \<Rightarrow> a | None \<Rightarrow> the dep)),
                si_stop_for = (if stopT then Some (case dep of
                                  Some x \<Rightarrow> formatDateDifferenceFrom print (case arr of Some a \<Rightarrow> a | None \<Rightarrow> the dep) x
                                | None \<Rightarrow> print duration_zero) else None),
                si_reception_signal = Some OPEN\<rparr>])"
  unfolding schedule_of_section_def fst_conv snd_conv Let_def simp_thms(6) if_True n option.case(2) stop a dep
  by simp

lemma schedule_reimported:
  assumes x: "exported_sections parse parseDate tz st item nodes ss" and j: "j < length ss"
  shows "schedule_of_section print ss nodes d FORWARD (j, ss ! j) = Inr (reimported_entry parse print st item (j + 1))"
proof -
  define m where "m = length (ts_path item) - 1"
  note X = x [unfolded exported_sections_def Let_def m_def [symmetric]]
  have len: "length ss = m" and jm: "j < m" using X j by auto
  define e where "e = entry_at (ts_schedule item) (pi_id (ts_path item ! (j + 1)))"
  define arr where "arr = parse_duration parse (Option.bind e si_arrival)"
  define stp where "stp = parse_duration parse (Option.bind e si_stop_for)"
  have start: "tl_consecutiveTime (departure_lock FORWARD (hd ss)) = Some 0"
    using X jm len by (cases ss) (auto simp: departure_lock_def createTimeLock_def duration_total_def duration_defs)
  obtain n where n: "getNodeById nodes (section_to FORWARD (ss ! j)) = Some n"
    and tr: "if j + 1 < m then \<exists>tr. port_transition n (se_targetPortId (ss ! j)) = Some tr \<and> tr_isNonStopTransit tr = passes item (j + 1)
       else port_transition n (se_targetPortId (ss ! j)) = None"
    using X jm by (auto simp: section_to_def)
  have to: "section_to FORWARD (ss ! j) = mn_ngeId (item_node st item (j + 1))" using X jm by (simp add: section_to_def)
  have a: "getTimeLockDate (se_targetArrival (ss ! j)) (departure_lock FORWARD (hd ss)) d = map_option (\<lambda>a. d + dur_ms a) arr"
    using X jm by (simp add: arrival_date [OF start] arr_def e_def)
  have dep: "getTimeLockDate (departure_lock FORWARD (ss ! (j + 1))) (departure_lock FORWARD (hd ss)) d =
      map_option (\<lambda>a. d + (dur_ms a + (case stp of None \<Rightarrow> 0 | Some x \<Rightarrow> dur_ms x))) arr" if "j + 1 < m"
  proof -
    have "departure_lock FORWARD (ss ! (j + 1)) = createDepartureTimeLock parse tz e (parseDate (ts_start_time item))"
      using X that by (simp add: departure_lock_def e_def)
    then show ?thesis by (simp add: departure_date [OF start] arr_def stp_def)
  qed
  have stop: "(case port_transition n (se_targetPortId (ss ! j)) of None \<Rightarrow> True | Some tr \<Rightarrow> \<not> tr_isNonStopTransit tr) =
      (j + 1 < m \<longrightarrow> stp \<noteq> None)"
  proof (cases "j + 1 < m")
    case True
    then show ?thesis using tr by (auto simp: passes_def stp_def e_def parse_duration_def)
  qed (use tr in simp)
  have final: "j + 1 + 1 = length (ts_path item) \<longleftrightarrow> \<not> j + 1 < m" using jm by (auto simp: m_def)
  have dur: "print (Duration (dur_ms x)) = print x" for x by simp
  have D: "(if j + 1 < length ss then getTimeLockDate (departure_lock FORWARD (ss ! (j + 1))) (departure_lock FORWARD (hd ss)) d
      else None) =
    (if j + 1 < m then map_option (\<lambda>a. d + (dur_ms a + (case stp of None \<Rightarrow> 0 | Some x \<Rightarrow> dur_ms x))) arr else None)"
    unfolding len using dep by (cases "j + 1 < m") (simp_all only: if_True if_False)
  have R: "reimported_entry parse print st item (j + 1) =
     (if arr = None \<and> j + 1 < m then []
      else [\<lparr>si_at = item_id (mn_ngeId (item_node st item (j + 1))) (j + 1), si_arrival = map_option print arr,
             si_stop_for = (if \<not> j + 1 < m then Some (print duration_zero) else map_option print stp),
             si_reception_signal = Some OPEN\<rparr>])"
    unfolding reimported_entry_def Let_def e_def [symmetric] arr_def [symmetric] stp_def [symmetric] final not_not ..
  have last: "j + 1 = length ss \<longleftrightarrow> \<not> j + 1 < m" using jm len by auto
  show ?thesis
    unfolding section_entry [OF n stop a D] R to last
    by (cases arr; cases stp; cases "j + 1 < m") (simp_all add: print_difference)
qed

lemma exported_nodes:
  assumes "index_ok st" "getNgeTrainrunSectionsWithNodes parse parseDate tz st items labels = Inr (sections, nodes)"
    and "t < length items" "items ! t = (item, ret)" "i < length (ts_path item)"
  shows "getNodeByNgeId st (mn_ngeId (item_node st item i)) = Some (item_node st item i)"
proof -
  obtain keys where "map_result (path_node_key st) (ts_path item) = Inr keys" using exported_item [OF assms(1-4)] by blast
  from item_node_key(1) [OF this assms(5)] have "getNodeByKey st (mn_path_item_key (item_node st item i)) = Some (item_node st item i)"
    by (rule macro_nodes.own_key [OF assms(1)])
  then show ?thesis using getNodeByNgeId_iff [OF assms(1)] by blast
qed

lemma concat_pairs:
  assumes "0 < m"
  shows "concat (map (\<lambda>j. if j + 1 = m then [f j, f (j + 1)] else [f j]) [0..<m]) = map f [0..<Suc m]"
proof -
  obtain k where k: "m = Suc k" using assms by (cases m) auto
  have "concat (map (\<lambda>j. if j + 1 = m then [f j, f (j + 1)] else [f j]) [0..<i]) = map f [0..<i]" if "i \<le> k" for i
    using that by (induction i) (simp_all add: k)
  from this [of k] show ?thesis by (simp add: k)
qed

lemma map_result_zip:
  assumes "\<And>j. j < length xs \<Longrightarrow> f (j, xs ! j) = Inr (g j)"
  shows "map_result f (zip [0..<length xs] xs) = Inr (map g [0..<length xs])"
proof -
  have "map_result f (zip [0..<length xs] xs) = Inr (map (\<lambda>e. g (fst e)) (zip [0..<length xs] xs))"
    using assms by (intro map_result_total) (auto simp: set_zip)
  moreover have "map (\<lambda>e. g (fst e)) (zip [0..<length xs] xs) = map g [0..<length xs]"
    by (rule nth_equalityI) auto
  ultimately show ?thesis by simp
qed

lemma path_reimported:
  assumes x: "exported_sections parse parseDate tz st item nodes ss"
    and known: "\<And>i. i < length (ts_path item) \<Longrightarrow> getNodeByNgeId st' (mn_ngeId (item_node st item i)) = Some (item_node st item i)"
    and loc: "\<And>i. i < length (ts_path item) \<Longrightarrow> parsePathKey (mn_path_item_key (item_node st item i)) = Inr (loc i)"
    and two: "2 \<le> length (ts_path item)"
  shows "generatePath ss nodes FORWARD (Some st') = Inr (reimported_path st item loc)"
proof -
  define m where "m = length (ts_path item) - 1"
  define f where "f = (\<lambda>i. \<lparr>pi_id = item_id (mn_ngeId (item_node st item i)) i, pi_location = loc i\<rparr>)"
  note X = x [unfolded exported_sections_def Let_def m_def [symmetric]]
  have len: "length ss = m" using X by simp
  have m: "length (ts_path item) = Suc m" "0 < m" using two by (auto simp: m_def)
  have item: "createPathItemFromNode n i (Some st') = Inr (f i)"
    if "getNodeById nodes (mn_ngeId (item_node st item i)) = Some n" "i \<le> m" for n i
    using getNodeById_id [OF that(1)] known [of i] loc [of i] that(2) m(1)
    by (simp add: createPathItemFromNode_def f_def)
  have "path_of_section m nodes FORWARD (Some st') (j, ss ! j) = Inr (if j + 1 = m then [f j, f (j + 1)] else [f j])" if j: "j < m" for j
  proof -
    obtain n n' where n: "getNodeById nodes (mn_ngeId (item_node st item j)) = Some n"
      "getNodeById nodes (mn_ngeId (item_node st item (j + 1))) = Some n'" using X j by blast
    have "section_from FORWARD (ss ! j) = mn_ngeId (item_node st item j)" "section_to FORWARD (ss ! j) = mn_ngeId (item_node st item (j + 1))"
      using X j by (simp_all add: section_from_def section_to_def)
    then show ?thesis using item [OF n(1)] item [OF n(2)] n j by (auto simp: path_of_section_def)
  qed
  then have "map_result (path_of_section (length ss) nodes FORWARD (Some st')) (zip [0..<length ss] ss) =
      Inr (map (\<lambda>j. if j + 1 = m then [f j, f (j + 1)] else [f j]) [0..<length ss])"
    unfolding len by (intro map_result_zip [of ss, unfolded len]) simp
  then show ?thesis
    using concat_pairs [OF m(2), of f] by (simp add: generatePath_def len reimported_path_def m(1) f_def)
qed

lemma minute_kept: "set_minutes tz d (js_trunc (of_int (get_minutes tz d))) = d - (d + tz) mod MINUTE_IN_MS"
proof -
  have t: "js_trunc (of_int n) = n" for n by (simp add: js_trunc_def)
  have "(d + tz) div HOUR_IN_MS = (d + tz) div MINUTE_IN_MS div 60"
    by (simp add: HOUR_IN_MS_def MINUTE_IN_MS_def SECOND_IN_MS_def zdiv_zmult2_eq flip: mult.assoc)
  then have "(d + tz) div HOUR_IN_MS * HOUR_IN_MS + (d + tz) div MINUTE_IN_MS mod 60 * MINUTE_IN_MS = (d + tz) div MINUTE_IN_MS * MINUTE_IN_MS"
    by (simp add: HOUR_IN_MS_def flip: mult.assoc distrib_right)
  moreover have "(d + tz) div MINUTE_IN_MS * MINUTE_IN_MS = d + tz - (d + tz) mod MINUTE_IN_MS"
    by (rule minus_mod_eq_div_mult [symmetric])
  ultimately show ?thesis by (simp add: set_minutes_def get_minutes_def t)
qed

lemma roundtrip:
  assumes ok: "index_ok st" and e: "getNgeDto parse parseDate tz st items notes = Inr (dto, st')"
    and t: "t < length items" "items ! t = (item, ret)" "2 \<le> length (ts_path item)"
    and loc: "\<forall>i<length (ts_path item). parsePathKey (mn_path_item_key (item_node st item i)) = Inr (loc i)"
  shows "\<exists>sections. getContinuousTrainrunSectionsByTrainrunId dto (int t + 1) = Inr sections \<and>
    generatePathAndSchedule print printDate tz sections (nz_nodes dto) (parseDate (ts_start_time item)) FORWARD (Some st') =
      Inr \<lparr>gp_start_time = printDate (parseDate (ts_start_time item) - (parseDate (ts_start_time item) + tz) mod MINUTE_IN_MS),
           gp_path = reimported_path st item loc,
           gp_schedule = concat (map (reimported_entry parse print st item) [1..<length (ts_path item)])\<rparr>"
proof -
  obtain sections nodes runs where g: "getNgeTrainrunSectionsWithNodes parse parseDate tz st items (getNgeLabels st) = Inr (sections, nodes)"
    and r: "getNgeTrainruns parse st items (getNgeLabels st) = Inr (runs, st')"
    and dto: "nz_nodes dto = nodes" "nz_trainrunSections dto = sections"
    using e by (auto simp: getNgeDto_def Let_def)
  define ss where "ss = filter (\<lambda>s. se_trainrunId s = int t + 1) sections"
  have x: "exported_sections parse parseDate tz st item nodes ss"
    using item_sections [OF ok g t] by (simp add: ss_def)
  define m where "m = length (ts_path item) - 1"
  note X = x [unfolded exported_sections_def Let_def m_def [symmetric]]
  have len: "length ss = m" "chain nodes ss" "0 < m" using X t(3) by (auto simp: m_def)
  have c: "getContinuousTrainrunSectionsByTrainrunId dto (int t + 1) = Inr ss"
    using chain_ordered [of dto ss "int t + 1"] len(2) by (simp add: dto ss_def)
  let ?d = "parseDate (ts_start_time item)"
  have "departure_lock FORWARD (hd ss) = createTimeLock tz ?d ?d"
    using X len by (cases ss) (auto simp: departure_lock_def)
  then have start: "calculateStartDate tz ss ?d FORWARD = Inr (?d - (?d + tz) mod MINUTE_IN_MS)"
    using len by (cases ss) (simp_all add: calculateStartDate_def createTimeLock_def number_of_def minute_kept)
  have "getNodeByNgeId st' = getNodeByNgeId st"
    using r by (intro state_cong) (auto simp: getNgeTrainruns_def Let_def)
  then have p: "generatePath ss nodes FORWARD (Some st') = Inr (reimported_path st item loc)"
    using path_reimported [OF x, of st' loc] exported_nodes [OF ok g t(1,2)] loc t(3) by simp
  have "map_result (schedule_of_section print ss nodes d FORWARD) (zip [0..<length ss] ss) =
      Inr (map (\<lambda>j. reimported_entry parse print st item (j + 1)) [0..<length ss])" for d
    by (rule map_result_zip) (rule schedule_reimported [OF x])
  moreover have "map (\<lambda>j. reimported_entry parse print st item (j + 1)) [0..<m] = map (reimported_entry parse print st item) [1..<length (ts_path item)]"
    by (rule nth_equalityI) (auto simp: m_def)
  ultimately have "generateSchedule print ss nodes d FORWARD = Inr (concat (map (reimported_entry parse print st item) [1..<length (ts_path item)]))" for d
    by (simp add: generateSchedule_def len(1))
  then show ?thesis
    using c p start by (simp add: generatePathAndSchedule_def Let_def dto)
qed

section \<open>Properties\<close>

text \<open>C4: the sections of an exported train are found again as one continuous trainrun, and reading them back gives a
  train that starts at the same time rounded down to the minute, runs through the locations of the nodes of its steps,
  in order, and has the requested arrivals and the stops at them that the train had. The destination
  always gets a stop of length zero; a step without requested arrival is dropped from the schedule.\<close>

theorem export_import_roundtrip:
  assumes "index_ok st" "getNgeDto parse parseDate tz st items notes = Inr (dto, st')"
    and "t < length items" "items ! t = (item, ret)" "2 \<le> length (ts_path item)"
    and "\<forall>i<length (ts_path item). parsePathKey (mn_path_item_key (item_node st item i)) = Inr (loc i)"
  shows "\<exists>sections. getContinuousTrainrunSectionsByTrainrunId dto (int t + 1) = Inr sections \<and>
    generatePathAndSchedule print printDate tz sections (nz_nodes dto) (parseDate (ts_start_time item)) FORWARD (Some st') =
      Inr \<lparr>gp_start_time = printDate (parseDate (ts_start_time item) - (parseDate (ts_start_time item) + tz) mod MINUTE_IN_MS),
           gp_path = reimported_path st item loc,
           gp_schedule = concat (map (reimported_entry parse print st item) [1..<length (ts_path item)])\<rparr>"
  using roundtrip [OF assms] .

definition sample_item :: timetable_item where
  "sample_item = train_payload.extend
     (DEFAULT_TRAIN_SCHEDULE_PAYLOAD
       \<lparr>ts_path := [\<lparr>pi_id = ''a'', pi_location = OpPart (OpTrigram ''AB'' (Some ''BV'')) None\<rparr>,
                   \<lparr>pi_id = ''b'', pi_location = OpPart (OpId ''x'') None\<rparr>,
                   \<lparr>pi_id = ''c'', pi_location = OpPart (OpTrigram ''AB'' (Some ''BV'')) None\<rparr>],
        ts_schedule := Some [\<lparr>si_at = ''b'', si_arrival = Some ''2'', si_stop_for = Some ''1'', si_reception_signal = None\<rparr>]\<rparr>)
     (timetable_item.fields 5)"

definition macro_sample :: macro_state where
  "macro_sample = sample_state\<lparr>ms_trainrunFrequencies := DEFAULT_TRAINRUN_FREQUENCIES\<rparr>"

definition sample_parse :: "string \<Rightarrow> duration" where
  "sample_parse s = Duration (int (nat_of_string s) * MINUTE_IN_MS)"

definition sample_loc :: "nat \<Rightarrow> location" where
  "sample_loc i = (if i = 1 then OpPart (OpId ''x'') None else OpPart (OpTrigram ''AB'' (Some ''BV'')) None)"

theorem export_import_roundtrip_witness:
  "\<exists>dto st' sections.
    getNgeDto sample_parse (\<lambda>_. 7000) 0 macro_sample [(sample_item, None)] [] = Inr (dto, st') \<and>
    getContinuousTrainrunSectionsByTrainrunId dto 1 = Inr sections \<and>
    generatePathAndSchedule (\<lambda>d. string_of_int (dur_ms d div MINUTE_IN_MS)) (\<lambda>d. ''t'') 0 sections (nz_nodes dto) 7000 FORWARD (Some st') =
      Inr \<lparr>gp_start_time = ''t'', gp_path = reimported_path macro_sample sample_item sample_loc,
           gp_schedule = [\<lparr>si_at = ''2-1'', si_arrival = Some ''2'', si_stop_for = Some ''1'', si_reception_signal = Some OPEN\<rparr>,
                          \<lparr>si_at = ''0-2'', si_arrival = None, si_stop_for = Some ''0'', si_reception_signal = Some OPEN\<rparr>]\<rparr>"
proof -
  have ok: "index_ok macro_sample"
    using sample_ok(1) state_cong(1) [of macro_sample sample_state] by (simp add: macro_sample_def)
  have "\<not> isl (getNgeDto sample_parse (\<lambda>_. 7000) 0 macro_sample [(sample_item, None)] [])" by code_simp
  then obtain dto st' where e: "getNgeDto sample_parse (\<lambda>_. 7000) 0 macro_sample [(sample_item, None)] [] = Inr (dto, st')"
    by (cases "getNgeDto sample_parse (\<lambda>_. 7000) 0 macro_sample [(sample_item, None)] []") auto
  have loc: "\<forall>i<length (ts_path sample_item). parsePathKey (mn_path_item_key (item_node macro_sample sample_item i)) = Inr (sample_loc i)"
    by code_simp
  have len: "length (ts_path sample_item) = 3" by code_simp
  have sch: "concat (map (reimported_entry sample_parse (\<lambda>d. string_of_int (dur_ms d div MINUTE_IN_MS)) macro_sample sample_item) [1..<3]) =
      [\<lparr>si_at = ''2-1'', si_arrival = Some ''2'', si_stop_for = Some ''1'', si_reception_signal = Some OPEN\<rparr>,
       \<lparr>si_at = ''0-2'', si_arrival = None, si_stop_for = Some ''0'', si_reception_signal = Some OPEN\<rparr>]"
    by code_simp
  show ?thesis
    using export_import_roundtrip [OF ok e, of 0 sample_item None sample_loc "\<lambda>d. string_of_int (dur_ms d div MINUTE_IN_MS)" "\<lambda>d. ''t''"] e loc sch
    by (simp add: len)
qed

end
