(* ===== verification/MacroLoading.thy ===== *)
theory MacroLoading
  imports NgeRoundTrip
begin

text \<open>
  The loading of the macroscopic editor (\<open>loadAndIndexNge\<close>): from a new state the path items of the timetable, the
  operational points and the saved nodes are indexed one after the other, the duplicates are merged, the nodes are
  laid out and the ones the server does not have yet are created. Every step succeeds on the states that the
  earlier ones reach, so the loading throws only what a rejected request throws, and resolves every path item to a node the
  server knows.
\<close>

definition known_keys :: "macro_state \<Rightarrow> string set" where
  "known_keys st = {k. getNodeByKey st k \<noteq> None}"

text \<open>Before the duplicates are merged no key is redirected, and the identifiers given so far are below the counter.\<close>

definition loading :: "macro_state \<Rightarrow> int \<Rightarrow> bool" where
  "loading st n \<longleftrightarrow> index_ok st \<and> no_redirection st \<and> (\<forall>k m. getNodeByKey st k = Some m \<longrightarrow> mn_ngeId m < n)"

lemma loading_fits:
  assumes "loading st n" "getNodeByKey st key = None" "mn_ngeId node = n" "mn_path_item_key node = key"
  shows "fits st key node"
proof -
  have ok: "index_ok st" using assms(1) by (simp add: loading_def)
  have "map_of (ms_indexByNgeId st) n = None"
  proof (rule ccontr)
    assume "map_of (ms_indexByNgeId st) n \<noteq> None"
    then obtain i where "map_of (ms_indexByNgeId st) n = Some i" by blast
    moreover from this obtain m where "storage_node st i = Some m" "mn_ngeId m = n" using index_okD(4) [OF ok] by blast
    ultimately have "getNodeByNgeId st n = Some m" by (simp add: getNodeByNgeId_def)
    then show False using getNodeByNgeId_iff [OF ok] assms(1) by (auto simp: loading_def)
  qed
  then show ?thesis using assms(3,4) by (simp add: fits_def)
qed

lemma load_new_node:
  assumes "loading st n" "getNodeByKey st key = None" "mn_ngeId node = n" "mn_path_item_key node = key"
  shows "\<exists>st'. indexNodeByKey st key node = Inr st' \<and> loading st' (n + 1) \<and> known_keys st' = insert key (known_keys st)"
proof -
  obtain st' where st': "indexNodeByKey st key node = Inr st'" "index_ok st'" "no_redirection st'"
    and g: "getNodeByKey st' = (getNodeByKey st)(key := None, mn_path_item_key node \<mapsto> node)"
    using indexNodeByKey_refines [OF _ _ loading_fits [OF assms]] assms(1) by (auto simp: loading_def)
  have "loading st' (n + 1)"
    using st' assms(1,3) by (auto simp: loading_def g intro: less_imp_le split: if_splits)
  moreover have "known_keys st' = insert key (known_keys st)" using assms(4) by (auto simp: known_keys_def g)
  ultimately show ?thesis using st'(1) by blast
qed

lemma load_update:
  assumes "loading st n" "macro_nodes.keeps_key key f"
  shows "\<exists>st'. updateNodeDataByKey st key f = Inr st' \<and> loading st' n \<and> known_keys st' = known_keys st"
proof -
  have own: "mn_path_item_key m = k" if "getNodeByKey st k = Some m" for k m
    using assms(1) that by (simp add: loading_def no_redirection_def)
  have "index_ok st" using assms(1) by (simp add: loading_def)
  from macro_nodes.update_node_ok [OF this assms(2) own] obtain st' where st': "updateNodeDataByKey st key f = Inr st'" "index_ok st'"
    and g: "\<And>x. getNodeByKey st' x = map_option (\<lambda>m. macro_nodes.apply_update m (key, f)) (getNodeByKey st x)"
    by (auto simp: updateNodeDataByKey_update)
  have same: "mn_path_item_key (macro_nodes.apply_update m (key, f)) = mn_path_item_key m"
    "mn_ngeId (macro_nodes.apply_update m (key, f)) = mn_ngeId m" for m
    using assms(2) by (auto simp: macro_nodes.apply_update_def macro_nodes.keeps_key_def)
  have "loading st' n"
    using assms(1) st'(2) own by (auto simp: loading_def no_redirection_def g same)
  moreover have "known_keys st' = known_keys st" by (simp add: known_keys_def g)
  ultimately show ?thesis using st'(1) by blast
qed

lemma load_path_items:
  assumes "loading st n"
  shows "\<exists>st' n'. fold_result load_path_item (st, n) ps = Inr (st', n') \<and> loading st' n' \<and>
    known_keys st' = known_keys st \<union> (\<lambda>p. getPathKey (pi_location p)) ` set ps"
  using assms
proof (induction ps arbitrary: st n)
  case (Cons p ps)
  let ?key = "getPathKey (pi_location p)"
  have "\<exists>st1 n1. load_path_item (st, n) p = Inr (st1, n1) \<and> loading st1 n1 \<and> known_keys st1 = insert ?key (known_keys st)"
  proof (cases "getNodeByKey st ?key = None")
    case True
    then show ?thesis
      using load_new_node [OF Cons.prems True, of "\<lparr>mn_ngeId = n, mn_dbId = None, mn_geocoord = None, mn_path_item_key = ?key,
                 mn_trigram = location_trigram (pi_location p), mn_full_name = None, mn_connection_time = 0,
                 mn_labels = [], mn_position_x = of_int (n mod 8 * 200), mn_position_y = of_int (n div 8), mn_is_collapsed = False\<rparr>"]
      by (auto simp: load_path_item_def Let_def)
  next
    case False
    then have "known_keys st = insert ?key (known_keys st)" by (auto simp: known_keys_def)
    then show ?thesis using False Cons.prems by (auto simp: load_path_item_def Let_def)
  qed
  then obtain st1 n1 where 1: "load_path_item (st, n) p = Inr (st1, n1)" "loading st1 n1" "known_keys st1 = insert ?key (known_keys st)"
    by blast
  from Cons.IH [OF 1(2)] show ?case using 1 by auto
qed simp

lemma load_ops:
  assumes "loading st n"
  shows "\<exists>st'. fold_result load_op st ops = Inr st' \<and> loading st' n \<and> known_keys st' = known_keys st"
proof (rule fold_result_inv)
  fix s op assume s: "loading s n \<and> known_keys s = known_keys st"
  have keep: "macro_nodes.keeps_key k (op_data op)" for k by (simp add: macro_nodes.keeps_key_def op_data_def)
  have "\<exists>s'. updateNodeDataByKey s1 k (op_data op) = Inr s' \<and> loading s' n \<and> known_keys s' = known_keys st"
    if "loading s1 n \<and> known_keys s1 = known_keys st" for s1 k
    using load_update [of s1 n k, OF _ keep] that by auto
  then show "\<exists>s'. load_op s op = Inr s' \<and> loading s' n \<and> known_keys s' = known_keys st"
    unfolding load_op_def by (intro fold_result_inv [where P = "\<lambda>s. loading s n \<and> known_keys s = known_keys st"] s)
qed (simp add: assms)

lemma load_saved:
  assumes "loading st n"
  shows "\<exists>st' n'. fold_result load_saved_node (st, n) saved = Inr (st', n') \<and> loading st' n' \<and> known_keys st \<subseteq> known_keys st'"
  using assms
proof (induction saved arbitrary: st n)
  case (Cons m saved)
  have "\<exists>st1 n1. load_saved_node (st, n) m = Inr (st1, n1) \<and> loading st1 n1 \<and> known_keys st \<subseteq> known_keys st1"
  proof (cases "getNodeByKey st (mn_path_item_key m) = None")
    case True
    then show ?thesis
      using load_new_node [OF Cons.prems True, of "m\<lparr>mn_ngeId := n\<rparr>"] by (auto simp: load_saved_node_def)
  next
    case False
    have "macro_nodes.keeps_key (mn_path_item_key m) (saved_data m)" by (simp add: macro_nodes.keeps_key_def saved_data_def)
    from load_update [OF Cons.prems this] show ?thesis using False by (auto simp: load_saved_node_def)
  qed
  then obtain st1 n1 where 1: "load_saved_node (st, n) m = Inr (st1, n1)" "loading st1 n1" "known_keys st \<subseteq> known_keys st1" by blast
  from Cons.IH [OF 1(2)] show ?case using 1 by auto
qed auto

lemma fold_updates:
  "fold_result (\<lambda>s u. updateNodeDataByKey s (k u) (f u)) st us = macro_nodes.update_nodes st (map (\<lambda>u. (k u, f u)) us)"
  by (induction us arbitrary: st) (simp_all add: updateNodeDataByKey_update)

lemma updates_known:
  assumes "index_ok st" "\<And>u n. u \<in> set us \<Longrightarrow> getNodeByKey st (k u) = Some n \<Longrightarrow> mn_path_item_key n = k u"
    and "\<And>u n. mn_path_item_key (f u n) = mn_path_item_key n \<and> mn_ngeId (f u n) = mn_ngeId n"
  shows "\<exists>st'. fold_result (\<lambda>s u. updateNodeDataByKey s (k u) (f u)) st us = Inr st' \<and> index_ok st' \<and> known_keys st' = known_keys st \<and>
    (\<forall>x. getNodeByKey st' x = map_option (\<lambda>n. foldl (\<lambda>n u. if mn_path_item_key n = k u then f u n else n) n us) (getNodeByKey st x))"
proof -
  have fold: "foldl macro_nodes.apply_update n (map (\<lambda>u. (k u, f u)) us) = foldl (\<lambda>n u. if mn_path_item_key n = k u then f u n else n) n us" for n
    by (induction us arbitrary: n) (simp_all add: macro_nodes.apply_update_def)
  have "\<forall>(key, g)\<in>set (map (\<lambda>u. (k u, f u)) us). macro_nodes.keeps_key key g \<and> (\<forall>n. getNodeByKey st key = Some n \<longrightarrow> mn_path_item_key n = key)"
    using assms(2,3) by (auto simp: macro_nodes.keeps_key_def)
  from macro_nodes.update_nodes_ok [OF assms(1) this] show ?thesis
    unfolding fold_updates fold by (auto simp: known_keys_def)
qed

lemma store_nodes:
  assumes ok: "index_ok st" and created: "create (nodes_to_store st) = Inr us"
    and c: "map snd us = map mn_path_item_key (nodes_to_store st)" "\<forall>d\<in>fst ` set us. d \<noteq> 0"
  shows "\<exists>st'. storeTrainPathNodes st create = Inr st' \<and> index_ok st' \<and> known_keys st' = known_keys st \<and>
    (\<forall>x n. getNodeByKey st' x = Some n \<longrightarrow> \<not> not_saved n)"
proof -
  have stored: "n \<in> set (nodes_to_store st) \<longleftrightarrow> not_saved n \<and> getNodeByKey st (mn_path_item_key n) = Some n" for n
  proof -
    have "Some n \<in> set (ms_nodes st) \<longleftrightarrow> (\<exists>i. storage_node st i = Some n)"
      by (auto simp: storage_node_def in_set_conv_nth split: if_splits)
    also have "\<dots> \<longleftrightarrow> getNodeByKey st (mn_path_item_key n) = Some n"
      using index_okD(5) [OF ok] by (auto simp: getNodeByKey_def bind_eq_Some_conv)
    finally show ?thesis by (auto simp: nodes_to_store_def set_js_compact)
  qed
  show ?thesis
  proof (cases "nodes_to_store st = []")
    case True
    then have "\<not> not_saved n" if "getNodeByKey st x = Some n" for x n
      using stored [of n] macro_nodes.own_key [OF ok that] by auto
    then show ?thesis using True ok by (auto simp: storeTrainPathNodes_def)
  next
    case False
    let ?f = "\<lambda>n u. if mn_path_item_key n = snd u then n\<lparr>mn_dbId := Some (fst u)\<rparr> else n"
    have own: "mn_path_item_key n = snd u" if "u \<in> set us" "getNodeByKey st (snd u) = Some n" for u n
    proof -
      have "snd u \<in> set (map mn_path_item_key (nodes_to_store st))" using that(1) by (simp add: c(1) [symmetric])
      then obtain m where m: "m \<in> set (nodes_to_store st)" "snd u = mn_path_item_key m" by auto
      then show ?thesis using stored [of m] that(2) by simp
    qed
    have saved: "\<not> not_saved (foldl ?f n us)" if "\<forall>u\<in>set us. fst u \<noteq> 0" "not_saved n \<longrightarrow> mn_path_item_key n \<in> snd ` set us" for n and us :: "(int \<times> string) list"
      using that
    proof (induction us arbitrary: n)
      case (Cons u us)
      have "\<not> not_saved (?f n u) \<or> mn_path_item_key (?f n u) \<in> snd ` set us"
        using Cons.prems by (auto simp: not_saved_def)
      then show ?case using Cons.prems(1) by (simp only: foldl_Cons) (intro Cons.IH, auto)
    qed simp
    obtain st' where st': "fold_result (\<lambda>s u. updateNodeDataByKey s (snd u) (\<lambda>n. n\<lparr>mn_dbId := Some (fst u)\<rparr>)) st us = Inr st'"
      "index_ok st'" "known_keys st' = known_keys st"
      and g: "\<And>x. getNodeByKey st' x = map_option (\<lambda>n. foldl ?f n us) (getNodeByKey st x)"
      using updates_known [where st = st and us = us and k = snd and f = "\<lambda>u n. n\<lparr>mn_dbId := Some (fst u)\<rparr>", OF ok own] by auto
    have "storeTrainPathNodes st create = Inr st'"
      using False created st'(1) by (simp add: storeTrainPathNodes_def case_prod_unfold)
    moreover have "\<not> not_saved n'" if n': "getNodeByKey st' x = Some n'" for x n'
    proof -
      obtain n where n: "getNodeByKey st x = Some n" "n' = foldl ?f n us" using n' by (auto simp: g)
      have "mn_path_item_key n \<in> set (map snd us)" if "not_saved n"
        unfolding c(1) using stored [of n] macro_nodes.own_key [OF ok n(1)] that by auto
      then show ?thesis unfolding n(2) using c(2) by (intro saved) auto
    qed
    ultimately show ?thesis using st'(2,3) by blast
  qed
qed

lemma overlaps_nodes: "set (map pn_nodeData (avoidNodesOverlaps hypot nodes d f)) = set (map pn_nodeData nodes)"
proof -
  have "map pn_nodeData (foldl (push_away hypot d f c) acc ns) = map pn_nodeData acc @ map pn_nodeData ns" for c acc ns
    by (induction ns arbitrary: acc) (simp_all add: push_away_def Let_def)
  then show ?thesis by (simp add: avoidNodesOverlaps_def Let_def)
qed

lemma placed_node: "pn_nodeData (place_by_coordinates g n) = n"
  by (simp add: place_by_coordinates_def Let_def split: option.split)

lemma layout_ok:
  assumes ok: "index_ok st" and k: "(\<lambda>p. getPathKey (pi_location p)) ` set (concat (map ts_path items)) \<subseteq> known_keys st"
  shows "\<exists>st'. applyLayout hypot st items = Inr st' \<and> index_ok st' \<and> known_keys st' = known_keys st"
proof -
  let ?keys = "rev (remdups (rev (map (\<lambda>p. getPathKey (pi_location p)) (concat (map ts_path items)))))"
  have keys: "set ?keys = (\<lambda>p. getPathKey (pi_location p)) ` set (concat (map ts_path items))" by (simp only: set_rev set_remdups set_map)
  have "map_result (\<lambda>key. case getNodeByKey st key of None \<Rightarrow> Inl TypeError | Some n \<Rightarrow> Inr n) ?keys =
      Inr (map (\<lambda>key. the (getNodeByKey st key)) ?keys)"
  proof (rule map_result_total)
    fix key assume "key \<in> set ?keys"
    then have "getNodeByKey st key \<noteq> None" using k unfolding keys by (auto simp: known_keys_def)
    then show "(case getNodeByKey st key of None \<Rightarrow> Inl TypeError | Some n \<Rightarrow> Inr n) = Inr (the (getNodeByKey st key))" by auto
  qed
  note found = this
  have layout_set: "\<exists>ns. layout_nodes hypot st items = Inr ns \<and> set (map pn_nodeData ns) \<subseteq> (\<lambda>key. the (getNodeByKey st key)) ` set ?keys"
  proof -
    let ?ns = "map (\<lambda>key. the (getNodeByKey st key)) ?keys"
    let ?res = "avoidNodesOverlaps hypot (map (place_by_coordinates (filter (\<lambda>n. mn_geocoord n \<noteq> None) ?ns)) (filter not_saved ?ns)) 100 2"
    have "map pn_nodeData (map (place_by_coordinates g) xs) = xs" for g xs by (induction xs) (simp_all add: placed_node)
    then have "set (map pn_nodeData ?res) = set (filter not_saved ?ns)" by (simp only: overlaps_nodes)
    moreover have "set (filter not_saved ?ns) \<subseteq> (\<lambda>key. the (getNodeByKey st key)) ` set ?keys" by (simp only: set_filter set_map) blast
    moreover have "layout_nodes hypot st items = Inr ?res" unfolding layout_nodes_def found by (simp only: bind_result.simps Let_def)
    ultimately show ?thesis by blast
  qed
  then obtain ns where ns: "layout_nodes hypot st items = Inr ns"
    and n: "set (map pn_nodeData ns) \<subseteq> (\<lambda>key. the (getNodeByKey st key)) ` set ?keys"
    using layout_set by blast
  have own: "mn_path_item_key m = mn_path_item_key (pn_nodeData u)"
    if u: "u \<in> set ns" "getNodeByKey st (mn_path_item_key (pn_nodeData u)) = Some m" for u m
  proof -
    obtain key where "key \<in> set ?keys" "pn_nodeData u = the (getNodeByKey st key)"
      using n u(1) unfolding set_map [of pn_nodeData] by blast
    moreover have "getNodeByKey st key \<noteq> None" using k calculation(1) unfolding keys by (auto simp: known_keys_def)
    ultimately have "getNodeByKey st (mn_path_item_key (pn_nodeData u)) = Some (pn_nodeData u)"
      using macro_nodes.own_key [OF ok] by auto
    then show ?thesis using u(2) by simp
  qed
  show ?thesis
    using updates_known [where st = st and us = ns and k = "\<lambda>u. mn_path_item_key (pn_nodeData u)" and
        f = "\<lambda>u node. node\<lparr>mn_position_x := pn_x u, mn_position_y := pn_y u\<rparr>", OF ok own]
    by (auto simp: applyLayout_def ns)
qed

lemma load_notes_fields:
  "ms_nodes (foldl load_note st ns) = ms_nodes st \<and> ms_indexByPathKey (foldl load_note st ns) = ms_indexByPathKey st \<and>
   ms_indexByNgeId (foldl load_note st ns) = ms_indexByNgeId st"
  by (induction ns arbitrary: st) (simp_all add: load_note_def setDbIdForNote_def Let_def)

lemma loading_notes: "loading (foldl load_note st notes) n = loading st n" "known_keys (foldl load_note st notes) = known_keys st"
  using state_cong [of "foldl load_note st notes" st] load_notes_fields [of st "notes"]
  by (simp_all add: loading_def known_keys_def)

text \<open>The server answers the creation of nodes with one nonzero identifier per node, in their order.\<close>

definition creates_nodes :: "(macro_node list \<Rightarrow> (int \<times> string) list result) \<Rightarrow> bool" where
  "creates_nodes create \<longleftrightarrow>
     (\<forall>ns us. create ns = Inr us \<longrightarrow> map snd us = map mn_path_item_key ns \<and> (\<forall>d\<in>fst ` set us. d \<noteq> 0))"

lemma load_nodes:
  "\<exists>st'. loadAndIndexNge parse uniqueTrain intervalXmin categories (Inr saved) hypot create (newMacroEditorState a b) items notes =
      storeTrainPathNodes st' create \<and> index_ok st' \<and> (\<lambda>p. getPathKey (pi_location p)) ` set (concat (map ts_path items)) \<subseteq> known_keys st'"
proof -
  let ?st1 = "foldl load_note (newMacroEditorState a b) notes" and ?ps = "concat (map ts_path items)"
  have "loading (newMacroEditorState a b) 0"
    using index_new [of a b] by (simp add: loading_def getNodeByKey_def newMacroEditorState_def)
  then obtain st2 n2 where 2: "fold_result load_path_item (?st1, 0) ?ps = Inr (st2, n2)" "loading st2 n2"
    "(\<lambda>p. getPathKey (pi_location p)) ` set ?ps \<subseteq> known_keys st2"
    using load_path_items [of ?st1 0 ?ps] by (auto simp: loading_notes)
  obtain st3 where 3: "fold_result load_op st2 (concat (concat (map to_pathOps items))) = Inr st3" "loading st3 n2" "known_keys st3 = known_keys st2"
    using load_ops [OF 2(2)] by blast
  obtain st4 n4 where 4: "fold_result load_saved_node (st3, n2) saved = Inr (st4, n4)" "loading st4 n4" "known_keys st3 \<subseteq> known_keys st4"
    using load_saved [OF 3(2)] by blast
  have ok4: "index_ok st4" "no_redirection st4" using 4(2) by (simp_all add: loading_def)
  have "getNodeByKey (dedupNodes st4) k \<noteq> None" if "getNodeByKey st4 k = Some n" for k n
    using dedup_nodes [OF ok4 that] by auto
  then have 5: "index_ok (dedupNodes st4)" "known_keys st4 \<subseteq> known_keys (dedupNodes st4)"
    using dedup_lookup(1) [OF ok4] by (auto simp: known_keys_def)
  define st5 where "st5 = (dedupNodes st4)\<lparr>ms_trainrunLabels :=
                      foldl set_add (ms_trainrunLabels (dedupNodes st4))
                        (concat (map (\<lambda>item. case ts_labels item of None \<Rightarrow> [] | Some ls \<Rightarrow> ls) items)),
                    ms_trainrunFrequencies :=
                      getNgeTrainrunFrequencies parse uniqueTrain intervalXmin (map timetable_item.truncate items),
                    ms_trainrunCategories := categories\<rparr>"
  have "index_ok st5" "known_keys st5 = known_keys (dedupNodes st4)"
    using state_cong [of st5 "dedupNodes st4"] 5(1) by (simp_all add: st5_def known_keys_def)
  moreover from this have k5: "(\<lambda>p. getPathKey (pi_location p)) ` set ?ps \<subseteq> known_keys st5" using 2(3) 3(3) 4(3) 5(2) by blast
  ultimately obtain st6 where 6: "applyLayout hypot st5 items = Inr st6" "index_ok st6" "known_keys st6 = known_keys st5"
    using layout_ok by blast
  have "loadAndIndexNge parse uniqueTrain intervalXmin categories (Inr saved) hypot create (newMacroEditorState a b) items notes =
      storeTrainPathNodes st6 create"
    unfolding loadAndIndexNge_def Let_def 2(1) bind_result.simps fst_conv snd_conv 3(1) 4(1) st5_def [symmetric] 6(1) ..
  then show ?thesis using 6(2) k5 unfolding 6(3) [symmetric] by blast
qed

lemma load_rejected:
  assumes "getAllMacroNodes = Inl e"
  shows "loadAndIndexNge parse uniqueTrain intervalXmin categories getAllMacroNodes hypot create (newMacroEditorState a b) items notes = Inl e"
proof -
  let ?st1 = "foldl load_note (newMacroEditorState a b) notes" and ?ps = "concat (map ts_path items)"
  have "loading (newMacroEditorState a b) 0"
    using index_new [of a b] by (simp add: loading_def getNodeByKey_def newMacroEditorState_def)
  then obtain st2 n2 where 2: "fold_result load_path_item (?st1, 0) ?ps = Inr (st2, n2)" "loading st2 n2"
    using load_path_items [of ?st1 0 ?ps] by (auto simp: loading_notes)
  obtain st3 where 3: "fold_result load_op st2 (concat (concat (map to_pathOps items))) = Inr st3"
    using load_ops [OF 2(2)] by blast
  show ?thesis unfolding loadAndIndexNge_def Let_def 2(1) bind_result.simps fst_conv snd_conv 3 assms ..
qed

lemma load_outcome:
  assumes "creates_nodes create"
  shows "case loadAndIndexNge parse uniqueTrain intervalXmin categories getAllMacroNodes hypot create (newMacroEditorState a b) items notes of
      Inl e \<Rightarrow> getAllMacroNodes = Inl e \<or> (\<exists>ns. ns \<noteq> [] \<and> create ns = Inl e)
    | Inr st' \<Rightarrow> index_ok st' \<and>
        (\<forall>item\<in>set items. \<forall>p\<in>set (ts_path item). \<exists>n. getNodeByKey st' (getPathKey (pi_location p)) = Some n \<and> \<not> not_saved n)"
proof (cases getAllMacroNodes)
  case (Inl e)
  then show ?thesis by (simp add: load_rejected)
next
  case (Inr saved)
  obtain st where st: "loadAndIndexNge parse uniqueTrain intervalXmin categories (Inr saved) hypot create (newMacroEditorState a b) items notes =
      storeTrainPathNodes st create" "index_ok st" "(\<lambda>p. getPathKey (pi_location p)) ` set (concat (map ts_path items)) \<subseteq> known_keys st"
    using load_nodes by blast
  show ?thesis
  proof (cases "nodes_to_store st \<noteq> [] \<and> isl (create (nodes_to_store st))")
    case True
    then obtain e where "create (nodes_to_store st) = Inl e" by (auto simp: isl_def)
    with True have "storeTrainPathNodes st create = Inl e" by (simp add: storeTrainPathNodes_def)
    then show ?thesis using True \<open>create (nodes_to_store st) = Inl e\<close> unfolding Inr st(1) by auto
  next
    case False
    have "\<exists>st7. storeTrainPathNodes st create = Inr st7 \<and> index_ok st7 \<and> known_keys st7 = known_keys st \<and>
        (\<forall>x n. getNodeByKey st7 x = Some n \<longrightarrow> \<not> not_saved n)"
    proof (cases "nodes_to_store st = []")
      case True
      with store_nodes [OF st(2), of "\<lambda>_. Inr []" "[]"] show ?thesis by (simp add: storeTrainPathNodes_def)
    next
      case nodes: False
      with False obtain us where us: "create (nodes_to_store st) = Inr us" by (cases "create (nodes_to_store st)") auto
      with assms store_nodes [of st create us, OF st(2)] show ?thesis unfolding creates_nodes_def by blast
    qed
    then obtain st7 where 7: "storeTrainPathNodes st create = Inr st7" "index_ok st7" "known_keys st7 = known_keys st"
      "\<forall>x n. getNodeByKey st7 x = Some n \<longrightarrow> \<not> not_saved n" by blast
    have "\<exists>n. getNodeByKey st7 (getPathKey (pi_location p)) = Some n \<and> \<not> not_saved n" if p: "item \<in> set items" "p \<in> set (ts_path item)" for item p
    proof -
      have "getPathKey (pi_location p) \<in> known_keys st7" using st(3) p unfolding 7(3) by auto
      then show ?thesis using 7(4) by (auto simp: known_keys_def)
    qed
    then show ?thesis unfolding Inr st(1) 7(1) using 7(2) by simp
  qed
qed

text \<open>C8: loading the macroscopic editor from a new state, whatever the timetable, the saved nodes and the notes, throws
  only what a rejected request throws: the one that reads the saved nodes, or the one that creates the nodes that are
  missing. When both are answered it returns, the index of the nodes it builds is consistent, and the key of every path item of every train resolves
  to a node that is saved on the server. The creation of nodes must answer, when it does, with one nonzero identifier per
  node, in order.\<close>

theorem loading_resolves:
  assumes "creates_nodes create"
  shows "case loadAndIndexNge parse uniqueTrain intervalXmin categories getAllMacroNodes hypot create (newMacroEditorState a b) items notes of
      Inl e \<Rightarrow> getAllMacroNodes = Inl e \<or> (\<exists>ns. ns \<noteq> [] \<and> create ns = Inl e)
    | Inr st' \<Rightarrow> index_ok st' \<and>
        (\<forall>item\<in>set items. \<forall>p\<in>set (ts_path item). \<exists>n. getNodeByKey st' (getPathKey (pi_location p)) = Some n \<and> \<not> not_saved n)"
  using load_outcome [OF assms] .

definition sample_create :: "macro_node list \<Rightarrow> (int \<times> string) list result" where
  "sample_create ns = Inr (map (\<lambda>n. (mn_ngeId n * mn_ngeId n + 1, mn_path_item_key n)) ns)"

lemma sample_create_ok: "creates_nodes sample_create"
  unfolding creates_nodes_def
proof (intro allI impI conjI ballI)
  fix ns us assume us: "sample_create ns = Inr us"
  show "map snd us = map mn_path_item_key ns" using us by (auto simp: sample_create_def)
  show "d \<noteq> 0" if d: "d \<in> fst ` set us" for d
  proof -
    obtain k :: int where "d = k * k + 1" using d us by (auto simp: sample_create_def)
    then show ?thesis using zero_le_square [of k] by linarith
  qed
qed

definition sample_with_ops :: timetable_item_ops where
  "sample_with_ops = timetable_item.extend sample_item (timetable_item_ops.fields [[], [], []])"

theorem loading_resolves_witness:
  "\<exists>st'. loadAndIndexNge sample_parse ''u'' (\<lambda>_. ''m'') [] (Inr []) (\<lambda>x y. \<bar>x\<bar> + \<bar>y\<bar>) sample_create (newMacroEditorState 1 2) [sample_with_ops] [] = Inr st' \<and>
     (\<exists>n. getNodeByKey st' ''op_id:x'' = Some n \<and> \<not> not_saved n)"
proof (cases "loadAndIndexNge sample_parse ''u'' (\<lambda>_. ''m'') [] (Inr []) (\<lambda>x y. \<bar>x\<bar> + \<bar>y\<bar>) sample_create (newMacroEditorState 1 2) [sample_with_ops] []")
  case (Inl e)
  with loading_resolves [OF sample_create_ok, where parse = sample_parse and uniqueTrain = "''u''" and intervalXmin = "\<lambda>_. ''m''" and
      categories = "[]" and getAllMacroNodes = "Inr []" and hypot = "\<lambda>x y. \<bar>x\<bar> + \<bar>y\<bar>" and a = 1 and b = 2 and items = "[sample_with_ops]" and ?notes = "[]"]
  show ?thesis by (simp add: sample_create_def)
next
  case (Inr st')
  with loading_resolves [OF sample_create_ok, where parse = sample_parse and uniqueTrain = "''u''" and intervalXmin = "\<lambda>_. ''m''" and
      categories = "[]" and getAllMacroNodes = "Inr []" and hypot = "\<lambda>x y. \<bar>x\<bar> + \<bar>y\<bar>" and a = 1 and b = 2 and items = "[sample_with_ops]" and ?notes = "[]"]
  have k: "\<forall>p\<in>set (ts_path sample_with_ops). \<exists>n. getNodeByKey st' (getPathKey (pi_location p)) = Some n \<and> \<not> not_saved n" by simp
  moreover have "\<lparr>pi_id = ''b'', pi_location = OpPart (OpId ''x'') None\<rparr> \<in> set (ts_path sample_with_ops)" by code_simp
  ultimately show ?thesis using Inr by force
qed

end
