(* ===== verification/ScenarioData.thy ===== *)
theory ScenarioData
  imports NgeTypes "HOL-Library.List_Lexorder" "HOL-Library.Char_ord" "HOL-Library.AList"
begin

text \<open>
  The timetable of an open scenario: the list of trains that the hook \<open>applications/operationalStudies/hooks/useScenarioData.ts\<close>
  keeps, with the messages by which the other windows on the scenario follow, the redux slice
  \<open>reducers/simulationResults/index.ts\<close> (which train is selected, hovered and used for the projection) and the automatic
  selection of \<open>useAutoSelectTrainIds.ts\<close>.

  \<open>keyBy(items, 'id')\<close> is an object whose keys are numbers: its values come in ascending order of the keys, whatever
  the order in which they were set. Start times are ISO strings, compared character by character. The
  simulations and projections that the hook also starts are requests outside the model.
\<close>

section \<open>Dictionaries of trains (utils/types.ts, lodash)\<close>

definition mapBy :: "('a \<Rightarrow> 'k) \<Rightarrow> 'a list option \<Rightarrow> ('k \<times> 'a) list" where
  "mapBy key items =
     (case items of None \<Rightarrow> [] | Some xs \<Rightarrow> foldl (\<lambda>m x. AList.update (key x) x m) [] xs)"

definition concatMap :: "('k \<times> 'v) list \<Rightarrow> ('k \<times> 'v) list \<Rightarrow> ('k \<times> 'v) list" where
  "concatMap m1 m2 = foldl (\<lambda>m (k, v). AList.update k v m) [] (m1 @ m2)"

fun int_set :: "(int \<times> 'v) list \<Rightarrow> int \<Rightarrow> 'v \<Rightarrow> (int \<times> 'v) list" where
  "int_set [] k v = [(k, v)]"
| "int_set ((k', v') # o1) k v =
     (if k = k' then (k, v) # o1 else if k < k' then (k, v) # (k', v') # o1 else (k', v') # int_set o1 k v)"

definition keyBy_id :: "timetable_item list option \<Rightarrow> (int \<times> timetable_item) list" where
  "keyBy_id items = (case items of None \<Rightarrow> [] | Some xs \<Rightarrow> foldl (\<lambda>m x. int_set m (tm_id x) x) [] xs)"

definition int_spread :: "(int \<times> 'v) list \<Rightarrow> (int \<times> 'v) list \<Rightarrow> (int \<times> 'v) list" where
  "int_spread a b = foldl (\<lambda>m (k, v). int_set m k v) a b"

section \<open>Simulation results slice\<close>

datatype projection_type = TrackProjection | OperationalPointProjection

record simulation_results =
  sr_selectedTrainId :: "string option"
  sr_hoveredTrainId :: "string option"
  sr_trainIdUsedForProjection :: "string option"
  sr_projectionType :: projection_type
  sr_displayOnlyPathSteps :: bool
  sr_isSimulationEnabled :: bool

definition simulationResultsInitialState :: simulation_results where
  "simulationResultsInitialState =
     \<lparr>sr_selectedTrainId = None, sr_hoveredTrainId = None, sr_trainIdUsedForProjection = None,
      sr_projectionType = TrackProjection, sr_displayOnlyPathSteps = False, sr_isSimulationEnabled = True\<rparr>"

datatype simulation_action =
    ToggleDisplayOnlyPathSteps
  | UpdateSelectedTrainId "string option"
  | UpdateHoveredTrainId "string option"
  | UpdateTrainIdUsedForProjection "string option"
  | UpdateProjectionType projection_type
  | ToggleSimulationEnabled
  | UnsetTrainIdsMatching string
  | UnsetTrainIdsMatchingMissingOccurencesOf string "string list"

text \<open>An empty identifier is falsy.\<close>

definition isIdMatchingOccurence :: "string \<Rightarrow> string option \<Rightarrow> bool result" where
  "isIdMatchingOccurence idToUnset i =
     (case i of
        None \<Rightarrow> Inr False
      | Some t \<Rightarrow>
          if t = [] \<or> \<not> isOccurrenceId t then Inr False
          else bind_result (extractPacedTrainIdFromOccurrenceId t) (\<lambda>p. Inr (p = idToUnset)))"

definition isIdMatchingMissingOccurence :: "string \<Rightarrow> string list \<Rightarrow> string option \<Rightarrow> bool result" where
  "isIdMatchingMissingOccurence pacedTrainId occurrencesPresent i =
     bind_result (isIdMatchingOccurence pacedTrainId i) (\<lambda>b. Inr (b \<and> i \<notin> Some ` set occurrencesPresent))"

definition unset_if :: "(string option \<Rightarrow> bool result) \<Rightarrow> string option \<Rightarrow> string option result" where
  "unset_if p i = bind_result (p i) (\<lambda>b. Inr (if b then None else i))"

definition unset_train_ids :: "(string option \<Rightarrow> bool result) \<Rightarrow> simulation_results \<Rightarrow> simulation_results result" where
  "unset_train_ids p st =
     bind_result (unset_if p (sr_trainIdUsedForProjection st)) (\<lambda>projected.
     bind_result (unset_if p (sr_selectedTrainId st)) (\<lambda>selected.
     bind_result (unset_if p (sr_hoveredTrainId st)) (\<lambda>hovered.
       Inr (st\<lparr>sr_trainIdUsedForProjection := projected, sr_selectedTrainId := selected, sr_hoveredTrainId := hovered\<rparr>))))"

fun simulationResultsSlice :: "simulation_results \<Rightarrow> simulation_action \<Rightarrow> simulation_results result" where
  "simulationResultsSlice st ToggleDisplayOnlyPathSteps = Inr (st\<lparr>sr_displayOnlyPathSteps := \<not> sr_displayOnlyPathSteps st\<rparr>)"
| "simulationResultsSlice st (UpdateSelectedTrainId i) = Inr (st\<lparr>sr_selectedTrainId := i\<rparr>)"
| "simulationResultsSlice st (UpdateHoveredTrainId i) = Inr (st\<lparr>sr_hoveredTrainId := i\<rparr>)"
| "simulationResultsSlice st (UpdateTrainIdUsedForProjection i) = Inr (st\<lparr>sr_trainIdUsedForProjection := i\<rparr>)"
| "simulationResultsSlice st (UpdateProjectionType t) = Inr (st\<lparr>sr_projectionType := t\<rparr>)"
| "simulationResultsSlice st ToggleSimulationEnabled =
     (let st' = st\<lparr>sr_isSimulationEnabled := \<not> sr_isSimulationEnabled st\<rparr>
      in Inr (if sr_isSimulationEnabled st' then st' else st'\<lparr>sr_projectionType := OperationalPointProjection\<rparr>))"
| "simulationResultsSlice st (UnsetTrainIdsMatching idToUnset) =
     unset_train_ids (\<lambda>i. if i = Some idToUnset then Inr True else isIdMatchingOccurence idToUnset i) st"
| "simulationResultsSlice st (UnsetTrainIdsMatchingMissingOccurencesOf pacedTrainId occurrencesPresent) =
     unset_train_ids (isIdMatchingMissingOccurence pacedTrainId occurrencesPresent) st"

section \<open>Trains of the scenario (useScenarioData.ts)\<close>

record scenario_data =
  sd_timetableItems :: "timetable_item list option"
  sd_selectedTimetableItemIds :: "int list"

definition fetchTimetableItems :: "timetable_item list \<Rightarrow> scenario_data \<Rightarrow> scenario_data" where
  "fetchTimetableItems pacedTrains sd = sd\<lparr>sd_timetableItems := Some (sort_key ts_start_time pacedTrains)\<rparr>"

definition upsert_items :: "timetable_item list option \<Rightarrow> timetable_item list \<Rightarrow> timetable_item list" where
  "upsert_items prev items = sort_key ts_start_time (map snd (int_spread (keyBy_id prev) (keyBy_id (Some items))))"

definition upsertTimetableItems :: "timetable_item list \<Rightarrow> scenario_data \<Rightarrow> scenario_data" where
  "upsertTimetableItems timetableItemsToUpsert sd =
     sd\<lparr>sd_timetableItems := Some (upsert_items (sd_timetableItems sd) timetableItemsToUpsert)\<rparr>"

definition removeTimetableItems :: "int list \<Rightarrow> scenario_data \<Rightarrow> scenario_data" where
  "removeTimetableItems toRemove sd =
     sd\<lparr>sd_timetableItems := Some (map snd (foldl (\<lambda>m i. AList.delete i m) (mapBy tm_id (sd_timetableItems sd)) toRemove)),
        sd_selectedTimetableItemIds := filter (\<lambda>i. i \<notin> set toRemove) (sd_selectedTimetableItemIds sd)\<rparr>"

definition setTimetableItemDepartureTime :: "int \<Rightarrow> string \<Rightarrow> scenario_data \<Rightarrow> scenario_data" where
  "setTimetableItemDepartureTime timetableItemId newDeparture sd =
     (case Option.bind (sd_timetableItems sd) (find (\<lambda>item. tm_id item = timetableItemId)) of
        None \<Rightarrow> sd
      | Some timetableItem \<Rightarrow>
          sd\<lparr>sd_timetableItems := Some (upsert_items (sd_timetableItems sd) [timetableItem\<lparr>ts_start_time := newDeparture\<rparr>])\<rparr>)"

datatype scenario_message =
    UpsertTimetableItems "timetable_item list"
  | RemoveTimetableItems "int list"
  | SetTimetableItemDepartureTime int string

fun on_message :: "scenario_data \<Rightarrow> scenario_message \<Rightarrow> scenario_data" where
  "on_message sd (UpsertTimetableItems items) = upsertTimetableItems items sd"
| "on_message sd (RemoveTimetableItems ids) = removeTimetableItems ids sd"
| "on_message sd (SetTimetableItemDepartureTime i newDeparture) = setTimetableItemDepartureTime i newDeparture sd"

section \<open>Automatic selection (useAutoSelectTrainIds.ts)\<close>

text \<open>What the selection reads of a train with its summary: identifier, validity of the simulation and of the
  pathfinding, whether it is paced.\<close>

record projectable_train =
  pj_id :: int
  pj_summary_valid :: bool
  pj_valid_pathfinding :: bool
  pj_paced :: bool

definition selected_item_id :: "simulation_results \<Rightarrow> num option result" where
  "selected_item_id st =
     (case sr_selectedTrainId st of
        None \<Rightarrow> Inr None
      | Some t \<Rightarrow>
          if t = [] then Inr None
          else bind_result
                 (if \<not> isOccurrenceId t then Inr t else extractPacedTrainIdFromOccurrenceId t)
                 (\<lambda>p. bind_result (extractEditoastIdFromPacedTrainId p) (\<lambda>n. Inr (Some n))))"

definition firstTrainCanBeUsedForProjection :: "projectable_train list \<Rightarrow> projectable_train option" where
  "firstTrainCanBeUsedForProjection trains =
     (case find pj_summary_valid trains of
        Some t \<Rightarrow> Some t
      | None \<Rightarrow> find pj_valid_pathfinding trains)"

definition select_for_projection :: "simulation_results \<Rightarrow> projectable_train list \<Rightarrow> simulation_results result" where
  "select_for_projection st trains =
     (case firstTrainCanBeUsedForProjection trains of
        None \<Rightarrow> Inr st
      | Some t \<Rightarrow>
          let pacedTrainId = formatEditoastIdToPacedTrainId (of_int (pj_id t)) in
          bind_result (simulationResultsSlice st (UpdateTrainIdUsedForProjection (Some pacedTrainId))) (\<lambda>st1.
          bind_result (if \<not> pj_paced t then Inr pacedTrainId else formatPacedTrainIdToIndexedOccurrenceId pacedTrainId 0)
            (\<lambda>newTrainIdToSelect. simulationResultsSlice st1 (UpdateSelectedTrainId (Some newTrainIdToSelect)))))"

text \<open>The effect that follows a change of the trains, once the parameters of the page are loaded.\<close>

definition autoSelectTrainIds ::
  "int list option \<Rightarrow> projectable_train list \<Rightarrow> simulation_results \<Rightarrow> simulation_results result" where
  "autoSelectTrainIds timetableItemIds trains st =
     (case timetableItemIds of
        None \<Rightarrow> Inr st
      | Some ids \<Rightarrow>
          if ids = [] then
            bind_result (if truthy (sr_selectedTrainId st) then simulationResultsSlice st (UpdateSelectedTrainId None) else Inr st)
              (\<lambda>st1. if truthy (sr_trainIdUsedForProjection st)
                     then simulationResultsSlice st1 (UpdateTrainIdUsedForProjection None) else Inr st1)
          else
            bind_result (selected_item_id st) (\<lambda>timetableItemId.
              case timetableItemId of
                Some n \<Rightarrow>
                  if n \<noteq> 0 \<and> n \<in> of_int ` set ids then
                    if truthy (sr_trainIdUsedForProjection st) then Inr st
                    else simulationResultsSlice st (UpdateTrainIdUsedForProjection (Some (formatEditoastIdToPacedTrainId n)))
                  else select_for_projection st trains
              | None \<Rightarrow> select_for_projection st trains))"

end
