(* ===== verification/MacroEvents.thy ===== *)
theory MacroEvents
  imports MacroLoading ScenarioData
begin

text \<open>
  The events of the netzgrafik editor: \<open>MacroEditor/ngeToOsrd/trainrun.ts\<close>, \<open>node.ts\<close>, \<open>note.ts\<close>, \<open>ngeToOsrd.ts\<close> and the requests of
  \<open>MacroEditor/utils.ts\<close> and \<open>modules/timetableItem/helpers/updateTimetableItemHelpers.ts\<close>. \<open>ScenarioContent.tsx\<close> handles the events one
  at a time and catches what a handler throws.

  A handler is a function of the \<open>world\<close>: the state of the server (of any type), the state of the macroscopic editor, the trains shown
  by the scenario, the simulation results slice and the updates in flight that no handler awaits. It returns a value or an error, and the world that it
  leaves: what was done before an exception stays done. The server is a record of functions; a request that fails
  leaves the state of the server as it was.
\<close>

section \<open>Server and host\<close>

record 's server =
  sv_getTrain :: "'s \<Rightarrow> int \<Rightarrow> timetable_item result"
  sv_postTrains :: "'s \<Rightarrow> train_payload list \<Rightarrow> (timetable_item list \<times> 's) result"
  sv_putTrain :: "'s \<Rightarrow> int \<Rightarrow> train_payload \<Rightarrow> 's result"
  sv_deleteTrains :: "'s \<Rightarrow> int list \<Rightarrow> 's result"
  sv_postRoundTrips :: "'s \<Rightarrow> (int \<times> int) list \<Rightarrow> int list \<Rightarrow> 's result"
  sv_search :: "'s \<Rightarrow> int \<Rightarrow> string \<Rightarrow> string option list result"
  sv_postNode :: "'s \<Rightarrow> int \<Rightarrow> macro_node \<Rightarrow> ((int \<times> macro_node) \<times> 's) result"
  sv_putNode :: "'s \<Rightarrow> int \<Rightarrow> macro_node \<Rightarrow> 's result"
  sv_deleteNode :: "'s \<Rightarrow> int \<Rightarrow> 's result"
  sv_postNote :: "'s \<Rightarrow> int \<Rightarrow> macro_note \<Rightarrow> (int \<times> 's) result"
  sv_putNote :: "'s \<Rightarrow> int \<Rightarrow> macro_note \<Rightarrow> 's result"
  sv_deleteNote :: "'s \<Rightarrow> int \<Rightarrow> 's result"

text \<open>Dates and durations, the time zone and the two readings of the clock when a train is created.\<close>

record host =
  ho_parse :: "string \<Rightarrow> duration"
  ho_parseDate :: "string \<Rightarrow> date"
  ho_print :: "duration \<Rightarrow> string"
  ho_printDate :: "date \<Rightarrow> string"
  ho_tz :: int
  ho_now :: date
  ho_nowReturn :: date

text \<open>The updates of trainruns that were started without being awaited, each with the document it reads.\<close>

record 's world =
  wo_server :: 's
  wo_macro :: macro_state
  wo_scenario :: scenario_data
  wo_results :: simulation_results
  wo_started :: "(netzgrafik_dto \<times> trainrun_dto) list"

type_synonym ('s, 'a) handler = "'s world \<Rightarrow> 'a result \<times> 's world"

definition then_do :: "('s, 'a) handler \<Rightarrow> ('a \<Rightarrow> ('s, 'b) handler) \<Rightarrow> ('s, 'b) handler" where
  "then_do m f w = (case m w of (Inl e, w') \<Rightarrow> (Inl e, w') | (Inr x, w') \<Rightarrow> f x w')"

definition done_with :: "'a \<Rightarrow> ('s, 'a) handler" where
  "done_with x w = (Inr x, w)"

definition compute :: "('s world \<Rightarrow> 'a result) \<Rightarrow> ('s, 'a) handler" where
  "compute f w = (f w, w)"

definition change :: "('s world \<Rightarrow> 's world) \<Rightarrow> ('s, unit) handler" where
  "change f w = (Inr (), f w)"

definition send :: "('s \<Rightarrow> 's result) \<Rightarrow> ('s, unit) handler" where
  "send req w = (case req (wo_server w) of Inl e \<Rightarrow> (Inl e, w) | Inr s \<Rightarrow> (Inr (), w\<lparr>wo_server := s\<rparr>))"

definition ask :: "('s \<Rightarrow> ('a \<times> 's) result) \<Rightarrow> ('s, 'a) handler" where
  "ask req w = (case req (wo_server w) of Inl e \<Rightarrow> (Inl e, w) | Inr (x, s) \<Rightarrow> (Inr x, w\<lparr>wo_server := s\<rparr>))"

fun for_each :: "('a \<Rightarrow> ('s, unit) handler) \<Rightarrow> 'a list \<Rightarrow> ('s, unit) handler" where
  "for_each f [] = done_with ()"
| "for_each f (x # xs) = then_do (f x) (\<lambda>_. for_each f xs)"

text \<open>A promise that is not awaited: its failure is not seen by the handler.\<close>

definition not_awaited :: "('s, unit) handler \<Rightarrow> ('s, unit) handler" where
  "not_awaited m w = (Inr (), snd (m w))"

definition on_macro :: "(macro_state \<Rightarrow> macro_state result) \<Rightarrow> ('s, unit) handler" where
  "on_macro f w = (case f (wo_macro w) of Inl e \<Rightarrow> (Inl e, w) | Inr st \<Rightarrow> (Inr (), w\<lparr>wo_macro := st\<rparr>))"

definition dispatch_simulation :: "simulation_action \<Rightarrow> ('s, unit) handler" where
  "dispatch_simulation a w =
     (case simulationResultsSlice (wo_results w) a of Inl e \<Rightarrow> (Inl e, w) | Inr r \<Rightarrow> (Inr (), w\<lparr>wo_results := r\<rparr>))"

definition show_items :: "timetable_item list \<Rightarrow> ('s, unit) handler" where
  "show_items items = change (\<lambda>w. w\<lparr>wo_scenario := upsertTimetableItems items (wo_scenario w)\<rparr>)"

definition hide_items :: "int list \<Rightarrow> ('s, unit) handler" where
  "hide_items ids = change (\<lambda>w. w\<lparr>wo_scenario := removeTimetableItems ids (wo_scenario w)\<rparr>)"

section \<open>Trains on the server (updateTimetableItemHelpers.ts)\<close>

definition fetchTimetableItem :: "'s server \<Rightarrow> int \<Rightarrow> ('s, timetable_item) handler" where
  "fetchTimetableItem srv i = compute (\<lambda>w. sv_getTrain srv (wo_server w) i)"

definition createPacedTrains :: "'s server \<Rightarrow> train_payload list \<Rightarrow> ('s, timetable_item list) handler" where
  "createPacedTrains srv pacedTrains =
     (if pacedTrains = [] then done_with [] else ask (\<lambda>s. sv_postTrains srv s pacedTrains))"

definition deleteTrainSchedules :: "'s server \<Rightarrow> int list \<Rightarrow> ('s, unit) handler" where
  "deleteTrainSchedules srv ids =
     then_do (for_each (\<lambda>i. dispatch_simulation (UnsetTrainIdsMatching (formatEditoastIdToPacedTrainId (of_int i)))) ids)
       (\<lambda>_. send (\<lambda>s. sv_deleteTrains srv s ids))"

definition item_of :: "int \<Rightarrow> train_payload \<Rightarrow> timetable_item" where
  "item_of i t = train_payload.extend t (timetable_item.fields i)"

definition storePacedTrain :: "host \<Rightarrow> 's server \<Rightarrow> int \<Rightarrow> train_payload \<Rightarrow> ('s, timetable_item) handler" where
  "storePacedTrain h srv timetableItemIdToUpdate pacedTrain =
     then_do
       (case tp_paced pacedTrain of
          None \<Rightarrow> done_with ()
        | Some paced \<Rightarrow>
            let pacedTrainId = formatEditoastIdToPacedTrainId (of_int timetableItemIdToUpdate) in
            then_do (compute (\<lambda>w. getOcurrencesIds (ho_parse h)
                       (train_schedule.extend (train_schedule.truncate pacedTrain) (paced_train.fields paced)) pacedTrainId))
              (\<lambda>occurrencesPresent.
                 dispatch_simulation (UnsetTrainIdsMatchingMissingOccurencesOf pacedTrainId occurrencesPresent)))
       (\<lambda>_. then_do (send (\<lambda>s. sv_putTrain srv s timetableItemIdToUpdate pacedTrain)) (\<lambda>_.
            let updatedPacedTrain = item_of timetableItemIdToUpdate pacedTrain in
            then_do (show_items [updatedPacedTrain]) (\<lambda>_. done_with updatedPacedTrain)))"

section \<open>Requests of the editor (utils.ts)\<close>

definition createMacroNode :: "'s server \<Rightarrow> macro_node \<Rightarrow> int \<Rightarrow> ('s, unit) handler" where
  "createMacroNode srv node ngeNodeId w =
     then_do (ask (\<lambda>s. sv_postNode srv s (ms_scenarioId (wo_macro w)) node))
       (\<lambda>(dbId, newNode).
          on_macro (\<lambda>st. indexNodeByKey st (mn_path_item_key newNode)
                           (newNode\<lparr>mn_ngeId := ngeNodeId, mn_dbId := Some dbId\<rparr>))) w"

definition updateMacroNode :: "'s server \<Rightarrow> macro_node \<Rightarrow> ('s, unit) handler" where
  "updateMacroNode srv node w =
     (case getNodeByNgeId (wo_macro w) (mn_ngeId node) of
        None \<Rightarrow> (Inl (JSError (''Node '' @ string_of_int (mn_ngeId node) @ '' not found'')), w)
      | Some indexedNode \<Rightarrow>
          if not_saved indexedNode
          then (Inl (JSError (''Node '' @ string_of_int (mn_ngeId node) @ '' is not saved in the DB'')), w)
          else then_do (send (\<lambda>s. sv_putNode srv s (the (mn_dbId indexedNode)) node))
                 (\<lambda>_. on_macro (\<lambda>st. indexNodeByKey st (mn_path_item_key indexedNode) node)) w)"

definition deleteMacroNodeByDbId :: "'s server \<Rightarrow> int \<Rightarrow> ('s, unit) handler" where
  "deleteMacroNodeByDbId srv dbId = send (\<lambda>s. sv_deleteNode srv s dbId)"

definition deleteMacroNodeByNgeId :: "'s server \<Rightarrow> int \<Rightarrow> ('s, unit) handler" where
  "deleteMacroNodeByNgeId srv ngeId w =
     then_do
       (case getNodeByNgeId (wo_macro w) ngeId of
          Some indexedNode \<Rightarrow>
            if not_saved indexedNode then done_with () else deleteMacroNodeByDbId srv (the (mn_dbId indexedNode))
        | None \<Rightarrow> done_with ())
       (\<lambda>_. on_macro (\<lambda>st. Inr (deleteNodeByNgeId st ngeId))) w"

text \<open>An identifier 0 counts as no identifier.\<close>

definition real_id :: "int option \<Rightarrow> bool" where
  "real_id i = (i \<noteq> None \<and> i \<noteq> Some 0)"

definition storeRoundTrip :: "'s server \<Rightarrow> int \<Rightarrow> int option \<Rightarrow> ('s, unit) handler" where
  "storeRoundTrip srv forwardId returnId =
     send (\<lambda>s. if real_id returnId then sv_postRoundTrips srv s [(forwardId, the returnId)] []
               else sv_postRoundTrips srv s [] [forwardId])"

definition fetchStationSecondaryCode :: "'s server \<Rightarrow> string \<Rightarrow> int \<Rightarrow> ('s, string option) handler" where
  "fetchStationSecondaryCode srv trigram infraId =
     then_do (compute (\<lambda>w. sv_search srv (wo_server w) infraId trigram))
       (\<lambda>codes. done_with (Option.bind (find (\<lambda>ch. ch = Some ''BV'' \<or> ch = Some ''00'') codes) (\<lambda>ch. ch)))"

section \<open>Trainruns (trainrun.ts)\<close>

definition populate_item :: "'s server \<Rightarrow> int \<Rightarrow> path_item \<Rightarrow> ('s, path_item) handler" where
  "populate_item srv infraId pathItem =
     (case pi_location pathItem of
        OpPart (OpTrigram trigram code) track \<Rightarrow>
          if truthy code then done_with pathItem
          else then_do (fetchStationSecondaryCode srv trigram infraId)
                 (\<lambda>c. done_with (pathItem\<lparr>pi_location := OpPart (OpTrigram trigram c) track\<rparr>))
      | _ \<Rightarrow> done_with pathItem)"

fun populateSecondaryCodesInPath :: "'s server \<Rightarrow> int \<Rightarrow> path_item list \<Rightarrow> ('s, path_item list) handler" where
  "populateSecondaryCodesInPath srv infraId [] = done_with []"
| "populateSecondaryCodesInPath srv infraId (pathItem # path) =
     then_do (populate_item srv infraId pathItem) (\<lambda>p.
     then_do (populateSecondaryCodesInPath srv infraId path) (\<lambda>ps. done_with (p # ps)))"

definition path_and_schedule_of ::
  "host \<Rightarrow> netzgrafik_dto \<Rightarrow> section_dto list \<Rightarrow> date \<Rightarrow> trainrun_way \<Rightarrow> ('s, generated_path) handler" where
  "path_and_schedule_of h dto sections baseDate way =
     compute (\<lambda>w. generatePathAndSchedule (ho_print h) (ho_printDate h) (ho_tz h) sections (nz_nodes dto) baseDate way
                    (Some (wo_macro w)))"

definition with_path :: "train_payload \<Rightarrow> generated_path \<Rightarrow> path_item list \<Rightarrow> train_payload" where
  "with_path t g path =
     t\<lparr>ts_start_time := gp_start_time g, ts_path := path, ts_schedule := Some (gp_schedule g)\<rparr>"

definition link_trains :: "int \<Rightarrow> int \<Rightarrow> int option \<Rightarrow> ('s, unit) handler" where
  "link_trains trainrunId forwardId returnId =
     on_macro (\<lambda>st. Inr (st\<lparr>ms_timetableItemIdByNgeId :=
       AList.update trainrunId (forwardId, returnId) (ms_timetableItemIdByNgeId st)\<rparr>))"

definition category_of :: "trainrun_dto \<Rightarrow> ('s, train_category option) handler" where
  "category_of trainrun =
     compute (\<lambda>w. getTrainCategoryFromTrainrunCategoryId (ms_trainrunCategories (wo_macro w)) (tn_categoryId trainrun))"

text \<open>The trip that is created, and its return with the path and the schedule read backwards.\<close>

definition forward_trip ::
  "trainrun_dto \<Rightarrow> string list \<Rightarrow> train_category option \<Rightarrow> paced option \<Rightarrow> generated_path \<Rightarrow> path_item list \<Rightarrow> train_payload" where
  "forward_trip trainrun labels category paced g path =
     with_path (DEFAULT_TRAIN_SCHEDULE_PAYLOAD\<lparr>tp_paced := paced, ts_train_name := tn_name trainrun, ts_labels := Some labels,
                  ts_category := category\<rparr>) g path"

definition handleCreateTimetableItem ::
  "host \<Rightarrow> 's server \<Rightarrow> int \<Rightarrow> netzgrafik_dto \<Rightarrow> trainrun_dto \<Rightarrow> ('s, unit) handler" where
  "handleCreateTimetableItem h srv infraId dto trainrun =
     then_do (compute (\<lambda>w. getContinuousTrainrunSectionsByTrainrunId dto (tn_id trainrun))) (\<lambda>sections.
     then_do (path_and_schedule_of h dto sections (ho_now h) FORWARD) (\<lambda>g.
     then_do (path_and_schedule_of h dto sections (ho_nowReturn h) BACKWARD) (\<lambda>gReturn.
     then_do (populateSecondaryCodesInPath srv infraId (gp_path g @ gp_path gReturn)) (\<lambda>paths.
     then_do (category_of trainrun) (\<lambda>category.
     then_do (compute (\<lambda>w. createPacedAttributesFromTrainrun (ho_print h) trainrun dto)) (\<lambda>paced.
       let forwardTrip = forward_trip trainrun (getTrainrunLabels dto trainrun) category paced g (take (length (gp_path g)) paths);
           toCreate = (if tn_direction trainrun = RoundTrip
                       then [forwardTrip, with_path forwardTrip gReturn (drop (length (gp_path g)) paths)]
                       else [forwardTrip])
       in then_do (createPacedTrains srv toCreate) (\<lambda>newTimetableItems.
            if length newTimetableItems \<noteq> length toCreate
            then compute (\<lambda>w. Inl (JSError ''Failed to create timetable item(s)''))
            else
              then_do (show_items newTimetableItems) (\<lambda>_.
              let returnId = map_option tm_id (js_at newTimetableItems 1) in
              then_do (link_trains (tn_id trainrun) (tm_id (hd newTimetableItems)) returnId) (\<lambda>_.
                not_awaited (storeRoundTrip srv (tm_id (hd newTimetableItems)) returnId))))))))))"

definition deleteTimetableItemById :: "'s server \<Rightarrow> int \<Rightarrow> ('s, unit) handler" where
  "deleteTimetableItemById srv timetableItemId =
     then_do (deleteTrainSchedules srv [timetableItemId]) (\<lambda>_. hide_items [timetableItemId])"

definition handleDeleteTimetableItem :: "'s server \<Rightarrow> int \<Rightarrow> ('s, unit) handler" where
  "handleDeleteTimetableItem srv trainrunId w =
     (let timetableItemIds = (case map_of (ms_timetableItemIdByNgeId (wo_macro w)) trainrunId of
                                None \<Rightarrow> []
                              | Some (forwardId, returnId) \<Rightarrow> filter real_id [Some forwardId, returnId])
      in then_do (for_each (\<lambda>i. deleteTimetableItemById srv (the i)) timetableItemIds) (\<lambda>_.
           on_macro (\<lambda>st. Inr (st\<lparr>ms_timetableItemIdByNgeId := AList.delete trainrunId (ms_timetableItemIdByNgeId st)\<rparr>))) w)"

text \<open>The clean-up of the exceptions when both the old and the new train are paced.\<close>

definition keep_exceptions :: "host \<Rightarrow> timetable_item \<Rightarrow> train_payload \<Rightarrow> train_payload result" where
  "keep_exceptions h old new =
     (case (tp_paced new, tp_paced old) of
        (Some paced, Some oldPaced) \<Rightarrow>
          let paced1 = paced\<lparr>pc_time_window := pc_time_window oldPaced\<rparr>
          in bind_result (checkChangeGroups (ho_parse h) (ho_parseDate h) new (pc_interval paced1) (pc_exceptions oldPaced))
               (\<lambda>es. Inr (new\<lparr>tp_paced := Some (paced1\<lparr>pc_exceptions := es\<rparr>)\<rparr>))
      | _ \<Rightarrow> Inr new)"

text \<open>The train with the attributes of the trainrun: the old one without its margins, which contain references to path items.\<close>

definition updated_train ::
  "timetable_item \<Rightarrow> trainrun_dto \<Rightarrow> string list \<Rightarrow> train_category option \<Rightarrow> paced option \<Rightarrow> generated_path \<Rightarrow> path_item list \<Rightarrow>
   train_payload" where
  "updated_train old trainrun labels category paced g path =
     with_path ((train_payload.truncate old)\<lparr>ts_train_name := tn_name trainrun, ts_labels := Some labels, ts_margins := None,
                  tp_paced := paced, ts_category := category\<rparr>) g path"

definition return_paced :: "train_payload \<Rightarrow> paced option" where
  "return_paced newForward = map_option (\<lambda>paced. paced\<lparr>pc_exceptions := []\<rparr>) (tp_paced newForward)"

definition update_return ::
  "host \<Rightarrow> 's server \<Rightarrow> trainrun_dto \<Rightarrow> string list \<Rightarrow> train_category option \<Rightarrow> train_payload \<Rightarrow> generated_path \<Rightarrow> path_item list \<Rightarrow>
   int option \<Rightarrow> ('s, timetable_item) handler" where
  "update_return h srv trainrun labels category newForward g path returnId =
     (if real_id returnId then
        then_do (fetchTimetableItem srv (the returnId)) (\<lambda>old.
        then_do (compute (\<lambda>w. keep_exceptions h old
                   (updated_train old trainrun labels category (return_paced newForward) g path))) (\<lambda>newReturn.
          storePacedTrain h srv (tm_id old) newReturn))
      else
        then_do (createPacedTrains srv [with_path (newForward\<lparr>tp_paced := return_paced newForward\<rparr>) g path]) (\<lambda>created.
          case created of
            [] \<Rightarrow> compute (\<lambda>w. Inl TypeError)
          | newReturn # _ \<Rightarrow> then_do (show_items [newReturn]) (\<lambda>_. done_with newReturn)))"

definition update_return_trip ::
  "host \<Rightarrow> 's server \<Rightarrow> int \<Rightarrow> netzgrafik_dto \<Rightarrow> trainrun_dto \<Rightarrow> section_dto list \<Rightarrow> date \<Rightarrow> train_category option \<Rightarrow> train_payload \<Rightarrow>
   int option \<Rightarrow> timetable_item \<Rightarrow> ('s, unit) handler" where
  "update_return_trip h srv infraId dto trainrun sections start category newForward returnId newForwardItem =
     (if tn_direction trainrun = OneWay then
        then_do (if real_id returnId
                 then then_do (storeRoundTrip srv (tm_id newForwardItem) None) (\<lambda>_. deleteTimetableItemById srv (the returnId))
                 else done_with ())
          (\<lambda>_. link_trains (tn_id trainrun) (tm_id newForwardItem) None)
      else
        then_do (path_and_schedule_of h dto sections start BACKWARD) (\<lambda>gReturn.
        then_do (populateSecondaryCodesInPath srv infraId (gp_path gReturn)) (\<lambda>pathReturn.
        then_do (update_return h srv trainrun (getTrainrunLabels dto trainrun) category newForward gReturn pathReturn returnId)
          (\<lambda>newReturnItem.
        then_do (storeRoundTrip srv (tm_id newForwardItem) (Some (tm_id newReturnItem))) (\<lambda>_.
          link_trains (tn_id trainrun) (tm_id newForwardItem) (Some (tm_id newReturnItem)))))))"

definition update_linked_trains ::
  "host \<Rightarrow> 's server \<Rightarrow> int \<Rightarrow> netzgrafik_dto \<Rightarrow> trainrun_dto \<Rightarrow> int \<times> int option \<Rightarrow> ('s, unit) handler" where
  "update_linked_trains h srv infraId dto trainrun timetableItemIds =
     then_do (fetchTimetableItem srv (fst timetableItemIds)) (\<lambda>old.
     let start = ho_parseDate h (ts_start_time old) in
     then_do (compute (\<lambda>w. getContinuousTrainrunSectionsByTrainrunId dto (tn_id trainrun))) (\<lambda>sections.
     then_do (path_and_schedule_of h dto sections start FORWARD) (\<lambda>g.
     then_do (populateSecondaryCodesInPath srv infraId (gp_path g)) (\<lambda>path.
     then_do (category_of trainrun) (\<lambda>category.
     then_do (compute (\<lambda>w. createPacedAttributesFromTrainrun (ho_print h) trainrun dto)) (\<lambda>paced.
     then_do (compute (\<lambda>w. keep_exceptions h old
                (updated_train old trainrun (getTrainrunLabels dto trainrun) category paced g path))) (\<lambda>newForward.
     then_do (storePacedTrain h srv (tm_id old) newForward) (\<lambda>newForwardItem.
       update_return_trip h srv infraId dto trainrun sections start category newForward (snd timetableItemIds) newForwardItem))))))))"

definition handleUpdateTimetableItem ::
  "host \<Rightarrow> 's server \<Rightarrow> int \<Rightarrow> netzgrafik_dto \<Rightarrow> trainrun_dto \<Rightarrow> ('s, unit) handler" where
  "handleUpdateTimetableItem h srv infraId dto trainrun =
     then_do (compute (\<lambda>w. case map_of (ms_timetableItemIdByNgeId (wo_macro w)) (tn_id trainrun) of
                             None \<Rightarrow> Inl TypeError
                           | Some ids \<Rightarrow> Inr ids))
       (update_linked_trains h srv infraId dto trainrun)"

datatype event_type = CreateEvent | UpdateEvent | DeleteEvent

definition handleTrainrunOperation ::
  "host \<Rightarrow> 's server \<Rightarrow> int \<Rightarrow> netzgrafik_dto \<Rightarrow> event_type \<Rightarrow> int \<Rightarrow> ('s, unit) handler" where
  "handleTrainrunOperation h srv infraId dto type trainrunId =
     (let trainrun = find (\<lambda>tr. tn_id tr = trainrunId) (nz_trainruns dto) in
      case type of
        CreateEvent \<Rightarrow>
          (case trainrun of None \<Rightarrow> compute (\<lambda>w. Inl TypeError) | Some tr \<Rightarrow> handleCreateTimetableItem h srv infraId dto tr)
      | UpdateEvent \<Rightarrow>
          (case trainrun of None \<Rightarrow> compute (\<lambda>w. Inl TypeError) | Some tr \<Rightarrow> handleUpdateTimetableItem h srv infraId dto tr)
      | DeleteEvent \<Rightarrow> handleDeleteTimetableItem srv trainrunId)"

text \<open>The trainruns with a section at the node, in the order of their first section. The document keeps one object
  per trainrun: the last one with the identifier.\<close>

definition trainruns_at :: "netzgrafik_dto \<Rightarrow> int \<Rightarrow> trainrun_dto option list" where
  "trainruns_at dto nodeId =
     foldl set_add []
       (map (\<lambda>s. find (\<lambda>tr. tn_id tr = se_trainrunId s) (rev (nz_trainruns dto)))
          (filter (\<lambda>s. se_sourceNodeId s = nodeId \<or> se_targetNodeId s = nodeId) (nz_trainrunSections dto)))"

definition updateTrainrunsByNode :: "host \<Rightarrow> 's server \<Rightarrow> int \<Rightarrow> netzgrafik_dto \<Rightarrow> node_dto \<Rightarrow> ('s, unit) handler" where
  "updateTrainrunsByNode h srv infraId dto node =
     for_each (\<lambda>trainrun. case trainrun of
                  None \<Rightarrow> compute (\<lambda>w. Inl TypeError)
                | Some tr \<Rightarrow> handleUpdateTimetableItem h srv infraId dto tr)
       (trainruns_at dto (no_id node))"

section \<open>Nodes, notes and labels (node.ts, note.ts, ngeToOsrd.ts)\<close>

text \<open>The key of a node whose trigram has changed, when the key is based on it.\<close>

definition renamed_key :: "'s server \<Rightarrow> macro_node \<Rightarrow> node_dto \<Rightarrow> ('s, string \<times> string) handler" where
  "renamed_key srv indexNode node =
     (let trigram = no_betriebspunktName node in
      if starts_with ''trigram:'' (mn_path_item_key indexNode) \<and> mn_trigram indexNode \<noteq> Some trigram then
        then_do (if CHR ''/'' \<in> set trigram then done_with trigram
                 else then_do (\<lambda>w. fetchStationSecondaryCode srv trigram (ms_infraId (wo_macro w)) w) (\<lambda>code.
                        done_with (if truthy code then trigram @ ''/'' @ the code else trigram)))
          (\<lambda>t. done_with (t, ''trigram:'' @ t))
      else done_with (trigram, mn_path_item_key indexNode))"

definition handleNodeOperation ::
  "host \<Rightarrow> 's server \<Rightarrow> int \<Rightarrow> netzgrafik_dto \<Rightarrow> event_type \<Rightarrow> node_dto \<Rightarrow> ('s, unit) handler" where
  "handleNodeOperation h srv infraId dto type node w =
     (case type of
        DeleteEvent \<Rightarrow>
          if getNodeByNgeId (wo_macro w) (no_id node) = None then (Inr (), w) else deleteMacroNodeByNgeId srv (no_id node) w
      | _ \<Rightarrow>
          (case getNodeByNgeId (wo_macro w) (no_id node) of
             None \<Rightarrow>
               createMacroNode srv
                 (castNgeNode node (nz_labels dto) (empty_node (''trigram:'' @ no_betriebspunktName node))) (no_id node) w
           | Some indexNode \<Rightarrow>
               if not_saved indexNode then createMacroNode srv (castNgeNode node (nz_labels dto) indexNode) (no_id node) w
               else
                 then_do (renamed_key srv indexNode node) (\<lambda>(trigram, nodeKey).
                 then_do (updateMacroNode srv
                            ((castNgeNode node (nz_labels dto) indexNode)\<lparr>mn_trigram := Some trigram, mn_path_item_key := nodeKey\<rparr>))
                   (\<lambda>_. if mn_path_item_key indexNode \<noteq> nodeKey then updateTrainrunsByNode h srv infraId dto node
                        else done_with ())) w))"

definition createMacroNote :: "'s server \<Rightarrow> netzgrafik_dto \<Rightarrow> note_dto \<Rightarrow> ('s, unit) handler" where
  "createMacroNote srv dto note w =
     then_do (ask (\<lambda>s. sv_postNote srv s (ms_scenarioId (wo_macro w)) (castNgeNoteToOsrd note dto)))
       (\<lambda>dbId. on_macro (\<lambda>st. Inr (setDbIdForNote st (nt_id note) dbId))) w"

definition note_error :: "int \<Rightarrow> js_error" where
  "note_error ngeId = JSError (''Note '' @ string_of_int ngeId @ '' is not saved in the DB'')"

definition updateMacroNote :: "'s server \<Rightarrow> netzgrafik_dto \<Rightarrow> note_dto \<Rightarrow> ('s, unit) handler" where
  "updateMacroNote srv dto note w =
     (let dbId = getDbIdForNote (wo_macro w) (nt_id note) in
      if \<not> real_id dbId then (Inl (note_error (nt_id note)), w)
      else send (\<lambda>s. sv_putNote srv s (the dbId) (castNgeNoteToOsrd note dto)) w)"

definition deleteMacroNote :: "'s server \<Rightarrow> int \<Rightarrow> ('s, unit) handler" where
  "deleteMacroNote srv ngeId w =
     (let noteId = getDbIdForNote (wo_macro w) ngeId in
      if \<not> real_id noteId then (Inl (note_error ngeId), w)
      else then_do (send (\<lambda>s. sv_deleteNote srv s (the noteId)))
             (\<lambda>_. on_macro (\<lambda>st. Inr (removeNoteMapping st ngeId))) w)"

definition handleNoteOperation :: "'s server \<Rightarrow> netzgrafik_dto \<Rightarrow> event_type \<Rightarrow> note_dto \<Rightarrow> ('s, unit) handler" where
  "handleNoteOperation srv dto type note =
     (case type of
        CreateEvent \<Rightarrow> createMacroNote srv dto note
      | UpdateEvent \<Rightarrow> updateMacroNote srv dto note
      | DeleteEvent \<Rightarrow> deleteMacroNote srv (nt_id note))"

text \<open>The callback of \<open>forEach\<close> is asynchronous and nobody awaits its promise: the handler starts an update of each
  trainrun that carries the label, in their order, and returns before any of them has an answer. The updates in flight are kept in
  \<open>wo_started\<close>; their steps may fall between those of each other and of the events that follow, so they are not run here.\<close>

definition handleLabelOperation :: "netzgrafik_dto \<Rightarrow> event_type \<Rightarrow> label_dto \<Rightarrow> ('s, unit) handler" where
  "handleLabelOperation dto type label =
     (if type = UpdateEvent
      then change (\<lambda>w. w\<lparr>wo_started := wo_started w @
             map (\<lambda>trainrun. (dto, trainrun)) (filter (\<lambda>trainrun. la_id label \<in> set (tn_labelIds trainrun)) (nz_trainruns dto))\<rparr>)
      else done_with ())"

datatype nge_object = TrainrunObject trainrun_dto | NodeObject node_dto | LabelObject label_dto | NoteObject note_dto

record nge_event =
  ne_type :: event_type
  ne_object :: nge_object

definition handleOperation :: "host \<Rightarrow> 's server \<Rightarrow> int \<Rightarrow> netzgrafik_dto \<Rightarrow> nge_event \<Rightarrow> ('s, unit) handler" where
  "handleOperation h srv infraId dto event =
     (case ne_object event of
        NodeObject node \<Rightarrow> handleNodeOperation h srv infraId dto (ne_type event) node
      | TrainrunObject trainrun \<Rightarrow> handleTrainrunOperation h srv infraId dto (ne_type event) (tn_id trainrun)
      | LabelObject label \<Rightarrow> handleLabelOperation dto (ne_type event) label
      | NoteObject note \<Rightarrow> handleNoteOperation srv dto (ne_type event) note)"

text \<open>\<open>handleNGEOperation\<close> of \<open>ScenarioContent.tsx\<close>: the handlers run one after the other, what they throw is caught and shown.
  Each event comes with the document after it.\<close>

definition handleNGEOperation :: "host \<Rightarrow> 's server \<Rightarrow> int \<Rightarrow> 's world \<Rightarrow> nge_event \<times> netzgrafik_dto \<Rightarrow> 's world" where
  "handleNGEOperation h srv infraId w e = snd (handleOperation h srv infraId (snd e) (fst e) w)"

end
