(* ===== verification/ScenarioProperties.thy ===== *)
theory ScenarioProperties
  imports ScenarioData
begin

text \<open>
  Properties of the timetable of a scenario: the list of trains implements a map from identifiers to trains, sorted by start time
  after an update, and the automatic selection always selects a train of the timetable.
\<close>

definition shown_trains :: "scenario_data \<Rightarrow> int \<Rightarrow> train_payload option" where
  "shown_trains sd =
     (case sd_timetableItems sd of
        None \<Rightarrow> Map.empty
      | Some items \<Rightarrow> map_of (map (\<lambda>item. (tm_id item, train_payload.truncate item)) items))"

lemma map_of_int_set: "map_of (int_set o1 k v) = (map_of o1)(k \<mapsto> v)"
  by (induction o1 k v rule: int_set.induct) auto

lemma keys_int_set: "fst ` set (int_set o1 k v) = insert k (fst ` set o1)"
  by (induction o1 k v rule: int_set.induct) auto

definition ascending :: "(int \<times> 'v) list \<Rightarrow> bool" where
  "ascending o1 \<longleftrightarrow> sorted_wrt (<) (map fst o1)"

lemma ascending_int_set: "ascending o1 \<Longrightarrow> ascending (int_set o1 k v)"
proof (induction o1 k v rule: int_set.induct)
  case (2 k' v' o1 k v)
  then show ?case using keys_int_set [of o1 k v] unfolding ascending_def by (auto simp: image_iff)
qed (simp add: ascending_def)

lemma int_spread_map: "map_of (int_spread a b) = map_of a ++ map_of (rev b)"
  unfolding int_spread_def
proof (induction b arbitrary: a)
  case (Cons kv b)
  obtain k v where kv: "kv = (k, v)" by (cases kv)
  have "map_of (foldl (\<lambda>m (k, v). int_set m k v) a (kv # b)) = (map_of a)(k \<mapsto> v) ++ map_of (rev b)"
    unfolding kv foldl_Cons prod.case Cons map_of_int_set ..
  also have "\<dots> = map_of a ++ map_of (rev (kv # b))" by (rule ext) (simp add: kv map_add_def split: option.split)
  finally show ?case .
qed simp

lemma int_spread_ascending: "ascending a \<Longrightarrow> ascending (int_spread a b)"
  unfolding int_spread_def by (induction b arbitrary: a) (auto simp: ascending_int_set)

lemma ascending_distinct: "ascending o1 \<Longrightarrow> distinct (map fst o1)"
  by (simp add: ascending_def strict_sorted_iff)

lemma keyBy_spread: "keyBy_id (Some xs) = int_spread [] (map (\<lambda>x. (tm_id x, x)) xs)"
  by (simp add: keyBy_id_def int_spread_def foldl_map)

lemma keyBy_ascending: "ascending (keyBy_id xs)"
proof (cases xs)
  case (Some ys)
  show ?thesis unfolding Some keyBy_spread by (rule int_spread_ascending) (simp add: ascending_def)
qed (simp add: keyBy_id_def ascending_def)

lemma keyBy_map: "map_of (keyBy_id (Some xs)) = map_of (rev (map (\<lambda>x. (tm_id x, x)) xs))"
  by (simp add: keyBy_spread int_spread_map)

definition keyed :: "(int \<times> timetable_item) list \<Rightarrow> bool" where
  "keyed o1 \<longleftrightarrow> (\<forall>(k, v)\<in>set o1. tm_id v = k)"

lemma keyed_int_set: "keyed o1 \<Longrightarrow> tm_id v = k \<Longrightarrow> keyed (int_set o1 k v)"
  by (induction o1 k v rule: int_set.induct) (auto simp: keyed_def)

lemma keyed_spread: "keyed a \<Longrightarrow> keyed b \<Longrightarrow> keyed (int_spread a b)"
  unfolding int_spread_def
proof (induction b arbitrary: a)
  case (Cons kv b)
  obtain k v where kv: "kv = (k, v)" by (cases kv)
  have "keyed b" "tm_id v = k" using Cons.prems(2) by (auto simp: kv keyed_def)
  moreover from this have "keyed (int_set a k v)" using Cons.prems(1) by (intro keyed_int_set)
  ultimately show ?case using Cons.IH by (simp add: kv)
qed simp

lemma keyed_keyBy: "keyed (keyBy_id xs)"
proof (cases xs)
  case (Some ys)
  have "keyed (map (\<lambda>x. (tm_id x, x)) ys)" by (auto simp: keyed_def)
  then show ?thesis unfolding Some keyBy_spread by (intro keyed_spread) (simp_all add: keyed_def)
qed (simp add: keyBy_id_def keyed_def)

definition by_id :: "timetable_item list \<Rightarrow> int \<Rightarrow> timetable_item option" where
  "by_id xs = map_of (map (\<lambda>x. (tm_id x, x)) xs)"

lemma by_id_cong:
  assumes "distinct (map tm_id xs)" "set ys = set xs" "distinct ys"
  shows "by_id ys = by_id xs"
proof -
  have d: "distinct (map tm_id ys)" using assms by (metis distinct_map)
  have "map_of (map (\<lambda>x. (tm_id x, x)) ys) = map_of (map (\<lambda>x. (tm_id x, x)) xs)"
    using d assms(1,2) by (subst map_of_inject_set) (simp_all add: comp_def)
  then show ?thesis by (simp add: by_id_def)
qed

lemma by_id_values: "keyed o1 \<Longrightarrow> by_id (map snd o1) = map_of o1"
proof -
  assume "keyed o1"
  then have "map (\<lambda>x. (tm_id x, x)) (map snd o1) = o1" by (induction o1) (auto simp: keyed_def)
  then show ?thesis by (simp add: by_id_def)
qed

lemma upsert_items_by_id:
  assumes "distinct (map tm_id (case prev of None \<Rightarrow> [] | Some xs \<Rightarrow> xs))" "distinct (map tm_id items)"
  shows "by_id (upsert_items prev items) = by_id (case prev of None \<Rightarrow> [] | Some xs \<Rightarrow> xs) ++ by_id items"
    "distinct (map tm_id (upsert_items prev items))" "sorted (map ts_start_time (upsert_items prev items))"
proof -
  let ?o = "int_spread (keyBy_id prev) (keyBy_id (Some items))"
  have k: "keyed ?o" by (intro keyed_spread keyed_keyBy)
  have "distinct (map fst ?o)" by (intro ascending_distinct int_spread_ascending keyBy_ascending)
  moreover have "map tm_id (map snd ?o) = map fst ?o" using k by (auto simp: keyed_def)
  ultimately have d: "distinct (map tm_id (map snd ?o))" by (simp only:)
  then have d': "distinct (map snd ?o)" by (metis distinct_map)
  have rev: "map_of (rev (map (\<lambda>x. (tm_id x, x)) xs)) = by_id xs" if "distinct (map tm_id xs)" for xs :: "timetable_item list"
    unfolding by_id_def using that by (subst map_of_inject_set) (simp_all add: rev_map [symmetric] comp_def)
  show "by_id (upsert_items prev items) = by_id (case prev of None \<Rightarrow> [] | Some xs \<Rightarrow> xs) ++ by_id items"
  proof -
    have "by_id (upsert_items prev items) = by_id (map snd ?o)"
      unfolding upsert_items_def by (rule by_id_cong [OF d]) (simp_all add: d')
    also have "\<dots> = map_of (keyBy_id prev) ++ map_of (rev (keyBy_id (Some items)))"
      using by_id_values [OF k] by (simp add: int_spread_map)
    also have "map_of (rev (keyBy_id (Some items))) = map_of (keyBy_id (Some items))"
      using ascending_distinct [OF keyBy_ascending, of "Some items"] by (subst map_of_inject_set) (simp_all add: rev_map [symmetric])
    also have "map_of (keyBy_id (Some items)) = by_id items" using rev [OF assms(2)] by (simp add: keyBy_map)
    also have "map_of (keyBy_id prev) = by_id (case prev of None \<Rightarrow> [] | Some xs \<Rightarrow> xs)"
      using rev assms(1) by (cases prev) (simp_all add: keyBy_map, simp_all add: keyBy_id_def by_id_def)
    finally show ?thesis .
  qed
  have "set (map tm_id (upsert_items prev items)) = set (map tm_id (map snd ?o))" by (simp only: upsert_items_def set_map set_sort)
  moreover have "length (upsert_items prev items) = length (map snd ?o)" by (simp add: upsert_items_def)
  ultimately show "distinct (map tm_id (upsert_items prev items))"
    using d by (metis card_distinct distinct_card length_map)
  show "sorted (map ts_start_time (upsert_items prev items))" by (simp add: upsert_items_def)
qed

definition items_of :: "scenario_data \<Rightarrow> timetable_item list" where
  "items_of sd = (case sd_timetableItems sd of None \<Rightarrow> [] | Some xs \<Rightarrow> xs)"

definition one_train_per_id :: "scenario_data \<Rightarrow> bool" where
  "one_train_per_id sd \<longleftrightarrow> distinct (map tm_id (items_of sd))"

lemma map_of_payloads:
  "map_of (map (\<lambda>item. (tm_id item, train_payload.truncate item)) xs) i = map_option train_payload.truncate (by_id xs i)"
  by (induction xs) (auto simp: by_id_def)

lemma shown_by_id: "shown_trains sd i = map_option train_payload.truncate (by_id (items_of sd) i)"
  by (simp add: shown_trains_def items_of_def map_of_payloads split: option.split) (simp add: by_id_def)

lemma shown_iff:
  assumes "one_train_per_id sd"
  shows "shown_trains sd i = Some t \<longleftrightarrow> (\<exists>item\<in>set (items_of sd). tm_id item = i \<and> train_payload.truncate item = t)"
proof -
  have "by_id (items_of sd) i = Some item \<longleftrightarrow> item \<in> set (items_of sd) \<and> tm_id item = i" for item
    using assms unfolding by_id_def one_train_per_id_def by (subst map_of_eq_Some_iff) (auto simp: comp_def)
  then show ?thesis unfolding shown_by_id by auto
qed

lemma upsert_shown:
  assumes "one_train_per_id sd" "distinct (map tm_id items)"
  shows "shown_trains (upsertTimetableItems items sd) =
      shown_trains sd ++ map_of (map (\<lambda>item. (tm_id item, train_payload.truncate item)) items)"
    "one_train_per_id (upsertTimetableItems items sd)"
    "sorted (map ts_start_time (items_of (upsertTimetableItems items sd)))"
proof -
  have i: "items_of (upsertTimetableItems items sd) = upsert_items (sd_timetableItems sd) items"
    by (simp add: items_of_def upsertTimetableItems_def)
  note u = upsert_items_by_id [OF assms(1) [unfolded one_train_per_id_def items_of_def] assms(2)]
  show "one_train_per_id (upsertTimetableItems items sd)" using u(2) by (simp add: one_train_per_id_def i)
  show "sorted (map ts_start_time (items_of (upsertTimetableItems items sd)))" using u(3) by (simp add: i)
  show "shown_trains (upsertTimetableItems items sd) =
      shown_trains sd ++ map_of (map (\<lambda>item. (tm_id item, train_payload.truncate item)) items)"
    unfolding shown_by_id [abs_def] i u(1) items_of_def [symmetric]
    by (rule ext) (simp add: map_of_payloads map_add_def split: option.split)
qed

lemma update_new: "k \<notin> fst ` set m \<Longrightarrow> AList.update k v m = m @ [(k, v)]"
  by (induction m) auto

lemma mapBy_id:
  fixes xs :: "timetable_item list"
  assumes "distinct (map tm_id xs)"
  shows "mapBy tm_id (Some xs) = map (\<lambda>x. (tm_id x, x)) xs"
proof -
  have "foldl (\<lambda>m x. AList.update (tm_id x) x m) m xs = m @ map (\<lambda>x. (tm_id x, x)) xs"
    if "distinct (map fst m @ map tm_id xs)" for m :: "(int \<times> timetable_item) list"
    using that
  proof (induction xs arbitrary: m)
    case (Cons x xs)
    have "AList.update (tm_id x) x m = m @ [(tm_id x, x)]"
      using Cons.prems by (intro update_new) auto
    then show ?case using Cons.IH [of "m @ [(tm_id x, x)]"] Cons.prems by simp
  qed simp
  from this [of "[]"] assms show ?thesis by (simp add: mapBy_def)
qed

lemma delete_ids: "foldl (\<lambda>m i. AList.delete i m) m ids = filter (\<lambda>(k, _). k \<notin> set ids) m"
  by (induction ids arbitrary: m) (auto simp: AList.delete_eq intro!: filter_cong)

lemma remove_items:
  assumes "one_train_per_id sd"
  shows "items_of (removeTimetableItems ids sd) = filter (\<lambda>item. tm_id item \<notin> set ids) (items_of sd)"
proof -
  have "map snd (filter (\<lambda>(k, _). k \<notin> set ids) (map (\<lambda>x. (tm_id x, x)) xs)) = filter (\<lambda>x. tm_id x \<notin> set ids) xs" for xs
    by (induction xs) auto
  then show ?thesis
    using assms mapBy_id
    by (cases "sd_timetableItems sd") (simp_all add: items_of_def removeTimetableItems_def delete_ids one_train_per_id_def, simp add: mapBy_def)
qed

lemma remove_shown:
  assumes "one_train_per_id sd"
  shows "shown_trains (removeTimetableItems ids sd) = shown_trains sd |` (- set ids)"
    "one_train_per_id (removeTimetableItems ids sd)"
proof -
  show o: "one_train_per_id (removeTimetableItems ids sd)"
    using assms by (simp add: one_train_per_id_def remove_items [OF assms] distinct_map_filter)
  show "shown_trains (removeTimetableItems ids sd) = shown_trains sd |` (- set ids)"
  proof (rule ext)
    fix i
    have "shown_trains (removeTimetableItems ids sd) i = Some t \<longleftrightarrow> (shown_trains sd |` (- set ids)) i = Some t" for t
      by (auto simp: restrict_map_def shown_iff [OF o] shown_iff [OF assms] remove_items [OF assms])
    then show "shown_trains (removeTimetableItems ids sd) i = (shown_trains sd |` (- set ids)) i"
      by (metis not_Some_eq)
  qed
qed

lemma departure_shown:
  assumes "one_train_per_id sd"
  shows "shown_trains (setTimetableItemDepartureTime i d sd) =
      (case shown_trains sd i of None \<Rightarrow> shown_trains sd | Some t \<Rightarrow> (shown_trains sd)(i \<mapsto> t\<lparr>ts_start_time := d\<rparr>))"
    "one_train_per_id (setTimetableItemDepartureTime i d sd)"
proof -
  have find: "Option.bind (sd_timetableItems sd) (find (\<lambda>item. tm_id item = i)) = by_id (items_of sd) i"
  proof -
    have "find (\<lambda>item. tm_id item = i) xs = by_id xs i" for xs by (induction xs) (auto simp: by_id_def)
    then show ?thesis by (cases "sd_timetableItems sd") (simp_all add: items_of_def by_id_def)
  qed
  show "shown_trains (setTimetableItemDepartureTime i d sd) =
      (case shown_trains sd i of None \<Rightarrow> shown_trains sd | Some t \<Rightarrow> (shown_trains sd)(i \<mapsto> t\<lparr>ts_start_time := d\<rparr>))"
    "one_train_per_id (setTimetableItemDepartureTime i d sd)"
  proof (atomize (full), cases "by_id (items_of sd) i")
    case None
    then show "shown_trains (setTimetableItemDepartureTime i d sd) =
        (case shown_trains sd i of None \<Rightarrow> shown_trains sd | Some t \<Rightarrow> (shown_trains sd)(i \<mapsto> t\<lparr>ts_start_time := d\<rparr>)) \<and>
        one_train_per_id (setTimetableItemDepartureTime i d sd)"
      using assms by (simp add: setTimetableItemDepartureTime_def find shown_by_id)
  next
    case (Some item)
    let ?new = "item\<lparr>ts_start_time := d\<rparr>"
    have i: "tm_id item = i" using Some by (auto simp: by_id_def dest: map_of_SomeD)
    have set: "setTimetableItemDepartureTime i d sd = upsertTimetableItems [?new] sd"
      by (simp add: setTimetableItemDepartureTime_def find Some upsertTimetableItems_def)
    have "train_payload.truncate ?new = (train_payload.truncate item)\<lparr>ts_start_time := d\<rparr>" by (simp add: train_payload.defs)
    then show "shown_trains (setTimetableItemDepartureTime i d sd) =
        (case shown_trains sd i of None \<Rightarrow> shown_trains sd | Some t \<Rightarrow> (shown_trains sd)(i \<mapsto> t\<lparr>ts_start_time := d\<rparr>)) \<and>
        one_train_per_id (setTimetableItemDepartureTime i d sd)"
      using upsert_shown [OF assms, of "[?new]"] i Some by (simp add: set shown_by_id)
  qed
qed

lemma messages_keep_ids:
  assumes "one_train_per_id sd" "\<And>items. m = UpsertTimetableItems items \<Longrightarrow> distinct (map tm_id items)"
  shows "one_train_per_id (on_message sd m)"
  using assms upsert_shown(2) remove_shown(2) departure_shown(2) by (cases m) auto

text \<open>C23: the list of trains of a scenario implements a map from identifiers to trains: adding trains overwrites the
  trains with their identifiers, removing identifiers and changing a departure time touch no other train, and no
  identifier ever appears twice.\<close>

theorem scenario_trains_map:
  assumes "one_train_per_id sd" "distinct (map tm_id items)"
  shows "shown_trains (upsertTimetableItems items sd) =
      shown_trains sd ++ map_of (map (\<lambda>item. (tm_id item, train_payload.truncate item)) items) \<and>
    shown_trains (removeTimetableItems ids sd) = shown_trains sd |` (- set ids) \<and>
    shown_trains (setTimetableItemDepartureTime i d sd) =
      (case shown_trains sd i of None \<Rightarrow> shown_trains sd | Some t \<Rightarrow> (shown_trains sd)(i \<mapsto> t\<lparr>ts_start_time := d\<rparr>)) \<and>
    one_train_per_id (upsertTimetableItems items sd) \<and> one_train_per_id (removeTimetableItems ids sd) \<and>
    one_train_per_id (setTimetableItemDepartureTime i d sd) \<and>
    sorted (map ts_start_time (case sd_timetableItems (upsertTimetableItems items sd) of None \<Rightarrow> [] | Some xs \<Rightarrow> xs))"
  using upsert_shown [OF assms] remove_shown [OF assms(1), of ids] departure_shown [OF assms(1), of i d]
  unfolding items_of_def by blast

definition shown_train :: "int \<Rightarrow> string \<Rightarrow> timetable_item" where
  "shown_train i start = train_payload.extend (DEFAULT_TRAIN_SCHEDULE_PAYLOAD\<lparr>ts_start_time := start\<rparr>) (timetable_item.fields i)"

theorem scenario_trains_map_witness:
  "shown_trains (upsertTimetableItems [shown_train 3 ''b'', shown_train 1 ''a'']
     \<lparr>sd_timetableItems = Some [shown_train 3 ''c''], sd_selectedTimetableItemIds = []\<rparr>) 3 =
   Some (DEFAULT_TRAIN_SCHEDULE_PAYLOAD\<lparr>ts_start_time := ''b''\<rparr>)"
proof -
  let ?sd = "\<lparr>sd_timetableItems = Some [shown_train 3 ''c''], sd_selectedTimetableItemIds = []\<rparr>"
  have f: "tm_id (shown_train i s) = i" "train_payload.truncate (shown_train i s) = DEFAULT_TRAIN_SCHEDULE_PAYLOAD\<lparr>ts_start_time := s\<rparr>" for i s
    by (simp_all add: shown_train_def timetable_item.defs train_payload.defs DEFAULT_TRAIN_SCHEDULE_PAYLOAD_def)
  have "one_train_per_id ?sd" "distinct (map tm_id [shown_train 3 ''b'', shown_train 1 ''a''])"
    by (simp_all add: one_train_per_id_def items_of_def f)
  from scenario_trains_map [OF this] show ?thesis by (simp add: f)
qed

lemma find_SomeD: "find P xs = Some x \<Longrightarrow> x \<in> set xs"
  by (metis find_Some_iff nth_mem)

lemma selected_projection:
  assumes "firstTrainCanBeUsedForProjection trains = Some t" "select_for_projection st trains = Inr st'"
  shows "selected_item_id st' = Inr (Some (of_int (pj_id t))) \<and> truthy (sr_trainIdUsedForProjection st')"
proof -
  let ?p = "formatEditoastIdToPacedTrainId (of_int (pj_id t))"
  have p: "\<not> isOccurrenceId ?p" "?p \<noteq> []"
    using id_kinds_disjoint [of ?p] kinds(1) by (auto simp: formatEditoastIdToPacedTrainId_def)
  show ?thesis
  proof (cases "pj_paced t")
    case False
    then have "st' = st\<lparr>sr_trainIdUsedForProjection := Some ?p, sr_selectedTrainId := Some ?p\<rparr>"
      using assms by (auto simp: select_for_projection_def Let_def)
    then show ?thesis using p extract_paced [of "pj_id t"] by (simp add: selected_item_id_def truthy_def)
  next
    case True
    let ?o = "formatEditoastIdToIndexedOccurrenceId (of_int (pj_id t)) 0"
    have "formatPacedTrainIdToIndexedOccurrenceId ?p 0 = Inr ?o"
      by (simp add: formatPacedTrainIdToIndexedOccurrenceId_def extract_paced)
    then have st': "st' = st\<lparr>sr_trainIdUsedForProjection := Some ?p, sr_selectedTrainId := Some ?o\<rparr>"
      using assms True by (auto simp: select_for_projection_def Let_def)
    have "isOccurrenceId ?o" "?o \<noteq> []"
      using kinds(2) by (auto simp: isOccurrenceId_def formatEditoastIdToIndexedOccurrenceId_def)
    moreover have "extractPacedTrainIdFromOccurrenceId ?o = Inr ?p"
      using extract_indexed(1) [of "pj_id t" 0] by simp
    ultimately show ?thesis using p extract_paced [of "pj_id t"] by (simp add: st' selected_item_id_def truthy_def)
  qed
qed

text \<open>When some train of the timetable can be projected, the automatic selection leaves a selected train that is in
  the timetable and a train used for the projection, whatever was selected before.\<close>

lemma auto_select_in_timetable:
  assumes "autoSelectTrainIds (Some ids) trains st = Inr st'" "pj_id ` set trains \<subseteq> set ids"
    and "\<exists>t\<in>set trains. pj_summary_valid t \<or> pj_valid_pathfinding t"
  shows "(\<exists>i\<in>set ids. selected_item_id st' = Inr (Some (of_int i))) \<and> truthy (sr_trainIdUsedForProjection st')"
proof -
  obtain t where t: "firstTrainCanBeUsedForProjection trains = Some t" "t \<in> set trains"
  proof (cases "find pj_summary_valid trains")
    case None
    then have "find pj_valid_pathfinding trains \<noteq> None" using assms(3) by (auto simp: find_None_iff)
    then obtain t where t: "find pj_valid_pathfinding trains = Some t" by blast
    show ?thesis using that [of t] None t find_SomeD [OF t] by (simp add: firstTrainCanBeUsedForProjection_def)
  next
    case (Some t)
    then show ?thesis using that [of t] find_SomeD [OF Some] by (simp add: firstTrainCanBeUsedForProjection_def)
  qed
  have proj: ?thesis if "select_for_projection st trains = Inr st'"
    using selected_projection [OF t(1) that] t(2) assms(2) by auto
  have ids: "ids \<noteq> []" using t(2) assms(2) by auto
  with assms(1) obtain x where x: "selected_item_id st = Inr x" by (auto simp: autoSelectTrainIds_def)
  show ?thesis
  proof (cases "\<exists>n i. x = Some n \<and> n \<noteq> 0 \<and> i \<in> set ids \<and> n = of_int i")
    case True
    then obtain i where i: "x = Some (of_int i)" "(of_int i :: num) \<noteq> 0" "i \<in> set ids" by blast
    show ?thesis
    proof (cases "truthy (sr_trainIdUsedForProjection st)")
      case True
      then have "st' = st" using assms(1) ids x i by (auto simp: autoSelectTrainIds_def)
      then show ?thesis using True x i by auto
    next
      case False
      then have "st' = st\<lparr>sr_trainIdUsedForProjection := Some (formatEditoastIdToPacedTrainId (of_int i))\<rparr>"
        using assms(1) ids x i by (auto simp: autoSelectTrainIds_def)
      then show ?thesis
        using x i by (auto simp: selected_item_id_def truthy_def formatEditoastIdToPacedTrainId_def)
    qed
  next
    case False
    then have "select_for_projection st trains = Inr st'"
      using assms(1) ids x by (auto simp: autoSelectTrainIds_def split: option.splits if_splits)
    then show ?thesis by (rule proj)
  qed
qed

end
