(* ===== verification/MacroEventProperties.thy ===== *)
theory MacroEventProperties
  imports MacroEvents ScenarioProperties
begin

text \<open>
  Properties of the events of the netzgrafik editor. The laws of the server are the hypothesis \<open>timetable_server\<close>: what
  reading, creating, replacing and deleting trains do to the trains it has, and that the other requests leave them. The server does not
  store a payload as it was sent: it fills in defaults for absent fields and writes dates its own way (\<open>stored\<close>). The handlers are treated
  with the triple \<open>valid P m Q E\<close>, which gives a postcondition for a normal return and one for an exception. The trains that the
  scenario shows follow the server through every event, failing requests included, and the trainruns stay linked to trains that exist.
\<close>

section \<open>The laws of the server\<close>

text \<open>How the server stores a payload: an absent optional field is stored as its default, dates and durations in one
  notation, so that storing what was read back changes nothing. The name, the rolling stock, the labels and the steps of the path are
  those of the payload.\<close>

definition storage_form :: "(train_payload \<Rightarrow> train_payload) \<Rightarrow> bool" where
  "storage_form stored \<longleftrightarrow> (\<forall>t. stored (stored t) = stored t \<and> ts_train_name (stored t) = ts_train_name t \<and>
     ts_rolling_stock_name (stored t) = ts_rolling_stock_name t \<and>
     case_option [] (\<lambda>l. l) (ts_labels (stored t)) = case_option [] (\<lambda>l. l) (ts_labels t) \<and>
     map pi_id (ts_path (stored t)) = map pi_id (ts_path t))"

definition timetable_server :: "'s server \<Rightarrow> (train_payload \<Rightarrow> train_payload) \<Rightarrow> ('s \<Rightarrow> int \<Rightarrow> train_payload option) \<Rightarrow> bool" where
  "timetable_server srv stored trains \<longleftrightarrow>
     storage_form stored \<and>
     (\<forall>s i item. sv_getTrain srv s i = Inr item \<longrightarrow> tm_id item = i \<and> trains s i = Some (train_payload.truncate item)) \<and>
     (\<forall>s ts items s'. sv_postTrains srv s ts = Inr (items, s') \<longrightarrow>
        map train_payload.truncate items = map stored ts \<and> distinct (map tm_id items) \<and>
        (\<forall>item\<in>set items. tm_id item \<noteq> 0 \<and> trains s (tm_id item) = None) \<and>
        trains s' = trains s ++ map_of (map (\<lambda>item. (tm_id item, train_payload.truncate item)) items)) \<and>
     (\<forall>s i t s'. sv_putTrain srv s i t = Inr s' \<longrightarrow> trains s i \<noteq> None \<and> trains s' = (trains s)(i \<mapsto> stored t)) \<and>
     (\<forall>s ids s'. sv_deleteTrains srv s ids = Inr s' \<longrightarrow> trains s' = trains s |` (- set ids)) \<and>
     (\<forall>s a b s'. sv_postRoundTrips srv s a b = Inr s' \<longrightarrow> trains s' = trains s) \<and>
     (\<forall>s a n r s'. sv_postNode srv s a n = Inr (r, s') \<longrightarrow> trains s' = trains s) \<and>
     (\<forall>s i n s'. sv_putNode srv s i n = Inr s' \<longrightarrow> trains s' = trains s) \<and>
     (\<forall>s i s'. sv_deleteNode srv s i = Inr s' \<longrightarrow> trains s' = trains s) \<and>
     (\<forall>s a n r s'. sv_postNote srv s a n = Inr (r, s') \<longrightarrow> trains s' = trains s) \<and>
     (\<forall>s i n s'. sv_putNote srv s i n = Inr s' \<longrightarrow> trains s' = trains s) \<and>
     (\<forall>s i s'. sv_deleteNote srv s i = Inr s' \<longrightarrow> trains s' = trains s)"

lemma server_laws:
  assumes "timetable_server srv stored trains"
  shows server_stored: "storage_form stored"
    and server_get: "sv_getTrain srv s i = Inr item \<Longrightarrow> tm_id item = i \<and> trains s i = Some (train_payload.truncate item)"
    and server_post: "sv_postTrains srv s ts = Inr (items, s') \<Longrightarrow>
      map train_payload.truncate items = map stored ts \<and> distinct (map tm_id items) \<and>
      (\<forall>item\<in>set items. tm_id item \<noteq> 0 \<and> trains s (tm_id item) = None) \<and>
      trains s' = trains s ++ map_of (map (\<lambda>item. (tm_id item, train_payload.truncate item)) items)"
    and server_put: "sv_putTrain srv s i t = Inr s' \<Longrightarrow> trains s i \<noteq> None \<and> trains s' = (trains s)(i \<mapsto> stored t)"
    and server_delete: "sv_deleteTrains srv s ids = Inr s' \<Longrightarrow> trains s' = trains s |` (- set ids)"
    and server_round_trips: "sv_postRoundTrips srv s x y = Inr s' \<Longrightarrow> trains s' = trains s"
    and server_node: "sv_postNode srv s c n = Inr (r, s') \<Longrightarrow> trains s' = trains s"
      "sv_putNode srv s i n = Inr s' \<Longrightarrow> trains s' = trains s"
      "sv_deleteNode srv s i = Inr s' \<Longrightarrow> trains s' = trains s"
    and server_note: "sv_postNote srv s c m = Inr (d, s') \<Longrightarrow> trains s' = trains s"
      "sv_putNote srv s i m = Inr s' \<Longrightarrow> trains s' = trains s"
      "sv_deleteNote srv s i = Inr s' \<Longrightarrow> trains s' = trains s"
proof -
  note all = assms [unfolded timetable_server_def, THEN conjunct2]
  note laws = all [THEN conjunct1] all [THEN conjunct2, THEN conjunct1] all [THEN conjunct2, THEN conjunct2, THEN conjunct1]
    all [THEN conjunct2, THEN conjunct2, THEN conjunct2, THEN conjunct1]
  note rest = all [THEN conjunct2, THEN conjunct2, THEN conjunct2, THEN conjunct2]
  show "storage_form stored" using assms by (simp add: timetable_server_def)
  show "sv_getTrain srv s i = Inr item \<Longrightarrow> tm_id item = i \<and> trains s i = Some (train_payload.truncate item)" using laws(1) by simp
  show "sv_postTrains srv s ts = Inr (items, s') \<Longrightarrow>
      map train_payload.truncate items = map stored ts \<and> distinct (map tm_id items) \<and>
      (\<forall>item\<in>set items. tm_id item \<noteq> 0 \<and> trains s (tm_id item) = None) \<and>
      trains s' = trains s ++ map_of (map (\<lambda>item. (tm_id item, train_payload.truncate item)) items)" using laws(2) by simp
  show "sv_putTrain srv s i t = Inr s' \<Longrightarrow> trains s i \<noteq> None \<and> trains s' = (trains s)(i \<mapsto> stored t)" using laws(3) by simp
  show "sv_deleteTrains srv s ids = Inr s' \<Longrightarrow> trains s' = trains s |` (- set ids)" using laws(4) by simp
  show "sv_postRoundTrips srv s x y = Inr s' \<Longrightarrow> trains s' = trains s" "sv_postNode srv s c n = Inr (r, s') \<Longrightarrow> trains s' = trains s"
    "sv_putNode srv s i n = Inr s' \<Longrightarrow> trains s' = trains s" "sv_deleteNode srv s i = Inr s' \<Longrightarrow> trains s' = trains s"
    "sv_postNote srv s c m = Inr (d, s') \<Longrightarrow> trains s' = trains s" "sv_putNote srv s i m = Inr s' \<Longrightarrow> trains s' = trains s"
    "sv_deleteNote srv s i = Inr s' \<Longrightarrow> trains s' = trains s" using rest by (simp_all del: split_paired_All)
qed

section \<open>Rules for handlers\<close>

definition valid :: "('s world \<Rightarrow> bool) \<Rightarrow> ('s, 'a) handler \<Rightarrow> ('a \<Rightarrow> 's world \<Rightarrow> bool) \<Rightarrow> ('s world \<Rightarrow> bool) \<Rightarrow> bool" where
  "valid P m Q E \<longleftrightarrow> (\<forall>w. P w \<longrightarrow> (case m w of (Inl e, w') \<Rightarrow> E w' | (Inr x, w') \<Rightarrow> Q x w'))"

abbreviation keeps :: "('s world \<Rightarrow> bool) \<Rightarrow> ('s, 'a) handler \<Rightarrow> bool" where
  "keeps I m \<equiv> valid I m (\<lambda>_. I) I"

named_theorems handler_rules \<open>rules for the handlers that keep an invariant\<close>

lemma validD: "valid P m Q E \<Longrightarrow> P w \<Longrightarrow> (case m w of (Inl e, w') \<Rightarrow> E w' | (Inr x, w') \<Rightarrow> Q x w')"
  by (simp add: valid_def)

lemma valid_pre: "valid P m Q E \<Longrightarrow> (\<And>w. R w \<Longrightarrow> P w) \<Longrightarrow> valid R m Q E"
  by (simp add: valid_def)

lemma valid_post:
  assumes "valid P m R F" "\<And>x w. R x w \<Longrightarrow> Q x w" "\<And>w. F w \<Longrightarrow> E w"
  shows "valid P m Q E"
  unfolding valid_def
proof (intro allI impI)
  fix w assume "P w"
  from validD [OF assms(1) this] show "case m w of (Inl e, w') \<Rightarrow> E w' | (Inr x, w') \<Rightarrow> Q x w'"
    using assms(2,3) by (auto split: prod.splits sum.splits)
qed

lemma valid_then:
  assumes "valid P m R E" "\<And>x. valid (R x) (f x) Q E"
  shows "valid P (then_do m f) Q E"
  unfolding valid_def
proof (intro allI impI)
  fix w assume "P w"
  obtain r w' where m: "m w = (r, w')" by (cases "m w")
  show "case then_do m f w of (Inl e, w') \<Rightarrow> E w' | (Inr x, w') \<Rightarrow> Q x w'"
    using validD [OF assms(1) \<open>P w\<close>] validD [OF assms(2)] by (cases r) (auto simp: then_do_def m)
qed

lemma valid_done: "valid (Q x) (done_with x) Q E"
  by (simp add: valid_def done_with_def)

lemma keeps_then [handler_rules]: "keeps I m \<Longrightarrow> (\<And>x. keeps I (f x)) \<Longrightarrow> keeps I (then_do m f)"
  by (rule valid_then)

lemma keeps_done [handler_rules]: "keeps I (done_with x)"
  by (rule valid_done)

lemma keeps_compute [handler_rules]: "keeps I (compute f)"
  by (simp add: valid_def compute_def split: sum.split)

lemma keeps_for_each: "(\<And>x. x \<in> set xs \<Longrightarrow> keeps I (f x)) \<Longrightarrow> keeps I (for_each f xs)"
  by (induction xs) (auto intro: handler_rules)

lemma keeps_not_awaited [handler_rules]: "keeps I m \<Longrightarrow> keeps I (not_awaited m)"
  unfolding valid_def not_awaited_def by (simp split: prod.splits sum.splits) (metis sum.exhaust_sel snd_conv surj_pair)

lemma keeps_change: "(\<And>w. I w \<Longrightarrow> I (f w)) \<Longrightarrow> keeps I (change f)"
  by (simp add: valid_def change_def)

lemma keeps_send:
  "(\<And>w s. I w \<Longrightarrow> req (wo_server w) = Inr s \<Longrightarrow> I (w\<lparr>wo_server := s\<rparr>)) \<Longrightarrow> keeps I (send req)"
  unfolding valid_def send_def by (auto split: sum.splits)

lemma keeps_ask:
  "(\<And>w x s. I w \<Longrightarrow> req (wo_server w) = Inr (x, s) \<Longrightarrow> I (w\<lparr>wo_server := s\<rparr>)) \<Longrightarrow> keeps I (ask req)"
  unfolding valid_def ask_def by (auto split: sum.splits)

lemma keeps_on_macro:
  "(\<And>w st. I w \<Longrightarrow> f (wo_macro w) = Inr st \<Longrightarrow> I (w\<lparr>wo_macro := st\<rparr>)) \<Longrightarrow> keeps I (on_macro f)"
  unfolding valid_def on_macro_def by (auto split: sum.splits)

lemma keeps_dispatch:
  "(\<And>w r. I w \<Longrightarrow> simulationResultsSlice (wo_results w) a = Inr r \<Longrightarrow> I (w\<lparr>wo_results := r\<rparr>)) \<Longrightarrow>
   keeps I (dispatch_simulation a)"
  unfolding valid_def dispatch_simulation_def by (auto split: sum.splits)

section \<open>The scenario follows the server\<close>

definition train_ids :: "simulation_results \<Rightarrow> string set" where
  "train_ids r = set_option (sr_selectedTrainId r) \<union> set_option (sr_hoveredTrainId r) \<union> set_option (sr_trainIdUsedForProjection r)"

definition refers :: "string \<Rightarrow> int \<Rightarrow> bool" where
  "refers t n \<longleftrightarrow> t = formatEditoastIdToPacedTrainId (of_int n) \<or>
     isOccurrenceId t \<and> extractPacedTrainIdFromOccurrenceId t = Inr (formatEditoastIdToPacedTrainId (of_int n))"

definition in_sync :: "(train_payload \<Rightarrow> train_payload) \<Rightarrow> ('s \<Rightarrow> int \<Rightarrow> train_payload option) \<Rightarrow> 's world \<Rightarrow> bool" where
  "in_sync stored trains w \<longleftrightarrow>
     one_train_per_id (wo_scenario w) \<and> (\<lambda>i. map_option stored (shown_trains (wo_scenario w) i)) = trains (wo_server w) \<and>
     set (sd_selectedTimetableItemIds (wo_scenario w)) \<subseteq> dom (trains (wo_server w)) \<and>
     (\<forall>t\<in>train_ids (wo_results w). \<forall>n. refers t n \<longrightarrow> trains (wo_server w) n \<noteq> None) \<and> wo_started w = []"

lemma unset_if_subset: "unset_if p i = Inr j \<Longrightarrow> j = i \<or> j = None"
  by (auto simp: unset_if_def split: if_splits)

lemma unset_if_not: "unset_if p i = Inr (Some t) \<Longrightarrow> i = Some t \<and> p (Some t) = Inr False"
  by (auto simp: unset_if_def split: if_splits)

lemma unset_ids:
  assumes "unset_train_ids p r = Inr r'"
  shows "train_ids r' \<subseteq> train_ids r" "\<And>t. t \<in> train_ids r' \<Longrightarrow> p (Some t) = Inr False"
proof -
  from assms obtain a b c where abc: "unset_if p (sr_trainIdUsedForProjection r) = Inr a" "unset_if p (sr_selectedTrainId r) = Inr b"
    "unset_if p (sr_hoveredTrainId r) = Inr c"
    and r': "r' = r\<lparr>sr_trainIdUsedForProjection := a, sr_selectedTrainId := b, sr_hoveredTrainId := c\<rparr>"
    by (auto simp: unset_train_ids_def)
  show "train_ids r' \<subseteq> train_ids r"
    using abc [THEN unset_if_subset] by (auto simp: train_ids_def r')
  show "p (Some t) = Inr False" if "t \<in> train_ids r'" for t
    using that abc unset_if_not [of p] by (auto simp: train_ids_def r')
qed

lemma unset_matching:
  assumes "simulationResultsSlice r (UnsetTrainIdsMatching (formatEditoastIdToPacedTrainId (of_int n))) = Inr r'"
  shows "train_ids r' \<subseteq> train_ids r" "\<And>t. t \<in> train_ids r' \<Longrightarrow> \<not> refers t n"
proof -
  let ?p = "\<lambda>i. if i = Some (formatEditoastIdToPacedTrainId (of_int n)) then Inr True
      else isIdMatchingOccurence (formatEditoastIdToPacedTrainId (of_int n)) i"
  have u: "unset_train_ids ?p r = Inr r'" using assms by simp
  show "train_ids r' \<subseteq> train_ids r" using unset_ids(1) [OF u] .
  show "\<not> refers t n" if "t \<in> train_ids r'" for t
  proof
    assume "refers t n"
    moreover have "isOccurrenceId t \<Longrightarrow> t \<noteq> []"
      by (auto simp: isOccurrenceId_def isIndexedOccurrenceId_def isAddedExceptionId_def starts_with_def)
    ultimately show False
      using unset_ids(2) [OF u that] by (auto simp: refers_def isIdMatchingOccurence_def split: if_splits)
  qed
qed

lemma sync_results: "in_sync stored trains w \<Longrightarrow> train_ids r \<subseteq> train_ids (wo_results w) \<Longrightarrow> in_sync stored trains (w\<lparr>wo_results := r\<rparr>)"
  by (auto simp: in_sync_def)

lemma sync_server: "in_sync stored trains w \<Longrightarrow> trains s = trains (wo_server w) \<Longrightarrow> in_sync stored trains (w\<lparr>wo_server := s\<rparr>)"
  by (simp add: in_sync_def)

lemma sync_macro: "in_sync stored trains (w\<lparr>wo_macro := st\<rparr>) = in_sync stored trains w"
  by (simp add: in_sync_def)

lemma sync_put:
  assumes "in_sync stored trains w" "trains (wo_server w) i \<noteq> None" "trains s = (trains (wo_server w))(i \<mapsto> stored t)"
  shows "in_sync stored trains (w\<lparr>wo_server := s, wo_scenario := upsertTimetableItems [item_of i t] (wo_scenario w)\<rparr>)"
proof -
  have o: "one_train_per_id (wo_scenario w)" using assms(1) by (simp add: in_sync_def)
  have "sd_selectedTimetableItemIds (upsertTimetableItems items sd) = sd_selectedTimetableItemIds sd" for items sd
    by (simp add: upsertTimetableItems_def)
  moreover have "tm_id (item_of i t) = i" "train_payload.truncate (item_of i t) = t"
    by (simp_all add: item_of_def timetable_item.defs train_payload.defs)
  moreover have "(\<lambda>j. map_option stored (((shown_trains (wo_scenario w))(i \<mapsto> t)) j)) = trains s"
    using assms by (auto simp: in_sync_def fun_eq_iff)
  ultimately show ?thesis
    using assms upsert_shown [OF o, of "[item_of i t]"] by (auto simp: in_sync_def)
qed

lemma sync_post:
  assumes "in_sync stored trains w" "distinct (map tm_id items)"
    "\<forall>item\<in>set items. stored (train_payload.truncate item) = train_payload.truncate item"
    "trains s = trains (wo_server w) ++ map_of (map (\<lambda>item. (tm_id item, train_payload.truncate item)) items)"
  shows "in_sync stored trains (w\<lparr>wo_server := s, wo_scenario := upsertTimetableItems items (wo_scenario w)\<rparr>)"
proof -
  have o: "one_train_per_id (wo_scenario w)" using assms(1) by (simp add: in_sync_def)
  have "sd_selectedTimetableItemIds (upsertTimetableItems items sd) = sd_selectedTimetableItemIds sd" for sd
    by (simp add: upsertTimetableItems_def)
  moreover have "(\<lambda>j. map_option stored ((shown_trains (wo_scenario w) ++
      map_of (map (\<lambda>item. (tm_id item, train_payload.truncate item)) items)) j)) = trains s"
    using assms(1,3,4) by (auto simp: in_sync_def fun_eq_iff map_add_def dest!: map_of_SomeD split: option.splits)
  ultimately show ?thesis
    using assms upsert_shown [OF o assms(2)] by (auto simp: in_sync_def)
qed

lemma sync_delete:
  assumes "in_sync stored trains w" "trains s = trains (wo_server w) |` (- {i})" "\<forall>t\<in>train_ids (wo_results w). \<not> refers t i"
  shows "in_sync stored trains (w\<lparr>wo_server := s, wo_scenario := removeTimetableItems [i] (wo_scenario w)\<rparr>)"
proof -
  have o: "one_train_per_id (wo_scenario w)" using assms(1) by (simp add: in_sync_def)
  have "sd_selectedTimetableItemIds (removeTimetableItems ids sd) = filter (\<lambda>i. i \<notin> set ids) (sd_selectedTimetableItemIds sd)" for ids sd
    by (simp add: removeTimetableItems_def)
  moreover have "(\<lambda>j. map_option stored ((shown_trains (wo_scenario w) |` (- {i})) j)) = trains s"
    using assms(1,2) by (auto simp: in_sync_def fun_eq_iff restrict_map_def)
  ultimately show ?thesis
    using assms remove_shown [OF o, of "[i]"] by (fastforce simp: in_sync_def restrict_map_def)
qed

section \<open>Links between trainruns and trains\<close>

type_synonym links = "(int \<times> int \<times> int option) list"

definition link_ids :: "int \<times> int option \<Rightarrow> int set" where
  "link_ids v = insert (fst v) (set_option (snd v))"

definition linked_by :: "links \<Rightarrow> int \<Rightarrow> int set" where
  "linked_by m k = (case map_of m k of None \<Rightarrow> {} | Some v \<Rightarrow> link_ids v)"

definition links_ok :: "int set \<Rightarrow> links \<Rightarrow> bool" where
  "links_ok D m \<longleftrightarrow>
     (\<forall>k. linked_by m k \<subseteq> D - {0}) \<and> (\<forall>k v. map_of m k = Some v \<longrightarrow> Some (fst v) \<noteq> snd v) \<and>
     (\<forall>k k'. k \<noteq> k' \<longrightarrow> linked_by m k \<inter> linked_by m k' = {})"

lemma linked_update: "linked_by (AList.update k v m) k' = (if k' = k then link_ids v else linked_by m k')"
  by (simp add: linked_by_def update_conv')

lemma linked_delete: "linked_by (AList.delete k m) k' = (if k' = k then {} else linked_by m k')"
  by (simp add: linked_by_def delete_conv')

lemma links_update:
  assumes "links_ok D0 m" "D0 - linked_by m k \<subseteq> D" "link_ids v \<subseteq> D - {0}" "link_ids v \<inter> (D0 - linked_by m k) = {}"
    "Some (fst v) \<noteq> snd v"
  shows "links_ok D (AList.update k v m)"
proof -
  have other: "linked_by m k' \<subseteq> D0 - linked_by m k - {0}" if "k' \<noteq> k" for k'
    using assms(1) that unfolding links_ok_def by blast
  show ?thesis
    unfolding links_ok_def linked_update
  proof (intro conjI allI impI)
    show "(if k' = k then link_ids v else linked_by m k') \<subseteq> D - {0}" for k'
      using assms(2,3) other [of k'] by auto
    show "Some (fst x) \<noteq> snd x" if "map_of (AList.update k v m) k' = Some x" for k' x
      using that assms(1,5) by (auto simp: update_conv' links_ok_def split: if_splits)
    show "(if k1 = k then link_ids v else linked_by m k1) \<inter> (if k2 = k then link_ids v else linked_by m k2) = {}"
      if "k1 \<noteq> k2" for k1 k2
    proof (cases "k1 = k \<or> k2 = k")
      case True
      then show ?thesis using that assms(4) other [of k1] other [of k2] by (auto dest: equalityD1)
    next
      case False
      then show ?thesis using that assms(1) by (auto simp: links_ok_def)
    qed
  qed
qed

lemma links_delete:
  assumes "links_ok D0 m" "D0 - linked_by m k \<subseteq> D"
  shows "links_ok D (AList.delete k m)"
proof -
  have other: "linked_by m k' \<subseteq> D0 - linked_by m k - {0}" if "k' \<noteq> k" for k'
    using assms(1) that unfolding links_ok_def by blast
  show ?thesis
    using assms(1) other assms(2) unfolding links_ok_def linked_delete by (auto simp: delete_conv' split: if_splits)
qed

lemma links_mono: "links_ok D0 m \<Longrightarrow> D0 \<subseteq> D \<Longrightarrow> links_ok D m"
  unfolding links_ok_def by blast

section \<open>Requests on trains\<close>

definition world_ok :: "(train_payload \<Rightarrow> train_payload) \<Rightarrow> ('s \<Rightarrow> int \<Rightarrow> train_payload option) \<Rightarrow> (int set \<Rightarrow> macro_state \<Rightarrow> bool) \<Rightarrow> 's world \<Rightarrow> bool" where
  "world_ok stored trains R w \<longleftrightarrow> in_sync stored trains w \<and> R (dom (trains (wo_server w))) (wo_macro w)"

lemma valid_keep: "keeps P m \<Longrightarrow> (\<And>x. valid P (f x) Q E) \<Longrightarrow> (\<And>w. P w \<Longrightarrow> E w) \<Longrightarrow> valid P (then_do m f) Q E"
  by (rule valid_then [of P m "\<lambda>_. P"]) (auto intro: valid_post)

lemma fetch_valid:
  "timetable_server srv stored trains \<Longrightarrow> valid (world_ok stored trains R) (fetchTimetableItem srv i) (\<lambda>item w. world_ok stored trains R w \<and> tm_id item = i) (world_ok stored trains R)"
  by (auto simp: valid_def fetchTimetableItem_def compute_def dest: server_get split: sum.split)

lemma fetch_keeps [handler_rules]: "keeps I (fetchTimetableItem srv i)"
  by (simp add: fetchTimetableItem_def keeps_compute)

lemma send_keeps:
  assumes "timetable_server srv stored trains" "\<And>s s'. req s = Inr s' \<Longrightarrow> trains s' = trains s"
  shows "keeps (world_ok stored trains R) (send req)"
  by (rule keeps_send) (simp add: world_ok_def sync_server assms(2))

lemma round_trip_keeps: "timetable_server srv stored trains \<Longrightarrow> keeps (world_ok stored trains R) (storeRoundTrip srv a b)"
  unfolding storeRoundTrip_def by (rule send_keeps) (auto dest: server_round_trips split: if_splits)

lemma dispatch_keeps:
  assumes "\<And>r r'. simulationResultsSlice r a = Inr r' \<Longrightarrow> train_ids r' \<subseteq> train_ids r"
  shows "keeps (world_ok stored trains R) (dispatch_simulation a)"
  by (rule keeps_dispatch) (simp add: world_ok_def sync_results assms)

lemma store_valid:
  assumes srv: "timetable_server srv stored trains"
  shows "valid (world_ok stored trains R) (storePacedTrain h srv i t) (\<lambda>item w. world_ok stored trains R w \<and> tm_id item = i) (world_ok stored trains R)"
proof -
  have unset: "keeps (world_ok stored trains R) (dispatch_simulation (UnsetTrainIdsMatchingMissingOccurencesOf p os))" for p os
    by (rule dispatch_keeps) (auto dest: unset_ids(1))
  have "valid (world_ok stored trains R) (then_do (send (\<lambda>s. sv_putTrain srv s i t)) (\<lambda>_.
      let u = item_of i t in then_do (show_items [u]) (\<lambda>_. done_with u))) (\<lambda>item w. world_ok stored trains R w \<and> tm_id item = i) (world_ok stored trains R)"
    unfolding valid_def
  proof (intro allI impI)
    fix w assume w: "world_ok stored trains R w"
    have i: "tm_id (item_of i t) = i" by (simp add: item_of_def timetable_item.defs train_payload.defs)
    show "case then_do (send (\<lambda>s. sv_putTrain srv s i t)) (\<lambda>_. let u = item_of i t in then_do (show_items [u]) (\<lambda>_. done_with u)) w of
        (Inl e, w') \<Rightarrow> world_ok stored trains R w' | (Inr x, w') \<Rightarrow> world_ok stored trains R w' \<and> tm_id x = i"
    proof (cases "sv_putTrain srv (wo_server w) i t")
      case (Inl e)
      then show ?thesis using w by (simp add: then_do_def send_def)
    next
      case (Inr s)
      from server_put [OF srv Inr] have s: "trains (wo_server w) i \<noteq> None" "trains s = (trains (wo_server w))(i \<mapsto> stored t)" by simp_all
      moreover from this have "dom (trains s) = dom (trains (wo_server w))" by auto
      ultimately have "world_ok stored trains R (w\<lparr>wo_server := s, wo_scenario := upsertTimetableItems [item_of i t] (wo_scenario w)\<rparr>)"
        using w sync_put [of stored trains w i s t] by (simp add: world_ok_def)
      then show ?thesis
        using i by (simp add: then_do_def send_def Inr show_items_def change_def done_with_def Let_def)
    qed
  qed
  note put = this
  show ?thesis
    unfolding storePacedTrain_def
  proof (rule valid_keep)
    show "keeps (world_ok stored trains R) (case tp_paced t of None \<Rightarrow> done_with () | Some paced \<Rightarrow>
        let pacedTrainId = formatEditoastIdToPacedTrainId (of_int i) in
        then_do (compute (\<lambda>w. getOcurrencesIds (ho_parse h)
            (train_schedule.extend (train_schedule.truncate t) (paced_train.fields paced)) pacedTrainId))
          (\<lambda>occurrencesPresent. dispatch_simulation (UnsetTrainIdsMatchingMissingOccurencesOf pacedTrainId occurrencesPresent)))"
      by (cases "tp_paced t") (simp_all add: Let_def keeps_done keeps_then keeps_compute unset)
  qed (rule put)
qed

lemma delete_valid:
  assumes srv: "timetable_server srv stored trains"
  shows "valid (world_ok stored trains R) (deleteTimetableItemById srv i) (\<lambda>_. world_ok stored trains (\<lambda>D st. \<exists>D0. D = D0 - {i} \<and> R D0 st)) (world_ok stored trains R)"
  unfolding valid_def
proof (intro allI impI)
  fix w assume w: "world_ok stored trains R w"
  let ?a = "UnsetTrainIdsMatching (formatEditoastIdToPacedTrainId (of_int i))"
  show "case deleteTimetableItemById srv i w of (Inl e, w') \<Rightarrow> world_ok stored trains R w'
    | (Inr x, w') \<Rightarrow> world_ok stored trains (\<lambda>D st. \<exists>D0. D = D0 - {i} \<and> R D0 st) w'"
  proof (cases "simulationResultsSlice (wo_results w) ?a")
    case (Inl e)
    then show ?thesis
      using w by (simp add: deleteTimetableItemById_def deleteTrainSchedules_def then_do_def dispatch_simulation_def)
  next
    case (Inr r)
    let ?w = "w\<lparr>wo_results := r\<rparr>"
    note un = unset_matching [OF Inr]
    have w': "world_ok stored trains R ?w" using w un(1) by (simp add: world_ok_def sync_results)
    show ?thesis
    proof (cases "sv_deleteTrains srv (wo_server w) [i]")
      case (Inl e)
      then show ?thesis
        using w' Inr by (simp add: deleteTimetableItemById_def deleteTrainSchedules_def then_do_def dispatch_simulation_def done_with_def send_def)
    next
      case (Inr s)
      have s: "trains s = trains (wo_server ?w) |` (- {i})" using server_delete [OF srv Inr] by simp
      then have "dom (trains s) = dom (trains (wo_server w)) - {i}" by auto
      then have "world_ok stored trains (\<lambda>D st. \<exists>D0. D = D0 - {i} \<and> R D0 st)
          (?w\<lparr>wo_server := s, wo_scenario := removeTimetableItems [i] (wo_scenario ?w)\<rparr>)"
        using w' sync_delete [of stored trains ?w s i, OF _ s] un(2) by (auto simp: world_ok_def)
      then show ?thesis
        using Inr \<open>simulationResultsSlice (wo_results w) ?a = Inr r\<close>
        by (simp add: deleteTimetableItemById_def deleteTrainSchedules_def then_do_def dispatch_simulation_def done_with_def send_def
            hide_items_def change_def)
    qed
  qed
qed

text \<open>Trains that are created and shown: their identifiers are new.\<close>

definition created :: "(int set \<Rightarrow> macro_state \<Rightarrow> bool) \<Rightarrow> timetable_item list \<Rightarrow> int set \<Rightarrow> macro_state \<Rightarrow> bool" where
  "created R items D st \<longleftrightarrow>
     (\<exists>D0. R D0 st \<and> D = D0 \<union> tm_id ` set items \<and> tm_id ` set items \<inter> insert 0 D0 = {} \<and> distinct (map tm_id items))"

lemma create_valid:
  assumes srv: "timetable_server srv stored trains" and ts: "ts \<noteq> []"
    and g: "\<And>items. length items = length ts \<Longrightarrow> g items = then_do (show_items items) (\<lambda>_. f items)"
    and rest: "\<And>items. length items = length ts \<Longrightarrow> valid (world_ok stored trains (created R items)) (f items) Q E"
    and E: "\<And>w. world_ok stored trains R w \<Longrightarrow> E w"
  shows "valid (world_ok stored trains R) (then_do (createPacedTrains srv ts) g) Q E"
  unfolding valid_def
proof (intro allI impI)
  fix w assume w: "world_ok stored trains R w"
  show "case then_do (createPacedTrains srv ts) g w of
      (Inl e, w') \<Rightarrow> E w' | (Inr x, w') \<Rightarrow> Q x w'"
  proof (cases "sv_postTrains srv (wo_server w) ts")
    case (Inl e)
    then show ?thesis using E [OF w] ts by (simp add: then_do_def createPacedTrains_def ask_def)
  next
    case (Inr r)
    obtain items s where r: "r = (items, s)" by (cases r)
    from server_post [OF srv Inr [unfolded r]] have p: "map train_payload.truncate items = map stored ts" "distinct (map tm_id items)"
      "\<forall>item\<in>set items. tm_id item \<noteq> 0 \<and> trains (wo_server w) (tm_id item) = None"
      "trains s = trains (wo_server w) ++ map_of (map (\<lambda>item. (tm_id item, train_payload.truncate item)) items)" by simp_all
    let ?w = "w\<lparr>wo_server := s, wo_scenario := upsertTimetableItems items (wo_scenario w)\<rparr>"
    have "train_payload.truncate item \<in> stored ` set ts" if "item \<in> set items" for item
      using arg_cong [OF p(1), of set] that by auto
    then have st: "\<forall>item\<in>set items. stored (train_payload.truncate item) = train_payload.truncate item"
      using server_stored [OF srv] by (fastforce simp: storage_form_def)
    have "dom (trains s) = dom (trains (wo_server w)) \<union> tm_id ` set items"
      by (auto simp: p(4) dom_map_of_conv_image_fst image_image)
    then have "world_ok stored trains (created R items) ?w"
      using w sync_post [OF _ p(2) st p(4)] p(2,3) by (auto simp: world_ok_def created_def)
    moreover have len: "length items = length ts" using arg_cong [OF p(1), of length] by simp
    ultimately have "case f items ?w of (Inl e, w') \<Rightarrow> E w' | (Inr x, w') \<Rightarrow> Q x w'" by (intro validD [OF rest])
    then show ?thesis
      using ts by (simp add: then_do_def createPacedTrains_def ask_def Inr r g [OF len] show_items_def change_def)
  qed
qed

abbreviation links_of :: "macro_state \<Rightarrow> links" where
  "links_of st \<equiv> ms_timetableItemIdByNgeId st"

definition trains_linked :: "bool \<Rightarrow> int set \<Rightarrow> macro_state \<Rightarrow> bool" where
  "trains_linked L D st \<longleftrightarrow> (L \<longrightarrow> links_ok D (links_of st))"

definition linked_to :: "bool \<Rightarrow> int \<Rightarrow> int \<Rightarrow> int option \<Rightarrow> int set \<Rightarrow> macro_state \<Rightarrow> bool" where
  "linked_to L k f r D st \<longleftrightarrow> trains_linked L D st \<and> map_of (links_of st) k = Some (f, r)"

lemma world_ok_mono: "world_ok stored trains R w \<Longrightarrow> (\<And>D st. R D st \<Longrightarrow> S D st) \<Longrightarrow> world_ok stored trains S w"
  by (simp add: world_ok_def)

lemma linked_to_linked: "world_ok stored trains (linked_to L k f r) w \<Longrightarrow> world_ok stored trains (trains_linked L) w"
  by (erule world_ok_mono) (simp add: linked_to_def)

lemma link_valid:
  assumes "\<And>D st. R D st \<Longrightarrow> L \<Longrightarrow> links_ok D (AList.update k (a, b) (links_of st))"
  shows "valid (world_ok stored trains R) (link_trains k a b) (\<lambda>_. world_ok stored trains (trains_linked L)) E"
  using assms by (auto simp: valid_def link_trains_def on_macro_def world_ok_def trains_linked_def sync_macro)

lemma on_macro_keeps:
  assumes "\<And>st st'. f st = Inr st' \<Longrightarrow> links_of st' = links_of st"
  shows "keeps (world_ok stored trains (trains_linked L)) (on_macro f)"
  by (rule keeps_on_macro) (auto simp: world_ok_def trains_linked_def sync_macro assms)

lemma populate_keeps [handler_rules]: "keeps I (populateSecondaryCodesInPath srv infraId path)"
proof (induction path)
  case (Cons p path)
  have "keeps I (populate_item srv infraId p)"
    unfolding populate_item_def fetchStationSecondaryCode_def
    by (auto intro!: handler_rules split: location.split op_reference.split)
  then show ?case using Cons by (auto intro!: handler_rules)
qed (simp add: keeps_done)

lemma path_keeps [handler_rules]: "keeps I (path_and_schedule_of h dto sections d way)"
  by (simp add: path_and_schedule_of_def keeps_compute)

lemma category_keeps [handler_rules]: "keeps I (category_of trainrun)"
  by (simp add: category_of_def keeps_compute)

lemma create_keeps:
  assumes srv: "timetable_server srv stored trains"
  shows "keeps (world_ok stored trains (trains_linked L)) (handleCreateTimetableItem h srv infraId dto trainrun)"
proof -
  let ?J = "world_ok stored trains (trains_linked L)"
  have last: "valid (world_ok stored trains (created (trains_linked L) items))
      (let returnId = map_option tm_id (js_at items 1) in
        then_do (link_trains (tn_id trainrun) (tm_id (hd items)) returnId) (\<lambda>_.
          not_awaited (storeRoundTrip srv (tm_id (hd items)) returnId))) (\<lambda>_. ?J) ?J"
    if n: "length items = length ts" and ts: "ts = [x] \<or> ts = [x, y]" for items ts and x y :: train_payload
  proof -
    let ?r = "map_option tm_id (js_at items 1)"
    have ids: "link_ids (tm_id (hd items), ?r) = tm_id ` set items"
      "distinct (map tm_id items) \<Longrightarrow> Some (tm_id (hd items)) \<noteq> ?r"
      using n ts by (auto simp: link_ids_def js_at_def length_Suc_conv)
    have "valid (world_ok stored trains (created (trains_linked L) items)) (link_trains (tn_id trainrun) (tm_id (hd items)) ?r) (\<lambda>_. ?J) ?J"
    proof (rule link_valid)
      fix D st assume "created (trains_linked L) items D st" and L
      then obtain D0 where D0: "links_ok D0 (links_of st)" "D = D0 \<union> tm_id ` set items"
        "tm_id ` set items \<inter> insert 0 D0 = {}" "distinct (map tm_id items)"
        by (auto simp: created_def trains_linked_def)
      show "links_ok D (AList.update (tn_id trainrun) (tm_id (hd items), ?r) (links_of st))"
        by (rule links_update [OF D0(1)]) (use D0 ids in auto)
    qed
    then show ?thesis
      unfolding Let_def by (rule valid_then) (intro handler_rules round_trip_keeps srv)
  qed
  show ?thesis
    unfolding handleCreateTimetableItem_def
    by (intro handler_rules)
      (auto simp: Let_def intro!: create_valid [OF srv _ _ last [unfolded Let_def]])
qed

lemma update_return_valid:
  assumes srv: "timetable_server srv stored trains"
  shows "valid (world_ok stored trains (linked_to L k f r)) (update_return h srv trainrun labels category new g path r)
    (\<lambda>item. world_ok stored trains (\<lambda>D st. if real_id r then linked_to L k f r D st \<and> r = Some (tm_id item)
                                       else created (linked_to L k f r) [item] D st))
    (world_ok stored trains (trains_linked L))"
proof (cases "real_id r")
  case True
  let ?I = "world_ok stored trains (linked_to L k f r)"
  have "valid ?I (then_do (fetchTimetableItem srv (the r)) (\<lambda>old.
        then_do (compute (\<lambda>w. keep_exceptions h old (updated_train old trainrun labels category (return_paced new) g path))) (\<lambda>newReturn.
          storePacedTrain h srv (tm_id old) newReturn))) (\<lambda>item w. ?I w \<and> tm_id item = the r) ?I"
  proof (rule valid_then [OF fetch_valid [OF srv]])
    fix old
    show "valid (\<lambda>w. ?I w \<and> tm_id old = the r)
        (then_do (compute (\<lambda>w. keep_exceptions h old (updated_train old trainrun labels category (return_paced new) g path))) (\<lambda>newReturn.
          storePacedTrain h srv (tm_id old) newReturn)) (\<lambda>item w. ?I w \<and> tm_id item = the r) ?I"
    proof (rule valid_then)
      show "valid (\<lambda>w. ?I w \<and> tm_id old = the r)
          (compute (\<lambda>w. keep_exceptions h old (updated_train old trainrun labels category (return_paced new) g path)))
          (\<lambda>_ w. ?I w \<and> tm_id old = the r) ?I"
        by (rule valid_post [OF keeps_compute]) auto
      show "valid (\<lambda>w. ?I w \<and> tm_id old = the r) (storePacedTrain h srv (tm_id old) n) (\<lambda>item w. ?I w \<and> tm_id item = the r) ?I" for n
        using store_valid [OF srv, of "linked_to L k f r" h "the r" n] by (auto simp: valid_def)
    qed
  qed
  then show ?thesis
    using True unfolding update_return_def
    by (simp, elim valid_post) (auto simp: real_id_def world_ok_def linked_to_linked [unfolded world_ok_def])
next
  case False
  have "valid (world_ok stored trains (linked_to L k f r))
      (then_do (createPacedTrains srv [t]) (\<lambda>items. case items of [] \<Rightarrow> compute (\<lambda>w. Inl TypeError)
          | newReturn # _ \<Rightarrow> then_do (show_items [newReturn]) (\<lambda>_. done_with newReturn)))
      (\<lambda>item. world_ok stored trains (created (linked_to L k f r) [item])) (world_ok stored trains (trains_linked L))" for t
  proof (rule create_valid [OF srv, where f = "\<lambda>items. done_with (hd items)"])
    show "valid (world_ok stored trains (created (linked_to L k f r) items)) (done_with (hd items))
        (\<lambda>item. world_ok stored trains (created (linked_to L k f r) [item])) (world_ok stored trains (trains_linked L))"
      if "length items = length [t]" for items
      using that by (auto simp: length_Suc_conv valid_def done_with_def)
  qed (auto simp: length_Suc_conv intro: linked_to_linked)
  then show ?thesis using False by (simp add: update_return_def)
qed

lemma relink_ok:
  assumes "linked_to L k f r D0 st" L "D0 - link_ids (f, r) \<subseteq> D" "f \<in> D"
    and "\<forall>x\<in>set_option b. x \<in> D \<and> x \<noteq> 0 \<and> x \<noteq> f \<and> (Some x = r \<or> x \<notin> D0)"
  shows "links_ok D (AList.update k (f, b) (links_of st))"
proof -
  have ok: "links_ok D0 (links_of st)" and k: "linked_by (links_of st) k = link_ids (f, r)"
    using assms(1,2) by (simp_all add: linked_to_def trains_linked_def linked_by_def)
  have "f \<in> D0 - {0}" using ok k unfolding links_ok_def by (metis insertI1 link_ids_def fst_conv subsetD)
  then show ?thesis
    using assms(3-5) by (intro links_update [OF ok]) (auto simp: k link_ids_def)
qed

lemma linked_to_ids:
  assumes "linked_to L k f r D st" L
  shows "f \<in> D" "f \<noteq> 0" "\<And>x. r = Some x \<Longrightarrow> x \<in> D \<and> x \<noteq> 0 \<and> x \<noteq> f"
proof -
  have ok: "links_ok D (links_of st)" and k: "map_of (links_of st) k = Some (f, r)"
    using assms by (simp_all add: linked_to_def trains_linked_def)
  have "link_ids (f, r) \<subseteq> D - {0}" "Some f \<noteq> r" using ok k unfolding links_ok_def linked_by_def by (force split: option.splits)+
  then show "f \<in> D" "f \<noteq> 0" "\<And>x. r = Some x \<Longrightarrow> x \<in> D \<and> x \<noteq> 0 \<and> x \<noteq> f" by (auto simp: link_ids_def)
qed

lemma one_way_valid:
  assumes srv: "timetable_server srv stored trains"
  shows "valid (world_ok stored trains (linked_to L k f r))
    (then_do (if real_id r then then_do (storeRoundTrip srv a None) (\<lambda>_. deleteTimetableItemById srv (the r)) else done_with ())
      (\<lambda>_. link_trains k f None)) (\<lambda>_. world_ok stored trains (trains_linked L)) (world_ok stored trains (trains_linked L))"
proof (cases "real_id r")
  case True
  then obtain x where r: "r = Some x" by (auto simp: real_id_def)
  have "valid (world_ok stored trains (linked_to L k f r)) (then_do (storeRoundTrip srv a None) (\<lambda>_. deleteTimetableItemById srv x))
      (\<lambda>_. world_ok stored trains (\<lambda>D st. \<exists>D0. D = D0 - {x} \<and> linked_to L k f r D0 st)) (world_ok stored trains (trains_linked L))"
    by (rule valid_keep [OF round_trip_keeps [OF srv]], rule valid_post [OF delete_valid [OF srv]]) (auto intro: linked_to_linked)
  moreover have "valid (world_ok stored trains (\<lambda>D st. \<exists>D0. D = D0 - {x} \<and> linked_to L k f r D0 st)) (link_trains k f None)
      (\<lambda>_. world_ok stored trains (trains_linked L)) (world_ok stored trains (trains_linked L))"
  proof (rule link_valid)
    fix D st assume "\<exists>D0. D = D0 - {x} \<and> linked_to L k f r D0 st" and L
    then obtain D0 where D0: "D = D0 - {x}" "linked_to L k f r D0 st" by blast
    show "links_ok D (AList.update k (f, None) (links_of st))"
      using linked_to_ids [OF D0(2) \<open>L\<close>] by (intro relink_ok [OF D0(2) \<open>L\<close>]) (auto simp: D0(1) r link_ids_def)
  qed
  ultimately show ?thesis using True by (simp add: r valid_then)
next
  case False
  have "valid (world_ok stored trains (linked_to L k f r)) (link_trains k f None) (\<lambda>_. world_ok stored trains (trains_linked L)) (world_ok stored trains (trains_linked L))"
  proof (rule link_valid)
    fix D st assume D: "linked_to L k f r D st" and L
    show "links_ok D (AList.update k (f, None) (links_of st))"
      using linked_to_ids [OF D \<open>L\<close>] by (intro relink_ok [OF D \<open>L\<close>]) auto
  qed
  then show ?thesis using False by (simp add: then_do_def [abs_def] done_with_def)
qed

lemma round_trip_valid:
  assumes srv: "timetable_server srv stored trains"
  shows "valid (world_ok stored trains (linked_to L k f r))
    (then_do (update_return h srv trainrun labels category new g path r) (\<lambda>item.
     then_do (storeRoundTrip srv f (Some (tm_id item))) (\<lambda>_. link_trains k f (Some (tm_id item)))))
    (\<lambda>_. world_ok stored trains (trains_linked L)) (world_ok stored trains (trains_linked L))"
proof (rule valid_then [OF update_return_valid [OF srv]])
  fix item
  let ?R = "\<lambda>D st. if real_id r then linked_to L k f r D st \<and> r = Some (tm_id item) else created (linked_to L k f r) [item] D st"
  show "valid (world_ok stored trains ?R) (then_do (storeRoundTrip srv f (Some (tm_id item))) (\<lambda>_. link_trains k f (Some (tm_id item))))
      (\<lambda>_. world_ok stored trains (trains_linked L)) (world_ok stored trains (trains_linked L))"
  proof (rule valid_keep [OF round_trip_keeps [OF srv]])
    show "valid (world_ok stored trains ?R) (link_trains k f (Some (tm_id item))) (\<lambda>_. world_ok stored trains (trains_linked L)) (world_ok stored trains (trains_linked L))"
    proof (rule link_valid)
      fix D st assume R: "?R D st" and L
      show "links_ok D (AList.update k (f, Some (tm_id item)) (links_of st))"
      proof (cases "real_id r")
        case True
        from R have "linked_to L k f r D st \<and> r = Some (tm_id item)" unfolding if_P [OF True] .
        then have D: "linked_to L k f r D st" "r = Some (tm_id item)" by blast+
        show ?thesis using linked_to_ids [OF D(1) \<open>L\<close>] D(2) by (intro relink_ok [OF D(1) \<open>L\<close>]) auto
      next
        case False
        with R obtain D0 where D: "linked_to L k f r D0 st" "D = insert (tm_id item) D0" "tm_id item \<notin> insert 0 D0"
          by (auto simp: created_def)
        show ?thesis using linked_to_ids(1) [OF D(1) \<open>L\<close>] D(2,3) by (intro relink_ok [OF D(1) \<open>L\<close>]) auto
      qed
    qed
    show "world_ok stored trains (trains_linked L) w" if "world_ok stored trains ?R w" for w
      using that
    proof (rule world_ok_mono)
      show "trains_linked L D st" if "?R D st" for D st
        using that by (auto simp: linked_to_def trains_linked_def created_def split: if_splits intro: links_mono)
    qed
  qed
qed

lemma update_keeps:
  assumes srv: "timetable_server srv stored trains"
  shows "keeps (world_ok stored trains (trains_linked L)) (handleUpdateTimetableItem h srv infraId dto trainrun)"
proof -
  let ?J = "world_ok stored trains (trains_linked L)" and ?k = "tn_id trainrun"
  have store: "valid (\<lambda>w. world_ok stored trains (linked_to L ?k f r) w \<and> tm_id old = f) (then_do (storePacedTrain h srv (tm_id old) new) rest) (\<lambda>_. ?J) ?J"
    if "\<And>item. tm_id item = f \<Longrightarrow> valid (world_ok stored trains (linked_to L ?k f r)) (rest item) (\<lambda>_. ?J) ?J"
    for f r old new and rest :: "timetable_item \<Rightarrow> ('a, unit) handler"
  proof (rule valid_then [where R = "\<lambda>item w. world_ok stored trains (linked_to L ?k f r) w \<and> tm_id item = f"])
    have "valid (world_ok stored trains (linked_to L ?k f r)) (storePacedTrain h srv f new)
        (\<lambda>item w. world_ok stored trains (linked_to L ?k f r) w \<and> tm_id item = f) ?J"
      by (rule valid_post [OF store_valid [OF srv]]) (auto intro: linked_to_linked)
    then show "valid (\<lambda>w. world_ok stored trains (linked_to L ?k f r) w \<and> tm_id old = f) (storePacedTrain h srv (tm_id old) new)
        (\<lambda>item w. world_ok stored trains (linked_to L ?k f r) w \<and> tm_id item = f) ?J"
      by (auto simp: valid_def)
    show "valid (\<lambda>w. world_ok stored trains (linked_to L ?k f r) w \<and> tm_id item = f) (rest item) (\<lambda>_. ?J) ?J" for item
      using that by (auto simp: valid_def)
  qed
  have get: "valid ?J (compute (\<lambda>w. case map_of (links_of (wo_macro w)) ?k of None \<Rightarrow> Inl TypeError | Some ids \<Rightarrow> Inr ids))
      (\<lambda>ids. world_ok stored trains (linked_to L ?k (fst ids) (snd ids))) ?J"
    by (auto simp: valid_def compute_def world_ok_def linked_to_def split: option.split)
  have fin: "valid (world_ok stored trains (linked_to L ?k f r))
      (update_return_trip h srv infraId dto trainrun sections start category new r item) (\<lambda>_. ?J) ?J"
    if "tm_id item = f" for item f r sections start category new
  proof (cases "tn_direction trainrun = OneWay")
    case True
    then show ?thesis using that one_way_valid [OF srv] by (simp add: update_return_trip_def)
  next
    case False
    have "valid (world_ok stored trains (linked_to L ?k f r))
        (then_do (path_and_schedule_of h dto sections start BACKWARD) (\<lambda>gReturn.
         then_do (populateSecondaryCodesInPath srv infraId (gp_path gReturn)) (\<lambda>pathReturn.
         then_do (update_return h srv trainrun (getTrainrunLabels dto trainrun) category new gReturn pathReturn r) (\<lambda>newReturnItem.
         then_do (storeRoundTrip srv f (Some (tm_id newReturnItem))) (\<lambda>_.
           link_trains ?k f (Some (tm_id newReturnItem))))))) (\<lambda>_. ?J) ?J"
      by (intro valid_keep [OF path_keeps] valid_keep [OF populate_keeps] round_trip_valid [OF srv] linked_to_linked)
    then show ?thesis using False that by (simp add: update_return_trip_def)
  qed
  have "valid (world_ok stored trains (linked_to L ?k (fst ids) (snd ids))) (update_linked_trains h srv infraId dto trainrun ids) (\<lambda>_. ?J) ?J" for ids
    unfolding update_linked_trains_def Let_def
  proof (rule valid_then [where R = "\<lambda>old w. world_ok stored trains (linked_to L ?k (fst ids) (snd ids)) w \<and> tm_id old = fst ids"])
    show "valid (world_ok stored trains (linked_to L ?k (fst ids) (snd ids))) (fetchTimetableItem srv (fst ids))
        (\<lambda>old w. world_ok stored trains (linked_to L ?k (fst ids) (snd ids)) w \<and> tm_id old = fst ids) ?J"
      by (rule valid_post [OF fetch_valid [OF srv]]) (auto intro: linked_to_linked)
  qed (intro valid_keep [OF keeps_compute] valid_keep [OF path_keeps] valid_keep [OF populate_keeps] valid_keep [OF category_keeps]
      store [OF fin]; auto intro: linked_to_linked)
  then show ?thesis unfolding handleUpdateTimetableItem_def by (rule valid_then [OF get])
qed

lemma delete_all_valid:
  assumes srv: "timetable_server srv stored trains"
  shows "valid (world_ok stored trains R) (for_each (\<lambda>i. deleteTimetableItemById srv (the i)) xs)
    (\<lambda>_. world_ok stored trains (\<lambda>D st. \<exists>D0. D = D0 - the ` set xs \<and> R D0 st)) (world_ok stored trains (trains_linked False))"
proof (induction xs arbitrary: R)
  case Nil
  then show ?case by (simp add: valid_def done_with_def)
next
  case (Cons x xs)
  show ?case
    unfolding for_each.simps
  proof (rule valid_then)
    show "valid (world_ok stored trains R) (deleteTimetableItemById srv (the x))
        (\<lambda>_. world_ok stored trains (\<lambda>D st. \<exists>D0. D = D0 - {the x} \<and> R D0 st)) (world_ok stored trains (trains_linked False))"
      by (rule valid_post [OF delete_valid [OF srv]]) (auto simp: world_ok_def trains_linked_def)
    show "valid (world_ok stored trains (\<lambda>D st. \<exists>D0. D = D0 - {the x} \<and> R D0 st)) (for_each (\<lambda>i. deleteTimetableItemById srv (the i)) xs)
        (\<lambda>_. world_ok stored trains (\<lambda>D st. \<exists>D0. D = D0 - the ` set (x # xs) \<and> R D0 st)) (world_ok stored trains (trains_linked False))"
      by (rule valid_post [OF Cons]) (auto simp: world_ok_def)
  qed
qed

lemma delete_train_valid:
  assumes srv: "timetable_server srv stored trains"
  shows "valid (world_ok stored trains (trains_linked L)) (handleDeleteTimetableItem srv k) (\<lambda>_. world_ok stored trains (trains_linked L))
    (world_ok stored trains (trains_linked False))"
  unfolding valid_def
proof (intro allI impI)
  fix w assume w: "world_ok stored trains (trains_linked L) w"
  let ?m = "links_of (wo_macro w)"
  define ids where "ids = (case map_of ?m k of None \<Rightarrow> [] | Some (f, r) \<Rightarrow> filter real_id [Some f, r])"
  let ?del = "\<lambda>st. Inr (st\<lparr>ms_timetableItemIdByNgeId := AList.delete k (ms_timetableItemIdByNgeId st)\<rparr>)"
  let ?R = "\<lambda>D st. trains_linked L D st \<and> links_of st = ?m"
  have sub: "the ` set ids \<subseteq> linked_by ?m k"
  proof (cases "map_of ?m k")
    case (Some v)
    then show ?thesis by (cases v) (simp add: ids_def linked_by_def link_ids_def real_id_def)
  qed (simp add: ids_def)
  have "valid (world_ok stored trains ?R) (then_do (for_each (\<lambda>i. deleteTimetableItemById srv (the i)) ids) (\<lambda>_. on_macro ?del))
      (\<lambda>_. world_ok stored trains (trains_linked L)) (world_ok stored trains (trains_linked False))"
  proof (rule valid_then [OF delete_all_valid [OF srv]])
    show "valid (world_ok stored trains (\<lambda>D st. \<exists>D0. D = D0 - the ` set ids \<and> ?R D0 st)) (on_macro ?del)
        (\<lambda>_. world_ok stored trains (trains_linked L)) (world_ok stored trains (trains_linked False))"
    proof -
      have "links_ok (D0 - the ` set ids) (AList.delete k ?m)" if "links_ok D0 ?m" for D0
        using that by (rule links_delete) (use sub in blast)
      then show ?thesis by (auto simp: valid_def on_macro_def world_ok_def trains_linked_def sync_macro)
    qed
  qed
  from validD [OF this, of w] w show "case handleDeleteTimetableItem srv k w of (Inl e, w') \<Rightarrow> world_ok stored trains (trains_linked False) w'
      | (Inr x, w') \<Rightarrow> world_ok stored trains (trains_linked L) w'"
    by (simp add: handleDeleteTimetableItem_def Let_def world_ok_def ids_def [symmetric])
qed

section \<open>Nodes, notes and labels\<close>

lemma index_links:
  assumes "indexNodeByKey st key node = Inr st'"
  shows "links_of st' = links_of st"
  using assms by (auto simp: indexNodeByKey_def place_node_def split: option.splits)

lemma delete_node_links: "links_of (deleteNodeByNgeId st i) = links_of st"
  by (simp add: deleteNodeByNgeId_def deleteByIndexStorage_def split: option.split)

lemma keeps_at: "(\<And>w0. keeps I (m w0)) \<Longrightarrow> keeps I (\<lambda>w. m w w)"
  by (simp add: valid_def)

lemma keeps_error: "keeps I (\<lambda>w. (Inl e, w))" "keeps I (\<lambda>w. (Inr x, w))"
  by (simp_all add: valid_def)

lemma ask_keeps:
  assumes "\<And>s x s'. req s = Inr (x, s') \<Longrightarrow> trains s' = trains s"
  shows "keeps (world_ok stored trains R) (ask req)"
  by (rule keeps_ask) (simp add: world_ok_def sync_server assms)

lemma create_node_keeps:
  assumes srv: "timetable_server srv stored trains"
  shows "keeps (world_ok stored trains (trains_linked L)) (createMacroNode srv node i)"
proof -
  have "keeps (world_ok stored trains (trains_linked L)) (then_do (ask (\<lambda>s. sv_postNode srv s sc node)) (\<lambda>(dbId, newNode).
      on_macro (\<lambda>st. indexNodeByKey st (mn_path_item_key newNode) (newNode\<lparr>mn_ngeId := i, mn_dbId := Some dbId\<rparr>))))" for sc
    by (rule keeps_then)
      (auto intro!: ask_keeps on_macro_keeps server_node(1) [OF srv] index_links)
  from keeps_at [OF this, of "\<lambda>w. ms_scenarioId (wo_macro w)"] show ?thesis
    by (simp add: createMacroNode_def [abs_def])
qed

lemma update_node_keeps:
  assumes srv: "timetable_server srv stored trains"
  shows "keeps (world_ok stored trains (trains_linked L)) (updateMacroNode srv node)"
proof -
  have "keeps (world_ok stored trains (trains_linked L)) (\<lambda>w. case x of
        None \<Rightarrow> (Inl (JSError (''Node '' @ string_of_int (mn_ngeId node) @ '' not found'')), w)
      | Some indexedNode \<Rightarrow>
          if not_saved indexedNode
          then (Inl (JSError (''Node '' @ string_of_int (mn_ngeId node) @ '' is not saved in the DB'')), w)
          else then_do (send (\<lambda>s. sv_putNode srv s (the (mn_dbId indexedNode)) node))
                 (\<lambda>_. on_macro (\<lambda>st. indexNodeByKey st (mn_path_item_key indexedNode) node)) w)" for x
  proof (cases x)
    case (Some n)
    have "keeps (world_ok stored trains (trains_linked L)) (then_do (send (\<lambda>s. sv_putNode srv s (the (mn_dbId n)) node))
                 (\<lambda>_. on_macro (\<lambda>st. indexNodeByKey st (mn_path_item_key n) node)))"
      by (rule keeps_then) (auto intro!: send_keeps [OF srv] on_macro_keeps server_node(2) [OF srv] index_links)
    then show ?thesis unfolding Some option.case by (cases "not_saved n") (simp_all add: keeps_error)
  qed (simp add: keeps_error)
  from keeps_at [OF this, of "\<lambda>w. getNodeByNgeId (wo_macro w) (mn_ngeId node)"] show ?thesis
    by (simp add: updateMacroNode_def [abs_def])
qed

lemma delete_node_keeps:
  assumes srv: "timetable_server srv stored trains"
  shows "keeps (world_ok stored trains (trains_linked L)) (deleteMacroNodeByNgeId srv i)"
proof -
  have "keeps (world_ok stored trains (trains_linked L)) (then_do
       (case x of
          Some indexedNode \<Rightarrow>
            if not_saved indexedNode then done_with () else deleteMacroNodeByDbId srv (the (mn_dbId indexedNode))
        | None \<Rightarrow> done_with ())
       (\<lambda>_. on_macro (\<lambda>st. Inr (deleteNodeByNgeId st i))))" for x
  proof (rule keeps_then)
    have "keeps (world_ok stored trains (trains_linked L)) (deleteMacroNodeByDbId srv d)" for d
      unfolding deleteMacroNodeByDbId_def by (auto intro!: send_keeps [OF srv] server_node(3) [OF srv])
    then show "keeps (world_ok stored trains (trains_linked L)) (case x of
          Some indexedNode \<Rightarrow>
            if not_saved indexedNode then done_with () else deleteMacroNodeByDbId srv (the (mn_dbId indexedNode))
        | None \<Rightarrow> done_with ())"
      by (simp add: keeps_done split: option.split)
    show "keeps (world_ok stored trains (trains_linked L)) (on_macro (\<lambda>st. Inr (deleteNodeByNgeId st i)))"
      by (rule on_macro_keeps) (auto simp: delete_node_links)
  qed
  from keeps_at [OF this, of "\<lambda>w. getNodeByNgeId (wo_macro w) i"] show ?thesis
    by (simp add: deleteMacroNodeByNgeId_def [abs_def])
qed

lemma node_keeps:
  assumes srv: "timetable_server srv stored trains"
  shows "keeps (world_ok stored trains (trains_linked L)) (handleNodeOperation h srv infraId dto type node)"
proof -
  let ?J = "world_ok stored trains (trains_linked L)"
  have runs: "keeps ?J (updateTrainrunsByNode h srv infraId dto node)"
    unfolding updateTrainrunsByNode_def
    by (rule keeps_for_each) (simp add: update_keeps [OF srv] keeps_compute split: option.split)
  have key: "keeps ?J (renamed_key srv n node)" for n
  proof -
    have "keeps ?J (\<lambda>w. fetchStationSecondaryCode srv t (ms_infraId (wo_macro w)) w)" for t
      by (rule keeps_at [where m = "\<lambda>i. fetchStationSecondaryCode srv t (ms_infraId (wo_macro i))"])
        (simp add: fetchStationSecondaryCode_def keeps_then keeps_compute keeps_done)
    then show ?thesis
      unfolding renamed_key_def Let_def by (auto intro!: handler_rules)
  qed
  have upd: "keeps ?J (then_do (renamed_key srv n node) (\<lambda>(trigram, nodeKey).
         then_do (updateMacroNode srv ((castNgeNode node (nz_labels dto) n)\<lparr>mn_trigram := Some trigram, mn_path_item_key := nodeKey\<rparr>))
           (\<lambda>_. if mn_path_item_key n \<noteq> nodeKey then updateTrainrunsByNode h srv infraId dto node else done_with ())))" for n
    by (intro keeps_then key) (auto intro!: keeps_then update_node_keeps [OF srv] runs keeps_done)
  have change: "keeps ?J (\<lambda>w. case x of
             None \<Rightarrow>
               createMacroNode srv
                 (castNgeNode node (nz_labels dto) (empty_node (''trigram:'' @ no_betriebspunktName node))) (no_id node) w
           | Some n \<Rightarrow>
               if not_saved n then createMacroNode srv (castNgeNode node (nz_labels dto) n) (no_id node) w
               else then_do (renamed_key srv n node) (\<lambda>(trigram, nodeKey).
                 then_do (updateMacroNode srv ((castNgeNode node (nz_labels dto) n)\<lparr>mn_trigram := Some trigram, mn_path_item_key := nodeKey\<rparr>))
                   (\<lambda>_. if mn_path_item_key n \<noteq> nodeKey then updateTrainrunsByNode h srv infraId dto node
                        else done_with ())) w)" for x
  proof (cases x)
    case None
    show ?thesis unfolding None option.case by (rule create_node_keeps [OF srv])
  next
    case (Some n)
    show ?thesis
      unfolding Some option.case using create_node_keeps [OF srv] upd [of n] by (cases "not_saved n") simp_all
  qed
  have del: "keeps ?J (\<lambda>w. if x = None then (Inr (), w) else deleteMacroNodeByNgeId srv (no_id node) w)" for x :: "macro_node option"
    using delete_node_keeps [OF srv] by (cases x) (simp_all add: keeps_error)
  show ?thesis
    using keeps_at [OF change, of "\<lambda>w. getNodeByNgeId (wo_macro w) (no_id node)"]
      keeps_at [OF del, of "\<lambda>w. getNodeByNgeId (wo_macro w) (no_id node)"]
    by (cases type) (simp_all add: handleNodeOperation_def [abs_def])
qed

lemma note_keeps:
  assumes srv: "timetable_server srv stored trains"
  shows "keeps (world_ok stored trains (trains_linked L)) (handleNoteOperation srv dto type note)"
proof -
  let ?J = "world_ok stored trains (trains_linked L)"
  have "keeps ?J (then_do (ask (\<lambda>s. sv_postNote srv s sc (castNgeNoteToOsrd note dto)))
       (\<lambda>dbId. on_macro (\<lambda>st. Inr (setDbIdForNote st (nt_id note) dbId))))" for sc
    by (rule keeps_then) (auto intro!: ask_keeps on_macro_keeps server_note(1) [OF srv] simp: setDbIdForNote_def)
  from keeps_at [OF this, of "\<lambda>w. ms_scenarioId (wo_macro w)"] have c: "keeps ?J (createMacroNote srv dto note)"
    by (simp add: createMacroNote_def [abs_def])
  have put: "keeps ?J (send (\<lambda>s. sv_putNote srv s d n))" for d n
    by (auto intro!: send_keeps [OF srv] server_note(2) [OF srv])
  have "keeps ?J (\<lambda>w. if \<not> real_id d then (Inl (note_error (nt_id note)), w)
      else send (\<lambda>s. sv_putNote srv s (the d) (castNgeNoteToOsrd note dto)) w)" for d
    using put by (cases "real_id d") (simp_all add: keeps_error)
  from keeps_at [OF this, of "\<lambda>w. getDbIdForNote (wo_macro w) (nt_id note)"] have u: "keeps ?J (updateMacroNote srv dto note)"
    by (simp add: updateMacroNote_def [abs_def] Let_def)
  have del: "keeps ?J (then_do (send (\<lambda>s. sv_deleteNote srv s d)) (\<lambda>_. on_macro (\<lambda>st. Inr (removeNoteMapping st (nt_id note)))))" for d
    by (rule keeps_then) (auto intro!: send_keeps [OF srv] on_macro_keeps server_note(3) [OF srv] simp: removeNoteMapping_def)
  have "keeps ?J (\<lambda>w. if \<not> real_id d then (Inl (note_error (nt_id note)), w)
      else then_do (send (\<lambda>s. sv_deleteNote srv s (the d))) (\<lambda>_. on_macro (\<lambda>st. Inr (removeNoteMapping st (nt_id note)))) w)" for d
    using del by (cases "real_id d") (simp_all add: keeps_error)
  from keeps_at [OF this, of "\<lambda>w. getDbIdForNote (wo_macro w) (nt_id note)"] have "keeps ?J (deleteMacroNote srv (nt_id note))"
    by (simp add: deleteMacroNote_def [abs_def] Let_def)
  with c u show ?thesis by (simp add: handleNoteOperation_def split: event_type.split)
qed

text \<open>The events that start updates without awaiting them: those of a label that some trainrun carries.\<close>

definition starts_updates :: "nge_event \<times> netzgrafik_dto \<Rightarrow> bool" where
  "starts_updates e = (case ne_object (fst e) of
     LabelObject l \<Rightarrow> ne_type (fst e) = UpdateEvent \<and> (\<exists>trainrun\<in>set (nz_trainruns (snd e)). la_id l \<in> set (tn_labelIds trainrun))
   | _ \<Rightarrow> False)"

lemma operation_valid:
  assumes srv: "timetable_server srv stored trains" and quiet: "\<not> starts_updates (event, dto)"
  shows "valid (world_ok stored trains (trains_linked L)) (handleOperation h srv infraId dto event) (\<lambda>_. world_ok stored trains (trains_linked L))
    (world_ok stored trains (trains_linked (L \<and> (\<forall>t. ne_object event = TrainrunObject t \<longrightarrow> ne_type event \<noteq> DeleteEvent))))"
proof -
  let ?J = "world_ok stored trains (trains_linked L)"
  have weaker: "valid ?J m (\<lambda>_. ?J) (world_ok stored trains (trains_linked (L \<and> b)))" if "keeps ?J m" for m :: "('a, unit) handler" and b
    by (rule valid_post [OF that]) (auto simp: world_ok_def trains_linked_def)
  show ?thesis
  proof (cases "ne_object event")
    case (TrainrunObject t)
    let ?t = "find (\<lambda>tr. tn_id tr = tn_id t) (nz_trainruns dto)"
    show ?thesis
    proof (cases "ne_type event")
      case DeleteEvent
      then show ?thesis
        using delete_train_valid [OF srv, of L "tn_id t"] TrainrunObject
        by (simp add: handleOperation_def handleTrainrunOperation_def)
    next
      case CreateEvent
      have "keeps ?J (handleOperation h srv infraId dto event)"
        using TrainrunObject CreateEvent create_keeps [OF srv]
        by (simp add: handleOperation_def handleTrainrunOperation_def keeps_compute split: option.split)
      then show ?thesis by (rule weaker)
    next
      case UpdateEvent
      have "keeps ?J (handleOperation h srv infraId dto event)"
        using TrainrunObject UpdateEvent update_keeps [OF srv]
        by (simp add: handleOperation_def handleTrainrunOperation_def keeps_compute split: option.split)
      then show ?thesis by (rule weaker)
    qed
  next
    case (NodeObject n)
    then have "keeps ?J (handleOperation h srv infraId dto event)" using node_keeps [OF srv] by (simp add: handleOperation_def)
    then show ?thesis by (rule weaker)
  next
    case (LabelObject l)
    have "keeps ?J (handleLabelOperation dto (ne_type event) l)"
    proof (cases "ne_type event = UpdateEvent")
      case True
      then have none: "filter (\<lambda>trainrun. la_id l \<in> set (tn_labelIds trainrun)) (nz_trainruns dto) = []"
        using quiet LabelObject by (auto simp: starts_updates_def filter_empty_conv)
      show ?thesis
        unfolding handleLabelOperation_def if_P [OF True] none by (rule keeps_change) simp
    qed (simp add: handleLabelOperation_def keeps_done)
    then have "keeps ?J (handleOperation h srv infraId dto event)" using LabelObject by (simp add: handleOperation_def)
    then show ?thesis by (rule weaker)
  next
    case (NoteObject n)
    then have "keeps ?J (handleOperation h srv infraId dto event)" using note_keeps [OF srv] by (simp add: handleOperation_def)
    then show ?thesis by (rule weaker)
  qed
qed

definition deletes_trainrun :: "nge_event \<Rightarrow> bool" where
  "deletes_trainrun event = (ne_type event = DeleteEvent \<and> (case ne_object event of TrainrunObject _ \<Rightarrow> True | _ \<Rightarrow> False))"

fun no_failed_deletion :: "host \<Rightarrow> 's server \<Rightarrow> int \<Rightarrow> 's world \<Rightarrow> (nge_event \<times> netzgrafik_dto) list \<Rightarrow> bool" where
  "no_failed_deletion h srv infraId w [] = True"
| "no_failed_deletion h srv infraId w (e # es) =
     ((deletes_trainrun (fst e) \<longrightarrow> \<not> isl (fst (handleOperation h srv infraId (snd e) (fst e) w))) \<and>
      no_failed_deletion h srv infraId (handleNGEOperation h srv infraId w e) es)"

lemma event_in_sync:
  assumes "timetable_server srv stored trains" "in_sync stored trains w" "\<not> starts_updates e"
  shows "in_sync stored trains (handleNGEOperation h srv infraId w e)"
proof -
  have "world_ok stored trains (trains_linked False) w" using assms(2) by (simp add: world_ok_def trains_linked_def)
  from validD [OF operation_valid [OF assms(1), of "fst e" "snd e"] this, where h1 = h and infraId1 = infraId] assms(3)
  show ?thesis
    by (cases "handleOperation h srv infraId (snd e) (fst e) w")
      (simp add: handleNGEOperation_def world_ok_def split: sum.splits)
qed

lemma events_in_sync:
  assumes "timetable_server srv stored trains" "in_sync stored trains w" "\<forall>e\<in>set events. \<not> starts_updates e"
  shows "in_sync stored trains (foldl (handleNGEOperation h srv infraId) w events)"
  using assms(2,3) by (induction events arbitrary: w) (simp_all add: event_in_sync [OF assms(1)])

lemma event_linked:
  assumes "timetable_server srv stored trains" "in_sync stored trains w" "links_ok (dom (trains (wo_server w))) (links_of (wo_macro w))"
    and "deletes_trainrun (fst e) \<longrightarrow> \<not> isl (fst (handleOperation h srv infraId (snd e) (fst e) w))"
    and quiet: "\<not> starts_updates e"
  shows "let w' = handleNGEOperation h srv infraId w e in links_ok (dom (trains (wo_server w'))) (links_of (wo_macro w'))"
proof -
  obtain r w' where r: "handleOperation h srv infraId (snd e) (fst e) w = (r, w')" by (cases "handleOperation h srv infraId (snd e) (fst e) w")
  have "world_ok stored trains (trains_linked True) w" using assms(2,3) by (simp add: world_ok_def trains_linked_def)
  note v = validD [OF operation_valid [OF assms(1), of "fst e" "snd e"] this, where h1 = h and infraId1 = infraId]
  have "world_ok stored trains (trains_linked True) w'"
  proof (cases r)
    case (Inl x)
    then have "\<not> deletes_trainrun (fst e)" using assms(4) r by simp
    then have "\<forall>t. ne_object (fst e) = TrainrunObject t \<longrightarrow> ne_type (fst e) \<noteq> DeleteEvent" by (auto simp: deletes_trainrun_def)
    with v Inl r quiet show ?thesis by simp
  next
    case (Inr x)
    with v r quiet show ?thesis by simp
  qed
  then show ?thesis by (simp add: handleNGEOperation_def r world_ok_def trains_linked_def)
qed

lemma events_linked:
  assumes "timetable_server srv stored trains" "in_sync stored trains w" "links_ok (dom (trains (wo_server w))) (links_of (wo_macro w))"
    and "no_failed_deletion h srv infraId w events" "\<forall>e\<in>set events. \<not> starts_updates e"
  shows "let w' = foldl (handleNGEOperation h srv infraId) w events in links_ok (dom (trains (wo_server w'))) (links_of (wo_macro w'))"
  using assms(2-)
proof (induction events arbitrary: w)
  case (Cons e es)
  then show ?case
    using event_in_sync [OF assms(1) Cons.prems(1)] event_linked [OF assms(1) Cons.prems(1,2), of e h infraId] by (simp add: Let_def)
qed simp

section \<open>A server\<close>

text \<open>A server that fills in absent fields the way \<open>editoast\<close> does: no labels, no schedule, no power restriction, initial speed 0 and
  standard comfort.\<close>

definition filled :: "train_payload \<Rightarrow> train_payload" where
  "filled t = t\<lparr>ts_labels := Some (case_option [] (\<lambda>l. l) (ts_labels t)), ts_schedule := Some (case_option [] (\<lambda>l. l) (ts_schedule t)),
     ts_power_restrictions := Some (case_option [] (\<lambda>l. l) (ts_power_restrictions t)),
     ts_initial_speed := Some (case_option 0 (\<lambda>v. v) (ts_initial_speed t)),
     ts_comfort := Some (case_option ComfortStandard (\<lambda>c. c) (ts_comfort t))\<rparr>"

lemma filled_storage: "storage_form filled"
  by (simp add: storage_form_def filled_def)

definition fresh_id :: "(int \<times> train_payload) list \<Rightarrow> int" where
  "fresh_id s = foldr max (map fst s) 0 + 1"

definition memory_server :: "(int \<times> train_payload) list server" where
  "memory_server =
     \<lparr>sv_getTrain = (\<lambda>s i. case map_of s i of None \<Rightarrow> Inl (JSError ''404'') | Some t \<Rightarrow> Inr (item_of i t)),
      sv_postTrains = (\<lambda>s ts. let items = map (\<lambda>(j, t). item_of (fresh_id s + int j) (filled t)) (zip [0..<length ts] ts)
         in Inr (items, map (\<lambda>item. (tm_id item, train_payload.truncate item)) items @ s)),
      sv_putTrain = (\<lambda>s i t. if map_of s i = None then Inl (JSError ''404'') else Inr (AList.update i (filled t) s)),
      sv_deleteTrains = (\<lambda>s ids. Inr (filter (\<lambda>(i, _). i \<notin> set ids) s)),
      sv_postRoundTrips = (\<lambda>s _ _. Inr s), sv_search = (\<lambda>_ _ _. Inr []), sv_postNode = (\<lambda>s _ n. Inr ((1, n), s)),
      sv_putNode = (\<lambda>s _ _. Inr s), sv_deleteNode = (\<lambda>s _. Inr s), sv_postNote = (\<lambda>s _ _. Inr (1, s)),
      sv_putNote = (\<lambda>s _ _. Inr s), sv_deleteNote = (\<lambda>s _. Inr s)\<rparr>"

lemma fresh_id_bound: "i \<in> fst ` set s \<Longrightarrow> i < fresh_id s" "0 < fresh_id s"
proof -
  have "\<forall>i\<in>insert 0 (fst ` set s). i \<le> foldr max (map fst s) 0" by (induction s) (auto simp: max_def)
  then show "i \<in> fst ` set s \<Longrightarrow> i < fresh_id s" "0 < fresh_id s" by (auto simp: fresh_id_def)
qed

lemma item_of_fields [simp]: "tm_id (item_of i t) = i" "train_payload.truncate (item_of i t) = t"
  by (simp_all add: item_of_def timetable_item.defs train_payload.defs)

lemma memory_server_ok: "timetable_server memory_server filled map_of"
proof -
  have del: "map_of (filter (\<lambda>(i, _). i \<notin> set ids) s) = map_of s |` (- set ids)" for ids and s :: "(int \<times> train_payload) list"
    by (rule ext, induction s) (auto simp: restrict_map_def)
  have ids: "map tm_id (map (\<lambda>(j, t). item_of (f + int j) (filled t)) (zip [0..<n] ts)) = map (\<lambda>j. f + int j) [0..<n]"
    and payloads: "map train_payload.truncate (map (\<lambda>(j, t). item_of (f + int j) (filled t)) (zip [0..<n] ts)) = map filled ts"
    if "n = length ts" for f n and ts :: "train_payload list"
  proof -
    show "map tm_id (map (\<lambda>(j, t). item_of (f + int j) (filled t)) (zip [0..<n] ts)) = map (\<lambda>j. f + int j) [0..<n]"
      using that by (intro nth_equalityI) simp_all
    show "map train_payload.truncate (map (\<lambda>(j, t). item_of (f + int j) (filled t)) (zip [0..<n] ts)) = map filled ts"
      using that by (intro nth_equalityI) simp_all
  qed
  have post: "map train_payload.truncate items = map filled ts \<and> distinct (map tm_id items) \<and>
      (\<forall>item\<in>set items. tm_id item \<noteq> 0 \<and> map_of s (tm_id item) = None) \<and>
      map_of s' = map_of s ++ map_of (map (\<lambda>item. (tm_id item, train_payload.truncate item)) items)"
    if p: "sv_postTrains memory_server s ts = Inr (items, s')" for s ts items s'
  proof -
    define xs where "xs = map (\<lambda>(j, t). item_of (fresh_id s + int j) (filled t)) (zip [0..<length ts] ts)"
    have s': "items = xs" "s' = map (\<lambda>item. (tm_id item, train_payload.truncate item)) xs @ s"
      using p by (auto simp: memory_server_def Let_def xs_def)
    have i: "map tm_id xs = map (\<lambda>j. fresh_id s + int j) [0..<length ts]" unfolding xs_def by (rule ids) simp
    then have "distinct (map tm_id xs)" by (simp add: distinct_map inj_on_def)
    moreover have "tm_id x \<noteq> 0 \<and> map_of s (tm_id x) = None" if "x \<in> set xs" for x
    proof -
      have "tm_id x \<in> set (map tm_id xs)" using that by simp
      then obtain j where "tm_id x = fresh_id s + int j" unfolding i by auto
      then show ?thesis using fresh_id_bound(1) [of "tm_id x" s] fresh_id_bound(2) [of s] by (auto simp: map_of_eq_None_iff)
    qed
    moreover have "map train_payload.truncate xs = map filled ts" unfolding xs_def by (rule payloads) simp
    ultimately show ?thesis unfolding s' by (auto simp: map_of_append)
  qed
  show ?thesis
    unfolding timetable_server_def
    using post filled_storage by (simp add: memory_server_def del update_conv' split: option.splits)
qed

definition memory_world :: "(int \<times> train_payload) list world" where
  "memory_world =
     \<lparr>wo_server = [(5, filled (train_payload.truncate sample_item)), (6, filled (train_payload.truncate sample_item))],
      wo_macro = (newMacroEditorState 1 2)\<lparr>ms_timetableItemIdByNgeId := [(1, 5, Some 6)]\<rparr>,
      wo_scenario = \<lparr>sd_timetableItems = Some [item_of 5 (train_payload.truncate sample_item), item_of 6 (train_payload.truncate sample_item)],
                     sd_selectedTimetableItemIds = [6]\<rparr>,
      wo_results = simulationResultsInitialState\<lparr>sr_selectedTrainId := Some ''paced_5''\<rparr>, wo_started = []\<rparr>"

definition empty_document :: netzgrafik_dto where
  "empty_document = \<lparr>nz_nodes = [], nz_trainrunSections = [], nz_trainruns = [], nz_trainrunCategories = [],
     nz_trainrunFrequencies = [], nz_freeFloatingTexts = [], nz_labels = []\<rparr>"

definition deletion :: "int \<Rightarrow> nge_event \<times> netzgrafik_dto" where
  "deletion k = (\<lparr>ne_type = DeleteEvent, ne_object = TrainrunObject \<lparr>tn_id = k, tn_name = [], tn_categoryId = 0, tn_frequencyId = 0,
     tn_trainrunTimeCategoryId = 0, tn_labelIds = [], tn_direction = RoundTrip\<rparr>\<rparr>, empty_document)"

definition memory_host :: host where
  "memory_host = \<lparr>ho_parse = sample_parse, ho_parseDate = (\<lambda>_. 0), ho_print = (\<lambda>_. ''PT0S''), ho_printDate = (\<lambda>_. ''d''), ho_tz = 0,
     ho_now = 0, ho_nowReturn = 0\<rparr>"

lemma memory_world_sync: "in_sync filled map_of memory_world"
proof -
  have "one_train_per_id (wo_scenario memory_world)" by (simp add: memory_world_def one_train_per_id_def items_of_def)
  moreover have "(\<lambda>i. map_option filled (shown_trains (wo_scenario memory_world) i)) = map_of (wo_server memory_world)"
    by (auto simp: memory_world_def shown_trains_def fun_eq_iff)
  moreover have "set (sd_selectedTimetableItemIds (wo_scenario memory_world)) \<subseteq> dom (map_of (wo_server memory_world))"
    by (simp add: memory_world_def)
  moreover have "n = 5" if "refers ''paced_5'' n" for n
  proof -
    have "\<not> isOccurrenceId ''paced_5''" by code_simp
    then have "extractEditoastIdFromPacedTrainId ''paced_5'' = Inr (of_int n)"
      using that extract_paced [of "of_int n"] by (simp add: refers_def)
    moreover have "extractEditoastIdFromPacedTrainId ''paced_5'' = Inr 5" by code_simp
    ultimately show ?thesis by (metis of_int_eq_numeral_iff sum.inject(2))
  qed
  ultimately show ?thesis
    by (auto simp: in_sync_def memory_world_def train_ids_def simulationResultsInitialState_def)
qed

lemma memory_world_links: "links_ok (dom (map_of (wo_server memory_world))) (links_of (wo_macro memory_world))"
  by (auto simp: links_ok_def linked_by_def link_ids_def memory_world_def split: if_splits option.splits)

text \<open>C2: for a server that stores a train in a form of its own (defaults filled in) and then reads back what it
  stored, along any sequence of events of the netzgrafik editor other than the change of a label that some trainrun carries, and
  whatever requests fail on the way: the trains that the scenario shows are the trains of the server up to that form, one per identifier,
  and the trains that are selected, hovered, projected or ticked exist on the server; this holds after the events when it
  holds before. Changes of a carried label are left out because they start updates that are not awaited.\<close>

theorem macro_events_synchronised:
  assumes "timetable_server srv stored trains" "in_sync stored trains w" "\<forall>e\<in>set events. \<not> starts_updates e"
  shows "in_sync stored trains (foldl (handleNGEOperation h srv infraId) w events)"
  using events_in_sync [OF assms] .

definition label_change :: "nge_event \<times> netzgrafik_dto" where
  "label_change = (\<lparr>ne_type = UpdateEvent, ne_object = LabelObject \<lparr>la_id = 1, la_label = ''fast'', la_labelGroupId = 1, la_labelRef = ''Trainrun''\<rparr>\<rparr>, empty_document)"

theorem macro_events_synchronised_witness:
  "in_sync filled map_of (foldl (handleNGEOperation memory_host memory_server 1) memory_world [label_change, deletion 1, deletion 2]) \<and>
   wo_server (foldl (handleNGEOperation memory_host memory_server 1) memory_world [label_change, deletion 1, deletion 2]) = []"
proof
  show "in_sync filled map_of (foldl (handleNGEOperation memory_host memory_server 1) memory_world [label_change, deletion 1, deletion 2])"
    by (rule macro_events_synchronised [OF memory_server_ok memory_world_sync])
      (simp add: starts_updates_def deletion_def label_change_def empty_document_def)
  show "wo_server (foldl (handleNGEOperation memory_host memory_server 1) memory_world [label_change, deletion 1, deletion 2]) = []"
    by code_simp
qed

text \<open>C10: for the same servers, along any sequence of events other than the change of a label that some trainrun carries, in
  which no deletion of a trainrun fails half-way, every trainrun stays linked to trains that exist on the server, and two
  trainruns never share a train.\<close>

theorem macro_events_linked:
  assumes "timetable_server srv stored trains" "in_sync stored trains w"
    and "links_ok (dom (trains (wo_server w))) (links_of (wo_macro w))"
    and "no_failed_deletion h srv infraId w events" "\<forall>e\<in>set events. \<not> starts_updates e"
  shows "let w' = foldl (handleNGEOperation h srv infraId) w events
         in links_ok (dom (trains (wo_server w'))) (ms_timetableItemIdByNgeId (wo_macro w'))"
  using events_linked [OF assms] .

theorem macro_events_linked_witness:
  "let w' = foldl (handleNGEOperation memory_host memory_server 1) memory_world [deletion 2]
   in links_ok (dom (map_of (wo_server w'))) (ms_timetableItemIdByNgeId (wo_macro w'))"
proof (rule macro_events_linked [OF memory_server_ok memory_world_sync memory_world_links])
  show "no_failed_deletion memory_host memory_server 1 memory_world [deletion 2]" by code_simp
  show "\<forall>e\<in>set [deletion 2]. \<not> starts_updates e" by (simp add: starts_updates_def deletion_def)
qed

text \<open>A change of a carried label starts an update per trainrun and returns with all of them in flight: the event queue
  goes on with the next event, here the deletion of the trainrun, before the update has read the train.\<close>

definition labelled_document :: netzgrafik_dto where
  "labelled_document = empty_document\<lparr>nz_trainruns := [\<lparr>tn_id = 1, tn_name = ''T'', tn_categoryId = 0, tn_frequencyId = 0,
     tn_trainrunTimeCategoryId = 0, tn_labelIds = [1], tn_direction = RoundTrip\<rparr>]\<rparr>"

lemma label_updates_in_flight:
  "let w' = foldl (handleNGEOperation memory_host memory_server 1) memory_world [(fst label_change, labelled_document), deletion 1]
   in map (\<lambda>(_, trainrun). tn_id trainrun) (wo_started w') = [1] \<and> wo_server w' = [] \<and>
      map_of (ms_timetableItemIdByNgeId (wo_macro w')) 1 = None"
  by code_simp

text \<open>A deletion that fails half-way leaves the trainrun linked to a train that the server does not have any more.\<close>

definition failing_server :: "(int \<times> train_payload) list server" where
  "failing_server = memory_server\<lparr>sv_deleteTrains := (\<lambda>s ids. if ids = [6] then Inl (JSError ''500'') else Inr (filter (\<lambda>(i, _). i \<notin> set ids) s))\<rparr>"

lemma half_deleted:
  "let w' = handleNGEOperation memory_host failing_server 1 memory_world (deletion 1)
   in ms_timetableItemIdByNgeId (wo_macro w') = [(1, 5, Some 6)] \<and> map fst (wo_server w') = [6]"
  by code_simp

end
