(* ===== verification/LazyLoader.thy ===== *)
theory LazyLoader
  imports ScenarioData
begin

text \<open>
  The background simulation and projection of the trains of a scenario: the loaders
  \<open>applications/operationalStudies/helpers/TrainSimulationLazyLoader.ts\<close> and \<open>TrainProjectionLazyLoaderAbstract.ts\<close> (the same queue, with other
  requests), the hooks \<open>useLazySimulateTrains.ts\<close> and \<open>useLazyProjectTrains.ts\<close> that own a loader, and the functions that receive the
  answers, \<open>formatTimetableItemSummaries.ts\<close> and \<open>upsertNewProjectedTrains.ts\<close>.

  A loader keeps the identifiers to process and a chain of promises: each call appends a run of \<open>processPending\<close> to
  the chain, and a run takes batches until nothing is pending. The asynchrony is explicit: the number of runs that have not
  started, the batch of the run that waits for its answer, and events for the start of a run and for the arrival of an answer. A
  cancelled loader is dropped, since it ignores the answer it still waits for.
\<close>

section \<open>The queue\<close>

definition BATCH_SIZE :: nat where "BATCH_SIZE = 20"

record loader =
  ld_pending :: "int list"
  ld_runs :: nat
  ld_batch :: "int list option"

definition new_loader :: loader where
  "new_loader = \<lparr>ld_pending = [], ld_runs = 0, ld_batch = None\<rparr>"

definition enqueue :: "loader \<Rightarrow> int list \<Rightarrow> loader" where
  "enqueue ld ids = ld\<lparr>ld_pending := ld_pending ld @ ids, ld_runs := Suc (ld_runs ld)\<rparr>"

text \<open>The loop of \<open>processPending\<close>: the next batch, or the end of the run.\<close>

definition next_batch :: "loader \<Rightarrow> loader" where
  "next_batch ld =
     (if ld_pending ld = [] then ld\<lparr>ld_batch := None\<rparr>
      else ld\<lparr>ld_batch := Some (take BATCH_SIZE (ld_pending ld)), ld_pending := drop BATCH_SIZE (ld_pending ld)\<rparr>)"

section \<open>A hook with its loader\<close>

text \<open>The trains given to the hook, the results by train, and the current loader.\<close>

record 'v lazy_state =
  lz_items :: "(int \<times> timetable_item) list"
  lz_results :: "(int \<times> 'v) list"
  lz_loader :: "loader option"

definition newLazyState :: "'v lazy_state" where
  "newLazyState = \<lparr>lz_items = [], lz_results = [], lz_loader = None\<rparr>"

datatype 'a lazy_event =
    Mount
  | Unmount
  | AddItems "timetable_item list"
  | RemoveItems "int list"
  | StartRun
  | Answer "(int \<times> 'a) list result"

type_synonym ('a, 'v) on_progress = "(int \<times> timetable_item) list \<Rightarrow> (int \<times> 'v) list \<Rightarrow> (int \<times> 'a) list \<Rightarrow> (int \<times> 'v) list result"

definition mount :: "'v lazy_state \<Rightarrow> 'v lazy_state" where
  "mount st = st\<lparr>lz_loader := Some (enqueue new_loader (map fst (lz_items st)))\<rparr>"

definition unmount :: "'v lazy_state \<Rightarrow> 'v lazy_state" where
  "unmount st = st\<lparr>lz_loader := None\<rparr>"

definition add_items :: "timetable_item list \<Rightarrow> 'v lazy_state \<Rightarrow> 'v lazy_state" where
  "add_items timetableItems st =
     st\<lparr>lz_items := foldl (\<lambda>m item. AList.update (tm_id item) item m) (lz_items st) timetableItems,
        lz_loader := map_option (\<lambda>ld. enqueue ld (map tm_id timetableItems)) (lz_loader st)\<rparr>"

definition remove_results :: "int list \<Rightarrow> 'v lazy_state \<Rightarrow> 'v lazy_state" where
  "remove_results ids st =
     st\<lparr>lz_items := foldl (\<lambda>m i. AList.delete i m) (lz_items st) ids,
        lz_results := foldl (\<lambda>m i. AList.delete i m) (lz_results st) ids\<rparr>"

definition start_run :: "'v lazy_state \<Rightarrow> 'v lazy_state" where
  "start_run st =
     (case lz_loader st of
        Some ld \<Rightarrow>
          if ld_batch ld = None \<and> ld_runs ld > 0
          then st\<lparr>lz_loader := Some (next_batch (ld\<lparr>ld_runs := ld_runs ld - 1\<rparr>))\<rparr> else st
      | None \<Rightarrow> st)"

text \<open>An answer that fails, or that cannot be handled, ends the run.\<close>

definition receive :: "('a, 'v) on_progress \<Rightarrow> (int \<times> 'a) list result \<Rightarrow> 'v lazy_state \<Rightarrow> 'v lazy_state" where
  "receive onProgress answer st =
     (case lz_loader st of
        Some ld \<Rightarrow>
          if ld_batch ld = None then st
          else (case bind_result answer (onProgress (lz_items st) (lz_results st)) of
                  Inl e \<Rightarrow> st\<lparr>lz_loader := Some (ld\<lparr>ld_batch := None\<rparr>)\<rparr>
                | Inr results \<Rightarrow> st\<lparr>lz_results := results, lz_loader := Some (next_batch ld)\<rparr>)
      | None \<Rightarrow> st)"

fun lazy_step :: "('a, 'v) on_progress \<Rightarrow> 'v lazy_state \<Rightarrow> 'a lazy_event \<Rightarrow> 'v lazy_state" where
  "lazy_step onProgress st Mount = mount st"
| "lazy_step onProgress st Unmount = unmount st"
| "lazy_step onProgress st (AddItems items) = add_items items st"
| "lazy_step onProgress st (RemoveItems ids) = remove_results ids st"
| "lazy_step onProgress st StartRun = start_run st"
| "lazy_step onProgress st (Answer answer) = receive onProgress answer st"

section \<open>Simulation\<close>

text \<open>A simulated train: the train, its rolling stock and the summary that the details are formatted from.\<close>

record 's simulated_train =
  sm_item :: timetable_item
  sm_rollingStock :: "string option"
  sm_summary :: 's

definition formatTimetableItemWithDetails ::
  "int \<times> 's \<Rightarrow> (int \<times> timetable_item) list \<Rightarrow> string list \<Rightarrow> 's simulated_train result" where
  "formatTimetableItemWithDetails inputs rawTimetableItems rollingStocks =
     (case map_of rawTimetableItems (fst inputs) of
        None \<Rightarrow> Inl (JSError ''Missing timetable item'')
      | Some timetableItem \<Rightarrow>
          Inr \<lparr>sm_item = timetableItem, sm_rollingStock = find (\<lambda>rs. rs = ts_rolling_stock_name timetableItem) rollingStocks,
               sm_summary = snd inputs\<rparr>)"

definition formatTimetableItemSummaries ::
  "(int \<times> 's) list \<Rightarrow> (int \<times> timetable_item) list \<Rightarrow> string list \<Rightarrow> (int \<times> 's simulated_train) list result" where
  "formatTimetableItemSummaries summaries rawTimetableItems rollingStocks =
     bind_result (map_result (\<lambda>s. formatTimetableItemWithDetails s rawTimetableItems rollingStocks) summaries)
       (\<lambda>items. Inr (mapBy (\<lambda>t. tm_id (sm_item t)) (Some items)))"

definition simulation_progress :: "string list \<Rightarrow> ('s, 's simulated_train) on_progress" where
  "simulation_progress rollingStocks timetableItems prev summaries =
     bind_result (formatTimetableItemSummaries summaries timetableItems rollingStocks) (\<lambda>s. Inr (concatMap prev s))"

definition updateSimulatedTimetableItemDepartureTime ::
  "int \<Rightarrow> string \<Rightarrow> 's simulated_train lazy_state \<Rightarrow> 's simulated_train lazy_state" where
  "updateSimulatedTimetableItemDepartureTime i newDeparture st =
     (case map_of (lz_results st) i of
        None \<Rightarrow> st
      | Some t \<Rightarrow>
          st\<lparr>lz_results := AList.update i (t\<lparr>sm_item := (sm_item t)\<lparr>ts_start_time := newDeparture\<rparr>\<rparr>) (lz_results st)\<rparr>)"

section \<open>Projection\<close>

text \<open>The curves and signal updates come from the server and are passed on.\<close>

record ('c, 'u) train_projection =
  pr_curves :: "'c list"
  pr_signal_updates :: "'u list"

record ('c, 'u) projection_result =
  pj_curves :: "'c list"
  pj_updates :: "'u list option"
  pj_exceptions :: "(string \<times> 'c list \<times> 'u list) list option"

record ('c, 'u) projected_paced =
  pp_timeWindow :: duration
  pp_interval :: duration
  pp_exceptions :: "paced_exception list"
  pp_exceptionProjections :: "(string \<times> ('c, 'u) train_projection) list"

record ('c, 'u) train_space_time_data =
  sp_id :: int
  sp_name :: string
  sp_departureTime :: date
  sp_projection :: "('c, 'u) train_projection"
  sp_originPathItem :: "path_item option"
  sp_destinationPathItem :: "path_item option"
  sp_paced :: "('c, 'u) projected_paced option"

definition project_exceptions :: "('c, 'u) projection_result \<Rightarrow> (string \<times> ('c, 'u) train_projection) list" where
  "project_exceptions trainData =
     (case pj_exceptions trainData of
        None \<Rightarrow> []
      | Some es \<Rightarrow> foldl (\<lambda>m (key, cs, us). AList.update key \<lparr>pr_curves = cs, pr_signal_updates = us\<rparr> m) [] es)"

definition projected_train ::
  "(string \<Rightarrow> duration) \<Rightarrow> (string \<Rightarrow> date) \<Rightarrow> timetable_item \<Rightarrow> ('c, 'u) projection_result \<Rightarrow> ('c, 'u) train_space_time_data" where
  "projected_train parse parseDate matchingTrain trainData =
     \<lparr>sp_id = tm_id matchingTrain,
      sp_name = (if ts_train_name matchingTrain \<noteq> [] then ts_train_name matchingTrain else ''Train name not found''),
      sp_departureTime = parseDate (ts_start_time matchingTrain),
      sp_projection = \<lparr>pr_curves = pj_curves trainData,
                       pr_signal_updates = (case pj_updates trainData of None \<Rightarrow> [] | Some us \<Rightarrow> us)\<rparr>,
      sp_originPathItem = js_at (ts_path matchingTrain) 0,
      sp_destinationPathItem = js_at (ts_path matchingTrain) (-1),
      sp_paced =
        map_option (\<lambda>paced. \<lparr>pp_timeWindow = parse (pc_time_window paced), pp_interval = parse (pc_interval paced),
                             pp_exceptions = pc_exceptions paced, pp_exceptionProjections = project_exceptions trainData\<rparr>)
          (tp_paced matchingTrain)\<rparr>"

definition upsertNewProjectedTrains ::
  "(string \<Rightarrow> duration) \<Rightarrow> (string \<Rightarrow> date) \<Rightarrow> (int \<times> ('c, 'u) train_space_time_data) list \<Rightarrow> (int \<times> ('c, 'u) projection_result) list \<Rightarrow>
   (int \<times> timetable_item) list \<Rightarrow> (int \<times> ('c, 'u) train_space_time_data) list" where
  "upsertNewProjectedTrains parse parseDate projectedTrains toUpsert timetableItemsById =
     foldl (\<lambda>m (trainIdKey, trainData).
              case map_of timetableItemsById trainIdKey of
                None \<Rightarrow> m
              | Some matchingTrain \<Rightarrow> AList.update trainIdKey (projected_train parse parseDate matchingTrain trainData) m)
       projectedTrains toUpsert"

definition projection_progress ::
  "(string \<Rightarrow> duration) \<Rightarrow> (string \<Rightarrow> date) \<Rightarrow> (('c, 'u) projection_result, ('c, 'u) train_space_time_data) on_progress" where
  "projection_progress parse parseDate timetableItems prev results =
     Inr (upsertNewProjectedTrains parse parseDate prev results timetableItems)"

definition updateProjectedTimetableItemDepartureTime ::
  "int \<Rightarrow> string \<Rightarrow> date \<Rightarrow> ('c, 'u) train_space_time_data lazy_state \<Rightarrow> ('c, 'u) train_space_time_data lazy_state" where
  "updateProjectedTimetableItemDepartureTime i newDeparture date st =
     (case map_of (lz_results st) i of
        None \<Rightarrow> st
      | Some t \<Rightarrow> st\<lparr>lz_results := AList.update i (t\<lparr>sp_departureTime := date\<rparr>) (lz_results st)\<rparr>)
     \<lparr>lz_items := (case map_of (lz_items st) i of
                     None \<Rightarrow> lz_items st
                   | Some item \<Rightarrow> AList.update i (item\<lparr>ts_start_time := newDeparture\<rparr>) (lz_items st))\<rparr>"

text \<open>The requests of a batch: the projections and the occupancy blocks are two answers that are joined by train and exception.
  On a track path a missing occupancy is an error; along operational points it is accepted.\<close>

definition joined_exceptions ::
  "(string \<times> 'c list) list \<Rightarrow> ('u list \<times> (string \<times> 'u list) list) option \<Rightarrow> (string \<times> 'c list \<times> 'u list) list option" where
  "joined_exceptions es occupancy =
     (if es = [] then None
      else Some (map (\<lambda>(key, cs). (key, cs, case Option.bind occupancy (\<lambda>occ. map_of (snd occ) key) of None \<Rightarrow> [] | Some us \<Rightarrow> us)) es))"

definition join_op_projection ::
  "(int \<times> 'c list \<times> (string \<times> 'c list) list) list \<Rightarrow> (int \<times> 'u list \<times> (string \<times> 'u list) list) list \<Rightarrow>
   (int \<times> ('c, 'u) projection_result) list" where
  "join_op_projection results occupancies =
     map (\<lambda>(i, cs, es). (i, \<lparr>pj_curves = cs, pj_updates = map_option fst (map_of occupancies i),
                              pj_exceptions = joined_exceptions es (map_of occupancies i)\<rparr>)) results"

definition join_track_projection ::
  "(int \<times> 'c list \<times> (string \<times> 'c list) list) list \<Rightarrow> (int \<times> 'u list \<times> (string \<times> 'u list) list) list \<Rightarrow>
   (int \<times> ('c, 'u) projection_result) list result" where
  "join_track_projection results occupancies =
     map_result (\<lambda>(i, cs, es). case map_of occupancies i of
                   None \<Rightarrow> Inl TypeError
                 | Some occ \<Rightarrow> Inr (i, \<lparr>pj_curves = cs, pj_updates = Some (fst occ), pj_exceptions = joined_exceptions es (Some occ)\<rparr>))
       results"

end
