(* ===== verification/LazyLoaderProperties.thy ===== *)
theory LazyLoaderProperties
  imports LazyLoader
begin

text \<open>
  Properties of the background simulation and projection. The locale \<open>lazy_loader\<close> is the contract between the queue and the function that
  receives the answers of a batch; it is interpreted for the simulation and for the projection. Under it, results only concern trains that
  the hook still has, and the queue, left alone, runs dry with a result for every train.
\<close>

section \<open>Contract of the receivers\<close>

definition items_keyed :: "(int \<times> timetable_item) list \<Rightarrow> bool" where
  "items_keyed m \<longleftrightarrow> (\<forall>i item. map_of m i = Some item \<longrightarrow> tm_id item = i)"

definition waiting :: "loader \<Rightarrow> int set" where
  "waiting ld = set (ld_pending ld) \<union> (case ld_batch ld of None \<Rightarrow> {} | Some ids \<Rightarrow> set ids)"

definition results_known :: "'v lazy_state \<Rightarrow> bool" where
  "results_known st \<longleftrightarrow> items_keyed (lz_items st) \<and> distinct (map fst (lz_results st)) \<and>
     dom (map_of (lz_results st)) \<subseteq> dom (map_of (lz_items st))"

text \<open>Nothing is forgotten: what waits belongs to the trains of the hook, a train has its result or waits for it, and a run is on its
  way as long as something is pending.\<close>

definition nothing_lost :: "'v lazy_state \<Rightarrow> bool" where
  "nothing_lost st \<longleftrightarrow> results_known st \<and>
     (\<forall>ld. lz_loader st = Some ld \<longrightarrow>
        waiting ld \<subseteq> dom (map_of (lz_items st)) \<and> dom (map_of (lz_items st)) \<subseteq> dom (map_of (lz_results st)) \<union> waiting ld \<and>
        (ld_pending ld \<noteq> [] \<longrightarrow> ld_batch ld \<noteq> None \<or> 0 < ld_runs ld))"

lemma keyed_updates:
  assumes "items_keyed m"
  shows "items_keyed (foldl (\<lambda>m item. AList.update (tm_id item) item m) m items)"
    "dom (map_of (foldl (\<lambda>m item. AList.update (tm_id item) item m) m items)) = dom (map_of m) \<union> tm_id ` set items"
proof -
  have "items_keyed (foldl (\<lambda>m item. AList.update (tm_id item) item m) m items) \<and>
      dom (map_of (foldl (\<lambda>m item. AList.update (tm_id item) item m) m items)) = dom (map_of m) \<union> tm_id ` set items"
    using assms
  proof (induction items arbitrary: m)
    case (Cons x xs)
    have "items_keyed (AList.update (tm_id x) x m)" using Cons.prems by (simp add: items_keyed_def update_conv')
    from Cons.IH [OF this] show ?case by (auto simp: update_conv')
  qed simp
  then show "items_keyed (foldl (\<lambda>m item. AList.update (tm_id item) item m) m items)"
    "dom (map_of (foldl (\<lambda>m item. AList.update (tm_id item) item m) m items)) = dom (map_of m) \<union> tm_id ` set items" by simp_all
qed

lemma deletes_map: "map_of (foldl (\<lambda>m i. AList.delete i m) m ids) = map_of m |` (- set ids)"
  by (induction ids arbitrary: m) (auto simp: delete_conv' restrict_map_def fun_eq_iff)

lemma keyed_deletes: "items_keyed m \<Longrightarrow> items_keyed (foldl (\<lambda>m i. AList.delete i m) m ids)"
  by (simp add: items_keyed_def deletes_map restrict_map_def)

lemma distinct_deletes: "distinct (map fst m) \<Longrightarrow> distinct (map fst (foldl (\<lambda>m i. AList.delete i m) m ids))"
  by (induction ids arbitrary: m) (simp_all add: distinct_delete)

lemma waiting_enqueue: "waiting (enqueue ld ids) = waiting ld \<union> set ids"
  by (auto simp: waiting_def enqueue_def)

lemma waiting_next: "waiting (next_batch ld) = set (ld_pending ld)"
  using set_append [of "take BATCH_SIZE (ld_pending ld)" "drop BATCH_SIZE (ld_pending ld)"]
  by (auto simp: next_batch_def waiting_def)

lemma next_batch_scheduled: "ld_pending (next_batch ld) \<noteq> [] \<Longrightarrow> ld_batch (next_batch ld) \<noteq> None"
  by (auto simp: next_batch_def)

text \<open>An event that goes well: the request of a batch is answered with one entry per train, and a train is not removed
  while it waits for its result.\<close>

definition smooth_event :: "'v lazy_state \<Rightarrow> 'a lazy_event \<Rightarrow> bool" where
  "smooth_event st ev =
     (case ev of
        RemoveItems ids \<Rightarrow> \<forall>ld. lz_loader st = Some ld \<longrightarrow> set ids \<inter> waiting ld = {}
      | Answer a \<Rightarrow>
          (\<forall>ld ids. lz_loader st = Some ld \<longrightarrow> ld_batch ld = Some ids \<longrightarrow>
             (\<exists>answers. a = Inr answers \<and> distinct (map fst answers) \<and> fst ` set answers = set ids))
      | _ \<Rightarrow> True)"

fun smooth_events :: "('a, 'v) on_progress \<Rightarrow> 'v lazy_state \<Rightarrow> 'a lazy_event list \<Rightarrow> bool" where
  "smooth_events onProgress st [] = True"
| "smooth_events onProgress st (ev # evs) = (smooth_event st ev \<and> smooth_events onProgress (lazy_step onProgress st ev) evs)"

locale lazy_loader =
  fixes onProgress :: "('a, 'v) on_progress" and val :: "timetable_item \<Rightarrow> 'a \<Rightarrow> 'v"
  assumes progress: "items_keyed items \<Longrightarrow> distinct (map fst prev) \<Longrightarrow> distinct (map fst answers) \<Longrightarrow> fst ` set answers \<subseteq> dom (map_of items) \<Longrightarrow>
      \<exists>res. onProgress items prev answers = Inr res \<and>
        map_of res = map_of prev ++ (\<lambda>i. map_option (val (the (map_of items i))) (map_of answers i))"
    and progress_known: "onProgress items prev answers = Inr res \<Longrightarrow> items_keyed items \<Longrightarrow> distinct (map fst prev) \<Longrightarrow>
      dom (map_of prev) \<subseteq> dom (map_of items) \<Longrightarrow> distinct (map fst res) \<and> dom (map_of res) \<subseteq> dom (map_of items)"
begin

lemma step_known: "results_known st \<Longrightarrow> results_known (lazy_step onProgress st ev)"
proof (cases ev)
  case (AddItems items)
  assume "results_known st"
  then show ?thesis using keyed_updates [of "lz_items st" items] by (auto simp: AddItems results_known_def add_items_def)
next
  case (RemoveItems ids)
  assume "results_known st"
  then have "items_keyed (lz_items st)" "dom (map_of (lz_results st)) \<inter> - set ids \<subseteq> dom (map_of (lz_items st)) \<inter> - set ids"
    "distinct (map fst (lz_results st))" unfolding results_known_def by blast+
  then show ?thesis by (simp add: RemoveItems results_known_def remove_results_def deletes_map keyed_deletes distinct_deletes)
next
  case (Answer a)
  assume st: "results_known st"
  have "distinct (map fst res) \<and> dom (map_of res) \<subseteq> dom (map_of (lz_items st))" if "onProgress (lz_items st) (lz_results st) x = Inr res" for x res
    using progress_known [OF that] st by (simp add: results_known_def)
  then show ?thesis
    using st by (simp add: Answer receive_def results_known_def split: option.split sum.split) blast
qed (auto simp: results_known_def mount_def unmount_def start_run_def split: option.split)

lemma steps_known: "results_known st \<Longrightarrow> results_known (foldl (lazy_step onProgress) st evs)"
  by (induction evs arbitrary: st) (simp_all add: step_known)

lemma answer_smooth:
  assumes "nothing_lost st" "lz_loader st = Some ld" "ld_batch ld = Some ids" "distinct (map fst answers)" "fst ` set answers = set ids"
  shows "\<exists>res. receive onProgress (Inr answers) st = st\<lparr>lz_results := res, lz_loader := Some (next_batch ld)\<rparr> \<and>
    map_of res = map_of (lz_results st) ++ (\<lambda>i. map_option (val (the (map_of (lz_items st) i))) (map_of answers i)) \<and>
    dom (map_of res) = dom (map_of (lz_results st)) \<union> set ids"
proof -
  have "items_keyed (lz_items st)" "fst ` set answers \<subseteq> dom (map_of (lz_items st))" "distinct (map fst (lz_results st))"
    using assms by (auto simp: nothing_lost_def results_known_def waiting_def)
  from progress [OF this(1,3) assms(4) this(2)]
  obtain res where res: "onProgress (lz_items st) (lz_results st) answers = Inr res"
    "map_of res = map_of (lz_results st) ++ (\<lambda>i. map_option (val (the (map_of (lz_items st) i))) (map_of answers i))" by blast
  moreover have "dom (map_of res) = dom (map_of (lz_results st)) \<union> set ids"
  proof -
    have "dom (\<lambda>i. map_option (val (the (map_of (lz_items st) i))) (map_of answers i)) = dom (map_of answers)" by (auto simp: dom_def)
    then show ?thesis unfolding res(2) by (simp add: assms(5) dom_map_of_conv_image_fst Un_commute)
  qed
  moreover have "receive onProgress (Inr answers) st = st\<lparr>lz_results := res, lz_loader := Some (next_batch ld)\<rparr>"
    using assms(2,3) res(1) by (simp add: receive_def)
  ultimately show ?thesis by blast
qed

lemma step_smooth:
  assumes st: "nothing_lost st" and ev: "smooth_event st ev"
  shows "nothing_lost (lazy_step onProgress st ev)"
proof (cases ev)
  case Mount
  then show ?thesis
    using st by (auto simp: nothing_lost_def results_known_def mount_def enqueue_def new_loader_def waiting_def dom_map_of_conv_image_fst)
next
  case Unmount
  then show ?thesis using st by (auto simp: nothing_lost_def results_known_def unmount_def)
next
  case (AddItems items)
  have "items_keyed (lz_items st)" using st by (simp add: nothing_lost_def results_known_def)
  note k = keyed_updates [OF this, of items]
  have "results_known (lazy_step onProgress st ev)" using st by (intro step_known) (simp add: nothing_lost_def)
  moreover have "waiting (enqueue ld (map tm_id items)) \<subseteq> dom (map_of (lz_items st)) \<union> tm_id ` set items \<and>
      dom (map_of (lz_items st)) \<union> tm_id ` set items \<subseteq> dom (map_of (lz_results st)) \<union> waiting (enqueue ld (map tm_id items))"
    if "lz_loader st = Some ld" for ld
    using st that unfolding nothing_lost_def waiting_enqueue set_map by blast
  moreover have "0 < ld_runs (enqueue ld ids)" for ld ids by (simp add: enqueue_def)
  ultimately show ?thesis
    unfolding nothing_lost_def by (cases "lz_loader st") (simp_all add: AddItems add_items_def k(2))
next
  case (RemoveItems ids)
  have "results_known (lazy_step onProgress st ev)" using st by (intro step_known) (simp add: nothing_lost_def)
  moreover have "waiting ld \<subseteq> dom (map_of (lz_items st)) \<inter> - set ids \<and>
      dom (map_of (lz_items st)) \<inter> - set ids \<subseteq> dom (map_of (lz_results st)) \<inter> - set ids \<union> waiting ld" if "lz_loader st = Some ld" for ld
    using st ev that unfolding nothing_lost_def smooth_event_def RemoveItems lazy_event.case by blast
  ultimately show ?thesis
    using st by (simp add: RemoveItems nothing_lost_def remove_results_def deletes_map)
next
  case StartRun
  show ?thesis
  proof (cases "lz_loader st")
    case (Some ld)
    let ?ld = "next_batch (ld\<lparr>ld_runs := ld_runs ld - 1\<rparr>)"
    have "waiting ?ld = waiting ld" if "ld_batch ld = None" using that by (simp add: waiting_next) (simp add: waiting_def)
    then show ?thesis
      using st Some next_batch_scheduled [of "ld\<lparr>ld_runs := ld_runs ld - 1\<rparr>"]
      by (auto simp: StartRun start_run_def nothing_lost_def results_known_def)
  qed (use st StartRun in \<open>simp add: start_run_def\<close>)
next
  case (Answer a)
  show ?thesis
  proof (cases "\<exists>ld ids. lz_loader st = Some ld \<and> ld_batch ld = Some ids")
    case True
    then obtain ld ids where ld: "lz_loader st = Some ld" "ld_batch ld = Some ids" by blast
    with ev Answer obtain answers where a: "a = Inr answers" "distinct (map fst answers)" "fst ` set answers = set ids"
      by (auto simp: smooth_event_def)
    from answer_smooth [OF st ld a(2,3)] obtain res where res:
      "receive onProgress (Inr answers) st = st\<lparr>lz_results := res, lz_loader := Some (next_batch ld)\<rparr>"
      "dom (map_of res) = dom (map_of (lz_results st)) \<union> set ids" by blast
    have "results_known (lazy_step onProgress st ev)" using st by (intro step_known) (simp add: nothing_lost_def)
    moreover have "set (ld_pending ld) \<subseteq> dom (map_of (lz_items st))"
      "dom (map_of (lz_items st)) \<subseteq> dom (map_of res) \<union> set (ld_pending ld)"
      using st ld unfolding nothing_lost_def res(2) waiting_def by auto
    ultimately show ?thesis
      unfolding nothing_lost_def using next_batch_scheduled [of ld] by (simp add: Answer a(1) res(1) waiting_next)
  next
    case False
    then have "receive onProgress a st = st" by (auto simp: receive_def split: option.split)
    then show ?thesis using st by (simp add: Answer)
  qed
qed

lemma steps_smooth: "nothing_lost st \<Longrightarrow> smooth_events onProgress st evs \<Longrightarrow> nothing_lost (foldl (lazy_step onProgress) st evs)"
  by (induction evs arbitrary: st) (simp_all add: step_smooth)

end

section \<open>Settling\<close>

text \<open>What happens when no more event comes from outside: the next run starts, or the awaited answer arrives.\<close>

definition settle :: "('a, 'v) on_progress \<Rightarrow> (int list \<Rightarrow> (int \<times> 'a) list) \<Rightarrow> 'v lazy_state \<Rightarrow> 'v lazy_state" where
  "settle onProgress serve st =
     (case Option.bind (lz_loader st) ld_batch of
        None \<Rightarrow> lazy_step onProgress st StartRun
      | Some ids \<Rightarrow> lazy_step onProgress st (Answer (Inr (serve ids))))"

definition idle :: "loader \<Rightarrow> bool" where
  "idle ld \<longleftrightarrow> ld_pending ld = [] \<and> ld_batch ld = None \<and> ld_runs ld = 0"

definition work :: "loader \<Rightarrow> nat" where
  "work ld = length (ld_pending ld) + ld_runs ld + (if ld_batch ld = None then 0 else 1)"

lemma work_next: "work (next_batch ld) \<le> length (ld_pending ld) + ld_runs ld"
  by (auto simp: next_batch_def work_def BATCH_SIZE_def Suc_le_eq min_def)

context lazy_loader
begin

lemma settle_step:
  assumes st: "nothing_lost st" and ld: "lz_loader st = Some ld" "\<not> idle ld"
    and serve: "\<forall>ids. distinct (map fst (serve ids)) \<and> fst ` set (serve ids) = set ids"
  shows "\<exists>ld'. lz_loader (settle onProgress serve st) = Some ld' \<and> work ld' < work ld \<and> nothing_lost (settle onProgress serve st) \<and>
    lz_items (settle onProgress serve st) = lz_items st \<and>
    (\<forall>i\<in>waiting ld - waiting ld'. \<exists>a. map_of (lz_results (settle onProgress serve st)) i = Some (val (the (map_of (lz_items st) i)) a)) \<and>
    waiting ld' \<subseteq> waiting ld \<and>
    (\<forall>i item. map_of (lz_items st) i = Some item \<longrightarrow> (\<exists>a. map_of (lz_results st) i = Some (val item a)) \<longrightarrow>
       (\<exists>a. map_of (lz_results (settle onProgress serve st)) i = Some (val item a)))"
proof (cases "ld_batch ld")
  case None
  have runs: "0 < ld_runs ld" using st ld None by (auto simp: nothing_lost_def idle_def)
  let ?ld = "next_batch (ld\<lparr>ld_runs := ld_runs ld - 1\<rparr>)"
  have s: "settle onProgress serve st = st\<lparr>lz_loader := Some ?ld\<rparr>" using ld None runs by (simp add: settle_def start_run_def)
  have "nothing_lost (settle onProgress serve st)"
    using step_smooth [OF st, of StartRun] ld None by (simp add: settle_def smooth_event_def)
  moreover have "work ?ld < work ld" using work_next [of "ld\<lparr>ld_runs := ld_runs ld - 1\<rparr>"] runs None by (simp add: work_def)
  moreover have "waiting ?ld = waiting ld" using None by (simp add: waiting_next) (simp add: waiting_def)
  ultimately show ?thesis by (auto simp: s)
next
  case (Some ids)
  from answer_smooth [OF st ld(1) Some, of "serve ids"] serve obtain res where res:
    "receive onProgress (Inr (serve ids)) st = st\<lparr>lz_results := res, lz_loader := Some (next_batch ld)\<rparr>"
    "map_of res = map_of (lz_results st) ++ (\<lambda>i. map_option (val (the (map_of (lz_items st) i))) (map_of (serve ids) i))" by blast
  have s: "settle onProgress serve st = st\<lparr>lz_results := res, lz_loader := Some (next_batch ld)\<rparr>"
    using ld Some res(1) by (simp add: settle_def)
  have "nothing_lost (settle onProgress serve st)"
    using step_smooth [OF st, of "Answer (Inr (serve ids))"] ld Some serve by (simp add: settle_def smooth_event_def)
  moreover have "work (next_batch ld) < work ld" using work_next [of ld] Some by (simp add: work_def)
  moreover have "\<exists>a. map_of res i = Some (val (the (map_of (lz_items st) i)) a)" if "i \<in> set ids" for i
  proof -
    have "i \<in> dom (map_of (serve ids))" using serve that by (simp add: dom_map_of_conv_image_fst)
    then show ?thesis by (auto simp: res(2) map_add_def)
  qed
  moreover have "\<exists>a. map_of res i = Some (val item a)"
    if "map_of (lz_items st) i = Some item" "map_of (lz_results st) i = Some (val item a)" for i item a
    using that by (cases "map_of (serve ids) i") (auto simp: res(2) map_add_def)
  moreover have "waiting ld = set (ld_pending ld) \<union> set ids" using Some by (simp add: waiting_def)
  ultimately show ?thesis by (auto simp: s waiting_next)
qed

lemma settles:
  assumes "nothing_lost st" "lz_loader st = Some ld"
    and serve: "\<forall>ids. distinct (map fst (serve ids)) \<and> fst ` set (serve ids) = set ids"
  shows "\<exists>n\<le>work ld. \<exists>ld'. let st' = (settle onProgress serve ^^ n) st in
    lz_loader st' = Some ld' \<and> idle ld' \<and> nothing_lost st' \<and> lz_items st' = lz_items st \<and>
    (\<forall>i\<in>waiting ld. \<exists>a. map_of (lz_results st') i = Some (val (the (map_of (lz_items st) i)) a)) \<and>
    (\<forall>i item. map_of (lz_items st) i = Some item \<longrightarrow> (\<exists>a. map_of (lz_results st) i = Some (val item a)) \<longrightarrow>
       (\<exists>a. map_of (lz_results st') i = Some (val item a)))"
  using assms(1,2)
proof (induction "work ld" arbitrary: st ld rule: less_induct)
  case less
  show ?case
  proof (cases "idle ld")
    case True
    then have "waiting ld = {}" by (simp add: idle_def waiting_def)
    then show ?thesis using True less.prems by (intro exI [of _ 0]) (simp add: Let_def)
  next
    case False
    let ?s = "settle onProgress serve st"
    from settle_step [OF less.prems False serve] obtain ld1 where 1: "lz_loader ?s = Some ld1" "work ld1 < work ld" "nothing_lost ?s"
      "lz_items ?s = lz_items st"
      and r1: "\<forall>i\<in>waiting ld - waiting ld1. \<exists>a. map_of (lz_results ?s) i = Some (val (the (map_of (lz_items st) i)) a)"
      and sub: "waiting ld1 \<subseteq> waiting ld"
      and k1: "\<forall>i item. map_of (lz_items st) i = Some item \<longrightarrow> (\<exists>a. map_of (lz_results st) i = Some (val item a)) \<longrightarrow>
         (\<exists>a. map_of (lz_results ?s) i = Some (val item a))" by blast
    from less.hyps [OF 1(2,3,1)] obtain n ld' where n: "n \<le> work ld1" and
      2: "lz_loader ((settle onProgress serve ^^ n) ?s) = Some ld'" "idle ld'" "nothing_lost ((settle onProgress serve ^^ n) ?s)"
        "lz_items ((settle onProgress serve ^^ n) ?s) = lz_items st"
      and r2: "\<forall>i\<in>waiting ld1. \<exists>a. map_of (lz_results ((settle onProgress serve ^^ n) ?s)) i = Some (val (the (map_of (lz_items st) i)) a)"
      and k2: "\<forall>i item. map_of (lz_items st) i = Some item \<longrightarrow> (\<exists>a. map_of (lz_results ?s) i = Some (val item a)) \<longrightarrow>
         (\<exists>a. map_of (lz_results ((settle onProgress serve ^^ n) ?s)) i = Some (val item a))"
      by (auto simp: Let_def 1(4))
    have "\<exists>a. map_of (lz_results ((settle onProgress serve ^^ n) ?s)) i = Some (val (the (map_of (lz_items st) i)) a)" if i: "i \<in> waiting ld" for i
    proof (cases "i \<in> waiting ld1")
      case False
      have "i \<in> dom (map_of (lz_items st))" using less.prems i by (auto simp: nothing_lost_def)
      then obtain item where item: "map_of (lz_items st) i = Some item" by blast
      with False i r1 have "\<exists>a. map_of (lz_results ?s) i = Some (val item a)" by force
      with k2 item show ?thesis by simp
    qed (use r2 in blast)
    then show ?thesis
      using n 1(2) 2 k1 k2 by (intro exI [of _ "Suc n"] conjI exI [of _ ld']) (auto simp: Let_def funpow_Suc_right simp del: funpow.simps)
  qed
qed

end

section \<open>Simulation and projection\<close>

lemma fold_updates_map: "map_of (foldl (\<lambda>m (k, v). AList.update k v m) m xs) = map_of m ++ map_of (rev xs)"
proof (induction xs arbitrary: m)
  case (Cons x xs)
  obtain k v where x: "x = (k, v)" by (cases x)
  have "map_of (foldl (\<lambda>m (k, v). AList.update k v m) m (x # xs)) = (map_of m)(k \<mapsto> v) ++ map_of (rev xs)"
    unfolding x foldl_Cons prod.case Cons update_conv' ..
  also have "\<dots> = map_of m ++ map_of (rev (x # xs))" by (rule ext) (simp add: x map_add_def split: option.split)
  finally show ?case .
qed simp

lemma fold_updates_distinct: "distinct (map fst m) \<Longrightarrow> distinct (map fst (foldl (\<lambda>m (k, v). AList.update k v m) m xs))"
  by (induction xs arbitrary: m) (auto simp: distinct_update)

lemma concatMap_map: "map_of (concatMap a b) = map_of (rev a) ++ map_of (rev b)"
  using fold_updates_map [of "[]" "a @ b"] by (simp add: concatMap_def)

lemma concatMap_distinct: "distinct (map fst (concatMap a b))"
  by (simp add: concatMap_def fold_updates_distinct)

lemma map_of_rev: "distinct (map fst m) \<Longrightarrow> map_of (rev m) = map_of m"
  by (subst map_of_inject_set) (simp_all add: rev_map [symmetric])

lemma mapBy_concat: "mapBy key (Some xs) = concatMap [] (map (\<lambda>x. (key x, x)) xs)"
  by (simp add: mapBy_def concatMap_def foldl_map)

abbreviation simulated_of :: "string list \<Rightarrow> timetable_item \<Rightarrow> 's \<Rightarrow> 's simulated_train" where
  "simulated_of rollingStocks item s \<equiv>
     \<lparr>sm_item = item, sm_rollingStock = find (\<lambda>rs. rs = ts_rolling_stock_name item) rollingStocks, sm_summary = s\<rparr>"

lemma summaries_ok:
  assumes "items_keyed items" "fst ` set summaries \<subseteq> dom (map_of items)"
  shows "formatTimetableItemSummaries summaries items rollingStocks =
    Inr (concatMap [] (map (\<lambda>s. (fst s, simulated_of rollingStocks (the (map_of items (fst s))) (snd s))) summaries))"
proof -
  have "formatTimetableItemWithDetails s items rollingStocks = Inr (simulated_of rollingStocks (the (map_of items (fst s))) (snd s)) \<and>
      tm_id (the (map_of items (fst s))) = fst s" if "s \<in> set summaries" for s
    using assms that by (force simp: formatTimetableItemWithDetails_def items_keyed_def split: option.split)
  then have "map_result (\<lambda>s. formatTimetableItemWithDetails s items rollingStocks) summaries =
      Inr (map (\<lambda>s. simulated_of rollingStocks (the (map_of items (fst s))) (snd s)) summaries)"
    and "map (\<lambda>t. (tm_id (sm_item t), t)) (map (\<lambda>s. simulated_of rollingStocks (the (map_of items (fst s))) (snd s)) summaries) =
      map (\<lambda>s. (fst s, simulated_of rollingStocks (the (map_of items (fst s))) (snd s))) summaries"
    by (auto intro!: map_result_total)
  then show ?thesis unfolding formatTimetableItemSummaries_def mapBy_concat by (simp only: bind_result.simps)
qed

lemma summaries_known:
  assumes "formatTimetableItemSummaries summaries items rollingStocks = Inr res" "items_keyed items"
  shows "fst ` set res \<subseteq> dom (map_of items)"
proof -
  obtain ts where ts: "map_result (\<lambda>s. formatTimetableItemWithDetails s items rollingStocks) summaries = Inr ts"
    "res = concatMap [] (map (\<lambda>t. (tm_id (sm_item t), t)) ts)"
    using assms(1) by (auto simp: formatTimetableItemSummaries_def mapBy_concat)
  have "tm_id (sm_item t) \<in> dom (map_of items)" if t: "t \<in> set ts" for t
  proof -
    obtain j where j: "j < length ts" "t = ts ! j" using t by (auto simp: in_set_conv_nth)
    then have "formatTimetableItemWithDetails (summaries ! j) items rollingStocks = Inr t"
      using map_result_nth [OF ts(1)] map_result_length [OF ts(1)] by auto
    then show ?thesis using assms(2) by (auto simp: formatTimetableItemWithDetails_def items_keyed_def split: option.splits)
  qed
  then have "dom (map_of res) \<subseteq> dom (map_of items)"
    unfolding ts(2) concatMap_map by (auto simp: dom_map_of_conv_image_fst)
  then show ?thesis by (simp add: dom_map_of_conv_image_fst)
qed

interpretation simulation: lazy_loader "simulation_progress rollingStocks" "simulated_of rollingStocks" for rollingStocks
proof
  fix items :: "(int \<times> timetable_item) list" and prev :: "(int \<times> 'a simulated_train) list" and answers :: "(int \<times> 'a) list"
  assume a: "items_keyed items" "distinct (map fst prev)" "distinct (map fst answers)" "fst ` set answers \<subseteq> dom (map_of items)"
  let ?new = "map (\<lambda>s. (fst s, simulated_of rollingStocks (the (map_of items (fst s))) (snd s))) answers"
  have d: "distinct (map fst ?new)" using a(3) by (simp add: comp_def)
  have "map_of ?new = (\<lambda>i. map_option (simulated_of rollingStocks (the (map_of items i))) (map_of answers i))"
    by (rule ext, induction answers) auto
  moreover have "map_of (concatMap prev (concatMap [] ?new)) = map_of prev ++ map_of ?new"
    by (simp only: concatMap_map map_of_rev [OF a(2)] map_of_rev [OF concatMap_distinct] map_of_rev [OF d] rev.simps map_of.simps map_add_empty empty_map_add)
  ultimately show "\<exists>res. simulation_progress rollingStocks items prev answers = Inr res \<and>
      map_of res = map_of prev ++ (\<lambda>i. map_option (simulated_of rollingStocks (the (map_of items i))) (map_of answers i))"
    using summaries_ok [OF a(1,4)] by (simp add: simulation_progress_def)
next
  fix items :: "(int \<times> timetable_item) list" and prev :: "(int \<times> 'a simulated_train) list" and answers :: "(int \<times> 'a) list" and res
  assume a: "simulation_progress rollingStocks items prev answers = Inr res" "items_keyed items" "distinct (map fst prev)"
    "dom (map_of prev) \<subseteq> dom (map_of items)"
  then obtain s where s: "formatTimetableItemSummaries answers items rollingStocks = Inr s" "res = concatMap prev s"
    by (auto simp: simulation_progress_def)
  have "dom (map_of res) = fst ` set prev \<union> fst ` set s" unfolding s(2) concatMap_map by (simp add: dom_map_of_conv_image_fst Un_commute)
  then show "distinct (map fst res) \<and> dom (map_of res) \<subseteq> dom (map_of items)"
    using summaries_known [OF s(1) a(2)] a(4) by (simp add: s(2) concatMap_distinct dom_map_of_conv_image_fst)
qed

lemma upsert_projected:
  shows "map_of (upsertNewProjectedTrains parse parseDate prev answers items) =
      map_of prev ++ map_of (rev (List.map_filter (\<lambda>(i, a). map_option (\<lambda>item. (i, projected_train parse parseDate item a)) (map_of items i)) answers))"
    "distinct (map fst prev) \<Longrightarrow> distinct (map fst (upsertNewProjectedTrains parse parseDate prev answers items))"
proof -
  have "upsertNewProjectedTrains parse parseDate prev answers items =
      foldl (\<lambda>m (k, v). AList.update k v m) prev
        (List.map_filter (\<lambda>(i, a). map_option (\<lambda>item. (i, projected_train parse parseDate item a)) (map_of items i)) answers)"
    unfolding upsertNewProjectedTrains_def
    by (induction answers arbitrary: prev) (auto simp: List.map_filter_simps split: option.split)
  note eq = this
  show "map_of (upsertNewProjectedTrains parse parseDate prev answers items) =
      map_of prev ++ map_of (rev (List.map_filter (\<lambda>(i, a). map_option (\<lambda>item. (i, projected_train parse parseDate item a)) (map_of items i)) answers))"
    unfolding eq by (rule fold_updates_map)
  show "distinct (map fst (upsertNewProjectedTrains parse parseDate prev answers items))" if "distinct (map fst prev)"
    unfolding eq by (rule fold_updates_distinct [OF that])
qed

interpretation projection: lazy_loader "projection_progress parse parseDate" "projected_train parse parseDate" for parse parseDate
proof
  fix items :: "(int \<times> timetable_item) list" and prev :: "(int \<times> ('a, 'b) train_space_time_data) list"
    and answers :: "(int \<times> ('a, 'b) projection_result) list"
  assume a: "items_keyed items" "distinct (map fst prev)" "distinct (map fst answers)" "fst ` set answers \<subseteq> dom (map_of items)"
  let ?new = "map (\<lambda>(i, a). (i, projected_train parse parseDate (the (map_of items i)) a)) answers"
  have "List.map_filter (\<lambda>(i, a). map_option (\<lambda>item. (i, projected_train parse parseDate item a)) (map_of items i)) answers = ?new"
    using a(4) by (induction answers) (auto simp: List.map_filter_simps)
  moreover have d: "distinct (map fst ?new)" using a(3) by (simp add: comp_def case_prod_unfold)
  moreover have "map_of ?new = (\<lambda>i. map_option (projected_train parse parseDate (the (map_of items i))) (map_of answers i))"
    by (rule ext, induction answers) auto
  ultimately show "\<exists>res. projection_progress parse parseDate items prev answers = Inr res \<and>
      map_of res = map_of prev ++ (\<lambda>i. map_option (projected_train parse parseDate (the (map_of items i))) (map_of answers i))"
    using map_of_rev [OF d] by (simp add: projection_progress_def upsert_projected(1))
next
  fix items :: "(int \<times> timetable_item) list" and prev :: "(int \<times> ('a, 'b) train_space_time_data) list"
    and answers :: "(int \<times> ('a, 'b) projection_result) list" and res
  assume a: "projection_progress parse parseDate items prev answers = Inr res" "items_keyed items" "distinct (map fst prev)"
    "dom (map_of prev) \<subseteq> dom (map_of items)"
  have res: "res = upsertNewProjectedTrains parse parseDate prev answers items" using a(1) by (simp add: projection_progress_def)
  have "fst ` set (List.map_filter (\<lambda>(i, a). map_option (\<lambda>item. (i, projected_train parse parseDate item a)) (map_of items i)) answers)
      \<subseteq> dom (map_of items)"
    by (induction answers) (auto simp: List.map_filter_simps split: option.splits)
  then have "dom (map_of res) \<subseteq> dom (map_of items)"
    using a(4) unfolding res upsert_projected(1) by (simp add: dom_map_of_conv_image_fst)
  then show "distinct (map fst res) \<and> dom (map_of res) \<subseteq> dom (map_of items)"
    using upsert_projected(2) [OF a(3)] by (simp add: res)
qed

section \<open>Properties\<close>

lemma new_state_ok: "nothing_lost newLazyState" "results_known newLazyState"
  by (simp_all add: nothing_lost_def results_known_def newLazyState_def items_keyed_def)

text \<open>C17: whatever happens, failing and late answers included, the simulated and the projected trains are trains that the hook still
  has: a train that was removed never comes back with an answer that was on its way.\<close>

theorem lazy_results_known:
  "results_known (foldl (lazy_step (simulation_progress rollingStocks)) newLazyState sims) \<and>
   results_known (foldl (lazy_step (projection_progress parse parseDate)) newLazyState projs)"
  using simulation.steps_known [OF new_state_ok(2)] projection.steps_known [OF new_state_ok(2)] by blast

lemma settled:
  assumes "nothing_lost st" "lz_loader st = Some ld" "idle ld"
  shows "dom (map_of (lz_items st)) \<subseteq> dom (map_of (lz_results st))"
  using assms by (auto simp: nothing_lost_def waiting_def idle_def)

lemma simulations_settle:
  assumes "smooth_events (simulation_progress rollingStocks) newLazyState evs"
    and st: "st = foldl (lazy_step (simulation_progress rollingStocks)) newLazyState evs" and ld: "lz_loader st = Some ld"
    and serve: "\<forall>ids. distinct (map fst (serve ids)) \<and> fst ` set (serve ids) = set ids"
  shows "\<exists>n\<le>work ld. let st' = (settle (simulation_progress rollingStocks) serve ^^ n) st in
    (\<exists>ld'. lz_loader st' = Some ld' \<and> idle ld') \<and> lz_items st' = lz_items st \<and>
    (\<forall>i item. map_of (lz_items st) i = Some item \<longrightarrow>
       (\<exists>t. map_of (lz_results st') i = Some t \<and> (i \<in> waiting ld \<longrightarrow> sm_item t = item)))"
proof -
  have ok: "nothing_lost st" unfolding st by (rule simulation.steps_smooth [OF new_state_ok(1) assms(1)])
  from simulation.settles [OF ok ld serve, of rollingStocks] obtain n ld' where n: "n \<le> work ld"
    and 1: "lz_loader ((settle (simulation_progress rollingStocks) serve ^^ n) st) = Some ld'" "idle ld'"
      "nothing_lost ((settle (simulation_progress rollingStocks) serve ^^ n) st)"
      "lz_items ((settle (simulation_progress rollingStocks) serve ^^ n) st) = lz_items st"
    and w: "\<forall>i\<in>waiting ld. \<exists>a. map_of (lz_results ((settle (simulation_progress rollingStocks) serve ^^ n) st)) i =
      Some (simulated_of rollingStocks (the (map_of (lz_items st) i)) a)"
    unfolding Let_def by blast
  have "\<exists>t. map_of (lz_results ((settle (simulation_progress rollingStocks) serve ^^ n) st)) i = Some t \<and> (i \<in> waiting ld \<longrightarrow> sm_item t = item)"
    if i: "map_of (lz_items st) i = Some item" for i item
  proof (cases "i \<in> waiting ld")
    case True
    with w i show ?thesis by force
  next
    case False
    have "i \<in> dom (map_of (lz_results ((settle (simulation_progress rollingStocks) serve ^^ n) st)))"
      using settled [OF 1(3,1,2)] i unfolding 1(4) by blast
    with False show ?thesis by blast
  qed
  then show ?thesis using n 1 unfolding Let_def by blast
qed

text \<open>C3: after any history of the simulation hook in which every request is answered and no train is removed while it waits,
  the queue runs dry in a bounded number of steps, every train of the hook has a result, and the trains that were waiting
  have a result made from their current version.\<close>

theorem simulations_complete:
  assumes "smooth_events (simulation_progress rollingStocks) newLazyState evs"
    and "st = foldl (lazy_step (simulation_progress rollingStocks)) newLazyState evs" and "lz_loader st = Some ld"
    and "\<forall>ids. distinct (map fst (serve ids)) \<and> fst ` set (serve ids) = set ids"
  shows "\<exists>n\<le>work ld. let st' = (settle (simulation_progress rollingStocks) serve ^^ n) st in
    (\<exists>ld'. lz_loader st' = Some ld' \<and> idle ld') \<and> lz_items st' = lz_items st \<and>
    (\<forall>i item. map_of (lz_items st) i = Some item \<longrightarrow>
       (\<exists>t. map_of (lz_results st') i = Some t \<and> (i \<in> waiting ld \<longrightarrow> sm_item t = item)))"
  using simulations_settle [OF assms] .

definition queued_train :: "int \<Rightarrow> string \<Rightarrow> timetable_item" where
  "queued_train i name = train_payload.extend (DEFAULT_TRAIN_SCHEDULE_PAYLOAD\<lparr>ts_train_name := name\<rparr>) (timetable_item.fields i)"

definition sample_history :: "nat lazy_event list" where
  "sample_history =
     [Mount, AddItems [queued_train 1 ''a'', queued_train 2 ''b''], StartRun, StartRun, AddItems [queued_train 1 ''c'']]"

theorem simulations_complete_witness:
  "\<exists>n. let st' = (settle (simulation_progress [''r'']) (\<lambda>ids. map (\<lambda>i. (i, 0::nat)) (remdups ids)) ^^ n)
            (foldl (lazy_step (simulation_progress [''r''])) newLazyState sample_history)
       in \<exists>t. map_of (lz_results st') 1 = Some t \<and> sm_item t = queued_train 1 ''c''"
proof -
  let ?st = "foldl (lazy_step (simulation_progress [''r''])) newLazyState sample_history"
  have f: "tm_id (queued_train i name) = i" for i name by (simp add: queued_train_def timetable_item.defs train_payload.defs)
  have st: "lz_items ?st = [(1, queued_train 1 ''c''), (2, queued_train 2 ''b'')]"
    "lz_loader ?st = Some \<lparr>ld_pending = [1], ld_runs = 2, ld_batch = Some [1, 2]\<rparr>"
    by (simp_all add: sample_history_def newLazyState_def mount_def add_items_def start_run_def enqueue_def new_loader_def next_batch_def
        BATCH_SIZE_def f)
  have smooth: "smooth_events (simulation_progress [''r'']) newLazyState sample_history"
    by (simp add: sample_history_def smooth_event_def)
  have serve: "\<forall>ids. distinct (map fst (map (\<lambda>i. (i, 0::nat)) (remdups ids))) \<and> fst ` set (map (\<lambda>i. (i, 0::nat)) (remdups ids)) = set (ids :: int list)"
    by (simp add: comp_def image_image)
  have "map_of (lz_items ?st) 1 = Some (queued_train 1 ''c'')" "1 \<in> waiting \<lparr>ld_pending = [1], ld_runs = 2, ld_batch = Some [1, 2]\<rparr>"
    by (simp_all add: st(1) waiting_def)
  with simulations_complete [OF smooth refl st(2) serve] show ?thesis unfolding Let_def by blast
qed

text \<open>A train that is removed while its batch is on its way makes the handling of the answer throw: the other trains of the batch get no
  result, and nothing asks for them again.\<close>

lemma lost_batch:
  "let st = foldl (lazy_step (simulation_progress []))
        newLazyState [Mount, StartRun, AddItems [queued_train 1 ''a'', queued_train 2 ''b''], StartRun, RemoveItems [1],
           Answer (Inr [(1, 7::nat), (2, 8)])]
   in map fst (lz_items st) = [2] \<and> lz_results st = [] \<and> map_option idle (lz_loader st) = Some True"
  by code_simp

end
