(* ===== verification/StdcmRequest.thy ===== *)
theory StdcmRequest
  imports StdcmConf Physics
begin

text \<open>
  The request of the last minute application, from the form to the payload of the server:
  \<open>front/src/applications/stdcm/utils\<close> (\<open>filterMissingFields.ts\<close>, \<open>getInvalidFields.ts\<close>, \<open>checkStdcmConfigErrors.ts\<close>,
  \<open>consistValidation.ts\<close>, \<open>calculateConsistMaxSpeed.ts\<close>, \<open>formatStdcmConf.ts\<close>, \<open>createMargin.ts\<close>, \<open>adjustSimulationInputs.ts\<close>,
  \<open>index.ts\<close>) and the hook \<open>useStdcmConsist.ts\<close> of the consist card. The notifications that a function shows are part of its
  result. Printing of dates is a parameter.
\<close>

section \<open>Errors of the form\<close>

datatype missing_field = MissingTractionEngine | MissingTotalMass | MissingTotalLength | MissingMaxSpeed | MissingOrigin
  | MissingVias | MissingDestination | MissingViaConsistTotalMass | MissingViaConsistTotalLength

datatype consist_field = TotalMass | TotalLength | MaxSpeed

datatype config_error_type = INFRA_NOT_LOADED | PATHFINDING_FAILED | BOTH_POINT_SCHEDULED | NO_SCHEDULED_POINT
  | ZERO_LENGTH_PATH | MISSING_INFORMATIONS | INVALID_FIELDS | MULTIPLE_ERRORS | VIA_STOP_DURATION_MISSING
  | VIA_STOP_DURATION_TOO_SHORT

record field_error =
  fe_message :: "string option"
  fe_display :: bool
  fe_invalid :: bool

record consist_errors =
  er_totalMass :: field_error
  er_totalLength :: field_error
  er_maxSpeed :: field_error

record config_error_details =
  ed_routeErrors :: "config_error_type list option"
  ed_originTime :: "string option"
  ed_destinationTime :: "string option"
  ed_missingFields :: "missing_field list option"
  ed_invalidFields :: "consist_field list option"

record config_errors =
  ce_errorType :: config_error_type
  ce_errorDetails :: "config_error_details option"

definition ALL_MISSING_FIELDS :: "missing_field list" where
  "ALL_MISSING_FIELDS =
     [MissingTractionEngine, MissingTotalMass, MissingTotalLength, MissingMaxSpeed, MissingOrigin, MissingVias, MissingDestination,
      MissingViaConsistTotalMass, MissingViaConsistTotalLength]"

text \<open>A number is truthy when it is defined and not zero.\<close>

definition truthy_id :: "rowid option \<Rightarrow> bool" where
  "truthy_id i = (case i of None \<Rightarrow> False | Some n \<Rightarrow> n \<noteq> 0)"

definition truthy_num :: "num option \<Rightarrow> bool" where
  "truthy_num x = (case x of None \<Rightarrow> False | Some v \<Rightarrow> v \<noteq> 0)"

definition changes_without :: "(consist_data \<Rightarrow> num option) \<Rightarrow> stdcm_step \<Rightarrow> bool" where
  "changes_without get via =
     (sp_isVia via \<and> (case sp_consistChange via of None \<Rightarrow> False | Some c \<Rightarrow> get c = None))"

fun is_missing :: "stdcm_conf \<Rightarrow> stdcm_step option \<Rightarrow> stdcm_step list \<Rightarrow> stdcm_step option \<Rightarrow> missing_field \<Rightarrow> bool" where
  "is_missing conf origin vias destination MissingTractionEngine = (\<not> truthy_id (rollingStockID conf))"
| "is_missing conf origin vias destination MissingTotalMass = (totalMass conf = None)"
| "is_missing conf origin vias destination MissingTotalLength = (totalLength conf = None)"
| "is_missing conf origin vias destination MissingMaxSpeed = (maxSpeed conf = None)"
| "is_missing conf origin vias destination MissingOrigin = (Option.bind origin sp_operationalPoint = None)"
| "is_missing conf origin vias destination MissingVias = list_ex (\<lambda>via. sp_operationalPoint via = None) vias"
| "is_missing conf origin vias destination MissingDestination = (Option.bind destination sp_operationalPoint = None)"
| "is_missing conf origin vias destination MissingViaConsistTotalMass = list_ex (changes_without cd_totalMass) vias"
| "is_missing conf origin vias destination MissingViaConsistTotalLength = list_ex (changes_without cd_totalLength) vias"

definition filterMissingFields ::
  "missing_field list option \<Rightarrow> stdcm_conf \<Rightarrow> stdcm_step option \<Rightarrow> stdcm_step list \<Rightarrow> stdcm_step option \<Rightarrow> bool \<Rightarrow>
   missing_field list" where
  "filterMissingFields missingFields conf origin vias destination checkAllFields =
     filter (is_missing conf origin vias destination)
       (if checkAllFields then ALL_MISSING_FIELDS else (case missingFields of None \<Rightarrow> [] | Some fs \<Rightarrow> fs))"

fun error_of :: "consist_errors \<Rightarrow> consist_field \<Rightarrow> field_error" where
  "error_of e TotalMass = er_totalMass e"
| "error_of e TotalLength = er_totalLength e"
| "error_of e MaxSpeed = er_maxSpeed e"

definition consistErrorFields :: "consist_field list" where
  "consistErrorFields = [TotalMass, TotalLength, MaxSpeed]"

definition add_invalid :: "consist_errors \<Rightarrow> consist_field list \<Rightarrow> consist_field \<Rightarrow> consist_field list" where
  "add_invalid errors acc key =
     (let fieldError = error_of errors key in
      if fe_invalid fieldError \<and> fe_display fieldError \<and> truthy (fe_message fieldError) \<and> key \<notin> set acc then acc @ [key] else acc)"

definition getInvalidFields :: "consist_errors list option \<Rightarrow> consist_field list" where
  "getInvalidFields consistErrors =
     (case consistErrors of
        None \<Rightarrow> []
      | Some ess \<Rightarrow> foldl (\<lambda>acc errors. foldl (add_invalid errors) acc consistErrorFields) [] ess)"

definition ends_errors :: "stdcm_step \<Rightarrow> stdcm_step \<Rightarrow> config_error_type list" where
  "ends_errors origin destination =
     (case (sp_operationalPoint origin, sp_operationalPoint destination) of
        (Some o1, Some d1) \<Rightarrow>
          (if sop_id o1 = sop_id d1 then [ZERO_LENGTH_PATH] else []) @
          (if \<not> sp_isVia origin \<and> sp_arrivalType origin = Some RESPECT_DESTINATION_SCHEDULE \<and>
              \<not> sp_isVia destination \<and> sp_arrivalType destination = Some ASAP then [NO_SCHEDULED_POINT] else []) @
          (if \<not> sp_isVia origin \<and> \<not> sp_isVia destination \<and> sp_arrivalType origin = Some PRECISE_TIME \<and>
              sp_arrivalType destination = Some PRECISE_TIME then [BOTH_POINT_SCHEDULED] else [])
      | _ \<Rightarrow> [])"

definition via_errors :: "stdcm_step \<Rightarrow> config_error_type list" where
  "via_errors step =
     (if \<not> sp_isVia step then []
      else
        (if (sp_stopType step = Some DRIVER_SWITCH \<or> sp_stopType step = Some SERVICE_STOP) \<and> sp_stopFor step = None
         then [VIA_STOP_DURATION_MISSING] else []) @
        (case sp_stopFor step of
           None \<Rightarrow> []
         | Some stopFor \<Rightarrow>
             (if sp_stopType step = Some DRIVER_SWITCH \<and> duration_total stopFor Minute < 3 then [VIA_STOP_DURATION_TOO_SHORT] else []) @
             (if sp_stopType step = Some SERVICE_STOP \<and> duration_total stopFor Minute = 0 then [VIA_STOP_DURATION_MISSING] else [])))"

definition non_empty :: "'a list \<Rightarrow> 'a list option" where
  "non_empty xs = (if xs = [] then None else Some xs)"

definition error_type_of ::
  "missing_field list option \<Rightarrow> consist_field list option \<Rightarrow> config_error_type list option \<Rightarrow> config_error_type list \<Rightarrow>
   config_error_type" where
  "error_type_of finalMissing finalInvalid finalRoute routeErrors =
     (let active = (if finalMissing \<noteq> None then 1 else 0) + (if finalInvalid \<noteq> None then 1 else 0) +
                   (if finalRoute \<noteq> None then 1 else (0::nat)) in
      if active > 1 then MULTIPLE_ERRORS
      else if finalMissing \<noteq> None then MISSING_INFORMATIONS
      else if finalInvalid \<noteq> None then INVALID_FIELDS
      else hd routeErrors)"

text \<open>\<open>leaveAt\<close> and \<open>arriveAt\<close> are the translated texts for a time, or for a time that is not known.\<close>

definition checkStdcmConfigErrors ::
  "(date option \<Rightarrow> string) \<Rightarrow> (date option \<Rightarrow> string) \<Rightarrow> bool option \<Rightarrow> stdcm_conf \<Rightarrow> config_errors option \<Rightarrow>
   consist_errors list option \<Rightarrow> bool \<Rightarrow> config_errors option result" where
  "checkStdcmConfigErrors leaveAt arriveAt pathfindingSuccess conf prevFormErrors consistErrors shouldCheckMandatoryFields =
     (let steps = stdcmPathSteps conf; vias = js_slice steps 1 (-1);
          prevDetails = Option.bind prevFormErrors ce_errorDetails;
          missingFields = filterMissingFields (Option.bind prevDetails ed_missingFields) conf (js_at steps 0) vias (js_at steps (-1))
                            shouldCheckMandatoryFields;
          allInvalid = getInvalidFields consistErrors;
          prevInvalid = (case Option.bind prevDetails ed_invalidFields of None \<Rightarrow> [] | Some fs \<Rightarrow> fs);
          invalidFields = (if shouldCheckMandatoryFields then allInvalid else filter (\<lambda>f. f \<in> set prevInvalid) allInvalid)
      in case (js_at steps 0, js_at steps (-1)) of
        (Some origin, Some destination) \<Rightarrow>
          (let ends = ends_errors origin destination in
           if pathfindingSuccess = Some False
           then Inr (Some \<lparr>ce_errorType = PATHFINDING_FAILED, ce_errorDetails = None\<rparr>)
           else if sp_isVia origin then Inl (JSError ''First step can not be a via'')
           else if sp_isVia destination then Inl (JSError ''Last step can not be a via'')
           else
             let allRoute = ends @ concat (map via_errors steps);
                 prevRoute = (case Option.bind prevDetails ed_routeErrors of None \<Rightarrow> [] | Some es \<Rightarrow> es);
                 routeErrors = (if shouldCheckMandatoryFields then allRoute else filter (\<lambda>e. e \<in> set prevRoute) allRoute);
                 finalMissing = non_empty missingFields;
                 finalInvalid = non_empty invalidFields;
                 finalRoute = non_empty routeErrors;
                 both = finalRoute \<noteq> None \<and> BOTH_POINT_SCHEDULED \<in> set ends
             in if finalMissing = None \<and> finalInvalid = None \<and> finalRoute = None then Inr None
                else Inr (Some
                  \<lparr>ce_errorType = error_type_of finalMissing finalInvalid finalRoute routeErrors,
                   ce_errorDetails = Some
                     \<lparr>ed_routeErrors = finalRoute,
                      ed_originTime = (if both then Some (leaveAt (sp_arrival origin)) else None),
                      ed_destinationTime = (if both then Some (arriveAt (sp_arrival destination)) else None),
                      ed_missingFields = finalMissing, ed_invalidFields = finalInvalid\<rparr>\<rparr>))
      | _ \<Rightarrow> Inl TypeError)"

section \<open>Payload\<close>

record timing_data =
  td_arrival_time :: string
  td_tolerance_before :: int
  td_tolerance_after :: int

record request_step =
  rs_duration :: "int option"
  rs_location :: location
  rs_timing_data :: "timing_data option"

record valid_config =
  vc_rollingStockId :: rowid
  vc_towedRollingStockID :: "rowid option"
  vc_timetableId :: rowid
  vc_infraId :: rowid
  vc_path :: "request_step list"
  vc_speedLimitByTag :: "string option"
  vc_totalMass :: "num option"
  vc_totalLength :: "num option"
  vc_maxSpeed :: "num option"
  vc_loadingGauge :: "loading_gauge option"
  vc_margin :: "(margin_type \<times> num option) option"
  vc_gridMarginBefore :: "duration option"
  vc_gridMarginAfter :: "duration option"
  vc_workScheduleGroupId :: "rowid option"
  vc_temporarySpeedLimitGroupId :: "rowid option"
  vc_electricalProfileSetId :: "rowid option"
  vc_allowedTrackSections :: "string list option"

fun gauge_name :: "loading_gauge \<Rightarrow> string" where
  "gauge_name G1 = ''G1''"
| "gauge_name G2 = ''G2''"
| "gauge_name GA = ''GA''"
| "gauge_name GB = ''GB''"
| "gauge_name GB1 = ''GB1''"
| "gauge_name GC = ''GC''"
| "gauge_name FR3_3 = ''FR3.3''"
| "gauge_name FR3_3_GB_G2 = ''FR3.3/GB/G2''"
| "gauge_name GLOTT = ''GLOTT''"

definition stdcmPathStepToPathItemLocation :: "stdcm_op option \<Rightarrow> location result" where
  "stdcmPathStepToPathItemLocation operationalPoint =
     (case operationalPoint of
        None \<Rightarrow> Inl (JSError ''Step has no operational point'')
      | Some op1 \<Rightarrow> Inr (OpPart (OpUic (int (sop_uic op1)) (Some (sop_secondaryCode op1))) None))"

definition timing_of :: "(date \<Rightarrow> string) \<Rightarrow> stdcm_step \<Rightarrow> timing_data option result" where
  "timing_of toISOString step =
     (case (sp_arrivalType step, sp_arrival step) of
        (Some PRECISE_TIME, Some arrival) \<Rightarrow>
          (case sp_tolerances step of
             None \<Rightarrow> Inl TypeError
           | Some (bef, aft) \<Rightarrow>
               Inr (Some \<lparr>td_arrival_time = toISOString arrival, td_tolerance_before = dur_ms bef, td_tolerance_after = dur_ms aft\<rparr>))
      | _ \<Rightarrow> Inr None)"

definition request_step_of :: "(date \<Rightarrow> string) \<Rightarrow> stdcm_step \<Rightarrow> request_step result" where
  "request_step_of toISOString step =
     bind_result (stdcmPathStepToPathItemLocation (sp_operationalPoint step)) (\<lambda>location.
       if sp_isVia step
       then Inr \<lparr>rs_duration = (if sp_stopType step \<noteq> Some PASSAGE_TIME then map_option dur_ms (sp_stopFor step) else None),
                 rs_location = location, rs_timing_data = None\<rparr>
       else bind_result (timing_of toISOString step) (\<lambda>timingData.
              Inr \<lparr>rs_duration = Some 0, rs_location = location, rs_timing_data = timingData\<rparr>))"

definition allowed_track_sections :: "stdcm_conf \<Rightarrow> string list option" where
  "allowed_track_sections conf =
     (case (trackSectionIdsByLoadingGauge conf, loadingGauge conf) of
        (Some tracks, Some gauge) \<Rightarrow> obj_get tracks (gauge_name gauge)
      | _ \<Rightarrow> None)"

definition start_date_time :: "stdcm_step \<Rightarrow> stdcm_step \<Rightarrow> date option" where
  "start_date_time origin destination =
     (if sp_arrivalType origin = Some PRECISE_TIME then sp_arrival origin else sp_arrival destination)"

text \<open>The keys of the notifications, in order. A comparison with an invalid date is false.\<close>

definition conf_failures :: "stdcm_conf \<Rightarrow> stdcm_step \<Rightarrow> stdcm_step \<Rightarrow> string list" where
  "conf_failures conf origin destination =
     (if sp_operationalPoint origin = None then [''noOrigin''] else []) @
     (if sp_operationalPoint destination = None then [''noDestination''] else []) @
     (if \<not> truthy_id (rollingStockID conf) then [''noRollingStock''] else []) @
     (if \<not> truthy_id (infraID conf) then [''noName''] else []) @
     (if \<not> truthy_id (timetableID conf) then [''noTimetable''] else []) @
     (case (searchDatetimeWindow conf, start_date_time origin destination) of
        (Some (b, e), Some start) \<Rightarrow> if start < b \<or> e < start then [''originTimeOutsideWindow''] else []
      | _ \<Rightarrow> []) @
     (if list_ex (\<lambda>step. sp_operationalPoint step = None) (stdcmPathSteps conf) then [''viaNotDefined''] else [])"

definition checkStdcmConf :: "(date \<Rightarrow> string) \<Rightarrow> stdcm_conf \<Rightarrow> (string list \<times> valid_config option) result" where
  "checkStdcmConf toISOString conf =
     (case (js_at (stdcmPathSteps conf) 0, js_at (stdcmPathSteps conf) (-1)) of
        (Some origin, Some destination) \<Rightarrow>
          if sp_isVia origin \<or> sp_isVia destination then Inl (JSError ''First step should not be a via'')
          else
            let failures = conf_failures conf origin destination in
            if failures \<noteq> [] then Inr (failures, None)
            else bind_result (map_result (request_step_of toISOString) (stdcmPathSteps conf)) (\<lambda>path.
              Inr ([], Some
                \<lparr>vc_rollingStockId = the (rollingStockID conf), vc_towedRollingStockID = towedRollingStockID conf,
                 vc_timetableId = the (timetableID conf), vc_infraId = the (infraID conf), vc_path = path,
                 vc_speedLimitByTag = speedLimitByTag conf, vc_totalMass = totalMass conf, vc_totalLength = totalLength conf,
                 vc_maxSpeed = maxSpeed conf, vc_loadingGauge = loadingGauge conf,
                 vc_margin = standardAllowance (stdcmMargins conf),
                 vc_gridMarginBefore = gridMarginBefore (stdcmMargins conf), vc_gridMarginAfter = gridMarginAfter (stdcmMargins conf),
                 vc_workScheduleGroupId = workScheduleGroupId conf, vc_temporarySpeedLimitGroupId = temporarySpeedLimitGroupId conf,
                 vc_electricalProfileSetId = electricalProfileSetId conf, vc_allowedTrackSections = allowed_track_sections conf\<rparr>))
      | _ \<Rightarrow> Inl TypeError)"

fun createMargin :: "(margin_type \<times> num option) option \<Rightarrow> string" where
  "createMargin (Some (TIME_PER_DISTANCE, Some v)) = (if v = 0 then ''0%'' else js_num_string v @ ''min/100km'')"
| "createMargin (Some (PERCENTAGE, Some v)) = (if v = 0 then ''0%'' else js_num_string v @ ''%'')"
| "createMargin _ = ''0%''"

record stdcm_payload =
  py_infra :: rowid
  py_id :: rowid
  py_returnDebugPayloads :: bool
  py_comfort :: string
  py_margin :: string
  py_rolling_stock_id :: rowid
  py_towed_rolling_stock_id :: "rowid option"
  py_speed_limit_tags :: "string option"
  py_total_mass :: "num option"
  py_max_speed :: "num option"
  py_total_length :: "num option"
  py_steps :: "request_step list"
  py_time_gap_after :: "int option"
  py_time_gap_before :: "int option"
  py_work_schedule_group_id :: "rowid option"
  py_temporary_speed_limit_group_id :: "rowid option"
  py_electrical_profile_set_id :: "rowid option"
  py_loading_gauge_type :: "loading_gauge option"
  py_allowed_track_sections :: "string list option"

definition formatStdcmPayload :: "valid_config \<Rightarrow> stdcm_payload" where
  "formatStdcmPayload c =
     \<lparr>py_infra = vc_infraId c, py_id = vc_timetableId c, py_returnDebugPayloads = False, py_comfort = ''STANDARD'',
      py_margin = createMargin (vc_margin c), py_rolling_stock_id = vc_rollingStockId c,
      py_towed_rolling_stock_id = vc_towedRollingStockID c, py_speed_limit_tags = vc_speedLimitByTag c,
      py_total_mass = (if truthy_num (vc_totalMass c) then Some (tToKg (the (vc_totalMass c))) else None),
      py_max_speed = (if truthy_num (vc_maxSpeed c) then Some (kmhToMs (the (vc_maxSpeed c))) else None),
      py_total_length = vc_totalLength c, py_steps = vc_path c,
      py_time_gap_after = map_option dur_ms (vc_gridMarginBefore c), py_time_gap_before = map_option dur_ms (vc_gridMarginAfter c),
      py_work_schedule_group_id = vc_workScheduleGroupId c, py_temporary_speed_limit_group_id = vc_temporarySpeedLimitGroupId c,
      py_electrical_profile_set_id = vc_electricalProfileSetId c, py_loading_gauge_type = vc_loadingGauge c,
      py_allowed_track_sections = vc_allowedTrackSections c\<rparr>"

section \<open>Alternative requests\<close>

definition adjust_timing :: "(string \<Rightarrow> date) \<Rightarrow> (date \<Rightarrow> string) \<Rightarrow> alternative_path \<Rightarrow> timing_data \<Rightarrow> timing_data" where
  "adjust_timing parse toISOString direction td =
     (let arrivalTime = parse (td_arrival_time td);
          toleranceBefore = new_duration 0 0 0 (td_tolerance_before td);
          toleranceAfter = new_duration 0 0 0 (td_tolerance_after td)
      in case direction of
           Upstream \<Rightarrow> \<lparr>td_arrival_time = toISOString (addDurationToDate arrivalTime toleranceAfter), td_tolerance_before = 0,
                        td_tolerance_after = dur_ms toleranceAfter\<rparr>
         | Downstream \<Rightarrow> \<lparr>td_arrival_time = toISOString (subtractDurationFromDate arrivalTime toleranceBefore),
                          td_tolerance_before = dur_ms toleranceBefore, td_tolerance_after = 0\<rparr>)"

definition adjust_request_step ::
  "(string \<Rightarrow> date) \<Rightarrow> (date \<Rightarrow> string) \<Rightarrow> alternative_path \<Rightarrow> nat \<Rightarrow> nat \<times> request_step \<Rightarrow> request_step" where
  "adjust_request_step parse toISOString direction n entry =
     (if fst entry \<noteq> 0 \<and> fst entry \<noteq> n - 1 then snd entry
      else (snd entry)\<lparr>rs_timing_data := map_option (adjust_timing parse toISOString direction) (rs_timing_data (snd entry))\<rparr>)"

definition adjustPayloadByDirection ::
  "(string \<Rightarrow> date) \<Rightarrow> (date \<Rightarrow> string) \<Rightarrow> stdcm_payload \<Rightarrow> alternative_path \<Rightarrow> stdcm_payload" where
  "adjustPayloadByDirection parse toISOString payload direction =
     payload\<lparr>py_steps := map (adjust_request_step parse toISOString direction (length (py_steps payload)))
                           (zip [0..<length (py_steps payload)] (py_steps payload))\<rparr>"

definition adjust_step :: "alternative_path \<Rightarrow> stdcm_step \<Rightarrow> stdcm_step" where
  "adjust_step direction step =
     (case (sp_isVia step, sp_arrival step, sp_tolerances step) of
        (False, Some arrival, Some (bef, aft)) \<Rightarrow>
          (case direction of
             Upstream \<Rightarrow> step\<lparr>sp_arrival := Some (addDurationToDate arrival aft), sp_tolerances := Some (new_duration 0 0 0 0, aft)\<rparr>
           | Downstream \<Rightarrow> step\<lparr>sp_arrival := Some (subtractDurationFromDate arrival bef),
                               sp_tolerances := Some (bef, new_duration 0 0 0 0)\<rparr>)
      | _ \<Rightarrow> step)"

definition adjustInputByDirection :: "simulation_inputs \<Rightarrow> alternative_path \<Rightarrow> simulation_inputs" where
  "adjustInputByDirection simulationInputs direction =
     simulationInputs\<lparr>in_pathSteps := map (adjust_step direction) (in_pathSteps simulationInputs)\<rparr>"

section \<open>Consist\<close>

text \<open>The members of a rolling stock, towed or not, that the consist reads; lengths in m, masses in kg, speeds in m/s.\<close>

record rolling_stock_data =
  rk_id :: rowid
  rk_mass :: num
  rk_length :: num
  rk_max_speed :: num

definition CONSIST_TOTAL_MASS_MAX :: num where "CONSIST_TOTAL_MASS_MAX = 10000"
definition CONSIST_TOTAL_LENGTH_MAX :: num where "CONSIST_TOTAL_LENGTH_MAX = 750"
definition CONSIST_MAX_SPEED_MIN :: num where "CONSIST_MAX_SPEED_MIN = 30"

definition or_zero :: "num option \<Rightarrow> num" where
  "or_zero x = (case x of None \<Rightarrow> 0 | Some v \<Rightarrow> v)"

definition validateTotalMass :: "num option \<Rightarrow> num option \<Rightarrow> num option \<Rightarrow> string option" where
  "validateTotalMass tractionEngineMass towedMass mass =
     (if \<not> truthy_num mass then None
      else if the mass \<le> 0 then Some ''consist.errors.totalMass.negative''
      else
        let engine = or_zero tractionEngineMass; towed = or_zero towedMass;
            massLimit = (if towed \<noteq> 0 then of_int \<lceil>kgToT (engine + towed)\<rceil> else kgToT engine)
        in if the mass < massLimit \<or> the mass > CONSIST_TOTAL_MASS_MAX then Some ''consist.errors.totalMass.range'' else None)"

definition validateTotalLength :: "num option \<Rightarrow> num option \<Rightarrow> num option \<Rightarrow> string option" where
  "validateTotalLength tractionEngineLength towedLength len =
     (if \<not> truthy_num len then None
      else if the len \<le> 0 then Some ''consist.errors.totalLength.negative''
      else
        let consistLength = of_int \<lceil>or_zero tractionEngineLength + or_zero towedLength\<rceil>
        in if the len < consistLength \<or> the len > CONSIST_TOTAL_LENGTH_MAX then Some ''consist.errors.totalLength.range'' else None)"

definition validateMaxSpeed :: "num option \<Rightarrow> num option \<Rightarrow> string option" where
  "validateMaxSpeed speed tractionEngineMaxSpeed =
     (if \<not> truthy_num speed then None
      else if the speed \<le> 0 then Some ''consist.errors.maxSpeed.negative''
      else if the speed < CONSIST_MAX_SPEED_MIN \<or>
              truthy_num tractionEngineMaxSpeed \<and> the speed > of_int \<lfloor>msToKmh (the tractionEngineMaxSpeed)\<rfloor>
           then Some ''consist.errors.maxSpeed.range'' else None)"

text \<open>The least of the numbers that are defined.\<close>

fun lodash_min :: "num option list \<Rightarrow> num option" where
  "lodash_min [] = None"
| "lodash_min (None # xs) = lodash_min xs"
| "lodash_min (Some x # xs) = (case lodash_min xs of None \<Rightarrow> Some x | Some y \<Rightarrow> Some (min x y))"

definition calculateConsistMaxSpeed ::
  "rolling_stock_data option \<Rightarrow> rolling_stock_data option \<Rightarrow> num option \<Rightarrow> num option" where
  "calculateConsistMaxSpeed rollingStock towed speedLimit =
     (let consistMaxSpeed = lodash_min [map_option rk_max_speed rollingStock, map_option rk_max_speed towed,
                              if truthy_num speedLimit then Some (kmhToMs (the speedLimit)) else None]
      in if truthy_num consistMaxSpeed then Some (of_int \<lfloor>msToKmh (the consistMaxSpeed)\<rfloor>) else None)"

text \<open>The state of the hook of the consist card: which fields were edited, the messages beside the fields and their errors.
  The translated text for a missing value is a parameter.\<close>

record consist_form =
  cf_totalMassChanged :: bool
  cf_totalLengthChanged :: bool
  cf_maxSpeedChanged :: bool
  cf_massInfo :: bool
  cf_lengthInfo :: bool
  cf_speedInfo :: bool
  cf_errors :: consist_errors

definition getMissingFieldMessage :: "string \<Rightarrow> num option \<Rightarrow> string option" where
  "getMissingFieldMessage missingValueMessage value1 = (if truthy_num value1 then None else Some missingValueMessage)"

definition new_field_error :: "string \<Rightarrow> string option \<Rightarrow> field_error" where
  "new_field_error missingValueMessage error =
     \<lparr>fe_message = error, fe_display = truthy error, fe_invalid = (error \<noteq> Some missingValueMessage)\<rparr>"

fun set_error :: "consist_field \<Rightarrow> field_error \<Rightarrow> consist_errors \<Rightarrow> consist_errors" where
  "set_error TotalMass e es = es\<lparr>er_totalMass := e\<rparr>"
| "set_error TotalLength e es = es\<lparr>er_totalLength := e\<rparr>"
| "set_error MaxSpeed e es = es\<lparr>er_maxSpeed := e\<rparr>"

definition updateConsistErrors :: "string \<Rightarrow> (consist_field \<times> string option) list \<Rightarrow> consist_form \<Rightarrow> consist_form" where
  "updateConsistErrors missingValueMessage errors form =
     form\<lparr>cf_errors := foldl (\<lambda>acc (field, error). set_error field (new_field_error missingValueMessage error) acc)
                         (cf_errors form) errors\<rparr>"

definition field_value :: "num \<Rightarrow> num option" where
  "field_value v = (if v = 0 then None else Some v)"

definition totalMassError ::
  "string \<Rightarrow> rolling_stock_data option \<Rightarrow> rolling_stock_data option \<Rightarrow> num option \<Rightarrow> string option" where
  "totalMassError missing rollingStock towed mass =
     (case getMissingFieldMessage missing mass of
        Some m \<Rightarrow> Some m
      | None \<Rightarrow> validateTotalMass (map_option rk_mass rollingStock) (map_option rk_mass towed) mass)"

definition totalLengthError ::
  "string \<Rightarrow> rolling_stock_data option \<Rightarrow> rolling_stock_data option \<Rightarrow> num option \<Rightarrow> string option" where
  "totalLengthError missing rollingStock towed len =
     (case getMissingFieldMessage missing len of
        Some m \<Rightarrow> Some m
      | None \<Rightarrow> validateTotalLength (map_option rk_length rollingStock) (map_option rk_length towed) len)"

definition maxSpeedError :: "string \<Rightarrow> rolling_stock_data option \<Rightarrow> num option \<Rightarrow> string option" where
  "maxSpeedError missing rollingStock speed =
     (case getMissingFieldMessage missing speed of
        Some m \<Rightarrow> Some m
      | None \<Rightarrow> validateMaxSpeed speed (map_option rk_max_speed rollingStock))"

definition onTotalMassChange ::
  "string \<Rightarrow> rolling_stock_data option \<Rightarrow> rolling_stock_data option \<Rightarrow> num \<Rightarrow> consist_form \<times> consist_data \<Rightarrow> consist_form \<times> consist_data" where
  "onTotalMassChange missing rollingStock towed totalMassValue st =
     (let newMass = field_value totalMassValue;
          form = (fst st)\<lparr>cf_totalMassChanged := True\<rparr>;
          newError = totalMassError missing rollingStock towed newMass
      in (if fe_display (er_totalMass (cf_errors form)) then updateConsistErrors missing [(TotalMass, newError)] form else form,
          (snd st)\<lparr>cd_totalMass := newMass\<rparr>))"

definition onTotalLengthChange ::
  "string \<Rightarrow> rolling_stock_data option \<Rightarrow> rolling_stock_data option \<Rightarrow> num \<Rightarrow> consist_form \<times> consist_data \<Rightarrow> consist_form \<times> consist_data" where
  "onTotalLengthChange missing rollingStock towed totalLengthValue st =
     (let newLength = field_value totalLengthValue;
          form = (fst st)\<lparr>cf_totalLengthChanged := True\<rparr>;
          newError = totalLengthError missing rollingStock towed newLength
      in (if fe_display (er_totalLength (cf_errors form)) then updateConsistErrors missing [(TotalLength, newError)] form else form,
          (snd st)\<lparr>cd_totalLength := newLength\<rparr>))"

definition onMaxSpeedChange ::
  "string \<Rightarrow> rolling_stock_data option \<Rightarrow> num \<Rightarrow> consist_form \<times> consist_data \<Rightarrow> consist_form \<times> consist_data" where
  "onMaxSpeedChange missing rollingStock totalMaxSpeed st =
     (let newSpeed = field_value totalMaxSpeed;
          form = (fst st)\<lparr>cf_maxSpeedChanged := True\<rparr>;
          newError = maxSpeedError missing rollingStock newSpeed
      in (if fe_display (er_maxSpeed (cf_errors form)) then updateConsistErrors missing [(MaxSpeed, newError)] form else form,
          (snd st)\<lparr>cd_maxSpeed := newSpeed\<rparr>))"

definition onLoadingGaugeChange :: "loading_gauge option \<Rightarrow> consist_form \<times> consist_data \<Rightarrow> consist_form \<times> consist_data" where
  "onLoadingGaugeChange option1 st = (fst st, (snd st)\<lparr>cd_loadingGauge := option1\<rparr>)"

text \<open>The members that the callers of \<open>prefillConsist\<close> give beside the computed ones.\<close>

datatype consist_extra = SetRollingStock "rowid option" | SetTowedRollingStock "rowid option"

fun apply_extra :: "consist_extra \<Rightarrow> consist_data \<Rightarrow> consist_data" where
  "apply_extra (SetRollingStock i) c = c\<lparr>cd_rollingStockID := i\<rparr>"
| "apply_extra (SetTowedRollingStock i) c = c\<lparr>cd_towedRollingStockID := i\<rparr>"

definition positive :: "int \<Rightarrow> num option" where
  "positive n = (if n > 0 then Some (of_int n) else None)"

definition prefillConsist ::
  "string \<Rightarrow> num obj \<Rightarrow> rolling_stock_data option \<Rightarrow> rolling_stock_data option \<Rightarrow> string option \<Rightarrow> consist_extra list \<Rightarrow>
   consist_form \<times> consist_data \<Rightarrow> consist_form \<times> consist_data" where
  "prefillConsist missing speedLimitTags rollingStock towed maxSpeedTag extraFields st =
     (let form = fst st; consist = snd st;
          newTotalMass = positive \<lceil>kgToT (or_zero (map_option rk_mass rollingStock) + or_zero (map_option rk_mass towed))\<rceil>;
          newTotalLength = positive \<lceil>or_zero (map_option rk_length rollingStock) + or_zero (map_option rk_length towed)\<rceil>;
          newMaxSpeed = calculateConsistMaxSpeed rollingStock towed
                          (if truthy maxSpeedTag then obj_get speedLimitTags (the maxSpeedTag) else None)
      in (updateConsistErrors missing [(TotalMass, None), (TotalLength, None), (MaxSpeed, None)]
            (form\<lparr>cf_massInfo := cf_totalMassChanged form \<and> cd_totalMass consist \<noteq> None,
                  cf_lengthInfo := cf_totalLengthChanged form \<and> cd_totalLength consist \<noteq> None,
                  cf_speedInfo := cf_maxSpeedChanged form \<and> cd_maxSpeed consist \<noteq> None,
                  cf_totalMassChanged := False, cf_totalLengthChanged := False, cf_maxSpeedChanged := False\<rparr>),
          fold apply_extra extraFields
            (consist\<lparr>cd_totalMass := newTotalMass, cd_totalLength := newTotalLength, cd_maxSpeed := newMaxSpeed\<rparr>)))"

section \<open>Similar trains\<close>

text \<open>A train is its name and its start time.\<close>

record similar_segment =
  sg_begin :: string
  sg_end :: string
  sg_train :: "(string \<times> string) option"

definition matching_train :: "similar_segment \<Rightarrow> similar_segment list option \<Rightarrow> (string \<times> string) option" where
  "matching_train base segments =
     Option.bind segments (\<lambda>ss.
       Option.bind (find (\<lambda>s. sg_begin s = sg_begin base \<and> sg_end s = sg_end base) ss) sg_train)"

definition fill_segment :: "similar_segment list option \<Rightarrow> similar_segment list option \<Rightarrow> similar_segment \<Rightarrow> similar_segment" where
  "fill_segment bySpeedLimit byRsName base =
     (if sg_train base \<noteq> None then base
      else case matching_train base bySpeedLimit of
             Some t \<Rightarrow> base\<lparr>sg_train := Some t\<rparr>
           | None \<Rightarrow> (case matching_train base byRsName of Some t \<Rightarrow> base\<lparr>sg_train := Some t\<rparr> | None \<Rightarrow> base))"

definition train_name_of :: "similar_segment \<Rightarrow> string option" where
  "train_name_of s = map_option fst (sg_train s)"

definition push_segment :: "similar_segment list \<Rightarrow> similar_segment \<Rightarrow> similar_segment list" where
  "push_segment result segment =
     (if result \<noteq> [] \<and> sg_end (last result) = sg_begin segment \<and> train_name_of (last result) = train_name_of segment
      then butlast result @ [(last result)\<lparr>sg_end := sg_end segment\<rparr>]
      else result @ [segment])"

definition mergeSimilarTrainSegments ::
  "similar_segment list \<Rightarrow> similar_segment list option \<Rightarrow> similar_segment list option \<Rightarrow> similar_segment list" where
  "mergeSimilarTrainSegments withAll bySpeedLimit byRsName =
     foldl push_segment [] (map (fill_segment bySpeedLimit byRsName) withAll)"

end
