(* ===== verification/StdcmSession.thy ===== *)
theory StdcmSession
  imports StdcmRequest StdcmProperties TrainId
begin

text \<open>
  \<open>front/src/applications/stdcm/hooks/useStdcm.ts\<close> and \<open>useStdcmForm.ts\<close>: the life of the requests of the last minute application.

  The asynchronous functions become tasks that wait for an answer: a launched request waits for its response, a found path for
  its properties, a path that was not found for two alternative requests and then for the properties of their paths. The events
  are the launch and the cancellation by the user, the answers, and the other actions on the configuration. Cancelling aborts the
  requests that the hook remembers (\<open>requestPromise\<close>), and an aborted request ends its task at once; the request for the
  properties of a path is not one of them. The result of \<open>fetchPathProperties\<close> and \<open>computeChartData\<close> on a response is the argument
  of the event that ends a creation.
\<close>

datatype request_status = Idle | Pending | Success | Rejected | Canceled | NoResults | PendingAdditional

datatype stdcm_response = PathFound js_val | PathNotFound js_val | PreprocessingError

datatype task =
    AwaitResponse simulation_inputs stdcm_payload
  | CreateSimulation simulation_inputs js_val
  | AwaitAlternatives simulation_inputs new_simulation
  | CreateAlternatives simulation_inputs new_simulation stdcm_response stdcm_response

record request_state =
  rq_status :: request_status
  rq_cancelled :: bool
  rq_tasks :: "(nat \<times> task) list"
  rq_current :: "nat option"
  rq_next :: nat
  rq_conf :: stdcm_conf
  rq_selectedTrain :: "string option"
  rq_failures :: "string list"
  rq_sent :: "stdcm_payload list"

datatype request_event =
    Launch
  | Respond nat "stdcm_response option" date
  | RespondAlternatives nat "(stdcm_response \<times> stdcm_response) option" date
  | Created nat "js_val \<Rightarrow> js_val result" date
  | Cancel date
  | ResetState
  | Reduce stdcm_action

text \<open>The functions of the environment: printing of dates for the server and for the user, parsing, the rolling stocks that
  are loaded, and the configuration that a reset restores.\<close>

record stdcm_host =
  sh_toISOString :: "date \<Rightarrow> string"
  sh_parse :: "string \<Rightarrow> date"
  sh_arrivalDate :: "date \<Rightarrow> string"
  sh_arrivalTime :: "date \<Rightarrow> string"
  sh_engine :: "stdcm_conf \<Rightarrow> rowid option"
  sh_towed :: "stdcm_conf \<Rightarrow> rowid option"
  sh_initial :: stdcm_conf
  sh_showFailure :: bool

definition useStdcmForm :: "stdcm_host \<Rightarrow> stdcm_conf \<Rightarrow> simulation_inputs" where
  "useStdcmForm h conf =
     (let originArrival = Option.bind (js_at (stdcmPathSteps conf) 0) sp_arrival in
      \<lparr>in_departureDate = map_option (sh_arrivalDate h) originArrival,
       in_departureTime = map_option (sh_arrivalTime h) originArrival,
       in_pathSteps = stdcmPathSteps conf,
       in_consist = Some \<lparr>sc_tractionEngine = sh_engine h conf, sc_towedRollingStock = sh_towed h conf, sc_totalMass = totalMass conf,
         sc_totalLength = totalLength conf, sc_maxSpeed = maxSpeed conf, sc_loadingGauge = loadingGauge conf,
         sc_speedLimitByTag = speedLimitByTag conf\<rparr>,
       in_linkedTrains = linkedTrains conf\<rparr>)"

definition STDCM_TRAIN_TIMETABLE_ID :: string where
  "STDCM_TRAIN_TIMETABLE_ID = formatEditoastIdToPacedTrainId (-10)"

definition createSimulation ::
  "(js_val \<Rightarrow> js_val result) \<Rightarrow> simulation_inputs \<Rightarrow> stdcm_response \<Rightarrow> alternative_path option \<Rightarrow> new_simulation result" where
  "createSimulation outputsOf inputs response alternativePath =
     bind_result
       (case response of
          PathFound r \<Rightarrow> outputsOf r
        | PathNotFound r \<Rightarrow> Inr r
        | PreprocessingError \<Rightarrow> Inl OutOfModel)
       (\<lambda>outputs. Inr \<lparr>sim_inputs = inputs, sim_outputs = outputs, sim_alternativePath = alternativePath\<rparr>)"

definition handleRejection :: "stdcm_host \<Rightarrow> request_state \<Rightarrow> request_state" where
  "handleRejection h st =
     st\<lparr>rq_status := Rejected, rq_failures := rq_failures st @ (if sh_showFailure h then [''requestFailed''] else [])\<rparr>"

definition add_simulations :: "date \<Rightarrow> new_simulation list \<Rightarrow> request_state \<Rightarrow> request_state" where
  "add_simulations now sims st = st\<lparr>rq_conf := addStdcmSimulations (rq_conf st) now sims\<rparr>"

definition set_task :: "nat \<Rightarrow> task \<Rightarrow> request_state \<Rightarrow> request_state" where
  "set_task n t st = st\<lparr>rq_tasks := map (\<lambda>(k, u). (k, if k = n then t else u)) (rq_tasks st)\<rparr>"

definition end_task :: "nat \<Rightarrow> request_state \<Rightarrow> request_state" where
  "end_task n st = st\<lparr>rq_tasks := filter (\<lambda>(k, _). k \<noteq> n) (rq_tasks st)\<rparr>"

definition launchStdcmRequest :: "stdcm_host \<Rightarrow> request_state \<Rightarrow> request_state" where
  "launchStdcmRequest h st =
     (let st1 = st\<lparr>rq_status := Idle, rq_cancelled := False\<rparr> in
      case checkStdcmConf (sh_toISOString h) (rq_conf st) of
        Inl e \<Rightarrow> st1
      | Inr (failures, None) \<Rightarrow> st1\<lparr>rq_failures := rq_failures st1 @ failures\<rparr>
      | Inr (failures, Some validConfig) \<Rightarrow>
          let payload = formatStdcmPayload validConfig in
          st1\<lparr>rq_status := Pending, rq_failures := rq_failures st1 @ failures, rq_sent := rq_sent st1 @ [payload],
              rq_tasks := rq_tasks st1 @ [(rq_next st1, AwaitResponse (useStdcmForm h (rq_conf st)) payload)],
              rq_current := Some (rq_next st1), rq_next := Suc (rq_next st1)\<rparr>)"

definition handleSuccess :: "nat \<Rightarrow> simulation_inputs \<Rightarrow> js_val \<Rightarrow> request_state \<Rightarrow> request_state" where
  "handleSuccess n inputs response st =
     set_task n (CreateSimulation inputs response) (st\<lparr>rq_status := Success, rq_selectedTrain := Some STDCM_TRAIN_TIMETABLE_ID\<rparr>)"

definition handlePathNotFound ::
  "stdcm_host \<Rightarrow> nat \<Rightarrow> simulation_inputs \<Rightarrow> stdcm_payload \<Rightarrow> js_val \<Rightarrow> request_state \<Rightarrow> request_state" where
  "handlePathNotFound h n inputs payload response st =
     set_task n (AwaitAlternatives inputs \<lparr>sim_inputs = inputs, sim_outputs = response, sim_alternativePath = None\<rparr>)
       (st\<lparr>rq_status := PendingAdditional, rq_current := Some n,
           rq_sent := rq_sent st @ [adjustPayloadByDirection (sh_parse h) (sh_toISOString h) payload Upstream,
                                    adjustPayloadByDirection (sh_parse h) (sh_toISOString h) payload Downstream]\<rparr>)"

definition handle_response :: "stdcm_host \<Rightarrow> nat \<Rightarrow> stdcm_response option \<Rightarrow> request_state \<Rightarrow> request_state" where
  "handle_response h n answer st =
     (case map_of (rq_tasks st) n of
        Some (AwaitResponse inputs payload) \<Rightarrow>
          (case answer of
             Some (PathFound r) \<Rightarrow> handleSuccess n inputs r st
           | Some (PathNotFound r) \<Rightarrow> handlePathNotFound h n inputs payload r st
           | _ \<Rightarrow> end_task n (handleRejection h st))
      | _ \<Rightarrow> st)"

definition create_alternatives ::
  "(js_val \<Rightarrow> js_val result) \<Rightarrow> simulation_inputs \<Rightarrow> stdcm_response \<Rightarrow> stdcm_response \<Rightarrow> new_simulation list result" where
  "create_alternatives outputsOf inputs resUp resDown =
     bind_result (createSimulation outputsOf (adjustInputByDirection inputs Downstream) resDown (Some Downstream)) (\<lambda>down.
     bind_result (createSimulation outputsOf (adjustInputByDirection inputs Upstream) resUp (Some Upstream)) (\<lambda>up.
       Inr [down, up]))"

text \<open>The end of \<open>handlePathNotFound\<close>: the simulations that could be created are added in any case.\<close>

definition finish_alternatives ::
  "stdcm_host \<Rightarrow> nat \<Rightarrow> new_simulation \<Rightarrow> date \<Rightarrow> new_simulation list result \<Rightarrow> request_state \<Rightarrow> request_state" where
  "finish_alternatives h n currentSimulation now created st =
     end_task n
       (case created of
          Inl e \<Rightarrow> add_simulations now [currentSimulation] (handleRejection h st)
        | Inr sims \<Rightarrow> add_simulations now (currentSimulation # sims) (st\<lparr>rq_status := Success\<rparr>))"

definition handle_alternatives ::
  "stdcm_host \<Rightarrow> nat \<Rightarrow> (stdcm_response \<times> stdcm_response) option \<Rightarrow> date \<Rightarrow> request_state \<Rightarrow> request_state" where
  "handle_alternatives h n answers now st =
     (case map_of (rq_tasks st) n of
        Some (AwaitAlternatives inputs currentSimulation) \<Rightarrow>
          (case answers of
             None \<Rightarrow> finish_alternatives h n currentSimulation now (Inl OutOfModel) st
           | Some (resUp, resDown) \<Rightarrow>
               if resUp = PreprocessingError \<or> resDown = PreprocessingError
               then finish_alternatives h n currentSimulation now (Inl (JSError ''Error in response'')) st
               else
                 let st1 = st\<lparr>rq_selectedTrain := Some STDCM_TRAIN_TIMETABLE_ID\<rparr> in
                 if rq_cancelled st then end_task n (add_simulations now [currentSimulation] st1)
                 else (case (resUp, resDown) of
                         (PathNotFound _, PathNotFound _) \<Rightarrow>
                           finish_alternatives h n currentSimulation now (create_alternatives Inr inputs resUp resDown) st1
                       | _ \<Rightarrow> set_task n (CreateAlternatives inputs currentSimulation resUp resDown) st1))
      | _ \<Rightarrow> st)"

definition handle_created ::
  "stdcm_host \<Rightarrow> nat \<Rightarrow> (js_val \<Rightarrow> js_val result) \<Rightarrow> date \<Rightarrow> request_state \<Rightarrow> request_state" where
  "handle_created h n outputsOf now st =
     (case map_of (rq_tasks st) n of
        Some (CreateSimulation inputs response) \<Rightarrow>
          (case createSimulation outputsOf inputs (PathFound response) None of
             Inl e \<Rightarrow> end_task n (handleRejection h st)
           | Inr simulation \<Rightarrow> end_task n (if rq_cancelled st then st else add_simulations now [simulation] st))
      | Some (CreateAlternatives inputs currentSimulation resUp resDown) \<Rightarrow>
          finish_alternatives h n currentSimulation now (create_alternatives outputsOf inputs resUp resDown) st
      | _ \<Rightarrow> st)"

text \<open>What happens to the task whose requests are aborted.\<close>

definition abort_task :: "nat \<Rightarrow> date \<Rightarrow> request_state \<Rightarrow> request_state" where
  "abort_task n now st =
     (case map_of (rq_tasks st) n of
        Some (AwaitResponse inputs payload) \<Rightarrow> end_task n st
      | Some (AwaitAlternatives inputs currentSimulation) \<Rightarrow> end_task n (add_simulations now [currentSimulation] st)
      | _ \<Rightarrow> st)"

definition cancelStdcmRequest :: "date \<Rightarrow> request_state \<Rightarrow> request_state" where
  "cancelStdcmRequest now st =
     (case rq_current st of None \<Rightarrow> st | Some n \<Rightarrow> abort_task n now st)
       \<lparr>rq_cancelled := True, rq_current := None, rq_status := Canceled\<rparr>"

definition resetStdcmState :: "request_state \<Rightarrow> request_state" where
  "resetStdcmState st = st\<lparr>rq_status := Idle\<rparr>"

fun request_transition :: "stdcm_host \<Rightarrow> request_state \<Rightarrow> request_event \<Rightarrow> request_state" where
  "request_transition h st Launch = launchStdcmRequest h st"
| "request_transition h st (Respond n answer now) = handle_response h n answer st"
| "request_transition h st (RespondAlternatives n answers now) = handle_alternatives h n answers now st"
| "request_transition h st (Created n outputsOf now) = handle_created h n outputsOf now st"
| "request_transition h st (Cancel now) = cancelStdcmRequest now st"
| "request_transition h st ResetState = resetStdcmState st"
| "request_transition h st (Reduce a) = st\<lparr>rq_conf := dispatch (stdcmConfSlice (sh_initial h)) (rq_conf st) a\<rparr>"

definition initial_requests :: "stdcm_conf \<Rightarrow> request_state" where
  "initial_requests conf =
     \<lparr>rq_status = Idle, rq_cancelled = False, rq_tasks = [], rq_current = None, rq_next = 0, rq_conf = conf,
      rq_selectedTrain = None, rq_failures = [], rq_sent = []\<rparr>"

end
