(* ===== verification/StdcmRequestProperties.thy ===== *)
theory StdcmRequestProperties
  imports StdcmSession
begin

text \<open>
  Properties of the requests of the last minute application: a form without errors gives a complete request, the inputs kept with
  an alternative simulation describe the request that was sent, a consist that was filled in from its rolling stocks passes
  the validation, merged segments of similar trains tell the same as the answers, and the state of the requests never waits for nothing.
\<close>

section \<open>From the form to the request\<close>

lemma js_at_ends: "xs \<noteq> [] \<Longrightarrow> js_at xs 0 = Some (hd xs) \<and> js_at xs (-1) = Some (last xs)"
  by (cases xs) (auto simp: js_at_def Let_def last_conv_nth nat_diff_distrib')

lemma js_at_Nil [simp]: "js_at [] i = None"
  by (simp add: js_at_def Let_def)

lemma vias_ends: "2 \<le> length xs \<Longrightarrow> xs = hd xs # js_slice xs 1 (-1) @ [last xs]"
  by (cases xs rule: rev_cases; cases "butlast xs") (auto simp: js_slice_def rel_index_def Let_def hd_append nat_diff_distrib')

lemma concat_Nil: "concat (map f xs) = [] \<longleftrightarrow> (\<forall>x\<in>set xs. f x = [])"
  by (induction xs) auto

lemma non_empty_None [simp]: "non_empty xs = None \<longleftrightarrow> xs = []"
  by (simp add: non_empty_def)

text \<open>A step of the request that corresponds to a step of the form.\<close>

definition step_sent :: "(date \<Rightarrow> string) \<Rightarrow> stdcm_step \<Rightarrow> request_step \<Rightarrow> bool" where
  "step_sent toISOString step r \<longleftrightarrow>
     (\<exists>op1. sp_operationalPoint step = Some op1 \<and>
        rs_location r = OpPart (OpUic (int (sop_uic op1)) (Some (sop_secondaryCode op1))) None) \<and>
     (if sp_isVia step
      then rs_timing_data r = None \<and>
           rs_duration r = (if sp_stopType step = Some PASSAGE_TIME then None else map_option dur_ms (sp_stopFor step)) \<and>
           (sp_stopType step = Some DRIVER_SWITCH \<longrightarrow> (\<exists>d. rs_duration r = Some d \<and> d \<ge> 180000)) \<and>
           (sp_stopType step = Some SERVICE_STOP \<longrightarrow> (\<exists>d. rs_duration r = Some d \<and> d \<noteq> 0))
      else rs_duration r = Some 0 \<and>
           rs_timing_data r =
             (case (sp_arrivalType step, sp_arrival step, sp_tolerances step) of
                (Some PRECISE_TIME, Some a, Some (b, f)) \<Rightarrow>
                  Some \<lparr>td_arrival_time = toISOString a, td_tolerance_before = dur_ms b, td_tolerance_after = dur_ms f\<rparr>
              | _ \<Rightarrow> None))"

lemma minute_bounds:
  "duration_total d Minute < 3 \<longleftrightarrow> dur_ms d < 180000" "duration_total d Minute = 0 \<longleftrightarrow> dur_ms d = 0"
proof -
  have "(of_int (dur_ms d) / 60000 < (3::rat)) = (of_int (dur_ms d) < (of_int 180000 :: rat))" by (simp add: field_simps)
  also have "\<dots> = (dur_ms d < 180000)" by (simp only: of_int_less_iff)
  finally show "duration_total d Minute < 3 \<longleftrightarrow> dur_ms d < 180000"
    by (simp add: duration_total_def MINUTE_IN_MS_def SECOND_IN_MS_def)
qed (simp add: duration_total_def MINUTE_IN_MS_def SECOND_IN_MS_def)

lemma request_step_sent:
  assumes "via_errors step = []" "sp_operationalPoint step \<noteq> None" "\<not> sp_isVia step \<Longrightarrow> sp_tolerances step \<noteq> None"
  shows "\<exists>r. request_step_of toISOString step = Inr r \<and> step_sent toISOString step r"
proof (cases "sp_isVia step")
  case True
  with assms(1,2) show ?thesis
    by (auto simp: request_step_of_def stdcmPathStepToPathItemLocation_def step_sent_def via_errors_def minute_bounds
      split: option.splits if_splits)
next
  case False
  with assms obtain op1 b f where "sp_operationalPoint step = Some op1" "sp_tolerances step = Some (b, f)"
    by (cases "sp_tolerances step") auto
  with False show ?thesis
    by (auto simp: request_step_of_def stdcmPathStepToPathItemLocation_def step_sent_def timing_of_def
      split: option.splits arrival_time_type.splits)
qed

lemma map_result_all:
  "(\<And>x. x \<in> set xs \<Longrightarrow> \<exists>y. f x = Inr y \<and> P x y) \<Longrightarrow> \<exists>ys. map_result f xs = Inr ys \<and> list_all2 P xs ys"
proof (induction xs)
  case (Cons x xs)
  from Cons.prems [of x] obtain y where "f x = Inr y" "P x y" by auto
  moreover from Cons obtain ys where "map_result f xs = Inr ys" "list_all2 P xs ys" by fastforce
  ultimately show ?case by simp
qed simp

lemma form_accepted:
  assumes "checkStdcmConfigErrors leaveAt arriveAt pf conf prev consistErrors True = Inr None"
  shows "stdcmPathSteps conf \<noteq> []" "\<not> sp_isVia (hd (stdcmPathSteps conf))" "\<not> sp_isVia (last (stdcmPathSteps conf))"
    "filterMissingFields ms conf (Some (hd (stdcmPathSteps conf))) (js_slice (stdcmPathSteps conf) 1 (-1))
       (Some (last (stdcmPathSteps conf))) True = []"
    "ends_errors (hd (stdcmPathSteps conf)) (last (stdcmPathSteps conf)) = []"
    "\<forall>step \<in> set (stdcmPathSteps conf). via_errors step = []"
    "getInvalidFields consistErrors = []"
proof -
  let ?steps = "stdcmPathSteps conf"
  show ne: "?steps \<noteq> []" using assms by (auto simp: checkStdcmConfigErrors_def Let_def)
  note at = js_at_ends [OF ne]
  show a: "\<not> sp_isVia (hd ?steps)" and b: "\<not> sp_isVia (last ?steps)"
    using assms at by (auto simp: checkStdcmConfigErrors_def Let_def split: if_splits)
  have "pf \<noteq> Some False" using assms at by (auto simp: checkStdcmConfigErrors_def Let_def)
  with assms at a b have *: "filterMissingFields (Option.bind (Option.bind prev ce_errorDetails) ed_missingFields) conf
      (Some (hd ?steps)) (js_slice ?steps 1 (-1)) (Some (last ?steps)) True = [] \<and> getInvalidFields consistErrors = [] \<and>
      ends_errors (hd ?steps) (last ?steps) @ concat (map via_errors ?steps) = []"
    by (simp add: checkStdcmConfigErrors_def Let_def split: if_splits)
  then show "filterMissingFields ms conf (Some (hd ?steps)) (js_slice ?steps 1 (-1)) (Some (last ?steps)) True = []"
    "getInvalidFields consistErrors = []"
    by (simp_all add: filterMissingFields_def)
  from * show "ends_errors (hd ?steps) (last ?steps) = []" "\<forall>step \<in> set ?steps. via_errors step = []"
    by (simp_all add: concat_Nil)
qed

lemma nothing_missing:
  assumes "filterMissingFields ms conf (Some origin) vias (Some destination) True = []"
  shows "truthy_id (rollingStockID conf)" "totalMass conf \<noteq> None" "totalLength conf \<noteq> None" "maxSpeed conf \<noteq> None"
    "sp_operationalPoint origin \<noteq> None" "\<forall>via \<in> set vias. sp_operationalPoint via \<noteq> None" "sp_operationalPoint destination \<noteq> None"
  using assms by (simp_all add: filterMissingFields_def ALL_MISSING_FIELDS_def list_ex_iff split: if_splits)

lemma all_points_defined:
  assumes "checkStdcmConfigErrors leaveAt arriveAt pf conf prev consistErrors True = Inr None"
  shows "\<forall>step \<in> set (stdcmPathSteps conf). sp_operationalPoint step \<noteq> None"
proof -
  let ?steps = "stdcmPathSteps conf"
  note f = form_accepted [OF assms]
  note m = nothing_missing [OF f(4)]
  show ?thesis
  proof (cases "2 \<le> length ?steps")
    case True
    have "set ?steps = insert (hd ?steps) (insert (last ?steps) (set (js_slice ?steps 1 (-1))))"
      by (subst (1) vias_ends [OF True]) auto
    with m(5,6,7) show ?thesis by auto
  next
    case False
    with f(1) obtain s where "?steps = [s]" by (cases ?steps; cases "tl ?steps") auto
    with m(5) show ?thesis by simp
  qed
qed

definition in_window :: "stdcm_conf \<Rightarrow> bool" where
  "in_window conf =
     (case (searchDatetimeWindow conf, start_date_time (hd (stdcmPathSteps conf)) (last (stdcmPathSteps conf))) of
        (Some (b, e), Some start) \<Rightarrow> b \<le> start \<and> start \<le> e
      | _ \<Rightarrow> True)"

lemma valid_form_request:
  assumes ok: "checkStdcmConfigErrors leaveAt arriveAt pf conf prev consistErrors True = Inr None"
    and ids: "truthy_id (infraID conf)" "truthy_id (timetableID conf)"
    and tol: "\<forall>step \<in> set (stdcmPathSteps conf). \<not> sp_isVia step \<longrightarrow> sp_tolerances step \<noteq> None"
    and win: "in_window conf"
  shows "\<exists>c. checkStdcmConf toISOString conf = Inr ([], Some c) \<and>
    list_all2 (step_sent toISOString) (stdcmPathSteps conf) (py_steps (formatStdcmPayload c)) \<and>
    py_rolling_stock_id (formatStdcmPayload c) = the (rollingStockID conf) \<and> py_rolling_stock_id (formatStdcmPayload c) \<noteq> 0 \<and>
    Some (py_infra (formatStdcmPayload c)) = infraID conf \<and> Some (py_id (formatStdcmPayload c)) = timetableID conf"
proof -
  let ?steps = "stdcmPathSteps conf"
  note f = form_accepted [OF ok]
  note points = all_points_defined [OF ok]
  note at = js_at_ends [OF f(1)]
  have rs: "truthy_id (rollingStockID conf)" by (rule nothing_missing(1) [OF f(4)])
  have "\<exists>ys. map_result (request_step_of toISOString) ?steps = Inr ys \<and> list_all2 (step_sent toISOString) ?steps ys"
    using f(6) points tol by (intro map_result_all request_step_sent) auto
  then obtain path where path: "map_result (request_step_of toISOString) ?steps = Inr path"
    "list_all2 (step_sent toISOString) ?steps path" by blast
  have win': "(case (searchDatetimeWindow conf, start_date_time (hd ?steps) (last ?steps)) of
      (Some (b, e), Some start) \<Rightarrow> if start < b \<or> e < start then [''originTimeOutsideWindow''] else [] | _ \<Rightarrow> []) = ([] :: string list)"
    using win by (auto simp: in_window_def split: option.splits)
  have "sp_operationalPoint (hd ?steps) \<noteq> None" "sp_operationalPoint (last ?steps) \<noteq> None" "\<not> list_ex (\<lambda>s. sp_operationalPoint s = None) ?steps"
    using points f(1) by (simp_all add: list_ex_iff)
  then have nofail: "conf_failures conf (hd ?steps) (last ?steps) = []"
    unfolding conf_failures_def win' using rs ids by simp
  from rs ids show ?thesis
    unfolding checkStdcmConf_def at [THEN conjunct1] at [THEN conjunct2]
    using f(2,3) nofail path by (auto simp: formatStdcmPayload_def truthy_id_def split: option.splits)
qed

text \<open>C12: when the check of the form finds no error, the infrastructure and the timetable have nonzero identifiers, the two ends have
  tolerances and the start, if there is one, is in the search window, launching the simulation sends one request and waits for it. The
  request has one step per step of the form, at its operational point; a step on the way has the duration of the stop of
  the form in milliseconds (none for a passage, at least three minutes for a change of driver, not zero for a service stop), and an end with a
  precise time has that time and its tolerances.\<close>

theorem valid_form_launches:
  assumes "checkStdcmConfigErrors leaveAt arriveAt pf (rq_conf st) prev consistErrors True = Inr None"
    and "truthy_id (infraID (rq_conf st))" "truthy_id (timetableID (rq_conf st))"
    and "\<forall>step \<in> set (stdcmPathSteps (rq_conf st)). \<not> sp_isVia step \<longrightarrow> sp_tolerances step \<noteq> None"
    and "in_window (rq_conf st)"
  shows "\<exists>payload. rq_status (launchStdcmRequest h st) = Pending \<and> rq_sent (launchStdcmRequest h st) = rq_sent st @ [payload] \<and>
    rq_failures (launchStdcmRequest h st) = rq_failures st \<and>
    list_all2 (step_sent (sh_toISOString h)) (stdcmPathSteps (rq_conf st)) (py_steps payload) \<and>
    Some (py_rolling_stock_id payload) = rollingStockID (rq_conf st) \<and>
    Some (py_infra payload) = infraID (rq_conf st) \<and> Some (py_id payload) = timetableID (rq_conf st)"
proof -
  from valid_form_request [OF assms, of "sh_toISOString h"] obtain c where
    c: "checkStdcmConf (sh_toISOString h) (rq_conf st) = Inr ([], Some c)"
    "list_all2 (step_sent (sh_toISOString h)) (stdcmPathSteps (rq_conf st)) (py_steps (formatStdcmPayload c))"
    "py_rolling_stock_id (formatStdcmPayload c) = the (rollingStockID (rq_conf st))"
    "Some (py_infra (formatStdcmPayload c)) = infraID (rq_conf st)" "Some (py_id (formatStdcmPayload c)) = timetableID (rq_conf st)"
    by blast
  have "truthy_id (rollingStockID (rq_conf st))" by (rule nothing_missing(1) [OF form_accepted(4) [OF assms(1)]])
  with c show ?thesis by (auto simp: launchStdcmRequest_def Let_def truthy_id_def split: option.splits)
qed

definition ex_point :: "string \<Rightarrow> nat \<Rightarrow> stdcm_op" where
  "ex_point name uic =
     \<lparr>sop_id = name, sop_trigram = name, sop_uic = uic, sop_secondaryCode = ''BV'', sop_name = name, sop_coordinates = (0, 0)\<rparr>"

definition ex_form :: "arrival_time_type \<Rightarrow> stdcm_conf" where
  "ex_form originType =
     (stdcmConfInitialState ''o'' ''d'')
       \<lparr>infraID := Some 1, timetableID := Some 2, rollingStockID := Some 3, totalMass := Some 100, totalLength := Some 50, maxSpeed := Some 80,
        searchDatetimeWindow := Some (10, 90),
        stdcmPathSteps :=
          [(extremity ''o'' originType)\<lparr>sp_operationalPoint := Some (ex_point ''a'' 1), sp_arrival := Some 20\<rparr>,
           (new_via ''v'')\<lparr>sp_operationalPoint := Some (ex_point ''b'' 2), sp_stopType := Some DRIVER_SWITCH, sp_stopFor := Some (Duration 200000)\<rparr>,
           (extremity ''d'' ASAP)\<lparr>sp_operationalPoint := Some (ex_point ''c'' 3)\<rparr>]\<rparr>"

definition ex_parse :: "string \<Rightarrow> date" where
  "ex_parse s = \<lfloor>the (js_number s)\<rfloor>"

lemma ex_parse_print: "ex_parse (string_of_int d) = d"
  by (simp add: ex_parse_def js_number_string_of_int)

lemma ex_form_check: "checkStdcmConfigErrors (\<lambda>_. []) (\<lambda>_. []) (Some True) (ex_form PRECISE_TIME) None None True = Inr None"
  by code_simp

lemma ex_form_ids: "truthy_id (infraID (ex_form PRECISE_TIME))" "truthy_id (timetableID (ex_form PRECISE_TIME))"
  by code_simp+

lemma ex_form_steps:
  "\<forall>step \<in> set (stdcmPathSteps (ex_form PRECISE_TIME)). \<not> sp_isVia step \<longrightarrow> sp_tolerances step \<noteq> None" "in_window (ex_form PRECISE_TIME)"
  by code_simp+

lemma ex_requests: "rq_conf (initial_requests conf) = conf" "rq_sent (initial_requests conf) = []"
  by (simp_all add: initial_requests_def)

definition ex_host :: stdcm_host where
  "ex_host =
     \<lparr>sh_toISOString = string_of_int, sh_parse = ex_parse, sh_arrivalDate = string_of_int, sh_arrivalTime = string_of_int,
      sh_engine = rollingStockID, sh_towed = towedRollingStockID, sh_initial = stdcmConfInitialState ''o'' ''d'', sh_showFailure = True\<rparr>"

theorem valid_form_launches_witness:
  "\<exists>payload. rq_sent (launchStdcmRequest ex_host (initial_requests (ex_form PRECISE_TIME))) = [payload] \<and> py_infra payload = 1"
  using valid_form_launches [of "\<lambda>_. []" "\<lambda>_. []" "Some True" "initial_requests (ex_form PRECISE_TIME)" None None ex_host,
      unfolded ex_requests, OF ex_form_check ex_form_ids ex_form_steps]
  by (auto simp: ex_form_def)

text \<open>The check misses a request without any scheduled point: the button that drops the departure time of the origin gives the
  origin the arrival type of a destination, which the check does not expect there.\<close>

lemma unscheduled_request:
  "checkStdcmConfigErrors (\<lambda>_. []) (\<lambda>_. []) (Some True) (updateStdcmPathStep (ex_form PRECISE_TIME) ''o'' [SetArrivalType (Some ASAP)])
     None None True = Inr None"
  "map rs_timing_data (concat (map py_steps (rq_sent (launchStdcmRequest ex_host
     (initial_requests (updateStdcmPathStep (ex_form PRECISE_TIME) ''o'' [SetArrivalType (Some ASAP)])))))) = [None, None, None]"
  by code_simp+

section \<open>Alternative requests\<close>

lemma adjust_step_sent:
  assumes rt: "\<And>d. parse (toISOString d) = d" and "request_step_of toISOString step = Inr r" and "\<not> sp_isVia step"
  shows "request_step_of toISOString (adjust_step direction step) =
    Inr (r\<lparr>rs_timing_data := map_option (adjust_timing parse toISOString direction) (rs_timing_data r)\<rparr>)"
proof -
  from assms(2,3) obtain op1 where op1: "sp_operationalPoint step = Some op1"
    by (auto simp: request_step_of_def stdcmPathStepToPathItemLocation_def split: option.splits)
  show ?thesis
  proof (cases "\<exists>a b f. sp_arrival step = Some a \<and> sp_tolerances step = Some (b, f)")
    case True
    then obtain a b f where "sp_arrival step = Some a" "sp_tolerances step = Some (b, f)" by blast
    with assms(2,3) op1 show ?thesis
      by (cases direction) (auto simp: request_step_of_def adjust_step_def stdcmPathStepToPathItemLocation_def timing_of_def
          adjust_timing_def rt duration_defs split: option.splits arrival_time_type.splits)
  next
    case False
    then have "adjust_step direction step = step"
      by (cases "sp_arrival step"; cases "sp_tolerances step") (auto simp: adjust_step_def split: bool.splits)
    moreover from False assms(2,3) op1 have "rs_timing_data r = None"
      by (auto simp: request_step_of_def stdcmPathStepToPathItemLocation_def timing_of_def split: option.splits arrival_time_type.splits)
    ultimately show ?thesis using assms(2) by simp
  qed
qed

lemma adjust_via: "sp_isVia step \<Longrightarrow> adjust_step direction step = step"
  by (simp add: adjust_step_def)

lemma via_without_timing: "sp_isVia step \<Longrightarrow> request_step_of toISOString step = Inr r \<Longrightarrow> rs_timing_data r = None"
  by (auto simp: request_step_of_def)

lemma adjusted_steps:
  assumes rt: "\<And>d. parse (toISOString d) = d"
    and steps: "map_result (request_step_of toISOString) steps = Inr rs"
    and vias: "\<And>i. i < length steps \<Longrightarrow> sp_isVia (steps ! i) \<longleftrightarrow> i \<noteq> 0 \<and> i \<noteq> length steps - 1"
  shows "map_result (request_step_of toISOString) (map (adjust_step direction) steps) =
    Inr (map (adjust_request_step parse toISOString direction (length rs)) (zip [0..<length rs] rs))"
proof -
  have len: "length rs = length steps" using map_result_length [OF steps] .
  have one: "request_step_of toISOString (adjust_step direction (steps ! i)) =
      Inr (adjust_request_step parse toISOString direction (length rs) (i, rs ! i))" if i: "i < length steps" for i
  proof -
    note r = map_result_nth [OF steps i]
    show ?thesis
    proof (cases "sp_isVia (steps ! i)")
      case True
      with vias [OF i] r show ?thesis by (simp add: adjust_via adjust_request_step_def len)
    next
      case False
      with vias [OF i] adjust_step_sent [OF rt r False] show ?thesis by (auto simp: adjust_request_step_def len)
    qed
  qed
  show ?thesis using one by (intro map_result_pointwise) (auto simp: len)
qed

text \<open>C26: when a path is not found, the inputs that are kept with an alternative simulation describe the request that was sent for it:
  formatting the adjusted inputs gives the steps of the adjusted payload. The steps between the ends are vias, and parsing reads
  back what was printed.\<close>

theorem alternative_inputs_match_request:
  assumes "\<And>d. parse (toISOString d) = d"
    and "checkStdcmConf toISOString conf = Inr (failures, Some c)"
    and "\<And>i. i < length (stdcmPathSteps conf) \<Longrightarrow> sp_isVia (stdcmPathSteps conf ! i) \<longleftrightarrow> i \<noteq> 0 \<and> i \<noteq> length (stdcmPathSteps conf) - 1"
    and "in_pathSteps inputs = stdcmPathSteps conf"
  shows "map_result (request_step_of toISOString) (in_pathSteps (adjustInputByDirection inputs direction)) =
    Inr (py_steps (adjustPayloadByDirection parse toISOString (formatStdcmPayload c) direction))"
proof -
  have "map_result (request_step_of toISOString) (stdcmPathSteps conf) = Inr (vc_path c)"
    using assms(2) by (auto simp: checkStdcmConf_def Let_def split: option.splits if_splits)
  from adjusted_steps [OF assms(1) this assms(3)] show ?thesis
    by (simp add: adjustInputByDirection_def adjustPayloadByDirection_def formatStdcmPayload_def assms(4))
qed

theorem alternative_inputs_match_request_witness:
  "\<exists>c. checkStdcmConf string_of_int (ex_form PRECISE_TIME) = Inr ([], Some c) \<and>
     map_result (request_step_of string_of_int)
       (in_pathSteps (adjustInputByDirection (useStdcmForm ex_host (ex_form PRECISE_TIME)) Upstream)) =
     Inr (py_steps (adjustPayloadByDirection ex_parse string_of_int (formatStdcmPayload c) Upstream))"
proof -
  let ?conf = "ex_form PRECISE_TIME"
  from valid_form_request [OF ex_form_check ex_form_ids ex_form_steps, of string_of_int] obtain c where
    c: "checkStdcmConf string_of_int ?conf = Inr ([], Some c)" by blast
  have len: "length (stdcmPathSteps ?conf) = 3" by code_simp
  have "sp_isVia (stdcmPathSteps ?conf ! i) \<longleftrightarrow> i \<noteq> 0 \<and> i \<noteq> length (stdcmPathSteps ?conf) - 1" if "i < length (stdcmPathSteps ?conf)" for i
    using that unfolding len by (auto simp: ex_form_def extremity_def new_via_def less_Suc_eq numeral_3_eq_3)
  from alternative_inputs_match_request [OF ex_parse_print c this, of "useStdcmForm ex_host ?conf" Upstream] c show ?thesis
    by (auto simp: useStdcmForm_def Let_def)
qed

section \<open>Consist\<close>

lemma lodash_min_le: "Some x \<in> set xs \<Longrightarrow> \<exists>m. lodash_min xs = Some m \<and> m \<le> x \<and> Some m \<in> set xs"
proof (induction xs arbitrary: x)
  case (Cons y ys)
  show ?case
  proof (cases y)
    case None
    with Cons show ?thesis by auto
  next
    case (Some v)
    show ?thesis
    proof (cases "Some x \<in> set ys")
      case True
      from Cons.IH [OF this] obtain m where "lodash_min ys = Some m" "m \<le> x" "Some m \<in> set ys" by blast
      with Some show ?thesis by (auto simp: min_def)
    next
      case False
      with Cons.prems Some have "x = v" by simp
      show ?thesis
      proof (cases "lodash_min ys")
        case None
        with Some \<open>x = v\<close> show ?thesis by simp
      next
        case (Some m)
        have "\<exists>z. Some z \<in> set ys" using Some by (induction ys rule: lodash_min.induct) auto
        then obtain z where "Some z \<in> set ys" by blast
        from Cons.IH [OF this] Some \<open>y = Some v\<close> \<open>x = v\<close> show ?thesis by (auto simp: min_def)
      qed
    qed
  qed
qed simp

lemma msToKmh_mono: "x \<le> y \<Longrightarrow> msToKmh x \<le> msToKmh y"
  by (simp add: msToKmh_def)

lemma mass_accepted:
  assumes "0 < n" "n \<le> 10000" "kgToT e \<le> of_int n" "n = \<lceil>kgToT (e + or_zero t)\<rceil>"
  shows "validateTotalMass (Some e) t (Some (of_int n)) = None"
proof -
  have "rat_of_int n \<le> of_int 10000" "0 < rat_of_int n" using assms(1,2) by (simp_all only: of_int_le_iff of_int_0_less_iff)
  with assms(1,3) show ?thesis
    by (simp add: validateTotalMass_def truthy_num_def Let_def CONSIST_TOTAL_MASS_MAX_def or_zero_def [of "Some e"] assms(4) [symmetric])
qed

lemma prefilled_mass:
  assumes "0 < rk_mass r" "0 \<le> or_zero (map_option rk_mass towed)"
    "\<lceil>kgToT (rk_mass r + or_zero (map_option rk_mass towed))\<rceil> \<le> 10000"
  shows "totalMassError missing (Some r) towed (positive \<lceil>kgToT (rk_mass r + or_zero (map_option rk_mass towed))\<rceil>) = None"
proof -
  define n where "n = \<lceil>kgToT (rk_mass r + or_zero (map_option rk_mass towed))\<rceil>"
  have pos: "0 < n" using assms(1,2) by (simp add: n_def kgToT_def)
  have "kgToT (rk_mass r) \<le> kgToT (rk_mass r + or_zero (map_option rk_mass towed))" using assms(2) by (simp add: kgToT_def)
  also have "\<dots> \<le> of_int n" unfolding n_def by (rule le_of_int_ceiling)
  finally have "validateTotalMass (Some (rk_mass r)) (map_option rk_mass towed) (Some (of_int n)) = None"
    using pos assms(3) by (intro mass_accepted) (simp_all only: n_def)
  with pos show ?thesis unfolding n_def [symmetric]
    by (simp add: totalMassError_def getMissingFieldMessage_def positive_def truthy_num_def)
qed

lemma length_accepted:
  assumes "0 < n" "n \<le> 750" "n = \<lceil>e + or_zero t\<rceil>"
  shows "validateTotalLength (Some e) t (Some (of_int n)) = None"
proof -
  have "rat_of_int n \<le> of_int 750" "0 < rat_of_int n" using assms(1,2) by (simp_all only: of_int_le_iff of_int_0_less_iff)
  with assms(1) show ?thesis
    by (simp add: validateTotalLength_def truthy_num_def Let_def CONSIST_TOTAL_LENGTH_MAX_def or_zero_def [of "Some e"] assms(3) [symmetric])
qed

lemma prefilled_length:
  assumes "0 < rk_length r" "0 \<le> or_zero (map_option rk_length towed)" "\<lceil>rk_length r + or_zero (map_option rk_length towed)\<rceil> \<le> 750"
  shows "totalLengthError missing (Some r) towed (positive \<lceil>rk_length r + or_zero (map_option rk_length towed)\<rceil>) = None"
proof -
  define n where "n = \<lceil>rk_length r + or_zero (map_option rk_length towed)\<rceil>"
  have pos: "0 < n" using assms(1,2) by (simp add: n_def)
  have "validateTotalLength (Some (rk_length r)) (map_option rk_length towed) (Some (of_int n)) = None"
    using pos assms(3) by (intro length_accepted) (simp_all only: n_def)
  with pos show ?thesis unfolding n_def [symmetric]
    by (simp add: totalLengthError_def getMissingFieldMessage_def positive_def truthy_num_def)
qed

lemma prefilled_speed:
  assumes speeds: "30 \<le> msToKmh (rk_max_speed r)" "\<And>t. towed = Some t \<Longrightarrow> 30 \<le> msToKmh (rk_max_speed t)" "\<And>l. limit = Some l \<Longrightarrow> 30 \<le> l"
  shows "maxSpeedError missing (Some r) (calculateConsistMaxSpeed (Some r) towed limit) = None"
proof -
  let ?xs = "[Some (rk_max_speed r), map_option rk_max_speed towed, if truthy_num limit then Some (kmhToMs (the limit)) else None]"
  obtain m where m: "lodash_min ?xs = Some m" "m \<le> rk_max_speed r" "Some m \<in> set ?xs" using lodash_min_le [of "rk_max_speed r" ?xs] by auto
  have low: "30 \<le> msToKmh m"
  proof -
    from m(3) consider "m = rk_max_speed r" | t where "towed = Some t" "m = rk_max_speed t" | l where "limit = Some l" "m = kmhToMs l"
      by (cases towed) (auto simp: truthy_num_def split: if_splits option.splits)
    then show ?thesis using speeds by cases (auto simp: kmhToMs_def msToKmh_def)
  qed
  then have "m \<noteq> 0" by (auto simp: msToKmh_def)
  with m(1) have v: "calculateConsistMaxSpeed (Some r) towed limit = Some (of_int \<lfloor>msToKmh m\<rfloor>)"
    by (simp add: calculateConsistMaxSpeed_def truthy_num_def)
  have ge: "30 \<le> \<lfloor>msToKmh m\<rfloor>" using low by (simp add: le_floor_iff)
  have le: "\<lfloor>msToKmh m\<rfloor> \<le> \<lfloor>msToKmh (rk_max_speed r)\<rfloor>" by (rule floor_mono, rule msToKmh_mono, rule m(2))
  define k where "k = \<lfloor>msToKmh m\<rfloor>"
  have k: "30 \<le> k" using ge by (simp only: k_def)
  then have "rat_of_int 30 \<le> of_int k" "k \<noteq> 0" by (simp only: of_int_le_iff, linarith)
  moreover have "\<not> rat_of_int \<lfloor>msToKmh (rk_max_speed r)\<rfloor> < of_int k" using le by (simp only: of_int_less_iff k_def [symmetric] not_less)
  ultimately show ?thesis
    unfolding v k_def [symmetric]
    by (auto simp: maxSpeedError_def getMissingFieldMessage_def truthy_num_def validateMaxSpeed_def CONSIST_MAX_SPEED_MIN_def)
qed

lemma apply_extra_keeps:
  "cd_totalMass (fold apply_extra es c) = cd_totalMass c" "cd_totalLength (fold apply_extra es c) = cd_totalLength c"
  "cd_maxSpeed (fold apply_extra es c) = cd_maxSpeed c"
proof -
  have "cd_totalMass (apply_extra e c) = cd_totalMass c \<and> cd_totalLength (apply_extra e c) = cd_totalLength c \<and>
      cd_maxSpeed (apply_extra e c) = cd_maxSpeed c" for e c by (cases e) auto
  then have "cd_totalMass (fold apply_extra es c) = cd_totalMass c \<and> cd_totalLength (fold apply_extra es c) = cd_totalLength c \<and>
      cd_maxSpeed (fold apply_extra es c) = cd_maxSpeed c" by (induction es arbitrary: c) auto
  then show "cd_totalMass (fold apply_extra es c) = cd_totalMass c" "cd_totalLength (fold apply_extra es c) = cd_totalLength c"
    "cd_maxSpeed (fold apply_extra es c) = cd_maxSpeed c" by auto
qed

text \<open>The values that the consist card fills in from the chosen rolling stocks pass its own validation, and the errors of the form
  are cleared, for rolling stocks within the limits of the form.\<close>

lemma prefilled_consist_valid:
  assumes "0 < rk_mass r" "0 \<le> or_zero (map_option rk_mass towed)"
    and "\<lceil>kgToT (rk_mass r + or_zero (map_option rk_mass towed))\<rceil> \<le> 10000"
    and "0 < rk_length r" "0 \<le> or_zero (map_option rk_length towed)" "\<lceil>rk_length r + or_zero (map_option rk_length towed)\<rceil> \<le> 750"
    and "30 \<le> msToKmh (rk_max_speed r)" "\<And>t. towed = Some t \<Longrightarrow> 30 \<le> msToKmh (rk_max_speed t)"
    and "\<And>tag l. obj_get tags tag = Some l \<Longrightarrow> 30 \<le> l"
    and "(form', consist') = prefillConsist missing tags (Some r) towed tag extra st"
  shows "totalMassError missing (Some r) towed (cd_totalMass consist') = None \<and>
    totalLengthError missing (Some r) towed (cd_totalLength consist') = None \<and>
    maxSpeedError missing (Some r) (cd_maxSpeed consist') = None \<and> getInvalidFields (Some [cf_errors form']) = []"
proof -
  have eqs: "cd_totalMass consist' = positive \<lceil>kgToT (rk_mass r + or_zero (map_option rk_mass towed))\<rceil>"
    "cd_totalLength consist' = positive \<lceil>rk_length r + or_zero (map_option rk_length towed)\<rceil>"
    "cd_maxSpeed consist' = calculateConsistMaxSpeed (Some r) towed (if truthy tag then obj_get tags (the tag) else None)"
    using assms(10) by (simp_all add: prefillConsist_def Let_def apply_extra_keeps or_zero_def [of "Some x" for x])
  have "totalMassError missing (Some r) towed (cd_totalMass consist') = None"
    unfolding eqs using assms(1-3) by (rule prefilled_mass)
  moreover have "totalLengthError missing (Some r) towed (cd_totalLength consist') = None"
    unfolding eqs using assms(4-6) by (rule prefilled_length)
  moreover have "maxSpeedError missing (Some r) (cd_maxSpeed consist') = None"
    unfolding eqs using assms(7-9) by (intro prefilled_speed) (auto split: if_splits)
  moreover have "getInvalidFields (Some [cf_errors form']) = []"
    using assms(10) by (simp add: prefillConsist_def Let_def updateConsistErrors_def new_field_error_def getInvalidFields_def
        consistErrorFields_def add_invalid_def truthy_def)
  ultimately show ?thesis by blast
qed

definition ex_engine :: rolling_stock_data where
  "ex_engine = \<lparr>rk_id = 3, rk_mass = 2500, rk_length = 3 / 2, rk_max_speed = 10\<rparr>"

definition ex_consist_form :: consist_form where
  "ex_consist_form =
     (let e = \<lparr>fe_message = None, fe_display = False, fe_invalid = False\<rparr> in
      \<lparr>cf_totalMassChanged = False, cf_totalLengthChanged = False, cf_maxSpeedChanged = False, cf_massInfo = False, cf_lengthInfo = False,
       cf_speedInfo = False, cf_errors = \<lparr>er_totalMass = e, er_totalLength = e, er_maxSpeed = e\<rparr>\<rparr>)"

definition ex_consist :: consist_data where
  "ex_consist =
     \<lparr>cd_rollingStockID = None, cd_towedRollingStockID = None, cd_totalMass = None, cd_totalLength = None, cd_maxSpeed = None,
      cd_loadingGauge = None, cd_speedLimitByTag = None\<rparr>"

section \<open>Similar trains\<close>

definition connects :: "similar_segment \<Rightarrow> similar_segment \<Rightarrow> bool" where
  "connects a b \<longleftrightarrow> sg_end a = sg_begin b"

definition merges :: "similar_segment list \<Rightarrow> similar_segment \<Rightarrow> bool" where
  "merges g s \<longleftrightarrow>
     g \<noteq> [] \<and> sg_begin s = sg_begin (hd g) \<and> sg_end s = sg_end (last g) \<and> sg_train s = sg_train (hd g) \<and>
     (\<forall>x\<in>set g. train_name_of x = train_name_of s) \<and> successively connects g"

definition separate :: "similar_segment \<Rightarrow> similar_segment \<Rightarrow> bool" where
  "separate a b \<longleftrightarrow> sg_end a \<noteq> sg_begin b \<or> train_name_of a \<noteq> train_name_of b"

definition grouped :: "similar_segment list \<Rightarrow> similar_segment list \<Rightarrow> bool" where
  "grouped segments result \<longleftrightarrow>
     (\<exists>gs. concat gs = segments \<and> list_all2 merges gs result) \<and> successively separate result"

lemma push_segment_grouped:
  assumes "grouped segments result"
  shows "grouped (segments @ [s]) (push_segment result s)"
proof -
  from assms obtain gs where gs: "concat gs = segments" "list_all2 merges gs result" and sep: "successively separate result"
    by (auto simp: grouped_def)
  show ?thesis
  proof (cases "result \<noteq> [] \<and> sg_end (last result) = sg_begin s \<and> train_name_of (last result) = train_name_of s")
    case True
    then obtain res l where res: "result = res @ [l]" by (cases result rule: rev_cases) auto
    with gs(2) have "list_all2 merges gs (res @ [l])" by simp
    then obtain hs g where hs: "gs = hs @ [g]" "list_all2 merges hs res" "merges g l"
      by (auto simp: list_all2_append2 list_all2_Cons2)
    let ?l = "l\<lparr>sg_end := sg_end s\<rparr>"
    have name: "train_name_of ?l = train_name_of l" by (simp add: train_name_of_def)
    have "merges (g @ [s]) ?l"
      using hs(3) True res by (auto simp: merges_def name successively_append_iff connects_def)
    with hs gs(1) have "concat (hs @ [g @ [s]]) = segments @ [s]" "list_all2 merges (hs @ [g @ [s]]) (res @ [?l])"
      by (auto intro: list_all2_appendI)
    moreover have "successively separate (res @ [?l])"
      using sep unfolding res by (auto simp: successively_append_iff separate_def name)
    moreover have "push_segment result s = res @ [?l]" using True by (simp add: push_segment_def res)
    ultimately show ?thesis unfolding grouped_def by metis
  next
    case False
    have "merges [s] s" by (simp add: merges_def)
    with gs have "concat (gs @ [[s]]) = segments @ [s]" "list_all2 merges (gs @ [[s]]) (result @ [s])" by (auto intro: list_all2_appendI)
    moreover have "successively separate (result @ [s])" using sep False by (auto simp: successively_append_iff separate_def)
    moreover have "push_segment result s = result @ [s]" using False by (auto simp: push_segment_def)
    ultimately show ?thesis unfolding grouped_def by metis
  qed
qed

lemma push_all_grouped: "grouped segments (foldl push_segment [] segments)"
proof (induction segments rule: rev_induct)
  case Nil
  have "concat [] = ([] :: similar_segment list)" "list_all2 merges [] []" by auto
  then show ?case unfolding grouped_def by fastforce
next
  case (snoc s ss)
  then show ?case by (simp add: push_segment_grouped)
qed

text \<open>Merging keeps what the answers say about the segments: each merged segment runs from the beginning of the first to the end
  of the last of a run of connected segments that have the same train, the runs are all the segments in their order, and two merged
  segments that follow each other do not connect or have different trains. A segment has the train of the first answer that
  has one for it.\<close>

lemma similar_trains_merged:
  "\<exists>gs. concat gs = map (fill_segment bySpeedLimit byRsName) withAll \<and>
     list_all2 merges gs (mergeSimilarTrainSegments withAll bySpeedLimit byRsName) \<and>
     successively separate (mergeSimilarTrainSegments withAll bySpeedLimit byRsName)"
  using push_all_grouped unfolding grouped_def mergeSimilarTrainSegments_def by blast

end
