(* ===== verification/StdcmSessionProperties.thy ===== *)
theory StdcmSessionProperties
  imports StdcmRequestProperties
begin

text \<open>
  The life of the requests of the last minute application along every history of events in which a request is launched only when no
  other one is waiting.
\<close>

section \<open>Histories\<close>

fun waiting :: "task \<Rightarrow> bool" where
  "waiting (CreateSimulation i r) = False"
| "waiting (AwaitResponse i p) = True"
| "waiting (AwaitAlternatives i s) = True"
| "waiting (CreateAlternatives i s u d) = True"

fun on_request :: "task \<Rightarrow> bool" where
  "on_request (AwaitResponse i p) = True"
| "on_request (AwaitAlternatives i s) = True"
| "on_request _ = False"

fun awaits_response :: "task \<Rightarrow> bool" where
  "awaits_response (AwaitResponse i p) = True"
| "awaits_response _ = False"

fun event_allowed :: "request_state \<Rightarrow> request_event \<Rightarrow> bool" where
  "event_allowed st Launch = list_all (\<lambda>(n, t). \<not> waiting t) (rq_tasks st)"
| "event_allowed st (Reduce a) = keeps_simulations a"
| "event_allowed st _ = True"

inductive request_history :: "stdcm_host \<Rightarrow> request_state \<Rightarrow> request_state \<Rightarrow> bool" for h st0 where
  start: "request_history h st0 st0"
| step: "request_history h st0 st \<Longrightarrow> event_allowed st e \<Longrightarrow> request_history h st0 (request_transition h st e)"

definition has_task :: "request_state \<Rightarrow> nat \<Rightarrow> task \<Rightarrow> bool" where
  "has_task st n t \<longleftrightarrow> (n, t) \<in> set (rq_tasks st)"

definition requests_ok :: "request_state \<Rightarrow> bool" where
  "requests_ok st \<longleftrightarrow>
     distinct (map fst (rq_tasks st)) \<and> (\<forall>n t. has_task st n t \<longrightarrow> n < rq_next st) \<and>
     (\<forall>n t m u. has_task st n t \<longrightarrow> has_task st m u \<longrightarrow> waiting t \<longrightarrow> waiting u \<longrightarrow> n = m) \<and>
     (\<forall>n t. has_task st n t \<longrightarrow> on_request t \<longrightarrow> rq_current st = Some n \<and> \<not> rq_cancelled st) \<and>
     (rq_status st = Pending \<longrightarrow> (\<exists>n t. has_task st n t \<and> awaits_response t)) \<and>
     (rq_status st = PendingAdditional \<longrightarrow> (\<exists>n t. has_task st n t \<and> waiting t \<and> \<not> awaits_response t))"

lemma requests_okD:
  assumes "requests_ok st"
  shows "distinct (map fst (rq_tasks st))" "has_task st n t \<Longrightarrow> n < rq_next st"
    "has_task st n t \<Longrightarrow> has_task st m u \<Longrightarrow> waiting t \<Longrightarrow> waiting u \<Longrightarrow> n = m"
    "has_task st n t \<Longrightarrow> on_request t \<Longrightarrow> rq_current st = Some n \<and> \<not> rq_cancelled st"
    "rq_status st = Pending \<Longrightarrow> \<exists>n t. has_task st n t \<and> awaits_response t"
    "rq_status st = PendingAdditional \<Longrightarrow> \<exists>n t. has_task st n t \<and> waiting t \<and> \<not> awaits_response t"
  using assms unfolding requests_ok_def by blast+

lemma request_waits: "on_request t \<Longrightarrow> waiting t" "awaits_response t \<Longrightarrow> on_request t"
  by (cases t; simp)+

lemma has_task_unique: "requests_ok st \<Longrightarrow> has_task st n t \<Longrightarrow> has_task st n u \<Longrightarrow> t = u"
  unfolding has_task_def by (drule requests_okD(1)) (rule eq_key_imp_eq_value)

lemma has_task_end: "has_task (end_task n st) k u \<longleftrightarrow> has_task st k u \<and> k \<noteq> n"
  by (auto simp: has_task_def end_task_def)

lemma has_task_set: "has_task (set_task n t st) k u \<longleftrightarrow> (if k = n then u = t \<and> (\<exists>v. has_task st n v) else has_task st k u)"
  by (force simp: has_task_def set_task_def)

lemma task_fields [simp]:
  "rq_next (end_task n st) = rq_next st" "rq_current (end_task n st) = rq_current st" "rq_cancelled (end_task n st) = rq_cancelled st"
  "rq_status (end_task n st) = rq_status st" "rq_conf (end_task n st) = rq_conf st"
  "rq_next (set_task n t st) = rq_next st" "rq_current (set_task n t st) = rq_current st" "rq_cancelled (set_task n t st) = rq_cancelled st"
  "rq_status (set_task n t st) = rq_status st" "rq_conf (set_task n t st) = rq_conf st"
  by (simp_all add: end_task_def set_task_def)

lemma task_keys: "map fst (rq_tasks (set_task n t st)) = map fst (rq_tasks st)"
  by (auto simp: set_task_def)

lemma end_keys: "distinct (map fst (rq_tasks st)) \<Longrightarrow> distinct (map fst (rq_tasks (end_task n st)))"
  by (simp add: end_task_def distinct_map_filter)

section \<open>Every event keeps the invariant\<close>

text \<open>The end of a task, and a task that waits for something else; the other changes leave the tasks alone.\<close>

definition same_tasks :: "request_state \<Rightarrow> request_state \<Rightarrow> bool" where
  "same_tasks st st' \<longleftrightarrow> rq_tasks st' = rq_tasks st \<and> rq_next st' = rq_next st"

lemma same_has_task: "same_tasks st st' \<Longrightarrow> has_task st' n t \<longleftrightarrow> has_task st n t"
  by (simp add: same_tasks_def has_task_def)

lemma end_task_ok:
  assumes ok: "requests_ok st" and t: "has_task st n t" and same: "same_tasks st st'"
    and cur: "rq_current st' = rq_current st" "rq_cancelled st' = rq_cancelled st"
    and status: "rq_status st' = rq_status st \<and> \<not> waiting t \<or> rq_status st' \<notin> {Pending, PendingAdditional}"
  shows "requests_ok (end_task n st')"
proof -
  note d = requests_okD [OF ok]
  have other: "k \<noteq> n" if "has_task st k u" "waiting u" "\<not> waiting t" for k u
    using has_task_unique [OF ok t, of u] that by blast
  have "distinct (map fst (rq_tasks (end_task n st')))" using same d(1) by (intro end_keys) (simp add: same_tasks_def)
  moreover have "k < rq_next st'" if "has_task st k u" for k u using d(2) [OF that] same by (simp add: same_tasks_def)
  moreover have "\<exists>k u. has_task st k u \<and> k \<noteq> n \<and> awaits_response u" if "rq_status st' = Pending"
    using that status d(5) other request_waits by force
  moreover have "\<exists>k u. has_task st k u \<and> k \<noteq> n \<and> waiting u \<and> \<not> awaits_response u" if "rq_status st' = PendingAdditional"
    using that status d(6) other by force
  ultimately show ?thesis
    unfolding requests_ok_def has_task_end same_has_task [OF same] task_fields cur using d(3,4) by blast
qed

lemma set_task_ok:
  assumes ok: "requests_ok st" and t: "has_task st n t" "waiting t" and same: "same_tasks st st'"
    and cur: "on_request u \<Longrightarrow> rq_current st' = Some n \<and> \<not> rq_cancelled st'"
    and status: "rq_status st' = Pending \<Longrightarrow> awaits_response u" "rq_status st' = PendingAdditional \<Longrightarrow> waiting u \<and> \<not> awaits_response u"
  shows "requests_ok (set_task n u st')"
proof -
  note d = requests_okD [OF ok]
  have other: "k = n" if "has_task st k v" "waiting v" for k v using d(3) [OF t(1) that(1) t(2) that(2)] by simp
  have h: "has_task (set_task n u st') n u" unfolding has_task_set same_has_task [OF same] if_True simp_thms using t(1) by blast
  have e: "k = n \<and> v = u \<or> k \<noteq> n \<and> has_task st k v \<and> \<not> waiting v" if "has_task (set_task n u st') k v" for k v
    using that other [of k v] unfolding has_task_set same_has_task [OF same] by (cases "k = n") auto
  have "distinct (map fst (rq_tasks (set_task n u st')))" unfolding task_keys using same d(1) by (simp add: same_tasks_def)
  moreover have "k < rq_next st'" if "has_task (set_task n u st') k v" for k v
    using e [OF that] d(2) t(1) same unfolding same_tasks_def by metis
  moreover have "k = m" if "has_task (set_task n u st') k v" "has_task (set_task n u st') m w" "waiting v" "waiting w" for k m v w
    using e [OF that(1)] e [OF that(2)] that(3,4) by blast
  moreover have "rq_current st' = Some k \<and> \<not> rq_cancelled st'" if "has_task (set_task n u st') k v" "on_request v" for k v
    using e [OF that(1)] cur request_waits(1) [OF that(2)] that(2) by blast
  ultimately show ?thesis unfolding requests_ok_def task_fields using h status by blast
qed

lemma launch_ok:
  assumes ok: "requests_ok st" and free: "\<And>n t. has_task st n t \<Longrightarrow> \<not> waiting t"
  shows "requests_ok (launchStdcmRequest h st)"
proof -
  note d = requests_okD [OF ok]
  have idle: "requests_ok (st\<lparr>rq_status := Idle, rq_cancelled := False, rq_failures := fs\<rparr>)" for fs
    using ok free request_waits(1) unfolding requests_ok_def has_task_def by simp
  have idle': "requests_ok (st\<lparr>rq_status := Idle, rq_cancelled := False\<rparr>)"
    using ok free request_waits(1) unfolding requests_ok_def has_task_def by simp
  have run: "requests_ok (st\<lparr>rq_cancelled := False, rq_status := Pending, rq_failures := fs, rq_sent := ps,
      rq_tasks := rq_tasks st @ [(rq_next st, AwaitResponse i p)], rq_current := Some (rq_next st), rq_next := Suc (rq_next st)\<rparr>)" for fs ps i p
  proof -
    have "rq_next st \<notin> fst ` set (rq_tasks st)" using d(2) unfolding has_task_def by fastforce
    moreover have "n < Suc (rq_next st)" if "(n, t) \<in> set (rq_tasks st)" for n t using d(2) [of n t] that by (simp add: has_task_def)
    moreover have "\<not> on_request t" if "(n, t) \<in> set (rq_tasks st)" for n t using free [of n t] that request_waits(1) by (auto simp: has_task_def)
    moreover have "\<exists>n t. (n = rq_next st \<and> t = AwaitResponse i p \<or> (n, t) \<in> set (rq_tasks st)) \<and> awaits_response t" by force
    ultimately show ?thesis
      using d(1) free unfolding requests_ok_def has_task_def by auto
  qed
  show ?thesis
    by (cases "checkStdcmConf (sh_toISOString h) (rq_conf st)") (auto simp: launchStdcmRequest_def Let_def idle idle' run split: option.split prod.split)
qed

lemma task_known: "map_of (rq_tasks st) n = Some t \<Longrightarrow> has_task st n t"
  unfolding has_task_def by (rule map_of_SomeD)

lemma rejected [simp]: "same_tasks st (handleRejection h st')  = same_tasks st st'" "rq_current (handleRejection h st) = rq_current st"
  "rq_cancelled (handleRejection h st) = rq_cancelled st" "rq_status (handleRejection h st) = Rejected" "rq_conf (handleRejection h st) = rq_conf st"
  by (simp_all add: handleRejection_def same_tasks_def)

lemma added [simp]: "same_tasks st (add_simulations now sims st') = same_tasks st st'"
  "rq_current (add_simulations now sims st) = rq_current st" "rq_cancelled (add_simulations now sims st) = rq_cancelled st"
  "rq_status (add_simulations now sims st) = rq_status st"
  "rq_conf (add_simulations now sims st) = addStdcmSimulations (rq_conf st) now sims"
  by (simp_all add: add_simulations_def same_tasks_def)

lemma same_tasks_refl [simp]: "same_tasks st st" by (simp add: same_tasks_def)

lemma response_ok:
  assumes ok: "requests_ok st"
  shows "requests_ok (handle_response h n answer st)"
proof (cases "\<exists>i p. map_of (rq_tasks st) n = Some (AwaitResponse i p)")
  case True
  then obtain i p where t: "map_of (rq_tasks st) n = Some (AwaitResponse i p)" by blast
  note k = task_known [OF t]
  have c: "rq_current st = Some n \<and> \<not> rq_cancelled st" using requests_okD(4) [OF ok k] by simp
  have found: "requests_ok (handleSuccess n i r st)" for r
    unfolding handleSuccess_def by (rule set_task_ok [OF ok k]) (simp_all add: same_tasks_def)
  have notfound: "requests_ok (handlePathNotFound h n i p r st)" for r
    unfolding handlePathNotFound_def by (rule set_task_ok [OF ok k]) (simp_all add: same_tasks_def c)
  have "requests_ok (end_task n (handleRejection h st))" by (rule end_task_ok [OF ok k]) simp_all
  with found notfound t show ?thesis by (simp add: handle_response_def split: option.split stdcm_response.split)
next
  case False
  then have "handle_response h n answer st = st" by (auto simp: handle_response_def split: option.splits task.splits)
  with ok show ?thesis by simp
qed

lemma finish_ok:
  assumes "requests_ok st" "has_task st n t" "same_tasks st st'" "rq_current st' = rq_current st" "rq_cancelled st' = rq_cancelled st"
  shows "requests_ok (finish_alternatives h n s now created st')"
  unfolding finish_alternatives_def
  by (rule end_task_ok [OF assms(1,2)]; cases created) (use assms in \<open>simp_all add: same_tasks_def handleRejection_def add_simulations_def\<close>)

lemma alternatives_ok:
  assumes ok: "requests_ok st"
  shows "requests_ok (handle_alternatives h n answers now st)"
proof (cases "\<exists>i s. map_of (rq_tasks st) n = Some (AwaitAlternatives i s)")
  case True
  then obtain i s where t: "map_of (rq_tasks st) n = Some (AwaitAlternatives i s)" by blast
  note k = task_known [OF t]
  have c: "rq_current st = Some n \<and> \<not> rq_cancelled st" using requests_okD(4) [OF ok k] by simp
  have status: "rq_status st \<noteq> Pending"
  proof
    assume "rq_status st = Pending"
    then obtain m u where "has_task st m u" "awaits_response u" using requests_okD(5) [OF ok] by blast
    moreover from this have "m = n" using requests_okD(3) [OF ok k, of m u] request_waits by simp
    ultimately show False using has_task_unique [OF ok k, of u] by auto
  qed
  have "requests_ok (set_task n (CreateAlternatives i s a b) (st\<lparr>rq_selectedTrain := Some STDCM_TRAIN_TIMETABLE_ID\<rparr>))" for a b
    by (rule set_task_ok [OF ok k]) (simp_all add: same_tasks_def status)
  moreover have "requests_ok (finish_alternatives h n s now created st)" for created by (rule finish_ok [OF ok k]) simp_all
  moreover have "requests_ok (finish_alternatives h n s now created (st\<lparr>rq_selectedTrain := Some STDCM_TRAIN_TIMETABLE_ID\<rparr>))" for created
    by (rule finish_ok [OF ok k]) (simp_all add: same_tasks_def)
  ultimately show ?thesis using t c
    by (auto simp: handle_alternatives_def Let_def split: option.split stdcm_response.split)
next
  case False
  then have "handle_alternatives h n answers now st = st" by (auto simp: handle_alternatives_def split: option.splits task.splits)
  with ok show ?thesis by simp
qed

lemma created_ok:
  assumes ok: "requests_ok st"
  shows "requests_ok (handle_created h n outputsOf now st)"
proof (cases "map_of (rq_tasks st) n")
  case (Some t)
  note k = task_known [OF Some]
  show ?thesis
  proof (cases t)
    case (CreateSimulation i r)
    have "requests_ok (end_task n (handleRejection h st))" by (rule end_task_ok [OF ok k]) simp_all
    moreover have "requests_ok (end_task n (if rq_cancelled st then st else add_simulations now sims st))" for sims
      by (rule end_task_ok [OF ok k]) (simp_all add: CreateSimulation)
    ultimately show ?thesis using Some CreateSimulation by (simp add: handle_created_def split: sum.split)
  next
    case (CreateAlternatives i s a b)
    moreover have "requests_ok (finish_alternatives h n s now created st)" for created by (rule finish_ok [OF ok k]) simp_all
    ultimately show ?thesis using Some by (simp add: handle_created_def)
  qed (use ok Some in \<open>simp_all add: handle_created_def\<close>)
qed (use ok in \<open>simp add: handle_created_def\<close>)

lemma aborted:
  "rq_next (abort_task n now st) = rq_next st" "distinct (map fst (rq_tasks st)) \<Longrightarrow> distinct (map fst (rq_tasks (abort_task n now st)))"
  "has_task (abort_task n now st) k u \<Longrightarrow> has_task st k u"
  "requests_ok st \<Longrightarrow> has_task (abort_task n now st) n u \<Longrightarrow> \<not> on_request u"
proof -
  show "rq_next (abort_task n now st) = rq_next st" by (simp add: abort_task_def add_simulations_def split: option.split task.split)
  show "distinct (map fst (rq_tasks st)) \<Longrightarrow> distinct (map fst (rq_tasks (abort_task n now st)))"
    by (simp add: abort_task_def add_simulations_def end_task_def distinct_map_filter split: option.split task.split)
  show "has_task (abort_task n now st) k u \<Longrightarrow> has_task st k u"
    by (auto simp: abort_task_def add_simulations_def end_task_def has_task_def split: option.splits task.splits)
  assume ok: "requests_ok st" and k: "has_task (abort_task n now st) n u"
  show "\<not> on_request u"
  proof (cases "map_of (rq_tasks st) n")
    case None
    with k show ?thesis by (simp add: abort_task_def has_task_def map_of_eq_None_iff image_iff) force
  next
    case (Some t)
    with k show ?thesis using has_task_unique [OF ok task_known [OF Some], of u]
      by (cases t) (auto simp: abort_task_def has_task_end)
  qed
qed

lemma cancel_ok:
  assumes ok: "requests_ok st"
  shows "requests_ok (cancelStdcmRequest now st)"
proof -
  let ?st = "case rq_current st of None \<Rightarrow> st | Some n \<Rightarrow> abort_task n now st"
  note d = requests_okD [OF ok]
  have tasks: "has_task (cancelStdcmRequest now st) k u \<longleftrightarrow> has_task ?st k u" for k u by (simp add: cancelStdcmRequest_def has_task_def)
  have old: "has_task st k u" if "has_task ?st k u" for k u using that aborted(3) by (auto split: option.splits)
  have "\<not> on_request u" if "has_task ?st k u" for k u
  proof
    assume "on_request u"
    with d(4) [OF old [OF that]] have "rq_current st = Some k" by simp
    with that aborted(4) [OF ok, of k now u] \<open>on_request u\<close> show False by simp
  qed
  moreover have "distinct (map fst (rq_tasks ?st))" "rq_next ?st = rq_next st" using d(1) aborted(1,2) by (auto split: option.split)
  ultimately show ?thesis
    unfolding requests_ok_def tasks using old d(2,3) by (simp add: cancelStdcmRequest_def) blast
qed

lemma transition_ok:
  assumes "requests_ok st" "event_allowed st e"
  shows "requests_ok (request_transition h st e)"
proof (cases e)
  case Launch
  with assms(2) have "\<not> waiting t" if "has_task st n t" for n t using that by (auto simp: has_task_def list_all_iff)
  with launch_ok [OF assms(1)] Launch show ?thesis by simp
next
  case ResetState
  with assms(1) show ?thesis by (simp add: requests_ok_def resetStdcmState_def has_task_def)
next
  case (Reduce a)
  with assms(1) show ?thesis by (simp add: requests_ok_def has_task_def)
qed (use assms response_ok alternatives_ok created_ok cancel_ok in simp_all)

section \<open>Simulations\<close>

lemma finish_simulations:
  "simulations_ok (rq_conf st) \<Longrightarrow> simulations_ok (rq_conf (finish_alternatives h n s now created st))"
  by (cases created) (simp_all add: finish_alternatives_def addStdcmSimulations_ok)

lemma launch_conf: "rq_conf (launchStdcmRequest h st) = rq_conf st"
  by (simp add: launchStdcmRequest_def Let_def split: sum.split option.split)

lemma response_conf: "rq_conf (handle_response h n answer st) = rq_conf st"
  by (simp add: handle_response_def handleSuccess_def handlePathNotFound_def split: option.split task.split stdcm_response.split)

lemma alternatives_simulations:
  assumes "simulations_ok (rq_conf st)"
  shows "simulations_ok (rq_conf (handle_alternatives h n answers now st))"
  using assms finish_simulations [of st] finish_simulations [of "st\<lparr>rq_selectedTrain := Some STDCM_TRAIN_TIMETABLE_ID\<rparr>"]
  by (simp add: handle_alternatives_def Let_def addStdcmSimulations_ok split: option.split task.split stdcm_response.split)

lemma created_simulations:
  "simulations_ok (rq_conf st) \<Longrightarrow> simulations_ok (rq_conf (handle_created h n outputsOf now st))"
  using finish_simulations [of st]
  by (simp add: handle_created_def addStdcmSimulations_ok split: option.split task.split sum.split)

lemma cancel_simulations:
  "simulations_ok (rq_conf st) \<Longrightarrow> simulations_ok (rq_conf (cancelStdcmRequest now st))"
  by (simp add: cancelStdcmRequest_def abort_task_def addStdcmSimulations_ok split: option.split task.split)

lemma transition_simulations:
  assumes "sh_initial h = stdcmConfInitialState u1 u2" "simulations_ok (rq_conf st)" "event_allowed st e"
  shows "simulations_ok (rq_conf (request_transition h st e))"
proof (cases e)
  case (Reduce a)
  with assms show ?thesis by (simp add: stdcm_slice.dispatch_invar)
qed (use assms in \<open>simp_all add: launch_conf response_conf alternatives_simulations created_simulations cancel_simulations resetStdcmState_def\<close>)

lemma history_ok:
  assumes "request_history h st0 st" "sh_initial h = stdcmConfInitialState u1 u2" "requests_ok st0" "simulations_ok (rq_conf st0)"
  shows "requests_ok st \<and> simulations_ok (rq_conf st)"
  using assms(1) by induction (use assms(2-4) transition_ok transition_simulations in auto)

text \<open>C7: along every history of events in which a request is launched only when no other one waits and the other actions respect
  \<open>keeps_simulations\<close>, the application never shows a pending request that nothing will end: a pending request waits for its response,
  a search for alternatives waits for their responses or for the properties of their paths. While the cancelled mark is set no response of a
  request is waited for, though path properties can be (\<open>cancellation_overridden\<close> below), and the selected simulation is always in the
  list.\<close>

theorem requests_never_stuck:
  assumes "request_history h (initial_requests conf) st"
    and "sh_initial h = stdcmConfInitialState u1 u2" and "simulations_ok conf"
  shows "(rq_status st = Pending \<longrightarrow> (\<exists>n inputs payload. (n, AwaitResponse inputs payload) \<in> set (rq_tasks st))) \<and>
    (rq_status st = PendingAdditional \<longrightarrow>
       (\<exists>n inputs s up down. (n, AwaitAlternatives inputs s) \<in> set (rq_tasks st) \<or> (n, CreateAlternatives inputs s up down) \<in> set (rq_tasks st))) \<and>
    (rq_cancelled st \<longrightarrow> (\<forall>(n, t) \<in> set (rq_tasks st). \<not> on_request t)) \<and>
    simulations_ok (rq_conf st)"
proof -
  have "requests_ok (initial_requests conf)" by (simp add: requests_ok_def initial_requests_def has_task_def)
  with history_ok [OF assms(1,2)] assms(3) have ok: "requests_ok st" and sims: "simulations_ok (rq_conf st)"
    by (simp_all add: initial_requests_def)
  note d = requests_okD [OF ok]
  have "\<exists>n inputs payload. (n, AwaitResponse inputs payload) \<in> set (rq_tasks st)" if p: "rq_status st = Pending"
    using d(5) [OF p] unfolding has_task_def by (metis awaits_response.elims(2))
  moreover have "\<exists>n inputs s up down. (n, AwaitAlternatives inputs s) \<in> set (rq_tasks st) \<or> (n, CreateAlternatives inputs s up down) \<in> set (rq_tasks st)"
    if p: "rq_status st = PendingAdditional"
  proof -
    from d(6) [OF p] obtain n t where "(n, t) \<in> set (rq_tasks st)" "waiting t" "\<not> awaits_response t" unfolding has_task_def by blast
    then show ?thesis by (cases t) (auto, blast)
  qed
  moreover have "\<forall>(n, t) \<in> set (rq_tasks st). \<not> on_request t" if "rq_cancelled st" using d(4) that unfolding has_task_def by blast
  ultimately show ?thesis using sims by blast
qed

definition plain_host :: stdcm_host where
  "plain_host = ex_host\<lparr>sh_toISOString := \<lambda>_. ''t'', sh_parse := \<lambda>_. 0\<rparr>"

definition ex_found :: "js_val \<Rightarrow> js_val result" where
  "ex_found r = Inr r"

definition ex_events :: "request_event list" where
  "ex_events = [Launch, Respond 0 (Some (PathNotFound Null)) 5, RespondAlternatives 0 (Some (PathFound Null, PathFound Null)) 6]"

fun run_events :: "stdcm_host \<Rightarrow> request_state \<Rightarrow> request_event list \<Rightarrow> request_state" where
  "run_events h st [] = st"
| "run_events h st (e # es) = run_events h (request_transition h st e) es"

fun events_allowed :: "stdcm_host \<Rightarrow> request_state \<Rightarrow> request_event list \<Rightarrow> bool" where
  "events_allowed h st [] = True"
| "events_allowed h st (e # es) \<longleftrightarrow> event_allowed st e \<and> events_allowed h (request_transition h st e) es"

lemma run_history:
  "request_history h st0 st \<Longrightarrow> events_allowed h st es \<Longrightarrow> request_history h st0 (run_events h st es)"
  by (induction es arbitrary: st) (auto intro: request_history.step)

lemma ex_events_allowed: "events_allowed plain_host (initial_requests (ex_form PRECISE_TIME)) ex_events"
  by code_simp

lemma ex_events_status: "rq_status (run_events plain_host (initial_requests (ex_form PRECISE_TIME)) ex_events) = PendingAdditional"
  by code_simp

lemma ex_form_simulations: "simulations_ok (ex_form PRECISE_TIME)"
  by code_simp

theorem requests_never_stuck_witness:
  "\<exists>n inputs s up down.
     (n, AwaitAlternatives inputs s) \<in> set (rq_tasks (run_events plain_host (initial_requests (ex_form PRECISE_TIME)) ex_events)) \<or>
     (n, CreateAlternatives inputs s up down) \<in> set (rq_tasks (run_events plain_host (initial_requests (ex_form PRECISE_TIME)) ex_events))"
proof -
  have "sh_initial plain_host = stdcmConfInitialState ''o'' ''d''" by (simp add: plain_host_def ex_host_def)
  from requests_never_stuck [OF run_history [OF request_history.start ex_events_allowed] this ex_form_simulations] ex_events_status
  show ?thesis by blast
qed

text \<open>A cancellation that comes while the properties of the alternative paths are read is overridden: the alternatives are added and
  the status becomes a success.\<close>

lemma cancellation_overridden:
  "let st = run_events plain_host (initial_requests (ex_form PRECISE_TIME)) (ex_events @ [Cancel 7, Created 0 ex_found 8]) in
   rq_cancelled st \<and> rq_status st = Success \<and> length (simulations (rq_conf st)) = 3"
  by code_simp

end
