(* ===== verification/SpaceTimeChart.thy ===== *)
theory SpaceTimeChart
  imports LazyLoader NgeImport
begin

text \<open>
  The space time chart of a scenario: \<open>front/src/modules/simulationResult/components/SpaceTimeChartWrapper/helpers\<close>
  (\<open>cutSpaceTimeCurves.ts\<close>, \<open>makeProjectedItems.ts\<close>, \<open>formatSpaceTimeCurves.ts\<close>, \<open>utils.ts\<close>, \<open>zones.ts\<close>, \<open>configureHandlePan.ts\<close>,
  \<open>createHandleTrainDrag.ts\<close>). Positions are in mm along the path, times in ms since the departure of the train.
\<close>

section \<open>Curves\<close>

record curve =
  cv_positions :: "num list"
  cv_times :: "num list"

record signal_update =
  su_signal_id :: string
  su_aspect_label :: string
  su_blinking :: bool
  su_position_start :: num
  su_position_end :: num
  su_time_start :: num
  su_time_end :: num

record layer_range =
  spaceStart :: num
  spaceEnd :: num
  timeStart :: num
  timeEnd :: num

type_synonym projection_data = "(curve, signal_update) train_space_time_data"

text \<open>The part of \<open>BaseTrainProjection\<close> that comes with every train, and an individual train or occurrence.\<close>

record individual_projection =
  ip_id :: string
  ip_name :: string
  ip_departureTime :: date
  ip_projection :: "(curve, signal_update) train_projection"
  ip_exception :: "paced_exception option"

section \<open>Cutting (cutSpaceTimeCurves.ts)\<close>

definition cut_start :: "num \<Rightarrow> layer_range \<Rightarrow> layer_range" where
  "cut_start minSpace r =
     (if spaceStart r < minSpace
      then let factor = (minSpace - spaceStart r) / (spaceEnd r - spaceStart r)
           in r\<lparr>spaceStart := minSpace, timeStart := timeStart r + (timeEnd r - timeStart r) * factor\<rparr>
      else r)"

definition cut_end :: "num \<Rightarrow> layer_range \<Rightarrow> layer_range" where
  "cut_end maxSpace r =
     (if spaceEnd r > maxSpace
      then let factor = (spaceEnd r - maxSpace) / (spaceEnd r - spaceStart r)
           in r\<lparr>spaceEnd := maxSpace, timeEnd := timeEnd r - (timeEnd r - timeStart r) * factor\<rparr>
      else r)"

definition cutSpaceTimeRect :: "layer_range \<Rightarrow> num \<Rightarrow> num \<Rightarrow> layer_range option" where
  "cutSpaceTimeRect r minSpace maxSpace =
     (if spaceEnd r \<le> minSpace \<or> spaceStart r \<ge> maxSpace then None
      else Some (cut_end maxSpace (cut_start minSpace r)))"

text \<open>The ranges between consecutive points of a curve, which has as many times as positions.\<close>

definition curve_range :: "curve \<Rightarrow> nat \<Rightarrow> layer_range" where
  "curve_range c i =
     \<lparr>spaceStart = cv_positions c ! (i - 1), spaceEnd = cv_positions c ! i, timeStart = cv_times c ! (i - 1), timeEnd = cv_times c ! i\<rparr>"

definition cut_step :: "num \<Rightarrow> num \<Rightarrow> curve \<Rightarrow> curve \<Rightarrow> nat \<Rightarrow> curve" where
  "cut_step firstPosition lastPosition c acc i =
     (case cutSpaceTimeRect (curve_range c i) firstPosition lastPosition of
        None \<Rightarrow> acc
      | Some r \<Rightarrow>
          (let acc1 = (if i = 1 \<or> cv_positions acc = []
                       then \<lparr>cv_positions = cv_positions acc @ [spaceStart r], cv_times = cv_times acc @ [timeStart r]\<rparr> else acc)
           in \<lparr>cv_positions = cv_positions acc1 @ [spaceEnd r], cv_times = cv_times acc1 @ [timeEnd r]\<rparr>))"

definition cut_curve :: "num \<Rightarrow> num \<Rightarrow> curve \<Rightarrow> curve" where
  "cut_curve firstPosition lastPosition c =
     foldl (cut_step firstPosition lastPosition c) \<lparr>cv_positions = [], cv_times = []\<rparr> [1..<length (cv_positions c)]"

definition cut_signal :: "num \<Rightarrow> num \<Rightarrow> signal_update \<Rightarrow> signal_update option" where
  "cut_signal firstPosition lastPosition s =
     map_option (\<lambda>r. s\<lparr>su_position_start := spaceStart r, su_position_end := spaceEnd r, su_time_start := timeStart r, su_time_end := timeEnd r\<rparr>)
       (cutSpaceTimeRect \<lparr>spaceStart = su_position_start s, spaceEnd = su_position_end s, timeStart = su_time_start s, timeEnd = su_time_end s\<rparr>
          firstPosition lastPosition)"

definition cut_train :: "num \<Rightarrow> num \<Rightarrow> individual_projection \<Rightarrow> individual_projection" where
  "cut_train firstPosition lastPosition train =
     train\<lparr>ip_projection := (ip_projection train)
             \<lparr>pr_curves := map (cut_curve firstPosition lastPosition) (pr_curves (ip_projection train)),
              pr_signal_updates := List.map_filter (cut_signal firstPosition lastPosition) (pr_signal_updates (ip_projection train))\<rparr>\<rparr>"

text \<open>The operational points and the filtered waypoints are given by their positions.\<close>

definition cutSpaceTimeCurves ::
  "individual_projection list \<Rightarrow> layer_range list \<Rightarrow> num list \<Rightarrow> num list option \<Rightarrow> individual_projection list \<times> layer_range list" where
  "cutSpaceTimeCurves projectedTrains conflicts operationalPoints filteredWaypoints =
     (case filteredWaypoints of
        None \<Rightarrow> (projectedTrains, conflicts)
      | Some waypoints \<Rightarrow>
          if length waypoints < 2 \<or> length operationalPoints < 2 then (projectedTrains, conflicts)
          else
            let firstPosition = hd waypoints; lastPosition = last waypoints in
            if firstPosition = 0 \<and> lastPosition = last operationalPoints then (projectedTrains, conflicts)
            else (map (cut_train firstPosition lastPosition) projectedTrains,
                  List.map_filter (\<lambda>c. cutSpaceTimeRect c firstPosition lastPosition) conflicts))"

section \<open>Individual trains (makeProjectedItems.ts)\<close>

definition indexed_item :: "(string \<Rightarrow> date) \<Rightarrow> projection_data \<Rightarrow> (curve, signal_update) projected_paced \<Rightarrow> int \<Rightarrow>
  individual_projection list result" where
  "indexed_item parseDate item paced i =
     bind_result (formatPacedTrainIdToIndexedOccurrenceId (formatEditoastIdToPacedTrainId (of_int (sp_id item))) (of_int i)) (\<lambda>occurrenceId.
     bind_result (findExceptionWithOccurrenceId (pp_exceptions paced) occurrenceId) (\<lambda>correspondingException.
       let regular = computeIndexedOccurrenceStartTime (sp_departureTime item) (pp_interval paced) i in
       case correspondingException of
         None \<Rightarrow>
           Inr [\<lparr>ip_id = occurrenceId, ip_name = computeOccurrenceName (sp_name item) (of_int i), ip_departureTime = regular,
                 ip_projection = sp_projection item, ip_exception = None\<rparr>]
       | Some e \<Rightarrow>
           if ex_disabled e = Some True then Inr []
           else Inr [\<lparr>ip_id = occurrenceId,
                      ip_name = (case cg_train_name e of Some n \<Rightarrow> n | None \<Rightarrow> computeOccurrenceName (sp_name item) (of_int i)),
                      ip_departureTime = (case cg_start_time e of Some t \<Rightarrow> parseDate t | None \<Rightarrow> regular),
                      ip_projection = (case map_of (pp_exceptionProjections paced) (ex_key e) of Some p \<Rightarrow> p | None \<Rightarrow> sp_projection item),
                      ip_exception = Some e\<rparr>]))"

definition added_item :: "(string \<Rightarrow> date) \<Rightarrow> projection_data \<Rightarrow> (curve, signal_update) projected_paced \<Rightarrow> paced_exception \<Rightarrow>
  individual_projection list result" where
  "added_item parseDate item paced e =
     (if ex_occurrence_index e \<noteq> None \<or> ex_disabled e = Some True then Inr []
      else case cg_start_time e of
             None \<Rightarrow> Inl (JSError ''added exception should have a start time'')
           | Some t \<Rightarrow>
               Inr [\<lparr>ip_id = formatEditoastIdToExceptionId (of_int (sp_id item)) (ex_key e),
                     ip_name = (case cg_train_name e of Some n \<Rightarrow> n | None \<Rightarrow> sp_name item @ ''/+''),
                     ip_departureTime = parseDate t,
                     ip_projection = (case map_of (pp_exceptionProjections paced) (ex_key e) of Some p \<Rightarrow> p | None \<Rightarrow> sp_projection item),
                     ip_exception = Some e\<rparr>])"

definition projected_items :: "(string \<Rightarrow> date) \<Rightarrow> projection_data \<Rightarrow> individual_projection list result" where
  "projected_items parseDate item =
     (case sp_paced item of
        None \<Rightarrow>
          Inr [\<lparr>ip_id = formatEditoastIdToPacedTrainId (of_int (sp_id item)), ip_name = sp_name item,
                ip_departureTime = sp_departureTime item, ip_projection = sp_projection item, ip_exception = None\<rparr>]
      | Some paced \<Rightarrow>
          bind_result (getOccurrencesNb (pp_timeWindow paced) (pp_interval paced)) (\<lambda>occurrencesCount.
          bind_result (map_result (indexed_item parseDate item paced) (map int [0..<nat occurrencesCount])) (\<lambda>indexed.
          bind_result (map_result (added_item parseDate item paced) (pp_exceptions paced)) (\<lambda>added.
            Inr (concat indexed @ concat added)))))"

definition makeProjectedItems :: "(string \<Rightarrow> date) \<Rightarrow> projection_data list \<Rightarrow> individual_projection list result" where
  "makeProjectedItems parseDate timetableItemProjections =
     bind_result (map_result (projected_items parseDate) timetableItemProjections) (\<lambda>xss. Inr (concat xss))"

section \<open>Drawing (formatSpaceTimeCurves.ts, utils.ts)\<close>

record category_colors =
  cc_normal :: string
  cc_hovered :: string
  cc_background :: string

definition colors :: "string \<Rightarrow> string \<Rightarrow> string \<Rightarrow> category_colors" where
  "colors n h b = \<lparr>cc_normal = n, cc_hovered = h, cc_background = b\<rparr>"

definition DEFAULT_TRAIN_PATH_COLORS :: category_colors where
  "DEFAULT_TRAIN_PATH_COLORS = colors ''#797671'' ''#494641'' ''#EBEBEA''"

fun TRAIN_MAIN_CATEGORY_PATH_COLORS :: "main_category \<Rightarrow> category_colors" where
  "TRAIN_MAIN_CATEGORY_PATH_COLORS HIGH_SPEED_TRAIN = colors ''#E5221A'' ''#912420'' ''#FAE7E6''"
| "TRAIN_MAIN_CATEGORY_PATH_COLORS INTERCITY_TRAIN = colors ''#B2539E'' ''#732963'' ''#FAE6F6''"
| "TRAIN_MAIN_CATEGORY_PATH_COLORS REGIONAL_TRAIN = colors ''#C75300'' ''#803500'' ''#FFE7D6''"
| "TRAIN_MAIN_CATEGORY_PATH_COLORS NIGHT_TRAIN = colors ''#8757E6'' ''#58318F'' ''#E5E7FF''"
| "TRAIN_MAIN_CATEGORY_PATH_COLORS COMMUTER_TRAIN = colors ''#127DB8'' ''#165070'' ''#D9F2FF''"
| "TRAIN_MAIN_CATEGORY_PATH_COLORS FREIGHT_TRAIN = colors ''#54823B'' ''#2C4F19'' ''#E4EDDF''"
| "TRAIN_MAIN_CATEGORY_PATH_COLORS FAST_FREIGHT_TRAIN = colors ''#13857B'' ''#085953'' ''#DAF7EE''"
| "TRAIN_MAIN_CATEGORY_PATH_COLORS TRAM_TRAIN = colors ''#687C5C'' ''#444D3C'' ''#E1EDD8''"
| "TRAIN_MAIN_CATEGORY_PATH_COLORS TOURISTIC_TRAIN = colors ''#8A714B'' ''#594525'' ''#EEE7D9''"
| "TRAIN_MAIN_CATEGORY_PATH_COLORS WORK_TRAIN = colors ''#996E00'' ''#634A00'' ''#FCEEC2''"

text \<open>The category and the exceptions of a train with details, by the number of the train. A number that is not an integer is
  the key of no train.\<close>

type_synonym item_details = "(int \<times> train_category option \<times> paced_exception list option) list"

definition getTrainCategory :: "item_details \<Rightarrow> string \<Rightarrow> train_category option result" where
  "getTrainCategory itemsById trainId =
     bind_result (if isOccurrenceId trainId then extractPacedTrainIdFromOccurrenceId trainId else Inr trainId) (\<lambda>pacedTrainId.
     bind_result (extractEditoastIdFromPacedTrainId pacedTrainId) (\<lambda>timetableItemId.
       case (if timetableItemId = of_int \<lfloor>timetableItemId\<rfloor> then map_of itemsById \<lfloor>timetableItemId\<rfloor> else None) of
         None \<Rightarrow> Inr None
       | Some (category, None) \<Rightarrow> Inr category
       | Some (category, Some exceptions) \<Rightarrow>
           if \<not> isOccurrenceId trainId then Inr category
           else bind_result (findExceptionWithOccurrenceId exceptions trainId) (\<lambda>exception.
                  Inr (case Option.bind (Option.bind exception cg_rolling_stock_category) id of None \<Rightarrow> category | Some c \<Rightarrow> Some c))))"

record sub_category =
  sb_code :: string
  sb_colors :: category_colors

definition train_colors :: "sub_category list \<Rightarrow> train_category option \<Rightarrow> category_colors" where
  "train_colors subCategories category =
     (case category of
        None \<Rightarrow> DEFAULT_TRAIN_PATH_COLORS
      | Some (MainCategory m) \<Rightarrow> TRAIN_MAIN_CATEGORY_PATH_COLORS m
      | Some (SubCategory code) \<Rightarrow>
          (case find (\<lambda>option1. sb_code option1 = code) subCategories of
             None \<Rightarrow> DEFAULT_TRAIN_PATH_COLORS
           | Some s \<Rightarrow> sb_colors s))"

record path_data =
  pd_id :: string
  pd_label :: string
  pd_colors :: category_colors
  pd_points :: "(num \<times> num) list"

text \<open>The points of a curve, time first; there are as many times as positions.\<close>

definition curve_points :: "date \<Rightarrow> curve \<Rightarrow> (num \<times> num) list" where
  "curve_points departureTime c = map (\<lambda>(p, t). (t + of_int departureTime, p)) (zip (cv_positions c) (cv_times c))"

definition formatSpaceTimeCurves :: "sub_category list \<Rightarrow> individual_projection list \<Rightarrow> item_details \<Rightarrow> path_data list result" where
  "formatSpaceTimeCurves subCategories trains itemsById =
     bind_result
       (map_result (\<lambda>train.
          bind_result (getTrainCategory itemsById (ip_id train)) (\<lambda>category.
            Inr (map (\<lambda>c. \<lparr>pd_id = ip_id train, pd_label = ip_name train, pd_colors = train_colors subCategories category,
                           pd_points = curve_points (ip_departureTime train) c\<rparr>) (pr_curves (ip_projection train))))) trains)
       (\<lambda>xss. Inr (concat xss))"

definition FREE :: string where "FREE = ''#CAEDDB''"
definition SEMAPHORE :: string where "SEMAPHORE = ''#FFD4D8''"
definition WARNING :: string where "WARNING = ''#FFEABF''"
definition GREY :: string where "GREY = ''#D3D1CF''"

definition ASPECT_LABELS_COLORS :: "string obj" where
  "ASPECT_LABELS_COLORS =
     [(''VL'', FREE), (''300VL'', FREE), (''S'', SEMAPHORE), (''OCCUPIED'', SEMAPHORE), (''C'', SEMAPHORE), (''RRR'', SEMAPHORE),
      (''(A)'', WARNING), (''A'', WARNING), (''300(VL)'', GREY), (''270A'', GREY), (''220A'', GREY), (''160A'', GREY), (''080A'', GREY), (''000'', GREY)]"

record occupancy_block = layer_range +
  ob_color :: "string option"
  ob_blinking :: bool

definition getOccupancyBlocks :: "individual_projection list \<Rightarrow> occupancy_block list" where
  "getOccupancyBlocks trains =
     concat (map (\<lambda>train. map (\<lambda>block.
       \<lparr>spaceStart = su_position_start block, spaceEnd = su_position_end block,
        timeStart = of_int (ip_departureTime train) + su_time_start block, timeEnd = of_int (ip_departureTime train) + su_time_end block,
        ob_color = obj_get ASPECT_LABELS_COLORS (su_aspect_label block), ob_blinking = su_blinking block\<rparr>)
       (pr_signal_updates (ip_projection train))) trains)"

section \<open>Occupancy zones (zones.ts)\<close>

text \<open>The binary search for the interval of a time, on indices of the list.\<close>

function search_interval :: "num list \<Rightarrow> num \<Rightarrow> nat \<Rightarrow> nat \<Rightarrow> nat \<times> nat" where
  "search_interval ts time left right =
     (if left + 1 < right
      then let mid = (left + right) div 2
           in if ts ! mid \<le> time then search_interval ts time mid right else search_interval ts time left mid
      else (left, right))"
  by pat_completeness auto
termination
  by (relation "measure (\<lambda>(ts, time, left, right). right - left)") auto

declare search_interval.simps [simp del]

definition interpolate :: "curve \<Rightarrow> num \<Rightarrow> num" where
  "interpolate c time =
     (let (left, right) = search_interval (cv_times c) time 0 (length (cv_times c) - 1);
          t1 = cv_times c ! left; t2 = cv_times c ! right; p1 = cv_positions c ! left; p2 = cv_positions c ! right
      in if t1 = time then p1 else if t2 = time then p2
         else p1 + (time - t1) / (t2 - t1) * (p2 - p1))"

text \<open>Comparisons with the missing times of an empty curve are false, and the position would not be a number.\<close>

fun getTimeToPosition :: "curve list \<Rightarrow> num \<Rightarrow> num option result" where
  "getTimeToPosition [] time = Inr None"
| "getTimeToPosition (c # cs) time =
     (if cv_times c = [] then Inl OutOfModel
      else if time < hd (cv_times c) \<or> time > last (cv_times c) then getTimeToPosition cs time
      else Inr (Some (interpolate c time)))"

datatype direction = Up | Down

record occupancy_zone =
  oz_trackId :: string
  oz_trainId :: string
  oz_startTime :: int
  oz_startDirection :: "direction option"
  oz_endTime :: int
  oz_endDirection :: "direction option"
  oz_trainName :: string
  oz_dbStartTime :: int
  oz_dbEndTime :: int
  oz_isStartTimeException :: bool

definition EPSILON :: num where "EPSILON = 1 / 100000"

definition arrival_direction :: "num option \<Rightarrow> num option \<Rightarrow> direction option" where
  "arrival_direction bef position =
     (case (bef, position) of
        (Some b, Some p) \<Rightarrow> if b < p then Some Up else if b > p then Some Down else None
      | _ \<Rightarrow> None)"

definition departure_direction :: "num option \<Rightarrow> num option \<Rightarrow> direction option" where
  "departure_direction aft position =
     (case (aft, position) of
        (Some a, Some p) \<Rightarrow> if a < p then Some Up else if a > p then Some Down else None
      | _ \<Rightarrow> None)"

definition getMovableOccupancyZone ::
  "(string \<Rightarrow> date) \<Rightarrow> (string \<Rightarrow> duration) \<Rightarrow> string \<Rightarrow> string \<Rightarrow> string \<times> string \<Rightarrow> curve list \<Rightarrow> string \<Rightarrow> date \<Rightarrow>
   paced_exception option \<Rightarrow> occupancy_zone result" where
  "getMovableOccupancyZone parseDate parse trackId trainId occupation spaceTimeCurves trainName departureTime exception =
     (let start = parseDate (fst occupation); stop = start + dur_ms (parse (snd occupation));
          startOffset = of_int (start - departureTime); stopOffset = of_int (stop - departureTime) in
      bind_result (getTimeToPosition spaceTimeCurves startOffset) (\<lambda>startPosition.
      bind_result (getTimeToPosition spaceTimeCurves (startOffset - EPSILON)) (\<lambda>beforeStartPosition.
      bind_result (getTimeToPosition spaceTimeCurves stopOffset) (\<lambda>endPosition.
      bind_result (getTimeToPosition spaceTimeCurves (stopOffset + EPSILON)) (\<lambda>afterEndPosition.
        Inr \<lparr>oz_trackId = trackId, oz_trainId = trainId, oz_startTime = start,
             oz_startDirection = arrival_direction beforeStartPosition startPosition,
             oz_endTime = stop, oz_endDirection = departure_direction afterEndPosition endPosition, oz_trainName = trainName,
             oz_dbStartTime = start, oz_dbEndTime = stop,
             oz_isStartTimeException = (Option.bind exception cg_start_time \<noteq> None)\<rparr>)))))"

section \<open>Dragging a train (configureHandlePan.ts, createHandleTrainDrag.ts)\<close>

text \<open>What the chart asks of its environment: to pan, to select a train, to move the occupancy zones of a train, and to save a
  departure time.\<close>

datatype chart_call =
    PanChart
  | SelectTrain string
  | MoveZones string date bool
  | SaveDeparture int date

record pan_payload =
  pn_isPanning :: bool
  pn_time :: num
  pn_initialTime :: num

record chart_state =
  ch_dragging :: "(individual_projection \<times> date) option"
  ch_previousPanning :: bool
  ch_projections :: "projection_data list"
  ch_selected :: "string option"
  ch_calls :: "chart_call list"

definition call :: "chart_call \<Rightarrow> chart_state \<Rightarrow> chart_state" where
  "call c st = st\<lparr>ch_calls := ch_calls st @ [c]\<rparr>"

definition item_number :: "string \<Rightarrow> num result" where
  "item_number trainId =
     bind_result (if isOccurrenceId trainId then extractPacedTrainIdFromOccurrenceId trainId else Inr trainId)
       extractEditoastIdFromPacedTrainId"

definition handleTrainDrag :: "string \<Rightarrow> date \<Rightarrow> bool \<Rightarrow> chart_state \<Rightarrow> chart_state result" where
  "handleTrainDrag draggedTrainId newDepartureTime stopPanning st =
     bind_result (item_number draggedTrainId) (\<lambda>draggedItemId.
       case find (\<lambda>train. of_int (sp_id train) = draggedItemId) (ch_projections st) of
         None \<Rightarrow> Inr st
       | Some draggedTrain \<Rightarrow>
           let newTrainData = draggedTrain\<lparr>sp_departureTime := newDepartureTime\<rparr>;
               st1 = call (MoveZones draggedTrainId newDepartureTime False) st in
           if \<not> stopPanning
           then Inr (st1\<lparr>ch_projections :=
                  map (\<lambda>train. if of_int (sp_id train) = draggedItemId then newTrainData else train) (ch_projections st)\<rparr>)
           else Inr (call (MoveZones draggedTrainId newDepartureTime True) (call (SaveDeparture (sp_id draggedTrain) newDepartureTime) st1)))"

definition isIndividualOccurrenceProjection :: "individual_projection \<Rightarrow> bool" where
  "isIndividualOccurrenceProjection train = isOccurrenceId (ip_id train)"

text \<open>The departure time of the train or of its first occurrence.\<close>

definition dragged_departure :: "projection_data list \<Rightarrow> individual_projection \<Rightarrow> date \<Rightarrow> date result" where
  "dragged_departure projections draggedTrain newDepartureTime =
     (if isIndividualOccurrenceProjection draggedTrain \<and> Option.bind (ip_exception draggedTrain) cg_start_time = None then
        bind_result (extractOccurrenceIndexFromOccurrenceId (ip_id draggedTrain)) (\<lambda>occurrencesIndex.
        bind_result (item_number (ip_id draggedTrain)) (\<lambda>pacedTrainId.
          Inr (case Option.bind (find (\<lambda>train. of_int (sp_id train) = pacedTrainId) projections) sp_paced of
                 None \<Rightarrow> newDepartureTime
               | Some paced \<Rightarrow>
                   subtractDurationFromDate newDepartureTime
                     (new_duration 0 0 0 (js_trunc (occurrencesIndex * of_int (dur_ms (pp_interval paced))))))))
      else Inr newDepartureTime)"

text \<open>The handler of the movements of the mouse on the chart, when trains can be dragged. The hovered element is the identifier
  of a path, if it is a point or a segment of one.\<close>

definition handlePan ::
  "individual_projection list \<Rightarrow> bool \<Rightarrow> string option \<Rightarrow> pan_payload \<Rightarrow> chart_state \<Rightarrow> chart_state result" where
  "handlePan projectedTrains zoomMode hoveredPath payload st =
     (let pan = (\<lambda>s. (call PanChart s)\<lparr>ch_previousPanning := pn_isPanning payload\<rparr>) in
      case ch_dragging st of
        Some (draggedTrain, initialDepartureTime) \<Rightarrow>
          (let st1 = (if ch_selected st \<noteq> Some (ip_id draggedTrain)
                      then (call (SelectTrain (ip_id draggedTrain)) st)\<lparr>ch_selected := Some (ip_id draggedTrain)\<rparr> else st);
               timeDiff = pn_time payload - pn_initialTime payload in
           bind_result (dragged_departure (ch_projections st) draggedTrain (js_trunc (of_int initialDepartureTime + timeDiff)))
             (\<lambda>newDepartureTime.
               handleTrainDrag (ip_id draggedTrain) newDepartureTime (\<not> pn_isPanning payload)
                 (if pn_isPanning payload then st1 else st1\<lparr>ch_dragging := None\<rparr>)))
      | None \<Rightarrow>
          if pn_isPanning payload \<and> \<not> ch_previousPanning st \<and> \<not> zoomMode \<and> hoveredPath \<noteq> None then
            (if \<not> isTrainId (the hoveredPath) then Inr st
             else case find (\<lambda>train. ip_id train = the hoveredPath) projectedTrains of
                    None \<Rightarrow> Inr st
                  | Some train \<Rightarrow>
                      if isIndividualOccurrenceProjection train \<and> Option.bind (ip_exception train) cg_start_time \<noteq> None then Inr st
                      else Inr (pan (st\<lparr>ch_dragging := Some (train, ip_departureTime train)\<rparr>)))
          else Inr (pan st))"

end
