(* ===== verification/SpaceTimeChartProperties.thy ===== *)
theory SpaceTimeChartProperties
  imports SpaceTimeChart PacedTrainProperties
begin

text \<open>
  Properties of the space time chart: cutting a curve is restricting it to the visible positions, the search for a position finds a
  point of the curve, the trains drawn are the occurrences that are not disabled, and a dragged train follows the mouse.
\<close>

section \<open>Cutting\<close>

definition on_range :: "layer_range \<Rightarrow> num \<times> num \<Rightarrow> bool" where
  "on_range r q \<longleftrightarrow>
     (\<exists>l. 0 \<le> l \<and> l \<le> 1 \<and> fst q = spaceStart r + l * (spaceEnd r - spaceStart r) \<and> snd q = timeStart r + l * (timeEnd r - timeStart r))"

definition on_curve :: "curve \<Rightarrow> num \<times> num \<Rightarrow> bool" where
  "on_curve c q \<longleftrightarrow> (\<exists>i. 1 \<le> i \<and> i < length (cv_positions c) \<and> on_range (curve_range c i) q)"

text \<open>The part of a range between two of its points.\<close>

lemma on_subrange:
  assumes a: "0 \<le> a" "a \<le> b" "b \<le> 1"
    and s: "spaceStart r' = spaceStart r + a * (spaceEnd r - spaceStart r)" "timeStart r' = timeStart r + a * (timeEnd r - timeStart r)"
      "spaceEnd r' = spaceStart r + b * (spaceEnd r - spaceStart r)" "timeEnd r' = timeStart r + b * (timeEnd r - timeStart r)"
  shows "on_range r' q \<longleftrightarrow>
    (\<exists>l. a \<le> l \<and> l \<le> b \<and> fst q = spaceStart r + l * (spaceEnd r - spaceStart r) \<and> snd q = timeStart r + l * (timeEnd r - timeStart r))"
proof
  assume "on_range r' q"
  then obtain l where l: "0 \<le> l" "l \<le> 1" and q: "fst q = spaceStart r' + l * (spaceEnd r' - spaceStart r')"
    "snd q = timeStart r' + l * (timeEnd r' - timeStart r')" unfolding on_range_def by blast
  let ?l = "a + l * (b - a)"
  have "0 \<le> l * (b - a)" using l a by simp
  moreover have "l * (b - a) \<le> 1 * (b - a)" using l a by (intro mult_right_mono) simp_all
  ultimately have "a \<le> ?l" "?l \<le> b" by simp_all
  moreover have "fst q = spaceStart r + ?l * (spaceEnd r - spaceStart r)" "snd q = timeStart r + ?l * (timeEnd r - timeStart r)"
    unfolding q s by (simp_all add: algebra_simps)
  ultimately show "\<exists>l. a \<le> l \<and> l \<le> b \<and> fst q = spaceStart r + l * (spaceEnd r - spaceStart r) \<and>
      snd q = timeStart r + l * (timeEnd r - timeStart r)" by blast
next
  assume "\<exists>l. a \<le> l \<and> l \<le> b \<and> fst q = spaceStart r + l * (spaceEnd r - spaceStart r) \<and> snd q = timeStart r + l * (timeEnd r - timeStart r)"
  then obtain l where l: "a \<le> l" "l \<le> b" and q: "fst q = spaceStart r + l * (spaceEnd r - spaceStart r)"
    "snd q = timeStart r + l * (timeEnd r - timeStart r)" by blast
  show "on_range r' q"
  proof (cases "a = b")
    case True
    with l have "l = a" by simp
    with q s show ?thesis unfolding on_range_def by (intro exI [of _ 0]) simp
  next
    case False
    with a have ab: "0 < b - a" by simp
    let ?k = "(l - a) / (b - a)"
    have k: "?k * (b - a) = l - a" using ab by simp
    have "0 \<le> ?k" "?k \<le> 1" using l ab by simp_all
    moreover have "fst q = spaceStart r' + ?k * (spaceEnd r' - spaceStart r')"
    proof -
      have "spaceEnd r' - spaceStart r' = (b - a) * (spaceEnd r - spaceStart r)" unfolding s by (simp add: algebra_simps)
      then have "?k * (spaceEnd r' - spaceStart r') = (?k * (b - a)) * (spaceEnd r - spaceStart r)" by simp
      also have "\<dots> = (l - a) * (spaceEnd r - spaceStart r)" by (simp only: k)
      finally show ?thesis unfolding q s(1) by (simp add: algebra_simps)
    qed
    moreover have "snd q = timeStart r' + ?k * (timeEnd r' - timeStart r')"
    proof -
      have "timeEnd r' - timeStart r' = (b - a) * (timeEnd r - timeStart r)" unfolding s by (simp add: algebra_simps)
      then have "?k * (timeEnd r' - timeStart r') = (?k * (b - a)) * (timeEnd r - timeStart r)" by simp
      also have "\<dots> = (l - a) * (timeEnd r - timeStart r)" by (simp only: k)
      finally show ?thesis unfolding q s(2) by (simp add: algebra_simps)
    qed
    ultimately show ?thesis unfolding on_range_def by blast
  qed
qed

lemma on_cut_start:
  assumes "spaceStart r \<le> spaceEnd r" "m < spaceEnd r"
  shows "on_range (cut_start m r) q \<longleftrightarrow> on_range r q \<and> m \<le> fst q"
proof (cases "spaceStart r < m")
  case True
  define f where "f = (m - spaceStart r) / (spaceEnd r - spaceStart r)"
  have d: "0 < spaceEnd r - spaceStart r" using True assms by simp
  have f: "0 \<le> f" "f \<le> 1" "f * (spaceEnd r - spaceStart r) = m - spaceStart r" using True assms d by (simp_all add: f_def)
  have "on_range (cut_start m r) q \<longleftrightarrow>
      (\<exists>l. f \<le> l \<and> l \<le> 1 \<and> fst q = spaceStart r + l * (spaceEnd r - spaceStart r) \<and> snd q = timeStart r + l * (timeEnd r - timeStart r))"
    by (rule on_subrange) (use f True in \<open>simp_all add: cut_start_def Let_def f_def [symmetric] mult.commute\<close>)
  also have "\<dots> \<longleftrightarrow> on_range r q \<and> m \<le> fst q"
  proof -
    have "f \<le> l \<longleftrightarrow> m \<le> spaceStart r + l * (spaceEnd r - spaceStart r)" for l
    proof -
      have "f \<le> l \<longleftrightarrow> f * (spaceEnd r - spaceStart r) \<le> l * (spaceEnd r - spaceStart r)" using d by simp
      then show ?thesis unfolding f(3) by linarith
    qed
    moreover have "0 \<le> l" if "f \<le> l" for l using that f(1) by simp
    ultimately show ?thesis unfolding on_range_def by metis
  qed
  finally show ?thesis .
next
  case False
  have "m \<le> fst q" if "on_range r q"
  proof -
    from that obtain l where "0 \<le> l" "fst q = spaceStart r + l * (spaceEnd r - spaceStart r)" unfolding on_range_def by blast
    moreover have "0 \<le> l * (spaceEnd r - spaceStart r)" using \<open>0 \<le> l\<close> assms(1) by simp
    ultimately show ?thesis using False by simp
  qed
  with False show ?thesis by (auto simp: cut_start_def)
qed

lemma on_cut_end:
  assumes "spaceStart r \<le> spaceEnd r" "spaceStart r < M"
  shows "on_range (cut_end M r) q \<longleftrightarrow> on_range r q \<and> fst q \<le> M"
proof (cases "spaceEnd r > M")
  case True
  define g where "g = (spaceEnd r - M) / (spaceEnd r - spaceStart r)"
  have d: "0 < spaceEnd r - spaceStart r" using True assms by simp
  have g: "0 \<le> g" "g \<le> 1" "g * (spaceEnd r - spaceStart r) = spaceEnd r - M" using True assms d by (simp_all add: g_def)
  have "on_range (cut_end M r) q \<longleftrightarrow>
      (\<exists>l. 0 \<le> l \<and> l \<le> 1 - g \<and> fst q = spaceStart r + l * (spaceEnd r - spaceStart r) \<and> snd q = timeStart r + l * (timeEnd r - timeStart r))"
    by (rule on_subrange) (use g True in \<open>simp_all add: cut_end_def Let_def g_def [symmetric] algebra_simps\<close>)
  also have "\<dots> \<longleftrightarrow> on_range r q \<and> fst q \<le> M"
  proof -
    have "l \<le> 1 - g \<longleftrightarrow> spaceStart r + l * (spaceEnd r - spaceStart r) \<le> M" for l
    proof -
      have "l \<le> 1 - g \<longleftrightarrow> l * (spaceEnd r - spaceStart r) \<le> (1 - g) * (spaceEnd r - spaceStart r)" using d by simp
      also have "\<dots> \<longleftrightarrow> l * (spaceEnd r - spaceStart r) \<le> (spaceEnd r - spaceStart r) - g * (spaceEnd r - spaceStart r)" by (simp add: algebra_simps)
      finally show ?thesis unfolding g(3) by linarith
    qed
    moreover have "l \<le> 1" if "l \<le> 1 - g" for l using that g(1) by simp
    ultimately show ?thesis unfolding on_range_def by metis
  qed
  finally show ?thesis .
next
  case False
  have "fst q \<le> M" if "on_range r q"
  proof -
    from that obtain l where l: "l \<le> 1" "fst q = spaceStart r + l * (spaceEnd r - spaceStart r)" unfolding on_range_def by blast
    have "l * (spaceEnd r - spaceStart r) \<le> 1 * (spaceEnd r - spaceStart r)" using l(1) assms(1) by (intro mult_right_mono) simp_all
    with l(2) False show ?thesis by simp
  qed
  with False show ?thesis by (auto simp: cut_end_def)
qed

lemma cut_start_space: "spaceStart (cut_start m r) = max m (spaceStart r)" "spaceEnd (cut_start m r) = spaceEnd r"
  "timeEnd (cut_start m r) = timeEnd r"
  by (auto simp: cut_start_def Let_def max_def)

lemma cut_end_start: "spaceStart (cut_end M r) = spaceStart r" "timeStart (cut_end M r) = timeStart r"
  by (auto simp: cut_end_def Let_def)

lemma cut_rect_range:
  assumes "spaceStart r \<le> spaceEnd r" "m < M" "cutSpaceTimeRect r m M = Some r'"
  shows "on_range r' q \<longleftrightarrow> on_range r q \<and> m \<le> fst q \<and> fst q \<le> M"
proof -
  from assms(3) have k: "m < spaceEnd r" "spaceStart r < M" and r': "r' = cut_end M (cut_start m r)"
    by (auto simp: cutSpaceTimeRect_def split: if_splits)
  have "on_range r' q \<longleftrightarrow> on_range (cut_start m r) q \<and> fst q \<le> M"
    unfolding r' using assms(1,2) k by (intro on_cut_end) (auto simp: cut_start_space)
  with on_cut_start [OF assms(1) k(1), of q] show ?thesis by blast
qed

lemma cut_rect_none:
  assumes "spaceStart r \<le> spaceEnd r" "cutSpaceTimeRect r m M = None" "on_range r q"
  shows "fst q \<le> m \<or> M \<le> fst q"
proof -
  from assms(3) obtain l where l: "0 \<le> l" "l \<le> 1" "fst q = spaceStart r + l * (spaceEnd r - spaceStart r)" unfolding on_range_def by blast
  have "0 \<le> l * (spaceEnd r - spaceStart r)" "l * (spaceEnd r - spaceStart r) \<le> 1 * (spaceEnd r - spaceStart r)"
    using l(1,2) assms(1) by (simp, intro mult_right_mono) simp_all
  with l(3) assms(2) show ?thesis by (auto simp: cutSpaceTimeRect_def split: if_splits)
qed

text \<open>The ranges that are kept, up to a point of the curve, and the curve that is made of them.\<close>

definition kept :: "num \<Rightarrow> num \<Rightarrow> curve \<Rightarrow> nat \<Rightarrow> layer_range list" where
  "kept m M c k = List.map_filter (\<lambda>i. cutSpaceTimeRect (curve_range c i) m M) [1..<k]"

definition assembled :: "layer_range list \<Rightarrow> curve" where
  "assembled R =
     (if R = [] then \<lparr>cv_positions = [], cv_times = []\<rparr>
      else \<lparr>cv_positions = spaceStart (hd R) # map spaceEnd R, cv_times = timeStart (hd R) # map timeEnd R\<rparr>)"

lemma kept_Suc: "1 \<le> k \<Longrightarrow> kept m M c (Suc k) =
    kept m M c k @ (case cutSpaceTimeRect (curve_range c k) m M of None \<Rightarrow> [] | Some r \<Rightarrow> [r])"
  by (auto simp: kept_def map_filter_def split: option.split)

lemma kept_start [simp]: "kept m M c (Suc 0) = []"
  by (simp add: kept_def map_filter_simps)

lemma cut_fold: "1 \<le> k \<Longrightarrow> foldl (cut_step m M c) \<lparr>cv_positions = [], cv_times = []\<rparr> [1..<k] = assembled (kept m M c k)"
proof (induction k rule: nat_induct_at_least)
  case base
  then show ?case by (simp add: assembled_def)
next
  case (Suc k)
  have "foldl (cut_step m M c) \<lparr>cv_positions = [], cv_times = []\<rparr> [1..<Suc k] = cut_step m M c (assembled (kept m M c k)) k"
    using Suc by simp
  also have "\<dots> = assembled (kept m M c (Suc k))"
  proof -
    have "kept m M c k = []" if "k = 1" using that by simp
    then show ?thesis unfolding kept_Suc [OF Suc.hyps]
      by (cases "cutSpaceTimeRect (curve_range c k) m M") (auto simp: cut_step_def assembled_def Let_def)
  qed
  finally show ?case .
qed

text \<open>On a curve that goes forward, the kept ranges follow each other without a gap.\<close>

definition joined :: "layer_range \<Rightarrow> layer_range \<Rightarrow> bool" where
  "joined a b \<longleftrightarrow> spaceEnd a = spaceStart b \<and> timeEnd a = timeStart b"

lemma kept_bounds: "cutSpaceTimeRect r m M = Some r' \<Longrightarrow> m < spaceEnd r \<and> spaceStart r < M"
  by (auto simp: cutSpaceTimeRect_def split: if_splits)

lemma kept_end:
  assumes "cutSpaceTimeRect r m M = Some r'" "spaceEnd r < M"
  shows "spaceEnd r' = spaceEnd r" "timeEnd r' = timeEnd r"
  using assms by (auto simp: cutSpaceTimeRect_def cut_end_def cut_start_space split: if_splits)

lemma kept_begin:
  assumes "cutSpaceTimeRect r m M = Some r'" "m \<le> spaceStart r"
  shows "spaceStart r' = spaceStart r" "timeStart r' = timeStart r"
  using assms by (auto simp: cutSpaceTimeRect_def cut_end_start cut_start_def split: if_splits)

lemma kept_joined:
  assumes mono: "sorted (cv_positions c)" and "1 \<le> k" "k \<le> length (cv_positions c)"
  shows "successively joined (kept m M c k) \<and>
    (kept m M c k \<noteq> [] \<longrightarrow> 2 \<le> k \<and> cutSpaceTimeRect (curve_range c (k - 1)) m M = Some (last (kept m M c k)) \<or> M \<le> cv_positions c ! (k - 1))"
  using assms(2,3)
proof (induction k rule: nat_induct_at_least)
  case (Suc k)
  let ?R = "kept m M c k" and ?p = "cv_positions c ! (k - 1)" and ?r = "curve_range c k"
  have r: "spaceStart ?r = ?p" "spaceEnd ?r = cv_positions c ! k" "timeStart ?r = cv_times c ! (k - 1)" by (simp_all add: curve_range_def)
  have le: "?p \<le> cv_positions c ! k" using mono Suc by (intro sorted_nth_mono) auto
  from Suc have IH: "successively joined ?R"
    "?R \<noteq> [] \<Longrightarrow> 2 \<le> k \<and> cutSpaceTimeRect (curve_range c (k - 1)) m M = Some (last ?R) \<or> M \<le> ?p" by auto
  have prev: "spaceEnd (curve_range c (k - 1)) = ?p" "timeEnd (curve_range c (k - 1)) = cv_times c ! (k - 1)" by (simp_all add: curve_range_def)
  show ?case
  proof (cases "cutSpaceTimeRect ?r m M")
    case None
    have "M \<le> cv_positions c ! k" if ne: "?R \<noteq> []"
    proof -
      from IH(2) [OF ne] consider "cutSpaceTimeRect (curve_range c (k - 1)) m M = Some (last ?R)" | "M \<le> ?p" by blast
      then show ?thesis
      proof cases
        case 1
        then have "m < ?p" using kept_bounds prev(1) by metis
        with None le show ?thesis by (auto simp: cutSpaceTimeRect_def r split: if_splits)
      qed (use le in simp)
    qed
    with IH(1) None show ?thesis unfolding kept_Suc [OF Suc.hyps] by auto
  next
    case (Some r')
    have "joined (last ?R) r'" if ne: "?R \<noteq> []"
    proof -
      have pM: "?p < M" using kept_bounds [OF Some] r(1) by simp
      with IH(2) [OF ne] have l: "cutSpaceTimeRect (curve_range c (k - 1)) m M = Some (last ?R)" by auto
      then have "m < ?p" using kept_bounds prev(1) by metis
      with kept_begin [OF Some] have "spaceStart r' = ?p" "timeStart r' = cv_times c ! (k - 1)" by (simp_all add: r)
      moreover have "spaceEnd (last ?R) = ?p" "timeEnd (last ?R) = cv_times c ! (k - 1)" using kept_end [OF l] pM unfolding prev by simp_all
      ultimately show ?thesis by (simp add: joined_def)
    qed
    with IH(1) Some Suc.hyps show ?thesis unfolding kept_Suc [OF Suc.hyps] by (auto simp: successively_append_iff)
  qed
qed simp

lemma assembled_range:
  assumes "successively joined R" "i < length R"
  shows "curve_range (assembled R) (Suc i) = R ! i"
proof (cases i)
  case 0
  with assms(2) show ?thesis by (cases R) (simp_all add: curve_range_def assembled_def)
next
  case (Suc j)
  with assms have "joined (R ! j) (R ! Suc j)" by (simp add: successively_conv_nth)
  with Suc assms(2) show ?thesis by (auto simp: curve_range_def assembled_def joined_def)
qed

lemma on_assembled: "successively joined R \<Longrightarrow> on_curve (assembled R) q \<longleftrightarrow> (\<exists>r \<in> set R. on_range r q)"
proof
  assume j: "successively joined R" and "on_curve (assembled R) q"
  then obtain i where i: "1 \<le> i" "i < length (cv_positions (assembled R))" "on_range (curve_range (assembled R) i) q" by (auto simp: on_curve_def)
  then obtain k where k: "i = Suc k" "k < length R" by (cases i) (auto simp: assembled_def split: if_splits)
  with i(3) assembled_range [OF j k(2)] show "\<exists>r \<in> set R. on_range r q" by (metis nth_mem)
next
  assume j: "successively joined R" and "\<exists>r \<in> set R. on_range r q"
  then obtain k where k: "k < length R" "on_range (R ! k) q" by (auto simp: in_set_conv_nth)
  with assembled_range [OF j k(1)] show "on_curve (assembled R) q" unfolding on_curve_def
    by (intro exI [of _ "Suc k"]) (auto simp: assembled_def)
qed

lemma kept_set: "r \<in> set (kept m M c k) \<longleftrightarrow> (\<exists>i. 1 \<le> i \<and> i < k \<and> cutSpaceTimeRect (curve_range c i) m M = Some r)"
  by (force simp: kept_def map_filter_def)

lemma cut_curve_restricts:
  assumes mono: "sorted (cv_positions c)" and "m < M"
  shows "(on_curve (cut_curve m M c) q \<longrightarrow> on_curve c q \<and> m \<le> fst q \<and> fst q \<le> M) \<and>
    (on_curve c q \<and> m < fst q \<and> fst q < M \<longrightarrow> on_curve (cut_curve m M c) q)"
proof (cases "cv_positions c = []")
  case True
  then show ?thesis by (simp add: cut_curve_def on_curve_def)
next
  case False
  let ?n = "length (cv_positions c)"
  have n: "1 \<le> ?n" using False by (cases "cv_positions c") auto
  let ?R = "kept m M c ?n"
  have cut: "cut_curve m M c = assembled ?R" unfolding cut_curve_def using cut_fold [OF n] by simp
  have on: "on_curve (cut_curve m M c) q \<longleftrightarrow> (\<exists>r \<in> set ?R. on_range r q)"
    unfolding cut using kept_joined [OF mono n order_refl] by (intro on_assembled) blast
  have le: "spaceStart (curve_range c i) \<le> spaceEnd (curve_range c i)" if "1 \<le> i" "i < ?n" for i
    using mono that by (auto simp: curve_range_def intro: sorted_nth_mono)
  show ?thesis
  proof (intro conjI impI)
    assume "on_curve (cut_curve m M c) q"
    then obtain r where "r \<in> set ?R" "on_range r q" using on by blast
    then obtain i where i: "1 \<le> i" "i < ?n" "cutSpaceTimeRect (curve_range c i) m M = Some r" by (auto simp: kept_set)
    from cut_rect_range [OF le [OF i(1,2)] assms(2) i(3)] \<open>on_range r q\<close> i(1,2)
    show "on_curve c q" "m \<le> fst q" "fst q \<le> M" unfolding on_curve_def by blast+
  next
    assume "on_curve c q \<and> m < fst q \<and> fst q < M"
    then obtain i where i: "1 \<le> i" "i < ?n" "on_range (curve_range c i) q" and q: "m < fst q" "fst q < M" unfolding on_curve_def by blast
    from cut_rect_none [OF le [OF i(1,2)] _ i(3)] q obtain r where r: "cutSpaceTimeRect (curve_range c i) m M = Some r"
      by (cases "cutSpaceTimeRect (curve_range c i) m M") (use not_le in blast)+
    with cut_rect_range [OF le [OF i(1,2)] assms(2) r] i(3) q have "on_range r q" by simp
    moreover have "r \<in> set ?R" using r i(1,2) unfolding kept_set by blast
    ultimately show "on_curve (cut_curve m M c) q" unfolding on by blast
  qed
qed

text \<open>C20: hiding the first or the last waypoints restricts the curves of the trains to the visible positions: on a curve whose positions
  do not decrease, the cut curve has only points of the curve between the two waypoints, and it has all those strictly between.\<close>

theorem cut_curves_restrict:
  assumes "cutSpaceTimeCurves trains conflicts ops (Some waypoints) = (trains', conflicts')"
    and "2 \<le> length waypoints" "2 \<le> length ops" "hd waypoints < last waypoints" "\<not> (hd waypoints = 0 \<and> last waypoints = last ops)"
    and "k < length trains" "j < length (pr_curves (ip_projection (trains ! k)))"
    and "c = pr_curves (ip_projection (trains ! k)) ! j" "sorted (cv_positions c)"
  shows "\<exists>c'. pr_curves (ip_projection (trains' ! k)) ! j = c' \<and>
    (\<forall>q. (on_curve c' q \<longrightarrow> on_curve c q \<and> hd waypoints \<le> fst q \<and> fst q \<le> last waypoints) \<and>
         (on_curve c q \<and> hd waypoints < fst q \<and> fst q < last waypoints \<longrightarrow> on_curve c' q))"
proof -
  have "trains' = map (cut_train (hd waypoints) (last waypoints)) trains"
    using assms(1-3,5) by (auto simp: cutSpaceTimeCurves_def Let_def split: if_splits)
  with assms(6-8) have "pr_curves (ip_projection (trains' ! k)) ! j = cut_curve (hd waypoints) (last waypoints) c"
    by (simp add: cut_train_def)
  with cut_curve_restricts [OF assms(9,4)] show ?thesis by blast
qed

definition ex_train :: individual_projection where
  "ex_train =
     \<lparr>ip_id = ''paced_1'', ip_name = ''t'', ip_departureTime = 0,
      ip_projection = \<lparr>pr_curves = [\<lparr>cv_positions = [0, 4, 8], cv_times = [0, 10, 30]\<rparr>], pr_signal_updates = []\<rparr>, ip_exception = None\<rparr>"

theorem cut_curves_restrict_witness:
  "\<exists>c'. pr_curves (ip_projection (fst (cutSpaceTimeCurves [ex_train] [] [0, 8] (Some [2, 8])) ! 0)) ! 0 = c' \<and> on_curve c' (6, 20)"
proof -
  let ?c = "\<lparr>cv_positions = [0, 4, 8], cv_times = [0, 10, 30]\<rparr>"
  have "on_range (curve_range ?c 2) (6, 20)" unfolding on_range_def by (rule exI [of _ "1 / 2"]) (simp add: curve_range_def)
  then have on: "on_curve ?c (6, 20)" unfolding on_curve_def by (intro exI [of _ 2]) simp
  have h: "2 \<le> length [2, 8 :: num]" "2 \<le> length [0, 8 :: num]" "hd [2, 8] < last [2, 8 :: num]"
    "\<not> (hd [2, 8] = (0 :: num) \<and> last [2, 8] = last [0, 8 :: num])" by simp_all
  have t: "0 < length [ex_train]" "0 < length (pr_curves (ip_projection ([ex_train] ! 0)))" "?c = pr_curves (ip_projection ([ex_train] ! 0)) ! 0"
    "sorted (cv_positions ?c)" by (simp_all add: ex_train_def)
  from cut_curves_restrict [OF prod.collapse [symmetric] h t] obtain c' where
    c': "pr_curves (ip_projection (fst (cutSpaceTimeCurves [ex_train] [] [0, 8] (Some [2, 8])) ! 0)) ! 0 = c'"
    "on_curve ?c (6, 20) \<and> 2 < (6 :: num) \<and> 6 < (8 :: num) \<longrightarrow> on_curve c' (6, 20)" by fastforce
  with on show ?thesis by auto
qed

text \<open>A train that runs against the path has decreasing positions, and the ranges of its curve that cross the limits are lost.\<close>

lemma decreasing_curve_lost:
  "cut_curve 2 8 \<lparr>cv_positions = [10, 0], cv_times = [0, 10]\<rparr> = \<lparr>cv_positions = [], cv_times = []\<rparr>"
  "on_curve \<lparr>cv_positions = [10, 0], cv_times = [0, 10]\<rparr> (5, 5)"
proof -
  show "cut_curve 2 8 \<lparr>cv_positions = [10, 0], cv_times = [0, 10]\<rparr> = \<lparr>cv_positions = [], cv_times = []\<rparr>" by code_simp
  show "on_curve \<lparr>cv_positions = [10, 0], cv_times = [0, 10]\<rparr> (5, 5)"
    unfolding on_curve_def on_range_def by (intro exI [of _ 1] conjI exI [of _ "1 / 2"]) (simp_all add: curve_range_def)
qed

section \<open>Position at a time\<close>

lemma search_interval_bounds:
  assumes "left \<le> right" "right < length ts" "ts ! left \<le> time" "time \<le> ts ! right" "search_interval ts time left right = (a, b)"
  shows "b < length ts \<and> ts ! a \<le> time \<and> time \<le> ts ! b \<and> (left < right \<longrightarrow> b = Suc a) \<and> (left = right \<longrightarrow> a = b)"
  using assms
proof (induction ts time left right arbitrary: a b rule: search_interval.induct)
  case (1 ts time left right)
  show ?case
  proof (cases "left + 1 < right")
    case True
    let ?mid = "(left + right) div 2"
    have mid: "left < ?mid" "?mid < right" using True by auto
    show ?thesis
    proof (cases "ts ! ?mid \<le> time")
      case le: True
      with 1(7) True have "search_interval ts time ?mid right = (a, b)" by (simp add: search_interval.simps [of ts time left right] Let_def)
      from 1(1) [OF True refl le _ 1(4) le 1(6) this] mid True show ?thesis by auto
    next
      case gt: False
      with 1(7) True have "search_interval ts time left ?mid = (a, b)" by (simp add: search_interval.simps [of ts time left right] Let_def)
      from 1(2) [OF True refl gt _ _ 1(5) _ this] mid gt 1(4) show ?thesis by auto
    qed
  next
    case False
    with 1(3-7) show ?thesis by (auto simp: search_interval.simps [of ts time left right])
  qed
qed

lemma interpolate_on_curve:
  assumes len: "length (cv_times c) = length (cv_positions c)" "2 \<le> length (cv_times c)"
    and bounds: "hd (cv_times c) \<le> time" "time \<le> last (cv_times c)"
  shows "on_curve c (interpolate c time, time)"
proof -
  let ?ts = "cv_times c" and ?ps = "cv_positions c"
  obtain a b where ab: "search_interval ?ts time 0 (length ?ts - 1) = (a, b)" by (cases "search_interval ?ts time 0 (length ?ts - 1)") auto
  have "?ts \<noteq> []" using len(2) by auto
  with bounds have "?ts ! 0 \<le> time" "time \<le> ?ts ! (length ?ts - 1)" using last_conv_nth [of ?ts] hd_conv_nth [of ?ts] by metis+
  moreover have "0 < length ?ts - 1" "length ?ts - 1 < length ?ts" using len(2) by simp_all
  ultimately have b: "b = Suc a" "b < length ?ts" "?ts ! a \<le> time" "time \<le> ?ts ! b"
    using search_interval_bounds [OF _ _ _ _ ab] by auto
  let ?t1 = "?ts ! a" and ?t2 = "?ts ! Suc a" and ?p1 = "?ps ! a" and ?p2 = "?ps ! Suc a"
  have r: "curve_range c (Suc a) = \<lparr>spaceStart = ?p1, spaceEnd = ?p2, timeStart = ?t1, timeEnd = ?t2\<rparr>" by (simp add: curve_range_def)
  have i: "interpolate c time = (if ?t1 = time then ?p1 else if ?t2 = time then ?p2 else ?p1 + (time - ?t1) / (?t2 - ?t1) * (?p2 - ?p1))"
    unfolding interpolate_def ab by (simp add: Let_def b(1))
  have "on_range (curve_range c (Suc a)) (interpolate c time, time)"
  proof -
    consider "?t1 = time" | "?t1 \<noteq> time" "?t2 = time" | "?t1 < time" "time < ?t2" using b by fastforce
    then show ?thesis
    proof cases
      case 1
      then show ?thesis unfolding on_range_def r i by (intro exI [of _ 0]) simp
    next
      case 2
      then show ?thesis unfolding on_range_def r i by (intro exI [of _ 1]) simp
    next
      case 3
      let ?l = "(time - ?t1) / (?t2 - ?t1)"
      have "0 \<le> ?l" "?l \<le> 1" "?l * (?t2 - ?t1) = time - ?t1" using 3 by (simp_all add: divide_le_eq)
      then show ?thesis unfolding on_range_def r i using 3 by (intro exI [of _ ?l]) simp
    qed
  qed
  then show ?thesis unfolding on_curve_def using b len by (intro exI [of _ "Suc a"]) auto
qed

text \<open>The search for the position of a train at a time returns a point of one of its curves with this time when a curve covers the time,
  and nothing otherwise. The curves have at least two points, and as many times as positions.\<close>

lemma time_to_position_correct:
  assumes "\<forall>c \<in> set cs. length (cv_times c) = length (cv_positions c) \<and> 2 \<le> length (cv_times c)"
  shows "\<exists>r. getTimeToPosition cs time = Inr r \<and>
    (r = None \<longleftrightarrow> (\<forall>c \<in> set cs. \<not> (hd (cv_times c) \<le> time \<and> time \<le> last (cv_times c)))) \<and>
    (\<forall>p. r = Some p \<longrightarrow> (\<exists>c \<in> set cs. on_curve c (p, time)))"
  using assms
proof (induction cs)
  case (Cons c cs)
  have ne: "cv_times c \<noteq> []" using Cons.prems by auto
  show ?case
  proof (cases "time < hd (cv_times c) \<or> time > last (cv_times c)")
    case True
    moreover have "\<forall>c \<in> set cs. length (cv_times c) = length (cv_positions c) \<and> 2 \<le> length (cv_times c)" using Cons.prems by (metis list.set_intros(2))
    from Cons.IH [OF this] obtain r where "getTimeToPosition cs time = Inr r"
      "r = None \<longleftrightarrow> (\<forall>c \<in> set cs. \<not> (hd (cv_times c) \<le> time \<and> time \<le> last (cv_times c)))"
      "\<forall>p. r = Some p \<longrightarrow> (\<exists>c \<in> set cs. on_curve c (p, time))" by blast
    ultimately show ?thesis using ne by auto
  next
    case False
    with Cons.prems interpolate_on_curve [of c time] have "on_curve c (interpolate c time, time)" by simp
    with False ne show ?thesis by auto
  qed
qed simp

section \<open>Drawn trains\<close>

lemma exception_of_indexed:
  "findExceptionWithOccurrenceId es (formatEditoastIdToIndexedOccurrenceId (of_int n) (of_int (int i))) =
     Inr (find (\<lambda>e. ex_occurrence_index e = Some i) es)"
proof -
  have "(\<lambda>e :: paced_exception. map_option of_nat (ex_occurrence_index e) = Some (of_int (int i) :: num)) = (\<lambda>e. ex_occurrence_index e = Some i)"
    by auto
  then show ?thesis by (simp add: findExceptionWithOccurrenceId_def exception_of_def format_kinds extract_indexed del: of_int_of_nat_eq)
qed

definition occurrence_shown :: "paced_exception list \<Rightarrow> nat \<Rightarrow> bool" where
  "occurrence_shown es i \<longleftrightarrow> (case find (\<lambda>e. ex_occurrence_index e = Some i) es of None \<Rightarrow> True | Some e \<Rightarrow> ex_disabled e \<noteq> Some True)"

definition occurrence_start :: "(string \<Rightarrow> date) \<Rightarrow> projection_data \<Rightarrow> (curve, signal_update) projected_paced \<Rightarrow> nat \<Rightarrow> date" where
  "occurrence_start parseDate item paced i =
     (case Option.bind (find (\<lambda>e. ex_occurrence_index e = Some i) (pp_exceptions paced)) cg_start_time of
        None \<Rightarrow> computeIndexedOccurrenceStartTime (sp_departureTime item) (pp_interval paced) (int i)
      | Some t \<Rightarrow> parseDate t)"

definition drawn_occurrence :: "(string \<Rightarrow> date) \<Rightarrow> projection_data \<Rightarrow> (curve, signal_update) projected_paced \<Rightarrow> nat \<Rightarrow> individual_projection" where
  "drawn_occurrence parseDate item paced i =
     (let exception = find (\<lambda>e. ex_occurrence_index e = Some i) (pp_exceptions paced) in
      \<lparr>ip_id = formatEditoastIdToIndexedOccurrenceId (of_int (sp_id item)) (of_nat i),
       ip_name = (case Option.bind exception cg_train_name of Some n \<Rightarrow> n | None \<Rightarrow> computeOccurrenceName (sp_name item) (of_nat i)),
       ip_departureTime = occurrence_start parseDate item paced i,
       ip_projection = (case Option.bind exception (\<lambda>e. map_of (pp_exceptionProjections paced) (ex_key e)) of Some p \<Rightarrow> p | None \<Rightarrow> sp_projection item),
       ip_exception = exception\<rparr>)"

definition drawn_addition :: "(string \<Rightarrow> date) \<Rightarrow> projection_data \<Rightarrow> (curve, signal_update) projected_paced \<Rightarrow> paced_exception \<Rightarrow> individual_projection" where
  "drawn_addition parseDate item paced e =
     \<lparr>ip_id = formatEditoastIdToExceptionId (of_int (sp_id item)) (ex_key e),
      ip_name = (case cg_train_name e of Some n \<Rightarrow> n | None \<Rightarrow> sp_name item @ ''/+''),
      ip_departureTime = parseDate (the (cg_start_time e)),
      ip_projection = (case map_of (pp_exceptionProjections paced) (ex_key e) of Some p \<Rightarrow> p | None \<Rightarrow> sp_projection item),
      ip_exception = Some e\<rparr>"

definition addition_shown :: "paced_exception \<Rightarrow> bool" where
  "addition_shown e \<longleftrightarrow> ex_occurrence_index e = None \<and> ex_disabled e \<noteq> Some True"

lemma indexed_item_eq:
  "indexed_item parseDate item paced (int i) =
     Inr (if occurrence_shown (pp_exceptions paced) i then [drawn_occurrence parseDate item paced i] else [])"
proof -
  have f: "formatPacedTrainIdToIndexedOccurrenceId (formatEditoastIdToPacedTrainId (of_int (sp_id item))) (of_int (int i)) =
      Inr (formatEditoastIdToIndexedOccurrenceId (of_int (sp_id item)) (of_int (int i)))"
    by (simp add: formatPacedTrainIdToIndexedOccurrenceId_def extract_paced del: of_int_of_nat_eq)
  show ?thesis
    unfolding indexed_item_def f bind_result.simps exception_of_indexed
    by (cases "find (\<lambda>e. ex_occurrence_index e = Some i) (pp_exceptions paced)")
      (auto simp: occurrence_shown_def occurrence_start_def drawn_occurrence_def Let_def split: option.split)
qed

lemma added_item_eq:
  "(addition_shown e \<Longrightarrow> cg_start_time e \<noteq> None) \<Longrightarrow>
   added_item parseDate item paced e = Inr (if addition_shown e then [drawn_addition parseDate item paced e] else [])"
  by (auto simp: added_item_def addition_shown_def drawn_addition_def)

lemma concat_if: "concat (map (\<lambda>x. if P x then [f x] else []) xs) = map f (filter P xs)"
  by (induction xs) auto

lemma projected_items_eq:
  assumes "sp_paced item = Some paced" "getOccurrencesNb (pp_timeWindow paced) (pp_interval paced) = Inr k"
    and "\<forall>e \<in> set (pp_exceptions paced). addition_shown e \<longrightarrow> cg_start_time e \<noteq> None"
  shows "projected_items parseDate item =
    Inr (map (drawn_occurrence parseDate item paced) (filter (occurrence_shown (pp_exceptions paced)) [0..<nat k]) @
         map (drawn_addition parseDate item paced) (filter addition_shown (pp_exceptions paced)))"
proof -
  have "map_result (indexed_item parseDate item paced) (map int [0..<nat k]) =
      Inr (map (\<lambda>i. if occurrence_shown (pp_exceptions paced) i then [drawn_occurrence parseDate item paced i] else []) [0..<nat k])"
    by (rule map_result_pointwise) (simp_all add: indexed_item_eq)
  moreover have "map_result (added_item parseDate item paced) (pp_exceptions paced) =
      Inr (map (\<lambda>e. if addition_shown e then [drawn_addition parseDate item paced e] else []) (pp_exceptions paced))"
    using assms(3) by (intro map_result_total added_item_eq) auto
  ultimately show ?thesis by (simp add: projected_items_def assms(1,2) concat_if)
qed

lemma projected_items_starts:
  assumes "projected_items parseDate item = Inr xs" "sp_paced item = Some paced"
  shows "\<exists>k. getOccurrencesNb (pp_timeWindow paced) (pp_interval paced) = Inr k \<and>
    (\<forall>e \<in> set (pp_exceptions paced). addition_shown e \<longrightarrow> cg_start_time e \<noteq> None)"
proof -
  from assms obtain k added where k: "getOccurrencesNb (pp_timeWindow paced) (pp_interval paced) = Inr k"
    and added: "map_result (added_item parseDate item paced) (pp_exceptions paced) = Inr added"
    by (auto simp: projected_items_def)
  have "cg_start_time e \<noteq> None" if e: "e \<in> set (pp_exceptions paced)" "addition_shown e" for e
  proof -
    from e(1) obtain i where "i < length (pp_exceptions paced)" "e = pp_exceptions paced ! i" by (metis in_set_conv_nth)
    with map_result_nth [OF added] have "added_item parseDate item paced e = Inr (added ! i)" by simp
    with e(2) show ?thesis by (cases "cg_start_time e") (auto simp: added_item_def addition_shown_def)
  qed
  with k show ?thesis by blast
qed

text \<open>C34: the chart draws exactly the occurrences of a paced train that are not disabled: one curve per index of the time window and per added
  occurrence that no exception disables, each under its own identifier, at the start time of its exception or at its regular time.\<close>

theorem drawn_occurrences:
  assumes "sp_paced item = Some paced" "getOccurrencesNb (pp_timeWindow paced) (pp_interval paced) = Inr k"
    and "\<forall>e \<in> set (pp_exceptions paced). addition_shown e \<longrightarrow> cg_start_time e \<noteq> None"
    and "distinct (map ex_key (filter addition_shown (pp_exceptions paced)))"
  shows "\<exists>xs. projected_items parseDate item = Inr xs \<and> distinct (map ip_id xs) \<and>
    map (\<lambda>x. (ip_id x, ip_departureTime x)) xs =
      map (\<lambda>i. (formatEditoastIdToIndexedOccurrenceId (of_int (sp_id item)) (of_nat i), occurrence_start parseDate item paced i))
        (filter (occurrence_shown (pp_exceptions paced)) [0..<nat k]) @
      map (\<lambda>e. (formatEditoastIdToExceptionId (of_int (sp_id item)) (ex_key e), parseDate (the (cg_start_time e))))
        (filter addition_shown (pp_exceptions paced))"
proof -
  let ?is = "filter (occurrence_shown (pp_exceptions paced)) [0..<nat k]" and ?es = "filter addition_shown (pp_exceptions paced)"
  let ?xs = "map (drawn_occurrence parseDate item paced) ?is @ map (drawn_addition parseDate item paced) ?es"
  have ids: "map ip_id ?xs = map (\<lambda>i. formatEditoastIdToIndexedOccurrenceId (of_int (sp_id item)) (of_nat i)) ?is @
      map (\<lambda>e. formatEditoastIdToExceptionId (of_int (sp_id item)) (ex_key e)) ?es"
    by (simp add: drawn_occurrence_def drawn_addition_def Let_def)
  have inj1: "inj (\<lambda>i. formatEditoastIdToIndexedOccurrenceId (of_int (sp_id item)) (of_nat i))"
    using indexed_id_inject by (intro injI) blast
  have inj2: "distinct (map (\<lambda>e. formatEditoastIdToExceptionId (of_int (sp_id item)) (ex_key e)) ?es)"
    using assms(4) by (simp add: distinct_map inj_on_def exception_id_inject)
  have "formatEditoastIdToIndexedOccurrenceId (of_int (sp_id item)) (of_nat i) \<noteq> formatEditoastIdToExceptionId (of_int (sp_id item)) key" for i key
    using id_kinds_disjoint format_kinds(3,4) by metis
  with inj1 inj2 have "distinct (map ip_id ?xs)" unfolding ids by (auto simp: distinct_map inj_on_def inj_def)
  moreover have "map (\<lambda>x. (ip_id x, ip_departureTime x)) ?xs =
      map (\<lambda>i. (formatEditoastIdToIndexedOccurrenceId (of_int (sp_id item)) (of_nat i), occurrence_start parseDate item paced i)) ?is @
      map (\<lambda>e. (formatEditoastIdToExceptionId (of_int (sp_id item)) (ex_key e), parseDate (the (cg_start_time e)))) ?es"
    by (simp add: drawn_occurrence_def drawn_addition_def Let_def)
  ultimately show ?thesis using projected_items_eq [OF assms(1-3)] by blast
qed

definition ex_change :: "nat option \<Rightarrow> bool option \<Rightarrow> string option \<Rightarrow> paced_exception" where
  "ex_change index disabled start =
     \<lparr>cg_constraint_distribution = None, cg_initial_speed = None, cg_labels = None, cg_options = None, cg_path_and_schedule = None,
      cg_rolling_stock = None, cg_rolling_stock_category = None, cg_speed_limit_tag = None, cg_start_time = start, cg_train_name = None,
      ex_key = ''k'', ex_occurrence_index = index, ex_disabled = disabled\<rparr>"

definition ex_item :: projection_data where
  "ex_item =
     \<lparr>sp_id = 1, sp_name = ''t'', sp_departureTime = 100, sp_projection = ip_projection ex_train, sp_originPathItem = None,
      sp_destinationPathItem = None,
      sp_paced = Some \<lparr>pp_timeWindow = Duration 30, pp_interval = Duration 10,
        pp_exceptions = [ex_change (Some 1) (Some True) None, ex_change None None (Some ''d'')], pp_exceptionProjections = []\<rparr>\<rparr>"

lemma ex_item_paced:
  "\<exists>paced. sp_paced ex_item = Some paced \<and> getOccurrencesNb (pp_timeWindow paced) (pp_interval paced) = Inr 3 \<and>
     (\<forall>e \<in> set (pp_exceptions paced). addition_shown e \<longrightarrow> cg_start_time e \<noteq> None) \<and>
     distinct (map ex_key (filter addition_shown (pp_exceptions paced))) \<and> filter addition_shown (pp_exceptions paced) = [ex_change None None (Some ''d'')] \<and>
     filter (occurrence_shown (pp_exceptions paced)) [0..<3] = [0, 2]"
  by (simp add: ex_item_def getOccurrencesNb_def addition_shown_def occurrence_shown_def ex_change_def numeral_3_eq_3)

theorem drawn_occurrences_witness:
  "\<exists>xs. projected_items (\<lambda>_. 7) ex_item = Inr xs \<and> length xs = 3 \<and> distinct (map ip_id xs)"
proof -
  from ex_item_paced obtain paced where p: "sp_paced ex_item = Some paced" "getOccurrencesNb (pp_timeWindow paced) (pp_interval paced) = Inr 3"
    "\<forall>e \<in> set (pp_exceptions paced). addition_shown e \<longrightarrow> cg_start_time e \<noteq> None"
    "distinct (map ex_key (filter addition_shown (pp_exceptions paced)))" and
    f: "filter addition_shown (pp_exceptions paced) = [ex_change None None (Some ''d'')]" "filter (occurrence_shown (pp_exceptions paced)) [0..<3] = [0, 2]"
    by blast
  from drawn_occurrences [OF p, of "\<lambda>_. 7"] obtain xs where xs: "projected_items (\<lambda>_. 7) ex_item = Inr xs" "distinct (map ip_id xs)"
    "map (\<lambda>x. (ip_id x, ip_departureTime x)) xs =
      map (\<lambda>i. (formatEditoastIdToIndexedOccurrenceId (of_int (sp_id ex_item)) (of_nat i), occurrence_start (\<lambda>_. 7) ex_item paced i))
        (filter (occurrence_shown (pp_exceptions paced)) [0..<nat 3]) @
      map (\<lambda>e. (formatEditoastIdToExceptionId (of_int (sp_id ex_item)) (ex_key e), 7)) (filter addition_shown (pp_exceptions paced))" by blast
  from arg_cong [OF xs(3), of length] have "length xs = 3" by (simp add: f)
  with xs(1,2) show ?thesis by blast
qed

section \<open>Dragging\<close>

lemma find_by_id:
  assumes "distinct (map sp_id ps)" "item \<in> set ps"
  shows "find (\<lambda>train. of_int (sp_id train) = (of_int (sp_id item) :: num)) ps = Some item"
  using assms
proof (induction ps)
  case (Cons p ps)
  show ?case
  proof (cases "p = item")
    case False
    with Cons.prems have "sp_id p \<noteq> sp_id item" by (auto simp: image_iff)
    with Cons False show ?thesis by simp
  qed simp
qed simp

lemma item_number_ids:
  "item_number (formatEditoastIdToPacedTrainId (of_int n)) = Inr (of_int n)"
  "item_number (formatEditoastIdToIndexedOccurrenceId (of_int n) (of_nat i)) = Inr (of_int n)"
  using extract_indexed(1) [of n "int i"]
  by (simp_all add: item_number_def format_kinds isOccurrenceId_def [of "formatEditoastIdToIndexedOccurrenceId _ _"] extract_paced)

definition moved :: "projection_data \<Rightarrow> date \<Rightarrow> projection_data list \<Rightarrow> projection_data list" where
  "moved item d ps = map (\<lambda>p. if sp_id p = sp_id item then item\<lparr>sp_departureTime := d\<rparr> else p) ps"

lemma handleTrainDrag_moves:
  assumes "distinct (map sp_id (ch_projections st))" "item \<in> set (ch_projections st)" "item_number i = Inr (of_int (sp_id item))"
  shows "\<exists>st'. handleTrainDrag i d False st = Inr st' \<and> ch_projections st' = moved item d (ch_projections st) \<and> ch_dragging st' = ch_dragging st"
  using find_by_id [OF assms(1,2)] by (simp add: handleTrainDrag_def assms(3) moved_def call_def Let_def)

lemma handlePan_drags:
  assumes "ch_dragging st = Some (train, d0)" "pn_isPanning payload"
    and "distinct (map sp_id (ch_projections st))" "item \<in> set (ch_projections st)" "item_number (ip_id train) = Inr (of_int (sp_id item))"
    and "dragged_departure (ch_projections st) train (js_trunc (of_int d0 + (pn_time payload - pn_initialTime payload))) = Inr d"
  shows "\<exists>st'. handlePan trains zoom hovered payload st = Inr st' \<and> ch_projections st' = moved item d (ch_projections st) \<and>
    ch_dragging st' = Some (train, d0)"
proof -
  define st1 where "st1 = (if ch_selected st \<noteq> Some (ip_id train)
    then (call (SelectTrain (ip_id train)) st)\<lparr>ch_selected := Some (ip_id train)\<rparr> else st)"
  have st1: "ch_projections st1 = ch_projections st" "ch_dragging st1 = ch_dragging st" by (simp_all add: st1_def call_def)
  have "handlePan trains zoom hovered payload st = handleTrainDrag (ip_id train) d False st1"
    by (simp add: handlePan_def Let_def assms(1,2,6) st1_def)
  with handleTrainDrag_moves [of st1 item "ip_id train" d] assms(1,3-5) show ?thesis by (simp add: st1)
qed

text \<open>The record of the dragged train stays that of the beginning of the dragging, while the departure time of its item changes with
  every movement.\<close>

definition redrawn :: "(string \<Rightarrow> date) \<Rightarrow> projection_data \<Rightarrow> string \<Rightarrow> date \<Rightarrow> bool" where
  "redrawn parseDate item i d \<longleftrightarrow>
     (\<exists>xs x. projected_items parseDate item = Inr xs \<and> x \<in> set xs \<and> ip_id x = i \<and> ip_departureTime x = d)"

lemma drag_unpaced:
  assumes "ch_dragging st = Some (train, d0)" "pn_isPanning payload"
    and "distinct (map sp_id (ch_projections st))" "item\<lparr>sp_departureTime := dep\<rparr> \<in> set (ch_projections st)"
    and "projected_items parseDate item = Inr xs" "train \<in> set xs" "sp_paced item = None"
  defines "t \<equiv> js_trunc (of_int d0 + (pn_time payload - pn_initialTime payload))"
  shows "\<exists>st'. handlePan trains zoom hovered payload st = Inr st' \<and> ch_dragging st' = Some (train, d0) \<and>
    ch_projections st' = moved item t (ch_projections st) \<and> redrawn parseDate (item\<lparr>sp_departureTime := t\<rparr>) (ip_id train) t"
proof -
  from assms(5-7) have i: "ip_id train = formatEditoastIdToPacedTrainId (of_int (sp_id item))" by (auto simp: projected_items_def)
  then have d: "dragged_departure (ch_projections st) train t = Inr t"
    by (simp add: dragged_departure_def isIndividualOccurrenceProjection_def format_kinds)
  have "item_number (ip_id train) = Inr (of_int (sp_id (item\<lparr>sp_departureTime := dep\<rparr>)))" by (simp add: i item_number_ids)
  from handlePan_drags [OF assms(1-4) this d [unfolded t_def], of trains zoom hovered, folded t_def]
  show ?thesis using assms(7) i by (auto simp: moved_def redrawn_def projected_items_def)
qed

text \<open>The departure time given to the item of a dragged occurrence: that of its first occurrence.\<close>

lemma dragged_departure_of_occurrence:
  assumes "distinct (map sp_id ps)" "item \<in> set ps" "sp_paced item = Some paced"
    and "ip_id train = formatEditoastIdToIndexedOccurrenceId (of_int (sp_id item)) (of_nat i)"
    and "Option.bind (ip_exception train) cg_start_time = None"
  shows "dragged_departure ps train t = Inr (t - int i * dur_ms (pp_interval paced))"
proof -
  have x: "extractOccurrenceIndexFromOccurrenceId (ip_id train) = Inr (of_int (int i))"
    using extract_indexed(2) [of "sp_id item" "int i"] assms(4) by simp
  have occ: "isOccurrenceId (ip_id train)" unfolding isOccurrenceId_def assms(4) using format_kinds(3) by blast
  have tr: "js_trunc (of_int (int i) * of_int (dur_ms (pp_interval paced))) = int i * dur_ms (pp_interval paced)"
    by (simp add: js_trunc_def flip: of_int_mult del: of_int_of_nat_eq)
  have num: "item_number (ip_id train) = Inr (of_int (sp_id item))" by (simp add: assms(4) item_number_ids)
  show ?thesis
    using find_by_id [OF assms(1,2)] assms(3) tr
    by (simp add: dragged_departure_def isIndividualOccurrenceProjection_def occ assms(5) x num subtractDurationFromDate_def
        new_duration_def del: of_int_of_nat_eq)
qed

lemma drag_occurrence:
  assumes "ch_dragging st = Some (train, d0)" "pn_isPanning payload"
    and "distinct (map sp_id (ch_projections st))" "item\<lparr>sp_departureTime := dep\<rparr> \<in> set (ch_projections st)"
    and paced: "sp_paced item = Some paced" "getOccurrencesNb (pp_timeWindow paced) (pp_interval paced) = Inr k"
      "\<forall>e \<in> set (pp_exceptions paced). addition_shown e \<longrightarrow> cg_start_time e \<noteq> None"
    and i: "i < nat k" "occurrence_shown (pp_exceptions paced) i" "train = drawn_occurrence parseDate item paced i"
    and "Option.bind (ip_exception train) cg_start_time = None"
  defines "t \<equiv> js_trunc (of_int d0 + (pn_time payload - pn_initialTime payload))"
  defines "d \<equiv> t - int i * dur_ms (pp_interval paced)"
  shows "\<exists>st'. handlePan trains zoom hovered payload st = Inr st' \<and> ch_dragging st' = Some (train, d0) \<and>
    ch_projections st' = moved item d (ch_projections st) \<and> redrawn parseDate (item\<lparr>sp_departureTime := d\<rparr>) (ip_id train) t"
proof -
  have e: "Option.bind (find (\<lambda>e. ex_occurrence_index e = Some i) (pp_exceptions paced)) cg_start_time = None"
    using assms(11) by (simp add: i(3) drawn_occurrence_def Let_def)
  have n: "ip_id train = formatEditoastIdToIndexedOccurrenceId (of_int (sp_id item)) (of_nat i)" by (simp add: i(3) drawn_occurrence_def Let_def)
  have num: "item_number (ip_id train) = Inr (of_int (sp_id (item\<lparr>sp_departureTime := dep\<rparr>)))" by (simp add: n item_number_ids)
  have dd: "dragged_departure (ch_projections st) train t = Inr d"
    using dragged_departure_of_occurrence [OF assms(3,4), of paced train i t] paced(1) n assms(11) by (simp add: d_def)
  have "redrawn parseDate (item\<lparr>sp_departureTime := d\<rparr>) (ip_id train) t"
  proof -
    let ?item = "item\<lparr>sp_departureTime := d\<rparr>"
    let ?x = "drawn_occurrence parseDate ?item paced i"
    have "sp_paced ?item = Some paced" using paced(1) by simp
    note eq = projected_items_eq [OF this paced(2,3), of parseDate]
    have "ip_id ?x = ip_id train" by (simp add: n drawn_occurrence_def Let_def)
    moreover have "ip_departureTime ?x = t"
      by (simp add: drawn_occurrence_def occurrence_start_def e Let_def computeIndexedOccurrenceStartTime_def duration_defs d_def)
    ultimately show ?thesis using eq i(1,2) unfolding redrawn_def by fastforce
  qed
  with handlePan_drags [OF assms(1-4) num dd [unfolded t_def], of trains zoom hovered] show ?thesis
    by (auto simp: moved_def)
qed

lemma drag_movement:
  assumes "ch_dragging st = Some (train, d0)" "pn_isPanning payload"
    and "distinct (map sp_id (ch_projections st))" "item\<lparr>sp_departureTime := dep\<rparr> \<in> set (ch_projections st)"
    and "projected_items parseDate item = Inr xs" "train \<in> set xs" "Option.bind (ip_exception train) cg_start_time = None"
  shows "\<exists>st' d. handlePan trains zoom hovered payload st = Inr st' \<and> ch_dragging st' = Some (train, d0) \<and>
    ch_projections st' = moved item d (ch_projections st) \<and>
    redrawn parseDate (item\<lparr>sp_departureTime := d\<rparr>) (ip_id train) (js_trunc (of_int d0 + (pn_time payload - pn_initialTime payload)))"
proof (cases "sp_paced item")
  case None
  from drag_unpaced [OF assms(1-6) None] show ?thesis by blast
next
  case (Some paced)
  from projected_items_starts [OF assms(5) Some] obtain k where
    k: "getOccurrencesNb (pp_timeWindow paced) (pp_interval paced) = Inr k"
    "\<forall>e \<in> set (pp_exceptions paced). addition_shown e \<longrightarrow> cg_start_time e \<noteq> None" by blast
  from assms(6) projected_items_eq [OF Some k, of parseDate] assms(5)
  consider i where "i < nat k" "occurrence_shown (pp_exceptions paced) i" "train = drawn_occurrence parseDate item paced i"
    | e where "e \<in> set (pp_exceptions paced)" "addition_shown e" "train = drawn_addition parseDate item paced e" by auto
  then show ?thesis
  proof cases
    case i: 1
    from drag_occurrence [OF assms(1-4) Some k i assms(7)] show ?thesis by blast
  next
    case 2
    with k(2) assms(7) show ?thesis by (auto simp: drawn_addition_def)
  qed
qed

text \<open>A movement of the mouse, with the trains drawn at that time, the zoom mode and the hovered path.\<close>

type_synonym pan_event = "individual_projection list \<times> bool \<times> string option \<times> pan_payload"

definition pan_step :: "chart_state \<Rightarrow> pan_event \<Rightarrow> chart_state result" where
  "pan_step st e = (case e of (trains, zoom, hovered, payload) \<Rightarrow> handlePan trains zoom hovered payload st)"

abbreviation payload_of :: "pan_event \<Rightarrow> pan_payload" where
  "payload_of e \<equiv> snd (snd (snd e))"

lemma moved_again: "moved item d (moved item d' ps) = moved item d ps"
  by (simp add: moved_def)

lemma moved_keeps:
  "map sp_id (moved item d ps) = map sp_id ps" "item\<lparr>sp_departureTime := dep\<rparr> \<in> set ps \<Longrightarrow> item\<lparr>sp_departureTime := d\<rparr> \<in> set (moved item d ps)"
  by (auto simp: moved_def intro!: image_eqI [where x = "item\<lparr>sp_departureTime := dep\<rparr>"])

lemma drag_movements:
  assumes "projected_items parseDate item = Inr xs" "train \<in> set xs" "Option.bind (ip_exception train) cg_start_time = None"
    and "ch_dragging st = Some (train, d0)" "distinct (map sp_id (ch_projections st))"
    and "item\<lparr>sp_departureTime := dep\<rparr> \<in> set (ch_projections st)" "\<forall>e\<in>set es. pn_isPanning (payload_of e)" "es \<noteq> []"
  shows "\<exists>st' d. fold_result pan_step st es = Inr st' \<and> ch_dragging st' = Some (train, d0) \<and>
    ch_projections st' = moved item d (ch_projections st) \<and>
    redrawn parseDate (item\<lparr>sp_departureTime := d\<rparr>) (ip_id train)
      (js_trunc (of_int d0 + (pn_time (payload_of (last es)) - pn_initialTime (payload_of (last es)))))"
  using assms(4-)
proof (induction es arbitrary: st dep)
  case (Cons e es)
  obtain trains zoom hovered payload where e: "e = (trains, zoom, hovered, payload)" by (cases e)
  obtain st1 d1 where 1: "handlePan trains zoom hovered payload st = Inr st1" "ch_dragging st1 = Some (train, d0)"
    "ch_projections st1 = moved item d1 (ch_projections st)"
    "redrawn parseDate (item\<lparr>sp_departureTime := d1\<rparr>) (ip_id train) (js_trunc (of_int d0 + (pn_time payload - pn_initialTime payload)))"
    using drag_movement [OF Cons.prems(1) _ Cons.prems(2,3) assms(1-3)] Cons.prems(4) e by force
  show ?case
  proof (cases "es = []")
    case True
    then show ?thesis using 1 e by (auto simp: pan_step_def)
  next
    case False
    have "distinct (map sp_id (ch_projections st1))" "item\<lparr>sp_departureTime := d1\<rparr> \<in> set (ch_projections st1)"
      using Cons.prems(2,3) by (simp_all add: 1(3) moved_keeps)
    from Cons.IH [OF 1(2) this _ False] Cons.prems(4) show ?thesis
      using 1 False e by (auto simp: pan_step_def moved_again)
  qed
qed simp

text \<open>The dragging starts with the record of the hovered train and its departure time at that moment, unless the start time of the
  occurrence is an exception.\<close>

lemma drag_starts:
  assumes "ch_dragging st = None" "\<not> ch_previousPanning st" "pn_isPanning payload"
    and "find (\<lambda>train. ip_id train = i) trains = Some train" "isTrainId i" "Option.bind (ip_exception train) cg_start_time = None"
  shows "\<exists>st'. handlePan trains False (Some i) payload st = Inr st' \<and> ch_dragging st' = Some (train, ip_departureTime train) \<and>
    ch_projections st' = ch_projections st"
  using assms by (simp add: handlePan_def Let_def call_def)

text \<open>C14: while a train is dragged it follows the mouse: after any sequence of movements since the dragging started, the chart draws the
  train, or the occurrence of a paced train, at the departure time it had when the dragging started plus the time between the
  first and the current position of the mouse, and the other trains stay as they were. Occurrences whose start time is an exception, and
  exceptions that are additions, cannot be dragged.\<close>

theorem dragged_train_follows:
  assumes "ch_dragging st = Some (train, d0)" "distinct (map sp_id (ch_projections st))" "item \<in> set (ch_projections st)"
    and "projected_items parseDate item = Inr xs" "train \<in> set xs" "Option.bind (ip_exception train) cg_start_time = None"
    and "\<forall>e\<in>set movements. pn_isPanning (snd (snd (snd e)))" "movements \<noteq> []" "payload = snd (snd (snd (last movements)))"
  shows "\<exists>st' item' xs' x. fold_result pan_step st movements = Inr st' \<and>
    ch_projections st' = map (\<lambda>p. if sp_id p = sp_id item then item' else p) (ch_projections st) \<and>
    projected_items parseDate item' = Inr xs' \<and> x \<in> set xs' \<and> ip_id x = ip_id train \<and>
    ip_departureTime x = js_trunc (of_int d0 + (pn_time payload - pn_initialTime payload))"
proof -
  have "item\<lparr>sp_departureTime := sp_departureTime item\<rparr> \<in> set (ch_projections st)" using assms(3) by simp
  from drag_movements [OF assms(4-6,1,2) this assms(7,8)] show ?thesis
    unfolding redrawn_def moved_def assms(9) by blast
qed

definition ex_chart :: chart_state where
  "ex_chart =
     \<lparr>ch_dragging = Some (drawn_occurrence (\<lambda>_. 7) ex_item (the (sp_paced ex_item)) 2, 120), ch_previousPanning = True,
      ch_projections = [ex_item], ch_selected = None, ch_calls = []\<rparr>"

theorem dragged_train_follows_witness:
  "\<exists>st' item' xs' x. fold_result pan_step ex_chart
       [([], False, None, \<lparr>pn_isPanning = True, pn_time = 30, pn_initialTime = 10\<rparr>),
        ([], False, None, \<lparr>pn_isPanning = True, pn_time = 15, pn_initialTime = 10\<rparr>)] = Inr st' \<and>
     ch_projections st' = [item'] \<and> projected_items (\<lambda>_. 7) item' = Inr xs' \<and> x \<in> set xs' \<and> ip_departureTime x = 125"
proof -
  from ex_item_paced obtain paced where p: "sp_paced ex_item = Some paced" "getOccurrencesNb (pp_timeWindow paced) (pp_interval paced) = Inr 3"
    "\<forall>e \<in> set (pp_exceptions paced). addition_shown e \<longrightarrow> cg_start_time e \<noteq> None" and
    f: "filter (occurrence_shown (pp_exceptions paced)) [0..<3] = [0, 2]"
    by blast
  let ?x = "drawn_occurrence (\<lambda>_. 7) ex_item paced 2"
  have c: "ch_dragging ex_chart = Some (?x, 120)" "ch_projections ex_chart = [ex_item]" by (simp_all add: ex_chart_def p(1))
  from projected_items_eq [OF p, of "\<lambda>_. 7"] f obtain xs where xs: "projected_items (\<lambda>_. 7) ex_item = Inr xs" "?x \<in> set xs" by simp
  have "find (\<lambda>e. ex_occurrence_index e = Some 2) (pp_exceptions paced) = None"
    using p(1) by (auto simp: ex_item_def ex_change_def)
  then have e: "Option.bind (ip_exception ?x) cg_start_time = None" by (simp add: drawn_occurrence_def Let_def)
  have d: "distinct (map sp_id (ch_projections ex_chart))" "ex_item \<in> set (ch_projections ex_chart)" by (simp_all add: c(2))
  from dragged_train_follows [OF c(1) d xs e, of "[([], False, None, \<lparr>pn_isPanning = True, pn_time = 30, pn_initialTime = 10\<rparr>),
        ([], False, None, \<lparr>pn_isPanning = True, pn_time = 15, pn_initialTime = 10\<rparr>)]", OF _ _ refl]
  show ?thesis unfolding c(2) by (simp add: js_trunc_def del: fold_result.simps) blast
qed

end
