(* ===== verification/TrackOccupancy.thy ===== *)
theory TrackOccupancy
  imports SpaceTimeChart
begin

text \<open>
  The occupancy of the tracks of the operational points of the projected path
  (\<open>SpaceTimeChartWrapper/useTrackOccupancy.ts\<close>, \<open>helpers/sortTracks.ts\<close> and the batches of
  \<open>helpers/utils.ts\<close>): the request of the zones, the zones of the deployed waypoints with their tracks, opening and closing a
  waypoint, the movement of the zones with a dragged train, and their update when the trains change.

  The server is a function from an operational point and the numbers of some trains to the occupied tracks; it is undefined when
  the request fails. The answers of asynchronous requests are events of their own: what happens between a request and its answer
  is any sequence of other events. The handle that aborts a batch is not kept in the state of a waypoint.
\<close>

section \<open>Order of the tracks (sortTracks.ts)\<close>

record track =
  tk_id :: string
  tk_name :: "string option"
  tk_line :: "string option"

definition NO_TRACK_SPECIFIED_SYMBOL :: string where "NO_TRACK_SPECIFIED_SYMBOL = ''[ ]''"

definition leading_number :: "string \<Rightarrow> int" where
  "leading_number s = int (nat_of_string (takeWhile is_digit s))"

text \<open>The leftmost match of \<open>-?\d+\<close>.\<close>

fun extractFirstNumber :: "string \<Rightarrow> int option" where
  "extractFirstNumber [] = None"
| "extractFirstNumber (c # s) =
     (if is_digit c then Some (leading_number (c # s))
      else if c = CHR ''-'' \<and> s \<noteq> [] \<and> is_digit (hd s) then Some (- leading_number s)
      else extractFirstNumber s)"

text \<open>\<open>localeCompare\<close> depends on the language of the browser.\<close>

definition compareTracksByName :: "(string \<Rightarrow> string \<Rightarrow> int) \<Rightarrow> track \<Rightarrow> track \<Rightarrow> int" where
  "compareTracksByName localeCompare a b =
     (case (Option.bind (tk_name a) extractFirstNumber, Option.bind (tk_name b) extractFirstNumber) of
        (Some na, Some nb) \<Rightarrow> if na - nb \<noteq> 0 then na - nb else localeCompare (the (tk_name a)) (the (tk_name b))
      | (Some na, None) \<Rightarrow> -1
      | (None, Some nb) \<Rightarrow> 1
      | (None, None) \<Rightarrow>
          if \<not> truthy (tk_name a) \<and> \<not> truthy (tk_name b) then 0
          else if \<not> truthy (tk_name a) then 1
          else if \<not> truthy (tk_name b) then -1
          else localeCompare (the (tk_name a)) (the (tk_name b)))"

text \<open>\<open>sort\<close> of an array with a comparison function, which is stable.\<close>

fun insert_by :: "('a \<Rightarrow> 'a \<Rightarrow> int) \<Rightarrow> 'a \<Rightarrow> 'a list \<Rightarrow> 'a list" where
  "insert_by cmp x [] = [x]"
| "insert_by cmp x (y # ys) = (if cmp x y \<le> 0 then x # y # ys else y # insert_by cmp x ys)"

definition js_sort :: "('a \<Rightarrow> 'a \<Rightarrow> int) \<Rightarrow> 'a list \<Rightarrow> 'a list" where
  "js_sort cmp xs = foldr (insert_by cmp) xs []"

definition sortTracks :: "(string \<Rightarrow> string \<Rightarrow> int) \<Rightarrow> track list \<Rightarrow> track list \<Rightarrow> track list" where
  "sortTracks localeCompare infraTracks virtualTracks =
     (let ncTrack = find (\<lambda>t. tk_id t = NO_TRACK_SPECIFIED_SYMBOL) virtualTracks;
          otherVirtual = js_sort (compareTracksByName localeCompare) (filter (\<lambda>t. tk_id t \<noteq> NO_TRACK_SPECIFIED_SYMBOL) virtualTracks)
      in infraTracks @ otherVirtual @ (case ncTrack of None \<Rightarrow> [] | Some t \<Rightarrow> [t]))"

section \<open>State\<close>

datatype zones_state =
    ZonesLoading "occupancy_zone list option"
  | ZonesOk "occupancy_zone list"

fun zones_data :: "zones_state \<Rightarrow> occupancy_zone list option" where
  "zones_data (ZonesLoading d) = d"
| "zones_data (ZonesOk d) = Some d"

text \<open>The spread \<open>{...state.zones, data}\<close>.\<close>

fun with_data :: "zones_state \<Rightarrow> occupancy_zone list \<Rightarrow> zones_state" where
  "with_data (ZonesLoading _) d = ZonesLoading (Some d)"
| "with_data (ZonesOk _) d = ZonesOk d"

record point_state =
  pt_selected :: bool
  pt_zones :: zones_state

datatype station_label =
    StationLabel "string option"
  | RequestedPoint

record station_labels =
  sl_origin :: "station_label option"
  sl_destination :: "station_label option"

text \<open>The state of the hook: the waypoints that have been opened, the tracks by waypoint with the flag of their loading, the labels
  of the origins and destinations by train, the identifiers of the tracks by name and waypoint, and the trains that are dragged.
  A label that has been reset to undefined is absent.\<close>

record occupancy_state =
  to_points :: "point_state obj"
  to_tracksOk :: bool
  to_tracks :: "track list obj option"
  to_labels :: "(int \<times> station_labels) list"
  to_trackIds :: "(string \<times> (string \<times> string) list) list"
  to_dragged :: "int list"

definition newOccupancyState :: occupancy_state where
  "newOccupancyState =
     \<lparr>to_points = [], to_tracksOk = False, to_tracks = None, to_labels = [], to_trackIds = [], to_dragged = []\<rparr>"

record path_op =
  po_waypointId :: string
  po_opId :: "string option"
  po_position :: int
  po_track :: string
  po_ch :: "string option"
  po_trigram :: "string option"
  po_uic :: "int option"
  po_name :: "string option"

definition extractStationLabel :: "string \<Rightarrow> station_label option \<Rightarrow> string option" where
  "extractStationLabel requestedPointUnknown stationLabel =
     (case stationLabel of
        None \<Rightarrow> None
      | Some RequestedPoint \<Rightarrow> Some requestedPointUnknown
      | Some (StationLabel label) \<Rightarrow> label)"

definition getOperationalPointReference :: "path_op option \<Rightarrow> op_reference option" where
  "getOperationalPointReference op1 =
     (case op1 of
        None \<Rightarrow> None
      | Some p \<Rightarrow>
          if truthy (po_opId p) \<and> po_track p \<noteq> [] then Some (OpId (the (po_opId p)))
          else let ch = (if truthy (po_ch p) then po_ch p else None) in
               if truthy (po_trigram p) then Some (OpTrigram (the (po_trigram p)) ch)
               else map_option (\<lambda>uic. OpUic uic ch) (po_uic p))"

definition updatePathOperationalPointState ::
  "string \<Rightarrow> (point_state option \<Rightarrow> point_state option) \<Rightarrow> point_state obj \<Rightarrow> point_state obj" where
  "updatePathOperationalPointState waypointId f points =
     filter (\<lambda>p. fst p \<noteq> waypointId) points @
     (case f (obj_get points waypointId) of None \<Rightarrow> [] | Some s \<Rightarrow> [(waypointId, s)])"

section \<open>Request of the zones\<close>

datatype occupation_kind =
    OcBase int
  | OcModified string int
  | OcCreated string

record occupation =
  oc_train_schedule_id :: int
  oc_kind :: occupation_kind
  oc_time_begin :: string
  oc_duration :: string

record track_item =
  ti_local_track_name :: "string option"
  ti_trains :: "occupation list"

type_synonym occupancy_server = "op_reference \<Rightarrow> int list \<Rightarrow> track_item list option"

text \<open>\<open>Object.fromEntries\<close> on numeric keys: the last value of a key, in the order of the keys.\<close>

definition from_entries :: "(int \<times> 'v) list \<Rightarrow> 'v obj" where
  "from_entries entries =
     map (\<lambda>(k, v). (string_of_int k, v)) (sort_key fst (foldl (\<lambda>m (k, v). AList.update k v m) [] entries))"

definition occupied_track :: "(string \<times> (string \<times> string) list) list \<Rightarrow> string \<Rightarrow> string option \<Rightarrow> string" where
  "occupied_track trackIds waypointId localTrackName =
     (if \<not> truthy localTrackName then NO_TRACK_SPECIFIED_SYMBOL
      else case (if waypointId \<noteq> [] then Option.bind (map_of trackIds waypointId) (\<lambda>m. map_of m (the localTrackName)) else None) of
             Some mapped \<Rightarrow> mapped
           | None \<Rightarrow> the localTrackName)"

definition occupation_exception ::
  "projection_data \<Rightarrow> (curve, signal_update) projected_paced \<Rightarrow> occupation_kind \<Rightarrow> paced_exception option result" where
  "occupation_exception train paced kind =
     (let found = (\<lambda>key. case find (\<lambda>e. ex_key e = key) (pp_exceptions paced) of
                           None \<Rightarrow> Inl (JSError (''Exception not found for train '' @ string_of_int (sp_id train)))
                         | Some e \<Rightarrow> Inr (Some e)) in
      case kind of OcBase _ \<Rightarrow> Inr None | OcModified key _ \<Rightarrow> found key | OcCreated key \<Rightarrow> found key)"

definition occupation_curves ::
  "projection_data \<Rightarrow> (curve, signal_update) projected_paced \<Rightarrow> occupation_kind \<Rightarrow> curve list" where
  "occupation_curves train paced kind =
     (let projection = (\<lambda>key. case map_of (pp_exceptionProjections paced) key of Some p \<Rightarrow> pr_curves p | None \<Rightarrow> pr_curves (sp_projection train)) in
      case kind of OcBase _ \<Rightarrow> pr_curves (sp_projection train) | OcModified key _ \<Rightarrow> projection key | OcCreated key \<Rightarrow> projection key)"

text \<open>The identifier, the name and the start time of the train that occupies the track.\<close>

definition indexed_train ::
  "(string \<Rightarrow> date) \<Rightarrow> projection_data \<Rightarrow> (curve, signal_update) projected_paced \<Rightarrow> paced_exception option \<Rightarrow> int \<Rightarrow>
   (string \<times> string \<times> date) result" where
  "indexed_train parseDate train paced exception index =
     bind_result (formatPacedTrainIdToIndexedOccurrenceId (formatEditoastIdToPacedTrainId (of_int (sp_id train))) (of_int index)) (\<lambda>trainId.
       Inr (trainId,
            (case Option.bind exception cg_train_name of Some n \<Rightarrow> n | None \<Rightarrow> computeOccurrenceName (sp_name train) (of_int index)),
            (if truthy (Option.bind exception cg_start_time) then parseDate (the (Option.bind exception cg_start_time))
             else computeIndexedOccurrenceStartTime (sp_departureTime train) (pp_interval paced) index)))"

definition created_train ::
  "(string \<Rightarrow> date) \<Rightarrow> projection_data \<Rightarrow> paced_exception option \<Rightarrow> string \<Rightarrow> (string \<times> string \<times> date) result" where
  "created_train parseDate train exception key =
     (if \<not> truthy (Option.bind exception cg_start_time)
      then Inl (JSError ''Created exceptions should always be a start time exception'')
      else bind_result (formatPacedTrainIdToExceptionId (formatEditoastIdToPacedTrainId (of_int (sp_id train))) key) (\<lambda>trainId.
             Inr (trainId,
                  (case Option.bind exception cg_train_name of Some n \<Rightarrow> n | None \<Rightarrow> sp_name train @ ''/+''),
                  parseDate (the (Option.bind exception cg_start_time)))))"

definition occupying_train ::
  "(string \<Rightarrow> date) \<Rightarrow> projection_data \<Rightarrow> (curve, signal_update) projected_paced \<Rightarrow> paced_exception option \<Rightarrow> occupation_kind \<Rightarrow>
   (string \<times> string \<times> date) result" where
  "occupying_train parseDate train paced exception kind =
     (case kind of
        OcCreated key \<Rightarrow> created_train parseDate train exception key
      | OcBase index \<Rightarrow> indexed_train parseDate train paced exception index
      | OcModified key index \<Rightarrow> indexed_train parseDate train paced exception index)"

fun kind_name :: "occupation_kind \<Rightarrow> string" where
  "kind_name (OcBase _) = ''base''"
| "kind_name (OcModified _ _) = ''modified''"
| "kind_name (OcCreated _) = ''created''"

definition paced_zone ::
  "(string \<Rightarrow> date) \<Rightarrow> (string \<Rightarrow> duration) \<Rightarrow> projection_data \<Rightarrow> (curve, signal_update) projected_paced \<Rightarrow> string \<Rightarrow> occupation \<Rightarrow>
   occupancy_zone result" where
  "paced_zone parseDate parse train paced trackId occ =
     bind_result (occupation_exception train paced (oc_kind occ)) (\<lambda>exception.
     bind_result (occupying_train parseDate train paced exception (oc_kind occ)) (\<lambda>(trainId, trainName, startTime).
       getMovableOccupancyZone parseDate parse trackId trainId (oc_time_begin occ, oc_duration occ)
         (occupation_curves train paced (oc_kind occ)) trainName startTime exception))"

text \<open>The numbers of the trains in the answer are looked up by their own decimal form.\<close>

definition occupation_zone ::
  "(string \<Rightarrow> date) \<Rightarrow> (string \<Rightarrow> duration) \<Rightarrow> projection_data option obj \<Rightarrow> string \<Rightarrow> occupation \<Rightarrow> occupancy_zone result" where
  "occupation_zone parseDate parse trainsCollection trackId occ =
     (let itemId = oc_train_schedule_id occ in
      case Option.bind (obj_get trainsCollection (string_of_int itemId)) id of
        None \<Rightarrow> Inl (JSError (''No train found for id '' @ string_of_int itemId))
      | Some train \<Rightarrow>
          (case sp_paced train of
             None \<Rightarrow>
               (case oc_kind occ of
                  OcBase _ \<Rightarrow>
                    getMovableOccupancyZone parseDate parse trackId (formatEditoastIdToPacedTrainId (of_int itemId))
                      (oc_time_begin occ, oc_duration occ) (pr_curves (sp_projection train)) (sp_name train) (sp_departureTime train) None
                | kind \<Rightarrow> Inl (JSError (''Invalid occupation type '' @ kind_name kind @ '' for unique train '' @ string_of_int (sp_id train))))
           | Some paced \<Rightarrow> paced_zone parseDate parse train paced trackId occ))"

definition track_zones ::
  "(string \<Rightarrow> date) \<Rightarrow> (string \<Rightarrow> duration) \<Rightarrow> (string \<times> (string \<times> string) list) list \<Rightarrow> string \<Rightarrow> projection_data option obj \<Rightarrow>
   track_item \<Rightarrow> occupancy_zone list result" where
  "track_zones parseDate parse trackIds waypointId trainsCollection item =
     map_result (occupation_zone parseDate parse trainsCollection (occupied_track trackIds waypointId (ti_local_track_name item)))
       (ti_trains item)"

definition fetchTrackOccupancy ::
  "(string \<Rightarrow> date) \<Rightarrow> (string \<Rightarrow> duration) \<Rightarrow> occupancy_server \<Rightarrow> (string \<times> (string \<times> string) list) list \<Rightarrow> op_reference option \<Rightarrow>
   string \<Rightarrow> projection_data option obj \<Rightarrow> occupancy_zone list result" where
  "fetchTrackOccupancy parseDate parse server trackIds opRef waypointId trainsCollection =
     (case opRef of
        None \<Rightarrow> Inr []
      | Some ref \<Rightarrow>
          bind_result (map_result (\<lambda>(k, train). case train of None \<Rightarrow> Inl TypeError | Some t \<Rightarrow> Inr (sp_id t)) trainsCollection) (\<lambda>ids.
            case (if ids \<noteq> [] then server ref ids else None) of
              None \<Rightarrow> Inr []
            | Some items \<Rightarrow>
                bind_result (map_result (track_zones parseDate parse trackIds waypointId trainsCollection) items) (\<lambda>zss. Inr (concat zss))))"

text \<open>\<open>timetableItemProjectionsById\<close>, and the collection of some of its trains.\<close>

definition projections_by_id :: "projection_data list \<Rightarrow> (int \<times> projection_data) list" where
  "projections_by_id trains = mapBy sp_id (Some trains)"

definition trains_collection :: "projection_data list \<Rightarrow> int list \<Rightarrow> projection_data option obj" where
  "trains_collection trains ids = from_entries (map (\<lambda>i. (i, map_of (projections_by_id trains) i)) ids)"

section \<open>Batches (batchFetchTrackOccupancy)\<close>

function js_chunk :: "nat \<Rightarrow> 'a list \<Rightarrow> 'a list list" where
  "js_chunk n xs = (if n = 0 \<or> xs = [] then [] else take n xs # js_chunk n (drop n xs))"
  by pat_completeness auto
termination
  by (relation "measure (\<lambda>(n, xs). length xs)") auto

declare js_chunk.simps [simp del]

datatype 'z batch_call =
    OnProgress "'z list"
  | OnComplete "'z list"
  | OnError js_error

text \<open>The calls of the loader, in order. The flag says whether the loader has been aborted when the answer to a batch comes.\<close>

fun load_batches :: "('i list \<Rightarrow> 'z list result) \<Rightarrow> 'z list \<Rightarrow> ('i list \<times> bool) list \<Rightarrow> 'z batch_call list" where
  "load_batches fetch allZones [] = [OnComplete allZones]"
| "load_batches fetch allZones ((batch, isAborted) # batches) =
     (case fetch batch of
        Inl e \<Rightarrow> [OnError e]
      | Inr newValues \<Rightarrow>
          if isAborted then []
          else OnProgress (allZones @ newValues) # load_batches fetch (allZones @ newValues) batches)"

definition batchFetchTrackOccupancy ::
  "nat \<Rightarrow> ('i list \<Rightarrow> 'z list result) \<Rightarrow> (nat \<Rightarrow> bool) \<Rightarrow> 'i list \<Rightarrow> 'z batch_call list" where
  "batchFetchTrackOccupancy batchSize fetch isAborted allIDs =
     (let batches = js_chunk batchSize allIDs in load_batches fetch [] (zip batches (map isAborted [0..<length batches])))"

section \<open>Deployed waypoints\<close>

record drawn_zone = occupancy_zone +
  dz_originStation :: "string option"
  dz_destinationStation :: "string option"

record deployed_waypoint =
  dw_waypointId :: string
  dw_operationalPointId :: string
  dw_position :: int
  dw_name :: "string option"
  dw_zones :: "drawn_zone list option"
  dw_tracks :: "track list"
  dw_loading :: bool

text \<open>The track of a zone once the tracks of the infrastructure are known.\<close>

definition resolved_track :: "string list \<Rightarrow> (string \<times> string) list option \<Rightarrow> string \<Rightarrow> string" where
  "resolved_track infraTrackIds trackMapping trackId =
     (if trackId \<notin> set infraTrackIds \<and> truthy (Option.bind trackMapping (\<lambda>m. map_of m trackId))
      then the (Option.bind trackMapping (\<lambda>m. map_of m trackId)) else trackId)"

definition resolve_zone ::
  "string \<Rightarrow> (int \<times> station_labels) list \<Rightarrow> string list \<Rightarrow> (string \<times> string) list option \<Rightarrow> occupancy_zone \<Rightarrow> drawn_zone result" where
  "resolve_zone requestedPointUnknown labels infraTrackIds trackMapping zone =
     bind_result (item_number (oz_trainId zone)) (\<lambda>owner.
       let trainStationLabels = map_of (map (\<lambda>(k, v). (of_int k, v)) labels) owner in
       Inr (occupancy_zone.extend (zone\<lparr>oz_trackId := resolved_track infraTrackIds trackMapping (oz_trackId zone)\<rparr>)
              \<lparr>dz_originStation = extractStationLabel requestedPointUnknown (Option.bind trainStationLabels sl_origin),
               dz_destinationStation = extractStationLabel requestedPointUnknown (Option.bind trainStationLabels sl_destination)\<rparr>))"

definition add_new :: "'a \<Rightarrow> 'a list \<Rightarrow> 'a list" where
  "add_new x xs = (if x \<in> set xs then xs else xs @ [x])"

definition virtual_tracks :: "string list \<Rightarrow> string list \<Rightarrow> track list" where
  "virtual_tracks infraTrackIds zoneTracks =
     map (\<lambda>i. \<lparr>tk_id = i, tk_name = Some i, tk_line = None\<rparr>) (fold add_new (filter (\<lambda>i. i \<notin> set infraTrackIds) zoneTracks) [])"

definition deploy_waypoint ::
  "(string \<Rightarrow> string \<Rightarrow> int) \<Rightarrow> string \<Rightarrow> occupancy_state \<Rightarrow> string \<Rightarrow> point_state \<Rightarrow> path_op \<Rightarrow> deployed_waypoint result" where
  "deploy_waypoint localeCompare requestedPointUnknown st waypointId opState op1 =
     (let infraTracks = (case Option.bind (to_tracks st) (\<lambda>d. obj_get d waypointId) of None \<Rightarrow> [] | Some ts \<Rightarrow> ts);
          infraTrackIds = map tk_id infraTracks;
          trackMapping = map_of (to_trackIds st) waypointId in
      bind_result
        (case zones_data (pt_zones opState) of
           None \<Rightarrow> Inr None
         | Some zones \<Rightarrow>
             bind_result (map_result (resolve_zone requestedPointUnknown (to_labels st) infraTrackIds trackMapping) zones) (\<lambda>zs. Inr (Some zs)))
        (\<lambda>resolvedZones.
          let zoneTracks = (case resolvedZones of None \<Rightarrow> [] | Some zs \<Rightarrow> map oz_trackId zs) in
          Inr \<lparr>dw_waypointId = waypointId,
               dw_operationalPointId = (case po_opId op1 of Some i \<Rightarrow> i | None \<Rightarrow> waypointId),
               dw_position = po_position op1,
               dw_name = (if truthy (po_name op1) then po_name op1 else None),
               dw_zones = resolvedZones,
               dw_tracks = sortTracks localeCompare infraTracks (virtual_tracks infraTrackIds zoneTracks),
               dw_loading = (case pt_zones opState of ZonesLoading _ \<Rightarrow> True | ZonesOk _ \<Rightarrow> False)\<rparr>))"

definition path_ops_by_waypoint :: "path_op list \<Rightarrow> (string \<times> path_op) list" where
  "path_ops_by_waypoint ops = mapBy po_waypointId (Some ops)"

definition deployedWaypoints ::
  "(string \<Rightarrow> string \<Rightarrow> int) \<Rightarrow> string \<Rightarrow> path_op list \<Rightarrow> occupancy_state \<Rightarrow> deployed_waypoint list result" where
  "deployedWaypoints localeCompare requestedPointUnknown pathOperationalPoints st =
     map_result (\<lambda>(waypointId, opState, op1). deploy_waypoint localeCompare requestedPointUnknown st waypointId opState op1)
       (List.map_filter
          (\<lambda>(waypointId, opState).
             if pt_selected opState then map_option (\<lambda>op1. (waypointId, opState, op1)) (map_of (path_ops_by_waypoint pathOperationalPoints) waypointId)
             else None)
          (to_points st))"

section \<open>Opening a waypoint (toggleWaypoint)\<close>

definition on_point :: "string \<Rightarrow> (point_state \<Rightarrow> point_state) \<Rightarrow> occupancy_state \<Rightarrow> occupancy_state" where
  "on_point waypointId f st = st\<lparr>to_points := updatePathOperationalPointState waypointId (map_option f) (to_points st)\<rparr>"

text \<open>The answers to a batch, to the last one, and to the refresh of a waypoint that is opened again.\<close>

definition on_progress_zones :: "string \<Rightarrow> occupancy_zone list \<Rightarrow> occupancy_state \<Rightarrow> occupancy_state" where
  "on_progress_zones waypointId data1 = on_point waypointId (\<lambda>s. s\<lparr>pt_zones := with_data (pt_zones s) data1\<rparr>)"

definition on_complete_zones :: "string \<Rightarrow> occupancy_zone list \<Rightarrow> occupancy_state \<Rightarrow> occupancy_state" where
  "on_complete_zones waypointId data1 = on_point waypointId (\<lambda>s. s\<lparr>pt_zones := ZonesOk data1\<rparr>)"

definition on_reopened_zones :: "string \<Rightarrow> occupancy_zone list \<Rightarrow> occupancy_state \<Rightarrow> occupancy_state" where
  "on_reopened_zones waypointId newZones st =
     (if newZones = [] then st else on_point waypointId (\<lambda>s. s\<lparr>pt_zones := ZonesOk newZones\<rparr>) st)"

fun batch_event :: "string \<Rightarrow> occupancy_zone batch_call \<Rightarrow> occupancy_state \<Rightarrow> occupancy_state" where
  "batch_event waypointId (OnProgress data1) st = on_progress_zones waypointId data1 st"
| "batch_event waypointId (OnComplete data1) st = on_complete_zones waypointId data1 st"
| "batch_event waypointId (OnError e) st = st"

text \<open>What the toggle requests: nothing, the batches of all trains, or one request for all trains.\<close>

datatype zone_request = NoRequest | BatchRequest | RefreshRequest

definition toggleWaypoint ::
  "path_op list \<Rightarrow> string \<Rightarrow> bool option \<Rightarrow> occupancy_state \<Rightarrow> (occupancy_state \<times> zone_request) result" where
  "toggleWaypoint pathOperationalPoints waypointId selectedState st =
     (case map_of (path_ops_by_waypoint pathOperationalPoints) waypointId of
        None \<Rightarrow> Inl (JSError (''Waypoint '' @ waypointId @ '' has not been provided to useTrackOccupancy.''))
      | Some waypoint \<Rightarrow>
          let currentState = obj_get (to_points st) waypointId;
              currentSelected = (case currentState of None \<Rightarrow> False | Some s \<Rightarrow> pt_selected s);
              newSelected = (case selectedState of Some b \<Rightarrow> b | None \<Rightarrow> \<not> currentSelected);
              store = (\<lambda>s. st\<lparr>to_points := updatePathOperationalPointState waypointId (\<lambda>_. Some s) (to_points st)\<rparr>) in
          if currentSelected = newSelected then Inr (st, NoRequest)
          else case currentState of
                 None \<Rightarrow> Inr (store \<lparr>pt_selected = newSelected, pt_zones = ZonesLoading None\<rparr>, BatchRequest)
               | Some s \<Rightarrow>
                   Inr (store (s\<lparr>pt_selected := newSelected\<rparr>),
                        if \<not> currentSelected \<and> newSelected \<and> getOperationalPointReference (Some waypoint) \<noteq> None
                        then RefreshRequest else NoRequest))"

text \<open>Opening a waypoint when every request is answered at once.\<close>

definition open_waypoint ::
  "(string \<Rightarrow> date) \<Rightarrow> (string \<Rightarrow> duration) \<Rightarrow> occupancy_server \<Rightarrow> (nat \<Rightarrow> bool) \<Rightarrow> projection_data list \<Rightarrow> path_op list \<Rightarrow> string \<Rightarrow>
   bool option \<Rightarrow> occupancy_state \<Rightarrow> occupancy_state result" where
  "open_waypoint parseDate parse server isAborted trains pathOperationalPoints waypointId selectedState st =
     bind_result (toggleWaypoint pathOperationalPoints waypointId selectedState st) (\<lambda>(st1, request).
       let opRef = getOperationalPointReference (map_of (path_ops_by_waypoint pathOperationalPoints) waypointId);
           fetch = (\<lambda>ids. fetchTrackOccupancy parseDate parse server (to_trackIds st1) opRef waypointId (trains_collection trains ids));
           allIds = map fst (projections_by_id trains) in
       case request of
         NoRequest \<Rightarrow> Inr st1
       | BatchRequest \<Rightarrow> Inr (fold (batch_event waypointId) (batchFetchTrackOccupancy 50 fetch isAborted allIds) st1)
       | RefreshRequest \<Rightarrow> bind_result (fetch allIds) (\<lambda>newZones. Inr (on_reopened_zones waypointId newZones st1)))"

section \<open>Dragging a train (updateTrackOccupanciesOnDrag)\<close>

definition moves_with :: "string \<Rightarrow> occupancy_zone \<Rightarrow> bool result" where
  "moves_with draggedPacedTrainId zone =
     (if \<not> isOccurrenceId (oz_trainId zone) then Inr False
      else bind_result (extractPacedTrainIdFromOccurrenceId (oz_trainId zone)) (\<lambda>p.
             Inr (p = draggedPacedTrainId \<and> \<not> oz_isStartTimeException zone)))"

definition move_zone :: "string \<Rightarrow> int \<Rightarrow> occupancy_zone \<Rightarrow> occupancy_zone result" where
  "move_zone draggedPacedTrainId offset zone =
     bind_result (moves_with draggedPacedTrainId zone) (\<lambda>b.
       Inr (if b then zone\<lparr>oz_startTime := oz_dbStartTime zone + offset, oz_endTime := oz_dbEndTime zone + offset\<rparr> else zone))"

definition map_zones :: "(occupancy_zone \<Rightarrow> occupancy_zone result) \<Rightarrow> zones_state \<Rightarrow> zones_state result" where
  "map_zones f zs =
     (case zones_data zs of
        None \<Rightarrow> Inr zs
      | Some d \<Rightarrow> bind_result (map_result f d) (\<lambda>d'. Inr (with_data zs d')))"

definition move_point :: "string \<Rightarrow> int \<Rightarrow> string \<times> point_state \<Rightarrow> (string \<times> point_state) result" where
  "move_point draggedPacedTrainId offset p =
     (if \<not> pt_selected (snd p) then Inr p
      else bind_result (map_zones (move_zone draggedPacedTrainId offset) (pt_zones (snd p))) (\<lambda>zs. Inr (fst p, (snd p)\<lparr>pt_zones := zs\<rparr>)))"

definition dragged_point :: "string \<Rightarrow> string \<times> point_state \<Rightarrow> bool" where
  "dragged_point draggedPacedTrainId p =
     (pt_selected (snd p) \<and>
      (case zones_data (pt_zones (snd p)) of
         None \<Rightarrow> False
       | Some d \<Rightarrow> list_ex (\<lambda>zone. moves_with draggedPacedTrainId zone = Inr True) d))"

text \<open>The new state and the impacted waypoints.\<close>

definition move_zones :: "string \<Rightarrow> date \<Rightarrow> date \<Rightarrow> bool \<Rightarrow> occupancy_state \<Rightarrow> (occupancy_state \<times> string list) result" where
  "move_zones draggedTrainId initialDepartureTime newDepartureTime stopPanning st =
     bind_result (item_number draggedTrainId) (\<lambda>n.
       let draggedTimetableItemId = js_trunc n;
           dragged = (if stopPanning then removeAll draggedTimetableItemId (to_dragged st) else add_new draggedTimetableItemId (to_dragged st));
           draggedPacedTrainId = formatEditoastIdToPacedTrainId n in
       bind_result (map_result (move_point draggedPacedTrainId (newDepartureTime - initialDepartureTime)) (to_points st)) (\<lambda>points.
         Inr (st\<lparr>to_dragged := dragged, to_points := points\<rparr>,
              map fst (filter (dragged_point draggedPacedTrainId) (to_points st)))))"

text \<open>The collection that is given to the request at the end of the movement has the identifier of the dragged train as its key.\<close>

definition drag_collection :: "string \<Rightarrow> projection_data \<Rightarrow> projection_data option obj" where
  "drag_collection draggedTrainId newTrainData = [(draggedTrainId, Some newTrainData)]"

definition replace_zone :: "string \<Rightarrow> occupancy_zone \<Rightarrow> zones_state \<Rightarrow> zones_state" where
  "replace_zone draggedTrainId newZone zs =
     (case zones_data zs of
        None \<Rightarrow> zs
      | Some d \<Rightarrow> with_data zs (map (\<lambda>zone. if oz_trainId zone = draggedTrainId then newZone else zone) d))"

definition drag_answer :: "string \<Rightarrow> string \<Rightarrow> occupancy_zone list \<Rightarrow> occupancy_state \<Rightarrow> occupancy_state result" where
  "drag_answer draggedTrainId waypointId newZones st =
     (case newZones of
        [] \<Rightarrow> Inr st
      | newZone # _ \<Rightarrow>
          (case obj_get (to_points st) waypointId of
             None \<Rightarrow> Inl TypeError
           | Some s \<Rightarrow> Inr (st\<lparr>to_points := obj_set (to_points st) waypointId (s\<lparr>pt_zones := replace_zone draggedTrainId newZone (pt_zones s)\<rparr>)\<rparr>)))"

fun refresh_dragged ::
  "(string \<Rightarrow> occupancy_zone list result) \<Rightarrow> string \<Rightarrow> string list \<Rightarrow> occupancy_state \<Rightarrow> occupancy_state result" where
  "refresh_dragged fetch draggedTrainId [] st = Inr st"
| "refresh_dragged fetch draggedTrainId (w # ws) st =
     bind_result (fetch w) (\<lambda>newZones. bind_result (drag_answer draggedTrainId w newZones st) (refresh_dragged fetch draggedTrainId ws))"

definition updateTrackOccupanciesOnDrag ::
  "(string \<Rightarrow> date) \<Rightarrow> (string \<Rightarrow> duration) \<Rightarrow> occupancy_server \<Rightarrow> path_op list \<Rightarrow> string \<Rightarrow> date \<Rightarrow> projection_data \<Rightarrow> bool \<Rightarrow>
   occupancy_state \<Rightarrow> occupancy_state result" where
  "updateTrackOccupanciesOnDrag parseDate parse server pathOperationalPoints draggedTrainId initialDepartureTime newTrainData stopPanning st =
     bind_result (move_zones draggedTrainId initialDepartureTime (sp_departureTime newTrainData) stopPanning st) (\<lambda>(st1, impacted).
       if \<not> stopPanning then Inr st1
       else refresh_dragged
              (\<lambda>w. fetchTrackOccupancy parseDate parse server (to_trackIds st1)
                     (getOperationalPointReference (map_of (path_ops_by_waypoint pathOperationalPoints) w)) w
                     (drag_collection draggedTrainId newTrainData))
              draggedTrainId impacted st1)"

section \<open>Change of the trains\<close>

record trains_diff =
  td_added :: "int list"
  td_removed :: "int list"
  td_modified :: "int list"
  td_unlabelled :: "int list"

definition diff_step :: "(int \<times> projection_data) list \<Rightarrow> int list \<Rightarrow> trains_diff \<Rightarrow> projection_data \<Rightarrow> trains_diff" where
  "diff_step previous dragged d item =
     (case map_of previous (sp_id item) of
        None \<Rightarrow> d\<lparr>td_added := add_new (sp_id item) (td_added d)\<rparr>
      | Some previousItem \<Rightarrow>
          if item \<noteq> previousItem \<and> sp_id item \<notin> set dragged then
            d\<lparr>td_modified := add_new (sp_id item) (td_modified d),
              td_unlabelled :=
                (if sp_originPathItem item \<noteq> sp_originPathItem previousItem \<or> sp_destinationPathItem item \<noteq> sp_destinationPathItem previousItem
                 then add_new (sp_id item) (td_unlabelled d) else td_unlabelled d)\<rparr>
          else d)"

definition removed_step :: "(int \<times> projection_data) list \<Rightarrow> trains_diff \<Rightarrow> projection_data \<Rightarrow> trains_diff" where
  "removed_step current d item =
     (if map_of current (sp_id item) = None
      then d\<lparr>td_removed := add_new (sp_id item) (td_removed d), td_unlabelled := add_new (sp_id item) (td_unlabelled d)\<rparr> else d)"

definition trains_changes :: "projection_data list \<Rightarrow> projection_data list \<Rightarrow> int list \<Rightarrow> trains_diff" where
  "trains_changes previous current dragged =
     foldl (removed_step (projections_by_id current))
       (foldl (diff_step (projections_by_id previous) dragged) \<lparr>td_added = [], td_removed = [], td_modified = [], td_unlabelled = []\<rparr> current)
       previous"

definition owned_by :: "int list \<Rightarrow> occupancy_zone \<Rightarrow> bool result" where
  "owned_by ids zone = bind_result (item_number (oz_trainId zone)) (\<lambda>n. Inr (n \<in> of_int ` set ids))"

definition data_or_empty :: "zones_state \<Rightarrow> occupancy_zone list" where
  "data_or_empty zs = (case zones_data zs of None \<Rightarrow> [] | Some d \<Rightarrow> d)"

definition without_trains :: "int list \<Rightarrow> occupancy_zone list \<Rightarrow> occupancy_zone list result" where
  "without_trains ids = filter_result (\<lambda>zone. bind_result (owned_by ids zone) (\<lambda>b. Inr (\<not> b)))"

definition update_zones ::
  "(occupancy_zone list \<Rightarrow> occupancy_zone list result) \<Rightarrow> string \<Rightarrow> occupancy_state \<Rightarrow> occupancy_state result" where
  "update_zones f waypointId st =
     (case obj_get (to_points st) waypointId of
        None \<Rightarrow> Inr (on_point waypointId id st)
      | Some s \<Rightarrow> bind_result (f (data_or_empty (pt_zones s))) (\<lambda>d. Inr (on_point waypointId (\<lambda>s. s\<lparr>pt_zones := with_data (pt_zones s) d\<rparr>) st)))"

text \<open>The answer to the request of the zones of the added and modified trains, and the removal of the zones of removed trains.\<close>

definition new_zones :: "int list \<Rightarrow> occupancy_zone list \<Rightarrow> string \<Rightarrow> occupancy_state \<Rightarrow> occupancy_state result" where
  "new_zones modifiedTrainIDs newZones waypointId st =
     (if newZones = [] then Inr st
      else update_zones (\<lambda>d. bind_result (without_trains modifiedTrainIDs d) (\<lambda>d'. Inr (d' @ newZones))) waypointId st)"

definition removed_zones :: "int list \<Rightarrow> string \<Rightarrow> occupancy_state \<Rightarrow> occupancy_state result" where
  "removed_zones removedTrainIDs waypointId st = update_zones (without_trains removedTrainIDs) waypointId st"

fun fold_all :: "('a \<Rightarrow> 's \<Rightarrow> 's result) \<Rightarrow> 'a list \<Rightarrow> 's \<Rightarrow> 's result" where
  "fold_all f [] s = Inr s"
| "fold_all f (x # xs) s = bind_result (f x s) (fold_all f xs)"

text \<open>The synchronous part of the effect, and the whole effect when the requests are answered in the order of the waypoints.\<close>

definition forget_labels :: "int list \<Rightarrow> occupancy_state \<Rightarrow> occupancy_state" where
  "forget_labels ids st = st\<lparr>to_labels := filter (\<lambda>l. fst l \<notin> set ids) (to_labels st)\<rparr>"

definition trains_changed ::
  "projection_data list \<Rightarrow> projection_data list \<Rightarrow> occupancy_state \<Rightarrow> (occupancy_state \<times> int list) result" where
  "trains_changed previous current st =
     (if current = previous \<or> to_points st = [] then Inr (st, [])
      else let d = trains_changes previous current (to_dragged st); st1 = forget_labels (td_unlabelled d) st in
           bind_result
             (if td_removed d \<noteq> [] then fold_all (removed_zones (td_removed d)) (map fst (to_points st)) st1 else Inr st1)
             (\<lambda>st2. Inr (st2, remdups (td_added d @ td_modified d))))"

definition trains_answer ::
  "(string \<Rightarrow> date) \<Rightarrow> (string \<Rightarrow> duration) \<Rightarrow> occupancy_server \<Rightarrow> path_op list \<Rightarrow> projection_data list \<Rightarrow> int list \<Rightarrow> int list \<Rightarrow> string \<Rightarrow>
   occupancy_state \<Rightarrow> occupancy_state result" where
  "trains_answer parseDate parse server pathOperationalPoints current requested modified waypointId st =
     bind_result
       (fetchTrackOccupancy parseDate parse server (to_trackIds st)
          (getOperationalPointReference (map_of (path_ops_by_waypoint pathOperationalPoints) waypointId)) waypointId
          (trains_collection current requested))
       (\<lambda>newZones. new_zones modified newZones waypointId st)"

definition update_trains ::
  "(string \<Rightarrow> date) \<Rightarrow> (string \<Rightarrow> duration) \<Rightarrow> occupancy_server \<Rightarrow> path_op list \<Rightarrow> projection_data list \<Rightarrow> projection_data list \<Rightarrow>
   occupancy_state \<Rightarrow> occupancy_state result" where
  "update_trains parseDate parse server pathOperationalPoints previous current st =
     bind_result (trains_changed previous current st) (\<lambda>(st1, requested).
       if requested = [] then Inr st1
       else fold_all
              (trains_answer parseDate parse server pathOperationalPoints current requested (td_modified (trains_changes previous current (to_dragged st))))
              (map fst (to_points st)) st1)"

section \<open>Tracks of the waypoints (loadAllTracks)\<close>

record matched_op =
  mo_parts :: "(string \<times> string) list"
  mo_trigram :: "string option"
  mo_name :: "string option"

definition waypoints_payload :: "path_op list \<Rightarrow> occupancy_state \<Rightarrow> (string \<times> op_reference) list" where
  "waypoints_payload pathOperationalPoints st =
     List.map_filter (\<lambda>op1. map_option (\<lambda>ref. (po_waypointId op1, ref)) (getOperationalPointReference (Some op1)))
       (filter (\<lambda>op1. Option.bind (to_tracks st) (\<lambda>d. obj_get d (po_waypointId op1)) = None) pathOperationalPoints)"

definition tracks_or_empty :: "occupancy_state \<Rightarrow> track list obj" where
  "tracks_or_empty st = (case to_tracks st of None \<Rightarrow> [] | Some d \<Rightarrow> d)"

definition load_tracks_start :: "path_op list \<Rightarrow> occupancy_state \<Rightarrow> occupancy_state" where
  "load_tracks_start pathOperationalPoints st =
     st\<lparr>to_tracksOk := (waypoints_payload pathOperationalPoints st = []), to_tracks := Some (tracks_or_empty st)\<rparr>"

text \<open>\<open>uniqBy\<close> of lodash: the first element of each key.\<close>

fun uniq_by :: "('a \<Rightarrow> 'k) \<Rightarrow> 'a list \<Rightarrow> 'a list" where
  "uniq_by key [] = []"
| "uniq_by key (x # xs) = x # filter (\<lambda>y. key y \<noteq> key x) (uniq_by key xs)"

text \<open>The line of a track is read in the track sections that the server gives.\<close>

definition op_tracks :: "(string \<Rightarrow> string option) \<Rightarrow> matched_op option \<Rightarrow> track list" where
  "op_tracks line_code op1 =
     uniq_by tk_id
       (map (\<lambda>(t, name). \<lparr>tk_id = t, tk_name = Some name, tk_line = line_code t\<rparr>) (case op1 of None \<Rightarrow> [] | Some p \<Rightarrow> mo_parts p))"

definition track_mapping :: "matched_op \<Rightarrow> (string \<times> string) list" where
  "track_mapping op1 = foldl (\<lambda>m (t, name). AList.update name t m) [] (mo_parts op1)"

text \<open>The answer: one list of operational points for each reference. When there are too few of them the error is caught, the
  mappings read so far are kept and the tracks stay in their loading state.\<close>

definition load_tracks_answer ::
  "(string \<Rightarrow> string option) \<Rightarrow> (string \<times> op_reference) list \<Rightarrow> matched_op list list \<Rightarrow> occupancy_state \<Rightarrow> occupancy_state" where
  "load_tracks_answer line_code payload related st =
     (let matched = map (\<lambda>((w, _), ops). (w, js_at ops 0)) (zip payload related);
          trackIds = foldl (\<lambda>m (w, op1). case op1 of None \<Rightarrow> m | Some p \<Rightarrow> AList.update w (track_mapping p) m) (to_trackIds st) matched;
          loadedTracks = foldl (\<lambda>m (w, op1). obj_set m w (op_tracks line_code op1)) [] matched in
      if length related < length payload then st\<lparr>to_trackIds := trackIds\<rparr>
      else st\<lparr>to_trackIds := trackIds, to_tracksOk := True, to_tracks := Some (obj_spread (tracks_or_empty st) loadedTracks)\<rparr>)"

section \<open>Labels of the origins and destinations\<close>

datatype end_side = Origin | Destination

fun set_label :: "end_side \<Rightarrow> station_label option \<Rightarrow> station_labels \<Rightarrow> station_labels" where
  "set_label Origin l ls = ls\<lparr>sl_origin := l\<rparr>"
| "set_label Destination l ls = ls\<lparr>sl_destination := l\<rparr>"

definition no_labels :: station_labels where "no_labels = \<lparr>sl_origin = None, sl_destination = None\<rparr>"

definition write_label :: "int \<Rightarrow> end_side \<Rightarrow> station_label option \<Rightarrow> (int \<times> station_labels) list \<Rightarrow> (int \<times> station_labels) list" where
  "write_label i s l labels = int_set labels i (set_label s l (case map_of labels i of None \<Rightarrow> no_labels | Some ls \<Rightarrow> ls))"

record label_request =
  lr_item :: int
  lr_side :: end_side
  lr_reference :: op_reference

type_synonym label_state = "(int \<times> station_labels) list \<times> label_request list"

definition label_side :: "int \<Rightarrow> end_side \<Rightarrow> path_item \<Rightarrow> label_state \<Rightarrow> label_state" where
  "label_side i s item ls =
     (case pi_location item of
        TrackOffset _ _ _ \<Rightarrow> (write_label i s (Some RequestedPoint) (fst ls), snd ls)
      | OpPart (OpId opId) _ \<Rightarrow> (fst ls, snd ls @ [\<lparr>lr_item = i, lr_side = s, lr_reference = OpId opId\<rparr>])
      | OpPart (OpTrigram trigram _) _ \<Rightarrow> (write_label i s (Some (StationLabel (Some trigram))) (fst ls), snd ls)
      | OpPart (OpUic uic code) _ \<Rightarrow> (fst ls, snd ls @ [\<lparr>lr_item = i, lr_side = s, lr_reference = OpUic uic code\<rparr>]))"

text \<open>Reading the location of a missing path item raises an error, which ends the preparation; the labels written so far stay.\<close>

fun label_items :: "projection_data list \<Rightarrow> label_state \<Rightarrow> label_state \<times> bool" where
  "label_items [] ls = (ls, True)"
| "label_items (t # ts) ls =
     (let ls0 = (int_set (fst ls) (sp_id t) no_labels, snd ls) in
      case sp_originPathItem t of
        None \<Rightarrow> (ls0, False)
      | Some origin \<Rightarrow>
          (let ls1 = label_side (sp_id t) Origin origin ls0 in
           case sp_destinationPathItem t of
             None \<Rightarrow> (ls1, False)
           | Some destination \<Rightarrow> label_items ts (label_side (sp_id t) Destination destination ls1)))"

definition items_to_fetch :: "projection_data list \<Rightarrow> occupancy_state \<Rightarrow> projection_data list" where
  "items_to_fetch trains st = filter (\<lambda>t. map_of (to_labels st) (sp_id t) = None) trains"

definition label_start :: "projection_data list \<Rightarrow> occupancy_state \<Rightarrow> occupancy_state \<times> label_request list" where
  "label_start trains st =
     (let (ls, complete) = label_items (items_to_fetch trains st) (to_labels st, [])
      in (st\<lparr>to_labels := fst ls\<rparr>, if complete then snd ls else []))"

definition op_label :: "matched_op option \<Rightarrow> station_label" where
  "op_label op1 =
     StationLabel
       (if truthy (Option.bind op1 mo_trigram) then Option.bind op1 mo_trigram
        else if truthy (Option.bind op1 mo_name) then Option.bind op1 mo_name else None)"

definition label_answer :: "label_request list \<Rightarrow> matched_op list list \<Rightarrow> occupancy_state \<Rightarrow> occupancy_state" where
  "label_answer requests related st =
     st\<lparr>to_labels := fold (\<lambda>(r, ops). write_label (lr_item r) (lr_side r) (Some (op_label (js_at ops 0)))) (zip requests related) (to_labels st)\<rparr>"

end
