(* ===== verification/TrackZones.thy ===== *)
theory TrackZones
  imports TrackOccupancy SpaceTimeChartProperties LazyLoaderProperties ScenarioProperties "HOL-Library.Multiset"
begin

text \<open>
  The zones of the track occupancy: the zone of an occupation belongs to the train that the chart draws; a request as a table of zones
  by train; what one update does to the zones of a waypoint.
\<close>

section \<open>Zones and drawn trains\<close>

text \<open>The server names an occurrence by its index, the key of the exception that modifies it, or the key of the exception that adds it.\<close>

definition occupied_by :: "projection_data \<Rightarrow> occupation_kind \<Rightarrow> individual_projection \<Rightarrow> bool" where
  "occupied_by train kind d =
     (case sp_paced train of
        None \<Rightarrow> (case kind of OcBase _ \<Rightarrow> True | _ \<Rightarrow> False)
      | Some paced \<Rightarrow>
          (case kind of
             OcBase i \<Rightarrow> 0 \<le> i \<and> ip_exception d = None \<and> ip_id d = formatEditoastIdToIndexedOccurrenceId (of_int (sp_id train)) (of_int i)
           | OcModified key i \<Rightarrow> 0 \<le> i \<and> map_option (\<lambda>e. (ex_key e, ex_occurrence_index e)) (ip_exception d) = Some (key, Some (nat i))
           | OcCreated key \<Rightarrow> map_option (\<lambda>e. (ex_key e, ex_occurrence_index e)) (ip_exception d) = Some (key, None)))"

lemma find_key:
  assumes "distinct (map ex_key es)" "e \<in> set es"
  shows "find (\<lambda>e'. ex_key e' = ex_key e) es = Some e"
  using assms by (induction es) auto

lemma find_index_mem: "find (\<lambda>e. ex_occurrence_index e = Some i) es = Some e \<Longrightarrow> e \<in> set es \<and> ex_occurrence_index e = Some i"
  by (metis (mono_tags, lifting) find_Some_iff nth_mem)

lemma indexed_train_drawn:
  assumes "find (\<lambda>e. ex_occurrence_index e = Some i) (pp_exceptions paced) = exception" "\<forall>e \<in> set (pp_exceptions paced). cg_start_time e \<noteq> Some []"
    and "d = drawn_occurrence parseDate train paced i"
  shows "indexed_train parseDate train paced exception (int i) = Inr (ip_id d, ip_name d, ip_departureTime d)"
proof -
  have f: "formatPacedTrainIdToIndexedOccurrenceId (formatEditoastIdToPacedTrainId (of_int (sp_id train))) (of_int (int i)) =
      Inr (formatEditoastIdToIndexedOccurrenceId (of_int (sp_id train)) (of_int (int i)))"
    by (simp add: formatPacedTrainIdToIndexedOccurrenceId_def extract_paced del: of_int_of_nat_eq)
  have "truthy (Option.bind exception cg_start_time) \<longleftrightarrow> Option.bind exception cg_start_time \<noteq> None"
    using assms(1,2) find_index_mem [of i "pp_exceptions paced"] by (cases exception) (auto simp: truthy_def split: option.split)
  then show ?thesis
    unfolding indexed_train_def f bind_result.simps assms(3) drawn_occurrence_def assms(1) Let_def
    by (simp add: occurrence_start_def assms(1) option.case_eq_if)
qed

lemma created_train_drawn:
  assumes "truthy (cg_start_time e)"
    and "d = drawn_addition parseDate train paced e"
  shows "created_train parseDate train (Some e) (ex_key e) = Inr (ip_id d, ip_name d, ip_departureTime d)"
proof -
  have "formatPacedTrainIdToExceptionId (formatEditoastIdToPacedTrainId (of_int (sp_id train))) (ex_key e) =
      Inr (formatEditoastIdToExceptionId (of_int (sp_id train)) (ex_key e))"
    by (simp add: formatPacedTrainIdToExceptionId_def extract_paced)
  then show ?thesis using assms(1) by (simp add: created_train_def assms(2) drawn_addition_def)
qed

lemma paced_zone_occurrence:
  assumes "sp_paced train = Some paced" "distinct (map ex_key (pp_exceptions paced))"
    and "\<forall>e \<in> set (pp_exceptions paced). cg_start_time e \<noteq> Some []"
    and "d = drawn_occurrence parseDate train paced i" "occupied_by train (oc_kind occ) d"
  shows "paced_zone parseDate parse train paced trackId occ =
    getMovableOccupancyZone parseDate parse trackId (ip_id d) (oc_time_begin occ, oc_duration occ) (pr_curves (ip_projection d))
      (ip_name d) (ip_departureTime d) (ip_exception d)"
proof (cases "ip_exception d")
  case None
  then have f: "find (\<lambda>e. ex_occurrence_index e = Some i) (pp_exceptions paced) = None" by (simp add: assms(4) drawn_occurrence_def Let_def)
  from None assms(1,5) obtain j where j: "oc_kind occ = OcBase j" "0 \<le> j"
    "ip_id d = formatEditoastIdToIndexedOccurrenceId (of_int (sp_id train)) (of_int j)"
    by (auto simp: occupied_by_def split: occupation_kind.splits)
  then have "formatEditoastIdToIndexedOccurrenceId (of_int (sp_id train)) (of_nat i) =
      formatEditoastIdToIndexedOccurrenceId (of_int (sp_id train)) (of_nat (nat j))"
    by (simp add: assms(4) drawn_occurrence_def Let_def)
  then have "i = nat j" unfolding indexed_id_inject .
  then have "j = int i" using j(2) by simp
  with j(1) have k: "oc_kind occ = OcBase (int i)" by simp
  have "ip_projection d = sp_projection train" by (simp add: assms(4) drawn_occurrence_def f)
  then show ?thesis
    using None indexed_train_drawn [OF f assms(3,4)]
    by (simp add: paced_zone_def k occupation_exception_def occupying_train_def occupation_curves_def)
next
  case (Some e)
  then have f: "find (\<lambda>e. ex_occurrence_index e = Some i) (pp_exceptions paced) = Some e" by (simp add: assms(4) drawn_occurrence_def Let_def)
  from find_index_mem [OF f] have e: "e \<in> set (pp_exceptions paced)" "ex_occurrence_index e = Some i" by auto
  from Some e(2) assms(1,5) have k: "oc_kind occ = OcModified (ex_key e) (int i)"
    by (auto simp: occupied_by_def split: occupation_kind.splits)
  have "pr_curves (ip_projection d) = occupation_curves train paced (oc_kind occ)"
    by (simp add: assms(4) drawn_occurrence_def f k occupation_curves_def split: option.split)
  then show ?thesis
    using Some indexed_train_drawn [OF f assms(3,4)] find_key [OF assms(2) e(1)]
    by (simp add: paced_zone_def k occupation_exception_def occupying_train_def)
qed

lemma paced_zone_addition:
  assumes "sp_paced train = Some paced" "distinct (map ex_key (pp_exceptions paced))"
    and "e \<in> set (pp_exceptions paced)" "truthy (cg_start_time e)" "ex_occurrence_index e = None"
    and "d = drawn_addition parseDate train paced e" "occupied_by train (oc_kind occ) d"
  shows "paced_zone parseDate parse train paced trackId occ =
    getMovableOccupancyZone parseDate parse trackId (ip_id d) (oc_time_begin occ, oc_duration occ) (pr_curves (ip_projection d))
      (ip_name d) (ip_departureTime d) (ip_exception d)"
proof -
  have x: "ip_exception d = Some e" by (simp add: assms(6) drawn_addition_def)
  with assms(1,5,7) have k: "oc_kind occ = OcCreated (ex_key e)"
    by (auto simp: occupied_by_def split: occupation_kind.splits)
  have "pr_curves (ip_projection d) = occupation_curves train paced (oc_kind occ)"
    by (simp add: assms(6) drawn_addition_def k occupation_curves_def split: option.split)
  then show ?thesis
    using x created_train_drawn [OF assms(4,6)] find_key [OF assms(2,3)]
    by (simp add: paced_zone_def k occupation_exception_def occupying_train_def)
qed

text \<open>C33: the zone of an occupation is that of the train that the space time chart draws for it: same identifier, name, curves, departure
  time and exception, for unique trains, for regular, modified and added occurrences.\<close>

theorem zones_match_chart:
  assumes "projected_items parseDate train = Inr ds" "d \<in> set ds" "occupied_by train (oc_kind occ) d"
    and "obj_get trains (string_of_int (sp_id train)) = Some (Some train)" "oc_train_schedule_id occ = sp_id train"
    and "\<forall>paced. sp_paced train = Some paced \<longrightarrow>
      distinct (map ex_key (pp_exceptions paced)) \<and> (\<forall>e \<in> set (pp_exceptions paced). cg_start_time e \<noteq> Some [])"
  shows "occupation_zone parseDate parse trains trackId occ =
    getMovableOccupancyZone parseDate parse trackId (ip_id d) (oc_time_begin occ, oc_duration occ) (pr_curves (ip_projection d))
      (ip_name d) (ip_departureTime d) (ip_exception d)"
proof (cases "sp_paced train")
  case None
  with assms(1-3) show ?thesis
    by (auto simp: projected_items_def occupied_by_def occupation_zone_def assms(4,5) split: occupation_kind.splits)
next
  case (Some paced)
  note p = assms(6) [rule_format, OF Some]
  from projected_items_starts [OF assms(1) Some] obtain k where "getOccurrencesNb (pp_timeWindow paced) (pp_interval paced) = Inr k"
    and starts: "\<forall>e \<in> set (pp_exceptions paced). addition_shown e \<longrightarrow> cg_start_time e \<noteq> None" by blast
  from projected_items_eq [OF Some this, of parseDate] assms(1,2) consider
      i where "d = drawn_occurrence parseDate train paced i"
    | e where "e \<in> set (pp_exceptions paced)" "addition_shown e" "d = drawn_addition parseDate train paced e" by auto
  then have "paced_zone parseDate parse train paced trackId occ =
    getMovableOccupancyZone parseDate parse trackId (ip_id d) (oc_time_begin occ, oc_duration occ) (pr_curves (ip_projection d))
      (ip_name d) (ip_departureTime d) (ip_exception d)"
  proof cases
    case 1
    show ?thesis using p by (intro paced_zone_occurrence [OF Some _ _ 1 assms(3)]) auto
  next
    case (2 e)
    with starts p have "truthy (cg_start_time e)" "ex_occurrence_index e = None"
      by (auto simp: truthy_def addition_shown_def split: option.split)
    with p 2 show ?thesis by (intro paced_zone_addition [OF Some _ _ _ _ _ assms(3)]) auto
  qed
  then show ?thesis by (simp add: occupation_zone_def assms(4,5) Some)
qed

section \<open>Collections of trains\<close>

lemma obj_get_from_entries: "obj_get (from_entries es) (string_of_int k) = map_of (rev es) k"
proof -
  let ?m = "foldl (\<lambda>m (k, v). AList.update k v m) [] es"
  have d: "distinct (map fst ?m)" by (simp add: fold_updates_distinct)
  then have "distinct (map fst (sort_key fst ?m))" by (simp add: distinct_map)
  with d have m: "map_of (sort_key fst ?m) = map_of ?m" by (subst map_of_inject_set) simp_all
  have "map_of (map (\<lambda>(k, v). (string_of_int k, v)) xs) (string_of_int k) = map_of xs k" for xs :: "(int \<times> 'a) list"
    by (induction xs) (auto simp: string_of_int_inject)
  then show ?thesis by (simp add: obj_get_def from_entries_def m fold_updates_map)
qed

lemma map_of_projections:
  assumes "distinct (map sp_id trains)" "t \<in> set trains"
  shows "map_of (projections_by_id trains) (sp_id t) = Some t"
proof -
  have d: "distinct (map fst (map (\<lambda>x. (sp_id x, x)) trains))" using assms(1) by (simp add: o_def)
  have "map_of (projections_by_id trains) = map_of (map (\<lambda>x. (sp_id x, x)) trains)"
    by (simp add: projections_by_id_def mapBy_concat concatMap_map map_of_rev [OF d])
  moreover have "map_of (map (\<lambda>x. (sp_id x, x)) trains) (sp_id t) = Some t"
    using assms(2) d by (intro map_of_is_SomeI) auto
  ultimately show ?thesis by simp
qed

lemma map_of_projections_None: "map_of (projections_by_id trains) k = None \<longleftrightarrow> k \<notin> sp_id ` set trains"
proof -
  have "map_of (projections_by_id trains) = map_of (rev (map (\<lambda>x. (sp_id x, x)) trains))"
    by (simp add: projections_by_id_def mapBy_concat concatMap_map)
  then show ?thesis by (simp add: map_of_eq_None_iff image_image)
qed

lemma trains_collection_get:
  assumes "distinct (map sp_id trains)" "t \<in> set trains" "sp_id t \<in> set ids"
  shows "obj_get (trains_collection trains ids) (string_of_int (sp_id t)) = Some (Some t)"
proof -
  have "map_of (rev (map (\<lambda>i. (i, map_of (projections_by_id trains) i)) ids)) k =
      (if k \<in> set ids then Some (map_of (projections_by_id trains) k) else None)" for k
    unfolding rev_map by (simp add: map_of_map_restrict restrict_map_def)
  then show ?thesis
    using assms(3) map_of_projections [OF assms(1,2)] by (simp add: trains_collection_def obj_get_from_entries)
qed

lemma from_entries_distinct:
  assumes "distinct (map fst es)"
  shows "from_entries es = map (\<lambda>(k, v). (string_of_int k, v)) (sort_key fst es)"
proof -
  have "foldl (\<lambda>m (k, v). AList.update k v m) xs es = xs @ es" if "distinct (map fst (xs @ es))" for xs
    using that by (induction es arbitrary: xs) (auto simp: update_new)
  from this [of "[]"] assms show ?thesis by (simp add: from_entries_def)
qed

lemma collection_ids:
  assumes "distinct (map sp_id trains)" "distinct ids" "set ids \<subseteq> sp_id ` set trains"
  shows "map_result (\<lambda>(k, train). case train of None \<Rightarrow> Inl TypeError | Some t \<Rightarrow> Inr (sp_id t)) (trains_collection trains ids) = Inr (sort ids)"
proof -
  let ?e = "\<lambda>i. (i, map_of (projections_by_id trains) i)"
  have s: "sort_key fst (map ?e xs) = map ?e (sort xs)" for xs
  proof -
    have i: "insort_key fst (?e x) (map ?e ys) = map ?e (insort x ys)" for x ys by (induction ys) auto
    show ?thesis by (induction xs) (simp_all add: i)
  qed
  have "trains_collection trains ids = map (\<lambda>i. (string_of_int i, map_of (projections_by_id trains) i)) (sort ids)"
    using assms(2) by (simp add: trains_collection_def from_entries_distinct s o_def)
  moreover have "\<exists>t. map_of (projections_by_id trains) i = Some t \<and> sp_id t = i" if "i \<in> set ids" for i
    using assms(3) map_of_projections [OF assms(1)] that by fastforce
  then have "\<exists>t. map_of (projections_by_id trains) (sort ids ! i) = Some t \<and> sp_id t = sort ids ! i" if "i < length ids" for i
    using that nth_mem [of i "sort ids"] by simp
  ultimately show ?thesis by (intro map_result_pointwise) fastforce+
qed

section \<open>Requests as tables of zones by train\<close>

text \<open>What the server knows: the occupations of each train at an operational point, with the name of the track. Its answer holds those
  of the requested trains, grouped by track in any order.\<close>

type_synonym occupation_table = "int \<Rightarrow> (string option \<times> occupation) list"

definition item_occupations :: "track_item \<Rightarrow> (string option \<times> occupation) list" where
  "item_occupations item = map (Pair (ti_local_track_name item)) (ti_trains item)"

definition answers_from :: "occupancy_server \<Rightarrow> op_reference \<Rightarrow> occupation_table \<Rightarrow> bool" where
  "answers_from server ref table \<longleftrightarrow>
     (\<forall>i. \<forall>x \<in> set (table i). oc_train_schedule_id (snd x) = i) \<and>
     (\<forall>ids. ids \<noteq> [] \<longrightarrow> distinct ids \<longrightarrow>
       (\<exists>items. server ref ids = Some items \<and> mset (concat (map item_occupations items)) = (\<Sum>i \<in> set ids. mset (table i))))"

text \<open>The zones of one train at a waypoint.\<close>

definition train_zones ::
  "(string \<Rightarrow> date) \<Rightarrow> (string \<Rightarrow> duration) \<Rightarrow> (string \<times> (string \<times> string) list) list \<Rightarrow> string \<Rightarrow> occupation_table \<Rightarrow> projection_data \<Rightarrow>
   occupancy_zone list result" where
  "train_zones parseDate parse trackIds waypointId table train =
     map_result (\<lambda>(name, occ). occupation_zone parseDate parse [(string_of_int (sp_id train), Some train)] (occupied_track trackIds waypointId name) occ)
       (table (sp_id train))"

lemma map_result_concat:
  "bind_result (map_result (\<lambda>x. map_result (g x) (h x)) xs) (\<lambda>yss. Inr (concat yss)) =
   map_result (\<lambda>(x, y). g x y) (concat (map (\<lambda>x. map (Pair x) (h x)) xs))"
proof (induction xs)
  case (Cons x xs)
  have h: "map_result (\<lambda>(x, y). g x y) (map (Pair x) ys) = map_result (g x) ys" for x ys by (induction ys) auto
  show ?case
    by (simp add: map_result_append h Cons [symmetric] bind_result_assoc)
qed simp

lemma map_result_pairs:
  "map_result (\<lambda>(x, y). f (k x) y) (concat (map (\<lambda>x. map (Pair x) (h x)) xs)) =
   map_result (\<lambda>(x, y). f x y) (concat (map (\<lambda>x. map (Pair (k x)) (h x)) xs))"
proof (induction xs)
  case (Cons x xs)
  have "map_result (\<lambda>(x, y). f (k x) y) (map (Pair x) ys) = map_result (\<lambda>(x, y). f x y) (map (Pair (k x)) ys)" for ys
    by (induction ys) auto
  with Cons show ?case by (simp add: map_result_append)
qed simp

lemma fetch_flat:
  "fetchTrackOccupancy parseDate parse server trackIds (Some ref) waypointId trains =
     bind_result (map_result (\<lambda>(k, train). case train of None \<Rightarrow> Inl TypeError | Some t \<Rightarrow> Inr (sp_id t)) trains) (\<lambda>ids.
       case (if ids \<noteq> [] then server ref ids else None) of
         None \<Rightarrow> Inr []
       | Some items \<Rightarrow>
           map_result (\<lambda>(name, occ). occupation_zone parseDate parse trains (occupied_track trackIds waypointId name) occ)
             (concat (map item_occupations items)))"
  unfolding fetchTrackOccupancy_def track_zones_def map_result_concat item_occupations_def
    map_result_pairs [where k = ti_local_track_name and f = "\<lambda>name occ. occupation_zone parseDate parse trains (occupied_track trackIds waypointId name) occ" and h = ti_trains]
  by simp

lemma occupation_zone_lookup:
  "obj_get trains (string_of_int (oc_train_schedule_id occ)) = obj_get trains' (string_of_int (oc_train_schedule_id occ)) \<Longrightarrow>
   occupation_zone parseDate parse trains trackId occ = occupation_zone parseDate parse trains' trackId occ"
  by (simp add: occupation_zone_def)

lemma map_result_Inr_iff: "map_result f xs = Inr ys \<longleftrightarrow> (length xs = length ys \<and> (\<forall>i < length xs. f (xs ! i) = Inr (ys ! i)))"
  using map_result_pointwise map_result_nth map_result_length by metis

lemma map_result_projr:
  assumes "map_result f xs = Inr ys"
  shows "ys = map (\<lambda>x. projr (f x)) xs" "\<And>x. x \<in> set xs \<Longrightarrow> f x = Inr (projr (f x))"
proof -
  show "ys = map (\<lambda>x. projr (f x)) xs" using assms by (intro nth_equalityI) (auto simp: map_result_Inr_iff)
  show "f x = Inr (projr (f x))" if "x \<in> set xs" for x
    using that assms unfolding in_set_conv_nth map_result_Inr_iff by (metis sum.sel(2))
qed

lemma fetch_zones:
  assumes answers: "answers_from server ref table" and trains: "distinct (map sp_id trains)"
    and sub: "set sub \<subseteq> set trains" "distinct (map sp_id sub)"
    and zones: "\<And>t. t \<in> set sub \<Longrightarrow> train_zones parseDate parse trackIds waypointId table t = Inr (Z t)"
  shows "\<exists>zs. fetchTrackOccupancy parseDate parse server trackIds (Some ref) waypointId (trains_collection trains (map sp_id sub)) = Inr zs \<and>
    mset zs = (\<Sum>t \<in> set sub. mset (Z t))"
proof (cases "sub = []")
  case True
  then have "trains_collection trains (map sp_id sub) = []" by (simp add: trains_collection_def from_entries_def)
  with True show ?thesis by (simp add: fetchTrackOccupancy_def)
next
  case False
  let ?c = "trains_collection trains (map sp_id sub)"
  let ?f = "\<lambda>x. occupation_zone parseDate parse ?c (occupied_track trackIds waypointId (fst x)) (snd x)"
  have ids: "map_result (\<lambda>(k, train). case train of None \<Rightarrow> Inl TypeError | Some t \<Rightarrow> Inr (sp_id t)) ?c = Inr (sort (map sp_id sub))"
    using trains sub by (intro collection_ids) auto
  have "sort (map sp_id sub) \<noteq> []" using False by (metis length_sort list.size(3) length_map length_0_conv)
  moreover have "distinct (sort (map sp_id sub))" using sub(2) by simp
  ultimately obtain items where items: "server ref (sort (map sp_id sub)) = Some items"
    "mset (concat (map item_occupations items)) = (\<Sum>i \<in> set (sort (map sp_id sub)). mset (table i))"
    using answers unfolding answers_from_def by meson
  have one: "?f x = Inr (projr (?f x)) \<and> Z t = map (\<lambda>x. projr (?f x)) (table (sp_id t))" if "t \<in> set sub" "x \<in> set (table (sp_id t))" for t x
  proof -
    have "obj_get ?c (string_of_int (sp_id t)) = Some (Some t)" using that(1) sub trains by (intro trains_collection_get) auto
    then have eq: "(case y of (name, occ) \<Rightarrow> occupation_zone parseDate parse [(string_of_int (sp_id t), Some t)] (occupied_track trackIds waypointId name) occ) = ?f y"
      if "y \<in> set (table (sp_id t))" for y
      using that answers unfolding answers_from_def by (cases y) (force simp: obj_get_def intro!: occupation_zone_lookup)
    note z = map_result_projr [OF zones [OF that(1), unfolded train_zones_def]]
    have "Z t = map (\<lambda>x. projr (?f x)) (table (sp_id t))" unfolding z(1) by (intro map_cong refl) (simp only: eq)
    moreover have "?f x = Inr (projr (?f x))" using z(2) [OF that(2)] unfolding eq [OF that(2)] .
    ultimately show ?thesis by (rule conjI [rotated])
  qed
  have sum: "mset (concat (map item_occupations items)) = (\<Sum>t \<in> set sub. mset (table (sp_id t)))"
    using sub(2) by (simp add: items(2) sum.reindex distinct_map)
  then have "x \<in> set (concat (map item_occupations items)) \<longleftrightarrow> (\<exists>t \<in> set sub. x \<in> set (table (sp_id t)))" for x
    unfolding set_mset_mset [symmetric] sum by (simp add: set_mset_sum)
  then have "map_result ?f (concat (map item_occupations items)) = Inr (map (\<lambda>x. projr (?f x)) (concat (map item_occupations items)))"
    using one by (intro map_result_total) blast
  moreover have "mset (map (\<lambda>x. projr (?f x)) (concat (map item_occupations items))) = (\<Sum>t \<in> set sub. mset (Z t))"
  proof -
    have "mset (Z t) = image_mset (\<lambda>x. projr (?f x)) (mset (table (sp_id t)))" if "t \<in> set sub" for t
    proof (cases "table (sp_id t)")
      case Nil
      with zones [OF that] show ?thesis by (simp add: train_zones_def)
    next
      case (Cons x xs)
      with one [OF that, of x] show ?thesis by simp
    qed
    moreover have "image_mset g (\<Sum>t \<in> A. M t) = (\<Sum>t \<in> A. image_mset g (M t))" for g :: "string option \<times> occupation \<Rightarrow> occupancy_zone" and M and A :: "projection_data set"
      by (induction A rule: infinite_finite_induct) auto
    ultimately show ?thesis unfolding mset_map sum by (simp cong: sum.cong)
  qed
  ultimately show ?thesis
    unfolding fetch_flat ids bind_result.simps using \<open>sort (map sp_id sub) \<noteq> []\<close> items(1) by (simp add: case_prod_beta')
qed

section \<open>Owners of the zones\<close>

lemma item_number_formats:
  "item_number (formatEditoastIdToPacedTrainId (of_int n)) = Inr (of_int n)"
  "item_number (formatEditoastIdToIndexedOccurrenceId (of_int n) (of_int i)) = Inr (of_int n)"
  "item_number (formatEditoastIdToExceptionId (of_int n) key) = Inr (of_int n)"
  by (simp_all add: item_number_def format_kinds isOccurrenceId_def [of "formatEditoastIdToIndexedOccurrenceId _ _"]
      isOccurrenceId_def [of "formatEditoastIdToExceptionId _ _"] extract_paced extract_indexed extract_exception)

lemma getMovable_fields:
  "getMovableOccupancyZone parseDate parse trackId trainId occ cs name d e = Inr z \<Longrightarrow>
   oz_trackId z = trackId \<and> oz_trainId z = trainId \<and> oz_dbStartTime z = oz_startTime z \<and> oz_dbEndTime z = oz_endTime z"
  by (auto simp: getMovableOccupancyZone_def Let_def)

lemma zone_owner:
  assumes "occupation_zone parseDate parse [(string_of_int (sp_id t), Some t)] trackId occ = Inr z"
  shows "item_number (oz_trainId z) = Inr (of_int (sp_id t)) \<and> oz_trackId z = trackId"
proof -
  have id: "oc_train_schedule_id occ = sp_id t"
    using assms by (auto simp: occupation_zone_def obj_get_def string_of_int_inject Let_def split: if_splits)
  show ?thesis
  proof (cases "sp_paced t")
    case None
    with assms id show ?thesis
      by (auto simp: occupation_zone_def obj_get_def item_number_formats Let_def dest!: getMovable_fields split: occupation_kind.splits)
  next
    case (Some paced)
    with assms id have "paced_zone parseDate parse t paced trackId occ = Inr z" by (simp add: occupation_zone_def obj_get_def)
    then obtain e trainId trainName startTime cs where tr: "occupying_train parseDate t paced e (oc_kind occ) = Inr (trainId, trainName, startTime)"
      and "getMovableOccupancyZone parseDate parse trackId trainId (oc_time_begin occ, oc_duration occ) cs trainName startTime e = Inr z"
      by (auto simp: paced_zone_def)
    then have z: "oz_trackId z = trackId" "oz_trainId z = trainId" using getMovable_fields by blast+
    from tr have "item_number trainId = Inr (of_int (sp_id t))"
      by (auto simp: occupying_train_def indexed_train_def created_train_def formatPacedTrainIdToIndexedOccurrenceId_def
          formatPacedTrainIdToExceptionId_def extract_paced item_number_formats split: occupation_kind.splits if_splits)
    with z show ?thesis by simp
  qed
qed

lemma train_zones_owner:
  assumes "train_zones parseDate parse trackIds waypointId table t = Inr zs" "z \<in> set zs"
  shows "item_number (oz_trainId z) = Inr (of_int (sp_id t))"
proof -
  from assms(2) obtain i where "i < length zs" "z = zs ! i" by (metis in_set_conv_nth)
  with assms(1) have "(case table (sp_id t) ! i of (name, occ) \<Rightarrow>
      occupation_zone parseDate parse [(string_of_int (sp_id t), Some t)] (occupied_track trackIds waypointId name) occ) = Inr z"
    by (simp add: train_zones_def map_result_Inr_iff)
  then show ?thesis using zone_owner by (cases "table (sp_id t) ! i") auto
qed

section \<open>Changes of the trains\<close>

lemma set_add_new [simp]: "set (add_new x xs) = insert x (set xs)"
  by (auto simp: add_new_def)

lemma distinct_add_new: "distinct xs \<Longrightarrow> distinct (add_new x xs)"
  by (auto simp: add_new_def)

lemma diff_fold:
  "td_removed (foldl (diff_step prev dragged) d items) = td_removed d"
  "set (td_added (foldl (diff_step prev dragged) d items)) = set (td_added d) \<union> {sp_id t |t. t \<in> set items \<and> map_of prev (sp_id t) = None}"
  "set (td_modified (foldl (diff_step prev dragged) d items)) = set (td_modified d) \<union>
     {sp_id t |t. t \<in> set items \<and> sp_id t \<notin> set dragged \<and> (\<exists>p. map_of prev (sp_id t) = Some p \<and> p \<noteq> t)}"
  by (induction items arbitrary: d) (auto simp: diff_step_def split: option.splits)

lemma removed_fold:
  "td_added (foldl (removed_step cur) d items) = td_added d"
  "td_modified (foldl (removed_step cur) d items) = td_modified d"
  "set (td_removed (foldl (removed_step cur) d items)) = set (td_removed d) \<union> {sp_id t |t. t \<in> set items \<and> map_of cur (sp_id t) = None}"
  by (induction items arbitrary: d) (auto simp: removed_step_def)

lemma trains_changes_sets:
  assumes "distinct (map sp_id previous)" "distinct (map sp_id current)" "dragged = []"
  defines "d \<equiv> trains_changes previous current dragged"
  shows "set (td_added d) = sp_id ` set current - sp_id ` set previous"
    "set (td_removed d) = sp_id ` set previous - sp_id ` set current"
    "set (td_modified d) = sp_id ` (set current - set previous) \<inter> sp_id ` set previous"
proof -
  show "set (td_added d) = sp_id ` set current - sp_id ` set previous"
    by (auto simp: d_def trains_changes_def removed_fold diff_fold map_of_projections_None)
  show "set (td_removed d) = sp_id ` set previous - sp_id ` set current"
    by (auto simp: d_def trains_changes_def removed_fold diff_fold map_of_projections_None)
  have "(\<exists>p. map_of (projections_by_id previous) (sp_id t) = Some p \<and> p \<noteq> t) \<longleftrightarrow> sp_id t \<in> sp_id ` set previous \<and> t \<notin> set previous" for t
  proof (cases "sp_id t \<in> sp_id ` set previous")
    case True
    then obtain p where p: "p \<in> set previous" "sp_id p = sp_id t" by auto
    with map_of_projections [OF assms(1) p(1)] have m: "map_of (projections_by_id previous) (sp_id t) = Some p" by simp
    moreover have "t \<in> set previous \<longleftrightarrow> p = t" using p assms(1) by (metis distinct_map inj_onD)
    ultimately show ?thesis using True by auto
  next
    case False
    then have "map_of (projections_by_id previous) (sp_id t) = None" by (simp add: map_of_projections_None)
    with False show ?thesis by auto
  qed
  then show "set (td_modified d) = sp_id ` (set current - set previous) \<inter> sp_id ` set previous"
    by (auto simp: d_def trains_changes_def removed_fold diff_fold assms(3))
qed

section \<open>Updates of one waypoint\<close>

lemma obj_get_filter: "obj_get (filter (\<lambda>p. fst p \<noteq> w) points) w' = (if w' = w then None else obj_get points w')"
  unfolding obj_get_def by (induction points) auto

lemma obj_get_append: "obj_get (a @ b) w = (case obj_get a w of None \<Rightarrow> obj_get b w | Some v \<Rightarrow> Some v)"
  by (simp add: obj_get_def map_add_def split: option.split)

lemma obj_get_update [simp]:
  "obj_get (updatePathOperationalPointState w f points) w' = (if w' = w then f (obj_get points w) else obj_get points w')"
  by (simp add: updatePathOperationalPointState_def obj_get_append obj_get_filter split: option.split) (simp add: obj_get_def)

lemma distinct_update:
  "distinct (map fst points) \<Longrightarrow> distinct (map fst (updatePathOperationalPointState w f points))"
  by (auto simp: updatePathOperationalPointState_def distinct_map_filter split: option.split)

lemma data_with_data [simp]: "data_or_empty (with_data zs d) = d" "zones_data (with_data zs d) = Some d"
  by (cases zs; simp add: data_or_empty_def)+

text \<open>A state that differs only in the waypoints, which stay distinct.\<close>

definition same_frame :: "occupancy_state \<Rightarrow> occupancy_state \<Rightarrow> bool" where
  "same_frame st st' \<longleftrightarrow> to_trackIds st' = to_trackIds st \<and> (distinct (map fst (to_points st)) \<longrightarrow> distinct (map fst (to_points st')))"

lemma update_zones_at:
  assumes "obj_get (to_points st) w = Some s" "f (data_or_empty (pt_zones s)) = Inr d"
  shows "\<exists>st'. update_zones f w st = Inr st' \<and> same_frame st st' \<and>
    (\<forall>w'. obj_get (to_points st') w' = (if w' = w then Some (s\<lparr>pt_zones := with_data (pt_zones s) d\<rparr>) else obj_get (to_points st) w'))"
  using assms by (auto simp: update_zones_def on_point_def same_frame_def distinct_update)

text \<open>An operation on each waypoint in turn.\<close>

lemma fold_waypoints:
  assumes "distinct ws"
    and step: "\<And>w st1 s. w \<in> set ws \<Longrightarrow> same_frame st st1 \<Longrightarrow> obj_get (to_points st1) w = Some s \<Longrightarrow> Q w s \<Longrightarrow>
      \<exists>st2. F w st1 = Inr st2 \<and> same_frame st1 st2 \<and>
        (\<exists>s'. R w s s' \<and> (\<forall>w'. obj_get (to_points st2) w' = (if w' = w then Some s' else obj_get (to_points st1) w')))"
    and "same_frame st st0" "\<And>w. w \<in> set ws \<Longrightarrow> \<exists>s. obj_get (to_points st0) w = Some s \<and> Q w s"
  shows "\<exists>st'. fold_all F ws st0 = Inr st' \<and> same_frame st0 st' \<and>
    (\<forall>w. if w \<in> set ws then \<exists>s s'. obj_get (to_points st0) w = Some s \<and> obj_get (to_points st') w = Some s' \<and> R w s s'
         else obj_get (to_points st') w = obj_get (to_points st0) w)"
  using assms
proof (induction ws arbitrary: st0)
  case Nil
  then show ?case by (simp add: same_frame_def)
next
  case (Cons w ws)
  from Cons.prems(4) obtain s where s: "obj_get (to_points st0) w = Some s" "Q w s" by auto
  from Cons.prems(2) [OF _ Cons.prems(3) s] obtain st2 s' where st2: "F w st0 = Inr st2" "same_frame st0 st2" "R w s s'"
    "\<forall>w'. obj_get (to_points st2) w' = (if w' = w then Some s' else obj_get (to_points st0) w')" by auto
  have fr: "same_frame st st2" using Cons.prems(3) st2(2) by (simp add: same_frame_def)
  have ex: "\<exists>s. obj_get (to_points st2) v = Some s \<and> Q v s" if "v \<in> set ws" for v
  proof -
    have "v \<noteq> w" using that Cons.prems(1) by auto
    with st2(4) Cons.prems(4) [of v] that show ?thesis by simp
  qed
  have "\<exists>st'. fold_all F ws st2 = Inr st' \<and> same_frame st2 st' \<and>
    (\<forall>v. if v \<in> set ws then \<exists>s s'. obj_get (to_points st2) v = Some s \<and> obj_get (to_points st') v = Some s' \<and> R v s s'
         else obj_get (to_points st') v = obj_get (to_points st2) v)"
    using Cons.prems(1) by (intro Cons.IH [OF _ _ fr ex] Cons.prems(2)) simp_all
  then obtain st' where st': "fold_all F ws st2 = Inr st'" "same_frame st2 st'"
    "\<forall>v. if v \<in> set ws then \<exists>s s'. obj_get (to_points st2) v = Some s \<and> obj_get (to_points st') v = Some s' \<and> R v s s'
         else obj_get (to_points st') v = obj_get (to_points st2) v" by blast
  have "if v \<in> set (w # ws) then \<exists>s s'. obj_get (to_points st0) v = Some s \<and> obj_get (to_points st') v = Some s' \<and> R v s s'
         else obj_get (to_points st') v = obj_get (to_points st0) v" for v
  proof (cases "v = w")
    case True
    with Cons.prems(1) have "v \<notin> set ws" by auto
    with st'(3) [rule_format, of v] True st2(3,4) s(1) show ?thesis by simp
  next
    case False
    then have "obj_get (to_points st2) v = obj_get (to_points st0) v" using st2(4) by simp
    with st'(3) [rule_format, of v] False show ?thesis by (cases "v \<in> set ws") auto
  qed
  moreover have "same_frame st0 st'" using st2(2) st'(2) by (simp add: same_frame_def)
  moreover have "fold_all F (w # ws) st0 = Inr st'" using st'(1) st2(1) by simp
  ultimately show ?case by blast
qed

section \<open>Zones of the open waypoints\<close>

definition reference_at :: "path_op list \<Rightarrow> string \<Rightarrow> op_reference option" where
  "reference_at ops w = getOperationalPointReference (map_of (path_ops_by_waypoint ops) w)"

definition zones_at ::
  "(string \<Rightarrow> date) \<Rightarrow> (string \<Rightarrow> duration) \<Rightarrow> (string \<times> (string \<times> string) list) list \<Rightarrow> path_op list \<Rightarrow> (op_reference \<Rightarrow> occupation_table) \<Rightarrow>
   string \<Rightarrow> projection_data \<Rightarrow> occupancy_zone list" where
  "zones_at parseDate parse trackIds ops tables w t =
     (case reference_at ops w of
        None \<Rightarrow> []
      | Some ref \<Rightarrow> (case train_zones parseDate parse trackIds w (tables ref) t of Inl e \<Rightarrow> [] | Inr zs \<Rightarrow> zs))"

text \<open>The zones of every open waypoint are those of the given trains.\<close>

definition coherent ::
  "(string \<Rightarrow> date) \<Rightarrow> (string \<Rightarrow> duration) \<Rightarrow> path_op list \<Rightarrow> (op_reference \<Rightarrow> occupation_table) \<Rightarrow> projection_data list \<Rightarrow> occupancy_state \<Rightarrow>
   bool" where
  "coherent parseDate parse ops tables trains st \<longleftrightarrow>
     distinct (map fst (to_points st)) \<and>
     (\<forall>w s. obj_get (to_points st) w = Some s \<longrightarrow>
        mset (data_or_empty (pt_zones s)) = (\<Sum>t \<in> set trains. mset (zones_at parseDate parse (to_trackIds st) ops tables w t)))"

text \<open>The occupations of the given trains can be read.\<close>

definition readable ::
  "(string \<Rightarrow> date) \<Rightarrow> (string \<Rightarrow> duration) \<Rightarrow> path_op list \<Rightarrow> (op_reference \<Rightarrow> occupation_table) \<Rightarrow> projection_data list \<Rightarrow> occupancy_state \<Rightarrow>
   bool" where
  "readable parseDate parse ops tables trains st \<longleftrightarrow>
     (\<forall>w ref t. reference_at ops w = Some ref \<longrightarrow> t \<in> set trains \<longrightarrow>
        (\<exists>zs. train_zones parseDate parse (to_trackIds st) w (tables ref) t = Inr zs))"

lemma zones_at_owner: "z \<in> set (zones_at parseDate parse trackIds ops tables w t) \<Longrightarrow> item_number (oz_trainId z) = Inr (of_int (sp_id t))"
  by (auto simp: zones_at_def intro: train_zones_owner [OF sym] split: option.split_asm sum.split_asm)

lemma filter_mset_sum: "filter_mset q (\<Sum>t \<in> A. M t) = (\<Sum>t \<in> A. filter_mset q (M t))"
  by (induction A rule: infinite_finite_induct) auto

lemma without_trains_sum:
  fixes A :: "projection_data set"
  assumes "mset d = (\<Sum>t \<in> A. mset (Z t))" "finite A" "\<And>t z. t \<in> A \<Longrightarrow> z \<in> set (Z t) \<Longrightarrow> item_number (oz_trainId z) = Inr (of_int (sp_id t))"
  shows "\<exists>d'. without_trains ids d = Inr d' \<and> mset d' = (\<Sum>t \<in> {t \<in> A. sp_id t \<notin> set ids}. mset (Z t))"
proof -
  let ?q = "\<lambda>z. projr (item_number (oz_trainId z)) \<notin> of_int ` set ids"
  have "\<exists>t \<in> A. z \<in> set (Z t)" if "z \<in> set d" for z
    using that assms(2) unfolding set_mset_mset [symmetric] assms(1) by (simp add: set_mset_sum)
  with assms(3) have "bind_result (owned_by ids z) (\<lambda>b. Inr (\<not> b)) = Inr (?q z)" if "z \<in> set d" for z
    using that by (fastforce simp: owned_by_def)
  then have "without_trains ids d = Inr (filter ?q d)" unfolding without_trains_def by (intro filter_result_total) auto
  moreover have "filter_mset ?q (mset (Z t)) = (if sp_id t \<notin> set ids then mset (Z t) else {#})" if "t \<in> A" for t
  proof (cases "sp_id t \<notin> set ids")
    case True
    then have "filter ?q (Z t) = Z t" using assms(3) [OF that] by (intro filter_True) (auto simp: image_iff)
    then show ?thesis using True by (metis mset_filter)
  next
    case False
    then have "filter ?q (Z t) = []" using assms(3) [OF that] by (intro filter_False) auto
    then show ?thesis using False by (metis mset.simps(1) mset_filter)
  qed
  then have "mset (filter ?q d) = (\<Sum>t \<in> A. if sp_id t \<notin> set ids then mset (Z t) else {#})"
    by (simp add: assms(1) filter_mset_sum cong: sum.cong)
  ultimately show ?thesis using assms(2) by (auto simp: sum.inter_filter)
qed

lemma fetch_requested:
  fixes A :: "projection_data set"
  assumes "answers_from server ref table" "distinct (map sp_id trains)" "A \<subseteq> set trains" "distinct ids" "set ids = sp_id ` A"
    and "\<And>t. t \<in> A \<Longrightarrow> train_zones parseDate parse trackIds w table t = Inr (Z t)"
  shows "\<exists>zs. fetchTrackOccupancy parseDate parse server trackIds (Some ref) w (trains_collection trains ids) = Inr zs \<and>
    mset zs = (\<Sum>t \<in> A. mset (Z t))"
proof -
  let ?sub = "map (\<lambda>i. the (map_of (projections_by_id trains) i)) ids"
  have the: "the (map_of (projections_by_id trains) (sp_id t)) = t" if "t \<in> A" for t
    using map_of_projections [OF assms(2)] that assms(3) by auto
  have ids: "map sp_id ?sub = ids" using the assms(5) by (intro nth_equalityI) (auto, metis imageE nth_mem)
  have "set ?sub = (\<lambda>i. the (map_of (projections_by_id trains) i)) ` sp_id ` A" using assms(5) by simp
  also have "\<dots> = A" using the by (simp add: image_image)
  finally have A: "set ?sub = A" .
  from fetch_zones [OF assms(1,2), of ?sub parseDate parse trackIds w Z] assms(3,4,6) show ?thesis unfolding ids A by simp
qed

lemma removed_step_ok:
  fixes A :: "projection_data set"
  assumes "mset (data_or_empty (pt_zones s)) = (\<Sum>t \<in> A. mset (Z t))" "finite A"
    and "\<And>t z. t \<in> A \<Longrightarrow> z \<in> set (Z t) \<Longrightarrow> item_number (oz_trainId z) = Inr (of_int (sp_id t))"
    and "obj_get (to_points st) w = Some s"
  shows "\<exists>st2. removed_zones ids w st = Inr st2 \<and> same_frame st st2 \<and>
    (\<exists>s'. mset (data_or_empty (pt_zones s')) = (\<Sum>t \<in> {t \<in> A. sp_id t \<notin> set ids}. mset (Z t)) \<and>
      (\<forall>w'. obj_get (to_points st2) w' = (if w' = w then Some s' else obj_get (to_points st) w')))"
proof -
  from without_trains_sum [of "data_or_empty (pt_zones s)", OF assms(1-3)] obtain d where
    d: "without_trains ids (data_or_empty (pt_zones s)) = Inr d" "mset d = (\<Sum>t \<in> {t \<in> A. sp_id t \<notin> set ids}. mset (Z t))" by blast
  from update_zones_at [of st w s "without_trains ids", OF assms(4) d(1)] show ?thesis
    unfolding removed_zones_def using d(2) by force
qed

lemma answer_step_ok:
  fixes A :: "projection_data set"
  assumes "mset (data_or_empty (pt_zones s)) = (\<Sum>t \<in> A. mset (Z t))" "finite A"
    and "\<And>t z. t \<in> A \<Longrightarrow> z \<in> set (Z t) \<Longrightarrow> item_number (oz_trainId z) = Inr (of_int (sp_id t))"
    and "obj_get (to_points st) w = Some s"
    and "zs = [] \<Longrightarrow> \<forall>t \<in> A. sp_id t \<in> set ids \<longrightarrow> Z t = []"
  shows "\<exists>st2. new_zones ids zs w st = Inr st2 \<and> same_frame st st2 \<and>
    (\<exists>s'. mset (data_or_empty (pt_zones s')) = (\<Sum>t \<in> {t \<in> A. sp_id t \<notin> set ids}. mset (Z t)) + mset zs \<and>
      (\<forall>w'. obj_get (to_points st2) w' = (if w' = w then Some s' else obj_get (to_points st) w')))"
proof (cases "zs = []")
  case True
  have "(\<Sum>t \<in> A. mset (Z t)) = (\<Sum>t \<in> {t \<in> A. sp_id t \<notin> set ids}. mset (Z t))"
    using assms(2) assms(5) [OF True] by (intro sum.mono_neutral_right) auto
  with assms(1,4) True show ?thesis by (auto simp: new_zones_def same_frame_def)
next
  case False
  from without_trains_sum [of "data_or_empty (pt_zones s)", OF assms(1-3)] obtain d where
    d: "without_trains ids (data_or_empty (pt_zones s)) = Inr d" "mset d = (\<Sum>t \<in> {t \<in> A. sp_id t \<notin> set ids}. mset (Z t))" by blast
  have "bind_result (without_trains ids (data_or_empty (pt_zones s))) (\<lambda>d'. Inr (d' @ zs)) = Inr (d @ zs)" by (simp add: d(1))
  from update_zones_at [of st w s "\<lambda>d. bind_result (without_trains ids d) (\<lambda>d'. Inr (d' @ zs))", OF assms(4) this] show ?thesis
    unfolding new_zones_def using d(2) False by force
qed


text \<open>The trains of which the zones stay, and those of which they are requested.\<close>

lemma kept_trains:
  assumes "distinct (map sp_id previous)" "distinct (map sp_id current)"
    and "d = trains_changes previous current []"
  shows "{t \<in> {t \<in> set previous. sp_id t \<notin> set (td_removed d)}. sp_id t \<notin> set (td_modified d)} = set previous \<inter> set current"
    and "set (td_added d @ td_modified d) = sp_id ` (set current - set previous)"
proof -
  note sets = trains_changes_sets [OF assms(1,2) refl, folded assms(3)]
  have inj: "t = u" if "t \<in> set current" "u \<in> set current" "sp_id t = sp_id u" for t u
    using assms(2) that by (metis distinct_map inj_onD)
  have injp: "t = u" if "t \<in> set previous" "u \<in> set previous" "sp_id t = sp_id u" for t u
    using assms(1) that by (metis distinct_map inj_onD)
  have "t \<in> set current \<longleftrightarrow> sp_id t \<in> sp_id ` set current \<and> sp_id t \<notin> sp_id ` (set current - set previous)" if "t \<in> set previous" for t
  proof
    assume "t \<in> set current"
    then show "sp_id t \<in> sp_id ` set current \<and> sp_id t \<notin> sp_id ` (set current - set previous)" using that inj by blast
  next
    assume a: "sp_id t \<in> sp_id ` set current \<and> sp_id t \<notin> sp_id ` (set current - set previous)"
    then obtain u where u: "u \<in> set current" "sp_id u = sp_id t" by auto
    with a have "u \<in> set previous" by (metis DiffI imageI)
    with injp [of u t] u that show "t \<in> set current" by simp
  qed
  then show "{t \<in> {t \<in> set previous. sp_id t \<notin> set (td_removed d)}. sp_id t \<notin> set (td_modified d)} = set previous \<inter> set current"
    unfolding sets by blast
  show "set (td_added d @ td_modified d) = sp_id ` (set current - set previous)" unfolding set_append sets by blast
qed

definition valued :: "occupancy_state \<Rightarrow> (string \<Rightarrow> occupancy_zone multiset) \<Rightarrow> bool" where
  "valued st M \<longleftrightarrow> (\<forall>w s. obj_get (to_points st) w = Some s \<longrightarrow> mset (data_or_empty (pt_zones s)) = M w)"

lemma fold_valued:
  assumes "distinct ws" "valued st M" "\<And>w. w \<in> set ws \<longleftrightarrow> obj_get (to_points st) w \<noteq> None"
    and step: "\<And>w st1 s. w \<in> set ws \<Longrightarrow> same_frame st st1 \<Longrightarrow> obj_get (to_points st1) w = Some s \<Longrightarrow>
      mset (data_or_empty (pt_zones s)) = M w \<Longrightarrow>
      \<exists>st2. F w st1 = Inr st2 \<and> same_frame st1 st2 \<and> (\<exists>s'. mset (data_or_empty (pt_zones s')) = M' w \<and>
        (\<forall>w'. obj_get (to_points st2) w' = (if w' = w then Some s' else obj_get (to_points st1) w')))"
  shows "\<exists>st'. fold_all F ws st = Inr st' \<and> same_frame st st' \<and> valued st' M' \<and> (\<forall>w. w \<in> set ws \<longleftrightarrow> obj_get (to_points st') w \<noteq> None)"
proof -
  have "\<exists>st'. fold_all F ws st = Inr st' \<and> same_frame st st' \<and>
    (\<forall>w. if w \<in> set ws then \<exists>s s'. obj_get (to_points st) w = Some s \<and> obj_get (to_points st') w = Some s' \<and> mset (data_or_empty (pt_zones s')) = M' w
         else obj_get (to_points st') w = obj_get (to_points st) w)"
  proof (rule fold_waypoints [where Q = "\<lambda>w s. mset (data_or_empty (pt_zones s)) = M w", OF assms(1)])
    show "same_frame st st" by (simp add: same_frame_def)
    show "\<exists>s. obj_get (to_points st) w = Some s \<and> mset (data_or_empty (pt_zones s)) = M w" if "w \<in> set ws" for w
      using that assms(2,3) unfolding valued_def by blast
  qed (rule step)
  then obtain st' where st': "fold_all F ws st = Inr st'" "same_frame st st'"
    "\<And>w. if w \<in> set ws then \<exists>s s'. obj_get (to_points st) w = Some s \<and> obj_get (to_points st') w = Some s' \<and> mset (data_or_empty (pt_zones s')) = M' w
         else obj_get (to_points st') w = obj_get (to_points st) w" by blast
  have get: "if w \<in> set ws then \<exists>s'. obj_get (to_points st') w = Some s' \<and> mset (data_or_empty (pt_zones s')) = M' w
         else obj_get (to_points st') w = None" for w
    using st'(3) [of w] assms(3) [of w] by (cases "w \<in> set ws") auto
  then have "valued st' M'" unfolding valued_def by (metis option.distinct(1) option.inject)
  moreover have "w \<in> set ws \<longleftrightarrow> obj_get (to_points st') w \<noteq> None" for w using get [of w] by (cases "w \<in> set ws") auto
  ultimately show ?thesis using st'(1,2) by blast
qed

lemma obj_get_keys: "w \<in> set (map fst points) \<longleftrightarrow> obj_get points w \<noteq> None"
  unfolding obj_get_def by (simp add: map_of_eq_None_iff)

lemma removal_phase:
  fixes A :: "projection_data set"
  assumes "distinct (map fst (to_points st))" "to_points st1 = to_points st" "finite A"
    and "valued st (\<lambda>w. \<Sum>t \<in> A. mset (Z w t))" "\<And>w t z. t \<in> A \<Longrightarrow> z \<in> set (Z w t) \<Longrightarrow> item_number (oz_trainId z) = Inr (of_int (sp_id t))"
  shows "\<exists>st2. (if ids \<noteq> [] then fold_all (removed_zones ids) (map fst (to_points st)) st1 else Inr st1) = Inr st2 \<and> same_frame st1 st2 \<and>
    valued st2 (\<lambda>w. \<Sum>t \<in> {t \<in> A. sp_id t \<notin> set ids}. mset (Z w t)) \<and>
    (\<forall>w. w \<in> set (map fst (to_points st)) \<longleftrightarrow> obj_get (to_points st2) w \<noteq> None)"
proof (cases "ids = []")
  case True
  with assms(2,4) show ?thesis unfolding obj_get_keys by (auto simp: same_frame_def valued_def)
next
  case False
  have "\<exists>st2. fold_all (removed_zones ids) (map fst (to_points st)) st1 = Inr st2 \<and> same_frame st1 st2 \<and>
    valued st2 (\<lambda>w. \<Sum>t \<in> {t \<in> A. sp_id t \<notin> set ids}. mset (Z w t)) \<and>
    (\<forall>w. w \<in> set (map fst (to_points st)) \<longleftrightarrow> obj_get (to_points st2) w \<noteq> None)"
  proof (rule fold_valued [OF assms(1)])
    show "valued st1 (\<lambda>w. \<Sum>t \<in> A. mset (Z w t))" using assms(2,4) by (simp add: valued_def)
    show "w \<in> set (map fst (to_points st)) \<longleftrightarrow> obj_get (to_points st1) w \<noteq> None" for w using obj_get_keys assms(2) by simp
  qed (rule removed_step_ok [OF _ assms(3,5)])
  with False show ?thesis by simp
qed

lemma zones_at_Inr:
  "reference_at ops w = Some ref \<Longrightarrow> readable parseDate parse ops tables trains st \<Longrightarrow> t \<in> set trains \<Longrightarrow>
   train_zones parseDate parse (to_trackIds st) w (tables ref) t = Inr (zones_at parseDate parse (to_trackIds st) ops tables w t)"
  by (fastforce simp: zones_at_def readable_def)

lemma fetch_at:
  fixes A :: "projection_data set"
  assumes "\<forall>ref. answers_from server ref (tables ref)" "distinct (map sp_id trains)" "A \<subseteq> set trains" "distinct ids" "set ids = sp_id ` A"
    and "readable parseDate parse ops tables trains st"
  shows "\<exists>zs. fetchTrackOccupancy parseDate parse server (to_trackIds st) (reference_at ops w) w (trains_collection trains ids) = Inr zs \<and>
    mset zs = (\<Sum>t \<in> A. mset (zones_at parseDate parse (to_trackIds st) ops tables w t))"
proof (cases "reference_at ops w")
  case None
  then show ?thesis by (simp add: fetchTrackOccupancy_def zones_at_def)
next
  case (Some ref)
  from assms(1) have a: "answers_from server ref (tables ref)" by blast
  from fetch_requested [OF a assms(2-5), of parseDate parse "to_trackIds st" w] zones_at_Inr [OF Some assms(6)] assms(3)
  show ?thesis unfolding Some by blast
qed

lemma answer_phase:
  fixes A :: "projection_data set"
  assumes "distinct ws" "valued st (\<lambda>w. \<Sum>t \<in> A. mset (Z w t))" "finite A" "\<And>w. w \<in> set ws \<longleftrightarrow> obj_get (to_points st) w \<noteq> None"
    and owner: "\<And>w t z. t \<in> A \<Longrightarrow> z \<in> set (Z w t) \<Longrightarrow> item_number (oz_trainId z) = Inr (of_int (sp_id t))"
    and fetch: "\<And>w. \<exists>zs. fetchTrackOccupancy parseDate parse server (to_trackIds st) (reference_at ops w) w (trains_collection trains requested) = Inr zs \<and>
      mset zs = N w"
    and stale: "\<And>w. obj_get (to_points st) w \<noteq> None \<Longrightarrow> N w = {#} \<Longrightarrow> \<forall>t \<in> A. sp_id t \<in> set ids \<longrightarrow> Z w t = []"
  shows "\<exists>st'. fold_all (trains_answer parseDate parse server ops trains requested ids) ws st = Inr st' \<and> same_frame st st' \<and>
    valued st' (\<lambda>w. (\<Sum>t \<in> {t \<in> A. sp_id t \<notin> set ids}. mset (Z w t)) + N w)"
proof -
  have "\<exists>st2. trains_answer parseDate parse server ops trains requested ids w st1 = Inr st2 \<and> same_frame st1 st2 \<and>
      (\<exists>s'. mset (data_or_empty (pt_zones s')) = (\<Sum>t \<in> {t \<in> A. sp_id t \<notin> set ids}. mset (Z w t)) + N w \<and>
        (\<forall>w'. obj_get (to_points st2) w' = (if w' = w then Some s' else obj_get (to_points st1) w')))"
    if st1: "w \<in> set ws" "same_frame st st1" "obj_get (to_points st1) w = Some s" "mset (data_or_empty (pt_zones s)) = (\<Sum>t \<in> A. mset (Z w t))" for w st1 s
  proof -
    from fetch [of w] obtain zs where zs: "fetchTrackOccupancy parseDate parse server (to_trackIds st) (reference_at ops w) w
      (trains_collection trains requested) = Inr zs" "mset zs = N w" by blast
    then have "trains_answer parseDate parse server ops trains requested ids w st1 = new_zones ids zs w st1"
      using st1(2) by (simp add: trains_answer_def reference_at_def same_frame_def)
    moreover have "\<forall>t \<in> A. sp_id t \<in> set ids \<longrightarrow> Z w t = []" if "zs = []"
      using stale [of w] zs(2) that st1(1) assms(4) by simp
    ultimately show ?thesis using answer_step_ok [OF st1(4) assms(3) owner st1(3), where zs = zs and ids = ids] zs(2) by simp
  qed
  note step = this
  have "\<exists>st'. fold_all (trains_answer parseDate parse server ops trains requested ids) ws st = Inr st' \<and> same_frame st st' \<and>
    valued st' (\<lambda>w. (\<Sum>t \<in> {t \<in> A. sp_id t \<notin> set ids}. mset (Z w t)) + N w) \<and> (\<forall>w. w \<in> set ws \<longleftrightarrow> obj_get (to_points st') w \<noteq> None)"
    by (rule fold_valued [OF assms(1,2,4)]) (rule step)
  then show ?thesis by blast
qed

end
