(* ===== verification/TrackOccupancyProperties.thy ===== *)
theory TrackOccupancyProperties
  imports TrackZones
begin

text \<open>
  Properties of the track occupancy over its operations: the zones of the open waypoints follow the trains of the timetable, as a
  simulation of a table of zones by train; batches give what one request gives; dragged zones follow the train; every zone lies on
  a listed track.
\<close>

lemma coherent_valued:
  "coherent parseDate parse ops tables trains st \<longleftrightarrow>
     distinct (map fst (to_points st)) \<and> valued st (\<lambda>w. \<Sum>t \<in> set trains. mset (zones_at parseDate parse (to_trackIds st) ops tables w t))"
  by (simp add: coherent_def valued_def)

lemma zones_at_unchanged:
  "\<forall>ref. tables' ref (sp_id t) = tables ref (sp_id t) \<Longrightarrow>
   zones_at parseDate parse trackIds ops tables' w t = zones_at parseDate parse trackIds ops tables w t"
  by (simp add: zones_at_def train_zones_def split: option.split)

lemma requested_none:
  assumes "distinct (map sp_id previous)" "distinct (map sp_id current)" "remdups (td_added d @ td_modified d) = []"
    and "d = trains_changes previous current []"
  shows "set current \<subseteq> set previous" "td_modified d = []"
proof -
  from assms(3) have n: "td_added d @ td_modified d = []" by (metis set_remdups set_empty2)
  with kept_trains(2) [OF assms(1,2,4)] show "set current \<subseteq> set previous" by auto
  from n show "td_modified d = []" by simp
qed

lemma zones_total:
  assumes "\<forall>ref. \<forall>t \<in> P \<inter> C. tables' ref (sp_id t) = tables ref (sp_id t)" "finite C"
  shows "(\<Sum>t \<in> P \<inter> C. mset (zones_at parseDate parse trackIds ops tables w t)) + (\<Sum>t \<in> C - P. mset (zones_at parseDate parse trackIds ops tables' w t)) =
    (\<Sum>t \<in> C. mset (zones_at parseDate parse trackIds ops tables' w t))"
proof -
  let ?Z = "zones_at parseDate parse trackIds ops tables w" and ?Z' = "zones_at parseDate parse trackIds ops tables' w"
  have "?Z t = ?Z' t" if "t \<in> P \<inter> C" for t using assms(1) that by (intro zones_at_unchanged [symmetric]) blast
  then have "(\<Sum>t \<in> P \<inter> C. mset (?Z t)) = (\<Sum>t \<in> C \<inter> P. mset (?Z' t))" by (intro sum.cong) auto
  then show ?thesis using sum.Int_Diff [OF assms(2), of "\<lambda>t. mset (?Z' t)" P] by simp
qed

lemma none_stale:
  assumes "distinct (map sp_id previous)" "distinct (map sp_id current)" "d = trains_changes previous current []"
    and "(\<exists>t \<in> set current - set previous. Z' t \<noteq> []) \<or> (\<forall>t \<in> set previous - set current. sp_id t \<in> sp_id ` set current \<longrightarrow> Z t = [])"
    and "(\<Sum>t \<in> set current - set previous. mset (Z' t)) = {#}"
    and "t \<in> set previous" "sp_id t \<notin> set (td_removed d)" "sp_id t \<in> set (td_modified d)"
  shows "Z t = []"
proof -
  have "Z' u = []" if "u \<in> set current - set previous" for u
    using arg_cong [OF assms(5), of set_mset] that by (simp add: set_mset_sum)
  then have stale: "\<forall>t \<in> set previous - set current. sp_id t \<in> sp_id ` set current \<longrightarrow> Z t = []" using assms(4) by blast
  have "t \<notin> set current" using kept_trains(1) [OF assms(1-3)] assms(6-8) by blast
  moreover have "sp_id t \<in> sp_id ` set current"
    using trains_changes_sets(3) [OF assms(1,2) refl] assms(3,8) by blast
  ultimately show ?thesis using stale assms(6) by blast
qed

lemma trains_changed_ok:
  assumes "\<not> (current = previous \<or> to_points st = [])" "to_dragged st = []" "d = trains_changes previous current []"
    and "coherent parseDate parse ops tables previous st"
  shows "\<exists>st2. trains_changed previous current st = Inr (st2, remdups (td_added d @ td_modified d)) \<and> to_trackIds st2 = to_trackIds st \<and>
    distinct (map fst (to_points st2)) \<and> (\<forall>w. w \<in> set (map fst (to_points st)) \<longleftrightarrow> obj_get (to_points st2) w \<noteq> None) \<and>
    valued st2 (\<lambda>w. \<Sum>t \<in> {t \<in> set previous. sp_id t \<notin> set (td_removed d)}. mset (zones_at parseDate parse (to_trackIds st) ops tables w t))"
proof -
  let ?Z = "zones_at parseDate parse (to_trackIds st) ops tables" and ?st1 = "forget_labels (td_unlabelled d) st"
  from assms(4) have di: "distinct (map fst (to_points st))" and va: "valued st (\<lambda>w. \<Sum>t \<in> set previous. mset (?Z w t))"
    by (simp_all add: coherent_valued)
  have f1: "to_points ?st1 = to_points st" "to_trackIds ?st1 = to_trackIds st" by (simp_all add: forget_labels_def)
  have "\<exists>st2. (if td_removed d \<noteq> [] then fold_all (removed_zones (td_removed d)) (map fst (to_points st)) ?st1 else Inr ?st1) = Inr st2 \<and>
      same_frame ?st1 st2 \<and> valued st2 (\<lambda>w. \<Sum>t \<in> {t \<in> set previous. sp_id t \<notin> set (td_removed d)}. mset (?Z w t)) \<and>
      (\<forall>w. w \<in> set (map fst (to_points st)) \<longleftrightarrow> obj_get (to_points st2) w \<noteq> None)"
    by (rule removal_phase [OF di f1(1) _ va]) (simp, rule zones_at_owner)
  then obtain st2 where
    st2: "(if td_removed d \<noteq> [] then fold_all (removed_zones (td_removed d)) (map fst (to_points st)) ?st1 else Inr ?st1) = Inr st2"
      "same_frame ?st1 st2" "valued st2 (\<lambda>w. \<Sum>t \<in> {t \<in> set previous. sp_id t \<notin> set (td_removed d)}. mset (?Z w t))"
      "\<forall>w. w \<in> set (map fst (to_points st)) \<longleftrightarrow> obj_get (to_points st2) w \<noteq> None" by blast
  have "trains_changed previous current st = Inr (st2, remdups (td_added d @ td_modified d))"
    using assms(1,2) st2(1) unfolding trains_changed_def assms(3) by (simp add: Let_def)
  moreover have "to_trackIds st2 = to_trackIds st" "distinct (map fst (to_points st2))" using st2(2) di f1 by (auto simp: same_frame_def)
  ultimately show ?thesis using st2(3,4) by blast
qed

text \<open>C9: the zones of the open waypoints follow the trains: when they are those of the previous trains, the update leaves, at every open
  waypoint, exactly the zones of the current trains, whichever trains were added, removed or modified and however the server groups its
  answers. The answers of the waypoints come one after the other and nothing is left to drag. The identifiers of the trains are distinct. The occupations of the
  trains that did not change have to be the same as before. A waypoint where no added or modified train has a zone must not hold zones of the
  modified trains (\<open>stale_zones_stay\<close> shows that those would stay).\<close>

theorem occupancy_follows_trains:
  assumes "distinct (map sp_id previous)" "distinct (map sp_id current)" "to_dragged st = []"
    and "coherent parseDate parse ops tables previous st"
    and "\<forall>ref. answers_from server ref (tables' ref)" "readable parseDate parse ops tables' current st"
    and "\<forall>ref. \<forall>t \<in> set previous \<inter> set current. tables' ref (sp_id t) = tables ref (sp_id t)"
    and "\<forall>w. (\<exists>t \<in> set current - set previous. zones_at parseDate parse (to_trackIds st) ops tables' w t \<noteq> []) \<or>
      (\<forall>t \<in> set previous - set current. sp_id t \<in> sp_id ` set current \<longrightarrow> zones_at parseDate parse (to_trackIds st) ops tables w t = [])"
  shows "\<exists>st'. update_trains parseDate parse server ops previous current st = Inr st' \<and> coherent parseDate parse ops tables' current st'"
proof (cases "current = previous \<or> to_points st = []")
  case True
  then have "update_trains parseDate parse server ops previous current st = Inr st" by (auto simp: update_trains_def trains_changed_def)
  moreover have "coherent parseDate parse ops tables' current st"
    using True assms(4) zones_total [OF assms(7) List.finite_set] by (auto simp: coherent_def obj_get_def)
  ultimately show ?thesis by blast
next
  case False
  let ?Z = "zones_at parseDate parse (to_trackIds st) ops tables" and ?Z' = "zones_at parseDate parse (to_trackIds st) ops tables'"
  let ?P = "set previous" and ?C = "set current"
  define d where d: "d = trains_changes previous current []"
  let ?req = "remdups (td_added d @ td_modified d)" and ?kept = "{t \<in> ?P. sp_id t \<notin> set (td_removed d)}"
  note kept = kept_trains [OF assms(1,2) d] and total = zones_total [OF assms(7) List.finite_set]
  from trains_changed_ok [OF False assms(3) d assms(4)] obtain st2 where changed: "trains_changed previous current st = Inr (st2, ?req)"
    and tr: "to_trackIds st2 = to_trackIds st" "distinct (map fst (to_points st2))"
    and ws: "\<And>w. w \<in> set (map fst (to_points st)) \<longleftrightarrow> obj_get (to_points st2) w \<noteq> None" and va: "valued st2 (\<lambda>w. \<Sum>t \<in> ?kept. mset (?Z w t))" by blast
  show ?thesis
  proof (cases "?req = []")
    case True
    then have "?kept = ?P \<inter> ?C" "?C - ?P = {}" using kept(1) requested_none [OF assms(1,2) True d] by auto
    with va total have "valued st2 (\<lambda>w. \<Sum>t \<in> ?C. mset (?Z' w t))" by simp
    with changed True tr show ?thesis by (simp add: update_trains_def coherent_valued)
  next
    case req: False
    have "\<exists>st'. fold_all (trains_answer parseDate parse server ops current ?req (td_modified d)) (map fst (to_points st)) st2 = Inr st' \<and> same_frame st2 st' \<and>
        valued st' (\<lambda>w. (\<Sum>t \<in> {t \<in> ?kept. sp_id t \<notin> set (td_modified d)}. mset (?Z w t)) + (\<Sum>t \<in> ?C - ?P. mset (?Z' w t)))"
    proof (rule answer_phase [OF _ va _ ws])
      show "\<exists>zs. fetchTrackOccupancy parseDate parse server (to_trackIds st2) (reference_at ops w) w (trains_collection current ?req) = Inr zs \<and>
          mset zs = (\<Sum>t \<in> ?C - ?P. mset (?Z' w t))" for w
        unfolding tr(1) using kept(2) by (intro fetch_at [OF assms(5,2) _ _ _ assms(6)]) auto
      show "\<forall>t \<in> ?kept. sp_id t \<in> set (td_modified d) \<longrightarrow> ?Z w t = []" if "(\<Sum>t \<in> ?C - ?P. mset (?Z' w t)) = {#}" for w
        using none_stale [OF assms(1,2) d assms(8) [rule_format] that] by blast
    qed (use assms(4) zones_at_owner in \<open>auto simp: coherent_def\<close>)
    then obtain st' where st': "fold_all (trains_answer parseDate parse server ops current ?req (td_modified d)) (map fst (to_points st)) st2 = Inr st'"
      "same_frame st2 st'" "valued st' (\<lambda>w. \<Sum>t \<in> ?C. mset (?Z' w t))" unfolding kept(1) total by blast
    have "update_trains parseDate parse server ops previous current st = Inr st'"
      unfolding update_trains_def changed bind_result.simps prod.case if_not_P [OF req] assms(3) d [symmetric] by (rule st'(1))
    moreover have "coherent parseDate parse ops tables' current st'" using st'(2,3) tr by (simp add: coherent_valued same_frame_def)
    ultimately show ?thesis by blast
  qed
qed

section \<open>Batches\<close>

lemma concat_js_chunk: "0 < n \<Longrightarrow> concat (js_chunk n xs) = xs"
  by (induction n xs rule: js_chunk.induct) (subst js_chunk.simps, auto)

lemma js_chunk_parts:
  assumes "0 < n" "distinct xs" "b \<in> set (js_chunk n xs)"
  shows "distinct b" "set b \<subseteq> set xs"
proof -
  have "distinct (concat (js_chunk n xs))" using assms(1,2) by (simp add: concat_js_chunk)
  then show "distinct b" using assms(3) by (simp add: distinct_concat_iff)
  have "set b \<subseteq> set (concat (js_chunk n xs))" using assms(3) by auto
  then show "set b \<subseteq> set xs" using assms(1) by (simp add: concat_js_chunk)
qed

text \<open>Without abort and errors: one progress for each batch, with all the zones so far, and the completion.\<close>

lemma load_batches_ok:
  assumes "\<And>b. b \<in> set bs \<Longrightarrow> fetch b = Inr (g b)"
  shows "load_batches fetch acc (map (\<lambda>b. (b, False)) bs) =
    map (\<lambda>k. OnProgress (acc @ concat (map g (take (Suc k) bs)))) [0..<length bs] @ [OnComplete (acc @ concat (map g bs))]"
  using assms
proof (induction bs arbitrary: acc)
  case (Cons b bs)
  have "[0..<length (b # bs)] = 0 # map Suc [0..<length bs]" unfolding map_Suc_upt by (simp add: upt_conv_Cons del: upt_Suc)
  with Cons show ?case by (simp add: o_def)
qed simp

lemma batch_fetch_ok:
  assumes "\<And>b. b \<in> set (js_chunk n ids) \<Longrightarrow> fetch b = Inr (g b)"
  shows "\<exists>cs. batchFetchTrackOccupancy n fetch (\<lambda>_. False) ids = cs @ [OnComplete (concat (map g (js_chunk n ids)))] \<and>
    (\<forall>c \<in> set cs. \<exists>zs. c = OnProgress zs)"
proof -
  have "zip bs (map (\<lambda>_. False) [0..<length bs]) = map (\<lambda>b. (b, False)) bs" for bs :: "'a list list"
    by (intro nth_equalityI) auto
  then show ?thesis using load_batches_ok [of "js_chunk n ids" fetch g "[]"] assms
    unfolding batchFetchTrackOccupancy_def Let_def by auto
qed

lemma batch_event_at:
  assumes "obj_get (to_points st) w = Some s"
  shows "same_frame st (batch_event w c st) \<and> (\<forall>w'. w' \<noteq> w \<longrightarrow> obj_get (to_points (batch_event w c st)) w' = obj_get (to_points st) w') \<and>
    (\<exists>s'. obj_get (to_points (batch_event w c st)) w = Some s' \<and> pt_selected s' = pt_selected s)"
  using assms by (cases c) (auto simp: on_progress_zones_def on_complete_zones_def on_point_def same_frame_def distinct_update)

lemma batch_events_at:
  assumes "obj_get (to_points st) w = Some s"
  shows "same_frame st (fold (batch_event w) cs st) \<and> (\<forall>w'. w' \<noteq> w \<longrightarrow> obj_get (to_points (fold (batch_event w) cs st)) w' = obj_get (to_points st) w') \<and>
    (\<exists>s'. obj_get (to_points (fold (batch_event w) cs st)) w = Some s' \<and> pt_selected s' = pt_selected s)"
  using assms
proof (induction cs arbitrary: st s)
  case Nil
  then show ?case by (simp add: same_frame_def)
next
  case (Cons c cs)
  from batch_event_at [OF Cons.prems, of c] obtain s1 where c: "same_frame st (batch_event w c st)"
    "\<forall>w'. w' \<noteq> w \<longrightarrow> obj_get (to_points (batch_event w c st)) w' = obj_get (to_points st) w'"
    "obj_get (to_points (batch_event w c st)) w = Some s1" "pt_selected s1 = pt_selected s" by blast
  from Cons.IH [OF c(3)] c(1,2,4) show ?case by (auto simp: same_frame_def)
qed

lemma batches_complete:
  assumes "obj_get (to_points st) w = Some s"
  shows "\<exists>st'. fold (batch_event w) (cs @ [OnComplete zs]) st = st' \<and> same_frame st st' \<and>
    (\<forall>w'. w' \<noteq> w \<longrightarrow> obj_get (to_points st') w' = obj_get (to_points st) w') \<and>
    obj_get (to_points st') w = Some \<lparr>pt_selected = pt_selected s, pt_zones = ZonesOk zs\<rparr>"
proof -
  let ?m = "fold (batch_event w) cs st"
  from batch_events_at [OF assms, of cs] obtain s' where m: "same_frame st ?m"
    "\<forall>w'. w' \<noteq> w \<longrightarrow> obj_get (to_points ?m) w' = obj_get (to_points st) w'" "obj_get (to_points ?m) w = Some s'" "pt_selected s' = pt_selected s" by blast
  then show ?thesis by (cases s') (auto simp: on_complete_zones_def on_point_def same_frame_def distinct_update)
qed

lemma chunk_zones:
  assumes "distinct (map sp_id trains)" "0 < n"
    and "\<And>b. b \<in> set (js_chunk n (map sp_id trains)) \<Longrightarrow> mset (g b) = (\<Sum>t \<in> {t \<in> set trains. sp_id t \<in> set b}. mset (Z t))"
  shows "mset (concat (map g (js_chunk n (map sp_id trains)))) = (\<Sum>t \<in> set trains. mset (Z t))"
proof -
  have "mset (concat (map g bs)) = (\<Sum>t \<in> {t \<in> set trains. sp_id t \<in> set (concat bs)}. mset (Z t))"
    if "distinct (concat bs)" "\<And>b. b \<in> set bs \<Longrightarrow> mset (g b) = (\<Sum>t \<in> {t \<in> set trains. sp_id t \<in> set b}. mset (Z t))" for bs
    using that
  proof (induction bs)
    case (Cons b bs)
    have "{t \<in> set trains. sp_id t \<in> set (concat (b # bs))} = {t \<in> set trains. sp_id t \<in> set b} \<union> {t \<in> set trains. sp_id t \<in> set (concat bs)}" by auto
    moreover have "{t \<in> set trains. sp_id t \<in> set b} \<inter> {t \<in> set trains. sp_id t \<in> set (concat bs)} = {}" using Cons.prems(1) by auto
    ultimately show ?case using Cons by (simp add: sum.union_disjoint)
  qed simp
  from this [of "js_chunk n (map sp_id trains)"] assms show ?thesis
    by (simp add: concat_js_chunk cong: conj_cong)
qed

lemma projections_keys: "distinct (map sp_id trains) \<Longrightarrow> map fst (projections_by_id trains) = map sp_id trains"
proof -
  assume "distinct (map sp_id trains)"
  moreover have "foldl (\<lambda>m x. AList.update (sp_id x) x m) m xs = m @ map (\<lambda>x. (sp_id x, x)) xs" if "distinct (map fst m @ map sp_id xs)"
    for m and xs :: "projection_data list"
    using that by (induction xs arbitrary: m) (auto simp: update_new)
  ultimately show ?thesis by (simp add: projections_by_id_def mapBy_def o_def)
qed

text \<open>C18: opening a waypoint for the first time loads the zones of all trains in batches, and when the last one has come they are exactly the
  zones that the server knows for these trains, marked as loaded; the other waypoints are not touched.\<close>

theorem opened_waypoint_complete:
  assumes "coherent parseDate parse ops tables trains st" "distinct (map sp_id trains)"
    and "map_of (path_ops_by_waypoint ops) w \<noteq> None" "obj_get (to_points st) w = None"
    and "\<forall>ref. answers_from server ref (tables ref)" "readable parseDate parse ops tables trains st"
  shows "\<exists>st' zs. open_waypoint parseDate parse server (\<lambda>_. False) trains ops w None st = Inr st' \<and>
    coherent parseDate parse ops tables trains st' \<and> obj_get (to_points st') w = Some \<lparr>pt_selected = True, pt_zones = ZonesOk zs\<rparr> \<and>
    (\<forall>w'. w' \<noteq> w \<longrightarrow> obj_get (to_points st') w' = obj_get (to_points st) w')"
proof -
  let ?Z = "zones_at parseDate parse (to_trackIds st) ops tables w"
  let ?fetch = "\<lambda>ids. fetchTrackOccupancy parseDate parse server (to_trackIds st) (reference_at ops w) w (trains_collection trains ids)"
  define st1 where st1: "st1 = st\<lparr>to_points := updatePathOperationalPointState w (\<lambda>_. Some \<lparr>pt_selected = True, pt_zones = ZonesLoading None\<rparr>) (to_points st)\<rparr>"
  have t: "toggleWaypoint ops w None st = Inr (st1, BatchRequest)" using assms(3,4) by (auto simp: toggleWaypoint_def st1)
  have fetch: "\<exists>zs. ?fetch b = Inr zs \<and> mset zs = (\<Sum>t \<in> {t \<in> set trains. sp_id t \<in> set b}. mset (?Z t))" if b: "b \<in> set (js_chunk 50 (map sp_id trains))" for b
  proof (rule fetch_at [OF assms(5,2) _ _ _ assms(6)])
    show "distinct b" "set b = sp_id ` {t \<in> set trains. sp_id t \<in> set b}" using js_chunk_parts [OF _ assms(2) b] by auto
  qed auto
  define g where "g = (\<lambda>b. projr (?fetch b))"
  from fetch have g: "\<And>b. b \<in> set (js_chunk 50 (map sp_id trains)) \<Longrightarrow>
    ?fetch b = Inr (g b) \<and> mset (g b) = (\<Sum>t \<in> {t \<in> set trains. sp_id t \<in> set b}. mset (?Z t))" unfolding g_def by fastforce
  let ?zs = "concat (map g (js_chunk 50 (map sp_id trains)))"
  from batch_fetch_ok [of 50 "map sp_id trains" ?fetch g] g obtain cs where
    cs: "batchFetchTrackOccupancy 50 ?fetch (\<lambda>_. False) (map sp_id trains) = cs @ [OnComplete ?zs]" by auto
  have "obj_get (to_points st1) w = Some \<lparr>pt_selected = True, pt_zones = ZonesLoading None\<rparr>" by (simp add: st1)
  from batches_complete [OF this, of cs ?zs] obtain st' where st': "fold (batch_event w) (cs @ [OnComplete ?zs]) st1 = st'" "same_frame st1 st'"
    "\<forall>w'. w' \<noteq> w \<longrightarrow> obj_get (to_points st') w' = obj_get (to_points st1) w'" "obj_get (to_points st') w = Some \<lparr>pt_selected = True, pt_zones = ZonesOk ?zs\<rparr>" by auto
  have o: "open_waypoint parseDate parse server (\<lambda>_. False) trains ops w None st = Inr st'"
    using t cs st'(1) by (simp add: open_waypoint_def projections_keys [OF assms(2)] reference_at_def [symmetric] st1 Let_def)
  have frame: "to_trackIds st' = to_trackIds st" "distinct (map fst (to_points st'))"
    using st'(2) assms(1) by (auto simp: same_frame_def st1 coherent_def distinct_update)
  have others: "\<forall>w'. w' \<noteq> w \<longrightarrow> obj_get (to_points st') w' = obj_get (to_points st) w'" using st'(3) by (simp add: st1)
  have "mset ?zs = (\<Sum>t \<in> set trains. mset (?Z t))" using g by (intro chunk_zones [OF assms(2)]) auto
  then have "coherent parseDate parse ops tables trains st'"
    using assms(1) frame others st'(4) unfolding coherent_def by (metis data_or_empty_def option.case(2) option.inject point_state.select_convs(2) zones_data.simps(2))
  with o others st'(4) show ?thesis by blast
qed

section \<open>Dragging\<close>

lemma moves_with_times: "moves_with p (z\<lparr>oz_startTime := a, oz_endTime := b\<rparr>) = moves_with p z"
  by (simp add: moves_with_def)

lemma move_zone_twice: "move_zone p o1 z = Inr z' \<Longrightarrow> move_zone p o2 z' = move_zone p o2 z \<and> moves_with p z' = moves_with p z"
  by (auto simp: move_zone_def moves_with_times)

text \<open>What an operation keeps of each element, it keeps of the list.\<close>

lemma map_result_kept:
  assumes "map_result f xs = Inr ys" "\<And>x y. x \<in> set xs \<Longrightarrow> f x = Inr y \<Longrightarrow> h y = h x"
  shows "map h ys = map h xs"
proof (rule nth_equalityI)
  show l: "length (map h ys) = length (map h xs)" using map_result_length [OF assms(1)] by simp
  show "map h ys ! i = map h xs ! i" if "i < length (map h ys)" for i
    using that l assms(2) [OF nth_mem map_result_nth [OF assms(1)]] by simp
qed

lemma map_result_twice:
  assumes "map_result f xs = Inr ys" "\<And>x y. x \<in> set xs \<Longrightarrow> f x = Inr y \<Longrightarrow> g y = g x"
  shows "map_result g ys = map_result g xs"
proof -
  have m: "map_result g zs = map_result (\<lambda>r. r) (map g zs)" for zs by (induction zs) auto
  have "map g ys = map g xs" by (rule map_result_kept [OF assms(1)]) (rule assms(2))
  then show ?thesis by (simp only: m [of ys] m [of xs])
qed

lemma map_result_list_ex:
  assumes "map_result f xs = Inr ys" "\<And>x y. x \<in> set xs \<Longrightarrow> f x = Inr y \<Longrightarrow> P y = P x"
  shows "list_ex P ys = list_ex P xs"
proof -
  have m: "list_ex P zs = (True \<in> set (map P zs))" for zs by (auto simp: list_ex_iff)
  have "map P ys = map P xs" by (rule map_result_kept [OF assms(1)]) (rule assms(2))
  then show ?thesis by (simp only: m [of ys] m [of xs])
qed

lemma filter_map_result:
  assumes "map_result f xs = Inr ys" "\<And>x y. x \<in> set xs \<Longrightarrow> f x = Inr y \<Longrightarrow> (k y, P y) = (k x, P x)"
  shows "map k (filter P ys) = map k (filter P xs)"
proof -
  have m: "map k (filter P zs) = map fst (filter snd (map (\<lambda>x. (k x, P x)) zs))" for zs by (simp add: filter_map o_def)
  have "map (\<lambda>x. (k x, P x)) ys = map (\<lambda>x. (k x, P x)) xs" by (rule map_result_kept [OF assms(1)]) (rule assms(2))
  then show ?thesis by (simp only: m [of ys] m [of xs])
qed

lemma with_data_twice [simp]: "with_data (with_data zs d) d' = with_data zs d'"
  by (cases zs) auto

lemma map_zones_twice:
  assumes "map_zones (move_zone p o1) zs = Inr zs'"
  shows "map_zones (move_zone p o2) zs' = map_zones (move_zone p o2) zs"
proof (cases "zones_data zs")
  case None
  with assms show ?thesis by (simp add: map_zones_def)
next
  case (Some d)
  with assms obtain d' where d': "map_result (move_zone p o1) d = Inr d'" "zs' = with_data zs d'" by (auto simp: map_zones_def)
  with Some map_result_twice [OF d'(1), of "move_zone p o2"] move_zone_twice show ?thesis by (simp add: map_zones_def)
qed

lemma dragged_point_moved:
  assumes "map_zones (move_zone p o1) zs = Inr zs'"
  shows "dragged_point p (w, s\<lparr>pt_zones := zs'\<rparr>) = dragged_point p (w, s\<lparr>pt_zones := zs\<rparr>)"
proof (cases "zones_data zs")
  case None
  with assms show ?thesis by (simp add: map_zones_def)
next
  case (Some d)
  with assms obtain d' where d': "map_result (move_zone p o1) d = Inr d'" "zs' = with_data zs d'" by (auto simp: map_zones_def)
  have "list_ex (\<lambda>z. moves_with p z = Inr True) d' = list_ex (\<lambda>z. moves_with p z = Inr True) d"
    by (rule map_result_list_ex [OF d'(1)]) (simp add: move_zone_twice)
  with Some d'(2) show ?thesis by (simp add: dragged_point_def)
qed

lemma move_point_twice:
  assumes "move_point p o1 x = Inr y"
  shows "move_point p o2 y = move_point p o2 x \<and> fst y = fst x \<and> dragged_point p y = dragged_point p x"
proof (cases "pt_selected (snd x)")
  case False
  with assms show ?thesis by (simp add: move_point_def)
next
  case True
  with assms obtain zs where zs: "map_zones (move_zone p o1) (pt_zones (snd x)) = Inr zs" "y = (fst x, (snd x)\<lparr>pt_zones := zs\<rparr>)"
    by (auto simp: move_point_def)
  have "move_point p o2 y = move_point p o2 x"
    using True map_zones_twice [OF zs(1), of o2] by (cases "map_zones (move_zone p o2) (pt_zones (snd x))") (simp_all add: move_point_def zs(2))
  with zs dragged_point_moved [OF zs(1), of "fst x" "snd x"] show ?thesis by simp
qed

text \<open>C29: the zones of a dragged paced train do not drift: when the drag reports the departure time \<open>first\<close> against the initial one, the
  zones of the occurrences of the train, those with a start time of their own apart, are at the times the server gave, shifted by the
  difference of the two departure times, and every other zone is where it was (the zones of a train that is not paced do not move,
  \<open>unique_train_zones_fixed\<close>); a second report gives the state that it would have given without the first one, so that shifts never add
  up. For a dragged occurrence the departure time reported is that of the first occurrence
  (\<open>dragged_departure_of_occurrence\<close>), while the initial one is that of the occurrence itself.\<close>

theorem dragged_zones_do_not_drift:
  assumes "move_zones draggedTrainId initial first False st = Inr (st1, impacted)" "item_number draggedTrainId = Inr n"
  shows "move_zones draggedTrainId initial second stop st1 = move_zones draggedTrainId initial second stop st \<and>
    (\<forall>i < length (to_points st). pt_selected (snd (to_points st ! i)) \<longrightarrow>
      (\<forall>d d' j. zones_data (pt_zones (snd (to_points st ! i))) = Some d \<longrightarrow> zones_data (pt_zones (snd (to_points st1 ! i))) = Some d' \<longrightarrow> j < length d \<longrightarrow>
        d' ! j = (if moves_with (formatEditoastIdToPacedTrainId n) (d ! j) = Inr True
                  then (d ! j)\<lparr>oz_startTime := oz_dbStartTime (d ! j) + (first - initial), oz_endTime := oz_dbEndTime (d ! j) + (first - initial)\<rparr>
                  else d ! j)))"
proof -
  let ?p = "formatEditoastIdToPacedTrainId n" and ?o1 = "first - initial"
  from assms obtain points where points: "map_result (move_point ?p ?o1) (to_points st) = Inr points"
    and st1: "st1 = st\<lparr>to_dragged := add_new (js_trunc n) (to_dragged st), to_points := points\<rparr>" by (auto simp: move_zones_def Let_def)
  have again: "map_result (move_point ?p o2) points = map_result (move_point ?p o2) (to_points st)" for o2
    by (rule map_result_twice [OF points]) (simp add: move_point_twice)
  have "map fst (filter (dragged_point ?p) points) = map fst (filter (dragged_point ?p) (to_points st))"
    by (rule filter_map_result [OF points]) (simp add: move_point_twice)
  then have "move_zones draggedTrainId initial second stop st1 = move_zones draggedTrainId initial second stop st"
    by (simp add: move_zones_def assms(2) st1 again Let_def add_new_def)
  moreover have "d' ! j = (if moves_with ?p (d ! j) = Inr True
        then (d ! j)\<lparr>oz_startTime := oz_dbStartTime (d ! j) + ?o1, oz_endTime := oz_dbEndTime (d ! j) + ?o1\<rparr> else d ! j)"
    if "i < length (to_points st)" "pt_selected (snd (to_points st ! i))" "zones_data (pt_zones (snd (to_points st ! i))) = Some d"
      "zones_data (pt_zones (snd (to_points st1 ! i))) = Some d'" "j < length d" for i d d' j
  proof -
    from map_result_nth [OF points that(1)] have "move_point ?p ?o1 (to_points st ! i) = Inr (points ! i)" .
    with that(2,3) obtain x where x: "map_result (move_zone ?p ?o1) d = Inr x"
      and eq: "(fst (to_points st ! i), (snd (to_points st ! i))\<lparr>pt_zones := with_data (pt_zones (snd (to_points st ! i))) x\<rparr>) = points ! i"
      by (auto simp: move_point_def map_zones_def)
    have "d' = x" using that(4) by (simp add: st1 eq [symmetric])
    with map_result_nth [OF x that(5)] show ?thesis by (auto simp: move_zone_def)
  qed
  ultimately show ?thesis by blast
qed

text \<open>The request at the end of the movement fails as soon as the server answers with an occupation of the train: the answer names the train
  by its number, while the collection has its identifier as key.\<close>

lemma decimal_not_id: "string_of_int i \<noteq> draggedTrainId" if "isTrainId draggedTrainId"
proof -
  have "CHR ''_'' \<in> set s" if "starts_with pre s" "CHR ''_'' \<in> set pre" for pre s
    using that by (auto simp: starts_with_def) (metis in_set_takeD)
  from this [of "''paced_''"] this [of "''indexedoccurrence_''"] this [of "''exception_''"] have "CHR ''_'' \<in> set draggedTrainId"
    using that by (auto simp: isTrainId_def isOccurrenceId_def isPacedTrainId_def isIndexedOccurrenceId_def isAddedExceptionId_def)
  then show ?thesis using string_of_int_no_sep by metis
qed

lemma drag_refresh_fails:
  assumes "isTrainId draggedTrainId" "server ref [sp_id train] = Some items" "concat (map ti_trains items) \<noteq> []"
    and "\<forall>occ \<in> set (concat (map ti_trains items)). oc_train_schedule_id occ = sp_id train"
  shows "fetchTrackOccupancy parseDate parse server trackIds (Some ref) w (drag_collection draggedTrainId train) =
    Inl (JSError (''No train found for id '' @ string_of_int (sp_id train)))"
proof -
  let ?f = "\<lambda>(name, occ). occupation_zone parseDate parse (drag_collection draggedTrainId train) (occupied_track trackIds w name) occ"
  have err: "?f x = Inl (JSError (''No train found for id '' @ string_of_int (sp_id train)))" if "x \<in> set (concat (map item_occupations items))" for x
    using that assms(4) decimal_not_id [OF assms(1)] by (auto simp: item_occupations_def occupation_zone_def drag_collection_def obj_get_def Let_def)
  have "concat (map item_occupations items) \<noteq> []" using assms(3) by (auto simp: item_occupations_def)
  then obtain x xs where xs: "concat (map item_occupations items) = x # xs" by (cases "concat (map item_occupations items)") auto
  have "?f x = Inl (JSError (''No train found for id '' @ string_of_int (sp_id train)))" by (rule err) (simp only: xs list.set_intros)
  then have "map_result ?f (concat (map item_occupations items)) = Inl (JSError (''No train found for id '' @ string_of_int (sp_id train)))"
    unfolding xs by (simp only: map_result.simps bind_result.simps)
  moreover have "map_result (\<lambda>(k, train). case train of None \<Rightarrow> Inl TypeError | Some t \<Rightarrow> Inr (sp_id t)) (drag_collection draggedTrainId train) = Inr [sp_id train]"
    by (simp add: drag_collection_def)
  ultimately show ?thesis unfolding fetch_flat by (simp add: assms(2))
qed

section \<open>Tracks\<close>

text \<open>A comparison function of \<open>sort\<close> that is total and transitive.\<close>

definition orders :: "('a \<Rightarrow> 'a \<Rightarrow> int) \<Rightarrow> bool" where
  "orders cmp \<longleftrightarrow> (\<forall>x y. cmp x y \<le> 0 \<or> cmp y x \<le> 0) \<and> (\<forall>x y z. cmp x y \<le> 0 \<longrightarrow> cmp y z \<le> 0 \<longrightarrow> cmp x z \<le> 0)"

lemma ordersD:
  assumes "orders cmp"
  shows "\<not> cmp x y \<le> 0 \<Longrightarrow> cmp y x \<le> 0" "cmp x y \<le> 0 \<Longrightarrow> cmp y z \<le> 0 \<Longrightarrow> cmp x z \<le> 0"
  using assms unfolding orders_def by blast+

lemma mset_insert_by [simp]: "mset (insert_by cmp x xs) = add_mset x (mset xs)"
  by (induction xs) auto

lemma set_insert_by [simp]: "set (insert_by cmp x xs) = insert x (set xs)"
  by (induction xs) auto

lemma mset_js_sort [simp]: "mset (js_sort cmp xs) = mset xs"
  by (induction xs) (simp_all add: js_sort_def)

lemma sorted_insert_by:
  "orders cmp \<Longrightarrow> sorted_wrt (\<lambda>x y. cmp x y \<le> 0) xs \<Longrightarrow> sorted_wrt (\<lambda>x y. cmp x y \<le> 0) (insert_by cmp x xs)"
  by (induction xs) (auto dest: ordersD(1) intro: ordersD(2))

lemma sorted_js_sort: "orders cmp \<Longrightarrow> sorted_wrt (\<lambda>x y. cmp x y \<le> 0) (js_sort cmp xs)"
  by (induction xs) (simp_all add: js_sort_def sorted_insert_by)

text \<open>The names of the tracks as a rank, a number and a name.\<close>

fun name_class :: "string option \<Rightarrow> nat \<times> int" where
  "name_class None = (2, 0)"
| "name_class (Some s) = (case extractFirstNumber s of Some n \<Rightarrow> (0, n) | None \<Rightarrow> if s = [] then (2, 0) else (1, 0))"

lemma compare_by_class:
  "compareTracksByName lc a b \<le> 0 \<longleftrightarrow>
     fst (name_class (tk_name a)) < fst (name_class (tk_name b)) \<or>
     fst (name_class (tk_name a)) = fst (name_class (tk_name b)) \<and>
       (fst (name_class (tk_name a)) = 2 \<or> snd (name_class (tk_name a)) < snd (name_class (tk_name b)) \<or>
        snd (name_class (tk_name a)) = snd (name_class (tk_name b)) \<and> lc (the (tk_name a)) (the (tk_name b)) \<le> 0)"
proof (cases "tk_name a"; cases "tk_name b")
  fix x y assume n: "tk_name a = Some x" "tk_name b = Some y"
  show ?thesis by (cases "extractFirstNumber x"; cases "extractFirstNumber y") (auto simp: compareTracksByName_def n truthy_def)
qed (auto simp: compareTracksByName_def truthy_def split: option.split)

lemma lexicographic_orders:
  fixes f :: "'a \<Rightarrow> nat" and g :: "'a \<Rightarrow> int"
  assumes "orders lc" and cmp: "\<And>x y. cmp x y \<le> 0 \<longleftrightarrow> f x < f y \<or> f x = f y \<and> (f x = 2 \<or> g x < g y \<or> g x = g y \<and> lc (h x) (h y) \<le> (0 :: int))"
  shows "orders cmp"
  unfolding orders_def
proof (intro conjI allI impI)
  show "cmp x y \<le> 0 \<or> cmp y x \<le> 0" for x y
    unfolding cmp using ordersD(1) [OF assms(1), of "h x" "h y"] by (cases "f x" "f y" rule: linorder_cases; cases "g x" "g y" rule: linorder_cases) auto
  show "cmp x z \<le> 0" if xy: "cmp x y \<le> 0" and yz: "cmp y z \<le> 0" for x y z
  proof (cases "f x < f y \<or> f y < f z")
    case True
    with xy yz show ?thesis unfolding cmp by auto
  next
    case False
    with xy yz have "f x = f y" "f y = f z" unfolding cmp by auto
    with xy yz ordersD(2) [OF assms(1), of "h x" "h y" "h z"] show ?thesis unfolding cmp by auto
  qed
qed

lemma compareTracksByName_orders: "orders lc \<Longrightarrow> orders (compareTracksByName lc)"
  by (rule lexicographic_orders [OF _ compare_by_class])

lemma set_virtual_ids: "set (fold add_new xs ys) = set xs \<union> set ys"
  by (induction xs arbitrary: ys) auto

lemma distinct_virtual_ids: "distinct ys \<Longrightarrow> distinct (fold add_new xs ys)"
  by (induction xs arbitrary: ys) (simp_all add: distinct_add_new)

lemma virtual_ids:
  "tk_id ` set (virtual_tracks infra xs) = set xs - set infra" "distinct (map tk_id (virtual_tracks infra xs))"
  by (auto simp: virtual_tracks_def set_virtual_ids image_iff o_def intro!: distinct_virtual_ids)

lemma sortTracks_mset:
  assumes "distinct (map tk_id virtual)"
  shows "mset (sortTracks lc infra virtual) = mset infra + mset virtual"
proof -
  let ?nc = "\<lambda>t. tk_id t = NO_TRACK_SPECIFIED_SYMBOL"
  have "filter ?nc virtual = (case find ?nc virtual of None \<Rightarrow> [] | Some t \<Rightarrow> [t])"
    using assms
  proof (induction virtual)
    case (Cons t ts)
    show ?case
    proof (cases "?nc t")
      case True
      with Cons.prems have "filter ?nc ts = []" by (force simp: filter_empty_conv)
      with True show ?thesis by simp
    qed (use Cons in simp)
  qed simp
  then have "mset virtual = mset (filter (\<lambda>t. \<not> ?nc t) virtual) + mset (case find ?nc virtual of None \<Rightarrow> [] | Some t \<Rightarrow> [t])"
    by (metis mset_filter multiset_partition add.commute)
  then show ?thesis by (simp add: sortTracks_def Let_def)
qed

lemma sortTracks_parts:
  assumes "orders lc"
  shows "\<exists>others nc. sortTracks lc infra virtual = infra @ others @ nc \<and> sorted_wrt (\<lambda>a b. compareTracksByName lc a b \<le> 0) others \<and>
    (\<forall>t \<in> set nc. tk_id t = NO_TRACK_SPECIFIED_SYMBOL) \<and> (\<forall>t \<in> set others. tk_id t \<noteq> NO_TRACK_SPECIFIED_SYMBOL)"
proof (intro exI conjI)
  let ?nc = "\<lambda>t. tk_id t = NO_TRACK_SPECIFIED_SYMBOL"
  let ?others = "js_sort (compareTracksByName lc) (filter (\<lambda>t. \<not> ?nc t) virtual)" and ?last = "case find ?nc virtual of None \<Rightarrow> [] | Some t \<Rightarrow> [t]"
  show "sortTracks lc infra virtual = infra @ ?others @ ?last" by (simp add: sortTracks_def Let_def)
  show "sorted_wrt (\<lambda>a b. compareTracksByName lc a b \<le> 0) ?others" by (rule sorted_js_sort) (rule compareTracksByName_orders [OF assms])
  show "\<forall>t \<in> set ?last. ?nc t" proof (cases "find ?nc virtual")
    case (Some t)
    then have "?nc t" by (auto simp: find_Some_iff)
    with Some show ?thesis by simp
  qed simp
  have "set ?others = set (filter (\<lambda>t. \<not> ?nc t) virtual)" by (metis mset_js_sort set_mset_mset)
  then show "\<forall>t \<in> set ?others. \<not> ?nc t" by simp
qed

text \<open>C25: every zone of a deployed waypoint lies on one of the tracks that are listed for it, no track is listed twice, and the tracks that the
  infrastructure does not know come after the known ones, in the order of their names, with the track of the zones without track last.
  The comparison of the language has to be an order.\<close>

theorem zones_on_listed_tracks:
  assumes "deployedWaypoints lc unknown ops st = Inr ws" "wp \<in> set ws" "orders lc"
    and "\<forall>w ts. Option.bind (to_tracks st) (\<lambda>d. obj_get d w) = Some ts \<longrightarrow> distinct (map tk_id ts)"
  shows "(\<forall>zs. dw_zones wp = Some zs \<longrightarrow> oz_trackId ` set zs \<subseteq> tk_id ` set (dw_tracks wp)) \<and> distinct (map tk_id (dw_tracks wp)) \<and>
    (\<exists>infra others nc. dw_tracks wp = infra @ others @ nc \<and>
       infra = (case Option.bind (to_tracks st) (\<lambda>d. obj_get d (dw_waypointId wp)) of None \<Rightarrow> [] | Some ts \<Rightarrow> ts) \<and>
       sorted_wrt (\<lambda>a b. compareTracksByName lc a b \<le> 0) others \<and>
       (\<forall>t \<in> set nc. tk_id t = NO_TRACK_SPECIFIED_SYMBOL) \<and> (\<forall>t \<in> set others. tk_id t \<noteq> NO_TRACK_SPECIFIED_SYMBOL))"
proof -
  from assms(1,2) obtain w opState op1 where d: "deploy_waypoint lc unknown st w opState op1 = Inr wp"
    unfolding deployedWaypoints_def map_result_Inr_iff in_set_conv_nth by (metis (no_types, lifting) case_prod_beta)
  let ?infra = "case Option.bind (to_tracks st) (\<lambda>d. obj_get d w) of None \<Rightarrow> [] | Some ts \<Rightarrow> ts"
  let ?xs = "case dw_zones wp of None \<Rightarrow> [] | Some zs \<Rightarrow> map oz_trackId zs"
  let ?v = "virtual_tracks (map tk_id ?infra) ?xs"
  from d have wp: "dw_tracks wp = sortTracks lc ?infra ?v" "dw_waypointId wp = w" by (auto simp: deploy_waypoint_def Let_def)
  have m: "mset (dw_tracks wp) = mset ?infra + mset ?v" unfolding wp(1) by (rule sortTracks_mset) (rule virtual_ids(2))
  then have s: "set (dw_tracks wp) = set ?infra \<union> set ?v" by (metis set_mset_mset set_mset_union)
  have "oz_trackId ` set zs \<subseteq> tk_id ` set (dw_tracks wp)" if "dw_zones wp = Some zs" for zs
    using that virtual_ids(1) [of "map tk_id ?infra" ?xs] unfolding s image_Un by auto
  moreover have "distinct (map tk_id (?infra @ ?v))"
    using assms(4) [rule_format, of w] virtual_ids [of "map tk_id ?infra" ?xs] by (auto split: option.split)
  then have "distinct (map tk_id (dw_tracks wp))" using m by (metis mset_append mset_map mset_eq_imp_distinct_iff)
  ultimately show ?thesis using sortTracks_parts [OF assms(3), of ?infra ?v] unfolding wp by metis
qed

section \<open>Gaps of the update\<close>

text \<open>When the modified trains have no zone any more at a waypoint, their old zones stay there.\<close>

lemma stale_zones_stay:
  assumes "fetchTrackOccupancy parseDate parse server (to_trackIds st) (reference_at ops w) w (trains_collection trains requested) = Inr []"
  shows "trains_answer parseDate parse server ops trains requested modified w st = Inr st"
  using assms by (simp add: trains_answer_def reference_at_def new_zones_def)

text \<open>The end of a batch that was started before the trains changed drops the zones of the update.\<close>

lemma loading_overwrites_update:
  assumes "obj_get (to_points st) w = Some s" "new_zones modified newZones w st = Inr st1" "newZones \<noteq> []"
  shows "\<exists>s'. obj_get (to_points (batch_event w (OnComplete zs) st1)) w = Some s' \<and> data_or_empty (pt_zones s') = zs"
  using assms by (auto simp: new_zones_def update_zones_def on_complete_zones_def on_point_def data_or_empty_def)

text \<open>The zones of a train that is not paced do not move when it is dragged.\<close>

lemma unique_train_zones_fixed: "oz_trainId z = formatEditoastIdToPacedTrainId n \<Longrightarrow> move_zone p offset z = Inr z"
  by (simp add: move_zone_def moves_with_def format_kinds)

text \<open>After a request of labels that fails no train is asked for again: all trains have an entry.\<close>

lemma label_side_keys: "map_of (fst ls) k \<noteq> None \<Longrightarrow> map_of (fst (label_side i s item ls)) k \<noteq> None"
  by (auto simp: label_side_def write_label_def map_of_int_set split: location.split op_reference.split)

lemma label_items_keys: "map_of (fst ls) k \<noteq> None \<Longrightarrow> map_of (fst (fst (label_items ts ls))) k \<noteq> None"
proof (induction ts ls rule: label_items.induct)
  case (2 t ts ls)
  then have k: "map_of (fst (int_set (fst ls) (sp_id t) no_labels, snd ls)) k \<noteq> None" by (simp add: map_of_int_set)
  show ?case
  proof (cases "sp_originPathItem t")
    case None
    with k show ?thesis by simp
  next
    case (Some origin)
    with k show ?thesis using 2(1) [OF refl Some refl] label_side_keys by (cases "sp_destinationPathItem t") (simp_all add: Let_def)
  qed
qed simp

lemma label_items_all:
  assumes "\<forall>t \<in> set ts. sp_originPathItem t \<noteq> None \<and> sp_destinationPathItem t \<noteq> None" "t \<in> set ts"
  shows "map_of (fst (fst (label_items ts ls))) (sp_id t) \<noteq> None"
  using assms
proof (induction ts arbitrary: ls)
  case (Cons u ts)
  from Cons.prems(1) obtain a b where ab: "sp_originPathItem u = Some a" "sp_destinationPathItem u = Some b" by fastforce
  let ?ls = "label_side (sp_id u) Destination b (label_side (sp_id u) Origin a (int_set (fst ls) (sp_id u) no_labels, snd ls))"
  have eq: "label_items (u # ts) ls = label_items ts ?ls" by (simp add: ab)
  show ?case
  proof (cases "t \<in> set ts")
    case True
    with Cons show ?thesis unfolding eq by auto
  next
    case False
    with Cons.prems(2) have "t = u" by simp
    then show ?thesis unfolding eq by (intro label_items_keys label_side_keys) (simp add: map_of_int_set)
  qed
qed simp

lemma labels_not_retried:
  assumes "\<forall>t \<in> set trains. sp_originPathItem t \<noteq> None \<and> sp_destinationPathItem t \<noteq> None"
  shows "items_to_fetch trains (fst (label_start trains st)) = []"
proof -
  have "map_of (to_labels (fst (label_start trains st))) (sp_id t) \<noteq> None" if t: "t \<in> set trains" for t
  proof (cases "map_of (to_labels st) (sp_id t)")
    case None
    then have "t \<in> set (items_to_fetch trains st)" using t by (simp add: items_to_fetch_def)
    then show ?thesis using assms label_items_all [of "items_to_fetch trains st" t "(to_labels st, [])"]
      by (auto simp: label_start_def items_to_fetch_def split: prod.split)
  next
    case (Some l)
    then show ?thesis using label_items_keys [of "(to_labels st, [])" "sp_id t" "items_to_fetch trains st"]
      by (auto simp: label_start_def split: prod.split)
  qed
  then show ?thesis by (simp add: items_to_fetch_def)
qed

section \<open>Examples\<close>

definition ex_paced :: projection_data where
  "ex_paced = ex_item\<lparr>sp_paced := Some \<lparr>pp_timeWindow = Duration 30, pp_interval = Duration 10,
     pp_exceptions = [ex_change (Some 1) None (Some ''d'')], pp_exceptionProjections = []\<rparr>\<rparr>"

definition ex_occ :: "occupation_kind \<Rightarrow> occupation" where
  "ex_occ kind = \<lparr>oc_train_schedule_id = 1, oc_kind = kind, oc_time_begin = ''b'', oc_duration = ''P''\<rparr>"

theorem zones_match_chart_witness:
  "\<exists>ds d. projected_items (\<lambda>_. 7) ex_paced = Inr ds \<and> d \<in> set ds \<and> ip_departureTime d = 7 \<and>
    occupation_zone (\<lambda>_. 7) (\<lambda>_. Duration 2) [(string_of_int 1, Some ex_paced)] ''T'' (ex_occ (OcModified ''k'' 1)) =
      getMovableOccupancyZone (\<lambda>_. 7) (\<lambda>_. Duration 2) ''T'' (ip_id d) (''b'', ''P'') (pr_curves (ip_projection d)) (ip_name d) 7 (ip_exception d)"
proof -
  let ?e = "ex_change (Some 1) None (Some ''d'')"
  let ?paced = "\<lparr>pp_timeWindow = Duration 30, pp_interval = Duration 10, pp_exceptions = [?e], pp_exceptionProjections = []\<rparr>"
  have p: "sp_paced ex_paced = Some ?paced" "sp_id ex_paced = 1" by (simp_all add: ex_paced_def ex_item_def)
  have nb: "getOccurrencesNb (pp_timeWindow ?paced) (pp_interval ?paced) = Inr 3" by (simp add: getOccurrencesNb_def)
  have "\<forall>e \<in> set (pp_exceptions ?paced). addition_shown e \<longrightarrow> cg_start_time e \<noteq> None" by (simp add: ex_change_def)
  note eq = projected_items_eq [OF p(1) nb this, of "\<lambda>_. 7"]
  define d where "d = drawn_occurrence (\<lambda>_. 7) ex_paced ?paced 1"
  have f: "find (\<lambda>e. ex_occurrence_index e = Some 1) (pp_exceptions ?paced) = Some ?e" by (simp add: ex_change_def)
  have d: "ip_exception d = Some ?e" "ip_departureTime d = 7" unfolding d_def drawn_occurrence_def occurrence_start_def Let_def f by (simp_all add: ex_change_def)
  have mem: "1 \<in> set (filter (occurrence_shown (pp_exceptions ?paced)) [0..<nat 3])" unfolding occurrence_shown_def f by (simp add: ex_change_def f)
  then have "d \<in> set (map (drawn_occurrence (\<lambda>_. 7) ex_paced ?paced) (filter (occurrence_shown (pp_exceptions ?paced)) [0..<nat 3]) @
      map (drawn_addition (\<lambda>_. 7) ex_paced ?paced) (filter addition_shown (pp_exceptions ?paced)))"
    unfolding set_append set_map d_def by (intro UnI1 imageI)
  with eq obtain ds where ds: "projected_items (\<lambda>_. 7) ex_paced = Inr ds" "d \<in> set ds" by blast
  have "occupied_by ex_paced (oc_kind (ex_occ (OcModified ''k'' 1))) d" unfolding occupied_by_def by (simp add: p d ex_occ_def) (simp add: ex_change_def)
  from zones_match_chart [OF ds this, of "[(string_of_int 1, Some ex_paced)]" "\<lambda>_. Duration 2" "''T''"] d p ds show ?thesis
    by (auto simp: ex_occ_def obj_get_def) (auto simp: ex_change_def)
qed


definition ex_unique :: projection_data where "ex_unique = ex_item\<lparr>sp_paced := None\<rparr>"

definition ex_op :: path_op where
  "ex_op = \<lparr>po_waypointId = ''w'', po_opId = Some ''o'', po_position = 5, po_track = ''t'', po_ch = None, po_trigram = None, po_uic = None, po_name = None\<rparr>"

definition ex_table :: "op_reference \<Rightarrow> occupation_table" where
  "ex_table ref i = (if i = 1 then [(Some ''V'', ex_occ (OcBase 0))] else [])"

definition ex_server :: occupancy_server where
  "ex_server ref ids = Some [\<lparr>ti_local_track_name = Some ''V'', ti_trains = (if 1 \<in> set ids then [ex_occ (OcBase 0)] else [])\<rparr>]"

definition ex_occupancy :: "point_state obj \<Rightarrow> occupancy_state" where
  "ex_occupancy points = newOccupancyState\<lparr>to_points := points\<rparr>"

lemma ex_answers: "\<forall>ref. answers_from ex_server ref (ex_table ref)"
proof -
  have "(\<Sum>i \<in> set ids. mset (if i = (1 :: int) then [x] else [])) = (if 1 \<in> set ids then {#x#} else {#})" for ids and x :: "string option \<times> occupation"
    by (simp add: if_distrib sum.delta cong: if_cong)
  then show ?thesis by (auto simp: answers_from_def ex_server_def ex_table_def item_occupations_def ex_occ_def)
qed

lemma ex_curves: "sp_projection ex_unique = ip_projection ex_train" "sp_id ex_unique = 1" "sp_paced ex_unique = None"
  by (simp_all add: ex_unique_def ex_item_def)

lemma ex_zone: "\<exists>z. occupation_zone (\<lambda>_. 7) (\<lambda>_. Duration 2) [(string_of_int 1, Some ex_unique)] trackId (ex_occ (OcBase 0)) = Inr z"
  by (simp add: occupation_zone_def obj_get_def ex_curves ex_occ_def getMovableOccupancyZone_def ex_train_def Let_def)

lemma ex_readable: "readable (\<lambda>_. 7) (\<lambda>_. Duration 2) [ex_op] ex_table [ex_unique] st"
  using ex_zone by (auto simp: readable_def train_zones_def ex_table_def ex_curves)

lemma ex_zones_at: "zones_at (\<lambda>_. 7) (\<lambda>_. Duration 2) trackIds [ex_op] ex_table ''w'' ex_unique \<noteq> []"
proof -
  from ex_zone obtain z where "occupation_zone (\<lambda>_. 7) (\<lambda>_. Duration 2) [(string_of_int 1, Some ex_unique)] (occupied_track trackIds ''w'' (Some ''V'')) (ex_occ (OcBase 0)) = Inr z"
    by blast
  then show ?thesis
    by (simp add: zones_at_def reference_at_def path_ops_by_waypoint_def mapBy_def ex_op_def getOperationalPointReference_def truthy_def train_zones_def ex_table_def ex_curves)
qed

theorem occupancy_follows_trains_witness:
  "\<exists>st'. update_trains (\<lambda>_. 7) (\<lambda>_. Duration 2) ex_server [ex_op] [] [ex_unique] (ex_occupancy [(''w'', \<lparr>pt_selected = True, pt_zones = ZonesOk []\<rparr>)]) = Inr st' \<and>
    coherent (\<lambda>_. 7) (\<lambda>_. Duration 2) [ex_op] ex_table [ex_unique] st'"
proof (rule occupancy_follows_trains [where tables = ex_table])
  let ?st = "ex_occupancy [(''w'', \<lparr>pt_selected = True, pt_zones = ZonesOk []\<rparr>)]"
  show "coherent (\<lambda>_. 7) (\<lambda>_. Duration 2) [ex_op] ex_table [] ?st"
    by (auto simp: coherent_def ex_occupancy_def obj_get_def data_or_empty_def split: if_splits)
qed (simp_all add: ex_answers ex_readable, simp_all add: ex_occupancy_def newOccupancyState_def)

theorem opened_waypoint_complete_witness:
  "\<exists>st' zs. open_waypoint (\<lambda>_. 7) (\<lambda>_. Duration 2) ex_server (\<lambda>_. False) [ex_unique] [ex_op] ''w'' None newOccupancyState = Inr st' \<and>
    coherent (\<lambda>_. 7) (\<lambda>_. Duration 2) [ex_op] ex_table [ex_unique] st' \<and> obj_get (to_points st') ''w'' = Some \<lparr>pt_selected = True, pt_zones = ZonesOk zs\<rparr> \<and> zs \<noteq> []"
proof -
  have "coherent (\<lambda>_. 7) (\<lambda>_. Duration 2) [ex_op] ex_table [ex_unique] newOccupancyState" by (simp add: coherent_def newOccupancyState_def obj_get_def)
  moreover have "map_of (path_ops_by_waypoint [ex_op]) ''w'' \<noteq> None" by (simp add: path_ops_by_waypoint_def mapBy_def ex_op_def)
  moreover have "obj_get (to_points newOccupancyState) ''w'' = None" by (simp add: newOccupancyState_def obj_get_def)
  ultimately obtain st' zs where
    st': "open_waypoint (\<lambda>_. 7) (\<lambda>_. Duration 2) ex_server (\<lambda>_. False) [ex_unique] [ex_op] ''w'' None newOccupancyState = Inr st'"
      "coherent (\<lambda>_. 7) (\<lambda>_. Duration 2) [ex_op] ex_table [ex_unique] st'" "obj_get (to_points st') ''w'' = Some \<lparr>pt_selected = True, pt_zones = ZonesOk zs\<rparr>"
    using opened_waypoint_complete [OF _ _ _ _ ex_answers ex_readable, of newOccupancyState "''w''"] by auto
  then have "mset zs = mset (zones_at (\<lambda>_. 7) (\<lambda>_. Duration 2) (to_trackIds st') [ex_op] ex_table ''w'' ex_unique)"
    by (fastforce simp: coherent_def data_or_empty_def)
  then have "zs \<noteq> []" using ex_zones_at by auto
  with st' show ?thesis by blast
qed

definition ex_zone_at :: "nat \<Rightarrow> occupancy_zone" where
  "ex_zone_at i = \<lparr>oz_trackId = ''T'', oz_trainId = formatEditoastIdToIndexedOccurrenceId (of_int 1) (of_int (int i)), oz_startTime = 3, oz_startDirection = None,
     oz_endTime = 5, oz_endDirection = None, oz_trainName = ''t'', oz_dbStartTime = 3, oz_dbEndTime = 5, oz_isStartTimeException = False\<rparr>"

lemma ex_moves: "moves_with (formatEditoastIdToPacedTrainId (of_int 1)) (ex_zone_at i) = Inr True"
  unfolding moves_with_def using extract_indexed(1) [of 1 "int i"]
  by (simp add: ex_zone_at_def isOccurrenceId_def format_kinds)

theorem dragged_zones_do_not_drift_witness:
  "\<exists>st1 impacted. move_zones (formatEditoastIdToPacedTrainId (of_int 1)) 100 140 False
      (ex_occupancy [(''w'', \<lparr>pt_selected = True, pt_zones = ZonesOk [ex_zone_at 0]\<rparr>)]) = Inr (st1, impacted) \<and>
    move_zones (formatEditoastIdToPacedTrainId (of_int 1)) 100 90 True st1 =
      move_zones (formatEditoastIdToPacedTrainId (of_int 1)) 100 90 True (ex_occupancy [(''w'', \<lparr>pt_selected = True, pt_zones = ZonesOk [ex_zone_at 0]\<rparr>)])"
proof -
  let ?i = "formatEditoastIdToPacedTrainId (of_int 1)" and ?st = "ex_occupancy [(''w'', \<lparr>pt_selected = True, pt_zones = ZonesOk [ex_zone_at 0]\<rparr>)]"
  have n: "item_number ?i = Inr (of_int 1)" by (rule item_number_formats(1))
  have "\<exists>st1 impacted. move_zones ?i 100 140 False ?st = Inr (st1, impacted)"
    unfolding move_zones_def n by (simp add: ex_occupancy_def newOccupancyState_def move_point_def map_zones_def move_zone_def ex_moves [of 0, simplified] Let_def)
  then obtain st1 impacted where m: "move_zones ?i 100 140 False ?st = Inr (st1, impacted)" by blast
  from dragged_zones_do_not_drift [OF m n, of 90 True] m show ?thesis by blast
qed

theorem zones_on_listed_tracks_witness:
  "\<exists>ws wp. deployedWaypoints (\<lambda>a b. int (length a) - int (length b)) ''?'' [ex_op]
      (ex_occupancy [(''w'', \<lparr>pt_selected = True, pt_zones = ZonesOk [ex_zone_at 0]\<rparr>)]) = Inr ws \<and> wp \<in> set ws \<and>
    (\<forall>zs. dw_zones wp = Some zs \<longrightarrow> oz_trackId ` set zs \<subseteq> tk_id ` set (dw_tracks wp))"
proof -
  let ?lc = "\<lambda>a b :: string. int (length a) - int (length b)" and ?st = "ex_occupancy [(''w'', \<lparr>pt_selected = True, pt_zones = ZonesOk [ex_zone_at 0]\<rparr>)]"
  have n: "item_number (oz_trainId (ex_zone_at 0)) = Inr (of_int 1)" using item_number_formats(2) [of 1 0] by (simp add: ex_zone_at_def)
  have "\<exists>wp. deploy_waypoint ?lc ''?'' ?st ''w'' \<lparr>pt_selected = True, pt_zones = ZonesOk [ex_zone_at 0]\<rparr> ex_op = Inr wp"
    by (simp add: deploy_waypoint_def resolve_zone_def n Let_def)
  then obtain wp where wp: "deploy_waypoint ?lc ''?'' ?st ''w'' \<lparr>pt_selected = True, pt_zones = ZonesOk [ex_zone_at 0]\<rparr> ex_op = Inr wp" by blast
  have "map_of (path_ops_by_waypoint [ex_op]) ''w'' = Some ex_op" by (simp add: path_ops_by_waypoint_def mapBy_def ex_op_def)
  then have d: "deployedWaypoints ?lc ''?'' [ex_op] ?st = Inr [wp]"
    using wp by (simp add: deployedWaypoints_def ex_occupancy_def List.map_filter_def)
  have "orders ?lc" by (auto simp: orders_def)
  from zones_on_listed_tracks [OF d _ this, of wp] d show ?thesis by (auto simp: ex_occupancy_def newOccupancyState_def)
qed

end
