(* ===== verification/PathProfiles.thy ===== *)
theory PathProfiles
  imports PathTracks PacedTrain
begin

text \<open>
  The properties of a path that the simulation results display (\<open>operationalStudies/utils.ts\<close>,
  \<open>helpers/upsertMapWaypointsInOperationalPoints.ts\<close>) and the data of the speed distance chart
  (\<open>SpeedDistanceDiagram/helpers.ts\<close>). Values along a path come as boundaries and values: \<open>n\<close> boundaries in millimetres and
  \<open>n + 1\<close> values. A value that is read outside its array is undefined.
\<close>

section \<open>Boundaries and values\<close>

record 'v boundaries_data =
  bd_boundaries :: "num list"
  bd_values :: "'v list"

definition value_index :: "'v list \<Rightarrow> nat \<Rightarrow> 'v option" where
  "value_index vs i = (if i < length vs then Some (vs ! i) else None)"

record 'v position_data =
  pd_position :: num
  pd_value :: "'v option"

definition boundary_data :: "num boundaries_data \<Rightarrow> nat \<Rightarrow> num position_data list" where
  "boundary_data d i =
     [\<lparr>pd_position = mmToM (bd_boundaries d ! i), pd_value = value_index (bd_values d) i\<rparr>,
      \<lparr>pd_position = mmToM (bd_boundaries d ! i), pd_value = value_index (bd_values d) (i + 1)\<rparr>]"

definition last_value :: "'v list \<Rightarrow> 'v option" where
  "last_value vs = (if vs = [] then None else Some (last vs))"

definition transformBoundariesDataToPositionDataArray :: "num boundaries_data \<Rightarrow> num \<Rightarrow> num position_data list" where
  "transformBoundariesDataToPositionDataArray d pathLength =
     [\<lparr>pd_position = 0, pd_value = Some 0\<rparr>] @ concat (map (boundary_data d) [0..<length (bd_boundaries d)]) @
     [\<lparr>pd_position = mmToM pathLength, pd_value = last_value (bd_values d)\<rparr>]"

section \<open>Electrification and profiles\<close>

datatype profile = NoProfile | Profile (pf_handled: bool) (pf_name: "string option")

text \<open>The object spread of an electrification and a profile, which have no key in common.\<close>

record usage =
  us_electrification :: "electrification option"
  us_profile :: "profile option"

text \<open>The loop that moves an index past the boundaries up to the given one.\<close>

function advance :: "num list \<Rightarrow> num \<Rightarrow> nat \<Rightarrow> nat" where
  "advance bs b i = (if i < length bs \<and> bs ! i \<le> b then advance bs b (i + 1) else i)"
  by pat_completeness auto
termination
  by (relation "measure (\<lambda>(bs, _, i). length bs - i)") auto

declare advance.simps [simp del]

definition merge_step ::
  "electrification boundaries_data \<Rightarrow> profile boundaries_data \<Rightarrow> usage list \<times> nat \<times> nat \<Rightarrow> num \<Rightarrow> usage list \<times> nat \<times> nat" where
  "merge_step electrifications profiles st b =
     (let (mergedValues, electrificationIndex, profileIndex) = st;
          ei = advance (bd_boundaries electrifications) b electrificationIndex;
          pri = advance (bd_boundaries profiles) b profileIndex
      in (mergedValues @ [\<lparr>us_electrification = value_index (bd_values electrifications) ei, us_profile = value_index (bd_values profiles) pri\<rparr>], ei, pri))"

definition mergeElectrificationAndProfiles ::
  "electrification boundaries_data option \<Rightarrow> profile boundaries_data \<Rightarrow> usage boundaries_data option" where
  "mergeElectrificationAndProfiles electrifications profiles =
     map_option (\<lambda>el.
       let mergedBoundaries = sort (remdups (bd_boundaries el @ bd_boundaries profiles));
           first = \<lparr>us_electrification = value_index (bd_values el) 0, us_profile = value_index (bd_values profiles) 0\<rparr>;
           (mergedValues, _, _) = foldl (merge_step el profiles) ([first], 0, 0) mergedBoundaries
       in \<lparr>bd_boundaries = mergedBoundaries, bd_values = mergedValues\<rparr>) electrifications"

record electrification_range =
  er_start :: num
  er_stop :: num
  er_usage :: "usage option"

definition transformElectricalBoundariesToRanges :: "usage boundaries_data option \<Rightarrow> num \<Rightarrow> electrification_range list" where
  "transformElectricalBoundariesToRanges boundariesData pathLength =
     (case boundariesData of
        None \<Rightarrow> []
      | Some d \<Rightarrow>
          map (\<lambda>i. \<lparr>er_start = (if i = 0 then 0 else mmToM (bd_boundaries d ! (i - 1))), er_stop = mmToM (bd_boundaries d ! i),
                    er_usage = value_index (bd_values d) i\<rparr>) [0..<length (bd_boundaries d)] @
          [\<lparr>er_start = mmToM (case js_at (bd_boundaries d) (int (length (bd_boundaries d)) - 1) of None \<Rightarrow> 0 | Some b \<Rightarrow> b),
            er_stop = mmToM pathLength, er_usage = last_value (bd_values d)\<rparr>])"

section \<open>Waypoints of the map (upsertMapWaypointsInOperationalPoints)\<close>

record path_point =
  pw_id :: string
  pw_position :: int
  pw_name :: "string option"
  pw_uic :: "int option"
  pw_ch :: "string option"
  pw_part :: "string \<times> int \<times> string"
  pw_weight :: "num option"

definition HIGHEST_PRIORITY_WEIGHT :: num where "HIGHEST_PRIORITY_WEIGHT = 100"

text \<open>The translations of the names of the requested points are given: the origin, the destination and the others by their index.\<close>

record requested_names =
  rn_origin :: string
  rn_destination :: string
  rn_point :: "nat \<Rightarrow> string"

definition requested_name :: "requested_names \<Rightarrow> nat \<Rightarrow> nat \<Rightarrow> string" where
  "requested_name t stepIndex n = (if stepIndex = 0 then rn_origin t else if stepIndex = n - 1 then rn_destination t else rn_point t stepIndex)"

definition upsert_step ::
  "requested_names \<Rightarrow> int list \<Rightarrow> nat \<Rightarrow> path_point list \<Rightarrow> nat \<times> path_item \<Rightarrow> path_point list result" where
  "upsert_step t positions n ops indexed =
     (let (stepIndex, step) = indexed in
      case pi_location step of
        TrackOffset trk offset _ \<Rightarrow>
          if \<not> stepIndex < length positions then Inl OutOfModel
          else let positionOnPath = positions ! stepIndex;
                   indexToInsert = find_index (\<lambda>op1. pw_position op1 \<ge> positionOnPath) ops;
                   formattedStep = \<lparr>pw_id = pi_id step, pw_position = positionOnPath, pw_name = Some (requested_name t stepIndex n), pw_uic = Some 0,
                                    pw_ch = None, pw_part = (trk, offset, ''V1''), pw_weight = Some HIGHEST_PRIORITY_WEIGHT\<rparr>
               in Inr (if indexToInsert = -1 then ops @ [formattedStep] else splice_insert ops indexToInsert formattedStep)
      | OpPart (OpUic uic code) _ \<Rightarrow>
          let matchedIndex = find_index (\<lambda>op1. pw_uic op1 = Some uic \<and> pw_ch op1 = code) ops
          in Inr (if matchedIndex \<noteq> -1
                  then ops[nat matchedIndex := (ops ! nat matchedIndex)\<lparr>pw_weight := Some HIGHEST_PRIORITY_WEIGHT\<rparr>] else ops)
      | _ \<Rightarrow> Inr ops)"

definition upsertMapWaypointsInOperationalPoints ::
  "requested_names \<Rightarrow> path_item list \<Rightarrow> int list \<Rightarrow> path_point list \<Rightarrow> path_point list result" where
  "upsertMapWaypointsInOperationalPoints t path positions operationalPoints =
     fold_result (upsert_step t positions (length path)) operationalPoints (zip [0..<length path] path)"

section \<open>Path properties (preparePathPropertiesData)\<close>

record 'g path_properties =
  pq_slopes :: "num boundaries_data"
  pq_curves :: "num boundaries_data"
  pq_electrifications :: "electrification boundaries_data"
  pq_operational_points :: "path_point list"
  pq_geometry :: 'g

record 'g formatted_properties =
  fp_electrifications :: "electrification_range list"
  fp_curves :: "num position_data list"
  fp_slopes :: "num position_data list"
  fp_operationalPoints :: "path_point list"
  fp_geometry :: 'g
  fp_voltages :: "ranged_value list"

definition preparePathPropertiesData ::
  "requested_names \<Rightarrow> profile boundaries_data option \<Rightarrow> 'g path_properties \<Rightarrow> int list \<Rightarrow> num \<Rightarrow> path_item list \<Rightarrow> 'g formatted_properties result" where
  "preparePathPropertiesData t electricalProfiles props path_item_positions len path =
     bind_result (upsertMapWaypointsInOperationalPoints t path path_item_positions (pq_operational_points props)) (\<lambda>ops.
       Inr \<lparr>fp_electrifications =
              transformElectricalBoundariesToRanges
                (Option.bind electricalProfiles (mergeElectrificationAndProfiles (Some (pq_electrifications props)))) len,
            fp_curves = transformBoundariesDataToPositionDataArray (pq_curves props) len,
            fp_slopes = transformBoundariesDataToPositionDataArray (pq_slopes props) len,
            fp_operationalPoints = ops,
            fp_geometry = pq_geometry props,
            fp_voltages =
              (if electricalProfiles \<noteq> None
               then getPathVoltages (Some (bd_boundaries (pq_electrifications props), bd_values (pq_electrifications props))) (Some len)
               else [])\<rparr>)"

section \<open>Summaries\<close>

definition SMALL_INPUT_MAX_LENGTH :: nat where "SMALL_INPUT_MAX_LENGTH = 128"

definition isInvalidName :: "string option \<Rightarrow> bool" where
  "isInvalidName name = (\<not> truthy name \<or> length (the name) > SMALL_INPUT_MAX_LENGTH)"

text \<open>The number of stops without the one at the destination.\<close>

definition intermediateStopsCount :: "schedule_item list option \<Rightarrow> path_item list \<Rightarrow> int" where
  "intermediateStopsCount schedule path =
     (case schedule of
        None \<Rightarrow> 0
      | Some items \<Rightarrow>
          if path = [] then 0
          else let lastScheduleItem = find (\<lambda>step. si_at step = pi_id (last path)) items;
                   stopsCount = int (length (filter (\<lambda>step. truthy (si_stop_for step)) items))
               in if truthy (Option.bind lastScheduleItem si_stop_for) then stopsCount - 1 else stopsCount)"

section \<open>Speed distance chart (SpeedDistanceDiagram/helpers.ts)\<close>

datatype tag_source = GivenTrainTag string | FallbackTag string | UnknownTag

record speed_limit =
  sv_speed :: num
  sv_source :: "tag_source option"

record 'v layer_data =
  la_start :: num
  la_end :: "num option"
  la_value :: 'v

definition MISSING :: string where "MISSING = ''#94918E''"
definition GIVEN_TRAIN :: string where "GIVEN_TRAIN = ''#494641''"
definition FALLBACK :: string where "FALLBACK = ''#216482''"
definition INCOMPATIBLE :: string where "INCOMPATIBLE = ''#EAA72B''"

definition getTag :: "tag_source option \<Rightarrow> string \<times> string" where
  "getTag source =
     (case source of
        Some (GivenTrainTag tag) \<Rightarrow> (tag, GIVEN_TRAIN)
      | Some (FallbackTag tag) \<Rightarrow> (tag, FALLBACK)
      | Some UnknownTag \<Rightarrow> (''incompatible'', INCOMPATIBLE)
      | None \<Rightarrow> (''missing_from_train'', MISSING))"

text \<open>The positions of a range between boundaries, in millimetres.\<close>

definition range_start :: "num list \<Rightarrow> nat \<Rightarrow> num" where
  "range_start bs i = (if i = 0 then 0 else bs ! (i - 1))"

definition range_stop :: "num list \<Rightarrow> nat \<Rightarrow> nat \<Rightarrow> num \<Rightarrow> num" where
  "range_stop bs n i pathLength = (if i = n - 1 then pathLength else bs ! i)"

definition tag_step ::
  "speed_limit boundaries_data \<Rightarrow> num \<Rightarrow> (string \<times> string) layer_data list \<Rightarrow> nat \<Rightarrow> (string \<times> string) layer_data list" where
  "tag_step d pathLength merged i =
     (let tag = getTag (sv_source (bd_values d ! i)) in
      if fst tag = ''missing_from_train'' then merged
      else let new = \<lparr>la_start = mmToKm (range_start (bd_boundaries d) i),
                      la_end = Some (mmToKm (range_stop (bd_boundaries d) (length (bd_values d)) i pathLength)), la_value = tag\<rparr>
           in if merged \<noteq> [] \<and> la_value (last merged) = la_value new \<and> la_end (last merged) = Some (la_start new)
              then butlast merged @ [(last merged)\<lparr>la_end := la_end new\<rparr>]
              else merged @ [new])"

definition formatSpeedLimitTags :: "speed_limit boundaries_data \<Rightarrow> num \<Rightarrow> (string \<times> string) layer_data list result" where
  "formatSpeedLimitTags d pathLength =
     (if length (bd_values d) > Suc (length (bd_boundaries d)) then Inl OutOfModel
      else Inr (foldl (tag_step d pathLength) [] [0..<length (bd_values d)]))"

definition formatSpeedCurve :: "num list \<Rightarrow> num list \<Rightarrow> num layer_data list result" where
  "formatSpeedCurve positions speeds =
     (if length positions < length speeds then Inl OutOfModel
      else Inr (map (\<lambda>i. \<lparr>la_start = mmToKm (positions ! i), la_end = None, la_value = msToKmh (speeds ! i)\<rparr>) [0..<length speeds]))"

record report_train =
  rt_positions :: "num list"
  rt_speeds :: "num list"

definition formatSpeeds :: "report_train \<Rightarrow> num layer_data list result" where
  "formatSpeeds simulation = formatSpeedCurve (rt_positions simulation) (rt_speeds simulation)"

definition formatMrsp :: "speed_limit boundaries_data \<Rightarrow> (num \<times> bool) boundaries_data" where
  "formatMrsp mrsp =
     \<lparr>bd_boundaries = map mmToKm (bd_boundaries mrsp), bd_values = map (\<lambda>v. (msToKmh (sv_speed v), False)) (bd_values mrsp)\<rparr>"

definition formatStops :: "path_point list \<Rightarrow> (string \<times> num option) layer_data list" where
  "formatStops operationalPoints =
     map (\<lambda>op1. \<lparr>la_start = mmToKm (of_int (pw_position op1)), la_end = None,
                la_value = ((case pw_name op1 of None \<Rightarrow> [] | Some n \<Rightarrow> n @ '' '' @ (case pw_ch op1 of None \<Rightarrow> [] | Some ch \<Rightarrow> ch)), pw_weight op1)\<rparr>)
       operationalPoints"

record electrification_layer =
  el_type :: electrification
  el_voltage :: "string option"
  el_lowerPantograph :: bool

definition electrification_value :: "electrification \<Rightarrow> electrification_layer" where
  "electrification_value e =
     \<lparr>el_type = e, el_voltage = (case e of Electrification v \<Rightarrow> Some v | _ \<Rightarrow> None),
      el_lowerPantograph = (case e of NeutralSection b \<Rightarrow> b | _ \<Rightarrow> False)\<rparr>"

text \<open>Reading the type of a missing usage raises an error.\<close>

definition formatElectrifications :: "electrification_range list \<Rightarrow> electrification_layer layer_data list result" where
  "formatElectrifications electrifications =
     map_result (\<lambda>r. case Option.bind (er_usage r) us_electrification of
         None \<Rightarrow> Inl TypeError
       | Some e \<Rightarrow> Inr \<lparr>la_start = mToKm (er_start r), la_end = Some (mToKm (er_stop r)), la_value = electrification_value e\<rparr>) electrifications"

definition formatSlopes :: "num position_data list \<Rightarrow> num option layer_data list" where
  "formatSlopes slopes =
     map (\<lambda>i. \<lparr>la_start = mToKm (if i = 0 then 0 else pd_position (slopes ! (i - 1))), la_end = Some (mToKm (pd_position (slopes ! i))),
               la_value = pd_value (slopes ! i)\<rparr>) [0..<length slopes]"

record profile_design =
  dv_color :: string
  dv_heightLevel :: "nat option"

definition design :: "string \<Rightarrow> nat \<Rightarrow> profile_design" where
  "design color level = \<lparr>dv_color = color, dv_heightLevel = Some level\<rparr>"

definition electricalProfilesDesignValues :: "profile_design obj" where
  "electricalProfilesDesignValues =
     [(''25000V'', design ''rgb(228, 178, 132)'' 0), (''22500V'', design ''rgb(202, 149, 109)'' 1), (''20000V'', design ''rgb(175, 120, 85)'' 2),
      (''O'', design ''rgb(171, 201, 133)'' 0), (''A'', design ''rgb(156, 184, 121)'' 1), (''A1'', design ''rgb(142, 172, 111)'' 2),
      (''B'', design ''rgb(125, 155, 98)'' 3), (''B1'', design ''rgb(109, 139, 86)'' 4), (''C'', design ''rgb(93, 123, 73)'' 5),
      (''D'', design ''rgb(79, 108, 62)'' 6), (''E'', design ''rgb(63, 92, 51)'' 7), (''F'', design ''rgb(47, 76, 38)'' 8),
      (''G'', design ''rgb(47, 76, 38)'' 9)]"

definition profile_color :: "string \<Rightarrow> string" where
  "profile_color name = dv_color (the (obj_get electricalProfilesDesignValues name))"

text \<open>The name of the profile, and its colour and height if it has them.\<close>

definition getProfileValue :: "profile \<Rightarrow> string option \<Rightarrow> string \<times> profile_design option" where
  "getProfileValue v voltage =
     (case v of
        NoProfile \<Rightarrow> (''neutral'', None)
      | Profile handled name \<Rightarrow>
          if \<not> handled \<or> \<not> truthy name then
            (''incompatible'', Some \<lparr>dv_color = (if voltage = Some ''1500V'' then profile_color ''F'' else profile_color ''20000V''), dv_heightLevel = None\<rparr>)
          else (the name, obj_get electricalProfilesDesignValues (the name)))"

definition profile_stop :: "num list \<Rightarrow> nat \<Rightarrow> num \<Rightarrow> num" where
  "profile_stop bs i pathLength = mmToKm (if i = length bs then pathLength else bs ! i)"

definition formatElectricalProfiles ::
  "profile boundaries_data \<Rightarrow> electrification_layer layer_data list \<Rightarrow> num \<Rightarrow> (string \<times> profile_design option) layer_data list option result" where
  "formatElectricalProfiles profiles electrifications pathLength =
     (let bs = bd_boundaries profiles; vs = bd_values profiles in
      if vs = [] then Inr None
      else if length vs > Suc (length bs) then Inl OutOfModel
      else Inr (Some (map (\<lambda>i.
             let start = mmToKm (range_start bs i); stop = profile_stop bs i pathLength;
                 electrification = find (\<lambda>e. la_start e \<ge> start \<and> the (la_end e) \<le> stop) electrifications
             in \<lparr>la_start = start, la_end = Some stop, la_value = getProfileValue (vs ! i) (Option.bind electrification (\<lambda>e. el_voltage (la_value e)))\<rparr>)
           [0..<length vs])))"

record simulation_response =
  sq_base :: report_train
  sq_final_output :: report_train
  sq_mrsp :: "speed_limit boundaries_data"
  sq_electrical_profiles :: "profile boundaries_data"

record 'p chart_data =
  cd_speeds :: "num layer_data list"
  cd_ecoSpeeds :: "num layer_data list"
  cd_stops :: "(string \<times> num option) layer_data list"
  cd_electrifications :: "electrification_layer layer_data list"
  cd_slopes :: "num option layer_data list"
  cd_electricalProfiles :: "(string \<times> profile_design option) layer_data list option"
  cd_powerRestrictions :: "'p option"
  cd_speedLimitTags :: "(string \<times> string) layer_data list"
  cd_mrsp :: "(num \<times> bool) boundaries_data"
  cd_trainLength :: num

definition formatData ::
  "simulation_response \<Rightarrow> num \<Rightarrow> 'p option \<Rightarrow> 'g formatted_properties option \<Rightarrow> 'p chart_data result" where
  "formatData simulation trainLength powerRestrictions pathProperties =
     (if rt_positions (sq_base simulation) = [] then Inl OutOfModel
      else case pathProperties of
        None \<Rightarrow> Inl TypeError
      | Some props \<Rightarrow>
          let pathLength = last (rt_positions (sq_base simulation)) in
          bind_result (formatSpeeds (sq_base simulation)) (\<lambda>speeds.
          bind_result (formatSpeeds (sq_final_output simulation)) (\<lambda>ecoSpeeds.
          bind_result (formatElectrifications (fp_electrifications props)) (\<lambda>electrifications.
          bind_result (formatElectricalProfiles (sq_electrical_profiles simulation) electrifications pathLength) (\<lambda>profiles.
          bind_result (formatSpeedLimitTags (sq_mrsp simulation) pathLength) (\<lambda>tags.
            Inr \<lparr>cd_speeds = speeds, cd_ecoSpeeds = ecoSpeeds, cd_stops = formatStops (fp_operationalPoints props),
                 cd_electrifications = electrifications, cd_slopes = formatSlopes (fp_slopes props), cd_electricalProfiles = profiles,
                 cd_powerRestrictions = powerRestrictions, cd_speedLimitTags = tags,
                 cd_mrsp = formatMrsp (sq_mrsp simulation), cd_trainLength = trainLength\<rparr>))))))"

end
