(* ===== verification/PathProfileProperties.thy ===== *)
theory PathProfileProperties
  imports PathProfiles
begin

text \<open>
  Properties of the data along a path: the ranges of electrification usage cover the path and carry the electrification and the profile
  of each position, the operational points stay in the order of the path when the waypoints of the map are added, and the speed limit
  tags of the chart are those of the simulation, merged as far as possible.
\<close>

section \<open>Values by position\<close>

text \<open>The number of boundaries up to a position is the index of its value.\<close>

definition boundary_count :: "num list \<Rightarrow> num \<Rightarrow> nat" where
  "boundary_count bs p = length (takeWhile (\<lambda>b. b \<le> p) bs)"

definition value_at :: "'v boundaries_data \<Rightarrow> num \<Rightarrow> 'v option" where
  "value_at d p = value_index (bd_values d) (boundary_count (bd_boundaries d) p)"

text \<open>Boundaries in order inside the path, with one more value than boundaries.\<close>

definition wf_boundaries :: "num \<Rightarrow> 'v boundaries_data \<Rightarrow> bool" where
  "wf_boundaries len d \<longleftrightarrow>
     sorted_wrt (<) (bd_boundaries d) \<and> (\<forall>b \<in> set (bd_boundaries d). 0 < b \<and> b < len) \<and> length (bd_values d) = Suc (length (bd_boundaries d))"

lemma boundary_count_le: "boundary_count bs p \<le> length bs"
  by (simp add: boundary_count_def length_takeWhile_le)

lemma boundary_count_less: "i < boundary_count bs p \<Longrightarrow> bs ! i \<le> p"
  using nth_mem [of i "takeWhile (\<lambda>b. b \<le> p) bs"] by (auto simp: boundary_count_def takeWhile_nth dest: set_takeWhileD)

lemma boundary_count_next: "boundary_count bs p < length bs \<Longrightarrow> p < bs ! boundary_count bs p"
  using nth_length_takeWhile [of "\<lambda>b. b \<le> p" bs] by (simp add: boundary_count_def not_le)

lemma boundary_count_mono: "p \<le> q \<Longrightarrow> boundary_count bs p \<le> boundary_count bs q"
proof (rule ccontr)
  assume a: "p \<le> q" "\<not> boundary_count bs p \<le> boundary_count bs q"
  then have "boundary_count bs q < length bs" using boundary_count_le [of bs p] by simp
  from boundary_count_next [OF this] boundary_count_less [of "boundary_count bs q" bs p] a show False by simp
qed

lemma boundary_count_eqI:
  assumes "sorted_wrt (<) bs" "k \<le> length bs" "k > 0 \<Longrightarrow> bs ! (k - 1) \<le> p" "k < length bs \<Longrightarrow> p < bs ! k"
  shows "boundary_count bs p = k"
proof (rule antisym)
  show "boundary_count bs p \<le> k"
  proof (rule ccontr)
    assume a: "\<not> boundary_count bs p \<le> k"
    then have "k < length bs" using boundary_count_le [of bs p] by simp
    with a assms(4) boundary_count_less [of k bs p] show False by simp
  qed
  show "k \<le> boundary_count bs p"
  proof (rule ccontr)
    assume a: "\<not> k \<le> boundary_count bs p"
    then have "p < bs ! boundary_count bs p" using assms(2) by (intro boundary_count_next) simp
    moreover have "bs ! boundary_count bs p \<le> bs ! (k - 1)"
      using a assms(1,2) by (intro sorted_nth_mono) (auto intro: strict_sorted_imp_sorted)
    ultimately show False using a assms(3) by simp
  qed
qed

lemma advance_count: "i \<le> boundary_count bs b \<Longrightarrow> advance bs b i = boundary_count bs b"
proof (induction bs b i rule: advance.induct)
  case (1 bs b i)
  show ?case
  proof (cases "i = boundary_count bs b")
    case True
    then have n: "\<not> (i < length bs \<and> bs ! i \<le> b)" using boundary_count_next [of bs b] by force
    show ?thesis unfolding advance.simps [of bs b i] if_not_P [OF n] by (rule True)
  next
    case False
    with "1.prems" have i: "i < boundary_count bs b" by simp
    then have "i < length bs \<and> bs ! i \<le> b" using boundary_count_le [of bs b] boundary_count_less by fastforce
    with "1.IH" i show ?thesis unfolding advance.simps [of bs b i] by simp
  qed
qed

section \<open>Electrification and profiles\<close>

abbreviation usage_of :: "electrification boundaries_data \<Rightarrow> profile boundaries_data \<Rightarrow> num \<Rightarrow> usage" where
  "usage_of el pr p \<equiv> \<lparr>us_electrification = value_at el p, us_profile = value_at pr p\<rparr>"

lemma merge_fold:
  assumes "sorted bs" "\<forall>b \<in> set bs. ei \<le> boundary_count (bd_boundaries el) b \<and> pri \<le> boundary_count (bd_boundaries pr) b"
  shows "fst (foldl (merge_step el pr) (vs, ei, pri) bs) = vs @ map (usage_of el pr) bs"
  using assms
proof (induction bs arbitrary: vs ei pri)
  case (Cons b bs)
  let ?e = "boundary_count (bd_boundaries el) b" and ?p = "boundary_count (bd_boundaries pr) b"
  have "merge_step el pr (vs, ei, pri) b = (vs @ [usage_of el pr b], ?e, ?p)"
    using Cons.prems by (simp add: merge_step_def advance_count value_at_def Let_def)
  moreover have "\<forall>b' \<in> set bs. ?e \<le> boundary_count (bd_boundaries el) b' \<and> ?p \<le> boundary_count (bd_boundaries pr) b'"
    using Cons.prems(1) by (auto intro: boundary_count_mono)
  ultimately show ?case using Cons by simp
qed simp

text \<open>No boundary of one of the data lies between a position and the last merged boundary before it.\<close>

lemma count_at_boundary:
  assumes "sorted_wrt (<) merged" "set bs \<subseteq> set merged" "k = boundary_count merged p" "0 < k"
  shows "boundary_count bs (merged ! (k - 1)) = boundary_count bs p"
proof -
  have k: "k \<le> length merged" using boundary_count_le assms(3) by simp
  have le: "merged ! (k - 1) \<le> p" using boundary_count_less [of "k - 1" merged p] assms(3,4) by simp
  have "x \<le> merged ! (k - 1)" if "x \<in> set bs" "x \<le> p" for x
  proof -
    from that assms(2) obtain i where i: "i < length merged" "merged ! i = x" by (metis in_set_conv_nth subsetD)
    have "i < k"
    proof (rule ccontr)
      assume "\<not> i < k"
      then have "merged ! k \<le> merged ! i" using i assms(1) by (intro sorted_nth_mono) (auto intro: strict_sorted_imp_sorted)
      moreover have "p < merged ! k" using boundary_count_next [of merged p] i \<open>\<not> i < k\<close> assms(3) by simp
      ultimately show False using that i by simp
    qed
    then show ?thesis using i(1) assms(1,4) k unfolding i(2) [symmetric] by (intro sorted_nth_mono) (auto intro: strict_sorted_imp_sorted)
  qed
  with le have "x \<le> merged ! (k - 1) \<longleftrightarrow> x \<le> p" if "x \<in> set bs" for x using that by (metis order_trans)
  then show ?thesis unfolding boundary_count_def by (metis takeWhile_cong)
qed

lemma count_zero:
  assumes "set bs \<subseteq> set merged" "boundary_count merged p = 0" "sorted_wrt (<) merged"
  shows "boundary_count bs p = 0"
proof (cases merged)
  case Nil
  with assms(1) show ?thesis by (simp add: boundary_count_def)
next
  case (Cons m ms)
  have "p < m" using boundary_count_next [of merged p] assms(2) Cons by simp
  with assms(3) Cons have "p < x" if "x \<in> set merged" for x using that by auto
  with assms(1) have "takeWhile (\<lambda>b. b \<le> p) bs = []" by (cases bs) (auto simp: not_le)
  then show ?thesis by (simp add: boundary_count_def)
qed

lemma value_at_Cons_map:
  "value_at \<lparr>bd_boundaries = bs, bd_values = f # map g bs\<rparr> p = Some (case boundary_count bs p of 0 \<Rightarrow> f | Suc k \<Rightarrow> g (bs ! k))"
  using boundary_count_le [of bs p] by (cases "boundary_count bs p") (auto simp: value_at_def value_index_def)

lemma merged_usage:
  assumes "wf_boundaries len el" "wf_boundaries len pr"
  shows "\<exists>m. mergeElectrificationAndProfiles (Some el) pr = Some m \<and> wf_boundaries len m \<and> (\<forall>p. value_at m p = Some (usage_of el pr p))"
proof -
  let ?bs = "sort (remdups (bd_boundaries el @ bd_boundaries pr))"
  let ?first = "\<lparr>us_electrification = value_index (bd_values el) 0, us_profile = value_index (bd_values pr) 0\<rparr>"
  let ?m = "\<lparr>bd_boundaries = ?bs, bd_values = ?first # map (usage_of el pr) ?bs\<rparr>"
  have so: "sorted_wrt (<) ?bs" by (simp add: strict_sorted_iff)
  have sub: "set (bd_boundaries el) \<subseteq> set ?bs" "set (bd_boundaries pr) \<subseteq> set ?bs" by auto
  have "mergeElectrificationAndProfiles (Some el) pr = Some ?m"
    using merge_fold [of ?bs 0 el 0 pr "[?first]"] by (simp add: mergeElectrificationAndProfiles_def case_prod_beta Let_def)
  moreover have "wf_boundaries len ?m" using so assms by (auto simp: wf_boundaries_def)
  moreover have "value_at ?m p = Some (usage_of el pr p)" for p
  proof (cases "boundary_count ?bs p")
    case 0
    with count_zero [OF sub(1) _ so] count_zero [OF sub(2) _ so] show ?thesis unfolding value_at_Cons_map by (simp add: value_at_def)
  next
    case (Suc k)
    have "boundary_count bs (?bs ! k) = boundary_count bs p" if "set bs \<subseteq> set ?bs" for bs
      using count_at_boundary [OF so that refl, of p] Suc by simp
    then have "usage_of el pr (?bs ! k) = usage_of el pr p" using sub by (simp only: value_at_def)
    then show ?thesis unfolding value_at_Cons_map Suc by simp
  qed
  ultimately show ?thesis by blast
qed

lemma mmToM_simps [simp]: "mmToM a < mmToM b \<longleftrightarrow> a < b" "mmToM a \<le> mmToM b \<longleftrightarrow> a \<le> b" "mmToM 0 = 0"
  by (simp_all add: mmToM_def)

definition stop_at :: "num list \<Rightarrow> num \<Rightarrow> nat \<Rightarrow> num" where
  "stop_at bs len i = (if i = length bs then len else bs ! i)"

lemma ranges_upt:
  assumes "wf_boundaries len m"
  shows "transformElectricalBoundariesToRanges (Some m) len =
    map (\<lambda>i. \<lparr>er_start = mmToM (range_start (bd_boundaries m) i), er_stop = mmToM (stop_at (bd_boundaries m) len i), er_usage = value_index (bd_values m) i\<rparr>)
      [0..<Suc (length (bd_boundaries m))]"
proof -
  let ?bs = "bd_boundaries m"
  have "(case js_at ?bs (int (length ?bs) - 1) of None \<Rightarrow> 0 | Some b \<Rightarrow> b) = range_start ?bs (length ?bs)"
    by (cases "length ?bs") (auto simp: js_at_def range_start_def Let_def)
  moreover have "last_value (bd_values m) = value_index (bd_values m) (length ?bs)"
    using assms by (auto simp: wf_boundaries_def last_value_def value_index_def last_conv_nth)
  ultimately show ?thesis by (simp add: transformElectricalBoundariesToRanges_def range_start_def stop_at_def)
qed

lemma range_nonempty: "wf_boundaries len m \<Longrightarrow> 0 < len \<Longrightarrow> i \<le> length (bd_boundaries m) \<Longrightarrow> range_start (bd_boundaries m) i < stop_at (bd_boundaries m) len i"
  by (cases i) (auto simp: wf_boundaries_def range_start_def stop_at_def sorted_wrt_iff_nth_less nth_mem)

lemma range_value:
  assumes "wf_boundaries len m" "i \<le> length (bd_boundaries m)" "range_start (bd_boundaries m) i \<le> p" "p < stop_at (bd_boundaries m) len i"
  shows "value_index (bd_values m) i = value_at m p"
  unfolding value_at_def using assms
  by (subst boundary_count_eqI [where k = i]) (auto simp: wf_boundaries_def range_start_def stop_at_def)

text \<open>C24: the ranges of electrification of a path follow each other without gap or overlap from the beginning to the end of the path, none
  is empty, and the usage of a range is the electrification and the electrical profile that the server gives for every position in it.\<close>

theorem electrification_ranges_correct:
  assumes "wf_boundaries len el" "wf_boundaries len pr" "0 < len"
  shows "\<exists>rs. transformElectricalBoundariesToRanges (mergeElectrificationAndProfiles (Some el) pr) len = rs \<and> rs \<noteq> [] \<and> er_start (hd rs) = 0 \<and> er_stop (last rs) = mmToM len \<and>
    (\<forall>i. Suc i < length rs \<longrightarrow> er_stop (rs ! i) = er_start (rs ! Suc i)) \<and>
    (\<forall>r \<in> set rs. er_start r < er_stop r \<and>
      (\<forall>p. er_start r \<le> mmToM p \<and> mmToM p < er_stop r \<longrightarrow>
        er_usage r = Some \<lparr>us_electrification = value_at el p, us_profile = value_at pr p\<rparr>))"
proof -
  from merged_usage [OF assms(1,2)] obtain m where m: "mergeElectrificationAndProfiles (Some el) pr = Some m" "wf_boundaries len m"
    "\<And>p. value_at m p = Some (usage_of el pr p)" by blast
  let ?bs = "bd_boundaries m"
  let ?r = "\<lambda>i. \<lparr>er_start = mmToM (range_start ?bs i), er_stop = mmToM (stop_at ?bs len i), er_usage = value_index (bd_values m) i\<rparr>"
  obtain rs where rs: "rs = map ?r [0..<Suc (length ?bs)]" by blast
  have eq: "transformElectricalBoundariesToRanges (mergeElectrificationAndProfiles (Some el) pr) len = rs" unfolding rs m(1) by (rule ranges_upt [OF m(2)])
  have "er_start r < er_stop r \<and> (\<forall>p. er_start r \<le> mmToM p \<and> mmToM p < er_stop r \<longrightarrow> er_usage r = Some (usage_of el pr p))" if "r \<in> set rs" for r
  proof -
    from that have "r \<in> ?r ` set [0..<Suc (length ?bs)]" unfolding rs by (simp only: set_map)
    then obtain i where "i \<in> set [0..<Suc (length ?bs)]" and r: "r = ?r i" by (rule imageE)
    then have i: "i \<le> length ?bs" by auto
    from range_nonempty [OF m(2) assms(3) i] range_value [OF m(2) i] m(3) show ?thesis by (simp add: r)
  qed
  moreover have "er_stop (rs ! i) = er_start (rs ! Suc i)" if "Suc i < length rs" for i
    using that by (simp add: rs stop_at_def range_start_def del: upt_Suc)
  moreover have "rs \<noteq> []" by (simp add: rs)
  moreover have "hd rs = ?r 0" unfolding rs by (subst hd_map) (simp_all del: upt_Suc)
  moreover have "last rs = ?r (length ?bs)" unfolding rs by (subst last_map) simp_all
  ultimately show ?thesis using eq by (simp add: range_start_def stop_at_def)
qed

section \<open>Waypoints of the map\<close>

definition map_step :: "path_item \<Rightarrow> bool" where
  "map_step step = (case pi_location step of TrackOffset _ _ _ \<Rightarrow> True | _ \<Rightarrow> False)"

lemma sorted_splice_insert_position:
  fixes f :: "'a \<Rightarrow> int"
  assumes "sorted (map f xs)" "i = find_index (\<lambda>y. f x \<le> f y) xs"
  shows "sorted (map f (if i = -1 then xs @ [x] else splice_insert xs i x))"
proof (cases rule: find_index_cases [of "\<lambda>y. f x \<le> f y" xs])
  case none
  with assms show ?thesis by (force simp: sorted_append)
next
  case (some k)
  have "drop k xs = xs ! k # drop (Suc k) xs" using some(2) by (simp add: Cons_nth_drop_Suc)
  then have s: "sorted (map f (take k xs) @ map f (xs ! k # drop (Suc k) xs))" using assms(1) by (metis append_take_drop_id map_append)
  have "f a < f x" if a: "a \<in> set (take k xs)" for a
  proof -
    from a some(2) obtain j where "j < k" "a = xs ! j" by (auto simp: in_set_conv_nth)
    with some(4) show ?thesis by force
  qed
  then have "sorted (map f (take k xs) @ f x # map f (xs ! k # drop (Suc k) xs))" using s some(3) by (force simp: sorted_append)
  then show ?thesis using some(1,2) assms(2) \<open>drop k xs = _\<close> by (simp add: splice_insert_def Let_def)
qed

lemma set_insert_position:
  "set (if i = -1 then xs @ [x] else splice_insert xs i x) = insert x (set xs)"
  by auto

text \<open>One step keeps the order of the points and the points themselves, up to their weight, and adds the waypoint of the map.\<close>

definition point_key :: "path_point \<Rightarrow> string \<times> int" where
  "point_key p = (pw_id p, pw_position p)"

lemma map_upsert_step_ok:
  assumes "sorted (map pw_position ops)" "i < length positions"
  shows "\<exists>ops'. upsert_step t positions n ops (i, step) = Inr ops' \<and> sorted (map pw_position ops') \<and>
    point_key ` set ops' = point_key ` set ops \<union> (if map_step step then {(pi_id step, positions ! i)} else {})"
proof (cases "pi_location step")
  case (TrackOffset trk offset name)
  let ?k = "find_index (\<lambda>op1. pw_position op1 \<ge> positions ! i) ops"
  let ?p = "\<lparr>pw_id = pi_id step, pw_position = positions ! i, pw_name = Some (requested_name t i n), pw_uic = Some 0, pw_ch = None,
    pw_part = (trk, offset, ''V1''), pw_weight = Some HIGHEST_PRIORITY_WEIGHT\<rparr>"
  have "upsert_step t positions n ops (i, step) = Inr (if ?k = -1 then ops @ [?p] else splice_insert ops ?k ?p)"
    using assms(2) by (simp add: upsert_step_def TrackOffset Let_def)
  moreover have "sorted (map pw_position (if ?k = -1 then ops @ [?p] else splice_insert ops ?k ?p))"
    by (rule sorted_splice_insert_position [OF assms(1)]) simp
  moreover have "point_key ` set (if ?k = -1 then ops @ [?p] else splice_insert ops ?k ?p) = insert (pi_id step, positions ! i) (point_key ` set ops)"
    unfolding set_insert_position by (simp add: point_key_def)
  ultimately show ?thesis by (auto simp: map_step_def TrackOffset)
next
  case (OpPart ref name)
  have keep: "map f (ops[k := (ops ! k)\<lparr>pw_weight := w\<rparr>]) = map f ops" if "\<And>p. f (p\<lparr>pw_weight := w\<rparr>) = f p" for f :: "path_point \<Rightarrow> 'b" and k w
    using that by (cases "k < length ops") (simp_all add: map_update list_update_same_conv list_update_beyond)
  have keys: "point_key ` set (ops[k := (ops ! k)\<lparr>pw_weight := w\<rparr>]) = point_key ` set ops" for k w
  proof -
    have "map point_key (ops[k := (ops ! k)\<lparr>pw_weight := w\<rparr>]) = map point_key ops" by (rule keep) (simp add: point_key_def)
    from arg_cong [OF this, of set] show ?thesis by simp
  qed
  have positions: "map pw_position (ops[k := (ops ! k)\<lparr>pw_weight := w\<rparr>]) = map pw_position ops" for k w by (rule keep) simp
  show ?thesis
    using assms(1) by (cases ref) (simp_all add: upsert_step_def OpPart map_step_def Let_def keys positions)
qed

lemma upsert_fold:
  assumes "sorted (map pw_position ops)" "\<forall>x \<in> set xs. fst x < length positions"
  shows "\<exists>ops'. fold_result (upsert_step t positions n) ops xs = Inr ops' \<and> sorted (map pw_position ops') \<and>
    point_key ` set ops' = point_key ` set ops \<union> {(pi_id step, positions ! i) |i step. (i, step) \<in> set xs \<and> map_step step}"
  using assms
proof (induction xs arbitrary: ops)
  case (Cons x xs)
  obtain i step where x: "x = (i, step)" by (cases x)
  from map_upsert_step_ok [OF Cons.prems(1), of i positions t n step] Cons.prems(2) obtain ops1 where
    ops1: "upsert_step t positions n ops x = Inr ops1" "sorted (map pw_position ops1)"
      "point_key ` set ops1 = point_key ` set ops \<union> (if map_step step then {(pi_id step, positions ! i)} else {})" by (auto simp: x)
  from Cons.IH [OF ops1(2)] Cons.prems(2) obtain ops' where
    ops': "fold_result (upsert_step t positions n) ops1 xs = Inr ops'" "sorted (map pw_position ops')"
      "point_key ` set ops' = point_key ` set ops1 \<union> {(pi_id step, positions ! i) |i step. (i, step) \<in> set xs \<and> map_step step}" by auto
  have "point_key ` set ops' = point_key ` set ops \<union> {(pi_id step, positions ! i) |i step. (i, step) \<in> set (x # xs) \<and> map_step step}"
    unfolding ops'(3) ops1(3) x by auto
  with ops1(1) ops'(1,2) show ?case by simp
qed simp

text \<open>C30: adding the waypoints that were clicked on the map keeps the operational points of the path in the order of their positions; the
  result holds the points that were there and each waypoint of the map at its position on the path.\<close>

theorem map_waypoints_inserted:
  assumes "sorted (map pw_position ops)" "length path \<le> length positions"
  shows "\<exists>ops'. upsertMapWaypointsInOperationalPoints t path positions ops = Inr ops' \<and> sorted (map pw_position ops') \<and>
    (\<lambda>p. (pw_id p, pw_position p)) ` set ops' = (\<lambda>p. (pw_id p, pw_position p)) ` set ops \<union>
      {(pi_id (path ! i), positions ! i) |i. i < length path \<and> (\<exists>trk offset name. pi_location (path ! i) = TrackOffset trk offset name)}"
proof -
  let ?xs = "zip [0..<length path] path"
  have m: "map_step step \<longleftrightarrow> (\<exists>trk offset name. pi_location step = TrackOffset trk offset name)" for step
    by (auto simp: map_step_def split: location.split)
  have "\<forall>x \<in> set ?xs. fst x < length positions" using assms(2) by (auto dest!: set_zip_leftD)
  from upsert_fold [OF assms(1) this, of t "length path"] obtain ops' where
    ops': "upsertMapWaypointsInOperationalPoints t path positions ops = Inr ops'" "sorted (map pw_position ops')"
      "point_key ` set ops' = point_key ` set ops \<union> {(pi_id step, positions ! i) |i step. (i, step) \<in> set ?xs \<and> map_step step}"
    unfolding upsertMapWaypointsInOperationalPoints_def by blast
  have "{(pi_id step, positions ! i) |i step. (i, step) \<in> set ?xs \<and> map_step step} =
      {(pi_id (path ! i), positions ! i) |i. i < length path \<and> map_step (path ! i)}"
    by (force simp: in_set_zip)
  with ops' show ?thesis unfolding m point_key_def by auto
qed

section \<open>Speed limit tags\<close>

definition covers :: "'v layer_data \<Rightarrow> num \<Rightarrow> bool" where
  "covers l p \<longleftrightarrow> la_start l \<le> p \<and> (\<exists>e. la_end l = Some e \<and> p < e)"

definition shown :: "'v layer_data list \<Rightarrow> num \<Rightarrow> 'v set" where
  "shown ls p = {la_value l |l. l \<in> set ls \<and> covers l p}"

definition tags_at :: "speed_limit boundaries_data \<Rightarrow> num \<Rightarrow> (string \<times> string) set" where
  "tags_at d p = (let tag = getTag (Option.bind (value_at d p) sv_source) in if fst tag = ''missing_from_train'' then {} else {tag})"

definition unmergeable :: "'v layer_data list \<Rightarrow> bool" where
  "unmergeable ls \<longleftrightarrow> successively (\<lambda>a b. \<not> (la_value a = la_value b \<and> la_end a = Some (la_start b))) ls"

definition ends_by :: "num \<Rightarrow> 'v layer_data list \<Rightarrow> bool" where
  "ends_by b ls \<longleftrightarrow> (\<forall>l \<in> set ls. \<exists>e. la_end l = Some e \<and> la_start l < e \<and> e \<le> b)"

lemma shown_append: "shown (xs @ ys) p = shown xs p \<union> shown ys p"
  by (auto simp: shown_def)

lemma shown_single: "shown [l] p = (if covers l p then {la_value l} else {})"
  by (auto simp: shown_def)

lemma shown_beyond: "ends_by b ls \<Longrightarrow> b \<le> p \<Longrightarrow> shown ls p = {}"
  by (fastforce simp: ends_by_def shown_def covers_def)

lemma ends_by_mono: "ends_by b ls \<Longrightarrow> b \<le> c \<Longrightarrow> ends_by c ls"
  unfolding ends_by_def by (meson order_trans)

lemma unmergeable_append:
  "unmergeable (ls @ [l]) \<longleftrightarrow> unmergeable ls \<and> (ls \<noteq> [] \<longrightarrow> \<not> (la_value (last ls) = la_value l \<and> la_end (last ls) = Some (la_start l)))"
  by (auto simp: unmergeable_def successively_append_iff)

lemma mmToKm_simps [simp]: "mmToKm a < mmToKm b \<longleftrightarrow> a < b" "mmToKm a \<le> mmToKm b \<longleftrightarrow> a \<le> b"
  by (simp_all add: mmToKm_def)

text \<open>What one more range from \<open>a\<close> to \<open>b\<close> does to the layers.\<close>

lemma tag_step_cases:
  assumes "a = range_start (bd_boundaries d) k" "b = range_stop (bd_boundaries d) (length (bd_values d)) k len" "tag = getTag (sv_source (bd_values d ! k))"
  obtains (missing) "fst tag = ''missing_from_train''" "tag_step d len ls k = ls"
  | (extended) xs l where "fst tag \<noteq> ''missing_from_train''" "ls = xs @ [l]" "la_value l = tag" "la_end l = Some (mmToKm a)"
      "tag_step d len ls k = xs @ [l\<lparr>la_end := Some (mmToKm b)\<rparr>]"
  | (added) "fst tag \<noteq> ''missing_from_train''" "tag_step d len ls k = ls @ [\<lparr>la_start = mmToKm a, la_end = Some (mmToKm b), la_value = tag\<rparr>]"
      "ls \<noteq> [] \<longrightarrow> \<not> (la_value (last ls) = tag \<and> la_end (last ls) = Some (mmToKm a))"
proof (cases "fst tag = ''missing_from_train''")
  case True
  then show ?thesis using assms by (intro missing) (simp_all add: tag_step_def)
next
  case False
  show ?thesis
  proof (cases "ls \<noteq> [] \<and> la_value (last ls) = tag \<and> la_end (last ls) = Some (mmToKm a)")
    case True
    then have "tag_step d len ls k = butlast ls @ [(last ls)\<lparr>la_end := Some (mmToKm b)\<rparr>]" using False assms by (simp add: tag_step_def Let_def)
    with True False show ?thesis by (intro extended [of "butlast ls" "last ls"]) simp_all
  next
    case n: False
    then show ?thesis using False assms by (intro added) (auto simp: tag_step_def Let_def)
  qed
qed

lemma shown_extended:
  assumes "ends_by (mmToKm a) (xs @ [l])" "la_end l = Some (mmToKm a)" "a < b"
  shows "shown (xs @ [l\<lparr>la_end := Some (mmToKm b)\<rparr>]) (mmToKm p) =
    (if p < a then shown (xs @ [l]) (mmToKm p) else if p < b then {la_value l} else {})"
proof -
  from assms have w: "la_start l < mmToKm a" "ends_by (mmToKm a) xs" by (auto simp: ends_by_def)
  show ?thesis
  proof (cases "p < a")
    case True
    with assms have "covers (l\<lparr>la_end := Some (mmToKm b)\<rparr>) (mmToKm p) = covers l (mmToKm p)" by (simp add: covers_def)
    with True show ?thesis by (simp add: shown_append shown_single)
  next
    case False
    then have "mmToKm a \<le> mmToKm p" by simp
    from order.strict_trans2 [OF w(1) this] have "la_start l \<le> mmToKm p" by (rule less_imp_le)
    with shown_beyond [OF w(2), of "mmToKm p"] False show ?thesis by (simp add: shown_append shown_single covers_def)
  qed
qed

lemma tag_step_ok:
  assumes "wf_boundaries len d" "0 < len" "k \<le> length (bd_boundaries d)"
    and "a = range_start (bd_boundaries d) k" "b = stop_at (bd_boundaries d) len k"
    and "ends_by (mmToKm a) ls" "unmergeable ls" "\<forall>p. 0 \<le> p \<and> p < a \<longrightarrow> shown ls (mmToKm p) = tags_at d p"
  shows "ends_by (mmToKm b) (tag_step d len ls k) \<and> unmergeable (tag_step d len ls k) \<and>
    (\<forall>p. 0 \<le> p \<and> p < b \<longrightarrow> shown (tag_step d len ls k) (mmToKm p) = tags_at d p)"
proof -
  let ?tag = "getTag (sv_source (bd_values d ! k))"
  have ab: "a < b" using range_nonempty [OF assms(1-3)] assms(4,5) by simp
  then have up: "ends_by (mmToKm b) ls" by (intro ends_by_mono [OF assms(6)]) simp
  have stop: "b = range_stop (bd_boundaries d) (length (bd_values d)) k len"
    using assms(1,3,5) by (simp add: range_stop_def stop_at_def wf_boundaries_def)
  have tags: "tags_at d p = (if fst ?tag = ''missing_from_train'' then {} else {?tag})" if "a \<le> p" "p < b" for p
  proof -
    have "value_at d p = Some (bd_values d ! k)"
      using range_value [OF assms(1,3), of p] that assms(1,3,4,5) by (simp add: value_index_def wf_boundaries_def)
    then show ?thesis by (simp add: tags_at_def Let_def)
  qed
  have old: "shown ls (mmToKm p) = (if p < a then tags_at d p else {})" if "0 \<le> p" for p
    using that assms(8) shown_beyond [OF assms(6)] by simp
  show ?thesis
  proof (rule tag_step_cases [OF assms(4) stop refl, of ls], goal_cases missing extended added)
    case missing
    with old tags assms(7) up show ?thesis by simp
  next
    case (extended xs l)
    have "shown (xs @ [l\<lparr>la_end := Some (mmToKm b)\<rparr>]) (mmToKm p) = tags_at d p" if "0 \<le> p" "p < b" for p
      using shown_extended [of a xs l b p] old [OF that(1)] tags [of p] that ab assms(6) extended(1-4) by simp
    moreover have "la_start l < mmToKm b" using assms(6) ab extended(2,4) order_less_trans [of "la_start l" "mmToKm a" "mmToKm b"] by (simp add: ends_by_def)
    ultimately show ?thesis using up assms(7) extended(2-5) by (simp add: unmergeable_append ends_by_def)
  next
    case added
    have "shown (tag_step d len ls k) (mmToKm p) = tags_at d p" if "0 \<le> p" "p < b" for p
      using old [OF that(1)] tags [of p] that added by (auto simp: shown_append shown_single covers_def)
    with up ab assms(7) added show ?thesis by (simp add: unmergeable_append ends_by_def)
  qed
qed

text \<open>C31: the speed limit tags of the chart are those of the simulation: at every position of the path the layer that covers it has the tag
  and the colour of the most restrictive speed there, and there is none where the train misses no tag; two layers that touch never have the
  same tag.\<close>

theorem speed_limit_tags_correct:
  assumes "wf_boundaries len d" "0 < len"
  shows "\<exists>ls. formatSpeedLimitTags d len = Inr ls \<and>
    (\<forall>p. 0 \<le> p \<and> p < len \<longrightarrow> shown ls (mmToKm p) =
      (let tag = getTag (Option.bind (value_at d p) sv_source) in if fst tag = ''missing_from_train'' then {} else {tag})) \<and>
    successively (\<lambda>a b. \<not> (la_value a = la_value b \<and> la_end a = Some (la_start b))) ls"
proof -
  let ?bs = "bd_boundaries d" and ?ls = "\<lambda>k. foldl (tag_step d len) [] [0..<k]"
  have inv: "ends_by (mmToKm (stop_at ?bs len k)) (?ls (Suc k)) \<and> unmergeable (?ls (Suc k)) \<and>
      (\<forall>p. 0 \<le> p \<and> p < stop_at ?bs len k \<longrightarrow> shown (?ls (Suc k)) (mmToKm p) = tags_at d p)" if "k \<le> length ?bs" for k
    using that
  proof (induction k)
    case 0
    have "\<forall>p. 0 \<le> p \<and> p < range_start ?bs 0 \<longrightarrow> shown [] (mmToKm p) = tags_at d p" by (auto simp: range_start_def)
    from tag_step_ok [OF assms 0 refl refl _ _ this] show ?case by (simp add: ends_by_def unmergeable_def)
  next
    case (Suc k)
    have "stop_at ?bs len k = range_start ?bs (Suc k)" using Suc.prems by (simp add: stop_at_def range_start_def)
    with Suc tag_step_ok [OF assms Suc.prems refl refl, of "?ls (Suc k)"] show ?case by simp
  qed
  have n: "length (bd_values d) = Suc (length ?bs)" using assms(1) by (simp add: wf_boundaries_def)
  from inv [of "length ?bs"] show ?thesis
    by (simp add: formatSpeedLimitTags_def n stop_at_def unmergeable_def tags_at_def)
qed

section \<open>Examples\<close>

theorem electrification_ranges_correct_witness:
  "\<exists>rs. transformElectricalBoundariesToRanges
      (mergeElectrificationAndProfiles (Some \<lparr>bd_boundaries = [4], bd_values = [Electrification ''25000V'', NonElectrified]\<rparr>)
        \<lparr>bd_boundaries = [7], bd_values = [NoProfile, Profile True (Some ''A'')]\<rparr>) 10 = rs \<and> rs \<noteq> [] \<and> er_stop (last rs) = mmToM 10"
  using electrification_ranges_correct [of 10 "\<lparr>bd_boundaries = [4], bd_values = [Electrification ''25000V'', NonElectrified]\<rparr>"
      "\<lparr>bd_boundaries = [7], bd_values = [NoProfile, Profile True (Some ''A'')]\<rparr>"]
  by (auto simp: wf_boundaries_def)

definition ex_names :: requested_names where "ex_names = \<lparr>rn_origin = ''o'', rn_destination = ''d'', rn_point = (\<lambda>_. ''p'')\<rparr>"

theorem map_waypoints_inserted_witness:
  "\<exists>ops'. upsertMapWaypointsInOperationalPoints ex_names [\<lparr>pi_id = ''s'', pi_location = TrackOffset ''t'' 3 None\<rparr>] [5] [] = Inr ops' \<and>
    (\<lambda>p. (pw_id p, pw_position p)) ` set ops' = {(''s'', 5)}"
  using map_waypoints_inserted [of "[]" "[\<lparr>pi_id = ''s'', pi_location = TrackOffset ''t'' 3 None\<rparr>]" "[5]" ex_names] by auto

theorem speed_limit_tags_correct_witness:
  "\<exists>ls. formatSpeedLimitTags \<lparr>bd_boundaries = [4], bd_values = [\<lparr>sv_speed = 3, sv_source = Some (GivenTrainTag ''E'')\<rparr>, \<lparr>sv_speed = 2, sv_source = None\<rparr>]\<rparr> 10 = Inr ls \<and>
    shown ls (mmToKm 2) = {(''E'', GIVEN_TRAIN)}"
proof -
  let ?d = "\<lparr>bd_boundaries = [4], bd_values = [\<lparr>sv_speed = 3, sv_source = Some (GivenTrainTag ''E'')\<rparr>, \<lparr>sv_speed = 2, sv_source = None\<rparr>]\<rparr>"
  have "wf_boundaries 10 ?d" by (simp add: wf_boundaries_def)
  from speed_limit_tags_correct [OF this] obtain ls where ls: "formatSpeedLimitTags ?d 10 = Inr ls"
    "\<forall>p. 0 \<le> p \<and> p < 10 \<longrightarrow> shown ls (mmToKm p) = (let tag = getTag (Option.bind (value_at ?d p) sv_source) in if fst tag = ''missing_from_train'' then {} else {tag})"
    by auto
  from ls(2) [rule_format, of 2] have "shown ls (mmToKm 2) = {(''E'', GIVEN_TRAIN)}" by (simp add: value_at_def boundary_count_def value_index_def getTag_def)
  with ls(1) show ?thesis by blast
qed

end
