(* ===== verification/Conflicts.thy ===== *)
theory Conflicts
  imports TrackOccupancy NgeTypes
begin

text \<open>
  Conflicts between trains (\<open>modules/conflict/utils.ts\<close>, \<open>hooks/useConflictsFilter.ts\<close>,
  \<open>SpaceTimeChartWrapper/useProjectedConflicts.ts\<close>) and the occupancy blocks of level crossings
  (\<open>Chronogram/buildOccupancyBlocks.ts\<close>). The trains of a conflict are named like the occupations of a track: by the number of the
  train with the index of an occurrence or the key of an exception.
\<close>

section \<open>Names of the trains of a conflict (utils.ts)\<close>

record conflict_train =
  ct_train_schedule_id :: int
  ct_kind :: occupation_kind

record requirement =
  rq_zone :: string
  rq_start_time :: string
  rq_end_time :: string

datatype conflict_type = Spacing | Routing

record conflict =
  cf_conflict_type :: conflict_type
  cf_start_time :: string
  cf_end_time :: string
  cf_requirements :: "requirement list"
  cf_train_ids :: "conflict_train list"
  cf_work_schedule_ids :: "int list"

record train_data =
  td_name :: string
  td_category :: "train_category option"

record named_conflict = conflict +
  cf_trainsData :: "train_data list"

type_synonym train_map = "(int \<times> timetable_item) list"

definition exception_name :: "paced_exception list \<Rightarrow> (paced_exception \<Rightarrow> bool) \<Rightarrow> string option" where
  "exception_name es p = Option.bind (find (\<lambda>e. p e \<and> cg_train_name e \<noteq> None) es) cg_train_name"

definition conflict_train_name :: "timetable_item \<Rightarrow> conflict_train \<Rightarrow> string result" where
  "conflict_train_name pacedTrain train =
     (case (ct_kind train, tp_paced pacedTrain) of
        (OcBase index, None) \<Rightarrow> Inr (ts_train_name pacedTrain)
      | (OcBase index, Some _) \<Rightarrow> Inr (computeOccurrenceName (ts_train_name pacedTrain) (of_int index))
      | (_, None) \<Rightarrow> Inl (JSError (''Train with id '' @ string_of_int (ct_train_schedule_id train) @ '' should be a paced train''))
      | (OcModified key index, Some paced) \<Rightarrow>
          Inr (case exception_name (pc_exceptions paced) (\<lambda>e. map_option int (ex_occurrence_index e) = Some index) of
                 Some n \<Rightarrow> n | None \<Rightarrow> computeOccurrenceName (ts_train_name pacedTrain) (of_int index))
      | (OcCreated key, Some paced) \<Rightarrow>
          Inr (case exception_name (pc_exceptions paced) (\<lambda>e. ex_key e = key) of Some n \<Rightarrow> n | None \<Rightarrow> ts_train_name pacedTrain @ ''/+''))"

definition getConflictTrainNames :: "'a conflict_scheme \<Rightarrow> train_map \<Rightarrow> string list result" where
  "getConflictTrainNames c trainMap =
     bind_result (map_result (\<lambda>train.
         case map_of trainMap (ct_train_schedule_id train) of
           None \<Rightarrow> Inr []
         | Some pacedTrain \<Rightarrow> bind_result (conflict_train_name pacedTrain train) (\<lambda>n. Inr [n])) (cf_train_ids c))
       (\<lambda>names. Inr (concat names))"

definition getConflictTrainCategories :: "'a conflict_scheme \<Rightarrow> train_map \<Rightarrow> train_category option list" where
  "getConflictTrainCategories c trainMap =
     map (\<lambda>train. Option.bind (map_of trainMap (ct_train_schedule_id train)) ts_category) (cf_train_ids c)"

definition add_names :: "train_map \<Rightarrow> conflict \<Rightarrow> named_conflict result" where
  "add_names trainMap c =
     bind_result (getConflictTrainNames c trainMap) (\<lambda>names.
       let categories = getConflictTrainCategories c trainMap in
       Inr (conflict.extend c
              \<lparr>cf_trainsData = map (\<lambda>i. \<lparr>td_name = names ! i, td_category = (if i < length categories then categories ! i else None)\<rparr>) [0..<length names]\<rparr>))"

definition train_map_of :: "timetable_item list \<Rightarrow> train_map" where
  "train_map_of items = mapBy tm_id (Some items)"

definition addTrainNamesToConflicts :: "conflict list \<Rightarrow> timetable_item list \<Rightarrow> named_conflict list result" where
  "addTrainNamesToConflicts conflicts timetableItems = map_result (add_names (train_map_of timetableItems)) conflicts"

definition by_name_length :: "train_data \<Rightarrow> train_data \<Rightarrow> int" where
  "by_name_length a b = int (length (td_name a)) - int (length (td_name b))"

definition reorderConflictTrains :: "train_data list \<Rightarrow> string option \<Rightarrow> train_data list" where
  "reorderConflictTrains trainsData selectedTrainName =
     (if trainsData = [] then trainsData
      else if \<not> truthy selectedTrainName then js_sort by_name_length trainsData
      else let selectedTrainIndex = find_index (\<lambda>train. td_name train = the selectedTrainName) trainsData in
           if selectedTrainIndex < 0 then js_sort by_name_length trainsData
           else trainsData ! nat selectedTrainIndex # js_sort by_name_length (splice_remove trainsData selectedTrainIndex))"

definition filterAndReorderConflict :: "named_conflict \<Rightarrow> string \<Rightarrow> string \<Rightarrow> named_conflict option" where
  "filterAndReorderConflict c selectedTrainId selectedTrainName =
     (if selectedTrainId = [] \<or> selectedTrainName = [] then None
      else if \<not> list_ex (\<lambda>train. td_name train = selectedTrainName) (cf_trainsData c) then None
      else Some (c\<lparr>cf_trainsData := reorderConflictTrains (cf_trainsData c) (Some selectedTrainName)\<rparr>))"

section \<open>Filter (useConflictsFilter.ts)\<close>

definition selected_occurrence_name :: "timetable_item \<Rightarrow> paced \<Rightarrow> string \<Rightarrow> string option result" where
  "selected_occurrence_name selectedTrain paced selectedTrainId =
     bind_result (findExceptionWithOccurrenceId (pc_exceptions paced) selectedTrainId) (\<lambda>exception.
       if truthy (Option.bind exception cg_train_name) then Inr (Option.bind exception cg_train_name)
       else if isIndexedOccurrenceId selectedTrainId then
         bind_result (extractOccurrenceIndexFromOccurrenceId selectedTrainId) (\<lambda>index.
           Inr (Some (computeOccurrenceName (ts_train_name selectedTrain) index)))
       else Inr (Some (ts_train_name selectedTrain @ ''/+'')))"

definition selectedTrainName :: "timetable_item list \<Rightarrow> string option \<Rightarrow> string option result" where
  "selectedTrainName timetableItems selectedTrainId =
     (if \<not> truthy selectedTrainId then Inr None
      else bind_result (item_number (the selectedTrainId)) (\<lambda>i.
        let selectedTrain = map_of (map (\<lambda>(k, v). (of_int k, v)) (train_map_of timetableItems)) i in
        case (selectedTrain, Option.bind selectedTrain tp_paced) of
          (Some train, Some paced) \<Rightarrow>
            if isOccurrenceId (the selectedTrainId) then selected_occurrence_name train paced (the selectedTrainId)
            else Inr (if ts_train_name train \<noteq> [] then Some (ts_train_name train) else None)
        | (Some train, None) \<Rightarrow> Inr (if ts_train_name train \<noteq> [] then Some (ts_train_name train) else None)
        | (None, _) \<Rightarrow> Inr None))"

definition by_start_time :: "(string \<Rightarrow> date) \<Rightarrow> 'a conflict_scheme \<Rightarrow> 'a conflict_scheme \<Rightarrow> int" where
  "by_start_time parseDate a b = parseDate (cf_start_time a) - parseDate (cf_start_time b)"

definition enrichedConflicts :: "(string \<Rightarrow> date) \<Rightarrow> conflict list option \<Rightarrow> timetable_item list \<Rightarrow> named_conflict list result" where
  "enrichedConflicts parseDate conflicts timetableItems =
     (case conflicts of None \<Rightarrow> Inr [] | Some cs \<Rightarrow> addTrainNamesToConflicts (js_sort (by_start_time parseDate) cs) timetableItems)"

definition selectedEnrichedConflicts :: "named_conflict list \<Rightarrow> string option \<Rightarrow> string option \<Rightarrow> named_conflict list" where
  "selectedEnrichedConflicts enriched selectedTrainId name =
     (if \<not> truthy name \<or> \<not> truthy selectedTrainId then []
      else List.map_filter (\<lambda>c. filterAndReorderConflict c (the selectedTrainId) (the name)) enriched)"

definition displayedConflicts ::
  "(string \<Rightarrow> date) \<Rightarrow> conflict list option \<Rightarrow> timetable_item list \<Rightarrow> string option \<Rightarrow> bool \<Rightarrow> named_conflict list result" where
  "displayedConflicts parseDate conflicts timetableItems selectedTrainId showOnlySelectedTrain =
     bind_result (selectedTrainName timetableItems selectedTrainId) (\<lambda>name.
     bind_result (enrichedConflicts parseDate conflicts timetableItems) (\<lambda>enriched.
       Inr (if \<not> showOnlySelectedTrain \<or> \<not> truthy name
            then map (\<lambda>c. c\<lparr>cf_trainsData := reorderConflictTrains (cf_trainsData c) name\<rparr>) enriched
            else selectedEnrichedConflicts enriched selectedTrainId name)))"

section \<open>Conflicts on the chart (useProjectedConflicts.ts)\<close>

definition add_requirement :: "requirement list obj \<Rightarrow> requirement \<Rightarrow> requirement list obj" where
  "add_requirement m req = obj_set m (rq_zone req) ((case obj_get m (rq_zone req) of None \<Rightarrow> [] | Some rs \<Rightarrow> rs) @ [req])"

definition conflictReqsByZone :: "conflict list \<Rightarrow> requirement list obj" where
  "conflictReqsByZone conflicts = foldl add_requirement [] (concat (map cf_requirements conflicts))"

text \<open>A zone without a boundary after it would have no end.\<close>

definition zone_conflicts :: "(string \<Rightarrow> date) \<Rightarrow> requirement list obj \<Rightarrow> num list \<Rightarrow> nat \<Rightarrow> string \<Rightarrow> layer_range list result" where
  "zone_conflicts parseDate reqsByZone bs index zone =
     (case obj_get reqsByZone zone of
        None \<Rightarrow> Inr []
      | Some reqs \<Rightarrow>
          if reqs = [] then Inr []
          else if \<not> Suc index < length bs then Inl OutOfModel
          else Inr (map (\<lambda>req. \<lparr>spaceStart = bs ! index, spaceEnd = bs ! Suc index,
                                timeStart = of_int (parseDate (rq_start_time req)), timeEnd = of_int (parseDate (rq_end_time req))\<rparr>) reqs))"

definition conflictZones ::
  "(string \<Rightarrow> date) \<Rightarrow> conflict list \<Rightarrow> (num list \<times> string list) option \<Rightarrow> num option \<Rightarrow> layer_range list result" where
  "conflictZones parseDate conflicts projectedZones pathLength =
     (case (projectedZones, pathLength) of
        (Some (boundaries, zones), Some len) \<Rightarrow>
          let bs = [0] @ boundaries @ [len]; reqs = conflictReqsByZone conflicts in
          bind_result (map_result (\<lambda>i. zone_conflicts parseDate reqs bs i (zones ! i)) [0..<length zones]) (\<lambda>zss. Inr (concat zss))
      | _ \<Rightarrow> Inr [])"

section \<open>Level crossings (buildOccupancyBlocks.ts)\<close>

definition MIN_GAP_BETWEEN_OCCUPANCIES_MS :: int where "MIN_GAP_BETWEEN_OCCUPANCIES_MS = 15000"

definition occupancy_times :: "(string \<Rightarrow> date) \<Rightarrow> (string \<Rightarrow> duration) \<Rightarrow> string \<times> string \<Rightarrow> int \<times> int" where
  "occupancy_times parseDate parse occ = (parseDate (fst occ), addDurationToDate (parseDate (fst occ)) (parse (snd occ)))"

definition by_start :: "int \<times> int \<Rightarrow> int \<times> int \<Rightarrow> int" where
  "by_start a b = fst a - fst b"

text \<open>The groups are kept in the order of the code; the last occupancy of the last group is the one that may be extended.\<close>

definition block_step :: "(int \<times> int) list list \<Rightarrow> int \<times> int \<Rightarrow> (int \<times> int) list list" where
  "block_step groups occ =
     (if groups = [] \<or> last groups = [] then groups @ [[occ]]
      else let currentGroup = last groups; lastOccupancy = last currentGroup in
           if fst occ \<le> snd lastOccupancy
           then butlast groups @ [butlast currentGroup @ [(fst lastOccupancy, max (snd lastOccupancy) (snd occ))]]
           else if fst occ - snd lastOccupancy < MIN_GAP_BETWEEN_OCCUPANCIES_MS then butlast groups @ [currentGroup @ [occ]]
           else groups @ [[occ]])"

definition computeOccupanciesBlocks :: "(string \<Rightarrow> date) \<Rightarrow> (string \<Rightarrow> duration) \<Rightarrow> (string \<times> string) list \<Rightarrow> (int \<times> int) list list" where
  "computeOccupanciesBlocks parseDate parse occupancies =
     foldl block_step [] (js_sort by_start (map (occupancy_times parseDate parse) occupancies))"

record level_crossing_data =
  lc_name :: string
  lc_occupancies :: "(int \<times> int) list list"

definition formatLevelCrossingOccupanciesForChronogram ::
  "(string \<Rightarrow> string \<Rightarrow> int) \<Rightarrow> (string \<Rightarrow> date) \<Rightarrow> (string \<Rightarrow> duration) \<Rightarrow> (string \<times> string) list obj \<Rightarrow> (string \<times> string) list \<Rightarrow>
   level_crossing_data list result" where
  "formatLevelCrossingOccupanciesForChronogram localeCompare parseDate parse levelCrossingOccupancies metadata =
     (let names = foldl (\<lambda>acc (i, name). obj_set acc i name) [] metadata in
      bind_result (map_result (\<lambda>(i, occupancies).
          case obj_get names i of
            None \<Rightarrow> Inl TypeError
          | Some name \<Rightarrow> Inr \<lparr>lc_name = name, lc_occupancies = computeOccupanciesBlocks parseDate parse occupancies\<rparr>) levelCrossingOccupancies)
        (\<lambda>data1. Inr (js_sort (\<lambda>a b. localeCompare (lc_name a) (lc_name b)) data1)))"

end
