(* ===== verification/ConflictProperties.thy ===== *)
theory ConflictProperties
  imports Conflicts TrackOccupancyProperties ScenarioProperties
begin

text \<open>
  What the conflicts and the chronogram promise: the blocks of a level crossing cover exactly its occupancies and are grouped
  by their gaps, the zones of the chart are exactly the requirements of the conflicts on the zones of the path, and the conflicts
  of a selected train are shown with this train first.
\<close>

section \<open>Blocks of a level crossing\<close>

definition within_span :: "int \<Rightarrow> int \<times> int \<Rightarrow> bool" where
  "within_span t occ \<longleftrightarrow> fst occ \<le> t \<and> t \<le> snd occ"

definition occupied_at :: "int \<Rightarrow> (int \<times> int) list \<Rightarrow> bool" where
  "occupied_at t occs \<longleftrightarrow> (\<exists>occ \<in> set occs. within_span t occ)"

text \<open>The occupancies in order and apart; short gaps within a group, long gaps between groups.\<close>

definition well_grouped :: "(int \<times> int) list list \<Rightarrow> bool" where
  "well_grouped groups \<longleftrightarrow>
     [] \<notin> set groups \<and> (\<forall>occ \<in> set (concat groups). fst occ \<le> snd occ) \<and>
     successively (\<lambda>a b. snd a < fst b) (concat groups) \<and>
     (\<forall>g \<in> set groups. successively (\<lambda>a b. fst b - snd a < MIN_GAP_BETWEEN_OCCUPANCIES_MS) g) \<and>
     successively (\<lambda>g h. MIN_GAP_BETWEEN_OCCUPANCIES_MS \<le> fst (hd h) - snd (last g)) groups"

lemma groups_cases [case_names Nil snoc]:
  assumes "[] \<notin> set groups"
  obtains "groups = []" | gs g l where "groups = gs @ [g @ [l]]"
  using assms by (cases groups rule: rev_cases) (auto, metis rev_exhaust)

lemma block_step_snoc:
  "block_step (gs @ [g @ [l]]) occ =
     (if fst occ \<le> snd l then gs @ [g @ [(fst l, max (snd l) (snd occ))]]
      else if fst occ - snd l < MIN_GAP_BETWEEN_OCCUPANCIES_MS then gs @ [g @ [l, occ]]
      else gs @ [g @ [l], [occ]])"
  by (simp add: block_step_def Let_def)

lemma well_grouped_step:
  assumes "well_grouped groups" "fst occ \<le> snd occ" "\<forall>prev \<in> set (concat groups). fst prev \<le> fst occ"
  shows "well_grouped (block_step groups occ)"
    and "occupied_at t (concat (block_step groups occ)) \<longleftrightarrow> occupied_at t (concat groups) \<or> within_span t occ"
    and "\<forall>prev \<in> set (concat (block_step groups occ)). fst prev \<le> fst occ"
proof -
  have "[] \<notin> set groups" using assms(1) by (simp add: well_grouped_def)
  then have "well_grouped (block_step groups occ) \<and>
      (occupied_at t (concat (block_step groups occ)) \<longleftrightarrow> occupied_at t (concat groups) \<or> within_span t occ) \<and>
      (\<forall>prev \<in> set (concat (block_step groups occ)). fst prev \<le> fst occ)"
  proof (cases rule: groups_cases)
    case Nil
    with assms show ?thesis by (simp add: block_step_def well_grouped_def occupied_at_def)
  next
    case (snoc gs g l)
    let ?l = "(fst l, max (snd l) (snd occ))"
    have last: "fst l \<le> fst occ" "fst l \<le> snd l" using assms(1,3) by (simp_all add: snoc well_grouped_def)
    have ends: "hd (g @ [?l]) = (if g = [] then ?l else hd g)" "hd (g @ [l]) = (if g = [] then l else hd g)"
      "hd (g @ [l, occ]) = (if g = [] then l else hd g)" by simp_all
    consider (merge) "fst occ \<le> snd l" | (push) "snd l < fst occ" "fst occ - snd l < MIN_GAP_BETWEEN_OCCUPANCIES_MS"
      | (new) "snd l < fst occ" "MIN_GAP_BETWEEN_OCCUPANCIES_MS \<le> fst occ - snd l" by linarith
    then show ?thesis
    proof cases
      case merge
      then have step: "block_step groups occ = gs @ [g @ [?l]]" by (simp add: snoc block_step_snoc)
      have "well_grouped (gs @ [g @ [?l]])"
        using assms(1) last unfolding snoc well_grouped_def
        by (auto simp: successively_append_iff ends split: if_splits)
      moreover have "occupied_at t (concat (gs @ [g @ [?l]])) \<longleftrightarrow> occupied_at t (concat groups) \<or> within_span t occ"
        using merge last assms(2) unfolding snoc occupied_at_def within_span_def by (auto simp: max_def)
      ultimately show ?thesis using assms(3) unfolding step by (auto simp: snoc)
    next
      case push
      then have step: "block_step groups occ = gs @ [g @ [l, occ]]" by (simp add: snoc block_step_snoc)
      show ?thesis using assms push unfolding step
        by (auto simp: snoc well_grouped_def successively_append_iff ends occupied_at_def split: if_splits)
    next
      case new
      then have step: "block_step groups occ = gs @ [g @ [l], [occ]]" by (simp add: snoc block_step_snoc)
      show ?thesis using assms new unfolding step
        by (auto simp: snoc well_grouped_def successively_append_iff ends occupied_at_def split: if_splits)
    qed
  qed
  then show "well_grouped (block_step groups occ)"
    and "occupied_at t (concat (block_step groups occ)) \<longleftrightarrow> occupied_at t (concat groups) \<or> within_span t occ"
    and "\<forall>prev \<in> set (concat (block_step groups occ)). fst prev \<le> fst occ" by blast+
qed

lemma well_grouped_fold:
  assumes "well_grouped groups" "sorted_wrt (\<lambda>a b. by_start a b \<le> 0) occs" "\<forall>occ \<in> set occs. fst occ \<le> snd occ"
    and "\<forall>prev \<in> set (concat groups). \<forall>occ \<in> set occs. fst prev \<le> fst occ"
  shows "well_grouped (foldl block_step groups occs) \<and>
    (occupied_at t (concat (foldl block_step groups occs)) \<longleftrightarrow> occupied_at t (concat groups) \<or> occupied_at t occs)"
  using assms
proof (induction occs arbitrary: groups)
  case Nil
  then show ?case by (simp add: occupied_at_def)
next
  case (Cons occ occs)
  have "fst occ \<le> snd occ" "\<forall>prev \<in> set (concat groups). fst prev \<le> fst occ" using Cons.prems by auto
  note step = well_grouped_step [OF Cons.prems(1) this]
  have "\<forall>prev \<in> set (concat (block_step groups occ)). \<forall>next \<in> set occs. fst prev \<le> fst next"
    using step(3) Cons.prems(2) by (fastforce simp: by_start_def)
  then show ?case using Cons.IH [OF step(1)] Cons.prems(2,3) step(2) by (auto simp: occupied_at_def)
qed

lemma by_start_orders: "orders by_start"
  by (auto simp: orders_def by_start_def)

text \<open>C27: the blocks of a level crossing cover exactly the times of its occupancies. The occupancies of the result are disjoint
  and in order, those of a group follow each other within less than 15 seconds, and at least 15 seconds separate two groups.\<close>

theorem level_crossing_blocks:
  assumes "\<forall>occ \<in> set occupancies. 0 \<le> dur_ms (parse (snd occ))"
  shows "well_grouped (computeOccupanciesBlocks parseDate parse occupancies) \<and>
    (occupied_at t (concat (computeOccupanciesBlocks parseDate parse occupancies)) \<longleftrightarrow>
      (\<exists>occ \<in> set occupancies. parseDate (fst occ) \<le> t \<and> t \<le> parseDate (fst occ) + dur_ms (parse (snd occ))))"
proof -
  let ?times = "map (occupancy_times parseDate parse) occupancies"
  have set: "set (js_sort by_start ?times) = set ?times" by (metis mset_js_sort set_mset_mset)
  have "well_grouped []" by (simp add: well_grouped_def)
  moreover have "\<forall>occ \<in> set (js_sort by_start ?times). fst occ \<le> snd occ"
    unfolding set using assms by (auto simp: occupancy_times_def addDurationToDate_def)
  ultimately have "well_grouped (computeOccupanciesBlocks parseDate parse occupancies) \<and>
      (occupied_at t (concat (computeOccupanciesBlocks parseDate parse occupancies)) \<longleftrightarrow> occupied_at t (js_sort by_start ?times))"
    unfolding computeOccupanciesBlocks_def
    using well_grouped_fold [of "[]" "js_sort by_start ?times" t] sorted_js_sort [OF by_start_orders, of ?times]
    by (simp add: occupied_at_def)
  then show ?thesis
    by (simp add: occupied_at_def set within_span_def occupancy_times_def addDurationToDate_def)
qed

section \<open>Zones of the conflicts on the chart\<close>

lemma add_requirement_get:
  "obj_get (add_requirement m req) z =
     (if rq_zone req = z then Some ((case obj_get m z of None \<Rightarrow> [] | Some rs \<Rightarrow> rs) @ [req]) else obj_get m z)"
  by (simp add: add_requirement_def obj_get_set)

lemma add_requirements_get:
  "(case obj_get (foldl add_requirement m reqs) z of None \<Rightarrow> [] | Some rs \<Rightarrow> rs) =
     (case obj_get m z of None \<Rightarrow> [] | Some rs \<Rightarrow> rs) @ filter (\<lambda>r. rq_zone r = z) reqs"
  by (induction reqs arbitrary: m) (simp_all add: add_requirement_get split: option.split)

lemma requirements_of_zone:
  "(case obj_get (conflictReqsByZone conflicts) z of None \<Rightarrow> [] | Some rs \<Rightarrow> rs) =
     filter (\<lambda>r. rq_zone r = z) (concat (map cf_requirements conflicts))"
  unfolding conflictReqsByZone_def add_requirements_get by (simp add: obj_get_def)

definition requirement_zone :: "(string \<Rightarrow> date) \<Rightarrow> num list \<Rightarrow> nat \<Rightarrow> requirement \<Rightarrow> layer_range" where
  "requirement_zone parseDate bs i req =
     \<lparr>spaceStart = bs ! i, spaceEnd = bs ! Suc i,
      timeStart = of_int (parseDate (rq_start_time req)), timeEnd = of_int (parseDate (rq_end_time req))\<rparr>"

lemma zone_conflicts_eq:
  assumes "Suc i < length bs"
  shows "zone_conflicts parseDate (conflictReqsByZone conflicts) bs i z =
    Inr (map (requirement_zone parseDate bs i) (filter (\<lambda>r. rq_zone r = z) (concat (map cf_requirements conflicts))))"
  unfolding requirements_of_zone [symmetric] using assms
  by (simp add: zone_conflicts_def requirement_zone_def [abs_def] split: option.split)

text \<open>The zones of the conflicts on the chart are exactly the requirements of the conflicts on the zones of the path: one
  rectangle for each zone and each requirement on it, over the zone's part of the path and the times of the requirement.\<close>

lemma projected_conflicts_exact:
  assumes "length zones = Suc (length boundaries)"
  shows "\<exists>shown. conflictZones parseDate conflicts (Some (boundaries, zones)) (Some len) = Inr shown \<and>
    set shown = {requirement_zone parseDate ([0] @ boundaries @ [len]) i req | i req c.
      i < length zones \<and> c \<in> set conflicts \<and> req \<in> set (cf_requirements c) \<and> rq_zone req = zones ! i}"
proof -
  let ?bs = "[0] @ boundaries @ [len]"
  define reqs where "reqs i = filter (\<lambda>r. rq_zone r = zones ! i) (concat (map cf_requirements conflicts))" for i
  have "map_result (\<lambda>i. zone_conflicts parseDate (conflictReqsByZone conflicts) ?bs i (zones ! i)) [0..<length zones] =
      Inr (map (\<lambda>i. map (requirement_zone parseDate ?bs i) (reqs i)) [0..<length zones])"
    unfolding reqs_def using assms by (intro map_result_total zone_conflicts_eq) auto
  then have "conflictZones parseDate conflicts (Some (boundaries, zones)) (Some len) =
      Inr (concat (map (\<lambda>i. map (requirement_zone parseDate ?bs i) (reqs i)) [0..<length zones]))"
    by (simp add: conflictZones_def Let_def del: upt_Suc)
  moreover have "set (concat (map (\<lambda>i. map (requirement_zone parseDate ?bs i) (reqs i)) [0..<length zones])) =
      {requirement_zone parseDate ?bs i req | i req c.
        i < length zones \<and> c \<in> set conflicts \<and> req \<in> set (cf_requirements c) \<and> rq_zone req = zones ! i}"
    unfolding reqs_def by (fastforce simp del: append_Cons upt_Suc)
  ultimately show ?thesis by blast
qed

section \<open>Conflicts of the selected train\<close>

text \<open>The identifier under which the train of a conflict is selected in the timetable.\<close>

definition conflict_train_id :: "timetable_item \<Rightarrow> conflict_train \<Rightarrow> string" where
  "conflict_train_id item train =
     (case (tp_paced item, ct_kind train) of
        (None, _) \<Rightarrow> formatEditoastIdToPacedTrainId (of_int (tm_id item))
      | (Some _, OcBase i) \<Rightarrow> formatEditoastIdToIndexedOccurrenceId (of_int (tm_id item)) (of_int i)
      | (Some _, OcModified _ i) \<Rightarrow> formatEditoastIdToIndexedOccurrenceId (of_int (tm_id item)) (of_int i)
      | (Some _, OcCreated key) \<Rightarrow> formatEditoastIdToExceptionId (of_int (tm_id item)) key)"

text \<open>The kind of a train of a conflict agrees with the exceptions of the paced train: an occurrence without changes has no
  exception that names it, and a changed or added one has one exception. Names are not empty.\<close>

definition unique_in :: "('a \<Rightarrow> bool) \<Rightarrow> 'a list \<Rightarrow> bool" where
  "unique_in p xs \<longleftrightarrow> (\<forall>x \<in> set xs. \<forall>y \<in> set xs. p x \<longrightarrow> p y \<longrightarrow> x = y)"

definition kind_agrees :: "paced_exception list \<Rightarrow> occupation_kind \<Rightarrow> bool" where
  "kind_agrees es kind \<longleftrightarrow> (\<forall>e \<in> set es. cg_train_name e \<noteq> Some []) \<and>
     (case kind of
        OcBase i \<Rightarrow> \<forall>e \<in> set es. map_option int (ex_occurrence_index e) = Some i \<longrightarrow> cg_train_name e = None
      | OcModified _ i \<Rightarrow> unique_in (\<lambda>e. map_option int (ex_occurrence_index e) = Some i) es
      | OcCreated key \<Rightarrow> unique_in (\<lambda>e. ex_key e = key) es)"

lemma exception_name_unique:
  "unique_in p es \<Longrightarrow> exception_name es p = Option.bind (find p es) cg_train_name"
proof (induction es)
  case (Cons e es)
  then have IH: "exception_name es p = Option.bind (find p es) cg_train_name" by (auto simp: unique_in_def)
  show ?case
  proof (cases "p e")
    case True
    then have "find (\<lambda>x. p x \<and> cg_train_name x \<noteq> None) es = None" if "cg_train_name e = None"
      using Cons.prems that by (auto simp: find_None_iff unique_in_def)
    with True show ?thesis by (auto simp: exception_name_def)
  next
    case False
    with IH show ?thesis by (simp add: exception_name_def)
  qed
qed (simp add: exception_name_def)

lemma find_exception_formats:
  "findExceptionWithOccurrenceId es (formatEditoastIdToIndexedOccurrenceId (of_int n) (of_int i)) =
     Inr (find (\<lambda>e. map_option int (ex_occurrence_index e) = Some i) es)"
  "findExceptionWithOccurrenceId es (formatEditoastIdToExceptionId (of_int n) key) = Inr (find (\<lambda>e. ex_key e = key) es)"
proof -
  have eq: "(of_nat j = (of_int i :: num)) \<longleftrightarrow> int j = i" for j by (metis of_int_eq_iff of_int_of_nat_eq)
  have "(\<lambda>e :: paced_exception. map_option of_nat (ex_occurrence_index e) = Some (of_int i :: num)) =
      (\<lambda>e. map_option int (ex_occurrence_index e) = Some i)"
    by (simp add: map_option_eq_Some eq)
  then show "findExceptionWithOccurrenceId es (formatEditoastIdToIndexedOccurrenceId (of_int n) (of_int i)) =
     Inr (find (\<lambda>e. map_option int (ex_occurrence_index e) = Some i) es)"
    by (simp add: findExceptionWithOccurrenceId_def exception_of_def format_kinds extract_indexed)
  have "\<not> isIndexedOccurrenceId (formatEditoastIdToExceptionId (of_int n) key)"
    using id_kinds_disjoint format_kinds(4) by blast
  then show "findExceptionWithOccurrenceId es (formatEditoastIdToExceptionId (of_int n) key) = Inr (find (\<lambda>e. ex_key e = key) es)"
    by (simp add: findExceptionWithOccurrenceId_def exception_of_def extract_exception eq_commute)
qed

lemma lookup_train:
  assumes "distinct (map tm_id items)" "item \<in> set items"
  shows "map_of (train_map_of items) (tm_id item) = Some item"
    and "map_of (map (\<lambda>(k, v). (of_int k :: num, v)) (train_map_of items)) (of_int (tm_id item)) = Some item"
proof -
  have tm: "train_map_of items = map (\<lambda>x. (tm_id x, x)) items" unfolding train_map_of_def by (rule mapBy_id [OF assms(1)])
  have "distinct (map fst (train_map_of items))" "(tm_id item, item) \<in> set (train_map_of items)"
    using assms by (simp_all add: tm comp_def)
  then show "map_of (train_map_of items) (tm_id item) = Some item" by (rule map_of_is_SomeI)
  have "distinct (map of_int (map tm_id items) :: num list)" using assms(1) by (subst distinct_map) (auto simp: inj_on_def)
  then have "distinct (map fst (map (\<lambda>(k, v). (of_int k :: num, v)) (train_map_of items)))"
    by (simp add: tm comp_def)
  moreover have "(of_int (tm_id item), item) \<in> set (map (\<lambda>(k, v). (of_int k :: num, v)) (train_map_of items))"
    using assms(2) by (force simp: tm)
  ultimately show "map_of (map (\<lambda>(k, v). (of_int k :: num, v)) (train_map_of items)) (of_int (tm_id item)) = Some item"
    by (rule map_of_is_SomeI)
qed

lemma selected_name_of_occurrence:
  assumes "kind_agrees (pc_exceptions paced) (ct_kind train)" "tp_paced item = Some paced"
    and "conflict_train_name item train = Inr name"
  shows "selected_occurrence_name item paced (conflict_train_id item train) = Inr (Some name)"
proof -
  let ?es = "pc_exceptions paced"
  have named: "truthy (Option.bind (find p ?es) cg_train_name) \<longleftrightarrow> Option.bind (find p ?es) cg_train_name \<noteq> None" for p
    using assms(1) by (auto simp: kind_agrees_def truthy_def find_Some_iff split: Option.bind_split option.split)
  have indexed: "isIndexedOccurrenceId (formatEditoastIdToIndexedOccurrenceId x y)"
    "\<not> isIndexedOccurrenceId (formatEditoastIdToExceptionId x key)" for x y key
    using format_kinds(3) id_kinds_disjoint format_kinds(4) by blast+
  show ?thesis
  proof (cases "ct_kind train")
    case (OcBase i)
    with assms(1) have "Option.bind (find (\<lambda>e. map_option int (ex_occurrence_index e) = Some i) ?es) cg_train_name = None"
      by (auto simp: kind_agrees_def find_Some_iff split: Option.bind_split)
    with OcBase assms(2,3) show ?thesis
      by (simp add: selected_occurrence_name_def conflict_train_id_def conflict_train_name_def find_exception_formats extract_indexed
          indexed truthy_def)
  next
    case (OcModified key i)
    with assms(1) have "unique_in (\<lambda>e. map_option int (ex_occurrence_index e) = Some i) ?es" by (simp add: kind_agrees_def)
    from exception_name_unique [OF this] OcModified assms(2,3) show ?thesis
      by (simp add: selected_occurrence_name_def conflict_train_id_def conflict_train_name_def find_exception_formats extract_indexed
          indexed named split: option.splits)
  next
    case (OcCreated key)
    with assms(1) have "unique_in (\<lambda>e. ex_key e = key) ?es" by (simp add: kind_agrees_def)
    from exception_name_unique [OF this] OcCreated assms(2,3) show ?thesis
      by (simp add: selected_occurrence_name_def conflict_train_id_def conflict_train_name_def find_exception_formats
          indexed named split: option.splits)
  qed
qed

lemma conflict_train_id_kinds:
  "tp_paced item = Some paced \<Longrightarrow> isOccurrenceId (conflict_train_id item train)"
  "tp_paced item = None \<Longrightarrow> conflict_train_id item train = formatEditoastIdToPacedTrainId (of_int (tm_id item))"
  "item_number (conflict_train_id item train) = Inr (of_int (tm_id item))"
  "conflict_train_id item train \<noteq> []"
proof -
  have ids: "formatEditoastIdToPacedTrainId x \<noteq> []" "formatEditoastIdToIndexedOccurrenceId x y \<noteq> []" "formatEditoastIdToExceptionId x key \<noteq> []"
    for x y key
    by (simp_all add: formatEditoastIdToPacedTrainId_def formatEditoastIdToIndexedOccurrenceId_def formatEditoastIdToExceptionId_def)
  show "tp_paced item = Some paced \<Longrightarrow> isOccurrenceId (conflict_train_id item train)"
    "tp_paced item = None \<Longrightarrow> conflict_train_id item train = formatEditoastIdToPacedTrainId (of_int (tm_id item))"
    "item_number (conflict_train_id item train) = Inr (of_int (tm_id item))" "conflict_train_id item train \<noteq> []"
    by (simp_all add: conflict_train_id_def isOccurrenceId_def format_kinds item_number_formats ids split: occupation_kind.split option.split)
qed

lemma selected_name_of_train:
  assumes "distinct (map tm_id items)" "item \<in> set items" "conflict_train_name item train = Inr name" "name \<noteq> []"
    and "\<And>paced. tp_paced item = Some paced \<Longrightarrow> kind_agrees (pc_exceptions paced) (ct_kind train)"
  shows "selectedTrainName items (Some (conflict_train_id item train)) = Inr (Some name)"
proof (cases "tp_paced item")
  case None
  with assms(3) have "ts_train_name item = name" by (simp add: conflict_train_name_def split: occupation_kind.splits)
  then show ?thesis
    using None assms(4) by (simp add: selectedTrainName_def lookup_train(2) [OF assms(1,2)] conflict_train_id_kinds(3,4) truthy_def)
next
  case (Some paced)
  from selected_name_of_occurrence [OF assms(5) [OF this] this assms(3)] Some show ?thesis
    by (simp add: selectedTrainName_def lookup_train(2) [OF assms(1,2)] conflict_train_id_kinds(1) [OF Some] conflict_train_id_kinds(3,4) truthy_def)
qed

text \<open>The names of the trains of a conflict, in their order: one for each train that is in the timetable, as often as the conflict
  names it, and none for the trains that are not in the timetable.\<close>

definition timetable_name :: "timetable_item list \<Rightarrow> conflict_train \<Rightarrow> string option" where
  "timetable_name items train =
     Option.bind (find (\<lambda>item. tm_id item = ct_train_schedule_id train) items)
       (\<lambda>item. case conflict_train_name item train of Inr name \<Rightarrow> Some name | Inl _ \<Rightarrow> None)"

definition conflict_names :: "timetable_item list \<Rightarrow> 'a conflict_scheme \<Rightarrow> string list" where
  "conflict_names items c = List.map_filter (timetable_name items) (cf_train_ids c)"

lemma lookup_find:
  assumes "distinct (map tm_id items)"
  shows "map_of (train_map_of items) i = find (\<lambda>item. tm_id item = i) items"
proof -
  have "map_of (map (\<lambda>x. (tm_id x, x)) xs) i = find (\<lambda>item. tm_id item = i) xs" for xs :: "timetable_item list"
    by (induction xs) auto
  then show ?thesis unfolding train_map_of_def mapBy_id [OF assms] .
qed

text \<open>Only occurrences of paced trains are modified or added.\<close>

definition kinds_paced :: "timetable_item list \<Rightarrow> 'a conflict_scheme \<Rightarrow> bool" where
  "kinds_paced items c \<longleftrightarrow>
     (\<forall>train \<in> set (cf_train_ids c). case ct_kind train of OcBase _ \<Rightarrow> True
        | _ \<Rightarrow> Option.bind (map_of (train_map_of items) (ct_train_schedule_id train)) (\<lambda>item. Some (tp_paced item)) \<noteq> Some None)"

lemma kinds_paced_named:
  assumes "kinds_paced items c" "train \<in> set (cf_train_ids c)" "map_of (train_map_of items) (ct_train_schedule_id train) = Some item"
  shows "\<exists>name. conflict_train_name item train = Inr name"
  using assms by (auto simp: kinds_paced_def conflict_train_name_def split: occupation_kind.splits option.splits)

lemma getConflictTrainNames_names:
  assumes "distinct (map tm_id items)" "kinds_paced items c"
  shows "getConflictTrainNames c (train_map_of items) = Inr (conflict_names items c)"
    and "set (conflict_names items c) = {name. \<exists>train \<in> set (cf_train_ids c). \<exists>item.
      map_of (train_map_of items) (ct_train_schedule_id train) = Some item \<and> conflict_train_name item train = Inr name}"
proof -
  define f where "f train = (case timetable_name items train of None \<Rightarrow> [] | Some name \<Rightarrow> [name])" for train
  have "map_result (\<lambda>train. case map_of (train_map_of items) (ct_train_schedule_id train) of None \<Rightarrow> Inr []
      | Some item \<Rightarrow> bind_result (conflict_train_name item train) (\<lambda>n. Inr [n])) (cf_train_ids c) = Inr (map f (cf_train_ids c))"
    using kinds_paced_named [OF assms(2)] unfolding lookup_find [OF assms(1)]
    by (intro map_result_total) (fastforce simp: f_def timetable_name_def split: option.split)
  moreover have "concat (map f xs) = List.map_filter (timetable_name items) xs" for xs
    by (induction xs) (simp_all add: f_def List.map_filter_simps split: option.split)
  ultimately show names: "getConflictTrainNames c (train_map_of items) = Inr (conflict_names items c)"
    by (simp add: getConflictTrainNames_def conflict_names_def)
  have "timetable_name items train = Some name \<longleftrightarrow>
      (\<exists>item. map_of (train_map_of items) (ct_train_schedule_id train) = Some item \<and> conflict_train_name item train = Inr name)" for train name
    unfolding lookup_find [OF assms(1)] timetable_name_def
    by (cases "find (\<lambda>item. tm_id item = ct_train_schedule_id train) items") (auto split: sum.split)
  note name = this
  have "name \<in> set (List.map_filter g xs) \<longleftrightarrow> (\<exists>x\<in>set xs. g x = Some name)" for name and g :: "conflict_train \<Rightarrow> string option" and xs
    by (induction xs) (auto simp: List.map_filter_simps split: option.split)
  then show "set (conflict_names items c) = {name. \<exists>train \<in> set (cf_train_ids c). \<exists>item.
      map_of (train_map_of items) (ct_train_schedule_id train) = Some item \<and> conflict_train_name item train = Inr name}"
    unfolding conflict_names_def set_eq_iff mem_Collect_eq name [symmetric] by simp
qed

definition named :: "timetable_item list \<Rightarrow> conflict \<Rightarrow> named_conflict" where
  "named items c = (case add_names (train_map_of items) c of Inr d \<Rightarrow> d | Inl _ \<Rightarrow> conflict.extend c \<lparr>cf_trainsData = []\<rparr>)"

lemma add_names_named:
  assumes "distinct (map tm_id items)" "kinds_paced items c"
  shows "add_names (train_map_of items) c = Inr (named items c)" "conflict.truncate (named items c) = c"
    and "map td_name (cf_trainsData (named items c)) = conflict_names items c"
  using getConflictTrainNames_names(1) [OF assms]
  by (simp_all add: named_def add_names_def Let_def conflict.defs comp_def map_nth)

lemma reorder_trains:
  "mset (reorderConflictTrains td sel) = mset td"
  "sel = Some name \<Longrightarrow> name \<noteq> [] \<Longrightarrow> name \<in> td_name ` set td \<Longrightarrow> td_name (hd (reorderConflictTrains td sel)) = name"
proof -
  have split: "mset td = add_mset (td ! i) (mset (splice_remove td (int i)))" if "i < length td" for i
    using that id_take_nth_drop [of i td] by (simp add: splice_remove_def rel_index_def Let_def) (metis mset_append union_mset_add_mset_right mset.simps(2))
  show "mset (reorderConflictTrains td sel) = mset td"
    by (cases rule: find_index_cases [of "\<lambda>t. td_name t = the sel" td]) (auto simp: reorderConflictTrains_def Let_def split)
  show "td_name (hd (reorderConflictTrains td sel)) = name" if "sel = Some name" "name \<noteq> []" "name \<in> td_name ` set td"
    using that by (cases rule: find_index_cases [of "\<lambda>t. td_name t = the sel" td]) (auto simp: reorderConflictTrains_def Let_def truthy_def)
qed

definition reordered :: "string \<Rightarrow> named_conflict \<Rightarrow> named_conflict" where
  "reordered name d = d\<lparr>cf_trainsData := reorderConflictTrains (cf_trainsData d) (Some name)\<rparr>"

lemma map_filter_map:
  "(\<And>x. x \<in> set xs \<Longrightarrow> f (g x) = (if P x then Some (h x) else None)) \<Longrightarrow> List.map_filter f (map g xs) = map h (filter P xs)"
  by (induction xs) (simp_all add: List.map_filter_simps)

lemma displayed_conflicts_eq:
  assumes "selectedTrainName items (Some i) = Inr (Some name)" "name \<noteq> []" "i \<noteq> []" "\<forall>c \<in> set conflicts. kinds_paced items c"
    and ids: "distinct (map tm_id items)"
  shows "displayedConflicts parseDate (Some conflicts) items (Some i) only =
    Inr (map (\<lambda>c. reordered name (named items c))
      (filter (\<lambda>c. only \<longrightarrow> name \<in> set (conflict_names items c)) (js_sort (by_start_time parseDate) conflicts)))"
proof -
  let ?cs = "js_sort (by_start_time parseDate) conflicts"
  have set: "set ?cs = set conflicts" by (metis mset_js_sort set_mset_mset)
  have "enrichedConflicts parseDate (Some conflicts) items = Inr (map (named items) ?cs)"
    unfolding enrichedConflicts_def addTrainNamesToConflicts_def option.case
    using assms(4) add_names_named(1) [OF ids] by (intro map_result_total) (simp add: set)
  moreover have "filterAndReorderConflict (named items c) i name =
      (if name \<in> set (conflict_names items c) then Some (reordered name (named items c)) else None)" if "c \<in> set ?cs" for c
    using add_names_named(3) [OF ids, of c] assms(2,3,4) that
    by (auto simp: set filterAndReorderConflict_def reordered_def list_ex_iff simp flip: add_names_named(3) [OF ids])
  then have "List.map_filter (\<lambda>d. filterAndReorderConflict d i name) (map (named items) ?cs) =
      map (\<lambda>c. reordered name (named items c)) (filter (\<lambda>c. name \<in> set (conflict_names items c)) ?cs)"
    by (intro map_filter_map) blast
  ultimately show ?thesis
    using assms(1,2,3) by (cases only) (simp_all add: displayedConflicts_def selectedEnrichedConflicts_def truthy_def reordered_def comp_def)
qed

text \<open>C22: when a train or an occurrence is selected, the conflicts are listed in the order of their start, all of them or, with
  the filter, those with a train of its name. A conflict in which it takes part is always listed, with a train of its name
  first; a listed conflict shows the name of each of its trains that is in the timetable as often as the conflict has it, and
  leaves out the trains that are not in the timetable. The identifiers of the trains are distinct, only occurrences of
  paced trains are modified or added, and the exceptions of the selected train agree with the kind the conflict gives (no empty
  names, no name for an unmodified occurrence, one exception per occurrence).\<close>

theorem selected_conflicts_shown:
  assumes "distinct (map tm_id items)" "item \<in> set items"
    and "\<forall>paced. tp_paced item = Some paced \<longrightarrow> kind_agrees (pc_exceptions paced) (ct_kind train)"
    and "conflict_train_name item train = Inr name" "name \<noteq> []"
    and "\<forall>c \<in> set conflicts. kinds_paced items c"
    and "c \<in> set conflicts" "train \<in> set (cf_train_ids c)" "ct_train_schedule_id train = tm_id item"
  shows "\<exists>shown. displayedConflicts parseDate (Some conflicts) items (Some (conflict_train_id item train)) only = Inr shown \<and>
    map conflict.truncate shown =
      filter (\<lambda>c. only \<longrightarrow> name \<in> set (conflict_names items c)) (js_sort (by_start_time parseDate) conflicts) \<and>
    (\<exists>d \<in> set shown. conflict.truncate d = c \<and> td_name (hd (cf_trainsData d)) = name) \<and>
    (\<forall>d \<in> set shown. mset (map td_name (cf_trainsData d)) = mset (conflict_names items (conflict.truncate d)))"
proof -
  let ?cs = "filter (\<lambda>c. only \<longrightarrow> name \<in> set (conflict_names items c)) (js_sort (by_start_time parseDate) conflicts)"
  let ?d = "\<lambda>c. reordered name (named items c)"
  have sub: "set (js_sort (by_start_time parseDate) conflicts) = set conflicts" by (metis mset_js_sort set_mset_mset)
  have sel: "selectedTrainName items (Some (conflict_train_id item train)) = Inr (Some name)"
    using selected_name_of_train [OF assms(1,2,4,5)] assms(3) by simp
  have d: "conflict.truncate (?d c) = c" "mset (map td_name (cf_trainsData (?d c))) = mset (conflict_names items c)"
    if "c \<in> set conflicts" for c
    using add_names_named [OF assms(1), of c] reorder_trains(1) assms(6) that by (simp_all add: reordered_def conflict.defs) (simp flip: mset_map)
  have in_names: "name \<in> set (conflict_names items c)"
    using getConflictTrainNames_names(2) [OF assms(1), of c] lookup_train(1) [OF assms(1,2)] assms(4,6-9) by fastforce
  then have "name \<in> td_name ` set (cf_trainsData (named items c))"
    using add_names_named(3) [OF assms(1), of c] assms(6,7) by (simp flip: set_map)
  then have first: "td_name (hd (cf_trainsData (?d c))) = name"
    using reorder_trains(2) [OF refl assms(5)] by (simp add: reordered_def)
  have "map conflict.truncate (map ?d ?cs) = ?cs" using d(1) by (auto simp: sub intro!: map_idI)
  moreover have "\<exists>d \<in> set (map ?d ?cs). conflict.truncate d = c \<and> td_name (hd (cf_trainsData d)) = name"
    using in_names first d(1) [OF assms(7)] assms(7) by (intro bexI [of _ "?d c"]) (auto simp: sub)
  moreover have "\<forall>d \<in> set (map ?d ?cs). mset (map td_name (cf_trainsData d)) = mset (conflict_names items (conflict.truncate d))"
    using d by (auto simp: sub)
  ultimately show ?thesis
    using displayed_conflicts_eq [OF sel assms(5) conflict_train_id_kinds(4) assms(6,1)] by blast
qed

text \<open>The filter goes by names. The added occurrences of a paced train without a name of their own all have the same name, so
  that the conflicts of one are shown for the other.\<close>

lemma added_occurrences_share_name:
  assumes "tp_paced item = Some paced" "\<forall>e \<in> set (pc_exceptions paced). cg_train_name e = None"
  shows "conflict_train_name item \<lparr>ct_train_schedule_id = n, ct_kind = OcCreated key1\<rparr> =
    conflict_train_name item \<lparr>ct_train_schedule_id = n, ct_kind = OcCreated key2\<rparr>"
proof -
  have "exception_name (pc_exceptions paced) p = None" for p
    using assms(2) by (auto simp: exception_name_def find_Some_iff split: Option.bind_split)
  with assms(1) show ?thesis by (simp add: conflict_train_name_def)
qed

text \<open>A train of a conflict that is not in the timetable has a category but no name: the categories of the trains after it
  are shifted.\<close>

lemma missing_train_shifts_categories:
  fixes c :: conflict
  assumes "tm_id item = 2" "tp_paced item = None"
    and "cf_train_ids c = [\<lparr>ct_train_schedule_id = 1, ct_kind = OcBase 0\<rparr>, \<lparr>ct_train_schedule_id = 2, ct_kind = OcBase 0\<rparr>]"
  shows "\<exists>d. add_names (train_map_of [item]) c = Inr d \<and> cf_trainsData d = [\<lparr>td_name = ts_train_name item, td_category = None\<rparr>]"
  using assms by (simp add: add_names_def getConflictTrainNames_def getConflictTrainCategories_def train_map_of_def mapBy_def
      conflict_train_name_def conflict.defs)

section \<open>Instances\<close>

definition ex_crossing :: "(string \<times> string) list" where
  "ex_crossing = [(''bb'', ''b''), (''a'', ''b'')]"

theorem level_crossing_blocks_witness:
  "well_grouped (computeOccupanciesBlocks (\<lambda>s. int (length s)) (\<lambda>s. Duration (int (length s))) ex_crossing) \<and>
   occupied_at 3 (concat (computeOccupanciesBlocks (\<lambda>s. int (length s)) (\<lambda>s. Duration (int (length s))) ex_crossing))"
proof -
  have "\<forall>occ \<in> set ex_crossing. 0 \<le> dur_ms (Duration (int (length (snd occ))))" by (simp add: ex_crossing_def)
  from level_crossing_blocks [of ex_crossing "\<lambda>s. Duration (int (length s))", OF this, of "\<lambda>s. int (length s)" 3] show ?thesis
    by (simp add: ex_crossing_def)
qed

definition ex_conflict_train :: conflict_train where
  "ex_conflict_train = \<lparr>ct_train_schedule_id = 5, ct_kind = OcModified ''k'' 1\<rparr>"

definition ex_requirement :: requirement where
  "ex_requirement = \<lparr>rq_zone = ''z'', rq_start_time = ''a'', rq_end_time = ''bb''\<rparr>"

definition ex_conflict :: conflict where
  "ex_conflict = \<lparr>cf_conflict_type = Spacing, cf_start_time = ''a'', cf_end_time = ''bb'', cf_requirements = [ex_requirement],
     cf_train_ids = [\<lparr>ct_train_schedule_id = 5, ct_kind = OcBase 0\<rparr>, ex_conflict_train], cf_work_schedule_ids = []\<rparr>"

definition ex_timetable_item :: timetable_item where
  "ex_timetable_item =
     \<lparr>ts_train_name = ''T'', ts_start_time = ''s'', ts_rolling_stock_name = ''rs'', ts_comfort = None,
      ts_constraint_distribution = MARECO, ts_initial_speed = None, ts_labels = None, ts_margins = None, ts_options = None,
      ts_path = [], ts_power_restrictions = None, ts_schedule = None, ts_speed_limit_tag = None, ts_category = None,
      tp_paced = Some \<lparr>pc_time_window = ''w'', pc_interval = ''i'', pc_exceptions = [(ex_change (Some 1) None None)\<lparr>cg_train_name := Some ''Z''\<rparr>]\<rparr>,
      tm_id = 5\<rparr>"

theorem selected_conflicts_shown_witness:
  "\<exists>shown. displayedConflicts (\<lambda>s. int (length s)) (Some [ex_conflict]) [ex_timetable_item]
      (Some (conflict_train_id ex_timetable_item ex_conflict_train)) True = Inr shown \<and>
    (\<exists>d \<in> set shown. conflict.truncate d = ex_conflict \<and> td_name (hd (cf_trainsData d)) = ''Z'')"
proof -
  have paced: "\<forall>paced. tp_paced ex_timetable_item = Some paced \<longrightarrow> kind_agrees (pc_exceptions paced) (ct_kind ex_conflict_train)"
    by (simp add: ex_timetable_item_def ex_conflict_train_def kind_agrees_def unique_in_def ex_change_def)
  have name: "conflict_train_name ex_timetable_item ex_conflict_train = Inr ''Z''"
    by (simp add: ex_timetable_item_def ex_conflict_train_def conflict_train_name_def exception_name_def ex_change_def)
  have kinds: "\<forall>c \<in> set [ex_conflict]. kinds_paced [ex_timetable_item] c"
    by (simp add: kinds_paced_def ex_conflict_def ex_conflict_train_def train_map_of_def mapBy_def ex_timetable_item_def)
  have distinct: "distinct (map tm_id [ex_timetable_item])" "ex_timetable_item \<in> set [ex_timetable_item]" "''Z'' \<noteq> []" by simp_all
  have mem: "ex_conflict \<in> set [ex_conflict]" "ex_conflict_train \<in> set (cf_train_ids ex_conflict)"
    "ct_train_schedule_id ex_conflict_train = tm_id ex_timetable_item"
    by (simp_all add: ex_conflict_def ex_conflict_train_def ex_timetable_item_def)
  show ?thesis
    using selected_conflicts_shown [OF distinct(1,2) paced name distinct(3) kinds mem, of "\<lambda>s. int (length s)" True] by blast
qed

end
