(* ===== verification/TimetableList.thy ===== *)
theory TimetableList
  imports PathProfiles NgeTypes
begin

text \<open>
  The timetable of a scenario as it is listed: the details of the trains with their simulation summaries
  (\<open>modules/timetableItem/helpers/formatTimetableItemWithDetails.ts\<close>), the occurrences of a paced train
  (\<open>Timetable/PacedTrain/hooks/useOccurrences.ts\<close>) and the filters (\<open>Timetable/useFilterTimetableItems.ts\<close>,
  \<open>Timetable/utils.ts\<close>).
\<close>

section \<open>Strings\<close>

text \<open>\<open>toLowerCase\<close> on the characters of the Latin-1 block.\<close>

definition lower_char :: "char \<Rightarrow> char" where
  "lower_char c =
     (let n = (of_char c :: nat) in
      if (65 \<le> n \<and> n \<le> 90) \<or> (192 \<le> n \<and> n \<le> 214) \<or> (216 \<le> n \<and> n \<le> 222) then char_of (n + 32) else c)"

definition js_lower :: "string \<Rightarrow> string" where
  "js_lower s = map lower_char s"

definition js_includes :: "string \<Rightarrow> string \<Rightarrow> bool" where
  "js_includes s t = list_ex (\<lambda>i. starts_with t (drop i s)) [0..<Suc (length s)]"

text \<open>\<open>toFixed\<close>: the nearest decimal with the given number of digits, the larger one when two are as near.\<close>

definition pad_zeros :: "nat \<Rightarrow> string \<Rightarrow> string" where
  "pad_zeros n s = replicate (n - length s) (CHR ''0'') @ s"

definition js_to_fixed :: "nat \<Rightarrow> num \<Rightarrow> string" where
  "js_to_fixed digits x =
     (let n = nat \<lfloor>\<bar>x\<bar> * 10 ^ digits + 1 / 2\<rfloor>;
          text = (if digits = 0 then string_of_nat n
                  else string_of_nat (n div 10 ^ digits) @ ''.'' @ pad_zeros digits (string_of_nat (n mod 10 ^ digits)))
      in (if x < 0 then ''-'' else []) @ text)"

definition NO_BREAK_SPACE :: string where "NO_BREAK_SPACE = [CHR 0xA0]"

datatype length_unit = Meters | Millimeters

definition formatKmValue :: "num \<Rightarrow> length_unit \<Rightarrow> nat \<Rightarrow> string" where
  "formatKmValue v unit digits =
     (let divider = (if unit = Millimeters then 1000000 else 1000) in js_to_fixed digits (v / divider) @ NO_BREAK_SPACE @ ''km'')"

section \<open>Summaries of simulations\<close>

record success_summary =
  su_energy_consumption :: num
  su_length :: num
  su_path_item_respect_margins :: "bool list"
  su_path_item_respect_times :: "bool list"
  su_path_item_times_base :: "num list"
  su_path_item_times_final :: "num list"
  su_path_item_times_provisional :: "num list"
  su_time :: int

datatype summary_result =
    SummarySuccess success_summary
  | PathfindingNotFound string
  | PathfindingFailure
  | SimulationFailed string
  | PathfindingInputError string

record valid_summary =
  vs_duration :: duration
  vs_pathLength :: string
  vs_mechanicalEnergyConsumed :: num
  vs_notHonoredReason :: "not_honored option"
  vs_pathItemTimes :: "num list \<times> num list \<times> num list"
  vs_pathItemRespect :: "bool list \<times> bool list"

datatype simulation_summary = SummaryInvalid string | SummaryValid valid_summary

definition isValid :: "simulation_summary \<Rightarrow> bool" where
  "isValid s = (case s of SummaryValid _ \<Rightarrow> True | SummaryInvalid _ \<Rightarrow> False)"

definition notHonoredReason :: "simulation_summary \<Rightarrow> not_honored option" where
  "notHonoredReason s = (case s of SummaryValid v \<Rightarrow> vs_notHonoredReason v | SummaryInvalid _ \<Rightarrow> None)"

definition isSimulated :: "simulation_summary option \<Rightarrow> bool" where
  "isSimulated summary = (case summary of None \<Rightarrow> False | Some s \<Rightarrow> isValid s \<and> notHonoredReason s \<noteq> Some ScheduleNotHonored)"

definition isScheduledPointsNotHonored :: "success_summary \<Rightarrow> bool" where
  "isScheduledPointsNotHonored s = list_ex (\<lambda>respected. \<not> respected) (su_path_item_respect_times s)"

definition isTooFast :: "success_summary \<Rightarrow> bool" where
  "isTooFast s = list_ex (\<lambda>respected. \<not> respected) (su_path_item_respect_margins s)"

definition extractInvalidReason :: "summary_result \<Rightarrow> string" where
  "extractInvalidReason s =
     (case s of
        PathfindingNotFound error_type \<Rightarrow> error_type
      | PathfindingInputError error_type \<Rightarrow> error_type
      | PathfindingFailure \<Rightarrow> ''pathfinding_failure''
      | SimulationFailed _ \<Rightarrow> ''simulation_failed''
      | SummarySuccess _ \<Rightarrow> ''success'')"

definition formatSuccessfulSummary :: "success_summary \<Rightarrow> simulation_summary" where
  "formatSuccessfulSummary s =
     SummaryValid
       \<lparr>vs_duration = new_duration 0 0 0 (su_time s), vs_pathLength = formatKmValue (su_length s) Millimeters 1,
        vs_mechanicalEnergyConsumed = jouleToKwh (su_energy_consumption s) True,
        vs_notHonoredReason =
          (if isScheduledPointsNotHonored s then Some ScheduleNotHonored else if isTooFast s then Some TrainTooFast else None),
        vs_pathItemTimes = (su_path_item_times_base s, su_path_item_times_provisional s, su_path_item_times_final s),
        vs_pathItemRespect = (su_path_item_respect_margins s, su_path_item_respect_times s)\<rparr>"

definition formatSummary :: "summary_result option \<Rightarrow> simulation_summary option" where
  "formatSummary summary =
     map_option (\<lambda>s. case s of SummarySuccess v \<Rightarrow> formatSuccessfulSummary v | _ \<Rightarrow> SummaryInvalid (extractInvalidReason s)) summary"

section \<open>Details of a train (formatTimetableItemWithDetails.ts)\<close>

record stock_metadata =
  md_detail :: string
  md_family :: string
  md_reference :: string
  md_series :: string
  md_subseries :: string

record light_rolling_stock =
  ls_name :: string
  ls_metadata :: "stock_metadata option"

record simulated_exception = paced_exception +
  sx_summary :: "simulation_summary option"

record listed_paced =
  dp_timeWindow :: duration
  dp_interval :: duration
  dp_exceptions :: "simulated_exception list"

text \<open>The members of the train that are passed on unchanged are kept as the train itself.\<close>

record listed_train =
  dt_props :: timetable_item
  dt_name :: string
  dt_startTime :: date
  dt_stopsCount :: int
  dt_rollingStockName :: string
  dt_speedLimitTag :: "string option"
  dt_labels :: "string list"
  dt_rollingStock :: "light_rolling_stock option"
  dt_paced :: "listed_paced option"
  dt_summary :: "simulation_summary option"

record train_summary_result =
  tr_exceptions :: "summary_result obj"
  tr_train_schedule :: summary_result

definition simulated_exceptions :: "train_summary_result option \<Rightarrow> paced_exception list \<Rightarrow> simulated_exception list" where
  "simulated_exceptions pacedTrainSummary exceptions =
     map (\<lambda>e. paced_exception.extend e
            \<lparr>sx_summary = Option.bind pacedTrainSummary (\<lambda>s. formatSummary (obj_get (tr_exceptions s) (ex_key e)))\<rparr>) exceptions"

definition formatPacedTrainWithDetails ::
  "(string \<Rightarrow> date) \<Rightarrow> (string \<Rightarrow> duration) \<Rightarrow> timetable_item \<Rightarrow> light_rolling_stock option \<Rightarrow> train_summary_result option \<Rightarrow> listed_train" where
  "formatPacedTrainWithDetails parseDate parse pacedTrain rollingStock pacedTrainSummary =
     \<lparr>dt_props = pacedTrain,
      dt_name = ts_train_name pacedTrain,
      dt_startTime = parseDate (ts_start_time pacedTrain),
      dt_stopsCount = intermediateStopsCount (ts_schedule pacedTrain) (ts_path pacedTrain),
      dt_rollingStockName = ts_rolling_stock_name pacedTrain,
      dt_speedLimitTag = ts_speed_limit_tag pacedTrain,
      dt_labels = or_else (ts_labels pacedTrain) [],
      dt_rollingStock = rollingStock,
      dt_paced =
        map_option (\<lambda>paced. \<lparr>dp_timeWindow = parse (pc_time_window paced), dp_interval = parse (pc_interval paced),
                             dp_exceptions = simulated_exceptions pacedTrainSummary (pc_exceptions paced)\<rparr>) (tp_paced pacedTrain),
      dt_summary = formatSummary (map_option tr_train_schedule pacedTrainSummary)\<rparr>"

section \<open>Occurrences of a paced train (useOccurrences.ts)\<close>

record occurrence =
  on_id :: string
  on_trainName :: string
  on_rollingStock :: "light_rolling_stock option"
  on_startTime :: date
  on_stopsCount :: int
  on_disabled :: "bool option"
  on_category :: "train_category option"
  on_index :: "nat option"
  on_changeGroups :: "change_groups option"
  on_summary :: "simulation_summary option"

definition occurrence_stock ::
  "light_rolling_stock list option \<Rightarrow> light_rolling_stock option \<Rightarrow> 'a change_groups_scheme option \<Rightarrow> light_rolling_stock option" where
  "occurrence_stock rollingStockList rollingStock exception =
     (case (Option.bind exception cg_rolling_stock, rollingStockList) of
        (Some (rollingStockName, _), Some stocks) \<Rightarrow> find (\<lambda>rs. ls_name rs = rollingStockName) stocks
      | _ \<Rightarrow> rollingStock)"

definition occurrence_stops :: "int \<Rightarrow> 'a change_groups_scheme option \<Rightarrow> int" where
  "occurrence_stops stopsCount exception =
     (case Option.bind exception cg_path_and_schedule of
        None \<Rightarrow> stopsCount
      | Some p \<Rightarrow> intermediateStopsCount (Some (pas_schedule p)) (pas_path p))"

definition occurrence_category :: "train_category option \<Rightarrow> 'a change_groups_scheme option \<Rightarrow> train_category option" where
  "occurrence_category category exception =
     (case Option.bind exception cg_rolling_stock_category of None \<Rightarrow> category | Some v \<Rightarrow> v)"

definition find_exception :: "simulated_exception list \<Rightarrow> string \<Rightarrow> simulated_exception option result" where
  "find_exception exceptions occurrenceId =
     bind_result (exception_of occurrenceId) (\<lambda>p. Inr (find (\<lambda>e. p (paced_exception.truncate e)) exceptions))"

definition indexed_occurrence ::
  "(string \<Rightarrow> date) \<Rightarrow> light_rolling_stock list option \<Rightarrow> listed_train \<Rightarrow> listed_paced \<Rightarrow> string \<Rightarrow> nat \<Rightarrow> occurrence result" where
  "indexed_occurrence parseDate rollingStockList train paced pacedTrainId i =
     bind_result (formatPacedTrainIdToIndexedOccurrenceId pacedTrainId (of_nat i)) (\<lambda>occurrenceId.
     bind_result (find_exception (dp_exceptions paced) occurrenceId) (\<lambda>exception.
       Inr \<lparr>on_id = occurrenceId,
            on_trainName = or_else (Option.bind exception cg_train_name) (computeOccurrenceName (dt_name train) (of_nat i)),
            on_rollingStock = occurrence_stock rollingStockList (dt_rollingStock train) exception,
            on_startTime =
              (if truthy (Option.bind exception cg_start_time) then parseDate (the (Option.bind exception cg_start_time))
               else computeIndexedOccurrenceStartTime (dt_startTime train) (dp_interval paced) (int i)),
            on_stopsCount = occurrence_stops (dt_stopsCount train) exception,
            on_disabled = Option.bind exception ex_disabled,
            on_category = occurrence_category (ts_category (dt_props train)) exception,
            on_index = Some i,
            on_changeGroups = map_option change_groups.truncate exception,
            on_summary = (case Option.bind exception sx_summary of Some s \<Rightarrow> Some s | None \<Rightarrow> dt_summary train)\<rparr>))"

definition added_occurrence ::
  "(string \<Rightarrow> date) \<Rightarrow> light_rolling_stock list option \<Rightarrow> listed_train \<Rightarrow> string \<Rightarrow> simulated_exception \<Rightarrow> occurrence list result" where
  "added_occurrence parseDate rollingStockList train pacedTrainId e =
     (if ex_occurrence_index e \<noteq> None then Inr []
      else case cg_start_time e of
        None \<Rightarrow> Inl TypeError
      | Some start \<Rightarrow>
          bind_result (formatPacedTrainIdToExceptionId pacedTrainId (ex_key e)) (\<lambda>occurrenceId.
            Inr [\<lparr>on_id = occurrenceId,
                  on_trainName = or_else (cg_train_name e) (dt_name train @ ''/+''),
                  on_rollingStock = occurrence_stock rollingStockList (dt_rollingStock train) (Some e),
                  on_startTime = parseDate start,
                  on_stopsCount = occurrence_stops (dt_stopsCount train) (Some e),
                  on_disabled = None,
                  on_category = occurrence_category (ts_category (dt_props train)) (Some e),
                  on_index = None,
                  on_changeGroups = Some (change_groups.truncate e),
                  on_summary = (case sx_summary e of Some s \<Rightarrow> Some s | None \<Rightarrow> dt_summary train)\<rparr>]))"

definition occurrences ::
  "(string \<Rightarrow> date) \<Rightarrow> light_rolling_stock list option \<Rightarrow> listed_train \<Rightarrow> listed_paced \<Rightarrow> occurrence list result" where
  "occurrences parseDate rollingStockList train paced =
     (let pacedTrainId = formatEditoastIdToPacedTrainId (of_int (tm_id (dt_props train))) in
      bind_result (getOccurrencesNb (dp_timeWindow paced) (dp_interval paced)) (\<lambda>occurrencesCount.
      bind_result (map_result (indexed_occurrence parseDate rollingStockList train paced pacedTrainId) [0..<nat occurrencesCount]) (\<lambda>indexed.
      bind_result (map_result (added_occurrence parseDate rollingStockList train pacedTrainId) (dp_exceptions paced)) (\<lambda>added.
        Inr (sort_key on_startTime (indexed @ concat added))))))"

definition occurrenceCountLabel :: "occurrence list \<Rightarrow> listed_paced \<Rightarrow> int" where
  "occurrenceCountLabel occs paced =
     foldl (\<lambda>acc e. if ex_disabled e = Some True then acc - 1 else acc) (int (length occs)) (dp_exceptions paced)"

section \<open>Filters (Timetable/utils.ts, useFilterTimetableItems.ts)\<close>

definition keepItem :: "string option \<Rightarrow> string list \<Rightarrow> string \<Rightarrow> bool" where
  "keepItem name labels searchString =
     (if searchString = [] then True
      else if \<not> truthy name then False
      else js_includes (js_lower (the name)) (js_lower searchString) \<or> js_includes (js_lower (js_join [] labels)) (js_lower searchString))"

definition specialCodeDictionary :: "string obj" where
  "specialCodeDictionary = [([], ''NO CODE'')]"

definition extractTagCode :: "string option \<Rightarrow> string" where
  "extractTagCode tag =
     (if \<not> truthy tag then ''NO CODE''
      else case obj_get specialCodeDictionary (the tag) of
        Some code \<Rightarrow> code
      | None \<Rightarrow> let matched = rev (takeWhile is_word (rev (the tag))) in if matched \<noteq> [] then matched else the tag)"

definition timetableHasInvalidItem :: "listed_train list \<Rightarrow> bool" where
  "timetableHasInvalidItem items = list_ex (\<lambda>t. case dt_summary t of None \<Rightarrow> False | Some s \<Rightarrow> \<not> isValid s) items"

definition isValidPathfinding :: "simulation_summary option \<Rightarrow> bool" where
  "isValidPathfinding summary =
     (case summary of
        None \<Rightarrow> False
      | Some (SummaryInvalid reason) \<Rightarrow>
          reason \<notin> set [''pathfinding_failure'', ''not_found_in_blocks'', ''not_found_in_routes'', ''not_found_in_tracks'', ''incompatible_constraints'']
      | Some (SummaryValid _) \<Rightarrow> True)"

datatype validity_filter = BothValidities | OnlyValid | OnlyInvalid
datatype honored_filter = BothHonored | OnlyHonored | OnlyNotHonored
datatype type_filter = BothTypes | OnlyPaced | OnlyUnique
datatype category_filter = AllCategories | NoCategory | CategoryCode string

record timetable_filters =
  tf_nameLabel :: string
  tf_rollingStock :: string
  tf_validity :: validity_filter
  tf_honored :: honored_filter
  tf_trainType :: type_filter
  tf_tags :: "string list"
  tf_category :: category_filter

definition no_filters :: timetable_filters where
  "no_filters = \<lparr>tf_nameLabel = [], tf_rollingStock = [], tf_validity = BothValidities, tf_honored = BothHonored, tf_trainType = BothTypes,
     tf_tags = [], tf_category = AllCategories\<rparr>"

fun main_category_name :: "main_category \<Rightarrow> string" where
  "main_category_name HIGH_SPEED_TRAIN = ''HIGH_SPEED_TRAIN''"
| "main_category_name INTERCITY_TRAIN = ''INTERCITY_TRAIN''"
| "main_category_name REGIONAL_TRAIN = ''REGIONAL_TRAIN''"
| "main_category_name NIGHT_TRAIN = ''NIGHT_TRAIN''"
| "main_category_name COMMUTER_TRAIN = ''COMMUTER_TRAIN''"
| "main_category_name FREIGHT_TRAIN = ''FREIGHT_TRAIN''"
| "main_category_name FAST_FREIGHT_TRAIN = ''FAST_FREIGHT_TRAIN''"
| "main_category_name TRAM_TRAIN = ''TRAM_TRAIN''"
| "main_category_name TOURISTIC_TRAIN = ''TOURISTIC_TRAIN''"
| "main_category_name WORK_TRAIN = ''WORK_TRAIN''"

text \<open>The members of a train or of an exception that the filters read.\<close>

record filtered_item =
  fi_name :: string
  fi_labels :: "string list"
  fi_summary :: "simulation_summary option"
  fi_speedLimitTag :: "string option"
  fi_rollingStock :: "light_rolling_stock option"
  fi_category :: "train_category option"

definition validity_kept :: "validity_filter \<Rightarrow> simulation_summary option \<Rightarrow> bool" where
  "validity_kept f summary =
     (f = BothValidities \<or>
      (case summary of None \<Rightarrow> False | Some s \<Rightarrow> (f = OnlyValid \<longrightarrow> isValid s) \<and> (f = OnlyInvalid \<longrightarrow> \<not> isValid s)))"

definition honored_kept :: "honored_filter \<Rightarrow> simulation_summary option \<Rightarrow> bool" where
  "honored_kept f summary =
     (f = BothHonored \<or>
      (case summary of
         None \<Rightarrow> False
       | Some s \<Rightarrow> isValid s \<and> \<not> (f = OnlyHonored \<and> notHonoredReason s \<noteq> None \<or> f = OnlyNotHonored \<and> notHonoredReason s = None)))"

definition stock_kept :: "string \<Rightarrow> light_rolling_stock option \<Rightarrow> bool" where
  "stock_kept f rollingStock =
     (f = [] \<or>
      (case Option.bind rollingStock ls_metadata of
         None \<Rightarrow> False
       | Some m \<Rightarrow> list_ex (\<lambda>v. js_includes (js_lower v) (js_lower f)) [md_detail m, md_family m, md_reference m, md_series m, md_subseries m]))"

definition category_kept :: "category_filter \<Rightarrow> train_category option \<Rightarrow> bool" where
  "category_kept f category =
     (case f of
        AllCategories \<Rightarrow> True
      | NoCategory \<Rightarrow> category = None
      | CategoryCode code \<Rightarrow>
          (case category of None \<Rightarrow> False | Some (MainCategory c) \<Rightarrow> main_category_name c = code | Some (SubCategory c) \<Rightarrow> c = code))"

definition filterTimetableItem :: "timetable_filters \<Rightarrow> filtered_item \<Rightarrow> bool" where
  "filterTimetableItem f item =
     (keepItem (Some (fi_name item)) (fi_labels item) (tf_nameLabel f) \<and>
      validity_kept (tf_validity f) (fi_summary item) \<and>
      honored_kept (tf_honored f) (fi_summary item) \<and>
      (tf_tags f = [] \<or> extractTagCode (fi_speedLimitTag item) \<in> set (tf_tags f)) \<and>
      stock_kept (tf_rollingStock f) (fi_rollingStock item) \<and>
      category_kept (tf_category f) (fi_category item))"

definition model_item :: "listed_train \<Rightarrow> filtered_item" where
  "model_item t =
     \<lparr>fi_name = dt_name t, fi_labels = dt_labels t, fi_summary = dt_summary t, fi_speedLimitTag = dt_speedLimitTag t,
      fi_rollingStock = dt_rollingStock t, fi_category = ts_category (dt_props t)\<rparr>"

definition exception_item :: "light_rolling_stock list option \<Rightarrow> listed_train \<Rightarrow> simulated_exception \<Rightarrow> filtered_item" where
  "exception_item rollingStocks t e =
     \<lparr>fi_name = or_else (cg_train_name e) (dt_name t), fi_labels = or_else (cg_labels e) [], fi_summary = sx_summary e,
      fi_speedLimitTag = or_else (cg_speed_limit_tag e) (dt_speedLimitTag t),
      fi_rollingStock =
        Option.bind (cg_rolling_stock e) (\<lambda>(name, _). Option.bind rollingStocks (find (\<lambda>rs. ls_name rs = name))),
      fi_category = or_else (cg_rolling_stock_category e) (ts_category (dt_props t))\<rparr>"

definition keeps_train :: "light_rolling_stock list option \<Rightarrow> timetable_filters \<Rightarrow> listed_train \<Rightarrow> bool" where
  "keeps_train rollingStocks f t =
     (case dt_paced t of
        None \<Rightarrow> tf_trainType f \<noteq> OnlyPaced \<and> filterTimetableItem f (model_item t)
      | Some paced \<Rightarrow>
          tf_trainType f \<noteq> OnlyUnique \<and>
          list_ex (filterTimetableItem f) (model_item t # map (exception_item rollingStocks t) (dp_exceptions paced)))"

definition filteredTimetableItems :: "light_rolling_stock list option \<Rightarrow> timetable_filters \<Rightarrow> listed_train list \<Rightarrow> listed_train list" where
  "filteredTimetableItems rollingStocks f items = filter (keeps_train rollingStocks f) items"

fun js_uniq :: "'a list \<Rightarrow> 'a list" where
  "js_uniq [] = []"
| "js_uniq (x # xs) = x # js_uniq (filter (\<lambda>y. y \<noteq> x) xs)"

definition item_tags :: "listed_train \<Rightarrow> string list" where
  "item_tags t =
     (case dt_paced t of
        None \<Rightarrow> []
      | Some paced \<Rightarrow> concat (map (\<lambda>e. case cg_speed_limit_tag e of None \<Rightarrow> [] | Some v \<Rightarrow> [extractTagCode v]) (dp_exceptions paced))) @
     [extractTagCode (dt_speedLimitTag t)]"

definition uniqueTags :: "listed_train list \<Rightarrow> string list" where
  "uniqueTags items = js_uniq (concat (map item_tags items))"

end
