(* ===== verification/XmlImport.thy ===== *)
theory XmlImport
  imports TimetableList TimesStops TrackOccupancy
begin

text \<open>
  Import of a railML file (\<open>ImportTimetableItem/helpers\<close>: \<open>parseXML.ts\<close>, \<open>buildStepsFromOcp.ts\<close>,
  \<open>findMostFrequentXmlSchedule.ts\<close>). Trains of a group become one paced train: its model is the most frequent schedule, its
  interval the most frequent interval; the imported trains are matched to the occurrences and the differences become exceptions.

  The document is a tree of elements. The identifiers of \<open>uuid\<close> are drawn from a supply, counted by a natural number. Parsing and
  printing of dates and the calendar of the local time zone are parameters; an invalid date is undefined.
\<close>

section \<open>Documents\<close>

datatype xml = Elem (xml_tag: string) (xml_attributes: "string obj") (xml_children: "xml list")

definition getAttribute :: "xml \<Rightarrow> string \<Rightarrow> string option" where
  "getAttribute e name = obj_get (xml_attributes e) name"

fun descendants :: "xml \<Rightarrow> xml list" where
  "descendants (Elem _ _ cs) = concat (map (\<lambda>c. c # descendants c) cs)"

definition getElementsByTagName :: "xml \<Rightarrow> string \<Rightarrow> xml list" where
  "getElementsByTagName e name = filter (\<lambda>d. xml_tag d = name) (descendants e)"

text \<open>The same on the whole document, with its root.\<close>

definition documentElements :: "xml \<Rightarrow> string \<Rightarrow> xml list" where
  "documentElements doc name = filter (\<lambda>d. xml_tag d = name) (doc # descendants doc)"

definition getElementById :: "xml \<Rightarrow> string \<Rightarrow> xml option" where
  "getElementById doc i = find (\<lambda>d. getAttribute d ''id'' = Some i) (doc # descendants doc)"

definition js_head :: "'a list \<Rightarrow> 'a option" where
  "js_head xs = (case xs of [] \<Rightarrow> None | x # _ \<Rightarrow> Some x)"

definition scheduled_times :: "xml \<Rightarrow> xml option" where
  "scheduled_times e =
     (case find (\<lambda>d. xml_tag d = ''times'' \<and> getAttribute d ''scope'' = Some ''scheduled'') (descendants e) of
        Some d \<Rightarrow> Some d | None \<Rightarrow> find (\<lambda>d. xml_tag d = ''times'') (descendants e))"

definition or_string :: "string option \<Rightarrow> string option \<Rightarrow> string option" where
  "or_string a b = (if truthy a then a else b)"

section \<open>Steps of a train (buildStepsFromOcp.ts)\<close>

definition cleanTimeFormat :: "string \<Rightarrow> string" where
  "cleanTimeFormat time = (if 2 \<le> length time \<and> drop (length time - 2) time = ''.0'' then take (length time - 2) time else time)"

record cich_value =
  cv_ciCode :: "num option"
  cv_chCode :: "string option"

text \<open>The clock of the browser: dates of strings, days added in the calendar, and the day part of the ISO format.\<close>

record clock =
  ck_parse :: "string \<Rightarrow> date option"
  ck_add_days :: "date \<Rightarrow> int \<Rightarrow> date"
  ck_iso_day :: "date \<Rightarrow> string"
  ck_iso :: "date \<Rightarrow> string"

record ocp_step =
  oc_uic :: "num option"
  oc_chCode :: "string option"
  oc_name :: string
  oc_arrivalDate :: "date option"
  oc_departureDate :: "date option"
  oc_stopFor :: "int option"

text \<open>The day offset and the departure of the previous step. A number that is \<open>NaN\<close> is undefined: it is smaller than no other.\<close>

definition next_day :: "num option \<Rightarrow> num option \<Rightarrow> bool" where
  "next_day previous current =
     (case (previous, current) of (Some p, Some c) \<Rightarrow> p \<noteq> 0 \<and> c < p | _ \<Rightarrow> False)"

definition stop_for :: "string option \<Rightarrow> string \<Rightarrow> string \<Rightarrow> date option \<Rightarrow> date option \<Rightarrow> bool \<Rightarrow> int option result" where
  "stop_for ocpType arrivalTime departureTime arrivalDate departureDate isLastOcp =
     (if ocpType = Some ''stop'' then
        if arrivalTime \<noteq> [] \<and> departureTime \<noteq> [] then
          (case (arrivalDate, departureDate) of
             (Some a, Some d) \<Rightarrow> Inr (Some (js_round (of_int (d - a) / 1000)))
           | _ \<Rightarrow> Inl OutOfModel)
        else Inr (Some 0)
      else if ocpType = Some ''pass'' \<and> isLastOcp then Inr (Some 0)
      else Inr None)"

definition CI_PREFIX :: string where "CI_PREFIX = ''87''"

definition uic_of :: "num option \<Rightarrow> num option" where
  "uic_of ciCode = (case ciCode of None \<Rightarrow> None | Some c \<Rightarrow> js_number (CI_PREFIX @ js_num_string c))"

definition ocp_step_of ::
  "clock \<Rightarrow> cich_value obj \<Rightarrow> date \<Rightarrow> int \<times> num option \<Rightarrow> bool \<Rightarrow> xml \<Rightarrow> ((int \<times> num option) \<times> ocp_step option) result" where
  "ocp_step_of clock1 cichDict startDate st isLastOcp ocpTT =
     (let (dayOffset, previousDeparture) = st;
          ocpRef = getAttribute ocpTT ''ocpRef'';
          times = scheduled_times ocpTT;
          ocpType = getAttribute ocpTT ''ocpType'';
          rawDeparture = the (or_string (Option.bind times (\<lambda>t. getAttribute t ''departure'')) (Some []));
          rawArrival = (if ocpType = Some ''pass'' then rawDeparture else the (or_string (Option.bind times (\<lambda>t. getAttribute t ''arrival'')) (Some [])));
          arrivalTime = cleanTimeFormat rawArrival;
          departureTime = cleanTimeFormat rawDeparture
      in if \<not> truthy ocpRef then Inr (st, None)
         else
           let current = time2sec departureTime;
               day = ck_iso_day clock1 (ck_add_days clock1 startDate dayOffset);
               later = next_day previousDeparture current;
               shift = map_option (\<lambda>d. if later then ck_add_days clock1 d 1 else d);
               arrivalDate = shift (ck_parse clock1 (day @ ''T'' @ arrivalTime));
               departureDate = shift (ck_parse clock1 (day @ ''T'' @ departureTime))
           in case obj_get cichDict (the ocpRef) of
                None \<Rightarrow> Inl TypeError
              | Some point \<Rightarrow>
                  bind_result (stop_for ocpType arrivalTime departureTime arrivalDate departureDate isLastOcp) (\<lambda>stopFor.
                    Inr ((if later then dayOffset + 1 else dayOffset, current),
                         Some \<lparr>oc_uic = uic_of (cv_ciCode point), oc_chCode = cv_chCode point, oc_name = the ocpRef,
                               oc_arrivalDate = arrivalDate, oc_departureDate = departureDate, oc_stopFor = stopFor\<rparr>)))"

fun ocp_steps :: "clock \<Rightarrow> cich_value obj \<Rightarrow> date \<Rightarrow> int \<times> num option \<Rightarrow> xml list \<Rightarrow> ocp_step list result" where
  "ocp_steps clock1 cichDict startDate st [] = Inr []"
| "ocp_steps clock1 cichDict startDate st (e # es) =
     bind_result (ocp_step_of clock1 cichDict startDate st (es = []) e) (\<lambda>(st', step).
     bind_result (ocp_steps clock1 cichDict startDate st' es) (\<lambda>steps. Inr (case step of None \<Rightarrow> steps | Some s \<Rightarrow> s # steps)))"

text \<open>A code that is not a whole number is outside the model of locations.\<close>

definition step_item :: "string \<Rightarrow> ocp_step \<Rightarrow> path_item result" where
  "step_item i step =
     (case oc_uic step of
        Some uic \<Rightarrow>
          if of_int \<lfloor>uic\<rfloor> = uic then Inr \<lparr>pi_id = i, pi_location = OpPart (OpUic \<lfloor>uic\<rfloor> (oc_chCode step)) None\<rparr> else Inl OutOfModel
      | None \<Rightarrow> Inr \<lparr>pi_id = i, pi_location = OpPart (OpTrigram (oc_name step) (oc_chCode step)) None\<rparr>)"

text \<open>The path and the schedule; the first step has no entry in the schedule. A missing date has no duration.\<close>

definition schedule_entry :: "(duration \<Rightarrow> string) \<Rightarrow> date option \<Rightarrow> string \<Rightarrow> ocp_step \<Rightarrow> schedule_item result" where
  "schedule_entry print departure i step =
     (case (oc_arrivalDate step, departure) of
        (Some a, Some d) \<Rightarrow>
          Inr \<lparr>si_at = i, si_arrival = Some (print (subtractDate a d)),
               si_stop_for = map_option (\<lambda>s. ''PT'' @ string_of_int s @ ''S'') (oc_stopFor step), si_reception_signal = None\<rparr>
      | _ \<Rightarrow> Inl OutOfModel)"

definition buildSteps ::
  "clock \<Rightarrow> (duration \<Rightarrow> string) \<Rightarrow> (nat \<Rightarrow> string) \<Rightarrow> nat \<Rightarrow> xml list \<Rightarrow> cich_value obj \<Rightarrow> date \<Rightarrow>
   (path_item list \<times> schedule_item list) result" where
  "buildSteps clock1 print uuid n ocpTTs cichDict startDate =
     bind_result (ocp_steps clock1 cichDict startDate (0, None) ocpTTs) (\<lambda>steps.
       case steps of
         [] \<Rightarrow> Inl TypeError
       | first # _ \<Rightarrow>
           bind_result (map_result (\<lambda>i. step_item (uuid (n + i)) (steps ! i)) [0..<length steps]) (\<lambda>path.
           bind_result (map_result (\<lambda>i. schedule_entry print (oc_departureDate first) (uuid (n + i)) (steps ! i)) [1..<length steps]) (\<lambda>schedule.
             Inr (path, schedule))))"

section \<open>Most frequent schedule (findMostFrequentXmlSchedule.ts)\<close>

text \<open>The key of a schedule: what \<open>JSON.stringify\<close> prints of its steps, which is the same for two schedules exactly when the steps
  are. The steps are the path items, with their identifiers, and the times.\<close>

text \<open>Imported trains always have a schedule.\<close>

type_synonym relative_step = "path_item option \<times> string option \<times> string option"

definition getRelativeStepsTimeAndNames :: "'a train_schedule_scheme \<Rightarrow> relative_step list" where
  "getRelativeStepsTimeAndNames t =
     map (\<lambda>step. (find (\<lambda>p. pi_id p = si_at step) (ts_path t), si_arrival step, si_stop_for step)) (or_else (ts_schedule t) [])"

definition count_schedule ::
  "(relative_step list \<times> nat \<times> train_schedule) list \<Rightarrow> train_schedule \<Rightarrow> (relative_step list \<times> nat \<times> train_schedule) list" where
  "count_schedule m t =
     (let k = getRelativeStepsTimeAndNames t in
      case map_of m k of
        Some (n, s) \<Rightarrow> AList.update k (n + 1, s) m
      | None \<Rightarrow> m @ [(k, 1, t)])"

definition more_frequent :: "train_schedule option \<times> nat \<Rightarrow> nat \<times> train_schedule \<Rightarrow> train_schedule option \<times> nat" where
  "more_frequent best entry = (if fst entry > snd best then (Some (snd entry), fst entry) else best)"

definition findMostFrequentScheduleInPacedTrain :: "train_schedule list \<Rightarrow> train_schedule option \<times> nat" where
  "findMostFrequentScheduleInPacedTrain schedules = foldl more_frequent (None, 0) (map snd (foldl count_schedule [] schedules))"

section \<open>Paced trains (parseXML.ts)\<close>

definition extractCiChCode :: "string \<Rightarrow> cich_value" where
  "extractCiChCode code =
     (let parts = js_split (CHR ''/'') code in \<lparr>cv_ciCode = Option.bind (js_at parts 0) js_number, cv_chCode = js_at parts 1\<rparr>)"

definition uniqueTrainToPacedTrain ::
  "(duration \<Rightarrow> string) \<Rightarrow> train_schedule \<Rightarrow> string \<Rightarrow> duration \<Rightarrow> duration \<Rightarrow> paced_train" where
  "uniqueTrainToPacedTrain print uniqueTrain pacedTrainId intervalDuration timeWindowDuration =
     train_schedule.extend (uniqueTrain\<lparr>ts_train_name := pacedTrainId\<rparr>)
       \<lparr>pt_paced = \<lparr>pc_time_window = print timeWindowDuration, pc_interval = print intervalDuration, pc_exceptions = []\<rparr>\<rparr>"

definition train_part_names :: "xml list \<Rightarrow> string obj" where
  "train_part_names trains =
     foldl (\<lambda>m train.
         case Option.bind (js_head (getElementsByTagName train ''trainPartRef'')) (\<lambda>p. getAttribute p ''ref'') of
           Some ref \<Rightarrow> if ref \<noteq> [] then obj_set m ref (the (or_string (getAttribute train ''name'') (Some []))) else m
         | None \<Rightarrow> m) [] trains"

definition mapTrainNames :: "train_schedule list \<Rightarrow> xml list \<Rightarrow> train_schedule list" where
  "mapTrainNames uniqueTrains trains =
     map (\<lambda>t. t\<lparr>ts_train_name := the (or_string (obj_get (train_part_names trains) (ts_train_name t)) (Some (ts_train_name t)))\<rparr>) uniqueTrains"

text \<open>An interval in minutes, rounded to tens above five minutes and to one minute at least.\<close>

definition rounded_minutes :: "num \<Rightarrow> int" where
  "rounded_minutes rawMin = (if rawMin > 5 then js_round (rawMin / 10) * 10 else if rawMin \<ge> 1 then js_round rawMin else 1)"

definition count_interval :: "(int \<times> nat) list \<Rightarrow> int \<Rightarrow> (int \<times> nat) list" where
  "count_interval m minutes = AList.update minutes (case map_of m minutes of None \<Rightarrow> 1 | Some c \<Rightarrow> c + 1) m"

definition more_frequent_interval :: "int \<times> nat \<Rightarrow> int \<times> nat \<Rightarrow> int \<times> nat" where
  "more_frequent_interval best entry =
     (let (minutes, count) = entry in
      if count > snd best then (minutes, count) else if count = snd best \<and> minutes < fst best then (minutes, snd best) else best)"

definition getMostFrequentInterval :: "(string \<Rightarrow> date) \<Rightarrow> 'a train_schedule_scheme list \<Rightarrow> duration" where
  "getMostFrequentInterval parseDate schedules =
     (let departureTimes = js_sort (\<lambda>a b. a - b) (map (\<lambda>s. parseDate (ts_start_time s)) schedules);
          minutes = map (\<lambda>i. rounded_minutes (duration_total (subtractDate (departureTimes ! i) (departureTimes ! (i - 1))) Minute))
                      [1..<length departureTimes]
      in new_duration 0 (fst (foldl more_frequent_interval (0, 0) (foldl count_interval [] minutes))) 0 0)"

text \<open>The imported train that is nearest to an occurrence, within a quarter of the interval. The difference before the first
  candidate is infinite.\<close>

definition nearer ::
  "(string \<Rightarrow> date) \<Rightarrow> duration \<Rightarrow> date \<Rightarrow> (train_schedule \<times> num) option \<Rightarrow> train_schedule \<Rightarrow> (train_schedule \<times> num) option" where
  "nearer parseDate interval start best schedule =
     (let difference = \<bar>duration_total (subtractDate start (parseDate (ts_start_time schedule))) Minute\<bar> in
      if difference \<le> duration_total interval Minute / 4 \<and> (case best of None \<Rightarrow> True | Some (_, m) \<Rightarrow> difference < m)
      then Some (schedule, difference) else best)"

definition bestCandidate :: "(string \<Rightarrow> date) \<Rightarrow> duration \<Rightarrow> date \<Rightarrow> train_schedule list \<Rightarrow> train_schedule option" where
  "bestCandidate parseDate interval start schedules = map_option fst (foldl (nearer parseDate interval start) None schedules)"

definition exception_from :: "change_groups \<Rightarrow> string \<Rightarrow> nat option \<Rightarrow> bool option \<Rightarrow> paced_exception" where
  "exception_from groups key index disabled = change_groups.extend groups (paced_exception.fields key index disabled)"

record matching =
  mt_keys :: "string list"
  mt_exceptions :: "paced_exception list"
  mt_next :: nat

definition match_occurrence ::
  "(string \<Rightarrow> duration) \<Rightarrow> (string \<Rightarrow> date) \<Rightarrow> (nat \<Rightarrow> string) \<Rightarrow> train_schedule list \<Rightarrow> duration \<Rightarrow> date \<Rightarrow> paced_train \<Rightarrow>
   matching \<Rightarrow> nat \<Rightarrow> matching result" where
  "match_occurrence parse parseDate uuid byTime interval first original st index =
     (let start = addDurationToDate first (Duration (int index * dur_ms interval));
          available = filter (\<lambda>s. ts_start_time s \<notin> set (mt_keys st)) byTime
      in case bestCandidate parseDate interval start available of
           Some best \<Rightarrow>
             bind_result (generatePacedTrainException parse parseDate best original (Some (int index))) (\<lambda>groups.
               let clean = groups\<lparr>cg_train_name := None\<rparr>; st' = st\<lparr>mt_keys := ts_start_time best # mt_keys st\<rparr> in
               Inr (if clean \<noteq> no_groups
                    then st'\<lparr>mt_exceptions := mt_exceptions st @ [exception_from clean (uuid (mt_next st)) (Some index) None], mt_next := mt_next st + 1\<rparr>
                    else st'))
         | None \<Rightarrow>
             Inr (st\<lparr>mt_exceptions := mt_exceptions st @ [exception_from no_groups (uuid (mt_next st)) (Some index) (Some True)],
                     mt_next := mt_next st + 1\<rparr>))"

definition add_unmatched ::
  "(string \<Rightarrow> duration) \<Rightarrow> (string \<Rightarrow> date) \<Rightarrow> (nat \<Rightarrow> string) \<Rightarrow> paced_train \<Rightarrow> matching \<Rightarrow> train_schedule \<Rightarrow> matching result" where
  "add_unmatched parse parseDate uuid original st schedule =
     (if ts_start_time schedule \<in> set (mt_keys st) then Inr st
      else bind_result (generatePacedTrainException parse parseDate schedule original None) (\<lambda>groups.
             Inr (st\<lparr>mt_exceptions := mt_exceptions st @ [exception_from (groups\<lparr>cg_train_name := None\<rparr>) (uuid (mt_next st)) None None],
                     mt_next := mt_next st + 1\<rparr>)))"

definition by_departure :: "(string \<Rightarrow> date) \<Rightarrow> 'a train_schedule_scheme \<Rightarrow> 'a train_schedule_scheme \<Rightarrow> int" where
  "by_departure parseDate a b = parseDate (ts_start_time a) - parseDate (ts_start_time b)"

text \<open>The number of occurrences that the imported trains are matched to.\<close>

definition expected_occurrences :: "date \<Rightarrow> date \<Rightarrow> duration \<Rightarrow> int" where
  "expected_occurrences first last1 interval =
     js_round (duration_total (subtractDate last1 first) Minute / duration_total interval Minute) + 1"

definition reconcilePacedTrainOccurrences ::
  "(string \<Rightarrow> duration) \<Rightarrow> (duration \<Rightarrow> string) \<Rightarrow> (string \<Rightarrow> date) \<Rightarrow> (nat \<Rightarrow> string) \<Rightarrow> nat \<Rightarrow>
   string \<Rightarrow> train_schedule list \<Rightarrow> train_schedule \<Rightarrow> duration \<Rightarrow> (nat \<times> train_payload option) result" where
  "reconcilePacedTrainOccurrences parse print parseDate uuid n pacedTrainId imported model interval =
     (if length imported < 2 then Inr (n, None)
      else
        let byTime = js_sort (by_departure parseDate) imported;
            first = parseDate (ts_start_time (hd byTime));
            last1 = parseDate (ts_start_time (last byTime));
            window = duration_add (subtractDate last1 first) interval;
            original = uniqueTrainToPacedTrain print model pacedTrainId interval window;
            st = \<lparr>mt_keys = [], mt_exceptions = [], mt_next = n\<rparr>
        in bind_result (fold_result (match_occurrence parse parseDate uuid byTime interval first original) st
                          [0..<nat (expected_occurrences first last1 interval)]) (\<lambda>st1.
           bind_result (fold_result (add_unmatched parse parseDate uuid original) st1 byTime) (\<lambda>st2.
             Inr (mt_next st2,
                  Some (train_schedule.extend (train_schedule.truncate original)
                         (train_payload.fields (Some ((pt_paced original)\<lparr>pc_exceptions := mt_exceptions st2\<rparr>))))))))"

section \<open>Documents of trains (parseXML)\<close>

definition add_ocp :: "cich_value obj \<Rightarrow> xml \<Rightarrow> cich_value obj" where
  "add_ocp dict ocp =
     (let i = getAttribute ocp ''id''; code = or_string (getAttribute ocp ''code'') (getAttribute ocp ''abbrevation'') in
      if truthy i \<and> truthy code then obj_set dict (the i) (extractCiChCode (the code)) else dict)"

definition localCichDict :: "xml \<Rightarrow> cich_value obj" where
  "localCichDict doc = foldl add_ocp [] (concat (map (\<lambda>i. getElementsByTagName i ''ocp'') (documentElements doc ''infrastructure'')))"

text \<open>The selector \<open>trainOrder vehicleRef\<close>, for a formation that is not itself inside of a \<open>trainOrder\<close>.\<close>

fun vehicle_refs :: "bool \<Rightarrow> xml \<Rightarrow> xml list" where
  "vehicle_refs inOrder (Elem t _ cs) =
     concat (map (\<lambda>c. (if (inOrder \<or> t = ''trainOrder'') \<and> xml_tag c = ''vehicleRef'' then [c] else []) @ vehicle_refs (inOrder \<or> t = ''trainOrder'') c) cs)"

definition rolling_stock_of :: "xml \<Rightarrow> string option \<Rightarrow> string option" where
  "rolling_stock_of doc formationRef =
     Option.bind formationRef (\<lambda>ref.
     Option.bind (getElementById doc ref) (\<lambda>formation.
     Option.bind (js_head (vehicle_refs False formation)) (\<lambda>vehicleRef.
     Option.bind (or_string (getAttribute vehicleRef ''vehicleRef'') None) (\<lambda>i.
     Option.bind (getElementById doc i) (\<lambda>vehicle. or_string (getAttribute vehicle ''name'') None)))))"

text \<open>The departure as the template of the start time prints it, also where it is missing.\<close>

definition printed_departure :: "xml \<Rightarrow> string" where
  "printed_departure firstOcpTT =
     (case scheduled_times firstOcpTT of
        None \<Rightarrow> ''undefined''
      | Some t \<Rightarrow> (case getAttribute t ''departure'' of None \<Rightarrow> ''null'' | Some d \<Rightarrow> cleanTimeFormat d))"

definition part_train ::
  "clock \<Rightarrow> (duration \<Rightarrow> string) \<Rightarrow> (nat \<Rightarrow> string) \<Rightarrow> xml \<Rightarrow> cich_value obj \<Rightarrow> string \<Rightarrow> nat \<Rightarrow> xml \<Rightarrow> train_schedule result" where
  "part_train clock1 print uuid doc cichDict startDate n train =
     (let ocpSteps = getElementsByTagName train ''ocpTT'';
          formationRef = Option.bind (js_head (getElementsByTagName train ''formationTT'')) (\<lambda>f. getAttribute f ''formationRef'');
          rollingStockName = rolling_stock_of doc (if getElementsByTagName train ''formationTT'' = [] then Some ''undefined'' else formationRef)
      in case ocpSteps of
           [] \<Rightarrow> Inl TypeError
         | firstOcpTT # _ \<Rightarrow>
             case ck_parse clock1 startDate of
               None \<Rightarrow>
                 Inl (if list_ex (\<lambda>e. truthy (getAttribute e ''ocpRef'')) ocpSteps then JSError ''Invalid time value'' else TypeError)
             | Some start \<Rightarrow>
                 bind_result (buildSteps clock1 print uuid n ocpSteps cichDict start) (\<lambda>(path, schedule).
                   case ck_parse clock1 (startDate @ '' '' @ printed_departure firstOcpTT) of
                        None \<Rightarrow> Inl (JSError ''Invalid time value'')
                      | Some d \<Rightarrow>
                          Inr \<lparr>ts_train_name = the (or_string (or_string (getAttribute train ''trainNumber'') (getAttribute train ''id'')) (Some [])),
                               ts_start_time = ck_iso clock1 d,
                               ts_rolling_stock_name = the (or_string (or_string rollingStockName formationRef) (Some [])),
                               ts_comfort = None, ts_constraint_distribution = STANDARD, ts_initial_speed = None, ts_labels = None,
                               ts_margins = None, ts_options = None, ts_path = path, ts_power_restrictions = None,
                               ts_schedule = Some schedule, ts_speed_limit_tag = None, ts_category = None\<rparr>))"

record parsed_parts =
  pp_next :: nat
  pp_trains :: "train_schedule list"
  pp_byPart :: "train_schedule obj"

definition add_part ::
  "clock \<Rightarrow> (duration \<Rightarrow> string) \<Rightarrow> (nat \<Rightarrow> string) \<Rightarrow> xml \<Rightarrow> cich_value obj \<Rightarrow> string \<Rightarrow> parsed_parts \<Rightarrow> xml \<Rightarrow> parsed_parts result" where
  "add_part clock1 print uuid doc cichDict startDate st train =
     bind_result (part_train clock1 print uuid doc cichDict startDate (pp_next st) train) (\<lambda>t.
       Inr \<lparr>pp_next = pp_next st + length (ts_path t), pp_trains = pp_trains st @ [t],
            pp_byPart = obj_set (pp_byPart st) (the (or_string (getAttribute train ''id'') (Some []))) t\<rparr>)"

definition trains_by_id :: "xml \<Rightarrow> xml obj" where
  "trains_by_id doc =
     foldl (\<lambda>m train. case getAttribute train ''id'' of Some i \<Rightarrow> if i \<noteq> [] then obj_set m i train else m | None \<Rightarrow> m) []
       (documentElements doc ''train'')"

text \<open>The schedules of a group: of the trains it refers to, the train part of each. Groups are visited in the order of the document,
  for identifiers that are not whole numbers.\<close>

definition group_trains :: "xml \<Rightarrow> train_schedule obj \<Rightarrow> xml \<Rightarrow> train_schedule list" where
  "group_trains doc byPart trainGroup =
     List.map_filter (\<lambda>trainRef.
         Option.bind (or_string (getAttribute trainRef ''ref'') None) (\<lambda>trainId.
         Option.bind (obj_get (trains_by_id doc) trainId) (\<lambda>train.
         Option.bind (js_head (getElementsByTagName train ''trainPartRef'')) (\<lambda>part.
         Option.bind (or_string (getAttribute part ''ref'') None) (obj_get byPart)))))
       (getElementsByTagName trainGroup ''trainRef'')"

definition groupedTrains :: "xml \<Rightarrow> train_schedule obj \<Rightarrow> train_schedule list obj" where
  "groupedTrains doc byPart =
     foldl (\<lambda>m g. obj_set m (case getAttribute g ''id'' of None \<Rightarrow> ''null'' | Some i \<Rightarrow> i) (group_trains doc byPart g)) []
       (documentElements doc ''trainGroup'')"

definition import_group ::
  "(string \<Rightarrow> duration) \<Rightarrow> (duration \<Rightarrow> string) \<Rightarrow> (string \<Rightarrow> date) \<Rightarrow> (nat \<Rightarrow> string) \<Rightarrow> nat \<times> train_payload list \<Rightarrow>
   string \<times> train_schedule list \<Rightarrow> (nat \<times> train_payload list) result" where
  "import_group parse print parseDate uuid st entry =
     (let (n, imported) = st; (pacedTrainId, schedules) = entry in
      case fst (findMostFrequentScheduleInPacedTrain schedules) of
        None \<Rightarrow> Inr st
      | Some model \<Rightarrow>
          bind_result (reconcilePacedTrainOccurrences parse print parseDate uuid n pacedTrainId schedules model
                         (getMostFrequentInterval parseDate schedules)) (\<lambda>(n', train).
            Inr (n', imported @ (case train of None \<Rightarrow> [] | Some t \<Rightarrow> [t]))))"

definition unique_payload :: "train_schedule \<Rightarrow> train_payload" where
  "unique_payload t = train_schedule.extend t (train_payload.fields None)"

text \<open>The paced trains of the groups, and the trains whose name is not that of a grouped train.\<close>

definition import_trains ::
  "(string \<Rightarrow> duration) \<Rightarrow> (duration \<Rightarrow> string) \<Rightarrow> (string \<Rightarrow> date) \<Rightarrow> (nat \<Rightarrow> string) \<Rightarrow> nat \<Rightarrow>
   train_schedule list obj \<Rightarrow> train_schedule list \<Rightarrow> xml list \<Rightarrow> train_payload list result" where
  "import_trains parse print parseDate uuid n pacedTrains trainSchedules trains =
     bind_result (fold_result (import_group parse print parseDate uuid) (n, []) pacedTrains) (\<lambda>(_, importedPacedTrains).
       let grouped = map ts_train_name (concat (map snd pacedTrains));
           uniqueTrains = filter (\<lambda>t. ts_train_name t \<notin> set grouped) trainSchedules
       in Inr (importedPacedTrains @ map unique_payload (mapTrainNames uniqueTrains trains)))"

definition parseXML ::
  "clock \<Rightarrow> (string \<Rightarrow> duration) \<Rightarrow> (duration \<Rightarrow> string) \<Rightarrow> (string \<Rightarrow> date) \<Rightarrow> (nat \<Rightarrow> string) \<Rightarrow> xml \<Rightarrow> train_payload list result" where
  "parseXML clock1 parse print parseDate uuid doc =
     (case or_string (Option.bind (js_head (documentElements doc ''timetablePeriod'')) (\<lambda>p. getAttribute p ''startDate'')) None of
        None \<Rightarrow> Inl (JSError ''Start Date not found in the timetablePeriod.'')
      | Some startDate \<Rightarrow>
          bind_result (fold_result (add_part clock1 print uuid doc (localCichDict doc) startDate)
                         \<lparr>pp_next = 0, pp_trains = [], pp_byPart = []\<rparr> (documentElements doc ''trainPart'')) (\<lambda>parts.
            import_trains parse print parseDate uuid (pp_next parts) (groupedTrains doc (pp_byPart parts)) (pp_trains parts)
              (documentElements doc ''train'')))"

definition locallyProcessXmlFile ::
  "clock \<Rightarrow> (string \<Rightarrow> duration) \<Rightarrow> (duration \<Rightarrow> string) \<Rightarrow> (string \<Rightarrow> date) \<Rightarrow> (nat \<Rightarrow> string) \<Rightarrow> (string \<Rightarrow> xml) \<Rightarrow> string \<Rightarrow>
   train_payload list result" where
  "locallyProcessXmlFile clock1 parse print parseDate uuid domParser fileContent =
     (let doc = domParser fileContent in
      if documentElements doc ''parsererror'' \<noteq> [] then Inl (JSError ''Invalid XML'') else parseXML clock1 parse print parseDate uuid doc)"

end
