(* ===== verification/TimetableListProperties.thy ===== *)
theory TimetableListProperties
  imports TimetableList SpaceTimeChartProperties "HOL-Library.Multiset"
begin

text \<open>
  The list of the occurrences of a paced train: one entry per index and per added exception, in the order of their start, with the
  start and the flag of the exception. The number that is displayed is the number of occurrences that run.
\<close>

lemma find_exception_indexed:
  "find_exception es (formatEditoastIdToIndexedOccurrenceId (of_int n) (of_int (int i))) =
     Inr (find (\<lambda>e. ex_occurrence_index e = Some i) es)"
proof -
  have eq: "(of_nat j = (of_int (int i) :: num)) \<longleftrightarrow> j = i" for j by (metis of_int_of_nat_eq of_nat_eq_iff)
  have "(\<lambda>e. map_option of_nat (ex_occurrence_index (paced_exception.truncate e)) = Some (of_int (int i) :: num)) =
      (\<lambda>e :: simulated_exception. ex_occurrence_index e = Some i)"
    by (rule ext) (auto simp: paced_exception.defs map_option_eq_Some eq simp del: of_int_of_nat_eq of_nat_eq_iff)
  then show ?thesis by (simp add: find_exception_def exception_of_def format_kinds extract_indexed del: of_int_of_nat_eq)
qed

text \<open>The start of an occurrence and whether it is disabled.\<close>

definition exception_at :: "simulated_exception list \<Rightarrow> nat \<Rightarrow> simulated_exception option" where
  "exception_at es i = find (\<lambda>e. ex_occurrence_index e = Some i) es"

definition start_at :: "(string \<Rightarrow> date) \<Rightarrow> listed_train \<Rightarrow> listed_paced \<Rightarrow> nat \<Rightarrow> date" where
  "start_at parseDate train paced i =
     (let start = Option.bind (exception_at (dp_exceptions paced) i) cg_start_time in
      if truthy start then parseDate (the start) else dt_startTime train + int i * dur_ms (dp_interval paced))"

definition disabled_at :: "listed_paced \<Rightarrow> nat \<Rightarrow> bool" where
  "disabled_at paced i \<longleftrightarrow> Option.bind (exception_at (dp_exceptions paced) i) ex_disabled = Some True"

definition additions :: "listed_paced \<Rightarrow> simulated_exception list" where
  "additions paced = filter (\<lambda>e. ex_occurrence_index e = None) (dp_exceptions paced)"

definition entry :: "occurrence \<Rightarrow> nat option \<times> date \<times> bool" where
  "entry occ = (on_index occ, on_startTime occ, on_disabled occ = Some True)"

lemma indexed_occurrence_entry:
  "\<exists>occ. indexed_occurrence parseDate stocks train paced (formatEditoastIdToPacedTrainId (of_int n)) i = Inr occ \<and>
     entry occ = (Some i, start_at parseDate train paced i, disabled_at paced i)"
proof -
  have "formatPacedTrainIdToIndexedOccurrenceId (formatEditoastIdToPacedTrainId (of_int n)) (of_nat i) =
      Inr (formatEditoastIdToIndexedOccurrenceId (of_int n) (of_int (int i)))"
    by (simp add: formatPacedTrainIdToIndexedOccurrenceId_def extract_paced)
  then show ?thesis
    unfolding indexed_occurrence_def
    by (simp add: find_exception_indexed entry_def start_at_def disabled_at_def exception_at_def Let_def computeIndexedOccurrenceStartTime_def
        duration_defs del: of_int_of_nat_eq)
qed

lemma added_occurrence_entry:
  assumes "ex_occurrence_index e = None \<Longrightarrow> cg_start_time e \<noteq> None"
  shows "\<exists>occs. added_occurrence parseDate stocks train (formatEditoastIdToPacedTrainId (of_int n)) e = Inr occs \<and>
    map entry occs = (if ex_occurrence_index e = None then [(None, parseDate (the (cg_start_time e)), False)] else [])"
  using assms by (auto simp: added_occurrence_def formatPacedTrainIdToExceptionId_def extract_paced entry_def)

lemma map_result_entries:
  assumes "\<And>x. x \<in> set xs \<Longrightarrow> \<exists>y. f x = Inr y \<and> g y = h x"
  shows "\<exists>ys. map_result f xs = Inr ys \<and> map g ys = map h xs"
  using assms by (induction xs) fastforce+

lemma occurrences_listed:
  assumes "getOccurrencesNb (dp_timeWindow paced) (dp_interval paced) = Inr n"
    and "\<forall>e \<in> set (dp_exceptions paced). ex_occurrence_index e = None \<longrightarrow> cg_start_time e \<noteq> None"
  shows "\<exists>occs. occurrences parseDate stocks train paced = Inr occs \<and> sorted (map on_startTime occs) \<and>
    mset (map entry occs) = mset (map (\<lambda>i. (Some i, start_at parseDate train paced i, disabled_at paced i)) [0..<nat n]) +
      mset (map (\<lambda>e. (None, parseDate (the (cg_start_time e)), False)) (additions paced))"
proof -
  let ?i = "formatEditoastIdToPacedTrainId (of_int (tm_id (dt_props train)))"
  obtain indexed where i: "map_result (indexed_occurrence parseDate stocks train paced ?i) [0..<nat n] = Inr indexed"
    "map entry indexed = map (\<lambda>i. (Some i, start_at parseDate train paced i, disabled_at paced i)) [0..<nat n]"
    using map_result_entries [of "[0..<nat n]" "indexed_occurrence parseDate stocks train paced ?i" entry,
        OF indexed_occurrence_entry] by blast
  obtain added where a: "map_result (added_occurrence parseDate stocks train ?i) (dp_exceptions paced) = Inr added"
    "map (map entry) added =
       map (\<lambda>e. if ex_occurrence_index e = None then [(None, parseDate (the (cg_start_time e)), False)] else []) (dp_exceptions paced)"
    using map_result_entries [of "dp_exceptions paced" "added_occurrence parseDate stocks train ?i" "map entry",
        OF added_occurrence_entry] assms(2) by blast
  have "map entry (concat added) = map (\<lambda>e. (None, parseDate (the (cg_start_time e)), False)) (additions paced)"
    unfolding map_concat a(2) additions_def by (rule concat_if)
  then have "mset (map entry (indexed @ concat added)) =
      mset (map (\<lambda>i. (Some i, start_at parseDate train paced i, disabled_at paced i)) [0..<nat n]) +
      mset (map (\<lambda>e. (None, parseDate (the (cg_start_time e)), False)) (additions paced))"
    using i(2) by simp
  moreover have "occurrences parseDate stocks train paced = Inr (sort_key on_startTime (indexed @ concat added))"
    unfolding occurrences_def Let_def assms(1) bind_result.simps i(1) a(1) ..
  ultimately show ?thesis by (simp add: mset_map)
qed

section \<open>The number of occurrences\<close>

lemma count_label: "occurrenceCountLabel occs paced = int (length occs) - int (length (filter (\<lambda>e. ex_disabled e = Some True) (dp_exceptions paced)))"
proof -
  have "foldl (\<lambda>acc e. if ex_disabled e = Some True then acc - 1 else acc) n es =
      n - int (length (filter (\<lambda>e. ex_disabled e = Some True) es))" for n :: int and es :: "simulated_exception list"
    by (induction es arbitrary: n) auto
  then show ?thesis by (simp add: occurrenceCountLabel_def)
qed

definition indices_distinct :: "simulated_exception list \<Rightarrow> bool" where
  "indices_distinct es \<longleftrightarrow> distinct (map ex_occurrence_index (filter (\<lambda>e. ex_occurrence_index e \<noteq> None) es))"

lemma exception_at_unique:
  "indices_distinct es \<Longrightarrow> e \<in> set es \<Longrightarrow> ex_occurrence_index e = Some i \<Longrightarrow> exception_at es i = Some e"
proof (induction es)
  case (Cons x es)
  then show ?case by (cases "ex_occurrence_index x") (force simp: indices_distinct_def exception_at_def)+
qed simp

lemma disabled_indices:
  assumes "indices_distinct (dp_exceptions paced)"
    and "\<forall>e \<in> set (dp_exceptions paced). ex_disabled e = Some True \<longrightarrow> (\<exists>i < n. ex_occurrence_index e = Some i)"
  shows "length (filter (disabled_at paced) [0..<n]) = length (filter (\<lambda>e. ex_disabled e = Some True) (dp_exceptions paced))"
proof -
  let ?es = "dp_exceptions paced"
  let ?ds = "filter (\<lambda>e. ex_disabled e = Some True) ?es"
  have "distinct (map ex_occurrence_index ?ds)"
  proof -
    have "filter (\<lambda>e. ex_disabled e = Some True) (filter (\<lambda>e. ex_occurrence_index e \<noteq> None) ?es) = ?ds"
      unfolding filter_filter using assms(2) by (intro filter_cong) auto
    moreover have "distinct (map ex_occurrence_index (filter q (filter (\<lambda>e. ex_occurrence_index e \<noteq> None) ?es)))" for q
      using assms(1) unfolding indices_distinct_def by (rule distinct_map_filter)
    ultimately show ?thesis by metis
  qed
  moreover have "set (map ex_occurrence_index ?ds) = set (map Some (filter (disabled_at paced) [0..<n]))" (is "?A = ?B")
  proof (intro equalityI subsetI)
    fix x assume "x \<in> ?A"
    then obtain e i where e: "e \<in> set ?es" "ex_disabled e = Some True" "i < n" "ex_occurrence_index e = Some i" "x = Some i"
      using assms(2) by auto
    then show "x \<in> ?B" using exception_at_unique [OF assms(1) e(1,4)] by (simp add: disabled_at_def)
  next
    fix x assume "x \<in> ?B"
    then obtain i e where "x = Some i" "exception_at ?es i = Some e" "ex_disabled e = Some True"
      by (auto simp: disabled_at_def split: Option.bind_splits)
    then show "x \<in> ?A" by (force simp: exception_at_def find_Some_iff)
  qed
  moreover have "distinct (map Some (filter (disabled_at paced) [0..<n]))" by (simp add: distinct_map)
  ultimately have "length (map ex_occurrence_index ?ds) = length (map Some (filter (disabled_at paced) [0..<n]))"
    by (metis distinct_card)
  then show ?thesis by simp
qed

text \<open>The label of the list is the number of the occurrences that are not disabled, as long as only listed occurrences are.\<close>

lemma occurrence_count_correct:
  assumes "getOccurrencesNb (dp_timeWindow paced) (dp_interval paced) = Inr n"
    and "\<forall>e \<in> set (dp_exceptions paced). ex_occurrence_index e = None \<longrightarrow> cg_start_time e \<noteq> None"
    and "indices_distinct (dp_exceptions paced)"
    and "\<forall>e \<in> set (dp_exceptions paced). ex_disabled e = Some True \<longrightarrow> (\<exists>i < nat n. ex_occurrence_index e = Some i)"
  shows "\<exists>occs. occurrences parseDate stocks train paced = Inr occs \<and>
    occurrenceCountLabel occs paced = int (length (filter (\<lambda>occ. on_disabled occ \<noteq> Some True) occs))"
proof -
  obtain occs where occs: "occurrences parseDate stocks train paced = Inr occs"
    "mset (map entry occs) = mset (map (\<lambda>i. (Some i, start_at parseDate train paced i, disabled_at paced i)) [0..<nat n]) +
      mset (map (\<lambda>e. (None, parseDate (the (cg_start_time e)), False)) (additions paced))"
    using occurrences_listed [OF assms(1,2), of parseDate stocks train] by blast
  have count: "size (filter_mset P (mset (map f xs))) = length (filter (\<lambda>x. P (f x)) xs)" for P and f :: "'x \<Rightarrow> 'y" and xs
    by (induction xs) auto
  have "length (filter (\<lambda>occ. on_disabled occ = Some True) occs) = size (filter_mset (\<lambda>(_, _, d). d) (mset (map entry occs)))"
    unfolding count by (simp add: entry_def)
  also have "\<dots> = length (filter (disabled_at paced) [0..<nat n])"
    unfolding occs(2) filter_union_mset size_union count by simp
  finally have "length (filter (\<lambda>occ. on_disabled occ = Some True) occs) = length (filter (\<lambda>e. ex_disabled e = Some True) (dp_exceptions paced))"
    using disabled_indices [OF assms(3,4)] by simp
  then have "occurrenceCountLabel occs paced = int (length (filter (\<lambda>occ. on_disabled occ \<noteq> Some True) occs))"
    unfolding count_label using sum_length_filter_compl [of "\<lambda>occ. on_disabled occ = Some True" occs] by linarith
  with occs(1) show ?thesis by blast
qed

text \<open>A disabled exception beyond the last occurrence, as a shorter time window leaves it, is still subtracted.\<close>

lemma stale_disabled_exception_counted:
  "occurrenceCountLabel occs (paced\<lparr>dp_exceptions := [e\<lparr>ex_disabled := Some True\<rparr>]\<rparr>) = int (length occs) - 1"
  unfolding count_label by simp

text \<open>An exception that does not change the rolling stock never matches the filter on the rolling stock of its train.\<close>

lemma inherited_stock_not_matched:
  assumes "cg_rolling_stock e = None" "tf_rollingStock f \<noteq> []"
  shows "\<not> filterTimetableItem f (exception_item stocks t e)"
  using assms by (simp add: filterTimetableItem_def exception_item_def stock_kept_def)

end
