(* ===== verification/XmlImportProperties.thy ===== *)
theory XmlImportProperties
  imports XmlImport TimetableListProperties TrackOccupancyProperties ExceptionProperties
begin

text \<open>
  What the import of a group of trains promises: the paced train that it builds runs exactly at the times of the imported trains.
  The trains that match no occurrence are added, the occurrences that match no train are disabled, and the others have an exception
  where they differ.
\<close>

section \<open>Exceptions and their occurrences\<close>

lemma base_steps_total: "\<exists>steps. base_steps parse path sch m = Inr steps"
proof -
  have "map_result (computeBasePathStep parse path sch m) [0..<length path] =
      Inr (map (\<lambda>i. projr (computeBasePathStep parse path sch m i)) [0..<length path])"
    by (rule map_result_total) (simp add: computeBasePathStep_def Let_def)
  then show ?thesis unfolding base_steps_def by blast
qed

lemma generate_start:
  "\<exists>g. generatePacedTrainException parse parseDate updated original idx = Inr g \<and>
     cg_start_time g =
       (if idx = None \<or> expected_start parse parseDate (ts_start_time original) (pc_interval (pt_paced original)) idx \<noteq>
          drop_milliseconds (parseDate (ts_start_time updated)) then Some (ts_start_time updated) else None)"
proof -
  obtain a b where "base_steps parse (ts_path original) (ts_schedule original) (ts_margins original) = Inr a"
    "base_steps parse (ts_path updated) (ts_schedule updated) (ts_margins updated) = Inr b"
    using base_steps_total by metis
  then show ?thesis unfolding generatePacedTrainException_def by simp
qed

lemma exception_from_fields [simp]:
  "ex_occurrence_index (exception_from g key i d) = i" "ex_disabled (exception_from g key i d) = d"
  "cg_start_time (exception_from g key i d) = cg_start_time g"
  by (simp_all add: exception_from_def change_groups.defs paced_exception.defs)

text \<open>The start of an occurrence by a list of exceptions, and whether it runs.\<close>

definition found_at :: "paced_exception list \<Rightarrow> nat \<Rightarrow> paced_exception option" where
  "found_at es i = find (\<lambda>e. ex_occurrence_index e = Some i) es"

definition runs_at :: "paced_exception list \<Rightarrow> nat \<Rightarrow> bool" where
  "runs_at es i \<longleftrightarrow> Option.bind (found_at es i) ex_disabled \<noteq> Some True"

definition start_by :: "(string \<Rightarrow> date) \<Rightarrow> date \<Rightarrow> duration \<Rightarrow> paced_exception list \<Rightarrow> nat \<Rightarrow> date" where
  "start_by parseDate base interval es i =
     (let start = Option.bind (found_at es i) cg_start_time in
      if truthy start then parseDate (the start) else base + int i * dur_ms interval)"

lemma found_at_append: "found_at (es @ fs) i = (case found_at es i of None \<Rightarrow> found_at fs i | Some e \<Rightarrow> Some e)"
  unfolding found_at_def by (induction es) auto

lemma found_at_None: "(\<And>e. e \<in> set es \<Longrightarrow> ex_occurrence_index e \<noteq> Some i) \<Longrightarrow> found_at es i = None"
  unfolding found_at_def by (simp add: find_None_iff)

lemma found_same:
  assumes "\<And>e. e \<in> set fs \<Longrightarrow> ex_occurrence_index e \<noteq> Some i"
  shows "found_at (es @ fs) i = found_at es i"
  using found_at_None [OF assms] by (simp add: found_at_append split: option.split)

section \<open>Matching\<close>

lemma bestCandidate_mem: "bestCandidate parseDate interval start xs = Some b \<Longrightarrow> b \<in> set xs"
proof -
  have "\<forall>r. foldl (nearer parseDate interval start) best xs = Some r \<longrightarrow> fst r \<in> set xs \<or> best = Some r" for best
    by (induction xs arbitrary: best) (auto simp: nearer_def Let_def)
  then show "bestCandidate parseDate interval start xs = Some b \<Longrightarrow> b \<in> set xs" by (fastforce simp: bestCandidate_def)
qed

text \<open>The trains that are matched, and the invariant of the matching after the first occurrences.\<close>

definition matched :: "train_schedule list \<Rightarrow> matching \<Rightarrow> train_schedule list" where
  "matched xs st = filter (\<lambda>s. ts_start_time s \<in> set (mt_keys st)) xs"

definition running_starts :: "(string \<Rightarrow> date) \<Rightarrow> date \<Rightarrow> duration \<Rightarrow> paced_exception list \<Rightarrow> nat \<Rightarrow> date multiset" where
  "running_starts parseDate base interval es k = mset (map (start_by parseDate base interval es) (filter (runs_at es) [0..<k]))"

definition matching_inv :: "(string \<Rightarrow> date) \<Rightarrow> date \<Rightarrow> duration \<Rightarrow> train_schedule list \<Rightarrow> nat \<Rightarrow> matching \<Rightarrow> bool" where
  "matching_inv parseDate base interval xs k st \<longleftrightarrow>
     (\<forall>e \<in> set (mt_exceptions st). \<exists>i < k. ex_occurrence_index e = Some i) \<and>
     running_starts parseDate base interval (mt_exceptions st) k = image_mset (\<lambda>s. parseDate (ts_start_time s)) (mset (matched xs st))"

lemma running_starts_Suc:
  assumes "\<forall>e \<in> set fs. ex_occurrence_index e = Some k" "\<forall>e \<in> set es. \<exists>i < k. ex_occurrence_index e = Some i"
  shows "running_starts parseDate base interval (es @ fs) (Suc k) =
    running_starts parseDate base interval es k +
    (if Option.bind (found_at fs k) ex_disabled \<noteq> Some True
     then {#(let s = Option.bind (found_at fs k) cg_start_time in if truthy s then parseDate (the s) else base + int k * dur_ms interval)#} else {#})"
proof -
  have below: "found_at (es @ fs) i = found_at es i" if "i < k" for i
    using assms(1) that by (intro found_same) auto
  have "found_at es k = None" using assms(2) by (intro found_at_None) auto
  then have last: "found_at (es @ fs) k = found_at fs k" by (simp add: found_at_append)
  have "map (start_by parseDate base interval (es @ fs)) (filter (runs_at (es @ fs)) [0..<k]) =
      map (start_by parseDate base interval es) (filter (runs_at es) [0..<k])"
    by (intro map_cong filter_cong) (simp_all add: runs_at_def start_by_def below)
  then show ?thesis unfolding running_starts_def by (simp add: runs_at_def start_by_def last Let_def)
qed

lemma matched_insert:
  assumes "distinct (map ts_start_time xs)" "b \<in> set xs" "ts_start_time b \<notin> set (mt_keys st)"
  shows "mset (matched xs (st\<lparr>mt_keys := ts_start_time b # mt_keys st\<rparr>)) = add_mset b (mset (matched xs st))"
  using assms
proof (induction xs)
  case (Cons x xs)
  show ?case
  proof (cases "x = b")
    case True
    then have "ts_start_time s \<noteq> ts_start_time b" if "s \<in> set xs" for s
      using Cons.prems(1) that by (metis distinct.simps(2) imageI list.map(2) list.set_map)
    then have "filter (\<lambda>s. ts_start_time s = ts_start_time b \<or> ts_start_time s \<in> set (mt_keys st)) xs =
        filter (\<lambda>s. ts_start_time s \<in> set (mt_keys st)) xs" by (intro filter_cong) auto
    with True Cons.prems(3) show ?thesis by (simp add: matched_def)
  next
    case False
    then have "b \<in> set xs" using Cons.prems(2) by simp
    then have "ts_start_time x \<noteq> ts_start_time b" using Cons.prems(1) by (metis distinct.simps(2) imageI list.map(2) list.set_map)
    with False Cons show ?thesis by (simp add: matched_def)
  qed
qed simp

text \<open>The dates of the imported trains and the interval are whole seconds, and start times are not empty.\<close>

definition whole_seconds :: "(string \<Rightarrow> date) \<Rightarrow> train_schedule list \<Rightarrow> bool" where
  "whole_seconds parseDate xs \<longleftrightarrow> (\<forall>s \<in> set xs. ts_start_time s \<noteq> [] \<and> parseDate (ts_start_time s) mod 1000 = 0)"

lemma match_occurrence_step:
  assumes inv: "matching_inv parseDate (parseDate (ts_start_time original)) interval xs k st"
    and "distinct (map ts_start_time xs)" "whole_seconds parseDate xs"
    and "parseDate (ts_start_time original) mod 1000 = 0" "dur_ms interval mod 1000 = 0" "parse (pc_interval (pt_paced original)) = interval"
  shows "\<exists>st'. match_occurrence parse parseDate uuid xs interval first original st k = Inr st' \<and>
    matching_inv parseDate (parseDate (ts_start_time original)) interval xs (Suc k) st'"
proof -
  let ?base = "parseDate (ts_start_time original)"
  let ?start = "addDurationToDate first (Duration (int k * dur_ms interval))"
  let ?available = "filter (\<lambda>s. ts_start_time s \<notin> set (mt_keys st)) xs"
  have es: "\<forall>e \<in> set (mt_exceptions st). \<exists>i < k. ex_occurrence_index e = Some i"
    and starts: "running_starts parseDate ?base interval (mt_exceptions st) k = image_mset (\<lambda>s. parseDate (ts_start_time s)) (mset (matched xs st))"
    using inv by (auto simp: matching_inv_def)
  note Suc = running_starts_Suc [OF _ es, of _ parseDate ?base interval]
  have exception_ok: "\<forall>e \<in> set (mt_exceptions st @ fs). \<exists>i < Suc k. ex_occurrence_index e = Some i"
    if "\<forall>e \<in> set fs. ex_occurrence_index e = Some k" for fs using es that by (auto intro: less_SucI)
  show ?thesis
  proof (cases "bestCandidate parseDate interval ?start ?available")
    case None
    let ?e = "exception_from no_groups (uuid (mt_next st)) (Some k) (Some True)"
    have "found_at [?e] k = Some ?e" by (simp add: found_at_def)
    then have "running_starts parseDate ?base interval (mt_exceptions st @ [?e]) (Suc k) = running_starts parseDate ?base interval (mt_exceptions st) k"
      using Suc [of "[?e]"] by simp
    with None exception_ok [of "[?e]"] starts show ?thesis
      by (simp add: match_occurrence_def Let_def matching_inv_def matched_def)
  next
    case (Some best)
    then have b: "best \<in> set xs" "ts_start_time best \<notin> set (mt_keys st)" using bestCandidate_mem by fastforce+
    then have whole: "ts_start_time best \<noteq> []" "parseDate (ts_start_time best) mod 1000 = 0" using assms(3) by (auto simp: whole_seconds_def)
    obtain g where g: "generatePacedTrainException parse parseDate best original (Some (int k)) = Inr g"
      "cg_start_time g = (if expected_start parse parseDate (ts_start_time original) (pc_interval (pt_paced original)) (Some (int k)) \<noteq>
          drop_milliseconds (parseDate (ts_start_time best)) then Some (ts_start_time best) else None)"
      using generate_start [of parse parseDate best original "Some (int k)"] by auto
    have "(?base + int k * dur_ms interval) mod 1000 = 0"
      using assms(4,5) by (simp add: mod_add_eq [symmetric] mod_mult_right_eq [symmetric])
    then have "expected_start parse parseDate (ts_start_time original) (pc_interval (pt_paced original)) (Some (int k)) = ?base + int k * dur_ms interval"
      by (simp add: expected_start_def computeIndexedOccurrenceStartTime_def drop_milliseconds_def assms(6) duration_defs)
    then have start: "cg_start_time g = (if ?base + int k * dur_ms interval \<noteq> parseDate (ts_start_time best) then Some (ts_start_time best) else None)"
      using g(2) whole(2) by (simp add: drop_milliseconds_def)
    define fs where "fs = (if g\<lparr>cg_train_name := None\<rparr> \<noteq> no_groups then [exception_from (g\<lparr>cg_train_name := None\<rparr>) (uuid (mt_next st)) (Some k) None] else [])"
    have "cg_start_time g = None" if "fs = []"
    proof -
      from that have "g\<lparr>cg_train_name := None\<rparr> = no_groups" by (simp add: fs_def split: if_splits)
      then have "cg_start_time (g\<lparr>cg_train_name := None\<rparr>) = cg_start_time no_groups" by (rule arg_cong)
      then show ?thesis by (simp add: no_groups_def)
    qed
    then have found: "Option.bind (found_at fs k) cg_start_time = cg_start_time g" "Option.bind (found_at fs k) ex_disabled = None"
      by (auto simp: fs_def found_at_def split: if_splits)
    have fs_k: "\<forall>e \<in> set fs. ex_occurrence_index e = Some k" by (simp add: fs_def)
    have "(let s = Option.bind (found_at fs k) cg_start_time in if truthy s then parseDate (the s) else ?base + int k * dur_ms interval) =
        parseDate (ts_start_time best)"
      unfolding found(1) start using whole(1) by (simp add: truthy_def)
    then have run: "running_starts parseDate ?base interval (mt_exceptions st @ fs) (Suc k) =
        image_mset (\<lambda>s. parseDate (ts_start_time s)) (mset (matched xs (st\<lparr>mt_keys := ts_start_time best # mt_keys st\<rparr>)))"
      unfolding Suc [OF fs_k] found(2) starts matched_insert [OF assms(2) b] by simp
    define st' where "st' = (if fs \<noteq> [] then st\<lparr>mt_keys := ts_start_time best # mt_keys st, mt_exceptions := mt_exceptions st @ fs, mt_next := mt_next st + 1\<rparr>
      else st\<lparr>mt_keys := ts_start_time best # mt_keys st\<rparr>)"
    have "match_occurrence parse parseDate uuid xs interval first original st k = Inr st'"
      using Some g(1) by (simp add: match_occurrence_def Let_def st'_def fs_def)
    moreover have "mt_exceptions st' = mt_exceptions st @ fs" "mt_keys st' = ts_start_time best # mt_keys st" by (simp_all add: st'_def)
    ultimately show ?thesis using run exception_ok [OF fs_k] by (auto simp: matching_inv_def matched_def)
  qed
qed

lemma match_occurrences:
  assumes "distinct (map ts_start_time xs)" "whole_seconds parseDate xs"
    and "parseDate (ts_start_time original) mod 1000 = 0" "dur_ms interval mod 1000 = 0" "parse (pc_interval (pt_paced original)) = interval"
  shows "\<exists>st'. fold_result (match_occurrence parse parseDate uuid xs interval first original) \<lparr>mt_keys = [], mt_exceptions = [], mt_next = n\<rparr> [0..<k] = Inr st' \<and>
    matching_inv parseDate (parseDate (ts_start_time original)) interval xs k st'"
proof (induction k)
  case 0
  show ?case by (simp add: matching_inv_def running_starts_def matched_def)
next
  case (Suc k)
  then obtain st where st: "fold_result (match_occurrence parse parseDate uuid xs interval first original) \<lparr>mt_keys = [], mt_exceptions = [], mt_next = n\<rparr> [0..<k] = Inr st"
    "matching_inv parseDate (parseDate (ts_start_time original)) interval xs k st" by blast
  from match_occurrence_step [of parseDate original interval xs k st parse uuid first, OF st(2) assms] st(1) show ?case by (auto simp: fold_result_append)
qed

lemma add_unmatched_all:
  "\<exists>st' added. fold_result (add_unmatched parse parseDate uuid original) st xs = Inr st' \<and> mt_exceptions st' = mt_exceptions st @ added \<and>
     (\<forall>e \<in> set added. ex_occurrence_index e = None) \<and>
     map cg_start_time added = map (\<lambda>s. Some (ts_start_time s)) (filter (\<lambda>s. ts_start_time s \<notin> set (mt_keys st)) xs)"
proof (induction xs arbitrary: st)
  case (Cons x xs)
  show ?case
  proof (cases "ts_start_time x \<in> set (mt_keys st)")
    case True
    with Cons.IH [of st] show ?thesis by (simp add: add_unmatched_def)
  next
    case False
    obtain g where g: "generatePacedTrainException parse parseDate x original None = Inr g" "cg_start_time g = Some (ts_start_time x)"
      using generate_start [of parse parseDate x original None] by auto
    let ?e = "exception_from (g\<lparr>cg_train_name := None\<rparr>) (uuid (mt_next st)) None None"
    define st1 where "st1 = st\<lparr>mt_exceptions := mt_exceptions st @ [?e], mt_next := mt_next st + 1\<rparr>"
    have "add_unmatched parse parseDate uuid original st x = Inr st1" using False g(1) by (simp add: add_unmatched_def st1_def)
    moreover have "mt_keys st1 = mt_keys st" "mt_exceptions st1 = mt_exceptions st @ [?e]" by (simp_all add: st1_def)
    moreover obtain st' added where "fold_result (add_unmatched parse parseDate uuid original) st1 xs = Inr st'"
      "mt_exceptions st' = mt_exceptions st1 @ added" "\<forall>e \<in> set added. ex_occurrence_index e = None"
      "map cg_start_time added = map (\<lambda>s. Some (ts_start_time s)) (filter (\<lambda>s. ts_start_time s \<notin> set (mt_keys st1)) xs)"
      using Cons.IH [of st1] by blast
    ultimately show ?thesis using False g(2) by (intro exI [of _ st'] exI [of _ "?e # added"]) auto
  qed
qed simp

section \<open>The imported train\<close>

text \<open>The occurrences that the time window holds are those that the trains are matched to, when the last train does not
  start within the first half of an interval after an occurrence.\<close>

definition window_fits :: "int \<Rightarrow> int \<Rightarrow> bool" where
  "window_fits time interval \<longleftrightarrow> time mod interval = 0 \<or> interval \<le> 2 * (time mod interval)"

lemma round_div:
  assumes "0 < b"
  shows "js_round (of_int a / of_int b) = a div b + (if b \<le> 2 * (a mod b) then 1 else 0)"
proof -
  have eq: "(of_int a / of_int b :: num) + 1 / 2 = of_int (2 * a + b) / of_int (2 * b)" using assms by (simp add: field_simps)
  have "js_round (of_int a / of_int b) = (2 * a + b) div (2 * b)"
    unfolding js_round_def eq by (rule floor_divide_of_int_eq)
  also have "\<dots> = a div b + (if b \<le> 2 * (a mod b) then 1 else 0)"
  proof -
    have "(a div b) * (2 * b) = 2 * (a div b * b)" by simp
    then have "2 * a + b = (2 * (a mod b) + b) + (a div b) * (2 * b)" using div_mult_mod_eq [of a b] by linarith
    moreover have "((2 * (a mod b) + b) + (a div b) * (2 * b)) div (2 * b) = a div b + (2 * (a mod b) + b) div (2 * b)"
      using assms by (intro div_mult_self1) simp
    ultimately have "(2 * a + b) div (2 * b) = a div b + (2 * (a mod b) + b) div (2 * b)" by metis
    moreover have "(2 * (a mod b) + b) div (2 * b) = (if b \<le> 2 * (a mod b) then 1 else 0)"
      using assms pos_mod_bound [OF assms, of a] pos_mod_sign [OF assms, of a]
      by (auto simp: div_pos_pos_trivial intro!: int_div_pos_eq [of _ _ _ "2 * (a mod b) - b"])
    ultimately show ?thesis by simp
  qed
  finally show ?thesis .
qed

lemma ceiling_div:
  assumes "(0 :: int) < b"
  shows "\<lceil>(of_int a / of_int b :: num)\<rceil> = a div b + (if a mod b = 0 then 0 else 1)"
proof -
  have "- (of_int a / of_int b :: num) = of_int (- a) / of_int b" by simp
  then have "\<lceil>(of_int a / of_int b :: num)\<rceil> = - ((- a) div b)" unfolding ceiling_def by (metis floor_divide_of_int_eq)
  then show ?thesis using assms by (simp add: zdiv_zminus1_eq_if)
qed

lemma expected_occurrences_div:
  assumes "0 < dur_ms interval"
  shows "expected_occurrences first last1 interval =
    (last1 - first) div dur_ms interval + (if dur_ms interval \<le> 2 * ((last1 - first) mod dur_ms interval) then 1 else 0) + 1"
proof -
  have "duration_total d Minute / duration_total interval Minute = of_int (dur_ms d) / of_int (dur_ms interval)" for d
    by (simp add: duration_total_def MINUTE_IN_MS_def SECOND_IN_MS_def)
  then have "duration_total (subtractDate last1 first) Minute / duration_total interval Minute = of_int (last1 - first) / of_int (dur_ms interval)"
    by (simp add: duration_defs)
  then show ?thesis unfolding expected_occurrences_def using round_div [OF assms, of "last1 - first"] by simp
qed

lemma expected_nonneg: "0 < dur_ms interval \<Longrightarrow> first \<le> last1 \<Longrightarrow> 0 \<le> expected_occurrences first last1 interval"
  unfolding expected_occurrences_div by (simp add: pos_imp_zdiv_nonneg_iff)

lemma expected_count:
  assumes "0 < dur_ms interval"
  shows "getOccurrencesNb (duration_add (subtractDate last1 first) interval) interval =
    Inr (expected_occurrences first last1 interval + (if window_fits (last1 - first) (dur_ms interval) then 0 else 1))"
proof -
  let ?a = "last1 - first" and ?b = "dur_ms interval"
  have "\<lceil>(of_int (?a + ?b) / of_int ?b :: num)\<rceil> = ?a div ?b + 1 + (if ?a mod ?b = 0 then 0 else 1)"
    unfolding ceiling_div [OF assms] using assms by simp
  then have "getOccurrencesNb (duration_add (subtractDate last1 first) interval) interval = Inr (?a div ?b + 1 + (if ?a mod ?b = 0 then 0 else 1))"
    using assms by (simp add: getOccurrencesNb_def duration_defs)
  then show ?thesis
    unfolding expected_occurrences_div [OF assms] window_fits_def using assms pos_mod_sign [OF assms, of ?a] by auto
qed

text \<open>The details of the imported train list the occurrences of its exceptions.\<close>

lemma found_simulated:
  "exception_at (map (\<lambda>e. paced_exception.extend e (f e)) es) i = map_option (\<lambda>e. paced_exception.extend e (f e)) (found_at es i)"
  unfolding exception_at_def found_at_def by (induction es) (simp_all add: paced_exception.defs)

lemma details_entries:
  assumes "tp_paced item = Some paced"
  shows "\<exists>pd. dt_paced (formatPacedTrainWithDetails parseDate parse item stock summary) = Some pd \<and>
    dp_timeWindow pd = parse (pc_time_window paced) \<and> dp_interval pd = parse (pc_interval paced) \<and>
    start_at parseDate (formatPacedTrainWithDetails parseDate parse item stock summary) pd =
      start_by parseDate (parseDate (ts_start_time item)) (parse (pc_interval paced)) (pc_exceptions paced) \<and>
    disabled_at pd = (\<lambda>i. \<not> runs_at (pc_exceptions paced) i) \<and>
    map (\<lambda>e. (ex_occurrence_index e, cg_start_time e)) (dp_exceptions pd) =
      map (\<lambda>e. (ex_occurrence_index e, cg_start_time e)) (pc_exceptions paced)"
proof -
  have same: "cg_start_time (paced_exception.extend e x) = cg_start_time e" "ex_disabled (paced_exception.extend e x) = ex_disabled e"
    "ex_occurrence_index (paced_exception.extend e x) = ex_occurrence_index e" for e x
    by (simp_all add: paced_exception.defs)
  have bind: "Option.bind (map_option (\<lambda>e. paced_exception.extend e (f e)) r) cg_start_time = Option.bind r cg_start_time"
    "Option.bind (map_option (\<lambda>e. paced_exception.extend e (f e)) r) ex_disabled = Option.bind r ex_disabled" for f r
    by (cases r; simp add: same)+
  show ?thesis
    using assms by (simp add: formatPacedTrainWithDetails_def simulated_exceptions_def start_at_def [abs_def] start_by_def [abs_def]
        disabled_at_def [abs_def] runs_at_def [abs_def] found_simulated bind same Let_def cong: if_cong)
qed

lemma entries_running:
  assumes "mset (map entry occs) = mset (map (\<lambda>i. (Some i, start i, disabled i)) [0..<k]) + mset (map (\<lambda>e. (None, added e, False)) es)"
  shows "image_mset on_startTime (filter_mset (\<lambda>occ. on_disabled occ \<noteq> Some True) (mset occs)) =
    mset (map start (filter (\<lambda>i. \<not> disabled i) [0..<k])) + mset (map added es)"
proof -
  have "image_mset on_startTime (filter_mset (\<lambda>occ. on_disabled occ \<noteq> Some True) (mset occs)) =
      image_mset (\<lambda>(_, s, _). s) (filter_mset (\<lambda>(_, _, d). \<not> d) (mset (map entry occs)))"
    by (induction occs) (auto simp: entry_def)
  also have "\<dots> = mset (map start (filter (\<lambda>i. \<not> disabled i) [0..<k])) + mset (map added es)"
  proof -
    have "image_mset (\<lambda>(_, s, _). s) (filter_mset (\<lambda>(_, _, d). \<not> d) (mset (map (\<lambda>i. (Some i, start i, disabled i)) is))) =
        mset (map start (filter (\<lambda>i. \<not> disabled i) is))" for "is" by (induction "is") auto
    moreover have "image_mset (\<lambda>(_, s, _). s) (filter_mset (\<lambda>(_, _, d). \<not> d) (mset (map (\<lambda>e. (None :: nat option, added e, False)) es))) = mset (map added es)"
      by (induction es) auto
    ultimately show ?thesis unfolding assms filter_union_mset image_mset_union by (simp only:)
  qed
  finally show ?thesis .
qed

lemma sorted_ends:
  assumes "distinct (map ts_start_time imported)"
  shows "set (js_sort (by_departure parseDate) imported) = set imported" "mset (js_sort (by_departure parseDate) imported) = mset imported"
    "distinct (map ts_start_time (js_sort (by_departure parseDate) imported))"
proof -
  show m: "mset (js_sort (by_departure parseDate) imported) = mset imported" by simp
  then show "set (js_sort (by_departure parseDate) imported) = set imported" by (metis set_mset_mset)
  show "distinct (map ts_start_time (js_sort (by_departure parseDate) imported))"
    using assms m by (metis mset_eq_imp_distinct_iff mset_map)
qed

text \<open>The first and the last departure of the imported trains.\<close>

definition departure_span :: "(string \<Rightarrow> date) \<Rightarrow> train_schedule list \<Rightarrow> int" where
  "departure_span parseDate imported =
     (let byTime = js_sort (by_departure parseDate) imported
      in parseDate (ts_start_time (last byTime)) - parseDate (ts_start_time (hd byTime)))"

lemma departure_span_nonneg:
  assumes "imported \<noteq> []"
  shows "0 \<le> departure_span parseDate imported"
proof -
  let ?byTime = "js_sort (by_departure parseDate) imported"
  have "mset ?byTime = mset imported" by simp
  then obtain x xs where x: "?byTime = x # xs" using assms by (cases ?byTime) auto
  have "orders (by_departure parseDate :: train_schedule \<Rightarrow> _)" by (auto simp: orders_def by_departure_def)
  from sorted_js_sort [OF this, of imported] have "\<forall>y \<in> set xs. by_departure parseDate x y \<le> 0" by (simp add: x)
  then show ?thesis by (cases xs rule: rev_cases) (auto simp: departure_span_def Let_def x by_departure_def)
qed

text \<open>The running occurrences of an imported train: the matched trains, plus those that were added.\<close>

lemma reconciled_payload:
  assumes "2 \<le> length imported" "distinct (map ts_start_time imported)" "whole_seconds parseDate imported" "model \<in> set imported"
    and "0 < dur_ms interval" "dur_ms interval mod 1000 = 0" "\<And>d. parse (print d) = d"
  shows "\<exists>n' payload paced es added k. reconcilePacedTrainOccurrences parse print parseDate uuid n pacedTrainId imported model interval = Inr (n', Some payload) \<and>
    tp_paced payload = Some paced \<and> ts_start_time payload = ts_start_time model \<and> parse (pc_interval paced) = interval \<and>
    getOccurrencesNb (parse (pc_time_window paced)) (parse (pc_interval paced)) =
      Inr (int k + (if window_fits (departure_span parseDate imported) (dur_ms interval) then 0 else 1)) \<and>
    pc_exceptions paced = es @ added \<and>
    (\<forall>e \<in> set es. \<exists>i < k. ex_occurrence_index e = Some i) \<and> (\<forall>e \<in> set added. ex_occurrence_index e = None \<and> cg_start_time e \<noteq> None) \<and>
    running_starts parseDate (parseDate (ts_start_time model)) interval es k + mset (map (\<lambda>e. parseDate (the (cg_start_time e))) added) =
      mset (map (\<lambda>s. parseDate (ts_start_time s)) imported)"
proof -
  let ?byTime = "js_sort (by_departure parseDate) imported"
  define first where "first = parseDate (ts_start_time (hd ?byTime))"
  define last1 where "last1 = parseDate (ts_start_time (last ?byTime))"
  define window where "window = duration_add (subtractDate last1 first) interval"
  define original where "original = uniqueTrainToPacedTrain print model pacedTrainId interval window"
  define k where "k = nat (expected_occurrences first last1 interval)"
  note ends = sorted_ends [OF assms(2), of parseDate]
  have span: "departure_span parseDate imported = last1 - first" by (simp add: departure_span_def first_def last1_def Let_def)
  have "imported \<noteq> []" using assms(1) by auto
  then have k: "int k = expected_occurrences first last1 interval"
    using departure_span_nonneg [of imported parseDate] expected_nonneg [OF assms(5), of first last1] by (simp add: span k_def)
  have byTime: "whole_seconds parseDate ?byTime" using assms(3) ends(1) by (simp add: whole_seconds_def)
  have orig: "ts_start_time original = ts_start_time model" "pt_paced original = \<lparr>pc_time_window = print window, pc_interval = print interval, pc_exceptions = []\<rparr>"
    by (simp_all add: original_def uniqueTrainToPacedTrain_def train_schedule.defs)
  have base: "parseDate (ts_start_time original) mod 1000 = 0" using assms(3,4) by (simp add: orig(1) whole_seconds_def)
  obtain st1 where st1: "fold_result (match_occurrence parse parseDate uuid ?byTime interval first original) \<lparr>mt_keys = [], mt_exceptions = [], mt_next = n\<rparr> [0..<k] = Inr st1"
    "matching_inv parseDate (parseDate (ts_start_time original)) interval ?byTime k st1"
    using match_occurrences [of ?byTime parseDate original interval parse uuid first n k, OF ends(3) byTime base assms(6)] assms(7) orig(2) by auto
  obtain st2 added where st2: "fold_result (add_unmatched parse parseDate uuid original) st1 ?byTime = Inr st2" "mt_exceptions st2 = mt_exceptions st1 @ added"
    "\<forall>e \<in> set added. ex_occurrence_index e = None"
    "map cg_start_time added = map (\<lambda>s. Some (ts_start_time s)) (filter (\<lambda>s. ts_start_time s \<notin> set (mt_keys st1)) ?byTime)"
    using add_unmatched_all [of parse parseDate uuid original st1 ?byTime] by blast
  define payload where "payload = train_schedule.extend (train_schedule.truncate original)
    (train_payload.fields (Some ((pt_paced original)\<lparr>pc_exceptions := mt_exceptions st2\<rparr>)))"
  have "reconcilePacedTrainOccurrences parse print parseDate uuid n pacedTrainId imported model interval = Inr (mt_next st2, Some payload)"
    using assms(1) st1(1) st2(1) unfolding reconcilePacedTrainOccurrences_def Let_def first_def [symmetric] last1_def [symmetric] window_def [symmetric]
      original_def [symmetric] k_def [symmetric] by (simp add: payload_def)
  moreover have "tp_paced payload = Some ((pt_paced original)\<lparr>pc_exceptions := mt_exceptions st2\<rparr>)" "ts_start_time payload = ts_start_time model"
    using orig(1) by (simp_all add: payload_def train_schedule.defs train_payload.defs)
  moreover have "getOccurrencesNb window interval = Inr (int k + (if window_fits (departure_span parseDate imported) (dur_ms interval) then 0 else 1))"
    unfolding window_def expected_count [OF assms(5)] using k by (simp add: span)
  moreover have "\<forall>e \<in> set added. cg_start_time e \<noteq> None"
    using st2(4) by (metis (mono_tags, lifting) imageE list.set_map imageI option.distinct(1))
  moreover have "running_starts parseDate (parseDate (ts_start_time model)) interval (mt_exceptions st1) k + mset (map (\<lambda>e. parseDate (the (cg_start_time e))) added) =
      mset (map (\<lambda>s. parseDate (ts_start_time s)) imported)"
  proof -
    have "map (\<lambda>e. parseDate (the (cg_start_time e))) added = map (\<lambda>s. parseDate (the s)) (map cg_start_time added)" by simp
    also have "\<dots> = map (\<lambda>s. parseDate (ts_start_time s)) (filter (\<lambda>s. ts_start_time s \<notin> set (mt_keys st1)) ?byTime)" unfolding st2(4) by simp
    finally have "mset (map (\<lambda>e. parseDate (the (cg_start_time e))) added) =
        image_mset (\<lambda>s. parseDate (ts_start_time s)) (mset (filter (\<lambda>s. ts_start_time s \<notin> set (mt_keys st1)) ?byTime))" by simp
    moreover have "mset (matched ?byTime st1) + mset (filter (\<lambda>s. ts_start_time s \<notin> set (mt_keys st1)) ?byTime) = mset imported"
      unfolding matched_def mset_filter ends(2) by (rule multiset_partition [symmetric])
    ultimately show ?thesis using st1(2) by (simp add: matching_inv_def orig(1) flip: image_mset_union)
  qed
  moreover have "\<forall>e \<in> set (mt_exceptions st1). \<exists>i < k. ex_occurrence_index e = Some i" using st1(2) by (simp add: matching_inv_def)
  ultimately show ?thesis
    using st2(2,3) orig(2) assms(7)
    by (intro exI [of _ "mt_next st2"] exI [of _ payload] exI [of _ "(pt_paced original)\<lparr>pc_exceptions := mt_exceptions st2\<rparr>"]
        exI [of _ "mt_exceptions st1"] exI [of _ added] exI [of _ k]) simp
qed

section \<open>Model and interval of a group\<close>

lemma count_schedule_mem:
  assumes "\<forall>(k, n, s) \<in> set m. 0 < n \<and> s \<in> S" "t \<in> S"
  shows "(\<forall>(k, n, s) \<in> set (count_schedule m t). 0 < n \<and> s \<in> S) \<and> count_schedule m t \<noteq> []"
proof (cases "map_of m (getRelativeStepsTimeAndNames t)")
  case None
  with assms show ?thesis by (simp add: count_schedule_def Let_def)
next
  case (Some e)
  obtain n s where e: "e = (n, s)" by (cases e)
  with assms(1) Some have "s \<in> S" by (fastforce dest: map_of_SomeD)
  moreover have "m \<noteq> []" using Some by auto
  moreover have "set (AList.update k v m) \<subseteq> insert (k, v) (set m)" for k v by (induction m) auto
  ultimately show ?thesis
    using assms(1) Some e by (fastforce simp: count_schedule_def Let_def dest!: subsetD)
qed

lemma most_frequent_mem:
  assumes "schedules \<noteq> []"
  shows "\<exists>model. fst (findMostFrequentScheduleInPacedTrain schedules) = Some model \<and> model \<in> set schedules"
proof -
  let ?ok = "\<lambda>m. \<forall>(k, n, s) \<in> set m. 0 < n \<and> s \<in> set schedules"
  have "?ok m \<Longrightarrow> set xs \<subseteq> set schedules \<Longrightarrow> ?ok (foldl count_schedule m xs) \<and> (m \<noteq> [] \<or> xs \<noteq> [] \<longrightarrow> foldl count_schedule m xs \<noteq> [])" for m xs
  proof (induction xs arbitrary: m)
    case (Cons x xs)
    have "?ok (count_schedule m x) \<and> count_schedule m x \<noteq> []" using Cons.prems by (intro count_schedule_mem) auto
    with Cons.IH [of "count_schedule m x"] Cons.prems(2) show ?case by auto
  qed simp
  from this [of "[]" schedules] assms obtain e es where "map snd (foldl count_schedule [] schedules) = e # es"
    and es: "\<forall>(n, s) \<in> set (e # es). 0 < n \<and> s \<in> set schedules"
    by (cases "foldl count_schedule [] schedules") (auto simp: case_prod_beta')
  moreover have "\<exists>model n. foldl more_frequent (Some m, c) es = (Some model, n) \<and> model \<in> set schedules"
    if "m \<in> set schedules" "\<forall>(n, s) \<in> set es. 0 < n \<and> s \<in> set schedules" for m c es
    using that by (induction es arbitrary: m c) (auto simp: more_frequent_def)
  moreover obtain c m where "e = (c, m)" by (cases e)
  ultimately obtain model n where "foldl more_frequent (None, 0) (e # es) = (Some model, n)" "model \<in> set schedules"
    using es by (simp add: more_frequent_def) blast
  with \<open>map snd _ = e # es\<close> show ?thesis by (simp add: findMostFrequentScheduleInPacedTrain_def)
qed

lemma rounded_minutes_pos: "0 < rounded_minutes r"
proof -
  consider "r > 5" | "r \<le> 5" "1 \<le> r" | "r < 1" by linarith
  then show ?thesis
  proof cases
    case 1
    then have "1 \<le> \<lfloor>r / 10 + 1 / 2\<rfloor>" by (simp add: le_floor_iff)
    with 1 show ?thesis by (simp add: rounded_minutes_def js_round_def)
  next
    case 2
    then have "1 \<le> \<lfloor>r + 1 / 2\<rfloor>" by (simp add: le_floor_iff)
    with 2 show ?thesis by (simp add: rounded_minutes_def js_round_def)
  qed (simp add: rounded_minutes_def)
qed

lemma most_frequent_interval_pos:
  assumes "\<forall>(minutes, count) \<in> set m. 0 < minutes \<and> 0 < count" "m \<noteq> []"
  shows "0 < fst (foldl more_frequent_interval (0, 0) m)"
proof -
  have "0 < fst (foldl more_frequent_interval best es)" if "0 < fst best" "\<forall>(minutes, count) \<in> set es. 0 < minutes" for best es
    using that by (induction es arbitrary: best) (auto simp: more_frequent_interval_def)
  moreover obtain minutes count es where "m = (minutes, count) # es" using assms(2) by (cases m) auto
  ultimately show ?thesis using assms(1) by (fastforce simp: more_frequent_interval_def)
qed

lemma interval_positive:
  assumes "2 \<le> length schedules"
  shows "0 < dur_ms (getMostFrequentInterval parseDate schedules)" "dur_ms (getMostFrequentInterval parseDate schedules) mod 1000 = 0"
proof -
  let ?ok = "\<lambda>m :: (int \<times> nat) list. \<forall>(minutes, count) \<in> set m. 0 < minutes \<and> 0 < count"
  have step: "?ok (count_interval m x) \<and> count_interval m x \<noteq> []" if "?ok m" "0 < x" for m x
  proof -
    have "set (AList.update k v m) \<subseteq> insert (k, v) (set m)" "AList.update k v m \<noteq> []" for k :: int and v :: nat by (induction m) auto
    with that show ?thesis unfolding count_interval_def by (fastforce split: option.split dest: map_of_SomeD)
  qed
  have fold: "?ok (foldl count_interval m xs) \<and> (xs \<noteq> [] \<longrightarrow> foldl count_interval m xs \<noteq> [])" if "?ok m" "\<forall>x \<in> set xs. 0 < x" for m xs
    using that
  proof (induction xs arbitrary: m)
    case (Cons x xs)
    from step [OF Cons.prems(1), of x] Cons.prems(2) Cons.IH [of "count_interval m x"] show ?case by (cases xs) auto
  qed simp
  define xs where "xs = map (\<lambda>i. rounded_minutes (duration_total (subtractDate (js_sort (\<lambda>a b. a - b) (map (\<lambda>s. parseDate (ts_start_time s)) schedules) ! i)
    (js_sort (\<lambda>a b. a - b) (map (\<lambda>s. parseDate (ts_start_time s)) schedules) ! (i - 1))) Minute)) [1..<length (js_sort (\<lambda>a b. a - b) (map (\<lambda>s. parseDate (ts_start_time s)) schedules))]"
  have "length (js_sort (\<lambda>a b. a - b) (map (\<lambda>s. parseDate (ts_start_time s)) schedules)) = length schedules"
    by (metis length_map mset_js_sort size_mset)
  then have "xs \<noteq> []" "\<forall>x \<in> set xs. 0 < x" using assms rounded_minutes_pos by (auto simp: xs_def)
  with fold [of "[]" xs] have "0 < fst (foldl more_frequent_interval (0, 0) (foldl count_interval [] xs))"
    by (intro most_frequent_interval_pos) auto
  moreover have d: "dur_ms (getMostFrequentInterval parseDate schedules) = (fst (foldl more_frequent_interval (0, 0) (foldl count_interval [] xs)) * 60) * 1000"
    by (simp add: getMostFrequentInterval_def Let_def xs_def duration_defs)
  ultimately show "0 < dur_ms (getMostFrequentInterval parseDate schedules)" by simp
  show "dur_ms (getMostFrequentInterval parseDate schedules) mod 1000 = 0" unfolding d by (rule mod_mult_self2_is_0)
qed

section \<open>Import of a group\<close>

lemma imported_train_runs:
  assumes "tp_paced item = Some paced" "getOccurrencesNb (parse (pc_time_window paced)) (parse (pc_interval paced)) = Inr (int k)"
    and "pc_exceptions paced = es @ added" "\<forall>e \<in> set es. \<exists>i < k. ex_occurrence_index e = Some i"
    and "\<forall>e \<in> set added. ex_occurrence_index e = None \<and> cg_start_time e \<noteq> None"
  shows "\<exists>pd occs. dt_paced (formatPacedTrainWithDetails parseDate parse item stock summary) = Some pd \<and>
    occurrences parseDate stocks (formatPacedTrainWithDetails parseDate parse item stock summary) pd = Inr occs \<and>
    image_mset on_startTime (filter_mset (\<lambda>occ. on_disabled occ \<noteq> Some True) (mset occs)) =
      running_starts parseDate (parseDate (ts_start_time item)) (parse (pc_interval paced)) es k + mset (map (\<lambda>e. parseDate (the (cg_start_time e))) added)"
proof -
  let ?t = "formatPacedTrainWithDetails parseDate parse item stock summary"
  let ?start = "start_by parseDate (parseDate (ts_start_time item)) (parse (pc_interval paced)) (pc_exceptions paced)"
  obtain pd where pd: "dt_paced ?t = Some pd" "dp_timeWindow pd = parse (pc_time_window paced)" "dp_interval pd = parse (pc_interval paced)"
    "start_at parseDate ?t pd = ?start" "disabled_at pd = (\<lambda>i. \<not> runs_at (pc_exceptions paced) i)"
    "map (\<lambda>e. (ex_occurrence_index e, cg_start_time e)) (dp_exceptions pd) = map (\<lambda>e. (ex_occurrence_index e, cg_start_time e)) (pc_exceptions paced)"
    using details_entries [OF assms(1), of parseDate parse stock summary] by blast
  have same: "found_at (es @ added) i = found_at es i" for i using assms(5) by (intro found_same) auto
  have "map (\<lambda>e. parseDate (the (cg_start_time e))) (additions pd) =
      map (\<lambda>x. parseDate (the (snd x))) (filter (\<lambda>x. fst x = None) (map (\<lambda>e. (ex_occurrence_index e, cg_start_time e)) (dp_exceptions pd)))"
    by (simp add: additions_def filter_map comp_def)
  also have "\<dots> = map (\<lambda>e. parseDate (the (cg_start_time e))) added"
  proof -
    have "filter (\<lambda>e. ex_occurrence_index e = None) es = []" using assms(4) by (auto simp: filter_empty_conv)
    moreover have "filter (\<lambda>e. ex_occurrence_index e = None) added = added" using assms(5) by simp
    ultimately show ?thesis unfolding pd(6) assms(3) by (simp add: filter_map comp_def)
  qed
  finally have add: "map (\<lambda>e. parseDate (the (cg_start_time e))) (additions pd) = map (\<lambda>e. parseDate (the (cg_start_time e))) added" .
  have "\<forall>x \<in> set (map (\<lambda>e. (ex_occurrence_index e, cg_start_time e)) (pc_exceptions paced)). fst x = None \<longrightarrow> snd x \<noteq> None"
    using assms(3-5) by auto
  then have "\<forall>e \<in> set (dp_exceptions pd). ex_occurrence_index e = None \<longrightarrow> cg_start_time e \<noteq> None"
    unfolding pd(6) [symmetric] by auto
  from occurrences_listed [OF _ this, of "int k" parseDate stocks ?t] obtain occs where "occurrences parseDate stocks ?t pd = Inr occs"
    "mset (map entry occs) = mset (map (\<lambda>i. (Some i, start_at parseDate ?t pd i, disabled_at pd i)) [0..<k]) +
      mset (map (\<lambda>e. (None, parseDate (the (cg_start_time e)), False)) (additions pd))"
    using assms(2) pd(2,3) by auto
  with entries_running [OF this(2)] pd(1) show ?thesis
    unfolding add pd(4,5) running_starts_def assms(3) by (auto simp: start_by_def [abs_def] runs_at_def [abs_def] same)
qed

text \<open>The paced train that is imported from a group of trains runs exactly at the times of these trains: the occurrences of the
  timetable that are not disabled start when the imported trains do, with as many occurrences as trains at each time.\<close>

lemma imported_group_runs:
  assumes "2 \<le> length schedules" "distinct (map ts_start_time schedules)" "whole_seconds parseDate schedules"
    and "window_fits (departure_span parseDate schedules) (dur_ms (getMostFrequentInterval parseDate schedules))"
    and "\<forall>d. parse (print d) = d"
  shows "\<exists>n' payload. import_group parse print parseDate uuid (n, imported) (pacedTrainId, schedules) = Inr (n', imported @ [payload]) \<and>
    (\<forall>item stock summary. train_payload.truncate item = payload \<longrightarrow>
      (\<exists>paced occs. dt_paced (formatPacedTrainWithDetails parseDate parse item stock summary) = Some paced \<and>
        occurrences parseDate stocks (formatPacedTrainWithDetails parseDate parse item stock summary) paced = Inr occs \<and>
        image_mset on_startTime (filter_mset (\<lambda>occ. on_disabled occ \<noteq> Some True) (mset occs)) =
          mset (map (\<lambda>s. parseDate (ts_start_time s)) schedules)))"
proof -
  let ?interval = "getMostFrequentInterval parseDate schedules"
  have "schedules \<noteq> []" using assms(1) by auto
  from most_frequent_mem [OF this] obtain model where model: "fst (findMostFrequentScheduleInPacedTrain schedules) = Some model" "model \<in> set schedules" by blast
  obtain n' payload paced es added k where r: "reconcilePacedTrainOccurrences parse print parseDate uuid n pacedTrainId schedules model ?interval = Inr (n', Some payload)"
    and p: "tp_paced payload = Some paced" "ts_start_time payload = ts_start_time model" "parse (pc_interval paced) = ?interval"
    "getOccurrencesNb (parse (pc_time_window paced)) (parse (pc_interval paced)) = Inr (int k)" "pc_exceptions paced = es @ added"
    and e: "\<forall>e \<in> set es. \<exists>i < k. ex_occurrence_index e = Some i" "\<forall>e \<in> set added. ex_occurrence_index e = None \<and> cg_start_time e \<noteq> None"
    and starts: "running_starts parseDate (parseDate (ts_start_time model)) ?interval es k + mset (map (\<lambda>e. parseDate (the (cg_start_time e))) added) =
      mset (map (\<lambda>s. parseDate (ts_start_time s)) schedules)"
    using reconciled_payload [OF assms(1-3) model(2) interval_positive [OF assms(1), of parseDate] assms(5) [rule_format], of uuid n pacedTrainId]
    unfolding if_P [OF assms(4)] add_0_right by (elim exE conjE) (rule that; assumption)
  have "import_group parse print parseDate uuid (n, imported) (pacedTrainId, schedules) = Inr (n', imported @ [payload])"
    using model(1) r by (simp add: import_group_def Let_def)
  moreover have "\<exists>pd occs. dt_paced (formatPacedTrainWithDetails parseDate parse item stock summary) = Some pd \<and>
        occurrences parseDate stocks (formatPacedTrainWithDetails parseDate parse item stock summary) pd = Inr occs \<and>
        image_mset on_startTime (filter_mset (\<lambda>occ. on_disabled occ \<noteq> Some True) (mset occs)) = mset (map (\<lambda>s. parseDate (ts_start_time s)) schedules)"
    if "train_payload.truncate item = payload" for item stock summary
  proof -
    have item: "tp_paced item = Some paced" "ts_start_time item = ts_start_time model" using p(1,2) that by (auto simp: train_payload.defs)
    show ?thesis using imported_train_runs [OF item(1) p(4,5) e, of parseDate stock summary stocks] unfolding item(2) p(3) starts .
  qed
  ultimately show ?thesis by blast
qed

section \<open>Limits of the import\<close>

text \<open>The steps that are compared carry the identifiers of the path, which are fresh for every train: the schedules of two trains
  are never equal, and the most frequent one is the first.\<close>

lemma fresh_steps_differ:
  assumes "ts_schedule t = Some (step # steps)" "si_at step \<in> pi_id ` set (ts_path t)" "pi_id ` set (ts_path t) \<inter> pi_id ` set (ts_path u) = {}"
  shows "getRelativeStepsTimeAndNames t \<noteq> getRelativeStepsTimeAndNames u"
proof
  assume eq: "getRelativeStepsTimeAndNames t = getRelativeStepsTimeAndNames u"
  obtain p where p: "find (\<lambda>p. pi_id p = si_at step) (ts_path t) = Some p"
    using assms(2) by (cases "find (\<lambda>p. pi_id p = si_at step) (ts_path t)") (auto simp: find_None_iff)
  then have "(Some p, si_arrival step, si_stop_for step) \<in> set (getRelativeStepsTimeAndNames u)"
    unfolding eq [symmetric] using assms(1) by (simp add: getRelativeStepsTimeAndNames_def)
  then obtain i where "find (\<lambda>p. pi_id p = i) (ts_path u) = Some p" by (auto simp: getRelativeStepsTimeAndNames_def)
  then have "p \<in> set (ts_path t)" "p \<in> set (ts_path u)" using p by (metis find_Some_iff nth_mem)+
  with assms(3) show False by blast
qed

lemma most_frequent_is_first:
  assumes "distinct (map getRelativeStepsTimeAndNames (t # ts))"
  shows "findMostFrequentScheduleInPacedTrain (t # ts) = (Some t, 1)"
proof -
  have counted: "foldl count_schedule m us = m @ map (\<lambda>u. (getRelativeStepsTimeAndNames u, 1, u)) us"
    if "distinct (map fst m @ map getRelativeStepsTimeAndNames us)" for m us
    using that
  proof (induction us arbitrary: m)
    case (Cons u us)
    then have "map_of m (getRelativeStepsTimeAndNames u) = None" by (simp add: map_of_eq_None_iff)
    then show ?case using Cons.prems Cons.IH [of "m @ [(getRelativeStepsTimeAndNames u, 1, u)]"] by (simp add: count_schedule_def)
  qed simp
  have "foldl more_frequent (Some t, 1) (map (\<lambda>u. (1, u)) us) = (Some t, 1)" for us
    by (induction us) (simp_all add: more_frequent_def)
  then show ?thesis
    using counted [of "[]" "t # ts"] assms by (simp add: findMostFrequentScheduleInPacedTrain_def comp_def more_frequent_def)
qed

text \<open>Two trains at a distance of fourteen minutes: the interval is rounded to ten minutes and two occurrences are matched, but the
  time window of twenty four minutes holds three: the last one runs without a train of the file.\<close>

lemma unmatched_last_occurrence:
  "rounded_minutes 14 = 10" "expected_occurrences 0 (14 * 60000) (Duration 600000) = 2"
  "getOccurrencesNb (duration_add (subtractDate (14 * 60000) 0) (Duration 600000)) (Duration 600000) = Inr 3"
  by code_simp+

text \<open>A group with one train gives no paced train, and its train is not imported either, nor any train of the same name.\<close>

lemma single_group_lost:
  assumes "ts_train_name u = ts_train_name t"
  shows "import_trains parse print parseDate uuid n [(g, [t])] [t, u] trains = Inr []"
proof -
  obtain model where "fst (findMostFrequentScheduleInPacedTrain [t]) = Some model" using most_frequent_mem [of "[t]"] by auto
  with assms show ?thesis
    by (simp add: import_trains_def import_group_def reconcilePacedTrainOccurrences_def mapTrainNames_def)
qed

end
