(* ===== verification/Spec2Isabelle.thy ===== *)
theory Spec2Isabelle
  imports IntervalProperties OpStudiesProperties StdcmProperties PowerRanges CellSaving ScaleProperties MacroEventProperties LazyLoaderProperties StdcmSessionProperties SpaceTimeChartProperties TrackOccupancyProperties PathProfileProperties ConflictProperties XmlImportProperties

begin

text \<open>
  \<^bold>\<open>A verification development for the front end of OSRD.\<close>

  OSRD is a railway simulation application. Its front end (TypeScript, \<open>front/src\<close> and the packages of
  \<open>front/ui\<close>) keeps the state of the user interface in redux slices, lets the user edit trains, paths,
  timetables and the metadata of tracks, and talks to a server (\<open>editoast\<close>) that stores and simulates them. This
  development models the parts of the front end that compute: the reducers of the configuration slices, the
  operations on paths, schedules and paced trains, the editor of segments, the scales and the data of the charts, the
  requests for last minute trains, the import of timetables, and the bridge to the macroscopic (netzgrafik) editor.

  \<^bold>\<open>Theories and sources.\<close> File names are relative to \<open>front/src\<close> unless they start with \<open>front\<close>.

  \<^item> \<open>Prelude\<close>, \<open>JsStrings\<close>: the part of JavaScript and lodash that the code relies on, \<open>num\<close> and \<open>result\<close> types, the
    error type \<open>js_error\<close>, and the locale \<open>guarded_reducer\<close> (a step function that keeps an invariant on the
    actions that its guard allows in the state they meet, with the induction over histories proved once; \<open>reducer\<close> is the
    case of a guard that does not depend on the state). \<open>Duration\<close>, \<open>Physics\<close>, \<open>TrainId\<close> model
    \<open>utils/duration.ts\<close>, \<open>utils/physics.ts\<close>, \<open>utils/trainId.ts\<close>.
  \<^item> \<open>LinearMetadata\<close>, \<open>IntervalsEditor\<close>: \<open>common/IntervalsDataViz/data.ts\<close> and \<open>common/IntervalsEditor/utils.ts\<close>. \<open>Tiling\<close>,
    \<open>Repair\<close>, \<open>IntervalProperties\<close>: the segments of a line tile \<open>[0, length]\<close>; resize (with or without
    the prevention of changes of the bounds), merge, split and remove keep the tiling along any editing session, and \<open>fixLinearMetadataItems\<close> establishes it.
  \<^item> \<open>PathSteps\<close>, \<open>CommonConf\<close>, \<open>OpStudiesConf\<close>: \<open>reducers/osrdconf\<close>, with \<open>OpStudiesProofs\<close> and \<open>OpStudiesProperties\<close>: along the
    histories whose actions keep the anchors (\<open>keeps_anchors\<close>) a power restriction starts and ends at steps of the path, and
    cutting adjacent ranges does not change the code in force anywhere.
  \<^item> \<open>StdcmConf\<close>, \<open>StdcmProperties\<close>: \<open>reducers/osrdconf/stdcmConf\<close>, the last minute requests and their simulations.
  \<^item> \<open>PacedTrain\<close>, \<open>PacedTrainProperties\<close>, \<open>ExceptionProperties\<close>: \<open>modules/timetableItem/helpers/pacedTrain.ts\<close> and
    \<open>buildPacedTrainException.ts\<close>. The locale \<open>exception_store\<close> states the contract of the list of exceptions.
  \<^item> \<open>TimetablePayload\<close>, \<open>PayloadProperties\<close>, \<open>CellSaving\<close>: from the edited state to the payload of the server and
    back (\<open>formatTimetableItemPayload.ts\<close>, \<open>useUpdateTimesStopsTable.ts\<close>).
  \<^item> \<open>TimesStops\<close>, \<open>TimesStopsProperties\<close>: \<open>modules/timesStops/helpers\<close>, editing the table of times and stops.
  \<^item> \<open>PathTracks\<close>, \<open>PowerRanges\<close>: positions on a path, voltages and the ranges of the power restriction selector.
  \<^item> \<open>ScaleTree\<close>, \<open>ScaleProperties\<close>: \<open>front/ui/ui-charts/src/spaceTimeChart/utils/scales.ts\<close>; the locale \<open>descent\<close>
    gives the binary search its meaning once for the three lookups.
  \<^item> \<open>NgeTypes\<close>, \<open>MacroState\<close>, \<open>MacroProperties\<close>: the data of the netzgrafik editor and
    \<open>MacroEditor/MacroEditorState.ts\<close>; the locale \<open>node_store\<close> is the contract between the indices and their clients, and
    the storage refines a map from path keys to nodes.
  \<^item> \<open>NgeImport\<close>, \<open>NgeOrder\<close>: \<open>MacroEditor/ngeToOsrd\<close>, from a netzgrafik to trains. \<open>NgeExport\<close>, \<open>NgeRoundTrip\<close>,
    \<open>MacroLoading\<close>: \<open>MacroEditor/osrdToNge.ts\<close>, the loading of the editor and the export of trains; loading
    ends with complete indices unless a request is rejected, and a train exported and read back keeps its path, its departure to
    the minute, and the times of its requested stops.
  \<^item> \<open>ScenarioData\<close>, \<open>ScenarioProperties\<close>: \<open>useScenarioData.ts\<close>, \<open>reducers/simulationResults\<close> and
    \<open>useAutoSelectTrainIds.ts\<close>: the list of trains of a scenario implements a map from identifiers to trains, and the
    selection always refers to a train of the list.
  \<^item> \<open>MacroEvents\<close>, \<open>MacroEventProperties\<close>: the handlers of the events of the macroscopic editor
    (\<open>ngeToOsrd/trainrun.ts\<close>, \<open>node.ts\<close>, \<open>note.ts\<close>, \<open>ngeToOsrd.ts\<close>). A handler is a function of the \<open>world\<close>, the state of the editor, of the
    scenario and of the server, that may stop at any request; what it did before it stopped stays. The server is
    the record \<open>server\<close> of functions, its documented laws are the predicate \<open>timetable_server\<close>: it stores a train in a storage form
    that fills what is missing and keeps the name, the rolling stock, the labels and the identifiers of the path. The rules for
    \<open>valid\<close> (a triple over success and failure) carry the proofs: the trains shown, up to the storage form, and the links of the
    trainruns follow the server through any sequence of events that are awaited. The updates of a label are started and not
    awaited; the handler only records them, and they are outside these theorems.
  \<^item> \<open>LazyLoader\<close>, \<open>LazyLoaderProperties\<close>: the queues of \<open>TrainSimulationLazyLoader.ts\<close> and
    \<open>TrainProjectionLazyLoaderAbstract.ts\<close> with their hooks. The locale \<open>lazy_loader\<close> is their common contract,
    interpreted for the simulation and for the projection; a queue runs dry in at most \<open>work\<close> steps, with a result for every train, when
    every request is answered in full.
  \<^item> \<open>StdcmRequest\<close>, \<open>StdcmSession\<close>, \<open>StdcmRequestProperties\<close>, \<open>StdcmSessionProperties\<close>: \<open>applications/stdcm/utils\<close> and the hooks
    \<open>useStdcmConsist.ts\<close>, \<open>useStdcmForm.ts\<close> and \<open>useStdcm.ts\<close>: the checks of the form, the payload, its alternatives, and the life of the
    requests as a step function on tasks and events. A form without errors gives a complete request, and
    every status that waits has a task that ends it.
  \<^item> \<open>SpaceTimeChart\<close>, \<open>SpaceTimeChartProperties\<close>: \<open>modules/simulationResult/components/SpaceTimeChartWrapper/helpers\<close>: the drawn
    occurrences, the cutting of their curves and the dragging of trains, over any sequence of movements.
  \<^item> \<open>TrackOccupancy\<close>, \<open>TrackZones\<close>, \<open>TrackOccupancyProperties\<close>: \<open>useTrackOccupancy.ts\<close>, the tracks of the deployed waypoints and the
    zones of the trains on them, loaded in batches and kept in step with the trains.
  \<^item> \<open>PathProfiles\<close>, \<open>PathProfileProperties\<close>: \<open>applications/operationalStudies/utils.ts\<close>, the waypoints added on the map and
    \<open>SpeedDistanceDiagram/helpers.ts\<close>: slopes, electrification and its profiles, speed limit tags.
  \<^item> \<open>Conflicts\<close>, \<open>ConflictProperties\<close>: \<open>modules/conflict\<close> and the blocks of level crossings (\<open>buildOccupancyBlocks.ts\<close>).
  \<^item> \<open>TimetableList\<close>, \<open>TimetableListProperties\<close>: the list of the timetable, its summaries, occurrences and filters; the occurrences of a
    train are listed once each in the order of their start.
  \<^item> \<open>XmlImport\<close>, \<open>XmlImportProperties\<close>: \<open>ImportTimetableItem/helpers/parseXML.ts\<close> and its helpers; the paced train imported from a group runs
    at the times of the trains of the group (\<open>imported_group_runs\<close>), as long as the time window holds the expected number of occurrences.

  \<^bold>\<open>Conventions.\<close> A JavaScript number is an exact rational: rounding of floating point operations is not modelled, positions
  are whole millimetres where the code rounds them. \<open>null\<close> and \<open>undefined\<close> are \<open>None\<close>; a dict is an association list
  where its order matters and a map otherwise; an exception is \<open>Inl\<close> of \<open>js_error\<close>, whose constructor \<open>OutOfModel\<close>
  marks the values that a rational cannot represent (\<open>NaN\<close>). Asynchronous handlers are functions of the answers of
  the server that return the requests they send, or handlers over an explicit server.

  \<^bold>\<open>Parameters.\<close> Code outside the repository is an argument: parsing and printing of dates and durations, the
  current date and the time zone offset, fresh identifiers, \<open>Math.hypot\<close>, the geometry library, translations, and the answers of the
  server. The hypotheses on them are stated in the theorems that need them.

  \<^bold>\<open>Bounds.\<close> Every loop of the model is total: structural recursion or a termination proof. The only bound is the
  number of digits printed for the fraction of a number (20, more than the 17 a double has).

  \<^bold>\<open>Not modelled.\<close> React components, map layers and drawing; the generated API client; the redux slices that only store what
  they are given; the services in Rust, Kotlin, Java and Python, which the front end only reaches by requests.
\<close>

end
